(* ===== verification/CJ_Prelude.thy ===== *)
theory CJ_Prelude
  imports Main "HOL-Library.Word"
begin

text \<open>
  Shared vocabulary of the development: the machine integers of the Rust code at their
  width, the result type of a fallible operation, and the lemmas on words and
  lists that every component uses.

  Rust's \<open>u8\<close> to \<open>u128\<close> are \<open>w word\<close> (unsigned reading \<open>unat\<close>); \<open>i32\<close>, \<open>i64\<close> and \<open>i128\<close>
  are the same words read by \<open>sint\<close>, compared by the signed orders. The workspace's
  \<open>Cargo.toml\<close> has no \<open>overflow-checks\<close> in \<open>[profile.release]\<close>, so \<open>+\<close>, \<open>-\<close> and \<open>*\<close>
  wrap around, exactly as the word operations do; \<open>checked_add\<close> and \<open>saturating_sub\<close> are
  defined below. \<open>usize\<close> is 64 bits wide; a length or index that cannot reach
  \<open>2 ^ 64\<close> is a \<open>nat\<close>.
\<close>

section \<open>Machine integers\<close>

type_synonym u8 = "8 word"
type_synonym u16 = "16 word"
type_synonym u32 = "32 word"
type_synonym u64 = "64 word"
type_synonym u128 = "128 word"
type_synonym i32 = "32 word"
type_synonym i64 = "64 word"
type_synonym i128 = "128 word"

named_theorems word_nat_simps \<open>reading word operations as natural numbers\<close>
named_theorems tx_defs \<open>unfolding the steps of a ledger operation\<close>
named_theorems wf_intros \<open>well-formedness of tables is kept\<close>

text \<open>\<open>u*::checked_add\<close>, \<open>u*::checked_sub\<close>, \<open>u*::saturating_sub\<close>, \<open>u*::saturating_add\<close>,
  \<open>u*::saturating_mul\<close> and \<open>u*::checked_mul\<close> of the standard library.\<close>

definition checked_add_word :: "'w::len word \<Rightarrow> 'w word \<Rightarrow> 'w word option" where
  "checked_add_word a b = (if unat a + unat b < 2 ^ LENGTH('w) then Some (a + b) else None)"

definition checked_sub_word :: "'w::len word \<Rightarrow> 'w word \<Rightarrow> 'w word option" where
  "checked_sub_word a b = (if b \<le> a then Some (a - b) else None)"

definition saturating_sub_word :: "'w::len word \<Rightarrow> 'w word \<Rightarrow> 'w word" where
  "saturating_sub_word a b = (if b \<le> a then a - b else 0)"

definition saturating_add_word :: "'w::len word \<Rightarrow> 'w word \<Rightarrow> 'w word" where
  "saturating_add_word a b = (if unat a + unat b < 2 ^ LENGTH('w) then a + b else - 1)"

definition checked_mul_word :: "'w::len word \<Rightarrow> 'w word \<Rightarrow> 'w word option" where
  "checked_mul_word a b = (if unat a * unat b < 2 ^ LENGTH('w) then Some (a * b) else None)"

definition saturating_mul_word :: "'w::len word \<Rightarrow> 'w word \<Rightarrow> 'w word" where
  "saturating_mul_word a b = (if unat a * unat b < 2 ^ LENGTH('w) then a * b else - 1)"

text \<open>\<open>i*::abs\<close> (which wraps at the minimum) and \<open>i*::unsigned_abs\<close>.\<close>

definition abs_word :: "'w::len word \<Rightarrow> 'w word" where
  "abs_word x = (if sint x < 0 then - x else x)"

lemma unat_add_small [word_nat_simps]:
  "unat a + unat b < 2 ^ LENGTH('w) \<Longrightarrow> unat (a + b :: 'w::len word) = unat a + unat b"
  by (simp add: unat_word_ariths)

lemma unat_mult_small [word_nat_simps]:
  "unat a * unat b < 2 ^ LENGTH('w) \<Longrightarrow> unat (a * b :: 'w::len word) = unat a * unat b"
  by (simp add: unat_word_ariths)

lemma unat_sub_le [word_nat_simps]:
  "b \<le> a \<Longrightarrow> unat (a - b :: 'w::len word) = unat a - unat b"
  by (simp add: unat_sub)

lemma uint_add_fits:
  "uint a + uint b < 2 ^ LENGTH('w) \<Longrightarrow> uint (a + b :: 'w::len word) = uint a + uint b"
  by (simp add: uint_word_ariths)

lemma uint_sub_le: "b \<le> a \<Longrightarrow> uint (a - b :: 'w::len word) = uint a - uint b"
  by (simp add: uint_sub_lem[symmetric] word_le_def)

lemma unat_lt_pow [simp]: "unat (a :: 'w::len word) < 2 ^ LENGTH('w)"
  by (rule unsigned_less)

lemma unat_max_word [word_nat_simps]: "unat (- 1 :: 'w::len word) = 2 ^ LENGTH('w) - 1"
  by (simp add: unsigned_minus_1_eq_mask mask_eq_exp_minus_1)

lemma sint_uint_nonneg: "0 \<le> sint (x :: 'w::len word) \<Longrightarrow> sint x = uint x"
proof -
  assume nn: "0 \<le> sint x"
  have "uint x = sint x mod 2 ^ LENGTH('w)"
    by (simp only: uint_sint take_bit_eq_mod)
  moreover have "sint x < 2 ^ LENGTH('w)"
  proof -
    have "sint x < 2 ^ (LENGTH('w) - 1)" by (rule sint_lt)
    moreover have "(2::int) ^ (LENGTH('w) - 1) < 2 ^ LENGTH('w)"
      by (rule power_strict_increasing) simp_all
    ultimately show ?thesis by linarith
  qed
  ultimately show ?thesis using nn by simp
qed

lemma unat_abs_word [word_nat_simps]: "unat (abs_word x) = nat \<bar>sint (x :: 'w::len word)\<bar>"
proof (cases "sint x < 0")
  case True
  have "uint (- x) = - sint x"
  proof -
    have "uint (- x) = (- uint x) mod 2 ^ LENGTH('w)"
      by (simp only: uint_word_ariths)
    then have "uint (- x) = (- (sint x mod 2 ^ LENGTH('w))) mod 2 ^ LENGTH('w)"
      by (simp only: uint_sint[of x] take_bit_eq_mod)
    then have "uint (- x) = (- sint x) mod 2 ^ LENGTH('w)"
      by (simp only: mod_minus_eq)
    moreover have "- sint x < 2 ^ LENGTH('w)"
    proof -
      have "- (2 ^ (LENGTH('w) - 1)) \<le> sint x" by (rule sint_ge)
      moreover have "(2::int) ^ (LENGTH('w) - 1) < 2 ^ LENGTH('w)"
        by (rule power_strict_increasing) simp_all
      ultimately show ?thesis by linarith
    qed
    ultimately show ?thesis using True by (simp only: mod_pos_pos_trivial)
  qed
  with True show ?thesis by (simp only: abs_word_def if_True unat_eq_nat_uint)
next
  case False
  then have "sint x = uint x" by (simp add: sint_uint_nonneg)
  with False show ?thesis by (simp only: abs_word_def if_False unat_eq_nat_uint)
qed

lemma unat_ucast_up:
  "LENGTH('a::len) \<le> LENGTH('b::len) \<Longrightarrow> unat (ucast (x :: 'a word) :: 'b word) = unat x"
proof -
  assume le: "LENGTH('a) \<le> LENGTH('b)"
  have "unat x < 2 ^ LENGTH('b)"
    using unat_lt_pow[of x] power_increasing[OF le, of "2::nat"] by linarith
  then show ?thesis by (simp add: unsigned_ucast_eq take_bit_nat_eq_self)
qed

lemma unat_ucast_mod:
  "unat (ucast (x :: 'a::len word) :: 'b::len word) = unat x mod 2 ^ LENGTH('b)"
  by (simp add: unsigned_ucast_eq take_bit_eq_mod)

lemma unat_ucast_fits:
  "unat (x :: 'a::len word) < 2 ^ LENGTH('b::len) \<Longrightarrow> unat (ucast x :: 'b word) = unat x"
  by (simp add: unat_ucast_mod)

lemma unat_drop_bit: "unat (drop_bit n (x :: 'a::len word)) = unat x div 2 ^ n"
  by (simp only: unsigned_drop_bit_eq) (simp add: drop_bit_eq_div take_bit_nat_eq_self)

lemma checked_add_word_Some:
  "checked_add_word a b = Some (c :: 'w::len word) \<longleftrightarrow>
     unat a + unat b < 2 ^ LENGTH('w) \<and> c = a + b"
  by (auto simp: checked_add_word_def)

lemma checked_add_word_None:
  "checked_add_word a (b :: 'w::len word) = None \<longleftrightarrow> 2 ^ LENGTH('w) \<le> unat a + unat b"
  by (auto simp: checked_add_word_def)

lemma checked_sub_word_Some:
  "checked_sub_word a b = Some (c :: 'w::len word) \<longleftrightarrow> b \<le> a \<and> c = a - b"
  by (auto simp: checked_sub_word_def)

lemma unat_saturating_sub [word_nat_simps]:
  "unat (saturating_sub_word a (b :: 'w::len word)) = unat a - unat b"
  by (auto simp: saturating_sub_word_def unat_sub word_le_nat_alt)

lemma unat_saturating_add [word_nat_simps]:
  "unat (saturating_add_word a (b :: 'w::len word)) = min (unat a + unat b) (2 ^ LENGTH('w) - 1)"
  by (auto simp: saturating_add_word_def word_nat_simps min_def)

lemma unat_saturating_mul [word_nat_simps]:
  "unat (saturating_mul_word a (b :: 'w::len word)) = min (unat a * unat b) (2 ^ LENGTH('w) - 1)"
proof (cases "unat a * unat b < 2 ^ LENGTH('w)")
  case True
  then have "unat a * unat b \<le> 2 ^ LENGTH('w) - 1" by linarith
  with True show ?thesis by (simp only: saturating_mul_word_def if_True unat_mult_small min_absorb1)
next
  case False
  then have "2 ^ LENGTH('w) - 1 \<le> unat a * unat b" by linarith
  with False show ?thesis
    by (simp only: saturating_mul_word_def if_False unat_max_word min_absorb2)
qed

section \<open>Results\<close>

text \<open>
  \<open>Result<T, E>\<close> is \<open>'e + 't\<close>, with \<open>Inl\<close> for \<open>Err\<close>. An operation that changes
  state and may stop at an error after some of its writes is a function
  \<open>'s \<Rightarrow> ('e + 'a) \<times> 's\<close>; \<open>and_then\<close> is the \<open>?\<close> operator of the source: the first error ends the
  operation, and what was written before it stays written.
\<close>

type_synonym ('s, 'e, 'a) step = "'s \<Rightarrow> ('e + 'a) \<times> 's"

definition is_ok :: "'e + 'a \<Rightarrow> bool" where
  "is_ok r = (case r of Inl _ \<Rightarrow> False | Inr _ \<Rightarrow> True)"

definition and_then :: "('s, 'e, 'a) step \<Rightarrow> ('a \<Rightarrow> ('s, 'e, 'b) step) \<Rightarrow> ('s, 'e, 'b) step" where
  "and_then m f s = (case m s of (Inl e, s') \<Rightarrow> (Inl e, s') | (Inr a, s') \<Rightarrow> f a s')"

definition check_that :: "bool \<Rightarrow> 'e \<Rightarrow> 'e + unit" where
  "check_that b e = (if b then Inr () else Inl e)"

definition bind_res :: "'e + 'a \<Rightarrow> ('a \<Rightarrow> 'e + 'b) \<Rightarrow> 'e + 'b" where
  "bind_res r f = (case r of Inl e \<Rightarrow> Inl e | Inr a \<Rightarrow> f a)"

definition ok_or :: "'a option \<Rightarrow> 'e \<Rightarrow> 'e + 'a" where
  "ok_or x e = (case x of None \<Rightarrow> Inl e | Some a \<Rightarrow> Inr a)"

definition unwrap_or :: "'a option \<Rightarrow> 'a \<Rightarrow> 'a" where
  "unwrap_or x d = (case x of None \<Rightarrow> d | Some a \<Rightarrow> a)"

lemma is_ok_simps [simp]: "is_ok (Inl e) = False" "is_ok (Inr a) = True"
  by (simp_all add: is_ok_def)

lemma is_ok_iff: "is_ok r \<longleftrightarrow> (\<exists>a. r = Inr a)"
  by (cases r) auto

lemma bind_res_simps [simp]: "bind_res (Inl e) f = Inl e" "bind_res (Inr a) f = f a"
  by (simp_all add: bind_res_def)

lemma bind_res_Inr: "bind_res r f = Inr b \<longleftrightarrow> (\<exists>a. r = Inr a \<and> f a = Inr b)"
  by (cases r) auto

lemma check_that_Inr [simp]: "check_that b e = Inr u \<longleftrightarrow> b"
  by (simp add: check_that_def)

lemma check_that_Inl [simp]: "check_that b e = Inl e' \<longleftrightarrow> \<not> b \<and> e' = e"
  by (auto simp: check_that_def)

lemma ok_or_simps [simp]: "ok_or None e = Inl e" "ok_or (Some a) e = Inr a"
  by (simp_all add: ok_or_def)

lemma unwrap_or_simps [simp]: "unwrap_or None d = d" "unwrap_or (Some a) d = a"
  by (simp_all add: unwrap_or_def)

lemma and_then_simps:
  "m s = (Inl e, s') \<Longrightarrow> and_then m f s = (Inl e, s')"
  "m s = (Inr a, s') \<Longrightarrow> and_then m f s = f a s'"
  by (simp_all add: and_then_def)

section \<open>Lists\<close>

lemma sum_list_add_group:
  fixes f :: "'a \<Rightarrow> 'b::ab_group_add"
  shows "(\<Sum>x\<leftarrow>xs. f x + g x) = (\<Sum>x\<leftarrow>xs. f x) + (\<Sum>x\<leftarrow>xs. g x)"
  by (induction xs) (auto simp: algebra_simps)

lemma append_eq_same_prefix_length:
  "length a = length c \<Longrightarrow> a @ b = c @ d \<longleftrightarrow> a = c \<and> b = d"
  by auto

end
