(* ===== verification/CJ_Table.thy ===== *)
theory CJ_Table
  imports CJ_Prelude
begin

text \<open>
  The key-value tables of the store. The node keeps its state in redb, whose code is
  not part of the repository; what the node relies on is redb's documented contract: a
  table is an ordered map from keys to values, a committed write is seen by every later
  read, iteration is in ascending key order. The locale \<open>ordered_table\<close> states that contract,
  and the tables of the model (association lists sorted by key) are shown to satisfy it. The error
  branches for a failing disk (\<open>begin_write\<close>, \<open>open_table\<close>, \<open>commit\<close> returning \<open>Err\<close>) and
  for bytes that do not decode are outside the model.
\<close>

section \<open>The contract\<close>

locale ordered_table =
  fixes tget :: "'t \<Rightarrow> 'k::linorder \<Rightarrow> 'v option"
    and tput :: "'k \<Rightarrow> 'v \<Rightarrow> 't \<Rightarrow> 't"
    and tdel :: "'k \<Rightarrow> 't \<Rightarrow> 't"
    and titer :: "'t \<Rightarrow> ('k \<times> 'v) list"
    and tnew :: 't
    and tok :: "'t \<Rightarrow> bool"
  assumes tget_new: "tget tnew k = None"
    and tget_put: "tget (tput k v t) = (tget t)(k \<mapsto> v)"
    and tget_del: "tget (tdel k t) = (tget t)(k := None)"
    and titer_get: "tok t \<Longrightarrow> (k, v) \<in> set (titer t) \<longleftrightarrow> tget t k = Some v"
    and titer_sorted: "tok t \<Longrightarrow> sorted (map fst (titer t))"
    and titer_distinct: "tok t \<Longrightarrow> distinct (map fst (titer t))"
    and tok_new: "tok tnew"
    and tok_put: "tok t \<Longrightarrow> tok (tput k v t)"
    and tok_del: "tok t \<Longrightarrow> tok (tdel k t)"
begin

text \<open>A table is determined by its lookups: two tables that answer every lookup alike
  iterate alike.\<close>

lemma titer_unique:
  assumes "tok t" and "tok u" and "tget t = tget u"
  shows "titer t = titer u"
proof (rule map_sorted_distinct_set_unique[of fst])
  show "inj_on fst (set (titer t) \<union> set (titer u))"
    using assms by (auto simp: inj_on_def titer_get)
qed (use assms titer_sorted titer_distinct in \<open>auto simp: titer_get\<close>)

lemma tget_put_same [simp]: "tget (tput k v t) k = Some v"
  by (simp add: tget_put)

lemma tget_put_other: "k' \<noteq> k \<Longrightarrow> tget (tput k v t) k' = tget t k'"
  by (simp add: tget_put)

lemma dom_titer: "tok t \<Longrightarrow> dom (tget t) = fst ` set (titer t)"
proof (intro set_eqI iffI)
  fix k assume "tok t" and "k \<in> dom (tget t)"
  then obtain v where "(k, v) \<in> set (titer t)" by (auto simp: titer_get)
  then show "k \<in> fst ` set (titer t)" by force
qed (auto simp: titer_get)

text \<open>The scans of the state managers: filter the values met by a full iteration.\<close>

lemma scan_member:
  assumes "tok t"
  shows "v \<in> set (filter P (map snd (titer t))) \<longleftrightarrow> (\<exists>k. tget t k = Some v \<and> P v)"
proof
  assume "v \<in> set (filter P (map snd (titer t)))"
  then show "\<exists>k. tget t k = Some v \<and> P v" using assms by (auto simp: titer_get)
next
  assume "\<exists>k. tget t k = Some v \<and> P v"
  then obtain k where "(k, v) \<in> set (titer t)" and "P v" using assms by (auto simp: titer_get)
  then show "v \<in> set (filter P (map snd (titer t)))" by force
qed

text \<open>Totals over a table, in any abelian group (\<open>u128\<close> with its wrap-around is one).\<close>

lemma sum_as_set:
  fixes f :: "'v \<Rightarrow> 'g::ab_group_add"
  assumes "tok t"
  shows "(\<Sum>p\<leftarrow>titer t. f (snd p)) = (\<Sum>k\<in>dom (tget t). f (the (tget t k)))"
proof -
  have dom: "dom (tget t) = fst ` set (titer t)" using assms by (rule dom_titer)
  have dist: "distinct (titer t)"
    using titer_distinct[OF assms] by (simp add: distinct_map)
  have inj: "inj_on fst (set (titer t))"
    using titer_distinct[OF assms] by (simp add: distinct_map)
  have "(\<Sum>p\<leftarrow>titer t. f (snd p)) = (\<Sum>p\<in>set (titer t). f (snd p))"
    using dist by (simp add: sum_list_distinct_conv_sum_set)
  also have "\<dots> = (\<Sum>p\<in>set (titer t). f (the (tget t (fst p))))"
    using assms by (intro sum.cong) (auto simp: titer_get)
  also have "\<dots> = (\<Sum>k\<in>dom (tget t). f (the (tget t k)))"
    using inj by (simp add: dom sum.reindex)
  finally show ?thesis .
qed

lemma finite_dom: "tok t \<Longrightarrow> finite (dom (tget t))"
  by (simp add: dom_titer)

lemma sum_put:
  fixes f :: "'v \<Rightarrow> 'g::ab_group_add"
  assumes "tok t"
  shows "(\<Sum>p\<leftarrow>titer (tput k v t). f (snd p)) =
    (\<Sum>p\<leftarrow>titer t. f (snd p)) - (case tget t k of None \<Rightarrow> 0 | Some w \<Rightarrow> f w) + f v"
proof -
  let ?D = "dom (tget t)" and ?g = "\<lambda>j. f (the (tget t j))"
  have fin: "finite ?D" using assms by (rule finite_dom)
  have split: "sum ?g ?D = (case tget t k of None \<Rightarrow> 0 | Some w \<Rightarrow> f w) + sum ?g (?D - {k})"
  proof (cases "tget t k")
    case None
    then have "?D - {k} = ?D" by auto
    with None show ?thesis by simp
  next
    case (Some w)
    then have "k \<in> ?D" by auto
    with fin Some show ?thesis by (simp add: sum.remove)
  qed
  have rest: "(\<Sum>j\<in>?D - {k}. f (the (((tget t)(k \<mapsto> v)) j))) = sum ?g (?D - {k})"
    by (intro sum.cong) auto
  have "(\<Sum>p\<leftarrow>titer (tput k v t). f (snd p)) =
      (\<Sum>j\<in>insert k ?D. f (the (((tget t)(k \<mapsto> v)) j)))"
    using assms by (simp add: sum_as_set tok_put tget_put dom_fun_upd)
  also have "\<dots> = f v + sum ?g (?D - {k})"
    using fin rest by (simp add: sum.insert_remove)
  finally show ?thesis
    using assms by (simp add: sum_as_set split)
qed

lemma sum_del:
  fixes f :: "'v \<Rightarrow> 'g::ab_group_add"
  assumes "tok t"
  shows "(\<Sum>p\<leftarrow>titer (tdel k t). f (snd p)) =
    (\<Sum>p\<leftarrow>titer t. f (snd p)) - (case tget t k of None \<Rightarrow> 0 | Some w \<Rightarrow> f w)"
proof -
  let ?D = "dom (tget t)" and ?g = "\<lambda>j. f (the (tget t j))"
  have fin: "finite ?D" using assms by (rule finite_dom)
  have dom: "dom ((tget t)(k := None)) = ?D - {k}" by auto
  have "(\<Sum>p\<leftarrow>titer (tdel k t). f (snd p)) =
      (\<Sum>j\<in>?D - {k}. f (the (((tget t)(k := None)) j)))"
    using assms by (simp add: sum_as_set tok_del tget_del dom)
  also have "\<dots> = sum ?g (?D - {k})"
    by (intro sum.cong) auto
  finally have del: "(\<Sum>p\<leftarrow>titer (tdel k t). f (snd p)) = sum ?g (?D - {k})" .
  show ?thesis
  proof (cases "tget t k")
    case None
    then have "?D - {k} = ?D" by auto
    with None del assms show ?thesis by (simp add: sum_as_set)
  next
    case (Some w)
    then have "k \<in> ?D" by auto
    with fin Some del assms show ?thesis by (simp add: sum_as_set sum.remove)
  qed
qed

end

section \<open>Tables of the model\<close>

type_synonym ('k, 'v) table = "('k \<times> 'v) list"

definition tbl_get :: "('k::linorder, 'v) table \<Rightarrow> 'k \<Rightarrow> 'v option" where
  "tbl_get t k = map_of t k"

definition tbl_del :: "'k::linorder \<Rightarrow> ('k, 'v) table \<Rightarrow> ('k, 'v) table" where
  "tbl_del k t = filter (\<lambda>p. fst p \<noteq> k) t"

definition tbl_put :: "'k::linorder \<Rightarrow> 'v \<Rightarrow> ('k, 'v) table \<Rightarrow> ('k, 'v) table" where
  "tbl_put k v t = insort_key fst (k, v) (tbl_del k t)"

definition tbl_values :: "('k::linorder, 'v) table \<Rightarrow> 'v list" where
  "tbl_values t = map snd t"

definition tbl_ok :: "('k::linorder, 'v) table \<Rightarrow> bool" where
  "tbl_ok t \<longleftrightarrow> sorted (map fst t) \<and> distinct (map fst t)"

definition tbl_sum :: "('v \<Rightarrow> 'g::ab_group_add) \<Rightarrow> ('k::linorder, 'v) table \<Rightarrow> 'g" where
  "tbl_sum f t = (\<Sum>p\<leftarrow>t. f (snd p))"

lemma map_of_insort_key:
  "k \<notin> fst ` set t \<Longrightarrow> map_of (insort_key fst (k, v) t) = (map_of t)(k \<mapsto> v)"
  by (induction t) (auto simp: fun_eq_iff)

lemma map_of_tbl_del: "map_of (tbl_del k t) = (map_of t)(k := None)"
  by (induction t) (auto simp: tbl_del_def fun_eq_iff)

lemma key_notin_tbl_del [simp]: "k \<notin> fst ` set (tbl_del k t)"
  by (auto simp: tbl_del_def)

lemma tbl_ok_del: "tbl_ok t \<Longrightarrow> tbl_ok (tbl_del k t)"
  by (auto simp: tbl_ok_def tbl_del_def sorted_filter distinct_map_filter)

lemma distinct_map_insort_key:
  "k \<notin> fst ` set t \<Longrightarrow> distinct (map fst t) \<Longrightarrow> distinct (map fst (insort_key fst (k, v) t))"
  by (induction t) (auto simp: set_insort_key image_iff)

lemma tbl_ok_put: "tbl_ok t \<Longrightarrow> tbl_ok (tbl_put k v t)"
  using tbl_ok_del[of t k] distinct_map_insort_key[OF key_notin_tbl_del, of k t v]
  by (simp add: tbl_ok_def tbl_put_def sorted_insort_key)

interpretation tbl: ordered_table tbl_get tbl_put tbl_del "\<lambda>t. t" "[]" tbl_ok
proof unfold_locales
  show "tbl_get (tbl_put k v t) = (tbl_get t)(k \<mapsto> v)" for k v and t :: "('a, 'b) table"
    by (simp add: fun_eq_iff tbl_get_def tbl_put_def map_of_insort_key map_of_tbl_del)
  show "tbl_ok t \<Longrightarrow> (k, v) \<in> set t \<longleftrightarrow> tbl_get t k = Some v" for k v and t :: "('a, 'b) table"
    by (auto simp: tbl_ok_def tbl_get_def)
qed (auto simp: tbl_get_def fun_eq_iff map_of_tbl_del tbl_ok_put tbl_ok_del, auto simp: tbl_ok_def)

lemmas tbl_get_simps [simp] = tbl.tget_new tbl.tget_put tbl.tget_del

lemmas tbl_ok_intros [wf_intros] = tbl_ok_put tbl_ok_del

declare wf_intros [intro]

lemma tbl_ok_Nil [simp]: "tbl_ok []"
  by (rule tbl.tok_new)

lemma tbl_sum_put:
  "tbl_ok t \<Longrightarrow> tbl_sum f (tbl_put k v t) =
     tbl_sum f t - (case tbl_get t k of None \<Rightarrow> 0 | Some w \<Rightarrow> f w) + f v"
  unfolding tbl_sum_def by (rule tbl.sum_put)

lemma tbl_sum_del:
  "tbl_ok t \<Longrightarrow> tbl_sum f (tbl_del k t) =
     tbl_sum f t - (case tbl_get t k of None \<Rightarrow> 0 | Some w \<Rightarrow> f w)"
  unfolding tbl_sum_def by (rule tbl.sum_del)

lemma tbl_sum_Nil [simp]: "tbl_sum f [] = 0"
  by (simp add: tbl_sum_def)

lemma tbl_values_filter:
  "tbl_ok t \<Longrightarrow> v \<in> set (filter P (tbl_values t)) \<longleftrightarrow> (\<exists>k. tbl_get t k = Some v \<and> P v)"
  unfolding tbl_values_def by (rule tbl.scan_member)

text \<open>Totals over the integers: a stored value is part of its total.\<close>

lemma tbl_sum_nonneg: "(\<And>v. (0 :: int) \<le> f v) \<Longrightarrow> 0 \<le> tbl_sum f t"
  unfolding tbl_sum_def by (rule sum_list_nonneg) auto

lemma tbl_sum_ge:
  assumes "tbl_get t k = Some v" and "\<And>v. (0 :: int) \<le> f v"
  shows "f v \<le> tbl_sum f t"
proof -
  have "(k, v) \<in> set t" using assms(1) by (auto simp: tbl_get_def dest: map_of_SomeD)
  then show ?thesis
  proof (induction t)
    case (Cons p t)
    have "0 \<le> tbl_sum f t" using assms(2) by (rule tbl_sum_nonneg)
    with Cons assms(2)[of "snd p"] show ?case by (auto simp: tbl_sum_def)
  qed simp
qed

end
