(* ===== verification/Core_Types.thy ===== *)
theory Core_Types
  imports CJ_Table
begin

text \<open>
  The basic types of \<open>core/src/types.rs\<close> and the byte encodings that signatures and hashes
  are computed over. \<open>[u8; 32]\<close> is a 256-bit word read big-endian: its first byte is the
  most significant one, so that the lexicographic order of the byte arrays (the key order of the
  tables and the order that \<open>meets_difficulty\<close> compares by) is the order of the words.
  BLAKE3 and Ed25519 come from other crates: they are the fields of \<open>crypto_ext\<close>, an argument
  of every definition that uses them.
\<close>

section \<open>Bytes\<close>

type_synonym bytes = "u8 list"

text \<open>\<open>to_le_bytes\<close> of an unsigned integer and the bytes of a fixed array.\<close>

definition to_le_bytes :: "'w::len word \<Rightarrow> bytes" where
  "to_le_bytes w = map (\<lambda>i. ucast (drop_bit (8 * i) w)) [0..<LENGTH('w) div 8]"

definition be_bytes :: "'w::len word \<Rightarrow> bytes" where
  "be_bytes w = rev (to_le_bytes w)"

lemma length_to_le_bytes [simp]: "length (to_le_bytes (w :: 'w::len word)) = LENGTH('w) div 8"
  by (simp add: to_le_bytes_def)

lemma length_be_bytes [simp]: "length (be_bytes (w :: 'w::len word)) = LENGTH('w) div 8"
  by (simp add: be_bytes_def)

lemma to_le_bytes_inject:
  fixes x y :: "'w::len word"
  assumes w: "8 dvd LENGTH('w)"
  shows "to_le_bytes x = to_le_bytes y \<longleftrightarrow> x = y"
proof
  assume eq: "to_le_bytes x = to_le_bytes y"
  show "x = y"
  proof (rule bit_eqI)
    fix n
    show "bit x n = bit y n"
    proof (cases "n < LENGTH('w)")
      case True
      let ?i = "n div 8" and ?j = "n mod 8"
      from True w have i: "?i < LENGTH('w) div 8" by (auto elim!: dvdE)
      have split: "?j + 8 * ?i = n" by simp
      have "(to_le_bytes x) ! ?i = (to_le_bytes y) ! ?i" using eq by simp
      with i have "(ucast (drop_bit (8 * ?i) x) :: u8) = ucast (drop_bit (8 * ?i) y)"
        by (simp add: to_le_bytes_def)
      then have "bit (ucast (drop_bit (8 * ?i) x) :: u8) ?j = bit (ucast (drop_bit (8 * ?i) y) :: u8) ?j"
        by simp
      moreover have "bit (ucast z :: u8) ?j \<longleftrightarrow> bit z ?j" for z :: "'w word"
        by (auto simp: bit_ucast_iff)
      ultimately show ?thesis
        by (simp add: bit_drop_bit_eq)
    next
      case False
      then show ?thesis using bit_imp_le_length not_le by blast
    qed
  qed
qed simp

lemma be_bytes_inject:
  "8 dvd LENGTH('w::len) \<Longrightarrow> be_bytes (x :: 'w word) = be_bytes y \<longleftrightarrow> x = y"
  by (simp add: be_bytes_def to_le_bytes_inject)

section \<open>Hashes, addresses, keys and signatures\<close>

datatype hash = Hash (hash_word: "256 word")
datatype address = Address (address_word: "256 word")
datatype public_key = PublicKey (pk_word: "256 word")
datatype ed25519_signature = Ed25519Signature (sig_word: "512 word")

text \<open>The key order of the tables: lexicographic on the bytes.\<close>

instantiation hash :: linorder
begin

definition less_eq_hash :: "hash \<Rightarrow> hash \<Rightarrow> bool" where
  "less_eq_hash a b \<longleftrightarrow> hash_word a \<le> hash_word b"

definition less_hash :: "hash \<Rightarrow> hash \<Rightarrow> bool" where
  "less_hash a b \<longleftrightarrow> hash_word a < hash_word b"

instance
  by standard (auto simp: less_eq_hash_def less_hash_def hash.expand)

end

instantiation address :: linorder
begin

definition less_eq_address :: "address \<Rightarrow> address \<Rightarrow> bool" where
  "less_eq_address a b \<longleftrightarrow> address_word a \<le> address_word b"

definition less_address :: "address \<Rightarrow> address \<Rightarrow> bool" where
  "less_address a b \<longleftrightarrow> address_word a < address_word b"

instance
  by standard (auto simp: less_eq_address_def less_address_def address.expand)

end

type_synonym balance = u128
type_synonym block_height = u64
type_synonym timestamp = i64

record crypto_ext =
  blake3 :: "bytes \<Rightarrow> 256 word"
  vk_from_bytes_ok :: "256 word \<Rightarrow> bool"
  vk_verify :: "256 word \<Rightarrow> bytes \<Rightarrow> 512 word \<Rightarrow> bool"
  verifying_key :: "256 word \<Rightarrow> 256 word"
  sk_sign :: "256 word \<Rightarrow> bytes \<Rightarrow> 512 word"

text \<open>A \<open>KeyPair\<close> holds a signing key; \<open>verifying_key\<close> and \<open>sk_sign\<close> are ed25519-dalek's.\<close>

record key_pair =
  signing_key :: "256 word"

definition hash_ZERO :: hash where
  "hash_ZERO = Hash 0"

definition hash_new :: "crypto_ext \<Rightarrow> bytes \<Rightarrow> hash" where
  "hash_new X data = Hash (blake3 X data)"

definition hash_as_bytes :: "hash \<Rightarrow> bytes" where
  "hash_as_bytes h = be_bytes (hash_word h)"

definition address_as_bytes :: "address \<Rightarrow> bytes" where
  "address_as_bytes a = be_bytes (address_word a)"

definition address_from_pubkey :: "256 word \<Rightarrow> address" where
  "address_from_pubkey pk = Address pk"

definition pk_as_bytes :: "public_key \<Rightarrow> bytes" where
  "pk_as_bytes k = be_bytes (pk_word k)"

definition pk_to_address :: "public_key \<Rightarrow> address" where
  "pk_to_address k = address_from_pubkey (pk_word k)"

definition pk_verify :: "crypto_ext \<Rightarrow> public_key \<Rightarrow> bytes \<Rightarrow> ed25519_signature \<Rightarrow> bool" where
  "pk_verify X k msg sig =
     (if vk_from_bytes_ok X (pk_word k) then vk_verify X (pk_word k) msg (sig_word sig) else False)"

definition kp_sign :: "crypto_ext \<Rightarrow> key_pair \<Rightarrow> bytes \<Rightarrow> ed25519_signature" where
  "kp_sign X kp msg = Ed25519Signature (sk_sign X (signing_key kp) msg)"

definition kp_public_key :: "crypto_ext \<Rightarrow> key_pair \<Rightarrow> public_key" where
  "kp_public_key X kp = PublicKey (verifying_key X (signing_key kp))"

definition kp_address :: "crypto_ext \<Rightarrow> key_pair \<Rightarrow> address" where
  "kp_address X kp = address_from_pubkey (pk_word (kp_public_key X kp))"

text \<open>What ed25519 documents: the verifying key of a signing key is a valid point and accepts the
  signatures made with it.\<close>

definition signing_correct :: "crypto_ext \<Rightarrow> bool" where
  "signing_correct X \<longleftrightarrow> (\<forall>sk. vk_from_bytes_ok X (verifying_key X sk) \<and>
     (\<forall>msg. vk_verify X (verifying_key X sk) msg (sk_sign X sk msg)))"

lemma pk_verify_sign:
  "signing_correct X \<Longrightarrow> pk_verify X (kp_public_key X kp) msg (kp_sign X kp msg)"
  by (simp add: signing_correct_def pk_verify_def kp_public_key_def kp_sign_def)

lemma pk_to_address_kp [simp]: "pk_to_address (kp_public_key X kp) = kp_address X kp"
  by (simp add: pk_to_address_def kp_address_def)

lemma length_hash_as_bytes [simp]: "length (hash_as_bytes h) = 32"
  by (simp add: hash_as_bytes_def)

lemma length_address_as_bytes [simp]: "length (address_as_bytes a) = 32"
  by (simp add: address_as_bytes_def)

lemma length_pk_as_bytes [simp]: "length (pk_as_bytes k) = 32"
  by (simp add: pk_as_bytes_def)

lemma hash_as_bytes_inject [simp]: "hash_as_bytes g = hash_as_bytes h \<longleftrightarrow> g = h"
  by (simp add: hash_as_bytes_def be_bytes_inject hash.expand hash.expand[OF sym])
     (metis hash.expand)

lemma address_as_bytes_inject [simp]: "address_as_bytes a = address_as_bytes b \<longleftrightarrow> a = b"
  by (simp add: address_as_bytes_def be_bytes_inject) (metis address.expand)

lemma pk_as_bytes_inject [simp]: "pk_as_bytes a = pk_as_bytes b \<longleftrightarrow> a = b"
  by (simp add: pk_as_bytes_def be_bytes_inject) (metis public_key.expand)

lemma to_le_bytes_u128_inject [simp]: "to_le_bytes (x :: u128) = to_le_bytes y \<longleftrightarrow> x = y"
  by (rule to_le_bytes_inject) simp

lemma to_le_bytes_u64_inject [simp]: "to_le_bytes (x :: u64) = to_le_bytes y \<longleftrightarrow> x = y"
  by (rule to_le_bytes_inject) simp

end
