(* ===== verification/CJ_Float64.thy ===== *)
theory CJ_Float64
  imports CJ_Prelude "HOL-Library.Log_Nat"
begin

text \<open>
  Rust's \<open>f64\<close>: IEEE 754 binary64 with round to nearest, ties to even. A number is a sign
  and an exact rational magnitude; \<open>f_round\<close> takes an exact rational result to the nearest
  representable one, with gradual underflow (exponent \<open>- 1074\<close>) and overflow to infinity at
  \<open>2 ^ 1024\<close>. Signed zeros, infinities and NaN are the values the standard has; a NaN's payload is
  not modelled. The casts are those of the language: integer to float rounds, float to
  integer truncates and saturates, NaN goes to 0.
\<close>

section \<open>Values and rounding\<close>

datatype f64 = FNaN | FInf bool | FFin bool rat

definition pow2 :: "int \<Rightarrow> rat" where
  "pow2 k = (if 0 \<le> k then 2 ^ nat k else 1 / 2 ^ nat (- k))"

definition floor_log2 :: "rat \<Rightarrow> int" where
  "floor_log2 r = (case quotient_of r of (p, q) \<Rightarrow>
     let k = bitlen p - bitlen q in if pow2 k \<le> r then k else k - 1)"

definition round_half_even :: "rat \<Rightarrow> int" where
  "round_half_even x = (let f = \<lfloor>x\<rfloor>; d = x - of_int f in
     if d < 1 / 2 then f else if 1 / 2 < d then f + 1 else if even f then f else f + 1)"

definition f_round :: "bool \<Rightarrow> rat \<Rightarrow> f64" where
  "f_round s r = (if r = 0 then FFin s 0 else
     let e = max (floor_log2 r - 52) (- 1074);
         v = of_int (round_half_even (r / pow2 e)) * pow2 e
     in if 2 ^ 1024 \<le> v then FInf s else FFin s v)"

fun f_val :: "f64 \<Rightarrow> rat" where
  "f_val (FFin s m) = (if s then - m else m)"
| "f_val _ = 0"

definition f_of_rat :: "rat \<Rightarrow> f64" where
  "f_of_rat x = f_round (x < 0) \<bar>x\<bar>"

definition f_of_word :: "'w::len word \<Rightarrow> f64" where
  "f_of_word w = f_round False (of_nat (unat w))"

definition f_of_nat :: "nat \<Rightarrow> f64" where
  "f_of_nat n = f_round False (of_nat n)"

definition f_zero :: f64 where "f_zero = FFin False 0"
definition f_one :: f64 where "f_one = FFin False 1"

section \<open>Operations\<close>

fun is_finite :: "f64 \<Rightarrow> bool" where
  "is_finite (FFin _ _) = True"
| "is_finite _ = False"

fun f_neg :: "f64 \<Rightarrow> f64" where
  "f_neg FNaN = FNaN"
| "f_neg (FInf s) = FInf (\<not> s)"
| "f_neg (FFin s m) = FFin (\<not> s) m"

fun f_add :: "f64 \<Rightarrow> f64 \<Rightarrow> f64" where
  "f_add (FFin s m) (FFin t n) =
     (let v = f_val (FFin s m) + f_val (FFin t n) in
      if v = 0 then FFin (s \<and> t) 0 else f_of_rat v)"
| "f_add (FInf s) (FInf t) = (if s = t then FInf s else FNaN)"
| "f_add (FInf s) (FFin _ _) = FInf s"
| "f_add (FFin _ _) (FInf t) = FInf t"
| "f_add _ _ = FNaN"

definition f_sub :: "f64 \<Rightarrow> f64 \<Rightarrow> f64" where
  "f_sub x y = f_add x (f_neg y)"

fun f_mul :: "f64 \<Rightarrow> f64 \<Rightarrow> f64" where
  "f_mul (FFin s m) (FFin t n) = f_round (s \<noteq> t) (m * n)"
| "f_mul (FInf s) (FInf t) = FInf (s \<noteq> t)"
| "f_mul (FInf s) (FFin t n) = (if n = 0 then FNaN else FInf (s \<noteq> t))"
| "f_mul (FFin s m) (FInf t) = (if m = 0 then FNaN else FInf (s \<noteq> t))"
| "f_mul _ _ = FNaN"

fun f_div :: "f64 \<Rightarrow> f64 \<Rightarrow> f64" where
  "f_div (FFin s m) (FFin t n) =
     (if n = 0 then (if m = 0 then FNaN else FInf (s \<noteq> t)) else f_round (s \<noteq> t) (m / n))"
| "f_div (FInf s) (FFin t n) = FInf (s \<noteq> t)"
| "f_div (FFin s m) (FInf t) = FFin (s \<noteq> t) 0"
| "f_div _ _ = FNaN"

fun f_lt :: "f64 \<Rightarrow> f64 \<Rightarrow> bool" where
  "f_lt (FFin s m) (FFin t n) = (f_val (FFin s m) < f_val (FFin t n))"
| "f_lt (FInf s) (FInf t) = (s \<and> \<not> t)"
| "f_lt (FInf s) (FFin _ _) = s"
| "f_lt (FFin _ _) (FInf t) = (\<not> t)"
| "f_lt _ _ = False"

fun f_le :: "f64 \<Rightarrow> f64 \<Rightarrow> bool" where
  "f_le (FFin s m) (FFin t n) = (f_val (FFin s m) \<le> f_val (FFin t n))"
| "f_le (FInf s) (FInf t) = (s \<or> \<not> t)"
| "f_le (FInf s) (FFin _ _) = s"
| "f_le (FFin _ _) (FInf t) = (\<not> t)"
| "f_le _ _ = False"

text \<open>\<open>f64::floor\<close>; an integer value is kept, the sign of zero too.\<close>

fun f_floor :: "f64 \<Rightarrow> f64" where
  "f_floor (FFin s m) = (if s then FFin s (of_int \<lceil>m\<rceil>) else FFin s (of_int \<lfloor>m\<rfloor>))"
| "f_floor x = x"

text \<open>\<open>f64::abs\<close>, \<open>f64::clamp\<close>, the cast from a signed integer, and the truncating, saturating casts
  to integers.\<close>

fun f_abs :: "f64 \<Rightarrow> f64" where
  "f_abs FNaN = FNaN"
| "f_abs (FInf s) = FInf False"
| "f_abs (FFin s m) = FFin False m"

definition f_of_sword :: "'w::len word \<Rightarrow> f64" where
  "f_of_sword w = f_of_rat (of_int (sint w))"

definition f_clamp :: "f64 \<Rightarrow> f64 \<Rightarrow> f64 \<Rightarrow> f64" where
  "f_clamp x lo hi = (let y = (if f_lt x lo then lo else x) in if f_lt hi y then hi else y)"

fun f_to_word :: "f64 \<Rightarrow> 'w::len word" where
  "f_to_word FNaN = 0"
| "f_to_word (FInf s) = (if s then 0 else - 1)"
| "f_to_word (FFin s m) = (if s then 0
     else if 2 ^ LENGTH('w) \<le> m then - 1 else of_int \<lfloor>m\<rfloor>)"

text \<open>\<open>f64::max\<close> and \<open>f64::min\<close>, which return the other argument when one is NaN; \<open>f64::ceil\<close>;
  \<open>f64::round\<close>, which rounds halves away from zero.\<close>

definition f_max :: "f64 \<Rightarrow> f64 \<Rightarrow> f64" where
  "f_max x y = (if x = FNaN then y else if f_lt x y then y else x)"

definition f_min :: "f64 \<Rightarrow> f64 \<Rightarrow> f64" where
  "f_min x y = (if x = FNaN then y else if f_lt y x then y else x)"

fun f_ceil :: "f64 \<Rightarrow> f64" where
  "f_ceil (FFin s m) = (if s then FFin s (of_int \<lfloor>m\<rfloor>) else FFin s (of_int \<lceil>m\<rceil>))"
| "f_ceil x = x"

fun f_round_away :: "f64 \<Rightarrow> f64" where
  "f_round_away (FFin s m) = FFin s (of_int \<lfloor>m + 1 / 2\<rfloor>)"
| "f_round_away x = x"

text \<open>The truncating, saturating cast to a signed integer.\<close>

fun f_to_sword :: "f64 \<Rightarrow> 'w::len word" where
  "f_to_sword FNaN = 0"
| "f_to_sword (FInf s) = (if s then of_int (- (2 ^ (LENGTH('w) - 1))) else of_int (2 ^ (LENGTH('w) - 1) - 1))"
| "f_to_sword (FFin s m) =
     (let v = (if s then - \<lfloor>m\<rfloor> else \<lfloor>m\<rfloor>); lo = - (2 ^ (LENGTH('w) - 1)); hi = 2 ^ (LENGTH('w) - 1) - 1
      in of_int (max lo (min hi v)))"

text \<open>Transcendental functions have unspecified precision in the language: where the source
  calls them, they are a parameter.\<close>

record float_ext =
  fm_log2 :: "f64 \<Rightarrow> f64"
  fm_exp :: "f64 \<Rightarrow> f64"
  fm_sqrt :: "f64 \<Rightarrow> f64"
  fm_powi :: "f64 \<Rightarrow> int \<Rightarrow> f64"
  fm_ln :: "f64 \<Rightarrow> f64"
  fm_powf :: "f64 \<Rightarrow> f64 \<Rightarrow> f64"

section \<open>Facts\<close>

lemma pow2_pos [simp]: "0 < pow2 k"
  by (simp add: pow2_def)

lemma f_round_nonneg_or_inf:
  "0 \<le> r \<Longrightarrow> f_round s r = FInf s \<or> (\<exists>m. f_round s r = FFin s m \<and> 0 \<le> m)"
proof -
  assume r: "0 \<le> r"
  have "0 \<le> round_half_even (r / pow2 e)" for e
  proof -
    have "0 \<le> \<lfloor>r / pow2 e\<rfloor>" using r by (simp add: less_imp_le)
    then show ?thesis by (simp add: round_half_even_def Let_def)
  qed
  then show ?thesis
    by (auto simp: f_round_def Let_def intro!: mult_nonneg_nonneg less_imp_le[OF pow2_pos])
qed

lemma f_round_not_nan [simp]: "f_round s r \<noteq> FNaN"
  by (simp add: f_round_def Let_def)

lemma f_round_zero [simp]: "f_round s 0 = FFin s 0"
  by (simp add: f_round_def)

lemma f_round_one: "f_round s 1 = FFin s 1"
  by (simp add: f_round_def floor_log2_def pow2_def round_half_even_def Let_def bitlen_def floorlog_def)

lemma bitlen_bounds:
  assumes "0 < n"
  shows "(2::rat) ^ nat (bitlen n - 1) \<le> of_int n" and "of_int n < (2::rat) ^ nat (bitlen n)"
proof -
  have "2 ^ nat (bitlen n - 1) \<le> n" and "n < 2 ^ nat (bitlen n)"
    using bitlen_bounds[of n] assms by auto
  then have "(of_int (2 ^ nat (bitlen n - 1)) :: rat) \<le> of_int n"
    and "(of_int n :: rat) < of_int (2 ^ nat (bitlen n))" by (simp_all only: of_int_le_iff of_int_less_iff)
  then show "(2::rat) ^ nat (bitlen n - 1) \<le> of_int n" and "of_int n < (2::rat) ^ nat (bitlen n)"
    by simp_all
qed

lemma pow2_powr: "pow2 k = power_int 2 k"
  by (simp add: pow2_def power_int_def inverse_eq_divide power_one_over)

lemma pow2_add: "pow2 (a + b) = pow2 a * pow2 b"
  by (simp add: pow2_powr power_int_add)

lemma pow2_mono: "a \<le> b \<Longrightarrow> pow2 a \<le> pow2 b"
  by (simp add: pow2_powr power_int_increasing)

text \<open>\<open>floor_log2\<close> is the exponent of the leading bit.\<close>

lemma pow2_floor_log2_le:
  assumes "0 < r"
  shows "pow2 (floor_log2 r) \<le> r"
proof -
  obtain p q where pq: "quotient_of r = (p, q)" by (cases "quotient_of r")
  have q: "0 < q" using pq by (rule quotient_of_denom_pos)
  have r: "r = of_int p / of_int q" using pq by (rule quotient_of_div)
  have p: "0 < p" using assms q by (simp add: r zero_less_divide_iff)
  have bp: "1 \<le> bitlen p" and bq: "1 \<le> bitlen q"
    using p q by (auto simp: bitlen_def floorlog_def)
  have "pow2 (bitlen p - bitlen q - 1) = 2 ^ nat (bitlen p - 1) / 2 ^ nat (bitlen q)"
    using pow2_add[of "bitlen p - 1" "- bitlen q"] bp bq by (simp add: pow2_def algebra_simps)
  also have "\<dots> \<le> of_int p / of_int q"
    using bitlen_bounds[OF p] bitlen_bounds[OF q] p q by (intro frac_le) auto
  finally have "pow2 (bitlen p - bitlen q - 1) \<le> r" by (simp only: r)
  then show ?thesis by (simp add: floor_log2_def pq Let_def)
qed

lemma floor_log2_nonneg: "1 \<le> r \<Longrightarrow> 0 \<le> floor_log2 r"
proof -
  assume r1: "1 \<le> r"
  obtain p q where pq: "quotient_of r = (p, q)" by (cases "quotient_of r")
  have q: "0 < q" using pq by (rule quotient_of_denom_pos)
  have r: "r = of_int p / of_int q" using pq by (rule quotient_of_div)
  have "q \<le> p" using r1 q by (simp add: r)
  then have mono: "bitlen q \<le> bitlen p"
    using q by (simp add: bitlen_def floorlog_mono)
  show ?thesis
  proof (cases "bitlen p = bitlen q")
    case True
    with r1 show ?thesis by (simp add: floor_log2_def pq pow2_def)
  next
    case False
    with mono show ?thesis by (simp add: floor_log2_def pq Let_def)
  qed
qed

lemma round_half_even_bounds:
  "of_int (round_half_even x) \<le> x + 1" "\<lfloor>x\<rfloor> \<le> round_half_even x"
  by (auto simp: round_half_even_def Let_def) linarith+

text \<open>Magnitudes from 1 up to \<open>2 ^ 1000\<close> round to a positive finite number.\<close>

lemma f_round_normal:
  assumes "1 \<le> r" and "r < 2 ^ 1000"
  shows "\<exists>m. f_round s r = FFin s m \<and> 0 < m \<and> m \<le> 2 * r"
proof -
  define e where "e = floor_log2 r - 52"
  have e: "max (floor_log2 r - 52) (- 1074) = e"
    using floor_log2_nonneg[OF assms(1)] by (simp add: e_def)
  have "pow2 e \<le> pow2 (floor_log2 r)" by (rule pow2_mono) (simp add: e_def)
  also have "\<dots> \<le> r" using assms by (intro pow2_floor_log2_le) simp
  finally have pe: "pow2 e \<le> r" .
  let ?n = "round_half_even (r / pow2 e)"
  have "1 \<le> r / pow2 e" using pe by (simp add: pos_le_divide_eq)
  then have "1 \<le> \<lfloor>r / pow2 e\<rfloor>" by simp
  then have n: "1 \<le> ?n" using round_half_even_bounds(2) order_trans by blast
  have "of_int ?n * pow2 e \<le> (r / pow2 e + 1) * pow2 e"
    by (intro mult_right_mono round_half_even_bounds) (simp add: less_imp_le)
  also have "\<dots> = r + pow2 e" by (simp add: distrib_right order.strict_implies_not_eq[OF pow2_pos, symmetric])
  finally have le: "of_int ?n * pow2 e \<le> 2 * r" using pe by simp
  have "2 * r < 2 ^ 1024"
  proof -
    have "2 * r < 2 * 2 ^ 1000" using assms by simp
    also have "(2 * 2 ^ 1000 :: rat) \<le> 2 ^ 1024" by simp
    finally show ?thesis .
  qed
  with le have fin: "\<not> 2 ^ 1024 \<le> of_int ?n * pow2 e" by linarith
  have "0 < of_int ?n * pow2 e" using n by (intro mult_pos_pos) auto
  then show ?thesis
    using assms le fin unfolding f_round_def Let_def e by auto
qed

lemma f_of_word_pos:
  assumes "w \<noteq> (0 :: u64)"
  shows "\<exists>m. f_of_word w = FFin False m \<and> 0 < m"
proof -
  have "1 \<le> unat w" using assms unat_gt_0[of w] by linarith
  then have 1: "1 \<le> (of_nat (unat w) :: rat)" by (metis of_nat_1 of_nat_le_iff)
  have "(of_nat (unat w) :: rat) < of_nat (2 ^ 64)"
    using unat_lt_pow[of w] by (simp only: of_nat_less_iff) simp
  also have "\<dots> < 2 ^ 1000" by simp
  finally have "(of_nat (unat w) :: rat) < 2 ^ 1000" .
  from f_round_normal[OF 1 this, of False] show ?thesis
    by (auto simp: f_of_word_def)
qed

lemma f_div_self:
  "m \<noteq> 0 \<Longrightarrow> f_div (FFin s m) (FFin s m) = f_one"
  by (simp add: f_round_one f_one_def)

lemma f_clamp_unit:
  assumes "x \<noteq> FNaN"
  shows "f_le f_zero (f_clamp x f_zero f_one) \<and> f_le (f_clamp x f_zero f_one) f_one"
  using assms by (cases x) (auto simp: f_clamp_def f_zero_def f_one_def Let_def)

lemma f_lt_irrefl [simp]: "\<not> f_lt x x"
  by (cases x) auto

lemma f_lt_trans: "f_lt x y \<Longrightarrow> f_lt y z \<Longrightarrow> f_lt x z"
  by (cases x; cases y; cases z) (auto split: if_splits)

end
