(* ===== verification/Core_Golden.thy ===== *)
theory Core_Golden
  imports Core_Types CJ_Float64
begin

text \<open>
  \<open>core/src/golden.rs\<close>: the deterministic stream that golden-enhanced Merkle trees and
  commitments mix in. A generator is its 256-bit state and its counter; \<open>next_bytes\<close>
  hashes until 256 bits have passed the basis test, a loop that returns only if BLAKE3
  keeps producing passing bytes, so it is a partial function with value \<open>None\<close> when it
  does not return.
\<close>

section \<open>Definitions\<close>

definition GOLDEN_SEED :: "256 word" where
  "GOLDEN_SEED = 0x9e3779b97f4a7c15f39cc0605ceedc8341082c124afc0551c7ab88266ecf1f17"

definition GOLDEN_EPOCH_BLOCKS :: u64 where
  "GOLDEN_EPOCH_BLOCKS = 100"

definition PHI :: f64 where
  "PHI = f_of_rat (1618033988749894848204586834365638118 / 10 ^ 36)"

record golden_generator =
  gg_state :: "256 word"
  gg_counter :: u64

definition gg_new :: "crypto_ext \<Rightarrow> 256 word \<Rightarrow> golden_generator" where
  "gg_new X seed = \<lparr>gg_state = blake3 X (be_bytes seed), gg_counter = 0\<rparr>"

definition from_genesis_epoch :: "crypto_ext \<Rightarrow> hash \<Rightarrow> block_height \<Rightarrow> golden_generator" where
  "from_genesis_epoch X genesis height =
     (let epoch = height div GOLDEN_EPOCH_BLOCKS
      in gg_new X (blake3 X (hash_as_bytes genesis @ to_le_bytes epoch @ be_bytes GOLDEN_SEED)))"

definition from_flock_seed :: "crypto_ext \<Rightarrow> hash \<Rightarrow> block_height \<Rightarrow> golden_generator" where
  "from_flock_seed X genesis height = from_genesis_epoch X genesis height"

definition basis_match :: "u8 \<Rightarrow> bool" where
  "basis_match byte \<longleftrightarrow> bit byte 1 = bit byte 2"

text \<open>The inner loop: push the low bit of every matching byte, stop at 256 bits.\<close>

fun sift_bytes :: "u8 list \<Rightarrow> bytes \<Rightarrow> u8 list" where
  "sift_bytes sifted [] = sifted"
| "sift_bytes sifted (byte # rest) =
     (if basis_match byte
      then let sifted' = sifted @ [Bit_Operations.and byte 1]
           in if 256 \<le> length sifted' then sifted' else sift_bytes sifted' rest
      else sift_bytes sifted rest)"

partial_function (option) sift_loop ::
  "crypto_ext \<Rightarrow> golden_generator \<Rightarrow> u8 list \<Rightarrow> (u8 list \<times> golden_generator) option" where
  "sift_loop X g sifted =
     (if length sifted < 256
      then let h = blake3 X (be_bytes (gg_state g) @ to_le_bytes (gg_counter g))
           in sift_loop X \<lparr>gg_state = h, gg_counter = gg_counter g + 1\<rparr> (sift_bytes sifted (be_bytes h))
      else Some (sifted, g))"

definition xor_fold :: "u8 list \<Rightarrow> bytes" where
  "xor_fold bits = map (\<lambda>j. foldl (\<lambda>out k. Bit_Operations.or out
     (push_bit k (Bit_Operations.xor (bits ! (8 * j + k)) (bits ! (8 * j + k + 128))))) 0 [0..<8]) [0..<16]"

definition next_bytes :: "crypto_ext \<Rightarrow> golden_generator \<Rightarrow> (bytes \<times> golden_generator) option" where
  "next_bytes X g = map_option (\<lambda>(bits, g'). (xor_fold bits, g')) (sift_loop X g [])"

definition golden_fractional :: "u64 \<Rightarrow> f64" where
  "golden_fractional z = (let product = f_mul (f_of_word z) PHI in f_sub product (f_floor product))"

definition coin_flip :: "u64 \<Rightarrow> u8" where
  "coin_flip z = (if f_lt (golden_fractional z) (f_of_rat (1 / 2)) then 0 else 1)"

definition GOLDEN_STEP :: u64 where
  "GOLDEN_STEP = 0x9E3779B97F4A7C15"

definition golden_sort_key :: "u64 \<Rightarrow> u64" where
  "golden_sort_key z = z * GOLDEN_STEP"

text \<open>\<open>u64::from_le_bytes\<close> of the first eight bytes.\<close>

fun from_le_bytes :: "bytes \<Rightarrow> 'w::len word" where
  "from_le_bytes [] = 0"
| "from_le_bytes (b # bs) = Bit_Operations.or (ucast b) (push_bit 8 (from_le_bytes bs))"

definition next_u64 :: "crypto_ext \<Rightarrow> golden_generator \<Rightarrow> (u64 \<times> golden_generator) option" where
  "next_u64 X g = map_option (\<lambda>(bytes, g'). (from_le_bytes (take 8 bytes), g')) (next_bytes X g)"

definition next_f64 :: "crypto_ext \<Rightarrow> golden_generator \<Rightarrow> (f64 \<times> golden_generator) option" where
  "next_f64 X g = map_option (\<lambda>(bytes, g').
     (f_div (f_of_word (drop_bit 11 (from_le_bytes (take 8 bytes) :: u64)))
            (f_of_word (push_bit 53 (1 :: u64))), g')) (next_bytes X g)"

section \<open>Lemmas\<close>

lemma length_xor_fold [simp]: "length (xor_fold bits) = 16"
  by (simp add: xor_fold_def)

lemma next_bytes_length: "next_bytes X g = Some (bs, g') \<Longrightarrow> length bs = 16"
  by (auto simp: next_bytes_def)

text \<open>The loop returns exactly when enough hashed bytes pass the test; \<open>passed X n g\<close> counts those
  of the first \<open>n\<close> rounds.\<close>

definition golden_round :: "crypto_ext \<Rightarrow> golden_generator \<Rightarrow> golden_generator" where
  "golden_round X g = \<lparr>gg_state = blake3 X (be_bytes (gg_state g) @ to_le_bytes (gg_counter g)),
     gg_counter = gg_counter g + 1\<rparr>"

fun passed :: "crypto_ext \<Rightarrow> nat \<Rightarrow> golden_generator \<Rightarrow> nat" where
  "passed X 0 g = 0"
| "passed X (Suc n) g =
     length (filter basis_match (be_bytes (gg_state (golden_round X g)))) + passed X n (golden_round X g)"

lemma length_sift_bytes:
  "length sifted < 256 \<Longrightarrow>
     length (sift_bytes sifted bs) = min 256 (length sifted + length (filter basis_match bs))"
proof (induction sifted bs rule: sift_bytes.induct)
  case (2 sifted byte rest)
  then show ?case
    by (cases "256 \<le> Suc (length sifted)") (auto simp: Let_def)
qed simp

lemma sift_loop_unroll:
  "sift_loop X g sifted = (if length sifted < 256
     then sift_loop X (golden_round X g) (sift_bytes sifted (be_bytes (gg_state (golden_round X g))))
     else Some (sifted, g))"
  by (subst sift_loop.simps) (simp add: golden_round_def Let_def)

lemma sift_loop_returns:
  "256 \<le> length sifted + passed X n g \<Longrightarrow> length sifted \<le> 256 \<Longrightarrow>
     \<exists>bits g'. sift_loop X g sifted = Some (bits, g') \<and> length bits = 256"
proof (induction n arbitrary: g sifted)
  case 0
  then show ?case by (subst sift_loop_unroll) simp
next
  case (Suc n)
  show ?case
  proof (cases "length sifted < 256")
    case True
    let ?s = "sift_bytes sifted (be_bytes (gg_state (golden_round X g)))"
    have "length ?s \<le> 256" and "256 \<le> length ?s + passed X n (golden_round X g)"
      using Suc.prems(1) by (simp_all add: length_sift_bytes[OF True])
    from Suc.IH[OF this(2,1)] show ?thesis using True by (subst sift_loop_unroll) simp
  next
    case False
    with Suc.prems(2) show ?thesis by (subst sift_loop_unroll) simp
  qed
qed

lemma sift_loop_needs:
  "sift_loop X g sifted = Some r \<Longrightarrow> \<exists>n. 256 \<le> length sifted + passed X n g"
proof (induction X g sifted r rule: sift_loop.raw_induct[rotated, consumes 1])
  case (1 loop X g sifted r)
  show ?case
  proof (cases "length sifted < 256")
    case True
    with 1(2) have "loop X (golden_round X g)
        (sift_bytes sifted (be_bytes (gg_state (golden_round X g)))) = Some r"
      by (simp add: golden_round_def Let_def)
    from 1(1)[OF this] obtain n
      where "256 \<le> length (sift_bytes sifted (be_bytes (gg_state (golden_round X g)))) + passed X n (golden_round X g)"
      by blast
    then have "256 \<le> length sifted + passed X (Suc n) g"
      by (simp add: length_sift_bytes[OF True] min_def split: if_splits)
    then show ?thesis by blast
  next
    case False
    then show ?thesis by (intro exI[of _ 0]) simp
  qed
qed

lemma next_bytes_returns_iff:
  "(\<exists>bs g'. next_bytes X g = Some (bs, g') \<and> length bs = 16) \<longleftrightarrow> (\<exists>n. 256 \<le> passed X n g)"
proof
  assume "\<exists>bs g'. next_bytes X g = Some (bs, g') \<and> length bs = 16"
  then obtain r where "sift_loop X g [] = Some r" by (auto simp: next_bytes_def)
  from sift_loop_needs[OF this] show "\<exists>n. 256 \<le> passed X n g" by simp
next
  assume "\<exists>n. 256 \<le> passed X n g"
  then obtain n where "256 \<le> length ([] :: u8 list) + passed X n g" by auto
  from sift_loop_returns[OF this] show "\<exists>bs g'. next_bytes X g = Some (bs, g') \<and> length bs = 16"
    by (auto simp: next_bytes_def)
qed

text \<open>Multiplication by the odd step is a bijection of \<open>u64\<close>, so the sort key of distinct
  indices differs.\<close>

lemma golden_step_inverse: "GOLDEN_STEP * 0xF1DE83E19937733D = 1"
  by (simp add: GOLDEN_STEP_def)

lemma golden_sort_key_inject: "golden_sort_key a = golden_sort_key b \<longleftrightarrow> a = b"
proof
  assume "golden_sort_key a = golden_sort_key b"
  then have "a * GOLDEN_STEP * 0xF1DE83E19937733D = b * GOLDEN_STEP * 0xF1DE83E19937733D"
    by (simp add: golden_sort_key_def)
  then show "a = b" by (simp only: mult.assoc golden_step_inverse mult_1_right)
qed simp

end
