(* ===== verification/Core_Crypto.thy ===== *)
theory Core_Crypto
  imports Core_Golden "HOL-Library.Product_Lexorder" "HOL-Library.Multiset"
begin

text \<open>
  The Merkle trees of \<open>core/src/crypto.rs\<close> (keys and signatures of that file are in
  Core_Types). The lemmas state the binding of the standard tree: over 32-byte leaf
  data, the trees of two different lists have different roots unless two of the byte strings
  hashed on the way collide.
\<close>

section \<open>The standard tree\<close>

record merkle_tree =
  mt_leaves :: "hash list"
  mt_root :: hash

text \<open>One level: \<open>chunks(2)\<close>, a pair is hashed together and an odd hash alone.\<close>

fun merkle_level :: "crypto_ext \<Rightarrow> hash list \<Rightarrow> hash list" where
  "merkle_level X [] = []"
| "merkle_level X [a] = [hash_new X (hash_as_bytes a)]"
| "merkle_level X (a # b # rest) =
     hash_new X (hash_as_bytes a @ hash_as_bytes b) # merkle_level X rest"

lemma length_merkle_level: "length (merkle_level X hs) = (length hs + 1) div 2"
  by (induction X hs rule: merkle_level.induct) auto

function merkle_loop :: "crypto_ext \<Rightarrow> hash list \<Rightarrow> hash" where
  "merkle_loop X current =
     (if 1 < length current then merkle_loop X (merkle_level X current) else hd current)"
  by pat_completeness auto
termination
  by (relation "measure (\<lambda>(X, current). length current)") (auto simp: length_merkle_level)

declare merkle_loop.simps [simp del]

definition calculate_root :: "crypto_ext \<Rightarrow> hash list \<Rightarrow> hash" where
  "calculate_root X leaves =
     (if leaves = [] then hash_ZERO
      else if length leaves = 1 then leaves ! 0
      else merkle_loop X leaves)"

definition merkle_new :: "crypto_ext \<Rightarrow> bytes list \<Rightarrow> merkle_tree" where
  "merkle_new X data = (let leaves = map (hash_new X) data
     in \<lparr>mt_leaves = leaves, mt_root = calculate_root X leaves\<rparr>)"

section \<open>The golden trees\<close>

definition MERKLE_NODE_DOMAIN :: bytes where
  "MERKLE_NODE_DOMAIN = map (\<lambda>c. of_nat (of_char c)) ''MERKLE_NODE''"

fun golden_level :: "crypto_ext \<Rightarrow> bytes \<Rightarrow> u32 \<Rightarrow> hash list \<Rightarrow> hash list" where
  "golden_level X key level [] = []"
| "golden_level X key level [a] = [a]"
| "golden_level X key level (a # b # rest) =
     Hash (blake3 X (MERKLE_NODE_DOMAIN @ key @ to_le_bytes level @ hash_as_bytes a @ hash_as_bytes b))
     # golden_level X key level rest"

lemma length_golden_level: "length (golden_level X key level hs) = (length hs + 1) div 2"
  by (induction X key level hs rule: golden_level.induct) auto

function golden_loop :: "crypto_ext \<Rightarrow> golden_generator \<Rightarrow> u32 \<Rightarrow> hash list \<Rightarrow> hash option" where
  "golden_loop X g level current =
     (if 1 < length current
      then case next_bytes X g of None \<Rightarrow> None
        | Some (key, g') \<Rightarrow> golden_loop X g' (level + 1) (golden_level X key level current)
      else Some (hd current))"
  by pat_completeness auto
termination
  by (relation "measure (\<lambda>(X, g, level, current). length current)") (auto simp: length_golden_level)

declare golden_loop.simps [simp del]

definition calculate_root_with_golden :: "crypto_ext \<Rightarrow> hash list \<Rightarrow> hash \<Rightarrow> u64 \<Rightarrow> hash option" where
  "calculate_root_with_golden X leaves genesis_hash epoch =
     (if leaves = [] then Some hash_ZERO
      else if length leaves = 1 then Some (leaves ! 0)
      else golden_loop X (from_genesis_epoch X genesis_hash (epoch * 100)) 0 leaves)"

definition new_with_golden :: "crypto_ext \<Rightarrow> bytes list \<Rightarrow> hash \<Rightarrow> u64 \<Rightarrow> merkle_tree option" where
  "new_with_golden X data genesis_hash epoch =
     (let leaves = map (hash_new X) data
      in map_option (\<lambda>root. \<lparr>mt_leaves = leaves, mt_root = root\<rparr>)
           (calculate_root_with_golden X leaves genesis_hash epoch))"

definition golden_order :: "bytes list \<Rightarrow> bytes list" where
  "golden_order data =
     map snd (sort_key (\<lambda>p. (golden_sort_key (of_nat (fst p)), fst p)) (enumerate 0 data))"

definition new_with_golden_ordering :: "crypto_ext \<Rightarrow> bytes list \<Rightarrow> hash \<Rightarrow> u64 \<Rightarrow> merkle_tree option" where
  "new_with_golden_ordering X data genesis_hash epoch =
     new_with_golden X (golden_order data) genesis_hash epoch"

section \<open>Binding of the standard tree\<close>

text \<open>The byte strings that are hashed while a root is computed.\<close>

fun level_inputs :: "hash list \<Rightarrow> bytes list" where
  "level_inputs [] = []"
| "level_inputs [a] = [hash_as_bytes a]"
| "level_inputs (a # b # rest) = (hash_as_bytes a @ hash_as_bytes b) # level_inputs rest"

function loop_inputs :: "crypto_ext \<Rightarrow> hash list \<Rightarrow> bytes list" where
  "loop_inputs X current =
     (if 1 < length current then level_inputs current @ loop_inputs X (merkle_level X current) else [])"
  by pat_completeness auto
termination
  by (relation "measure (\<lambda>(X, current). length current)") (auto simp: length_merkle_level)

declare loop_inputs.simps [simp del]

definition merkle_inputs :: "crypto_ext \<Rightarrow> bytes list \<Rightarrow> bytes list" where
  "merkle_inputs X data = data @ loop_inputs X (map (hash_new X) data)"

definition no_collision :: "crypto_ext \<Rightarrow> bytes list \<Rightarrow> bool" where
  "no_collision X msgs \<longleftrightarrow> inj_on (blake3 X) (set msgs)"

lemma hash_new_inj:
  "no_collision X msgs \<Longrightarrow> a \<in> set msgs \<Longrightarrow> b \<in> set msgs \<Longrightarrow> hash_new X a = hash_new X b \<longleftrightarrow> a = b"
  by (auto simp: no_collision_def hash_new_def inj_on_def)

lemma no_collision_mono: "no_collision X msgs \<Longrightarrow> set ms \<subseteq> set msgs \<Longrightarrow> no_collision X ms"
  unfolding no_collision_def by (rule inj_on_subset)

lemma merkle_level_conv: "merkle_level X hs = map (hash_new X) (level_inputs hs)"
  by (induction hs rule: level_inputs.induct) auto

lemma level_inputs_inject: "level_inputs hs = level_inputs ks \<longleftrightarrow> hs = ks"
proof (induction hs arbitrary: ks rule: level_inputs.induct)
  case 1
  show ?case by (cases ks rule: level_inputs.cases) auto
next
  case (2 a)
  show ?case by (cases ks rule: level_inputs.cases)
    (auto dest: arg_cong[of _ _ length])
next
  case (3 a b rest)
  show ?case by (cases ks rule: level_inputs.cases)
    (auto simp: "3.IH" append_eq_same_prefix_length dest: arg_cong[of _ _ length])
qed

lemma map_hash_new_inj:
  assumes "no_collision X msgs" and "set as \<subseteq> set msgs" and "set bs \<subseteq> set msgs"
  shows "map (hash_new X) as = map (hash_new X) bs \<longleftrightarrow> as = bs"
  using assms
proof (induction as arbitrary: bs)
  case (Cons a as)
  then show ?case by (cases bs) (auto simp: hash_new_inj)
qed auto

lemma merkle_level_inj:
  assumes "no_collision X msgs" and "set (level_inputs hs) \<subseteq> set msgs" and "set (level_inputs ks) \<subseteq> set msgs"
  shows "merkle_level X hs = merkle_level X ks \<longleftrightarrow> hs = ks"
  unfolding merkle_level_conv map_hash_new_inj[OF assms] by (rule level_inputs_inject)

text \<open>\<open>above X hs ks\<close>: \<open>ks\<close> is a level of the tree built over \<open>hs\<close>.\<close>

inductive above :: "crypto_ext \<Rightarrow> hash list \<Rightarrow> hash list \<Rightarrow> bool" for X where
  above_refl: "above X hs hs"
| above_step: "above X hs ks \<Longrightarrow> 1 < length ks \<Longrightarrow> above X hs (merkle_level X ks)"

lemma above_down: "above X (merkle_level X hs) ks \<Longrightarrow> 1 < length hs \<Longrightarrow> above X hs ks"
  by (induction "merkle_level X hs" ks rule: above.induct) (auto intro: above.intros)

lemma loop_inputs_step:
  "1 < length hs \<Longrightarrow> loop_inputs X hs = level_inputs hs @ loop_inputs X (merkle_level X hs)"
  by (subst loop_inputs.simps) simp

lemma merkle_loop_step: "1 < length hs \<Longrightarrow> merkle_loop X hs = merkle_loop X (merkle_level X hs)"
  by (subst merkle_loop.simps) simp

lemma merkle_loop_single: "merkle_loop X [h] = h"
  by (subst merkle_loop.simps) simp

lemma merkle_level_nonempty: "hs \<noteq> [] \<Longrightarrow> merkle_level X hs \<noteq> []"
  by (cases hs rule: level_inputs.cases) auto

lemma above_root: "hs \<noteq> [] \<Longrightarrow> above X hs [merkle_loop X hs]"
proof (induction X hs rule: merkle_loop.induct)
  case (1 X hs)
  show ?case
  proof (cases "1 < length hs")
    case True
    then have "above X (merkle_level X hs) [merkle_loop X (merkle_level X hs)]"
      using "1.IH" "1.prems" merkle_level_nonempty by blast
    with True show ?thesis by (subst merkle_loop.simps) (simp add: above_down)
  next
    case False
    then have "hs = [hd hs]" using "1.prems" by (cases hs) auto
    with False show ?thesis by (subst merkle_loop.simps) (metis above_refl)
  qed
qed

lemma above_inputs: "above X hs ks \<Longrightarrow> set (loop_inputs X ks) \<subseteq> set (loop_inputs X hs)"
proof (induction rule: above.induct)
  case (above_step hs ks)
  have "set (loop_inputs X (merkle_level X ks)) \<subseteq> set (loop_inputs X ks)"
    using above_step(2) by (simp add: loop_inputs_step)
  with above_step(3) show ?case by blast
qed simp

lemma same_root_above:
  "no_collision X (loop_inputs X hs @ loop_inputs X ks) \<Longrightarrow> hs \<noteq> [] \<Longrightarrow> ks \<noteq> [] \<Longrightarrow>
   merkle_loop X hs = merkle_loop X ks \<Longrightarrow> above X hs ks \<or> above X ks hs"
proof (induction "length hs" arbitrary: hs ks rule: less_induct)
  case less
  show ?case
  proof (cases "1 < length hs \<and> 1 < length ks")
    case True
    let ?hs = "merkle_level X hs" and ?ks = "merkle_level X ks"
    have in_hs: "set (level_inputs hs) \<subseteq> set (loop_inputs X hs)"
        "set (loop_inputs X ?hs) \<subseteq> set (loop_inputs X hs)"
      using True by (auto simp: loop_inputs_step)
    have in_ks: "set (level_inputs ks) \<subseteq> set (loop_inputs X ks)"
        "set (loop_inputs X ?ks) \<subseteq> set (loop_inputs X ks)"
      using True by (auto simp: loop_inputs_step)
    have nc: "no_collision X (loop_inputs X ?hs @ loop_inputs X ?ks)"
      by (rule no_collision_mono[OF less.prems(1)]) (use in_hs in_ks in auto)
    have "length ?hs < length hs" using True by (auto simp: length_merkle_level)
    moreover have "merkle_loop X ?hs = merkle_loop X ?ks"
      using less.prems(4) True by (simp add: merkle_loop_step)
    ultimately have ab: "above X ?hs ?ks \<or> above X ?ks ?hs"
      using less.hyps nc less.prems(2,3) merkle_level_nonempty by blast
    have step: "above X as bs \<or> above X bs as"
      if ab: "above X (merkle_level X as) (merkle_level X bs)"
        and as: "1 < length as" and bs: "1 < length bs"
        and nc: "no_collision X (loop_inputs X as @ loop_inputs X bs)" for as bs
      using ab
    proof (cases rule: above.cases)
      case above_refl
      have sub: "set (level_inputs as) \<subseteq> set (loop_inputs X as @ loop_inputs X bs)"
          "set (level_inputs bs) \<subseteq> set (loop_inputs X as @ loop_inputs X bs)"
        using as bs by (auto simp: loop_inputs_step)
      have "as = bs" using merkle_level_inj[OF nc sub] above_refl by simp
      then show ?thesis using above.above_refl by blast
    next
      case (above_step cs)
      have ac: "above X as cs" using above_step(2) as by (rule above_down)
      have "set (level_inputs cs) \<subseteq> set (loop_inputs X as)"
        using above_inputs[OF ac] above_step(3) by (simp add: loop_inputs_step)
      moreover have "set (level_inputs bs) \<subseteq> set (loop_inputs X bs)"
        using bs by (simp add: loop_inputs_step)
      ultimately have "bs = cs"
        using above_step(1) by (subst merkle_level_inj[OF nc, symmetric]) auto
      with ac show ?thesis by blast
    qed
    have nc': "no_collision X (loop_inputs X ks @ loop_inputs X hs)"
      by (rule no_collision_mono[OF less.prems(1)]) auto
    from ab step True less.prems(1) nc' show ?thesis by blast
  next
    case False
    then consider "hs = [hd hs]" | "ks = [hd ks]"
      using less.prems(2,3) by (cases hs; cases ks) auto
    then show ?thesis
    proof cases
      case 1
      then have "merkle_loop X ks = hd hs"
        using less.prems(4) by (metis merkle_loop_single)
      then show ?thesis using above_root[OF less.prems(3), of X] 1 by simp
    next
      case 2
      then have "merkle_loop X hs = hd ks"
        using less.prems(4) by (metis merkle_loop_single)
      then show ?thesis using above_root[OF less.prems(2), of X] 2 by simp
    qed
  qed
qed

text \<open>A hash that stands above two others was computed from 64 or more bytes, a leaf from 32.\<close>

lemma above_leaves:
  assumes "above X (map (hash_new X) xs) (map (hash_new X) ys)"
    and nc: "no_collision X (merkle_inputs X xs @ merkle_inputs X ys)"
    and len: "\<forall>y\<in>set ys. length y = 32"
  shows "xs = ys"
  using assms(1)
proof (cases rule: above.cases)
  case above_refl
  then show ?thesis
    by (subst map_hash_new_inj[OF nc, symmetric]) (auto simp: merkle_inputs_def)
next
  case (above_step ks)
  then obtain a b rest where ks: "ks = a # b # rest"
    by (cases ks rule: level_inputs.cases) auto
  then obtain y ys' where ys: "ys = y # ys'" and eq: "hash_new X (hash_as_bytes a @ hash_as_bytes b) = hash_new X y"
    using above_step(1) by (cases ys) auto
  have "hash_as_bytes a @ hash_as_bytes b \<in> set (loop_inputs X (map (hash_new X) xs))"
    using above_inputs[OF above_step(2)] by (auto simp: ks loop_inputs_step)
  then have "hash_as_bytes a @ hash_as_bytes b = y"
    using eq hash_new_inj[OF nc] by (auto simp: merkle_inputs_def ys)
  then have "length y = 64" by auto
  with len show ?thesis by (simp add: ys)
qed

lemma merkle_binding:
  assumes "no_collision X (merkle_inputs X xs @ merkle_inputs X ys)"
    and "\<forall>x\<in>set xs. length x = 32" and "\<forall>y\<in>set ys. length y = 32"
    and "xs \<noteq> []" and "ys \<noteq> []"
  shows "mt_root (merkle_new X xs) = mt_root (merkle_new X ys) \<longleftrightarrow> xs = ys"
proof
  let ?h = "map (hash_new X)"
  have root: "mt_root (merkle_new X zs) = merkle_loop X (?h zs)" if "zs \<noteq> []" for zs
    using that by (cases zs; cases "tl zs") (auto simp: merkle_new_def calculate_root_def merkle_loop_single Let_def)
  assume "mt_root (merkle_new X xs) = mt_root (merkle_new X ys)"
  then have eq: "merkle_loop X (?h xs) = merkle_loop X (?h ys)" using assms(4,5) root by simp
  have "no_collision X (loop_inputs X (?h xs) @ loop_inputs X (?h ys))"
    by (rule no_collision_mono[OF assms(1)]) (auto simp: merkle_inputs_def)
  then have "above X (?h xs) (?h ys) \<or> above X (?h ys) (?h xs)"
    using same_root_above eq assms(4,5) by simp
  moreover have "no_collision X (merkle_inputs X ys @ merkle_inputs X xs)"
    by (rule no_collision_mono[OF assms(1)]) auto
  ultimately show "xs = ys" using above_leaves assms(1-3) by metis
qed simp

section \<open>The golden order\<close>

lemma golden_order_mset: "mset (golden_order data) = mset data"
  by (simp add: golden_order_def) (metis map_snd_enumerate mset_map mset_sort)

end
