(* ===== verification/Core_Problem.thy ===== *)
theory Core_Problem
  imports Core_Types CJ_Float64
begin

text \<open>
  \<open>core/src/problem.rs\<close>: the three NP-hard problem families, the polynomial-time check of a
  solution and its quality. Index expressions that panic out of range are \<open>option\<close>
  values (\<open>None\<close> is the panic); \<open>get(..)\<close> with a default is total, as in the source. Sums of \<open>i64\<close>
  and \<open>u64\<close> wrap around.
\<close>

section \<open>Data\<close>

record clause =
  literals :: "i32 list"

datatype problem_type =
    SubsetSum "i64 list" i64
  | SAT nat "clause list"
  | TSP nat "u64 list list"
  | CustomProblem hash bytes

datatype solution =
    SubsetSumSol "nat list"
  | SATSol "bool list"
  | TSPSol "nat list"
  | CustomSol bytes

definition index :: "'a list \<Rightarrow> nat \<Rightarrow> 'a option" where
  "index xs i = (if i < length xs then Some (xs ! i) else None)"

section \<open>Tours\<close>

definition distance_at :: "u64 list list \<Rightarrow> nat \<Rightarrow> nat \<Rightarrow> u64 option" where
  "distance_at distances a b = Option.bind (index distances a) (\<lambda>row. index row b)"

definition tsp_tour_length :: "nat list \<Rightarrow> nat \<Rightarrow> u64 list list \<Rightarrow> u64 option" where
  "tsp_tour_length tour cities distances =
     map_option sum_list (those (map (\<lambda>i.
       Option.bind (index tour i) (\<lambda>from_city.
       Option.bind (index tour ((i + 1) mod cities)) (\<lambda>to_city.
       distance_at distances from_city to_city))) [0..<cities]))"

text \<open>The inner loop of \<open>tsp_nearest_neighbor_length\<close>: the nearest unvisited city after
  \<open>current\<close>, strictly closer than the best so far.\<close>

fun nn_scan :: "u64 list list \<Rightarrow> nat \<Rightarrow> bool list \<Rightarrow> nat list \<Rightarrow> nat option \<Rightarrow> u64 \<Rightarrow> nat option option" where
  "nn_scan distances current visited [] best_next best_dist = Some best_next"
| "nn_scan distances current visited (next # rest) best_next best_dist =
     (case index visited next of None \<Rightarrow> None
      | Some True \<Rightarrow> nn_scan distances current visited rest best_next best_dist
      | Some False \<Rightarrow>
          (case distance_at distances current next of None \<Rightarrow> None
           | Some d \<Rightarrow>
               if d < best_dist
               then nn_scan distances current visited rest (Some next) d
               else nn_scan distances current visited rest best_next best_dist))"

text \<open>The outer loop: extend the tour by the nearest city until it is complete or no city is
  nearer than \<open>u64::MAX\<close>.\<close>

function nn_loop :: "nat \<Rightarrow> u64 list list \<Rightarrow> nat list \<Rightarrow> bool list \<Rightarrow> nat list option" where
  "nn_loop cities distances tour visited =
     (if length tour < cities then
        (case nn_scan distances (last tour) visited [0..<cities] None (- 1) of
           None \<Rightarrow> None
         | Some None \<Rightarrow> Some tour
         | Some (Some next) \<Rightarrow> nn_loop cities distances (tour @ [next]) (visited[next := True]))
      else Some tour)"
  by pat_completeness auto
termination
  by (relation "measure (\<lambda>(cities, _, tour, _). cities - length tour)") auto

declare nn_loop.simps [simp del]

definition tsp_nearest_neighbor_length :: "nat \<Rightarrow> u64 list list \<Rightarrow> u64 option" where
  "tsp_nearest_neighbor_length cities distances =
     (if cities = 0 then None
      else Option.bind (nn_loop cities distances [0] ((replicate cities False)[0 := True]))
        (\<lambda>tour. tsp_tour_length tour cities distances))"

section \<open>Verification\<close>

definition literal_holds :: "bool list \<Rightarrow> i32 \<Rightarrow> bool" where
  "literal_holds assignment lit =
     (let var_idx = (ucast (abs_word lit) :: u64) - 1;
          value = unwrap_or (index assignment (unat var_idx)) False
      in if 0 <s lit then value else \<not> value)"

fun tsp_visit :: "nat \<Rightarrow> bool list \<Rightarrow> nat list \<Rightarrow> bool" where
  "tsp_visit cities visited [] = True"
| "tsp_visit cities visited (city # rest) =
     (if cities \<le> city \<or> visited ! city then False
      else tsp_visit cities (visited[city := True]) rest)"

fun solution_verify :: "solution \<Rightarrow> problem_type \<Rightarrow> bool" where
  "solution_verify (SubsetSumSol indices) (SubsetSum numbers target) =
     ((\<Sum>i\<leftarrow>indices. unwrap_or (index numbers i) 0) = target)"
| "solution_verify (SATSol assignment) (SAT variables clauses) =
     (if length assignment \<noteq> variables then False
      else list_all (\<lambda>c. list_ex (literal_holds assignment) (literals c)) clauses)"
| "solution_verify (TSPSol tour) (TSP cities distances) =
     (length tour = cities \<and> tsp_visit cities (replicate cities False) tour)"
| "solution_verify _ _ = False"

section \<open>Quality and weight\<close>

fun solution_quality :: "solution \<Rightarrow> problem_type \<Rightarrow> f64 option" where
  "solution_quality (SubsetSumSol indices) (SubsetSum numbers target) =
     Some (if solution_verify (SubsetSumSol indices) (SubsetSum numbers target)
           then f_one else f_zero)"
| "solution_quality (TSPSol tour) (TSP cities distances) =
     (if \<not> solution_verify (TSPSol tour) (TSP cities distances) then Some f_zero
      else Option.bind (tsp_tour_length tour cities distances) (\<lambda>len.
        map_option (\<lambda>nn. let baseline = max nn 1 in
            f_clamp (f_div (f_of_word baseline) (f_of_word (max len baseline))) f_zero f_one)
          (tsp_nearest_neighbor_length cities distances)))"
| "solution_quality (SATSol assignment) (SAT variables clauses) =
     Some (if solution_verify (SATSol assignment) (SAT variables clauses) then f_one else f_zero)"
| "solution_quality _ _ = Some f_zero"

fun difficulty_weight :: "float_ext \<Rightarrow> problem_type \<Rightarrow> f64" where
  "difficulty_weight F (SubsetSum numbers target) = fm_log2 F (f_of_nat (length numbers))"
| "difficulty_weight F (SAT variables clauses) =
     f_mul (f_of_nat variables) (fm_log2 F (f_of_nat (length clauses)))"
| "difficulty_weight F (TSP cities distances) = fm_powi F (f_of_nat cities) 2"
| "difficulty_weight F (CustomProblem _ _) = f_one"

text \<open>\<open>ProblemType::hash\<close>: BLAKE3 of the bincode bytes; a failing serialisation is the empty
  vector (\<open>unwrap_or_default\<close>).\<close>

definition problem_serialize :: "(problem_type \<Rightarrow> bytes option) \<Rightarrow> problem_type \<Rightarrow> bytes" where
  "problem_serialize ser p = unwrap_or (ser p) []"

definition problem_hash_of :: "crypto_ext \<Rightarrow> (problem_type \<Rightarrow> bytes option) \<Rightarrow> problem_type \<Rightarrow> hash" where
  "problem_hash_of X ser p = hash_new X (problem_serialize ser p)"

section \<open>The tour check\<close>

lemma index_Some: "index xs i = Some x \<longleftrightarrow> i < length xs \<and> xs ! i = x"
  by (auto simp: index_def)

lemma index_lt [simp]: "i < length xs \<Longrightarrow> index xs i = Some (xs ! i)"
  by (simp add: index_def)

lemma tsp_visit_iff:
  "length visited = cities \<Longrightarrow>
     tsp_visit cities visited tour \<longleftrightarrow>
       distinct tour \<and> (\<forall>c\<in>set tour. c < cities \<and> \<not> visited ! c)"
proof (induction cities visited tour rule: tsp_visit.induct)
  case (1 cities visited)
  show ?case by simp
next
  case (2 cities visited city rest)
  show ?case
  proof (cases "cities \<le> city \<or> visited ! city")
    case True
    then show ?thesis by auto
  next
    case False
    with 2 have "tsp_visit cities (visited[city := True]) rest \<longleftrightarrow>
        distinct rest \<and> (\<forall>c\<in>set rest. c < cities \<and> \<not> visited[city := True] ! c)"
      by simp
    with False 2(2) show ?thesis by (auto simp: nth_list_update)
  qed
qed

lemma verify_TSP_iff:
  "solution_verify (TSPSol tour) (TSP cities distances) \<longleftrightarrow>
     distinct tour \<and> set tour = {0..<cities}"
proof
  assume "solution_verify (TSPSol tour) (TSP cities distances)"
  then have len: "length tour = cities" and d: "distinct tour" and lt: "set tour \<subseteq> {0..<cities}"
    by (auto simp: tsp_visit_iff)
  have "card (set tour) = card {0..<cities}" using len d by (simp add: distinct_card)
  with lt have "set tour = {0..<cities}" by (intro card_subset_eq) auto
  with d show "distinct tour \<and> set tour = {0..<cities}" by simp
next
  assume a: "distinct tour \<and> set tour = {0..<cities}"
  then have "length tour = cities" using distinct_card[of tour] by simp
  with a show "solution_verify (TSPSol tour) (TSP cities distances)"
    by (auto simp: tsp_visit_iff)
qed

section \<open>The SAT check\<close>

text \<open>A literal names a variable of the formula.\<close>

definition literal_ok :: "nat \<Rightarrow> i32 \<Rightarrow> bool" where
  "literal_ok variables l \<longleftrightarrow> sint l \<noteq> 0 \<and> nat \<bar>sint l\<bar> \<le> variables"

definition literal_true :: "bool list \<Rightarrow> i32 \<Rightarrow> bool" where
  "literal_true assignment l \<longleftrightarrow> (assignment ! (nat \<bar>sint l\<bar> - 1)) = (0 < sint l)"

lemma literal_holds_iff:
  assumes "literal_ok (length assignment) l"
  shows "literal_holds assignment l \<longleftrightarrow> literal_true assignment l"
proof -
  let ?a = "abs_word l"
  have a: "unat ?a = nat \<bar>sint l\<bar>" by (rule unat_abs_word)
  have up: "unat (ucast ?a :: u64) = unat ?a" by (rule unat_ucast_up) simp
  have pos: "1 \<le> nat \<bar>sint l\<bar>" using assms by (auto simp: literal_ok_def)
  have "1 \<le> (ucast ?a :: u64)" using up a pos by (simp add: word_le_nat_alt)
  then have "unat ((ucast ?a :: u64) - 1) = unat ?a - 1" using up by (simp add: unat_sub)
  with a assms show ?thesis
    by (auto simp: literal_holds_def literal_true_def literal_ok_def Let_def word_sless_alt)
qed

lemma verify_SAT_iff:
  assumes "\<forall>c\<in>set clauses. \<forall>l\<in>set (literals c). literal_ok variables l"
  shows "solution_verify (SATSol assignment) (SAT variables clauses) \<longleftrightarrow>
    length assignment = variables \<and>
    (\<forall>c\<in>set clauses. \<exists>l\<in>set (literals c). literal_true assignment l)"
  using assms by (auto simp: list_all_iff list_ex_iff literal_holds_iff)

section \<open>The subset-sum check\<close>

lemma verify_SubsetSum_distinct:
  assumes "distinct indices" and "set indices \<subseteq> {0..<length numbers}"
  shows "solution_verify (SubsetSumSol indices) (SubsetSum numbers target) \<longleftrightarrow>
    (\<Sum>i\<in>set indices. numbers ! i) = target"
proof -
  have "(\<Sum>i\<leftarrow>indices. unwrap_or (index numbers i) 0) = (\<Sum>i\<leftarrow>indices. numbers ! i)"
    using assms(2) by (intro arg_cong[where f = sum_list] map_cong) auto
  then show ?thesis using assms(1) by (simp add: sum_list_distinct_conv_sum_set)
qed

lemma verify_SubsetSum_repeated:
  "i < length numbers \<Longrightarrow>
     solution_verify (SubsetSumSol (replicate n i)) (SubsetSum numbers target) \<longleftrightarrow>
       of_nat n * (numbers ! i) = target"
  by (simp add: map_replicate_const sum_list_replicate)

section \<open>The nearest-neighbour baseline\<close>

text \<open>A distance matrix the tour functions do not panic on: square, with every distance
  between two different cities below \<open>u64::MAX\<close>.\<close>

definition matrix_ok :: "nat \<Rightarrow> u64 list list \<Rightarrow> bool" where
  "matrix_ok cities d \<longleftrightarrow> length d = cities \<and> (\<forall>row\<in>set d. length row = cities) \<and>
     (\<forall>a<cities. \<forall>b<cities. a \<noteq> b \<longrightarrow> d ! a ! b < - 1)"

lemma distance_at_ok:
  "matrix_ok cities d \<Longrightarrow> a < cities \<Longrightarrow> b < cities \<Longrightarrow> distance_at d a b = Some (d ! a ! b)"
  by (simp add: distance_at_def matrix_ok_def)

lemma those_Some: "(\<And>x. x \<in> set xs \<Longrightarrow> f x = Some (g x)) \<Longrightarrow> those (map f xs) = Some (map g xs)"
  by (induction xs) auto

lemma tsp_tour_length_ok:
  assumes "matrix_ok cities d" and "length tour = cities" and "set tour \<subseteq> {0..<cities}"
  shows "tsp_tour_length tour cities d =
    Some (\<Sum>i\<leftarrow>[0..<cities]. d ! (tour ! i) ! (tour ! ((i + 1) mod cities)))"
proof -
  have nth: "tour ! i < cities" if "i < cities" for i
    using subsetD[OF assms(3) nth_mem[of i tour]] that assms(2) by simp
  show ?thesis
    unfolding tsp_tour_length_def
    by (subst those_Some[where g = "\<lambda>i. d ! (tour ! i) ! (tour ! ((i + 1) mod cities))"])
       (auto simp: assms(2) nth distance_at_ok[OF assms(1)])
qed

lemma nn_scan_ok:
  assumes "matrix_ok cities d" and "current < cities" and "visited ! current"
    and "length visited = cities"
  shows "set ns \<subseteq> {0..<cities} \<Longrightarrow> (best_next = None \<Longrightarrow> best_dist = - 1) \<Longrightarrow>
    \<exists>r. nn_scan d current visited ns best_next best_dist = Some r \<and>
      (r = None \<longrightarrow> best_next = None \<and> (\<forall>x\<in>set ns. visited ! x)) \<and>
      (\<forall>x. r = Some x \<longrightarrow> best_next = Some x \<or> x \<in> set ns \<and> \<not> visited ! x)"
proof (induction ns arbitrary: best_next best_dist)
  case Nil
  then show ?case by simp
next
  case (Cons nxt rest)
  have lt: "nxt < cities" and sub: "set rest \<subseteq> {0..<cities}" using Cons.prems by auto
  show ?case
  proof (cases "visited ! nxt")
    case True
    with Cons.IH[OF sub Cons.prems(2)] lt assms(4) show ?thesis by force
  next
    case False
    then have ne: "nxt \<noteq> current" using assms(3) by auto
    let ?d = "d ! current ! nxt"
    have at: "distance_at d current nxt = Some ?d"
      using assms(1,2) lt by (rule distance_at_ok)
    show ?thesis
    proof (cases "?d < best_dist")
      case True
      obtain r where "nn_scan d current visited rest (Some nxt) ?d = Some r"
        and "r \<noteq> None" and "\<forall>x. r = Some x \<longrightarrow> nxt = x \<or> x \<in> set rest \<and> \<not> visited ! x"
        using Cons.IH[OF sub, of "Some nxt" ?d] by auto
      with True False lt at assms(4) show ?thesis by force
    next
      case notless: False
      have bn: "best_next \<noteq> None"
      proof
        assume "best_next = None"
        then have "best_dist = - 1" by (rule Cons.prems(2))
        with notless ne lt assms(1,2) show False by (auto simp: matrix_ok_def)
      qed
      with Cons.IH[OF sub Cons.prems(2)] notless False lt at assms(4) show ?thesis by force
    qed
  qed
qed

definition nn_inv :: "nat \<Rightarrow> nat list \<Rightarrow> bool list \<Rightarrow> bool" where
  "nn_inv cities tour visited \<longleftrightarrow> length visited = cities \<and> tour \<noteq> [] \<and> distinct tour \<and>
     set tour = {i. i < cities \<and> visited ! i}"

lemma nn_loop_complete:
  "matrix_ok cities d \<Longrightarrow> nn_inv cities tour visited \<Longrightarrow>
    \<exists>t. nn_loop cities d tour visited = Some t \<and> distinct t \<and> set t = {0..<cities}"
proof (induction cities d tour visited rule: nn_loop.induct)
  case (1 cities d tour visited)
  from "1.prems"(2) have inv: "length visited = cities" "tour \<noteq> []" "distinct tour"
    and st: "set tour = {i. i < cities \<and> visited ! i}" by (simp_all add: nn_inv_def)
  show ?case
  proof (cases "length tour < cities")
    case False
    have "set tour \<subseteq> {0..<cities}" unfolding st by (rule subsetI) simp
    moreover have "card {0..<cities} \<le> card (set tour)"
      using False inv(3) by (simp add: distinct_card)
    ultimately have "set tour = {0..<cities}" by (intro card_seteq) auto
    with False inv(3) show ?thesis by (simp add: nn_loop.simps[of cities d tour visited])
  next
    case True
    have "card (set tour) \<noteq> card {0..<cities}" using True inv(3) by (simp add: distinct_card)
    then have "set tour \<noteq> {0..<cities}" by metis
    then have "\<exists>free<cities. \<not> visited ! free" unfolding st by auto
    then obtain free where free: "free < cities" "\<not> visited ! free" by blast
    have "last tour \<in> set tour" using inv(2) by simp
    then have cur: "last tour < cities" "visited ! last tour" using st by auto
    obtain r where scan: "nn_scan d (last tour) visited [0..<cities] None (- 1) = Some r"
      and none: "r = None \<longrightarrow> (\<forall>x\<in>{0..<cities}. visited ! x)"
      and some: "\<forall>x. r = Some x \<longrightarrow> x < cities \<and> \<not> visited ! x"
      using nn_scan_ok[OF "1.prems"(1) cur inv(1), of "[0..<cities]" None "- 1"] by auto
    from none free obtain nxt where nxt: "r = Some nxt" by (cases r) auto
    with some have new: "nxt < cities" "\<not> visited ! nxt" by auto
    have "nn_inv cities (tour @ [nxt]) (visited[nxt := True])"
      using inv st new by (auto simp: nn_inv_def nth_list_update split: if_splits)
    with "1.IH"[OF True scan nxt] "1.prems"(1) True scan nxt show ?thesis
      by (simp add: nn_loop.simps[of cities d tour visited])
  qed
qed

lemma tsp_nearest_neighbor_total:
  assumes "0 < cities" and "matrix_ok cities d"
  shows "\<exists>t n. nn_loop cities d [0] ((replicate cities False)[0 := True]) = Some t \<and>
    solution_verify (TSPSol t) (TSP cities d) \<and>
    tsp_tour_length t cities d = Some n \<and> tsp_nearest_neighbor_length cities d = Some n"
proof -
  have "nn_inv cities [0] ((replicate cities False)[0 := True])"
    using assms(1) by (auto simp: nn_inv_def nth_list_update)
  from nn_loop_complete[OF assms(2) this] obtain t
    where t: "nn_loop cities d [0] ((replicate cities False)[0 := True]) = Some t"
      and perm: "distinct t" "set t = {0..<cities}" by blast
  have len: "length t = cities" using perm distinct_card[of t] by simp
  obtain n where "tsp_tour_length t cities d = Some n"
    using tsp_tour_length_ok[OF assms(2) len] perm by simp
  with t perm assms(1) show ?thesis
    by (auto simp: verify_TSP_iff tsp_nearest_neighbor_length_def simp del: solution_verify.simps)
qed

text \<open>On such a matrix the quality of a valid tour is a number between 0 and 1, and it is 1 for a
  tour no longer than the baseline.\<close>

lemma max_nonzero: "b \<noteq> 0 \<Longrightarrow> max l (b :: u64) \<noteq> 0"
proof
  assume b: "b \<noteq> 0" and z: "max l b = 0"
  have "b \<le> max l b" by simp
  then have "b \<le> 0" by (simp only: z)
  then have "b = 0" by (rule order_antisym) (rule word_zero_le)
  with b show False ..
qed

lemma max_1_nonzero: "max (n :: u64) 1 \<noteq> 0"
  by (rule max_nonzero) simp

lemma quality_TSP_total:
  assumes "0 < cities" and "matrix_ok cities d"
    and v: "solution_verify (TSPSol tour) (TSP cities d)"
  shows "\<exists>q. solution_quality (TSPSol tour) (TSP cities d) = Some q \<and>
    f_le f_zero q \<and> f_le q f_one"
proof -
  have perm: "distinct tour" "set tour = {0..<cities}" using v by (simp_all only: verify_TSP_iff)
  then have len: "length tour = cities" using distinct_card[of tour] by simp
  obtain l where l: "tsp_tour_length tour cities d = Some l"
    using tsp_tour_length_ok[OF assms(2) len] perm by simp
  obtain n where n: "tsp_nearest_neighbor_length cities d = Some n"
    using tsp_nearest_neighbor_total[OF assms(1,2)] by blast
  let ?b = "max n 1" and ?m = "max l (max n 1)"
  have "?m \<noteq> 0" by (rule max_nonzero) (rule max_1_nonzero)
  then obtain x y where x: "f_of_word ?b = FFin False x" and y: "f_of_word ?m = FFin False y" "0 < y"
    using f_of_word_pos[OF max_1_nonzero] f_of_word_pos by blast
  then have "f_div (f_of_word ?b) (f_of_word ?m) \<noteq> FNaN" by simp
  from f_clamp_unit[OF this] v l n show ?thesis
    by (simp add: Let_def del: solution_verify.simps)
qed

lemma quality_TSP_baseline:
  assumes "solution_verify (TSPSol tour) (TSP cities d)"
    and "tsp_tour_length tour cities d = Some l" and "tsp_nearest_neighbor_length cities d = Some n"
    and "l \<le> n"
  shows "solution_quality (TSPSol tour) (TSP cities d) = Some f_one"
proof -
  have m: "max l (max n 1) = max n 1" using assms(4) by (simp add: max.absorb2 le_max_iff_disj)
  obtain x where "f_of_word (max n 1) = FFin False x" "0 < x"
    using f_of_word_pos[OF max_1_nonzero] by blast
  then have "f_div (f_of_word (max n 1)) (f_of_word (max n 1)) = f_one"
    using f_div_self[of x False] by (simp only:)
  then show ?thesis
    using assms m by (simp add: Let_def f_clamp_def f_one_def f_zero_def del: solution_verify.simps)
qed

text \<open>Without cities the check accepts the empty tour, and the baseline panics on it.\<close>

lemma quality_TSP_no_cities:
  "solution_verify (TSPSol []) (TSP 0 d)" "solution_quality (TSPSol []) (TSP 0 d) = None"
  by (simp_all add: tsp_tour_length_def tsp_nearest_neighbor_length_def)

end
