(* ===== verification/Core_Commitment.thy ===== *)
theory Core_Commitment
  imports Core_Crypto Core_Problem
begin

text \<open>
  \<open>core/src/commitment.rs\<close>: a miner commits to the solution of a problem before mining and
  reveals it after. The two serialisers (bincode and serde_json) are the fields of
  \<open>codec_ext\<close>; \<open>unwrap_or_default\<close> turns a failing one into the empty string.
\<close>

section \<open>Definitions\<close>

record codec_ext =
  bincode_problem :: "problem_type \<Rightarrow> bytes option"
  bincode_solution :: "solution \<Rightarrow> bytes option"
  json_problem :: "problem_type \<Rightarrow> bytes option"
  json_solution :: "solution \<Rightarrow> bytes option"

record commitment =
  cm_hash :: hash
  cm_problem_hash :: hash

text \<open>The body that \<open>create\<close> and \<open>create_from_json\<close> share, over the serialised forms, and the
  one of the golden variants.\<close>

definition commit_bytes :: "hash \<Rightarrow> hash \<Rightarrow> hash \<Rightarrow> bytes" where
  "commit_bytes problem_hash epoch_salt solution_hash =
     hash_as_bytes problem_hash @ hash_as_bytes epoch_salt @ hash_as_bytes solution_hash"

definition commit_create :: "crypto_ext \<Rightarrow> codec_ext \<Rightarrow> problem_type \<Rightarrow> solution \<Rightarrow> hash \<Rightarrow> commitment" where
  "commit_create X C problem solution epoch_salt =
     (let problem_hash = problem_hash_of X (bincode_problem C) problem;
          solution_hash = hash_new X (unwrap_or (bincode_solution C solution) []);
          commitment_data = commit_bytes problem_hash epoch_salt solution_hash
      in \<lparr>cm_hash = hash_new X commitment_data, cm_problem_hash = problem_hash\<rparr>)"

definition commit_create_from_json ::
  "crypto_ext \<Rightarrow> codec_ext \<Rightarrow> problem_type \<Rightarrow> solution \<Rightarrow> hash \<Rightarrow> commitment" where
  "commit_create_from_json X C problem solution epoch_salt =
     (let problem_hash = hash_new X (unwrap_or (json_problem C problem) []);
          solution_hash = hash_new X (unwrap_or (json_solution C solution) []);
          commitment_data = commit_bytes problem_hash epoch_salt solution_hash
      in \<lparr>cm_hash = hash_new X commitment_data, cm_problem_hash = problem_hash\<rparr>)"

definition commit_verify ::
  "crypto_ext \<Rightarrow> codec_ext \<Rightarrow> commitment \<Rightarrow> problem_type \<Rightarrow> solution \<Rightarrow> hash \<Rightarrow> bool" where
  "commit_verify X C c problem solution epoch_salt =
     (let expected_bincode = commit_create X C problem solution epoch_salt
      in if cm_hash c = cm_hash expected_bincode \<and> cm_problem_hash c = cm_problem_hash expected_bincode
         then True
         else let expected_json = commit_create_from_json X C problem solution epoch_salt
              in cm_hash c = cm_hash expected_json \<and> cm_problem_hash c = cm_problem_hash expected_json)"

definition create_with_golden ::
  "crypto_ext \<Rightarrow> codec_ext \<Rightarrow> problem_type \<Rightarrow> solution \<Rightarrow> hash \<Rightarrow> hash \<Rightarrow> u64 \<Rightarrow> commitment option" where
  "create_with_golden X C problem solution epoch_salt genesis_hash height =
     (let problem_hash = problem_hash_of X (bincode_problem C) problem;
          solution_hash = hash_new X (unwrap_or (bincode_solution C solution) [])
      in map_option (\<lambda>(golden_bytes, _). \<lparr>cm_hash = hash_new X
           (hash_as_bytes problem_hash @ hash_as_bytes epoch_salt @ golden_bytes @
            hash_as_bytes solution_hash), cm_problem_hash = problem_hash\<rparr>)
         (next_bytes X (from_genesis_epoch X genesis_hash height)))"

definition create_with_golden_json ::
  "crypto_ext \<Rightarrow> codec_ext \<Rightarrow> problem_type \<Rightarrow> solution \<Rightarrow> hash \<Rightarrow> hash \<Rightarrow> u64 \<Rightarrow> commitment option" where
  "create_with_golden_json X C problem solution epoch_salt genesis_hash height =
     (let problem_hash = hash_new X (unwrap_or (json_problem C problem) []);
          solution_hash = hash_new X (unwrap_or (json_solution C solution) [])
      in map_option (\<lambda>(golden_bytes, _). \<lparr>cm_hash = hash_new X
           (hash_as_bytes problem_hash @ hash_as_bytes epoch_salt @ golden_bytes @
            hash_as_bytes solution_hash), cm_problem_hash = problem_hash\<rparr>)
         (next_bytes X (from_genesis_epoch X genesis_hash height)))"

text \<open>\<open>verify_with_golden\<close>: the four attempts in order; \<open>None\<close> when the golden stream does not
  return.\<close>

definition verify_with_golden ::
  "crypto_ext \<Rightarrow> codec_ext \<Rightarrow> commitment \<Rightarrow> problem_type \<Rightarrow> solution \<Rightarrow> hash \<Rightarrow> hash option \<Rightarrow> u64 option \<Rightarrow> bool option" where
  "verify_with_golden X C c problem solution epoch_salt genesis_hash height =
     (let same = (\<lambda>e. cm_hash c = cm_hash e \<and> cm_problem_hash c = cm_problem_hash e) in
      if same (commit_create X C problem solution epoch_salt) then Some True
      else if same (commit_create_from_json X C problem solution epoch_salt) then Some True
      else case (genesis_hash, height) of
        (Some genesis, Some h) \<Rightarrow>
          (case create_with_golden X C problem solution epoch_salt genesis h of None \<Rightarrow> None
           | Some e \<Rightarrow> if same e then Some True
             else (case create_with_golden_json X C problem solution epoch_salt genesis h of None \<Rightarrow> None
               | Some e' \<Rightarrow> Some (same e')))
      | _ \<Rightarrow> Some False)"

record solution_reveal =
  sr_problem :: problem_type
  sr_solution :: solution
  sr_commitment :: commitment

definition reveal_verify :: "crypto_ext \<Rightarrow> codec_ext \<Rightarrow> solution_reveal \<Rightarrow> hash \<Rightarrow> bool" where
  "reveal_verify X C r epoch_salt =
     (if \<not> commit_verify X C (sr_commitment r) (sr_problem r) (sr_solution r) epoch_salt then False
      else solution_verify (sr_solution r) (sr_problem r))"

section \<open>Binding\<close>

text \<open>The serialised forms a verified commitment may stand for: bincode or JSON.\<close>

definition forms :: "codec_ext \<Rightarrow> problem_type \<Rightarrow> solution \<Rightarrow> (bytes \<times> bytes) list" where
  "forms C p s = [(unwrap_or (bincode_problem C p) [], unwrap_or (bincode_solution C s) []),
                  (unwrap_or (json_problem C p) [], unwrap_or (json_solution C s) [])]"

text \<open>The byte strings hashed when a form is committed to under a salt.\<close>

definition commit_inputs :: "crypto_ext \<Rightarrow> hash \<Rightarrow> bytes \<times> bytes \<Rightarrow> bytes list" where
  "commit_inputs X salt f = [fst f, snd f, commit_bytes (hash_new X (fst f)) salt (hash_new X (snd f))]"

definition form_commitment :: "crypto_ext \<Rightarrow> hash \<Rightarrow> bytes \<times> bytes \<Rightarrow> commitment" where
  "form_commitment X salt f =
     \<lparr>cm_hash = hash_new X (commit_bytes (hash_new X (fst f)) salt (hash_new X (snd f))),
      cm_problem_hash = hash_new X (fst f)\<rparr>"

lemma commit_verify_iff:
  "commit_verify X C c p s salt \<longleftrightarrow> (\<exists>f\<in>set (forms C p s). c = form_commitment X salt f)"
  by (cases c) (auto simp: commit_verify_def forms_def form_commitment_def commit_create_def
    commit_create_from_json_def problem_hash_of_def problem_serialize_def Let_def)

lemma commit_bytes_inject [simp]:
  "commit_bytes a b c = commit_bytes a' b' c' \<longleftrightarrow> a = a' \<and> b = b' \<and> c = c'"
  by (simp add: commit_bytes_def append_eq_same_prefix_length)

lemma form_commitment_inject:
  assumes "no_collision X (commit_inputs X salt f @ commit_inputs X salt' g)"
  shows "form_commitment X salt f = form_commitment X salt' g \<longleftrightarrow> f = g \<and> salt = salt'"
proof
  assume "form_commitment X salt f = form_commitment X salt' g"
  then have "hash_new X (fst f) = hash_new X (fst g)"
    and "hash_new X (snd f) = hash_new X (snd g)" and "salt = salt'"
    using hash_new_inj[OF assms] by (auto simp: form_commitment_def commit_inputs_def)
  then show "f = g \<and> salt = salt'"
    using hash_new_inj[OF assms] by (auto simp: commit_inputs_def prod_eq_iff)
qed simp

end
