(* ===== verification/Core_Validation.thy ===== *)
theory Core_Validation
  imports Core_Types CJ_Float64
begin

text \<open>
  \<open>core/src/validation.rs\<close>: the bounds every consensus-critical input is checked against,
  one definition per function, in the order of the file. A \<open>&str\<close> is the list of its
  Unicode scalar values; \<open>str_len\<close> is its length in UTF-8 bytes, which is what \<open>len()\<close>
  returns. Left out: \<open>validate_peer_addr_str\<close> and \<open>validate_socket_addr_str\<close>, which only
  add the standard library's address parser in front of checks modelled here.
  Then the sanitisers of the same file.
\<close>

section \<open>Strings\<close>

type_synonym rust_str = "nat list"

definition lit :: "string \<Rightarrow> rust_str" where
  "lit s = map of_char s"

definition utf8_width :: "nat \<Rightarrow> nat" where
  "utf8_width c = (if c < 128 then 1 else if c < 2048 then 2 else if c < 65536 then 3 else 4)"

definition str_len :: "rust_str \<Rightarrow> nat" where
  "str_len s = sum_list (map utf8_width s)"

text \<open>\<open>char::is_control\<close> (Unicode category Cc) and \<open>char::is_whitespace\<close> (White\_Space).\<close>

definition is_control :: "nat \<Rightarrow> bool" where
  "is_control c \<longleftrightarrow> c < 32 \<or> 127 \<le> c \<and> c < 160"

definition is_whitespace :: "nat \<Rightarrow> bool" where
  "is_whitespace c \<longleftrightarrow> 9 \<le> c \<and> c \<le> 13 \<or> c = 32 \<or> c = 133 \<or> c = 160 \<or> c = 5760 \<or>
     8192 \<le> c \<and> c \<le> 8202 \<or> c = 8232 \<or> c = 8233 \<or> c = 8239 \<or> c = 8287 \<or> c = 12288"

definition trim_is_empty :: "rust_str \<Rightarrow> bool" where
  "trim_is_empty s \<longleftrightarrow> list_all is_whitespace s"

fun str_contains :: "rust_str \<Rightarrow> rust_str \<Rightarrow> bool" where
  "str_contains p [] = (p = [])"
| "str_contains p (x # xs) = (take (length p) (x # xs) = p \<or> str_contains p xs)"

definition str_ends_with :: "rust_str \<Rightarrow> rust_str \<Rightarrow> bool" where
  "str_ends_with p s \<longleftrightarrow> length p \<le> length s \<and> drop (length s - length p) s = p"

text \<open>\<open>str::replace\<close> of one character by a string.\<close>

definition replace_char :: "nat \<Rightarrow> rust_str \<Rightarrow> rust_str \<Rightarrow> rust_str" where
  "replace_char c r s = concat (map (\<lambda>x. if x = c then r else [x]) s)"

section \<open>Bounds\<close>

definition MAX_AMOUNT :: balance where
  "MAX_AMOUNT = (- 1) div 2"

definition MIN_FEE :: balance where
  "MIN_FEE = 1"

definition ATOMS_PER_DISPLAY_BEAN :: balance where
  "ATOMS_PER_DISPLAY_BEAN = 1000000000000"

definition MIN_FEE_BOUNTY_SUBMISSION :: balance where
  "MIN_FEE_BOUNTY_SUBMISSION = ATOMS_PER_DISPLAY_BEAN"

definition MAX_BOUNTY_TITLE_LEN :: nat where "MAX_BOUNTY_TITLE_LEN = 256"
definition MAX_BOUNTY_BRIEFING_LEN :: nat where "MAX_BOUNTY_BRIEFING_LEN = 8192"
definition MAX_TX_DATA_SIZE :: nat where "MAX_TX_DATA_SIZE = 64 * 1024"
definition MAX_BLOCK_TRANSACTIONS :: nat where "MAX_BLOCK_TRANSACTIONS = 10000"
definition MAX_ADDITIONAL_SIGNATURES :: nat where "MAX_ADDITIONAL_SIGNATURES = 8"
definition MAX_DISPUTE_PROOF_SIZE :: nat where "MAX_DISPUTE_PROOF_SIZE = 1024"
definition MAX_REASON_STRING_LEN :: nat where "MAX_REASON_STRING_LEN = 256"
definition MAX_BLOCKS_PER_REQUEST :: u64 where "MAX_BLOCKS_PER_REQUEST = 512"
definition MAX_HEADERS_PER_REQUEST :: u32 where "MAX_HEADERS_PER_REQUEST = 2048"
definition MAX_FUTURE_DRIFT_SECS :: i64 where "MAX_FUTURE_DRIFT_SECS = 120"
definition SUPPORTED_BLOCK_VERSIONS :: "u32 list" where "SUPPORTED_BLOCK_VERSIONS = [1, 2]"

datatype validation_error =
    ZeroAmount
  | AmountOverflow balance
  | FeeTooLow balance
  | AmountPlusFeeOverflow balance balance
  | DataTooLarge nat
  | TooManyTransactions nat
  | TooManySignatures nat
  | DisputeProofTooLarge nat
  | StringTooLong nat
  | UnsupportedVersion u32
  | NegativeTimestamp i64
  | FutureTimestamp i64
  | NonFiniteWorkScore f64
  | NegativeWorkScore f64
  | NonFiniteTimeAsymmetry f64
  | InvalidSolutionQuality f64
  | InvalidNonNegativeFloat f64
  | BlockRangeInverted u64 u64
  | BlockRequestRangeExceeded u64
  | HeadersRequestTooBig u32
  | TooManyBlocksInResponse nat
  | InvalidNodeType u8
  | ForbiddenPeerAddress
  | InvalidPort u32
  | PathTraversal rust_str
  | PathContainsNull rust_str

section \<open>Amounts and fees\<close>

definition validate_amount :: "balance \<Rightarrow> validation_error + unit" where
  "validate_amount amount =
     (if amount = 0 then Inl ZeroAmount
      else if MAX_AMOUNT < amount then Inl (AmountOverflow amount)
      else Inr ())"

definition validate_fee :: "balance \<Rightarrow> validation_error + unit" where
  "validate_fee fee =
     (if fee < MIN_FEE then Inl (FeeTooLow fee)
      else if MAX_AMOUNT < fee then Inl (AmountOverflow fee)
      else Inr ())"

definition validate_fee_allow_zero :: "balance \<Rightarrow> validation_error + unit" where
  "validate_fee_allow_zero fee =
     (if MAX_AMOUNT < fee then Inl (AmountOverflow fee) else Inr ())"

definition v_checked_add :: "balance \<Rightarrow> balance \<Rightarrow> validation_error + balance" where
  "v_checked_add a b = ok_or (checked_add_word a b) (AmountPlusFeeOverflow a b)"

definition v_checked_sub :: "balance \<Rightarrow> balance \<Rightarrow> validation_error + balance" where
  "v_checked_sub a b = ok_or (checked_sub_word a b) (AmountPlusFeeOverflow a b)"

definition validate_amount_and_fee :: "balance \<Rightarrow> balance \<Rightarrow> validation_error + unit" where
  "validate_amount_and_fee amount fee =
     bind_res (validate_amount amount) (\<lambda>_.
     bind_res (validate_fee fee) (\<lambda>_.
     bind_res (ok_or (checked_add_word amount fee) (AmountPlusFeeOverflow amount fee)) (\<lambda>_.
     Inr ())))"

definition validate_transfer_fields :: "balance \<Rightarrow> balance \<Rightarrow> validation_error + unit" where
  "validate_transfer_fields amount fee =
     bind_res (validate_amount amount) (\<lambda>_.
     bind_res (validate_fee_allow_zero fee) (\<lambda>_.
     bind_res (ok_or (checked_add_word amount fee) (AmountPlusFeeOverflow amount fee)) (\<lambda>_.
     Inr ())))"

definition validate_timelock_fields :: "balance \<Rightarrow> balance \<Rightarrow> validation_error + unit" where
  "validate_timelock_fields amount fee = validate_amount_and_fee amount fee"

definition validate_escrow_fields :: "balance \<Rightarrow> balance \<Rightarrow> validation_error + unit" where
  "validate_escrow_fields amount fee = validate_amount_and_fee amount fee"

section \<open>Sizes\<close>

definition validate_additional_signatures_count :: "nat \<Rightarrow> validation_error + unit" where
  "validate_additional_signatures_count count =
     (if MAX_ADDITIONAL_SIGNATURES < count then Inl (TooManySignatures count) else Inr ())"

definition validate_dispute_proof :: "bytes \<Rightarrow> validation_error + unit" where
  "validate_dispute_proof proof =
     (if MAX_DISPUTE_PROOF_SIZE < length proof
      then Inl (DisputeProofTooLarge (length proof)) else Inr ())"

definition validate_data_payload :: "bytes \<Rightarrow> validation_error + unit" where
  "validate_data_payload data =
     (if MAX_TX_DATA_SIZE < length data then Inl (DataTooLarge (length data)) else Inr ())"

definition validate_string_field :: "rust_str \<Rightarrow> validation_error + unit" where
  "validate_string_field s =
     (if MAX_REASON_STRING_LEN < str_len s then Inl (StringTooLong (str_len s)) else Inr ())"

definition validate_bounty_title :: "rust_str \<Rightarrow> validation_error + unit" where
  "validate_bounty_title s =
     (if MAX_BOUNTY_TITLE_LEN < str_len s then Inl (StringTooLong (str_len s)) else Inr ())"

definition validate_bounty_briefing :: "rust_str \<Rightarrow> validation_error + unit" where
  "validate_bounty_briefing s =
     (if MAX_BOUNTY_BRIEFING_LEN < str_len s then Inl (StringTooLong (str_len s)) else Inr ())"

section \<open>Block header fields\<close>

definition validate_block_header_fields ::
  "u32 \<Rightarrow> timestamp \<Rightarrow> f64 \<Rightarrow> f64 \<Rightarrow> f64 \<Rightarrow> f64 \<Rightarrow> f64 \<Rightarrow> nat \<Rightarrow> i64 \<Rightarrow> validation_error + unit" where
  "validate_block_header_fields version ts work_score time_asymmetry_ratio solution_quality
     complexity_weight energy_estimate_joules tx_count now_secs =
     (if version \<notin> set SUPPORTED_BLOCK_VERSIONS then Inl (UnsupportedVersion version)
      else if ts <s 0 then Inl (NegativeTimestamp ts)
      else if now_secs + MAX_FUTURE_DRIFT_SECS <s ts then Inl (FutureTimestamp ts)
      else if \<not> is_finite work_score then Inl (NonFiniteWorkScore work_score)
      else if f_lt work_score f_zero then Inl (NegativeWorkScore work_score)
      else if \<not> is_finite time_asymmetry_ratio then Inl (NonFiniteTimeAsymmetry time_asymmetry_ratio)
      else if \<not> is_finite solution_quality \<or>
              \<not> (f_le f_zero solution_quality \<and> f_le solution_quality f_one)
        then Inl (InvalidSolutionQuality solution_quality)
      else if \<not> is_finite complexity_weight \<or> f_lt complexity_weight f_zero
        then Inl (InvalidNonNegativeFloat complexity_weight)
      else if \<not> is_finite energy_estimate_joules \<or> f_lt energy_estimate_joules f_zero
        then Inl (InvalidNonNegativeFloat energy_estimate_joules)
      else if MAX_BLOCK_TRANSACTIONS < tx_count then Inl (TooManyTransactions tx_count)
      else Inr ())"

section \<open>Network messages\<close>

definition validate_get_blocks_range :: "u64 \<Rightarrow> u64 \<Rightarrow> validation_error + unit" where
  "validate_get_blocks_range from_height to_height =
     (if to_height < from_height then Inl (BlockRangeInverted from_height to_height)
      else let range = saturating_add_word (saturating_sub_word to_height from_height) 1
           in if MAX_BLOCKS_PER_REQUEST < range then Inl (BlockRequestRangeExceeded range)
              else Inr ())"

definition validate_get_headers :: "u32 \<Rightarrow> validation_error + unit" where
  "validate_get_headers max_headers =
     (if MAX_HEADERS_PER_REQUEST < max_headers then Inl (HeadersRequestTooBig max_headers)
      else Inr ())"

definition validate_node_type_byte :: "u8 \<Rightarrow> validation_error + unit" where
  "validate_node_type_byte node_type =
     (if 5 < node_type then Inl (InvalidNodeType node_type) else Inr ())"

definition validate_reason_string :: "rust_str \<Rightarrow> validation_error + unit" where
  "validate_reason_string reason = validate_string_field reason"

definition validate_blocks_response_count :: "nat \<Rightarrow> u64 \<Rightarrow> validation_error + unit" where
  "validate_blocks_response_count count requested_range =
     (if requested_range < of_nat count then Inl (TooManyBlocksInResponse count) else Inr ())"

section \<open>What the checks guarantee\<close>

lemma unat_MAX_AMOUNT [word_nat_simps]: "unat MAX_AMOUNT = 2 ^ 127 - 1"
  by (simp add: MAX_AMOUNT_def unat_div unat_max_word)

lemma MAX_AMOUNT_less_iff [word_nat_simps]: "MAX_AMOUNT < x \<longleftrightarrow> 2 ^ 127 - 1 < unat x"
  by (simp add: word_less_nat_alt unat_MAX_AMOUNT)

lemma validate_amount_Inr:
  "validate_amount a = Inr () \<longleftrightarrow> 0 < unat a \<and> unat a \<le> 2 ^ 127 - 1"
  by (auto simp: validate_amount_def MAX_AMOUNT_less_iff unat_gt_0)

lemma validate_fee_Inr:
  "validate_fee f = Inr () \<longleftrightarrow> 0 < unat f \<and> unat f \<le> 2 ^ 127 - 1"
  by (auto simp: validate_fee_def MAX_AMOUNT_less_iff MIN_FEE_def word_less_1 unat_gt_0)

lemma validate_fee_allow_zero_Inr:
  "validate_fee_allow_zero f = Inr () \<longleftrightarrow> unat f \<le> 2 ^ 127 - 1"
  by (auto simp: validate_fee_allow_zero_def MAX_AMOUNT_less_iff)

lemma bounded_sum_fits:
  fixes a f :: balance
  assumes "unat a \<le> 2 ^ 127 - 1" and "unat f \<le> 2 ^ 127 - 1"
  shows "unat a + unat f < 2 ^ 128"
  using assms by simp

lemma validate_transfer_fields_Inr:
  "validate_transfer_fields a f = Inr () \<longleftrightarrow>
     0 < unat a \<and> unat a \<le> 2 ^ 127 - 1 \<and> unat f \<le> 2 ^ 127 - 1"
  using bounded_sum_fits[of a f]
  by (auto simp: validate_transfer_fields_def bind_res_Inr ok_or_def checked_add_word_def
      validate_amount_Inr validate_fee_allow_zero_Inr split: option.splits)

lemma validate_amount_and_fee_Inr:
  "validate_amount_and_fee a f = Inr () \<longleftrightarrow>
     0 < unat a \<and> unat a \<le> 2 ^ 127 - 1 \<and> 0 < unat f \<and> unat f \<le> 2 ^ 127 - 1"
  using bounded_sum_fits[of a f]
  by (auto simp: validate_amount_and_fee_def bind_res_Inr ok_or_def checked_add_word_def
      validate_amount_Inr validate_fee_Inr split: option.splits)

lemma validate_block_header_fields_Inr:
  "validate_block_header_fields version ts ws tar sq cw en n now = Inr () \<longleftrightarrow>
     (version = 1 \<or> version = 2) \<and> 0 \<le>s ts \<and> ts \<le>s now + 120 \<and>
     is_finite ws \<and> \<not> f_lt ws f_zero \<and> is_finite tar \<and>
     is_finite sq \<and> f_le f_zero sq \<and> f_le sq f_one \<and>
     is_finite cw \<and> \<not> f_lt cw f_zero \<and> is_finite en \<and> \<not> f_lt en f_zero \<and> n \<le> 10000"
  by (auto simp: validate_block_header_fields_def SUPPORTED_BLOCK_VERSIONS_def
      MAX_FUTURE_DRIFT_SECS_def MAX_BLOCK_TRANSACTIONS_def word_sless_alt word_sle_eq not_less)

lemma validate_get_blocks_range_Inr:
  "validate_get_blocks_range lo hi = Inr () \<longleftrightarrow> unat lo \<le> unat hi \<and> unat hi - unat lo < 512"
proof -
  have lim: "unat hi - unat lo < 2 ^ 64" using unat_lt_pow[of hi] by simp
  have "MAX_BLOCKS_PER_REQUEST < r \<longleftrightarrow> 512 < unat r" for r
    by (simp add: MAX_BLOCKS_PER_REQUEST_def word_less_nat_alt)
  then show ?thesis
    using lim
    by (auto simp: validate_get_blocks_range_def Let_def word_nat_simps word_less_nat_alt
        split: if_splits)
qed

text \<open>
  The second half of \<open>core/src/validation.rs\<close>: the peer address policy, file paths, and
  the sanitisers for logs and HTML. Socket addresses are the standard library's: four octets or eight
  16-bit segments, and a port.
\<close>

section \<open>Peer addresses\<close>

datatype ip_addr = V4 u8 u8 u8 u8 | V6 "u16 list"

record socket_addr =
  sa_ip :: ip_addr
  sa_port :: u16

text \<open>\<open>Ipv4Addr::is_loopback\<close>, \<open>is_private\<close>, \<open>is_broadcast\<close>, \<open>is_multicast\<close>, \<open>is_unspecified\<close>,
  \<open>is_link_local\<close> and their \<open>Ipv6Addr\<close> counterparts, as the standard library documents them.\<close>

fun v4_flagged :: "ip_addr \<Rightarrow> bool" where
  "v4_flagged (V4 a b c d) \<longleftrightarrow>
     a = 127 \<or>
     (a = 10 \<or> a = 172 \<and> 16 \<le> b \<and> b \<le> 31 \<or> a = 192 \<and> b = 168) \<or>
     (a = 255 \<and> b = 255 \<and> c = 255 \<and> d = 255) \<or>
     (224 \<le> a \<and> a \<le> 239) \<or>
     (a = 0 \<and> b = 0 \<and> c = 0 \<and> d = 0) \<or>
     (a = 169 \<and> b = 254)"
| "v4_flagged (V6 _) = False"

fun v6_flagged :: "ip_addr \<Rightarrow> bool" where
  "v6_flagged (V6 segs) \<longleftrightarrow>
     segs = [0, 0, 0, 0, 0, 0, 0, 1] \<or>
     (segs \<noteq> [] \<and> 65280 \<le> hd segs) \<or>
     segs = [0, 0, 0, 0, 0, 0, 0, 0]"
| "v6_flagged (V4 _ _ _ _) = False"

definition is_private_or_loopback :: "socket_addr \<Rightarrow> bool" where
  "is_private_or_loopback addr =
     (case sa_ip addr of V4 _ _ _ _ \<Rightarrow> v4_flagged (sa_ip addr) | V6 _ \<Rightarrow> v6_flagged (sa_ip addr))"

definition validate_peer_address :: "socket_addr \<Rightarrow> bool \<Rightarrow> validation_error + unit" where
  "validate_peer_address addr allow_private =
     (if sa_port addr = 0 then Inl (InvalidPort 0)
      else if \<not> allow_private \<and> is_private_or_loopback addr then Inl ForbiddenPeerAddress
      else Inr ())"

definition validate_port :: "u32 \<Rightarrow> validation_error + unit" where
  "validate_port port =
     (if port = 0 \<or> 65535 < port then Inl (InvalidPort port) else Inr ())"

section \<open>File paths\<close>

text \<open>The components of a Unix path that \<open>Path::components\<close> reports as \<open>ParentDir\<close> are
  those equal to two dots between separators.\<close>

fun split_on :: "nat \<Rightarrow> rust_str \<Rightarrow> rust_str list" where
  "split_on c [] = [[]]"
| "split_on c (x # xs) =
     (if x = c then [] # split_on c xs
      else case split_on c xs of [] \<Rightarrow> [[x]] | y # ys \<Rightarrow> (x # y) # ys)"

definition normalise_path :: "rust_str \<Rightarrow> rust_str" where
  "normalise_path path = replace_char 92 [47] path"

definition validate_file_path :: "rust_str \<Rightarrow> validation_error + unit" where
  "validate_file_path path =
     (if 0 \<in> set path then Inl (PathContainsNull path)
      else let normalised = normalise_path path in
        if str_contains (lit ''../'') normalised \<or> str_ends_with (lit ''/..'') normalised \<or>
           normalised = lit ''..'' then Inl (PathTraversal path)
        else if lit ''..'' \<in> set (split_on 47 path) then Inl (PathTraversal path)
        else Inr ())"

section \<open>Logs and HTML\<close>

definition sanitize_for_log :: "rust_str \<Rightarrow> rust_str" where
  "sanitize_for_log input =
     map (\<lambda>c. if c = 10 \<or> c = 13 \<or> c = 9 then 32 else if is_control c then 63 else c) input"

definition sanitize_for_html :: "rust_str \<Rightarrow> rust_str" where
  "sanitize_for_html input =
     replace_char 39 (lit ''&#x27;'')
       (replace_char 34 (lit ''&quot;'')
         (replace_char 62 (lit ''&gt;'')
           (replace_char 60 (lit ''&lt;'')
             (replace_char 38 (lit ''&amp;'') input))))"

section \<open>What they guarantee\<close>

lemma lit_simps [simp]: "lit [] = []" "lit (c # s) = of_char c # lit s"
  by (simp_all add: lit_def)

lemma split_on_nonempty [simp]: "split_on c s \<noteq> []"
  by (induction s) (auto split: list.splits)

lemma str_ends_with_Cons: "str_ends_with p s \<Longrightarrow> str_ends_with p (x # s)"
  by (auto simp: str_ends_with_def Suc_diff_le)

text \<open>A \<open>..\<close> component is the whole path, or is followed by a separator, or ends it after one.\<close>

lemma dotdot_component:
  "lit ''..'' \<in> set (split_on 47 s) \<Longrightarrow>
     s = lit ''..'' \<or> str_contains (lit ''../'') s \<or> str_ends_with (lit ''/..'') s"
proof (induction s)
  case Nil
  then show ?case by simp
next
  case (Cons x xs)
  have tail: "str_contains (lit ''../'') xs \<Longrightarrow> str_contains (lit ''../'') (x # xs)"
    "str_ends_with (lit ''/..'') xs \<Longrightarrow> str_ends_with (lit ''/..'') (x # xs)"
    by (auto intro: str_ends_with_Cons)
  show ?case
  proof (cases "x = 47")
    case True
    with Cons.prems have "lit ''..'' \<in> set (split_on 47 xs)" by auto
    with Cons.IH tail True show ?thesis by (auto simp: str_ends_with_def)
  next
    case False
    obtain y ys where split: "split_on 47 xs = y # ys" by (cases "split_on 47 xs") auto
    show ?thesis
    proof (cases "lit ''..'' \<in> set ys")
      case True
      then have "lit ''..'' \<in> set (split_on 47 xs)" by (simp add: split)
      moreover have "xs \<noteq> lit ''..''" using True split by (cases xs) (auto split: if_splits)
      ultimately show ?thesis using Cons.IH tail by blast
    next
      case notin: False
      with Cons.prems False split have x: "x = 46" and y: "y = [46]" by auto
      from y split obtain zs where xs: "xs = 46 # zs" and "split_on 47 zs = [] # ys"
        by (cases xs) (auto split: if_splits list.splits)
      then have "zs = [] \<or> hd zs = 47" by (cases zs) (auto split: if_splits list.splits)
      then show ?thesis using x xs by (cases zs) auto
    qed
  qed
qed

lemma validate_file_path_safe:
  "validate_file_path p = Inr () \<Longrightarrow>
     lit ''..'' \<notin> set (split_on 47 (normalise_path p)) \<and> 0 \<notin> set p"
  using dotdot_component[of "normalise_path p"]
  by (auto simp: validate_file_path_def Let_def split: if_splits)

text \<open>Replacing one character after the other, the ampersand first, is the simultaneous
  replacement: no replacement text contains a character replaced later.\<close>

definition html_escape :: "nat \<Rightarrow> rust_str" where
  "html_escape c =
     (if c = 38 then lit ''&amp;'' else if c = 60 then lit ''&lt;'' else if c = 62 then lit ''&gt;''
      else if c = 34 then lit ''&quot;'' else if c = 39 then lit ''&#x27;'' else [c])"

lemma replace_char_append: "replace_char c r (s @ t) = replace_char c r s @ replace_char c r t"
  by (simp add: replace_char_def)

lemma replace_char_simps [simp]:
  "replace_char c r [] = []"
  "replace_char c r (x # s) = (if x = c then r else [x]) @ replace_char c r s"
  by (simp_all add: replace_char_def)

lemma html_literals:
  "lit ''&amp;'' = [38, 97, 109, 112, 59]" "lit ''&lt;'' = [38, 108, 116, 59]"
  "lit ''&gt;'' = [38, 103, 116, 59]" "lit ''&quot;'' = [38, 113, 117, 111, 116, 59]"
  "lit ''&#x27;'' = [38, 35, 120, 50, 55, 59]"
  by (simp_all add: lit_def)

lemma sanitize_for_html_char: "sanitize_for_html [c] = html_escape c"
  by (simp add: sanitize_for_html_def html_escape_def html_literals)

lemma sanitize_for_html_append:
  "sanitize_for_html (s @ t) = sanitize_for_html s @ sanitize_for_html t"
  by (simp add: sanitize_for_html_def replace_char_append)

lemma sanitize_for_html_simultaneous:
  "sanitize_for_html s = concat (map html_escape s)"
proof (induction s)
  case Nil
  show ?case by (simp add: sanitize_for_html_def)
next
  case (Cons c s)
  then show ?case
    using sanitize_for_html_append[of "[c]" s] by (simp add: sanitize_for_html_char)
qed

lemma html_escape_no_markup: "set (html_escape d) \<inter> {60, 62, 34, 39} = {}"
  by (simp add: html_escape_def html_literals)

lemma sanitize_for_html_no_markup: "set (sanitize_for_html s) \<inter> {60, 62, 34, 39} = {}"
  using html_escape_no_markup by (auto simp only: sanitize_for_html_simultaneous set_concat set_map)

lemma sanitize_for_log_no_control:
  "c \<in> set (sanitize_for_log s) \<Longrightarrow> \<not> is_control c"
  by (auto simp: sanitize_for_log_def is_control_def split: if_splits)

lemma sanitize_for_log_idem: "sanitize_for_log (sanitize_for_log s) = sanitize_for_log s"
  by (auto simp: sanitize_for_log_def is_control_def)

end
