(* ===== verification/Core_Transaction.thy ===== *)
theory Core_Transaction
  imports Core_Commitment Core_Validation
begin

text \<open>
  \<open>core/src/transaction.rs\<close>: the seven kinds of transaction, the message each signature
  covers, the stateless checks and the accessors. The clock (\<open>chrono::Utc::now\<close>) is
  the argument \<open>now\<close>; the bincode serialisers of enums are fields of \<open>tx_codec\<close>.
\<close>

section \<open>Data\<close>

record transfer_tx =
  tr_from :: address
  tr_to :: address
  tr_amount :: balance
  tr_fee :: balance
  tr_nonce :: u64
  tr_public_key :: public_key
  tr_signature :: ed25519_signature

record timelock_tx =
  tl_from :: address
  tl_recipient :: address
  tl_amount :: balance
  tl_unlock_time :: i64
  tl_fee :: balance
  tl_nonce :: u64
  tl_public_key :: public_key
  tl_signature :: ed25519_signature

datatype escrow_type =
    EscrowCreate address "address option" balance i64 hash
  | EscrowRelease
  | EscrowRefund

record escrow_tx =
  es_type :: escrow_type
  es_escrow_id :: hash
  es_from :: address
  es_fee :: balance
  es_nonce :: u64
  es_public_key :: public_key
  es_signature :: ed25519_signature
  es_additional_signatures :: "(address \<times> ed25519_signature) list"

datatype channel_type =
    ChOpen address address balance balance i64
  | ChUpdate u64 balance balance
  | ChCooperativeClose balance balance
  | ChUnilateralClose u64 balance balance bytes

record channel_tx =
  ch_type :: channel_type
  ch_channel_id :: hash
  ch_from :: address
  ch_fee :: balance
  ch_nonce :: u64
  ch_public_key :: public_key
  ch_signature :: ed25519_signature
  ch_additional_signatures :: "(address \<times> ed25519_signature) list"

datatype trustline_type =
    TlCreate address balance balance u16 u16 bool u8
  | TlUpdateLimits "balance option" "balance option"
  | TlFreeze
  | TlClose
  | TlEvolvePhase f64

record trustline_tx =
  tu_type :: trustline_type
  tu_trustline_id :: hash
  tu_from :: address
  tu_fee :: balance
  tu_nonce :: u64
  tu_public_key :: public_key
  tu_signature :: ed25519_signature

datatype dimensional_pool = D1 | D2 | D3 | D4 | D5 | D6 | D7 | D8

text \<open>\<open>pool as u8\<close>.\<close>

fun pool_byte :: "dimensional_pool \<Rightarrow> u8" where
  "pool_byte D1 = 0" | "pool_byte D2 = 1" | "pool_byte D3 = 2" | "pool_byte D4 = 3"
| "pool_byte D5 = 4" | "pool_byte D6 = 5" | "pool_byte D7 = 6" | "pool_byte D8 = 7"

record pool_swap_tx =
  ps_pool_from :: dimensional_pool
  ps_pool_to :: dimensional_pool
  ps_from :: address
  ps_amount_in :: balance
  ps_min_amount_out :: balance
  ps_fee :: balance
  ps_nonce :: u64
  ps_public_key :: public_key
  ps_signature :: ed25519_signature

datatype marketplace_operation =
    SubmitProblem problem_type balance f64 u64 "rust_str option" "rust_str option"
  | SubmitSolution hash solution
  | ClaimBounty hash
  | CancelProblem hash

record marketplace_tx =
  mk_operation :: marketplace_operation
  mk_from :: address
  mk_fee :: balance
  mk_nonce :: u64
  mk_public_key :: public_key
  mk_signature :: ed25519_signature

datatype transaction =
    Transfer transfer_tx
  | TimeLock timelock_tx
  | Escrow escrow_tx
  | Channel channel_tx
  | TrustLine trustline_tx
  | DimensionalPoolSwap pool_swap_tx
  | Marketplace marketplace_tx

record coinbase_tx =
  cb_to :: address
  cb_reward :: balance
  cb_height :: u64

record tx_codec =
  core_codec :: codec_ext
  bincode_trustline_type :: "trustline_type \<Rightarrow> bytes option"
  bincode_operation :: "marketplace_operation \<Rightarrow> bytes option"
  bincode_transaction :: "transaction \<Rightarrow> bytes option"
  bincode_coinbase :: "coinbase_tx \<Rightarrow> bytes option"

definition null_signature :: ed25519_signature where
  "null_signature = Ed25519Signature 0"

section \<open>Transfers\<close>

definition transfer_signing_message :: "transfer_tx \<Rightarrow> bytes" where
  "transfer_signing_message tx =
     address_as_bytes (tr_from tx) @ address_as_bytes (tr_to tx) @ to_le_bytes (tr_amount tx) @
     to_le_bytes (tr_fee tx) @ to_le_bytes (tr_nonce tx) @ pk_as_bytes (tr_public_key tx)"

definition transfer_new ::
  "crypto_ext \<Rightarrow> address \<Rightarrow> address \<Rightarrow> balance \<Rightarrow> balance \<Rightarrow> u64 \<Rightarrow> key_pair \<Rightarrow> transfer_tx" where
  "transfer_new X sender to amount fee nonce keypair =
     (let tx = \<lparr>tr_from = sender, tr_to = to, tr_amount = amount, tr_fee = fee, tr_nonce = nonce,
                 tr_public_key = kp_public_key X keypair, tr_signature = null_signature\<rparr>
      in tx\<lparr>tr_signature := kp_sign X keypair (transfer_signing_message tx)\<rparr>)"

definition transfer_verify_signature :: "crypto_ext \<Rightarrow> transfer_tx \<Rightarrow> bool" where
  "transfer_verify_signature X tx =
     pk_verify X (tr_public_key tx) (transfer_signing_message tx) (tr_signature tx)"

definition transfer_is_valid :: "crypto_ext \<Rightarrow> transfer_tx \<Rightarrow> bool" where
  "transfer_is_valid X tx =
     (if \<not> transfer_verify_signature X tx then False
      else if tr_from tx \<noteq> pk_to_address (tr_public_key tx) then False
      else if \<not> is_ok (validate_transfer_fields (tr_amount tx) (tr_fee tx)) then False
      else True)"

section \<open>Time locks\<close>

definition timelock_signing_message :: "timelock_tx \<Rightarrow> bytes" where
  "timelock_signing_message tx =
     address_as_bytes (tl_from tx) @ address_as_bytes (tl_recipient tx) @ to_le_bytes (tl_amount tx) @
     to_le_bytes (tl_unlock_time tx) @ to_le_bytes (tl_fee tx) @ to_le_bytes (tl_nonce tx) @
     pk_as_bytes (tl_public_key tx)"

definition timelock_new ::
  "crypto_ext \<Rightarrow> address \<Rightarrow> address \<Rightarrow> balance \<Rightarrow> i64 \<Rightarrow> balance \<Rightarrow> u64 \<Rightarrow> key_pair \<Rightarrow> timelock_tx" where
  "timelock_new X sender recipient amount unlock_time fee nonce keypair =
     (let tx = \<lparr>tl_from = sender, tl_recipient = recipient, tl_amount = amount,
                 tl_unlock_time = unlock_time, tl_fee = fee, tl_nonce = nonce,
                 tl_public_key = kp_public_key X keypair, tl_signature = null_signature\<rparr>
      in tx\<lparr>tl_signature := kp_sign X keypair (timelock_signing_message tx)\<rparr>)"

definition timelock_verify_signature :: "crypto_ext \<Rightarrow> timelock_tx \<Rightarrow> bool" where
  "timelock_verify_signature X tx =
     pk_verify X (tl_public_key tx) (timelock_signing_message tx) (tl_signature tx)"

definition timelock_is_valid :: "crypto_ext \<Rightarrow> i64 \<Rightarrow> timelock_tx \<Rightarrow> bool" where
  "timelock_is_valid X now tx =
     (if \<not> timelock_verify_signature X tx then False
      else if tl_from tx \<noteq> pk_to_address (tl_public_key tx) then False
      else if \<not> is_ok (validate_timelock_fields (tl_amount tx) (tl_fee tx)) then False
      else if sint (tl_unlock_time tx) \<le> sint now then False
      else True)"

section \<open>Escrows\<close>

definition escrow_signing_message :: "escrow_tx \<Rightarrow> bytes" where
  "escrow_signing_message tx =
     hash_as_bytes (es_escrow_id tx) @ address_as_bytes (es_from tx) @ to_le_bytes (es_fee tx) @
     to_le_bytes (es_nonce tx) @ pk_as_bytes (es_public_key tx) @
     (case es_type tx of
        EscrowCreate recipient _ amount timeout _ \<Rightarrow>
          address_as_bytes recipient @ to_le_bytes amount @ to_le_bytes timeout
      | _ \<Rightarrow> [])"

definition escrow_verify_signature :: "crypto_ext \<Rightarrow> escrow_tx \<Rightarrow> bool" where
  "escrow_verify_signature X tx =
     (if \<not> pk_verify X (es_public_key tx) (escrow_signing_message tx) (es_signature tx) then False
      else case es_type tx of
        EscrowCreate _ _ _ _ _ \<Rightarrow> True
      | EscrowRelease \<Rightarrow> es_additional_signatures tx \<noteq> []
      | EscrowRefund \<Rightarrow> es_additional_signatures tx \<noteq> [])"

definition escrow_is_valid :: "crypto_ext \<Rightarrow> escrow_tx \<Rightarrow> bool" where
  "escrow_is_valid X tx =
     (if \<not> escrow_verify_signature X tx then False
      else if es_from tx \<noteq> pk_to_address (es_public_key tx) then False
      else if \<not> is_ok (validate_additional_signatures_count (length (es_additional_signatures tx)))
        then False
      else case es_type tx of
        EscrowCreate _ _ amount _ _ \<Rightarrow> is_ok (validate_escrow_fields amount (es_fee tx))
      | EscrowRelease \<Rightarrow> is_ok (validate_fee (es_fee tx))
      | EscrowRefund \<Rightarrow> is_ok (validate_fee (es_fee tx)))"

section \<open>Channels\<close>

definition channel_signing_message :: "channel_tx \<Rightarrow> bytes" where
  "channel_signing_message tx =
     hash_as_bytes (ch_channel_id tx) @ address_as_bytes (ch_from tx) @ to_le_bytes (ch_fee tx) @
     to_le_bytes (ch_nonce tx) @ pk_as_bytes (ch_public_key tx) @
     (case ch_type tx of
        ChOpen _ _ deposit_a deposit_b _ \<Rightarrow> to_le_bytes deposit_a @ to_le_bytes deposit_b
      | ChCooperativeClose final_a final_b \<Rightarrow> to_le_bytes final_a @ to_le_bytes final_b
      | _ \<Rightarrow> [])"

definition channel_verify_signature :: "crypto_ext \<Rightarrow> channel_tx \<Rightarrow> bool" where
  "channel_verify_signature X tx =
     pk_verify X (ch_public_key tx) (channel_signing_message tx) (ch_signature tx)"

definition channel_is_valid :: "crypto_ext \<Rightarrow> channel_tx \<Rightarrow> bool" where
  "channel_is_valid X tx =
     (if \<not> channel_verify_signature X tx then False
      else if ch_from tx \<noteq> pk_to_address (ch_public_key tx) then False
      else if \<not> is_ok (validate_additional_signatures_count (length (ch_additional_signatures tx)))
        then False
      else if (case ch_type tx of
          ChOpen _ _ deposit_a deposit_b _ \<Rightarrow>
            \<not> is_ok (validate_amount deposit_a) \<or> \<not> is_ok (validate_amount deposit_b)
        | ChUnilateralClose _ _ _ dispute_proof \<Rightarrow> \<not> is_ok (validate_dispute_proof dispute_proof)
        | ChUpdate _ _ _ \<Rightarrow> False
        | ChCooperativeClose _ _ \<Rightarrow> False) then False
      else if \<not> is_ok (validate_fee (ch_fee tx)) then False
      else True)"

section \<open>Trust lines\<close>

definition trustline_signing_message :: "tx_codec \<Rightarrow> trustline_tx \<Rightarrow> bytes" where
  "trustline_signing_message C tx =
     hash_as_bytes (tu_trustline_id tx) @ address_as_bytes (tu_from tx) @ to_le_bytes (tu_fee tx) @
     to_le_bytes (tu_nonce tx) @ pk_as_bytes (tu_public_key tx) @
     (case bincode_trustline_type C (tu_type tx) of Some type_bytes \<Rightarrow> type_bytes | None \<Rightarrow> [])"

definition trustline_new ::
  "crypto_ext \<Rightarrow> tx_codec \<Rightarrow> trustline_type \<Rightarrow> hash \<Rightarrow> address \<Rightarrow> balance \<Rightarrow> u64 \<Rightarrow> key_pair \<Rightarrow> trustline_tx" where
  "trustline_new X C trustline_type trustline_id sender fee nonce keypair =
     (let tx = \<lparr>tu_type = trustline_type, tu_trustline_id = trustline_id, tu_from = sender,
                 tu_fee = fee, tu_nonce = nonce, tu_public_key = kp_public_key X keypair,
                 tu_signature = null_signature\<rparr>
      in tx\<lparr>tu_signature := kp_sign X keypair (trustline_signing_message C tx)\<rparr>)"

definition trustline_verify_signature :: "crypto_ext \<Rightarrow> tx_codec \<Rightarrow> trustline_tx \<Rightarrow> bool" where
  "trustline_verify_signature X C tx =
     pk_verify X (tu_public_key tx) (trustline_signing_message C tx) (tu_signature tx)"

definition trustline_is_valid :: "crypto_ext \<Rightarrow> tx_codec \<Rightarrow> trustline_tx \<Rightarrow> bool" where
  "trustline_is_valid X C tx =
     (if \<not> trustline_verify_signature X C tx then False
      else if tu_from tx \<noteq> pk_to_address (tu_public_key tx) then False
      else case tu_type tx of
        TlCreate account_b limit_ab limit_ba quality_in quality_out _ dimensional_scale \<Rightarrow>
          (if tu_from tx = account_b then False
           else if limit_ab = 0 \<and> limit_ba = 0 then False
           else if 10000 < quality_in \<or> 10000 < quality_out then False
           else if dimensional_scale < 1 \<or> 8 < dimensional_scale then False
           else True)
      | TlUpdateLimits limit_ab limit_ba \<Rightarrow> \<not> (limit_ab = None \<and> limit_ba = None)
      | TlEvolvePhase delta_tau \<Rightarrow> \<not> (f_le delta_tau f_zero \<or> f_lt (f_of_nat 100) delta_tau)
      | TlFreeze \<Rightarrow> True
      | TlClose \<Rightarrow> True)"

section \<open>Pool swaps\<close>

definition pool_swap_signing_message :: "pool_swap_tx \<Rightarrow> bytes" where
  "pool_swap_signing_message tx =
     [pool_byte (ps_pool_from tx), pool_byte (ps_pool_to tx)] @ address_as_bytes (ps_from tx) @
     to_le_bytes (ps_amount_in tx) @ to_le_bytes (ps_min_amount_out tx) @ to_le_bytes (ps_fee tx) @
     to_le_bytes (ps_nonce tx) @ pk_as_bytes (ps_public_key tx)"

definition pool_swap_new ::
  "crypto_ext \<Rightarrow> dimensional_pool \<Rightarrow> dimensional_pool \<Rightarrow> address \<Rightarrow> balance \<Rightarrow> balance \<Rightarrow> balance \<Rightarrow> u64 \<Rightarrow> key_pair \<Rightarrow> pool_swap_tx" where
  "pool_swap_new X pool_from pool_to sender amount_in min_amount_out fee nonce keypair =
     (let tx = \<lparr>ps_pool_from = pool_from, ps_pool_to = pool_to, ps_from = sender,
                 ps_amount_in = amount_in, ps_min_amount_out = min_amount_out, ps_fee = fee,
                 ps_nonce = nonce, ps_public_key = kp_public_key X keypair,
                 ps_signature = null_signature\<rparr>
      in tx\<lparr>ps_signature := kp_sign X keypair (pool_swap_signing_message tx)\<rparr>)"

definition pool_swap_verify_signature :: "crypto_ext \<Rightarrow> pool_swap_tx \<Rightarrow> bool" where
  "pool_swap_verify_signature X tx =
     pk_verify X (ps_public_key tx) (pool_swap_signing_message tx) (ps_signature tx)"

definition pool_swap_is_valid :: "crypto_ext \<Rightarrow> pool_swap_tx \<Rightarrow> bool" where
  "pool_swap_is_valid X tx =
     (if \<not> pool_swap_verify_signature X tx then False
      else if ps_from tx \<noteq> pk_to_address (ps_public_key tx) then False
      else if ps_pool_from tx = ps_pool_to tx then False
      else if ps_amount_in tx = 0 then False
      else if ps_min_amount_out tx = 0 \<or> ps_amount_in tx * 2 < ps_min_amount_out tx then False
      else if ps_amount_in tx < ps_fee tx then False
      else True)"

section \<open>Marketplace operations\<close>

definition marketplace_signing_message :: "tx_codec \<Rightarrow> marketplace_tx \<Rightarrow> bytes" where
  "marketplace_signing_message C tx =
     address_as_bytes (mk_from tx) @ to_le_bytes (mk_fee tx) @ to_le_bytes (mk_nonce tx) @
     pk_as_bytes (mk_public_key tx) @
     (case bincode_operation C (mk_operation tx) of Some op_bytes \<Rightarrow> op_bytes | None \<Rightarrow> [])"

text \<open>\<open>new_problem_submission\<close> and \<open>new_solution_submission\<close> build their operation and share
  the signing.\<close>

definition marketplace_sign ::
  "crypto_ext \<Rightarrow> tx_codec \<Rightarrow> marketplace_operation \<Rightarrow> address \<Rightarrow> balance \<Rightarrow> u64 \<Rightarrow> key_pair \<Rightarrow> marketplace_tx" where
  "marketplace_sign X C operation sender fee nonce keypair =
     (let tx = \<lparr>mk_operation = operation, mk_from = sender, mk_fee = fee, mk_nonce = nonce,
                 mk_public_key = kp_public_key X keypair, mk_signature = null_signature\<rparr>
      in tx\<lparr>mk_signature := kp_sign X keypair (marketplace_signing_message C tx)\<rparr>)"

definition new_problem_submission ::
  "crypto_ext \<Rightarrow> tx_codec \<Rightarrow> problem_type \<Rightarrow> address \<Rightarrow> balance \<Rightarrow> f64 \<Rightarrow> u64 \<Rightarrow> rust_str option \<Rightarrow>
   rust_str option \<Rightarrow> balance \<Rightarrow> u64 \<Rightarrow> key_pair \<Rightarrow> marketplace_tx" where
  "new_problem_submission X C problem sender bounty min_work_score expiration_days title briefing
     fee nonce keypair =
     marketplace_sign X C (SubmitProblem problem bounty min_work_score expiration_days title briefing)
       sender fee nonce keypair"

definition new_solution_submission ::
  "crypto_ext \<Rightarrow> tx_codec \<Rightarrow> hash \<Rightarrow> solution \<Rightarrow> address \<Rightarrow> balance \<Rightarrow> u64 \<Rightarrow> key_pair \<Rightarrow> marketplace_tx" where
  "new_solution_submission X C problem_id solution sender fee nonce keypair =
     marketplace_sign X C (SubmitSolution problem_id solution) sender fee nonce keypair"

definition marketplace_verify_signature :: "crypto_ext \<Rightarrow> tx_codec \<Rightarrow> marketplace_tx \<Rightarrow> bool" where
  "marketplace_verify_signature X C tx =
     pk_verify X (mk_public_key tx) (marketplace_signing_message C tx) (mk_signature tx)"

definition optional_text_ok :: "(rust_str \<Rightarrow> validation_error + unit) \<Rightarrow> rust_str option \<Rightarrow> bool" where
  "optional_text_ok validate t =
     (case t of None \<Rightarrow> True | Some s \<Rightarrow> \<not> (trim_is_empty s \<or> \<not> is_ok (validate s)))"

definition marketplace_is_valid :: "crypto_ext \<Rightarrow> tx_codec \<Rightarrow> marketplace_tx \<Rightarrow> bool" where
  "marketplace_is_valid X C tx =
     (if \<not> marketplace_verify_signature X C tx then False
      else if mk_from tx \<noteq> pk_to_address (mk_public_key tx) then False
      else if \<not> (case mk_operation tx of
          SubmitProblem _ _ _ _ _ _ \<Rightarrow>
            MIN_FEE_BOUNTY_SUBMISSION \<le> mk_fee tx \<and> mk_fee tx \<le> MAX_AMOUNT
        | _ \<Rightarrow> is_ok (validate_fee_allow_zero (mk_fee tx))) then False
      else case mk_operation tx of
        SubmitProblem problem bounty min_work_score expiration_days title briefing \<Rightarrow>
          (if \<not> is_ok (validate_amount bounty) then False
           else if \<not> is_ok (v_checked_add (mk_fee tx) bounty) then False
           else if \<not> is_finite min_work_score \<or> f_le min_work_score f_zero then False
           else if expiration_days = 0 \<or> 365 < expiration_days then False
           else if (case problem of CustomProblem _ data \<Rightarrow> \<not> is_ok (validate_data_payload data)
                    | _ \<Rightarrow> False) then False
           else if \<not> optional_text_ok validate_bounty_title title then False
           else if \<not> optional_text_ok validate_bounty_briefing briefing then False
           else True)
      | SubmitSolution _ solution \<Rightarrow>
          (case solution of CustomSol data \<Rightarrow> is_ok (validate_data_payload data) | _ \<Rightarrow> True)
      | ClaimBounty _ \<Rightarrow> True
      | CancelProblem _ \<Rightarrow> True)"

section \<open>Transactions\<close>

definition new_transfer ::
  "crypto_ext \<Rightarrow> address \<Rightarrow> address \<Rightarrow> balance \<Rightarrow> balance \<Rightarrow> u64 \<Rightarrow> key_pair \<Rightarrow> transaction" where
  "new_transfer X sender to amount fee nonce keypair =
     Transfer (transfer_new X sender to amount fee nonce keypair)"

definition new_timelock ::
  "crypto_ext \<Rightarrow> address \<Rightarrow> address \<Rightarrow> balance \<Rightarrow> i64 \<Rightarrow> balance \<Rightarrow> u64 \<Rightarrow> key_pair \<Rightarrow> transaction" where
  "new_timelock X sender recipient amount unlock_time fee nonce keypair =
     TimeLock (timelock_new X sender recipient amount unlock_time fee nonce keypair)"

fun tx_verify_signature :: "crypto_ext \<Rightarrow> tx_codec \<Rightarrow> transaction \<Rightarrow> bool" where
  "tx_verify_signature X C (Transfer tx) = transfer_verify_signature X tx"
| "tx_verify_signature X C (TimeLock tx) = timelock_verify_signature X tx"
| "tx_verify_signature X C (Escrow tx) = escrow_verify_signature X tx"
| "tx_verify_signature X C (Channel tx) = channel_verify_signature X tx"
| "tx_verify_signature X C (TrustLine tx) = trustline_verify_signature X C tx"
| "tx_verify_signature X C (DimensionalPoolSwap tx) = pool_swap_verify_signature X tx"
| "tx_verify_signature X C (Marketplace tx) = marketplace_verify_signature X C tx"

definition tx_hash :: "crypto_ext \<Rightarrow> tx_codec \<Rightarrow> transaction \<Rightarrow> hash" where
  "tx_hash X C tx = hash_new X (unwrap_or (bincode_transaction C tx) [])"

fun tx_is_valid :: "crypto_ext \<Rightarrow> tx_codec \<Rightarrow> i64 \<Rightarrow> transaction \<Rightarrow> bool" where
  "tx_is_valid X C now (Transfer tx) = transfer_is_valid X tx"
| "tx_is_valid X C now (TimeLock tx) = timelock_is_valid X now tx"
| "tx_is_valid X C now (Escrow tx) = escrow_is_valid X tx"
| "tx_is_valid X C now (Channel tx) = channel_is_valid X tx"
| "tx_is_valid X C now (TrustLine tx) = trustline_is_valid X C tx"
| "tx_is_valid X C now (DimensionalPoolSwap tx) = pool_swap_is_valid X tx"
| "tx_is_valid X C now (Marketplace tx) = marketplace_is_valid X C tx"

fun tx_from :: "transaction \<Rightarrow> address" where
  "tx_from (Transfer tx) = tr_from tx"
| "tx_from (TimeLock tx) = tl_from tx"
| "tx_from (Escrow tx) = es_from tx"
| "tx_from (Channel tx) = ch_from tx"
| "tx_from (TrustLine tx) = tu_from tx"
| "tx_from (DimensionalPoolSwap tx) = ps_from tx"
| "tx_from (Marketplace tx) = mk_from tx"

fun tx_fee :: "transaction \<Rightarrow> balance" where
  "tx_fee (Transfer tx) = tr_fee tx"
| "tx_fee (TimeLock tx) = tl_fee tx"
| "tx_fee (Escrow tx) = es_fee tx"
| "tx_fee (Channel tx) = ch_fee tx"
| "tx_fee (TrustLine tx) = tu_fee tx"
| "tx_fee (DimensionalPoolSwap tx) = ps_fee tx"
| "tx_fee (Marketplace tx) = mk_fee tx"

fun tx_nonce :: "transaction \<Rightarrow> u64" where
  "tx_nonce (Transfer tx) = tr_nonce tx"
| "tx_nonce (TimeLock tx) = tl_nonce tx"
| "tx_nonce (Escrow tx) = es_nonce tx"
| "tx_nonce (Channel tx) = ch_nonce tx"
| "tx_nonce (TrustLine tx) = tu_nonce tx"
| "tx_nonce (DimensionalPoolSwap tx) = ps_nonce tx"
| "tx_nonce (Marketplace tx) = mk_nonce tx"

fun tx_to :: "transaction \<Rightarrow> address option" where
  "tx_to (Transfer tx) = Some (tr_to tx)"
| "tx_to _ = None"

fun tx_amount :: "transaction \<Rightarrow> balance option" where
  "tx_amount (Transfer tx) = Some (tr_amount tx)"
| "tx_amount _ = None"

fun required_minimum_fee :: "transaction \<Rightarrow> balance \<Rightarrow> balance" where
  "required_minimum_fee (Transfer _) pool_min = 0"
| "required_minimum_fee (Marketplace m) pool_min =
     (case mk_operation m of SubmitProblem _ _ _ _ _ _ \<Rightarrow> pool_min | _ \<Rightarrow> 0)"
| "required_minimum_fee _ pool_min = pool_min"

definition coinbase_new :: "address \<Rightarrow> balance \<Rightarrow> u64 \<Rightarrow> coinbase_tx" where
  "coinbase_new to reward height = \<lparr>cb_to = to, cb_reward = reward, cb_height = height\<rparr>"

definition coinbase_hash :: "crypto_ext \<Rightarrow> tx_codec \<Rightarrow> coinbase_tx \<Rightarrow> hash" where
  "coinbase_hash X C cb = hash_new X (unwrap_or (bincode_coinbase C cb) [])"

section \<open>What the signatures cover\<close>

lemma to_le_bytes_prefix:
  fixes x y :: "'w::len word"
  assumes "8 dvd LENGTH('w)"
  shows "to_le_bytes x @ r = to_le_bytes y @ s \<longleftrightarrow> x = y \<and> r = s"
  using assms by (simp add: to_le_bytes_inject)

lemma address_prefix: "address_as_bytes a @ r = address_as_bytes b @ s \<longleftrightarrow> a = b \<and> r = s"
  by (simp add: append_eq_same_prefix_length)

lemma hash_prefix: "hash_as_bytes a @ r = hash_as_bytes b @ s \<longleftrightarrow> a = b \<and> r = s"
  by (simp add: append_eq_same_prefix_length)

lemma pk_prefix: "pk_as_bytes a @ r = pk_as_bytes b @ s \<longleftrightarrow> a = b \<and> r = s"
  by (simp add: append_eq_same_prefix_length)

lemmas message_prefixes = to_le_bytes_prefix address_prefix hash_prefix pk_prefix
  address_as_bytes_inject hash_as_bytes_inject pk_as_bytes_inject to_le_bytes_inject

lemma transfer_message_inject:
  "transfer_signing_message t = transfer_signing_message u \<longleftrightarrow>
     t\<lparr>tr_signature := null_signature\<rparr> = u\<lparr>tr_signature := null_signature\<rparr>"
  by (cases t; cases u) (auto simp: transfer_signing_message_def message_prefixes)

lemma timelock_message_inject:
  "timelock_signing_message t = timelock_signing_message u \<longleftrightarrow>
     t\<lparr>tl_signature := null_signature\<rparr> = u\<lparr>tl_signature := null_signature\<rparr>"
  by (cases t; cases u) (auto simp: timelock_signing_message_def message_prefixes)

lemma pool_byte_inject: "pool_byte p = pool_byte q \<longleftrightarrow> p = q"
  by (cases p; cases q) simp_all

lemma pool_swap_message_inject:
  "pool_swap_signing_message t = pool_swap_signing_message u \<longleftrightarrow>
     t\<lparr>ps_signature := null_signature\<rparr> = u\<lparr>ps_signature := null_signature\<rparr>"
  by (cases t; cases u) (auto simp: pool_swap_signing_message_def message_prefixes pool_byte_inject)

text \<open>The escrow message leaves out the arbiter, the conditions hash and which of release and
  refund is asked for.\<close>

lemma escrow_message_Create:
  assumes "es_type t = EscrowCreate r a m tm c" and "es_type u = EscrowCreate r' a' m' tm' c'"
  shows "escrow_signing_message t = escrow_signing_message u \<longleftrightarrow>
    es_escrow_id t = es_escrow_id u \<and> es_from t = es_from u \<and> es_fee t = es_fee u \<and>
    es_nonce t = es_nonce u \<and> es_public_key t = es_public_key u \<and> r = r' \<and> m = m' \<and> tm = tm'"
  using assms by (auto simp: escrow_signing_message_def message_prefixes)

section \<open>What a valid transaction guarantees\<close>

lemma transfer_is_valid_iff:
  "transfer_is_valid X tx \<longleftrightarrow> transfer_verify_signature X tx \<and>
     tr_from tx = pk_to_address (tr_public_key tx) \<and>
     validate_transfer_fields (tr_amount tx) (tr_fee tx) = Inr ()"
  by (auto simp: transfer_is_valid_def is_ok_iff)

lemma transfer_new_valid:
  assumes "signing_correct X"
  shows "transfer_is_valid X (transfer_new X (kp_address X kp) to amount fee nonce kp) \<longleftrightarrow>
    validate_transfer_fields amount fee = Inr ()"
  using pk_verify_sign[OF assms]
  by (auto simp: transfer_is_valid_iff transfer_new_def transfer_verify_signature_def Let_def
      transfer_signing_message_def)

end
