(* ===== verification/Core_Block.thy ===== *)
theory Core_Block
  imports Core_Transaction
begin

text \<open>\<open>core/src/block.rs\<close>: headers, blocks, their stateless verification, and the in-memory chain.\<close>

section \<open>Definitions\<close>

definition BLOCK_VERSION_STANDARD :: u32 where "BLOCK_VERSION_STANDARD = 1"
definition BLOCK_VERSION_GOLDEN :: u32 where "BLOCK_VERSION_GOLDEN = 2"

record block_header =
  bh_version :: u32
  bh_height :: block_height
  bh_prev_hash :: hash
  bh_timestamp :: timestamp
  bh_transactions_root :: hash
  bh_solutions_root :: hash
  bh_commitment :: commitment
  bh_work_score :: f64
  bh_miner :: address
  bh_nonce :: u64
  bh_solve_time_us :: u64
  bh_verify_time_us :: u64
  bh_time_asymmetry_ratio :: f64
  bh_solution_quality :: f64
  bh_complexity_weight :: f64
  bh_energy_estimate_joules :: f64

record block_codec =
  tx_codec_of :: tx_codec
  bincode_header :: "block_header \<Rightarrow> bytes option"
  json_header :: "block_header \<Rightarrow> bytes option"

definition header_hash :: "crypto_ext \<Rightarrow> block_codec \<Rightarrow> block_header \<Rightarrow> hash" where
  "header_hash X B h = hash_new X (unwrap_or (bincode_header B h) [])"

definition header_hash_from_json :: "crypto_ext \<Rightarrow> block_codec \<Rightarrow> block_header \<Rightarrow> hash" where
  "header_hash_from_json X B h = hash_new X (unwrap_or (json_header B h) [])"

definition meets_difficulty :: "crypto_ext \<Rightarrow> block_codec \<Rightarrow> block_header \<Rightarrow> hash \<Rightarrow> bool" where
  "meets_difficulty X B h target =
     (if header_hash X B h < target then True else header_hash_from_json X B h < target)"

definition epoch_salt :: "block_header \<Rightarrow> hash" where
  "epoch_salt h = bh_prev_hash h"

definition uses_golden_enhancements :: "block_header \<Rightarrow> bool" where
  "uses_golden_enhancements h \<longleftrightarrow> BLOCK_VERSION_GOLDEN \<le> bh_version h"

definition uses_standard_hashing :: "block_header \<Rightarrow> bool" where
  "uses_standard_hashing h \<longleftrightarrow> bh_version h < BLOCK_VERSION_GOLDEN"

record block =
  blk_header :: block_header
  blk_coinbase :: coinbase_tx
  blk_transactions :: "transaction list"
  blk_solution_reveal :: solution_reveal

definition block_genesis :: "address \<Rightarrow> block" where
  "block_genesis genesis_address =
     (let commitment = \<lparr>cm_hash = hash_ZERO, cm_problem_hash = hash_ZERO\<rparr>;
          header = \<lparr>bh_version = 1, bh_height = 0, bh_prev_hash = hash_ZERO, bh_timestamp = 0,
            bh_transactions_root = hash_ZERO, bh_solutions_root = hash_ZERO,
            bh_commitment = commitment, bh_work_score = f_zero, bh_miner = genesis_address,
            bh_nonce = 0, bh_solve_time_us = 0, bh_verify_time_us = 0,
            bh_time_asymmetry_ratio = f_zero, bh_solution_quality = f_zero,
            bh_complexity_weight = f_zero, bh_energy_estimate_joules = f_zero\<rparr>
      in \<lparr>blk_header = header, blk_coinbase = coinbase_new genesis_address 0 0,
          blk_transactions = [],
          blk_solution_reveal = \<lparr>sr_problem = CustomProblem hash_ZERO [], sr_solution = CustomSol [],
            sr_commitment = \<lparr>cm_hash = hash_ZERO, cm_problem_hash = hash_ZERO\<rparr>\<rparr>\<rparr>)"

definition block_hash :: "crypto_ext \<Rightarrow> block_codec \<Rightarrow> block \<Rightarrow> hash" where
  "block_hash X B b = header_hash X B (blk_header b)"

definition block_tx_root :: "crypto_ext \<Rightarrow> block_codec \<Rightarrow> transaction list \<Rightarrow> hash" where
  "block_tx_root X B txs =
     mt_root (merkle_new X (map (\<lambda>tx. hash_as_bytes (tx_hash X (tx_codec_of B) tx)) txs))"

definition block_verify :: "crypto_ext \<Rightarrow> block_codec \<Rightarrow> i64 \<Rightarrow> block \<Rightarrow> bool" where
  "block_verify X B now b =
     (let h = blk_header b in
      if \<not> is_ok (validate_block_header_fields (bh_version h) (bh_timestamp h) (bh_work_score h)
            (bh_time_asymmetry_ratio h) (bh_solution_quality h) (bh_complexity_weight h)
            (bh_energy_estimate_joules h) (length (blk_transactions b)) now) then False
      else if \<not> reveal_verify X (core_codec (tx_codec_of B)) (blk_solution_reveal b) (epoch_salt h) then False
      else if \<not> list_all (tx_is_valid X (tx_codec_of B) now) (blk_transactions b) then False
      else if cb_height (blk_coinbase b) \<noteq> bh_height h then False
      else if block_tx_root X B (blk_transactions b) \<noteq> bh_transactions_root h then False
      else True)"

definition total_fees :: "block \<Rightarrow> u128" where
  "total_fees b = sum_list (map tx_fee (blk_transactions b))"

record blockchain =
  bc_blocks :: "block list"
  bc_difficulty_target :: hash

definition blockchain_new :: "address \<Rightarrow> blockchain" where
  "blockchain_new genesis_address =
     \<lparr>bc_blocks = [block_genesis genesis_address], bc_difficulty_target = Hash (- 1)\<rparr>"

definition bc_height :: "blockchain \<Rightarrow> u64" where
  "bc_height c = of_nat (length (bc_blocks c)) - 1"

definition bc_tip :: "blockchain \<Rightarrow> block option" where
  "bc_tip c = (if bc_blocks c = [] then None else Some (last (bc_blocks c)))"

definition bc_get_block :: "blockchain \<Rightarrow> u64 \<Rightarrow> block option" where
  "bc_get_block c height = index (bc_blocks c) (unat height)"

definition bc_add_block :: "block \<Rightarrow> blockchain \<Rightarrow> blockchain" where
  "bc_add_block b c = c\<lparr>bc_blocks := bc_blocks c @ [b]\<rparr>"

section \<open>Lemmas\<close>

lemma block_verify_iff:
  "block_verify X B now b \<longleftrightarrow>
     validate_block_header_fields (bh_version (blk_header b)) (bh_timestamp (blk_header b))
       (bh_work_score (blk_header b)) (bh_time_asymmetry_ratio (blk_header b))
       (bh_solution_quality (blk_header b)) (bh_complexity_weight (blk_header b))
       (bh_energy_estimate_joules (blk_header b)) (length (blk_transactions b)) now = Inr () \<and>
     reveal_verify X (core_codec (tx_codec_of B)) (blk_solution_reveal b) (bh_prev_hash (blk_header b)) \<and>
     (\<forall>tx\<in>set (blk_transactions b). tx_is_valid X (tx_codec_of B) now tx) \<and>
     cb_height (blk_coinbase b) = bh_height (blk_header b) \<and>
     block_tx_root X B (blk_transactions b) = bh_transactions_root (blk_header b)"
  by (auto simp: block_verify_def Let_def is_ok_iff list_all_iff epoch_salt_def)

lemma merkle_new_Nil [simp]: "mt_root (merkle_new X []) = hash_ZERO"
  by (simp add: merkle_new_def calculate_root_def)

lemma bc_get_block_add:
  assumes "length (bc_blocks c) < 2 ^ 64"
  shows "bc_get_block (bc_add_block b c) (of_nat (length (bc_blocks c))) = Some b"
  using assms by (simp add: bc_get_block_def bc_add_block_def unat_of_nat index_def)

text \<open>The chain in memory is never empty after \<open>blockchain_new\<close>, so \<open>tip\<close> does not panic.\<close>

lemma bc_tip_fold: "bc_tip (fold bc_add_block bs (blockchain_new a)) \<noteq> None"
proof -
  have "bc_blocks (fold bc_add_block bs c) = bc_blocks c @ bs" for c
    by (induction bs arbitrary: c) (simp_all add: bc_add_block_def)
  then show ?thesis by (simp add: bc_tip_def blockchain_new_def)
qed

end
