(* ===== verification/State_Accounts.thy ===== *)
theory State_Accounts
  imports Core_Types
begin

text \<open>
  \<open>state/src/accounts.rs\<close>: balances and nonces. \<open>total_balance\<close> is the exact sum of all
  balances; \<open>total_balance_set\<close> says how a write moves it.
\<close>

section \<open>State and operations\<close>

record account_state =
  balances :: "(address, balance) table"
  nonces :: "(address, u64) table"

datatype state_error = InsufficientBalance address balance balance

definition account_new :: account_state where
  "account_new = \<lparr>balances = [], nonces = []\<rparr>"

definition get_balance :: "account_state \<Rightarrow> address \<Rightarrow> balance" where
  "get_balance st a = unwrap_or (tbl_get (balances st) a) 0"

definition set_balance :: "address \<Rightarrow> balance \<Rightarrow> account_state \<Rightarrow> account_state" where
  "set_balance a b st = st\<lparr>balances := tbl_put a b (balances st)\<rparr>"

definition get_nonce :: "account_state \<Rightarrow> address \<Rightarrow> u64" where
  "get_nonce st a = unwrap_or (tbl_get (nonces st) a) 0"

definition set_nonce :: "address \<Rightarrow> u64 \<Rightarrow> account_state \<Rightarrow> account_state" where
  "set_nonce a n st = st\<lparr>nonces := tbl_put a n (nonces st)\<rparr>"

definition increment_nonce :: "address \<Rightarrow> account_state \<Rightarrow> u64 \<times> account_state" where
  "increment_nonce a st = (let new_nonce = get_nonce st a + 1 in (new_nonce, set_nonce a new_nonce st))"

definition account_transfer ::
  "address \<Rightarrow> address \<Rightarrow> balance \<Rightarrow> (account_state, state_error, unit) step" where
  "account_transfer sender to amount st =
     (let from_balance = get_balance st sender in
      if from_balance < amount then (Inl (InsufficientBalance sender from_balance amount), st)
      else let to_balance = get_balance st to
           in (Inr (), st\<lparr>balances := tbl_put to (to_balance + amount)
                            (tbl_put sender (from_balance - amount) (balances st))\<rparr>))"

definition apply_batch :: "(address \<times> balance) list \<Rightarrow> account_state \<Rightarrow> account_state" where
  "apply_batch changes st = st\<lparr>balances := fold (\<lambda>(a, b). tbl_put a b) changes (balances st)\<rparr>"

definition bump_nonce :: "address \<Rightarrow> (address, u64) table \<Rightarrow> (address, u64) table" where
  "bump_nonce a t = tbl_put a (unwrap_or (tbl_get t a) 0 + 1) t"

definition apply_block_atomically ::
  "(address \<times> balance) list \<Rightarrow> address list \<Rightarrow> account_state \<Rightarrow> account_state" where
  "apply_block_atomically balance_changes nonce_increments st =
     st\<lparr>balances := fold (\<lambda>(a, b). tbl_put a b) balance_changes (balances st),
        nonces := fold bump_nonce nonce_increments (nonces st)\<rparr>"

definition get_balances_batch :: "account_state \<Rightarrow> address list \<Rightarrow> (address \<times> balance) list" where
  "get_balances_batch st addresses =
     map (\<lambda>a. (a, unwrap_or (tbl_get (balances st) a) 0)) addresses"

definition get_nonces_batch :: "account_state \<Rightarrow> address list \<Rightarrow> (address \<times> u64) list" where
  "get_nonces_batch st addresses =
     map (\<lambda>a. (a, unwrap_or (tbl_get (nonces st) a) 0)) addresses"

section \<open>Lookups after writes\<close>

definition account_ok :: "account_state \<Rightarrow> bool" where
  "account_ok st \<longleftrightarrow> tbl_ok (balances st) \<and> tbl_ok (nonces st)"

definition total_balance :: "account_state \<Rightarrow> int" where
  "total_balance st = tbl_sum uint (balances st)"

lemma get_balance_set [simp]:
  "get_balance (set_balance a b st) c = (if c = a then b else get_balance st c)"
  by (simp add: get_balance_def set_balance_def)

lemma get_balance_set_nonce [simp]: "get_balance (set_nonce a n st) c = get_balance st c"
  by (simp add: get_balance_def set_nonce_def)

lemma get_nonce_set [simp]: "get_nonce (set_nonce a n st) c = (if c = a then n else get_nonce st c)"
  by (simp add: get_nonce_def set_nonce_def)

lemma get_nonce_set_balance [simp]: "get_nonce (set_balance a b st) c = get_nonce st c"
  by (simp add: get_nonce_def set_balance_def)

lemma account_ok_set_balance [wf_intros, intro, simp]: "account_ok st \<Longrightarrow> account_ok (set_balance a b st)"
  by (simp add: account_ok_def set_balance_def tbl_ok_put)

lemma account_ok_set_nonce [wf_intros, intro, simp]: "account_ok st \<Longrightarrow> account_ok (set_nonce a n st)"
  by (simp add: account_ok_def set_nonce_def tbl_ok_put)

lemma account_ok_new [simp]: "account_ok account_new"
  by (simp add: account_ok_def account_new_def)

lemma total_balance_set [simp]:
  "account_ok st \<Longrightarrow>
     total_balance (set_balance a b st) = total_balance st - uint (get_balance st a) + uint b"
  by (simp add: account_ok_def total_balance_def set_balance_def get_balance_def tbl_sum_put
      split: option.splits)

lemma total_balance_nonneg [simp]: "0 \<le> total_balance st"
  by (simp add: total_balance_def tbl_sum_nonneg)

lemma balance_le_total: "uint (get_balance st a) \<le> total_balance st"
  using tbl_sum_ge[of "balances st" a _ uint]
  by (cases "tbl_get (balances st) a") (auto simp: get_balance_def total_balance_def tbl_sum_nonneg)

lemma total_balance_set_nonce [simp]: "total_balance (set_nonce a n st) = total_balance st"
  by (simp add: total_balance_def set_nonce_def)

text \<open>Setting a balance to what it is, and putting it back.\<close>

lemma set_balance_twice: "set_balance a c (set_balance a b st) = set_balance a c st"
  if "account_ok st"
proof -
  have "tbl_put a c (tbl_put a b (balances st)) = tbl_put a c (balances st)"
    using that by (intro tbl.titer_unique) (auto simp: account_ok_def tbl_ok_put)
  then show ?thesis by (simp add: set_balance_def)
qed

section \<open>Transfers\<close>

lemma account_transfer_conv:
  "account_transfer sender to amount st =
     (if get_balance st sender < amount
      then (Inl (InsufficientBalance sender (get_balance st sender) amount), st)
      else (Inr (), set_balance to (get_balance st to + amount)
                      (set_balance sender (get_balance st sender - amount) st)))"
  by (simp add: account_transfer_def set_balance_def Let_def)

text \<open>A transfer to another account keeps the total; a transfer to oneself adds the
  amount, because the recipient's balance is read before the debit.\<close>

lemma account_transfer_total:
  assumes "account_ok st" and "account_transfer sender to amount st = (Inr (), st')"
    and "uint (get_balance st to) + uint amount < 2 ^ 128"
  shows "total_balance st' = total_balance st + (if sender = to then uint amount else 0)"
proof -
  have "amount \<le> get_balance st sender"
    and st': "st' = set_balance to (get_balance st to + amount)
      (set_balance sender (get_balance st sender - amount) st)"
    using assms(2) by (auto simp: account_transfer_conv not_less split: if_splits)
  then show ?thesis
    using assms(1,3) uint_add_fits[of "get_balance st to" amount] by (auto simp: uint_sub_le)
qed

lemma account_transfer_no_wrap:
  assumes "account_transfer sender to amount st = (Inr (), st')" and "sender \<noteq> to"
    and "unat (get_balance st to) + unat amount < 2 ^ 128"
  shows "unat (get_balance st' sender) + unat amount = unat (get_balance st sender)"
    and "unat (get_balance st' to) = unat (get_balance st to) + unat amount"
  using assms
  by (auto simp: account_transfer_conv not_less unat_sub_le unat_add_small word_le_nat_alt split: if_splits)

section \<open>Atomic block application\<close>

lemma fold_put_get:
  "tbl_get (fold (\<lambda>(a, b). tbl_put a b) changes t) a =
     (case map_of (rev changes) a of None \<Rightarrow> tbl_get t a | Some b \<Rightarrow> Some b)"
  by (induction changes arbitrary: t) (auto simp: map_add_def split: option.splits)

lemma fold_bump_get:
  "unwrap_or (tbl_get (fold bump_nonce senders t) a) 0 =
     unwrap_or (tbl_get t a) 0 + of_nat (count_list senders a)"
  by (induction senders arbitrary: t) (auto simp: bump_nonce_def algebra_simps)

lemma apply_block_atomically_balance:
  "get_balance (apply_block_atomically changes senders st) a =
     (case map_of (rev changes) a of None \<Rightarrow> get_balance st a | Some b \<Rightarrow> b)"
  by (simp add: get_balance_def apply_block_atomically_def fold_put_get split: option.splits)

lemma apply_block_atomically_nonce:
  "get_nonce (apply_block_atomically changes senders st) a =
     get_nonce st a + of_nat (count_list senders a)"
  by (simp add: get_nonce_def apply_block_atomically_def fold_bump_get)

end
