(* ===== verification/State_Timelocks.thy ===== *)
theory State_Timelocks
  imports Core_Types
begin

text \<open>\<open>state/src/timelocks.rs\<close>: funds locked until a Unix timestamp. The clock is an argument.\<close>

record timelock =
  tlk_tx_hash :: hash
  tlk_from :: address
  tlk_recipient :: address
  tlk_amount :: balance
  tlk_unlock_time :: i64
  tlk_created_at_height :: u64

type_synonym timelock_state = "(hash, timelock) table"

definition add_timelock :: "timelock \<Rightarrow> timelock_state \<Rightarrow> timelock_state" where
  "add_timelock lock st = tbl_put (tlk_tx_hash lock) lock st"

definition get_timelock :: "timelock_state \<Rightarrow> hash \<Rightarrow> timelock option" where
  "get_timelock st tx_hash = tbl_get st tx_hash"

definition remove_timelock :: "hash \<Rightarrow> timelock_state \<Rightarrow> timelock_state" where
  "remove_timelock tx_hash st = tbl_del tx_hash st"

definition get_timelocks_for_recipient :: "timelock_state \<Rightarrow> address \<Rightarrow> timelock list" where
  "get_timelocks_for_recipient st recipient =
     filter (\<lambda>lock. tlk_recipient lock = recipient) (tbl_values st)"

definition get_unlocked_timelocks :: "i64 \<Rightarrow> timelock_state \<Rightarrow> timelock list" where
  "get_unlocked_timelocks now st = filter (\<lambda>lock. sint (tlk_unlock_time lock) \<le> sint now) (tbl_values st)"

definition is_unlocked :: "i64 \<Rightarrow> timelock_state \<Rightarrow> hash \<Rightarrow> bool" where
  "is_unlocked now st tx_hash = (case get_timelock st tx_hash of
     Some lock \<Rightarrow> sint (tlk_unlock_time lock) \<le> sint now | None \<Rightarrow> False)"

definition get_locked_balance :: "i64 \<Rightarrow> timelock_state \<Rightarrow> address \<Rightarrow> balance" where
  "get_locked_balance now st a =
     sum_list (map tlk_amount (filter (\<lambda>lock. tlk_from lock = a \<and> sint now < sint (tlk_unlock_time lock))
       (tbl_values st)))"

definition total_timelocked :: "timelock_state \<Rightarrow> int" where
  "total_timelocked st = tbl_sum (\<lambda>lock. uint (tlk_amount lock)) st"

lemma total_timelocked_add:
  "tbl_ok st \<Longrightarrow> total_timelocked (add_timelock lock st) =
     total_timelocked st - (case get_timelock st (tlk_tx_hash lock) of None \<Rightarrow> 0 | Some o' \<Rightarrow> uint (tlk_amount o'))
     + uint (tlk_amount lock)"
  by (simp add: total_timelocked_def add_timelock_def get_timelock_def tbl_sum_put)

lemma total_timelocked_remove:
  "tbl_ok st \<Longrightarrow> total_timelocked (remove_timelock h st) =
     total_timelocked st - (case get_timelock st h of None \<Rightarrow> 0 | Some lock \<Rightarrow> uint (tlk_amount lock))"
  by (simp add: total_timelocked_def remove_timelock_def get_timelock_def tbl_sum_del)

text \<open>The scan finds exactly the stored locks that \<open>is_unlocked\<close> accepts.\<close>

lemma get_unlocked_timelocks_iff:
  assumes "tbl_ok st"
  shows "lock \<in> set (get_unlocked_timelocks now st) \<longleftrightarrow>
    (\<exists>h. get_timelock st h = Some lock \<and> is_unlocked now st h)"
  unfolding get_unlocked_timelocks_def tbl_values_filter[OF assms]
  by (auto simp: get_timelock_def is_unlocked_def)

end
