(* ===== verification/CJ_Machine.thy ===== *)
theory CJ_Machine
  imports CJ_Prelude
begin

text \<open>
  The contract that the state managers of the ledger share: a store of entries, operations
  that change the store, and the moves an operation may make with one entry. A component
  interprets \<open>entry_machine\<close> with its own step relation and gets the facts about whole runs.
  At the end a third contract: an operation that simulates one on an abstract state.
\<close>

locale entry_machine =
  fixes step :: "'s \<Rightarrow> 's \<Rightarrow> bool"
    and entry :: "'s \<Rightarrow> 'k \<Rightarrow> 'v option"
    and moves :: "'v \<Rightarrow> 'v \<Rightarrow> bool"
    and final :: "'v \<Rightarrow> bool"
  assumes step_entry: "step s s' \<Longrightarrow> entry s k = Some v \<Longrightarrow>
      \<exists>v'. entry s' k = Some v' \<and> (v' = v \<or> moves v v')"
    and final_moves: "final v \<Longrightarrow> \<not> moves v v'"
begin

text \<open>Entries are never dropped, and along a run an entry only makes its moves.\<close>

lemma entry_path:
  assumes "step\<^sup>*\<^sup>* s s'" and "entry s k = Some v"
  shows "\<exists>v'. entry s' k = Some v' \<and> moves\<^sup>*\<^sup>* v v'"
  using assms
proof (induction rule: rtranclp_induct)
  case (step t u)
  then obtain v' where v': "entry t k = Some v'" "moves\<^sup>*\<^sup>* v v'" by blast
  from step_entry[OF step(2) v'(1)] v'(2) show ?case
    by (meson rtranclp.rtrancl_into_rtrancl)
qed auto

lemma final_stays: "moves\<^sup>*\<^sup>* v v' \<Longrightarrow> final v \<Longrightarrow> v' = v"
  by (induction rule: rtranclp_induct) (auto dest: final_moves)

lemma final_forever:
  assumes "step\<^sup>*\<^sup>* s s'" and "entry s k = Some v" and "final v"
  shows "entry s' k = Some v"
  using entry_path[OF assms(1,2)] final_stays[OF _ assms(3)] by blast

lemma kept_path:
  assumes "step\<^sup>*\<^sup>* s s'" and "entry s k = Some v" and "P v"
    and "\<And>v w. P v \<Longrightarrow> moves v w \<Longrightarrow> P w"
  shows "\<exists>v'. entry s' k = Some v' \<and> P v'"
proof -
  obtain v' where v': "entry s' k = Some v'" "moves\<^sup>*\<^sup>* v v'"
    using entry_path[OF assms(1,2)] by blast
  from v'(2) have "P v'" by (induction rule: rtranclp_induct) (auto simp: assms(3) intro: assms(4))
  with v'(1) show ?thesis by blast
qed

end

text \<open>
  Runs under a budget: every operation keeps the invariant and may raise the measure by at most
  its own allowance, as long as the budget is not exceeded. Interpreted for transactions
  (allowance 0) and for blocks (allowance: the coinbase reward).
\<close>

fun run_list :: "('o \<Rightarrow> 's \<Rightarrow> 's option) \<Rightarrow> 'o list \<Rightarrow> 's \<Rightarrow> 's option" where
  "run_list f [] s = Some s"
| "run_list f (op # ops) s = (case f op s of None \<Rightarrow> None | Some s' \<Rightarrow> run_list f ops s')"

locale budgeted =
  fixes run :: "'o \<Rightarrow> 's \<Rightarrow> 's option"
    and good :: "'s \<Rightarrow> bool"
    and admissible :: "'o \<Rightarrow> bool"
    and measured :: "'s \<Rightarrow> int"
    and allowance :: "'o \<Rightarrow> int"
    and budget :: int
  assumes run_good: "run op s = Some s' \<Longrightarrow> good s \<Longrightarrow> good s'"
    and run_bound: "run op s = Some s' \<Longrightarrow> good s \<Longrightarrow> admissible op \<Longrightarrow>
        measured s + allowance op < budget \<Longrightarrow> measured s' \<le> measured s + allowance op"
    and allowance_nonneg: "0 \<le> allowance op"
begin

lemma run_list_good: "run_list run ops s = Some s' \<Longrightarrow> good s \<Longrightarrow> good s'"
  by (induction ops arbitrary: s) (auto split: option.splits dest: run_good)

lemma allowances_nonneg: "0 \<le> (\<Sum>op\<leftarrow>ops. allowance op)"
  by (induction ops) (auto simp: allowance_nonneg)

lemma run_list_bound:
  "run_list run ops s = Some s' \<Longrightarrow> good s \<Longrightarrow> \<forall>op\<in>set ops. admissible op \<Longrightarrow>
   measured s + (\<Sum>op\<leftarrow>ops. allowance op) < budget \<Longrightarrow>
   measured s' \<le> measured s + (\<Sum>op\<leftarrow>ops. allowance op)"
proof (induction ops arbitrary: s)
  case (Cons op ops)
  from Cons.prems(1) obtain s1 where s1: "run op s = Some s1" "run_list run ops s1 = Some s'"
    by (auto split: option.splits)
  have tail: "0 \<le> (\<Sum>op\<leftarrow>ops. allowance op)" by (rule allowances_nonneg)
  have b1: "measured s1 \<le> measured s + allowance op"
    using s1(1) Cons.prems tail by (intro run_bound) auto
  have "measured s' \<le> measured s1 + (\<Sum>op\<leftarrow>ops. allowance op)"
    using Cons.IH[OF s1(2) run_good[OF s1(1)]] Cons.prems b1 by auto
  with b1 show ?case by simp
qed simp

end

text \<open>
  The contract of a component that implements an abstract state: its operations keep an invariant and commute with the
  abstraction. Proved once here: so do all its runs.
\<close>

fun run_steps :: "('s \<Rightarrow> 'i \<Rightarrow> 's) \<Rightarrow> 's \<Rightarrow> 'i list \<Rightarrow> 's" where
  "run_steps step s [] = s"
| "run_steps step s (i # is) = run_steps step (step s i) is"

fun all_steps :: "('s \<Rightarrow> 'i \<Rightarrow> bool) \<Rightarrow> ('s \<Rightarrow> 'i \<Rightarrow> 's) \<Rightarrow> 's \<Rightarrow> 'i list \<Rightarrow> bool" where
  "all_steps pre step s [] \<longleftrightarrow> True"
| "all_steps pre step s (i # is) \<longleftrightarrow> pre s i \<and> all_steps pre step (step s i) is"

locale simulation =
  fixes ok :: "'s \<Rightarrow> bool" and abstract :: "'s \<Rightarrow> 'a" and pre :: "'s \<Rightarrow> 'i \<Rightarrow> bool"
    and step :: "'s \<Rightarrow> 'i \<Rightarrow> 's" and spec :: "'a \<Rightarrow> 'i \<Rightarrow> 'a"
  assumes step_ok: "ok s \<Longrightarrow> pre s i \<Longrightarrow> ok (step s i)"
    and step_refines: "ok s \<Longrightarrow> pre s i \<Longrightarrow> abstract (step s i) = spec (abstract s) i"
begin

lemma run_ok: "ok s \<Longrightarrow> all_steps pre step s is \<Longrightarrow> ok (run_steps step s is)"
  by (induction "is" arbitrary: s) (auto simp: step_ok)

lemma run_refines: "ok s \<Longrightarrow> all_steps pre step s is \<Longrightarrow> abstract (run_steps step s is) = run_steps spec (abstract s) is"
  by (induction "is" arbitrary: s) (auto simp: step_ok step_refines)

end

end
