(* ===== verification/State_Escrows.thy ===== *)
theory State_Escrows
  imports Core_Types CJ_Machine
begin

text \<open>
  \<open>state/src/escrows.rs\<close>: escrowed funds with an optional arbiter, and the authorised release
  and refund, which check an Ed25519 signature over a 64-byte message. The clock is an
  argument. \<open>escrow_step\<close> collects the operations that change the store under
  authorisation; it is an interpretation of \<open>entry_machine\<close>.
\<close>

section \<open>State\<close>

datatype escrow_status = EscrowActive | EscrowReleased | EscrowRefunded | EscrowExpired

record escrow =
  esc_escrow_id :: hash
  esc_sender :: address
  esc_recipient :: address
  esc_arbiter :: "address option"
  esc_amount :: balance
  esc_timeout :: i64
  esc_conditions_hash :: hash
  esc_status :: escrow_status
  esc_created_at_height :: u64
  esc_resolved_at_height :: "u64 option"

type_synonym escrow_state = "(hash, escrow) table"

datatype escrow_error =
    EscrowAlreadyExists
  | EscrowNotFound
  | EscrowNotActive escrow_status
  | NotAuthorizedToRelease
  | NotAuthorizedToRefund
  | TimestampTooFar i64
  | InvalidPublicKey
  | SignatureVerificationFailed

section \<open>Operations\<close>

definition get_escrow :: "escrow_state \<Rightarrow> hash \<Rightarrow> escrow option" where
  "get_escrow st escrow_id = tbl_get st escrow_id"

definition create_escrow :: "escrow \<Rightarrow> (escrow_state, escrow_error, unit) step" where
  "create_escrow e st =
     (if get_escrow st (esc_escrow_id e) \<noteq> None then (Inl EscrowAlreadyExists, st)
      else (Inr (), tbl_put (esc_escrow_id e) e st))"

definition update_escrow_status ::
  "hash \<Rightarrow> escrow_status \<Rightarrow> u64 option \<Rightarrow> (escrow_state, escrow_error, unit) step" where
  "update_escrow_status escrow_id status resolved_height st =
     (case get_escrow st escrow_id of None \<Rightarrow> (Inl EscrowNotFound, st)
      | Some e \<Rightarrow> (Inr (), tbl_put escrow_id
          (e\<lparr>esc_status := status, esc_resolved_at_height := resolved_height\<rparr>) st))"

definition get_active_escrows :: "escrow_state \<Rightarrow> escrow list" where
  "get_active_escrows st = filter (\<lambda>e. esc_status e = EscrowActive) (tbl_values st)"

definition get_escrows_by_sender :: "escrow_state \<Rightarrow> address \<Rightarrow> escrow list" where
  "get_escrows_by_sender st sender = filter (\<lambda>e. esc_sender e = sender) (tbl_values st)"

definition get_escrows_by_recipient :: "escrow_state \<Rightarrow> address \<Rightarrow> escrow list" where
  "get_escrows_by_recipient st recipient = filter (\<lambda>e. esc_recipient e = recipient) (tbl_values st)"

definition get_expired_escrows :: "i64 \<Rightarrow> escrow_state \<Rightarrow> escrow list" where
  "get_expired_escrows now st =
     filter (\<lambda>e. esc_status e = EscrowActive \<and> sint (esc_timeout e) \<le> sint now) (tbl_values st)"

definition can_release :: "escrow_state \<Rightarrow> hash \<Rightarrow> address \<Rightarrow> bool" where
  "can_release st escrow_id releaser = (case get_escrow st escrow_id of
     Some e \<Rightarrow>
       (if esc_status e \<noteq> EscrowActive then False
        else if esc_arbiter e = Some releaser then True
        else releaser = esc_recipient e)
   | None \<Rightarrow> False)"

definition can_refund :: "i64 \<Rightarrow> escrow_state \<Rightarrow> hash \<Rightarrow> address \<Rightarrow> bool" where
  "can_refund now st escrow_id refunder = (case get_escrow st escrow_id of
     Some e \<Rightarrow>
       (if esc_status e \<noteq> EscrowActive then False
        else if esc_arbiter e = Some refunder then True
        else refunder = esc_sender e \<and> sint (esc_timeout e) \<le> sint now)
   | None \<Rightarrow> False)"

definition get_escrowed_balance :: "escrow_state \<Rightarrow> address \<Rightarrow> balance" where
  "get_escrowed_balance st a =
     sum_list (map esc_amount (filter (\<lambda>e. esc_sender e = a \<and> esc_status e = EscrowActive) (tbl_values st)))"

definition ACTION_RELEASE :: u8 where "ACTION_RELEASE = 1"
definition ACTION_REFUND :: u8 where "ACTION_REFUND = 2"

definition AUTH_DOMAIN :: bytes where
  "AUTH_DOMAIN = map (\<lambda>c. of_nat (of_char c)) ''COINJECT_ESCROW_AUTH_V1''"

definition MAX_TIMESTAMP_SKEW_SECS :: i64 where "MAX_TIMESTAMP_SKEW_SECS = 300"

definition escrow_auth_message :: "hash \<Rightarrow> u8 \<Rightarrow> i64 \<Rightarrow> bytes" where
  "escrow_auth_message escrow_id action ts =
     AUTH_DOMAIN @ hash_as_bytes escrow_id @ [action] @ to_le_bytes ts"

definition verify_escrow_auth ::
  "crypto_ext \<Rightarrow> i64 \<Rightarrow> hash \<Rightarrow> 256 word \<Rightarrow> 512 word \<Rightarrow> i64 \<Rightarrow> u8 \<Rightarrow> escrow_error + unit" where
  "verify_escrow_auth X now escrow_id pubkey signature ts action =
     (let skew = abs_word (ts - now) in
      if MAX_TIMESTAMP_SKEW_SECS <s skew then Inl (TimestampTooFar skew)
      else if \<not> vk_from_bytes_ok X pubkey then Inl InvalidPublicKey
      else if \<not> vk_verify X pubkey (escrow_auth_message escrow_id action ts) signature
        then Inl SignatureVerificationFailed
      else Inr ())"

definition auth_address_from_pubkey :: "crypto_ext \<Rightarrow> 256 word \<Rightarrow> address" where
  "auth_address_from_pubkey X pubkey = Address (blake3 X (be_bytes pubkey))"

definition release_with_auth ::
  "crypto_ext \<Rightarrow> i64 \<Rightarrow> hash \<Rightarrow> 256 word \<Rightarrow> 512 word \<Rightarrow> i64 \<Rightarrow> u64 \<Rightarrow> (escrow_state, escrow_error, unit) step" where
  "release_with_auth X now escrow_id releaser_pubkey signature ts resolved_height st =
     (case get_escrow st escrow_id of None \<Rightarrow> (Inl EscrowNotFound, st)
      | Some e \<Rightarrow>
          if esc_status e \<noteq> EscrowActive then (Inl (EscrowNotActive (esc_status e)), st)
          else if \<not> can_release st escrow_id (auth_address_from_pubkey X releaser_pubkey)
            then (Inl NotAuthorizedToRelease, st)
          else case verify_escrow_auth X now escrow_id releaser_pubkey signature ts ACTION_RELEASE of
            Inl err \<Rightarrow> (Inl err, st)
          | Inr _ \<Rightarrow> update_escrow_status escrow_id EscrowReleased (Some resolved_height) st)"

definition refund_with_auth ::
  "crypto_ext \<Rightarrow> i64 \<Rightarrow> hash \<Rightarrow> 256 word \<Rightarrow> 512 word \<Rightarrow> i64 \<Rightarrow> u64 \<Rightarrow> (escrow_state, escrow_error, unit) step" where
  "refund_with_auth X now escrow_id refunder_pubkey signature ts resolved_height st =
     (case get_escrow st escrow_id of None \<Rightarrow> (Inl EscrowNotFound, st)
      | Some e \<Rightarrow>
          if esc_status e \<noteq> EscrowActive then (Inl (EscrowNotActive (esc_status e)), st)
          else if \<not> can_refund now st escrow_id (auth_address_from_pubkey X refunder_pubkey)
            then (Inl NotAuthorizedToRefund, st)
          else case verify_escrow_auth X now escrow_id refunder_pubkey signature ts ACTION_REFUND of
            Inl err \<Rightarrow> (Inl err, st)
          | Inr _ \<Rightarrow> update_escrow_status escrow_id EscrowRefunded (Some resolved_height) st)"

section \<open>Store\<close>

definition escrow_ok :: "escrow_state \<Rightarrow> bool" where
  "escrow_ok st \<longleftrightarrow> tbl_ok st \<and> (\<forall>k e. tbl_get st k = Some e \<longrightarrow> esc_escrow_id e = k)"

definition active_amount :: "escrow \<Rightarrow> int" where
  "active_amount e = (if esc_status e = EscrowActive then uint (esc_amount e) else 0)"

definition total_escrowed :: "escrow_state \<Rightarrow> int" where
  "total_escrowed st = tbl_sum active_amount st"

lemma escrow_ok_create: "escrow_ok st \<Longrightarrow> create_escrow e st = (r, st') \<Longrightarrow> escrow_ok st'"
  by (auto simp: escrow_ok_def create_escrow_def tbl_ok_put split: if_splits)

lemma escrow_ok_update: "escrow_ok st \<Longrightarrow> update_escrow_status i s h st = (r, st') \<Longrightarrow> escrow_ok st'"
  by (auto simp: escrow_ok_def update_escrow_status_def get_escrow_def tbl_ok_put
      split: option.splits if_splits)

lemma total_escrowed_create:
  assumes "escrow_ok st" and "create_escrow e st = (Inr (), st')"
  shows "total_escrowed st' = total_escrowed st + active_amount e"
  using assms by (auto simp: create_escrow_def total_escrowed_def escrow_ok_def tbl_sum_put
      get_escrow_def split: if_splits option.splits)

lemma total_escrowed_update:
  assumes "escrow_ok st" and "get_escrow st i = Some e"
    and "update_escrow_status i s h st = (r, st')"
  shows "total_escrowed st' = total_escrowed st - active_amount e
    + (if s = EscrowActive then uint (esc_amount e) else 0)"
  using assms by (auto simp: update_escrow_status_def total_escrowed_def escrow_ok_def tbl_sum_put
      get_escrow_def active_amount_def)

section \<open>Authorisation\<close>

lemma length_escrow_auth_message [simp]: "length (escrow_auth_message i a ts) = 64"
  by (simp add: escrow_auth_message_def AUTH_DOMAIN_def)

lemma escrow_auth_message_inject:
  "escrow_auth_message i a ts = escrow_auth_message i' a' ts' \<longleftrightarrow> i = i' \<and> a = a' \<and> ts = ts'"
  by (auto simp: escrow_auth_message_def append_eq_same_prefix_length)

text \<open>The freshness test over the integers. With a clock between 0 and \<open>2 ^ 62\<close> the wrapped
  difference is the real one but for a timestamp exactly \<open>2 ^ 63\<close> before the clock,
  whose \<open>abs\<close> wraps to a negative number.\<close>

lemma sint_diff_i64:
  fixes t now :: i64
  assumes "0 \<le> sint now" and "sint now < 2 ^ 62" and "- (2 ^ 63) \<le> sint t - sint now"
    and "sint t - sint now < 2 ^ 63"
  shows "sint (t - now) = sint t - sint now"
proof -
  have "sint (t - now) = signed_take_bit 63 (sint t - sint now)"
    by (simp add: sint_word_ariths)
  also have "\<dots> = sint t - sint now"
    using assms(3,4) by (intro signed_take_bit_int_eq_self) simp_all
  finally show ?thesis .
qed

lemma fresh_iff:
  fixes t now :: i64
  assumes "0 \<le> sint now" and "sint now < 2 ^ 62"
  shows "\<not> 300 <s abs_word (t - now) \<longleftrightarrow> \<bar>sint t - sint now\<bar> \<le> 300 \<or> sint t = sint now - 2 ^ 63"
proof -
  have rng: "- (2 ^ 63) \<le> sint t" "sint t < 2 ^ 63" using sint_ge[of t] sint_lt[of t] by simp_all
  have s: "sint (t - now) = signed_take_bit 63 (sint t - sint now)"
    by (simp add: sint_word_ariths)
  have a: "sint (abs_word x) = (if sint x = - (2 ^ 63) then - (2 ^ 63) else \<bar>sint x\<bar>)" for x :: i64
  proof (cases "sint x < 0")
    case True
    have "sint (- x) = signed_take_bit 63 (- sint x)" by (simp add: sint_word_ariths)
    moreover have "signed_take_bit 63 (- sint x) = - sint x" if "sint x \<noteq> - (2 ^ 63)"
      using that True sint_ge[of x] by (intro signed_take_bit_int_eq_self) simp_all
    moreover have "signed_take_bit 63 (2 ^ 63 :: int) = - (2 ^ 63)" by (simp add: signed_take_bit_int_eq_self_iff signed_take_bit_eq_take_bit_shift)
    ultimately show ?thesis using True by (auto simp: abs_word_def)
  qed (auto simp: abs_word_def)
  have lt: "300 <s w \<longleftrightarrow> 300 < sint w" for w :: i64 by (simp add: word_sless_alt)
  show ?thesis
  proof (cases "- (2 ^ 63) \<le> sint t - sint now")
    case True
    have "sint t - sint now < 2 ^ 63" using rng(2) assms(1) by linarith
    then have "sint (t - now) = sint t - sint now" by (rule sint_diff_i64[OF assms True])
    then show ?thesis unfolding lt a by auto
  next
    case False
    have "sint (t - now) = sint t - sint now + 2 ^ 64"
    proof -
      have "signed_take_bit 63 (sint t - sint now) = signed_take_bit 63 (sint t - sint now + 2 ^ 64)"
        by (simp add: signed_take_bit_eq_iff_take_bit_eq take_bit_eq_mod)
      also have "\<dots> = sint t - sint now + 2 ^ 64"
        using False rng assms by (intro signed_take_bit_int_eq_self) simp_all
      finally show ?thesis using s by simp
    qed
    moreover have "2 ^ 62 < sint t - sint now + 2 ^ 64" using rng assms by simp
    ultimately show ?thesis unfolding lt a using False by auto
  qed
qed

lemma can_release_iff:
  "can_release st i a \<longleftrightarrow> (\<exists>e. get_escrow st i = Some e \<and> esc_status e = EscrowActive \<and>
     (esc_arbiter e = Some a \<or> a = esc_recipient e))"
  by (auto simp: can_release_def split: option.splits)

lemma can_refund_iff:
  "can_refund now st i a \<longleftrightarrow> (\<exists>e. get_escrow st i = Some e \<and> esc_status e = EscrowActive \<and>
     (esc_arbiter e = Some a \<or> a = esc_sender e \<and> sint (esc_timeout e) \<le> sint now))"
  by (auto simp: can_refund_def split: option.splits)

lemma verify_escrow_auth_Inr:
  "verify_escrow_auth X now i pk sig ts a = Inr () \<longleftrightarrow>
     \<not> 300 <s abs_word (ts - now) \<and> vk_from_bytes_ok X pk \<and>
     vk_verify X pk (escrow_auth_message i a ts) sig"
  by (auto simp: verify_escrow_auth_def Let_def MAX_TIMESTAMP_SKEW_SECS_def)

lemma release_with_auth_Inr:
  "release_with_auth X now i pk sig ts h st = (Inr (), st') \<longleftrightarrow>
     (\<exists>e. get_escrow st i = Some e \<and> esc_status e = EscrowActive \<and>
       can_release st i (auth_address_from_pubkey X pk) \<and>
       verify_escrow_auth X now i pk sig ts ACTION_RELEASE = Inr () \<and>
       st' = tbl_put i (e\<lparr>esc_status := EscrowReleased, esc_resolved_at_height := Some h\<rparr>) st)"
  by (auto simp: release_with_auth_def update_escrow_status_def split: option.splits sum.splits)

lemma refund_with_auth_Inr:
  "refund_with_auth X now i pk sig ts h st = (Inr (), st') \<longleftrightarrow>
     (\<exists>e. get_escrow st i = Some e \<and> esc_status e = EscrowActive \<and>
       can_refund now st i (auth_address_from_pubkey X pk) \<and>
       verify_escrow_auth X now i pk sig ts ACTION_REFUND = Inr () \<and>
       st' = tbl_put i (e\<lparr>esc_status := EscrowRefunded, esc_resolved_at_height := Some h\<rparr>) st)"
  by (auto simp: refund_with_auth_def update_escrow_status_def split: option.splits sum.splits)

lemma escrow_error_unchanged:
  "release_with_auth X now i pk sig ts h st = (Inl err, st') \<Longrightarrow> st' = st"
  "refund_with_auth X now i pk sig ts h st = (Inl err, st') \<Longrightarrow> st' = st"
  "create_escrow e st = (Inl err, st') \<Longrightarrow> st' = st"
  by (auto simp: release_with_auth_def refund_with_auth_def create_escrow_def update_escrow_status_def
      split: option.splits sum.splits if_splits)

section \<open>The escrow machine\<close>

inductive escrow_step :: "crypto_ext \<Rightarrow> escrow_state \<Rightarrow> escrow_state \<Rightarrow> bool" for X where
  step_create: "create_escrow e st = (r, st') \<Longrightarrow> escrow_step X st st'"
| step_release: "release_with_auth X now i pk sig ts h st = (r, st') \<Longrightarrow> escrow_step X st st'"
| step_refund: "refund_with_auth X now i pk sig ts h st = (r, st') \<Longrightarrow> escrow_step X st st'"

text \<open>What an operation may do to an entry: resolve an active one, and nothing else.\<close>

definition escrow_moves :: "escrow \<Rightarrow> escrow \<Rightarrow> bool" where
  "escrow_moves e e' \<longleftrightarrow> esc_status e = EscrowActive \<and>
     (\<exists>h s. s \<in> {EscrowReleased, EscrowRefunded} \<and>
        e' = e\<lparr>esc_status := s, esc_resolved_at_height := Some h\<rparr>)"

lemma escrow_resolved_entry:
  assumes "get_escrow st i = Some e0" and "esc_status e0 = EscrowActive"
    and "s \<in> {EscrowReleased, EscrowRefunded}" and "get_escrow st k = Some e"
  shows "\<exists>e'. get_escrow (tbl_put i (e0\<lparr>esc_status := s, esc_resolved_at_height := Some h\<rparr>) st) k = Some e' \<and>
    (e' = e \<or> escrow_moves e e')"
proof (cases "k = i")
  case True
  then have "e = e0" using assms(1,4) by simp
  then have "escrow_moves e (e0\<lparr>esc_status := s, esc_resolved_at_height := Some h\<rparr>)"
    using assms(2,3) unfolding escrow_moves_def by blast
  with True show ?thesis by (simp add: get_escrow_def)
next
  case False
  with assms(4) show ?thesis by (simp add: get_escrow_def)
qed

lemma escrow_step_entry:
  assumes "escrow_step X st st'" and "get_escrow st k = Some e"
  shows "\<exists>e'. get_escrow st' k = Some e' \<and> (e' = e \<or> escrow_moves e e')"
  using assms(1)
proof cases
  case (step_create e0 r)
  then show ?thesis using assms(2)
    by (auto simp: create_escrow_def get_escrow_def split: if_splits)
next
  case (step_release now i pk sig ts h r)
  show ?thesis
  proof (cases r)
    case (Inl err)
    then show ?thesis using step_release assms(2) escrow_error_unchanged(1) by blast
  next
    case (Inr u)
    then obtain e0 where "get_escrow st i = Some e0" "esc_status e0 = EscrowActive"
      "st' = tbl_put i (e0\<lparr>esc_status := EscrowReleased, esc_resolved_at_height := Some h\<rparr>) st"
      using step_release by (auto simp: release_with_auth_Inr)
    then show ?thesis using escrow_resolved_entry[OF _ _ _ assms(2)] by simp
  qed
next
  case (step_refund now i pk sig ts h r)
  show ?thesis
  proof (cases r)
    case (Inl err)
    then show ?thesis using step_refund assms(2) escrow_error_unchanged(2) by blast
  next
    case (Inr u)
    then obtain e0 where "get_escrow st i = Some e0" "esc_status e0 = EscrowActive"
      "st' = tbl_put i (e0\<lparr>esc_status := EscrowRefunded, esc_resolved_at_height := Some h\<rparr>) st"
      using step_refund by (auto simp: refund_with_auth_Inr)
    then show ?thesis using escrow_resolved_entry[OF _ _ _ assms(2)] by simp
  qed
qed

interpretation escrow_machine: entry_machine "escrow_step X" get_escrow escrow_moves
  "\<lambda>e. esc_status e \<noteq> EscrowActive" for X
  by unfold_locales (auto simp: escrow_step_entry, auto simp: escrow_moves_def)

lemma escrow_moves_status:
  "escrow_moves\<^sup>*\<^sup>* e e' \<Longrightarrow> e' = e \<or> escrow_moves e e'"
proof (induction rule: rtranclp_induct)
  case (step f g)
  then show ?case by (auto simp: escrow_moves_def)
qed simp

end
