(* ===== verification/State_Channels.thy ===== *)
theory State_Channels
  imports Core_Types CJ_Machine
begin

text \<open>
  \<open>state/src/channels.rs\<close>: bidirectional payment channels. The clock is an argument. The
  operations form a state machine from \<open>ChannelOpen\<close> over a dispute to a closed status; sums of
  balances wrap around at \<open>2 ^ 128\<close>, as \<open>+\<close> on \<open>u128\<close> does.
\<close>

section \<open>State\<close>

datatype channel_status = ChannelOpen | ClosedCooperative | ClosedDispute | InDispute

record channel =
  chn_channel_id :: hash
  chn_participant_a :: address
  chn_participant_b :: address
  chn_deposit_a :: balance
  chn_deposit_b :: balance
  chn_balance_a :: balance
  chn_balance_b :: balance
  chn_sequence :: u64
  chn_dispute_timeout :: i64
  chn_status :: channel_status
  chn_opened_at_height :: u64
  chn_closed_at_height :: "u64 option"
  chn_dispute_started_at :: "i64 option"

type_synonym channel_state = "(hash, channel) table"

datatype channel_error =
    ChannelAlreadyExists
  | InitialBalancesMismatch
  | ChannelNotFound
  | ChannelNotOpen
  | InvalidSequence
  | BalancesMismatch
  | FinalBalancesMismatch
  | ChannelNotInDispute
  | DisputeNotExpired

definition capacity :: "channel \<Rightarrow> balance" where
  "capacity c = chn_deposit_a c + chn_deposit_b c"

definition is_balanced :: "channel \<Rightarrow> bool" where
  "is_balanced c \<longleftrightarrow> chn_balance_a c + chn_balance_b c = capacity c"

definition is_participant :: "channel \<Rightarrow> address \<Rightarrow> bool" where
  "is_participant c a \<longleftrightarrow> a = chn_participant_a c \<or> a = chn_participant_b c"

definition can_close_unilaterally :: "channel \<Rightarrow> bool" where
  "can_close_unilaterally c \<longleftrightarrow> chn_status c = ChannelOpen"

definition is_dispute_expired :: "i64 \<Rightarrow> channel \<Rightarrow> bool" where
  "is_dispute_expired now c = (case chn_dispute_started_at c of
     Some dispute_start \<Rightarrow> dispute_start + chn_dispute_timeout c \<le>s now | None \<Rightarrow> False)"

section \<open>Operations\<close>

definition get_channel :: "channel_state \<Rightarrow> hash \<Rightarrow> channel option" where
  "get_channel st channel_id = tbl_get st channel_id"

definition save_channel :: "channel \<Rightarrow> channel_state \<Rightarrow> channel_state" where
  "save_channel c st = tbl_put (chn_channel_id c) c st"

definition open_channel :: "channel \<Rightarrow> (channel_state, channel_error, unit) step" where
  "open_channel c st =
     (if get_channel st (chn_channel_id c) \<noteq> None then (Inl ChannelAlreadyExists, st)
      else if chn_balance_a c \<noteq> chn_deposit_a c \<or> chn_balance_b c \<noteq> chn_deposit_b c
        then (Inl InitialBalancesMismatch, st)
      else (Inr (), tbl_put (chn_channel_id c) c st))"

definition update_channel_state ::
  "hash \<Rightarrow> u64 \<Rightarrow> balance \<Rightarrow> balance \<Rightarrow> (channel_state, channel_error, unit) step" where
  "update_channel_state channel_id sequence balance_a balance_b st =
     (case get_channel st channel_id of None \<Rightarrow> (Inl ChannelNotFound, st)
      | Some c \<Rightarrow>
          if chn_status c \<noteq> ChannelOpen then (Inl ChannelNotOpen, st)
          else if sequence \<le> chn_sequence c then (Inl InvalidSequence, st)
          else if balance_a + balance_b \<noteq> capacity c then (Inl BalancesMismatch, st)
          else (Inr (), save_channel (c\<lparr>chn_sequence := sequence, chn_balance_a := balance_a,
                                         chn_balance_b := balance_b\<rparr>) st))"

definition close_cooperative ::
  "hash \<Rightarrow> balance \<Rightarrow> balance \<Rightarrow> u64 \<Rightarrow> (channel_state, channel_error, unit) step" where
  "close_cooperative channel_id final_a final_b block_height st =
     (case get_channel st channel_id of None \<Rightarrow> (Inl ChannelNotFound, st)
      | Some c \<Rightarrow>
          if chn_status c \<noteq> ChannelOpen then (Inl ChannelNotOpen, st)
          else if final_a + final_b \<noteq> capacity c then (Inl FinalBalancesMismatch, st)
          else (Inr (), save_channel (c\<lparr>chn_status := ClosedCooperative, chn_balance_a := final_a,
                 chn_balance_b := final_b, chn_closed_at_height := Some block_height\<rparr>) st))"

definition start_dispute ::
  "i64 \<Rightarrow> hash \<Rightarrow> u64 \<Rightarrow> balance \<Rightarrow> balance \<Rightarrow> (channel_state, channel_error, unit) step" where
  "start_dispute now channel_id sequence balance_a balance_b st =
     (case get_channel st channel_id of None \<Rightarrow> (Inl ChannelNotFound, st)
      | Some c \<Rightarrow>
          if chn_status c \<noteq> ChannelOpen then (Inl ChannelNotOpen, st)
          else if balance_a + balance_b \<noteq> capacity c then (Inl BalancesMismatch, st)
          else (Inr (), save_channel (c\<lparr>chn_status := InDispute, chn_sequence := sequence,
                 chn_balance_a := balance_a, chn_balance_b := balance_b,
                 chn_dispute_started_at := Some now\<rparr>) st))"

definition finalize_dispute :: "i64 \<Rightarrow> hash \<Rightarrow> u64 \<Rightarrow> (channel_state, channel_error, unit) step" where
  "finalize_dispute now channel_id block_height st =
     (case get_channel st channel_id of None \<Rightarrow> (Inl ChannelNotFound, st)
      | Some c \<Rightarrow>
          if chn_status c \<noteq> InDispute then (Inl ChannelNotInDispute, st)
          else if \<not> is_dispute_expired now c then (Inl DisputeNotExpired, st)
          else (Inr (), save_channel (c\<lparr>chn_status := ClosedDispute,
                 chn_closed_at_height := Some block_height\<rparr>) st))"

definition get_open_channels :: "channel_state \<Rightarrow> channel list" where
  "get_open_channels st = filter (\<lambda>c. chn_status c = ChannelOpen) (tbl_values st)"

definition get_channels_for_address :: "channel_state \<Rightarrow> address \<Rightarrow> channel list" where
  "get_channels_for_address st a = filter (\<lambda>c. is_participant c a) (tbl_values st)"

definition get_disputed_channels :: "channel_state \<Rightarrow> channel list" where
  "get_disputed_channels st = filter (\<lambda>c. chn_status c = InDispute) (tbl_values st)"

definition get_locked_in_channels :: "channel_state \<Rightarrow> address \<Rightarrow> balance" where
  "get_locked_in_channels st a = sum_list (map
     (\<lambda>c. if chn_participant_a c = a then chn_balance_a c
          else if chn_participant_b c = a then chn_balance_b c else 0) (get_open_channels st))"

section \<open>What an accepted operation did\<close>

lemma open_channel_Inr:
  "open_channel c st = (Inr (), st') \<longleftrightarrow> get_channel st (chn_channel_id c) = None \<and>
     chn_balance_a c = chn_deposit_a c \<and> chn_balance_b c = chn_deposit_b c \<and>
     st' = tbl_put (chn_channel_id c) c st"
  by (auto simp: open_channel_def)

lemma update_channel_state_Inr:
  "update_channel_state i n a b st = (Inr (), st') \<longleftrightarrow> (\<exists>c. get_channel st i = Some c \<and>
     chn_status c = ChannelOpen \<and> chn_sequence c < n \<and> a + b = capacity c \<and>
     st' = save_channel (c\<lparr>chn_sequence := n, chn_balance_a := a, chn_balance_b := b\<rparr>) st)"
  by (auto simp: update_channel_state_def not_le split: option.splits)

lemma close_cooperative_Inr:
  "close_cooperative i a b h st = (Inr (), st') \<longleftrightarrow> (\<exists>c. get_channel st i = Some c \<and>
     chn_status c = ChannelOpen \<and> a + b = capacity c \<and>
     st' = save_channel (c\<lparr>chn_status := ClosedCooperative, chn_balance_a := a, chn_balance_b := b,
       chn_closed_at_height := Some h\<rparr>) st)"
  by (auto simp: close_cooperative_def split: option.splits)

lemma start_dispute_Inr:
  "start_dispute now i n a b st = (Inr (), st') \<longleftrightarrow> (\<exists>c. get_channel st i = Some c \<and>
     chn_status c = ChannelOpen \<and> a + b = capacity c \<and>
     st' = save_channel (c\<lparr>chn_status := InDispute, chn_sequence := n, chn_balance_a := a,
       chn_balance_b := b, chn_dispute_started_at := Some now\<rparr>) st)"
  by (auto simp: start_dispute_def split: option.splits)

lemma finalize_dispute_Inr:
  "finalize_dispute now i h st = (Inr (), st') \<longleftrightarrow> (\<exists>c. get_channel st i = Some c \<and>
     chn_status c = InDispute \<and> is_dispute_expired now c \<and>
     st' = save_channel (c\<lparr>chn_status := ClosedDispute, chn_closed_at_height := Some h\<rparr>) st)"
  by (auto simp: finalize_dispute_def split: option.splits)

lemma channel_error_unchanged:
  "open_channel c st = (Inl e, st') \<Longrightarrow> st' = st"
  "update_channel_state i n a b st = (Inl e, st') \<Longrightarrow> st' = st"
  "close_cooperative i a b h st = (Inl e, st') \<Longrightarrow> st' = st"
  "start_dispute now i n a b st = (Inl e, st') \<Longrightarrow> st' = st"
  "finalize_dispute now i h st = (Inl e, st') \<Longrightarrow> st' = st"
  by (simp_all add: open_channel_def update_channel_state_def close_cooperative_def
      start_dispute_def finalize_dispute_def split: option.splits if_splits)

section \<open>The channel machine\<close>

definition channel_ok :: "channel_state \<Rightarrow> bool" where
  "channel_ok st \<longleftrightarrow> tbl_ok st \<and> (\<forall>k c. tbl_get st k = Some c \<longrightarrow> chn_channel_id c = k)"

datatype channel_op =
    OpOpen channel
  | OpUpdate hash u64 balance balance
  | OpClose hash balance balance u64
  | OpDispute i64 hash u64 balance balance
  | OpFinalize i64 hash u64

fun channel_apply :: "channel_op \<Rightarrow> (channel_state, channel_error, unit) step" where
  "channel_apply (OpOpen c) = open_channel c"
| "channel_apply (OpUpdate i n a b) = update_channel_state i n a b"
| "channel_apply (OpClose i a b h) = close_cooperative i a b h"
| "channel_apply (OpDispute now i n a b) = start_dispute now i n a b"
| "channel_apply (OpFinalize now i h) = finalize_dispute now i h"

definition channel_step :: "channel_state \<Rightarrow> channel_state \<Rightarrow> bool" where
  "channel_step st st' \<longleftrightarrow> channel_ok st \<and> (\<exists>op. snd (channel_apply op st) = st')"

text \<open>The moves of one channel; what the parties agreed on opening never changes.\<close>

definition same_terms :: "channel \<Rightarrow> channel \<Rightarrow> bool" where
  "same_terms c d \<longleftrightarrow> chn_channel_id d = chn_channel_id c \<and>
     chn_participant_a d = chn_participant_a c \<and> chn_participant_b d = chn_participant_b c \<and>
     chn_deposit_a d = chn_deposit_a c \<and> chn_deposit_b d = chn_deposit_b c \<and>
     chn_dispute_timeout d = chn_dispute_timeout c \<and> chn_opened_at_height d = chn_opened_at_height c"

definition channel_moves :: "channel \<Rightarrow> channel \<Rightarrow> bool" where
  "channel_moves c d \<longleftrightarrow> same_terms c d \<and> (is_balanced c \<longrightarrow> is_balanced d) \<and>
     (case chn_status c of
        ChannelOpen \<Rightarrow> (chn_status d = ChannelOpen \<and> chn_sequence c < chn_sequence d) \<or>
                chn_status d = ClosedCooperative \<or> chn_status d = InDispute
      | InDispute \<Rightarrow> chn_status d = ClosedDispute \<and> chn_balance_a d = chn_balance_a c \<and>
                chn_balance_b d = chn_balance_b c \<and> chn_sequence d = chn_sequence c
      | _ \<Rightarrow> False)"

lemma save_channel_moves:
  assumes ok: "channel_ok st" and i: "get_channel st i = Some c" and same: "same_terms c d"
    and mv: "channel_moves c d" and k: "get_channel st k = Some e"
  shows "\<exists>e'. get_channel (save_channel d st) k = Some e' \<and> (e' = e \<or> channel_moves e e')"
proof -
  have "chn_channel_id d = i" using ok i same by (simp add: channel_ok_def get_channel_def same_terms_def)
  with i mv k show ?thesis
    by (cases "k = i") (auto simp: save_channel_def get_channel_def)
qed

lemma channel_apply_Inr:
  assumes "channel_apply op st = (Inr (), st')"
  shows "(\<exists>c. op = OpOpen c \<and> open_channel c st = (Inr (), st')) \<or>
    (\<exists>i c d. get_channel st i = Some c \<and> channel_moves c d \<and> st' = save_channel d st)"
proof (cases op)
  case (OpOpen c)
  with assms show ?thesis by simp
next
  case (OpUpdate i n a b)
  then obtain c where "get_channel st i = Some c" "chn_status c = ChannelOpen" "chn_sequence c < n"
    "a + b = capacity c" "st' = save_channel (c\<lparr>chn_sequence := n, chn_balance_a := a, chn_balance_b := b\<rparr>) st"
    using assms by (auto simp: update_channel_state_Inr)
  moreover from this
  have "channel_moves c (c\<lparr>chn_sequence := n, chn_balance_a := a, chn_balance_b := b\<rparr>)"
    by (simp add: channel_moves_def same_terms_def is_balanced_def capacity_def)
  ultimately show ?thesis by blast
next
  case (OpClose i a b h)
  let ?d = "\<lambda>c. c\<lparr>chn_status := ClosedCooperative, chn_balance_a := a, chn_balance_b := b,
    chn_closed_at_height := Some h\<rparr>"
  from OpClose obtain c where "get_channel st i = Some c" "chn_status c = ChannelOpen"
    "a + b = capacity c" "st' = save_channel (?d c) st"
    using assms by (auto simp: close_cooperative_Inr)
  moreover from this have "channel_moves c (?d c)"
    by (simp add: channel_moves_def same_terms_def is_balanced_def capacity_def)
  ultimately show ?thesis by blast
next
  case (OpDispute now i n a b)
  let ?d = "\<lambda>c. c\<lparr>chn_status := InDispute, chn_sequence := n, chn_balance_a := a, chn_balance_b := b,
    chn_dispute_started_at := Some now\<rparr>"
  from OpDispute obtain c where "get_channel st i = Some c" "chn_status c = ChannelOpen"
    "a + b = capacity c" "st' = save_channel (?d c) st"
    using assms by (auto simp: start_dispute_Inr)
  moreover from this have "channel_moves c (?d c)"
    by (simp add: channel_moves_def same_terms_def is_balanced_def capacity_def)
  ultimately show ?thesis by blast
next
  case (OpFinalize now i h)
  let ?d = "\<lambda>c. c\<lparr>chn_status := ClosedDispute, chn_closed_at_height := Some h\<rparr>"
  from OpFinalize obtain c where "get_channel st i = Some c" "chn_status c = InDispute"
    "st' = save_channel (?d c) st"
    using assms by (auto simp: finalize_dispute_Inr)
  moreover from this have "channel_moves c (?d c)"
    by (simp add: channel_moves_def same_terms_def is_balanced_def capacity_def)
  ultimately show ?thesis by blast
qed

lemma channel_apply_Inl: "channel_apply op st = (Inl e, st') \<Longrightarrow> st' = st"
  by (cases op) (auto dest: channel_error_unchanged)

lemma channel_step_entry:
  assumes "channel_step st st'" and k: "get_channel st k = Some e"
  shows "\<exists>e'. get_channel st' k = Some e' \<and> (e' = e \<or> channel_moves e e')"
proof -
  obtain op where ok: "channel_ok st" and op: "snd (channel_apply op st) = st'"
    using assms(1) by (auto simp: channel_step_def)
  obtain r where r: "channel_apply op st = (r, st')" using op by (metis prod.collapse)
  show ?thesis
  proof (cases r)
    case (Inl err)
    with r k show ?thesis using channel_apply_Inl by blast
  next
    case (Inr u)
    then have "channel_apply op st = (Inr (), st')" using r by simp
    from channel_apply_Inr[OF this] show ?thesis
    proof (elim disjE exE conjE)
      fix c assume "open_channel c st = (Inr (), st')"
      then show ?thesis using k by (auto simp: open_channel_Inr get_channel_def)
    next
      fix i c d assume "get_channel st i = Some c" "channel_moves c d" "st' = save_channel d st"
      then show ?thesis using save_channel_moves[OF ok _ _ _ k] by (auto simp: channel_moves_def)
    qed
  qed
qed

definition channel_closed :: "channel \<Rightarrow> bool" where
  "channel_closed c \<longleftrightarrow> chn_status c = ClosedCooperative \<or> chn_status c = ClosedDispute"

interpretation channel_machine: entry_machine channel_step get_channel channel_moves channel_closed
  by unfold_locales (simp_all add: channel_step_entry, auto simp: channel_moves_def channel_closed_def)

text \<open>Well-formedness: the store is keyed by channel id and every channel holds its capacity.\<close>

definition channels_wf :: "channel_state \<Rightarrow> bool" where
  "channels_wf st \<longleftrightarrow> channel_ok st \<and> (\<forall>k c. get_channel st k = Some c \<longrightarrow> is_balanced c)"

lemma channel_apply_wf:
  assumes "channels_wf st" and "channel_apply op st = (r, st')"
  shows "channels_wf st'"
proof (cases r)
  case (Inl err)
  with assms channel_apply_Inl show ?thesis by blast
next
  case (Inr u)
  then have "channel_apply op st = (Inr (), st')" using assms(2) by simp
  from channel_apply_Inr[OF this] show ?thesis
  proof (elim disjE exE conjE)
    fix c assume "open_channel c st = (Inr (), st')"
    with assms(1) show ?thesis
      by (auto simp: channels_wf_def channel_ok_def open_channel_Inr get_channel_def is_balanced_def
          capacity_def tbl_ok_put)
  next
    fix i c d assume i: "get_channel st i = Some c" and m: "channel_moves c d" and st': "st' = save_channel d st"
    have "is_balanced d" and "chn_channel_id d = i"
      using assms(1) i m by (auto simp: channels_wf_def channel_moves_def same_terms_def channel_ok_def get_channel_def)
    with assms(1) show ?thesis
      unfolding st' by (auto simp: channels_wf_def channel_ok_def save_channel_def get_channel_def tbl_ok_put)
  qed
qed

end
