(* ===== verification/Core_Dimensional.thy ===== *)
theory Core_Dimensional
  imports CJ_Float64
begin

text \<open>
  \<open>core/src/dimensional.rs\<close>: the exponential scales of the eight dimensional pools, the
  consensus state they are read at, the oracle metric and the allocation of a supply. The
  exponential, the square root and the integer power are parameters (\<open>float_ext\<close>).
\<close>

section \<open>Constants\<close>

definition ETA :: f64 where
  "ETA = f_of_rat (707106781186547524400844362104849039 / 10 ^ 36)"

definition LAMBDA :: f64 where
  "LAMBDA = ETA"

definition TAU_POINTS :: "f64 list" where
  "TAU_POINTS = map f_of_rat [0, 20 / 100, 41 / 100, 68 / 100, 98 / 100, 136 / 100, 196 / 100, 272 / 100]"

section \<open>Scales\<close>

record dimensional_scales =
  d1 :: f64
  d2 :: f64
  d3 :: f64
  d4 :: f64
  d5 :: f64
  d6 :: f64
  d7 :: f64
  d8 :: f64

definition scale_at_tau :: "float_ext \<Rightarrow> f64 \<Rightarrow> f64" where
  "scale_at_tau F tau = fm_exp F (f_mul (f_neg ETA) tau)"

definition scales_calculate :: "float_ext \<Rightarrow> dimensional_scales" where
  "scales_calculate F =
     \<lparr>d1 = scale_at_tau F (TAU_POINTS ! 0), d2 = scale_at_tau F (TAU_POINTS ! 1),
      d3 = scale_at_tau F (TAU_POINTS ! 2), d4 = scale_at_tau F (TAU_POINTS ! 3),
      d5 = scale_at_tau F (TAU_POINTS ! 4), d6 = scale_at_tau F (TAU_POINTS ! 5),
      d7 = scale_at_tau F (TAU_POINTS ! 6), d8 = scale_at_tau F (TAU_POINTS ! 7)\<rparr>"

definition scales_list :: "dimensional_scales \<Rightarrow> f64 list" where
  "scales_list s = [d1 s, d2 s, d3 s, d4 s, d5 s, d6 s, d7 s, d8 s]"

definition scales_get :: "dimensional_scales \<Rightarrow> nat \<Rightarrow> f64 option" where
  "scales_get s dimension = (if dimension < 8 then Some (scales_list s ! dimension) else None)"

definition scales_map :: "(f64 \<Rightarrow> f64) \<Rightarrow> dimensional_scales \<Rightarrow> dimensional_scales" where
  "scales_map f s = \<lparr>d1 = f (d1 s), d2 = f (d2 s), d3 = f (d3 s), d4 = f (d4 s),
                     d5 = f (d5 s), d6 = f (d6 s), d7 = f (d7 s), d8 = f (d8 s)\<rparr>"

text \<open>A sum written \<open>a + b + c\<close> in the source associates to the left.\<close>

fun f_sum :: "f64 list \<Rightarrow> f64" where
  "f_sum [] = f_zero"
| "f_sum (x # xs) = foldl f_add x xs"

definition scales_normalized :: "float_ext \<Rightarrow> dimensional_scales \<Rightarrow> dimensional_scales" where
  "scales_normalized F s =
     (let sum_squares = f_sum (map (\<lambda>x. fm_powi F x 2) (scales_list s));
          norm = fm_sqrt F sum_squares
      in scales_map (\<lambda>x. f_div x norm) s)"

definition allocation_ratios :: "float_ext \<Rightarrow> dimensional_scales \<Rightarrow> f64 list" where
  "allocation_ratios F s =
     (let normalized = scales_normalized F s; total = f_sum (scales_list normalized)
      in map (\<lambda>x. f_div x total) (scales_list normalized))"

section \<open>Consensus state\<close>

record consensus_state =
  cs_tau :: f64
  cs_magnitude :: f64
  cs_phase :: f64

definition consensus_at_tau :: "float_ext \<Rightarrow> f64 \<Rightarrow> consensus_state" where
  "consensus_at_tau F tau =
     \<lparr>cs_tau = tau, cs_magnitude = fm_exp F (f_mul (f_neg ETA) tau), cs_phase = f_mul LAMBDA tau\<rparr>"

definition consensus_scales :: "float_ext \<Rightarrow> consensus_state \<Rightarrow> dimensional_scales" where
  "consensus_scales F c = scales_map (\<lambda>x. f_mul (cs_magnitude c) x) (scales_calculate F)"

definition unlock_fraction :: "float_ext \<Rightarrow> consensus_state \<Rightarrow> nat \<Rightarrow> f64" where
  "unlock_fraction F c dimension =
     (if length TAU_POINTS \<le> dimension then f_zero
      else let tau_n = TAU_POINTS ! dimension in
        if f_lt (cs_tau c) tau_n then f_zero
        else f_sub f_one (fm_exp F (f_mul (f_neg ETA) (f_sub (cs_tau c) tau_n))))"

definition yield_rate :: "float_ext \<Rightarrow> consensus_state \<Rightarrow> nat \<Rightarrow> f64" where
  "yield_rate F c dimension =
     (if length TAU_POINTS \<le> dimension then f_zero
      else f_mul ETA (fm_exp F (f_mul (f_neg ETA) (TAU_POINTS ! dimension))))"

section \<open>Oracle\<close>

record viviani_oracle =
  vo_d1 :: f64
  vo_d2 :: f64
  vo_d3 :: f64
  vo_delta :: f64

definition oracle_calculate :: "f64 \<Rightarrow> f64 \<Rightarrow> viviani_oracle" where
  "oracle_calculate eta lam =
     (let ALTITUDE = f_of_rat (866025403784439 / 10 ^ 15);
          SQRT_3 = f_of_rat (1732050807568877 / 10 ^ 15);
          a = f_abs lam;
          b = f_div (f_abs (f_sub (f_mul SQRT_3 eta) lam)) (f_of_nat 2);
          c = f_div (f_abs (f_sub (f_add (f_mul SQRT_3 eta) lam) SQRT_3)) (f_of_nat 2);
          total = f_add (f_add a b) c
      in \<lparr>vo_d1 = a, vo_d2 = b, vo_d3 = c, vo_delta = f_sub (f_div total ALTITUDE) f_one\<rparr>)"

datatype performance_regime = Idle | Cruise | Performance | Redline

definition oracle_regime :: "viviani_oracle \<Rightarrow> performance_regime" where
  "oracle_regime v =
     (if f_lt (vo_delta v) (f_of_rat (1 / 10)) then Idle
      else if f_lt (vo_delta v) (f_of_rat (2 / 10)) then Cruise
      else if f_lt (vo_delta v) (f_of_rat (3 / 10)) then Performance
      else Redline)"

section \<open>Economics\<close>

record dimensional_economics =
  de_consensus :: consensus_state
  de_scales :: dimensional_scales
  de_oracle :: viviani_oracle

definition economics_at_tau :: "float_ext \<Rightarrow> f64 \<Rightarrow> dimensional_economics" where
  "economics_at_tau F tau =
     (let consensus = consensus_at_tau F tau
      in \<lparr>de_consensus = consensus, de_scales = consensus_scales F consensus,
          de_oracle = oracle_calculate ETA LAMBDA\<rparr>)"

text \<open>The seven truncated shares and the remainder.\<close>

definition supply_shares :: "float_ext \<Rightarrow> dimensional_economics \<Rightarrow> u128 \<Rightarrow> u128 list" where
  "supply_shares F e total_supply =
     map (\<lambda>r. f_to_word (f_mul (f_of_word total_supply) r)) (take 7 (allocation_ratios F (de_scales e)))"

definition allocate_supply :: "float_ext \<Rightarrow> dimensional_economics \<Rightarrow> u128 \<Rightarrow> u128 list" where
  "allocate_supply F e total_supply =
     (let shares = supply_shares F e total_supply
      in shares @ [saturating_sub_word total_supply (sum_list shares)])"

section \<open>Lemmas\<close>

lemma length_allocation_ratios [simp]: "length (allocation_ratios F s) = 8"
  by (simp add: allocation_ratios_def scales_list_def Let_def)

lemma length_allocate_supply [simp]: "length (allocate_supply F e t) = 8"
  by (simp add: allocate_supply_def supply_shares_def Let_def)

text \<open>The allocation is exact when the truncated shares do not exceed the supply, and only then
  (the shares are added with wrap-around).\<close>

lemma allocate_supply_sum:
  "sum_list (allocate_supply F e t) = t \<longleftrightarrow> sum_list (supply_shares F e t) \<le> t"
proof -
  let ?s = "sum_list (supply_shares F e t)"
  have "sum_list (allocate_supply F e t) = ?s + saturating_sub_word t ?s"
    by (simp add: allocate_supply_def Let_def)
  then show ?thesis by (auto simp: saturating_sub_word_def not_le)
qed

lemma unlock_fraction_before:
  "f_lt (cs_tau c) (TAU_POINTS ! n) \<Longrightarrow> unlock_fraction F c n = f_zero"
  by (simp add: unlock_fraction_def Let_def)

end
