(* ===== verification/State_Trustlines.thy ===== *)
theory State_Trustlines
  imports Core_Dimensional Core_Types CJ_Machine
begin

text \<open>
  \<open>state/src/trustlines.rs\<close>: bilateral credit lines whose limits are scaled by an
  exponential factor. \<open>balance\<close> is an \<open>i128\<close>: positive when B owes A. The float functions
  are the parameter \<open>F\<close>.
\<close>

section \<open>State\<close>

definition TRUSTLINE_TAUS :: "f64 list" where
  "TRUSTLINE_TAUS = map f_of_rat [1, 2, 3, 3819660 / 1000000, 6, 7639320 / 1000000, 12, 16309842 / 1000000]"

definition PI :: f64 where
  "PI = f_of_rat (314159265358979323846264338327950288 / 10 ^ 35)"

datatype trustline_status = TrustActive | TrustFrozen | TrustClosed

record trustline =
  tru_trustline_id :: hash
  tru_account_a :: address
  tru_account_b :: address
  tru_limit_ab :: balance
  tru_limit_ba :: balance
  tru_balance :: i128
  tru_quality_in :: u16
  tru_quality_out :: u16
  tru_ripple_enabled :: bool
  tru_dimensional_scale :: u8
  tru_tau :: f64
  tru_viviani_delta :: f64
  tru_status :: trustline_status
  tru_created_at_height :: u64
  tru_modified_at_height :: u64

type_synonym trustline_state = "(hash, trustline) table"

datatype trustline_error =
    TrustLineAlreadyExists
  | InvalidDimensionalScale
  | InvalidQuality
  | TrustLineNotFound
  | TrustLineNotActive
  | BalanceExceedsLimits
  | BalanceExceedsNewLimits
  | NonZeroBalance

section \<open>One line\<close>

definition dimensional_factor :: "float_ext \<Rightarrow> trustline \<Rightarrow> f64" where
  "dimensional_factor F t =
     (if tru_dimensional_scale t < 1 \<or> 8 < tru_dimensional_scale t then f_one
      else fm_exp F (f_mul (f_neg ETA) (TRUSTLINE_TAUS ! (unat (tru_dimensional_scale t) - 1))))"

definition phase_evolution :: "trustline \<Rightarrow> f64" where
  "phase_evolution t = f_mul LAMBDA (tru_tau t)"

definition effective_limit_a_to_b :: "float_ext \<Rightarrow> trustline \<Rightarrow> balance" where
  "effective_limit_a_to_b F t = f_to_word (f_mul (f_of_word (tru_limit_ab t)) (dimensional_factor F t))"

definition effective_limit_b_to_a :: "float_ext \<Rightarrow> trustline \<Rightarrow> balance" where
  "effective_limit_b_to_a F t = f_to_word (f_mul (f_of_word (tru_limit_ba t)) (dimensional_factor F t))"

definition available_credit_a :: "float_ext \<Rightarrow> trustline \<Rightarrow> balance" where
  "available_credit_a F t =
     (let used = (if 0 < sint (tru_balance t) then tru_balance t else 0)
      in saturating_sub_word (effective_limit_a_to_b F t) used)"

definition available_credit_b :: "float_ext \<Rightarrow> trustline \<Rightarrow> balance" where
  "available_credit_b F t =
     (let used = (if sint (tru_balance t) < 0 then - tru_balance t else 0)
      in saturating_sub_word (effective_limit_b_to_a F t) used)"

text \<open>\<open>i128::max(0)\<close>.\<close>

definition max0 :: "i128 \<Rightarrow> i128" where
  "max0 x = (if sint x < 0 then 0 else x)"

definition update_viviani_oracle :: "float_ext \<Rightarrow> trustline \<Rightarrow> trustline" where
  "update_viviani_oracle F t =
     (let effective_a = f_of_word (effective_limit_a_to_b F t);
          effective_b = f_of_word (effective_limit_b_to_a F t);
          utilization_a = (if f_lt f_zero effective_a
             then f_div (f_of_sword (max0 (tru_balance t))) effective_a else f_zero);
          utilization_b = (if f_lt f_zero effective_b
             then f_div (f_of_sword (max0 (- tru_balance t))) effective_b else f_zero);
          phase_normalized = f_div (phase_evolution t) PI;
          sum_distances = f_add (f_add utilization_a utilization_b) phase_normalized;
          viviani_altitude = f_div (fm_sqrt F (f_of_nat 3)) (f_of_nat 2)
      in t\<lparr>tru_viviani_delta := f_sub (f_div sum_distances viviani_altitude) f_one\<rparr>)"

definition trust_is_balanced :: "float_ext \<Rightarrow> trustline \<Rightarrow> bool" where
  "trust_is_balanced F t =
     (if 0 < sint (tru_balance t) then tru_balance t \<le> effective_limit_a_to_b F t
      else - tru_balance t \<le> effective_limit_b_to_a F t)"

definition trust_is_participant :: "trustline \<Rightarrow> address \<Rightarrow> bool" where
  "trust_is_participant t a \<longleftrightarrow> a = tru_account_a t \<or> a = tru_account_b t"

definition evolve_phase :: "float_ext \<Rightarrow> f64 \<Rightarrow> trustline \<Rightarrow> trustline" where
  "evolve_phase F delta_tau t = update_viviani_oracle F (t\<lparr>tru_tau := f_add (tru_tau t) delta_tau\<rparr>)"

section \<open>Operations\<close>

definition get_trustline :: "trustline_state \<Rightarrow> hash \<Rightarrow> trustline option" where
  "get_trustline st trustline_id = tbl_get st trustline_id"

definition save_trustline :: "trustline \<Rightarrow> trustline_state \<Rightarrow> trustline_state" where
  "save_trustline t st = tbl_put (tru_trustline_id t) t st"

definition create_trustline :: "trustline \<Rightarrow> (trustline_state, trustline_error, unit) step" where
  "create_trustline t st =
     (if get_trustline st (tru_trustline_id t) \<noteq> None then (Inl TrustLineAlreadyExists, st)
      else if tru_dimensional_scale t < 1 \<or> 8 < tru_dimensional_scale t
        then (Inl InvalidDimensionalScale, st)
      else if 10000 < tru_quality_in t \<or> 10000 < tru_quality_out t then (Inl InvalidQuality, st)
      else (Inr (), save_trustline t st))"

definition trust_update_balance ::
  "float_ext \<Rightarrow> hash \<Rightarrow> i128 \<Rightarrow> u64 \<Rightarrow> (trustline_state, trustline_error, unit) step" where
  "trust_update_balance F trustline_id new_balance block_height st =
     (case get_trustline st trustline_id of None \<Rightarrow> (Inl TrustLineNotFound, st)
      | Some t \<Rightarrow>
          if tru_status t \<noteq> TrustActive then (Inl TrustLineNotActive, st)
          else let t' = t\<lparr>tru_balance := new_balance, tru_modified_at_height := block_height\<rparr> in
            if \<not> trust_is_balanced F t' then (Inl BalanceExceedsLimits, st)
            else (Inr (), save_trustline (update_viviani_oracle F t') st))"

definition evolve_trustline_phase ::
  "float_ext \<Rightarrow> hash \<Rightarrow> f64 \<Rightarrow> u64 \<Rightarrow> (trustline_state, trustline_error, unit) step" where
  "evolve_trustline_phase F trustline_id delta_tau block_height st =
     (case get_trustline st trustline_id of None \<Rightarrow> (Inl TrustLineNotFound, st)
      | Some t \<Rightarrow> (Inr (), save_trustline
          ((evolve_phase F delta_tau t)\<lparr>tru_modified_at_height := block_height\<rparr>) st))"

definition update_limits ::
  "float_ext \<Rightarrow> hash \<Rightarrow> balance option \<Rightarrow> balance option \<Rightarrow> u64 \<Rightarrow> (trustline_state, trustline_error, unit) step" where
  "update_limits F trustline_id limit_ab limit_ba block_height st =
     (case get_trustline st trustline_id of None \<Rightarrow> (Inl TrustLineNotFound, st)
      | Some t \<Rightarrow>
          if tru_status t \<noteq> TrustActive then (Inl TrustLineNotActive, st)
          else let t' = t\<lparr>tru_limit_ab := unwrap_or limit_ab (tru_limit_ab t),
                          tru_limit_ba := unwrap_or limit_ba (tru_limit_ba t),
                          tru_modified_at_height := block_height\<rparr> in
            if \<not> trust_is_balanced F t' then (Inl BalanceExceedsNewLimits, st)
            else (Inr (), save_trustline (update_viviani_oracle F t') st))"

definition freeze_trustline :: "hash \<Rightarrow> u64 \<Rightarrow> (trustline_state, trustline_error, unit) step" where
  "freeze_trustline trustline_id block_height st =
     (case get_trustline st trustline_id of None \<Rightarrow> (Inl TrustLineNotFound, st)
      | Some t \<Rightarrow> (Inr (), save_trustline
          (t\<lparr>tru_status := TrustFrozen, tru_modified_at_height := block_height\<rparr>) st))"

definition close_trustline :: "hash \<Rightarrow> u64 \<Rightarrow> (trustline_state, trustline_error, unit) step" where
  "close_trustline trustline_id block_height st =
     (case get_trustline st trustline_id of None \<Rightarrow> (Inl TrustLineNotFound, st)
      | Some t \<Rightarrow>
          if tru_balance t \<noteq> 0 then (Inl NonZeroBalance, st)
          else (Inr (), save_trustline
            (t\<lparr>tru_status := TrustClosed, tru_modified_at_height := block_height\<rparr>) st))"

definition get_trustlines_for_address :: "trustline_state \<Rightarrow> address \<Rightarrow> trustline list" where
  "get_trustlines_for_address st a =
     filter (\<lambda>t. trust_is_participant t a \<and> tru_status t = TrustActive) (tbl_values st)"

definition get_trustline_between :: "trustline_state \<Rightarrow> address \<Rightarrow> address \<Rightarrow> trustline option" where
  "get_trustline_between st a b =
     List.find (\<lambda>t. (tru_account_a t = a \<and> tru_account_b t = b) \<or>
                    (tru_account_a t = b \<and> tru_account_b t = a)) (tbl_values st)"

definition get_trustlines_by_dimension :: "trustline_state \<Rightarrow> u8 \<Rightarrow> trustline list" where
  "get_trustlines_by_dimension st dimension =
     filter (\<lambda>t. tru_dimensional_scale t = dimension \<and> tru_status t = TrustActive) (tbl_values st)"

definition calculate_network_viviani :: "trustline_state \<Rightarrow> f64" where
  "calculate_network_viviani st =
     (let active = filter (\<lambda>t. tru_status t = TrustActive) (tbl_values st);
          total_delta = foldl f_add f_zero (map tru_viviani_delta active)
      in if 0 < length active then f_div total_delta (f_of_nat (length active)) else f_zero)"

section \<open>Lemmas\<close>

definition trust_ok :: "trustline_state \<Rightarrow> bool" where
  "trust_ok st \<longleftrightarrow> tbl_ok st \<and> (\<forall>k t. tbl_get st k = Some t \<longrightarrow> tru_trustline_id t = k)"

text \<open>The credit still available and the credit used: the balance never exceeds the
  effective limit of the side that owes.\<close>

lemma unat_neg_balance:
  "sint (b :: i128) \<le> 0 \<Longrightarrow> unat (- b) = nat (- sint b)"
proof (cases "b = 0")
  case False
  assume "sint b \<le> 0"
  moreover have "sint b \<noteq> 0" using False by (metis signed_0 signed_word_eqI)
  ultimately have neg: "sint b < 0" by linarith
  then have "unat (abs_word b) = nat \<bar>sint b\<bar>" by (rule_tac unat_abs_word)
  with neg show ?thesis by (simp add: abs_word_def)
qed simp

lemma trust_is_balanced_iff:
  "trust_is_balanced F t \<longleftrightarrow>
     - int (unat (effective_limit_b_to_a F t)) \<le> sint (tru_balance t) \<and>
     sint (tru_balance t) \<le> int (unat (effective_limit_a_to_b F t))"
proof (cases "0 < sint (tru_balance t)")
  case True
  then have u: "int (unat (tru_balance t)) = sint (tru_balance t)"
    using sint_uint_nonneg[of "tru_balance t"] by simp
  have "tru_balance t \<le> effective_limit_a_to_b F t \<longleftrightarrow>
      sint (tru_balance t) \<le> int (unat (effective_limit_a_to_b F t))"
    unfolding word_le_nat_alt u[symmetric] of_nat_le_iff ..
  moreover have "- int (unat (effective_limit_b_to_a F t)) \<le> sint (tru_balance t)" using True by linarith
  ultimately show ?thesis using True by (simp only: trust_is_balanced_def if_True simp_thms)
next
  case False
  then have u: "int (unat (- tru_balance t)) = - sint (tru_balance t)"
    by (subst unat_neg_balance) simp_all
  have "- tru_balance t \<le> effective_limit_b_to_a F t \<longleftrightarrow>
      - sint (tru_balance t) \<le> int (unat (effective_limit_b_to_a F t))"
    unfolding word_le_nat_alt u[symmetric] of_nat_le_iff ..
  moreover have "sint (tru_balance t) \<le> int (unat (effective_limit_a_to_b F t))" using False by linarith
  ultimately show ?thesis using False
    by (simp only: trust_is_balanced_def if_False minus_le_iff simp_thms)
qed

lemma update_viviani_oracle_fields [simp]:
  "tru_trustline_id (update_viviani_oracle F t) = tru_trustline_id t"
  "tru_balance (update_viviani_oracle F t) = tru_balance t"
  "tru_status (update_viviani_oracle F t) = tru_status t"
  "tru_limit_ab (update_viviani_oracle F t) = tru_limit_ab t"
  "tru_limit_ba (update_viviani_oracle F t) = tru_limit_ba t"
  "tru_dimensional_scale (update_viviani_oracle F t) = tru_dimensional_scale t"
  "tru_account_a (update_viviani_oracle F t) = tru_account_a t"
  "tru_account_b (update_viviani_oracle F t) = tru_account_b t"
  by (simp_all add: update_viviani_oracle_def Let_def)

lemma effective_limits_cong:
  assumes "tru_limit_ab t = tru_limit_ab u" and "tru_limit_ba t = tru_limit_ba u"
    and "tru_dimensional_scale t = tru_dimensional_scale u"
  shows "effective_limit_a_to_b F t = effective_limit_a_to_b F u"
    and "effective_limit_b_to_a F t = effective_limit_b_to_a F u"
  using assms by (simp_all add: effective_limit_a_to_b_def effective_limit_b_to_a_def dimensional_factor_def)

lemma trust_is_balanced_cong:
  assumes "tru_limit_ab t = tru_limit_ab u" and "tru_limit_ba t = tru_limit_ba u"
    and "tru_dimensional_scale t = tru_dimensional_scale u" and "tru_balance t = tru_balance u"
  shows "trust_is_balanced F t = trust_is_balanced F u"
  using effective_limits_cong[OF assms(1-3)] assms(4) by (simp add: trust_is_balanced_def)

section \<open>The trust line machine\<close>

datatype trust_op =
    OpCreate trustline
  | OpBalance hash i128 u64
  | OpEvolve hash f64 u64
  | OpLimits hash "balance option" "balance option" u64
  | OpFreeze hash u64
  | OpCloseLine hash u64

fun trust_apply :: "float_ext \<Rightarrow> trust_op \<Rightarrow> (trustline_state, trustline_error, unit) step" where
  "trust_apply F (OpCreate t) = create_trustline t"
| "trust_apply F (OpBalance i b h) = trust_update_balance F i b h"
| "trust_apply F (OpEvolve i d h) = evolve_trustline_phase F i d h"
| "trust_apply F (OpLimits i l m h) = update_limits F i l m h"
| "trust_apply F (OpFreeze i h) = freeze_trustline i h"
| "trust_apply F (OpCloseLine i h) = close_trustline i h"

definition trust_step :: "float_ext \<Rightarrow> trustline_state \<Rightarrow> trustline_state \<Rightarrow> bool" where
  "trust_step F st st' \<longleftrightarrow> trust_ok st \<and> (\<exists>op. snd (trust_apply F op st) = st')"

text \<open>The moves of one line: an inactive line stays inactive, its parties never change and a line
  within its limits stays within its limits.\<close>

definition trust_moves :: "float_ext \<Rightarrow> trustline \<Rightarrow> trustline \<Rightarrow> bool" where
  "trust_moves F t u \<longleftrightarrow> tru_trustline_id u = tru_trustline_id t \<and>
     tru_account_a u = tru_account_a t \<and> tru_account_b u = tru_account_b t \<and>
     (tru_status t \<noteq> TrustActive \<longrightarrow> tru_status u \<noteq> TrustActive \<and> tru_balance u = tru_balance t \<and>
        tru_limit_ab u = tru_limit_ab t \<and> tru_limit_ba u = tru_limit_ba t) \<and>
     (trust_is_balanced F t \<longrightarrow> trust_is_balanced F u)"

lemma trust_apply_moves:
  assumes "trust_apply F op st = (r, st')"
  shows "st' = st \<or> (\<exists>t. op = OpCreate t \<and> get_trustline st (tru_trustline_id t) = None \<and> st' = save_trustline t st) \<or>
    (\<exists>i t u. get_trustline st i = Some t \<and> trust_moves F t u \<and> st' = save_trustline u st)"
proof (cases op)
  case (OpCreate t)
  with assms show ?thesis by (auto simp: create_trustline_def split: if_splits)
next
  case (OpBalance i b h)
  then consider "st' = st" | t where "get_trustline st i = Some t" "tru_status t = TrustActive"
      "trust_is_balanced F (t\<lparr>tru_balance := b, tru_modified_at_height := h\<rparr>)"
      "st' = save_trustline (update_viviani_oracle F (t\<lparr>tru_balance := b, tru_modified_at_height := h\<rparr>)) st"
    using assms by (auto simp: trust_update_balance_def Let_def split: option.splits if_splits)
  then show ?thesis
  proof cases
    case 2
    let ?t = "t\<lparr>tru_balance := b, tru_modified_at_height := h\<rparr>"
    have "trust_is_balanced F (update_viviani_oracle F ?t)"
      using 2(3) by (simp add: trust_is_balanced_cong[of "update_viviani_oracle F ?t" ?t])
    then have "trust_moves F t (update_viviani_oracle F ?t)" using 2(2) by (simp add: trust_moves_def)
    with 2 show ?thesis by blast
  qed blast
next
  case (OpEvolve i d h)
  then consider "st' = st" | t where "get_trustline st i = Some t"
      "st' = save_trustline ((evolve_phase F d t)\<lparr>tru_modified_at_height := h\<rparr>) st"
    using assms by (auto simp: evolve_trustline_phase_def split: option.splits)
  then show ?thesis
  proof cases
    case 2
    let ?u = "(evolve_phase F d t)\<lparr>tru_modified_at_height := h\<rparr>"
    have "trust_is_balanced F ?u = trust_is_balanced F t"
      by (intro trust_is_balanced_cong) (simp_all add: evolve_phase_def)
    then have "trust_moves F t ?u" by (simp add: trust_moves_def evolve_phase_def)
    with 2 show ?thesis by blast
  qed blast
next
  case (OpLimits i l m h)
  let ?v = "\<lambda>t. t\<lparr>tru_limit_ab := unwrap_or l (tru_limit_ab t), tru_limit_ba := unwrap_or m (tru_limit_ba t),
      tru_modified_at_height := h\<rparr>"
  from OpLimits consider "st' = st" | t where "get_trustline st i = Some t" "tru_status t = TrustActive"
      "trust_is_balanced F (?v t)" "st' = save_trustline (update_viviani_oracle F (?v t)) st"
    using assms by (auto simp: update_limits_def Let_def split: option.splits if_splits)
  then show ?thesis
  proof cases
    case 2
    have "trust_is_balanced F (update_viviani_oracle F (?v t))"
      using 2(3) by (simp add: trust_is_balanced_cong[of "update_viviani_oracle F (?v t)" "?v t"])
    then have "trust_moves F t (update_viviani_oracle F (?v t))" using 2(2) by (simp add: trust_moves_def)
    with 2 show ?thesis by blast
  qed blast
next
  case (OpFreeze i h)
  let ?v = "\<lambda>t. t\<lparr>tru_status := TrustFrozen, tru_modified_at_height := h\<rparr>"
  have "trust_moves F t (?v t)" for t
    using trust_is_balanced_cong[of "?v t" t F] by (simp add: trust_moves_def)
  moreover from OpFreeze have "st' = st \<or> (\<exists>t. get_trustline st i = Some t \<and> st' = save_trustline (?v t) st)"
    using assms by (auto simp: freeze_trustline_def split: option.splits)
  ultimately show ?thesis by blast
next
  case (OpCloseLine i h)
  let ?v = "\<lambda>t. t\<lparr>tru_status := TrustClosed, tru_modified_at_height := h\<rparr>"
  have "trust_moves F t (?v t)" for t
    using trust_is_balanced_cong[of "?v t" t F] by (simp add: trust_moves_def)
  moreover from OpCloseLine have "st' = st \<or> (\<exists>t. get_trustline st i = Some t \<and> st' = save_trustline (?v t) st)"
    using assms by (auto simp: close_trustline_def split: option.splits if_splits)
  ultimately show ?thesis by blast
qed

lemma trust_step_entry:
  assumes "trust_step F st st'" and k: "get_trustline st k = Some e"
  shows "\<exists>e'. get_trustline st' k = Some e' \<and> (e' = e \<or> trust_moves F e e')"
proof -
  obtain op r where ok: "trust_ok st" and op: "trust_apply F op st = (r, st')"
    using assms(1) unfolding trust_step_def by (metis prod.collapse)
  from trust_apply_moves[OF op] show ?thesis
  proof (elim disjE exE conjE)
    assume "st' = st" with k show ?thesis by blast
  next
    fix t assume "get_trustline st (tru_trustline_id t) = None" "st' = save_trustline t st"
    with k show ?thesis by (auto simp: get_trustline_def save_trustline_def)
  next
    fix i t u assume i: "get_trustline st i = Some t" and m: "trust_moves F t u" and st': "st' = save_trustline u st"
    have "tru_trustline_id u = i" using ok i m by (simp add: trust_ok_def get_trustline_def trust_moves_def)
    with i m k st' show ?thesis
      by (cases "k = i") (auto simp: get_trustline_def save_trustline_def)
  qed
qed

interpretation trust_machine: entry_machine "trust_step F" get_trustline "trust_moves F" "\<lambda>_. False" for F
  by unfold_locales (simp_all add: trust_step_entry)

end
