(* ===== verification/State_Pools.thy ===== *)
theory State_Pools
  imports Core_Dimensional Core_Transaction
begin

text \<open>
  \<open>state/src/dimensional_pools.rs\<close>: the eight liquidity pools, swaps between them, the block
  reward, the unlock schedule and the yields. The measurement functions at the end of that
  file (regressions over recorded work scores) are not modelled.
\<close>

section \<open>State\<close>

definition ALL_POOLS :: "dimensional_pool list" where
  "ALL_POOLS = [D1, D2, D3, D4, D5, D6, D7, D8]"

text \<open>The three columns of \<open>DIMENSIONAL_SCALES\<close> and \<open>ALLOCATION_RATIOS\<close>, by pool.\<close>

definition pool_index :: "dimensional_pool \<Rightarrow> nat" where
  "pool_index p = unat (pool_byte p)"

definition get_tau :: "dimensional_pool \<Rightarrow> f64" where
  "get_tau p = map f_of_rat [0, 20 / 100, 41 / 100, 68 / 100, 98 / 100, 136 / 100, 196 / 100, 272 / 100]
     ! pool_index p"

definition get_dimensional_factor :: "dimensional_pool \<Rightarrow> f64" where
  "get_dimensional_factor p = map f_of_rat
     [1, 867 / 1000, 750 / 1000, 618 / 1000, 500 / 1000, 382 / 1000, 250 / 1000, 146 / 1000] ! pool_index p"

definition get_allocation_ratio :: "dimensional_pool \<Rightarrow> f64" where
  "get_allocation_ratio p = map f_of_rat
     [222 / 1000, 193 / 1000, 167 / 1000, 137 / 1000, 111 / 1000, 85 / 1000, 56 / 1000, 32 / 1000] ! pool_index p"

record pool_liquidity =
  pl_pool :: dimensional_pool
  pl_liquidity :: balance
  pl_locked :: balance
  pl_unlocked :: balance
  pl_last_unlock_fraction :: f64
  pl_dimensional_factor :: f64
  pl_allocation_ratio :: f64
  pl_tau :: f64
  pl_phase :: f64
  pl_last_update_height :: u64

record pool_swap_record =
  swr_tx_hash :: hash
  swr_from :: address
  swr_pool_from :: dimensional_pool
  swr_pool_to :: dimensional_pool
  swr_amount_in :: balance
  swr_amount_out :: balance
  swr_swap_ratio :: f64
  swr_block_height :: u64

record pool_state =
  po_pools :: "(u8, pool_liquidity) table"
  po_swaps :: "(hash, pool_swap_record) table"
  po_consensus :: "(u64, consensus_state) table"

datatype pool_error =
    SourcePoolNotFound
  | DestinationPoolNotFound
  | InsufficientSourceLiquidity balance balance
  | SlippageExceeded balance balance
  | InsufficientDestinationLiquidity balance balance
  | NoConsensusState

definition pool_state_new :: pool_state where
  "pool_state_new = \<lparr>po_pools = [], po_swaps = [], po_consensus = []\<rparr>"

section \<open>Pools and swaps\<close>

definition calculate_phase :: "f64 \<Rightarrow> f64" where
  "calculate_phase tau = f_mul LAMBDA tau"

definition calculate_dimensional_factor :: "float_ext \<Rightarrow> f64 \<Rightarrow> f64" where
  "calculate_dimensional_factor F tau = fm_exp F (f_mul (f_neg ETA) tau)"

definition get_pool_liquidity :: "pool_state \<Rightarrow> dimensional_pool \<Rightarrow> pool_liquidity option" where
  "get_pool_liquidity st p = tbl_get (po_pools st) (pool_byte p)"

definition save_pool_liquidity :: "pool_liquidity \<Rightarrow> pool_state \<Rightarrow> pool_state" where
  "save_pool_liquidity l st = st\<lparr>po_pools := tbl_put (pool_byte (pl_pool l)) l (po_pools st)\<rparr>"

definition initial_pool :: "balance \<Rightarrow> u64 \<Rightarrow> dimensional_pool \<Rightarrow> pool_liquidity" where
  "initial_pool total_supply genesis_height p =
     (let allocation = get_allocation_ratio p;
          initial_liquidity = f_to_word (f_mul (f_of_word total_supply) allocation)
      in \<lparr>pl_pool = p, pl_liquidity = initial_liquidity, pl_locked = initial_liquidity,
          pl_unlocked = 0, pl_last_unlock_fraction = f_zero,
          pl_dimensional_factor = get_dimensional_factor p, pl_allocation_ratio = allocation,
          pl_tau = get_tau p, pl_phase = calculate_phase (get_tau p),
          pl_last_update_height = genesis_height\<rparr>)"

definition initialize_pools :: "balance \<Rightarrow> u64 \<Rightarrow> pool_state \<Rightarrow> pool_state" where
  "initialize_pools total_supply genesis_height =
     fold (\<lambda>p. save_pool_liquidity (initial_pool total_supply genesis_height p)) ALL_POOLS"

definition execute_swap ::
  "dimensional_pool \<Rightarrow> dimensional_pool \<Rightarrow> balance \<Rightarrow> balance \<Rightarrow> u64 \<Rightarrow> (pool_state, pool_error, balance) step" where
  "execute_swap pool_from pool_to amount_in min_amount_out block_height st =
     (case get_pool_liquidity st pool_from of None \<Rightarrow> (Inl SourcePoolNotFound, st)
      | Some from_l \<Rightarrow> (case get_pool_liquidity st pool_to of None \<Rightarrow> (Inl DestinationPoolNotFound, st)
        | Some to_l \<Rightarrow>
            if pl_liquidity from_l < amount_in
              then (Inl (InsufficientSourceLiquidity (pl_liquidity from_l) amount_in), st)
            else let swap_ratio = f_div (pl_dimensional_factor from_l) (pl_dimensional_factor to_l);
                     amount_out = f_to_word (f_mul (f_of_word amount_in) swap_ratio)
              in if amount_out < min_amount_out then (Inl (SlippageExceeded amount_out min_amount_out), st)
              else if pl_liquidity to_l < amount_out
                then (Inl (InsufficientDestinationLiquidity (pl_liquidity to_l) amount_out), st)
              else (Inr amount_out,
                save_pool_liquidity (to_l\<lparr>pl_liquidity := pl_liquidity to_l - amount_out,
                    pl_last_update_height := block_height\<rparr>)
                 (save_pool_liquidity (from_l\<lparr>pl_liquidity := pl_liquidity from_l - amount_in,
                    pl_last_update_height := block_height\<rparr>) st))))"

definition record_swap ::
  "hash \<Rightarrow> address \<Rightarrow> dimensional_pool \<Rightarrow> dimensional_pool \<Rightarrow> balance \<Rightarrow> balance \<Rightarrow> u64 \<Rightarrow> pool_state \<Rightarrow> pool_state" where
  "record_swap swap_hash sender pool_from pool_to amount_in amount_out block_height st =
     st\<lparr>po_swaps := tbl_put swap_hash
         \<lparr>swr_tx_hash = swap_hash, swr_from = sender, swr_pool_from = pool_from, swr_pool_to = pool_to,
          swr_amount_in = amount_in, swr_amount_out = amount_out,
          swr_swap_ratio = f_div (f_of_word amount_out) (f_of_word amount_in),
          swr_block_height = block_height\<rparr> (po_swaps st)\<rparr>"

definition get_swap_record :: "pool_state \<Rightarrow> hash \<Rightarrow> pool_swap_record option" where
  "get_swap_record st swap_hash = tbl_get (po_swaps st) swap_hash"

definition get_all_pools :: "pool_state \<Rightarrow> pool_liquidity list" where
  "get_all_pools st = List.map_filter (get_pool_liquidity st) ALL_POOLS"

definition total_liquidity :: "pool_state \<Rightarrow> balance" where
  "total_liquidity st = sum_list (map pl_liquidity (get_all_pools st))"

section \<open>Consensus state, rewards, unlocks and yields\<close>

definition save_consensus_state :: "u64 \<Rightarrow> consensus_state \<Rightarrow> pool_state \<Rightarrow> pool_state" where
  "save_consensus_state block_height c st = st\<lparr>po_consensus := tbl_put block_height c (po_consensus st)\<rparr>"

definition get_consensus_state :: "pool_state \<Rightarrow> u64 \<Rightarrow> consensus_state option" where
  "get_consensus_state st block_height = tbl_get (po_consensus st) block_height"

definition get_current_consensus_state :: "pool_state \<Rightarrow> consensus_state option" where
  "get_current_consensus_state st = map_option snd
     (fold (\<lambda>(h, c) latest. case latest of None \<Rightarrow> Some (h, c)
        | Some (h0, c0) \<Rightarrow> if h0 < h then Some (h, c) else latest) (po_consensus st) None)"

definition get_unlock_fractions :: "float_ext \<Rightarrow> pool_state \<Rightarrow> f64 list option" where
  "get_unlock_fractions F st =
     map_option (\<lambda>c. map (unlock_fraction F c) [0..<8]) (get_current_consensus_state st)"

definition get_yield_rates :: "float_ext \<Rightarrow> pool_state \<Rightarrow> f64 list option" where
  "get_yield_rates F st =
     map_option (\<lambda>c. map (yield_rate F c) [0..<8]) (get_current_consensus_state st)"

definition get_dimensional_scales :: "float_ext \<Rightarrow> pool_state \<Rightarrow> dimensional_scales" where
  "get_dimensional_scales F st = (case get_current_consensus_state st of
     Some c \<Rightarrow> consensus_scales F c | None \<Rightarrow> scales_calculate F)"

definition get_economics_state :: "float_ext \<Rightarrow> pool_state \<Rightarrow> dimensional_economics" where
  "get_economics_state F st =
     (let consensus = (case get_current_consensus_state st of Some c \<Rightarrow> c | None \<Rightarrow> consensus_at_tau F f_zero)
      in \<lparr>de_consensus = consensus, de_scales = consensus_scales F consensus,
          de_oracle = oracle_calculate ETA LAMBDA\<rparr>)"

text \<open>The loops over the eight pools: \<open>upd i l\<close> is the new entry of pool number \<open>i\<close> and the amount
  the loop adds to its total, or \<open>None\<close> when the pool is left alone.\<close>

definition over_pools ::
  "(nat \<Rightarrow> pool_liquidity \<Rightarrow> (pool_liquidity \<times> balance) option) \<Rightarrow> pool_state \<Rightarrow> balance \<times> pool_state" where
  "over_pools upd st =
     fold (\<lambda>(i, p) (sofar, st). case get_pool_liquidity st p of None \<Rightarrow> (sofar, st)
        | Some l \<Rightarrow> (case upd i l of None \<Rightarrow> (sofar, st)
            | Some (l', amount) \<Rightarrow> (sofar + amount, save_pool_liquidity l' st)))
       (enumerate 0 ALL_POOLS) (0, st)"

definition reward_pool :: "f64 list \<Rightarrow> balance \<Rightarrow> u64 \<Rightarrow> nat \<Rightarrow> pool_liquidity \<Rightarrow> (pool_liquidity \<times> balance) option" where
  "reward_pool ratios total_reward block_height i l =
     (let ratio = ratios ! i; pool_reward = f_to_word (f_mul (f_of_word total_reward) ratio)
      in Some (l\<lparr>pl_liquidity := pl_liquidity l + pool_reward, pl_locked := pl_locked l + pool_reward,
                 pl_allocation_ratio := ratio, pl_last_update_height := block_height\<rparr>, pool_reward))"

definition distribute_block_reward :: "float_ext \<Rightarrow> balance \<Rightarrow> u64 \<Rightarrow> (pool_state, pool_error, unit) step" where
  "distribute_block_reward F total_reward block_height st =
     (case get_current_consensus_state st of None \<Rightarrow> (Inl NoConsensusState, st)
      | Some c \<Rightarrow>
          let ratios = allocation_ratios F (scales_normalized F (consensus_scales F c))
          in (Inr (), snd (over_pools (reward_pool ratios total_reward block_height) st)))"

definition unlock_pool :: "(nat \<Rightarrow> f64) \<Rightarrow> u64 \<Rightarrow> nat \<Rightarrow> pool_liquidity \<Rightarrow> (pool_liquidity \<times> balance) option" where
  "unlock_pool fraction block_height i l =
     (let current = fraction i; new_unlock_fraction = f_sub current (pl_last_unlock_fraction l) in
      if f_lt (f_of_rat (1 / 1000)) new_unlock_fraction
      then let tokens_to_unlock = f_to_word (f_mul (f_of_word (pl_liquidity l)) new_unlock_fraction);
               actually_unlocked = min tokens_to_unlock (pl_locked l)
           in if 0 < actually_unlocked
              then Some (l\<lparr>pl_locked := pl_locked l - actually_unlocked,
                           pl_unlocked := pl_unlocked l + actually_unlocked,
                           pl_last_unlock_fraction := current,
                           pl_last_update_height := block_height\<rparr>, actually_unlocked)
              else None
      else None)"

definition execute_unlock_schedules :: "float_ext \<Rightarrow> u64 \<Rightarrow> (pool_state, pool_error, balance) step" where
  "execute_unlock_schedules F block_height st =
     (case get_current_consensus_state st of None \<Rightarrow> (Inl NoConsensusState, st)
      | Some c \<Rightarrow> (case over_pools (unlock_pool (unlock_fraction F c) block_height) st of
          (sofar, st') \<Rightarrow> (Inr sofar, st')))"

definition yield_pool :: "f64 list \<Rightarrow> u64 \<Rightarrow> nat \<Rightarrow> pool_liquidity \<Rightarrow> (pool_liquidity \<times> balance) option" where
  "yield_pool rates block_height i l =
     (if 0 < pl_unlocked l
      then let yield_amount = f_to_word (f_mul (f_mul (f_of_word (pl_unlocked l)) (rates ! i))
                 (f_of_rat (1 / 1000)))
           in if 0 < yield_amount
              then Some (l\<lparr>pl_unlocked := pl_unlocked l + yield_amount,
                           pl_liquidity := pl_liquidity l + yield_amount,
                           pl_last_update_height := block_height\<rparr>, yield_amount)
              else None
      else None)"

definition distribute_yields :: "float_ext \<Rightarrow> u64 \<Rightarrow> (pool_state, pool_error, balance) step" where
  "distribute_yields F block_height st =
     (case (get_current_consensus_state st, get_yield_rates F st) of
        (Some c, Some rates) \<Rightarrow> (case over_pools (yield_pool rates block_height) st of
          (sofar, st') \<Rightarrow> (Inr sofar, st'))
      | _ \<Rightarrow> (Inl NoConsensusState, st))"

section \<open>Lemmas\<close>

definition pools_ok :: "pool_state \<Rightarrow> bool" where
  "pools_ok st \<longleftrightarrow> tbl_ok (po_pools st) \<and> tbl_ok (po_consensus st) \<and>
     (\<forall>p l. get_pool_liquidity st p = Some l \<longrightarrow> pl_pool l = p)"

definition split_ok :: "pool_liquidity \<Rightarrow> bool" where
  "split_ok l \<longleftrightarrow> pl_locked l + pl_unlocked l = pl_liquidity l"

definition pools_split_ok :: "pool_state \<Rightarrow> bool" where
  "pools_split_ok st \<longleftrightarrow> (\<forall>p l. get_pool_liquidity st p = Some l \<longrightarrow> split_ok l)"

lemma get_pool_liquidity_save [simp]:
  "get_pool_liquidity (save_pool_liquidity l st) p =
     (if p = pl_pool l then Some l else get_pool_liquidity st p)"
  by (auto simp: get_pool_liquidity_def save_pool_liquidity_def pool_byte_inject)

lemma over_pools_keeps:
  assumes "\<And>i l l' a. upd i l = Some (l', a) \<Longrightarrow> split_ok l \<Longrightarrow> split_ok l'"
    and "pools_split_ok st"
  shows "pools_split_ok (snd (over_pools upd st))"
proof -
  have "pools_split_ok (snd (fold (\<lambda>(i, p) (sofar, st). case get_pool_liquidity st p of None \<Rightarrow> (sofar, st)
        | Some l \<Rightarrow> (case upd i l of None \<Rightarrow> (sofar, st)
            | Some (l', amount) \<Rightarrow> (sofar + amount, save_pool_liquidity l' st))) ps (n, st)))" for ps n
    using assms(2)
  proof (induction ps arbitrary: n st)
    case (Cons ip ps)
    obtain i p where ip: "ip = (i, p)" by (cases ip)
    show ?case
    proof (cases "get_pool_liquidity st p")
      case None
      with Cons ip show ?thesis by simp
    next
      case (Some l)
      then have l: "split_ok l" using Cons.prems by (simp add: pools_split_ok_def)
      show ?thesis
      proof (cases "upd i l")
        case None
        with Cons ip Some show ?thesis by simp
      next
        case (Some la)
        obtain l' a where la: "la = (l', a)" by (cases la)
        have "pools_split_ok (save_pool_liquidity l' st)"
          using assms(1)[of i l l' a] Some la l Cons.prems by (auto simp: pools_split_ok_def)
        then show ?thesis using Cons.IH ip Some la \<open>get_pool_liquidity st p = Some l\<close> by simp
      qed
    qed
  qed simp
  then show ?thesis by (simp add: over_pools_def)
qed

lemma reward_pool_split: "reward_pool r t h i l = Some (l', a) \<Longrightarrow> split_ok l \<Longrightarrow> split_ok l'"
  by (auto simp: reward_pool_def split_ok_def Let_def algebra_simps)

lemma unlock_pool_split: "unlock_pool fr h i l = Some (l', a) \<Longrightarrow> split_ok l \<Longrightarrow> split_ok l'"
  by (auto simp: unlock_pool_def split_ok_def Let_def split: if_splits)

lemma yield_pool_split: "yield_pool r h i l = Some (l', a) \<Longrightarrow> split_ok l \<Longrightarrow> split_ok l'"
  by (auto simp: yield_pool_def split_ok_def Let_def algebra_simps split: if_splits)

text \<open>An unlock moves at most what is locked, and does not change the total of the pool.\<close>

lemma unlock_pool_bounds:
  assumes "unlock_pool fr h i l = Some (l', a)"
  shows "a \<le> pl_locked l" and "pl_locked l' = pl_locked l - a"
    and "pl_unlocked l' = pl_unlocked l + a" and "pl_liquidity l' = pl_liquidity l"
  using assms by (auto simp: unlock_pool_def Let_def split: if_splits)

lemma initial_pools_split: "split_ok (initial_pool t h p)"
  by (simp add: initial_pool_def split_ok_def Let_def)

lemma initialize_pools_get:
  "get_pool_liquidity (initialize_pools t h st) p = Some (initial_pool t h p)"
  by (cases p) (simp_all add: initialize_pools_def ALL_POOLS_def initial_pool_def Let_def)

lemma execute_swap_Inr:
  assumes "execute_swap p q a m h st = (Inr out, st')" and "p \<noteq> q" and "pools_ok st"
  shows "\<exists>f t. get_pool_liquidity st p = Some f \<and> get_pool_liquidity st q = Some t \<and>
    a \<le> pl_liquidity f \<and> m \<le> out \<and> out \<le> pl_liquidity t \<and>
    out = f_to_word (f_mul (f_of_word a) (f_div (pl_dimensional_factor f) (pl_dimensional_factor t))) \<and>
    get_pool_liquidity st' p = Some (f\<lparr>pl_liquidity := pl_liquidity f - a, pl_last_update_height := h\<rparr>) \<and>
    get_pool_liquidity st' q = Some (t\<lparr>pl_liquidity := pl_liquidity t - out, pl_last_update_height := h\<rparr>) \<and>
    (\<forall>r. r \<noteq> p \<longrightarrow> r \<noteq> q \<longrightarrow> get_pool_liquidity st' r = get_pool_liquidity st r)"
  using assms
  by (auto simp: execute_swap_def Let_def pools_ok_def not_less split: option.splits if_splits)

lemma execute_swap_Inl: "execute_swap p q a m h st = (Inl e, st') \<Longrightarrow> st' = st"
  by (auto simp: execute_swap_def Let_def split: option.splits if_splits)

text \<open>The current consensus state is the one of the greatest height.\<close>

lemma fold_latest:
  assumes "sorted (map fst xs)" and "distinct (map fst xs)" and "xs \<noteq> []"
    and "latest = None \<or> (\<exists>h c. latest = Some (h, c) \<and> (\<forall>x\<in>set xs. h < fst x))"
  shows "fold (\<lambda>(h, c) latest. case latest of None \<Rightarrow> Some (h, c)
        | Some (h0, c0) \<Rightarrow> if h0 < (h :: u64) then Some (h, c) else latest) xs latest = Some (last xs)"
  using assms
proof (induction xs arbitrary: latest)
  case (Cons x xs)
  obtain h c where x: "x = (h, c)" by (cases x)
  have first: "(case latest of None \<Rightarrow> Some (h, c)
        | Some (h0, c0) \<Rightarrow> if h0 < h then Some (h, c) else latest) = Some (h, c)"
    using Cons.prems(4) x by auto
  show ?case
  proof (cases "xs = []")
    case True
    with first x show ?thesis by simp
  next
    case False
    have "\<forall>y\<in>set xs. h < fst y"
      using Cons.prems(1,2) x by (auto simp: order_less_le image_iff)
    with Cons.IH[of "Some (h, c)"] Cons.prems(1,2) False first x show ?thesis by simp
  qed
qed simp

lemma get_current_consensus_state_last:
  assumes "tbl_ok (po_consensus st)"
  shows "get_current_consensus_state st =
    (if po_consensus st = [] then None else Some (snd (last (po_consensus st))))"
  using assms fold_latest[of "po_consensus st" None]
  by (auto simp: get_current_consensus_state_def tbl_ok_def)

end
