(* ===== verification/Core_Privacy.thy ===== *)
theory Core_Privacy
  imports Core_Commitment Core_Validation
begin

text \<open>
  \<open>core/src/privacy.rs\<close>: private marketplace submissions, their commitment and the
  placeholder proof. SHA-256 and the bincode form of the public parameters come from
  other crates: \<open>privacy_ext\<close>.
\<close>

section \<open>Definitions\<close>

record problem_parameters =
  pp_problem_type :: rust_str
  pp_size :: u64
  pp_complexity_estimate :: f64

record wellformedness_proof =
  wp_proof_bytes :: bytes
  wp_vk_hash :: hash
  wp_public_inputs :: "bytes list"

datatype submission_mode =
    Public problem_type
  | Private hash wellformedness_proof problem_parameters

record privacy_ext =
  px_crypto :: crypto_ext
  px_codec :: codec_ext
  sha256 :: "bytes \<Rightarrow> 256 word"
  bincode_parameters :: "problem_parameters \<Rightarrow> bytes option"

datatype privacy_error =
    SerializationFailed
  | InvalidCommitment
  | ProofVerificationFailed
  | PrivProblemNotRevealed
  | PrivRevealMismatch
  | PrivInvalidParameters

definition ascii :: "string \<Rightarrow> bytes" where
  "ascii s = map (\<lambda>c. of_nat (of_char c)) s"

definition compute_commitment :: "privacy_ext \<Rightarrow> problem_type \<Rightarrow> 256 word \<Rightarrow> hash" where
  "compute_commitment P problem salt =
     (let problem_bytes = unwrap_or (bincode_problem (px_codec P) problem) []
      in hash_new (px_crypto P) (be_bytes (sha256 P (problem_bytes @ be_bytes salt))))"

definition get_verification_key_hash :: "privacy_ext \<Rightarrow> hash" where
  "get_verification_key_hash P =
     hash_new (px_crypto P) (ascii ''coinject-marketplace-wellformedness-circuit-v1'')"

definition create_placeholder_proof ::
  "privacy_ext \<Rightarrow> hash \<Rightarrow> problem_parameters \<Rightarrow> privacy_error + bytes" where
  "create_placeholder_proof P commitment public_params =
     (case bincode_parameters P public_params of None \<Rightarrow> Inl SerializationFailed
      | Some params_bytes \<Rightarrow> Inr (be_bytes (sha256 P
          (ascii ''COINJECT_TESTNET_PLACEHOLDER_V1'' @ hash_as_bytes commitment @ params_bytes))))"

definition verify_placeholder_proof ::
  "privacy_ext \<Rightarrow> bytes \<Rightarrow> hash \<Rightarrow> problem_parameters \<Rightarrow> bool" where
  "verify_placeholder_proof P proof_bytes commitment public_params =
     (if length proof_bytes \<noteq> 32 then False
      else case create_placeholder_proof P commitment public_params of
        Inl _ \<Rightarrow> False | Inr expected \<Rightarrow> proof_bytes = expected)"

definition wellformedness_create ::
  "privacy_ext \<Rightarrow> problem_type \<Rightarrow> 256 word \<Rightarrow> problem_parameters \<Rightarrow> privacy_error + (wellformedness_proof \<times> hash)" where
  "wellformedness_create P problem salt public_params =
     (let commitment = compute_commitment P problem salt in
      bind_res (create_placeholder_proof P commitment public_params) (\<lambda>proof_bytes.
      bind_res (ok_or (bincode_parameters P public_params) SerializationFailed) (\<lambda>params_bytes.
      Inr (\<lparr>wp_proof_bytes = proof_bytes, wp_vk_hash = get_verification_key_hash P,
            wp_public_inputs = [hash_as_bytes commitment, params_bytes]\<rparr>, commitment))))"

definition wellformedness_verify ::
  "privacy_ext \<Rightarrow> wellformedness_proof \<Rightarrow> hash \<Rightarrow> problem_parameters \<Rightarrow> bool" where
  "wellformedness_verify P w commitment public_params =
     (if wp_vk_hash w \<noteq> get_verification_key_hash P then False
      else if length (wp_public_inputs w) \<noteq> 2 then False
      else if wp_public_inputs w ! 0 \<noteq> hash_as_bytes commitment then False
      else case bincode_parameters P public_params of None \<Rightarrow> False
        | Some params_bytes \<Rightarrow>
            if wp_public_inputs w ! 1 \<noteq> params_bytes then False
            else verify_placeholder_proof P (wp_proof_bytes w) commitment public_params)"

record problem_reveal =
  pr_problem :: problem_type
  pr_salt :: "256 word"
  pr_revealed_at :: i64

definition problem_reveal_new :: "i64 \<Rightarrow> problem_type \<Rightarrow> 256 word \<Rightarrow> problem_reveal" where
  "problem_reveal_new now problem salt = \<lparr>pr_problem = problem, pr_salt = salt, pr_revealed_at = now\<rparr>"

definition problem_reveal_verify :: "privacy_ext \<Rightarrow> problem_reveal \<Rightarrow> hash \<Rightarrow> bool" where
  "problem_reveal_verify P r commitment \<longleftrightarrow> compute_commitment P (pr_problem r) (pr_salt r) = commitment"

fun mode_problem :: "submission_mode \<Rightarrow> problem_type option" where
  "mode_problem (Public p) = Some p"
| "mode_problem (Private _ _ _) = None"

fun mode_commitment :: "submission_mode \<Rightarrow> hash option" where
  "mode_commitment (Public _) = None"
| "mode_commitment (Private c _ _) = Some c"

fun mode_is_private :: "submission_mode \<Rightarrow> bool" where
  "mode_is_private (Private _ _ _) = True"
| "mode_is_private (Public _) = False"

fun mode_public_params :: "submission_mode \<Rightarrow> problem_parameters option" where
  "mode_public_params (Private _ _ pp) = Some pp"
| "mode_public_params (Public _) = None"

section \<open>Lemmas\<close>

lemma wellformedness_verify_iff:
  "wellformedness_verify P w c pp \<longleftrightarrow> (\<exists>params. bincode_parameters P pp = Some params \<and>
     w = \<lparr>wp_proof_bytes = be_bytes (sha256 P
            (ascii ''COINJECT_TESTNET_PLACEHOLDER_V1'' @ hash_as_bytes c @ params)),
          wp_vk_hash = get_verification_key_hash P, wp_public_inputs = [hash_as_bytes c, params]\<rparr>)"
proof -
  have two: "length xs = 2 \<and> xs ! 0 = a \<and> xs ! 1 = b \<longleftrightarrow> xs = [a, b]" for xs :: "bytes list" and a b
    by (cases xs; cases "tl xs"; cases "tl (tl xs)") auto
  have rec: "w = \<lparr>wp_proof_bytes = x, wp_vk_hash = y, wp_public_inputs = z\<rparr> \<longleftrightarrow>
      wp_proof_bytes w = x \<and> wp_vk_hash w = y \<and> wp_public_inputs w = z" for x y z
    by (cases w) simp
  show ?thesis
  proof (cases "bincode_parameters P pp")
    case None
    then show ?thesis by (simp add: wellformedness_verify_def)
  next
    case (Some params)
    let ?mac = "be_bytes (sha256 P (ascii ''COINJECT_TESTNET_PLACEHOLDER_V1'' @ hash_as_bytes c @ params))"
    have "verify_placeholder_proof P b c pp \<longleftrightarrow> b = ?mac" for b
      by (auto simp: verify_placeholder_proof_def create_placeholder_proof_def Some)
    then show ?thesis
      unfolding wellformedness_verify_def Some option.case option.inject ex_simps simp_thms rec
      using two[of "wp_public_inputs w" "hash_as_bytes c" params] by auto
  qed
qed

lemma wellformedness_create_verify:
  "wellformedness_create P p salt pp = Inr (w, c) \<Longrightarrow> wellformedness_verify P w c pp"
  by (auto simp: wellformedness_create_def wellformedness_verify_iff create_placeholder_proof_def
      bind_res_def ok_or_def Let_def split: option.splits)

text \<open>Equal commitments open to the same serialised problem and salt, unless one of the two hashes
  collides on the strings hashed.\<close>

lemma compute_commitment_binding:
  assumes "inj_on (sha256 P) {unwrap_or (bincode_problem (px_codec P) p) [] @ be_bytes s,
      unwrap_or (bincode_problem (px_codec P) q) [] @ be_bytes t}"
    and "no_collision (px_crypto P) [be_bytes (sha256 P (unwrap_or (bincode_problem (px_codec P) p) [] @ be_bytes s)),
      be_bytes (sha256 P (unwrap_or (bincode_problem (px_codec P) q) [] @ be_bytes t))]"
    and "compute_commitment P p s = compute_commitment P q t"
  shows "unwrap_or (bincode_problem (px_codec P) p) [] = unwrap_or (bincode_problem (px_codec P) q) [] \<and> s = t"
proof -
  have "be_bytes (sha256 P (unwrap_or (bincode_problem (px_codec P) p) [] @ be_bytes s)) =
      be_bytes (sha256 P (unwrap_or (bincode_problem (px_codec P) q) [] @ be_bytes t))"
    using assms(3) hash_new_inj[OF assms(2)] by (simp add: compute_commitment_def Let_def)
  then have "sha256 P (unwrap_or (bincode_problem (px_codec P) p) [] @ be_bytes s) =
      sha256 P (unwrap_or (bincode_problem (px_codec P) q) [] @ be_bytes t)"
    by (simp add: be_bytes_inject)
  then have "unwrap_or (bincode_problem (px_codec P) p) [] @ be_bytes s =
      unwrap_or (bincode_problem (px_codec P) q) [] @ be_bytes t"
    by (rule inj_onD[OF assms(1)]) simp_all
  then show ?thesis by (simp add: be_bytes_inject)
qed

end
