(* ===== verification/State_Marketplace.thy ===== *)
theory State_Marketplace
  imports Core_Privacy CJ_Machine
begin

text \<open>
  \<open>state/src/marketplace.rs\<close>: the bounty market for NP-hard problems. The problems and the
  escrowed bounties are two tables keyed by problem id. The clock is an argument;
  \<open>submit_solution\<close> is \<open>None\<close> where computing the quality of the solution panics.
\<close>

section \<open>State\<close>

datatype problem_status = ProblemOpen | ProblemSolved | ProblemExpired | ProblemCancelled

record problem_submission =
  sub_problem_id :: hash
  sub_mode :: submission_mode
  sub_reveal :: "problem_reveal option"
  sub_submitter :: address
  sub_bounty :: balance
  sub_min_work_score :: f64
  sub_submitted_at :: i64
  sub_expires_at :: i64
  sub_status :: problem_status
  sub_solution :: "solution option"
  sub_solver :: "address option"
  sub_title :: "rust_str option"
  sub_briefing :: "rust_str option"

record marketplace_state =
  ms_problems :: "(hash, problem_submission) table"
  ms_index :: "(hash, hash) table"
  ms_escrow :: "(hash, balance) table"

datatype marketplace_error =
    DuplicateProblem
  | ProblemNotFound
  | ProblemNotOpen
  | ProblemIsExpired
  | InvalidSolution
  | InsufficientWorkScore
  | ProblemNotSolved
  | NoSolver
  | BountyNotFound
  | Unauthorized
  | CannotCancel
  | InvalidProof
  | InvalidParameters
  | ProblemNotRevealed
  | RevealMismatch
  | NotPrivateSubmission
  | MarketSerialization

definition marketplace_new :: marketplace_state where
  "marketplace_new = \<lparr>ms_problems = [], ms_index = [], ms_escrow = []\<rparr>"

section \<open>Operations\<close>

definition get_problem :: "marketplace_state \<Rightarrow> hash \<Rightarrow> problem_submission option" where
  "get_problem st problem_id = tbl_get (ms_problems st) problem_id"

definition problem_exists :: "marketplace_state \<Rightarrow> hash \<Rightarrow> bool" where
  "problem_exists st problem_id \<longleftrightarrow> tbl_get (ms_problems st) problem_id \<noteq> None"

definition update_problem :: "problem_submission \<Rightarrow> marketplace_state \<Rightarrow> marketplace_state" where
  "update_problem s st = st\<lparr>ms_problems := tbl_put (sub_problem_id s) s (ms_problems st)\<rparr>"

text \<open>The index key takes the first 16 bytes of the address and of the problem id.\<close>

definition make_index_key :: "address \<Rightarrow> hash \<Rightarrow> hash" where
  "make_index_key a problem_id = Hash (Bit_Operations.or
     (push_bit 128 (drop_bit 128 (address_word a))) (drop_bit 128 (hash_word problem_id)))"

definition mode_check :: "privacy_ext \<Rightarrow> submission_mode \<Rightarrow> f64 \<Rightarrow> marketplace_error + unit" where
  "mode_check P mode min_work_score = (case mode of
     Public _ \<Rightarrow> Inr ()
   | Private problem_commitment zk_wellformed_proof public_params \<Rightarrow>
       if \<not> wellformedness_verify P zk_wellformed_proof problem_commitment public_params
         then Inl InvalidProof
       else if f_lt (pp_complexity_estimate public_params) min_work_score then Inl InvalidParameters
       else Inr ())"

definition mode_problem_id :: "privacy_ext \<Rightarrow> submission_mode \<Rightarrow> marketplace_error + hash" where
  "mode_problem_id P mode = (case mode of
     Public problem \<Rightarrow> (case bincode_problem (px_codec P) problem of
         None \<Rightarrow> Inl MarketSerialization | Some problem_data \<Rightarrow> Inr (hash_new (px_crypto P) problem_data))
   | Private problem_commitment _ _ \<Rightarrow> Inr problem_commitment)"

definition submit_problem ::
  "privacy_ext \<Rightarrow> i64 \<Rightarrow> submission_mode \<Rightarrow> address \<Rightarrow> balance \<Rightarrow> f64 \<Rightarrow> u64 \<Rightarrow> rust_str option \<Rightarrow>
   rust_str option \<Rightarrow> (marketplace_state, marketplace_error, hash) step" where
  "submit_problem P now mode submitter bounty min_work_score expiration_days title briefing st =
     (case bind_res (mode_check P mode min_work_score) (\<lambda>_. mode_problem_id P mode) of
        Inl e \<Rightarrow> (Inl e, st)
      | Inr problem_id \<Rightarrow>
          if problem_exists st problem_id then (Inl DuplicateProblem, st)
          else let submission =
              \<lparr>sub_problem_id = problem_id, sub_mode = mode, sub_reveal = None,
               sub_submitter = submitter, sub_bounty = bounty, sub_min_work_score = min_work_score,
               sub_submitted_at = now, sub_expires_at = now + expiration_days * 86400,
               sub_status = ProblemOpen, sub_solution = None, sub_solver = None,
               sub_title = title, sub_briefing = briefing\<rparr>
            in (Inr problem_id,
                \<lparr>ms_problems = tbl_put problem_id submission (ms_problems st),
                 ms_index = tbl_put (make_index_key submitter problem_id) problem_id (ms_index st),
                 ms_escrow = tbl_put problem_id bounty (ms_escrow st)\<rparr>))"

definition submit_public_problem ::
  "privacy_ext \<Rightarrow> i64 \<Rightarrow> problem_type \<Rightarrow> address \<Rightarrow> balance \<Rightarrow> f64 \<Rightarrow> u64 \<Rightarrow> rust_str option \<Rightarrow>
   rust_str option \<Rightarrow> (marketplace_state, marketplace_error, hash) step" where
  "submit_public_problem P now problem submitter bounty min_work_score expiration_days title briefing =
     submit_problem P now (Public problem) submitter bounty min_work_score expiration_days title briefing"

text \<open>The problem a solution is checked against.\<close>

definition visible_problem :: "problem_submission \<Rightarrow> problem_type option" where
  "visible_problem s = (case sub_mode s of
     Public problem \<Rightarrow> Some problem
   | Private _ _ _ \<Rightarrow> map_option pr_problem (sub_reveal s))"

definition submit_solution ::
  "i64 \<Rightarrow> hash \<Rightarrow> address \<Rightarrow> solution \<Rightarrow> marketplace_state \<Rightarrow>
   ((marketplace_error + unit) \<times> marketplace_state) option" where
  "submit_solution now problem_id solver sol st =
     (case get_problem st problem_id of None \<Rightarrow> Some (Inl ProblemNotFound, st)
      | Some s \<Rightarrow>
          if sub_status s \<noteq> ProblemOpen then Some (Inl ProblemNotOpen, st)
          else if sint (sub_expires_at s) < sint now
            then Some (Inl ProblemIsExpired, update_problem (s\<lparr>sub_status := ProblemExpired\<rparr>) st)
          else case visible_problem s of None \<Rightarrow> Some (Inl ProblemNotRevealed, st)
          | Some problem \<Rightarrow>
              if \<not> solution_verify sol problem then Some (Inl InvalidSolution, st)
              else case solution_quality sol problem of None \<Rightarrow> None
              | Some quality \<Rightarrow>
                  if f_lt (f_mul quality (f_of_nat 100)) (sub_min_work_score s)
                    then Some (Inl InsufficientWorkScore, st)
                  else Some (Inr (), update_problem
                    (s\<lparr>sub_solution := Some sol, sub_solver := Some solver,
                       sub_status := ProblemSolved\<rparr>) st))"

definition reveal_problem ::
  "privacy_ext \<Rightarrow> hash \<Rightarrow> problem_reveal \<Rightarrow> (marketplace_state, marketplace_error, unit) step" where
  "reveal_problem P problem_id reveal st =
     (case get_problem st problem_id of None \<Rightarrow> (Inl ProblemNotFound, st)
      | Some s \<Rightarrow> (case sub_mode s of Public _ \<Rightarrow> (Inl NotPrivateSubmission, st)
          | Private commitment _ _ \<Rightarrow>
              if \<not> problem_reveal_verify P reveal commitment then (Inl RevealMismatch, st)
              else (Inr (), update_problem (s\<lparr>sub_reveal := Some reveal\<rparr>) st)))"

definition claim_bounty :: "hash \<Rightarrow> (marketplace_state, marketplace_error, address \<times> balance) step" where
  "claim_bounty problem_id st =
     (case get_problem st problem_id of None \<Rightarrow> (Inl ProblemNotFound, st)
      | Some s \<Rightarrow>
          if sub_status s \<noteq> ProblemSolved then (Inl ProblemNotSolved, st)
          else case sub_solver s of None \<Rightarrow> (Inl NoSolver, st)
          | Some solver \<Rightarrow> (case tbl_get (ms_escrow st) problem_id of
                None \<Rightarrow> (Inl BountyNotFound, st)
              | Some bounty \<Rightarrow>
                  (Inr (solver, bounty), st\<lparr>ms_escrow := tbl_del problem_id (ms_escrow st)\<rparr>)))"

definition cancel_problem :: "hash \<Rightarrow> address \<Rightarrow> (marketplace_state, marketplace_error, balance) step" where
  "cancel_problem problem_id requester st =
     (case get_problem st problem_id of None \<Rightarrow> (Inl ProblemNotFound, st)
      | Some s \<Rightarrow>
          if sub_submitter s \<noteq> requester then (Inl Unauthorized, st)
          else if sub_status s \<noteq> ProblemOpen then (Inl CannotCancel, st)
          else case tbl_get (ms_escrow st) problem_id of
            None \<Rightarrow> (Inl BountyNotFound, st)
          | Some bounty \<Rightarrow>
              (Inr bounty, update_problem (s\<lparr>sub_status := ProblemCancelled\<rparr>)
                 (st\<lparr>ms_escrow := tbl_del problem_id (ms_escrow st)\<rparr>)))"

definition get_open_problems :: "marketplace_state \<Rightarrow> problem_submission list" where
  "get_open_problems st = filter (\<lambda>s. sub_status s = ProblemOpen) (tbl_values (ms_problems st))"

definition list_problems_for_submitter :: "marketplace_state \<Rightarrow> address \<Rightarrow> problem_submission list" where
  "list_problems_for_submitter st submitter =
     sort_key (\<lambda>s. - sint (sub_submitted_at s))
       (filter (\<lambda>s. sub_submitter s = submitter) (tbl_values (ms_problems st)))"

definition list_problems_for_solver :: "marketplace_state \<Rightarrow> address \<Rightarrow> problem_submission list" where
  "list_problems_for_solver st solver =
     sort_key (\<lambda>s. - sint (sub_submitted_at s))
       (filter (\<lambda>s. sub_solver s = Some solver) (tbl_values (ms_problems st)))"

record marketplace_stats =
  total_problems :: nat
  open_problems :: nat
  solved_problems :: nat
  expired_problems :: nat
  cancelled_problems :: nat
  total_bounty_pool :: balance

definition count_status :: "problem_status \<Rightarrow> marketplace_state \<Rightarrow> nat" where
  "count_status x st = length (filter (\<lambda>s. sub_status s = x) (tbl_values (ms_problems st)))"

definition get_stats :: "marketplace_state \<Rightarrow> marketplace_stats" where
  "get_stats st =
     \<lparr>total_problems = length (tbl_values (ms_problems st)),
      open_problems = count_status ProblemOpen st,
      solved_problems = count_status ProblemSolved st,
      expired_problems = count_status ProblemExpired st,
      cancelled_problems = count_status ProblemCancelled st,
      total_bounty_pool = sum_list (tbl_values (ms_escrow st))\<rparr>"

section \<open>Well-formedness\<close>

text \<open>Every stored problem has its id as key; an open problem has its bounty in escrow, a solved one
  has a solver, and only open, solved or expired problems have an escrow entry, equal to the
  bounty.\<close>

definition entry_ok :: "hash \<Rightarrow> problem_submission \<Rightarrow> balance option \<Rightarrow> bool" where
  "entry_ok k s b \<longleftrightarrow> sub_problem_id s = k \<and>
     (case sub_status s of
        ProblemOpen \<Rightarrow> b = Some (sub_bounty s)
      | ProblemSolved \<Rightarrow> sub_solver s \<noteq> None \<and> (b = Some (sub_bounty s) \<or> b = None)
      | ProblemExpired \<Rightarrow> b = Some (sub_bounty s)
      | ProblemCancelled \<Rightarrow> b = None)"

definition market_ok :: "marketplace_state \<Rightarrow> bool" where
  "market_ok st \<longleftrightarrow> tbl_ok (ms_problems st) \<and> tbl_ok (ms_escrow st) \<and>
     (\<forall>k s. get_problem st k = Some s \<longrightarrow> entry_ok k s (tbl_get (ms_escrow st) k)) \<and>
     (\<forall>k. get_problem st k = None \<longrightarrow> tbl_get (ms_escrow st) k = None)"

definition total_bounties :: "marketplace_state \<Rightarrow> int" where
  "total_bounties st = tbl_sum uint (ms_escrow st)"

lemma market_ok_new [simp]: "market_ok marketplace_new"
  by (simp add: market_ok_def marketplace_new_def get_problem_def)

lemma market_ok_entry:
  "market_ok st \<Longrightarrow> get_problem st k = Some s \<Longrightarrow> entry_ok k s (tbl_get (ms_escrow st) k)"
  by (simp add: market_ok_def)

lemma get_problem_update [simp]:
  "get_problem (update_problem s st) k = (if k = sub_problem_id s then Some s else get_problem st k)"
  by (simp add: get_problem_def update_problem_def)

lemma ms_escrow_update [simp]: "ms_escrow (update_problem s st) = ms_escrow st"
  by (simp add: update_problem_def)

lemma get_problem_escrow [simp]: "get_problem (st\<lparr>ms_escrow := e\<rparr>) k = get_problem st k"
  by (simp add: get_problem_def)

lemma tbl_ok_update [simp]: "tbl_ok (ms_problems st) \<Longrightarrow> tbl_ok (ms_problems (update_problem s st))"
  by (simp add: update_problem_def tbl_ok_put)

text \<open>Changing one problem and, possibly, taking its bounty keeps the store well formed.\<close>

lemma market_ok_change:
  assumes "market_ok st" and "get_problem st k = Some s" and "entry_ok k s' (tbl_get e k)"
    and "e = ms_escrow st \<or> e = tbl_del k (ms_escrow st)"
  shows "market_ok (update_problem s' (st\<lparr>ms_escrow := e\<rparr>))"
proof -
  have id: "sub_problem_id s' = k" using assms(3) by (simp add: entry_ok_def)
  have e_other: "tbl_get e j = tbl_get (ms_escrow st) j" if "j \<noteq> k" for j
    using assms(4) that by auto
  have "tbl_ok e" using assms(1,4) by (auto simp: market_ok_def tbl_ok_del)
  with assms(1,2,3) id e_other show ?thesis by (auto simp: market_ok_def)
qed

lemma submit_problem_Inr:
  "submit_problem P now mode a b w d t br st = (Inr i, st') \<longleftrightarrow>
     mode_check P mode w = Inr () \<and> mode_problem_id P mode = Inr i \<and> get_problem st i = None \<and>
     st' = \<lparr>ms_problems = tbl_put i \<lparr>sub_problem_id = i, sub_mode = mode, sub_reveal = None,
               sub_submitter = a, sub_bounty = b, sub_min_work_score = w,
               sub_submitted_at = now, sub_expires_at = now + d * 86400,
               sub_status = ProblemOpen, sub_solution = None, sub_solver = None,
               sub_title = t, sub_briefing = br\<rparr> (ms_problems st),
            ms_index = tbl_put (make_index_key a i) i (ms_index st),
            ms_escrow = tbl_put i b (ms_escrow st)\<rparr>"
  by (auto simp: submit_problem_def problem_exists_def get_problem_def bind_res_def Let_def
      split: sum.splits if_splits)

lemma submit_problem_Inl: "submit_problem P now mode a b w d t br st = (Inl e, st') \<Longrightarrow> st' = st"
  by (simp add: submit_problem_def Let_def split: sum.splits if_splits)

lemma submit_problem_ok:
  assumes "market_ok st" and "submit_problem P now mode a b w d t br st = (r, st')"
  shows "market_ok st'"
proof (cases r)
  case (Inl e)
  with assms submit_problem_Inl show ?thesis by blast
next
  case (Inr i)
  with assms show ?thesis
    by (auto simp: submit_problem_Inr market_ok_def get_problem_def entry_ok_def tbl_ok_put)
qed

lemma total_bounties_submit:
  assumes "market_ok st" and "submit_problem P now mode a b w d t br st = (Inr i, st')"
  shows "total_bounties st' = total_bounties st + uint b"
proof -
  have "tbl_get (ms_escrow st) i = None" and "tbl_ok (ms_escrow st)"
    using assms by (auto simp: submit_problem_Inr market_ok_def)
  with assms(2) show ?thesis by (simp add: submit_problem_Inr total_bounties_def tbl_sum_put)
qed

lemma submit_solution_cases:
  assumes "submit_solution now i a sol st = Some (r, st')"
  obtains (unchanged) e where "r = Inl e" "st' = st"
  | (expired) s where "r = Inl ProblemIsExpired" "get_problem st i = Some s" "sub_status s = ProblemOpen"
      "sint (sub_expires_at s) < sint now" "st' = update_problem (s\<lparr>sub_status := ProblemExpired\<rparr>) st"
  | (solved) s p q where "r = Inr ()" "get_problem st i = Some s" "sub_status s = ProblemOpen"
      "sint now \<le> sint (sub_expires_at s)"
      "visible_problem s = Some p" "solution_verify sol p" "solution_quality sol p = Some q"
      "\<not> f_lt (f_mul q (f_of_nat 100)) (sub_min_work_score s)"
      "st' = update_problem (s\<lparr>sub_solution := Some sol, sub_solver := Some a,
         sub_status := ProblemSolved\<rparr>) st"
  using assms unfolding submit_solution_def
  by (auto simp: not_less split: option.splits if_splits)

lemma submit_solution_ok:
  assumes "market_ok st" and "submit_solution now i a sol st = Some (r, st')"
  shows "market_ok st'"
  using assms(2)
proof (cases rule: submit_solution_cases)
  case (unchanged e)
  with assms(1) show ?thesis by simp
next
  case (expired s)
  with market_ok_entry[OF assms(1) expired(2)]
  show ?thesis using market_ok_change[OF assms(1) expired(2), where e = "ms_escrow st"]
    by (simp add: entry_ok_def)
next
  case (solved s p q)
  with market_ok_entry[OF assms(1) solved(2)]
  show ?thesis using market_ok_change[OF assms(1) solved(2), where e = "ms_escrow st"]
    by (simp add: entry_ok_def)
qed

lemma total_bounties_solution:
  "submit_solution now i a sol st = Some (r, st') \<Longrightarrow> total_bounties st' = total_bounties st"
  by (erule submit_solution_cases) (simp_all add: total_bounties_def)

lemma claim_bounty_Inr:
  "claim_bounty i st = (Inr (a, b), st') \<longleftrightarrow> (\<exists>s. get_problem st i = Some s \<and>
     sub_status s = ProblemSolved \<and> sub_solver s = Some a \<and> tbl_get (ms_escrow st) i = Some b \<and>
     st' = st\<lparr>ms_escrow := tbl_del i (ms_escrow st)\<rparr>)"
  by (auto simp: claim_bounty_def split: option.splits)

lemma claim_bounty_Inl: "claim_bounty i st = (Inl e, st') \<Longrightarrow> st' = st"
  by (auto simp: claim_bounty_def split: option.splits if_splits)

lemma claim_bounty_ok:
  assumes "market_ok st" and "claim_bounty i st = (r, st')"
  shows "market_ok st'"
proof (cases r)
  case (Inl e)
  with assms claim_bounty_Inl show ?thesis by blast
next
  case (Inr ab)
  then obtain s where s: "get_problem st i = Some s" "sub_status s = ProblemSolved"
    and st': "st' = st\<lparr>ms_escrow := tbl_del i (ms_escrow st)\<rparr>"
    using assms(2) by (cases ab) (auto simp: claim_bounty_Inr)
  have "entry_ok i s (tbl_get (ms_escrow st') i)"
    using market_ok_entry[OF assms(1) s(1)] s(2) by (simp add: entry_ok_def st')
  with assms(1) s(1) show ?thesis
    by (auto simp: market_ok_def st' tbl_ok_del)
qed

lemma total_bounties_claim:
  assumes "market_ok st" and "claim_bounty i st = (Inr (a, b), st')"
  shows "total_bounties st' = total_bounties st - uint b"
  using assms by (auto simp: claim_bounty_Inr total_bounties_def market_ok_def tbl_sum_del)

text \<open>A bounty is paid at most once.\<close>

lemma claim_bounty_once:
  assumes "claim_bounty i st = (Inr (a, b), st')"
  shows "claim_bounty i st' = (Inl BountyNotFound, st')"
  using assms by (auto simp: claim_bounty_Inr) (simp add: claim_bounty_def)

lemma cancel_problem_Inr:
  "cancel_problem i a st = (Inr b, st') \<longleftrightarrow> (\<exists>s. get_problem st i = Some s \<and>
     sub_submitter s = a \<and> sub_status s = ProblemOpen \<and> tbl_get (ms_escrow st) i = Some b \<and>
     st' = update_problem (s\<lparr>sub_status := ProblemCancelled\<rparr>)
       (st\<lparr>ms_escrow := tbl_del i (ms_escrow st)\<rparr>))"
  by (auto simp: cancel_problem_def split: option.splits)

lemma cancel_problem_Inl: "cancel_problem i a st = (Inl e, st') \<Longrightarrow> st' = st"
  by (auto simp: cancel_problem_def split: option.splits if_splits)

lemma cancel_problem_ok:
  assumes "market_ok st" and "cancel_problem i a st = (r, st')"
  shows "market_ok st'"
proof (cases r)
  case (Inl e)
  with assms cancel_problem_Inl show ?thesis by blast
next
  case (Inr b)
  then obtain s where s: "get_problem st i = Some s"
    and st': "st' = update_problem (s\<lparr>sub_status := ProblemCancelled\<rparr>)
       (st\<lparr>ms_escrow := tbl_del i (ms_escrow st)\<rparr>)"
    using assms(2) by (auto simp: cancel_problem_Inr)
  show ?thesis unfolding st'
    using market_ok_entry[OF assms(1) s]
    by (intro market_ok_change[OF assms(1) s]) (simp_all add: entry_ok_def)
qed

lemma total_bounties_cancel:
  assumes "market_ok st" and "cancel_problem i a st = (Inr b, st')"
  shows "total_bounties st' = total_bounties st - uint b"
  using assms by (auto simp: cancel_problem_Inr total_bounties_def market_ok_def tbl_sum_del)

lemma reveal_problem_Inr:
  "reveal_problem P i rv st = (Inr (), st') \<longleftrightarrow> (\<exists>s c w pp. get_problem st i = Some s \<and>
     sub_mode s = Private c w pp \<and> problem_reveal_verify P rv c \<and>
     st' = update_problem (s\<lparr>sub_reveal := Some rv\<rparr>) st)"
  by (auto simp: reveal_problem_def split: option.splits submission_mode.splits)

lemma reveal_problem_Inl: "reveal_problem P i rv st = (Inl e, st') \<Longrightarrow> st' = st"
  by (auto simp: reveal_problem_def split: option.splits submission_mode.splits if_splits)

lemma reveal_problem_ok:
  assumes "market_ok st" and "reveal_problem P i rv st = (r, st')"
  shows "market_ok st'"
proof (cases r)
  case (Inl e)
  with assms reveal_problem_Inl show ?thesis by blast
next
  case (Inr u)
  then obtain s where s: "get_problem st i = Some s"
    and st': "st' = update_problem (s\<lparr>sub_reveal := Some rv\<rparr>) st"
    using assms(2) by (auto simp: reveal_problem_Inr)
  have "entry_ok i (s\<lparr>sub_reveal := Some rv\<rparr>) (tbl_get (ms_escrow st) i)"
    using market_ok_entry[OF assms(1) s] by (cases "sub_status s") (simp_all add: entry_ok_def)
  with market_ok_change[OF assms(1) s, where e = "ms_escrow st"] show ?thesis by (simp add: st')
qed

section \<open>The marketplace machine\<close>

text \<open>Every operation of the manager, on a well-formed store.\<close>

inductive market_step :: "privacy_ext \<Rightarrow> marketplace_state \<Rightarrow> marketplace_state \<Rightarrow> bool" for P where
  ms_submit: "market_ok st \<Longrightarrow> submit_problem P now mode a b w d t br st = (r, st') \<Longrightarrow> market_step P st st'"
| ms_solve: "market_ok st \<Longrightarrow> submit_solution now i a sol st = Some (r', st') \<Longrightarrow> market_step P st st'"
| ms_reveal: "market_ok st \<Longrightarrow> reveal_problem P i rv st = (r4, st') \<Longrightarrow> market_step P st st'"
| ms_claim: "market_ok st \<Longrightarrow> claim_bounty i st = (r'', st') \<Longrightarrow> market_step P st st'"
| ms_cancel: "market_ok st \<Longrightarrow> cancel_problem i a st = (r3, st') \<Longrightarrow> market_step P st st'"

text \<open>What is settled about a problem: everything but the reveal, which may come at any time.\<close>

definition settled :: "marketplace_state \<Rightarrow> hash \<Rightarrow> problem_submission option" where
  "settled st k = map_option (\<lambda>s. s\<lparr>sub_reveal := None\<rparr>) (get_problem st k)"

definition sub_moves :: "problem_submission \<Rightarrow> problem_submission \<Rightarrow> bool" where
  "sub_moves s s' \<longleftrightarrow> sub_status s = ProblemOpen \<and> sub_status s' \<noteq> ProblemOpen \<and>
     sub_bounty s' = sub_bounty s \<and> sub_submitter s' = sub_submitter s \<and> sub_mode s' = sub_mode s"

lemma market_step_get:
  assumes "market_step P st st'" and k: "get_problem st k = Some s"
  shows "\<exists>s'. get_problem st' k = Some s' \<and>
    (s'\<lparr>sub_reveal := None\<rparr> = s\<lparr>sub_reveal := None\<rparr> \<or> sub_moves s s')"
  using assms(1)
proof cases
  case (ms_submit now mode a b w d t br r)
  show ?thesis
  proof (cases r)
    case (Inl e)
    with ms_submit k submit_problem_Inl show ?thesis by blast
  next
    case (Inr i)
    with ms_submit k show ?thesis by (auto simp: submit_problem_Inr get_problem_def)
  qed
next
  case (ms_solve now i a sol r)
  have id: "sub_problem_id u = i" if "get_problem st i = Some u" for u
    using market_ok_entry[OF ms_solve(1) that] by (simp add: entry_ok_def)
  from ms_solve(2) show ?thesis
    using id k by (cases rule: submit_solution_cases) (auto simp: sub_moves_def)
next
  case (ms_reveal i rv r)
  have id: "sub_problem_id u = i" if "get_problem st i = Some u" for u
    using market_ok_entry[OF ms_reveal(1) that] by (simp add: entry_ok_def)
  show ?thesis
  proof (cases r)
    case (Inl e)
    with ms_reveal k reveal_problem_Inl show ?thesis by blast
  next
    case (Inr u)
    with ms_reveal k id show ?thesis by (auto simp: reveal_problem_Inr)
  qed
next
  case (ms_claim i r)
  then show ?thesis using k
    by (cases r) (auto simp: claim_bounty_Inr dest: claim_bounty_Inl)
next
  case (ms_cancel i a r)
  have id: "sub_problem_id u = i" if "get_problem st i = Some u" for u
    using market_ok_entry[OF ms_cancel(1) that] by (simp add: entry_ok_def)
  show ?thesis
  proof (cases r)
    case (Inl e)
    with ms_cancel k cancel_problem_Inl show ?thesis by blast
  next
    case (Inr b)
    with ms_cancel k id show ?thesis by (auto simp: cancel_problem_Inr sub_moves_def)
  qed
qed

lemma market_step_settled:
  assumes "market_step P st st'" and "settled st k = Some s"
  shows "\<exists>s'. settled st' k = Some s' \<and> (s' = s \<or> sub_moves s s')"
proof -
  obtain u where u: "get_problem st k = Some u" "s = u\<lparr>sub_reveal := None\<rparr>"
    using assms(2) by (auto simp: settled_def)
  obtain v where "get_problem st' k = Some v"
    "v\<lparr>sub_reveal := None\<rparr> = u\<lparr>sub_reveal := None\<rparr> \<or> sub_moves u v"
    using market_step_get[OF assms(1) u(1)] by blast
  then show ?thesis using u(2) by (auto simp: settled_def sub_moves_def)
qed

interpretation market_machine: entry_machine "market_step P" settled sub_moves
  "\<lambda>s. sub_status s \<noteq> ProblemOpen" for P
  by unfold_locales (auto simp: market_step_settled, auto simp: sub_moves_def)

text \<open>A bounty that was paid or returned is gone for good: the pair of the settled problem and its
  escrow entry is the entry of a second machine.\<close>

definition bounty_entry :: "marketplace_state \<Rightarrow> hash \<Rightarrow> (problem_status \<times> balance option) option" where
  "bounty_entry st k = map_option (\<lambda>s. (sub_status s, tbl_get (ms_escrow st) k)) (get_problem st k)"

definition bounty_paid :: "problem_status \<times> balance option \<Rightarrow> bool" where
  "bounty_paid v \<longleftrightarrow> fst v \<noteq> ProblemOpen \<and> snd v = None"

lemma bounty_paid_stays:
  assumes "market_step P st st'" and "bounty_entry st k = Some v"
  shows "\<exists>v'. bounty_entry st' k = Some v' \<and> (v' = v \<or> \<not> bounty_paid v)"
proof -
  obtain s where s: "get_problem st k = Some s" "v = (sub_status s, tbl_get (ms_escrow st) k)"
    using assms(2) by (auto simp: bounty_entry_def)
  obtain s' where s': "get_problem st' k = Some s'"
    "s'\<lparr>sub_reveal := None\<rparr> = s\<lparr>sub_reveal := None\<rparr> \<or> sub_moves s s'"
    using market_step_get[OF assms(1) s(1)] by blast
  show ?thesis
  proof (cases "bounty_paid v")
    case True
    then have paid: "sub_status s \<noteq> ProblemOpen" "tbl_get (ms_escrow st) k = None"
      by (simp_all add: bounty_paid_def s(2))
    with s'(2) have "s'\<lparr>sub_reveal := None\<rparr> = s\<lparr>sub_reveal := None\<rparr>" by (simp add: sub_moves_def)
    then have "sub_status (s'\<lparr>sub_reveal := None\<rparr>) = sub_status (s\<lparr>sub_reveal := None\<rparr>)" by simp
    then have same: "sub_status s' = sub_status s" by simp
    have "tbl_get (ms_escrow st') k = None"
      using assms(1)
    proof cases
      case (ms_submit now mode a b w d t br r)
      then show ?thesis using paid s(1)
        by (cases r) (auto simp: submit_problem_Inr dest: submit_problem_Inl)
    next
      case (ms_solve now i a sol r)
      from ms_solve(2) show ?thesis using paid by (cases rule: submit_solution_cases) auto
    next
      case (ms_reveal i rv r)
      then show ?thesis using paid by (cases r) (auto simp: reveal_problem_Inr dest: reveal_problem_Inl)
    next
      case (ms_claim i r)
      then show ?thesis using paid
        by (cases r) (auto simp: claim_bounty_Inr market_ok_def dest: claim_bounty_Inl)
    next
      case (ms_cancel i a r)
      then show ?thesis using paid
        by (cases r) (auto simp: cancel_problem_Inr market_ok_def dest: cancel_problem_Inl)
    qed
    with s' same paid s(2) show ?thesis by (simp add: bounty_entry_def)
  next
    case False
    with s'(1) show ?thesis by (simp add: bounty_entry_def)
  qed
qed

interpretation bounty_machine: entry_machine "market_step P" bounty_entry
  "\<lambda>v v'. \<not> bounty_paid v" bounty_paid for P
  by unfold_locales (simp_all only: bounty_paid_stays simp_thms)

lemma claim_bounty_entry:
  "claim_bounty k st = (Inr (a, b), st') \<Longrightarrow> bounty_entry st' k = Some (ProblemSolved, None)"
  if "market_ok st"
  using that by (auto simp: claim_bounty_Inr bounty_entry_def market_ok_def)

lemma bounty_entry_fails:
  assumes "bounty_entry st k = Some (x, None)" and "x \<noteq> ProblemOpen"
  shows "\<not> is_ok (fst (claim_bounty k st))" and "\<not> is_ok (fst (cancel_problem k a st))"
  using assms
  by (auto simp: bounty_entry_def claim_bounty_def cancel_problem_def split: option.splits)

lemma market_step_ok: "market_step P st st' \<Longrightarrow> market_ok st'"
  by (erule market_step.cases)
     (auto intro: submit_problem_ok submit_solution_ok reveal_problem_ok claim_bounty_ok cancel_problem_ok)

end
