(* ===== verification/Node_Ledger.thy ===== *)
theory Node_Ledger
  imports Core_Block State_Accounts State_Timelocks State_Escrows State_Channels State_Trustlines State_Pools
    State_Marketplace
begin

text \<open>
  The transition function of the ledger, \<open>node/src/service/block_processing.rs\<close>: one
  definition per match branch of \<open>apply_single_transaction\<close> and
  \<open>unwind_single_transaction\<close>, and the loops over a block. The seven state managers, each
  behind its own \<open>Arc\<close> in the code, are the fields of \<open>ledger\<close>. Writes that precede a failing
  call stay, as in the code: the result of a branch is its \<open>Result\<close> and the ledger it leaves. A
  transaction that panics (the quality of a solution) is \<open>None\<close>.
\<close>

section \<open>The ledger\<close>

record ledger =
  lg_accounts :: account_state
  lg_timelocks :: timelock_state
  lg_escrows :: escrow_state
  lg_channels :: channel_state
  lg_trustlines :: trustline_state
  lg_pools :: pool_state
  lg_market :: marketplace_state

text \<open>What the node links against: hash and signature functions, serialisers, float functions.\<close>

record node_ext =
  nx_privacy :: privacy_ext
  nx_codec :: tx_codec
  nx_float :: float_ext

datatype ledger_error =
    InsufficientFunds balance balance
  | EscrowFailure escrow_error
  | NotAuthorizedReleaseEscrow
  | NotAuthorizedRefundEscrow
  | ChannelFailure channel_error
  | TrustLineFailure trustline_error
  | NotAuthorizedTrustLine
  | PoolFailure pool_error
  | MarketFailure marketplace_error

type_synonym applied = "(ledger_error + unit) \<times> ledger"

definition node_hash :: "node_ext \<Rightarrow> transaction \<Rightarrow> hash" where
  "node_hash N tx = tx_hash (px_crypto (nx_privacy N)) (nx_codec N) tx"

text \<open>Calls of one state manager from the ledger: \<open>state.set_balance(..)?\<close> and the like.\<close>

definition put_balance :: "address \<Rightarrow> balance \<Rightarrow> ledger \<Rightarrow> ledger" where
  "put_balance a b l = l\<lparr>lg_accounts := set_balance a b (lg_accounts l)\<rparr>"

definition put_nonce :: "address \<Rightarrow> u64 \<Rightarrow> ledger \<Rightarrow> ledger" where
  "put_nonce a n l = l\<lparr>lg_accounts := set_nonce a n (lg_accounts l)\<rparr>"

definition bal :: "ledger \<Rightarrow> address \<Rightarrow> balance" where
  "bal l a = get_balance (lg_accounts l) a"

text \<open>Run a step of a manager as the last call of a branch; its error becomes the branch's.\<close>

definition on_escrows :: "(escrow_state, escrow_error, unit) step \<Rightarrow> ledger \<Rightarrow> applied" where
  "on_escrows f l = (case f (lg_escrows l) of
     (Inl e, st) \<Rightarrow> (Inl (EscrowFailure e), l\<lparr>lg_escrows := st\<rparr>)
   | (Inr _, st) \<Rightarrow> (Inr (), l\<lparr>lg_escrows := st\<rparr>))"

definition on_channels :: "(channel_state, channel_error, unit) step \<Rightarrow> ledger \<Rightarrow> applied" where
  "on_channels f l = (case f (lg_channels l) of
     (Inl e, st) \<Rightarrow> (Inl (ChannelFailure e), l\<lparr>lg_channels := st\<rparr>)
   | (Inr _, st) \<Rightarrow> (Inr (), l\<lparr>lg_channels := st\<rparr>))"

definition on_trustlines :: "(trustline_state, trustline_error, unit) step \<Rightarrow> ledger \<Rightarrow> applied" where
  "on_trustlines f l = (case f (lg_trustlines l) of
     (Inl e, st) \<Rightarrow> (Inl (TrustLineFailure e), l\<lparr>lg_trustlines := st\<rparr>)
   | (Inr _, st) \<Rightarrow> (Inr (), l\<lparr>lg_trustlines := st\<rparr>))"

section \<open>Transfers and time locks\<close>

definition apply_transfer :: "transfer_tx \<Rightarrow> ledger \<Rightarrow> applied" where
  "apply_transfer tx l =
     (let sender_balance = bal l (tr_from tx) in
      if sender_balance < tr_amount tx + tr_fee tx
        then (Inl (InsufficientFunds sender_balance (tr_amount tx + tr_fee tx)), l)
      else let l1 = put_balance (tr_from tx) (sender_balance - tr_amount tx - tr_fee tx) l;
               l2 = put_nonce (tr_from tx) (tr_nonce tx + 1) l1;
               recipient_balance = bal l2 (tr_to tx)
           in (Inr (), put_balance (tr_to tx) (recipient_balance + tr_amount tx) l2))"

definition apply_timelock :: "node_ext \<Rightarrow> u64 \<Rightarrow> timelock_tx \<Rightarrow> ledger \<Rightarrow> applied" where
  "apply_timelock N block_height tx l =
     (let sender_balance = bal l (tl_from tx) in
      if sender_balance < tl_amount tx + tl_fee tx
        then (Inl (InsufficientFunds sender_balance (tl_amount tx + tl_fee tx)), l)
      else let l1 = put_balance (tl_from tx) (sender_balance - tl_amount tx - tl_fee tx) l;
               l2 = put_nonce (tl_from tx) (tl_nonce tx + 1) l1;
               lock = \<lparr>tlk_tx_hash = node_hash N (TimeLock tx), tlk_from = tl_from tx,
                 tlk_recipient = tl_recipient tx, tlk_amount = tl_amount tx,
                 tlk_unlock_time = tl_unlock_time tx, tlk_created_at_height = block_height\<rparr>
           in (Inr (), l2\<lparr>lg_timelocks := add_timelock lock (lg_timelocks l2)\<rparr>))"

section \<open>Escrows\<close>

definition apply_escrow_create ::
  "u64 \<Rightarrow> escrow_tx \<Rightarrow> address \<Rightarrow> address option \<Rightarrow> balance \<Rightarrow> i64 \<Rightarrow> hash \<Rightarrow> ledger \<Rightarrow> applied" where
  "apply_escrow_create block_height tx recipient arbiter amount timeout conditions_hash l =
     (let sender_balance = bal l (es_from tx) in
      if sender_balance < amount + es_fee tx
        then (Inl (InsufficientFunds sender_balance (amount + es_fee tx)), l)
      else let l1 = put_balance (es_from tx) (sender_balance - amount - es_fee tx) l;
               l2 = put_nonce (es_from tx) (es_nonce tx + 1) l1;
               e = \<lparr>esc_escrow_id = es_escrow_id tx, esc_sender = es_from tx, esc_recipient = recipient,
                 esc_arbiter = arbiter, esc_amount = amount, esc_timeout = timeout,
                 esc_conditions_hash = conditions_hash, esc_status = EscrowActive,
                 esc_created_at_height = block_height, esc_resolved_at_height = None\<rparr>
           in on_escrows (create_escrow e) l2)"

definition apply_escrow_release :: "u64 \<Rightarrow> escrow_tx \<Rightarrow> ledger \<Rightarrow> applied" where
  "apply_escrow_release block_height tx l =
     (case get_escrow (lg_escrows l) (es_escrow_id tx) of
        None \<Rightarrow> (Inl (EscrowFailure EscrowNotFound), l)
      | Some e \<Rightarrow>
          if \<not> can_release (lg_escrows l) (es_escrow_id tx) (es_from tx)
            then (Inl NotAuthorizedReleaseEscrow, l)
          else let l1 = put_balance (esc_recipient e) (bal l (esc_recipient e) + esc_amount e) l
               in on_escrows (update_escrow_status (es_escrow_id tx) EscrowReleased (Some block_height)) l1)"

definition apply_escrow_refund :: "i64 \<Rightarrow> u64 \<Rightarrow> escrow_tx \<Rightarrow> ledger \<Rightarrow> applied" where
  "apply_escrow_refund now block_height tx l =
     (case get_escrow (lg_escrows l) (es_escrow_id tx) of
        None \<Rightarrow> (Inl (EscrowFailure EscrowNotFound), l)
      | Some e \<Rightarrow>
          if \<not> can_refund now (lg_escrows l) (es_escrow_id tx) (es_from tx)
            then (Inl NotAuthorizedRefundEscrow, l)
          else let l1 = put_balance (esc_sender e) (bal l (esc_sender e) + esc_amount e) l
               in on_escrows (update_escrow_status (es_escrow_id tx) EscrowRefunded (Some block_height)) l1)"

section \<open>Channels\<close>

definition apply_channel_open ::
  "u64 \<Rightarrow> channel_tx \<Rightarrow> address \<Rightarrow> address \<Rightarrow> balance \<Rightarrow> balance \<Rightarrow> i64 \<Rightarrow> ledger \<Rightarrow> applied" where
  "apply_channel_open block_height tx participant_a participant_b deposit_a deposit_b timeout l =
     (let initiator_balance = bal l (ch_from tx);
          initiator_deposit = (if ch_from tx = participant_a then deposit_a else deposit_b) in
      if initiator_balance < initiator_deposit + ch_fee tx
        then (Inl (InsufficientFunds initiator_balance (initiator_deposit + ch_fee tx)), l)
      else let l1 = put_balance (ch_from tx) (initiator_balance - initiator_deposit - ch_fee tx) l;
               l2 = put_nonce (ch_from tx) (ch_nonce tx + 1) l1;
               c = \<lparr>chn_channel_id = ch_channel_id tx, chn_participant_a = participant_a,
                 chn_participant_b = participant_b, chn_deposit_a = deposit_a, chn_deposit_b = deposit_b,
                 chn_balance_a = deposit_a, chn_balance_b = deposit_b, chn_sequence = 0,
                 chn_dispute_timeout = timeout, chn_status = ChannelOpen,
                 chn_opened_at_height = block_height, chn_closed_at_height = None,
                 chn_dispute_started_at = None\<rparr>
           in on_channels (open_channel c) l2)"

definition apply_channel_close :: "u64 \<Rightarrow> channel_tx \<Rightarrow> balance \<Rightarrow> balance \<Rightarrow> ledger \<Rightarrow> applied" where
  "apply_channel_close block_height tx final_a final_b l =
     (case get_channel (lg_channels l) (ch_channel_id tx) of
        None \<Rightarrow> (Inl (ChannelFailure ChannelNotFound), l)
      | Some c \<Rightarrow>
          let l1 = put_balance (chn_participant_a c) (bal l (chn_participant_a c) + final_a) l;
              l2 = put_balance (chn_participant_b c) (bal l1 (chn_participant_b c) + final_b) l1
          in on_channels (close_cooperative (ch_channel_id tx) final_a final_b block_height) l2)"

definition apply_channel :: "i64 \<Rightarrow> u64 \<Rightarrow> channel_tx \<Rightarrow> ledger \<Rightarrow> applied" where
  "apply_channel now block_height tx l = (case ch_type tx of
     ChOpen a b deposit_a deposit_b timeout \<Rightarrow>
       apply_channel_open block_height tx a b deposit_a deposit_b timeout l
   | ChUpdate sequence balance_a balance_b \<Rightarrow>
       on_channels (update_channel_state (ch_channel_id tx) sequence balance_a balance_b) l
   | ChCooperativeClose final_a final_b \<Rightarrow> apply_channel_close block_height tx final_a final_b l
   | ChUnilateralClose sequence balance_a balance_b _ \<Rightarrow>
       (case get_channel (lg_channels l) (ch_channel_id tx) of
          None \<Rightarrow> (Inl (ChannelFailure ChannelNotFound), l)
        | Some _ \<Rightarrow> on_channels (start_dispute now (ch_channel_id tx) sequence balance_a balance_b) l))"

definition apply_escrow :: "i64 \<Rightarrow> u64 \<Rightarrow> escrow_tx \<Rightarrow> ledger \<Rightarrow> applied" where
  "apply_escrow now block_height tx l = (case es_type tx of
     EscrowCreate recipient arbiter amount timeout conditions_hash \<Rightarrow>
       apply_escrow_create block_height tx recipient arbiter amount timeout conditions_hash l
   | EscrowRelease \<Rightarrow> apply_escrow_release block_height tx l
   | EscrowRefund \<Rightarrow> apply_escrow_refund now block_height tx l)"

section \<open>Trust lines\<close>

text \<open>The four operations on an existing line share the lookup and the participant check.\<close>

definition as_participant ::
  "trustline_tx \<Rightarrow> (trustline_state, trustline_error, unit) step \<Rightarrow> ledger \<Rightarrow> applied" where
  "as_participant tx f l =
     (case get_trustline (lg_trustlines l) (tu_trustline_id tx) of
        None \<Rightarrow> (Inl (TrustLineFailure TrustLineNotFound), l)
      | Some t \<Rightarrow>
          if \<not> trust_is_participant t (tu_from tx) then (Inl NotAuthorizedTrustLine, l)
          else on_trustlines f l)"

definition new_trustline ::
  "float_ext \<Rightarrow> u64 \<Rightarrow> trustline_tx \<Rightarrow> address \<Rightarrow> balance \<Rightarrow> balance \<Rightarrow> u16 \<Rightarrow> u16 \<Rightarrow> bool \<Rightarrow> u8 \<Rightarrow> trustline" where
  "new_trustline F block_height tx account_b limit_ab limit_ba quality_in quality_out ripple scale =
     update_viviani_oracle F
       \<lparr>tru_trustline_id = tu_trustline_id tx, tru_account_a = tu_from tx, tru_account_b = account_b,
        tru_limit_ab = limit_ab, tru_limit_ba = limit_ba, tru_balance = 0,
        tru_quality_in = quality_in, tru_quality_out = quality_out, tru_ripple_enabled = ripple,
        tru_dimensional_scale = scale, tru_tau = f_zero, tru_viviani_delta = f_zero,
        tru_status = TrustActive, tru_created_at_height = block_height,
        tru_modified_at_height = block_height\<rparr>"

definition apply_trustline :: "node_ext \<Rightarrow> u64 \<Rightarrow> trustline_tx \<Rightarrow> ledger \<Rightarrow> applied" where
  "apply_trustline N block_height tx l =
     (let F = nx_float N; sender_balance = bal l (tu_from tx); i = tu_trustline_id tx in
      if sender_balance < tu_fee tx then (Inl (InsufficientFunds sender_balance (tu_fee tx)), l)
      else let l1 = put_balance (tu_from tx) (sender_balance - tu_fee tx) l;
               l2 = put_nonce (tu_from tx) (tu_nonce tx + 1) l1
           in case tu_type tx of
             TlCreate account_b limit_ab limit_ba quality_in quality_out ripple scale \<Rightarrow>
               on_trustlines (create_trustline (new_trustline F block_height tx account_b limit_ab
                 limit_ba quality_in quality_out ripple scale)) l2
           | TlUpdateLimits limit_ab limit_ba \<Rightarrow>
               as_participant tx (update_limits F i limit_ab limit_ba block_height) l2
           | TlFreeze \<Rightarrow> as_participant tx (freeze_trustline i block_height) l2
           | TlClose \<Rightarrow> as_participant tx (close_trustline i block_height) l2
           | TlEvolvePhase delta_tau \<Rightarrow>
               as_participant tx (evolve_trustline_phase F i delta_tau block_height) l2)"

section \<open>Pool swaps\<close>

definition apply_pool_swap :: "node_ext \<Rightarrow> u64 \<Rightarrow> pool_swap_tx \<Rightarrow> ledger \<Rightarrow> applied" where
  "apply_pool_swap N block_height tx l =
     (let sender_balance = bal l (ps_from tx) in
      if sender_balance < ps_fee tx then (Inl (InsufficientFunds sender_balance (ps_fee tx)), l)
      else let l1 = put_balance (ps_from tx) (sender_balance - ps_fee tx) l;
               l2 = put_nonce (ps_from tx) (ps_nonce tx + 1) l1
           in case execute_swap (ps_pool_from tx) (ps_pool_to tx) (ps_amount_in tx)
                     (ps_min_amount_out tx) block_height (lg_pools l2) of
             (Inl e, st) \<Rightarrow> (Inl (PoolFailure e), l2\<lparr>lg_pools := st\<rparr>)
           | (Inr amount_out, st) \<Rightarrow>
               (Inr (), l2\<lparr>lg_pools := record_swap (node_hash N (DimensionalPoolSwap tx)) (ps_from tx)
                  (ps_pool_from tx) (ps_pool_to tx) (ps_amount_in tx) amount_out block_height st\<rparr>))"

section \<open>Marketplace\<close>

definition apply_submit_problem ::
  "node_ext \<Rightarrow> i64 \<Rightarrow> marketplace_tx \<Rightarrow> problem_type \<Rightarrow> balance \<Rightarrow> f64 \<Rightarrow> u64 \<Rightarrow> rust_str option \<Rightarrow>
   rust_str option \<Rightarrow> ledger \<Rightarrow> applied" where
  "apply_submit_problem N now tx problem bounty min_work_score expiration_days title briefing l =
     (let sender_balance = bal l (mk_from tx); total_needed = mk_fee tx + bounty in
      if sender_balance < total_needed then (Inl (InsufficientFunds sender_balance total_needed), l)
      else let l1 = put_balance (mk_from tx) (sender_balance - total_needed) l in
        case submit_problem (nx_privacy N) now (Public problem) (mk_from tx) bounty min_work_score
               expiration_days title briefing (lg_market l1) of
          (Inl e, st) \<Rightarrow> (Inl (MarketFailure e), l1\<lparr>lg_market := st\<rparr>)
        | (Inr _, st) \<Rightarrow> (Inr (), put_nonce (mk_from tx) (mk_nonce tx + 1) (l1\<lparr>lg_market := st\<rparr>)))"

text \<open>\<open>claim_bounty\<close> followed by the credit of the solver, shared by two branches.\<close>

definition claim_and_pay :: "marketplace_tx \<Rightarrow> hash \<Rightarrow> ledger \<Rightarrow> applied" where
  "claim_and_pay tx problem_id l =
     (case claim_bounty problem_id (lg_market l) of
        (Inl e, st) \<Rightarrow> (Inl (MarketFailure e), l\<lparr>lg_market := st\<rparr>)
      | (Inr (solver, bounty), st) \<Rightarrow>
          let l1 = l\<lparr>lg_market := st\<rparr>;
              l2 = put_balance solver (bal l1 solver + bounty) l1
          in (Inr (), put_nonce (mk_from tx) (mk_nonce tx + 1) l2))"

definition apply_submit_solution ::
  "i64 \<Rightarrow> marketplace_tx \<Rightarrow> hash \<Rightarrow> solution \<Rightarrow> ledger \<Rightarrow> applied option" where
  "apply_submit_solution now tx problem_id sol l =
     (let sender_balance = bal l (mk_from tx) in
      if sender_balance < mk_fee tx then Some (Inl (InsufficientFunds sender_balance (mk_fee tx)), l)
      else let l1 = put_balance (mk_from tx) (sender_balance - mk_fee tx) l in
        case submit_solution now problem_id (mk_from tx) sol (lg_market l1) of None \<Rightarrow> None
        | Some (Inl e, st) \<Rightarrow> Some (Inl (MarketFailure e), l1\<lparr>lg_market := st\<rparr>)
        | Some (Inr _, st) \<Rightarrow> Some (claim_and_pay tx problem_id (l1\<lparr>lg_market := st\<rparr>)))"

definition apply_claim_bounty :: "marketplace_tx \<Rightarrow> hash \<Rightarrow> ledger \<Rightarrow> applied" where
  "apply_claim_bounty tx problem_id l =
     (let sender_balance = bal l (mk_from tx) in
      if sender_balance < mk_fee tx then (Inl (InsufficientFunds sender_balance (mk_fee tx)), l)
      else claim_and_pay tx problem_id (put_balance (mk_from tx) (sender_balance - mk_fee tx) l))"

definition apply_cancel_problem :: "marketplace_tx \<Rightarrow> hash \<Rightarrow> ledger \<Rightarrow> applied" where
  "apply_cancel_problem tx problem_id l =
     (let sender_balance = bal l (mk_from tx) in
      if sender_balance < mk_fee tx then (Inl (InsufficientFunds sender_balance (mk_fee tx)), l)
      else let l1 = put_balance (mk_from tx) (sender_balance - mk_fee tx) l in
        case cancel_problem problem_id (mk_from tx) (lg_market l1) of
          (Inl e, st) \<Rightarrow> (Inl (MarketFailure e), l1\<lparr>lg_market := st\<rparr>)
        | (Inr bounty, st) \<Rightarrow>
            let l2 = l1\<lparr>lg_market := st\<rparr>;
                l3 = put_balance (mk_from tx) (bal l2 (mk_from tx) + bounty) l2
            in (Inr (), put_nonce (mk_from tx) (mk_nonce tx + 1) l3))"

definition apply_marketplace :: "node_ext \<Rightarrow> i64 \<Rightarrow> marketplace_tx \<Rightarrow> ledger \<Rightarrow> applied option" where
  "apply_marketplace N now tx l = (case mk_operation tx of
     SubmitProblem problem bounty min_work_score expiration_days title briefing \<Rightarrow>
       Some (apply_submit_problem N now tx problem bounty min_work_score expiration_days title briefing l)
   | SubmitSolution problem_id sol \<Rightarrow> apply_submit_solution now tx problem_id sol l
   | ClaimBounty problem_id \<Rightarrow> Some (apply_claim_bounty tx problem_id l)
   | CancelProblem problem_id \<Rightarrow> Some (apply_cancel_problem tx problem_id l))"

section \<open>One transaction and one block\<close>

fun apply_single_transaction :: "node_ext \<Rightarrow> i64 \<Rightarrow> u64 \<Rightarrow> transaction \<Rightarrow> ledger \<Rightarrow> applied option" where
  "apply_single_transaction N now h (Transfer tx) l = Some (apply_transfer tx l)"
| "apply_single_transaction N now h (TimeLock tx) l = Some (apply_timelock N h tx l)"
| "apply_single_transaction N now h (Escrow tx) l = Some (apply_escrow now h tx l)"
| "apply_single_transaction N now h (Channel tx) l = Some (apply_channel now h tx l)"
| "apply_single_transaction N now h (TrustLine tx) l = Some (apply_trustline N h tx l)"
| "apply_single_transaction N now h (DimensionalPoolSwap tx) l = Some (apply_pool_swap N h tx l)"
| "apply_single_transaction N now h (Marketplace tx) l = apply_marketplace N now tx l"

text \<open>The loop over the transactions: a failed one is skipped, its writes stay. The clock is read
  at most once per transaction: \<open>clock i\<close> is its value for transaction number \<open>i\<close>.\<close>

fun apply_txs ::
  "node_ext \<Rightarrow> u64 \<Rightarrow> (i64 \<times> transaction) list \<Rightarrow> hash list \<Rightarrow> ledger \<Rightarrow> (hash list \<times> ledger) option" where
  "apply_txs N h [] done l = Some (done, l)"
| "apply_txs N h ((now, tx) # txs) done l =
     (case apply_single_transaction N now h tx l of None \<Rightarrow> None
      | Some (Inr _, l') \<Rightarrow> apply_txs N h txs (done @ [node_hash N tx]) l'
      | Some (Inl _, l') \<Rightarrow> apply_txs N h txs done l')"

definition clocked :: "(nat \<Rightarrow> i64) \<Rightarrow> transaction list \<Rightarrow> (i64 \<times> transaction) list" where
  "clocked clock txs = zip (map clock [0..<length txs]) txs"

definition apply_block_transactions ::
  "node_ext \<Rightarrow> (nat \<Rightarrow> i64) \<Rightarrow> block \<Rightarrow> ledger \<Rightarrow> (hash list \<times> ledger) option" where
  "apply_block_transactions N clock b l =
     (let miner = bh_miner (blk_header b); reward = cb_reward (blk_coinbase b);
          l1 = put_balance miner (bal l miner + reward) l
      in apply_txs N (bh_height (blk_header b)) (clocked clock (blk_transactions b)) [] l1)"

end
