(* ===== verification/Node_Unwind.thy ===== *)
theory Node_Unwind
  imports Node_Ledger
begin

text \<open>
  The reverse direction of the ledger in \<open>node/src/service/block_processing.rs\<close>, used when a
  chain reorganisation drops a block: \<open>unwind_single_transaction\<close> and
  \<open>unwind_block_transactions\<close>. A failed unwind is logged and the loop goes on.
\<close>

section \<open>Definitions\<close>

text \<open>\<open>if current_nonce > 0 { set_nonce(current_nonce - 1) }\<close>.\<close>

definition unbump_nonce :: "address \<Rightarrow> ledger \<Rightarrow> ledger" where
  "unbump_nonce a l =
     (let current_nonce = get_nonce (lg_accounts l) a
      in if 0 < current_nonce then put_nonce a (current_nonce - 1) l else l)"

text \<open>Debit, or set to zero when the balance does not suffice.\<close>

definition debit_floor :: "address \<Rightarrow> balance \<Rightarrow> ledger \<Rightarrow> ledger" where
  "debit_floor a amount l =
     (let b = bal l a in if amount \<le> b then put_balance a (b - amount) l else put_balance a 0 l)"

definition unwind_transfer :: "transfer_tx \<Rightarrow> ledger \<Rightarrow> applied" where
  "unwind_transfer tx l =
     (let sender_balance = bal l (tr_from tx);
          l1 = put_balance (tr_from tx) (sender_balance + tr_amount tx + tr_fee tx) l;
          l2 = unbump_nonce (tr_from tx) l1
      in (Inr (), debit_floor (tr_to tx) (tr_amount tx) l2))"

definition unwind_timelock :: "node_ext \<Rightarrow> timelock_tx \<Rightarrow> ledger \<Rightarrow> applied" where
  "unwind_timelock N tx l =
     (let sender_balance = bal l (tl_from tx);
          l1 = put_balance (tl_from tx) (sender_balance + tl_amount tx + tl_fee tx) l;
          l2 = unbump_nonce (tl_from tx) l1
      in (Inr (), l2\<lparr>lg_timelocks := remove_timelock (node_hash N (TimeLock tx)) (lg_timelocks l2)\<rparr>))"

definition unwind_escrow :: "escrow_tx \<Rightarrow> ledger \<Rightarrow> applied" where
  "unwind_escrow tx l = (case es_type tx of
     EscrowCreate _ _ _ _ _ \<Rightarrow>
       (let sender_balance = bal l (es_from tx) in
        case get_escrow (lg_escrows l) (es_escrow_id tx) of None \<Rightarrow> (Inr (), l)
        | Some e \<Rightarrow> (Inr (), unbump_nonce (es_from tx)
            (put_balance (es_from tx) (sender_balance + esc_amount e + es_fee tx) l)))
   | EscrowRelease \<Rightarrow>
       (case get_escrow (lg_escrows l) (es_escrow_id tx) of None \<Rightarrow> (Inr (), l)
        | Some e \<Rightarrow> on_escrows (update_escrow_status (es_escrow_id tx) EscrowActive None)
            (debit_floor (esc_recipient e) (esc_amount e) l))
   | EscrowRefund \<Rightarrow>
       (case get_escrow (lg_escrows l) (es_escrow_id tx) of None \<Rightarrow> (Inr (), l)
        | Some e \<Rightarrow> on_escrows (update_escrow_status (es_escrow_id tx) EscrowActive None)
            (debit_floor (esc_sender e) (esc_amount e) l)))"

definition unwind_channel :: "channel_tx \<Rightarrow> ledger \<Rightarrow> applied" where
  "unwind_channel tx l = (case ch_type tx of
     ChOpen participant_a _ deposit_a deposit_b _ \<Rightarrow>
       (let initiator_deposit = (if ch_from tx = participant_a then deposit_a else deposit_b);
            initiator_balance = bal l (ch_from tx)
        in (Inr (), unbump_nonce (ch_from tx)
              (put_balance (ch_from tx) (initiator_balance + initiator_deposit + ch_fee tx) l)))
   | ChUpdate _ _ _ \<Rightarrow> (Inr (), l)
   | ChCooperativeClose final_a final_b \<Rightarrow>
       (case get_channel (lg_channels l) (ch_channel_id tx) of None \<Rightarrow> (Inr (), l)
        | Some c \<Rightarrow> (Inr (), debit_floor (chn_participant_b c) final_b
                              (debit_floor (chn_participant_a c) final_a l)))
   | ChUnilateralClose _ _ _ _ \<Rightarrow> (Inr (), l))"

definition unwind_trustline :: "trustline_tx \<Rightarrow> ledger \<Rightarrow> applied" where
  "unwind_trustline tx l =
     (let sender_balance = bal l (tu_from tx)
      in (Inr (), unbump_nonce (tu_from tx) (put_balance (tu_from tx) (sender_balance + tu_fee tx) l)))"

definition unwind_pool_swap :: "pool_swap_tx \<Rightarrow> ledger \<Rightarrow> applied" where
  "unwind_pool_swap tx l =
     (let sender_balance = bal l (ps_from tx)
      in (Inr (), unbump_nonce (ps_from tx) (put_balance (ps_from tx) (sender_balance + ps_fee tx) l)))"

definition unwind_marketplace :: "marketplace_tx \<Rightarrow> ledger \<Rightarrow> applied" where
  "unwind_marketplace tx l =
     (let sender_balance = bal l (mk_from tx);
          l1 = put_balance (mk_from tx) (sender_balance + mk_fee tx) l;
          l2 = unbump_nonce (mk_from tx) l1
      in case mk_operation tx of
           SubmitProblem _ bounty _ _ _ _ \<Rightarrow>
             (Inr (), put_balance (mk_from tx) (sender_balance + mk_fee tx + bounty) l2)
         | SubmitSolution _ _ \<Rightarrow> (Inr (), l2)
         | ClaimBounty _ \<Rightarrow> (Inr (), l2)
         | CancelProblem _ \<Rightarrow> (Inr (), l2))"

fun unwind_single_transaction :: "node_ext \<Rightarrow> transaction \<Rightarrow> ledger \<Rightarrow> applied" where
  "unwind_single_transaction N (Transfer tx) l = unwind_transfer tx l"
| "unwind_single_transaction N (TimeLock tx) l = unwind_timelock N tx l"
| "unwind_single_transaction N (Escrow tx) l = unwind_escrow tx l"
| "unwind_single_transaction N (Channel tx) l = unwind_channel tx l"
| "unwind_single_transaction N (TrustLine tx) l = unwind_trustline tx l"
| "unwind_single_transaction N (DimensionalPoolSwap tx) l = unwind_pool_swap tx l"
| "unwind_single_transaction N (Marketplace tx) l = unwind_marketplace tx l"

definition unwind_block_transactions :: "node_ext \<Rightarrow> block \<Rightarrow> ledger \<Rightarrow> ledger" where
  "unwind_block_transactions N b l =
     (let l1 = fold (\<lambda>tx l. snd (unwind_single_transaction N tx l)) (rev (blk_transactions b)) l;
          miner = bh_miner (blk_header b); reward = cb_reward (blk_coinbase b);
          current_balance = bal l1 miner
      in if reward \<le> current_balance then put_balance miner (current_balance - reward) l1
         else put_balance miner 0 l1)"

section \<open>Observations\<close>

text \<open>Two ledgers that answer every read of the accounts alike and agree elsewhere. (A balance of 0
  that was never stored and one that was stored are told apart by no reader.)\<close>

definition same_reads :: "ledger \<Rightarrow> ledger \<Rightarrow> bool" where
  "same_reads l m \<longleftrightarrow> (\<forall>a. bal l a = bal m a \<and> get_nonce (lg_accounts l) a = get_nonce (lg_accounts m) a) \<and>
     lg_timelocks l = lg_timelocks m \<and> lg_escrows l = lg_escrows m \<and> lg_channels l = lg_channels m \<and>
     lg_trustlines l = lg_trustlines m \<and> lg_pools l = lg_pools m \<and> lg_market l = lg_market m"

lemma bal_put_balance [simp]: "bal (put_balance a b l) c = (if c = a then b else bal l c)"
  by (simp add: bal_def put_balance_def)

lemma bal_put_nonce [simp]: "bal (put_nonce a n l) c = bal l c"
  by (simp add: bal_def put_nonce_def)

lemma nonce_put_balance [simp]:
  "get_nonce (lg_accounts (put_balance a b l)) c = get_nonce (lg_accounts l) c"
  by (simp add: put_balance_def)

lemma nonce_put_nonce [simp]:
  "get_nonce (lg_accounts (put_nonce a n l)) c = (if c = a then n else get_nonce (lg_accounts l) c)"
  by (simp add: put_nonce_def)

lemma put_fields [simp]:
  "lg_timelocks (put_balance a b l) = lg_timelocks l" "lg_timelocks (put_nonce a n l) = lg_timelocks l"
  "lg_escrows (put_balance a b l) = lg_escrows l" "lg_escrows (put_nonce a n l) = lg_escrows l"
  "lg_channels (put_balance a b l) = lg_channels l" "lg_channels (put_nonce a n l) = lg_channels l"
  "lg_trustlines (put_balance a b l) = lg_trustlines l" "lg_trustlines (put_nonce a n l) = lg_trustlines l"
  "lg_pools (put_balance a b l) = lg_pools l" "lg_pools (put_nonce a n l) = lg_pools l"
  "lg_market (put_balance a b l) = lg_market l" "lg_market (put_nonce a n l) = lg_market l"
  by (simp_all add: put_balance_def put_nonce_def)

lemma bal_field_updates [simp]:
  "bal (l\<lparr>lg_timelocks := t\<rparr>) a = bal l a" "bal (l\<lparr>lg_escrows := e\<rparr>) a = bal l a"
  "bal (l\<lparr>lg_channels := c\<rparr>) a = bal l a" "bal (l\<lparr>lg_trustlines := u\<rparr>) a = bal l a"
  "bal (l\<lparr>lg_pools := p\<rparr>) a = bal l a" "bal (l\<lparr>lg_market := m\<rparr>) a = bal l a"
  by (simp_all add: bal_def)

lemma unbump_nonce_fields [simp]:
  "bal (unbump_nonce a l) c = bal l c"
  "lg_timelocks (unbump_nonce a l) = lg_timelocks l" "lg_escrows (unbump_nonce a l) = lg_escrows l"
  "lg_channels (unbump_nonce a l) = lg_channels l" "lg_trustlines (unbump_nonce a l) = lg_trustlines l"
  "lg_pools (unbump_nonce a l) = lg_pools l" "lg_market (unbump_nonce a l) = lg_market l"
  by (simp_all add: unbump_nonce_def Let_def)

lemma nonce_unbump:
  "get_nonce (lg_accounts (unbump_nonce a l)) c =
     (if c = a \<and> 0 < get_nonce (lg_accounts l) a then get_nonce (lg_accounts l) a - 1
      else get_nonce (lg_accounts l) c)"
  by (simp add: unbump_nonce_def Let_def)

lemma debit_floor_fields [simp]:
  "get_nonce (lg_accounts (debit_floor a m l)) c = get_nonce (lg_accounts l) c"
  "lg_timelocks (debit_floor a m l) = lg_timelocks l" "lg_escrows (debit_floor a m l) = lg_escrows l"
  "lg_channels (debit_floor a m l) = lg_channels l" "lg_trustlines (debit_floor a m l) = lg_trustlines l"
  "lg_pools (debit_floor a m l) = lg_pools l" "lg_market (debit_floor a m l) = lg_market l"
  by (simp_all add: debit_floor_def Let_def)

lemma bal_debit_floor:
  "bal (debit_floor a m l) c = (if c = a then saturating_sub_word (bal l a) m else bal l c)"
  by (simp add: debit_floor_def Let_def saturating_sub_word_def)

lemma unat_succ_pos: "n \<noteq> - 1 \<Longrightarrow> 0 < (n :: u64) + 1"
  by (metis add_eq_0_iff2 word_neq_0_conv)

text \<open>Unwinding an applied transfer restores every balance and nonce, when the transfer carried
  the sender's current nonce and the recipient's balance has room for the amount.\<close>

lemma unwind_apply_transfer:
  assumes "apply_transfer tx l = (Inr (), l')"
    and "tr_nonce tx = get_nonce (lg_accounts l) (tr_from tx)" and "tr_nonce tx \<noteq> - 1"
    and room: "uint (bal l (tr_to tx)) + uint (tr_amount tx) < 2 ^ 128"
  shows "same_reads (snd (unwind_transfer tx l')) l"
proof -
  let ?a = "tr_from tx" and ?b = "tr_to tx" and ?m = "tr_amount tx" and ?f = "tr_fee tx"
  have l': "l' = put_balance ?b (bal (put_nonce ?a (tr_nonce tx + 1) (put_balance ?a (bal l ?a - ?m - ?f) l)) ?b + ?m)
      (put_nonce ?a (tr_nonce tx + 1) (put_balance ?a (bal l ?a - ?m - ?f) l))"
    using assms(1) by (auto simp: apply_transfer_def Let_def split: if_splits)
  have pos: "0 < tr_nonce tx + 1" using assms(3) by (rule unat_succ_pos)
  have "?m \<le> bal l ?b + ?m"
    using room uint_add_fits[of "bal l ?b" ?m] by (simp add: word_le_def)
  then have rb: "saturating_sub_word (bal l ?b + ?m) ?m = bal l ?b"
    by (simp add: saturating_sub_word_def)
  then have rb': "saturating_sub_word (?m + bal l ?b) ?m = bal l ?b"
    by (simp add: add.commute)
  have bals: "bal (snd (unwind_transfer tx l')) c = bal l c" for c
    by (cases "?a = ?b") (auto simp: unwind_transfer_def l' bal_debit_floor rb rb' algebra_simps Let_def)
  have "get_nonce (lg_accounts (snd (unwind_transfer tx l'))) c = get_nonce (lg_accounts l) c" for c
    using pos assms(2) by (simp add: unwind_transfer_def l' nonce_unbump Let_def)
  with bals show ?thesis by (simp add: same_reads_def unwind_transfer_def l' Let_def)
qed

text \<open>The same for a time lock whose hash was not in use.\<close>

lemma remove_add_timelock:
  assumes "tbl_ok st" and "get_timelock st (tlk_tx_hash k) = None"
  shows "remove_timelock (tlk_tx_hash k) (add_timelock k st) = st"
  unfolding remove_timelock_def add_timelock_def
  using assms by (intro tbl.titer_unique) (auto simp: tbl_ok_put tbl_ok_del get_timelock_def)

lemma unwind_apply_timelock:
  assumes "apply_timelock N h tx l = (Inr (), l')"
    and "tl_nonce tx = get_nonce (lg_accounts l) (tl_from tx)" and "tl_nonce tx \<noteq> - 1"
    and "tbl_ok (lg_timelocks l)" and "get_timelock (lg_timelocks l) (node_hash N (TimeLock tx)) = None"
  shows "same_reads (snd (unwind_timelock N tx l')) l"
proof -
  let ?a = "tl_from tx" and ?m = "tl_amount tx" and ?f = "tl_fee tx" and ?i = "node_hash N (TimeLock tx)"
  define k where "k = \<lparr>tlk_tx_hash = ?i, tlk_from = ?a, tlk_recipient = tl_recipient tx,
    tlk_amount = ?m, tlk_unlock_time = tl_unlock_time tx, tlk_created_at_height = h\<rparr>"
  have k: "tlk_tx_hash k = ?i" by (simp add: k_def)
  have l': "l' = (put_nonce ?a (tl_nonce tx + 1)
      (put_balance ?a (bal l ?a - ?m - ?f) l))\<lparr>lg_timelocks := add_timelock k (lg_timelocks l)\<rparr>"
    using assms(1) by (auto simp: apply_timelock_def k_def Let_def split: if_splits)
  have pos: "0 < tl_nonce tx + 1" using assms(3) by (rule unat_succ_pos)
  have lk: "remove_timelock ?i (add_timelock k (lg_timelocks l)) = lg_timelocks l"
    using remove_add_timelock[OF assms(4), of k] assms(5) k by simp
  have bals: "bal (snd (unwind_timelock N tx l')) c = bal l c" for c
    by (auto simp: unwind_timelock_def l' algebra_simps Let_def)
  have "get_nonce (lg_accounts (snd (unwind_timelock N tx l'))) c = get_nonce (lg_accounts l) c" for c
    using pos assms(2) by (simp add: unwind_timelock_def l' nonce_unbump put_balance_def put_nonce_def unbump_nonce_def Let_def)
  with bals lk show ?thesis by (simp add: same_reads_def unwind_timelock_def l' Let_def)
qed

text \<open>The unwinding loop does not know which transactions were skipped: a transfer that failed for
  lack of funds is credited back all the same.\<close>

lemma unwind_skipped_transfer:
  assumes "apply_transfer tx l = (Inl e, l')" and "tr_from tx \<noteq> tr_to tx"
  shows "l' = l" and "bal (snd (unwind_transfer tx l')) (tr_from tx) =
      bal l (tr_from tx) + tr_amount tx + tr_fee tx"
  using assms
  by (auto simp: apply_transfer_def unwind_transfer_def bal_debit_floor Let_def split: if_splits)

end
