(* ===== verification/Node_Supply.thy ===== *)
theory Node_Supply
  imports Node_Unwind
begin

text \<open>
  The money of the ledger: balances, time locks, active escrows and marketplace bounties, summed
  exactly over the integers. The lemmas say what each branch of
  \<open>apply_single_transaction\<close> does to that sum, that no credit overflows while the sum is below
  \<open>2 ^ 128\<close>, and that the stores stay well formed. Channels are the exception: the code pays out
  of a channel what was never put in, so they are treated apart.
\<close>

section \<open>Supply\<close>

definition money :: "ledger \<Rightarrow> int" where
  "money l = total_balance (lg_accounts l) + total_timelocked (lg_timelocks l) +
     total_escrowed (lg_escrows l) + total_bounties (lg_market l)"

definition ledger_ok :: "ledger \<Rightarrow> bool" where
  "ledger_ok l \<longleftrightarrow> account_ok (lg_accounts l) \<and> tbl_ok (lg_timelocks l) \<and> escrow_ok (lg_escrows l) \<and>
     channels_wf (lg_channels l) \<and> market_ok (lg_market l)"

lemma total_timelocked_nonneg [simp]: "0 \<le> total_timelocked st"
  by (simp add: total_timelocked_def tbl_sum_nonneg)

lemma total_escrowed_nonneg [simp]: "0 \<le> total_escrowed st"
  unfolding total_escrowed_def by (rule tbl_sum_nonneg) (simp add: active_amount_def)

lemma total_bounties_nonneg [simp]: "0 \<le> total_bounties st"
  by (simp add: total_bounties_def tbl_sum_nonneg)

lemma money_put_balance:
  "account_ok (lg_accounts l) \<Longrightarrow> money (put_balance a b l) = money l - uint (bal l a) + uint b"
  by (simp add: money_def put_balance_def bal_def)

lemma money_put_nonce [simp]: "money (put_nonce a n l) = money l"
  by (simp add: money_def put_nonce_def)

lemma account_ok_put [simp]:
  "account_ok (lg_accounts l) \<Longrightarrow> account_ok (lg_accounts (put_balance a b l))"
  "account_ok (lg_accounts l) \<Longrightarrow> account_ok (lg_accounts (put_nonce a n l))"
  by (simp_all add: put_balance_def put_nonce_def)

lemma ledger_ok_put [simp]:
  "ledger_ok l \<Longrightarrow> ledger_ok (put_balance a b l)" "ledger_ok l \<Longrightarrow> ledger_ok (put_nonce a n l)"
  by (simp_all add: ledger_ok_def)

lemma bal_plus_le_money:
  "uint (bal l a) + total_timelocked (lg_timelocks l) + total_escrowed (lg_escrows l) +
     total_bounties (lg_market l) \<le> money l"
  using balance_le_total[of "lg_accounts l" a] by (simp add: money_def bal_def)

lemma bal_le_money: "uint (bal l a) \<le> money l"
  using bal_plus_le_money[of l a] total_timelocked_nonneg[of "lg_timelocks l"]
    total_escrowed_nonneg[of "lg_escrows l"] total_bounties_nonneg[of "lg_market l"] by linarith

text \<open>A debit of two amounts whose sum does not wrap, and a credit that fits.\<close>

lemma uint_debit:
  fixes b m f :: u128
  assumes "\<not> b < m + f" and "uint m + uint f < 2 ^ 128"
  shows "uint (b - m - f) = uint b - uint m - uint f"
proof -
  have "uint (m + f) = uint m + uint f" using assms(2) by (intro uint_add_fits) simp
  moreover have "uint (b - (m + f)) = uint b - uint (m + f)"
    using assms(1) by (intro uint_sub_le) (simp add: not_less)
  ultimately show ?thesis by (simp add: diff_diff_eq)
qed

lemma money_credit:
  assumes "account_ok (lg_accounts l)" and "uint (bal l a) + uint m < 2 ^ 128"
  shows "money (put_balance a (bal l a + m) l) = money l + uint m"
  using assms uint_add_fits[of "bal l a" m] by (simp add: money_put_balance)

lemma money_debit:
  assumes "account_ok (lg_accounts l)" and "\<not> bal l a < m + f" and "uint m + uint f < 2 ^ 128"
  shows "money (put_balance a (bal l a - m - f) l) = money l - uint m - uint f"
  using assms uint_debit[OF assms(2,3)] by (simp add: money_put_balance)

lemma money_fee:
  assumes "account_ok (lg_accounts l)" and "\<not> bal l a < f"
  shows "money (put_balance a (bal l a - f) l) = money l - uint f"
  using assms uint_sub_le[of f "bal l a"] by (simp add: money_put_balance not_less)

lemma money_fields [simp]:
  "money (l\<lparr>lg_channels := c\<rparr>) = money l" "money (l\<lparr>lg_trustlines := u\<rparr>) = money l"
  "money (l\<lparr>lg_pools := p\<rparr>) = money l"
  by (simp_all add: money_def)

lemma money_timelocks:
  "money (l\<lparr>lg_timelocks := t\<rparr>) = money l - total_timelocked (lg_timelocks l) + total_timelocked t"
  by (simp add: money_def)

lemma money_escrows:
  "money (l\<lparr>lg_escrows := t\<rparr>) = money l - total_escrowed (lg_escrows l) + total_escrowed t"
  by (simp add: money_def)

lemma money_market:
  "money (l\<lparr>lg_market := t\<rparr>) = money l - total_bounties (lg_market l) + total_bounties t"
  by (simp add: money_def)

section \<open>The branches\<close>

lemma apply_transfer_money:
  assumes "apply_transfer tx l = (r, l')" and "ledger_ok l" and "money l < 2 ^ 128"
    and "uint (tr_amount tx) + uint (tr_fee tx) < 2 ^ 128"
  shows "money l' = money l - (if is_ok r then uint (tr_fee tx) else 0)"
proof (cases "bal l (tr_from tx) < tr_amount tx + tr_fee tx")
  case True
  with assms(1) show ?thesis by (auto simp: apply_transfer_def Let_def)
next
  case False
  have ok: "account_ok (lg_accounts l)" using assms(2) by (simp add: ledger_ok_def)
  let ?l2 = "put_nonce (tr_from tx) (tr_nonce tx + 1)
    (put_balance (tr_from tx) (bal l (tr_from tx) - tr_amount tx - tr_fee tx) l)"
  have s2: "money ?l2 = money l - uint (tr_amount tx) - uint (tr_fee tx)"
    using money_debit[OF ok False assms(4)] by simp
  have "uint (bal ?l2 (tr_to tx)) + uint (tr_amount tx) < 2 ^ 128"
    using bal_le_money[of ?l2 "tr_to tx"] s2 assms(3) uint_ge_0[of "tr_fee tx"] by linarith
  then have "money (put_balance (tr_to tx) (bal ?l2 (tr_to tx) + tr_amount tx) ?l2) =
      money ?l2 + uint (tr_amount tx)"
    using ok by (intro money_credit) simp_all
  moreover have "r = Inr ()" and "l' = put_balance (tr_to tx) (bal ?l2 (tr_to tx) + tr_amount tx) ?l2"
    using assms(1) False by (auto simp: apply_transfer_def Let_def)
  ultimately show ?thesis using s2 by simp
qed

lemma apply_timelock_money:
  assumes "apply_timelock N h tx l = (r, l')" and "ledger_ok l"
    and "uint (tl_amount tx) + uint (tl_fee tx) < 2 ^ 128"
  shows "money l' = money l - (if is_ok r then uint (tl_fee tx) +
    (case get_timelock (lg_timelocks l) (node_hash N (TimeLock tx)) of None \<Rightarrow> 0
     | Some old \<Rightarrow> uint (tlk_amount old)) else 0)"
proof (cases "bal l (tl_from tx) < tl_amount tx + tl_fee tx")
  case True
  with assms(1) show ?thesis by (auto simp: apply_timelock_def Let_def)
next
  case False
  have ok: "account_ok (lg_accounts l)" and tok: "tbl_ok (lg_timelocks l)"
    using assms(2) by (simp_all add: ledger_ok_def)
  show ?thesis
    using assms(1) False money_debit[OF ok False assms(3)] total_timelocked_add[OF tok]
    by (auto simp: apply_timelock_def Let_def money_timelocks)
qed

lemma on_escrows_create_money:
  assumes "on_escrows (create_escrow e) l = (r, l')" and "ledger_ok l" and "esc_status e = EscrowActive"
  shows "money l' = money l + (if is_ok r then uint (esc_amount e) else 0)"
proof -
  obtain q st where q: "create_escrow e (lg_escrows l) = (q, st)" by (cases "create_escrow e (lg_escrows l)")
  have eok: "escrow_ok (lg_escrows l)" using assms(2) by (simp add: ledger_ok_def)
  show ?thesis
  proof (cases q)
    case (Inl err)
    with q have "st = lg_escrows l" using escrow_error_unchanged(3) by blast
    with assms(1) q Inl show ?thesis by (auto simp: on_escrows_def)
  next
    case (Inr u)
    with q total_escrowed_create[OF eok] assms show ?thesis
      by (auto simp: on_escrows_def money_escrows active_amount_def)
  qed
qed

lemma apply_escrow_create_money:
  assumes "apply_escrow_create h tx rc ar m t c l = (r, l')" and "ledger_ok l"
    and "uint m + uint (es_fee tx) < 2 ^ 128"
  shows "money l' = money l - (if is_ok r then uint (es_fee tx)
    else if bal l (es_from tx) < m + es_fee tx then 0 else uint m + uint (es_fee tx))"
proof (cases "bal l (es_from tx) < m + es_fee tx")
  case True
  with assms(1) show ?thesis by (auto simp: apply_escrow_create_def Let_def)
next
  case False
  have ok: "account_ok (lg_accounts l)" using assms(2) by (simp add: ledger_ok_def)
  let ?l2 = "put_nonce (es_from tx) (es_nonce tx + 1)
    (put_balance (es_from tx) (bal l (es_from tx) - m - es_fee tx) l)"
  obtain e where e: "on_escrows (create_escrow e) ?l2 = (r, l')" "esc_status e = EscrowActive" "esc_amount e = m"
    using assms(1) False by (auto simp: apply_escrow_create_def Let_def)
  have "ledger_ok ?l2" using assms(2) by simp
  from on_escrows_create_money[OF e(1) this e(2)] e(3) money_debit[OF ok False assms(3)] False
  show ?thesis by simp
qed

text \<open>Paying an active escrow out moves its amount, and does not overflow.\<close>

lemma escrow_pay_money:
  assumes "ledger_ok l" and "money l < 2 ^ 128" and e: "get_escrow (lg_escrows l) i = Some e"
    and act: "esc_status e = EscrowActive" and s: "s \<noteq> EscrowActive"
    and ap: "on_escrows (update_escrow_status i s h) (put_balance a (bal l a + esc_amount e) l) = (r, l')"
  shows "r = Inr () \<and> money l' = money l"
proof -
  have ok: "account_ok (lg_accounts l)" and eok: "escrow_ok (lg_escrows l)"
    using assms(1) by (simp_all add: ledger_ok_def)
  have "uint (esc_amount e) \<le> total_escrowed (lg_escrows l)"
    using tbl_sum_ge[of "lg_escrows l" i e active_amount] e act
    by (simp add: total_escrowed_def get_escrow_def active_amount_def)
  then have "uint (bal l a) + uint (esc_amount e) < 2 ^ 128"
    using bal_plus_le_money[of l a] assms(2) total_timelocked_nonneg[of "lg_timelocks l"]
      total_bounties_nonneg[of "lg_market l"] by linarith
  note cr = money_credit[OF ok this]
  obtain st where st: "update_escrow_status i s h (lg_escrows l) = (Inr (), st)"
    using e by (auto simp: update_escrow_status_def)
  from total_escrowed_update[OF eok e st] act s
  have "total_escrowed st = total_escrowed (lg_escrows l) - uint (esc_amount e)"
    by (simp add: active_amount_def)
  with ap st cr show ?thesis by (auto simp: on_escrows_def money_escrows)
qed

lemma apply_escrow_money:
  assumes ap: "apply_escrow now h tx l = (r, l')" and "ledger_ok l" and "money l < 2 ^ 128"
    and fits: "\<And>rc ar m t c. es_type tx = EscrowCreate rc ar m t c \<Longrightarrow> uint m + uint (es_fee tx) < 2 ^ 128"
  shows "money l' \<le> money l"
    and "is_ok r \<Longrightarrow> money l' = money l -
      (case es_type tx of EscrowCreate _ _ _ _ _ \<Rightarrow> uint (es_fee tx) | _ \<Rightarrow> 0)"
proof -
  have "money l' \<le> money l \<and> (is_ok r \<longrightarrow> money l' = money l -
      (case es_type tx of EscrowCreate _ _ _ _ _ \<Rightarrow> uint (es_fee tx) | _ \<Rightarrow> 0))"
  proof (cases "es_type tx")
    case (EscrowCreate rc ar m t c)
    then have "apply_escrow_create h tx rc ar m t c l = (r, l')" using ap by (simp add: apply_escrow_def)
    from apply_escrow_create_money[OF this assms(2) fits[OF EscrowCreate]] EscrowCreate
      uint_ge_0[of "es_fee tx"] uint_ge_0[of m]
    show ?thesis by auto
  next
    case EscrowRelease
    show ?thesis
    proof (cases "can_release (lg_escrows l) (es_escrow_id tx) (es_from tx)")
      case True
      then obtain e where e: "get_escrow (lg_escrows l) (es_escrow_id tx) = Some e" "esc_status e = EscrowActive"
        by (auto simp: can_release_iff)
      with True EscrowRelease ap escrow_pay_money[OF assms(2,3) e(1,2), of EscrowReleased]
      show ?thesis by (simp add: apply_escrow_def apply_escrow_release_def Let_def)
    next
      case False
      with EscrowRelease ap show ?thesis
        by (auto simp: apply_escrow_def apply_escrow_release_def split: option.splits)
    qed
  next
    case EscrowRefund
    show ?thesis
    proof (cases "can_refund now (lg_escrows l) (es_escrow_id tx) (es_from tx)")
      case True
      then obtain e where e: "get_escrow (lg_escrows l) (es_escrow_id tx) = Some e" "esc_status e = EscrowActive"
        by (auto simp: can_refund_iff)
      with True EscrowRefund ap escrow_pay_money[OF assms(2,3) e(1,2), of EscrowRefunded]
      show ?thesis by (simp add: apply_escrow_def apply_escrow_refund_def Let_def)
    next
      case False
      with EscrowRefund ap show ?thesis
        by (auto simp: apply_escrow_def apply_escrow_refund_def split: option.splits)
    qed
  qed
  then show "money l' \<le> money l" and "is_ok r \<Longrightarrow> money l' = money l -
      (case es_type tx of EscrowCreate _ _ _ _ _ \<Rightarrow> uint (es_fee tx) | _ \<Rightarrow> 0)" by blast+
qed

lemma on_trustlines_money [simp]: "on_trustlines f l = (r, l') \<Longrightarrow> money l' = money l"
  by (auto simp: on_trustlines_def split: prod.splits sum.splits)

lemma as_participant_money: "as_participant tx f l = (r, l') \<Longrightarrow> money l' = money l"
  by (auto simp: as_participant_def split: option.splits if_splits)

lemma apply_trustline_money:
  assumes "apply_trustline N h tx l = (r, l')" and "ledger_ok l"
  shows "money l' = money l - (if bal l (tu_from tx) < tu_fee tx then 0 else uint (tu_fee tx))"
    and "is_ok r \<Longrightarrow> \<not> bal l (tu_from tx) < tu_fee tx"
proof -
  have ok: "account_ok (lg_accounts l)" using assms(2) by (simp add: ledger_ok_def)
  show "money l' = money l - (if bal l (tu_from tx) < tu_fee tx then 0 else uint (tu_fee tx))"
  proof (cases "bal l (tu_from tx) < tu_fee tx")
    case True
    with assms(1) show ?thesis by (auto simp: apply_trustline_def Let_def)
  next
    case False
    let ?l2 = "put_nonce (tu_from tx) (tu_nonce tx + 1) (put_balance (tu_from tx) (bal l (tu_from tx) - tu_fee tx) l)"
    have "money l' = money ?l2"
      using assms(1) False
      by (cases "tu_type tx")
         (simp_all add: apply_trustline_def Let_def as_participant_money on_trustlines_money)
    with False money_fee[OF ok False] show ?thesis by simp
  qed
  show "is_ok r \<Longrightarrow> \<not> bal l (tu_from tx) < tu_fee tx"
    using assms(1) by (auto simp: apply_trustline_def Let_def)
qed

lemma apply_pool_swap_money:
  assumes "apply_pool_swap N h tx l = (r, l')" and "ledger_ok l"
  shows "money l' = money l - (if bal l (ps_from tx) < ps_fee tx then 0 else uint (ps_fee tx))"
    and "is_ok r \<Longrightarrow> \<not> bal l (ps_from tx) < ps_fee tx"
proof -
  have ok: "account_ok (lg_accounts l)" using assms(2) by (simp add: ledger_ok_def)
  show "money l' = money l - (if bal l (ps_from tx) < ps_fee tx then 0 else uint (ps_fee tx))"
  proof (cases "bal l (ps_from tx) < ps_fee tx")
    case True
    with assms(1) show ?thesis by (auto simp: apply_pool_swap_def Let_def)
  next
    case False
    with assms(1) money_fee[OF ok False] show ?thesis
      by (auto simp: apply_pool_swap_def Let_def split: prod.splits sum.splits)
  qed
  show "is_ok r \<Longrightarrow> \<not> bal l (ps_from tx) < ps_fee tx"
    using assms(1) by (auto simp: apply_pool_swap_def Let_def)
qed

text \<open>Taking a bounty out of the market and crediting it.\<close>

lemma market_pay_money:
  assumes "account_ok (lg_accounts l)" and "money l < 2 ^ 128"
    and "tbl_get (ms_escrow (lg_market l)) i = Some b"
    and "total_bounties st = total_bounties (lg_market l) - uint b"
  shows "money (put_balance a (bal (l\<lparr>lg_market := st\<rparr>) a + b) (l\<lparr>lg_market := st\<rparr>)) = money l"
proof -
  let ?l = "l\<lparr>lg_market := st\<rparr>"
  have m: "money ?l = money l - uint b" using assms(4) by (simp add: money_market)
  have "uint (bal ?l a) + uint b < 2 ^ 128"
    using bal_le_money[of ?l a] m assms(2) by linarith
  with money_credit[of ?l a b] assms(1) m show ?thesis by simp
qed

lemma claim_and_pay_money:
  assumes "claim_and_pay tx i l = (r, l')" and "ledger_ok l" and "money l < 2 ^ 128"
  shows "money l' = money l"
proof -
  have ok: "account_ok (lg_accounts l)" and mok: "market_ok (lg_market l)"
    using assms(2) by (simp_all add: ledger_ok_def)
  obtain q st where q: "claim_bounty i (lg_market l) = (q, st)" by (cases "claim_bounty i (lg_market l)")
  show ?thesis
  proof (cases q)
    case (Inl e)
    with q claim_bounty_Inl have "st = lg_market l" by blast
    with assms(1) q Inl show ?thesis by (auto simp: claim_and_pay_def)
  next
    case (Inr ab)
    obtain a b where ab: "ab = (a, b)" by (cases ab)
    have "tbl_get (ms_escrow (lg_market l)) i = Some b"
      using q Inr ab by (auto simp: claim_bounty_Inr)
    from market_pay_money[OF ok assms(3) this, of st a] total_bounties_claim[OF mok, of i a b st]
    show ?thesis using assms(1) q Inr ab by (auto simp: claim_and_pay_def Let_def)
  qed
qed

lemma minus_uint_le: "- uint (a :: u128) \<le> uint (b :: u128)"
  using uint_ge_0[of a] uint_ge_0[of b] by linarith

lemma apply_submit_problem_money:
  assumes "apply_submit_problem N now tx p b w d t br l = (r, l')" and "ledger_ok l"
    and "uint (mk_fee tx) + uint b < 2 ^ 128"
  shows "money l' \<le> money l" and "is_ok r \<Longrightarrow> money l' = money l - uint (mk_fee tx)"
proof -
  have ok: "account_ok (lg_accounts l)" and mok: "market_ok (lg_market l)"
    using assms(2) by (simp_all add: ledger_ok_def)
  have "money l' \<le> money l \<and> (is_ok r \<longrightarrow> money l' = money l - uint (mk_fee tx))"
  proof (cases "bal l (mk_from tx) < mk_fee tx + b")
    case True
    with assms(1) show ?thesis by (auto simp: apply_submit_problem_def Let_def)
  next
    case False
    have deb: "money (put_balance (mk_from tx) (bal l (mk_from tx) - (mk_fee tx + b)) l) =
        money l - uint (mk_fee tx) - uint b"
      using money_debit[OF ok False assms(3)] by (simp add: diff_diff_eq)
    obtain q st where q: "submit_problem (nx_privacy N) now (Public p) (mk_from tx) b w d t br (lg_market l) = (q, st)"
      by (cases "submit_problem (nx_privacy N) now (Public p) (mk_from tx) b w d t br (lg_market l)")
    show ?thesis
    proof (cases q)
      case (Inl e)
      with q submit_problem_Inl have "st = lg_market l" by blast
      with assms(1) False q Inl deb show ?thesis
        by (auto simp: apply_submit_problem_def Let_def money_market minus_uint_le)
    next
      case (Inr i)
      have "total_bounties st = total_bounties (lg_market l) + uint b"
        using total_bounties_submit[OF mok] q Inr by blast
      with assms(1) False q Inr deb show ?thesis
        by (auto simp: apply_submit_problem_def Let_def money_market)
    qed
  qed
  then show "money l' \<le> money l" and "is_ok r \<Longrightarrow> money l' = money l - uint (mk_fee tx)" by blast+
qed

lemma ledger_ok_market [simp]:
  "ledger_ok l \<Longrightarrow> market_ok st \<Longrightarrow> ledger_ok (l\<lparr>lg_market := st\<rparr>)"
  by (simp add: ledger_ok_def)

lemma apply_claim_bounty_money:
  assumes "apply_claim_bounty tx i l = (r, l')" and "ledger_ok l" and "money l < 2 ^ 128"
  shows "money l' \<le> money l" and "is_ok r \<Longrightarrow> money l' = money l - uint (mk_fee tx)"
proof -
  have ok: "account_ok (lg_accounts l)" using assms(2) by (simp add: ledger_ok_def)
  have "money l' \<le> money l \<and> (is_ok r \<longrightarrow> money l' = money l - uint (mk_fee tx))"
  proof (cases "bal l (mk_from tx) < mk_fee tx")
    case True
    with assms(1) show ?thesis by (auto simp: apply_claim_bounty_def Let_def)
  next
    case False
    let ?l1 = "put_balance (mk_from tx) (bal l (mk_from tx) - mk_fee tx) l"
    have "claim_and_pay tx i ?l1 = (r, l')"
      using assms(1) False by (simp add: apply_claim_bounty_def Let_def)
    moreover have "money ?l1 < 2 ^ 128"
      using money_fee[OF ok False] assms(3) uint_ge_0[of "mk_fee tx"] by linarith
    ultimately have "money l' = money ?l1" using assms(2) by (intro claim_and_pay_money) simp_all
    with money_fee[OF ok False] show ?thesis by simp
  qed
  then show "money l' \<le> money l" and "is_ok r \<Longrightarrow> money l' = money l - uint (mk_fee tx)" by blast+
qed

lemma apply_submit_solution_money:
  assumes "apply_submit_solution now tx i sol l = Some (r, l')" and "ledger_ok l" and "money l < 2 ^ 128"
  shows "money l' \<le> money l" and "is_ok r \<Longrightarrow> money l' = money l - uint (mk_fee tx)"
proof -
  have ok: "account_ok (lg_accounts l)" and mok: "market_ok (lg_market l)"
    using assms(2) by (simp_all add: ledger_ok_def)
  have "money l' \<le> money l \<and> (is_ok r \<longrightarrow> money l' = money l - uint (mk_fee tx))"
  proof (cases "bal l (mk_from tx) < mk_fee tx")
    case True
    with assms(1) show ?thesis by (auto simp: apply_submit_solution_def Let_def)
  next
    case False
    let ?l1 = "put_balance (mk_from tx) (bal l (mk_from tx) - mk_fee tx) l"
    obtain q st where q: "submit_solution now i (mk_from tx) sol (lg_market l) = Some (q, st)"
      using assms(1) False by (auto simp: apply_submit_solution_def Let_def split: option.splits)
    note tb = total_bounties_solution[OF q] and sok = submit_solution_ok[OF mok q]
    have m1: "money (?l1\<lparr>lg_market := st\<rparr>) = money l - uint (mk_fee tx)"
      using tb money_fee[OF ok False] by (simp add: money_market)
    show ?thesis
    proof (cases q)
      case (Inl e)
      with assms(1) False q m1 show ?thesis
        by (auto simp: apply_submit_solution_def Let_def)
    next
      case (Inr u)
      have "claim_and_pay tx i (?l1\<lparr>lg_market := st\<rparr>) = (r, l')"
        using assms(1) False q Inr by (simp add: apply_submit_solution_def Let_def)
      moreover have "money (?l1\<lparr>lg_market := st\<rparr>) < 2 ^ 128"
        using m1 assms(3) uint_ge_0[of "mk_fee tx"] by linarith
      ultimately have "money l' = money (?l1\<lparr>lg_market := st\<rparr>)"
        using sok assms(2) by (intro claim_and_pay_money) simp_all
      with m1 show ?thesis by simp
    qed
  qed
  then show "money l' \<le> money l" and "is_ok r \<Longrightarrow> money l' = money l - uint (mk_fee tx)" by blast+
qed

lemma apply_cancel_problem_money:
  assumes "apply_cancel_problem tx i l = (r, l')" and "ledger_ok l" and "money l < 2 ^ 128"
  shows "money l' \<le> money l" and "is_ok r \<Longrightarrow> money l' = money l - uint (mk_fee tx)"
proof -
  have ok: "account_ok (lg_accounts l)" and mok: "market_ok (lg_market l)"
    using assms(2) by (simp_all add: ledger_ok_def)
  have "money l' \<le> money l \<and> (is_ok r \<longrightarrow> money l' = money l - uint (mk_fee tx))"
  proof (cases "bal l (mk_from tx) < mk_fee tx")
    case True
    with assms(1) show ?thesis by (auto simp: apply_cancel_problem_def Let_def)
  next
    case False
    let ?l1 = "put_balance (mk_from tx) (bal l (mk_from tx) - mk_fee tx) l"
    note fee = money_fee[OF ok False]
    obtain q st where q: "cancel_problem i (mk_from tx) (lg_market l) = (q, st)"
      by (cases "cancel_problem i (mk_from tx) (lg_market l)")
    show ?thesis
    proof (cases q)
      case (Inl e)
      with q cancel_problem_Inl have "st = lg_market l" by blast
      with assms(1) False q Inl fee show ?thesis
        by (auto simp: apply_cancel_problem_def Let_def money_market)
    next
      case (Inr b)
      have "tbl_get (ms_escrow (lg_market ?l1)) i = Some b"
        using q Inr by (auto simp: cancel_problem_Inr)
      moreover have "total_bounties st = total_bounties (lg_market ?l1) - uint b"
        using total_bounties_cancel[OF mok, of i _ b st] q Inr by simp
      moreover have "money ?l1 < 2 ^ 128" using fee assms(3) uint_ge_0[of "mk_fee tx"] by linarith
      ultimately have "money (put_balance (mk_from tx) (bal (?l1\<lparr>lg_market := st\<rparr>) (mk_from tx) + b)
          (?l1\<lparr>lg_market := st\<rparr>)) = money ?l1"
        using ok by (intro market_pay_money) simp_all
      with assms(1) False q Inr fee show ?thesis
        by (auto simp: apply_cancel_problem_def Let_def)
    qed
  qed
  then show "money l' \<le> money l" and "is_ok r \<Longrightarrow> money l' = money l - uint (mk_fee tx)" by blast+
qed

end
