(* ===== verification/Node_Chain.thy ===== *)
theory Node_Chain
  imports Node_Supply
begin

text \<open>
  Whole transactions, blocks and chains of blocks: the well-formedness of the ledger is an
  invariant of every transaction, and the money of the ledger grows by at most the coinbase
  rewards. Both are obtained by interpreting \<open>budgeted\<close>, once for the transactions of a block and
  once for the blocks of a chain.
  Then the escrow and channel machines, lifted to the ledger.
\<close>

section \<open>Well-formedness\<close>

lemma ledger_ok_fields [simp]:
  "ledger_ok l \<Longrightarrow> ledger_ok (l\<lparr>lg_trustlines := u\<rparr>)"
  "ledger_ok l \<Longrightarrow> ledger_ok (l\<lparr>lg_pools := p\<rparr>)"
  "ledger_ok l \<Longrightarrow> channels_wf c \<Longrightarrow> ledger_ok (l\<lparr>lg_channels := c\<rparr>)"
  "ledger_ok l \<Longrightarrow> escrow_ok e \<Longrightarrow> ledger_ok (l\<lparr>lg_escrows := e\<rparr>)"
  "ledger_ok l \<Longrightarrow> tbl_ok t \<Longrightarrow> ledger_ok (l\<lparr>lg_timelocks := t\<rparr>)"
  by (simp_all add: ledger_ok_def)

lemma ledger_ok_parts:
  "ledger_ok l \<Longrightarrow> account_ok (lg_accounts l)" "ledger_ok l \<Longrightarrow> tbl_ok (lg_timelocks l)"
  "ledger_ok l \<Longrightarrow> escrow_ok (lg_escrows l)" "ledger_ok l \<Longrightarrow> channels_wf (lg_channels l)"
  "ledger_ok l \<Longrightarrow> market_ok (lg_market l)"
  by (simp_all add: ledger_ok_def)

lemma on_trustlines_ok: "on_trustlines f l = (r, l') \<Longrightarrow> ledger_ok l \<Longrightarrow> ledger_ok l'"
  by (auto simp: on_trustlines_def split: prod.splits sum.splits)

lemma as_participant_ok: "as_participant tx f l = (r, l') \<Longrightarrow> ledger_ok l \<Longrightarrow> ledger_ok l'"
  by (auto simp: as_participant_def on_trustlines_ok split: option.splits if_splits)

lemma on_channels_ok:
  assumes "on_channels (channel_apply op) l = (r, l')" and "ledger_ok l"
  shows "ledger_ok l'"
proof -
  obtain q st where q: "channel_apply op (lg_channels l) = (q, st)" by (cases "channel_apply op (lg_channels l)")
  have "channels_wf st" using channel_apply_wf[OF ledger_ok_parts(4)[OF assms(2)] q] .
  with assms q show ?thesis by (cases q) (auto simp: on_channels_def)
qed

lemmas on_channels_ops =
  on_channels_ok[of "OpOpen c" for c, simplified] on_channels_ok[of "OpUpdate i n a b" for i n a b, simplified]
  on_channels_ok[of "OpClose i a b h" for i a b h, simplified]
  on_channels_ok[of "OpDispute now i n a b" for now i n a b, simplified]

lemma on_escrows_ok:
  assumes "on_escrows f l = (r, l')" and "ledger_ok l"
    and "\<And>q st. f (lg_escrows l) = (q, st) \<Longrightarrow> escrow_ok (lg_escrows l) \<Longrightarrow> escrow_ok st"
  shows "ledger_ok l'"
proof -
  obtain q st where q: "f (lg_escrows l) = (q, st)" by (cases "f (lg_escrows l)")
  have "escrow_ok st" using assms(3)[OF q] ledger_ok_parts(3)[OF assms(2)] by simp
  with assms(1,2) q show ?thesis by (cases q) (auto simp: on_escrows_def)
qed

lemma on_escrows_create_ok:
  "on_escrows (create_escrow e) l = (r, l') \<Longrightarrow> ledger_ok l \<Longrightarrow> ledger_ok l'"
  by (erule on_escrows_ok) (auto intro: escrow_ok_create)

lemma on_escrows_update_ok:
  "on_escrows (update_escrow_status i s h) l = (r, l') \<Longrightarrow> ledger_ok l \<Longrightarrow> ledger_ok l'"
  by (erule on_escrows_ok) (auto intro: escrow_ok_update)

lemma apply_escrow_ok: "apply_escrow now h tx l = (r, l') \<Longrightarrow> ledger_ok l \<Longrightarrow> ledger_ok l'"
  by (cases "es_type tx")
     (auto simp: apply_escrow_def apply_escrow_create_def apply_escrow_release_def apply_escrow_refund_def
       Let_def split: if_splits option.splits dest!: on_escrows_create_ok on_escrows_update_ok)

lemma apply_channel_ok: "apply_channel now h tx l = (r, l') \<Longrightarrow> ledger_ok l \<Longrightarrow> ledger_ok l'"
  by (cases "ch_type tx")
     (auto simp: apply_channel_def apply_channel_open_def apply_channel_close_def
       Let_def split: if_splits option.splits dest!: on_channels_ops)

lemma apply_trustline_ok: "apply_trustline N h tx l = (r, l') \<Longrightarrow> ledger_ok l \<Longrightarrow> ledger_ok l'"
  by (cases "tu_type tx")
     (auto simp: apply_trustline_def Let_def split: if_splits dest!: on_trustlines_ok as_participant_ok)

lemma apply_pool_swap_ok: "apply_pool_swap N h tx l = (r, l') \<Longrightarrow> ledger_ok l \<Longrightarrow> ledger_ok l'"
  by (auto simp: apply_pool_swap_def Let_def split: if_splits prod.splits sum.splits)

lemma apply_transfer_ok: "apply_transfer tx l = (r, l') \<Longrightarrow> ledger_ok l \<Longrightarrow> ledger_ok l'"
  by (auto simp: apply_transfer_def Let_def split: if_splits)

lemma apply_timelock_ok: "apply_timelock N h tx l = (r, l') \<Longrightarrow> ledger_ok l \<Longrightarrow> ledger_ok l'"
  using ledger_ok_parts(2)[of l]
  by (auto simp: apply_timelock_def add_timelock_def tbl_ok_put Let_def split: if_splits)

lemma claim_and_pay_ok:
  assumes "claim_and_pay tx i l = (r, l')" and "ledger_ok l"
  shows "ledger_ok l'"
proof -
  obtain q st where q: "claim_bounty i (lg_market l) = (q, st)" by (cases "claim_bounty i (lg_market l)")
  have "market_ok st" using claim_bounty_ok[OF ledger_ok_parts(5)[OF assms(2)] q] .
  with assms q show ?thesis
    by (auto simp: claim_and_pay_def Let_def split: sum.splits prod.splits)
qed

lemma apply_marketplace_ok:
  assumes "apply_marketplace N now tx l = Some (r, l')" and "ledger_ok l"
  shows "ledger_ok l'"
proof (cases "mk_operation tx")
  case (SubmitProblem p b w d t br)
  let ?m = "submit_problem (nx_privacy N) now (Public p) (mk_from tx) b w d t br (lg_market l)"
  obtain q st where q: "?m = (q, st)" by (cases ?m)
  have "market_ok st" using submit_problem_ok[OF ledger_ok_parts(5)[OF assms(2)] q] .
  with assms q SubmitProblem show ?thesis
    by (auto simp: apply_marketplace_def apply_submit_problem_def Let_def split: sum.splits if_splits)
next
  case (SubmitSolution i sol)
  show ?thesis
  proof (cases "bal l (mk_from tx) < mk_fee tx")
    case True
    with assms SubmitSolution show ?thesis
      by (auto simp: apply_marketplace_def apply_submit_solution_def Let_def)
  next
    case False
    then obtain q st where q: "submit_solution now i (mk_from tx) sol (lg_market l) = Some (q, st)"
      using assms(1) SubmitSolution
      by (auto simp: apply_marketplace_def apply_submit_solution_def Let_def split: option.splits)
    have "market_ok st" using submit_solution_ok[OF ledger_ok_parts(5)[OF assms(2)] q] .
    with assms q False SubmitSolution show ?thesis
      by (cases q) (auto simp: apply_marketplace_def apply_submit_solution_def Let_def
          dest!: claim_and_pay_ok)
  qed
next
  case (ClaimBounty i)
  with assms show ?thesis
    by (auto simp: apply_marketplace_def apply_claim_bounty_def Let_def split: if_splits dest!: claim_and_pay_ok)
next
  case (CancelProblem i)
  let ?m = "cancel_problem i (mk_from tx) (lg_market l)"
  obtain q st where q: "?m = (q, st)" by (cases ?m)
  have "market_ok st" using cancel_problem_ok[OF ledger_ok_parts(5)[OF assms(2)] q] .
  with assms q CancelProblem show ?thesis
    by (auto simp: apply_marketplace_def apply_cancel_problem_def Let_def split: sum.splits if_splits)
qed

lemma apply_single_ok:
  "apply_single_transaction N now h tx l = Some (r, l') \<Longrightarrow> ledger_ok l \<Longrightarrow> ledger_ok l'"
  by (cases tx)
     (auto intro: apply_transfer_ok apply_timelock_ok apply_escrow_ok apply_channel_ok apply_trustline_ok
       apply_pool_swap_ok apply_marketplace_ok)

section \<open>Money over one transaction\<close>

fun is_channel :: "transaction \<Rightarrow> bool" where
  "is_channel (Channel _) = True"
| "is_channel _ = False"

text \<open>No sum that a branch forms from the fields of the transaction wraps around.\<close>

fun amounts_fit :: "transaction \<Rightarrow> bool" where
  "amounts_fit (Transfer tx) = (uint (tr_amount tx) + uint (tr_fee tx) < 2 ^ 128)"
| "amounts_fit (TimeLock tx) = (uint (tl_amount tx) + uint (tl_fee tx) < 2 ^ 128)"
| "amounts_fit (Escrow tx) = (case es_type tx of
     EscrowCreate _ _ m _ _ \<Rightarrow> uint m + uint (es_fee tx) < 2 ^ 128 | _ \<Rightarrow> True)"
| "amounts_fit (Marketplace tx) = (case mk_operation tx of
     SubmitProblem _ b _ _ _ _ \<Rightarrow> uint (mk_fee tx) + uint b < 2 ^ 128 | _ \<Rightarrow> True)"
| "amounts_fit _ = True"

text \<open>What a successful transaction takes out of the ledger.\<close>

fun fee_charged :: "transaction \<Rightarrow> balance" where
  "fee_charged (Escrow tx) = (case es_type tx of EscrowCreate _ _ _ _ _ \<Rightarrow> es_fee tx | _ \<Rightarrow> 0)"
| "fee_charged tx = tx_fee tx"

lemma uint_le_half: "unat (a :: u128) \<le> 2 ^ 127 - 1 \<Longrightarrow> uint a \<le> 2 ^ 127 - 1"
  by (metis (mono_tags) nat_uint_eq nat_le_iff of_nat_diff of_nat_numeral of_nat_power one_le_numeral one_le_power of_nat_1)

lemma tx_is_valid_fits:
  assumes "tx_is_valid X C now tx"
  shows "amounts_fit tx"
proof -
  have fits: "uint a + uint b < 2 ^ 128" if "unat (a :: u128) \<le> 2 ^ 127 - 1" "unat (b :: u128) \<le> 2 ^ 127 - 1" for a b
    using uint_le_half[OF that(1)] uint_le_half[OF that(2)] by simp
  have add: "uint a + uint b < 2 ^ 128" if "v_checked_add a b = Inr c" for a b c :: u128
  proof -
    have "unat a + unat b < 2 ^ 128"
      using that by (auto simp: v_checked_add_def ok_or_def checked_add_word_def split: option.splits if_splits)
    then have "int (unat a + unat b) < int (2 ^ 128)" by (simp only: of_nat_less_iff)
    then show ?thesis by simp
  qed
  show ?thesis
  proof (cases tx)
    case (Transfer t)
    with assms fits show ?thesis
      by (auto simp: transfer_is_valid_iff validate_transfer_fields_Inr)
  next
    case (TimeLock t)
    with assms fits show ?thesis
      by (auto simp: timelock_is_valid_def validate_timelock_fields_def is_ok_iff
          validate_amount_and_fee_Inr split: if_splits)
  next
    case (Escrow t)
    with assms fits show ?thesis
      by (auto simp: escrow_is_valid_def validate_escrow_fields_def is_ok_iff
          validate_amount_and_fee_Inr split: if_splits escrow_type.splits)
  next
    case (Marketplace t)
    show ?thesis
    proof (cases "mk_operation t")
      case (SubmitProblem p b w d ti br)
      with Marketplace assms have "is_ok (v_checked_add (mk_fee t) b)"
        by (auto simp: marketplace_is_valid_def split: if_splits)
      with add SubmitProblem Marketplace show ?thesis by (auto simp: is_ok_iff)
    qed (use Marketplace in auto)
  qed auto
qed

lemma apply_marketplace_money:
  assumes "apply_marketplace N now tx l = Some (r, l')" and "ledger_ok l" and "money l < 2 ^ 128"
    and "amounts_fit (Marketplace tx)"
  shows "money l' \<le> money l" and "is_ok r \<Longrightarrow> money l' = money l - uint (mk_fee tx)"
  using assms
  by (cases "mk_operation tx";
      auto simp: apply_marketplace_def dest: apply_submit_problem_money apply_submit_solution_money
        apply_claim_bounty_money apply_cancel_problem_money)+

lemma apply_single_money:
  assumes ap: "apply_single_transaction N now h tx l = Some (r, l')" and ok: "ledger_ok l"
    and lt: "money l < 2 ^ 128" and fit: "amounts_fit tx" and ch: "\<not> is_channel tx"
  shows "money l' \<le> money l"
    and "is_ok r \<Longrightarrow> (\<And>t. tx = TimeLock t \<Longrightarrow> get_timelock (lg_timelocks l) (node_hash N tx) = None) \<Longrightarrow>
      money l' = money l - uint (fee_charged tx)"
proof -
  have nn: "money l - uint (a :: u128) \<le> money l" for a by simp
  have "money l' \<le> money l \<and> (is_ok r \<longrightarrow>
      (\<forall>t. tx = TimeLock t \<longrightarrow> get_timelock (lg_timelocks l) (node_hash N tx) = None) \<longrightarrow>
      money l' = money l - uint (fee_charged tx))"
  proof (cases tx)
    case (Transfer t)
    with apply_transfer_money[of t l r l'] ap ok lt fit show ?thesis by simp
  next
    case (TimeLock t)
    with apply_timelock_money[of N h t l r l'] ap ok fit
    show ?thesis by (auto simp: add_nonneg_nonneg split: option.splits)
  next
    case (Escrow t)
    have f: "es_type t = EscrowCreate rc ar m tm c \<Longrightarrow> uint m + uint (es_fee t) < 2 ^ 128" for rc ar m tm c
      using fit Escrow by simp
    have ap': "apply_escrow now h t l = (r, l')" using ap Escrow by simp
    have m1: "money l' \<le> money l" by (rule apply_escrow_money(1)[OF ap' ok lt]) (rule f)
    have m2: "is_ok r \<Longrightarrow> money l' = money l -
        (case es_type t of EscrowCreate _ _ _ _ _ \<Rightarrow> uint (es_fee t) | _ \<Rightarrow> 0)"
      using apply_escrow_money(2)[OF ap' ok lt] f by blast
    have "is_ok r \<Longrightarrow> money l' = money l - uint (fee_charged tx)"
      using m2 unfolding Escrow by (cases "es_type t") simp_all
    with m1 show ?thesis by blast
  next
    case (Channel t)
    with ch show ?thesis by simp
  next
    case (TrustLine t)
    then have ap': "apply_trustline N h t l = (r, l')" using ap by simp
    note m = apply_trustline_money[OF ap' ok]
    show ?thesis unfolding m(1) using m(2) TrustLine by simp
  next
    case (DimensionalPoolSwap t)
    then have ap': "apply_pool_swap N h t l = (r, l')" using ap by simp
    note m = apply_pool_swap_money[OF ap' ok]
    show ?thesis unfolding m(1) using m(2) DimensionalPoolSwap by simp
  next
    case (Marketplace t)
    then have ap': "apply_marketplace N now t l = Some (r, l')" and f: "amounts_fit (Marketplace t)"
      using ap fit by simp_all
    note m = apply_marketplace_money[OF ap' ok lt f]
    show ?thesis using m Marketplace by simp
  qed
  then show "money l' \<le> money l" and "is_ok r \<Longrightarrow>
      (\<And>t. tx = TimeLock t \<Longrightarrow> get_timelock (lg_timelocks l) (node_hash N tx) = None) \<Longrightarrow>
      money l' = money l - uint (fee_charged tx)" by blast+
qed

section \<open>Blocks and chains\<close>

definition run_tx :: "node_ext \<Rightarrow> u64 \<Rightarrow> i64 \<times> transaction \<Rightarrow> ledger \<Rightarrow> ledger option" where
  "run_tx N h p l = map_option snd (apply_single_transaction N (fst p) h (snd p) l)"

lemma apply_txs_run:
  "apply_txs N h txs d l = Some (d', l') \<Longrightarrow> run_list (run_tx N h) txs l = Some l'"
  by (induction N h txs d l rule: apply_txs.induct)
     (auto simp: run_tx_def split: option.splits sum.splits)

definition covered :: "transaction \<Rightarrow> bool" where
  "covered tx \<longleftrightarrow> amounts_fit tx \<and> \<not> is_channel tx"

interpretation tx_run: budgeted "run_tx N h" ledger_ok "\<lambda>p. covered (snd p)" money "\<lambda>_. 0" "2 ^ 128" for N h
proof unfold_locales
  show "run_tx N h op s = Some s' \<Longrightarrow> ledger_ok s \<Longrightarrow> ledger_ok s'" for op s s'
    by (auto simp: run_tx_def intro: apply_single_ok)
next
  fix op s s'
  assume "run_tx N h op s = Some s'" "ledger_ok s" "covered (snd op)" "money s + 0 < 2 ^ 128"
  then show "money s' \<le> money s + 0"
    using apply_single_money(1) by (auto simp: run_tx_def covered_def)
qed simp

definition run_block :: "node_ext \<Rightarrow> (nat \<Rightarrow> i64) \<times> block \<Rightarrow> ledger \<Rightarrow> ledger option" where
  "run_block N p l = map_option snd (apply_block_transactions N (fst p) (snd p) l)"

definition block_covered :: "block \<Rightarrow> bool" where
  "block_covered b \<longleftrightarrow> (\<forall>tx\<in>set (blk_transactions b). covered tx)"

definition block_reward :: "block \<Rightarrow> int" where
  "block_reward b = uint (cb_reward (blk_coinbase b))"

lemma run_block_txs:
  assumes "run_block N (clock, b) l = Some l'"
  shows "run_list (run_tx N (bh_height (blk_header b))) (clocked clock (blk_transactions b))
    (put_balance (bh_miner (blk_header b)) (bal l (bh_miner (blk_header b)) + cb_reward (blk_coinbase b)) l) = Some l'"
  using assms by (auto simp: run_block_def apply_block_transactions_def Let_def dest: apply_txs_run)

lemma clocked_covered: "block_covered b \<Longrightarrow> \<forall>p\<in>set (clocked clock (blk_transactions b)). covered (snd p)"
  by (auto simp: clocked_def block_covered_def dest: set_zip_rightD)

interpretation block_run: budgeted "run_block N" ledger_ok "\<lambda>p. block_covered (snd p)" money
  "\<lambda>p. block_reward (snd p)" "2 ^ 128" for N
proof unfold_locales
  fix op s s'
  assume run: "run_block N op s = Some s'" and ok: "ledger_ok s"
  obtain clock b where op: "op = (clock, b)" by (cases op)
  let ?l1 = "put_balance (bh_miner (blk_header b)) (bal s (bh_miner (blk_header b)) + cb_reward (blk_coinbase b)) s"
  have txs: "run_list (run_tx N (bh_height (blk_header b))) (clocked clock (blk_transactions b)) ?l1 = Some s'"
    using run_block_txs run op by simp
  show "ledger_ok s'" by (rule tx_run.run_list_good[OF txs]) (simp add: ok)
  assume cov: "block_covered (snd op)" and lt: "money s + block_reward (snd op) < 2 ^ 128"
  have "uint (bal s (bh_miner (blk_header b))) + uint (cb_reward (blk_coinbase b)) < 2 ^ 128"
    using bal_le_money[of s "bh_miner (blk_header b)"] lt op by (simp add: block_reward_def)
  then have m1: "money ?l1 = money s + block_reward b"
    using money_credit[of s] ledger_ok_parts(1)[OF ok] by (simp add: block_reward_def)
  have "money s' \<le> money ?l1 + (\<Sum>p\<leftarrow>clocked clock (blk_transactions b). 0)"
    by (rule tx_run.run_list_bound[OF txs])
       (use ok cov clocked_covered m1 lt op in \<open>auto simp: sum_list_0\<close>)
  then show "money s' \<le> money s + block_reward (snd op)" using m1 op by (simp add: sum_list_0)
next
  show "0 \<le> block_reward (snd op)" for op :: "(nat \<Rightarrow> i64) \<times> block"
    by (simp add: block_reward_def)
qed

section \<open>Panics\<close>

text \<open>The only transaction that can abort the node is a solution that verifies and has no
  quality.\<close>

lemma apply_single_panics:
  assumes "apply_single_transaction N now h tx l = None"
  shows "\<exists>t i sol s p. tx = Marketplace t \<and> mk_operation t = SubmitSolution i sol \<and>
    get_problem (lg_market l) i = Some s \<and> visible_problem s = Some p \<and>
    solution_verify sol p \<and> solution_quality sol p = None"
proof (cases tx)
  case (Marketplace t)
  with assms obtain i sol where op: "mk_operation t = SubmitSolution i sol"
    by (cases "mk_operation t") (auto simp: apply_marketplace_def)
  have "submit_solution now i (mk_from t) sol (lg_market l) = None"
    using assms Marketplace op
    by (auto simp: apply_marketplace_def apply_submit_solution_def Let_def
        split: if_splits option.splits sum.splits prod.splits)
  then obtain s p where "get_problem (lg_market l) i = Some s" "visible_problem s = Some p"
    "solution_verify sol p" "solution_quality sol p = None"
    by (auto simp: submit_solution_def split: if_splits option.splits)
  with Marketplace op show ?thesis by blast
qed (use assms in auto)

text \<open>
  Escrows and channels over the life of the ledger: the entry machines of the state managers lifted to the
  step relation of the node. A step is a block reward or one transaction, applied or failed.
\<close>

section \<open>Steps of the ledger\<close>

inductive ledger_step :: "node_ext \<Rightarrow> ledger \<Rightarrow> ledger \<Rightarrow> bool" for N where
  step_reward: "ledger_ok l \<Longrightarrow> ledger_step N l (put_balance a b l)"
| step_tx: "ledger_ok l \<Longrightarrow> apply_single_transaction N now h tx l = Some (r, l') \<Longrightarrow> ledger_step N l l'"

inductive_cases ledger_stepE: "ledger_step N l l'"

lemma run_txs_steps:
  "run_list (run_tx N h) ps l = Some l' \<Longrightarrow> ledger_ok l \<Longrightarrow> (ledger_step N)\<^sup>*\<^sup>* l l'"
proof (induction ps arbitrary: l)
  case (Cons p ps)
  obtain l1 r where l1: "apply_single_transaction N (fst p) h (snd p) l = Some (r, l1)"
    "run_list (run_tx N h) ps l1 = Some l'"
    using Cons.prems(1) by (auto simp: run_tx_def[of N h p l] split: option.splits)
  have "ledger_step N l l1" using Cons.prems(2) l1(1) by (rule step_tx)
  moreover have "(ledger_step N)\<^sup>*\<^sup>* l1 l'"
    by (rule Cons.IH[OF l1(2) apply_single_ok[OF l1(1) Cons.prems(2)]])
  ultimately show ?case by (rule converse_rtranclp_into_rtranclp)
qed simp

lemma run_block_steps:
  assumes "run_block N p l = Some l'" and "ledger_ok l"
  shows "(ledger_step N)\<^sup>*\<^sup>* l l'"
proof -
  obtain clock b where p: "p = (clock, b)" by (cases p)
  let ?l1 = "put_balance (bh_miner (blk_header b)) (bal l (bh_miner (blk_header b)) + cb_reward (blk_coinbase b)) l"
  have "ledger_step N l ?l1" using assms(2) by (rule step_reward)
  moreover have "(ledger_step N)\<^sup>*\<^sup>* ?l1 l'"
    using run_txs_steps[OF run_block_txs] assms p by simp
  ultimately show ?thesis by (rule converse_rtranclp_into_rtranclp)
qed

lemma run_blocks_steps:
  "run_list (run_block N) bs l = Some l' \<Longrightarrow> ledger_ok l \<Longrightarrow> (ledger_step N)\<^sup>*\<^sup>* l l'"
proof (induction bs arbitrary: l)
  case (Cons b bs)
  obtain l1 where l1: "run_block N b l = Some l1" "run_list (run_block N) bs l1 = Some l'"
    using Cons.prems(1) by (auto split: option.splits)
  from Cons.IH[OF l1(2) block_run.run_good[OF l1(1) Cons.prems(2)]] run_block_steps[OF l1(1) Cons.prems(2)]
  show ?case by (rule rtranclp_trans[rotated])
qed simp

section \<open>Which branch touches which store\<close>

lemma on_other_stores [simp]:
  "on_channels f l = (r, l') \<Longrightarrow> lg_escrows l' = lg_escrows l"
  "on_trustlines g l = (r, l') \<Longrightarrow> lg_escrows l' = lg_escrows l"
  "on_trustlines g l = (r, l') \<Longrightarrow> lg_channels l' = lg_channels l"
  "on_escrows k l = (r, l') \<Longrightarrow> lg_channels l' = lg_channels l"
  by (auto simp: on_channels_def on_trustlines_def on_escrows_def split: prod.splits sum.splits)

lemma as_participant_stores:
  "as_participant tx f l = (r, l') \<Longrightarrow> lg_escrows l' = lg_escrows l \<and> lg_channels l' = lg_channels l"
  by (auto simp: as_participant_def split: option.splits if_splits)

lemma claim_and_pay_stores:
  "claim_and_pay tx i l = (r, l') \<Longrightarrow> lg_escrows l' = lg_escrows l \<and> lg_channels l' = lg_channels l"
  by (auto simp: claim_and_pay_def Let_def split: prod.splits sum.splits)

lemma plain_branches:
  "apply_transfer t1 l = (r, l') \<Longrightarrow> lg_escrows l' = lg_escrows l \<and> lg_channels l' = lg_channels l"
  "apply_timelock N h t2 l = (r, l') \<Longrightarrow> lg_escrows l' = lg_escrows l \<and> lg_channels l' = lg_channels l"
  "apply_pool_swap N h t3 l = (r, l') \<Longrightarrow> lg_escrows l' = lg_escrows l \<and> lg_channels l' = lg_channels l"
  by (auto simp: apply_transfer_def apply_timelock_def apply_pool_swap_def Let_def
      split: if_splits prod.splits sum.splits)

lemma trustline_branch:
  "apply_trustline N h t l = (r, l') \<Longrightarrow> lg_escrows l' = lg_escrows l \<and> lg_channels l' = lg_channels l"
  by (cases "tu_type t")
     (auto simp: apply_trustline_def Let_def split: if_splits dest!: as_participant_stores)

lemma marketplace_branch:
  "apply_marketplace N now t l = Some (r, l') \<Longrightarrow> lg_escrows l' = lg_escrows l \<and> lg_channels l' = lg_channels l"
  by (cases "mk_operation t")
     (auto simp: apply_marketplace_def apply_submit_problem_def apply_submit_solution_def apply_claim_bounty_def
        apply_cancel_problem_def Let_def split: if_splits prod.splits sum.splits option.splits
        dest!: claim_and_pay_stores)

lemma escrow_branch_channels: "apply_escrow now h t l = (r, l') \<Longrightarrow> lg_channels l' = lg_channels l"
  by (cases "es_type t")
     (auto simp: apply_escrow_def apply_escrow_create_def apply_escrow_release_def apply_escrow_refund_def
        Let_def split: if_splits option.splits)

lemma channel_branch_escrows: "apply_channel now h t l = (r, l') \<Longrightarrow> lg_escrows l' = lg_escrows l"
  by (cases "ch_type t")
     (auto simp: apply_channel_def apply_channel_open_def apply_channel_close_def Let_def
        split: if_splits option.splits)

lemma single_escrows:
  assumes "apply_single_transaction N now h tx l = Some (r, l')"
  shows "lg_escrows l' = lg_escrows l \<or> (\<exists>t. tx = Escrow t \<and> apply_escrow now h t l = (r, l'))"
  using assms
  by (cases tx) (auto dest: plain_branches trustline_branch marketplace_branch channel_branch_escrows)

lemma single_channels:
  assumes "apply_single_transaction N now h tx l = Some (r, l')"
  shows "lg_channels l' = lg_channels l \<or> (\<exists>t. tx = Channel t \<and> apply_channel now h t l = (r, l'))"
  using assms
  by (cases tx) (auto dest: plain_branches trustline_branch marketplace_branch escrow_branch_channels)

section \<open>Escrows\<close>

definition escrow_of :: "ledger \<Rightarrow> hash \<Rightarrow> escrow option" where
  "escrow_of l k = get_escrow (lg_escrows l) k"

lemma on_escrows_store: "on_escrows f l = (r, l') \<Longrightarrow> lg_escrows l' = snd (f (lg_escrows l))"
  by (auto simp: on_escrows_def split: prod.splits sum.splits)

lemma apply_escrow_entry:
  assumes "apply_escrow now h t l = (r, l')" and "escrow_of l k = Some e"
  shows "\<exists>e'. escrow_of l' k = Some e' \<and> (e' = e \<or> escrow_moves e e')"
proof (cases "es_type t")
  case (EscrowCreate rc ar m tm c)
  then show ?thesis using assms
    by (auto simp: apply_escrow_def apply_escrow_create_def Let_def escrow_of_def get_escrow_def
        create_escrow_def split: if_splits dest!: on_escrows_store)
next
  case EscrowRelease
  then consider "lg_escrows l' = lg_escrows l"
    | e0 where "get_escrow (lg_escrows l) (es_escrow_id t) = Some e0" "esc_status e0 = EscrowActive"
      "lg_escrows l' = tbl_put (es_escrow_id t)
         (e0\<lparr>esc_status := EscrowReleased, esc_resolved_at_height := Some h\<rparr>) (lg_escrows l)"
    using assms(1)
    by (auto simp: apply_escrow_def apply_escrow_release_def Let_def can_release_iff
        update_escrow_status_def split: option.splits if_splits dest!: on_escrows_store)
  then show ?thesis
  proof cases
    case 2
    then show ?thesis using escrow_resolved_entry[OF 2(1,2), of EscrowReleased k e h] assms(2)
      by (simp add: escrow_of_def)
  qed (use assms(2) in \<open>simp add: escrow_of_def\<close>)
next
  case EscrowRefund
  then consider "lg_escrows l' = lg_escrows l"
    | e0 where "get_escrow (lg_escrows l) (es_escrow_id t) = Some e0" "esc_status e0 = EscrowActive"
      "lg_escrows l' = tbl_put (es_escrow_id t)
         (e0\<lparr>esc_status := EscrowRefunded, esc_resolved_at_height := Some h\<rparr>) (lg_escrows l)"
    using assms(1)
    by (auto simp: apply_escrow_def apply_escrow_refund_def Let_def can_refund_iff
        update_escrow_status_def split: option.splits if_splits dest!: on_escrows_store)
  then show ?thesis
  proof cases
    case 2
    then show ?thesis using escrow_resolved_entry[OF 2(1,2), of EscrowRefunded k e h] assms(2)
      by (simp add: escrow_of_def)
  qed (use assms(2) in \<open>simp add: escrow_of_def\<close>)
qed

lemma ledger_step_escrow:
  assumes "ledger_step N l l'" and "escrow_of l k = Some e"
  shows "\<exists>e'. escrow_of l' k = Some e' \<and> (e' = e \<or> escrow_moves e e')"
  using assms(1)
proof cases
  case (step_reward a b)
  with assms(2) show ?thesis by (simp add: escrow_of_def)
next
  case (step_tx now h tx r)
  from single_escrows[OF step_tx(2)] assms(2) show ?thesis
    by (auto simp: escrow_of_def[of l'] escrow_of_def[of l] dest: apply_escrow_entry[unfolded escrow_of_def])
qed

interpretation ledger_escrow: entry_machine "ledger_step N" escrow_of escrow_moves
  "\<lambda>e. esc_status e \<noteq> EscrowActive" for N
  by unfold_locales (fact ledger_step_escrow, simp add: escrow_moves_def)

section \<open>Channels\<close>

definition channel_of :: "ledger \<Rightarrow> hash \<Rightarrow> channel option" where
  "channel_of l k = get_channel (lg_channels l) k"

lemma on_channels_store: "on_channels f l = (r, l') \<Longrightarrow> lg_channels l' = snd (f (lg_channels l))"
  by (auto simp: on_channels_def split: prod.splits sum.splits)

lemma apply_channel_store:
  assumes "apply_channel now h t l = (r, l')"
  shows "lg_channels l' = lg_channels l \<or> (\<exists>op. lg_channels l' = snd (channel_apply op (lg_channels l)))"
proof (cases "ch_type t")
  case (ChOpen a b da db tm)
  with assms show ?thesis
    by (auto simp: apply_channel_def apply_channel_open_def Let_def split: if_splits
        dest!: on_channels_store intro: exI[of _ "OpOpen c" for c])
next
  case (ChUpdate n a b)
  with assms show ?thesis
    by (auto simp: apply_channel_def dest!: on_channels_store intro: exI[of _ "OpUpdate i n a b" for i])
next
  case (ChCooperativeClose a b)
  with assms show ?thesis
    by (auto simp: apply_channel_def apply_channel_close_def Let_def split: option.splits
        dest!: on_channels_store intro: exI[of _ "OpClose i a b h" for i])
next
  case (ChUnilateralClose n a b p)
  with assms show ?thesis
    by (auto simp: apply_channel_def split: option.splits
        dest!: on_channels_store intro: exI[of _ "OpDispute now i n a b" for i])
qed

lemma ledger_step_channel:
  assumes "ledger_step N l l'" and "channel_of l k = Some c"
  shows "\<exists>c'. channel_of l' k = Some c' \<and> (c' = c \<or> channel_moves c c')"
  using assms(1)
proof cases
  case (step_reward a b)
  with assms(2) show ?thesis by (simp add: channel_of_def)
next
  case (step_tx now h tx r)
  have ok: "channel_ok (lg_channels l)" using step_tx(1) by (simp add: ledger_ok_def channels_wf_def)
  from single_channels[OF step_tx(2)] apply_channel_store
  consider "lg_channels l' = lg_channels l" | op where "lg_channels l' = snd (channel_apply op (lg_channels l))"
    by blast
  then show ?thesis
  proof cases
    case 2
    then have "channel_step (lg_channels l) (lg_channels l')" using ok by (auto simp: channel_step_def)
    then show ?thesis using channel_step_entry assms(2) by (simp add: channel_of_def)
  qed (use assms(2) in \<open>simp add: channel_of_def\<close>)
qed

interpretation ledger_channel: entry_machine "ledger_step N" channel_of channel_moves channel_closed for N
  by unfold_locales (fact ledger_step_channel, auto simp: channel_moves_def channel_closed_def)

end
