(* ===== verification/CJ_Float_Facts.thy ===== *)
theory CJ_Float_Facts
  imports CJ_Float64
begin

text \<open>
  Facts on rounding that the float computations share: the exponent is the right one, rounding is monotone,
  and the integers below \<open>2 ^ 53\<close> are exact.
  At the end: a share between 0 and 1 of an integer, rounded and cut off, is at most that integer.
\<close>

lemma floor_log2_upper:
  assumes "0 < r"
  shows "r < pow2 (floor_log2 r + 1)"
proof -
  obtain p q where pq: "quotient_of r = (p, q)" by (cases "quotient_of r")
  have q: "0 < q" using pq by (rule quotient_of_denom_pos)
  have r: "r = of_int p / of_int q" using pq by (rule quotient_of_div)
  have p: "0 < p" using assms q by (simp add: r zero_less_divide_iff)
  have bp: "1 \<le> bitlen p" and bq: "1 \<le> bitlen q"
    using p q by (auto simp: bitlen_def floorlog_def)
  have "of_int p / of_int q < (2 :: rat) ^ nat (bitlen p) / 2 ^ nat (bitlen q - 1)"
    using bitlen_bounds[OF p] bitlen_bounds[OF q] p q by (intro frac_less) auto
  also have "\<dots> = pow2 (bitlen p - bitlen q + 1)"
    using pow2_add[of "bitlen p" "- (bitlen q - 1)"] bp bq by (simp add: pow2_def algebra_simps)
  finally have "r < pow2 (bitlen p - bitlen q + 1)" by (simp only: r)
  then show ?thesis by (simp add: floor_log2_def pq Let_def)
qed

lemma pow2_less_iff: "pow2 a < pow2 b \<longleftrightarrow> a < b"
  by (metis pow2_mono leD leI order_le_imp_less_or_eq pow2_powr power_int_strict_increasing one_less_numeral_iff semiring_norm(76))

lemma floor_log2_unique:
  assumes "pow2 k \<le> r" and "r < pow2 (k + 1)"
  shows "floor_log2 r = k"
proof -
  have r: "0 < r" using assms(1) pow2_pos[of k] by linarith
  have "pow2 k < pow2 (floor_log2 r + 1)" using assms(1) floor_log2_upper[OF r] by linarith
  moreover have "pow2 (floor_log2 r) < pow2 (k + 1)" using assms(2) pow2_floor_log2_le[OF r] by linarith
  ultimately show ?thesis by (simp add: pow2_less_iff)
qed

lemma floor_log2_mono:
  assumes "0 < r" and "r \<le> t"
  shows "floor_log2 r \<le> floor_log2 t"
proof -
  have "pow2 (floor_log2 r) < pow2 (floor_log2 t + 1)"
    using pow2_floor_log2_le[OF assms(1)] floor_log2_upper[of t] assms by simp
  then show ?thesis by (simp add: pow2_less_iff)
qed

lemma round_half_even_mono:
  assumes "x \<le> y"
  shows "round_half_even x \<le> round_half_even y"
proof (cases "\<lfloor>x\<rfloor> = \<lfloor>y\<rfloor>")
  case True
  then show ?thesis using assms by (auto simp: round_half_even_def Let_def)
next
  case False
  then have "\<lfloor>x\<rfloor> + 1 \<le> \<lfloor>y\<rfloor>" using floor_mono[OF assms] by linarith
  moreover have "round_half_even x \<le> \<lfloor>x\<rfloor> + 1" by (simp add: round_half_even_def Let_def)
  ultimately show ?thesis using round_half_even_bounds(2)[of y] by linarith
qed

lemma round_half_even_of_int [simp]: "round_half_even (of_int k) = k"
  by (simp add: round_half_even_def)

text \<open>The rounded magnitude before the overflow test.\<close>

definition round_exp :: "rat \<Rightarrow> int" where
  "round_exp r = max (floor_log2 r - 52) (- 1074)"

definition round_mag :: "rat \<Rightarrow> rat" where
  "round_mag r = of_int (round_half_even (r / pow2 (round_exp r))) * pow2 (round_exp r)"

lemma f_round_alt: "f_round s r = (if r = 0 then FFin s 0 else if 2 ^ 1024 \<le> round_mag r then FInf s else FFin s (round_mag r))"
  by (simp add: f_round_def round_mag_def round_exp_def Let_def)

lemma round_mag_exact:
  assumes "r = of_int k * pow2 (round_exp r)"
  shows "round_mag r = r"
proof -
  have "r / pow2 (round_exp r) = of_int k"
    by (subst assms) (simp add: order.strict_implies_not_eq[OF pow2_pos, symmetric])
  then show ?thesis using assms by (simp add: round_mag_def)
qed

lemma round_mag_same_exp:
  assumes "round_exp r = round_exp t" and "r \<le> t"
  shows "round_mag r \<le> round_mag t"
  using assms by (auto simp: round_mag_def intro!: mult_right_mono round_half_even_mono divide_right_mono less_imp_le[OF pow2_pos])

lemma pow2_int: "0 \<le> k \<Longrightarrow> pow2 k = of_int (2 ^ nat k)"
  by (simp add: pow2_def)

lemma round_mag_below_pow2:
  assumes "0 < r" and "r \<le> pow2 n" and "round_exp r \<le> n"
  shows "round_mag r \<le> pow2 n"
proof -
  let ?e = "round_exp r"
  have p: "pow2 n = of_int (2 ^ nat (n - ?e)) * pow2 ?e"
    using pow2_add[of "n - ?e" ?e] assms(3) by (simp add: pow2_int)
  have "r / pow2 ?e \<le> of_int (2 ^ nat (n - ?e))"
    using assms(2) p by (simp add: pos_divide_le_eq)
  from round_half_even_mono[OF this] have "round_half_even (r / pow2 ?e) \<le> 2 ^ nat (n - ?e)"
    by (simp only: round_half_even_of_int)
  then have "(of_int (round_half_even (r / pow2 ?e)) :: rat) \<le> of_int (2 ^ nat (n - ?e))"
    by (simp only: of_int_le_iff)
  then show ?thesis unfolding p round_mag_def by (rule mult_right_mono) (simp add: less_imp_le)
qed

lemma round_mag_above_pow2:
  assumes "pow2 n \<le> r" and "round_exp r \<le> n"
  shows "pow2 n \<le> round_mag r"
proof -
  let ?e = "round_exp r"
  have p: "pow2 n = of_int (2 ^ nat (n - ?e)) * pow2 ?e"
    using pow2_add[of "n - ?e" ?e] assms(2) by (simp add: pow2_int)
  have "of_int (2 ^ nat (n - ?e)) \<le> r / pow2 ?e"
    using assms(1) p by (simp add: pos_le_divide_eq)
  from round_half_even_mono[OF this] have "2 ^ nat (n - ?e) \<le> round_half_even (r / pow2 ?e)"
    by (simp only: round_half_even_of_int)
  then have "(of_int (2 ^ nat (n - ?e)) :: rat) \<le> of_int (round_half_even (r / pow2 ?e))"
    by (simp only: of_int_le_iff)
  then show ?thesis unfolding p round_mag_def by (rule mult_right_mono) (simp add: less_imp_le)
qed

lemma round_mag_mono:
  assumes "0 < r" and "r \<le> t"
  shows "round_mag r \<le> round_mag t"
proof (cases "round_exp r = round_exp t")
  case False
  have fl: "floor_log2 r \<le> floor_log2 t" by (rule floor_log2_mono[OF assms])
  with False have lt: "floor_log2 r < floor_log2 t" and e: "round_exp t = floor_log2 t - 52"
    by (auto simp: round_exp_def)
  have er: "round_exp r < round_exp t" using False fl by (auto simp: round_exp_def)
  have "round_mag r \<le> pow2 (floor_log2 t)"
  proof (rule round_mag_below_pow2[OF assms(1)])
    have "r < pow2 (floor_log2 r + 1)" by (rule floor_log2_upper[OF assms(1)])
    also have "\<dots> \<le> pow2 (floor_log2 t)" using lt by (intro pow2_mono) simp
    finally show "r \<le> pow2 (floor_log2 t)" by simp
    show "round_exp r \<le> floor_log2 t" using er e by simp
  qed
  also have "\<dots> \<le> round_mag t"
    using assms e by (intro round_mag_above_pow2 pow2_floor_log2_le) auto
  finally show ?thesis .
qed (use round_mag_same_exp assms in blast)

lemma round_mag_nonneg: "0 < r \<Longrightarrow> 0 \<le> round_mag r"
proof -
  assume r: "0 < r"
  have "round_half_even 0 \<le> round_half_even (r / pow2 (round_exp r))"
    using r by (intro round_half_even_mono) (simp add: less_imp_le)
  then show ?thesis by (simp add: round_mag_def round_half_even_def less_imp_le)
qed

text \<open>Rounding is monotone.\<close>

lemma f_round_mono:
  assumes "0 \<le> r" and "r \<le> t"
  shows "f_le (f_round False r) (f_round False t)"
proof (cases "r = 0")
  case True
  then show ?thesis using assms round_mag_nonneg[of t] by (auto simp: f_round_alt)
next
  case False
  then have "0 < r" using assms by simp
  with round_mag_mono[OF this assms(2)] assms show ?thesis by (auto simp: f_round_alt)
qed

text \<open>Integers below \<open>2 ^ 53\<close> are exact.\<close>

lemma round_mag_int:
  assumes "0 < k" and "k < 2 ^ 53"
  shows "round_mag (of_int k) = of_int k"
proof (rule round_mag_exact)
  let ?r = "of_int k :: rat"
  have 1: "0 \<le> floor_log2 ?r" using assms(1) by (intro floor_log2_nonneg) simp
  have "pow2 (floor_log2 ?r) \<le> ?r" using assms(1) by (intro pow2_floor_log2_le) simp
  also have "\<dots> < pow2 53" using assms(2) by (simp only: pow2_int) (simp only: of_int_less_iff, simp)
  finally have "floor_log2 ?r < 53" by (simp add: pow2_less_iff)
  with 1 have e: "round_exp ?r = floor_log2 ?r - 52" "round_exp ?r \<le> 0" by (simp_all add: round_exp_def)
  have "pow2 (- round_exp ?r) * pow2 (round_exp ?r) = 1"
    using pow2_add[of "- round_exp ?r" "round_exp ?r"] by (simp add: pow2_def)
  then show "?r = of_int (k * 2 ^ nat (- round_exp ?r)) * pow2 (round_exp ?r)"
    using e(2) by (simp add: pow2_int[of "- round_exp ?r"] mult.assoc)
qed

lemma f_round_int [simp]:
  assumes "0 \<le> k" and "k < 2 ^ 53"
  shows "f_round s (of_int k) = FFin s (of_int k)"
proof (cases "k = 0")
  case False
  have "(of_int k :: rat) < of_int (2 ^ 53)" using assms(2) by (simp only: of_int_less_iff)
  also have "\<dots> \<le> 2 ^ 1024" by simp
  finally show ?thesis using False assms by (simp add: f_round_alt round_mag_int)
qed simp

lemma f_of_word_exact:
  assumes "unat w < 2 ^ 53"
  shows "f_of_word w = FFin False (of_nat (unat w))"
proof -
  have "int (unat w) < 2 ^ 53" using assms by (metis of_nat_less_iff of_nat_numeral of_nat_power)
  from f_round_int[OF _ this, of False] show ?thesis by (simp only: f_of_word_def of_int_of_nat_eq of_nat_0_le_iff)
qed

lemma f_round_numeral [simp]: "(numeral n :: int) < 2 ^ 53 \<Longrightarrow> f_round s (numeral n) = FFin s (numeral n)"
  using f_round_int[of "numeral n" s] by simp

lemma f_of_rat_numeral [simp]: "(numeral n :: int) < 2 ^ 53 \<Longrightarrow> f_of_rat (numeral n) = FFin False (numeral n)"
  by (simp add: f_of_rat_def)

lemma f_zero_less [simp]: "f_lt f_zero (FFin False x) \<longleftrightarrow> 0 < x" "f_le f_zero (FFin False x) \<longleftrightarrow> 0 \<le> x"
  by (simp_all add: f_zero_def)

text \<open>Evaluating a rounding once the binary exponent is known.\<close>

lemma f_round_at:
  assumes "pow2 k \<le> r" and "r < pow2 (k + 1)" and "- 1022 \<le> k" and "k < 1023"
  shows "f_round s r = FFin s (of_int (round_half_even (r / pow2 (k - 52))) * pow2 (k - 52))"
proof -
  have r: "0 < r" using assms(1) pow2_pos[of k] by linarith
  have e: "round_exp r = k - 52" using floor_log2_unique[OF assms(1,2)] assms(3) by (simp add: round_exp_def)
  have "round_mag r \<le> pow2 (k + 1)" using r assms(2) e by (intro round_mag_below_pow2) auto
  also have "\<dots> < pow2 1024" using assms(4) by (simp add: pow2_less_iff)
  finally have "\<not> 2 ^ 1024 \<le> round_mag r" by (simp add: pow2_def)
  with r e show ?thesis by (simp add: f_round_alt round_mag_def)
qed

text \<open>
  Taking a share of an amount: the casts \<open>((w as f64) * u) as u128\<close> that the pricing and reward code is made of. For
  amounts below \<open>2 ^ 53\<close>, which a float holds exactly, a share between 0 and 1 is never more than the amount.
\<close>

text \<open>Comparison with the literal 0.0, which both zeros are equal to.\<close>

definition f_eq_zero :: "f64 \<Rightarrow> bool" where
  "f_eq_zero x \<longleftrightarrow> (case x of FFin _ m \<Rightarrow> m = 0 | _ \<Rightarrow> False)"

definition unit_share :: "f64 \<Rightarrow> bool" where
  "unit_share u \<longleftrightarrow> (\<exists>s m. u = FFin s m \<and> 0 \<le> m \<and> m \<le> 1 \<and> (s \<longrightarrow> m = 0))"

lemma unit_shareI: "0 \<le> m \<Longrightarrow> m \<le> 1 \<Longrightarrow> unit_share (FFin False m)"
  unfolding unit_share_def by blast

lemma f_round_between:
  assumes "0 \<le> r" and "r \<le> of_nat n" and "n < 2 ^ 53"
  shows "\<exists>v. f_round False r = FFin False v \<and> 0 \<le> v \<and> v \<le> of_nat n"
proof -
  have n: "f_round False (of_nat n) = FFin False (of_nat n)"
    using f_round_int[of "int n" False] assms(3) by simp
  have "f_le (f_round False r) (FFin False (of_nat n))" using f_round_mono[OF assms(1,2)] by (simp only: n)
  moreover have "f_le (f_round False 0) (f_round False r)" by (rule f_round_mono) (simp_all add: assms(1))
  ultimately show ?thesis by (cases "f_round False r") (auto simp: f_round_alt split: if_splits)
qed

lemma f_to_word_floor:
  assumes "0 \<le> v" and "v \<le> of_nat n" and "n < 2 ^ LENGTH('b::len)"
  shows "unat (f_to_word (FFin False v) :: 'b word) \<le> n"
proof -
  have "v < of_nat (2 ^ LENGTH('b))" using assms(2,3) by (metis le_less_trans of_nat_less_iff)
  then have "\<not> 2 ^ LENGTH('b) \<le> v" by simp
  moreover have fl: "0 \<le> \<lfloor>v\<rfloor>" "nat \<lfloor>v\<rfloor> \<le> n" using assms(1,2) by (simp, linarith)
  moreover have "(of_int \<lfloor>v\<rfloor> :: 'b word) = of_nat (nat \<lfloor>v\<rfloor>)" using fl(1) by simp
  moreover have "unat (of_nat (nat \<lfloor>v\<rfloor>) :: 'b word) \<le> nat \<lfloor>v\<rfloor>" by (simp only: unat_of_nat) (rule mod_less_eq_dividend)
  ultimately show ?thesis by simp
qed

lemma share_le:
  assumes "unat (w :: 'a::len word) < 2 ^ 53" and "unit_share u" and "53 \<le> LENGTH('b)"
  shows "unat (f_to_word (f_mul (f_of_word w) u) :: 'b::len word) \<le> unat w"
proof -
  obtain s m where u: "u = FFin s m" "0 \<le> m" "m \<le> 1" "s \<longrightarrow> m = 0" using assms(2) by (auto simp: unit_share_def)
  have w: "f_of_word w = FFin False (of_nat (unat w))" by (rule f_of_word_exact[OF assms(1)])
  show ?thesis
  proof (cases s)
    case True
    then show ?thesis using u by (simp add: w f_round_alt)
  next
    case False
    have "0 \<le> of_nat (unat w) * m" "of_nat (unat w) * m \<le> of_nat (unat w)"
      using u(2,3) by (simp_all only: mult_nonneg_nonneg of_nat_0_le_iff mult_left_le)
    then obtain v where v: "f_round False (of_nat (unat w) * m) = FFin False v" "0 \<le> v" "v \<le> of_nat (unat w)"
      using f_round_between[OF _ _ assms(1)] by blast
    have "(2 :: nat) ^ 53 \<le> 2 ^ LENGTH('b)" by (rule power_increasing[OF assms(3)]) simp
    then have "unat w < 2 ^ LENGTH('b)" using assms(1) by linarith
    from f_to_word_floor[OF v(2,3) this] show ?thesis using u(1) False by (simp only: w f_mul.simps v(1) simp_thms)
  qed
qed

lemma unit_share_zero [simp]: "unit_share f_zero" "unit_share f_one"
  by (simp_all add: unit_shareI f_zero_def f_one_def)

lemma unit_share_complement:
  assumes "unit_share u"
  shows "unit_share (f_sub f_one u)"
proof -
  obtain s m where u: "u = FFin s m" "0 \<le> m" "m \<le> 1" "s \<longrightarrow> m = 0" using assms by (auto simp: unit_share_def)
  obtain v where v: "f_round False (1 - m) = FFin False v" "0 \<le> v" "v \<le> of_nat 1"
    using f_round_between[of "1 - m" 1] u(2,3) by auto
  have one: "f_of_rat 1 = FFin False 1" using f_round_int[of 1 False] by (simp add: f_of_rat_def)
  show ?thesis
  proof (cases s)
    case True
    then show ?thesis using u one by (simp add: f_sub_def f_one_def unit_shareI)
  next
    case False
    then have e: "f_sub f_one u = (if m = 1 then FFin False 0 else FFin False v)"
      using u v(1) by (simp add: f_sub_def f_one_def f_of_rat_def)
    show ?thesis unfolding e using v(2,3) by (simp add: unit_shareI)
  qed
qed

lemma unit_share_mul:
  assumes "unit_share u" and "unit_share v"
  shows "unit_share (f_mul u v)"
proof -
  obtain s m where u: "u = FFin s m" "0 \<le> m" "m \<le> 1" "s \<longrightarrow> m = 0" using assms(1) by (auto simp: unit_share_def)
  obtain t n where v: "v = FFin t n" "0 \<le> n" "n \<le> 1" "t \<longrightarrow> n = 0" using assms(2) by (auto simp: unit_share_def)
  show ?thesis
  proof (cases "s \<or> t")
    case True
    then have "m * n = 0" using u(4) v(4) by auto
    then show ?thesis by (simp add: u(1) v(1) f_round_alt unit_share_def)
  next
    case False
    have "0 \<le> m * n" "m * n \<le> of_nat 1" using u(2,3) v(2,3) by (simp_all add: mult_le_one)
    then obtain w where "f_round False (m * n) = FFin False w" "0 \<le> w" "w \<le> of_nat 1"
      using f_round_between[of "m * n" 1] by auto
    then show ?thesis using False by (simp add: u(1) v(1) unit_shareI)
  qed
qed

text \<open>Converting and dividing keep the order.\<close>

lemma f_of_word_mono: "x \<le> y \<Longrightarrow> f_le (f_of_word x) (f_of_word y)"
  unfolding f_of_word_def by (intro f_round_mono) (simp_all only: of_nat_0_le_iff word_le_nat_alt of_nat_le_iff)

lemma f_of_word_finite:
  assumes "LENGTH('w::len) \<le> 1000"
  shows "\<exists>v. f_of_word (w :: 'w word) = FFin False v \<and> 0 \<le> v \<and> (w \<noteq> 0 \<longrightarrow> 0 < v)"
proof (cases "w = 0")
  case True
  then show ?thesis by (simp add: f_of_word_def f_round_alt)
next
  case False
  then have "1 \<le> unat w" using unat_gt_0[of w] by linarith
  then have 1: "1 \<le> (of_nat (unat w) :: rat)" by (metis of_nat_1 of_nat_le_iff)
  have "(2 :: nat) ^ LENGTH('w) \<le> 2 ^ 1000" by (rule power_increasing[OF assms]) simp
  then have "unat w < 2 ^ 1000" using unat_lt_pow[of w] by linarith
  then have "(of_nat (unat w) :: rat) < of_nat (2 ^ 1000)" by (simp only: of_nat_less_iff)
  then have "(of_nat (unat w) :: rat) < 2 ^ 1000" by (simp only: of_nat_power of_nat_numeral)
  from f_round_normal[OF 1 this, of False] show ?thesis
    by (auto simp only: f_of_word_def less_imp_le)
qed

lemma f_of_u128: "\<exists>v. f_of_word (w :: u128) = FFin False v \<and> 0 \<le> v \<and> (w \<noteq> 0 \<longrightarrow> 0 < v)"
  by (rule f_of_word_finite) simp

lemma f_div_mono:
  assumes "a \<le> b" and "0 \<le> a" and "0 < c"
  shows "f_le (f_div (FFin False a) (FFin False c)) (f_div (FFin False b) (FFin False c))"
  using assms by (simp add: f_round_mono divide_right_mono)

lemma f_le_lt_trans: "f_le x y \<Longrightarrow> f_lt y z \<Longrightarrow> f_lt x z"
  by (cases x; cases y; cases z) auto

end
