(* ===== verification/Tokenomics_Metrics.thy ===== *)
theory Tokenomics_Metrics
  imports CJ_Float_Facts Core_Dimensional Core_Golden
begin

text \<open>
  \<open>tokenomics/src/network_metrics.rs\<close>: the rolling window of network snapshots and the medians that the
  difficulty, the fees and the rewards are derived from. The window is a list, oldest first; \<open>exp\<close>,
  \<open>ln\<close>, \<open>sqrt\<close> and \<open>powi\<close> come from \<open>float_ext\<close>.
\<close>

section \<open>Definitions\<close>

definition PHI_INV :: f64 where "PHI_INV = f_of_rat (618033988749894848204586834365638118 / 10 ^ 36)"

text \<open>Decimal literals of the sources.\<close>

abbreviation f_lit :: "rat \<Rightarrow> f64" where "f_lit \<equiv> f_of_rat"

record network_snapshot =
  sn_block_height :: u64
  sn_timestamp :: u64
  sn_hash_rate :: f64
  sn_block_time :: f64
  sn_solve_time :: f64
  sn_problem_category :: u8
  sn_total_fees :: u128
  sn_tx_count :: u64
  sn_avg_tx_size :: u64
  sn_storage_used :: u64
  sn_peer_count :: u32
  sn_consensus_agreement :: f64
  sn_total_staked :: u128
  sn_staker_count :: u64
  sn_reorg_depth :: u64
  sn_invalid_blocks :: u64
  sn_disconnections :: u64

definition network_snapshot_default :: network_snapshot where
  "network_snapshot_default = \<lparr>sn_block_height = 0, sn_timestamp = 0, sn_hash_rate = f_one,
     sn_block_time = f_lit 10, sn_solve_time = f_one, sn_problem_category = 0, sn_total_fees = 0,
     sn_tx_count = 0, sn_avg_tx_size = 250, sn_storage_used = 0, sn_peer_count = 1,
     sn_consensus_agreement = f_one, sn_total_staked = 0, sn_staker_count = 0, sn_reorg_depth = 0,
     sn_invalid_blocks = 0, sn_disconnections = 0\<rparr>"

record fault_impact_cache =
  fi_invalid_block_impact :: f64
  fi_equivocation_impact :: f64
  fi_disconnect_impact :: f64
  fi_total_reorg_blocks :: u64

record network_metrics =
  nm_history :: "network_snapshot list"
  nm_max_history :: nat
  nm_min_samples :: nat
  nm_current_block :: u64
  nm_median_hash_rate :: f64
  nm_median_block_time :: f64
  nm_median_fees :: u128
  nm_median_stake :: u128
  nm_median_solve_times :: "f64 list"
  nm_fault_impacts :: fault_impact_cache

datatype fault_type =
    FaultInvalidBlock
  | FaultInvalidSolution
  | FaultSyncTimeout
  | FaultUnexpectedDisconnect
  | FaultEquivocation
  | FaultSpam
  | FaultFalsePeerInfo

definition network_metrics_new :: "nat \<Rightarrow> network_metrics" where
  "network_metrics_new history_blocks = \<lparr>nm_history = [], nm_max_history = history_blocks,
     nm_min_samples = 10, nm_current_block = 0, nm_median_hash_rate = f_one,
     nm_median_block_time = f_lit 10, nm_median_fees = 0, nm_median_stake = 0,
     nm_median_solve_times = replicate 10 f_one,
     nm_fault_impacts = \<lparr>fi_invalid_block_impact = f_zero, fi_equivocation_impact = f_zero,
       fi_disconnect_impact = f_zero, fi_total_reorg_blocks = 0\<rparr>\<rparr>"

definition default_window :: network_metrics where
  "default_window = network_metrics_new 1000"

text \<open>The stable sort of floats; the code sorts lists without NaN only.\<close>

fun f_insert :: "f64 \<Rightarrow> f64 list \<Rightarrow> f64 list" where
  "f_insert x [] = [x]"
| "f_insert x (y # ys) = (if f_lt y x then y # f_insert x ys else x # y # ys)"

definition f_sort :: "f64 list \<Rightarrow> f64 list" where
  "f_sort xs = foldr f_insert xs []"

definition percentile_index :: "f64 \<Rightarrow> nat \<Rightarrow> nat" where
  "percentile_index p n =
     min (unat (f_to_word (f_round_away (f_mul (f_div p (f_lit 100)) (f_of_nat (n - 1)))) :: u64)) (n - 1)"

definition percentile_f64 :: "f64 list \<Rightarrow> f64 \<Rightarrow> f64" where
  "percentile_f64 vs p = (if vs = [] then f_zero else f_sort vs ! percentile_index p (length vs))"

definition percentile_u128 :: "u128 list \<Rightarrow> f64 \<Rightarrow> u128" where
  "percentile_u128 vs p = (if vs = [] then 0 else sort vs ! percentile_index p (length vs))"

definition median_f64 :: "f64 list \<Rightarrow> f64" where
  "median_f64 vs = percentile_f64 vs (f_lit 50)"

definition median_u128 :: "u128 list \<Rightarrow> u128" where
  "median_u128 vs = percentile_u128 vs (f_lit 50)"

text \<open>Recomputing the caches; an empty selection keeps the old value.\<close>

definition positive :: "f64 list \<Rightarrow> f64 list" where
  "positive vs = filter (\<lambda>v. f_lt f_zero v) vs"

definition median_or :: "f64 \<Rightarrow> f64 list \<Rightarrow> f64" where
  "median_or old vs = (if vs = [] then old else median_f64 vs)"

definition recalculate_fault_impacts :: "network_metrics \<Rightarrow> network_metrics" where
  "recalculate_fault_impacts m =
     (let total_reorgs = sum_list (map sn_reorg_depth (nm_history m));
          total_invalid = sum_list (map sn_invalid_blocks (nm_history m));
          total_disconnects = sum_list (map sn_disconnections (nm_history m));
          c0 = (nm_fault_impacts m)\<lparr>fi_total_reorg_blocks := max total_reorgs 1\<rparr>;
          c1 = (if 0 < total_invalid then c0\<lparr>fi_invalid_block_impact :=
                 f_div (f_mul (f_of_word total_reorgs) (f_lit 0.6)) (f_of_word total_invalid)\<rparr> else c0);
          c2 = (if 0 < total_disconnects then c1\<lparr>fi_disconnect_impact :=
                 f_div (f_mul (f_of_word total_reorgs) (f_lit 0.1)) (f_of_word total_disconnects)\<rparr> else c1);
          c3 = c2\<lparr>fi_equivocation_impact := f_mul (fi_invalid_block_impact c2) PHI\<rparr>
      in m\<lparr>nm_fault_impacts := c3\<rparr>)"

definition stakes_per_staker :: "(network_snapshot \<Rightarrow> bool) \<Rightarrow> network_snapshot list \<Rightarrow> u128 list" where
  "stakes_per_staker P hs =
     map (\<lambda>s. sn_total_staked s div ucast (max (sn_staker_count s) 1)) (filter P hs)"

definition solve_times_of :: "network_snapshot list \<Rightarrow> nat \<Rightarrow> f64 list" where
  "solve_times_of hs cat =
     positive (map sn_solve_time (filter (\<lambda>s. unat (sn_problem_category s) = cat) hs))"

definition recalculate_caches :: "network_metrics \<Rightarrow> network_metrics" where
  "recalculate_caches m =
     (let hs = nm_history m; stakes = stakes_per_staker (\<lambda>s. 0 < sn_staker_count s) hs in
      if hs = [] then m
      else recalculate_fault_impacts (m\<lparr>
        nm_median_hash_rate := median_or (nm_median_hash_rate m) (positive (map sn_hash_rate hs)),
        nm_median_block_time := median_or (nm_median_block_time m) (positive (map sn_block_time hs)),
        nm_median_fees := median_u128 (map sn_total_fees hs),
        nm_median_stake := (if stakes = [] then nm_median_stake m else median_u128 stakes),
        nm_median_solve_times := map (\<lambda>cat. median_or (nm_median_solve_times m ! cat) (solve_times_of hs cat)) [0..<10]\<rparr>))"

definition record_snapshot :: "network_snapshot \<Rightarrow> network_metrics \<Rightarrow> network_metrics" where
  "record_snapshot s m =
     (let h = (if nm_max_history m \<le> length (nm_history m) then drop 1 (nm_history m) else nm_history m)
      in recalculate_caches (m\<lparr>nm_current_block := sn_block_height s, nm_history := h @ [s]\<rparr>))"

definition is_bootstrapped :: "network_metrics \<Rightarrow> bool" where
  "is_bootstrapped m \<longleftrightarrow> nm_min_samples m \<le> length (nm_history m)"

definition median_hash_rate :: "network_metrics \<Rightarrow> f64" where
  "median_hash_rate m = (if \<not> is_bootstrapped m then ETA else nm_median_hash_rate m)"

definition median_block_time :: "network_metrics \<Rightarrow> f64" where
  "median_block_time m = (if \<not> is_bootstrapped m then f_lit 10 else nm_median_block_time m)"

definition solve_time_ratio :: "float_ext \<Rightarrow> network_metrics \<Rightarrow> u8 \<Rightarrow> f64" where
  "solve_time_ratio F m category =
     (if \<not> is_bootstrapped m then fm_exp F (f_mul ETA (f_of_word category))
      else f_div (nm_median_solve_times m ! min (unat category) 9)
             (f_max (nm_median_solve_times m ! 0) (f_lit 0.001)))"

definition hardness_factor :: "float_ext \<Rightarrow> network_metrics \<Rightarrow> u8 \<Rightarrow> f64" where
  "hardness_factor F m category = solve_time_ratio F m category"

definition median_fee :: "network_metrics \<Rightarrow> u128" where
  "median_fee m = (if \<not> is_bootstrapped m then 0 else nm_median_fees m)"

definition base_storage_cost :: "float_ext \<Rightarrow> network_metrics \<Rightarrow> u128" where
  "base_storage_cost F m =
     (if median_fee m = 0 then f_to_word (f_mul (fm_ln F (f_add f_one (f_of_word (nm_current_block m)))) (f_lit 1000))
      else median_fee m)"

definition median_stake :: "network_metrics \<Rightarrow> u128" where
  "median_stake m = (if \<not> is_bootstrapped m then 0 else nm_median_stake m)"

definition stake_threshold_percentile :: "network_metrics \<Rightarrow> f64 \<Rightarrow> u128" where
  "stake_threshold_percentile m p =
     (let stakes = stakes_per_staker (\<lambda>s. 0 < sn_total_staked s \<and> 0 < sn_staker_count s) (nm_history m)
      in if stakes = [] then 0 else percentile_u128 stakes p)"

text \<open>The severity of a fault: powers of \<open>\<eta>\<close> until there are enough snapshots, then shares of the
  reorganised blocks; faults that are not tracked are scaled from tracked ones.\<close>

fun bootstrap_severity :: "float_ext \<Rightarrow> fault_type \<Rightarrow> f64" where
  "bootstrap_severity F FaultInvalidBlock = fm_powi F ETA 2"
| "bootstrap_severity F FaultInvalidSolution = fm_powi F ETA 3"
| "bootstrap_severity F FaultSyncTimeout = fm_powi F ETA 5"
| "bootstrap_severity F FaultUnexpectedDisconnect = fm_powi F ETA 6"
| "bootstrap_severity F FaultEquivocation = ETA"
| "bootstrap_severity F FaultSpam = fm_powi F ETA 4"
| "bootstrap_severity F FaultFalsePeerInfo = fm_powi F ETA 3"

definition impact_share :: "network_metrics \<Rightarrow> (fault_impact_cache \<Rightarrow> f64) \<Rightarrow> f64" where
  "impact_share m f = f_div (f (nm_fault_impacts m)) (f_of_word (max (fi_total_reorg_blocks (nm_fault_impacts m)) 1))"

fun observed_severity :: "float_ext \<Rightarrow> network_metrics \<Rightarrow> fault_type \<Rightarrow> f64" where
  "observed_severity F m FaultInvalidBlock = impact_share m fi_invalid_block_impact"
| "observed_severity F m FaultEquivocation = impact_share m fi_equivocation_impact"
| "observed_severity F m FaultUnexpectedDisconnect = impact_share m fi_disconnect_impact"
| "observed_severity F m FaultInvalidSolution = f_mul (impact_share m fi_invalid_block_impact) PHI_INV"
| "observed_severity F m FaultSyncTimeout = f_mul (impact_share m fi_disconnect_impact) PHI_INV"
| "observed_severity F m FaultSpam = f_mul (impact_share m fi_invalid_block_impact) (fm_powi F PHI_INV 2)"
| "observed_severity F m FaultFalsePeerInfo = f_mul (impact_share m fi_invalid_block_impact) PHI_INV"

definition fault_severity :: "float_ext \<Rightarrow> network_metrics \<Rightarrow> fault_type \<Rightarrow> f64" where
  "fault_severity F m t = (if \<not> is_bootstrapped m then bootstrap_severity F t else observed_severity F m t)"

definition fault_decay_rate :: "float_ext \<Rightarrow> network_metrics \<Rightarrow> fault_type \<Rightarrow> f64" where
  "fault_decay_rate F m t =
     (let base_decay = f_div f_one (f_max (median_block_time m) f_one)
      in f_mul base_decay (f_sub f_one (f_mul (fault_severity F m t) PHI_INV)))"

definition baseline_hashrate :: "network_metrics \<Rightarrow> f64" where
  "baseline_hashrate m = median_hash_rate m"

definition psi_magnitude :: "float_ext \<Rightarrow> network_metrics \<Rightarrow> f64" where
  "psi_magnitude F m =
     (if nm_history m = [] then ETA
      else let latest = last (nm_history m);
               rate = (if f_lt f_zero (median_hash_rate m)
                       then f_min (f_div (sn_hash_rate latest) (median_hash_rate m)) PHI else f_one)
           in f_div (fm_sqrt F (f_add (fm_powi F (sn_consensus_agreement latest) 2) (fm_powi F rate 2)))
                (fm_sqrt F (f_lit 2)))"

definition emission_bounds :: "float_ext \<Rightarrow> network_metrics \<Rightarrow> f64 \<times> f64" where
  "emission_bounds F m = (let psi = psi_magnitude F m in (f_mul (fm_powi F ETA 2) psi, f_mul PHI psi))"

definition target_eta :: "float_ext \<Rightarrow> f64" where
  "target_eta F =
     f_div (foldl f_add f_zero (map (\<lambda>n. fm_exp F (f_mul (f_neg ETA) (f_of_nat n))) [1..<9])) (f_lit 8)"

section \<open>Facts\<close>

lemma f_insert_simps [simp]: "set (f_insert x xs) = insert x (set xs)" "length (f_insert x xs) = Suc (length xs)"
  by (induction xs) auto

lemma f_sort_simps [simp]: "set (f_sort xs) = set xs" "length (f_sort xs) = length xs"
  by (induction xs) (simp_all add: f_sort_def)

lemma percentile_index_less: "0 < n \<Longrightarrow> percentile_index p n < n"
  by (simp add: percentile_index_def)

text \<open>A percentile is one of the values.\<close>

lemma percentile_f64_mem:
  assumes "vs \<noteq> []"
  shows "percentile_f64 vs p \<in> set vs"
proof -
  have "percentile_index p (length vs) < length (f_sort vs)" using assms by (simp add: percentile_index_less)
  from nth_mem[OF this] show ?thesis using assms by (simp add: percentile_f64_def)
qed

lemma percentile_u128_mem:
  assumes "vs \<noteq> []"
  shows "percentile_u128 vs p \<in> set vs"
proof -
  have "percentile_index p (length vs) < length (sort vs)" using assms by (simp add: percentile_index_less)
  from nth_mem[OF this] show ?thesis using assms by (simp add: percentile_u128_def)
qed

lemma median_or_positive:
  assumes "f_lt f_zero old"
  shows "f_lt f_zero (median_or old (positive vs))"
proof (cases "positive vs = []")
  case False
  then have "median_or old (positive vs) \<in> set (positive vs)"
    by (simp add: median_or_def median_f64_def percentile_f64_mem)
  then show ?thesis by (simp add: positive_def)
qed (use assms in \<open>simp add: median_or_def\<close>)

text \<open>The caches are sound whatever is recorded: the window is bounded, there is one solve time per
  category, and the medians used as divisors are positive.\<close>

definition metrics_ok :: "network_metrics \<Rightarrow> bool" where
  "metrics_ok m \<longleftrightarrow> length (nm_history m) \<le> max 1 (nm_max_history m) \<and>
     length (nm_median_solve_times m) = 10 \<and> (\<forall>t\<in>set (nm_median_solve_times m). f_lt f_zero t) \<and>
     f_lt f_zero (nm_median_hash_rate m) \<and> f_lt f_zero (nm_median_block_time m)"

lemma recalculate_fault_impacts_other [simp]:
  "nm_history (recalculate_fault_impacts m) = nm_history m"
  "nm_max_history (recalculate_fault_impacts m) = nm_max_history m"
  "nm_median_solve_times (recalculate_fault_impacts m) = nm_median_solve_times m"
  "nm_median_hash_rate (recalculate_fault_impacts m) = nm_median_hash_rate m"
  "nm_median_block_time (recalculate_fault_impacts m) = nm_median_block_time m"
  by (simp_all add: recalculate_fault_impacts_def Let_def)

lemma f_lt_lits [simp]: "f_lt f_zero f_one" "f_lt f_zero (f_lit 10)"
  by (simp_all add: f_one_def)

lemma metrics_ok_new: "metrics_ok (network_metrics_new n)"
  by (simp add: metrics_ok_def network_metrics_new_def)

lemma recalculate_caches_ok:
  assumes "metrics_ok m"
  shows "metrics_ok (recalculate_caches m)"
  using assms by (auto simp: recalculate_caches_def metrics_ok_def Let_def solve_times_of_def median_or_positive)

lemma record_snapshot_ok:
  assumes "metrics_ok m"
  shows "metrics_ok (record_snapshot s m)"
proof -
  have "metrics_ok (m\<lparr>nm_current_block := sn_block_height s, nm_history :=
      (if nm_max_history m \<le> length (nm_history m) then drop 1 (nm_history m) else nm_history m) @ [s]\<rparr>)"
    using assms by (auto simp: metrics_ok_def)
  then show ?thesis unfolding record_snapshot_def Let_def by (rule recalculate_caches_ok)
qed

lemma record_snapshot_latest: "last (nm_history (record_snapshot s m)) = s \<and> nm_history (record_snapshot s m) \<noteq> []"
  by (simp add: record_snapshot_def recalculate_caches_def Let_def)

lemma median_block_time_positive: "metrics_ok m \<Longrightarrow> f_lt f_zero (median_block_time m)"
  by (auto simp: median_block_time_def metrics_ok_def)

end
