(* ===== verification/Core_Fixed_Point.thy ===== *)
theory Core_Fixed_Point
  imports Core_Types CJ_Float64
begin

text \<open>
  \<open>core/src/fixed_point.rs\<close>: the scale-6 integer arithmetic that work scores are computed
  with, at its widths (\<open>u64\<close> values, \<open>u128\<close> intermediates). The lemmas give each
  function's value over the natural numbers and show that no step wraps around.
\<close>

section \<open>Definitions\<close>

type_synonym fixed64 = u64

definition SCALE :: u64 where "SCALE = 1000000"
definition SCALE_U128 :: u128 where "SCALE_U128 = ucast SCALE"

definition from_f64_lossy :: "f64 \<Rightarrow> fixed64" where
  "from_f64_lossy v =
     (if f_le v f_zero then 0
      else let scaled = f_mul v (f_of_word SCALE)
           in if f_le (f_of_word (- 1 :: u64)) scaled then - 1 else f_to_word scaled)"

definition to_f64 :: "fixed64 \<Rightarrow> f64" where
  "to_f64 v = f_div (f_of_word v) (f_of_word SCALE)"

function isqrt_loop :: "u128 \<Rightarrow> u128 \<Rightarrow> u128 \<Rightarrow> u128" where
  "isqrt_loop n x y = (if y < x then isqrt_loop n y ((y + n div y) div 2) else x)"
  by pat_completeness auto
termination
  by (relation "measure (\<lambda>(n, x, y). unat x)") (auto simp: word_less_nat_alt)

declare isqrt_loop.simps [simp del]

text \<open>\<open>div_ceil(2)\<close> of the standard library.\<close>

definition div_ceil2 :: "u128 \<Rightarrow> u128" where
  "div_ceil2 n = (if n mod 2 = 0 then n div 2 else n div 2 + 1)"

definition isqrt :: "u128 \<Rightarrow> u128" where
  "isqrt n = (if n = 0 then 0 else isqrt_loop n n (div_ceil2 n))"

definition fp_mul :: "fixed64 \<Rightarrow> fixed64 \<Rightarrow> fixed64 option" where
  "fp_mul a b = Option.bind (checked_mul_word (ucast a :: u128) (ucast b)) (\<lambda>product.
     let result = product div SCALE_U128 in
     if ucast (- 1 :: u64) < result then None else Some (ucast result))"

definition fp_mul_sat :: "fixed64 \<Rightarrow> fixed64 \<Rightarrow> fixed64" where
  "fp_mul_sat a b =
     (let product = saturating_mul_word (ucast a :: u128) (ucast b);
          result = product div SCALE_U128
      in ucast (min result (ucast (- 1 :: u64))))"

text \<open>\<open>u128::leading_zeros\<close>, as the number of bits above the highest one.\<close>

definition leading_zeros :: "'w::len word \<Rightarrow> nat" where
  "leading_zeros w = LENGTH('w) - floorlog 2 (unat w)"

definition log2_ratio :: "u64 \<Rightarrow> u64 \<Rightarrow> fixed64 option" where
  "log2_ratio numerator denominator =
     (if denominator = 0 \<or> numerator \<le> denominator then None
      else let ratio_fp = push_bit 32 (ucast numerator :: u128) div ucast denominator in
        if ratio_fp = 0 then None
        else let total_bits = 127 - leading_zeros ratio_fp in
          if total_bits < 32 then None
          else let floor_k = (of_nat (total_bits - 32) :: u64);
                   shift_amount = total_bits - 32;
                   mantissa = (ucast (drop_bit shift_amount ratio_fp) :: u64);
                   mantissa_frac = saturating_sub_word mantissa (push_bit 32 1);
                   frac = (ucast (drop_bit 32 ((ucast mantissa_frac :: u128) * SCALE_U128)) :: u64)
               in Some (floor_k * SCALE + frac))"

definition apply_quality :: "fixed64 \<Rightarrow> u16 \<Rightarrow> fixed64" where
  "apply_quality score quality_bps =
     (if quality_bps = 0 then 0
      else if 10000 \<le> quality_bps then score
      else ucast (((ucast score :: u128) * ucast quality_bps) div 10000))"

definition quality_f64_to_bps :: "f64 \<Rightarrow> u16" where
  "quality_f64_to_bps quality =
     (if f_le quality f_zero then 0
      else if f_le f_one quality then 10000
      else f_to_word (f_mul quality (f_of_nat 10000)))"

definition chain_security :: "fixed64 list \<Rightarrow> u128" where
  "chain_security scores = (\<Sum>s\<leftarrow>scores. ucast s)"

section \<open>Integer square root\<close>

text \<open>One Newton step from any positive \<open>x\<close> stays above the root.\<close>

lemma newton_ge:
  fixes s x n :: nat
  assumes "s * s \<le> n" and "0 < x"
  shows "s \<le> (x + n div x) div 2"
proof -
  have "2 * s \<le> x + n div x"
  proof (rule ccontr)
    assume "\<not> ?thesis"
    then have lt: "n div x + x < 2 * s" by simp
    define d where "d = 2 * s - x"
    have d: "n div x < d" and sd: "x + d = 2 * s" using lt by (simp_all add: d_def)
    have "n < x * d"
      using d assms(2) by (metis Suc_leI dividend_less_times_div less_le_trans mult_Suc_right mult_le_mono2)
    moreover have "x * d \<le> s * s"
    proof -
      have "int x * int d = int s * int s - (int s - int x) * (int s - int x)"
      proof -
        have di: "int d = 2 * int s - int x" using sd by linarith
        show ?thesis unfolding di by (simp add: algebra_simps)
      qed
      moreover have "0 \<le> (int s - int x) * (int s - int x)" by simp
      ultimately have "int x * int d \<le> int s * int s" by linarith
      then show ?thesis by (simp flip: of_nat_mult)
    qed
    ultimately show False using assms(1) by linarith
  qed
  then show ?thesis by simp
qed

text \<open>When a step does not go down, \<open>x\<close> is at most the root.\<close>

lemma newton_stop:
  fixes x n :: nat
  assumes "x \<le> (x + n div x) div 2"
  shows "x * x \<le> n"
proof -
  have "2 * x \<le> x + n div x" using assms by linarith
  then have "x \<le> n div x" by simp
  then have "x * x \<le> n div x * x" by simp
  also have "\<dots> \<le> n" by simp
  finally show ?thesis .
qed

text \<open>The step does not overflow: above the root the quotient is at most \<open>2 ^ 64 + 1\<close>.\<close>

definition root_of :: "nat \<Rightarrow> nat \<Rightarrow> bool" where
  "root_of n s \<longleftrightarrow> s * s \<le> n \<and> n < (s + 1) * (s + 1)"

lemma root_exists: "\<exists>s. root_of n s"
proof (induction n)
  case 0
  show ?case by (auto simp: root_of_def intro: exI[of _ 0])
next
  case (Suc n)
  then obtain s where "s * s \<le> n" "n < (s + 1) * (s + 1)" by (auto simp: root_of_def)
  then have "root_of (Suc n) s \<or> root_of (Suc n) (s + 1)"
    by (auto simp: root_of_def)
  then show ?case by blast
qed

lemma root_quotient:
  assumes "root_of n s" and "s \<le> y" and "0 < s"
  shows "n div y \<le> s + 2"
proof -
  have "n div y \<le> n div s" using assms(2,3) by (rule div_le_mono2[rotated])
  also have "\<dots> \<le> (s + 2) * s div s"
    using assms(1) by (intro div_le_mono) (simp add: root_of_def algebra_simps)
  also have "\<dots> = s + 2" using assms(3) by simp
  finally show ?thesis .
qed

lemma root_u128: "root_of (unat (n :: u128)) s \<Longrightarrow> s < 2 ^ 64"
proof (rule ccontr)
  assume "root_of (unat n) s" and "\<not> s < 2 ^ 64"
  then have "2 ^ 64 \<le> s" and "s * s \<le> unat n" by (simp_all add: root_of_def)
  then have "2 ^ 64 * 2 ^ 64 \<le> s * s" and "s * s \<le> unat n" by (blast intro: mult_le_mono)+
  then show False using unat_lt_pow[of n] by simp
qed

lemma unat_newton_step:
  fixes n y :: u128
  assumes "root_of (unat n) s" and "s \<le> unat y" and "0 < s" and "unat y \<le> 2 ^ 127"
  shows "unat ((y + n div y) div 2) = (unat y + unat n div unat y) div 2"
    and "unat ((y + n div y) div 2) \<le> 2 ^ 127"
proof -
  have "unat n div unat y \<le> s + 2" using assms(1-3) by (rule root_quotient)
  with root_u128[OF assms(1)] have q: "unat n div unat y \<le> 2 ^ 64 + 1" by simp
  with assms(4) have "unat y + unat (n div y) < 2 ^ LENGTH(128)" by (simp add: unat_div)
  then show eq: "unat ((y + n div y) div 2) = (unat y + unat n div unat y) div 2"
    by (simp add: unat_div unat_add_small)
  show "unat ((y + n div y) div 2) \<le> 2 ^ 127"
    unfolding eq using q assms(4) by simp
qed

lemma isqrt_loop_correct:
  "root_of (unat n) s \<Longrightarrow> 0 < s \<Longrightarrow> s \<le> unat x \<Longrightarrow>
   unat y = (unat x + unat n div unat x) div 2 \<Longrightarrow> unat y \<le> 2 ^ 127 \<Longrightarrow>
   unat (isqrt_loop n x y) = s"
proof (induction n x y rule: isqrt_loop.induct)
  case (1 n x y)
  have y: "s \<le> unat y"
    using "1.prems" by (simp add: root_of_def newton_ge)
  show ?case
  proof (cases "y < x")
    case True
    note step = unat_newton_step[OF "1.prems"(1) y "1.prems"(2,5)]
    from "1.IH"[OF True "1.prems"(1,2) y step] True show ?thesis
      by (simp add: isqrt_loop.simps[of n x y])
  next
    case False
    then have "unat x \<le> (unat x + unat n div unat x) div 2"
      using "1.prems"(4) by (simp add: word_le_nat_alt not_less)
    then have "unat x * unat x \<le> unat n" by (rule newton_stop)
    then have "\<not> (s + 1) * (s + 1) \<le> unat x * unat x"
      using "1.prems"(1) unfolding root_of_def by linarith
    then have "unat x < s + 1" by (meson mult_le_mono not_le)
    with "1.prems"(3) False show ?thesis by (simp add: isqrt_loop.simps[of n x y])
  qed
qed

lemma isqrt_floor: "root_of (unat n) (unat (isqrt n))"
proof (cases "n = 0")
  case True
  then show ?thesis by (simp add: isqrt_def root_of_def)
next
  case False
  obtain s where s: "root_of (unat n) s" using root_exists by blast
  have n: "0 < unat n" using False by (simp add: unat_gt_0)
  then have s0: "0 < s" using s by (cases s) (auto simp: root_of_def)
  have "s \<le> s * s" by (cases s) simp_all
  then have le: "s \<le> unat n" using s unfolding root_of_def by linarith
  have m2: "unat (n mod 2) = unat n mod 2" by (simp add: unat_mod)
  have ceil: "unat (div_ceil2 n) = (unat n + 1) div 2"
  proof (cases "n mod 2 = 0")
    case True
    then have "unat n mod 2 = 0" using m2 by simp
    with True show ?thesis by (simp add: div_ceil2_def unat_div) presburger
  next
    case odd: False
    then have "unat n mod 2 \<noteq> 0" using m2 unat_eq_zero by metis
    moreover have "unat (n div 2) + unat (1 :: u128) < 2 ^ LENGTH(128)"
      using unat_lt_pow[of n] by (simp add: unat_div)
    ultimately show ?thesis using odd
      by (simp add: div_ceil2_def unat_add_small unat_div) presburger
  qed
  then have "unat (div_ceil2 n) \<le> 2 ^ 127" using unat_lt_pow[of n] by simp
  with isqrt_loop_correct[OF s s0 le] ceil n False s show ?thesis by (simp add: isqrt_def)
qed

section \<open>Multiplication and quality\<close>

lemma unat_u64_in_u128: "unat (ucast (x :: u64) :: u128) = unat x"
  by (rule unat_ucast_up) simp

lemma u64_product_fits: "unat (x :: u64) * unat (y :: u64) < 2 ^ 128"
proof -
  have "unat x * unat y \<le> (2 ^ 64 - 1) * (2 ^ 64 - 1)"
    using unat_lt_pow[of x] unat_lt_pow[of y] by (intro mult_le_mono) simp_all
  then show ?thesis by simp
qed

lemma fp_mul_value:
  "fp_mul a b = Some c \<longleftrightarrow> unat a * unat b div 1000000 = unat c"
proof -
  let ?p = "(ucast a :: u128) * ucast b"
  have p: "unat ?p = unat a * unat b"
    using u64_product_fits[of a b] by (subst unat_mult_small) (simp_all only: unat_u64_in_u128 len_of_numeral_defs, simp_all)
  have r: "unat (?p div SCALE_U128) = unat a * unat b div 1000000"
    by (simp add: unat_div p SCALE_U128_def SCALE_def)
  have m: "unat (ucast (- 1 :: u64) :: u128) = 2 ^ 64 - 1"
    by (simp only: unat_u64_in_u128) (simp add: unat_max_word)
  have chk: "checked_mul_word (ucast a :: u128) (ucast b) = Some ?p"
    using u64_product_fits[of a b] by (simp only: checked_mul_word_def unat_u64_in_u128) simp
  show ?thesis
  proof (cases "unat a * unat b div 1000000 < 2 ^ 64")
    case True
    then have "unat (ucast (?p div SCALE_U128) :: u64) = unat a * unat b div 1000000"
      using unat_ucast_fits[of "?p div SCALE_U128", where 'b = 64] by (simp add: r)
    with True r m chk show ?thesis
      by (auto simp: fp_mul_def Let_def word_less_nat_alt word_unat_eq_iff)
  next
    case False
    then have "unat a * unat b div 1000000 \<noteq> unat c" using unat_lt_pow[of c] by auto
    with False r m chk show ?thesis by (simp add: fp_mul_def Let_def word_less_nat_alt)
  qed
qed

lemma unat_SCALE: "unat SCALE = 1000000" "unat SCALE_U128 = 1000000"
  by (simp_all add: SCALE_def SCALE_U128_def)

lemma apply_quality_value:
  "unat (apply_quality score q) = unat score * min (unat q) 10000 div 10000"
proof (cases "q = 0 \<or> 10000 \<le> q")
  case True
  then show ?thesis by (auto simp: apply_quality_def word_le_nat_alt)
next
  case False
  then have q: "unat q < 10000" and nz: "q \<noteq> 0" by (auto simp: word_le_nat_alt)
  have "unat (ucast q :: u128) = unat q" by (rule unat_ucast_up) simp
  moreover have fits: "unat score * unat q < 2 ^ 128"
  proof -
    have "unat score * unat q \<le> (2 ^ 64 - 1) * 10000"
      using unat_lt_pow[of score] q by (intro mult_le_mono) simp_all
    then show ?thesis by simp
  qed
  ultimately have "unat ((ucast score :: u128) * ucast q div 10000) = unat score * unat q div 10000"
    by (simp add: unat_div unat_mult_small unat_u64_in_u128)
  moreover have "unat score * unat q div 10000 \<le> unat score * 10000 div 10000"
    using q by (intro div_le_mono mult_le_mono) simp_all
  ultimately show ?thesis
    using q nz False unat_lt_pow[of score] by (simp add: apply_quality_def unat_ucast_fits)
qed

section \<open>The logarithm\<close>

definition log2_spec :: "nat \<Rightarrow> nat" where
  "log2_spec r = (let k = floorlog 2 r - 33; m = r div 2 ^ k
     in k * 1000000 + (m - 2 ^ 32) * 1000000 div 2 ^ 32)"

lemma floorlog_pow2:
  assumes "2 ^ 32 \<le> r"
  shows "33 \<le> floorlog 2 r" and "2 ^ 32 * 2 ^ (floorlog 2 r - 33) \<le> r"
    and "r < 2 ^ 33 * 2 ^ (floorlog 2 r - 33)"
proof -
  have r0: "0 < r" using assms by (cases r) simp_all
  have b: "2 ^ (floorlog 2 r - 1) \<le> r" "r < 2 ^ floorlog 2 r"
    using floorlog_bounds[OF r0, of 2] by simp_all
  have "\<not> floorlog 2 r \<le> 32"
  proof
    assume "floorlog 2 r \<le> 32"
    then have "(2::nat) ^ floorlog 2 r \<le> 2 ^ 32" by (rule power_increasing) simp
    with b(2) assms show False by linarith
  qed
  then show 33: "33 \<le> floorlog 2 r" by simp
  have "(2::nat) ^ 32 * 2 ^ (floorlog 2 r - 33) = 2 ^ (floorlog 2 r - 1)"
    and "(2::nat) ^ 33 * 2 ^ (floorlog 2 r - 33) = 2 ^ floorlog 2 r"
    using 33 by (simp_all only: power_add[symmetric]) simp_all
  with b show "2 ^ 32 * 2 ^ (floorlog 2 r - 33) \<le> r" "r < 2 ^ 33 * 2 ^ (floorlog 2 r - 33)"
    by (simp_all only:)
qed

text \<open>The normalised mantissa lies in \<open>[2 ^ 32, 2 ^ 33)\<close>.\<close>

lemma mantissa_bounds:
  assumes "2 ^ 32 \<le> r"
  shows "2 ^ 32 \<le> r div 2 ^ (floorlog 2 r - 33)" and "r div 2 ^ (floorlog 2 r - 33) < 2 ^ 33"
  using floorlog_pow2[OF assms]
  by (simp_all only: less_eq_div_iff_mult_less_eq div_less_iff_less_mult zero_less_power zero_less_numeral pos2)

lemma frac_lt: "m < 2 ^ 33 \<Longrightarrow> (m - 2 ^ 32) * 1000000 div 2 ^ 32 < (1000000::nat)"
  by (simp add: div_less_iff_less_mult)

lemma log2_ratio_value:
  assumes "den \<noteq> 0" and "den < num"
  shows "\<exists>s. log2_ratio num den = Some s \<and> unat s = log2_spec (unat num * 2 ^ 32 div unat den)"
proof -
  let ?r = "push_bit 32 (ucast num :: u128) div ucast den"
  define r where "r = unat num * 2 ^ 32 div unat den"
  have d0: "0 < unat den" and lt: "unat den < unat num"
    using assms by (simp_all add: unat_gt_0 word_less_nat_alt)
  have shl: "unat (push_bit 32 (ucast num :: u128)) = unat num * 2 ^ 32"
  proof -
    have "unat (ucast num :: u128) * unat (2 ^ 32 :: u128) < 2 ^ LENGTH(128)"
      using unat_lt_pow[of num] by (simp add: unat_u64_in_u128)
    then show ?thesis by (simp add: push_bit_eq_mult unat_mult_small unat_u64_in_u128)
  qed
  have ur: "unat ?r = r" by (simp only: unat_div shl unat_u64_in_u128 r_def)
  have "unat den * 2 ^ 32 div unat den \<le> r" unfolding r_def using lt by (intro div_le_mono) simp
  then have r32: "2 ^ 32 \<le> r" using d0 by simp
  have "r \<le> unat num * 2 ^ 32" unfolding r_def by (rule div_le_dividend)
  also have "\<dots> < 2 ^ 96" using unat_lt_pow[of num] by simp
  finally have r96: "r < 2 ^ 96" .
  define k where "k = floorlog 2 r - 33"
  note fl = floorlog_pow2[OF r32] and mb = mantissa_bounds[OF r32]
  have fl96: "floorlog 2 r \<le> 96" using r96 by (intro floorlog_leI) simp_all
  have bits: "127 - leading_zeros ?r = k + 32"
    using fl(1) fl96 by (simp add: leading_zeros_def ur k_def)
  have nz: "?r \<noteq> 0" using ur r32 by (metis unat_0 not_numeral_le_zero power_not_zero zero_neq_numeral le_zero_eq)
  let ?m = "ucast (drop_bit k ?r) :: u64"
  have m: "unat ?m = r div 2 ^ k"
  proof -
    have "unat (drop_bit k ?r) = r div 2 ^ k" by (simp only: unat_drop_bit ur)
    moreover have "r div 2 ^ k < 2 ^ LENGTH(64)" using mb(2) by (simp add: k_def)
    ultimately show ?thesis by (simp only: unat_ucast_fits)
  qed
  let ?f = "saturating_sub_word ?m (push_bit 32 1)"
  have f: "unat ?f = r div 2 ^ k - 2 ^ 32"
    by (simp only: unat_saturating_sub m) (simp add: push_bit_eq_mult)
  have f32: "r div 2 ^ k - 2 ^ 32 < 2 ^ 32" using mb(2) by (simp add: k_def)
  let ?g = "ucast (drop_bit 32 ((ucast ?f :: u128) * SCALE_U128)) :: u64"
  have g: "unat ?g = (r div 2 ^ k - 2 ^ 32) * 1000000 div 2 ^ 32"
  proof -
    have "unat ((ucast ?f :: u128) * SCALE_U128) = (r div 2 ^ k - 2 ^ 32) * 1000000"
    proof -
      have "unat (ucast ?f :: u128) * unat SCALE_U128 < 2 ^ LENGTH(128)"
        using f32 unfolding unat_u64_in_u128 f unat_SCALE by simp
      then show ?thesis by (simp only: unat_mult_small unat_u64_in_u128 f unat_SCALE)
    qed
    then have "unat (drop_bit 32 ((ucast ?f :: u128) * SCALE_U128)) =
        (r div 2 ^ k - 2 ^ 32) * 1000000 div 2 ^ 32" by (simp only: unat_drop_bit)
    moreover have "(r div 2 ^ k - 2 ^ 32) * 1000000 div 2 ^ 32 < 2 ^ LENGTH(64)"
      using frac_lt[OF mb(2)] by (simp add: k_def)
    ultimately show ?thesis by (simp only: unat_ucast_fits)
  qed
  have k63: "k \<le> 63" using fl96 by (simp add: k_def)
  have "unat (of_nat k * SCALE + ?g) = k * 1000000 + (r div 2 ^ k - 2 ^ 32) * 1000000 div 2 ^ 32"
  proof -
    have "unat (of_nat k * SCALE :: u64) = k * 1000000"
      using k63 by (simp add: unat_mult_small unat_SCALE unat_of_nat)
    moreover have "k * 1000000 + unat ?g < 2 ^ LENGTH(64)"
      using k63 g frac_lt[OF mb(2)] by (simp add: k_def)
    ultimately show ?thesis using g by (simp only: unat_add_small)
  qed
  moreover have "log2_ratio num den = Some (of_nat k * SCALE + ?g)"
    using assms nz bits unfolding log2_ratio_def Let_def by (simp only:) simp
  ultimately show ?thesis unfolding r_def[symmetric]
    by (auto simp: log2_spec_def Let_def k_def)
qed

text \<open>The integer part is exact and the whole result grows with the ratio.\<close>

lemma floorlog_ratio:
  fixes n d :: nat
  assumes "0 < d" and "d < n" and k: "k = floorlog 2 (n * 2 ^ 32 div d) - 33"
  shows "2 ^ k * d \<le> n" and "n < 2 ^ (k + 1) * d"
proof -
  define r where "r = n * 2 ^ 32 div d"
  have "d * 2 ^ 32 div d \<le> r" unfolding r_def using assms(2) by (intro div_le_mono) simp
  then have r32: "2 ^ 32 \<le> r" using assms(1) by simp
  note fl = floorlog_pow2[OF r32]
  have "2 ^ 32 * 2 ^ k * d \<le> r * d" using fl(2) k r_def by simp
  also have "\<dots> \<le> n * 2 ^ 32" unfolding r_def by (rule div_times_less_eq_dividend)
  finally show "2 ^ k * d \<le> n" by simp
  have "Suc r \<le> 2 ^ 33 * 2 ^ k" using fl(3) k r_def by simp
  then have "Suc r * d \<le> 2 ^ 33 * 2 ^ k * d" by (rule mult_le_mono1)
  moreover have "n * 2 ^ 32 < Suc r * d"
    unfolding r_def using assms(1) by (metis dividend_less_div_times mult.commute mult_Suc_right mult_Suc)
  ultimately have "n * 2 ^ 32 < 2 ^ 33 * 2 ^ k * d" by linarith
  then show "n < 2 ^ (k + 1) * d" by (simp add: mult_ac)
qed

lemma log2_spec_int_part:
  assumes "2 ^ 32 \<le> r"
  shows "log2_spec r div 1000000 = floorlog 2 r - 33"
  using frac_lt[OF mantissa_bounds(2)[OF assms]] by (simp add: log2_spec_def Let_def)

lemma log2_spec_mono:
  assumes r: "2 ^ 32 \<le> r" and le: "r \<le> r'"
  shows "log2_spec r \<le> log2_spec r'"
proof -
  have r': "2 ^ 32 \<le> r'" using assms by simp
  have fl: "floorlog 2 r \<le> floorlog 2 r'" using le by (rule floorlog_mono)
  show ?thesis
  proof (cases "floorlog 2 r = floorlog 2 r'")
    case True
    have "(r div 2 ^ (floorlog 2 r - 33) - 2 ^ 32) * 1000000 div 2 ^ 32
        \<le> (r' div 2 ^ (floorlog 2 r - 33) - 2 ^ 32) * 1000000 div 2 ^ 32"
      by (intro div_le_mono mult_le_mono1 diff_le_mono le)
    then show ?thesis unfolding log2_spec_def Let_def True[symmetric] by (rule add_left_mono)
  next
    case False
    with fl floorlog_pow2(1)[OF r] have "floorlog 2 r - 33 < floorlog 2 r' - 33" by linarith
    then have "log2_spec r div 1000000 < log2_spec r' div 1000000"
      using r r' by (simp only: log2_spec_int_part)
    then show ?thesis by (meson div_le_mono leI le_trans less_imp_le not_le)
  qed
qed

lemma log2_ratio_None: "log2_ratio n d = None \<longleftrightarrow> d = 0 \<or> n \<le> d"
proof (cases "d = 0 \<or> n \<le> d")
  case False
  then obtain s where "log2_ratio n d = Some s"
    using log2_ratio_value[of d n] by (auto simp: not_le)
  with False show ?thesis by simp
qed (simp add: log2_ratio_def)

end
