(* ===== verification/Consensus_Difficulty.thy ===== *)
theory Consensus_Difficulty
  imports "HOL-Library.AList" Tokenomics_Metrics Core_Fixed_Point
begin

text \<open>
  \<open>consensus/src/problem_registry.rs\<close>: the descriptors of the problem types and their registry. A trait object is
  the record of what its methods return; the registry's hash map is an association list by name.
  Then \<open>consensus/src/difficulty.rs\<close>: the adjustment of problem sizes to solve times.
\<close>

section \<open>Definitions\<close>

datatype complexity_class = NpComplete | CoNpComplete | NpHard

datatype verification_cost = VcConstant | VcLinear | VcNLogN | VcGraphLinear | VcPolynomial f64

fun scaling_factor :: "float_ext \<Rightarrow> verification_cost \<Rightarrow> nat \<Rightarrow> f64" where
  "scaling_factor F VcConstant n = f_one"
| "scaling_factor F VcLinear n = f_of_nat n"
| "scaling_factor F VcNLogN n = f_mul (f_of_nat n) (f_max (fm_ln F (f_of_nat n)) f_one)"
| "scaling_factor F VcGraphLinear n = f_of_nat n"
| "scaling_factor F (VcPolynomial k) n = fm_powf F (f_of_nat n) k"

record problem_descriptor =
  pd_name :: string
  pd_complexity_class :: complexity_class
  pd_scaling_exponent :: f64
  pd_verification_cost :: verification_cost
  pd_size_ratio :: f64
  pd_base_difficulty_weight :: f64
  pd_has_quality_gradient :: bool
  pd_absolute_max_size :: u64
  pd_absolute_min_size :: u64
  pd_generate_instance :: "u64 \<Rightarrow> u8 list \<Rightarrow> u8 list option"
  pd_verify_solution :: "u8 list \<Rightarrow> u8 list \<Rightarrow> f64 option"

text \<open>The default methods of the trait.\<close>

definition descriptor :: "string \<Rightarrow> complexity_class \<Rightarrow> f64 \<Rightarrow> verification_cost \<Rightarrow> f64 \<Rightarrow> f64 \<Rightarrow> bool \<Rightarrow> u64 \<Rightarrow> problem_descriptor" where
  "descriptor name cls exponent cost ratio weight gradient max_size =
     \<lparr>pd_name = name, pd_complexity_class = cls, pd_scaling_exponent = exponent, pd_verification_cost = cost,
      pd_size_ratio = ratio, pd_base_difficulty_weight = weight, pd_has_quality_gradient = gradient,
      pd_absolute_max_size = max_size, pd_absolute_min_size = 3, pd_generate_instance = (\<lambda>_ _. None),
      pd_verify_solution = (\<lambda>_ _. None)\<rparr>"

definition SubsetSumDescriptor :: problem_descriptor where
  "SubsetSumDescriptor = descriptor ''SubsetSum'' NpComplete (f_of_rat 0.8) VcLinear f_one f_one False 180"

definition SatDescriptor :: problem_descriptor where
  "SatDescriptor = descriptor ''SAT'' NpComplete (f_of_rat 0.7) VcLinear f_one (f_of_rat 1.2) False 320"

definition TspDescriptor :: problem_descriptor where
  "TspDescriptor = descriptor ''TSP'' NpHard (f_of_rat 0.5) VcLinear (f_of_rat 0.9) (f_of_rat 1.5) True 150"

definition GraphColoringDescriptor :: problem_descriptor where
  "GraphColoringDescriptor = descriptor ''GraphColoring'' NpComplete (f_of_rat 0.65) VcGraphLinear (f_of_rat 0.6)
     (f_of_rat 1.1) True 80"

definition FactorizationDescriptor :: problem_descriptor where
  "FactorizationDescriptor = (descriptor ''Factorization'' NpHard (f_of_rat 0.33) VcConstant (f_of_rat 0.5)
     (f_of_rat 1.8) False 200)\<lparr>pd_absolute_min_size := 16\<rparr>"

definition SvpDescriptor :: problem_descriptor where
  "SvpDescriptor = descriptor ''SVP'' NpHard (f_of_rat 0.5) VcConstant (f_of_rat 0.4) (f_of_rat 2) True 40"

type_synonym problem_registry = "(string \<times> problem_descriptor) list"

definition registry_empty :: problem_registry where
  "registry_empty = []"

definition registry_register :: "problem_descriptor \<Rightarrow> problem_registry \<Rightarrow> problem_registry" where
  "registry_register d r = AList.update (pd_name d) d r"

definition registry_get :: "problem_registry \<Rightarrow> string \<Rightarrow> problem_descriptor option" where
  "registry_get r name = map_of r name"

definition registry_new :: problem_registry where
  "registry_new = fold registry_register [SubsetSumDescriptor, SatDescriptor, TspDescriptor, GraphColoringDescriptor,
     FactorizationDescriptor, SvpDescriptor] registry_empty"

definition problem_types :: "problem_registry \<Rightarrow> string list" where
  "problem_types r = map fst r"

definition registry_len :: "problem_registry \<Rightarrow> nat" where
  "registry_len r = length r"

section \<open>Facts\<close>

text \<open>Registration replaces by name, and every registered descriptor is found under its own name.\<close>

definition registry_ok :: "problem_registry \<Rightarrow> bool" where
  "registry_ok r \<longleftrightarrow> distinct (map fst r) \<and> (\<forall>(n, d)\<in>set r. pd_name d = n)"

lemma registry_get_register [simp]:
  "registry_get (registry_register d r) n = (if n = pd_name d then Some d else registry_get r n)"
  by (simp add: registry_get_def registry_register_def update_conv)

lemma set_AList_update: "set (AList.update k v xs) \<subseteq> insert (k, v) (set xs)"
  by (induction xs) auto

lemma registry_register_ok:
  assumes "registry_ok r"
  shows "registry_ok (registry_register d r)"
  using assms set_AList_update[of "pd_name d" d r]
  by (fastforce simp: registry_ok_def registry_register_def distinct_update)

lemma registry_new_ok: "registry_ok registry_new"
  unfolding registry_new_def
  by (intro fold_invariant[where P = registry_ok and Q = "\<lambda>_. True"] registry_register_ok)
     (simp_all add: registry_ok_def registry_empty_def)

lemma registry_get_name: "registry_ok r \<Longrightarrow> registry_get r n = Some d \<Longrightarrow> pd_name d = n"
  by (auto simp: registry_ok_def registry_get_def dest: map_of_SomeD)

text \<open>
  \<open>consensus/src/difficulty.rs\<close>: the problem size that keeps solve times at their target. Sizes and times are
  \<open>u64\<close>; the square root is the integer one of \<open>Core_Fixed_Point\<close>. The shared oracles behind the locks are optional
  values of the record; \<open>readable\<close> says whether the registry's lock is free when it is only tried. Progress
  messages are left out.
\<close>

section \<open>Definitions\<close>

definition DIFFICULTY_WINDOW :: nat where "DIFFICULTY_WINDOW = 20"
definition HIGH_VARIANCE_RATIO :: f64 where "HIGH_VARIANCE_RATIO = f_one"
definition RECOVERY_STABLE_RATIO :: f64 where "RECOVERY_STABLE_RATIO = f_of_rat 1.2"
definition RECOVERY_STEP :: u64 where "RECOVERY_STEP = 1"
definition ABSOLUTE_MIN_SIZE :: u64 where "ABSOLUTE_MIN_SIZE = 1"
definition MIN_OPERATIONAL_SIZE :: u64 where "MIN_OPERATIONAL_SIZE = 45"
definition DEFAULT_TARGET_US :: u64 where "DEFAULT_TARGET_US = 10000000"
definition BOOTSTRAP_CURRENT_SIZE :: u64 where "BOOTSTRAP_CURRENT_SIZE = 110"
definition CANONICAL_MAX_SIZE :: u64 where "CANONICAL_MAX_SIZE = 220"
definition SCALE_CLAMP_MIN_NUM :: u128 where "SCALE_CLAMP_MIN_NUM = 2"
definition SCALE_CLAMP_MIN_DEN :: u128 where "SCALE_CLAMP_MIN_DEN = 5"
definition SCALE_CLAMP_MAX_NUM :: u128 where "SCALE_CLAMP_MAX_NUM = 2"
definition SCALE_CLAMP_MAX_DEN :: u128 where "SCALE_CLAMP_MAX_DEN = 1"

record difficulty_adjuster =
  da_recent_solve_times_us :: "u64 list"
  da_current_size :: u64
  da_recovery_target :: "u64 option"
  da_stall_counter :: u64
  da_network_metrics :: "network_metrics option"
  da_registry :: "problem_registry option"

definition adjuster_new :: difficulty_adjuster where
  "adjuster_new = \<lparr>da_recent_solve_times_us = [], da_current_size = BOOTSTRAP_CURRENT_SIZE,
     da_recovery_target = None, da_stall_counter = 0, da_network_metrics = None, da_registry = None\<rparr>"

definition with_metrics :: "network_metrics \<Rightarrow> difficulty_adjuster" where
  "with_metrics m = adjuster_new\<lparr>da_network_metrics := Some m\<rparr>"

definition with_registry :: "network_metrics \<Rightarrow> problem_registry \<Rightarrow> difficulty_adjuster" where
  "with_registry m r = adjuster_new\<lparr>da_network_metrics := Some m, da_registry := Some r\<rparr>"

abbreviation MICROS :: f64 where "MICROS \<equiv> f_of_rat 1000000"

definition secs_of_us :: "u64 \<Rightarrow> f64" where
  "secs_of_us t = f_div (f_of_word t) MICROS"

definition optimal_solve_time_us :: "difficulty_adjuster \<Rightarrow> u64" where
  "optimal_solve_time_us a = (case da_network_metrics a of
       Some m \<Rightarrow> f_to_word (f_mul (f_max (median_block_time m) (f_of_rat 0.1)) MICROS)
     | None \<Rightarrow> DEFAULT_TARGET_US)"

definition optimal_solve_time :: "difficulty_adjuster \<Rightarrow> f64" where
  "optimal_solve_time a = secs_of_us (optimal_solve_time_us a)"

definition max_target_solve_time :: "difficulty_adjuster \<Rightarrow> f64" where
  "max_target_solve_time a = f_mul (optimal_solve_time a) PHI"

definition current_size :: "difficulty_adjuster \<Rightarrow> u64" where
  "current_size a = max (da_current_size a) ABSOLUTE_MIN_SIZE"

definition record_solve_time_us :: "u64 \<Rightarrow> difficulty_adjuster \<Rightarrow> difficulty_adjuster" where
  "record_solve_time_us t a =
     (let ts = da_recent_solve_times_us a @ [t]
      in a\<lparr>da_recent_solve_times_us := (if DIFFICULTY_WINDOW < length ts then tl ts else ts)\<rparr>)"

text \<open>A \<open>Duration\<close> is its number of nanoseconds.\<close>

definition record_solve_time :: "nat \<Rightarrow> difficulty_adjuster \<Rightarrow> difficulty_adjuster" where
  "record_solve_time d a = record_solve_time_us (of_nat (d div 1000)) a"

definition moving_average_us :: "difficulty_adjuster \<Rightarrow> u64" where
  "moving_average_us a =
     (let ts = da_recent_solve_times_us a in
      if ts = [] then DEFAULT_TARGET_US
      else fold (\<lambda>t acc. saturating_add_word acc t) ts 0 div of_nat (length ts))"

definition compute_new_size_deterministic :: "u64 \<Rightarrow> u64 \<Rightarrow> u64 \<Rightarrow> u64" where
  "compute_new_size_deterministic size_now avg_us target_us =
     (if avg_us = 0 then size_now
      else let size_sq = ucast size_now * ucast size_now :: u128;
               scaled = saturating_mul_word size_sq (ucast target_us) div ucast avg_us
           in ucast (isqrt scaled))"

definition solve_time_std_dev :: "float_ext \<Rightarrow> difficulty_adjuster \<Rightarrow> f64 \<Rightarrow> f64" where
  "solve_time_std_dev F a mean_secs =
     (let ts = da_recent_solve_times_us a in
      if length ts < 2 then f_zero
      else fm_sqrt F (f_div (foldl f_add f_zero (map (\<lambda>t. let delta = f_sub (secs_of_us t) mean_secs in f_mul delta delta) ts))
             (f_of_nat (length ts))))"

definition apply_recovery :: "u64 \<Rightarrow> f64 \<Rightarrow> difficulty_adjuster \<Rightarrow> u64 \<times> difficulty_adjuster" where
  "apply_recovery cur time_ratio a =
     (case da_recovery_target a of
        Some goal \<Rightarrow> if f_le time_ratio RECOVERY_STABLE_RATIO
          then let next_size = min (cur + RECOVERY_STEP) goal
               in (max next_size ABSOLUTE_MIN_SIZE,
                   if goal \<le> next_size then a\<lparr>da_recovery_target := None\<rparr> else a)
          else (max cur ABSOLUTE_MIN_SIZE, a)
      | None \<Rightarrow> (max cur ABSOLUTE_MIN_SIZE,
          if f_le time_ratio (f_of_rat 1.5) \<and> 0 < da_stall_counter a
          then a\<lparr>da_stall_counter := da_stall_counter a - 1\<rparr> else a))"

text \<open>A penalty reduces the size, remembers the size to return to and counts the stall.\<close>

definition penalise :: "u64 \<Rightarrow> difficulty_adjuster \<Rightarrow> difficulty_adjuster" where
  "penalise reduced a = a\<lparr>da_recovery_target := Some (unwrap_or (da_recovery_target a) (current_size a)),
     da_current_size := reduced, da_stall_counter := min (da_stall_counter a + 1) 20\<rparr>"

definition apply_stall_penalty :: "difficulty_adjuster \<Rightarrow> difficulty_adjuster" where
  "apply_stall_penalty a =
     (let old_size = current_size a;
          reduced = max (max ((ucast old_size * 7 :: u128) div 10) (ucast MIN_OPERATIONAL_SIZE)) (ucast ABSOLUTE_MIN_SIZE)
      in penalise (ucast reduced) a)"

definition penalize_failure :: "difficulty_adjuster \<Rightarrow> u64 \<times> difficulty_adjuster" where
  "penalize_failure a =
     (let old_size = current_size a;
          reduced = max (max ((ucast old_size * 90 :: u128) div 100) (ucast MIN_OPERATIONAL_SIZE)) (ucast ABSOLUTE_MIN_SIZE)
      in (ucast reduced, penalise (ucast reduced) a))"

text \<open>The size limits of a problem type, from the registry and the network's pace.\<close>

definition type_limits :: "difficulty_adjuster \<Rightarrow> string \<Rightarrow> f64 \<times> u64 \<times> u64" where
  "type_limits a problem_type =
     (case da_registry a of
        Some r \<Rightarrow> (case registry_get r problem_type of
            Some d \<Rightarrow> (pd_scaling_exponent d, pd_absolute_max_size d, pd_absolute_min_size d)
          | None \<Rightarrow> (f_of_rat 0.8, 60, ABSOLUTE_MIN_SIZE))
      | None \<Rightarrow> if problem_type = ''TSP'' then (f_of_rat 0.5, 120, ABSOLUTE_MIN_SIZE)
          else if problem_type = ''SAT'' then (f_of_rat 0.7, 320, ABSOLUTE_MIN_SIZE)
          else (f_of_rat 0.8, 120, ABSOLUTE_MIN_SIZE))"

definition problem_category :: "string \<Rightarrow> u8" where
  "problem_category t = (if t = ''SubsetSum'' then 3 else if t = ''TSP'' then 1 else 0)"

definition default_max :: "string \<Rightarrow> u64" where
  "default_max t = (if t = ''SAT'' then 320 else if t = ''TSP'' then 120 else CANONICAL_MAX_SIZE)"

definition get_size_limits :: "float_ext \<Rightarrow> string \<Rightarrow> difficulty_adjuster \<Rightarrow> u64 \<times> u64" where
  "get_size_limits F problem_type a =
     (case type_limits a problem_type of (scaling_exp, abs_max, abs_min) \<Rightarrow>
      (case da_network_metrics a of
         Some m \<Rightarrow>
           let hardness = hardness_factor F m (problem_category problem_type);
               optimal_time = f_mul (f_mul (median_block_time m) ETA) hardness;
               estimated = f_to_word (f_mul (fm_powf F (f_div optimal_time f_one) scaling_exp) hardness) :: u64;
               min0 = f_to_word (f_max (f_max (f_mul (f_of_word estimated) (f_of_rat 0.2)) (f_of_word abs_min))
                        (f_of_word ABSOLUTE_MIN_SIZE));
               max0 = f_to_word (f_min (f_mul (f_of_word estimated) (f_of_rat 2)) (f_of_word abs_max));
               max_size = min (max (max max0 (current_size a)) MIN_OPERATIONAL_SIZE) abs_max;
               min_size = min min0 (saturating_sub_word max_size 1)
           in (max min_size ABSOLUTE_MIN_SIZE, max max_size (ABSOLUTE_MIN_SIZE + 1))
       | None \<Rightarrow>
           let lo = max abs_min ABSOLUTE_MIN_SIZE; hi = min abs_max (default_max problem_type)
           in (lo, max hi (lo + 1))))"

text \<open>One retarget: no move before half the window is filled, the stall penalty, deferral under
  high variance, the integer size, the stall ratio, the clamps, recovery.\<close>

definition stall_adjusted :: "u64 \<Rightarrow> u64 \<Rightarrow> u64" where
  "stall_adjusted stall_ratio raw =
     (if 5 < stall_ratio then max (raw * 2 div 5) ABSOLUTE_MIN_SIZE
      else if 2 < stall_ratio then max (raw * 7 div 10) ABSOLUTE_MIN_SIZE else raw)"

definition clamped :: "u64 \<times> u64 \<Rightarrow> u64 \<Rightarrow> u64 \<Rightarrow> u64" where
  "clamped limits cur adjusted =
     (let min_clamped = ucast (ucast cur * SCALE_CLAMP_MIN_NUM div SCALE_CLAMP_MIN_DEN);
          max_clamped = ucast (ucast cur * SCALE_CLAMP_MAX_NUM div SCALE_CLAMP_MAX_DEN)
      in min (max adjusted (max min_clamped (fst limits))) (min max_clamped (snd limits)))"

definition retarget ::
  "float_ext \<Rightarrow> u64 \<Rightarrow> f64 \<Rightarrow> (difficulty_adjuster \<Rightarrow> u64 \<times> u64) \<Rightarrow> difficulty_adjuster \<Rightarrow> u64 \<times> difficulty_adjuster" where
  "retarget F target_us max_target limits a =
     (if length (da_recent_solve_times_us a) < DIFFICULTY_WINDOW div 2 then (current_size a, a)
      else let avg_us = moving_average_us a; avg_secs = secs_of_us avg_us;
               a1 = (if f_lt (f_mul max_target (f_of_rat 2)) avg_secs then apply_stall_penalty a else a)
           in if f_lt (f_mul avg_secs HIGH_VARIANCE_RATIO) (solve_time_std_dev F a1 avg_secs) then (current_size a1, a1)
              else let raw = compute_new_size_deterministic (current_size a1) avg_us (max target_us 1);
                       adjusted = stall_adjusted (avg_us div max target_us 1) raw;
                       bounded = clamped (limits a1) (current_size a1) adjusted
                   in case apply_recovery bounded (f_div (f_of_word avg_us) (f_of_word (max target_us 1))) a1 of
                        (next_size, a2) \<Rightarrow> (max next_size ABSOLUTE_MIN_SIZE,
                                            a2\<lparr>da_current_size := max next_size ABSOLUTE_MIN_SIZE\<rparr>))"

definition adjust_difficulty :: "float_ext \<Rightarrow> difficulty_adjuster \<Rightarrow> u64 \<times> difficulty_adjuster" where
  "adjust_difficulty F a =
     retarget F DEFAULT_TARGET_US (f_mul (secs_of_us DEFAULT_TARGET_US) PHI)
       (\<lambda>_. (MIN_OPERATIONAL_SIZE, CANONICAL_MAX_SIZE)) a"

definition adjust_difficulty_async :: "float_ext \<Rightarrow> difficulty_adjuster \<Rightarrow> u64 \<times> difficulty_adjuster" where
  "adjust_difficulty_async F a =
     retarget F (optimal_solve_time_us a) (max_target_solve_time a) (get_size_limits F ''SubsetSum'') a"

definition penalize_failure_async :: "float_ext \<Rightarrow> difficulty_adjuster \<Rightarrow> u64 \<times> difficulty_adjuster" where
  "penalize_failure_async F a =
     (let old_size = current_size a; min_size = fst (get_size_limits F ''SubsetSum'' a);
          reduced = max (max (max ((ucast old_size * 90 :: u128) div 100) (ucast min_size)) (ucast MIN_OPERATIONAL_SIZE))
                      (ucast ABSOLUTE_MIN_SIZE)
      in (ucast reduced, penalise (ucast reduced) a))"

definition scaled_size :: "difficulty_adjuster \<Rightarrow> f64 \<Rightarrow> u64" where
  "scaled_size a ratio = f_to_word (f_round_away (f_mul (f_of_word (current_size a)) ratio))"

definition size_for_problem_type :: "bool \<Rightarrow> difficulty_adjuster \<Rightarrow> string \<Rightarrow> u64" where
  "size_for_problem_type readable a problem_type =
     (case (if readable then Option.bind (da_registry a) (\<lambda>r. registry_get r problem_type) else None) of
        Some d \<Rightarrow> min (max (scaled_size a (pd_size_ratio d)) (max (pd_absolute_min_size d) ABSOLUTE_MIN_SIZE))
                    (pd_absolute_max_size d)
      | None \<Rightarrow> if problem_type = ''SubsetSum'' then min (current_size a) CANONICAL_MAX_SIZE
          else if problem_type = ''SAT'' then min (max (scaled_size a f_one) ABSOLUTE_MIN_SIZE) 320
          else if problem_type = ''TSP'' then min (max (scaled_size a (f_of_rat 0.9)) ABSOLUTE_MIN_SIZE) 150
          else current_size a)"

definition size_for_problem_type_async :: "float_ext \<Rightarrow> difficulty_adjuster \<Rightarrow> string \<Rightarrow> u64" where
  "size_for_problem_type_async F a problem_type =
     (let limits = get_size_limits F problem_type a;
          size_ratio = (case da_registry a of
              Some r \<Rightarrow> (case registry_get r problem_type of Some d \<Rightarrow> pd_size_ratio d | None \<Rightarrow> f_one)
            | None \<Rightarrow> if problem_type = ''TSP'' then f_of_rat 0.9 else f_one)
      in min (max (scaled_size a size_ratio) (max (fst limits) ABSOLUTE_MIN_SIZE)) (max (snd limits) (fst limits + 1)))"

text \<open>Statistics for monitoring.\<close>

record difficulty_stats =
  ds_current_size :: u64
  ds_avg_solve_time_secs :: f64
  ds_min_solve_time_secs :: f64
  ds_max_solve_time_secs :: f64
  ds_std_dev_secs :: f64
  ds_sample_count :: nat
  ds_time_ratio :: f64
  ds_stall_counter :: u64
  ds_in_recovery_mode :: bool

definition stats_with :: "float_ext \<Rightarrow> f64 \<Rightarrow> difficulty_adjuster \<Rightarrow> difficulty_stats" where
  "stats_with F time_ratio a =
     (let ts = da_recent_solve_times_us a; avg_secs = secs_of_us (moving_average_us a) in
      \<lparr>ds_current_size = current_size a, ds_avg_solve_time_secs = avg_secs,
       ds_min_solve_time_secs = secs_of_us (if ts = [] then 0 else fold min (tl ts) (hd ts)),
       ds_max_solve_time_secs = secs_of_us (if ts = [] then 0 else fold max (tl ts) (hd ts)),
       ds_std_dev_secs = solve_time_std_dev F a avg_secs, ds_sample_count = length ts,
       ds_time_ratio = time_ratio, ds_stall_counter = da_stall_counter a,
       ds_in_recovery_mode = (da_recovery_target a \<noteq> None)\<rparr>)"

definition difficulty_stats_of :: "float_ext \<Rightarrow> difficulty_adjuster \<Rightarrow> difficulty_stats" where
  "difficulty_stats_of F a =
     stats_with F (f_div (secs_of_us (moving_average_us a)) (secs_of_us DEFAULT_TARGET_US)) a"

definition stats_async :: "float_ext \<Rightarrow> difficulty_adjuster \<Rightarrow> difficulty_stats" where
  "stats_async F a =
     (let target_secs = optimal_solve_time a
      in stats_with F (if f_lt f_zero target_secs then f_div (secs_of_us (moving_average_us a)) target_secs else f_one) a)"

section \<open>The size decision\<close>

lemma unat_u64_less: "unat (s :: u64) < 2 ^ 64"
  using unat_lt_pow[of s] by simp

lemma unat_square_u64: "unat (ucast s * ucast s :: u128) = unat (s :: u64) * unat s"
proof -
  have "unat s * unat s < 2 ^ 64 * 2 ^ 64" by (intro mult_strict_mono unat_u64_less) auto
  then show ?thesis by (subst unat_mult_small) (simp_all add: unat_ucast_up)
qed

text \<open>The new size is the integer part of \<open>size * sqrt (target / avg)\<close>.\<close>

lemma compute_new_size_root:
  assumes avg: "avg \<noteq> 0" and fits: "unat s * unat s * unat target < 2 ^ 128"
  shows "root_of (unat s * unat s * unat target div unat avg) (unat (compute_new_size_deterministic s avg target))"
proof -
  let ?sc = "saturating_mul_word (ucast s * ucast s :: u128) (ucast target) div ucast avg"
  have sc: "unat ?sc = unat s * unat s * unat target div unat avg"
    using fits unat_square_u64[of s]
    by (simp add: saturating_mul_word_def unat_div unat_mult_small unat_ucast_up)
  have r: "root_of (unat ?sc) (unat (isqrt ?sc))" by (rule isqrt_floor)
  have "unat (isqrt ?sc) < 2 ^ 64" by (rule root_u128[OF r])
  then have "unat (ucast (isqrt ?sc) :: u64) = unat (isqrt ?sc)" by (intro unat_ucast_fits) simp
  with r sc avg show ?thesis by (simp add: compute_new_size_deterministic_def Let_def)
qed

lemma root_of_mono: "root_of m a \<Longrightarrow> root_of n b \<Longrightarrow> m \<le> n \<Longrightarrow> a \<le> b"
proof (rule ccontr)
  assume r: "root_of m a" "root_of n b" "m \<le> n" and "\<not> a \<le> b"
  then have "(b + 1) * (b + 1) \<le> a * a" by (intro mult_le_mono) auto
  with r show False unfolding root_of_def by linarith
qed

lemma root_of_square: "root_of (a * a) b \<Longrightarrow> b = a"
proof -
  assume r: "root_of (a * a) b"
  have "root_of (a * a) a" by (simp add: root_of_def)
  with r show "b = a" using root_of_mono by (meson antisym order_refl)
qed

text \<open>A slower network never gets a larger size; at the target pace the size stays.\<close>

lemma compute_new_size_antitone:
  assumes "unat s * unat s * unat target < 2 ^ 128" and "avg \<noteq> 0" and "avg \<le> avg'"
  shows "compute_new_size_deterministic s avg' target \<le> compute_new_size_deterministic s avg target"
proof -
  have avg': "avg' \<noteq> 0" using assms(2,3) by (metis word_le_0_iff)
  have "unat s * unat s * unat target div unat avg' \<le> unat s * unat s * unat target div unat avg"
    using assms(2,3) by (intro div_le_mono2) (simp_all add: word_le_nat_alt unat_gt_0)
  from root_of_mono[OF compute_new_size_root[OF avg' assms(1)] compute_new_size_root[OF assms(2,1)] this]
  show ?thesis by (simp add: word_le_nat_alt)
qed

lemma compute_new_size_at_target:
  assumes "unat s * unat s * unat target < 2 ^ 128" and "target \<noteq> 0"
  shows "compute_new_size_deterministic s target target = s"
proof -
  have "unat s * unat s * unat target div unat target = unat s * unat s"
    using assms(2) by (simp add: unat_gt_0)
  with compute_new_size_root[OF assms(2,1)] have "unat (compute_new_size_deterministic s target target) = unat s"
    by (metis root_of_square)
  then show ?thesis by (rule word_unat_eq_iff[THEN iffD2])
qed

section \<open>Invariant\<close>

definition size_ok :: "u64 \<Rightarrow> bool" where
  "size_ok s \<longleftrightarrow> MIN_OPERATIONAL_SIZE \<le> s \<and> s \<le> CANONICAL_MAX_SIZE"

definition difficulty_ok :: "difficulty_adjuster \<Rightarrow> bool" where
  "difficulty_ok a \<longleftrightarrow> size_ok (da_current_size a) \<and> (\<forall>t. da_recovery_target a = Some t \<longrightarrow> size_ok t) \<and>
     da_stall_counter a \<le> 20 \<and> length (da_recent_solve_times_us a) \<le> DIFFICULTY_WINDOW"

lemma difficulty_ok_new: "difficulty_ok adjuster_new"
  by (simp add: difficulty_ok_def adjuster_new_def size_ok_def MIN_OPERATIONAL_SIZE_def CANONICAL_MAX_SIZE_def
      BOOTSTRAP_CURRENT_SIZE_def DIFFICULTY_WINDOW_def word_le_nat_alt)

lemma current_size_ok: "difficulty_ok a \<Longrightarrow> current_size a = da_current_size a \<and> size_ok (current_size a)"
  by (auto simp: difficulty_ok_def size_ok_def current_size_def ABSOLUTE_MIN_SIZE_def MIN_OPERATIONAL_SIZE_def
      word_le_nat_alt max_def)

lemma record_solve_time_us_ok: "difficulty_ok a \<Longrightarrow> difficulty_ok (record_solve_time_us t a)"
  by (auto simp: record_solve_time_us_def difficulty_ok_def Let_def)

lemma reduced_ok:
  assumes "size_ok s" and "k \<le> d" and "d \<le> 100" and "0 < d"
  shows "size_ok (ucast (max (max ((ucast s * of_nat k :: u128) div of_nat d) (ucast MIN_OPERATIONAL_SIZE)) (ucast ABSOLUTE_MIN_SIZE)))"
proof -
  have s: "45 \<le> unat s" "unat s \<le> 220"
    using assms(1) by (simp_all add: size_ok_def MIN_OPERATIONAL_SIZE_def CANONICAL_MAX_SIZE_def word_le_nat_alt)
  have k: "unat (of_nat k :: u128) = k" and d: "unat (of_nat d :: u128) = d"
    using assms(2,3) by (simp_all add: unat_of_nat)
  have m: "unat s * k \<le> 220 * 100" using s assms(2,3) by (intro mult_le_mono) auto
  then have "unat (ucast s * of_nat k :: u128) = unat s * k"
    using k by (subst unat_mult_small) (simp_all add: unat_ucast_up)
  then have q: "unat ((ucast s * of_nat k :: u128) div of_nat d) = unat s * k div d"
    by (simp add: unat_div d)
  have "unat s * k div d \<le> unat s * d div d" using assms(2) by (intro div_le_mono mult_le_mono) auto
  then have le: "unat s * k div d \<le> 220" using assms(4) s by simp
  let ?r = "max (max ((ucast s * of_nat k :: u128) div of_nat d) (ucast MIN_OPERATIONAL_SIZE)) (ucast ABSOLUTE_MIN_SIZE)"
  have r: "45 \<le> unat ?r" "unat ?r \<le> 220"
    using q le by (auto simp: max_def word_le_nat_alt unat_ucast_up MIN_OPERATIONAL_SIZE_def ABSOLUTE_MIN_SIZE_def)
  then have "unat (ucast ?r :: u64) = unat ?r" by (intro unat_ucast_fits) simp
  with r show ?thesis by (simp add: size_ok_def MIN_OPERATIONAL_SIZE_def CANONICAL_MAX_SIZE_def word_le_nat_alt)
qed

lemma penalise_ok:
  assumes "difficulty_ok a" and "size_ok r"
  shows "difficulty_ok (penalise r a)"
  using assms current_size_ok[OF assms(1)] by (auto simp: difficulty_ok_def penalise_def unwrap_or_def split: option.splits)

lemma apply_stall_penalty_ok: "difficulty_ok a \<Longrightarrow> difficulty_ok (apply_stall_penalty a)"
  using reduced_ok[of "current_size a" 7 10] current_size_ok[of a]
  by (auto simp: apply_stall_penalty_def Let_def penalise_ok)

lemma penalize_failure_ok:
  assumes "difficulty_ok a" and "penalize_failure a = (r, a')"
  shows "difficulty_ok a' \<and> r = da_current_size a'"
  using reduced_ok[of "current_size a" 90 100] current_size_ok[OF assms(1)] assms
  by (auto simp: penalize_failure_def Let_def penalise_ok) (simp add: penalise_def)

lemma clamped_ok:
  assumes "size_ok s"
  shows "size_ok (clamped (MIN_OPERATIONAL_SIZE, CANONICAL_MAX_SIZE) s x)"
proof -
  have s: "45 \<le> unat s" "unat s \<le> 220"
    using assms by (simp_all add: size_ok_def MIN_OPERATIONAL_SIZE_def CANONICAL_MAX_SIZE_def word_le_nat_alt)
  have d: "unat (ucast s * SCALE_CLAMP_MAX_NUM div SCALE_CLAMP_MAX_DEN) = unat s * 2"
    using s unat_mult_small[of "ucast s :: u128" SCALE_CLAMP_MAX_NUM]
    by (simp add: SCALE_CLAMP_MAX_NUM_def SCALE_CLAMP_MAX_DEN_def unat_ucast_up)
  then have "unat (ucast (ucast s * SCALE_CLAMP_MAX_NUM div SCALE_CLAMP_MAX_DEN) :: u64) = unat s * 2"
    using s by (subst unat_ucast_fits) simp_all
  with s show ?thesis
    by (auto simp: clamped_def Let_def size_ok_def MIN_OPERATIONAL_SIZE_def CANONICAL_MAX_SIZE_def word_le_nat_alt max_def min_def)
qed

lemma apply_recovery_ok:
  assumes "difficulty_ok a" and "size_ok s" and "apply_recovery s ratio a = (r, a')"
  shows "size_ok r \<and> difficulty_ok a'"
proof -
  have s: "45 \<le> unat s" "unat s \<le> 220"
    using assms(2) by (simp_all add: size_ok_def MIN_OPERATIONAL_SIZE_def CANONICAL_MAX_SIZE_def word_le_nat_alt)
  have "unat (s + 1) = unat s + 1" using s by (subst unat_add_small) simp_all
  moreover have "unat (da_stall_counter a - 1) = unat (da_stall_counter a) - 1" if "0 < da_stall_counter a"
    using that unat_gt_0[of "da_stall_counter a"] by (subst unat_sub_le) (auto simp: word_le_nat_alt word_less_nat_alt)
  ultimately show ?thesis using s assms
    by (auto simp: apply_recovery_def Let_def size_ok_def difficulty_ok_def MIN_OPERATIONAL_SIZE_def
        CANONICAL_MAX_SIZE_def ABSOLUTE_MIN_SIZE_def RECOVERY_STEP_def word_le_nat_alt max_def min_def unat_sub_le
        split: option.splits if_splits)
qed

text \<open>The synchronous retarget keeps the size between 45 and 220, whatever was recorded.\<close>

lemma adjust_difficulty_ok:
  assumes "difficulty_ok a" and "adjust_difficulty F a = (r, a')"
  shows "difficulty_ok a' \<and> r = da_current_size a'"
proof -
  let ?L = "\<lambda>_ :: difficulty_adjuster. (MIN_OPERATIONAL_SIZE, CANONICAL_MAX_SIZE)"
  define a1 where "a1 = (if f_lt (f_mul (f_mul (secs_of_us DEFAULT_TARGET_US) PHI) (f_of_rat 2)) (secs_of_us (moving_average_us a))
    then apply_stall_penalty a else a)"
  have a1: "difficulty_ok a1" using assms(1) by (simp add: a1_def apply_stall_penalty_ok)
  show ?thesis
  proof (cases "length (da_recent_solve_times_us a) < DIFFICULTY_WINDOW div 2 \<or>
      f_lt (f_mul (secs_of_us (moving_average_us a)) HIGH_VARIANCE_RATIO) (solve_time_std_dev F a1 (secs_of_us (moving_average_us a)))")
    case True
    then show ?thesis using assms a1 current_size_ok[OF a1] current_size_ok[OF assms(1)]
      unfolding adjust_difficulty_def retarget_def Let_def a1_def[symmetric] by (auto split: if_splits)
  next
    case False
    then obtain x ratio s a2 where "apply_recovery (clamped (?L a1) (current_size a1) x) ratio a1 = (s, a2)"
      "r = max s ABSOLUTE_MIN_SIZE" "a' = a2\<lparr>da_current_size := max s ABSOLUTE_MIN_SIZE\<rparr>"
      using assms(2) unfolding adjust_difficulty_def retarget_def Let_def a1_def[symmetric]
      by (auto split: prod.splits)
    moreover from apply_recovery_ok[OF a1 clamped_ok this(1)] current_size_ok[OF a1]
    have "size_ok s" "difficulty_ok a2" by auto
    moreover have "max s ABSOLUTE_MIN_SIZE = s"
      using \<open>size_ok s\<close> by (auto simp: size_ok_def MIN_OPERATIONAL_SIZE_def ABSOLUTE_MIN_SIZE_def word_le_nat_alt max_def)
    ultimately show ?thesis by (simp add: difficulty_ok_def)
  qed
qed

end
