(* ===== verification/Consensus_Work_Score.thy ===== *)
theory Consensus_Work_Score
  imports CJ_Float_Facts Core_Fixed_Point Core_Problem
begin

text \<open>
  \<open>consensus/src/work_score.rs\<close>: the work score of a block, once in floats and once in integers. A
  \<open>Duration\<close> is its number of nanoseconds.
\<close>

section \<open>Definitions\<close>

definition MIN_VERIFY_TIME_SECS :: f64 where "MIN_VERIFY_TIME_SECS = f_of_rat (1 / 10 ^ 6)"
definition MIN_VERIFY_TIME_US :: u64 where "MIN_VERIFY_TIME_US = 1"
definition MIN_ASYMMETRY_RATIO :: f64 where "MIN_ASYMMETRY_RATIO = f_of_rat 2"
definition MIN_ASYMMETRY_US :: u64 where "MIN_ASYMMETRY_US = 2"

text \<open>\<open>Duration::as_secs_f64\<close>: whole seconds plus nanoseconds over \<open>10 ^ 9\<close>.\<close>

definition as_secs_f64 :: "nat \<Rightarrow> f64" where
  "as_secs_f64 d = f_add (f_of_nat (d div 10 ^ 9)) (f_div (f_of_nat (d mod 10 ^ 9)) (f_of_nat (10 ^ 9)))"

definition work_calculate :: "float_ext \<Rightarrow> nat \<Rightarrow> nat \<Rightarrow> f64 \<Rightarrow> f64" where
  "work_calculate F solve_time verify_time quality_score =
     (if f_le quality_score f_zero then f_zero
      else let solve_secs = as_secs_f64 solve_time;
               verify_secs = f_max (as_secs_f64 verify_time) MIN_VERIFY_TIME_SECS;
               asymmetry_ratio = f_div solve_secs verify_secs
           in if f_lt asymmetry_ratio MIN_ASYMMETRY_RATIO then f_zero
              else f_max (f_mul (fm_log2 F asymmetry_ratio) (f_clamp quality_score f_zero f_one)) f_zero)"

definition calculate_from_solution :: "float_ext \<Rightarrow> problem_type \<Rightarrow> solution \<Rightarrow> nat \<Rightarrow> nat \<Rightarrow> f64 option" where
  "calculate_from_solution F problem sol solve_time verify_time =
     map_option (work_calculate F solve_time verify_time) (solution_quality sol problem)"

definition chain_security_bits :: "f64 list \<Rightarrow> f64" where
  "chain_security_bits scores = foldl f_add f_zero scores"

definition required_asymmetry_for_bits :: "float_ext \<Rightarrow> f64 \<Rightarrow> f64" where
  "required_asymmetry_for_bits F target_bits = fm_powf F (f_of_rat 2) target_bits"

definition calculate_deterministic :: "u64 \<Rightarrow> u64 \<Rightarrow> u16 \<Rightarrow> fixed64" where
  "calculate_deterministic solve_time_us verify_time_us quality_bps =
     (if quality_bps = 0 then 0
      else let verify_us = max verify_time_us MIN_VERIFY_TIME_US in
        if solve_time_us < saturating_mul_word verify_us MIN_ASYMMETRY_US then 0
        else case log2_ratio solve_time_us verify_us of None \<Rightarrow> 0
          | Some bits \<Rightarrow> apply_quality bits quality_bps)"

definition chain_security_fixed :: "fixed64 list \<Rightarrow> u128" where
  "chain_security_fixed scores = chain_security scores"

definition block_a_wins :: "fixed64 \<Rightarrow> fixed64 \<Rightarrow> bool" where
  "block_a_wins a_score b_score \<longleftrightarrow> b_score < a_score"

section \<open>Facts\<close>

lemma work_calculate_nonneg: "work_calculate F s v q \<noteq> FNaN \<Longrightarrow> f_le f_zero (work_calculate F s v q)"
proof -
  have 0: "f_le f_zero f_zero" by (simp add: f_zero_def)
  have m: "f_le f_zero (f_max x f_zero)" if "f_max x f_zero \<noteq> FNaN" for x
    using that by (cases x) (auto simp: f_max_def f_zero_def)
  show "work_calculate F s v q \<noteq> FNaN \<Longrightarrow> f_le f_zero (work_calculate F s v q)"
    using 0 m by (auto simp: work_calculate_def Let_def split: if_splits)
qed

lemma max_verify: "max v MIN_VERIFY_TIME_US \<noteq> 0" "unat (max v MIN_VERIFY_TIME_US) = max (unat v) 1"
  by (auto simp: max_def MIN_VERIFY_TIME_US_def word_le_nat_alt unat_eq_0)

text \<open>With the same verification time and quality, solving for longer never scores less.\<close>

lemma calculate_deterministic_mono:
  assumes "s \<le> s'"
  shows "calculate_deterministic s v q \<le> calculate_deterministic s' v q"
proof -
  let ?v = "max v MIN_VERIFY_TIME_US"
  show ?thesis
  proof (cases "q = 0 \<or> s < saturating_mul_word ?v MIN_ASYMMETRY_US \<or> s \<le> ?v")
    case True
    then show ?thesis using log2_ratio_None[of s ?v]
      by (auto simp: calculate_deterministic_def Let_def split: option.split)
  next
    case False
    then have s: "?v < s" by (metis not_le)
    then have s': "?v < s'" using assms by (rule less_le_trans)
    obtain b where b: "log2_ratio s ?v = Some b" "unat b = log2_spec (unat s * 2 ^ 32 div unat ?v)"
      using log2_ratio_value[OF max_verify(1) s] by blast
    obtain b' where b': "log2_ratio s' ?v = Some b'" "unat b' = log2_spec (unat s' * 2 ^ 32 div unat ?v)"
      using log2_ratio_value[OF max_verify(1) s'] by blast
    have "unat ?v * 2 ^ 32 div unat ?v \<le> unat s * 2 ^ 32 div unat ?v"
      using s by (intro div_le_mono mult_le_mono) (auto simp: word_less_nat_alt)
    moreover have "0 < unat ?v" using max_verify(1)[of v] by (simp add: unat_gt_0)
    ultimately have "2 ^ 32 \<le> unat s * 2 ^ 32 div unat ?v" by simp
    moreover have "unat s * 2 ^ 32 div unat ?v \<le> unat s' * 2 ^ 32 div unat ?v"
      using assms by (intro div_le_mono mult_le_mono) (auto simp: word_le_nat_alt)
    ultimately have "unat b \<le> unat b'" using b(2) b'(2) log2_spec_mono by simp
    then have "apply_quality b q \<le> apply_quality b' q"
      by (simp add: word_le_nat_alt apply_quality_value div_le_mono)
    with False s' assms b(1) b'(1) show ?thesis by (auto simp: calculate_deterministic_def Let_def)
  qed
qed

text \<open>A higher quality never scores less either, and full quality counts every bit.\<close>

lemma calculate_deterministic_quality_mono:
  assumes "q \<le> q'"
  shows "calculate_deterministic s v q \<le> calculate_deterministic s v q'"
proof (cases "q' = 0")
  case True
  then show ?thesis using assms by (simp add: calculate_deterministic_def)
next
  case False
  have "apply_quality b q \<le> apply_quality b q'" for b
    unfolding word_le_nat_alt apply_quality_value
    using assms by (intro div_le_mono mult_le_mono) (auto simp: word_le_nat_alt)
  then show ?thesis using False by (auto simp: calculate_deterministic_def Let_def split: option.split)
qed

end
