(* ===== verification/Consensus_Solvers.thy ===== *)
theory Consensus_Solvers
  imports Core_Problem "HOL-Library.Sublist"
begin

text \<open>
  The solvers of \<open>consensus/src/miner.rs\<close>. The clock is what \<open>start_time.elapsed()\<close> returns at the
  \<open>k\<close>-th time it is read, in nanoseconds. What comes from other code is a parameter: the binary search of
  the standard library, of which only the contract is documented (any match may be returned), and the
  shuffles of the seeded generator. The memory estimate, which nothing reads, is left out.
  An outer \<open>None\<close> is a panic (an index out of range) or a loop that does not end.
\<close>

section \<open>Subset sum\<close>

definition SUBSET_SUM_DP_MAX_CELLS :: u64 where "SUBSET_SUM_DP_MAX_CELLS = 8000000"
definition SUBSET_SUM_1D_MAX_SUM :: u64 where "SUBSET_SUM_1D_MAX_SUM = 200000"
definition SUBSET_SUM_MITM_MAX_N :: nat where "SUBSET_SUM_MITM_MAX_N = 44"

text \<open>The table: one row per prefix, the cell \<open>offset + s\<close> tells whether the prefix reaches the sum \<open>s\<close>.\<close>

definition dp_row :: "nat \<Rightarrow> i64 \<Rightarrow> bool list \<Rightarrow> bool list" where
  "dp_row cells num prev = map (\<lambda>j. prev ! j \<or>
     (let prev_idx = of_nat j - num in 0 \<le>s prev_idx \<and> prev_idx <s of_nat cells \<and> prev ! unat prev_idx)) [0..<cells]"

fun dp_table :: "nat \<Rightarrow> bool list \<Rightarrow> i64 list \<Rightarrow> bool list list" where
  "dp_table cells row [] = [row]"
| "dp_table cells row (num # nums) = row # dp_table cells (dp_row cells num row) nums"

text \<open>Reading a solution off the table, from the last number down; the list is in ascending order.\<close>

fun dp_pick :: "i64 list \<Rightarrow> bool list list \<Rightarrow> u64 \<Rightarrow> nat \<Rightarrow> nat \<Rightarrow> i64 \<Rightarrow> nat list" where
  "dp_pick numbers dp offset cells 0 curr_sum = []"
| "dp_pick numbers dp offset cells (Suc i) curr_sum =
     (if curr_sum = 0 then []
      else let num = numbers ! i; prev_idx = unat (offset + curr_sum - num) in
        if num \<le>s curr_sum \<and> prev_idx < cells \<and> dp ! i ! prev_idx
        then dp_pick numbers dp offset cells i (curr_sum - num) @ [i]
        else dp_pick numbers dp offset cells i curr_sum)"

definition solve_subset_sum_dp :: "i64 list \<Rightarrow> i64 \<Rightarrow> u64 \<Rightarrow> nat \<Rightarrow> solution option option" where
  "solve_subset_sum_dp numbers target offset cells =
     (let n = length numbers;
          dp = dp_table cells ((replicate cells False)[unat offset := True]) numbers;
          target_idx = unat (offset + target)
      in if cells \<le> target_idx then None
         else if \<not> dp ! n ! target_idx then Some None
         else Some (Some (SubsetSumSol (dp_pick numbers dp offset cells n target))))"

text \<open>The table of one row, updated from the top down, with the last step to every sum.\<close>

definition dp1_step :: "nat \<Rightarrow> nat \<Rightarrow> nat \<Rightarrow> bool list \<times> (nat \<times> nat) option list \<Rightarrow> bool list \<times> (nat \<times> nat) option list" where
  "dp1_step i v s st = (case st of (dp, prev) \<Rightarrow>
     if \<not> dp ! s \<and> dp ! (s - v) then (dp[s := True], prev[s := Some (s - v, i)]) else (dp, prev))"

definition dp1_item :: "nat \<Rightarrow> nat \<times> i64 \<Rightarrow> bool list \<times> (nat \<times> nat) option list \<Rightarrow> bool list \<times> (nat \<times> nat) option list" where
  "dp1_item cap item st = (case item of (i, num) \<Rightarrow>
     if num \<le>s 0 then st
     else let v = unat num in if cap < v then st else fold (dp1_step i v) (rev [v..<cap + 1]) st)"

text \<open>Every step goes to a smaller sum, so \<open>s\<close> steps are enough.\<close>

fun dp1_trace :: "(nat \<times> nat) option list \<Rightarrow> nat \<Rightarrow> nat \<Rightarrow> nat list option" where
  "dp1_trace prev 0 s = Some []"
| "dp1_trace prev (Suc n) s =
     (if s = 0 then Some []
      else case prev ! s of None \<Rightarrow> None
        | Some (prev_s, idx) \<Rightarrow> map_option (\<lambda>is. idx # is) (dp1_trace prev n prev_s))"

definition solve_subset_sum_1d_dp :: "i64 list \<Rightarrow> i64 \<Rightarrow> solution option" where
  "solve_subset_sum_1d_dp numbers target =
     (let total_sum = sum_list numbers in
      if target <s 0 \<or> total_sum <s target then None
      else if target = 0 then Some (SubsetSumSol [])
      else let cap = unat total_sum;
               (dp, prev) = fold (dp1_item cap) (enumerate 0 numbers)
                 ((replicate (cap + 1) False)[0 := True], replicate (cap + 1) None);
               t = unat target
           in if \<not> dp ! t then None
              else map_option (\<lambda>is. SubsetSumSol (sort is)) (dp1_trace prev t t))"

text \<open>Meet in the middle: the sums of the subsets of the left half, sorted, and a search for what the right
  half leaves.\<close>

definition mask_indices :: "nat \<Rightarrow> nat \<Rightarrow> nat list" where
  "mask_indices n msk = filter (bit msk) [0..<n]"

definition mask_sum :: "i64 list \<Rightarrow> nat \<Rightarrow> i64" where
  "mask_sum xs msk = (\<Sum>i\<leftarrow>mask_indices (length xs) msk. xs ! i)"

fun mitm_search ::
  "(i64 list \<Rightarrow> i64 \<Rightarrow> nat option) \<Rightarrow> (i64 \<times> nat) list \<Rightarrow> nat \<Rightarrow> i64 list \<Rightarrow> i64 \<Rightarrow> nat list \<Rightarrow> solution option" where
  "mitm_search bs left_sums mid right target [] = None"
| "mitm_search bs left_sums mid right target (msk # masks) =
     (case bs (map fst left_sums) (target - mask_sum right msk) of
        Some idx \<Rightarrow> Some (SubsetSumSol (mask_indices mid (snd (left_sums ! idx)) @
                      map (\<lambda>i. mid + i) (mask_indices (length right) msk)))
      | None \<Rightarrow> mitm_search bs left_sums mid right target masks)"

definition solve_subset_sum_mitm :: "(i64 list \<Rightarrow> i64 \<Rightarrow> nat option) \<Rightarrow> i64 list \<Rightarrow> i64 \<Rightarrow> solution option" where
  "solve_subset_sum_mitm bs numbers target =
     (let mid = length numbers div 2; left = take mid numbers; right = drop mid numbers;
          left_sums = sort_key (\<lambda>p. sint (fst p)) (map (\<lambda>m. (mask_sum left m, m)) [0..<2 ^ length left])
      in mitm_search bs left_sums mid right target [0..<2 ^ length right])"

text \<open>The heuristic: \<open>samples seed n\<close> are the truncated shuffles of the 50000 rounds.\<close>

definition heuristic_seed :: "i64 list \<Rightarrow> u64" where
  "heuristic_seed numbers = fold (\<lambda>x h. h * 31 + x) numbers 0"

definition solve_subset_sum_heuristic :: "(u64 \<Rightarrow> nat \<Rightarrow> nat list list) \<Rightarrow> i64 list \<Rightarrow> i64 \<Rightarrow> solution option" where
  "solve_subset_sum_heuristic samples numbers target =
     map_option (\<lambda>is. SubsetSumSol (sort is))
       (List.find (\<lambda>is. (\<Sum>i\<leftarrow>is. numbers ! i) = target) (samples (heuristic_seed numbers) (length numbers)))"

definition solve_subset_sum ::
  "(i64 list \<Rightarrow> i64 \<Rightarrow> nat option) \<Rightarrow> (u64 \<Rightarrow> nat \<Rightarrow> nat list list) \<Rightarrow> i64 list \<Rightarrow> i64 \<Rightarrow> solution option option" where
  "solve_subset_sum bs samples numbers target =
     (let n = length numbers; total_sum = sum_list numbers in
      if total_sum <s target \<or> target <s 0 then Some None
      else if target = 0 then Some (Some (SubsetSumSol []))
      else let offset = abs_word total_sum :: u64; cells = 2 * offset + 1;
               dp_cells = saturating_mul_word (of_nat (n + 1)) cells
           in if dp_cells \<le> SUBSET_SUM_DP_MAX_CELLS then solve_subset_sum_dp numbers target offset (unat cells)
              else if total_sum \<le> SUBSET_SUM_1D_MAX_SUM then Some (solve_subset_sum_1d_dp numbers target)
              else if n \<le> SUBSET_SUM_MITM_MAX_N then Some (solve_subset_sum_mitm bs numbers target)
              else Some (solve_subset_sum_heuristic samples numbers target))"

section \<open>Satisfiability\<close>

definition solver_literal :: "bool list \<Rightarrow> i32 \<Rightarrow> bool" where
  "solver_literal assignment lit =
     (let var_idx = unat (scast (abs_word lit - 1) :: u64) in
      if var_idx < length assignment then (0 <s lit) = assignment ! var_idx else False)"

definition satisfied :: "clause list \<Rightarrow> bool list \<Rightarrow> bool" where
  "satisfied clauses assignment \<longleftrightarrow> list_all (\<lambda>c. list_ex (solver_literal assignment) (literals c)) clauses"

definition assignment_of :: "nat \<Rightarrow> nat \<Rightarrow> bool list" where
  "assignment_of variables assignment_bits = map (\<lambda>j. j < 32 \<and> bit assignment_bits j) [0..<variables]"

fun brute_force :: "(nat \<Rightarrow> bool) \<Rightarrow> nat \<Rightarrow> clause list \<Rightarrow> nat list \<Rightarrow> solution option" where
  "brute_force expired variables clauses [] = None"
| "brute_force expired variables clauses (b # bs) =
     (if expired b then None
      else if satisfied clauses (assignment_of variables b) then Some (SATSol (assignment_of variables b))
      else brute_force expired variables clauses bs)"

definition solve_sat_brute_force :: "(nat \<Rightarrow> bool) \<Rightarrow> nat \<Rightarrow> clause list \<Rightarrow> solution option" where
  "solve_sat_brute_force expired variables clauses =
     brute_force expired variables clauses [0..<2 ^ min variables 32]"

text \<open>\<open>dpll\<close>: \<open>d\<close> variables are still open; the clock has been read \<open>k\<close> times.\<close>

definition falsified :: "nat \<Rightarrow> bool list \<Rightarrow> clause \<Rightarrow> bool" where
  "falsified var_idx assignment c \<longleftrightarrow> list_all (\<lambda>lit.
     let idx = unat (scast (abs_word lit - 1) :: u64) in
     if idx < var_idx then (0 <s lit) \<noteq> assignment ! idx else False) (literals c)"

fun dpll :: "(nat \<Rightarrow> bool) \<Rightarrow> clause list \<Rightarrow> nat \<Rightarrow> bool list \<Rightarrow> nat \<Rightarrow> bool \<times> bool list \<times> nat" where
  "dpll expired clauses d assignment k =
     (let var_idx = length assignment - d in
      if expired k then (False, assignment, Suc k)
      else if satisfied clauses assignment then (True, assignment, Suc k)
      else if list_ex (falsified var_idx assignment) clauses then (False, assignment, Suc k)
      else case d of 0 \<Rightarrow> (False, assignment, Suc k)
        | Suc d' \<Rightarrow> (case dpll expired clauses d' (assignment[var_idx := True]) (Suc k) of
              (True, a, k') \<Rightarrow> (True, a, k')
            | (False, a, k') \<Rightarrow> dpll expired clauses d' (a[var_idx := False]) k'))"

declare dpll.simps [simp del]

definition solve_sat_with_timeout :: "(nat \<Rightarrow> bool) \<Rightarrow> nat \<Rightarrow> clause list \<Rightarrow> solution option" where
  "solve_sat_with_timeout expired variables clauses =
     (case dpll expired clauses variables (replicate variables False) 0 of
        (True, a, _) \<Rightarrow> Some (SATSol a) | (False, _, _) \<Rightarrow> None)"

section \<open>Tours\<close>

definition tsp_nearest_neighbor :: "nat \<Rightarrow> u64 list list \<Rightarrow> nat list option" where
  "tsp_nearest_neighbor cities distances =
     (if cities = 0 then None else nn_loop cities distances [0] ((replicate cities False)[0 := True]))"

definition reverse_between :: "nat \<Rightarrow> nat \<Rightarrow> nat list \<Rightarrow> nat list" where
  "reverse_between i j tour = take (i + 1) tour @ rev (take (j - i) (drop (i + 1) tour)) @ drop (j + 1) tour"

definition two_opt_swap :: "u64 list list \<Rightarrow> nat \<Rightarrow> nat \<times> nat \<Rightarrow> nat list \<Rightarrow> (nat list \<times> bool) option" where
  "two_opt_swap distances cities p tour = (case p of (i, j) \<Rightarrow>
     Option.bind (index tour i) (\<lambda>a. Option.bind (index tour (i + 1)) (\<lambda>b.
     Option.bind (index tour j) (\<lambda>c. Option.bind (index tour ((j + 1) mod cities)) (\<lambda>d.
     Option.bind (distance_at distances a b) (\<lambda>ab. Option.bind (distance_at distances c d) (\<lambda>cd.
     Option.bind (distance_at distances a c) (\<lambda>ac. Option.bind (distance_at distances b d) (\<lambda>bd.
       Some (if ac + bd < ab + cd then (reverse_between i j tour, True) else (tour, False)))))))))))"

text \<open>One pass over the pairs; the last flag says that the deadline passed.\<close>

fun two_opt_pass ::
  "(nat \<Rightarrow> bool) \<Rightarrow> u64 list list \<Rightarrow> nat \<Rightarrow> (nat \<times> nat) list \<Rightarrow> nat list \<Rightarrow> bool \<Rightarrow> nat \<Rightarrow> (nat list \<times> bool \<times> bool \<times> nat) option" where
  "two_opt_pass expired distances cities [] tour improved k = Some (tour, improved, False, k)"
| "two_opt_pass expired distances cities (p # ps) tour improved k =
     (if expired k then Some (tour, improved, True, Suc k)
      else case two_opt_swap distances cities p tour of None \<Rightarrow> None
        | Some (tour', better) \<Rightarrow> two_opt_pass expired distances cities ps tour' (improved \<or> better) (Suc k))"

definition two_opt_pairs :: "nat \<Rightarrow> (nat \<times> nat) list" where
  "two_opt_pairs cities = concat (map (\<lambda>i. map (\<lambda>j. (i, j)) [i + 2..<cities]) [0..<cities - 1])"

partial_function (option) tsp_two_opt ::
  "(nat \<Rightarrow> bool) \<Rightarrow> u64 list list \<Rightarrow> nat \<Rightarrow> nat list \<Rightarrow> nat \<Rightarrow> nat list option" where
  "tsp_two_opt expired distances cities tour k =
     (if expired k then Some tour
      else case two_opt_pass expired distances cities (two_opt_pairs cities) tour False (Suc k) of None \<Rightarrow> None
        | Some (tour', improved, stop, k') \<Rightarrow>
            if stop \<or> \<not> improved then Some tour' else tsp_two_opt expired distances cities tour' k')"

definition solve_tsp :: "(nat \<Rightarrow> bool) \<Rightarrow> nat \<Rightarrow> u64 list list \<Rightarrow> solution option option" where
  "solve_tsp expired cities distances =
     (if cities = 0 then Some None
      else case tsp_nearest_neighbor cities distances of None \<Rightarrow> None
        | Some tour \<Rightarrow> if length tour \<noteq> cities then Some None
            else map_option (\<lambda>t. Some (TSPSol t)) (tsp_two_opt expired distances cities tour 0))"

section \<open>The dispatcher\<close>

definition MINING_TIMEOUT :: nat where "MINING_TIMEOUT = 60 * 10 ^ 9"
definition SAT_TIMEOUT_BASE :: nat where "SAT_TIMEOUT_BASE = 30 * 10 ^ 9"
definition SAT_TIMEOUT_PER_VAR :: nat where "SAT_TIMEOUT_PER_VAR = 100 * 10 ^ 6"

text \<open>The saturation of \<open>Duration\<close> is out of reach: the factor is a \<open>u32\<close>.\<close>

definition sat_solve_timeout :: "nat \<Rightarrow> nat" where
  "sat_solve_timeout variables = min (SAT_TIMEOUT_BASE + SAT_TIMEOUT_PER_VAR * (variables mod 2 ^ 32)) MINING_TIMEOUT"

definition solve_problem_blocking ::
  "(i64 list \<Rightarrow> i64 \<Rightarrow> nat option) \<Rightarrow> (u64 \<Rightarrow> nat \<Rightarrow> nat list list) \<Rightarrow> (nat \<Rightarrow> nat) \<Rightarrow> problem_type \<Rightarrow> solution option option" where
  "solve_problem_blocking bs samples elapsed problem = (case problem of
       SubsetSum numbers target \<Rightarrow> solve_subset_sum bs samples numbers target
     | SAT variables clauses \<Rightarrow>
         (let expired = (\<lambda>k. sat_solve_timeout variables < elapsed k) in
          Some (if variables \<le> 32 then solve_sat_brute_force expired variables clauses
                else solve_sat_with_timeout expired variables clauses))
     | TSP cities distances \<Rightarrow> solve_tsp (\<lambda>k. MINING_TIMEOUT \<le> elapsed k) cities distances
     | CustomProblem _ _ \<Rightarrow> Some None)"

end
