(* ===== verification/Consensus_Solver_Facts.thy ===== *)
theory Consensus_Solver_Facts
  imports Consensus_Solvers "HOL-Library.Multiset"
begin

text \<open>
  The solvers are right: the two tables find a subset exactly when there is one, for the
  non-negative numbers that mining generates; the search for an assignment is sound, and complete while time
  lasts; the tour search returns a tour.
\<close>

section \<open>Small signed words\<close>

lemma sint_of_int_small: "- (2 ^ 63) \<le> k \<Longrightarrow> k < 2 ^ 63 \<Longrightarrow> sint (of_int k :: i64) = k"
  by (simp add: signed_of_int signed_take_bit_int_eq_self)

lemma sint_of_nat_small: "n < 2 ^ 63 \<Longrightarrow> sint (of_nat n :: i64) = int n"
  using sint_of_int_small[of "int n"] by simp

lemma unat_of_nat_small: "n < 2 ^ 63 \<Longrightarrow> unat (of_nat n :: i64) = n"
  by (simp only: unat_of_nat) simp

section \<open>Reachable sums\<close>

fun can :: "nat list \<Rightarrow> nat \<Rightarrow> bool" where
  "can [] s \<longleftrightarrow> s = 0"
| "can (x # xs) s \<longleftrightarrow> can xs s \<or> x \<le> s \<and> can xs (s - x)"

lemma can_iff: "can xs s \<longleftrightarrow> (\<exists>ys. subseq ys xs \<and> sum_list ys = s)"
proof (induction xs arbitrary: s)
  case (Cons x xs)
  show ?case
  proof
    assume "can (x # xs) s"
    then show "\<exists>ys. subseq ys (x # xs) \<and> sum_list ys = s"
    proof (cases "can xs s")
      case True
      then show ?thesis using Cons by (meson list_emb_Cons)
    next
      case False
      with \<open>can (x # xs) s\<close> Cons obtain ys where "x \<le> s" "subseq ys xs" "sum_list ys = s - x" by auto
      then have "subseq (x # ys) (x # xs)" "sum_list (x # ys) = s" by auto
      then show ?thesis by blast
    qed
  next
    assume "\<exists>ys. subseq ys (x # xs) \<and> sum_list ys = s"
    then obtain ys where ys: "subseq ys (x # xs)" "sum_list ys = s" by blast
    show "can (x # xs) s"
    proof (cases "subseq ys xs")
      case True
      then show ?thesis using ys(2) Cons by auto
    next
      case False
      with ys(1) obtain zs where "ys = x # zs" "subseq zs xs" by (cases ys) (auto split: if_splits)
      then show ?thesis using ys(2) Cons by auto
    qed
  qed
qed (auto dest: list_emb_Nil2)

lemma subseq_rev: "subseq ys xs \<Longrightarrow> subseq (rev ys) (rev xs)"
  by (induction rule: list_emb.induct) (auto intro: subseq_rev_drop_many list_emb_append_mono)

lemma can_rev: "can (rev xs) s \<longleftrightarrow> can xs s"
proof -
  have "can (rev xs) s" if "can xs s" for xs s
  proof -
    from that obtain ys where "subseq ys xs" "sum_list ys = s" by (auto simp: can_iff)
    then have "subseq (rev ys) (rev xs)" "sum_list (rev ys) = s" by (simp_all add: sum_list_rev subseq_rev)
    then show ?thesis by (auto simp: can_iff)
  qed
  from this[of xs s] this[of "rev xs" s] show ?thesis by auto
qed

text \<open>What the first \<open>i\<close> numbers reach.\<close>

definition prefix_can :: "nat list \<Rightarrow> nat \<Rightarrow> nat \<Rightarrow> bool" where
  "prefix_can xs i s \<longleftrightarrow> can (rev (take i xs)) s"

lemma prefix_can_0 [simp]: "prefix_can xs 0 s \<longleftrightarrow> s = 0"
  by (simp add: prefix_can_def)

lemma prefix_can_Suc:
  "i < length xs \<Longrightarrow> prefix_can xs (Suc i) s \<longleftrightarrow> prefix_can xs i s \<or> xs ! i \<le> s \<and> prefix_can xs i (s - xs ! i)"
  by (simp add: prefix_can_def take_Suc_conv_app_nth)

lemma prefix_can_zero: "prefix_can xs i 0"
  unfolding prefix_can_def can_iff by (intro exI[of _ "[]"]) simp

lemma prefix_can_all: "prefix_can xs (length xs) s \<longleftrightarrow> can xs s"
  by (simp add: prefix_can_def can_rev)

section \<open>The table\<close>

lemma dp_row_nth:
  assumes "cells \<le> 2 ^ 62" and "x \<le> 2 ^ 62" and "j < cells"
  shows "dp_row cells (of_nat x) prev ! j \<longleftrightarrow> prev ! j \<or> x \<le> j \<and> prev ! (j - x)"
proof -
  have s: "sint (of_nat j - of_nat x :: i64) = int j - int x"
    using sint_of_int_small[of "int j - int x"] assms by simp
  have u: "unat (of_nat j - of_nat x :: i64) = j - x" if "x \<le> j"
    using unat_of_nat_small[of "j - x"] assms that by (simp add: of_nat_diff)
  have c: "sint (of_nat cells :: i64) = int cells" using assms by (intro sint_of_nat_small) simp
  show ?thesis using assms(3) s u c by (auto simp: dp_row_def Let_def word_sle_eq word_sless_alt)
qed

lemma length_dp_row [simp]: "length (dp_row cells num prev) = cells"
  by (simp add: dp_row_def)

lemma dp_table_nth:
  assumes "i \<le> length nums"
  shows "dp_table cells row nums ! i = fold (dp_row cells) (take i nums) row"
  using assms by (induction nums arbitrary: row i) (auto simp: nth_Cons' take_Cons' split: nat.split)

text \<open>The sizes: every sum fits below the offset, and the cells are few.\<close>

definition table_ok :: "nat list \<Rightarrow> nat \<Rightarrow> nat \<Rightarrow> bool" where
  "table_ok xs off cells \<longleftrightarrow> sum_list xs \<le> off \<and> 2 * off < cells \<and> cells \<le> 2 ^ 62"

abbreviation table :: "nat list \<Rightarrow> nat \<Rightarrow> nat \<Rightarrow> bool list list" where
  "table xs off cells \<equiv> dp_table cells ((replicate cells False)[off := True]) (map of_nat xs)"

lemma table_item: "table_ok xs off cells \<Longrightarrow> i < length xs \<Longrightarrow> xs ! i \<le> off"
  using elem_le_sum_list[of i xs] by (simp add: table_ok_def)

lemma dp_table_cell:
  assumes ok: "table_ok xs off cells" and "i \<le> length xs" and "j < cells"
  shows "table xs off cells ! i ! j \<longleftrightarrow> off \<le> j \<and> prefix_can xs i (j - off)"
  using assms(2,3)
proof (induction i arbitrary: j)
  case 0
  then show ?case using ok by (auto simp: dp_table_nth nth_list_update table_ok_def)
next
  case (Suc i)
  have x: "xs ! i \<le> off" using table_item[OF ok, of i] Suc.prems(1) by simp
  have "table xs off cells ! Suc i = dp_row cells (of_nat (xs ! i)) (table xs off cells ! i)"
    using Suc.prems(1) by (simp add: dp_table_nth take_Suc_conv_app_nth)
  then have "table xs off cells ! Suc i ! j \<longleftrightarrow>
      table xs off cells ! i ! j \<or> xs ! i \<le> j \<and> table xs off cells ! i ! (j - xs ! i)"
    using dp_row_nth[of cells "xs ! i" j "table xs off cells ! i"] x ok Suc.prems(2) by (simp add: table_ok_def)
  then show ?case using Suc by (auto simp: prefix_can_Suc add.commute)
qed

text \<open>What is read off the table sums to the target and uses each number at most once.\<close>

lemma dp_pick_step:
  assumes ok: "table_ok xs off cells" and i: "i < length xs" and s: "0 < s" "s \<le> off"
  shows "dp_pick (map of_nat xs) (table xs off cells) (of_nat off) cells (Suc i) (of_nat s) =
    (if xs ! i \<le> s \<and> prefix_can xs i (s - xs ! i)
     then dp_pick (map of_nat xs) (table xs off cells) (of_nat off) cells i (of_nat (s - xs ! i)) @ [i]
     else dp_pick (map of_nat xs) (table xs off cells) (of_nat off) cells i (of_nat s))"
proof -
  have x: "xs ! i \<le> off" by (rule table_item[OF ok i])
  have b: "2 * off < cells" "cells \<le> 2 ^ 62" using ok by (simp_all add: table_ok_def)
  have ss: "s < 2 ^ 63" using s b by simp
  have z: "(of_nat s :: i64) \<noteq> 0"
    using unat_eq_zero[of "of_nat s :: i64"] unat_of_nat_small[OF ss] s(1) by simp
  have le: "(of_nat (xs ! i) :: i64) \<le>s of_nat s \<longleftrightarrow> xs ! i \<le> s"
    using sint_of_nat_small[OF ss] sint_of_nat_small[of "xs ! i"] x b by (simp add: word_sle_eq)
  have idx: "unat (of_nat off + of_nat s - of_nat (xs ! i) :: u64) = off + s - xs ! i" if "xs ! i \<le> s"
  proof -
    have "(of_nat off + of_nat s - of_nat (xs ! i) :: u64) = of_nat (off + s - xs ! i)"
      using that by (simp add: of_nat_diff)
    moreover have "off + s - xs ! i < 2 ^ 63" using s b by simp
    ultimately show ?thesis using unat_of_nat_small by presburger
  qed
  have in_range: "off + s - xs ! i < cells" using s b by linarith
  have cell: "table xs off cells ! i ! (off + s - xs ! i) \<longleftrightarrow> prefix_can xs i (s - xs ! i)" if "xs ! i \<le> s"
  proof -
    have "off + s - xs ! i - off = s - xs ! i" "off \<le> off + s - xs ! i" using that by simp_all
    then show ?thesis using dp_table_cell[OF ok _ in_range, of i] i by simp
  qed
  show ?thesis using z le idx cell in_range i by (auto simp: Let_def of_nat_diff)
qed

lemma dp_pick_sum:
  assumes ok: "table_ok xs off cells" and "i \<le> length xs" and "s \<le> off" and "prefix_can xs i s"
  defines "pick \<equiv> dp_pick (map of_nat xs) (table xs off cells) (of_nat off) cells i (of_nat s)"
  shows "(\<Sum>k\<leftarrow>pick. xs ! k) = s \<and> distinct pick \<and> set pick \<subseteq> {0..<i}"
  using assms(2-4) unfolding pick_def
proof (induction i arbitrary: s)
  case (Suc i)
  show ?case
  proof (cases "s = 0")
    case False
    then have step: "dp_pick (map of_nat xs) (table xs off cells) (of_nat off) cells (Suc i) (of_nat s) =
        (if xs ! i \<le> s \<and> prefix_can xs i (s - xs ! i)
         then dp_pick (map of_nat xs) (table xs off cells) (of_nat off) cells i (of_nat (s - xs ! i)) @ [i]
         else dp_pick (map of_nat xs) (table xs off cells) (of_nat off) cells i (of_nat s))"
      using Suc.prems by (intro dp_pick_step[OF ok]) auto
    show ?thesis
    proof (cases "xs ! i \<le> s \<and> prefix_can xs i (s - xs ! i)")
      case True
      define p where "p = dp_pick (map of_nat xs) (table xs off cells) (of_nat off) cells i (of_nat (s - xs ! i))"
      have "s - xs ! i \<le> off" using Suc.prems(2) by simp
      then have "(\<Sum>k\<leftarrow>p. xs ! k) = s - xs ! i \<and> distinct p \<and> set p \<subseteq> {0..<i}"
        unfolding p_def using Suc.IH[of "s - xs ! i"] True Suc.prems(1) by simp
      with True show ?thesis unfolding step p_def[symmetric] by auto
    next
      case neg: False
      with Suc.prems have "prefix_can xs i s" by (auto simp: prefix_can_Suc)
      then have "(\<Sum>k\<leftarrow>dp_pick (map of_nat xs) (table xs off cells) (of_nat off) cells i (of_nat s). xs ! k) = s \<and>
        distinct (dp_pick (map of_nat xs) (table xs off cells) (of_nat off) cells i (of_nat s)) \<and>
        set (dp_pick (map of_nat xs) (table xs off cells) (of_nat off) cells i (of_nat s)) \<subseteq> {0..<i}"
        using Suc.IH[of s] Suc.prems(1,2) by simp
      then show ?thesis unfolding step if_not_P[OF neg] by fastforce
    qed
  qed simp
qed simp

text \<open>The solver on the table finds a subset of the numbers exactly when one sums to the target.\<close>

lemma verify_indices:
  assumes "set idx \<subseteq> {0..<length xs}"
  shows "solution_verify (SubsetSumSol idx) (SubsetSum (map of_nat xs) (of_nat (\<Sum>k\<leftarrow>idx. xs ! k)))"
proof -
  have "(\<Sum>k\<leftarrow>idx. unwrap_or (index (map of_nat xs) k) 0) = (\<Sum>k\<leftarrow>idx. of_nat (xs ! k))"
    using assms by (intro arg_cong[where f = sum_list] map_cong) auto
  also have "\<dots> = of_nat (\<Sum>k\<leftarrow>idx. xs ! k)" by (induction idx) simp_all
  finally show ?thesis by simp
qed

lemma solve_subset_sum_dp_correct:
  assumes ok: "table_ok xs off cells" and t: "t \<le> off"
  shows "\<exists>r. solve_subset_sum_dp (map of_nat xs) (of_nat t) (of_nat off) cells = Some r \<and>
    (r = None \<longleftrightarrow> \<not> can xs t) \<and>
    (\<forall>sol. r = Some sol \<longrightarrow> (\<exists>idx. sol = SubsetSumSol idx \<and> distinct idx) \<and>
       solution_verify sol (SubsetSum (map of_nat xs) (of_nat t)))"
proof -
  have b: "2 * off < cells" "cells \<le> 2 ^ 62" using ok by (simp_all add: table_ok_def)
  have u: "unat (of_nat off + of_nat t :: u64) = off + t" "unat (of_nat off :: u64) = off"
    using unat_of_nat_small[of "off + t"] unat_of_nat_small[of off] t b by simp_all
  have lt: "off + t < cells" using t b by linarith
  have cell: "table xs off cells ! length xs ! (off + t) \<longleftrightarrow> can xs t"
    using dp_table_cell[OF ok _ lt, of "length xs"] by (simp add: prefix_can_all)
  show ?thesis
  proof (cases "can xs t")
    case True
    let ?p = "dp_pick (map of_nat xs) (table xs off cells) (of_nat off) cells (length xs) (of_nat t)"
    have p: "(\<Sum>k\<leftarrow>?p. xs ! k) = t" "distinct ?p" "set ?p \<subseteq> {0..<length xs}"
      using dp_pick_sum[OF ok _ t, of "length xs"] True by (simp_all add: prefix_can_all)
    have "solve_subset_sum_dp (map of_nat xs) (of_nat t) (of_nat off) cells = Some (Some (SubsetSumSol ?p))"
      using True cell lt u by (simp add: solve_subset_sum_dp_def Let_def)
    moreover have "solution_verify (SubsetSumSol ?p) (SubsetSum (map of_nat xs) (of_nat t))"
      using verify_indices[OF p(3)] p(1) by (simp only:)
    ultimately show ?thesis using p(2) True by blast
  next
    case False
    then show ?thesis using cell lt u by (simp add: solve_subset_sum_dp_def Let_def)
  qed
qed

section \<open>The table of one row\<close>

lemma prefix_can_mono:
  assumes "prefix_can xs i s" and "i \<le> j" and "j \<le> length xs"
  shows "prefix_can xs j s"
  using assms(2,3,1)
proof (induction j rule: dec_induct)
  case (step n)
  then show ?case by (simp add: prefix_can_Suc)
qed

text \<open>The last step to a sum: an item that was needed, from a sum that did not need it.\<close>

definition last_step :: "nat list \<Rightarrow> nat \<Rightarrow> nat \<Rightarrow> nat \<times> nat \<Rightarrow> bool" where
  "last_step xs k s st \<longleftrightarrow> (case st of (p, i) \<Rightarrow> i < k \<and> 0 < xs ! i \<and> p + xs ! i = s \<and>
     prefix_can xs i p \<and> \<not> prefix_can xs i s)"

definition row_ok :: "nat list \<Rightarrow> nat \<Rightarrow> nat \<Rightarrow> (nat \<Rightarrow> bool) \<Rightarrow> bool list \<times> (nat \<times> nat) option list \<Rightarrow> bool" where
  "row_ok xs cap k P st \<longleftrightarrow> (case st of (dp, prev) \<Rightarrow> length dp = cap + 1 \<and> length prev = cap + 1 \<and>
     (\<forall>s\<le>cap. dp ! s \<longleftrightarrow> P s) \<and>
     (\<forall>s\<le>cap. 0 < s \<longrightarrow> P s \<longrightarrow> (\<exists>q. prev ! s = Some q \<and> last_step xs k s q)))"

lemma last_step_mono: "last_step xs k s q \<Longrightarrow> k \<le> k' \<Longrightarrow> last_step xs k' s q"
  by (auto simp: last_step_def)

lemma row_ok_cong: "(\<And>s. s \<le> cap \<Longrightarrow> P s = Q s) \<Longrightarrow> row_ok xs cap k P st = row_ok xs cap k Q st"
  by (simp add: row_ok_def split: prod.split)

lemma row_ok_mono:
  assumes "row_ok xs cap i P st" and "i \<le> k"
  shows "row_ok xs cap k P st"
proof -
  obtain dp prev where st: "st = (dp, prev)" by (cases st)
  have "\<exists>q. prev ! s = Some q \<and> last_step xs k s q" if "s \<le> cap" "0 < s" "P s" for s
    using assms that last_step_mono unfolding st row_ok_def by blast
  then show ?thesis using assms(1) by (simp add: st row_ok_def)
qed

text \<open>Below \<open>b\<close> the row is that of the prefix \<open>i\<close>, from \<open>b\<close> on that of the next prefix.\<close>

abbreviation mixed :: "nat list \<Rightarrow> nat \<Rightarrow> nat \<Rightarrow> nat \<Rightarrow> bool" where
  "mixed xs i b s \<equiv> (if s < b then prefix_can xs i s else prefix_can xs (Suc i) s)"

lemma dp1_step_ok:
  assumes i: "i < length xs" and v: "0 < xs ! i" "xs ! i \<le> b" "b \<le> cap"
    and st: "row_ok xs cap (Suc i) (mixed xs i (Suc b)) st"
  shows "row_ok xs cap (Suc i) (mixed xs i b) (dp1_step i (xs ! i) b st)"
proof -
  obtain dp prev where eq: "st = (dp, prev)" by (cases st)
  have len: "length dp = cap + 1" "length prev = cap + 1"
    and dp: "\<And>s. s \<le> cap \<Longrightarrow> dp ! s \<longleftrightarrow> mixed xs i (Suc b) s"
    and prev: "\<And>s. s \<le> cap \<Longrightarrow> 0 < s \<Longrightarrow> mixed xs i (Suc b) s \<Longrightarrow> \<exists>q. prev ! s = Some q \<and> last_step xs (Suc i) s q"
    using st unfolding eq row_ok_def by auto
  have here: "dp ! b \<longleftrightarrow> prefix_can xs i b" "dp ! (b - xs ! i) \<longleftrightarrow> prefix_can xs i (b - xs ! i)"
    using dp[of b] dp[of "b - xs ! i"] v by auto
  have next_b: "prefix_can xs (Suc i) b \<longleftrightarrow> prefix_can xs i b \<or> prefix_can xs i (b - xs ! i)"
    using i v by (simp add: prefix_can_Suc)
  show ?thesis
  proof (cases "\<not> dp ! b \<and> dp ! (b - xs ! i)")
    case True
    have "last_step xs (Suc i) b (b - xs ! i, i)" using True here v by (simp add: last_step_def)
    moreover have "mixed xs i b s = (if s = b then True else mixed xs i (Suc b) s)" for s
      using True here next_b by (cases "s = b") (auto simp: less_Suc_eq)
    ultimately show ?thesis
      using True len dp prev v by (auto simp: eq dp1_step_def row_ok_def nth_list_update)
  next
    case False
    then have "mixed xs i b s = mixed xs i (Suc b) s" for s
      using here next_b by (cases "s = b") (auto simp: less_Suc_eq)
    then have "mixed xs i b = mixed xs i (Suc b)" by blast
    moreover have "dp1_step i (xs ! i) b st = st" using False by (auto simp: eq dp1_step_def)
    ultimately show ?thesis using st by metis
  qed
qed

lemma dp1_loop_ok:
  assumes i: "i < length xs" and v: "0 < xs ! i" "xs ! i \<le> b" "b \<le> Suc cap"
    and st: "row_ok xs cap (Suc i) (mixed xs i b) st"
  shows "row_ok xs cap (Suc i) (mixed xs i (xs ! i)) (fold (dp1_step i (xs ! i)) (rev [xs ! i..<b]) st)"
  using v(2,3) st
proof (induction b arbitrary: st rule: dec_induct)
  case (step n)
  then show ?case using dp1_step_ok[OF i v(1), of n cap st] by simp
qed simp

lemma dp1_item_ok:
  assumes i: "i < length xs" and cap: "cap < 2 ^ 62" "xs ! i < 2 ^ 62" and st: "row_ok xs cap i (prefix_can xs i) st"
  shows "row_ok xs cap (Suc i) (prefix_can xs (Suc i)) (dp1_item cap (i, of_nat (xs ! i)) st)"
proof -
  have sint: "sint (of_nat (xs ! i) :: i64) = int (xs ! i)" using cap(2) by (intro sint_of_nat_small) simp
  have unat: "unat (of_nat (xs ! i) :: i64) = xs ! i" using cap(2) by (intro unat_of_nat_small) simp
  have st': "row_ok xs cap (Suc i) (prefix_can xs i) st"
    by (rule row_ok_mono[OF st]) simp
  have low: "prefix_can xs (Suc i) s \<longleftrightarrow> prefix_can xs i s" if "s < xs ! i \<or> xs ! i = 0" for s
    using i that by (auto simp: prefix_can_Suc)
  show ?thesis
  proof (cases "xs ! i = 0 \<or> cap < xs ! i")
    case True
    then have "row_ok xs cap (Suc i) (prefix_can xs (Suc i)) st"
      using st' low by (subst row_ok_cong[where Q = "prefix_can xs i"]) auto
    then show ?thesis using True sint unat by (auto simp: dp1_item_def word_sle_eq)
  next
    case False
    have "row_ok xs cap (Suc i) (mixed xs i (Suc cap)) st"
      using st' by (subst row_ok_cong[where Q = "prefix_can xs i"]) auto
    from dp1_loop_ok[OF i _ _ _ this] False
    have "row_ok xs cap (Suc i) (mixed xs i (xs ! i)) (fold (dp1_step i (xs ! i)) (rev [xs ! i..<Suc cap]) st)" by simp
    then have "row_ok xs cap (Suc i) (prefix_can xs (Suc i)) (fold (dp1_step i (xs ! i)) (rev [xs ! i..<Suc cap]) st)"
      using low by (subst (asm) row_ok_cong[where Q = "prefix_can xs (Suc i)"]) auto
    then show ?thesis using False sint unat by (simp add: dp1_item_def word_sle_eq Let_def)
  qed
qed

lemma dp1_items_ok:
  assumes cap: "cap < 2 ^ 62" and small: "\<forall>x\<in>set xs. x < 2 ^ 62" and "k \<le> length xs"
    and "row_ok xs cap k (prefix_can xs k) st"
  shows "row_ok xs cap (length xs) (prefix_can xs (length xs))
    (fold (dp1_item cap) (enumerate k (map of_nat (drop k xs))) st)"
  using assms(3,4)
proof (induction "length xs - k" arbitrary: k st)
  case (Suc n)
  then have k: "k < length xs" by simp
  then have "drop k xs = xs ! k # drop (Suc k) xs" by (simp add: Cons_nth_drop_Suc)
  then show ?case using Suc k dp1_item_ok[OF k cap _ Suc.prems(2)] small by simp
qed simp

lemma dp1_trace_ok:
  assumes st: "row_ok xs cap k (prefix_can xs k) (dp, prev)" and "k \<le> length xs"
  shows "s \<le> n \<Longrightarrow> s \<le> cap \<Longrightarrow> prefix_can xs k s \<Longrightarrow> \<exists>ks. dp1_trace prev n s = Some ks \<and> (\<Sum>i\<leftarrow>ks. xs ! i) = s \<and>
    distinct ks \<and> (\<forall>m\<le>length xs. prefix_can xs m s \<longrightarrow> set ks \<subseteq> {0..<m})"
proof (induction n arbitrary: s)
  case (Suc n)
  show ?case
  proof (cases "s = 0")
    case False
    then obtain p i where pi: "prev ! s = Some (p, i)" "i < k" "0 < xs ! i" "p + xs ! i = s"
      "prefix_can xs i p" "\<not> prefix_can xs i s"
      using st Suc.prems by (auto simp: row_ok_def last_step_def)
    have "prefix_can xs k p" using pi(2,5) assms(2) prefix_can_mono by (meson less_imp_le)
    with Suc.IH[of p] Suc.prems pi obtain ks where ks: "dp1_trace prev n p = Some ks" "(\<Sum>j\<leftarrow>ks. xs ! j) = p"
      "distinct ks" "\<forall>m\<le>length xs. prefix_can xs m p \<longrightarrow> set ks \<subseteq> {0..<m}" by auto
    have below: "set ks \<subseteq> {0..<i}" using ks(4) pi(2,5) assms(2) by auto
    have "i < m" if "m \<le> length xs" "prefix_can xs m s" for m
      using that pi(2,6) assms(2) prefix_can_mono[OF that(2), of i] by (meson less_imp_le not_le order_trans)
    then show ?thesis using False pi ks below by fastforce
  qed simp
qed simp

lemma solve_subset_sum_1d_dp_correct:
  assumes tot: "sum_list xs < 2 ^ 62" and t: "t < 2 ^ 62"
  shows "(solve_subset_sum_1d_dp (map of_nat xs) (of_nat t) = None \<longleftrightarrow> \<not> can xs t) \<and>
    (\<forall>sol. solve_subset_sum_1d_dp (map of_nat xs) (of_nat t) = Some sol \<longrightarrow>
       (\<exists>idx. sol = SubsetSumSol idx \<and> distinct idx) \<and> solution_verify sol (SubsetSum (map of_nat xs) (of_nat t)))"
proof -
  let ?T = "sum_list xs"
  have sum: "sum_list (map of_nat xs) = (of_nat ?T :: i64)" by (induction xs) simp_all
  have ints: "sint (of_nat ?T :: i64) = int ?T" "sint (of_nat t :: i64) = int t"
    "unat (of_nat ?T :: i64) = ?T" "unat (of_nat t :: i64) = t"
    using tot t by (simp_all add: sint_of_nat_small unat_of_nat_small)
  have t0: "(of_nat t :: i64) = 0 \<longleftrightarrow> t = 0" using ints(4) unat_eq_zero[of "of_nat t :: i64"] by simp
  have small: "\<forall>x\<in>set xs. x < 2 ^ 62"
  proof (rule ballI)
    fix x assume "x \<in> set xs"
    then have "x \<le> ?T" by (rule member_le_sum_list) simp
    then show "x < 2 ^ 62" using tot by (rule le_less_trans)
  qed
  have too_big: "\<not> can xs t" if "?T < t"
  proof -
    have "sum_list ys \<le> sum_list xs" if "subseq ys xs" for ys :: "nat list" and xs
      using that by (induction rule: list_emb.induct) auto
    then show ?thesis using that unfolding can_iff by (metis not_le)
  qed
  consider "?T < t" | "t = 0" | "0 < t" "t \<le> ?T" by linarith
  then show ?thesis
  proof cases
    case 1
    then show ?thesis using too_big ints sum by (simp add: solve_subset_sum_1d_dp_def word_sless_alt Let_def)
  next
    case 2
    moreover have "can xs 0" using prefix_can_zero[of xs "length xs"] by (simp add: prefix_can_all)
    ultimately show ?thesis using ints sum by (simp add: solve_subset_sum_1d_dp_def word_sless_alt Let_def)
  next
    case 3
    let ?st = "((replicate (?T + 1) False)[0 := True], replicate (?T + 1) None) :: bool list \<times> (nat \<times> nat) option list"
    obtain dp prev where run: "fold (dp1_item ?T) (enumerate 0 (map of_nat xs)) ?st = (dp, prev)"
      by (cases "fold (dp1_item ?T) (enumerate 0 (map of_nat xs)) ?st")
    have "row_ok xs ?T 0 (prefix_can xs 0) ?st" by (auto simp: row_ok_def nth_list_update nth_Cons')
    from dp1_items_ok[OF tot small _ this] run
    have ok: "row_ok xs ?T (length xs) (prefix_can xs (length xs)) (dp, prev)" by simp
    have dpt: "dp ! t \<longleftrightarrow> can xs t" using ok 3(2) by (simp add: row_ok_def prefix_can_all)
    have res: "solve_subset_sum_1d_dp (map of_nat xs) (of_nat t) =
        (if \<not> dp ! t then None else map_option (\<lambda>ks. SubsetSumSol (sort ks)) (dp1_trace prev t t))"
      using 3 ints t0 sum run by (simp add: solve_subset_sum_1d_dp_def word_sless_alt Let_def)
    show ?thesis
    proof (cases "can xs t")
      case True
      from dp1_trace_ok[OF ok order_refl order_refl 3(2)] True obtain ks where ks: "dp1_trace prev t t = Some ks" "(\<Sum>i\<leftarrow>ks. xs ! i) = t" "distinct ks" "set ks \<subseteq> {0..<length xs}"
        by (auto simp: prefix_can_all)
      have "(\<Sum>k\<leftarrow>sort ks. xs ! k) = t"
        using ks(2) by (metis mset_map mset_sort sum_mset_sum_list)
      with verify_indices[of "sort ks" xs] ks(4)
      have "solution_verify (SubsetSumSol (sort ks)) (SubsetSum (map of_nat xs) (of_nat t))"
        by (simp only: set_sort)
      then show ?thesis using res dpt True ks by (simp del: solution_verify.simps)
    qed (use res dpt in simp)
  qed
qed

section \<open>Meeting in the middle\<close>

text \<open>What \<open>slice::binary_search_by_key\<close> promises: an index it returns holds the key, and on a
  sorted slice it finds a key that occurs.\<close>

definition search_sound :: "(i64 list \<Rightarrow> i64 \<Rightarrow> nat option) \<Rightarrow> bool" where
  "search_sound bs \<longleftrightarrow> (\<forall>keys k i. bs keys k = Some i \<longrightarrow> i < length keys \<and> keys ! i = k)"

definition search_complete :: "(i64 list \<Rightarrow> i64 \<Rightarrow> nat option) \<Rightarrow> bool" where
  "search_complete bs \<longleftrightarrow> (\<forall>keys k. sorted (map sint keys) \<longrightarrow> k \<in> set keys \<longrightarrow> bs keys k \<noteq> None)"

lemma mitm_search_sound:
  assumes bs: "search_sound bs" and found: "mitm_search bs L mid right target masks = Some sol"
  shows "\<exists>a\<in>set L. \<exists>m\<in>set masks. fst a + mask_sum right m = target \<and>
    sol = SubsetSumSol (mask_indices mid (snd a) @ map (\<lambda>i. mid + i) (mask_indices (length right) m))"
  using found
proof (induction masks)
  case (Cons m masks)
  show ?case
  proof (cases "bs (map fst L) (target - mask_sum right m)")
    case (Some i)
    then have "i < length L" "fst (L ! i) = target - mask_sum right m"
      using bs by (auto simp: search_sound_def nth_map dest!: spec)
    then show ?thesis using Some Cons.prems by (intro bexI[of _ "L ! i"] bexI[of _ m]) auto
  qed (use Cons in auto)
qed simp

lemma mitm_search_complete:
  assumes bs: "search_complete bs" and srt: "sorted (map sint (map fst L))"
    and a: "a \<in> set L" "m \<in> set masks" "fst a + mask_sum right m = target"
  shows "mitm_search bs L mid right target masks \<noteq> None"
  using a(2)
proof (induction masks)
  case (Cons k masks)
  show ?case
  proof (cases "k = m")
    case True
    then have "target - mask_sum right k \<in> set (map fst L)" using a(1,3) by force
    then have "bs (map fst L) (target - mask_sum right k) \<noteq> None"
      using bs srt by (auto simp: search_complete_def)
    then show ?thesis by (auto split: option.split)
  next
    case False
    then show ?thesis using Cons by (simp split: option.split)
  qed
qed simp

lemma mask_indices_lt: "set (mask_indices n m) \<subseteq> {0..<n}" "distinct (mask_indices n m)"
  by (auto simp: mask_indices_def)

lemma mitm_verify:
  fixes numbers :: "i64 list"
  defines "mid \<equiv> length numbers div 2"
  assumes "mask_sum (take mid numbers) a + mask_sum (drop mid numbers) b = target"
  shows "solution_verify (SubsetSumSol (mask_indices mid a @ map (\<lambda>i. mid + i) (mask_indices (length (drop mid numbers)) b)))
    (SubsetSum numbers target)"
proof -
  have le: "mid \<le> length numbers" by (simp add: mid_def)
  have "(\<Sum>i\<leftarrow>mask_indices mid a. unwrap_or (index numbers i) 0) = mask_sum (take mid numbers) a"
    unfolding mask_sum_def using le mask_indices_lt(1)[of mid a]
    by (intro arg_cong[where f = sum_list] map_cong) (auto simp: min_absorb2 subset_iff)
  moreover have "(\<Sum>i\<leftarrow>mask_indices (length (drop mid numbers)) b. unwrap_or (index numbers (mid + i)) 0)
      = mask_sum (drop mid numbers) b"
    unfolding mask_sum_def using le mask_indices_lt(1)[of "length (drop mid numbers)" b]
    by (intro arg_cong[where f = sum_list] map_cong) (auto simp: subset_iff)
  ultimately show ?thesis using assms(2) by (simp add: comp_def)
qed

lemma solve_subset_sum_mitm_sound:
  assumes "search_sound bs" and "solve_subset_sum_mitm bs numbers target = Some sol"
  shows "solution_verify sol (SubsetSum numbers target)"
proof -
  let ?mid = "length numbers div 2"
  from mitm_search_sound[OF assms(1) assms(2)[unfolded solve_subset_sum_mitm_def Let_def]]
  obtain a m where "mask_sum (take ?mid numbers) a + mask_sum (drop ?mid numbers) m = target"
    "sol = SubsetSumSol (mask_indices ?mid a @ map (\<lambda>i. ?mid + i) (mask_indices (length (drop ?mid numbers)) m))"
    by auto
  with mitm_verify show ?thesis by metis
qed

section \<open>Assignments\<close>

lemma literal_index: "(scast (abs_word (l :: i32) - 1) :: u64) = ucast (abs_word l) - 1"
proof (cases "sint l = 0")
  case True
  then have "unat (abs_word l) = 0" by (simp add: unat_abs_word)
  then have "abs_word l = 0" by (simp add: unat_eq_zero)
  then show ?thesis by simp
next
  case False
  let ?a = "abs_word l" let ?n = "nat \<bar>sint l\<bar>"
  have a: "unat ?a = ?n" by (rule unat_abs_word)
  have n: "1 \<le> ?n" "?n \<le> 2 ^ 31"
    using False sint_greater_eq[of l] sint_less[of l] by (auto simp: nat_le_iff)
  have "1 \<le> ?a" using a n by (simp add: word_le_nat_alt)
  then have low: "unat (?a - 1) = ?n - 1" using a by (simp add: unat_sub)
  then have u: "uint (?a - 1) = int (?n - 1)" by (metis uint_nat)
  moreover have "uint (?a - 1) < 2 ^ 31" using u n by simp
  ultimately have "sint (?a - 1) = int (?n - 1)"
    by (simp add: sint_uint signed_take_bit_int_eq_self)
  then have s: "(scast (?a - 1) :: u64) = of_nat (?n - 1)" by (simp add: scast_eq)
  have "unat (ucast ?a :: u64) = ?n" using a by (simp add: unat_ucast_up)
  then have "(ucast ?a :: u64) = of_nat ?n" by (metis of_nat_unat ucast_id)
  then show ?thesis using s n by (simp add: of_nat_diff)
qed

lemma solver_literal_holds: "solver_literal a l \<Longrightarrow> literal_holds a l"
  by (auto simp: solver_literal_def literal_holds_def literal_index Let_def split: if_splits)

lemma satisfied_verify:
  "satisfied clauses a \<Longrightarrow> length a = variables \<Longrightarrow> solution_verify (SATSol a) (SAT variables clauses)"
  by (auto simp: satisfied_def list_all_iff list_ex_iff dest: solver_literal_holds)

lemma brute_force_sound:
  "brute_force expired variables clauses bs = Some sol \<Longrightarrow> solution_verify sol (SAT variables clauses)"
  by (induction bs) (auto simp: satisfied_verify assignment_of_def simp del: solution_verify.simps split: if_splits)

lemma brute_force_complete:
  assumes "\<forall>b. \<not> expired b" and "b \<in> set bs" and "satisfied clauses (assignment_of variables b)"
  shows "brute_force expired variables clauses bs \<noteq> None"
  using assms(2) by (induction bs) (use assms(1,3) in auto)

text \<open>Every assignment of at most 32 variables is one of the masks.\<close>

lemma assignment_mask:
  assumes "length a \<le> 32"
  shows "\<exists>b<2 ^ length a. assignment_of (length a) b = a"
proof -
  let ?b = "horner_sum of_bool (2 :: nat) a"
  have "?b < 2 ^ length a" by (rule horner_sum_of_bool_2_less)
  moreover have "assignment_of (length a) ?b = a"
    using assms by (intro nth_equalityI) (auto simp: assignment_of_def bit_horner_sum_bit_iff)
  ultimately show ?thesis by blast
qed

lemma solve_sat_brute_force_correct:
  assumes "variables \<le> 32" and "\<forall>b. \<not> expired b"
  shows "solve_sat_brute_force expired variables clauses = None \<longleftrightarrow>
    \<not> (\<exists>a. length a = variables \<and> satisfied clauses a)"
proof
  assume none: "solve_sat_brute_force expired variables clauses = None"
  show "\<not> (\<exists>a. length a = variables \<and> satisfied clauses a)"
  proof
    assume "\<exists>a. length a = variables \<and> satisfied clauses a"
    then obtain a where a: "length a = variables" "satisfied clauses a" by blast
    with assignment_mask[of a] assms(1) obtain b where "b < 2 ^ variables" "assignment_of variables b = a" by auto
    with brute_force_complete[OF assms(2), of b "[0..<2 ^ variables]" clauses variables] none a assms(1)
    show False by (simp add: solve_sat_brute_force_def)
  qed
next
  assume "\<not> (\<exists>a. length a = variables \<and> satisfied clauses a)"
  then have "\<not> satisfied clauses (assignment_of variables b)" for b
    by (auto simp: assignment_of_def)
  then have "brute_force expired variables clauses bs = None" for bs by (induction bs) simp_all
  then show "solve_sat_brute_force expired variables clauses = None" by (simp add: solve_sat_brute_force_def)
qed

lemma dpll_sound:
  "dpll expired clauses d a k = (r, a', k') \<Longrightarrow> length a' = length a \<and> (r \<longrightarrow> satisfied clauses a')"
proof (induction d arbitrary: a k r a' k')
  case 0
  then show ?case by (auto simp: dpll.simps[of expired clauses 0 a k] Let_def split: if_splits)
next
  case (Suc d)
  obtain r1 a1 k1 where one: "dpll expired clauses d (a[length a - Suc d := True]) (Suc k) = (r1, a1, k1)"
    by (metis prod_cases3)
  obtain r2 a2 k2 where two: "dpll expired clauses d (a1[length a - Suc d := False]) k1 = (r2, a2, k2)"
    by (metis prod_cases3)
  from Suc.IH[OF one] Suc.IH[OF two] Suc.prems one two show ?case
    by (auto simp: dpll.simps[of expired clauses "Suc d" a k] Let_def split: if_splits bool.splits)
qed

lemma solve_sat_with_timeout_sound:
  "solve_sat_with_timeout expired variables clauses = Some sol \<Longrightarrow> solution_verify sol (SAT variables clauses)"
  by (auto simp: solve_sat_with_timeout_def satisfied_verify simp del: solution_verify.simps
      split: prod.splits bool.splits dest!: dpll_sound)

section \<open>Tours\<close>

lemma reverse_between_mset:
  assumes "i \<le> j" and "j < length tour"
  shows "mset (reverse_between i j tour) = mset tour"
proof -
  have "tour = take (i + 1) tour @ take (j - i) (drop (i + 1) tour) @ drop (j + 1) tour"
  proof -
    have "drop (j - i) (drop (i + 1) tour) = drop (j + 1) tour" using assms by simp
    then show ?thesis by (metis append_take_drop_id)
  qed
  then have "mset tour = mset (take (i + 1) tour) + mset (take (j - i) (drop (i + 1) tour)) + mset (drop (j + 1) tour)"
    by (metis mset_append union_assoc)
  then show ?thesis by (simp add: reverse_between_def)
qed

lemma two_opt_swap_mset:
  assumes "two_opt_swap distances cities p tour = Some (tour', better)" and "fst p + 2 \<le> snd p"
  shows "mset tour' = mset tour"
  using assms by (cases p) (auto simp: two_opt_swap_def reverse_between_mset index_def bind_eq_Some_conv split: if_splits)

lemma two_opt_pass_mset:
  assumes "\<forall>p\<in>set ps. fst p + 2 \<le> snd p"
    and "two_opt_pass expired distances cities ps tour improved k = Some (tour', improved', stop, k')"
  shows "mset tour' = mset tour"
  using assms
proof (induction ps arbitrary: tour improved k)
  case (Cons p ps)
  then show ?case
    by (auto split: if_splits option.splits dest!: two_opt_swap_mset)
qed simp

lemma two_opt_pairs_lt: "\<forall>p\<in>set (two_opt_pairs cities). fst p + 2 \<le> snd p"
  by (auto simp: two_opt_pairs_def)

lemma tsp_two_opt_mset: "tsp_two_opt expired distances cities tour k = Some tour' \<Longrightarrow> mset tour' = mset tour"
proof (induction rule: tsp_two_opt.raw_induct[rotated, consumes 1])
  case (1 go expired distances cities tour k tour')
  then show ?case
    by (auto split: if_splits option.splits dest: two_opt_pass_mset[OF two_opt_pairs_lt])
qed

lemma solve_tsp_sound:
  assumes "matrix_ok cities distances" and "solve_tsp expired cities distances = Some (Some sol)"
  shows "solution_verify sol (TSP cities distances)"
proof -
  from assms(2) have pos: "0 < cities" by (auto simp: solve_tsp_def split: if_splits)
  from tsp_nearest_neighbor_total[OF pos assms(1)] obtain t where
    t: "tsp_nearest_neighbor cities distances = Some t" "solution_verify (TSPSol t) (TSP cities distances)"
    using pos by (auto simp: tsp_nearest_neighbor_def)
  from assms(2) t pos obtain t' where t': "tsp_two_opt expired distances cities t 0 = Some t'" "sol = TSPSol t'"
    by (auto simp: solve_tsp_def split: if_splits)
  have "mset t' = mset t" by (rule tsp_two_opt_mset[OF t'(1)])
  then have "distinct t' = distinct t" "set t' = set t"
    by (auto dest: mset_eq_setD mset_eq_imp_distinct_iff)
  then show ?thesis using t(2) t'(2) by (simp only: verify_TSP_iff)
qed

end
