(* ===== verification/Tokenomics_Rewards.thy ===== *)
theory Tokenomics_Rewards
  imports Core_Fixed_Point
begin

text \<open>
  \<open>tokenomics/src/rewards.rs\<close>: the block reward, the work score of the header over the square root of
  the cumulative work of its parent, in atoms.
\<close>

definition REWARD_FIXED_POINT_SCALE :: u128 where "REWARD_FIXED_POINT_SCALE = 1000000000000"
definition REWARD_EMISSION_MULTIPLIER :: u128 where "REWARD_EMISSION_MULTIPLIER = 50"

text \<open>\<open>work_score.max(0.0)\<close> of a score that passed the guard is the score itself.\<close>

definition header_work_score_trunc_u128 :: "f64 \<Rightarrow> u128" where
  "header_work_score_trunc_u128 work_score =
     (if \<not> is_finite work_score \<or> f_le work_score f_zero then 0
      else ucast (f_to_word work_score :: u64))"

definition calculate_block_reward :: "f64 \<Rightarrow> u128 \<Rightarrow> balance" where
  "calculate_block_reward work_score parent_cumulative_work =
     (if parent_cumulative_work = 0 then 0
      else let w = header_work_score_trunc_u128 work_score;
               denom = max (isqrt parent_cumulative_work) 1
           in case checked_mul_word w REWARD_FIXED_POINT_SCALE of None \<Rightarrow> - 1
              | Some ws \<Rightarrow> (case checked_mul_word ws REWARD_EMISSION_MULTIPLIER of None \<Rightarrow> - 1
                  | Some num \<Rightarrow> num div denom))"

section \<open>Its value\<close>

lemma work_score_trunc_bound: "unat (header_work_score_trunc_u128 ws) < 2 ^ 64"
  using unat_lt_pow[of "f_to_word ws :: u64"]
  by (auto simp: header_work_score_trunc_u128_def unat_u64_in_u128)

lemma isqrt_pos: "0 < n \<Longrightarrow> 1 \<le> isqrt n"
proof -
  assume "0 < n"
  then have n: "0 < unat n" by (simp add: word_less_nat_alt)
  have "isqrt n \<noteq> 0"
  proof
    assume "isqrt n = 0"
    with isqrt_floor[of n] have "unat n < 1" by (simp add: root_of_def)
    with n show False by simp
  qed
  then show "1 \<le> isqrt n" by (simp add: word_le_nat_alt Suc_le_eq unat_gt_0)
qed

lemma checked_mul_fits: "unat a * unat b < 2 ^ 128 \<Longrightarrow> checked_mul_word a (b :: u128) = Some (a * b)"
  by (simp add: checked_mul_word_def)

lemma calculate_block_reward_value:
  assumes "W \<noteq> 0"
  shows "unat (calculate_block_reward ws W) =
    unat (header_work_score_trunc_u128 ws) * 50000000000000 div unat (isqrt W)"
proof -
  let ?w = "header_work_score_trunc_u128 ws"
  have S: "unat REWARD_FIXED_POINT_SCALE = 1000000000000" by (simp add: REWARD_FIXED_POINT_SCALE_def)
  have K: "unat REWARD_EMISSION_MULTIPLIER = 50" by (simp add: REWARD_EMISSION_MULTIPLIER_def)
  have w: "unat ?w < 2 ^ 64" by (rule work_score_trunc_bound)
  have f1: "unat ?w * unat REWARD_FIXED_POINT_SCALE < 2 ^ 128" using w by (simp add: S)
  have u1: "unat (?w * REWARD_FIXED_POINT_SCALE) = unat ?w * 1000000000000"
    using unat_mult_small[of ?w REWARD_FIXED_POINT_SCALE] f1 by (simp add: S)
  have f2: "unat (?w * REWARD_FIXED_POINT_SCALE) * unat REWARD_EMISSION_MULTIPLIER < 2 ^ 128"
    using w by (simp add: u1 K)
  have u2: "unat (?w * REWARD_FIXED_POINT_SCALE * REWARD_EMISSION_MULTIPLIER) = unat ?w * 50000000000000"
    using unat_mult_small[of "?w * REWARD_FIXED_POINT_SCALE" REWARD_EMISSION_MULTIPLIER] f2 by (simp add: u1 K)
  have d: "max (isqrt W) 1 = isqrt W"
    using isqrt_pos[of W] assms by (simp add: max_def word_neq_0_conv order.antisym)
  have "calculate_block_reward ws W = ?w * REWARD_FIXED_POINT_SCALE * REWARD_EMISSION_MULTIPLIER div isqrt W"
    using assms by (simp only: calculate_block_reward_def Let_def if_False checked_mul_fits[OF f1]
        checked_mul_fits[OF f2] option.case d)
  then show ?thesis by (simp only: unat_div u2)
qed

end
