(* ===== verification/Node_Validator.thy ===== *)
theory Node_Validator
  imports Core_Block State_Accounts Tokenomics_Rewards
begin

text \<open>
  \<open>node/src/validator.rs\<close>: the checks a block goes through before the ledger applies it. The
  service calls \<open>validate_block_with_options\<close> only; \<open>validate_block_sequence\<close>, the canonical order
  and the nonce check are there and never called. Left out: \<open>apply_block\<close>, a second transition
  function that nothing calls.
\<close>

section \<open>Definitions\<close>

datatype block_error =
    InvalidHeight u64 u64
  | InvalidPrevHash
  | BlockSolutionInvalid
  | BlockCommitmentInvalid
  | BlockWorkScoreLow f64
  | InsufficientDifficulty
  | BlockFromFuture
  | TooOldTimestamp
  | TimestampNotAfterParent i64 i64
  | InvalidSequence u64 u64
  | DuplicateTransaction
  | TransactionOrderViolation
  | SignatureInvalid
  | NonceMismatch address u64 u64
  | InvalidCoinbaseAmount u128 u128

record block_validator =
  bv_min_work_score :: f64
  bv_min_difficulty :: u32
  bv_max_timestamp_drift :: i64
  bv_max_block_age :: i64

definition validator_new :: "u32 \<Rightarrow> block_validator" where
  "validator_new min_difficulty =
     \<lparr>bv_min_work_score = f_zero, bv_min_difficulty = min_difficulty,
      bv_max_timestamp_drift = 120, bv_max_block_age = 7200\<rparr>"

definition validate_timestamp :: "block_validator \<Rightarrow> i64 \<Rightarrow> i64 \<Rightarrow> block_error + unit" where
  "validate_timestamp v now ts =
     (if sint (now + bv_max_timestamp_drift v) < sint ts then Inl BlockFromFuture else Inr ())"

text \<open>\<open>hex::encode\<close>, as the sequence of its digits' values, and the number of leading zero digits.\<close>

definition hex_digits :: "bytes \<Rightarrow> nat list" where
  "hex_digits bs = concat (map (\<lambda>b. [unat b div 16, unat b mod 16]) bs)"

definition leading_zero_digits :: "hash \<Rightarrow> nat" where
  "leading_zero_digits h = length (takeWhile (\<lambda>d. d = 0) (hex_digits (hash_as_bytes h)))"

definition validate_difficulty ::
  "crypto_ext \<Rightarrow> block_codec \<Rightarrow> block_validator \<Rightarrow> block \<Rightarrow> block_error + unit" where
  "validate_difficulty X B v b =
     (if unat (bv_min_difficulty v) \<le> leading_zero_digits (header_hash X B (blk_header b)) then Inr ()
      else if leading_zero_digits (header_hash_from_json X B (blk_header b)) < unat (bv_min_difficulty v)
        then Inl InsufficientDifficulty
      else Inr ())"

definition validate_block_with_options ::
  "crypto_ext \<Rightarrow> block_codec \<Rightarrow> block_validator \<Rightarrow> i64 \<Rightarrow> block \<Rightarrow> hash \<Rightarrow> u64 \<Rightarrow> bool \<Rightarrow> u128 option \<Rightarrow> block_error + unit" where
  "validate_block_with_options X B v now b prev_hash expected_height skip_timestamp_age_check parent_work =
     (let h = blk_header b; r = blk_solution_reveal b in
      if bh_height h \<noteq> expected_height then Inl (InvalidHeight expected_height (bh_height h))
      else if bh_prev_hash h \<noteq> prev_hash then Inl InvalidPrevHash
      else bind_res (validate_timestamp v now (bh_timestamp h)) (\<lambda>_.
        if \<not> solution_verify (sr_solution r) (sr_problem r) then Inl BlockSolutionInvalid
        else if \<not> commit_verify X (core_codec (tx_codec_of B)) (sr_commitment r) (sr_problem r)
               (sr_solution r) (bh_prev_hash h) then Inl BlockCommitmentInvalid
        else if f_lt (bh_work_score h) (bv_min_work_score v) then Inl (BlockWorkScoreLow (bh_work_score h))
        else bind_res (validate_difficulty X B v b) (\<lambda>_.
          if \<not> list_all (tx_verify_signature X (tx_codec_of B)) (blk_transactions b) then Inl SignatureInvalid
          else if 0 < bh_height h then
            (case parent_work of None \<Rightarrow> Inr ()
             | Some w \<Rightarrow>
                 let expected = calculate_block_reward (bh_work_score h) w in
                 if cb_reward (blk_coinbase b) \<noteq> expected
                 then Inl (InvalidCoinbaseAmount expected (cb_reward (blk_coinbase b))) else Inr ())
          else Inr ())))"

definition validate_block ::
  "crypto_ext \<Rightarrow> block_codec \<Rightarrow> block_validator \<Rightarrow> i64 \<Rightarrow> block \<Rightarrow> hash \<Rightarrow> u64 \<Rightarrow> block_error + unit" where
  "validate_block X B v now b prev_hash expected_height =
     validate_block_with_options X B v now b prev_hash expected_height False None"

definition validate_block_sequence ::
  "crypto_ext \<Rightarrow> block_codec \<Rightarrow> block \<Rightarrow> block \<Rightarrow> block_error + unit" where
  "validate_block_sequence X B b parent =
     (if bh_height (blk_header b) \<noteq> bh_height (blk_header parent) + 1
        then Inl (InvalidSequence (bh_height (blk_header b)) (bh_height (blk_header parent)))
      else if bh_prev_hash (blk_header b) \<noteq> header_hash X B (blk_header parent) then Inl InvalidPrevHash
      else if sint (bh_timestamp (blk_header b)) \<le> sint (bh_timestamp (blk_header parent))
        then Inl (TimestampNotAfterParent (bh_timestamp (blk_header b)) (bh_timestamp (blk_header parent)))
      else Inr ())"

fun order_check :: "hash \<Rightarrow> hash list \<Rightarrow> block_error + unit" where
  "order_check prev [] = Inr ()"
| "order_check prev (h # hs) =
     (if h = prev then Inl DuplicateTransaction
      else if h < prev then Inl TransactionOrderViolation
      else order_check h hs)"

definition validate_transaction_ordering ::
  "crypto_ext \<Rightarrow> block_codec \<Rightarrow> block \<Rightarrow> block_error + unit" where
  "validate_transaction_ordering X B b =
     (case map (tx_hash X (tx_codec_of B)) (blk_transactions b) of
        [] \<Rightarrow> Inr () | h # hs \<Rightarrow> order_check h hs)"

text \<open>The loop of \<open>validate_nonces\<close>; \<open>pending_nonces\<close> is its \<open>HashMap\<close>.\<close>

definition expected_nonce :: "account_state \<Rightarrow> (address \<Rightarrow> u64 option) \<Rightarrow> address \<Rightarrow> u64" where
  "expected_nonce st pending_nonces sender =
     (case pending_nonces sender of Some n \<Rightarrow> n | None \<Rightarrow> get_nonce st sender)"

fun nonce_check :: "account_state \<Rightarrow> (address \<Rightarrow> u64 option) \<Rightarrow> transaction list \<Rightarrow> block_error + unit" where
  "nonce_check st pending_nonces [] = Inr ()"
| "nonce_check st pending_nonces (tx # txs) =
     (let sender = tx_from tx;
          expected = expected_nonce st pending_nonces sender
      in if tx_nonce tx \<noteq> expected then Inl (NonceMismatch sender expected (tx_nonce tx))
         else nonce_check st (pending_nonces(sender \<mapsto> expected + 1)) txs)"

definition validate_nonces :: "block \<Rightarrow> account_state \<Rightarrow> block_error + unit" where
  "validate_nonces b st = nonce_check st Map.empty (blk_transactions b)"

section \<open>The difficulty test as a target\<close>

text \<open>The value of a digit sequence, most significant digit first.\<close>

fun digits_value :: "nat list \<Rightarrow> nat" where
  "digits_value [] = 0"
| "digits_value (d # ds) = d * 16 ^ length ds + digits_value ds"

lemma digits_value_less: "\<forall>d\<in>set ds. d < 16 \<Longrightarrow> digits_value ds < 16 ^ length ds"
proof (induction ds)
  case (Cons d ds)
  then have "digits_value ds < 16 ^ length ds" and "d \<le> 15" by auto
  then have "d * 16 ^ length ds + digits_value ds < 15 * 16 ^ length ds + 16 ^ length ds"
    by (intro add_le_less_mono mult_le_mono1)
  then show ?case by simp
qed simp

lemma leading_zeros_iff:
  assumes "\<forall>d\<in>set ds. d < 16" and "n \<le> length ds"
  shows "n \<le> length (takeWhile (\<lambda>d. d = 0) ds) \<longleftrightarrow> digits_value ds < 16 ^ (length ds - n)"
  using assms
proof (induction ds arbitrary: n)
  case (Cons d ds)
  show ?case
  proof (cases "n = 0")
    case True
    with digits_value_less[OF Cons.prems(1)] show ?thesis by simp
  next
    case False
    then obtain m where n: "n = Suc m" "m \<le> length ds" using Cons.prems(2) by (cases n) auto
    show ?thesis
    proof (cases "d = 0")
      case True
      with Cons n show ?thesis by simp
    next
      case nz: False
      have "(16::nat) ^ (length ds - m) \<le> 16 ^ length ds" by (rule power_increasing) simp_all
      also have "16 ^ length ds \<le> d * 16 ^ length ds" using nz by simp
      also have "\<dots> \<le> digits_value (d # ds)" by simp
      finally have "16 ^ (length ds - m) \<le> digits_value (d # ds)" .
      with nz n show ?thesis by (simp add: not_less)
    qed
  qed
qed simp

lemma hex_digits_simps [simp]:
  "hex_digits [] = []" "hex_digits (b # bs) = unat b div 16 # unat b mod 16 # hex_digits bs"
  by (simp_all add: hex_digits_def)

lemma length_hex_digits [simp]: "length (hex_digits bs) = 2 * length bs"
  by (induction bs) simp_all

lemma hex_digit_less: "d \<in> set (hex_digits bs) \<Longrightarrow> d < 16"
proof (induction bs)
  case (Cons b bs)
  have "unat b < 256" using unat_lt_pow[of b] by simp
  with Cons show ?case by auto
qed simp

fun bytes_value :: "bytes \<Rightarrow> nat" where
  "bytes_value [] = 0"
| "bytes_value (b # bs) = unat b * 256 ^ length bs + bytes_value bs"

lemma digits_value_hex: "digits_value (hex_digits bs) = bytes_value bs"
proof (induction bs)
  case (Cons b bs)
  have p: "(16::nat) ^ (2 * length bs) = 256 ^ length bs" by (simp add: power_mult)
  have "(unat b div 16) * 16 * 256 ^ length bs + (unat b mod 16) * 256 ^ length bs = unat b * 256 ^ length bs"
    by (metis add_mult_distrib div_mult_mod_eq)
  with Cons show ?case by (simp add: p mult.assoc)
qed simp

lemma bytes_value_be: "bytes_value (be_bytes (w :: 256 word)) = unat w"
proof -
  have "bytes_value (rev (map (\<lambda>i. ucast (drop_bit (8 * i) w)) [0..<n])) = unat w mod 256 ^ n" for n
  proof (induction n)
    case (Suc n)
    let ?b = "(ucast (drop_bit (8 * n) w) :: u8)"
    have "unat ?b = unat w div 256 ^ n mod 256"
      by (simp add: unat_ucast_mod unat_drop_bit power_mult)
    then have "bytes_value (rev (map (\<lambda>i. ucast (drop_bit (8 * i) w)) [0..<Suc n])) =
        256 ^ n * (unat w div 256 ^ n mod 256) + unat w mod 256 ^ n"
      using Suc by simp
    also have "\<dots> = unat w mod (256 ^ n * 256)" by (rule mod_mult2_eq[symmetric])
    finally show ?case by (simp only: power_Suc2)
  qed simp
  from this[of 32] have "bytes_value (be_bytes w) = unat w mod 256 ^ 32"
    by (simp add: be_bytes_def to_le_bytes_def)
  also have "\<dots> = unat w" using unat_lt_pow[of w] by simp
  finally show ?thesis .
qed

lemma leading_zero_digits_target:
  assumes "n \<le> 64"
  shows "n \<le> leading_zero_digits h \<longleftrightarrow> unat (hash_word h) < 2 ^ (256 - 4 * n)"
proof -
  have len: "length (hex_digits (hash_as_bytes h)) = 64" by (simp add: hash_as_bytes_def)
  have "n \<le> leading_zero_digits h \<longleftrightarrow> digits_value (hex_digits (hash_as_bytes h)) < 16 ^ (64 - n)"
    using leading_zeros_iff[of "hex_digits (hash_as_bytes h)" n] assms hex_digit_less
    unfolding leading_zero_digits_def len by blast
  also have "digits_value (hex_digits (hash_as_bytes h)) = unat (hash_word h)"
    by (simp add: digits_value_hex hash_as_bytes_def bytes_value_be)
  also have "(16::nat) ^ (64 - n) = 2 ^ (256 - 4 * n)"
  proof -
    have "256 - 4 * n = 4 * (64 - n)" using assms by simp
    then show ?thesis by (simp add: power_mult)
  qed
  finally show ?thesis .
qed

section \<open>Order and nonces\<close>

lemma order_check_iff: "order_check prev hs = Inr () \<longleftrightarrow> sorted_wrt (<) (prev # hs)"
proof (induction prev hs rule: order_check.induct)
  case (2 prev h hs)
  then show ?case by (auto dest: less_trans)
qed simp

lemma validate_transaction_ordering_iff:
  "validate_transaction_ordering X B b = Inr () \<longleftrightarrow>
     sorted_wrt (<) (map (tx_hash X (tx_codec_of B)) (blk_transactions b))"
  by (auto simp: validate_transaction_ordering_def order_check_iff split: list.split)

lemma expected_nonce_upd:
  "expected_nonce st (pending(a \<mapsto> n)) b = (if b = a then n else expected_nonce st pending b)"
  by (simp add: expected_nonce_def)

lemma nonce_check_iff:
  "nonce_check st pending txs = Inr () \<longleftrightarrow>
     (\<forall>i<length txs. tx_nonce (txs ! i) = expected_nonce st pending (tx_from (txs ! i)) +
        of_nat (count_list (map tx_from (take i txs)) (tx_from (txs ! i))))"
proof (induction txs arbitrary: pending)
  case (Cons tx txs)
  let ?p = "pending(tx_from tx \<mapsto> expected_nonce st pending (tx_from tx) + 1)"
  have step: "nonce_check st pending (tx # txs) = Inr () \<longleftrightarrow>
      tx_nonce tx = expected_nonce st pending (tx_from tx) \<and> nonce_check st ?p txs = Inr ()"
    by (simp add: Let_def)
  have shift: "expected_nonce st ?p a + of_nat (count_list (map tx_from (take i txs)) a) =
      expected_nonce st pending a + of_nat (count_list (map tx_from (take (Suc i) (tx # txs))) a)" for a i
    by (simp add: expected_nonce_upd algebra_simps)
  have split: "(\<forall>i<length (tx # txs). P i) \<longleftrightarrow> P 0 \<and> (\<forall>i<length txs. P (Suc i))" for P
    by (simp add: All_less_Suc2)
  show ?case unfolding step Cons.IH split by (simp only: shift) simp
qed simp

lemma validate_nonces_iff:
  "validate_nonces b st = Inr () \<longleftrightarrow>
     (\<forall>i<length (blk_transactions b). tx_nonce (blk_transactions b ! i) =
        get_nonce st (tx_from (blk_transactions b ! i)) +
        of_nat (count_list (map tx_from (take i (blk_transactions b))) (tx_from (blk_transactions b ! i))))"
  by (simp add: validate_nonces_def nonce_check_iff expected_nonce_def)

section \<open>What an accepted block guarantees\<close>

lemma validate_block_with_options_iff:
  "validate_block_with_options X B v now b prev n skip W = Inr () \<longleftrightarrow>
     bh_height (blk_header b) = n \<and> bh_prev_hash (blk_header b) = prev \<and>
     sint (bh_timestamp (blk_header b)) \<le> sint (now + bv_max_timestamp_drift v) \<and>
     solution_verify (sr_solution (blk_solution_reveal b)) (sr_problem (blk_solution_reveal b)) \<and>
     commit_verify X (core_codec (tx_codec_of B)) (sr_commitment (blk_solution_reveal b))
       (sr_problem (blk_solution_reveal b)) (sr_solution (blk_solution_reveal b)) prev \<and>
     \<not> f_lt (bh_work_score (blk_header b)) (bv_min_work_score v) \<and>
     (unat (bv_min_difficulty v) \<le> leading_zero_digits (header_hash X B (blk_header b)) \<or>
      unat (bv_min_difficulty v) \<le> leading_zero_digits (header_hash_from_json X B (blk_header b))) \<and>
     (\<forall>tx\<in>set (blk_transactions b). tx_verify_signature X (tx_codec_of B) tx) \<and>
     (\<forall>w. W = Some w \<longrightarrow> 0 < n \<longrightarrow>
        cb_reward (blk_coinbase b) = calculate_block_reward (bh_work_score (blk_header b)) w)"
  by (auto simp: validate_block_with_options_def validate_timestamp_def validate_difficulty_def Let_def
      bind_res_Inr list_all_iff not_less split: option.splits)

end
