(* ===== verification/Consensus_Miner.thy ===== *)
theory Consensus_Miner
  imports Consensus_Difficulty Consensus_Work_Score Consensus_Solver_Facts Node_Validator
begin

text \<open>
  The rest of \<open>consensus/src/miner.rs\<close>: the search for a header nonce, the problem of a height, the mining of a
  block and the block built from a solution that the coordinator already has. The seeded generator
  (\<open>rand\<close>'s \<open>StdRng\<close>) and the clock are parameters; a \<open>Duration\<close> is its number of nanoseconds. An outer
  \<open>None\<close> is a panic. Progress messages are left out.
\<close>

section \<open>The nonce search\<close>

definition HEADER_HASH_HEX_DIGITS :: u32 where "HEADER_HASH_HEX_DIGITS = 64"
definition MAX_MINING_ATTEMPTS :: nat where "MAX_MINING_ATTEMPTS = 5"

text \<open>The loop of \<open>mine_header_blocking\<close> over the nonces below \<open>u64::MAX\<close>: \<open>digits\<close> is the length of the
  prefix of zeros.\<close>

function mine_from ::
  "crypto_ext \<Rightarrow> block_codec \<Rightarrow> nat \<Rightarrow> block_header \<Rightarrow> nat \<Rightarrow> (block_header \<times> hash) option" where
  "mine_from X B digits header nonce =
     (if nonce < 2 ^ 64 - 1 then
        let header' = header\<lparr>bh_nonce := of_nat nonce\<rparr>; h = header_hash X B header' in
        if digits \<le> leading_zero_digits h then Some (header', h)
        else mine_from X B digits header (nonce + 1)
      else None)"
  by pat_completeness auto
termination
  by (relation "measure (\<lambda>(_, _, _, _, nonce). 2 ^ 64 - nonce)") auto

declare mine_from.simps [simp del]

definition mine_header_blocking ::
  "crypto_ext \<Rightarrow> block_codec \<Rightarrow> block_header \<Rightarrow> u32 \<Rightarrow> (block_header \<times> hash) option" where
  "mine_header_blocking X B header difficulty =
     mine_from X B (unat (min difficulty HEADER_HASH_HEX_DIGITS)) header 0"

section \<open>The miner\<close>

record mining_config =
  mg_miner_address :: address
  mg_target_block_time :: nat
  mg_min_difficulty :: u32
  mg_golden_activation_height :: u64

definition mining_config_default :: mining_config where
  "mining_config_default = \<lparr>mg_miner_address = Address 0, mg_target_block_time = 60 * 10 ^ 9,
     mg_min_difficulty = 2, mg_golden_activation_height = 0\<rparr>"

definition block_version_for_height :: "mining_config \<Rightarrow> u64 \<Rightarrow> u32" where
  "block_version_for_height c height =
     (if 0 < mg_golden_activation_height c \<and> height < mg_golden_activation_height c then 1 else 2)"

record mining_stats =
  mt_blocks_mined :: u64
  mt_total_work_score :: f64
  mt_average_solve_time :: nat
  mt_hash_rate :: f64

record miner =
  mn_config :: mining_config
  mn_stats :: mining_stats
  mn_difficulty :: u32
  mn_adjuster :: difficulty_adjuster

definition miner_new :: "mining_config \<Rightarrow> miner" where
  "miner_new config = \<lparr>mn_config = config,
     mn_stats = \<lparr>mt_blocks_mined = 0, mt_total_work_score = f_zero, mt_average_solve_time = 0, mt_hash_rate = f_zero\<rparr>,
     mn_difficulty = mg_min_difficulty config, mn_adjuster = adjuster_new\<rparr>"

definition set_network_metrics :: "network_metrics \<Rightarrow> miner \<Rightarrow> miner" where
  "set_network_metrics network_metrics m =
     m\<lparr>mn_adjuster := (mn_adjuster m)\<lparr>da_network_metrics := Some network_metrics\<rparr>\<rparr>"

definition set_registry :: "problem_registry \<Rightarrow> miner \<Rightarrow> miner" where
  "set_registry registry m = m\<lparr>mn_adjuster := (mn_adjuster m)\<lparr>da_registry := Some registry\<rparr>\<rparr>"

definition current_np_problem_size :: "bool \<Rightarrow> miner \<Rightarrow> u64" where
  "current_np_problem_size readable m = fold max
     [size_for_problem_type readable (mn_adjuster m) ''SAT'', size_for_problem_type readable (mn_adjuster m) ''TSP'']
     (size_for_problem_type readable (mn_adjuster m) ''SubsetSum'')"

section \<open>The problem of a height\<close>

text \<open>The generator: \<open>random_range\<close> draws from \<open>lo..hi\<close> at an integer type.\<close>

datatype draw_type = DrawI32 | DrawI64 | DrawU64 | DrawUsize

record 'r rng_ext =
  seed_from_u64 :: "u64 \<Rightarrow> 'r"
  random_range :: "draw_type \<Rightarrow> int \<Rightarrow> int \<Rightarrow> 'r \<Rightarrow> int \<times> 'r"
  random_bool :: "f64 \<Rightarrow> 'r \<Rightarrow> bool \<times> 'r"
  shuffle_indices :: "nat list \<Rightarrow> 'r \<Rightarrow> nat list \<times> 'r"

definition problem_seed :: "u64 \<Rightarrow> hash \<Rightarrow> u64" where
  "problem_seed block_height prev_hash =
     (let seed_bytes = hash_as_bytes prev_hash;
          mixed = map (\<lambda>(i, b). if i < 8 then Bit_Operations.xor b (ucast (drop_bit (i * 8) block_height)) else b)
                    (enumerate 0 seed_bytes)
      in from_le_bytes (take 8 mixed))"

fun draws :: "('r \<Rightarrow> 'a \<times> 'r) \<Rightarrow> nat \<Rightarrow> 'r \<Rightarrow> 'a list \<times> 'r" where
  "draws f 0 r = ([], r)"
| "draws f (Suc n) r = (let (x, r1) = f r; (xs, r2) = draws f n r1 in (x # xs, r2))"

definition generate_subset_sum :: "'r rng_ext \<Rightarrow> nat \<Rightarrow> 'r \<Rightarrow> problem_type" where
  "generate_subset_sum G problem_size r =
     (let (numbers, r1) = draws (random_range G DrawI64 1 1000) problem_size r;
          (subset_size, r2) = random_range G DrawUsize 1 (int (max (min problem_size (problem_size - 1)) 1) + 1) r1;
          (shuffled, r3) = shuffle_indices G [0..<problem_size] r2;
          selected_indices = take (nat subset_size) shuffled
      in SubsetSum (map of_int numbers) (\<Sum>i\<leftarrow>selected_indices. map of_int numbers ! i))"

text \<open>The literals of one clause, in the order in which they are drawn.\<close>

fun draw_literals :: "'r rng_ext \<Rightarrow> bool list \<Rightarrow> nat list \<Rightarrow> 'r \<Rightarrow> i32 list \<times> 'r" where
  "draw_literals G assignment [] r = ([], r)"
| "draw_literals G assignment (var_idx # vs) r =
     (let var = of_nat var_idx + 1 :: i32; (agree, r1) = random_bool G (f_of_rat 0.7) r;
          lit = (if agree then (if assignment ! var_idx then var else - var)
                 else if assignment ! var_idx then - var else var);
          (ls, r2) = draw_literals G assignment vs r1
      in (lit # ls, r2))"

definition draw_clause :: "'r rng_ext \<Rightarrow> bool list \<Rightarrow> 'r \<Rightarrow> clause \<times> 'r" where
  "draw_clause G assignment r =
     (let (selected_vars, r1) = shuffle_indices G [0..<length assignment] r;
          (ls, r2) = draw_literals G assignment (take 3 selected_vars) r1
      in (\<lparr>literals = ls\<rparr>, r2))"

definition generate_sat :: "'r rng_ext \<Rightarrow> nat \<Rightarrow> 'r \<Rightarrow> problem_type" where
  "generate_sat G variables r =
     (let (satisfying_assignment, r1) = draws (random_bool G (f_of_rat 0.5)) variables r;
          (clauses, r2) = draws (draw_clause G satisfying_assignment) (variables * 3) r1
      in SAT variables clauses)"

definition set_distance :: "nat \<Rightarrow> nat \<Rightarrow> u64 \<Rightarrow> u64 list list \<Rightarrow> u64 list list" where
  "set_distance i j d_ij d = (let d1 = d[i := (d ! i)[j := d_ij]] in d1[j := (d1 ! j)[i := d_ij]])"

fun draw_distances :: "'r rng_ext \<Rightarrow> (nat \<times> nat) list \<Rightarrow> u64 list list \<Rightarrow> 'r \<Rightarrow> u64 list list" where
  "draw_distances G [] d r = d"
| "draw_distances G ((i, j) # ps) d r =
     (let (d_ij, r1) = random_range G DrawU64 1 100 r
      in draw_distances G ps (set_distance i j (of_int d_ij) d) r1)"

definition generate_tsp :: "'r rng_ext \<Rightarrow> nat \<Rightarrow> 'r \<Rightarrow> problem_type" where
  "generate_tsp G cities r =
     TSP cities (draw_distances G (concat (map (\<lambda>i. map (\<lambda>j. (i, j)) [i + 1..<cities]) [0..<cities]))
       (replicate cities (replicate cities 0)) r)"

definition size_of_type :: "float_ext \<Rightarrow> bool \<Rightarrow> difficulty_adjuster \<Rightarrow> string \<Rightarrow> nat" where
  "size_of_type F readable a t = unat (if da_network_metrics a \<noteq> None
     then size_for_problem_type_async F a t else size_for_problem_type readable a t)"

definition generate_problem ::
  "float_ext \<Rightarrow> 'r rng_ext \<Rightarrow> bool \<Rightarrow> difficulty_adjuster \<Rightarrow> u64 \<Rightarrow> hash \<Rightarrow> problem_type" where
  "generate_problem F G readable a block_height prev_hash =
     (let (kind, r) = random_range G DrawI32 0 3 (seed_from_u64 G (problem_seed block_height prev_hash)) in
      if kind = 0 then generate_subset_sum G (size_of_type F readable a ''SubsetSum'') r
      else if kind = 1 then generate_sat G (size_of_type F readable a ''SAT'') r
      else generate_tsp G (size_of_type F readable a ''TSP'') r)"

section \<open>Mining a block\<close>

text \<open>What the clock shows: by attempt, the readings of the solver's clock, the time it took and the time
  since mining started; then the verification time and the Unix time.\<close>

record mining_clock =
  mk_solver :: "nat \<Rightarrow> nat \<Rightarrow> nat"
  mk_solve_time :: "nat \<Rightarrow> nat"
  mk_elapsed :: "nat \<Rightarrow> nat"
  mk_verify_time :: nat
  mk_now :: u64

text \<open>The library the miner relies on: floats, hashes, serialisation, the generator, the binary search and the
  shuffles of the heuristic solver; \<open>readable\<close> says whether the registry's lock is free.\<close>

record 'r mining_ext =
  mx_float :: float_ext
  mx_crypto :: crypto_ext
  mx_codec :: block_codec
  mx_rng :: "'r rng_ext"
  mx_search :: "i64 list \<Rightarrow> i64 \<Rightarrow> nat option"
  mx_samples :: "u64 \<Rightarrow> nat \<Rightarrow> nat list list"
  mx_readable :: bool

definition penalize :: "'r mining_ext \<Rightarrow> difficulty_adjuster \<Rightarrow> u64 \<times> difficulty_adjuster" where
  "penalize E a = (if da_network_metrics a \<noteq> None then penalize_failure_async (mx_float E) a else penalize_failure a)"

text \<open>The attempts: \<open>n\<close> of them are left after this one. A solver that panics has found nothing. The result is
  the last adjuster, with the problem, its solution and the solve time.\<close>

fun attempt_loop ::
  "'r mining_ext \<Rightarrow> mining_clock \<Rightarrow> u64 \<Rightarrow> hash \<Rightarrow> nat \<Rightarrow> difficulty_adjuster \<Rightarrow>
     difficulty_adjuster \<times> (problem_type \<times> solution \<times> nat) option" where
  "attempt_loop E K height prev_hash n a =
     (let attempts = MAX_MINING_ATTEMPTS - n;
          problem = generate_problem (mx_float E) (mx_rng E) (mx_readable E) a height prev_hash
      in case solve_problem_blocking (mx_search E) (mx_samples E) (mk_solver K attempts) problem of
           Some (Some sol) \<Rightarrow> (a, Some (problem, sol, mk_solve_time K attempts))
         | _ \<Rightarrow> (let a' = snd (penalize E a) in
             case n of 0 \<Rightarrow> (a', None)
             | Suc n' \<Rightarrow> if 60 * 10 ^ 9 \<le> mk_elapsed K attempts then (a', None)
                        else attempt_loop E K height prev_hash n' a'))"

declare attempt_loop.simps [simp del]

definition merkle_root :: "crypto_ext \<Rightarrow> block_codec \<Rightarrow> transaction list \<Rightarrow> hash" where
  "merkle_root X B transactions =
     (if transactions = [] then hash_ZERO
      else mt_root (merkle_new X (map (\<lambda>tx. unwrap_or (bincode_transaction (tx_codec_of B) tx) []) transactions)))"

definition block_timestamp :: "u64 \<Rightarrow> u64 \<Rightarrow> i64" where
  "block_timestamp now height = (if height = 1 then 1735689601 else now)"

text \<open>The header before the nonce search, as both producers fill it in; \<open>None\<close> is a panic of \<open>quality\<close>.\<close>

definition candidate_header ::
  "float_ext \<Rightarrow> crypto_ext \<Rightarrow> block_codec \<Rightarrow> u64 \<Rightarrow> u32 \<Rightarrow> u64 \<Rightarrow> hash \<Rightarrow> transaction list \<Rightarrow> problem_type \<Rightarrow>
     solution \<Rightarrow> nat \<Rightarrow> nat \<Rightarrow> f64 \<Rightarrow> address \<Rightarrow> block_header option" where
  "candidate_header F X B now version height prev_hash transactions problem sol solve_time verify_time work_score miner_addr =
     map_option (\<lambda>quality.
       (let solve_time_us = of_nat (solve_time div 1000);
            verify_time_us = of_nat (max (verify_time div 1000) 1)
        in \<lparr>bh_version = version, bh_height = height, bh_prev_hash = prev_hash,
            bh_timestamp = block_timestamp now height, bh_transactions_root = merkle_root X B transactions,
            bh_solutions_root = hash_new X (unwrap_or (bincode_solution (core_codec (tx_codec_of B)) sol) []),
            bh_commitment = commit_create X (core_codec (tx_codec_of B)) problem sol prev_hash,
            bh_work_score = work_score, bh_miner = miner_addr, bh_nonce = 0,
            bh_solve_time_us = solve_time_us, bh_verify_time_us = verify_time_us,
            bh_time_asymmetry_ratio = f_div (f_of_word solve_time_us) (f_of_word verify_time_us),
            bh_solution_quality = quality, bh_complexity_weight = difficulty_weight F problem,
            bh_energy_estimate_joules = f_mul (f_of_rat 100) (as_secs_f64 solve_time)\<rparr>))
       (solution_quality sol problem)"

text \<open>\<open>Duration::from_secs_f64\<close> rounds to the nearest nanosecond and panics out of range.\<close>

definition checked_duration :: "f64 \<Rightarrow> nat option" where
  "checked_duration x =
     (if is_finite x \<and> 0 \<le> f_val x \<and> round_half_even (f_val x * 10 ^ 9) < 2 ^ 64 * 10 ^ 9
      then Some (nat (round_half_even (f_val x * 10 ^ 9))) else None)"

definition update_stats :: "float_ext \<Rightarrow> f64 \<Rightarrow> nat \<Rightarrow> miner \<Rightarrow> miner option" where
  "update_stats F work_score solve_time m =
     (let s = mn_stats m; mined = mt_blocks_mined s + 1;
          total_time = f_add (f_mul (as_secs_f64 (mt_average_solve_time s)) (f_of_word (mined - 1))) (as_secs_f64 solve_time);
          a = record_solve_time solve_time (mn_adjuster m);
          a' = snd (if da_network_metrics a \<noteq> None then adjust_difficulty_async F a else Consensus_Difficulty.adjust_difficulty F a)
      in map_option (\<lambda>average.
           m\<lparr>mn_stats := s\<lparr>mt_blocks_mined := mined, mt_total_work_score := f_add (mt_total_work_score s) work_score,
               mt_average_solve_time := average\<rparr>, mn_adjuster := a'\<rparr>)
         (checked_duration (f_div total_time (f_of_word mined))))"

text \<open>A solution that does not verify, or no nonce: no block, the statistics untouched.\<close>

definition mine_block ::
  "'r mining_ext \<Rightarrow> mining_clock \<Rightarrow> hash \<Rightarrow> u64 \<Rightarrow> u128 \<Rightarrow> transaction list \<Rightarrow> miner \<Rightarrow> (block option \<times> miner) option" where
  "mine_block E K prev_hash height parent_cumulative_work transactions m =
     (case attempt_loop E K height prev_hash (MAX_MINING_ATTEMPTS - 1) (mn_adjuster m) of
        (a, None) \<Rightarrow> Some (None, m\<lparr>mn_adjuster := a\<rparr>)
      | (a, Some (problem, sol, solve_time)) \<Rightarrow>
          (let m1 = m\<lparr>mn_adjuster := a\<rparr>; F = mx_float E; X = mx_crypto E; B = mx_codec E; addr = mg_miner_address (mn_config m) in
           if \<not> solution_verify sol problem then Some (None, m1)
           else Option.bind (calculate_from_solution F problem sol solve_time (mk_verify_time K)) (\<lambda>work_score.
             Option.bind (candidate_header F X B (mk_now K) (block_version_for_height (mn_config m) height) height prev_hash
                 transactions problem sol solve_time (mk_verify_time K) work_score addr) (\<lambda>header.
             case mine_header_blocking X B header (mn_difficulty m) of None \<Rightarrow> Some (None, m1)
             | Some (mined, _) \<Rightarrow> map_option (\<lambda>m2. (Some
                 \<lparr>blk_header = mined,
                  blk_coinbase = coinbase_new addr (calculate_block_reward (bh_work_score mined) parent_cumulative_work) height,
                  blk_transactions = transactions,
                  blk_solution_reveal = \<lparr>sr_problem = problem, sr_solution = sol, sr_commitment = bh_commitment header\<rparr>\<rparr>, m2))
                 (update_stats F work_score solve_time m1)))))"

definition miner_stats :: "miner \<Rightarrow> mining_stats" where
  "miner_stats m = mn_stats m"

definition adjust_header_difficulty :: "nat \<Rightarrow> miner \<Rightarrow> miner" where
  "adjust_header_difficulty actual_block_time m =
     (let target = as_secs_f64 (mg_target_block_time (mn_config m)); actual = as_secs_f64 actual_block_time in
      if f_lt actual (f_mul target (f_of_rat 0.8)) then m\<lparr>mn_difficulty := min (mn_difficulty m + 1) HEADER_HASH_HEX_DIGITS\<rparr>
      else if f_lt (f_mul target (f_of_rat 1.2)) actual
        then m\<lparr>mn_difficulty := max (if mn_difficulty m = 0 then 0 else mn_difficulty m - 1) (mg_min_difficulty (mn_config m))\<rparr>
      else m)"

text \<open>\<open>build_block_from_solution\<close>: the verification time is taken to be 100 microseconds.\<close>

definition build_block_from_solution ::
  "float_ext \<Rightarrow> crypto_ext \<Rightarrow> block_codec \<Rightarrow> u64 \<Rightarrow> hash \<Rightarrow> u64 \<Rightarrow> address \<Rightarrow> problem_type \<Rightarrow> solution \<Rightarrow> nat \<Rightarrow> f64 \<Rightarrow>
     u128 \<Rightarrow> u32 \<Rightarrow> transaction list \<Rightarrow> block option option" where
  "build_block_from_solution F X B now prev_hash height miner_addr problem sol solve_time work_score
       parent_cumulative_work difficulty transactions =
     (if \<not> solution_verify sol problem then Some None
      else Option.bind (candidate_header F X B now 1 height prev_hash transactions problem sol solve_time 100000 work_score miner_addr)
        (\<lambda>header. Some (map_option (\<lambda>(mined, _).
           \<lparr>blk_header = mined,
            blk_coinbase = coinbase_new miner_addr (calculate_block_reward (bh_work_score mined) parent_cumulative_work) height,
            blk_transactions = transactions,
            blk_solution_reveal = \<lparr>sr_problem = problem, sr_solution = sol, sr_commitment = bh_commitment header\<rparr>\<rparr>)
           (mine_header_blocking X B header difficulty))))"

end
