(* ===== verification/Consensus_Miner_Facts.thy ===== *)
theory Consensus_Miner_Facts
  imports Consensus_Miner
begin

text \<open>
  What the miner guarantees: the solvers it dispatches to are sound, exact on the subset-sum instances that mining
  generates and bounded by their deadline; the nonce it returns is the least that meets the target; the blocks it
  builds pass the validator; and where its blocks differ from what \<open>Block::verify\<close> asks.
\<close>

section \<open>The dispatcher of the subset-sum solvers\<close>

lemma can_le: "can xs t \<Longrightarrow> t \<le> sum_list xs"
proof -
  have "sum_list ys \<le> sum_list xs" if "subseq ys xs" for ys :: "nat list" and xs
    using that by (induction rule: list_emb.induct) auto
  then show "can xs t \<Longrightarrow> t \<le> sum_list xs" unfolding can_iff by metis
qed

lemma can_zero: "can xs 0"
  using prefix_can_zero[of xs "length xs"] by (simp add: prefix_can_all)

text \<open>The contracts of the parameters: sampled indices are in range.\<close>

definition samples_ok :: "(u64 \<Rightarrow> nat \<Rightarrow> nat list list) \<Rightarrow> bool" where
  "samples_ok samples \<longleftrightarrow> (\<forall>seed n. \<forall>s\<in>set (samples seed n). set s \<subseteq> {0..<n})"

definition small_instance :: "nat list \<Rightarrow> nat \<Rightarrow> bool" where
  "small_instance xs t \<longleftrightarrow> sum_list xs < 2 ^ 62 \<and> t < 2 ^ 62 \<and> length xs < 2 ^ 32"

definition exact_instance :: "nat list \<Rightarrow> bool" where
  "exact_instance xs \<longleftrightarrow> (length xs + 1) * (2 * sum_list xs + 1) \<le> 8000000 \<or> sum_list xs \<le> 200000"

lemma instance_words:
  assumes "small_instance xs t"
  shows "sum_list (map of_nat xs) = (of_nat (sum_list xs) :: i64)"
    and "sint (of_nat (sum_list xs) :: i64) = int (sum_list xs)" "unat (of_nat (sum_list xs) :: i64) = sum_list xs"
    and "sint (of_nat t :: i64) = int t" "unat (of_nat t :: i64) = t"
    and "unat (2 * of_nat (sum_list xs) + 1 :: u64) = 2 * sum_list xs + 1"
    and "unat (of_nat (length xs + 1) :: u64) = length xs + 1"
proof -
  have b: "sum_list xs < 2 ^ 62" "t < 2 ^ 62" "length xs < 2 ^ 32" using assms by (simp_all add: small_instance_def)
  show "sum_list (map of_nat xs) = (of_nat (sum_list xs) :: i64)" by (induction xs) simp_all
  show "sint (of_nat (sum_list xs) :: i64) = int (sum_list xs)" "unat (of_nat (sum_list xs) :: i64) = sum_list xs"
    "sint (of_nat t :: i64) = int t" "unat (of_nat t :: i64) = t"
    using b by (simp_all add: sint_of_nat_small unat_of_nat_small)
  have "(2 * of_nat (sum_list xs) + 1 :: u64) = of_nat (2 * sum_list xs + 1)" by simp
  then show "unat (2 * of_nat (sum_list xs) + 1 :: u64) = 2 * sum_list xs + 1"
    using b unat_of_nat_small[of "2 * sum_list xs + 1"] by (simp add: add.commute)
  show "unat (of_nat (length xs + 1) :: u64) = length xs + 1"
    using b by (intro unat_of_nat_small) simp
qed

lemma dispatch_cases:
  assumes s: "small_instance xs t" and t: "0 < t" "t \<le> sum_list xs"
  defines "T \<equiv> sum_list xs"
  shows "solve_subset_sum bs samples (map of_nat xs) (of_nat t) =
    (if (length xs + 1) * (2 * T + 1) \<le> 8000000
     then solve_subset_sum_dp (map of_nat xs) (of_nat t) (of_nat T) (2 * T + 1)
     else if T \<le> 200000 then Some (solve_subset_sum_1d_dp (map of_nat xs) (of_nat t))
     else if length xs \<le> SUBSET_SUM_MITM_MAX_N then Some (solve_subset_sum_mitm bs (map of_nat xs) (of_nat t))
     else Some (solve_subset_sum_heuristic samples (map of_nat xs) (of_nat t)))"
proof -
  note w = instance_words[OF s]
  have abs: "abs_word (of_nat T :: i64) = of_nat T" using w(2) by (simp add: abs_word_def T_def)
  have t0: "(of_nat t :: i64) \<noteq> 0" using w(5) t(1) by auto
  have cells: "saturating_mul_word (of_nat (length xs + 1)) (2 * of_nat T + 1 :: u64) \<le> SUBSET_SUM_DP_MAX_CELLS \<longleftrightarrow>
      (length xs + 1) * (2 * T + 1) \<le> 8000000"
    using w(6,7) by (simp add: word_le_nat_alt unat_saturating_mul SUBSET_SUM_DP_MAX_CELLS_def T_def min_le_iff_disj)
  have one: "(of_nat T :: i64) \<le> SUBSET_SUM_1D_MAX_SUM \<longleftrightarrow> T \<le> 200000"
    using w(3) by (simp add: word_le_nat_alt SUBSET_SUM_1D_MAX_SUM_def T_def)
  show ?thesis
    using t t0 w(2,4,6) cells one abs
    by (simp add: solve_subset_sum_def Let_def w(1) word_sless_alt flip: T_def)
qed

lemma dispatch_none:
  assumes "small_instance xs t" and "t = 0 \<or> sum_list xs < t"
  shows "solve_subset_sum bs samples (map of_nat xs) (of_nat t) =
    Some (if sum_list xs < t then None else Some (SubsetSumSol []))"
  using assms(2) instance_words[OF assms(1)]
  by (auto simp: solve_subset_sum_def Let_def word_sless_alt)

text \<open>On the instances it solves exactly, the dispatcher answers iff there is an answer.\<close>

lemma solve_subset_sum_exact:
  assumes s: "small_instance xs t" and e: "exact_instance xs"
  shows "\<exists>r. solve_subset_sum bs samples (map of_nat xs) (of_nat t) = Some r \<and> (r = None \<longleftrightarrow> \<not> can xs t) \<and>
    (\<forall>sol. r = Some sol \<longrightarrow> solution_verify sol (SubsetSum (map of_nat xs) (of_nat t)))"
proof (cases "t = 0 \<or> sum_list xs < t")
  case True
  have "solution_verify (SubsetSumSol []) (SubsetSum (map of_nat xs) 0)" by simp
  moreover have "\<not> can xs t" if "sum_list xs < t" using that can_le[of xs t] by linarith
  ultimately show ?thesis using True dispatch_none[OF s True] can_zero by (auto simp del: solution_verify.simps)
next
  case False
  then have t: "0 < t" "t \<le> sum_list xs" by auto
  have b: "sum_list xs < 2 ^ 62" "t < 2 ^ 62" using s by (simp_all add: small_instance_def)
  show ?thesis
  proof (cases "(length xs + 1) * (2 * sum_list xs + 1) \<le> 8000000")
    case True
    have "2 * sum_list xs + 1 \<le> (length xs + 1) * (2 * sum_list xs + 1)" by simp
    from order_trans[OF this True] have ok: "table_ok xs (sum_list xs) (2 * sum_list xs + 1)"
      by (simp add: table_ok_def)
    from solve_subset_sum_dp_correct[OF ok t(2)] True show ?thesis
      unfolding dispatch_cases[OF s t] by simp blast
  next
    case False
    then have "sum_list xs \<le> 200000" using e by (simp add: exact_instance_def)
    with False solve_subset_sum_1d_dp_correct[OF b] show ?thesis
      unfolding dispatch_cases[OF s t] by simp
  qed
qed

lemma heuristic_sound:
  assumes "samples_ok samples" and "solve_subset_sum_heuristic samples numbers target = Some sol"
  shows "solution_verify sol (SubsetSum numbers target)"
proof -
  from assms(2) obtain ks where sol: "sol = SubsetSumSol (sort ks)"
    and f: "List.find (\<lambda>ks. (\<Sum>i\<leftarrow>ks. numbers ! i) = target) (samples (heuristic_seed numbers) (length numbers)) = Some ks"
    by (auto simp: solve_subset_sum_heuristic_def)
  have "ks \<in> set (samples (heuristic_seed numbers) (length numbers))" "(\<Sum>i\<leftarrow>ks. numbers ! i) = target"
    using f by (auto simp: find_Some_iff)
  then have "set ks \<subseteq> {0..<length numbers}" "(\<Sum>i\<leftarrow>sort ks. numbers ! i) = target"
    using assms(1) by (auto simp: samples_ok_def) (metis mset_map mset_sort sum_mset_sum_list)
  moreover have "(\<Sum>i\<leftarrow>sort ks. unwrap_or (index numbers i) 0) = (\<Sum>i\<leftarrow>sort ks. numbers ! i)"
    using calculation(1) by (intro arg_cong[where f = sum_list] map_cong) (auto simp: subset_iff)
  ultimately show ?thesis using sol by simp
qed

lemma solve_subset_sum_sound:
  assumes s: "small_instance xs t" and bs: "search_sound bs" and sm: "samples_ok samples"
    and r: "solve_subset_sum bs samples (map of_nat xs) (of_nat t) = Some (Some sol)"
  shows "solution_verify sol (SubsetSum (map of_nat xs) (of_nat t))"
proof (cases "exact_instance xs \<or> t = 0 \<or> sum_list xs < t")
  case True
  then consider "exact_instance xs" | "t = 0 \<or> sum_list xs < t" by blast
  then show ?thesis
  proof cases
    case 1
    from solve_subset_sum_exact[OF s 1, of bs samples] r show ?thesis by (simp del: solution_verify.simps)
  next
    case 2
    from dispatch_none[OF s 2, of bs samples] r 2 show ?thesis by (auto split: if_splits)
  qed
next
  case False
  then have t: "0 < t" "t \<le> sum_list xs" and ne: "\<not> (length xs + 1) * (2 * sum_list xs + 1) \<le> 8000000"
      "\<not> sum_list xs \<le> 200000"
    by (auto simp: exact_instance_def)
  show ?thesis
    using r[unfolded dispatch_cases[OF s t], unfolded if_not_P[OF ne(1)] if_not_P[OF ne(2)]]
      solve_subset_sum_mitm_sound[OF bs] heuristic_sound[OF sm]
    by (simp split: if_splits del: solution_verify.simps)
qed

text \<open>The instances the solvers are sound on.\<close>

fun problem_ok :: "problem_type \<Rightarrow> bool" where
  "problem_ok (SubsetSum numbers target) \<longleftrightarrow>
     (\<exists>xs t. numbers = map of_nat xs \<and> target = of_nat t \<and> small_instance xs t)"
| "problem_ok (SAT variables clauses) \<longleftrightarrow> True"
| "problem_ok (TSP cities distances) \<longleftrightarrow> matrix_ok cities distances"
| "problem_ok (CustomProblem _ _) \<longleftrightarrow> True"

lemma solve_problem_sound:
  assumes "problem_ok problem" and bs: "search_sound bs" and sm: "samples_ok samples"
    and r: "solve_problem_blocking bs samples elapsed problem = Some (Some sol)"
  shows "solution_verify sol problem"
proof (cases problem)
  case (SubsetSum numbers target)
  then show ?thesis using assms solve_subset_sum_sound[OF _ bs sm]
    by (auto simp: solve_problem_blocking_def simp del: solution_verify.simps)
next
  case (SAT variables clauses)
  then show ?thesis using r brute_force_sound solve_sat_with_timeout_sound
    by (auto simp: solve_problem_blocking_def solve_sat_brute_force_def Let_def simp del: solution_verify.simps split: if_splits)
next
  case (TSP cities distances)
  then show ?thesis using assms(1) r solve_tsp_sound
    by (auto simp: solve_problem_blocking_def simp del: solution_verify.simps)
next
  case (CustomProblem h b)
  then show ?thesis using r by (simp add: solve_problem_blocking_def)
qed

section \<open>The tour search ends\<close>

text \<open>The distances are defined on the tour, so no step panics; each pass reads the clock, so a clock that passes
  the deadline after \<open>n\<close> readings stops the search.\<close>

lemma two_opt_swap_ok:
  assumes m: "matrix_ok cities d" and tour: "length tour = cities" "set tour \<subseteq> {0..<cities}"
    and p: "fst p + 2 \<le> snd p" "snd p < cities"
  shows "two_opt_swap d cities p tour \<noteq> None"
proof -
  obtain i j where ij: "p = (i, j)" by (cases p)
  have lt: "i < length tour" "i + 1 < length tour" "j < length tour" "(j + 1) mod cities < length tour"
    using p tour(1) by (auto simp: ij)
  have mem: "tour ! k < cities" if "k < length tour" for k using that tour(2) nth_mem by fastforce
  show ?thesis using lt mem by (simp add: ij two_opt_swap_def index_def distance_at_ok[OF m])
qed

lemma two_opt_pass_ok:
  assumes m: "matrix_ok cities d" and ps: "\<forall>p\<in>set ps. fst p + 2 \<le> snd p \<and> snd p < cities"
    and "length tour = cities" "set tour \<subseteq> {0..<cities}"
  shows "\<exists>tour' b stop k'. two_opt_pass expired d cities ps tour improved k = Some (tour', b, stop, k') \<and> k \<le> k'"
  using ps assms(3,4)
proof (induction ps arbitrary: tour improved k)
  case (Cons p ps)
  show ?case
  proof (cases "expired k")
    case False
    obtain tour' better where sw: "two_opt_swap d cities p tour = Some (tour', better)"
      using two_opt_swap_ok[OF m Cons.prems(2,3), of p] Cons.prems(1) by auto
    have "mset tour' = mset tour" using two_opt_swap_mset[OF sw] Cons.prems(1) by simp
    then have "length tour' = cities" "set tour' \<subseteq> {0..<cities}"
      using Cons.prems(2,3) by (auto dest: mset_eq_setD mset_eq_length)
    with Cons.IH[of tour' "improved \<or> better" "Suc k"] Cons.prems(1) obtain t b st k' where
      "two_opt_pass expired d cities ps tour' (improved \<or> better) (Suc k) = Some (t, b, st, k')" "Suc k \<le> k'" by auto
    then show ?thesis using False sw by auto
  qed auto
qed auto

lemma two_opt_pairs_ok: "\<forall>p\<in>set (two_opt_pairs cities). fst p + 2 \<le> snd p \<and> snd p < cities"
  by (auto simp: two_opt_pairs_def)

lemma tsp_two_opt_ends:
  assumes m: "matrix_ok cities d" and stop: "\<forall>k\<ge>n. expired k"
    and "length tour = cities" "set tour \<subseteq> {0..<cities}"
  shows "\<exists>t. tsp_two_opt expired d cities tour k = Some t"
  using assms(3,4)
proof (induction "n - k" arbitrary: tour k rule: less_induct)
  case less
  show ?case
  proof (cases "expired k")
    case True
    then show ?thesis by (simp add: tsp_two_opt.simps)
  next
    case False
    then have k: "k < n" using stop by (meson not_le)
    obtain tour' b st k' where p: "two_opt_pass expired d cities (two_opt_pairs cities) tour False (Suc k) = Some (tour', b, st, k')"
      "Suc k \<le> k'" using two_opt_pass_ok[OF m two_opt_pairs_ok less.prems] by meson
    have "mset tour' = mset tour" using two_opt_pass_mset[OF two_opt_pairs_lt p(1)] .
    then have t': "length tour' = cities" "set tour' \<subseteq> {0..<cities}"
      using less.prems by (auto dest: mset_eq_setD mset_eq_length)
    have "n - k' < n - k" using k p(2) by linarith
    from less.hyps[OF this t'] show ?thesis using False p(1) by (auto simp: tsp_two_opt.simps[of expired d cities tour k])
  qed
qed

lemma solve_tsp_ends:
  assumes m: "matrix_ok cities d" and stop: "\<forall>k\<ge>n. expired k" and pos: "0 < cities"
  shows "\<exists>sol. solve_tsp expired cities d = Some (Some sol) \<and> solution_verify sol (TSP cities d)"
proof -
  from tsp_nearest_neighbor_total[OF pos m] obtain t where
    t: "tsp_nearest_neighbor cities d = Some t" "solution_verify (TSPSol t) (TSP cities d)"
    using pos by (auto simp: tsp_nearest_neighbor_def)
  then have perm: "distinct t" "set t = {0..<cities}" by (simp_all only: verify_TSP_iff)
  then have len: "length t = cities" using distinct_card[of t] by simp
  from tsp_two_opt_ends[OF m stop len] perm obtain t' where "tsp_two_opt expired d cities t 0 = Some t'" by auto
  then have "solve_tsp expired cities d = Some (Some (TSPSol t'))" using t len pos by (simp add: solve_tsp_def)
  with solve_tsp_sound[OF m this] show ?thesis by blast
qed

section \<open>The nonce\<close>

lemma mine_from_Some:
  "mine_from X B digits header nonce = Some (h, hsh) \<Longrightarrow>
     \<exists>n. nonce \<le> n \<and> n < 2 ^ 64 - 1 \<and> h = header\<lparr>bh_nonce := of_nat n\<rparr> \<and> hsh = header_hash X B h \<and>
       digits \<le> leading_zero_digits hsh \<and>
       (\<forall>k. nonce \<le> k \<longrightarrow> k < n \<longrightarrow> leading_zero_digits (header_hash X B (header\<lparr>bh_nonce := of_nat k\<rparr>)) < digits)"
proof (induction X B digits header nonce rule: mine_from.induct)
  case (1 X B digits header nonce)
  let ?h = "header\<lparr>bh_nonce := of_nat nonce\<rparr>"
  have lt: "nonce < 2 ^ 64 - 1" using "1.prems" by (auto simp: mine_from.simps[of X B digits header nonce] split: if_splits)
  show ?case
  proof (cases "digits \<le> leading_zero_digits (header_hash X B ?h)")
    case True
    then have "h = ?h" "hsh = header_hash X B ?h"
      using "1.prems" lt by (auto simp: mine_from.simps[of X B digits header nonce] Let_def)
    then show ?thesis using True lt by (intro exI[of _ nonce]) auto
  next
    case False
    then have "mine_from X B digits header (nonce + 1) = Some (h, hsh)"
      using "1.prems" lt by (simp add: mine_from.simps[of X B digits header nonce] Let_def)
    from "1.IH"[OF lt refl refl False this] obtain n where n: "nonce + 1 \<le> n" "n < 2 ^ 64 - 1"
      "h = header\<lparr>bh_nonce := of_nat n\<rparr>" "hsh = header_hash X B h" "digits \<le> leading_zero_digits hsh"
      "\<forall>k. nonce + 1 \<le> k \<longrightarrow> k < n \<longrightarrow> leading_zero_digits (header_hash X B (header\<lparr>bh_nonce := of_nat k\<rparr>)) < digits"
      by blast
    have "leading_zero_digits (header_hash X B (header\<lparr>bh_nonce := of_nat k\<rparr>)) < digits" if "nonce \<le> k" "k < n" for k
      using that False n(6) by (cases "k = nonce") auto
    then show ?thesis using n(1-5) by (intro exI[of _ n]) auto
  qed
qed

lemma mine_from_None:
  "mine_from X B digits header nonce = None \<longleftrightarrow>
     (\<forall>n. nonce \<le> n \<longrightarrow> n < 2 ^ 64 - 1 \<longrightarrow> leading_zero_digits (header_hash X B (header\<lparr>bh_nonce := of_nat n\<rparr>)) < digits)"
proof (induction X B digits header nonce rule: mine_from.induct)
  case (1 X B digits header nonce)
  let ?h = "header\<lparr>bh_nonce := of_nat nonce\<rparr>"
  show ?case
  proof (cases "nonce < 2 ^ 64 - 1 \<and> \<not> digits \<le> leading_zero_digits (header_hash X B ?h)")
    case True
    then have lt: "nonce < 2 ^ 64 - 1" and no: "\<not> digits \<le> leading_zero_digits (header_hash X B ?h)" by auto
    have split: "(\<forall>n. nonce \<le> n \<longrightarrow> P n) \<longleftrightarrow> P nonce \<and> (\<forall>n. nonce + 1 \<le> n \<longrightarrow> P n)" for P
      by (metis Suc_eq_plus1 Suc_leD le_antisym not_less_eq_eq order_refl)
    show ?thesis using "1.IH"[OF lt refl refl no] lt no
      by (subst split) (simp add: mine_from.simps[of X B digits header nonce] Let_def)
  next
    case False
    then show ?thesis
      by (cases "nonce < 2 ^ 64 - 1") (auto simp: mine_from.simps[of X B digits header nonce] Let_def not_less)
  qed
qed

definition header_digits :: "u32 \<Rightarrow> nat" where
  "header_digits difficulty = unat (min difficulty HEADER_HASH_HEX_DIGITS)"

lemma header_digits: "unat m \<le> 64 \<Longrightarrow> m \<le> d \<Longrightarrow> unat m \<le> header_digits d"
  by (simp add: header_digits_def HEADER_HASH_HEX_DIGITS_def min_def word_le_nat_alt)

lemma mined_header:
  assumes "mine_header_blocking X B header difficulty = Some (mined, hsh)"
  shows "\<exists>n. mined = header\<lparr>bh_nonce := n\<rparr>" and "header_digits difficulty \<le> leading_zero_digits (header_hash X B mined)"
  using mine_from_Some[OF assms[unfolded mine_header_blocking_def]] by (auto simp: header_digits_def)

section \<open>What is mined passes the validator\<close>

lemma commit_verify_create: "commit_verify X C (commit_create X C p s salt) p s salt"
  by (simp add: commit_verify_def Let_def)

text \<open>The shape both producers give a block.\<close>

definition assembled ::
  "crypto_ext \<Rightarrow> block_codec \<Rightarrow> hash \<Rightarrow> u64 \<Rightarrow> u64 \<Rightarrow> u128 \<Rightarrow> u32 \<Rightarrow> f64 \<Rightarrow> transaction list \<Rightarrow> block \<Rightarrow> bool" where
  "assembled X B prev_hash height now parent_work difficulty work_score transactions b \<longleftrightarrow>
     (let h = blk_header b; r = blk_solution_reveal b in
      bh_height h = height \<and> bh_prev_hash h = prev_hash \<and> bh_timestamp h = block_timestamp now height \<and>
      bh_work_score h = work_score \<and> bh_transactions_root h = merkle_root X B transactions \<and>
      header_digits difficulty \<le> leading_zero_digits (header_hash X B h) \<and>
      blk_transactions b = transactions \<and> cb_height (blk_coinbase b) = height \<and>
      cb_reward (blk_coinbase b) = calculate_block_reward work_score parent_work \<and>
      solution_verify (sr_solution r) (sr_problem r) \<and>
      sr_commitment r = commit_create X (core_codec (tx_codec_of B)) (sr_problem r) (sr_solution r) prev_hash)"

lemma build_block_assembled:
  assumes "build_block_from_solution F X B now prev_hash height addr problem sol solve_time work_score W difficulty txs
    = Some (Some b)"
  shows "assembled X B prev_hash height now W difficulty work_score txs b"
proof -
  from assms obtain header mined hsh where v: "solution_verify sol problem"
    and c: "candidate_header F X B now 1 height prev_hash txs problem sol solve_time 100000 work_score addr = Some header"
    and m: "mine_header_blocking X B header difficulty = Some (mined, hsh)"
    and b: "b = \<lparr>blk_header = mined, blk_coinbase = coinbase_new addr (calculate_block_reward (bh_work_score mined) W) height,
      blk_transactions = txs,
      blk_solution_reveal = \<lparr>sr_problem = problem, sr_solution = sol, sr_commitment = bh_commitment header\<rparr>\<rparr>"
    by (auto simp: build_block_from_solution_def bind_eq_Some_conv split: if_splits)
  from mined_header[OF m] c v show ?thesis
    by (auto simp: b assembled_def candidate_header_def Let_def coinbase_new_def)
qed

lemma mine_block_assembled:
  assumes "mine_block E K prev_hash height W txs m = Some (Some b, m')"
  shows "\<exists>work_score. assembled (mx_crypto E) (mx_codec E) prev_hash height (mk_now K) W (mn_difficulty m) work_score txs b \<and>
    \<not> f_lt work_score f_zero"
proof -
  let ?X = "mx_crypto E" let ?B = "mx_codec E" let ?addr = "mg_miner_address (mn_config m)"
  obtain a r where loop: "attempt_loop E K height prev_hash (MAX_MINING_ATTEMPTS - 1) (mn_adjuster m) = (a, r)"
    by (cases "attempt_loop E K height prev_hash (MAX_MINING_ATTEMPTS - 1) (mn_adjuster m)")
  with assms obtain problem sol st where r: "r = Some (problem, sol, st)" by (cases r) (auto simp: mine_block_def)
  from assms loop r obtain ws header mined hsh where v: "solution_verify sol problem"
    and ws: "calculate_from_solution (mx_float E) problem sol st (mk_verify_time K) = Some ws"
    and c: "candidate_header (mx_float E) ?X ?B (mk_now K) (block_version_for_height (mn_config m) height) height prev_hash txs
      problem sol st (mk_verify_time K) ws ?addr = Some header"
    and mh: "mine_header_blocking ?X ?B header (mn_difficulty m) = Some (mined, hsh)"
    and b: "b = \<lparr>blk_header = mined, blk_coinbase = coinbase_new ?addr (calculate_block_reward (bh_work_score mined) W) height,
      blk_transactions = txs,
      blk_solution_reveal = \<lparr>sr_problem = problem, sr_solution = sol, sr_commitment = bh_commitment header\<rparr>\<rparr>"
    by (auto simp: mine_block_def Let_def bind_eq_Some_conv split: if_splits option.splits)
  have "\<not> f_lt ws f_zero"
  proof (cases "ws = FNaN")
    case False
    then have "f_le f_zero ws" using ws work_calculate_nonneg by (auto simp: calculate_from_solution_def)
    then show ?thesis by (cases ws) (auto simp: f_zero_def)
  qed (simp add: f_zero_def)
  moreover from mined_header[OF mh] c v
  have "assembled ?X ?B prev_hash height (mk_now K) W (mn_difficulty m) ws txs b"
    by (auto simp: b assembled_def candidate_header_def Let_def coinbase_new_def)
  ultimately show ?thesis by blast
qed

lemma assembled_accepted:
  assumes a: "assembled X B prev_hash height now W difficulty work_score txs b"
    and d: "unat (bv_min_difficulty v) \<le> 64" "bv_min_difficulty v \<le> difficulty"
    and w: "\<not> f_lt work_score (bv_min_work_score v)"
    and t: "sint (block_timestamp now height) \<le> sint (later + bv_max_timestamp_drift v)"
    and s: "\<forall>tx\<in>set txs. tx_verify_signature X (tx_codec_of B) tx"
  shows "validate_block_with_options X B v later b prev_hash height skip (Some W) = Inr ()"
  using assms header_digits[OF d]
  by (simp add: validate_block_with_options_iff assembled_def Let_def commit_verify_create del: solution_verify.simps)

text \<open>\<open>Block::verify\<close> hashes the transactions twice, the producers once.\<close>

lemma assembled_root:
  assumes "assembled X B prev_hash height now W difficulty work_score [tx] b"
    and "blake3 X (unwrap_or (bincode_transaction (tx_codec_of B) tx) []) \<noteq> blake3 X (hash_as_bytes (tx_hash X (tx_codec_of B) tx))"
  shows "\<not> block_verify X B later b"
  using assms
  by (auto simp: assembled_def Let_def block_verify_iff block_tx_root_def merkle_root_def merkle_new_def
      calculate_root_def hash_new_def)

section \<open>The header difficulty\<close>

lemma adjust_header_difficulty_bounds:
  assumes "unat (mg_min_difficulty (mn_config m)) \<le> 64" "mg_min_difficulty (mn_config m) \<le> mn_difficulty m"
    "unat (mn_difficulty m) \<le> 64"
  shows "mg_min_difficulty (mn_config m) \<le> mn_difficulty (adjust_header_difficulty t m)"
    and "unat (mn_difficulty (adjust_header_difficulty t m)) \<le> 64"
proof -
  have up: "unat (mn_difficulty m + 1) = unat (mn_difficulty m) + 1" using assms(3) unat_add_small[of "mn_difficulty m" 1] by simp
  have down: "unat (if mn_difficulty m = 0 then 0 else mn_difficulty m - 1) \<le> unat (mn_difficulty m)"
    by (auto simp: unat_sub word_le_nat_alt unat_gt_0 Suc_le_eq)
  show "mg_min_difficulty (mn_config m) \<le> mn_difficulty (adjust_header_difficulty t m)"
    using assms up down
    by (auto simp: adjust_header_difficulty_def Let_def word_le_nat_alt HEADER_HASH_HEX_DIGITS_def min_def max_def)
  show "unat (mn_difficulty (adjust_header_difficulty t m)) \<le> 64"
    using assms up down
    by (auto simp: adjust_header_difficulty_def Let_def word_le_nat_alt HEADER_HASH_HEX_DIGITS_def min_def max_def)
qed

section \<open>What the generator produces\<close>

text \<open>What \<open>rand\<close> documents: a draw is in its range, a shuffle is a permutation.\<close>

definition rng_ok :: "'r rng_ext \<Rightarrow> bool" where
  "rng_ok G \<longleftrightarrow> (\<forall>t lo hi r. lo < hi \<longrightarrow> lo \<le> fst (random_range G t lo hi r) \<and> fst (random_range G t lo hi r) < hi) \<and>
     (\<forall>xs r. mset (fst (shuffle_indices G xs r)) = mset xs)"

lemma rng_range: "rng_ok G \<Longrightarrow> lo < hi \<Longrightarrow> lo \<le> fst (random_range G t lo hi r) \<and> fst (random_range G t lo hi r) < hi"
  unfolding rng_ok_def by blast

lemma draws_all:
  assumes "\<And>r. P (fst (f r))"
  shows "length (fst (draws f n r)) = n \<and> (\<forall>x\<in>set (fst (draws f n r)). P x)"
  using assms by (induction n arbitrary: r) (auto split: prod.splits, (metis fst_conv)+)

lemma sum_list_nths: "sum_list (nths xs I) = (\<Sum>i | i < length xs \<and> i \<in> I. xs ! i)" for xs :: "nat list"
proof (induction xs rule: rev_induct)
  case (snoc x xs)
  have "{i. i < length (xs @ [x]) \<and> i \<in> I} = {i. i < length xs \<and> i \<in> I} \<union> (if length xs \<in> I then {length xs} else {})"
    by (auto simp: less_Suc_eq)
  moreover have "(\<Sum>i | i < length xs \<and> i \<in> I. (xs @ [x]) ! i) = (\<Sum>i | i < length xs \<and> i \<in> I. xs ! i)"
    by (intro sum.cong) (auto simp: nth_append)
  ultimately show ?case using snoc by (auto simp: nths_append)
qed simp

lemma can_indices:
  assumes "distinct ks" and "set ks \<subseteq> {0..<length xs}"
  shows "can xs (\<Sum>i\<leftarrow>ks. xs ! i)"
proof -
  have "(\<Sum>i\<leftarrow>ks. xs ! i) = (\<Sum>i\<in>set ks. xs ! i)" using assms(1) by (simp add: sum_list_distinct_conv_sum_set)
  also have "set ks = {i. i < length xs \<and> i \<in> set ks}" using assms(2) by auto
  finally have "(\<Sum>i\<leftarrow>ks. xs ! i) = sum_list (nths xs (set ks))" unfolding sum_list_nths .
  then show ?thesis unfolding can_iff subseq_conv_nths by metis
qed

lemma sum_list_le: "(\<forall>x\<in>set xs. x \<le> b) \<Longrightarrow> sum_list xs \<le> length xs * b" for b :: nat
  by (induction xs) auto

text \<open>A generated subset-sum problem has a solution, positive numbers below 1000, and stays small.\<close>

lemma generate_subset_sum_solvable:
  assumes g: "rng_ok G" and n: "n < 2 ^ 32"
  shows "\<exists>xs t. generate_subset_sum G n r = SubsetSum (map of_nat xs) (of_nat t) \<and> length xs = n \<and>
    (\<forall>x\<in>set xs. 1 \<le> x \<and> x < 1000) \<and> can xs t \<and> small_instance xs t"
proof -
  let ?f = "random_range G DrawI64 1 1000"
  obtain numbers r1 where d: "draws ?f n r = (numbers, r1)" by (cases "draws ?f n r")
  obtain k r2 where k: "random_range G DrawUsize 1 (int (max (min n (n - 1)) 1) + 1) r1 = (k, r2)"
    by (cases "random_range G DrawUsize 1 (int (max (min n (n - 1)) 1) + 1) r1")
  obtain sh r3 where sh: "shuffle_indices G [0..<n] r2 = (sh, r3)" by (cases "shuffle_indices G [0..<n] r2")
  define xs where "xs = map nat numbers"
  define ks where "ks = take (nat k) sh"
  have nums: "length numbers = n" "\<forall>x\<in>set numbers. 1 \<le> x \<and> x < 1000"
    using draws_all[of "\<lambda>x. 1 \<le> x \<and> x < 1000" ?f n r] g d by (auto simp: rng_ok_def)
  have perm: "mset sh = mset [0..<n]" using g sh unfolding rng_ok_def by (metis fst_conv)
  have shp: "distinct sh" "set sh = {0..<n}"
    using mset_eq_setD[OF perm] mset_eq_imp_distinct_iff[OF perm] by simp_all
  have ks: "distinct ks" "set ks \<subseteq> {0..<length xs}"
    using shp nums(1) by (auto simp: ks_def xs_def dest: in_set_takeD)
  have conv: "map of_int numbers = (map of_nat xs :: i64 list)"
    using nums(2) by (auto simp: xs_def) 
  have tgt: "(\<Sum>i\<leftarrow>ks. (map of_nat xs :: i64 list) ! i) = of_nat (\<Sum>i\<leftarrow>ks. xs ! i)"
    using ks(2) by (induction ks) auto
  have c: "can xs (\<Sum>i\<leftarrow>ks. xs ! i)" by (rule can_indices[OF ks])
  have b: "\<forall>x\<in>set xs. 1 \<le> x \<and> x < 1000" using nums(2) by (auto simp: xs_def nat_less_iff le_nat_iff)
  then have "sum_list xs \<le> length xs * 1000" by (intro sum_list_le) auto
  also have "\<dots> < 2 ^ 62" using n nums(1) by (simp add: xs_def)
  finally have small: "sum_list xs < 2 ^ 62" .
  then have "small_instance xs (\<Sum>i\<leftarrow>ks. xs ! i)"
    using can_le[OF c] n nums(1) by (simp add: small_instance_def xs_def)
  moreover have "generate_subset_sum G n r = SubsetSum (map of_nat xs) (of_nat (\<Sum>i\<leftarrow>ks. xs ! i))"
    by (simp only: generate_subset_sum_def d k sh conv tgt Let_def case_prod_conv flip: ks_def)
  ultimately show ?thesis using b c nums(1) by (intro exI[of _ xs] exI) (auto simp: xs_def)
qed

text \<open>Up to 200 numbers, whatever is generated is solved, and not by the heuristic.\<close>

lemma generated_subset_sum_solved:
  assumes g: "rng_ok G" and n: "n \<le> 200"
  shows "\<exists>sol. solve_problem_blocking bs samples elapsed (generate_subset_sum G n r) = Some (Some sol) \<and>
    solution_verify sol (generate_subset_sum G n r)"
proof -
  have "n < 2 ^ 32" using n by simp
  from generate_subset_sum_solvable[OF g this, of r] obtain xs t where
    p: "generate_subset_sum G n r = SubsetSum (map of_nat xs) (of_nat t)" "length xs = n"
      "\<forall>x\<in>set xs. 1 \<le> x \<and> x < 1000" "can xs t" "small_instance xs t" by blast
  have "sum_list xs \<le> length xs * 1000" using p(3) by (intro sum_list_le) auto
  then have "exact_instance xs" using n p(2) by (simp add: exact_instance_def)
  from solve_subset_sum_exact[OF p(5) this, of bs samples] p(4) show ?thesis
    by (auto simp: p(1) solve_problem_blocking_def simp del: solution_verify.simps)
qed

text \<open>A generated distance matrix is square, with distances below 100.\<close>

definition distances_ok :: "nat \<Rightarrow> u64 list list \<Rightarrow> bool" where
  "distances_ok n d \<longleftrightarrow> length d = n \<and> (\<forall>a<n. length (d ! a) = n \<and> (\<forall>b<n. unat (d ! a ! b) < 100))"

lemma set_distance_ok:
  assumes "distances_ok n d" and "i < n" "j < n" "unat v < 100"
  shows "distances_ok n (set_distance i j v d)"
  using assms by (auto simp: distances_ok_def set_distance_def nth_list_update)

lemma draw_distances_ok:
  "rng_ok G \<Longrightarrow> distances_ok n d \<Longrightarrow> \<forall>p\<in>set ps. fst p < n \<and> snd p < n \<Longrightarrow> distances_ok n (draw_distances G ps d r)"
proof (induction G ps d r rule: draw_distances.induct)
  case (2 G i j ps d r)
  obtain v r1 where v: "random_range G DrawU64 1 100 r = (v, r1)" by (cases "random_range G DrawU64 1 100 r")
  have "1 \<le> fst (random_range G DrawU64 1 100 r) \<and> fst (random_range G DrawU64 1 100 r) < 100"
    by (rule rng_range[OF "2.prems"(1)]) simp
  then have v1: "1 \<le> v" "v < 100" by (simp_all add: v)
  have "(of_int v :: u64) = of_nat (nat v)" using v1 by simp
  then have "unat (of_int v :: u64) = nat v" using v1 unat_of_nat_small[of "nat v"] by simp
  then have "unat (of_int v :: u64) < 100" using v1 by simp
  with "2.IH"[OF v[symmetric] refl] "2.prems" show ?case by (simp add: v set_distance_ok)
qed simp

lemma generate_tsp_ok:
  assumes "rng_ok G"
  shows "\<exists>d. generate_tsp G n r = TSP n d \<and> matrix_ok n d"
proof -
  let ?d = "draw_distances G (concat (map (\<lambda>i. map (\<lambda>j. (i, j)) [i + 1..<n]) [0..<n])) (replicate n (replicate n 0)) r"
  have "distances_ok n ?d" by (rule draw_distances_ok[OF assms]) (auto simp: distances_ok_def)
  moreover have "x < - 1" if "unat x < 100" for x :: u64
    using that by (simp add: word_less_nat_alt unat_max_word)
  ultimately have "matrix_ok n ?d"
    by (auto simp: distances_ok_def matrix_ok_def in_set_conv_nth)
  then show ?thesis by (simp add: generate_tsp_def)
qed

text \<open>So mining never panics in the tour search, and finds a tour once the clock has passed the deadline.\<close>

lemma generated_tsp_solved:
  assumes g: "rng_ok G" and n: "0 < n" and stop: "\<forall>k\<ge>m. MINING_TIMEOUT \<le> elapsed k"
  shows "\<exists>sol. solve_problem_blocking bs samples elapsed (generate_tsp G n r) = Some (Some sol) \<and>
    solution_verify sol (generate_tsp G n r)"
proof -
  from generate_tsp_ok[OF g] obtain d where d: "generate_tsp G n r = TSP n d" "matrix_ok n d" by blast
  from solve_tsp_ends[OF d(2), of m "\<lambda>k. MINING_TIMEOUT \<le> elapsed k"] stop n show ?thesis
    by (auto simp: d(1) solve_problem_blocking_def simp del: solution_verify.simps)
qed

text \<open>The seed is the first word of the parent's hash, mixed with the height.\<close>

lemma bit_from_le_bytes:
  "bit (from_le_bytes bs :: 'w::len word) n \<longleftrightarrow> n < LENGTH('w) \<and> n div 8 < length bs \<and> bit (bs ! (n div 8)) (n mod 8)"
proof (induction bs arbitrary: n)
  case (Cons b bs)
  show ?case
  proof (cases "n < 8")
    case True
    then show ?thesis by (auto simp: bit_or_iff bit_push_bit_iff bit_ucast_iff)
  next
    case False
    then have "n div 8 = Suc ((n - 8) div 8)" "n mod 8 = (n - 8) mod 8"
      by (simp_all add: le_div_geq le_mod_geq)
    then show ?thesis using False Cons[of "n - 8"]
      by (auto simp: bit_or_iff bit_push_bit_iff bit_ucast_iff dest: bit_imp_le_length)
  qed
qed simp

end
