(* ===== verification/Consensus_Commit.thy ===== *)
theory Consensus_Commit
  imports Consensus_Miner_Facts CJ_Machine
begin

text \<open>
  The parts of \<open>consensus/src/coordinator\<close> the coordinator is made of: its configuration (\<open>config.rs\<close>), the
  phases of an epoch (\<open>epoch.rs\<close>), the election of a leader (\<open>leader.rs\<close>) and the collection of commits
  (\<open>commit.rs\<close>). Times and durations are nanoseconds, without the overflow of \<open>Duration\<close> (which needs 584
  years). A node id is the number its 32 bytes spell, so that the order of ids is the order of words. The set of
  peers is a finite set (a \<open>BTreeSet\<close>); the hash map of commits is the list of its entries in iteration
  order.
\<close>

section \<open>Configuration\<close>

type_synonym node_id = "256 word"

record coordinator_config =
  cc_salt_duration :: nat
  cc_mine_duration :: nat
  cc_commit_duration :: nat
  cc_seal_duration :: nat
  cc_quorum_threshold :: f64
  cc_stall_timeout :: nat
  cc_max_consecutive_stalls :: u32
  cc_failover_depth :: nat

abbreviation secs :: "nat \<Rightarrow> nat" where "secs n \<equiv> n * 10 ^ 9"

definition coordinator_config_default :: coordinator_config where
  "coordinator_config_default = \<lparr>cc_salt_duration = secs 2, cc_mine_duration = secs 20, cc_commit_duration = secs 5,
     cc_seal_duration = secs 3, cc_quorum_threshold = f_of_rat 0.67, cc_stall_timeout = secs 10,
     cc_max_consecutive_stalls = 3, cc_failover_depth = 3\<rparr>"

definition epoch_duration :: "coordinator_config \<Rightarrow> nat" where
  "epoch_duration c = cc_salt_duration c + cc_mine_duration c + cc_commit_duration c + cc_seal_duration c"

definition max_epoch_duration :: "coordinator_config \<Rightarrow> nat" where
  "max_epoch_duration c = epoch_duration c + cc_stall_timeout c"

datatype config_error = BadQuorumThreshold | BadMineDuration | BadFailoverDepth

definition config_validate :: "coordinator_config \<Rightarrow> config_error + unit" where
  "config_validate c =
     (if f_le (cc_quorum_threshold c) f_zero \<or> f_lt f_one (cc_quorum_threshold c) then Inl BadQuorumThreshold
      else if cc_mine_duration c = 0 then Inl BadMineDuration
      else if cc_failover_depth c = 0 then Inl BadFailoverDepth
      else Inr ())"

section \<open>Epochs\<close>

datatype epoch_phase = SaltPhase | MinePhase | CommitPhase | SealPhase

fun phase_duration :: "coordinator_config \<Rightarrow> epoch_phase \<Rightarrow> nat" where
  "phase_duration c SaltPhase = cc_salt_duration c"
| "phase_duration c MinePhase = cc_mine_duration c"
| "phase_duration c CommitPhase = cc_commit_duration c"
| "phase_duration c SealPhase = cc_seal_duration c"

fun next_phase :: "epoch_phase \<Rightarrow> epoch_phase option" where
  "next_phase SaltPhase = Some MinePhase"
| "next_phase MinePhase = Some CommitPhase"
| "next_phase CommitPhase = Some SealPhase"
| "next_phase SealPhase = None"

record epoch_state =
  es_epoch :: u64
  es_phase :: epoch_phase
  es_phase_start :: nat
  es_epoch_start :: nat
  es_salt :: "256 word option"

definition epoch_state_new_at :: "u64 \<Rightarrow> nat \<Rightarrow> epoch_state" where
  "epoch_state_new_at epoch start = \<lparr>es_epoch = epoch, es_phase = SaltPhase, es_phase_start = start,
     es_epoch_start = start, es_salt = None\<rparr>"

definition phase_elapsed :: "nat \<Rightarrow> epoch_state \<Rightarrow> nat" where
  "phase_elapsed now e = now - es_phase_start e"

definition epoch_elapsed :: "nat \<Rightarrow> epoch_state \<Rightarrow> nat" where
  "epoch_elapsed now e = now - es_epoch_start e"

definition phase_expired :: "nat \<Rightarrow> coordinator_config \<Rightarrow> epoch_state \<Rightarrow> bool" where
  "phase_expired now c e \<longleftrightarrow> phase_duration c (es_phase e) \<le> phase_elapsed now e"

definition is_stalled :: "nat \<Rightarrow> coordinator_config \<Rightarrow> epoch_state \<Rightarrow> bool" where
  "is_stalled now c e \<longleftrightarrow> phase_duration c (es_phase e) + cc_stall_timeout c \<le> phase_elapsed now e"

definition has_exceeded_hard_deadline :: "nat \<Rightarrow> coordinator_config \<Rightarrow> epoch_state \<Rightarrow> bool" where
  "has_exceeded_hard_deadline now c e \<longleftrightarrow>
     cc_salt_duration c + cc_mine_duration c + cc_commit_duration c + cc_seal_duration c + cc_stall_timeout c * 2
       \<le> epoch_elapsed now e"

definition try_advance :: "nat \<Rightarrow> coordinator_config \<Rightarrow> epoch_state \<Rightarrow> epoch_phase option \<times> epoch_state" where
  "try_advance now c e =
     (if \<not> phase_expired now c e then (Some (es_phase e), e)
      else case next_phase (es_phase e) of
          Some next \<Rightarrow> (Some next, e\<lparr>es_phase := next, es_phase_start := now\<rparr>)
        | None \<Rightarrow> (None, e))"

definition force_phase :: "nat \<Rightarrow> epoch_phase \<Rightarrow> epoch_state \<Rightarrow> epoch_state" where
  "force_phase now phase e = e\<lparr>es_phase := phase, es_phase_start := now\<rparr>"

definition set_salt :: "256 word \<Rightarrow> epoch_state \<Rightarrow> epoch_state" where
  "set_salt salt e = e\<lparr>es_salt := Some salt\<rparr>"

section \<open>Leaders\<close>

definition leader_index :: "crypto_ext \<Rightarrow> u64 \<Rightarrow> hash \<Rightarrow> nat \<Rightarrow> nat" where
  "leader_index X epoch prev_hash peer_count =
     (let h = hash_new X (to_le_bytes epoch @ hash_as_bytes prev_hash);
          val = from_le_bytes (take 8 (hash_as_bytes h)) :: u64
      in unat (val mod of_nat peer_count))"

definition elect_leader :: "crypto_ext \<Rightarrow> u64 \<Rightarrow> hash \<Rightarrow> node_id set \<Rightarrow> node_id option" where
  "elect_leader X epoch prev_hash peers =
     (if peers = {} then None
      else index (sorted_list_of_set peers) (leader_index X epoch prev_hash (card peers)))"

definition failover_candidates :: "crypto_ext \<Rightarrow> u64 \<Rightarrow> hash \<Rightarrow> node_id set \<Rightarrow> nat \<Rightarrow> node_id list" where
  "failover_candidates X epoch prev_hash peers depth =
     (if peers = {} then []
      else let primary_idx = leader_index X epoch prev_hash (card peers);
               peer_vec = sorted_list_of_set peers; n = length peer_vec
           in map (\<lambda>offset. peer_vec ! ((primary_idx + offset) mod n)) [1..<min depth (n - 1) + 1])"

definition is_leader :: "crypto_ext \<Rightarrow> node_id \<Rightarrow> u64 \<Rightarrow> hash \<Rightarrow> node_id set \<Rightarrow> bool" where
  "is_leader X node epoch prev_hash peers =
     (case elect_leader X epoch prev_hash peers of Some leader \<Rightarrow> leader = node | None \<Rightarrow> False)"

section \<open>Commits\<close>

text \<open>\<open>f64::to_bits\<close>; a NaN is the canonical one.\<close>

fun f_to_bits :: "f64 \<Rightarrow> u64" where
  "f_to_bits FNaN = 0x7FF8000000000000"
| "f_to_bits (FInf s) = (if s then 0xFFF0000000000000 else 0x7FF0000000000000)"
| "f_to_bits (FFin s m) =
     (let sign = (if s then 2 ^ 63 else 0 :: int) in
      if m = 0 then of_int sign
      else let e = floor_log2 m in
        if e < - 1022 then of_int (sign + \<lfloor>m / pow2 (- 1074)\<rfloor>)
        else of_int (sign + (e + 1023) * 2 ^ 52 + (\<lfloor>m / pow2 (e - 52)\<rfloor> - 2 ^ 52)))"

definition COMMIT_MSG_DOMAIN :: bytes where
  "COMMIT_MSG_DOMAIN = map (\<lambda>c. of_nat (of_char c)) ''COINJECT_COMMIT_V1''"

definition commit_signing_message :: "u64 \<Rightarrow> 256 word \<Rightarrow> f64 \<Rightarrow> bytes" where
  "commit_signing_message epoch solution_hash work_score =
     COMMIT_MSG_DOMAIN @ to_le_bytes epoch @ be_bytes solution_hash @ to_le_bytes (f_to_bits work_score)"

record solution_commit =
  sc_node_id :: node_id
  sc_public_key :: "256 word"
  sc_solution_hash :: "256 word"
  sc_work_score :: f64
  sc_signature :: bytes

text \<open>The signature the bytes spell, for \<open>Signature::from_bytes\<close>.\<close>

definition signature_of_bytes :: "bytes \<Rightarrow> 512 word" where
  "signature_of_bytes bs = from_le_bytes (rev bs)"

text \<open>\<open>unsigned_ok\<close>: the crate is built with the feature \<open>allow-unsigned-commits\<close>, as the node does.\<close>

definition verify_commit_signature :: "crypto_ext \<Rightarrow> bool \<Rightarrow> u64 \<Rightarrow> solution_commit \<Rightarrow> bool" where
  "verify_commit_signature X unsigned_ok epoch c =
     (if sc_public_key c = 0 \<or> sc_signature c = [] then unsigned_ok
      else if \<not> vk_from_bytes_ok X (sc_public_key c) then False
      else if length (sc_signature c) \<noteq> 64 then False
      else vk_verify X (sc_public_key c) (commit_signing_message epoch (sc_solution_hash c) (sc_work_score c))
             (signature_of_bytes (sc_signature c)))"

record commit_collector =
  cl_epoch :: u64
  cl_commits :: "(node_id \<times> solution_commit) list"

definition collector_new :: "u64 \<Rightarrow> commit_collector" where
  "collector_new epoch = \<lparr>cl_epoch = epoch, cl_commits = []\<rparr>"

definition add_commit :: "crypto_ext \<Rightarrow> bool \<Rightarrow> solution_commit \<Rightarrow> commit_collector \<Rightarrow> bool \<times> commit_collector" where
  "add_commit X unsigned_ok c cl =
     (if \<not> is_finite (sc_work_score c) \<or> f_le (sc_work_score c) f_zero then (False, cl)
      else if \<not> verify_commit_signature X unsigned_ok (cl_epoch cl) c then (False, cl)
      else case map_of (cl_commits cl) (sc_node_id c) of
          None \<Rightarrow> (True, cl\<lparr>cl_commits := cl_commits cl @ [(sc_node_id c, c)]\<rparr>)
        | Some _ \<Rightarrow> (False, cl))"

definition commit_count :: "commit_collector \<Rightarrow> nat" where
  "commit_count cl = length (cl_commits cl)"

definition required_commits :: "nat \<Rightarrow> f64 \<Rightarrow> nat" where
  "required_commits peer_count threshold = unat (f_to_word (f_ceil (f_mul (f_of_nat peer_count) threshold)) :: u64)"

definition has_quorum :: "nat \<Rightarrow> f64 \<Rightarrow> commit_collector \<Rightarrow> bool" where
  "has_quorum peer_count threshold cl =
     (if peer_count = 0 then False else required_commits peer_count threshold \<le> length (cl_commits cl))"

datatype ordering = Less | Equal | Greater

definition score_cmp :: "f64 \<Rightarrow> f64 \<Rightarrow> ordering" where
  "score_cmp a b = (if f_lt a b then Less else if f_lt b a then Greater else Equal)"

definition id_cmp :: "node_id \<Rightarrow> node_id \<Rightarrow> ordering" where
  "id_cmp a b = (if a < b then Less else if b < a then Greater else Equal)"

definition then_with :: "ordering \<Rightarrow> ordering \<Rightarrow> ordering" where
  "then_with o1 o2 = (if o1 = Equal then o2 else o1)"

definition winner_cmp :: "solution_commit \<Rightarrow> solution_commit \<Rightarrow> ordering" where
  "winner_cmp a b = then_with (score_cmp (sc_work_score a) (sc_work_score b)) (id_cmp (sc_node_id b) (sc_node_id a))"

text \<open>\<open>Iterator::max_by\<close> keeps the last of the maximal elements.\<close>

fun max_by :: "('a \<Rightarrow> 'a \<Rightarrow> ordering) \<Rightarrow> 'a list \<Rightarrow> 'a option" where
  "max_by cmp [] = None"
| "max_by cmp (x # xs) = Some (foldl (\<lambda>a b. if cmp a b = Greater then a else b) x xs)"

definition collector_commits :: "commit_collector \<Rightarrow> solution_commit list" where
  "collector_commits cl = map snd (cl_commits cl)"

definition select_winner :: "commit_collector \<Rightarrow> solution_commit option" where
  "select_winner cl = max_by winner_cmp (collector_commits cl)"

text \<open>\<open>slice::sort_by\<close> is stable; the comparison is a total order on what the collector holds.\<close>

fun insert_by :: "('a \<Rightarrow> 'a \<Rightarrow> ordering) \<Rightarrow> 'a \<Rightarrow> 'a list \<Rightarrow> 'a list" where
  "insert_by cmp x [] = [x]"
| "insert_by cmp x (y # ys) = (if cmp x y = Greater then y # insert_by cmp x ys else x # y # ys)"

definition ranked :: "commit_collector \<Rightarrow> solution_commit list" where
  "ranked cl = foldr (insert_by (\<lambda>a b. then_with (score_cmp (sc_work_score b) (sc_work_score a))
     (id_cmp (sc_node_id a) (sc_node_id b)))) (collector_commits cl) []"

definition get_commit :: "node_id \<Rightarrow> commit_collector \<Rightarrow> solution_commit option" where
  "get_commit node cl = map_of (cl_commits cl) node"

section \<open>Leaders are peers\<close>

lemma leader_index_less:
  assumes "0 < n" and "n < 2 ^ 63"
  shows "leader_index X epoch prev_hash n < n"
proof -
  have n: "unat (of_nat n :: u64) = n" using assms(2) by (rule unat_of_nat_small)
  show ?thesis using assms(1) by (simp add: leader_index_def Let_def unat_mod n)
qed

lemma elect_leader_mem:
  assumes "finite peers" and "card peers < 2 ^ 63"
  shows "elect_leader X epoch prev_hash peers = None \<longleftrightarrow> peers = {}"
    and "elect_leader X epoch prev_hash peers = Some l \<Longrightarrow> l \<in> peers"
proof -
  have i: "leader_index X epoch prev_hash (card peers) < length (sorted_list_of_set peers)" if "peers \<noteq> {}"
    using that assms leader_index_less[of "card peers" X epoch prev_hash] by (simp add: card_gt_0_iff)
  show "elect_leader X epoch prev_hash peers = None \<longleftrightarrow> peers = {}"
    using i by (auto simp: elect_leader_def index_def)
  show "l \<in> peers" if "elect_leader X epoch prev_hash peers = Some l"
  proof -
    have ne: "peers \<noteq> {}" using that by (auto simp: elect_leader_def)
    from nth_mem[OF i[OF this]] show ?thesis
      using that ne i assms(1) by (simp add: elect_leader_def index_def)
  qed
qed

text \<open>The candidates for failover are other peers than the leader, each once.\<close>

lemma failover_candidates_distinct:
  assumes fin: "finite peers" and "card peers < 2 ^ 63" and l: "elect_leader X epoch prev_hash peers = Some l"
  shows "distinct (l # failover_candidates X epoch prev_hash peers depth)"
    and "set (failover_candidates X epoch prev_hash peers depth) \<subseteq> peers"
    and "length (failover_candidates X epoch prev_hash peers depth) = min depth (card peers - 1)"
proof -
  let ?v = "sorted_list_of_set peers" let ?n = "card peers" let ?i = "leader_index X epoch prev_hash ?n"
  have ne: "peers \<noteq> {}" using l by (auto simp: elect_leader_def)
  then have pos: "0 < ?n" using fin by (simp add: card_gt_0_iff)
  have i: "?i < ?n" by (rule leader_index_less[OF pos assms(2)])
  have v: "length ?v = ?n" "distinct ?v" "set ?v = peers" using fin by simp_all
  have lv: "l = ?v ! ?i" using l ne i v(1) by (simp add: elect_leader_def index_def)
  let ?f = "\<lambda>k. ?v ! ((?i + k) mod ?n)"
  have fc: "failover_candidates X epoch prev_hash peers depth = map ?f [1..<min depth (?n - 1) + 1]"
    using ne by (simp add: failover_candidates_def Let_def)
  have inj: "inj_on ?f {0..<?n}"
  proof (rule inj_onI)
    fix a b assume ab: "a \<in> {0..<?n}" "b \<in> {0..<?n}" "?f a = ?f b"
    then have "(?i + a) mod ?n = (?i + b) mod ?n" using v pos by (simp add: nth_eq_iff_index_eq)
    moreover have "(?i + k) mod ?n = (if ?i + k < ?n then ?i + k else ?i + k - ?n)" if "k < ?n" for k
      using that i by (simp add: le_mod_geq)
    ultimately show "a = b" using ab i by (auto split: if_splits)
  qed
  have all: "distinct (map ?f [0..<?n])" using inj by (simp add: distinct_map)
  have l0: "l # map ?f [1..<min depth (?n - 1) + 1] = map ?f [0..<min depth (?n - 1) + 1]"
    using i lv by (subst (2) upt_conv_Cons) simp_all
  have "set [0..<min depth (?n - 1) + 1] \<subseteq> {0..<?n}" using pos by auto
  from inj_on_subset[OF inj this] have "distinct (map ?f [0..<min depth (?n - 1) + 1])"
    by (simp only: distinct_map distinct_upt simp_thms)
  then show "distinct (l # failover_candidates X epoch prev_hash peers depth)" unfolding fc l0 .
  show "set (failover_candidates X epoch prev_hash peers depth) \<subseteq> peers"
  proof -
    have "?f k \<in> peers" for k
    proof -
      have "(?i + k) mod ?n < length ?v" using pos v(1) by simp
      from nth_mem[OF this] show ?thesis unfolding v(3) .
    qed
    then show ?thesis unfolding fc by (simp only: set_map) blast
  qed
  show "length (failover_candidates X epoch prev_hash peers depth) = min depth (?n - 1)"
    by (simp only: fc length_map length_upt add_diff_cancel_right')
qed

section \<open>What the collector holds\<close>

definition commit_ok :: "crypto_ext \<Rightarrow> bool \<Rightarrow> u64 \<Rightarrow> solution_commit \<Rightarrow> bool" where
  "commit_ok X unsigned_ok epoch c \<longleftrightarrow> is_finite (sc_work_score c) \<and> 0 < f_val (sc_work_score c) \<and>
     verify_commit_signature X unsigned_ok epoch c"

definition collector_ok :: "crypto_ext \<Rightarrow> bool \<Rightarrow> commit_collector \<Rightarrow> bool" where
  "collector_ok X unsigned_ok cl \<longleftrightarrow> distinct (map fst (cl_commits cl)) \<and>
     (\<forall>(n, c)\<in>set (cl_commits cl). sc_node_id c = n \<and> commit_ok X unsigned_ok (cl_epoch cl) c)"

lemma collector_ok_new: "collector_ok X u (collector_new e)"
  by (simp add: collector_ok_def collector_new_def)

lemma add_commit_ok: "collector_ok X u cl \<Longrightarrow> collector_ok X u (snd (add_commit X u c cl))"
proof -
  assume ok: "collector_ok X u cl"
  have "0 < f_val (sc_work_score c)" if "is_finite (sc_work_score c)" "\<not> f_le (sc_work_score c) f_zero"
    using that by (cases "sc_work_score c") (auto simp: f_zero_def)
  then show ?thesis using ok
    by (auto simp: add_commit_def collector_ok_def commit_ok_def map_of_eq_None_iff split: option.splits)
qed

lemma add_commit_epoch [simp]: "cl_epoch (snd (add_commit X u c cl)) = cl_epoch cl"
  by (simp add: add_commit_def split: option.split)

text \<open>An accepted commit is found; a second one of the same node never replaces the first.\<close>

lemma add_commit_get:
  "get_commit n (snd (add_commit X u c cl)) =
     (if fst (add_commit X u c cl) \<and> n = sc_node_id c then Some c else get_commit n cl)"
  by (auto simp: add_commit_def get_commit_def map_add_def split: option.splits)

lemma add_commit_keeps: "get_commit n cl = Some d \<Longrightarrow> get_commit n (snd (add_commit X u c cl)) = Some d"
  by (auto simp: add_commit_def get_commit_def map_add_def split: option.splits)

text \<open>Commits that are accepted under a non-zero key carry a signature of that key over epoch, hash and score.\<close>

lemma add_commit_signed:
  assumes "fst (add_commit X u c cl)" and "u = False \<or> sc_public_key c \<noteq> 0 \<and> sc_signature c \<noteq> []"
  shows "vk_verify X (sc_public_key c) (commit_signing_message (cl_epoch cl) (sc_solution_hash c) (sc_work_score c))
    (signature_of_bytes (sc_signature c))"
proof -
  have "verify_commit_signature X u (cl_epoch cl) c"
    using assms(1) by (simp add: add_commit_def split: if_splits)
  with assms(2) show ?thesis unfolding verify_commit_signature_def by (metis (full_types))
qed

text \<open>Abstractly a collector is a map from nodes to commits that takes the first valid commit of each node.\<close>

definition collected :: "commit_collector \<Rightarrow> u64 \<times> (node_id \<Rightarrow> solution_commit option)" where
  "collected cl = (cl_epoch cl, \<lambda>n. get_commit n cl)"

definition spec_commit ::
  "crypto_ext \<Rightarrow> bool \<Rightarrow> u64 \<times> (node_id \<Rightarrow> solution_commit option) \<Rightarrow> solution_commit \<Rightarrow> u64 \<times> (node_id \<Rightarrow> solution_commit option)" where
  "spec_commit X u p c =
     (if commit_ok X u (fst p) c \<and> snd p (sc_node_id c) = None then (fst p, (snd p)(sc_node_id c \<mapsto> c)) else p)"

lemma add_commit_accepts:
  "fst (add_commit X u c cl) \<longleftrightarrow> commit_ok X u (cl_epoch cl) c \<and> get_commit (sc_node_id c) cl = None"
  by (cases "sc_work_score c") (auto simp: add_commit_def commit_ok_def get_commit_def f_zero_def split: option.splits)

interpretation collector: simulation "collector_ok X u" collected "\<lambda>_ _. True" "\<lambda>cl c. snd (add_commit X u c cl)" "spec_commit X u"
  for X u
proof unfold_locales
  fix cl c assume "collector_ok X u cl"
  then show "collector_ok X u (snd (add_commit X u c cl))" by (rule add_commit_ok)
  show "collected (snd (add_commit X u c cl)) = spec_commit X u (collected cl) c"
    by (auto simp: collected_def spec_commit_def fun_eq_iff add_commit_get add_commit_accepts)
qed

section \<open>The winner\<close>

definition beats :: "solution_commit \<Rightarrow> solution_commit \<Rightarrow> bool" where
  "beats a b \<longleftrightarrow> f_val (sc_work_score b) < f_val (sc_work_score a) \<or>
     f_val (sc_work_score b) = f_val (sc_work_score a) \<and> sc_node_id a \<le> sc_node_id b"

lemma beats_refl: "beats a a" and beats_linear: "beats a b \<or> beats b a"
  and beats_trans: "beats a b \<Longrightarrow> beats b c \<Longrightarrow> beats a c"
  by (auto simp: beats_def)

lemma f_lt_val: "is_finite a \<Longrightarrow> is_finite b \<Longrightarrow> f_lt a b \<longleftrightarrow> f_val a < f_val b"
  by (cases a; cases b) auto

lemma winner_cmp_greater:
  assumes "is_finite (sc_work_score a)" and "is_finite (sc_work_score b)"
  shows "winner_cmp a b = Greater \<longleftrightarrow> \<not> beats b a"
  using assms by (auto simp: winner_cmp_def then_with_def score_cmp_def id_cmp_def beats_def f_lt_val)

abbreviation best_of :: "solution_commit \<Rightarrow> solution_commit list \<Rightarrow> solution_commit" where
  "best_of x xs \<equiv> foldl (\<lambda>a b. if winner_cmp a b = Greater then a else b) x xs"

lemma max_fold:
  "\<forall>c\<in>set (x # xs). is_finite (sc_work_score c) \<Longrightarrow> best_of x xs \<in> set (x # xs) \<and> (\<forall>c\<in>set (x # xs). beats (best_of x xs) c)"
proof (induction xs arbitrary: x)
  case (Cons y ys)
  define m where "m = (if winner_cmp x y = Greater then x else y)"
  have m: "beats m x" "beats m y" "m = x \<or> m = y"
    using Cons.prems winner_cmp_greater[of x y] beats_refl[of x] beats_refl[of y] beats_linear[of x y] by (auto simp: m_def)
  have "\<forall>c\<in>set (m # ys). is_finite (sc_work_score c)" using Cons.prems m(3) by auto
  moreover obtain r where r: "r = best_of m ys" by blast
  ultimately have in_r: "r \<in> set (m # ys)" and all: "\<forall>c\<in>set (m # ys). beats r c" using Cons.IH[of m] by simp_all
  have step: "best_of x (y # ys) = r" by (simp add: m_def r)
  have "beats r x" "beats r y" using all m(1,2) beats_trans by (meson list.set_intros(1))+
  with all have "\<forall>c\<in>set (x # y # ys). beats r c" by simp
  moreover have "r \<in> set (x # y # ys)" using in_r m(3) by auto
  ultimately show ?case unfolding step by blast
qed (simp add: beats_refl)

lemma select_winner_spec:
  assumes ok: "collector_ok X u cl"
  shows "(select_winner cl = None \<longleftrightarrow> cl_commits cl = []) \<and>
    (\<forall>w. select_winner cl = Some w \<longleftrightarrow> w \<in> set (collector_commits cl) \<and> (\<forall>c\<in>set (collector_commits cl). beats w c))"
proof (cases "collector_commits cl")
  case Nil
  then show ?thesis by (simp add: select_winner_def collector_commits_def)
next
  case (Cons x xs)
  have fin: "\<forall>c\<in>set (x # xs). is_finite (sc_work_score c)"
    using ok unfolding Cons[symmetric] by (auto simp: collector_ok_def collector_commits_def commit_ok_def)
  have uniq: "a = b" if "a \<in> set (collector_commits cl)" "b \<in> set (collector_commits cl)" "beats a b" "beats b a" for a b
  proof -
    have "sc_node_id a = sc_node_id b" using that(3,4) by (auto simp: beats_def)
    then have "(sc_node_id a, a) \<in> set (cl_commits cl)" "(sc_node_id a, b) \<in> set (cl_commits cl)"
      using that(1,2) ok by (auto simp: collector_commits_def collector_ok_def)
    then show ?thesis using ok unfolding collector_ok_def by (metis eq_key_imp_eq_value)
  qed
  obtain r where r: "select_winner cl = Some r" "r \<in> set (collector_commits cl)" "\<forall>c\<in>set (collector_commits cl). beats r c"
    using max_fold[OF fin] by (simp add: select_winner_def Cons)
  have "cl_commits cl \<noteq> []" using Cons by (auto simp: collector_commits_def)
  then show ?thesis using r uniq by auto
qed

text \<open>So the winner does not depend on the order in which a hash map is walked: nodes that hold the same commits
  agree.\<close>

lemma select_winner_agree:
  assumes "collector_ok X u a" and "collector_ok X u b" and "set (cl_commits a) = set (cl_commits b)"
  shows "select_winner a = select_winner b"
proof -
  have "set (collector_commits a) = set (collector_commits b)" using assms(3) by (simp add: collector_commits_def)
  then have "select_winner a = Some w \<longleftrightarrow> select_winner b = Some w" for w
    using select_winner_spec[OF assms(1)] select_winner_spec[OF assms(2)] by metis
  then show ?thesis by (metis option.exhaust)
qed

section \<open>Signed commits\<close>

lemma from_le_bytes_to_le_bytes:
  assumes d: "8 dvd LENGTH('w::len)"
  shows "from_le_bytes (to_le_bytes (w :: 'w word)) = w"
proof (rule bit_word_eqI)
  fix n assume n: "n < LENGTH('w)"
  then have "n div 8 < LENGTH('w) div 8" using d by (auto elim!: dvdE)
  then have "to_le_bytes w ! (n div 8) = ucast (drop_bit (8 * (n div 8)) w)" by (simp add: to_le_bytes_def)
  then show "bit (from_le_bytes (to_le_bytes w) :: 'w word) n = bit w n"
    using n \<open>n div 8 < LENGTH('w) div 8\<close> by (simp add: bit_from_le_bytes bit_ucast_iff bit_drop_bit_eq)
qed

lemma signature_of_be_bytes [simp]: "signature_of_bytes (be_bytes w) = w"
  by (simp add: signature_of_bytes_def be_bytes_def from_le_bytes_to_le_bytes)

text \<open>The message fixes the epoch, the hash and the bits of the score; it does not mention the node.\<close>

lemma signing_message_inject:
  "commit_signing_message e h w = commit_signing_message e' h' w' \<longleftrightarrow> e = e' \<and> h = h' \<and> f_to_bits w = f_to_bits w'"
  by (auto simp: commit_signing_message_def to_le_bytes_inject be_bytes_inject)

definition signed_commit :: "crypto_ext \<Rightarrow> 256 word \<Rightarrow> u64 \<Rightarrow> node_id \<Rightarrow> 256 word \<Rightarrow> f64 \<Rightarrow> solution_commit" where
  "signed_commit X sk epoch node solution_hash work_score = \<lparr>sc_node_id = node, sc_public_key = verifying_key X sk,
     sc_solution_hash = solution_hash, sc_work_score = work_score,
     sc_signature = be_bytes (sk_sign X sk (commit_signing_message epoch solution_hash work_score))\<rparr>"

text \<open>Whoever holds some key signs for whatever node id: nothing ties the key to the node.\<close>

lemma signed_commit_verifies:
  assumes "signing_correct X" and "verifying_key X sk \<noteq> 0"
  shows "verify_commit_signature X u epoch (signed_commit X sk epoch node solution_hash work_score)"
proof -
  have "be_bytes w \<noteq> []" for w :: "512 word"
  proof
    assume "be_bytes w = []"
    then have "length (be_bytes w) = 0" by simp
    then show False by simp
  qed
  then show ?thesis using assms by (simp add: verify_commit_signature_def signed_commit_def signing_correct_def)
qed

text \<open>A Sybil: one key commits in the names of as many nodes as the quorum asks for.\<close>

lemma sybil_quorum:
  assumes "signing_correct X" and "verifying_key X sk \<noteq> 0" and "distinct nodes"
    and "is_finite w" "0 < f_val w"
  shows "map fst (cl_commits (fold (\<lambda>n cl. snd (add_commit X u (signed_commit X sk epoch n h w) cl)) nodes (collector_new epoch))) = nodes"
  using assms(3)
proof (induction nodes rule: rev_induct)
  case (snoc n ns)
  let ?cl = "fold (\<lambda>n cl. snd (add_commit X u (signed_commit X sk epoch n h w) cl)) ns (collector_new epoch)"
  have ep: "cl_epoch ?cl = epoch" by (induction ns rule: rev_induct) (simp_all add: collector_new_def)
  have keys: "map fst (cl_commits ?cl) = ns" using snoc by simp
  then have "n \<notin> set (map fst (cl_commits ?cl))" using snoc.prems by simp
  then have "map_of (cl_commits ?cl) n = None" by (simp add: map_of_eq_None_iff)
  moreover have "\<not> f_le w f_zero" using assms(4,5) by (cases w) (auto simp: f_zero_def)
  ultimately have "cl_commits (snd (add_commit X u (signed_commit X sk epoch n h w) ?cl)) =
      cl_commits ?cl @ [(n, signed_commit X sk epoch n h w)]"
    using assms(1,2,4) signed_commit_verifies[of X sk u epoch n h w] ep
    by (simp add: add_commit_def signed_commit_def)
  then show ?case using keys by simp
qed (simp add: collector_new_def)

end
