(* ===== verification/Consensus_Coordinator.thy ===== *)
theory Consensus_Coordinator
  imports Consensus_Commit
begin

text \<open>
  \<open>consensus/src/coordinator/mod.rs\<close>: the state machine that takes the nodes through Salt, Mine, Commit and Seal.
  A handler reads the clock once (\<open>now\<close>, in nanoseconds); the Unix time of a block it builds is a parameter. The
  events it sends are the list it returns; log messages are left out. An outer \<open>None\<close> is a panic while a
  block is built.
  The second half holds the lemmas on its runs.
\<close>

section \<open>Data\<close>

datatype stall_reason = HardDeadline nat | PhaseTimeout epoch_phase u32

datatype coordinator_event =
    EpochStarted u64 "256 word" node_id
  | MinePhaseStarted u64 "256 word"
  | CommitPhaseStarted u64
  | EpochSealed u64 node_id f64 nat
  | EpochStalled u64 epoch_phase stall_reason
  | BroadcastSalt u64 "256 word"
  | BroadcastCommit u64 "256 word" f64
  | BlockProduced block u64

datatype coordinator_command =
    SaltReceived u64 "256 word" node_id
  | LocalSolutionReady u64 "256 word" f64 problem_type solution nat
  | CommitReceived u64 solution_commit
  | PeerJoined node_id
  | PeerLeft node_id
  | ChainTipUpdated u64 hash u128

record coordinator_state =
  cs_epoch :: u64
  cs_phase :: epoch_phase
  cs_leader :: "node_id option"
  cs_commit_count :: nat
  cs_peer_count :: nat

record local_solution =
  ls_problem :: problem_type
  ls_solution :: solution
  ls_work_score :: f64
  ls_solve_time :: nat

record coordinator =
  co_our_id :: node_id
  co_config :: coordinator_config
  co_peers :: "node_id set"
  co_epoch_state :: epoch_state
  co_collector :: commit_collector
  co_chain_height :: u64
  co_chain_hash :: hash
  co_tip_cumulative_work :: u128
  co_miner_address :: address
  co_local_solution :: "local_solution option"
  co_consecutive_stalls :: u32
  co_shared_state :: coordinator_state
  co_signing_key :: "256 word option"

text \<open>What the handlers take from outside: floats, hashes and signatures, serialisation, the Unix time, and whether
  unsigned commits are let through.\<close>

record coordinator_ext =
  cx_float :: float_ext
  cx_crypto :: crypto_ext
  cx_codec :: block_codec
  cx_unix :: u64
  cx_unsigned_ok :: bool

section \<open>Construction\<close>

definition with_signing_key ::
  "nat \<Rightarrow> node_id \<Rightarrow> coordinator_config \<Rightarrow> u64 \<Rightarrow> hash \<Rightarrow> u128 \<Rightarrow> address \<Rightarrow> 256 word option \<Rightarrow> coordinator" where
  "with_signing_key now our_id config chain_height chain_hash tip_cumulative_work miner_address key =
     \<lparr>co_our_id = our_id, co_config = config, co_peers = {}, co_epoch_state = epoch_state_new_at 0 now,
      co_collector = collector_new 0, co_chain_height = chain_height, co_chain_hash = chain_hash,
      co_tip_cumulative_work = tip_cumulative_work, co_miner_address = miner_address, co_local_solution = None,
      co_consecutive_stalls = 0,
      co_shared_state = \<lparr>cs_epoch = 0, cs_phase = SaltPhase, cs_leader = None, cs_commit_count = 0, cs_peer_count = 0\<rparr>,
      co_signing_key = key\<rparr>"

definition with_miner_address ::
  "nat \<Rightarrow> node_id \<Rightarrow> coordinator_config \<Rightarrow> u64 \<Rightarrow> hash \<Rightarrow> u128 \<Rightarrow> address \<Rightarrow> coordinator" where
  "with_miner_address now our_id config chain_height chain_hash tip_cumulative_work miner_address =
     with_signing_key now our_id config chain_height chain_hash tip_cumulative_work miner_address None"

definition coordinator_new :: "nat \<Rightarrow> node_id \<Rightarrow> coordinator_config \<Rightarrow> u64 \<Rightarrow> hash \<Rightarrow> u128 \<Rightarrow> coordinator" where
  "coordinator_new now our_id config chain_height chain_hash tip_cumulative_work =
     with_miner_address now our_id config chain_height chain_hash tip_cumulative_work (Address our_id)"

section \<open>Handlers\<close>

definition phase_time_remaining :: "nat \<Rightarrow> coordinator \<Rightarrow> nat" where
  "phase_time_remaining now co =
     phase_duration (co_config co) (es_phase (co_epoch_state co)) - phase_elapsed now (co_epoch_state co)"

definition derive_salt :: "crypto_ext \<Rightarrow> u64 \<Rightarrow> coordinator \<Rightarrow> 256 word" where
  "derive_salt X epoch co = hash_word (hash_new X (to_le_bytes epoch @ hash_as_bytes (co_chain_hash co)))"

definition start_epoch :: "crypto_ext \<Rightarrow> nat \<Rightarrow> u64 \<Rightarrow> coordinator \<Rightarrow> coordinator_event list \<times> coordinator" where
  "start_epoch X now epoch co =
     (let salt = derive_salt X epoch co;
          co' = co\<lparr>co_epoch_state := set_salt salt (epoch_state_new_at epoch now), co_collector := collector_new epoch,
                  co_local_solution := None, co_consecutive_stalls := 0\<rparr>
      in (case elect_leader X epoch (co_chain_hash co) (co_peers co) of
            None \<Rightarrow> []
          | Some leader_id \<Rightarrow> EpochStarted epoch salt leader_id #
              (if leader_id = co_our_id co then [BroadcastSalt epoch salt] else []), co'))"

definition take_local_solution :: "coordinator \<Rightarrow> coordinator" where
  "take_local_solution co = co\<lparr>co_local_solution := None\<rparr>"

text \<open>The tip after a block of our own.\<close>

definition advance_tip :: "crypto_ext \<Rightarrow> block_codec \<Rightarrow> block \<Rightarrow> coordinator \<Rightarrow> coordinator" where
  "advance_tip X B b co =
     co\<lparr>co_chain_height := co_chain_height co + 1, co_chain_hash := header_hash X B (blk_header b),
        co_tip_cumulative_work := saturating_add_word (co_tip_cumulative_work co)
          (ucast (f_to_word (f_max (bh_work_score (blk_header b)) f_zero) :: u64))\<rparr>"

definition handle_seal :: "coordinator_ext \<Rightarrow> coordinator \<Rightarrow> (coordinator_event list \<times> coordinator) option" where
  "handle_seal E co =
     (let epoch = es_epoch (co_epoch_state co) in
      if has_quorum (card (co_peers co)) (cc_quorum_threshold (co_config co)) (co_collector co) then
        (case select_winner (co_collector co) of None \<Rightarrow> Some ([], co)
         | Some winner \<Rightarrow>
             (let sealed = EpochSealed epoch (sc_node_id winner) (sc_work_score winner) (commit_count (co_collector co)) in
              if sc_node_id winner = co_our_id co then
                (case co_local_solution co of None \<Rightarrow> Some ([sealed], co)
                 | Some local \<Rightarrow>
                     (let co1 = take_local_solution co in
                      case build_block_from_solution (cx_float E) (cx_crypto E) (cx_codec E) (cx_unix E) (co_chain_hash co1)
                          (co_chain_height co1 + 1) (co_miner_address co1) (ls_problem local) (ls_solution local)
                          (ls_solve_time local) (ls_work_score local) (co_tip_cumulative_work co1) 1 [] of
                        None \<Rightarrow> None
                      | Some None \<Rightarrow> Some ([sealed], co1)
                      | Some (Some b) \<Rightarrow> Some ([sealed, BlockProduced b epoch], advance_tip (cx_crypto E) (cx_codec E) b co1)))
              else Some ([sealed], co)))
      else Some ([], co))"

definition handle_stall :: "crypto_ext \<Rightarrow> nat \<Rightarrow> coordinator \<Rightarrow> coordinator_event list \<times> coordinator" where
  "handle_stall X now co =
     (let epoch = es_epoch (co_epoch_state co); phase = es_phase (co_epoch_state co);
          stalls = co_consecutive_stalls co + 1;
          co1 = co\<lparr>co_consecutive_stalls := stalls\<rparr>;
          co2 = (if cc_max_consecutive_stalls (co_config co1) \<le> stalls then co1\<lparr>co_consecutive_stalls := 0\<rparr> else co1);
          (events, co3) = start_epoch X now (epoch + 1) co2
      in (EpochStalled epoch phase (PhaseTimeout phase stalls) # events, co3))"

definition handle_phase_expiry :: "coordinator_ext \<Rightarrow> nat \<Rightarrow> coordinator \<Rightarrow> (coordinator_event list \<times> coordinator) option" where
  "handle_phase_expiry E now co =
     (let st = co_epoch_state co; current_phase = es_phase st; epoch = es_epoch st; X = cx_crypto E in
      if has_exceeded_hard_deadline now (co_config co) st then
        (let (events, co') = start_epoch X now (epoch + 1) (co\<lparr>co_consecutive_stalls := co_consecutive_stalls co + 1\<rparr>)
         in Some (EpochStalled epoch current_phase (HardDeadline (epoch_elapsed now st div 10 ^ 6)) # events, co'))
      else if is_stalled now (co_config co) st then Some (handle_stall X now co)
      else case try_advance now (co_config co) st of
          (None, st') \<Rightarrow> Some (start_epoch X now (epoch + 1) (co\<lparr>co_epoch_state := st'\<rparr>))
        | (Some new_phase, st') \<Rightarrow>
            (let co' = co\<lparr>co_epoch_state := st'\<rparr> in
             if new_phase = current_phase then Some ([], co')
             else case new_phase of
                 MinePhase \<Rightarrow> Some (case es_salt st' of Some salt \<Rightarrow> [MinePhaseStarted epoch salt] | None \<Rightarrow> [], co')
               | CommitPhase \<Rightarrow> Some ([CommitPhaseStarted epoch], co')
               | SealPhase \<Rightarrow> handle_seal E co'
               | SaltPhase \<Rightarrow> Some ([], co')))"

definition handle_command :: "coordinator_ext \<Rightarrow> coordinator_command \<Rightarrow> coordinator \<Rightarrow> coordinator_event list \<times> coordinator" where
  "handle_command E command co = (let X = cx_crypto E; st = co_epoch_state co in
     case command of
       SaltReceived epoch salt sender \<Rightarrow>
         if epoch \<noteq> es_epoch st then ([], co)
         else (case elect_leader X epoch (co_chain_hash co) (co_peers co) of
             Some expected_leader \<Rightarrow> if sender \<noteq> expected_leader then ([], co)
               else ([], co\<lparr>co_epoch_state := set_salt salt st\<rparr>)
           | None \<Rightarrow> ([], co\<lparr>co_epoch_state := set_salt salt st\<rparr>))
     | LocalSolutionReady epoch solution_hash work_score problem sol solve_time \<Rightarrow>
         if epoch \<noteq> es_epoch st then ([], co)
         else (let (signature, public_key) = (case co_signing_key co of
                   Some sk \<Rightarrow> (be_bytes (sk_sign X sk (commit_signing_message epoch solution_hash work_score)), verifying_key X sk)
                 | None \<Rightarrow> ([], 0));
               commit = \<lparr>sc_node_id = co_our_id co, sc_public_key = public_key, sc_solution_hash = solution_hash,
                         sc_work_score = work_score, sc_signature = signature\<rparr>
           in ([BroadcastCommit epoch solution_hash work_score],
               co\<lparr>co_local_solution := Some \<lparr>ls_problem = problem, ls_solution = sol, ls_work_score = work_score,
                     ls_solve_time = solve_time\<rparr>,
                  co_collector := snd (add_commit X (cx_unsigned_ok E) commit (co_collector co))\<rparr>))
     | CommitReceived epoch commit \<Rightarrow>
         if epoch \<noteq> es_epoch st then ([], co)
         else ([], co\<lparr>co_collector := snd (add_commit X (cx_unsigned_ok E) commit (co_collector co))\<rparr>)
     | PeerJoined node \<Rightarrow> ([], co\<lparr>co_peers := insert node (co_peers co)\<rparr>)
     | PeerLeft node \<Rightarrow> ([], co\<lparr>co_peers := co_peers co - {node}\<rparr>)
     | ChainTipUpdated height h best_cumulative_work \<Rightarrow>
         ([], co\<lparr>co_chain_height := height, co_chain_hash := h, co_tip_cumulative_work := best_cumulative_work\<rparr>))"

definition update_shared_state :: "crypto_ext \<Rightarrow> coordinator \<Rightarrow> coordinator" where
  "update_shared_state X co =
     co\<lparr>co_shared_state := \<lparr>cs_epoch = es_epoch (co_epoch_state co), cs_phase = es_phase (co_epoch_state co),
       cs_leader = elect_leader X (es_epoch (co_epoch_state co)) (co_chain_hash co) (co_peers co),
       cs_commit_count = commit_count (co_collector co), cs_peer_count = card (co_peers co)\<rparr>\<rparr>"

section \<open>The loop\<close>

text \<open>\<open>run\<close>: what the coordinator does before its loop, and one turn of it: the timer of the phase fires, no
  earlier than it was set for, or a command arrives.\<close>

definition run_start :: "crypto_ext \<Rightarrow> nat \<Rightarrow> coordinator \<Rightarrow> coordinator_event list \<times> coordinator" where
  "run_start X now co = start_epoch X now 1 (co\<lparr>co_peers := insert (co_our_id co) (co_peers co)\<rparr>)"

definition timer_turn :: "coordinator_ext \<Rightarrow> nat \<Rightarrow> coordinator \<Rightarrow> (coordinator_event list \<times> coordinator) option" where
  "timer_turn E now co =
     map_option (map_prod id (update_shared_state (cx_crypto E))) (handle_phase_expiry E now co)"

definition command_turn :: "coordinator_ext \<Rightarrow> coordinator_command \<Rightarrow> coordinator \<Rightarrow> coordinator_event list \<times> coordinator" where
  "command_turn E command co = map_prod id (update_shared_state (cx_crypto E)) (handle_command E command co)"

inductive coordinator_run :: "coordinator_ext \<Rightarrow> coordinator \<Rightarrow> coordinator_event list \<Rightarrow> coordinator \<Rightarrow> bool"
  for E co\<^sub>0 where
  start: "run_start (cx_crypto E) now co\<^sub>0 = (events, co) \<Longrightarrow> coordinator_run E co\<^sub>0 events co"
| timer: "coordinator_run E co\<^sub>0 events co \<Longrightarrow> phase_time_remaining now co = 0 \<Longrightarrow>
    timer_turn (E\<lparr>cx_unix := unix\<rparr>) now co = Some (new, co') \<Longrightarrow> coordinator_run E co\<^sub>0 (events @ new) co'"
| command: "coordinator_run E co\<^sub>0 events co \<Longrightarrow> command_turn E command co = (new, co') \<Longrightarrow>
    coordinator_run E co\<^sub>0 (events @ new) co'"

text \<open>
  What the coordinator keeps on every run, how far its timers take it, that nodes with the same commits seal the same
  winner, and that the block of a winner passes the validator at the difficulty it was built for.
\<close>

section \<open>The invariant\<close>

definition coordinator_ok :: "coordinator_ext \<Rightarrow> coordinator \<Rightarrow> bool" where
  "coordinator_ok E co \<longleftrightarrow> finite (co_peers co) \<and> cl_epoch (co_collector co) = es_epoch (co_epoch_state co) \<and>
     collector_ok (cx_crypto E) (cx_unsigned_ok E) (co_collector co) \<and> co_consecutive_stalls co = 0 \<and>
     es_salt (co_epoch_state co) \<noteq> None"

lemma start_epoch_ok: "finite (co_peers co) \<Longrightarrow> start_epoch (cx_crypto E) now epoch co = (events, co') \<Longrightarrow> coordinator_ok E co'"
  by (auto simp: start_epoch_def Let_def coordinator_ok_def collector_ok_def set_salt_def epoch_state_new_at_def
      collector_new_def)

lemma start_epoch_epoch [simp]:
  "es_epoch (co_epoch_state (snd (start_epoch X now epoch co))) = epoch"
  "es_phase (co_epoch_state (snd (start_epoch X now epoch co))) = SaltPhase"
  "co_local_solution (snd (start_epoch X now epoch co)) = None"
  "es_phase_start (co_epoch_state (snd (start_epoch X now epoch co))) = now"
  by (simp_all add: start_epoch_def Let_def set_salt_def epoch_state_new_at_def)

lemma start_epoch_events: "EpochStalled e p r \<notin> set (fst (start_epoch X now epoch co))"
  by (auto simp: start_epoch_def Let_def split: option.splits)

text \<open>Sealing leaves everything alone but the local solution and the tip.\<close>

definition same_epoch :: "coordinator \<Rightarrow> coordinator \<Rightarrow> bool" where
  "same_epoch co co' \<longleftrightarrow> co_peers co' = co_peers co \<and> co_epoch_state co' = co_epoch_state co \<and>
     co_collector co' = co_collector co \<and> co_consecutive_stalls co' = co_consecutive_stalls co \<and>
     co_config co' = co_config co \<and> co_our_id co' = co_our_id co \<and>
     (co_local_solution co' = co_local_solution co \<or> co_local_solution co' = None)"

lemma handle_seal_same: "handle_seal E co = Some (events, co') \<Longrightarrow> same_epoch co co'"
  by (auto simp: handle_seal_def same_epoch_def Let_def take_local_solution_def advance_tip_def split: if_splits option.splits)

lemma handle_seal_events: "handle_seal E co = Some (events, co') \<Longrightarrow> EpochStalled e p r \<notin> set events"
  by (auto simp: handle_seal_def Let_def split: if_splits option.splits)

text \<open>What a fired timer does: it starts the next epoch, stays, or enters the next phase.\<close>

definition moved :: "nat \<Rightarrow> coordinator \<Rightarrow> coordinator \<Rightarrow> bool" where
  "moved now co co' \<longleftrightarrow>
     es_epoch (co_epoch_state co') = es_epoch (co_epoch_state co) + 1 \<and> es_phase (co_epoch_state co') = SaltPhase \<or>
     es_epoch (co_epoch_state co') = es_epoch (co_epoch_state co) \<and>
       next_phase (es_phase (co_epoch_state co)) = Some (es_phase (co_epoch_state co')) \<or>
     \<not> phase_expired now (co_config co) (co_epoch_state co) \<and> co' = co"

lemma next_phase_neq: "next_phase p = Some q \<Longrightarrow> q \<noteq> p"
  by (cases p) auto

lemma expiry_cases:
  assumes "handle_phase_expiry E now co = Some (events, co')"
  obtains (fresh) co1 evs where "start_epoch (cx_crypto E) now (es_epoch (co_epoch_state co) + 1) co1 = (evs, co')"
      "co_peers co1 = co_peers co"
      "\<And>e p q n. EpochStalled e p (PhaseTimeout q n) \<in> set events \<Longrightarrow> n = co_consecutive_stalls co + 1"
    | (seal) st where "next_phase (es_phase (co_epoch_state co)) = Some SealPhase"
      "st = (co_epoch_state co)\<lparr>es_phase := SealPhase, es_phase_start := now\<rparr>"
      "handle_seal E (co\<lparr>co_epoch_state := st\<rparr>) = Some (events, co')"
    | (enter) p where "next_phase (es_phase (co_epoch_state co)) = Some p"
      "co' = co\<lparr>co_epoch_state := (co_epoch_state co)\<lparr>es_phase := p, es_phase_start := now\<rparr>\<rparr>"
      "\<And>e p r. EpochStalled e p r \<notin> set events"
    | (stay) "\<not> phase_expired now (co_config co) (co_epoch_state co)" "co' = co" "events = []"
proof -
  let ?st = "co_epoch_state co" let ?X = "cx_crypto E"
  consider "has_exceeded_hard_deadline now (co_config co) ?st"
    | "\<not> has_exceeded_hard_deadline now (co_config co) ?st" "is_stalled now (co_config co) ?st"
    | "\<not> has_exceeded_hard_deadline now (co_config co) ?st" "\<not> is_stalled now (co_config co) ?st"
      "\<not> phase_expired now (co_config co) ?st"
    | "\<not> has_exceeded_hard_deadline now (co_config co) ?st" "\<not> is_stalled now (co_config co) ?st"
      "phase_expired now (co_config co) ?st" by blast
  then show ?thesis
  proof cases
    case 1
    obtain evs c where s: "start_epoch ?X now (es_epoch ?st + 1) (co\<lparr>co_consecutive_stalls := co_consecutive_stalls co + 1\<rparr>) = (evs, c)"
      by (cases "start_epoch ?X now (es_epoch ?st + 1) (co\<lparr>co_consecutive_stalls := co_consecutive_stalls co + 1\<rparr>)")
    then have "EpochStalled e p r \<notin> set evs" for e p r using start_epoch_events by (metis fst_conv)
    then show ?thesis using 1 assms s
      by (intro fresh[of "co\<lparr>co_consecutive_stalls := co_consecutive_stalls co + 1\<rparr>" evs]) (auto simp: handle_phase_expiry_def Let_def)
  next
    case 2
    define c1 where "c1 = (if cc_max_consecutive_stalls (co_config co) \<le> co_consecutive_stalls co + 1
      then co\<lparr>co_consecutive_stalls := 0\<rparr> else co\<lparr>co_consecutive_stalls := co_consecutive_stalls co + 1\<rparr>)"
    obtain evs c where s: "start_epoch ?X now (es_epoch ?st + 1) c1 = (evs, c)"
      by (cases "start_epoch ?X now (es_epoch ?st + 1) c1")
    then have "EpochStalled e p r \<notin> set evs" for e p r using start_epoch_events by (metis fst_conv)
    moreover have "events = EpochStalled (es_epoch ?st) (es_phase ?st) (PhaseTimeout (es_phase ?st) (co_consecutive_stalls co + 1)) # evs"
      "co' = c"
      using 2 assms s by (auto simp: handle_phase_expiry_def handle_stall_def Let_def c1_def split: if_splits)
    ultimately show ?thesis using s by (intro fresh[of c1 evs]) (auto simp: c1_def)
  next
    case 3
    then show ?thesis using assms by (intro stay) (auto simp: handle_phase_expiry_def try_advance_def Let_def)
  next
    case 4
    show ?thesis
    proof (cases "next_phase (es_phase ?st)")
      case None
      then have "start_epoch ?X now (es_epoch ?st + 1) (co\<lparr>co_epoch_state := ?st\<rparr>) = (events, co')"
        using 4 assms by (auto simp: handle_phase_expiry_def try_advance_def Let_def)
      moreover from this have "EpochStalled e p r \<notin> set events" for e p r using start_epoch_events by (metis fst_conv)
      ultimately show ?thesis by (intro fresh[of "co\<lparr>co_epoch_state := ?st\<rparr>" events]) auto
    next
      case (Some p)
      then have ne: "p \<noteq> es_phase ?st" by (rule next_phase_neq)
      show ?thesis
      proof (cases "p = SealPhase")
        case True
        then show ?thesis using 4 assms Some ne by (intro seal[OF _ refl]) (auto simp: handle_phase_expiry_def try_advance_def Let_def)
      next
        case False
        then show ?thesis using 4 assms Some ne
          by (intro enter[OF Some]; cases p) (auto simp: handle_phase_expiry_def try_advance_def Let_def split: option.splits)
      qed
    qed
  qed
qed

lemma expiry_ok:
  assumes ok: "coordinator_ok E co" and h: "handle_phase_expiry (E\<lparr>cx_unix := unix\<rparr>) now co = Some (events, co')"
  shows "coordinator_ok E co'"
  using h
proof (cases rule: expiry_cases)
  case (fresh co1 evs)
  have "finite (co_peers co1)" using ok fresh(2) by (simp add: coordinator_ok_def)
  with fresh(1) start_epoch_ok[of co1 E] show ?thesis by simp
next
  case (seal st)
  from handle_seal_same[OF seal(3)] ok seal(2) show ?thesis by (auto simp: same_epoch_def coordinator_ok_def)
qed (use ok in \<open>auto simp: coordinator_ok_def\<close>)

lemma command_ok: "coordinator_ok E co \<Longrightarrow> handle_command E command co = (events, co') \<Longrightarrow> coordinator_ok E co'"
  by (cases command) (auto simp: handle_command_def Let_def coordinator_ok_def set_salt_def add_commit_ok
      split: if_splits option.splits prod.splits)

lemma update_shared_ok [simp]: "coordinator_ok E (update_shared_state X co) = coordinator_ok E co"
  by (simp add: coordinator_ok_def update_shared_state_def)

lemma coordinator_run_ok:
  assumes "coordinator_run E co0 events co" and "finite (co_peers co0)"
  shows "coordinator_ok E co"
  using assms
proof (induction rule: coordinator_run.induct)
  case (start now events co)
  then show ?case using start_epoch_ok by (simp add: run_start_def)
next
  case (timer events co now unix new co')
  then show ?case using expiry_ok[of E co unix now] by (auto simp: timer_turn_def)
next
  case (command events co cmd new co')
  then show ?case using command_ok[of E co cmd] by (cases "handle_command E cmd co") (auto simp: command_turn_def)
qed

text \<open>The stall counter never counts beyond one: a new epoch resets it, so the maximum that the configuration
  names is not reached (unless it is 0 or 1).\<close>

lemma stalls_counted_once:
  assumes "coordinator_run E co0 events co" and "finite (co_peers co0)"
  shows "EpochStalled e p (PhaseTimeout q n) \<in> set events \<Longrightarrow> n = 1"
  using assms
proof (induction rule: coordinator_run.induct)
  case (start now events co)
  then show ?case using start_epoch_events by (metis fst_conv run_start_def)
next
  case (timer events co now unix new co')
  from coordinator_run_ok[OF timer.hyps(1) timer.prems(2)] have z: "co_consecutive_stalls co = 0" by (simp add: coordinator_ok_def)
  from timer.hyps(3) obtain c where h: "handle_phase_expiry (E\<lparr>cx_unix := unix\<rparr>) now co = Some (new, c)"
    by (auto simp: timer_turn_def)
  from h have "n = 1" if "EpochStalled e p (PhaseTimeout q n) \<in> set new"
    by (cases rule: expiry_cases) (use that z handle_seal_events in auto)
  then show ?case using timer by auto
next
  case (command events co cmd new co')
  have "EpochStalled e p r \<notin> set (fst (handle_command E cmd co))" for r
    by (cases cmd) (auto simp: handle_command_def Let_def split: if_splits option.splits prod.splits)
  then show ?case using command by (cases "handle_command E cmd co") (auto simp: command_turn_def)
qed

section \<open>Agreement\<close>

text \<open>Two nodes that have accepted the same commits seal the same winner, in whatever order the commits came.\<close>

lemma coordinators_agree:
  assumes "coordinator_run E a0 ea a" and "coordinator_run E b0 eb b" and "finite (co_peers a0)" "finite (co_peers b0)"
    and "set (cl_commits (co_collector a)) = set (cl_commits (co_collector b))"
  shows "select_winner (co_collector a) = select_winner (co_collector b)"
proof (rule select_winner_agree[OF _ _ assms(5)])
  show "collector_ok (cx_crypto E) (cx_unsigned_ok E) (co_collector a)" "collector_ok (cx_crypto E) (cx_unsigned_ok E) (co_collector b)"
    using coordinator_run_ok[OF assms(1,3)] coordinator_run_ok[OF assms(2,4)] by (simp_all add: coordinator_ok_def)
qed

text \<open>What is sealed had a quorum, and the winner is the best of the commits.\<close>

lemma sealed_winner:
  assumes ok: "coordinator_ok E co" and h: "handle_seal E' co = Some (events, co')"
    and s: "EpochSealed epoch node score n \<in> set events"
  shows "epoch = es_epoch (co_epoch_state co) \<and>
    has_quorum (card (co_peers co)) (cc_quorum_threshold (co_config co)) (co_collector co) \<and>
    (\<exists>w\<in>set (collector_commits (co_collector co)). sc_node_id w = node \<and> sc_work_score w = score \<and>
       commit_ok (cx_crypto E) (cx_unsigned_ok E) epoch w \<and> (\<forall>c\<in>set (collector_commits (co_collector co)). beats w c))"
proof -
  from h s obtain w where w: "select_winner (co_collector co) = Some w" "node = sc_node_id w" "score = sc_work_score w"
    "epoch = es_epoch (co_epoch_state co)"
    and q: "has_quorum (card (co_peers co)) (cc_quorum_threshold (co_config co)) (co_collector co)"
    by (auto simp: handle_seal_def Let_def split: if_splits option.splits)
  have c: "collector_ok (cx_crypto E) (cx_unsigned_ok E) (co_collector co)" using ok by (simp add: coordinator_ok_def)
  from select_winner_spec[OF c] w(1) have "w \<in> set (collector_commits (co_collector co))"
    "\<forall>c\<in>set (collector_commits (co_collector co)). beats w c" by blast+
  moreover from this(1) have "commit_ok (cx_crypto E) (cx_unsigned_ok E) epoch w"
    using c w(4) ok by (auto simp: collector_ok_def collector_commits_def coordinator_ok_def)
  ultimately show ?thesis using w q by blast
qed

section \<open>The block of the winner\<close>

lemma produced_block_accepted:
  assumes h: "handle_seal E co = Some (events, co')" and p: "BlockProduced b epoch \<in> set events"
    and d: "bv_min_difficulty v \<le> 1" and w: "\<not> f_lt (bh_work_score (blk_header b)) (bv_min_work_score v)"
    and t: "sint (block_timestamp (cx_unix E) (co_chain_height co + 1)) \<le> sint (later + bv_max_timestamp_drift v)"
  shows "validate_block_with_options (cx_crypto E) (cx_codec E) v later b (co_chain_hash co) (co_chain_height co + 1)
    skip (Some (co_tip_cumulative_work co)) = Inr ()"
proof -
  let ?build = "\<lambda>ls :: local_solution. build_block_from_solution (cx_float E) (cx_crypto E) (cx_codec E) (cx_unix E) (co_chain_hash co)
      (co_chain_height co + 1) (co_miner_address co) (ls_problem ls) (ls_solution ls) (ls_solve_time ls) (ls_work_score ls)
      (co_tip_cumulative_work co) 1 []"
  have "\<exists>ls. ?build ls = Some (Some b)"
  proof (cases "co_local_solution co")
    case (Some ls)
    then have "?build ls = Some (Some b)" using h p
      by (auto simp: handle_seal_def Let_def take_local_solution_def split: if_splits option.splits)
    then show ?thesis ..
  qed (use h p in \<open>auto simp: handle_seal_def Let_def split: if_splits option.splits\<close>)
  then obtain ls where b: "?build ls = Some (Some b)" ..
  note a = build_block_assembled[OF b]
  have "bh_work_score (blk_header b) = ls_work_score ls" using a by (simp add: assembled_def Let_def)
  moreover have "unat (bv_min_difficulty v) \<le> 64" using d by (simp add: word_le_nat_alt)
  ultimately show ?thesis using assembled_accepted[OF a _ d _ t] w by simp
qed

section \<open>Liveness\<close>

text \<open>The position of a coordinator: four phases to an epoch.\<close>

fun phase_index :: "epoch_phase \<Rightarrow> nat" where
  "phase_index SaltPhase = 0"
| "phase_index MinePhase = 1"
| "phase_index CommitPhase = 2"
| "phase_index SealPhase = 3"

definition position :: "coordinator \<Rightarrow> nat" where
  "position co = 4 * unat (es_epoch (co_epoch_state co)) + phase_index (es_phase (co_epoch_state co))"

text \<open>Whatever is sealed, building the block does not panic.\<close>

definition local_ok :: "coordinator \<Rightarrow> bool" where
  "local_ok co \<longleftrightarrow> (\<forall>ls. co_local_solution co = Some ls \<longrightarrow> solution_quality (ls_solution ls) (ls_problem ls) \<noteq> None)"

lemma handle_seal_total: "local_ok co \<Longrightarrow> handle_seal E co \<noteq> None"
  by (auto simp: handle_seal_def Let_def take_local_solution_def local_ok_def build_block_from_solution_def
      candidate_header_def split: option.splits)

lemma expiry_total: "local_ok co \<Longrightarrow> handle_phase_expiry E now co \<noteq> None"
proof -
  assume l: "local_ok co"
  have "local_ok (co\<lparr>co_epoch_state := st\<rparr>)" for st using l by (simp add: local_ok_def)
  then have "handle_seal E (co\<lparr>co_epoch_state := st\<rparr>) \<noteq> None" for st by (rule handle_seal_total)
  then show ?thesis
    by (auto simp: handle_phase_expiry_def Let_def split: prod.splits option.splits epoch_phase.splits)
qed

lemma expiry_advances:
  assumes h: "handle_phase_expiry E now co = Some (events, co')" and x: "phase_expired now (co_config co) (co_epoch_state co)"
    and small: "unat (es_epoch (co_epoch_state co)) + 1 < 2 ^ 64" and l: "local_ok co"
  shows "position co < position co' \<and> local_ok co' \<and>
    unat (es_epoch (co_epoch_state co')) \<le> unat (es_epoch (co_epoch_state co)) + 1 \<and>
    es_phase_start (co_epoch_state co') = now"
  using h
proof (cases rule: expiry_cases)
  case (fresh co1 evs)
  have e: "es_epoch (co_epoch_state co') = es_epoch (co_epoch_state co) + 1" "es_phase (co_epoch_state co') = SaltPhase"
    "co_local_solution co' = None" "es_phase_start (co_epoch_state co') = now"
    using start_epoch_epoch[of "cx_crypto E" now "es_epoch (co_epoch_state co) + 1" co1] fresh(1) by simp_all
  have "unat (es_epoch (co_epoch_state co) + 1) = unat (es_epoch (co_epoch_state co)) + 1"
    using small unat_add_small[of "es_epoch (co_epoch_state co)" 1] by simp
  moreover have "phase_index p < 4" for p by (cases p) auto
  ultimately show ?thesis using e by (simp add: position_def local_ok_def)
next
  case (seal st)
  have "es_phase (co_epoch_state co) = CommitPhase" using seal(1) by (cases "es_phase (co_epoch_state co)") auto
  then show ?thesis using handle_seal_same[OF seal(3)] seal(2) l by (auto simp: same_epoch_def position_def local_ok_def)
next
  case (enter p)
  then show ?thesis using l by (cases "es_phase (co_epoch_state co)") (auto simp: position_def local_ok_def)
next
  case stay
  then show ?thesis using x by simp
qed

text \<open>The timer of a phase fires when the phase is over, or later.\<close>

fun timers :: "coordinator_ext \<Rightarrow> nat list \<Rightarrow> nat \<Rightarrow> coordinator \<Rightarrow> (nat \<times> coordinator) option" where
  "timers E [] now co = Some (now, co)"
| "timers E (late # ls) now co =
     (let fire = now + phase_time_remaining now co + late
      in Option.bind (timer_turn E fire co) (\<lambda>(_, co'). timers E ls fire co'))"

lemma timer_expired:
  "es_phase_start (co_epoch_state co) \<le> now \<Longrightarrow> phase_expired (now + phase_time_remaining now co + late) (co_config co) (co_epoch_state co)"
  by (simp add: phase_expired_def phase_time_remaining_def phase_elapsed_def)

lemma timers_advance:
  assumes "local_ok co" and "unat (es_epoch (co_epoch_state co)) + length lates < 2 ^ 64"
    and "es_phase_start (co_epoch_state co) \<le> now"
  shows "\<exists>now' co'. timers E lates now co = Some (now', co') \<and> position co + length lates \<le> position co'"
  using assms
proof (induction lates arbitrary: now co)
  case (Cons late ls)
  let ?t = "now + phase_time_remaining now co + late"
  obtain ev c where h: "handle_phase_expiry E ?t co = Some (ev, c)" using expiry_total[OF Cons.prems(1)] by fastforce
  have "unat (es_epoch (co_epoch_state co)) + 1 < 2 ^ 64" using Cons.prems(2) by simp
  from expiry_advances[OF h timer_expired[OF Cons.prems(3)] this Cons.prems(1)]
  have c: "position co < position c" "local_ok c" "unat (es_epoch (co_epoch_state c)) \<le> unat (es_epoch (co_epoch_state co)) + 1"
    "es_phase_start (co_epoch_state c) = ?t"
    by blast+
  let ?c = "update_shared_state (cx_crypto E) c"
  have u: "position ?c = position c" "local_ok ?c" "es_epoch (co_epoch_state ?c) = es_epoch (co_epoch_state c)"
    "es_phase_start (co_epoch_state ?c) \<le> ?t"
    using c(2,4) by (simp_all add: update_shared_state_def position_def local_ok_def)
  have t: "timer_turn E ?t co = Some (ev, ?c)" using h by (simp add: timer_turn_def)
  from Cons.IH[OF u(2), of ?t] c u Cons.prems(2) obtain now' co' where
    "timers E ls ?t ?c = Some (now', co')" "position ?c + length ls \<le> position co'" by auto
  then show ?case using t c(1) u(1) by (auto simp: Let_def)
qed simp

lemma timers_next_epoch:
  assumes "local_ok co" and "unat (es_epoch (co_epoch_state co)) + length lates < 2 ^ 64"
    and "es_phase_start (co_epoch_state co) \<le> now"
  shows "\<exists>now' co'. timers E lates now co = Some (now', co') \<and>
    unat (es_epoch (co_epoch_state co)) + length lates div 4 \<le> unat (es_epoch (co_epoch_state co'))"
proof -
  from timers_advance[OF assms] obtain now' co' where
    t: "timers E lates now co = Some (now', co')" "position co + length lates \<le> position co'" by blast
  have "phase_index p < 4" for p by (cases p) auto
  from this[of "es_phase (co_epoch_state co')"] t(2)
  have "4 * unat (es_epoch (co_epoch_state co)) + length lates < 4 * unat (es_epoch (co_epoch_state co')) + 4"
    by (simp add: position_def)
  then have "unat (es_epoch (co_epoch_state co)) + length lates div 4 \<le> unat (es_epoch (co_epoch_state co'))" by linarith
  with t(1) show ?thesis by blast
qed

end
