(* ===== verification/Properties_Core.thy ===== *)
theory Properties_Core
  imports Core_Block Core_Fixed_Point Core_Privacy
begin

text \<open>
  The properties of the \<open>core\<close> crate, each with a concrete instance where it has hypotheses. The
  external functions of the instances are toy ones: \<open>demo_crypto\<close> hashes by reading the bytes as a
  number and accepts every signature.
\<close>

section \<open>Instances of the external functions\<close>

definition demo_crypto :: crypto_ext where
  "demo_crypto = \<lparr>blake3 = (\<lambda>bs. foldl (\<lambda>n b. n * 256 + ucast b) 0 bs), vk_from_bytes_ok = (\<lambda>_. True),
     vk_verify = (\<lambda>_ _ _. True), verifying_key = (\<lambda>sk. sk), sk_sign = (\<lambda>_ _. 0)\<rparr>"

definition demo_codec :: codec_ext where
  "demo_codec = \<lparr>bincode_problem = (\<lambda>_. Some [1]), bincode_solution = (\<lambda>_. Some [2]),
     json_problem = (\<lambda>_. Some [3]), json_solution = (\<lambda>_. Some [4])\<rparr>"

definition demo_tx_codec :: tx_codec where
  "demo_tx_codec = \<lparr>core_codec = demo_codec, bincode_trustline_type = (\<lambda>_. Some []),
     bincode_operation = (\<lambda>_. Some []), bincode_transaction = (\<lambda>tx. Some (to_le_bytes (tx_nonce tx))),
     bincode_coinbase = (\<lambda>_. Some [])\<rparr>"

section \<open>Problems and solutions\<close>

text \<open>A tour passes the check of a travelling-salesman problem exactly when it visits every city
  once: the early exits and the visited array of \<open>Solution::verify\<close> decide Hamiltonicity, for
  every distance matrix.\<close>

theorem tsp_verify_hamiltonian:
  "solution_verify (TSPSol tour) (TSP cities distances) \<longleftrightarrow> distinct tour \<and> set tour = {0..<cities}"
  by (rule verify_TSP_iff)

text \<open>When every literal names one of the variables, a truth assignment passes the check of a
  SAT problem exactly when it has the right length and makes a literal of every clause true.\<close>

theorem sat_verify_satisfies:
  assumes "\<forall>c\<in>set clauses. \<forall>l\<in>set (literals c). literal_ok variables l"
  shows "solution_verify (SATSol assignment) (SAT variables clauses) \<longleftrightarrow>
    length assignment = variables \<and>
    (\<forall>c\<in>set clauses. \<exists>l\<in>set (literals c). literal_true assignment l)"
  using assms by (rule verify_SAT_iff)

theorem sat_verify_satisfies_witness:
  "solution_verify (SATSol [True, False]) (SAT 2 [\<lparr>literals = [1, - 2]\<rparr>, \<lparr>literals = [- 2]\<rparr>]) \<longleftrightarrow>
    length [True, False] = 2 \<and>
    (\<forall>c\<in>set [\<lparr>literals = [1, - 2]\<rparr>, \<lparr>literals = [- 2]\<rparr>]. \<exists>l\<in>set (literals c). literal_true [True, False] l)"
  by (rule sat_verify_satisfies) (simp add: literal_ok_def)

text \<open>A subset-sum solution with distinct, in-range indices is accepted exactly when the
  chosen numbers add up to the target (modulo \<open>2 ^ 64\<close>, as \<open>i64\<close> addition does).\<close>

theorem subset_sum_verify_distinct:
  assumes "distinct indices" and "set indices \<subseteq> {0..<length numbers}"
  shows "solution_verify (SubsetSumSol indices) (SubsetSum numbers target) \<longleftrightarrow>
    (\<Sum>i\<in>set indices. numbers ! i) = target"
  using assms by (rule verify_SubsetSum_distinct)

theorem subset_sum_verify_distinct_witness:
  "solution_verify (SubsetSumSol [1, 2, 3]) (SubsetSum [1, 2, 3, 4, 5] 9) \<longleftrightarrow>
    (\<Sum>i\<in>set [1, 2, 3]. [1, 2, 3, 4, 5 :: i64] ! i) = 9"
  by (rule subset_sum_verify_distinct) simp_all

text \<open>The check does not reject a repeated index: an instance that contains the number 1 is
  accepted for every target, by listing that index as often as the target says.\<close>

theorem subset_sum_repeated_index_accepted:
  assumes "i < length numbers" and "numbers ! i = 1"
  shows "solution_verify (SubsetSumSol (replicate (unat target) i)) (SubsetSum numbers target)"
  using verify_SubsetSum_repeated[OF assms(1), of "unat target" target] assms(2) by simp

theorem subset_sum_repeated_index_accepted_witness:
  "solution_verify (SubsetSumSol (replicate (unat (7 :: i64)) 0)) (SubsetSum [1, 100] 7)"
  by (rule subset_sum_repeated_index_accepted) simp_all

text \<open>For a problem with at least one city and a square distance matrix without the sentinel
  distance, the quality of an accepted tour is computed without a panic and lies between 0 and 1; the
  nearest-neighbour baseline it is measured by is complete.\<close>

theorem tsp_quality_in_unit_interval:
  assumes "0 < cities" and "matrix_ok cities d" and "solution_verify (TSPSol tour) (TSP cities d)"
  shows "\<exists>q. solution_quality (TSPSol tour) (TSP cities d) = Some q \<and> f_le f_zero q \<and> f_le q f_one"
  using assms by (rule quality_TSP_total)

theorem tsp_quality_in_unit_interval_witness:
  "\<exists>q. solution_quality (TSPSol [1, 0]) (TSP 2 [[0, 5], [7, 0]]) = Some q \<and> f_le f_zero q \<and> f_le q f_one"
proof (rule tsp_quality_in_unit_interval)
  show "matrix_ok 2 [[0, 5], [7, 0]]"
    by (auto simp: matrix_ok_def less_2_cases_iff)
  show "solution_verify (TSPSol [1, 0]) (TSP 2 [[0, 5], [7, 0]])"
    unfolding verify_TSP_iff by auto
qed simp

section \<open>Commitments and Merkle trees\<close>

text \<open>C12. The Merkle root of 32-byte items binds the list: two different non-empty lists have
  different roots unless two of the byte strings hashed while building the trees collide. Neither
  the unpaired hash of an odd level nor the depth of the tree can be confused.\<close>

theorem merkle_root_binds:
  assumes "no_collision X (merkle_inputs X xs @ merkle_inputs X ys)"
    and "\<forall>x\<in>set xs. length x = 32" and "\<forall>y\<in>set ys. length y = 32"
    and "xs \<noteq> []" and "ys \<noteq> []"
  shows "mt_root (merkle_new X xs) = mt_root (merkle_new X ys) \<longleftrightarrow> xs = ys"
  using assms by (rule merkle_binding)

definition item :: "u8 \<Rightarrow> bytes" where
  "item b = replicate 31 0 @ [b]"

lemma demo_item: "blake3 demo_crypto (item b) = ucast b"
  by (simp add: demo_crypto_def item_def numeral_eq_Suc)

theorem merkle_root_binds_witness:
  "mt_root (merkle_new demo_crypto [item 1]) = mt_root (merkle_new demo_crypto [item 2]) \<longleftrightarrow>
    [item 1] = [item 2]"
proof (rule merkle_root_binds)
  show "no_collision demo_crypto (merkle_inputs demo_crypto [item 1] @ merkle_inputs demo_crypto [item 2])"
    by (simp add: no_collision_def merkle_inputs_def loop_inputs.simps demo_item inj_on_def)
qed (simp_all add: item_def)

text \<open>Ordering the leaves by the golden key permutes them, and the key is injective on 64-bit
  indices, so the tie-break on the index is never needed.\<close>

theorem golden_order_permutes:
  "mset (golden_order data) = mset data \<and> inj golden_sort_key"
  by (simp add: golden_order_mset inj_def golden_sort_key_inject)

text \<open>C31. The golden stream returns, with 16 bytes, exactly when in some number of rounds 256 of the
  hashed bytes pass the basis test; otherwise \<open>next_bytes\<close> does not end.\<close>

theorem golden_stream_returns:
  "(\<exists>bs g'. next_bytes X g = Some (bs, g') \<and> length bs = 16) \<longleftrightarrow> (\<exists>n. 256 \<le> passed X n g)"
  by (rule next_bytes_returns_iff)

text \<open>A miner's commitment verifies for its own problem, solution and salt, in the bincode form
  and in the JSON form.\<close>

theorem commitment_verifies_own:
  "commit_verify X C (commit_create X C p s salt) p s salt \<and>
   commit_verify X C (commit_create_from_json X C p s salt) p s salt"
  by (auto simp: commit_verify_def Let_def)

text \<open>C13. A commitment binds: if it verifies for two openings, they agree on the salt and share a
  serialised form of problem and solution, unless two of the hashed byte strings collide.\<close>

theorem commitment_binds:
  assumes "commit_verify X C c p s salt" and "commit_verify X C c p' s' salt'"
    and "no_collision X (concat (map (commit_inputs X salt) (forms C p s)) @
           concat (map (commit_inputs X salt') (forms C p' s')))"
  shows "salt = salt' \<and> (\<exists>f. f \<in> set (forms C p s) \<and> f \<in> set (forms C p' s'))"
proof -
  obtain f g where f: "f \<in> set (forms C p s)" "c = form_commitment X salt f"
    and g: "g \<in> set (forms C p' s')" "c = form_commitment X salt' g"
    using assms(1,2) by (auto simp: commit_verify_iff)
  have "no_collision X (commit_inputs X salt f @ commit_inputs X salt' g)"
    by (rule no_collision_mono[OF assms(3)]) (use f g in auto)
  from form_commitment_inject[OF this] f g have "f = g \<and> salt = salt'" by simp
  with f g show ?thesis by blast
qed

text \<open>A hash that tells the six strings of the instance apart: single bytes by their value, the
  96-byte strings by their 32nd byte.\<close>

definition tag_crypto :: crypto_ext where
  "tag_crypto = demo_crypto\<lparr>blake3 := \<lambda>bs. if length bs = 1 then ucast (hd bs) else 256 + ucast (bs ! 31)\<rparr>"

lemma tag_hash:
  "blake3 tag_crypto [b] = ucast b"
  "blake3 tag_crypto (commit_bytes (Hash h) s t) = 256 + ucast (ucast h :: u8)"
  by (simp_all add: tag_crypto_def commit_bytes_def hash_as_bytes_def be_bytes_def to_le_bytes_def
      nth_append rev_nth)

definition demo_commitment :: commitment where
  "demo_commitment = commit_create tag_crypto demo_codec (SubsetSum [] 0) (SubsetSumSol []) (Hash 9)"

theorem commitment_binds_witness:
  "Hash 9 = Hash 9 \<and> (\<exists>f. f \<in> set (forms demo_codec (SubsetSum [] 0) (SubsetSumSol [])) \<and>
     f \<in> set (forms demo_codec (SubsetSum [] 0) (SubsetSumSol [])))"
proof (rule commitment_binds[of tag_crypto demo_codec demo_commitment])
  show "commit_verify tag_crypto demo_codec demo_commitment (SubsetSum [] 0) (SubsetSumSol []) (Hash 9)"
    by (auto simp: demo_commitment_def commit_verify_def Let_def)
  then show "commit_verify tag_crypto demo_codec demo_commitment (SubsetSum [] 0) (SubsetSumSol []) (Hash 9)" .
  show "no_collision tag_crypto
     (concat (map (commit_inputs tag_crypto (Hash 9)) (forms demo_codec (SubsetSum [] 0) (SubsetSumSol []))) @
      concat (map (commit_inputs tag_crypto (Hash 9)) (forms demo_codec (SubsetSum [] 0) (SubsetSumSol []))))"
    by (simp add: no_collision_def forms_def demo_codec_def commit_inputs_def hash_new_def tag_hash inj_on_def)
qed

section \<open>Fixed-point arithmetic\<close>

text \<open>\<open>isqrt\<close> is the integer square root, for every \<open>u128\<close>: Newton's iteration ends at the
  floor of the root and no step of it wraps around.\<close>

theorem isqrt_is_floor_root:
  "unat (isqrt n) * unat (isqrt n) \<le> unat n \<and> unat n < (unat (isqrt n) + 1) * (unat (isqrt n) + 1)"
  using isqrt_floor[of n] by (simp add: root_of_def)

lemma ratio_ge: "0 < d \<Longrightarrow> d < n \<Longrightarrow> (2::nat) ^ 32 \<le> n * 2 ^ 32 div d"
  by (simp add: less_eq_div_iff_mult_less_eq)

lemma ratio_mono:
  fixes n d n' d' :: nat
  assumes "0 < d" and "0 < d'" and "n * d' \<le> n' * d"
  shows "n * 2 ^ 32 div d \<le> n' * 2 ^ 32 div d'"
proof -
  let ?q = "n * 2 ^ 32 div d"
  have "?q * d \<le> n * 2 ^ 32" by (rule div_times_less_eq_dividend)
  then have "?q * d * d' \<le> n * 2 ^ 32 * d'" by (rule mult_le_mono1)
  also have "\<dots> = n * d' * 2 ^ 32" by (simp only: ac_simps)
  also have "\<dots> \<le> n' * d * 2 ^ 32" using assms(3) by (rule mult_le_mono1)
  finally have "(?q * d') * d \<le> (n' * 2 ^ 32) * d" by (simp only: ac_simps)
  then have "?q * d' \<le> n' * 2 ^ 32" using assms(1) by (simp only: mult_le_cancel2)
  then show ?thesis using assms(2) by (simp add: less_eq_div_iff_mult_less_eq)
qed

text \<open>The fixed-point logarithm of a ratio above 1 exists, and its integer part is exact.\<close>

theorem log2_ratio_brackets:
  assumes "den \<noteq> 0" and "den < num"
  shows "\<exists>s. log2_ratio num den = Some s \<and>
    2 ^ (unat s div 1000000) * unat den \<le> unat num \<and> unat num < 2 ^ (unat s div 1000000 + 1) * unat den"
proof -
  have d: "0 < unat den" "unat den < unat num"
    using assms by (simp_all add: unat_gt_0 word_less_nat_alt)
  obtain s where s: "log2_ratio num den = Some s" "unat s = log2_spec (unat num * 2 ^ 32 div unat den)"
    using log2_ratio_value[OF assms] by blast
  have "2 ^ 32 \<le> unat num * 2 ^ 32 div unat den" using d by (rule ratio_ge)
  with s(1) floorlog_ratio[OF d refl] show ?thesis
    by (auto simp: s(2) log2_spec_int_part)
qed

theorem log2_ratio_brackets_witness:
  "\<exists>s. log2_ratio 1000 3 = Some s \<and>
    2 ^ (unat s div 1000000) * unat (3 :: u64) \<le> unat (1000 :: u64) \<and>
    unat (1000 :: u64) < 2 ^ (unat s div 1000000 + 1) * unat (3 :: u64)"
  by (rule log2_ratio_brackets) simp_all

text \<open>The fixed-point logarithm grows with the ratio: a miner never loses score by a larger
  ratio.\<close>

theorem log2_ratio_monotone:
  assumes "log2_ratio num den = Some s" and "log2_ratio num' den' = Some s'"
    and "unat num * unat den' \<le> unat num' * unat den"
  shows "s \<le> s'"
proof -
  have d: "den \<noteq> 0" "den < num" "den' \<noteq> 0" "den' < num'"
    using assms(1,2) log2_ratio_None[of num den] log2_ratio_None[of num' den'] by (auto simp: not_le)
  have d0: "0 < unat den" "0 < unat den'" "unat den < unat num"
    using d by (simp_all add: unat_gt_0 word_less_nat_alt)
  have "unat num * 2 ^ 32 div unat den \<le> unat num' * 2 ^ 32 div unat den'"
    using d0(1,2) assms(3) by (rule ratio_mono)
  from log2_spec_mono[OF ratio_ge[OF d0(1,3)] this] have "unat s \<le> unat s'"
    using log2_ratio_value[OF d(1,2)] log2_ratio_value[OF d(3,4)] assms(1,2) by auto
  then show ?thesis by (simp add: word_le_nat_alt)
qed

theorem log2_ratio_monotone_witness: "the (log2_ratio 2 1) \<le> the (log2_ratio 8 1)"
proof (rule log2_ratio_monotone[of 2 1 _ 8 1])
  have "log2_ratio 2 1 \<noteq> None" and "log2_ratio 8 1 \<noteq> None" by (simp_all add: log2_ratio_None word_le_nat_alt)
  then show "log2_ratio 2 1 = Some (the (log2_ratio 2 1))" "log2_ratio 8 1 = Some (the (log2_ratio 8 1))"
    by simp_all
qed simp

section \<open>Sanitisers\<close>

text \<open>The HTML sanitiser, five passes over the text, is the simultaneous replacement of the
  five special characters: no pass touches what an earlier one wrote, and no markup character is
  left.\<close>

theorem html_sanitiser_is_simultaneous:
  "sanitize_for_html s = concat (map html_escape s) \<and> set (sanitize_for_html s) \<inter> {60, 62, 34, 39} = {}"
  by (simp only: sanitize_for_html_simultaneous[symmetric] sanitize_for_html_no_markup simp_thms)

text \<open>An accepted file path has no \<open>..\<close> component, with either separator, and no NUL.\<close>

theorem file_path_stays_inside:
  assumes "validate_file_path p = Inr ()"
  shows "lit ''..'' \<notin> set (split_on 47 (normalise_path p)) \<and> 0 \<notin> set p"
  using assms by (rule validate_file_path_safe)

theorem file_path_stays_inside_witness:
  "lit ''..'' \<notin> set (split_on 47 (normalise_path (lit ''data/a..b''))) \<and> 0 \<notin> set (lit ''data/a..b'')"
  by (rule file_path_stays_inside) code_simp

section \<open>Transactions and blocks\<close>

text \<open>The signed message of a transfer, a time lock and a pool swap covers every field but
  the signature.\<close>

theorem signed_message_covers_fields:
  "(transfer_signing_message t = transfer_signing_message u \<longleftrightarrow>
      t\<lparr>tr_signature := null_signature\<rparr> = u\<lparr>tr_signature := null_signature\<rparr>) \<and>
   (timelock_signing_message k = timelock_signing_message m \<longleftrightarrow>
      k\<lparr>tl_signature := null_signature\<rparr> = m\<lparr>tl_signature := null_signature\<rparr>) \<and>
   (pool_swap_signing_message p = pool_swap_signing_message q \<longleftrightarrow>
      p\<lparr>ps_signature := null_signature\<rparr> = q\<lparr>ps_signature := null_signature\<rparr>)"
  by (simp only: transfer_message_inject timelock_message_inject pool_swap_message_inject simp_thms)

text \<open>An escrow signature does not cover what is asked for: a signed release is as valid
  as a refund of the same escrow, and a signed creation is as valid with another arbiter and other
  conditions.\<close>

theorem escrow_signature_not_covering:
  "escrow_is_valid X (tx\<lparr>es_type := EscrowRelease\<rparr>) = escrow_is_valid X (tx\<lparr>es_type := EscrowRefund\<rparr>) \<and>
   escrow_is_valid X (tx\<lparr>es_type := EscrowCreate r a m t c\<rparr>) =
     escrow_is_valid X (tx\<lparr>es_type := EscrowCreate r a' m t c'\<rparr>)"
  by (simp add: escrow_is_valid_def escrow_verify_signature_def escrow_signing_message_def)

text \<open>A transfer made by the constructor from the key pair's own address is valid exactly
  when amount and fee are within bounds.\<close>

theorem constructed_transfer_valid:
  assumes "signing_correct X"
  shows "tx_is_valid X C now (new_transfer X (kp_address X kp) to amount fee nonce kp) \<longleftrightarrow>
    0 < unat amount \<and> unat amount \<le> 2 ^ 127 - 1 \<and> unat fee \<le> 2 ^ 127 - 1"
  by (simp only: new_transfer_def tx_is_valid.simps transfer_new_valid[OF assms] validate_transfer_fields_Inr)

theorem constructed_transfer_valid_witness:
  "tx_is_valid demo_crypto demo_tx_codec 0 (new_transfer demo_crypto (kp_address demo_crypto \<lparr>signing_key = 3\<rparr>)
     (Address 4) 5 6 7 \<lparr>signing_key = 3\<rparr>) \<longleftrightarrow>
    0 < unat (5 :: u128) \<and> unat (5 :: u128) \<le> 2 ^ 127 - 1 \<and> unat (6 :: u128) \<le> 2 ^ 127 - 1"
  by (rule constructed_transfer_valid) (simp add: signing_correct_def demo_crypto_def)


definition demo_block_codec :: block_codec where
  "demo_block_codec = \<lparr>tx_codec_of = demo_tx_codec, bincode_header = (\<lambda>_. Some []), json_header = (\<lambda>_. Some [])\<rparr>"

definition demo_transaction :: transaction where
  "demo_transaction = new_transfer demo_crypto (Address 3) (Address 4) 5 6 7 \<lparr>signing_key = 3\<rparr>"

text \<open>A block with one transfer, and the subset-sum problem with no numbers.\<close>

definition demo_block :: "i64 \<Rightarrow> block" where
  "demo_block time = (let g = block_genesis (Address 1);
      root = block_tx_root demo_crypto demo_block_codec [demo_transaction] in
     g\<lparr>blk_header := (blk_header g)\<lparr>bh_timestamp := time, bh_transactions_root := root\<rparr>,
       blk_transactions := [demo_transaction],
       blk_solution_reveal := \<lparr>sr_problem = SubsetSum [] 0, sr_solution = SubsetSumSol [],
         sr_commitment = commit_create demo_crypto demo_codec (SubsetSum [] 0) (SubsetSumSol []) hash_ZERO\<rparr>\<rparr>)"

lemma demo_transaction_valid: "tx_is_valid demo_crypto demo_tx_codec now demo_transaction"
proof -
  have s: "signing_correct demo_crypto" by (simp add: signing_correct_def demo_crypto_def)
  have "kp_address demo_crypto \<lparr>signing_key = 3\<rparr> = Address 3"
    by (simp add: kp_address_def pk_to_address_def kp_public_key_def address_from_pubkey_def demo_crypto_def)
  with transfer_new_valid[OF s, of "\<lparr>signing_key = 3\<rparr>" "Address 4" 5 6 7] show ?thesis
    by (simp add: demo_transaction_def new_transfer_def validate_transfer_fields_Inr)
qed

lemma demo_block_verifies:
  assumes "0 \<le>s t" and "t \<le>s now + 120"
  shows "block_verify demo_crypto demo_block_codec now (demo_block t)"
  unfolding block_verify_iff
  using demo_transaction_valid assms
  by (auto simp: demo_block_def Let_def block_genesis_def demo_block_codec_def coinbase_new_def
      reveal_verify_def commit_verify_def validate_block_header_fields_Inr demo_tx_codec_def
      f_zero_def f_one_def)


text \<open>The placeholder proof proves nothing: for every commitment, whoever made it and whatever it
  hides, there is an accepted proof as soon as the public parameters serialise; the honest one is the
  only one.\<close>

theorem placeholder_proof_for_every_commitment:
  "(\<exists>w. wellformedness_verify P w c pp) \<longleftrightarrow> bincode_parameters P pp \<noteq> None"
  by (auto simp: wellformedness_verify_iff)

end
