(* ===== verification/Properties_Consensus.thy ===== *)
theory Properties_Consensus
  imports Consensus_Coordinator Properties_Core
begin

text \<open>
  The properties of mining, of the difficulty and of the epoch coordinator, each with a concrete instance where it has
  hypotheses.
\<close>

section \<open>Instances of the external functions\<close>

text \<open>A generator that draws the least value and shuffles nothing; an integer logarithm; a search that never finds.\<close>

definition demo_rng :: "unit rng_ext" where
  "demo_rng = \<lparr>seed_from_u64 = (\<lambda>_. ()), random_range = (\<lambda>_ lo _ r. (lo, r)), random_bool = (\<lambda>_ r. (True, r)),
     shuffle_indices = (\<lambda>xs r. (xs, r))\<rparr>"

definition flat_float :: float_ext where
  "flat_float = \<lparr>fm_log2 = (\<lambda>x. x), fm_exp = (\<lambda>_. f_one), fm_sqrt = (\<lambda>x. x), fm_powi = (\<lambda>x _. x),
     fm_ln = (\<lambda>x. x), fm_powf = (\<lambda>x _. x)\<rparr>"

lemma demo_rng_ok: "rng_ok demo_rng"
  by (simp add: rng_ok_def demo_rng_def)

text \<open>A hash of its own for every length, with an accepting signature scheme.\<close>

definition length_crypto :: crypto_ext where
  "length_crypto = demo_crypto\<lparr>blake3 := \<lambda>bs. of_nat (length bs)\<rparr>"

definition empty_tx_codec :: tx_codec where
  "empty_tx_codec = demo_tx_codec\<lparr>bincode_transaction := \<lambda>_. Some []\<rparr>"

definition length_block_codec :: block_codec where
  "length_block_codec = demo_block_codec\<lparr>tx_codec_of := empty_tx_codec\<rparr>"

section \<open>Solvers\<close>

text \<open>C14. Whatever subset-sum problem mining generates with up to 200 numbers, from whatever seed, the solver finds a
  solution and the solution verifies: generation plants a solution and the instance is small enough for one of the exact
  tables, so no attempt is lost.\<close>

theorem generated_subset_sum_is_solved:
  assumes "rng_ok G" and "n \<le> 200"
  shows "\<exists>sol. solve_problem_blocking bs samples elapsed (generate_subset_sum G n r) = Some (Some sol) \<and>
    solution_verify sol (generate_subset_sum G n r)"
  using assms by (rule generated_subset_sum_solved)

theorem generated_subset_sum_is_solved_witness:
  "\<exists>sol. solve_problem_blocking (\<lambda>_ _. None) (\<lambda>_ _. []) (\<lambda>_. 0) (generate_subset_sum demo_rng 110 ()) = Some (Some sol) \<and>
    solution_verify sol (generate_subset_sum demo_rng 110 ())"
  by (rule generated_subset_sum_is_solved[OF demo_rng_ok]) simp

text \<open>C15. The solvers never hand a wrong solution to the miner: on the instances mining generates (and on every SAT
  instance) what any of them returns verifies, whether it is a table, meet in the middle, the heuristic, a search or 2-opt.\<close>

theorem solvers_are_sound:
  assumes "problem_ok problem" and "search_sound bs" and "samples_ok samples"
    and "solve_problem_blocking bs samples elapsed problem = Some (Some sol)"
  shows "solution_verify sol problem"
  using assms by (rule solve_problem_sound)

theorem solvers_are_sound_witness:
  "solution_verify (SATSol [True]) (SAT 1 [\<lparr>literals = [1]\<rparr>])"
proof (rule solvers_are_sound[where bs = "\<lambda>_ _. None" and samples = "\<lambda>_ _. []" and elapsed = "\<lambda>_. 0"])
  show "solve_problem_blocking (\<lambda>_ _. None) (\<lambda>_ _. []) (\<lambda>_. 0) (SAT 1 [\<lparr>literals = [1]\<rparr>]) = Some (Some (SATSol [True]))"
    by (simp add: solve_problem_blocking_def solve_sat_brute_force_def upt_rec[of _ 2] satisfied_def assignment_of_def
        solver_literal_def abs_word_def bit_0 word_sless_alt)
qed (simp_all add: search_sound_def samples_ok_def)

text \<open>A travelling-salesman problem that mining generates is always solved: the distances are defined wherever the
  tour search looks, so it does not panic, and once the clock has passed the deadline for good the search has stopped, with
  a tour that visits every city once.\<close>

theorem generated_tour_is_found:
  assumes "rng_ok G" and "0 < n" and "\<forall>k\<ge>m. MINING_TIMEOUT \<le> elapsed k"
  shows "\<exists>sol. solve_problem_blocking bs samples elapsed (generate_tsp G n r) = Some (Some sol) \<and>
    solution_verify sol (generate_tsp G n r)"
  using assms by (rule generated_tsp_solved)

theorem generated_tour_is_found_witness:
  "\<exists>sol. solve_problem_blocking (\<lambda>_ _. None) (\<lambda>_ _. []) (\<lambda>k. k * 10 ^ 9) (generate_tsp demo_rng 99 ()) = Some (Some sol) \<and>
    solution_verify sol (generate_tsp demo_rng 99 ())"
  by (rule generated_tour_is_found[OF demo_rng_ok, where m = 60]) (simp_all add: MINING_TIMEOUT_def)

section \<open>The header\<close>

lemma header_digits_le: "header_digits d \<le> 64"
  by (simp add: header_digits_def HEADER_HASH_HEX_DIGITS_def min_def word_le_nat_alt)

text \<open>C16. The nonce search returns the least nonce whose header hash is below the target \<open>2 ^ (256 - 4 d)\<close>, where \<open>d\<close> is
  the difficulty capped at 64, and it returns none exactly when no nonce below \<open>u64::MAX\<close> has such a hash.\<close>

theorem least_nonce_below_target:
  defines "below X B d h \<equiv> unat (hash_word (header_hash X B h)) < 2 ^ (256 - 4 * header_digits d)"
  shows "case mine_header_blocking X B header d of
      None \<Rightarrow> \<forall>n<2 ^ 64 - 1. \<not> below X B d (header\<lparr>bh_nonce := of_nat n\<rparr>)
    | Some (mined, h) \<Rightarrow> h = header_hash X B mined \<and> (\<exists>n<2 ^ 64 - 1. mined = header\<lparr>bh_nonce := of_nat n\<rparr> \<and> below X B d mined \<and>
        (\<forall>k<n. \<not> below X B d (header\<lparr>bh_nonce := of_nat k\<rparr>)))"
proof -
  have t: "below X B d h \<longleftrightarrow> header_digits d \<le> leading_zero_digits (header_hash X B h)" for h
    using leading_zero_digits_target[OF header_digits_le] by (simp add: below_def)
  show ?thesis
  proof (cases "mine_header_blocking X B header d")
    case None
    then show ?thesis unfolding t
      using mine_from_None[of X B "header_digits d" header 0]
      by (simp add: mine_header_blocking_def header_digits_def[symmetric] not_le)
  next
    case (Some r)
    obtain mined h where r: "r = (mined, h)" by (cases r)
    from mine_from_Some[of X B "header_digits d" header 0 mined h] Some r show ?thesis unfolding t
      by (auto simp: mine_header_blocking_def header_digits_def[symmetric] not_le)
  qed
qed

theorem least_nonce_below_target_witness:
  "case mine_header_blocking length_crypto length_block_codec (blk_header (block_genesis (Address 1))) 3 of
      None \<Rightarrow> \<forall>n<2 ^ 64 - 1. \<not> unat (hash_word (header_hash length_crypto length_block_codec
        ((blk_header (block_genesis (Address 1)))\<lparr>bh_nonce := of_nat n\<rparr>))) < 2 ^ (256 - 4 * header_digits 3)
    | Some (mined, h) \<Rightarrow> h = header_hash length_crypto length_block_codec mined \<and>
        (\<exists>n<2 ^ 64 - 1. mined = (blk_header (block_genesis (Address 1)))\<lparr>bh_nonce := of_nat n\<rparr> \<and>
        unat (hash_word (header_hash length_crypto length_block_codec mined)) < 2 ^ (256 - 4 * header_digits 3) \<and>
        (\<forall>k<n. \<not> unat (hash_word (header_hash length_crypto length_block_codec
          ((blk_header (block_genesis (Address 1)))\<lparr>bh_nonce := of_nat k\<rparr>))) < 2 ^ (256 - 4 * header_digits 3)))"
  by (rule least_nonce_below_target)

section \<open>Blocks\<close>


definition demo_built :: "transaction list \<Rightarrow> block option option" where
  "demo_built txs = build_block_from_solution flat_float length_crypto length_block_codec 5 hash_ZERO 2 (Address 1)
     (SubsetSum [] 0) (SubsetSumSol []) 0 f_one 0 0 txs"

lemma demo_built_some: "demo_built txs = Some (Some (the (the (demo_built txs))))"
  by (simp add: demo_built_def build_block_from_solution_def candidate_header_def mine_header_blocking_def
      mine_from.simps[of _ _ 0] Let_def)


text \<open>A block with a transaction, from either producer, never passes \<open>Block::verify\<close> unless BLAKE3 collides: the
  producers hash the serialised transactions into \<open>transactions_root\<close>, \<open>Block::verify\<close> hashes their hashes. Stated for a
  block of one transaction.\<close>

theorem built_block_fails_core_verify:
  assumes "build_block_from_solution F X B now prev_hash height addr problem sol solve_time work_score W difficulty [tx]
      = Some (Some b)"
    and "blake3 X (unwrap_or (bincode_transaction (tx_codec_of B) tx) []) \<noteq> blake3 X (hash_as_bytes (tx_hash X (tx_codec_of B) tx))"
  shows "\<not> block_verify X B later b"
  by (rule assembled_root[OF build_block_assembled[OF assms(1)] assms(2)])

theorem built_block_fails_core_verify_witness:
  "\<not> block_verify length_crypto length_block_codec 5 (the (the (demo_built [demo_transaction])))"
  by (rule built_block_fails_core_verify[OF demo_built_some[unfolded demo_built_def], folded demo_built_def])
     (simp add: length_block_codec_def empty_tx_codec_def length_crypto_def demo_block_codec_def)

section \<open>Difficulty\<close>

datatype difficulty_op = RecordTime u64 | AdjustSize | PenalizeFailure

fun difficulty_apply :: "float_ext \<Rightarrow> difficulty_op \<Rightarrow> difficulty_adjuster \<Rightarrow> difficulty_adjuster" where
  "difficulty_apply F (RecordTime t) a = record_solve_time_us t a"
| "difficulty_apply F AdjustSize a = snd (Consensus_Difficulty.adjust_difficulty F a)"
| "difficulty_apply F PenalizeFailure a = snd (penalize_failure a)"

lemma difficulty_apply_ok: "difficulty_ok a \<Longrightarrow> difficulty_ok (difficulty_apply F op a)"
  by (cases op) (auto simp: record_solve_time_us_ok
      dest: adjust_difficulty_ok[where a' = "snd (Consensus_Difficulty.adjust_difficulty F a)" and r = "fst (Consensus_Difficulty.adjust_difficulty F a)"]
        penalize_failure_ok[where a' = "snd (penalize_failure a)" and r = "fst (penalize_failure a)"])


text \<open>The size decision is exact integer arithmetic: the new size is the floor of the square root of
  \<open>size\<^sup>2 * target / average\<close>, so that every node computes the same.\<close>

theorem size_update_is_floor_root:
  assumes "avg \<noteq> 0" and "unat s * unat s * unat target < 2 ^ 128"
  defines "r \<equiv> unat (compute_new_size_deterministic s avg target)"
  shows "r * r \<le> unat s * unat s * unat target div unat avg \<and> unat s * unat s * unat target div unat avg < (r + 1) * (r + 1)"
  using compute_new_size_root[OF assms(1,2)] by (simp add: root_of_def r_def)

theorem size_update_is_floor_root_witness:
  "unat (compute_new_size_deterministic 110 20000000 10000000) * unat (compute_new_size_deterministic 110 20000000 10000000)
     \<le> unat (110 :: u64) * unat (110 :: u64) * unat (10000000 :: u64) div unat (20000000 :: u64) \<and>
   unat (110 :: u64) * unat (110 :: u64) * unat (10000000 :: u64) div unat (20000000 :: u64)
     < (unat (compute_new_size_deterministic 110 20000000 10000000) + 1) * (unat (compute_new_size_deterministic 110 20000000 10000000) + 1)"
  by (rule size_update_is_floor_root) simp_all

text \<open>The deterministic work score never falls when a problem takes longer to solve.\<close>

theorem work_score_monotone:
  assumes "s \<le> s'"
  shows "calculate_deterministic s v q \<le> calculate_deterministic s' v q"
  using assms by (rule calculate_deterministic_mono)

theorem work_score_monotone_witness:
  "calculate_deterministic 1000 10 10000 \<le> calculate_deterministic 5000 10 10000"
  by (rule work_score_monotone) (simp add: word_le_nat_alt)

section \<open>The coordinator\<close>

definition demo_commit :: "node_id \<Rightarrow> f64 \<Rightarrow> solution_commit" where
  "demo_commit n w = \<lparr>sc_node_id = n, sc_public_key = 0, sc_solution_hash = n, sc_work_score = w, sc_signature = []\<rparr>"

definition demo_coordinator_ext :: coordinator_ext where
  "demo_coordinator_ext = \<lparr>cx_float = flat_float, cx_crypto = length_crypto, cx_codec = length_block_codec, cx_unix = 5,
     cx_unsigned_ok = True\<rparr>"

definition demo_coordinator :: coordinator where
  "demo_coordinator = coordinator_new 0 1 coordinator_config_default 0 hash_ZERO 0"

definition demo_started :: coordinator where
  "demo_started = snd (run_start length_crypto 0 demo_coordinator)"

lemma demo_coordinator_finite: "finite (co_peers demo_coordinator)"
  by (simp add: demo_coordinator_def coordinator_new_def with_miner_address_def with_signing_key_def)

lemma demo_started_run:
  "coordinator_run demo_coordinator_ext demo_coordinator (fst (run_start length_crypto 0 demo_coordinator)) demo_started"
  by (rule coordinator_run.start[where now = 0]) (simp add: demo_started_def demo_coordinator_ext_def)

fun demo_commands :: "coordinator_command list \<Rightarrow> coordinator \<Rightarrow> coordinator" where
  "demo_commands [] co = co"
| "demo_commands (c # cs) co = demo_commands cs (snd (command_turn demo_coordinator_ext c co))"

lemma demo_commands_run:
  "coordinator_run demo_coordinator_ext demo_coordinator ev co \<Longrightarrow>
    \<exists>ev'. coordinator_run demo_coordinator_ext demo_coordinator ev' (demo_commands cs co)"
proof (induction cs arbitrary: ev co)
  case (Cons c cs)
  from coordinator_run.command[OF Cons.prems surjective_pairing] Cons.IH show ?case by (simp only: demo_commands.simps) blast
qed auto

text \<open>C4. Nodes that hold the same commits seal the same winner: the choice depends neither on the order in which the
  commits arrived nor on the order in which a hash map is walked, on any two runs of the coordinator.\<close>

theorem coordinators_agree_on_winner:
  assumes "coordinator_run E a0 ea a" and "coordinator_run E b0 eb b" and "finite (co_peers a0)" and "finite (co_peers b0)"
    and "set (cl_commits (co_collector a)) = set (cl_commits (co_collector b))"
  shows "select_winner (co_collector a) = select_winner (co_collector b)"
  using assms by (rule coordinators_agree)

definition demo_received :: "solution_commit list \<Rightarrow> coordinator" where
  "demo_received cs = demo_commands (map (CommitReceived 1) cs) demo_started"

lemma demo_received_run: "\<exists>ev. coordinator_run demo_coordinator_ext demo_coordinator ev (demo_received cs)"
  unfolding demo_received_def by (rule demo_commands_run[OF demo_started_run])

lemma demo_started_collector: "co_collector demo_started = collector_new 1" "es_epoch (co_epoch_state demo_started) = 1"
  by (simp_all add: demo_started_def run_start_def start_epoch_def Let_def set_salt_def epoch_state_new_at_def)

lemma demo_received_collector:
  "co_collector (demo_received cs) = fold (\<lambda>c cl. snd (add_commit length_crypto True c cl)) cs (collector_new 1)"
proof -
  have "co_collector (demo_commands (map (CommitReceived 1) cs) co) =
      fold (\<lambda>c cl. snd (add_commit length_crypto True c cl)) cs (co_collector co)"
    if "es_epoch (co_epoch_state co) = 1" for co
    using that by (induction cs arbitrary: co)
      (simp_all add: command_turn_def handle_command_def update_shared_state_def demo_coordinator_ext_def map_prod_def split_beta)
  then show ?thesis by (simp add: demo_received_def demo_started_collector)
qed

theorem coordinators_agree_on_winner_witness:
  "select_winner (co_collector (demo_received [demo_commit 1 f_one, demo_commit 2 f_one])) =
    select_winner (co_collector (demo_received [demo_commit 2 f_one, demo_commit 1 f_one]))"
proof -
  obtain ea where a: "coordinator_run demo_coordinator_ext demo_coordinator ea (demo_received [demo_commit 1 f_one, demo_commit 2 f_one])"
    using demo_received_run by blast
  obtain eb where b: "coordinator_run demo_coordinator_ext demo_coordinator eb (demo_received [demo_commit 2 f_one, demo_commit 1 f_one])"
    using demo_received_run by blast
  show ?thesis
    by (rule coordinators_agree_on_winner[OF a b demo_coordinator_finite demo_coordinator_finite])
      (auto simp: demo_received_collector add_commit_def demo_commit_def collector_new_def verify_commit_signature_def f_one_def f_zero_def)
qed

text \<open>C18. Epochs always go on: from any state in which the cached solution can be priced, whatever the delays of the
  timers, four of them firing take the coordinator to a later epoch, without a panic.\<close>

theorem epochs_go_on:
  assumes "local_ok co" and "unat (es_epoch (co_epoch_state co)) + length lates < 2 ^ 64"
    and "es_phase_start (co_epoch_state co) \<le> now"
  shows "\<exists>now' co'. timers E lates now co = Some (now', co') \<and>
    unat (es_epoch (co_epoch_state co)) + length lates div 4 \<le> unat (es_epoch (co_epoch_state co'))"
  using assms by (rule timers_next_epoch)

theorem epochs_go_on_witness:
  "\<exists>now' co'. timers demo_coordinator_ext [0, 7, 0, 10 ^ 12] 0 demo_started = Some (now', co') \<and>
    unat (es_epoch (co_epoch_state demo_started)) + length [0, 7, 0, 10 ^ 12 :: nat] div 4 \<le> unat (es_epoch (co_epoch_state co'))"
  by (rule epochs_go_on) (simp_all add: local_ok_def demo_started_collector,
    simp_all add: demo_started_def run_start_def)

text \<open>The limit on consecutive stalls is dead code: on every run every stall is reported as the first, since the new
  epoch that a stall starts resets the counter. So \<open>max_consecutive_stalls\<close>, 3 by default, is never reached.\<close>

theorem stall_count_is_always_one:
  assumes "coordinator_run E co0 events co" and "finite (co_peers co0)" and "EpochStalled e p (PhaseTimeout q n) \<in> set events"
  shows "n = 1"
  by (rule stalls_counted_once[OF assms(1,2,3)])

lemma demo_timer:
  assumes "coordinator_run demo_coordinator_ext demo_coordinator ev co" and "phase_time_remaining now co = 0"
    and "is_stalled now (co_config co) (co_epoch_state co)" and "\<not> has_exceeded_hard_deadline now (co_config co) (co_epoch_state co)"
  shows "\<exists>new co'. coordinator_run demo_coordinator_ext demo_coordinator (ev @ new) co' \<and>
    EpochStalled (es_epoch (co_epoch_state co)) (es_phase (co_epoch_state co))
      (PhaseTimeout (es_phase (co_epoch_state co)) (co_consecutive_stalls co + 1)) \<in> set new"
proof -
  obtain new co' where h: "handle_stall length_crypto now co = (new, co')" by (cases "handle_stall length_crypto now co")
  then have "handle_phase_expiry (demo_coordinator_ext\<lparr>cx_unix := 5\<rparr>) now co = Some (new, co')"
    using assms(3,4) by (simp add: handle_phase_expiry_def Let_def demo_coordinator_ext_def)
  then have "timer_turn (demo_coordinator_ext\<lparr>cx_unix := 5\<rparr>) now co = Some (new, update_shared_state length_crypto co')"
    by (simp add: timer_turn_def demo_coordinator_ext_def)
  from coordinator_run.timer[OF assms(1,2) this] h show ?thesis
    by (auto simp: handle_stall_def Let_def split: prod.splits)
qed

theorem stall_count_is_always_one_witness:
  "co_consecutive_stalls demo_started + 1 = 1"
proof -
  have "es_phase_start (co_epoch_state demo_started) = 0" "es_epoch_start (co_epoch_state demo_started) = 0"
    "es_phase (co_epoch_state demo_started) = SaltPhase" "co_config demo_started = coordinator_config_default"
    by (simp_all add: demo_started_def run_start_def start_epoch_def Let_def set_salt_def epoch_state_new_at_def
        demo_coordinator_def coordinator_new_def with_miner_address_def with_signing_key_def)
  then have c: "phase_time_remaining (secs 12) demo_started = 0" "is_stalled (secs 12) (co_config demo_started) (co_epoch_state demo_started)"
    "\<not> has_exceeded_hard_deadline (secs 12) (co_config demo_started) (co_epoch_state demo_started)"
    by (simp_all add: phase_time_remaining_def phase_elapsed_def is_stalled_def has_exceeded_hard_deadline_def
        epoch_elapsed_def coordinator_config_default_def)
  from demo_timer[OF demo_started_run c] obtain ev co where
    r: "coordinator_run demo_coordinator_ext demo_coordinator ev co"
    and e: "EpochStalled (es_epoch (co_epoch_state demo_started)) (es_phase (co_epoch_state demo_started))
      (PhaseTimeout (es_phase (co_epoch_state demo_started)) (co_consecutive_stalls demo_started + 1)) \<in> set ev" by auto
  show ?thesis by (rule stall_count_is_always_one[OF r demo_coordinator_finite e])
qed

text \<open>C39. Signed commits do not protect the quorum: the signed message names neither the node nor a peer, so the holder of
  any one key can commit in the names of any list of nodes, and the collector counts every one of them.\<close>

theorem one_key_fills_the_quorum:
  assumes "signing_correct X" and "verifying_key X sk \<noteq> 0" and "distinct nodes" and "is_finite w" and "0 < f_val w"
  shows "map fst (cl_commits (fold (\<lambda>n cl. snd (add_commit X u (signed_commit X sk epoch n h w) cl)) nodes (collector_new epoch))) = nodes"
  using assms by (rule sybil_quorum)

theorem one_key_fills_the_quorum_witness:
  "map fst (cl_commits (fold (\<lambda>n cl. snd (add_commit demo_crypto False (signed_commit demo_crypto 3 7 n 9 f_one) cl))
    [1, 2, 5] (collector_new 7))) = [1, 2, 5]"
  by (rule one_key_fills_the_quorum) (simp_all add: signing_correct_def demo_crypto_def f_one_def)

end
