(* ===== verification/Node_Store.thy ===== *)
theory Node_Store
  imports Core_Block
begin

text \<open>
  \<open>node/src/chain.rs\<close>: the block store. Three redb tables (blocks by hash, the height index of the
  best chain, metadata), the best tip mirrored in memory, and an LRU cache of decoded blocks. The
  tables are the record \<open>chain_db\<close>, a metadata key that was never written being \<open>None\<close>. The cache is a
  partial map; reads may fill it and the LRU policy may drop entries at any time (\<open>cache_step\<close>), so a
  read is a pure function of the state. Errors of the disk and of decoding are left out. A walk that
  need not end is a partial function: \<open>None\<close> is a call that does not return.
\<close>

section \<open>Definitions\<close>

definition MAX_REASONABLE_HEIGHT :: u64 where "MAX_REASONABLE_HEIGHT = 10000000"

datatype chain_error = BlockNotFound | ChainInvalidHeight | GenesisMismatch

record chain_db =
  cdb_blocks :: "hash \<Rightarrow> block option"
  cdb_height_index :: "u64 \<Rightarrow> hash option"
  cdb_genesis_hash :: "hash option"
  cdb_best_height :: "u64 option"
  cdb_best_hash :: "hash option"
  cdb_cum_work :: "u128 option"
  cdb_total_minted :: "u128 option"

record chain_state =
  chs_db :: chain_db
  chs_best_height :: u64
  chs_best_height_atomic :: u64
  chs_best_hash :: hash
  chs_genesis_hash :: hash
  chs_block_cache :: "hash \<Rightarrow> block option"

definition block_work :: "block \<Rightarrow> u128" where
  "block_work b = ucast (f_to_word (f_max (bh_work_score (blk_header b)) f_zero) :: u64)"

definition block_reward_of :: "block \<Rightarrow> u128" where
  "block_reward_of b = cb_reward (blk_coinbase b)"

abbreviation height_of :: "block \<Rightarrow> u64" where "height_of b \<equiv> bh_height (blk_header b)"
abbreviation parent_of :: "block \<Rightarrow> hash" where "parent_of b \<equiv> bh_prev_hash (blk_header b)"

text \<open>The two walks from a tip to height 0, \<open>compute_cumulative_work_tip_db\<close> and
  \<open>compute_total_minted_tip_db\<close>: they differ in what is summed.\<close>

partial_function (option) sum_to_genesis ::
  "(block \<Rightarrow> u128) \<Rightarrow> (hash \<Rightarrow> block option) \<Rightarrow> hash \<Rightarrow> u128 \<Rightarrow> (chain_error + u128) option" where
  "sum_to_genesis f blocks tip acc =
     (case blocks tip of None \<Rightarrow> Some (Inl BlockNotFound)
      | Some b \<Rightarrow>
          let acc' = saturating_add_word acc (f b)
          in if height_of b = 0 then Some (Inr acc') else sum_to_genesis f blocks (parent_of b) acc')"

definition compute_cumulative_work_tip_db :: "chain_db \<Rightarrow> hash \<Rightarrow> (chain_error + u128) option" where
  "compute_cumulative_work_tip_db db tip = sum_to_genesis block_work (cdb_blocks db) tip 0"

definition compute_total_minted_tip_db :: "chain_db \<Rightarrow> hash \<Rightarrow> (chain_error + u128) option" where
  "compute_total_minted_tip_db db tip = sum_to_genesis block_reward_of (cdb_blocks db) tip 0"

definition store_block_raw :: "crypto_ext \<Rightarrow> block_codec \<Rightarrow> block \<Rightarrow> chain_db \<Rightarrow> chain_db" where
  "store_block_raw X B b db = db\<lparr>cdb_blocks := (cdb_blocks db)(block_hash X B b \<mapsto> b)\<rparr>"

definition set_height_index :: "u64 \<Rightarrow> hash \<Rightarrow> chain_db \<Rightarrow> chain_db" where
  "set_height_index height h db = db\<lparr>cdb_height_index := (cdb_height_index db)(height \<mapsto> h)\<rparr>"

definition put_tip :: "u64 \<Rightarrow> hash \<Rightarrow> u128 \<Rightarrow> u128 \<Rightarrow> chain_db \<Rightarrow> chain_db" where
  "put_tip height h work minted db =
     db\<lparr>cdb_best_height := Some height, cdb_best_hash := Some h,
        cdb_cum_work := Some work, cdb_total_minted := Some minted\<rparr>"

definition ensure_cumulative_work_meta :: "hash \<Rightarrow> chain_db \<Rightarrow> ((chain_error + unit) \<times> chain_db) option" where
  "ensure_cumulative_work_meta tip db =
     (case cdb_cum_work db of Some _ \<Rightarrow> Some (Inr (), db)
      | None \<Rightarrow> (case compute_cumulative_work_tip_db db tip of None \<Rightarrow> None
          | Some (Inl e) \<Rightarrow> Some (Inl e, db)
          | Some (Inr w) \<Rightarrow> Some (Inr (), db\<lparr>cdb_cum_work := Some w\<rparr>)))"

definition ensure_total_minted_meta :: "hash \<Rightarrow> block \<Rightarrow> chain_db \<Rightarrow> chain_db option" where
  "ensure_total_minted_meta tip genesis db =
     (case cdb_total_minted db of Some _ \<Rightarrow> Some db
      | None \<Rightarrow> (case compute_total_minted_tip_db db tip of None \<Rightarrow> None
          | Some r \<Rightarrow> Some (db\<lparr>cdb_total_minted :=
              Some (case r of Inl _ \<Rightarrow> block_reward_of genesis | Inr m \<Rightarrow> m)\<rparr>)))"

text \<open>\<open>ChainState::new\<close>: the genesis block is stored when the tables are empty, a height above the
  bound resets the tip to genesis.\<close>

definition open_genesis :: "crypto_ext \<Rightarrow> block_codec \<Rightarrow> block \<Rightarrow> chain_db \<Rightarrow> chain_error + chain_db" where
  "open_genesis X B genesis db =
     (let g = block_hash X B genesis in
      case cdb_genesis_hash db of
        Some stored \<Rightarrow> if stored \<noteq> g then Inl GenesisMismatch else Inr db
      | None \<Rightarrow> Inr (set_height_index 0 g (store_block_raw X B genesis
          (put_tip 0 g (block_work genesis) (block_reward_of genesis) (db\<lparr>cdb_genesis_hash := Some g\<rparr>)))))"

definition chain_new ::
  "crypto_ext \<Rightarrow> block_codec \<Rightarrow> block \<Rightarrow> chain_db \<Rightarrow> (chain_error + chain_state) option" where
  "chain_new X B genesis db0 =
     (let g = block_hash X B genesis in
      case open_genesis X B genesis db0 of Inl e \<Rightarrow> Some (Inl e)
      | Inr db \<Rightarrow>
          let stored_height = unwrap_or (cdb_best_height db) 0;
              stored_hash = unwrap_or (cdb_best_hash db) g;
              corrupted = MAX_REASONABLE_HEIGHT < stored_height;
              best_height = (if corrupted then 0 else stored_height);
              best_hash = (if corrupted then g else stored_hash);
              db1 = (if corrupted then put_tip 0 g (block_work genesis) (block_reward_of genesis) db else db)
          in (case ensure_cumulative_work_meta best_hash db1 of None \<Rightarrow> None
              | Some (Inl e, _) \<Rightarrow> Some (Inl e)
              | Some (Inr _, db2) \<Rightarrow> (case ensure_total_minted_meta best_hash genesis db2 of None \<Rightarrow> None
                  | Some db3 \<Rightarrow> Some (Inr \<lparr>chs_db = db3, chs_best_height = best_height,
                      chs_best_height_atomic = best_height, chs_best_hash = best_hash,
                      chs_genesis_hash = g, chs_block_cache = Map.empty\<rparr>))))"

text \<open>Reads go to the cache first.\<close>

definition get_block_by_hash :: "chain_state \<Rightarrow> hash \<Rightarrow> block option" where
  "get_block_by_hash cs h =
     (case chs_block_cache cs h of Some b \<Rightarrow> Some b | None \<Rightarrow> cdb_blocks (chs_db cs) h)"

definition cache_read :: "hash \<Rightarrow> chain_state \<Rightarrow> chain_state" where
  "cache_read h cs =
     (case chs_block_cache cs h of Some _ \<Rightarrow> cs
      | None \<Rightarrow> (case cdb_blocks (chs_db cs) h of None \<Rightarrow> cs
          | Some b \<Rightarrow> cs\<lparr>chs_block_cache := (chs_block_cache cs)(h \<mapsto> b)\<rparr>))"

inductive cache_step :: "chain_state \<Rightarrow> chain_state \<Rightarrow> bool" where
  cache_fill: "cache_step cs (cache_read h cs)"
| cache_evict: "cache_step cs (cs\<lparr>chs_block_cache := (chs_block_cache cs)(h := None)\<rparr>)"

definition has_block :: "chain_state \<Rightarrow> hash \<Rightarrow> bool" where
  "has_block cs h \<longleftrightarrow> cdb_blocks (chs_db cs) h \<noteq> None"

text \<open>The hash \<open>n\<close> blocks below a tip.\<close>

fun walk_back :: "(hash \<Rightarrow> block option) \<Rightarrow> nat \<Rightarrow> hash \<Rightarrow> hash option" where
  "walk_back get 0 h = Some h"
| "walk_back get (Suc n) h = (case get h of None \<Rightarrow> None | Some b \<Rightarrow> walk_back get n (parent_of b))"

definition read_best_tip_from_db :: "chain_db \<Rightarrow> u64 \<times> hash" where
  "read_best_tip_from_db db = (unwrap_or (cdb_best_height db) 0, unwrap_or (cdb_best_hash db) hash_ZERO)"

definition get_canonical_block_by_height :: "chain_state \<Rightarrow> u64 \<Rightarrow> block option" where
  "get_canonical_block_by_height cs height =
     (case read_best_tip_from_db (chs_db cs) of (best_height, best_hash) \<Rightarrow>
        if best_height < height then None
        else case walk_back (get_block_by_hash cs) (unat best_height - unat height) best_hash of
               None \<Rightarrow> None | Some h \<Rightarrow> get_block_by_hash cs h)"

definition get_block_by_height :: "chain_state \<Rightarrow> u64 \<Rightarrow> block option" where
  "get_block_by_height cs height = get_canonical_block_by_height cs height"

definition get_header_by_height :: "chain_state \<Rightarrow> u64 \<Rightarrow> block_header option" where
  "get_header_by_height cs height = map_option blk_header (get_block_by_height cs height)"

definition best_block :: "chain_state \<Rightarrow> block option" where
  "best_block cs = get_block_by_hash cs (chs_best_hash cs)"

definition best_cumulative_work :: "chain_state \<Rightarrow> u128" where
  "best_cumulative_work cs = unwrap_or (cdb_cum_work (chs_db cs)) 0"

definition best_total_minted_rewards :: "chain_state \<Rightarrow> u128" where
  "best_total_minted_rewards cs = unwrap_or (cdb_total_minted (chs_db cs)) 0"

fun rebuild_index ::
  "(hash \<Rightarrow> block option) \<Rightarrow> nat \<Rightarrow> hash \<Rightarrow> chain_db \<Rightarrow> (chain_error + unit) \<times> chain_db" where
  "rebuild_index get 0 h db = (Inr (), set_height_index 0 h db)"
| "rebuild_index get (Suc n) h db =
     (let db' = set_height_index (of_nat (Suc n)) h db in
      case get h of None \<Rightarrow> (Inl ChainInvalidHeight, db')
      | Some b \<Rightarrow> rebuild_index get n (parent_of b) db')"

definition rebuild_height_index_from_canonical_tip ::
  "hash \<Rightarrow> u64 \<Rightarrow> (chain_state, chain_error, unit) step" where
  "rebuild_height_index_from_canonical_tip tip_hash tip_height cs =
     (case rebuild_index (get_block_by_hash cs) (unat tip_height) tip_hash (chs_db cs) of
        (r, db) \<Rightarrow> (r, cs\<lparr>chs_db := db\<rparr>))"

definition store_block ::
  "crypto_ext \<Rightarrow> block_codec \<Rightarrow> block \<Rightarrow> (chain_state, chain_error, bool) step" where
  "store_block X B b cs =
     (let h = block_hash X B b; height = height_of b in
      if MAX_REASONABLE_HEIGHT < height then (Inl ChainInvalidHeight, cs)
      else let db = store_block_raw X B b (chs_db cs); cs1 = cs\<lparr>chs_db := db\<rparr> in
        if chs_best_height cs1 < height then
          if parent_of b \<noteq> chs_best_hash cs1 then (Inr False, cs1)
          else let new_cum = saturating_add_word (unwrap_or (cdb_cum_work db) 0) (block_work b);
                   new_minted = saturating_add_word (unwrap_or (cdb_total_minted db) 0) (block_reward_of b)
               in (Inr True, cs1\<lparr>chs_best_height := height, chs_best_height_atomic := height,
                     chs_best_hash := h,
                     chs_db := set_height_index height h (put_tip height h new_cum new_minted db)\<rparr>)
        else (Inr False, cs1))"

section \<open>Reorganisation\<close>

definition block_by_hash_or_alt ::
  "crypto_ext \<Rightarrow> block_codec \<Rightarrow> chain_state \<Rightarrow> block list \<Rightarrow> hash \<Rightarrow> block option" where
  "block_by_hash_or_alt X B cs alt h =
     (case get_block_by_hash cs h of Some b \<Rightarrow> Some b
      | None \<Rightarrow> List.find (\<lambda>b. block_hash X B b = h) alt)"

text \<open>The shortcuts of the search: the parent of their block, or their hash itself, is our block of that
  height.\<close>

definition parent_match ::
  "crypto_ext \<Rightarrow> block_codec \<Rightarrow> chain_state \<Rightarrow> block \<Rightarrow> u64 \<Rightarrow> (hash \<times> u64) option" where
  "parent_match X B cs b height =
     (case get_block_by_height cs height of None \<Rightarrow> None
      | Some ours \<Rightarrow> if parent_of b = block_hash X B ours then Some (block_hash X B ours, height) else None)"

definition own_match ::
  "crypto_ext \<Rightarrow> block_codec \<Rightarrow> chain_state \<Rightarrow> hash \<Rightarrow> u64 \<Rightarrow> (hash \<times> u64) option" where
  "own_match X B cs h height =
     (case get_block_by_height cs height of None \<Rightarrow> None
      | Some ours \<Rightarrow> if h = block_hash X B ours then Some (h, height) else None)"

text \<open>Their branch is walked down to our height: \<open>Inl\<close> is a return, \<open>Inr\<close> the hash reached.\<close>

fun align_theirs ::
  "crypto_ext \<Rightarrow> block_codec \<Rightarrow> chain_state \<Rightarrow> block list \<Rightarrow> nat \<Rightarrow> hash \<Rightarrow> u64 \<Rightarrow> (hash \<times> u64) option + hash" where
  "align_theirs X B cs alt 0 h their_height = Inr h"
| "align_theirs X B cs alt (Suc d) h their_height =
     (case block_by_hash_or_alt X B cs alt h of
        None \<Rightarrow> Inl (own_match X B cs h their_height)
      | Some b \<Rightarrow> (case (if 0 < their_height then parent_match X B cs b (their_height - 1) else None) of
            Some r \<Rightarrow> Inl (Some r)
          | None \<Rightarrow> align_theirs X B cs alt d (parent_of b) (their_height - 1)))"

text \<open>Both branches at one height. The loop counts our height down; \<open>their_height\<close> keeps its value.\<close>

fun common_loop ::
  "crypto_ext \<Rightarrow> block_codec \<Rightarrow> chain_state \<Rightarrow> block list \<Rightarrow> u64 \<Rightarrow> nat \<Rightarrow> hash \<Rightarrow> hash \<Rightarrow> (hash \<times> u64) option" where
  "common_loop X B cs alt their_height 0 ours theirs = (if ours = theirs then Some (ours, 0) else None)"
| "common_loop X B cs alt their_height (Suc n) ours theirs =
     (if ours = theirs then Some (ours, of_nat (Suc n))
      else case get_block_by_hash cs ours of
        None \<Rightarrow> (case block_by_hash_or_alt X B cs alt theirs of None \<Rightarrow> None
          | Some their_block \<Rightarrow> parent_match X B cs their_block (of_nat (Suc n)))
      | Some our_block \<Rightarrow> (case block_by_hash_or_alt X B cs alt theirs of
            None \<Rightarrow> own_match X B cs theirs their_height
          | Some their_block \<Rightarrow>
              (case (if 0 < their_height then parent_match X B cs their_block (their_height - 1) else None) of
                 Some r \<Rightarrow> Some r
               | None \<Rightarrow> common_loop X B cs alt their_height n (parent_of our_block) (parent_of their_block))))"

definition find_common_ancestor_with_alt_chain ::
  "crypto_ext \<Rightarrow> block_codec \<Rightarrow> chain_state \<Rightarrow> hash \<Rightarrow> u64 \<Rightarrow> block list \<Rightarrow> (hash \<times> u64) option" where
  "find_common_ancestor_with_alt_chain X B cs target_hash target_height alt =
     (let best = unat (chs_best_height cs); target = unat target_height in
      case walk_back (get_block_by_hash cs) (best - target) (chs_best_hash cs) of None \<Rightarrow> None
      | Some ours \<Rightarrow>
          if target \<le> best \<and> ours = target_hash then Some (ours, target_height)
          else (case align_theirs X B cs alt (target - best) target_hash target_height of
             Inl r \<Rightarrow> r
           | Inr theirs \<Rightarrow> common_loop X B cs alt (min target_height (chs_best_height cs)) (min best target) ours theirs))"

definition find_common_ancestor ::
  "crypto_ext \<Rightarrow> block_codec \<Rightarrow> chain_state \<Rightarrow> hash \<Rightarrow> u64 \<Rightarrow> (hash \<times> u64) option" where
  "find_common_ancestor X B cs target_hash target_height =
     find_common_ancestor_with_alt_chain X B cs target_hash target_height []"

partial_function (option) path_loop ::
  "crypto_ext \<Rightarrow> block_codec \<Rightarrow> chain_state \<Rightarrow> hash \<Rightarrow> u64 \<Rightarrow> hash \<Rightarrow> u64 \<Rightarrow> block list \<Rightarrow> block list option" where
  "path_loop X B cs end_hash end_height current_hash current_height path =
     (if end_height < current_height then Some path
      else case get_block_by_hash cs current_hash of None \<Rightarrow> Some path
      | Some b \<Rightarrow>
          let path' = path @ [b] in
          if current_hash = end_hash then Some path'
          else let h = block_hash X B b; next_height = current_height + 1 in
            if next_height \<le> end_height then
              (case get_block_by_height cs next_height of None \<Rightarrow> Some path'
               | Some next_block \<Rightarrow>
                   if parent_of next_block = h
                   then path_loop X B cs end_hash end_height (block_hash X B next_block) next_height path'
                   else Some path')
            else path_loop X B cs end_hash end_height h next_height path')"

definition get_chain_path ::
  "crypto_ext \<Rightarrow> block_codec \<Rightarrow> chain_state \<Rightarrow> hash \<Rightarrow> u64 \<Rightarrow> hash \<Rightarrow> u64 \<Rightarrow> block list option" where
  "get_chain_path X B cs start_hash start_height end_hash end_height =
     (if end_height < start_height then Some []
      else if start_hash = end_hash
        then Some (case get_block_by_hash cs start_hash of None \<Rightarrow> [] | Some b \<Rightarrow> [b])
      else path_loop X B cs end_hash end_height start_hash start_height [])"

text \<open>The blocks of the best chain above a height, newest first.\<close>

definition blocks_above :: "chain_state \<Rightarrow> u64 \<Rightarrow> u64 \<Rightarrow> block list" where
  "blocks_above cs common_height best_height =
     rev (List.map_filter (\<lambda>n. get_block_by_height cs (of_nat n)) [unat common_height + 1..<unat best_height + 1])"

definition prepare_reorganization ::
  "crypto_ext \<Rightarrow> block_codec \<Rightarrow> chain_state \<Rightarrow> hash \<Rightarrow> u64 \<Rightarrow> chain_error + block list \<times> block list" where
  "prepare_reorganization X B cs new_best_hash new_best_height =
     (case find_common_ancestor X B cs new_best_hash new_best_height of
        None \<Rightarrow> Inl GenesisMismatch
      | Some (_, common_height) \<Rightarrow>
          Inr (if common_height < chs_best_height cs then blocks_above cs common_height (chs_best_height cs) else [], []))"

definition set_memory_tip :: "u64 \<Rightarrow> hash \<Rightarrow> chain_state \<Rightarrow> chain_state" where
  "set_memory_tip height h cs =
     cs\<lparr>chs_best_height := height, chs_best_height_atomic := height, chs_best_hash := h\<rparr>"

definition update_best_chain ::
  "hash \<Rightarrow> u64 \<Rightarrow> chain_state \<Rightarrow> ((chain_error + unit) \<times> chain_state) option" where
  "update_best_chain new_best_hash new_best_height cs =
     (let cs1 = set_memory_tip new_best_height new_best_hash cs in
      case compute_cumulative_work_tip_db (chs_db cs) new_best_hash of None \<Rightarrow> None
      | Some (Inl e) \<Rightarrow> Some (Inl e, cs1)
      | Some (Inr new_cum) \<Rightarrow>
          (case compute_total_minted_tip_db (chs_db cs) new_best_hash of None \<Rightarrow> None
           | Some (Inl e) \<Rightarrow> Some (Inl e, cs1)
           | Some (Inr new_minted) \<Rightarrow>
               Some (rebuild_height_index_from_canonical_tip new_best_hash new_best_height
                 (cs1\<lparr>chs_db := put_tip new_best_height new_best_hash new_cum new_minted (chs_db cs)\<rparr>))))"

text \<open>The entries of the height index between 1 and the bound, in order.\<close>

definition to_prune :: "chain_db \<Rightarrow> u64 \<Rightarrow> (u64 \<times> hash) list" where
  "to_prune db prune_below =
     List.map_filter (\<lambda>n. map_option (\<lambda>h. (of_nat n, h)) (cdb_height_index db (of_nat n))) [1..<unat prune_below]"

definition prune_blocks_before :: "u64 \<Rightarrow> chain_state \<Rightarrow> u64 \<times> chain_state" where
  "prune_blocks_before keep_height cs =
     (if keep_height = 0 then (0, cs)
      else let entries = to_prune (chs_db cs) (min keep_height (chs_best_height cs)) in
        if entries = [] then (0, cs)
        else (of_nat (length entries),
          cs\<lparr>chs_db := (chs_db cs)\<lparr>
               cdb_height_index := fold (\<lambda>(n, _) m. m(n := None)) entries (cdb_height_index (chs_db cs)),
               cdb_blocks := fold (\<lambda>(_, h) m. m(h := None)) entries (cdb_blocks (chs_db cs))\<rparr>,
             chs_block_cache := fold (\<lambda>(_, h) m. m(h := None)) entries (chs_block_cache cs)\<rparr>))"

definition calculate_chain_work :: "chain_state \<Rightarrow> u64 \<Rightarrow> u64" where
  "calculate_chain_work cs up_to_height =
     (case cdb_cum_work (chs_db cs) of Some cum \<Rightarrow> ucast (min cum (2 ^ 64 - 1))
      | None \<Rightarrow> fold (\<lambda>n s. case get_header_by_height cs (of_nat n) of None \<Rightarrow> s
                  | Some hdr \<Rightarrow> saturating_add_word s (f_to_word (bh_work_score hdr)))
          [0..<unat up_to_height + 1] 0)"

section \<open>Chains of blocks\<close>

text \<open>The blocks from a tip of height \<open>n\<close> down to height 0, when all are there and their heights count
  down by one.\<close>

primrec chain_down :: "(hash \<Rightarrow> block option) \<Rightarrow> nat \<Rightarrow> hash \<Rightarrow> block list option" where
  "chain_down get 0 h = (case get h of None \<Rightarrow> None | Some b \<Rightarrow> if unat (height_of b) = 0 then Some [b] else None)"
| "chain_down get (Suc n) h = (case get h of None \<Rightarrow> None
     | Some b \<Rightarrow> if unat (height_of b) = Suc n then map_option ((#) b) (chain_down get n (parent_of b)) else None)"

lemma chain_down_Suc:
  "chain_down get (Suc n) h = Some bs \<longleftrightarrow>
     (\<exists>b cs. get h = Some b \<and> unat (height_of b) = Suc n \<and> chain_down get n (parent_of b) = Some cs \<and> bs = b # cs)"
  by (auto split: option.splits)

lemma chain_down_0:
  "chain_down get 0 h = Some bs \<longleftrightarrow> (\<exists>b. get h = Some b \<and> unat (height_of b) = 0 \<and> bs = [b])"
  by (auto split: option.splits)

declare chain_down.simps [simp del]

lemma chain_down_length: "chain_down get n h = Some bs \<Longrightarrow> length bs = Suc n"
  by (induction n arbitrary: h bs) (auto simp: chain_down_0 chain_down_Suc)

lemma chain_down_mono:
  assumes "\<And>g b. get g = Some b \<Longrightarrow> get' g = Some b"
  shows "chain_down get n h = Some bs \<Longrightarrow> chain_down get' n h = Some bs"
  by (induction n arbitrary: h bs) (auto simp: chain_down_0 chain_down_Suc dest!: assms)

lemma walk_back_mono:
  assumes "\<And>g b. get g = Some b \<Longrightarrow> get' g = Some b"
  shows "walk_back get n h = Some g \<Longrightarrow> walk_back get' n h = Some g"
  by (induction n arbitrary: h) (auto dest!: assms split: option.splits)

lemma chain_down_nth:
  assumes "chain_down get n h = Some bs" and "i \<le> n"
  shows "\<exists>g. walk_back get i h = Some g \<and> get g = Some (bs ! i) \<and> unat (height_of (bs ! i)) = n - i"
  using assms
proof (induction n arbitrary: h bs i)
  case 0
  then show ?case by (auto simp: chain_down_0)
next
  case (Suc n)
  then obtain b cs where b: "get h = Some b" "unat (height_of b) = Suc n"
    "chain_down get n (parent_of b) = Some cs" "bs = b # cs" by (auto simp: chain_down_Suc)
  show ?case
  proof (cases i)
    case 0
    with b show ?thesis by simp
  next
    case (Suc j)
    with Suc.IH[OF b(3), of j] Suc.prems(2) b show ?thesis by auto
  qed
qed

lemma walk_back_add:
  "walk_back get (m + n) h = (case walk_back get m h of None \<Rightarrow> None | Some g \<Rightarrow> walk_back get n g)"
  by (induction m arbitrary: h) (simp_all split: option.split)

lemma walk_back_Suc_end:
  "walk_back get (Suc n) h = (case walk_back get n h of None \<Rightarrow> None
     | Some g \<Rightarrow> (case get g of None \<Rightarrow> None | Some b \<Rightarrow> Some (parent_of b)))"
proof -
  have "walk_back get 1 g = (case get g of None \<Rightarrow> None | Some b \<Rightarrow> Some (parent_of b))" for g
    by (simp only: One_nat_def walk_back.simps)
  with walk_back_add[of get n 1 h] show ?thesis by (simp only: Suc_eq_plus1)
qed

lemma chain_down_walk:
  assumes "chain_down get n h = Some bs" and "i \<le> n"
  obtains g where "walk_back get i h = Some g" and "chain_down get (n - i) g = Some (drop i bs)"
proof -
  have "\<exists>g. walk_back get i h = Some g \<and> chain_down get (n - i) g = Some (drop i bs)"
    using assms
  proof (induction i arbitrary: h n bs)
    case (Suc i)
    then obtain m where m: "n = Suc m" by (cases n) auto
    with Suc.prems obtain b cs where b: "get h = Some b" "chain_down get m (parent_of b) = Some cs" "bs = b # cs"
      by (auto simp: chain_down_Suc)
    with Suc.IH[OF b(2)] Suc.prems(2) m show ?case by simp
  qed simp
  with that show ?thesis by blast
qed

section \<open>Sums over a chain\<close>

text \<open>A saturating sum is the sum, cut at the greatest value: its order does not matter.\<close>

definition sum_over :: "(block \<Rightarrow> u128) \<Rightarrow> block list \<Rightarrow> u128 \<Rightarrow> u128" where
  "sum_over f bs s = fold (\<lambda>b s. saturating_add_word s (f b)) bs s"

lemma unat_sum_over: "unat (sum_over f bs s) = min (unat s + (\<Sum>b\<leftarrow>bs. unat (f b))) (2 ^ 128 - 1)"
proof (induction bs arbitrary: s)
  case Nil
  have "unat s \<le> 2 ^ 128 - 1" using unat_lt_pow[of s] by simp
  then show ?case by (simp add: sum_over_def)
next
  case (Cons b bs)
  have "sum_over f (b # bs) s = sum_over f bs (saturating_add_word s (f b))" by (simp add: sum_over_def)
  then show ?case by (simp add: Cons.IH unat_saturating_add)
qed

lemma sum_over_Cons: "sum_over f (b # bs) 0 = saturating_add_word (sum_over f bs 0) (f b)"
  by (rule word_unat_eq_iff[THEN iffD2]) (simp add: unat_sum_over unat_saturating_add)

lemma sum_to_genesis_chain:
  assumes "chain_down blocks n tip = Some bs"
  shows "sum_to_genesis f blocks tip acc = Some (Inr (sum_over f bs acc))"
  using assms
proof (induction n arbitrary: tip bs acc)
  case 0
  then show ?case by (subst sum_to_genesis.simps) (auto simp: chain_down_0 sum_over_def unat_eq_0)
next
  case (Suc n)
  then obtain b cs where b: "blocks tip = Some b" "unat (height_of b) = Suc n"
    "chain_down blocks n (parent_of b) = Some cs" "bs = b # cs" by (auto simp: chain_down_Suc)
  have "height_of b \<noteq> 0" using b(2) by auto
  with b Suc.IH[OF b(3)] show ?case by (subst sum_to_genesis.simps) (simp add: sum_over_def)
qed

section \<open>The store is a chain\<close>

text \<open>Blocks are stored under their hash; the metadata describe the chain from the best tip to the
  genesis block, with the sums of its work and rewards; the height index lists it; memory and cache agree
  with the tables.\<close>

definition keyed :: "crypto_ext \<Rightarrow> block_codec \<Rightarrow> chain_db \<Rightarrow> bool" where
  "keyed X B db \<longleftrightarrow> (\<forall>h b. cdb_blocks db h = Some b \<longrightarrow> block_hash X B b = h)"

definition tip_chain :: "chain_db \<Rightarrow> hash \<Rightarrow> u64 \<Rightarrow> hash \<Rightarrow> block list \<Rightarrow> bool" where
  "tip_chain db genesis n tip bs \<longleftrightarrow> chain_down (cdb_blocks db) (unat n) tip = Some bs \<and>
     walk_back (cdb_blocks db) (unat n) tip = Some genesis"

definition describes :: "chain_db \<Rightarrow> u64 \<Rightarrow> hash \<Rightarrow> block list \<Rightarrow> bool" where
  "describes db n tip bs \<longleftrightarrow> cdb_best_height db = Some n \<and> cdb_best_hash db = Some tip \<and>
     cdb_cum_work db = Some (sum_over block_work bs 0) \<and>
     cdb_total_minted db = Some (sum_over block_reward_of bs 0) \<and>
     (\<forall>i\<le>unat n. cdb_height_index db (of_nat i) = walk_back (cdb_blocks db) (unat n - i) tip)"

definition chain_ok :: "crypto_ext \<Rightarrow> block_codec \<Rightarrow> chain_state \<Rightarrow> bool" where
  "chain_ok X B cs \<longleftrightarrow> keyed X B (chs_db cs) \<and>
     cdb_genesis_hash (chs_db cs) = Some (chs_genesis_hash cs) \<and>
     chs_best_height_atomic cs = chs_best_height cs \<and> chs_best_height cs \<le> MAX_REASONABLE_HEIGHT \<and>
     (\<forall>h b. chs_block_cache cs h = Some b \<longrightarrow> cdb_blocks (chs_db cs) h = Some b) \<and>
     (\<exists>bs. tip_chain (chs_db cs) (chs_genesis_hash cs) (chs_best_height cs) (chs_best_hash cs) bs \<and>
           describes (chs_db cs) (chs_best_height cs) (chs_best_hash cs) bs)"

lemma coherent_reads:
  assumes "\<And>h b. chs_block_cache cs h = Some b \<Longrightarrow> cdb_blocks (chs_db cs) h = Some b"
  shows "get_block_by_hash cs = cdb_blocks (chs_db cs)"
  using assms by (auto simp: get_block_by_hash_def fun_eq_iff split: option.split)

lemma chain_ok_reads: "chain_ok X B cs \<Longrightarrow> get_block_by_hash cs = cdb_blocks (chs_db cs)"
  by (rule coherent_reads) (simp add: chain_ok_def)

lemma chain_ok_keyed: "chain_ok X B cs \<Longrightarrow> cdb_blocks (chs_db cs) h = Some b \<Longrightarrow> block_hash X B b = h"
  unfolding chain_ok_def keyed_def by blast

lemma chain_okE:
  assumes "chain_ok X B cs"
  obtains bs where "tip_chain (chs_db cs) (chs_genesis_hash cs) (chs_best_height cs) (chs_best_hash cs) bs"
    and "describes (chs_db cs) (chs_best_height cs) (chs_best_hash cs) bs"
  using assms unfolding chain_ok_def by blast

text \<open>The cache is transparent.\<close>

lemma cache_step_ok:
  assumes "cache_step cs cs'" and "chain_ok X B cs"
  shows "chain_ok X B cs'" and "get_block_by_hash cs' = get_block_by_hash cs" and "chs_db cs' = chs_db cs"
proof -
  have "chs_db cs' = chs_db cs \<and> chs_best_height cs' = chs_best_height cs \<and>
      chs_best_height_atomic cs' = chs_best_height_atomic cs \<and> chs_best_hash cs' = chs_best_hash cs \<and>
      chs_genesis_hash cs' = chs_genesis_hash cs \<and>
      (\<forall>h b. chs_block_cache cs' h = Some b \<longrightarrow> chs_block_cache cs h = Some b \<or> cdb_blocks (chs_db cs) h = Some b)"
    using assms(1) by cases (auto simp: cache_read_def split: option.split)
  then show "chain_ok X B cs'" and db: "chs_db cs' = chs_db cs" using assms(2) unfolding chain_ok_def by auto
  with chain_ok_reads[OF this(1)] chain_ok_reads[OF assms(2)]
  show "get_block_by_hash cs' = get_block_by_hash cs" by simp
qed

text \<open>Reading by height finds the block of the best chain, as the height index has it.\<close>

lemma get_block_by_height_walk:
  assumes "chain_ok X B cs"
  shows "get_block_by_height cs n = (if chs_best_height cs < n then None
    else Option.bind (walk_back (cdb_blocks (chs_db cs)) (unat (chs_best_height cs) - unat n) (chs_best_hash cs))
           (cdb_blocks (chs_db cs)))"
proof -
  obtain bs where "describes (chs_db cs) (chs_best_height cs) (chs_best_hash cs) bs"
    using assms by (rule chain_okE)
  then show ?thesis
    by (simp add: get_block_by_height_def get_canonical_block_by_height_def read_best_tip_from_db_def
        describes_def chain_ok_reads[OF assms] split: option.split)
qed

lemma get_block_by_height_index:
  assumes "chain_ok X B cs"
  shows "get_block_by_height cs n = (if chs_best_height cs < n then None
    else Option.bind (cdb_height_index (chs_db cs) n) (cdb_blocks (chs_db cs)))"
proof -
  obtain bs where d: "describes (chs_db cs) (chs_best_height cs) (chs_best_hash cs) bs"
    using assms by (rule chain_okE)
  show ?thesis
  proof (cases "chs_best_height cs < n")
    case False
    then have "unat n \<le> unat (chs_best_height cs)" by (simp add: word_le_nat_alt not_less)
    with d have "cdb_height_index (chs_db cs) (of_nat (unat n)) =
        walk_back (cdb_blocks (chs_db cs)) (unat (chs_best_height cs) - unat n) (chs_best_hash cs)"
      unfolding describes_def by blast
    with False show ?thesis by (simp add: get_block_by_height_walk[OF assms])
  qed (simp add: get_block_by_height_walk[OF assms])
qed

lemma get_block_by_height_Some:
  assumes ok: "chain_ok X B cs" and n: "n \<le> chs_best_height cs"
  shows "\<exists>b. get_block_by_height cs n = Some b \<and> height_of b = n \<and>
    walk_back (cdb_blocks (chs_db cs)) (unat (chs_best_height cs) - unat n) (chs_best_hash cs) = Some (block_hash X B b)"
proof -
  obtain bs where t: "tip_chain (chs_db cs) (chs_genesis_hash cs) (chs_best_height cs) (chs_best_hash cs) bs"
    using ok by (rule chain_okE)
  have le: "unat n \<le> unat (chs_best_height cs)" using n by (simp add: word_le_nat_alt)
  have cd: "chain_down (cdb_blocks (chs_db cs)) (unat (chs_best_height cs)) (chs_best_hash cs) = Some bs"
    using t by (simp add: tip_chain_def)
  obtain g where g: "walk_back (cdb_blocks (chs_db cs)) (unat (chs_best_height cs) - unat n) (chs_best_hash cs) = Some g"
    "cdb_blocks (chs_db cs) g = Some (bs ! (unat (chs_best_height cs) - unat n))"
    "unat (height_of (bs ! (unat (chs_best_height cs) - unat n))) = unat (chs_best_height cs) - (unat (chs_best_height cs) - unat n)"
    using chain_down_nth[OF cd diff_le_self] by blast
  have "\<not> chs_best_height cs < n" using n by simp
  moreover have "height_of (bs ! (unat (chs_best_height cs) - unat n)) = n"
    by (rule word_unat_eq_iff[THEN iffD2]) (use g(3) le in simp)
  ultimately show ?thesis
    using g by (simp add: get_block_by_height_walk[OF ok] chain_ok_keyed[OF ok g(2)])
qed

section \<open>Operations keep the store a chain\<close>

lemma chain_new_ok:
  assumes "cdb_genesis_hash db = None" and "height_of genesis = 0" and "cdb_blocks db = Map.empty"
  shows "\<exists>cs. chain_new X B genesis db = Some (Inr cs) \<and> chain_ok X B cs \<and>
    chs_best_hash cs = block_hash X B genesis \<and> chs_best_height cs = 0"
proof -
  let ?g = "block_hash X B genesis"
  define db1 where "db1 = set_height_index 0 ?g (store_block_raw X B genesis
    (put_tip 0 ?g (block_work genesis) (block_reward_of genesis) (db\<lparr>cdb_genesis_hash := Some ?g\<rparr>)))"
  define cs where "cs = \<lparr>chs_db = db1, chs_best_height = 0, chs_best_height_atomic = 0, chs_best_hash = ?g,
    chs_genesis_hash = ?g, chs_block_cache = Map.empty\<rparr>"
  have f: "cdb_genesis_hash db1 = Some ?g" "cdb_best_height db1 = Some 0" "cdb_best_hash db1 = Some ?g"
    "cdb_cum_work db1 = Some (block_work genesis)" "cdb_total_minted db1 = Some (block_reward_of genesis)"
    "cdb_blocks db1 = [?g \<mapsto> genesis]" "cdb_height_index db1 0 = Some ?g"
    using assms(3) by (simp_all add: db1_def set_height_index_def store_block_raw_def put_tip_def)
  have new: "chain_new X B genesis db = Some (Inr cs)"
    using assms(1) f
    by (simp add: chain_new_def open_genesis_def db1_def[symmetric] Let_def ensure_cumulative_work_meta_def
        ensure_total_minted_meta_def cs_def MAX_REASONABLE_HEIGHT_def)
  have z: "saturating_add_word 0 w = (w :: u128)" for w
    using unat_lt_pow[of w] by (simp add: saturating_add_word_def)
  have "chain_ok X B cs"
    using assms(2) f
    by (simp add: chain_ok_def cs_def keyed_def tip_chain_def describes_def chain_down_0 sum_over_def z
        MAX_REASONABLE_HEIGHT_def)
  with new show ?thesis by (simp add: cs_def)
qed

text \<open>Storing a block changes the walks only if it replaces another block of the same hash.\<close>

definition replaces_nothing :: "crypto_ext \<Rightarrow> block_codec \<Rightarrow> chain_db \<Rightarrow> block \<Rightarrow> bool" where
  "replaces_nothing X B db b \<longleftrightarrow> cdb_blocks db (block_hash X B b) \<in> {None, Some b}"

lemma stored_blocks_mono:
  "replaces_nothing X B db b \<Longrightarrow> cdb_blocks db g = Some c \<Longrightarrow>
    ((cdb_blocks db)(block_hash X B b \<mapsto> b)) g = Some c"
  by (auto simp: replaces_nothing_def)

lemma store_block_ok:
  assumes ok: "chain_ok X B cs" and fresh: "replaces_nothing X B (chs_db cs) b"
    and succ: "parent_of b = chs_best_hash cs \<Longrightarrow> chs_best_height cs < height_of b \<Longrightarrow>
      height_of b = chs_best_height cs + 1"
    and st: "store_block X B b cs = (r, cs')"
  shows "chain_ok X B cs'"
proof (cases "MAX_REASONABLE_HEIGHT < height_of b")
  case True
  with st ok show ?thesis by (simp add: store_block_def)
next
  case small: False
  let ?db = "chs_db cs" and ?h = "block_hash X B b" and ?n = "chs_best_height cs" and ?tip = "chs_best_hash cs"
  let ?blocks = "(cdb_blocks ?db)(?h \<mapsto> b)" and ?g = "chs_genesis_hash cs"
  obtain bs where t: "tip_chain ?db ?g ?n ?tip bs" and d: "describes ?db ?n ?tip bs" using ok by (rule chain_okE)
  note mono = stored_blocks_mono[OF fresh]
  have cd: "chain_down ?blocks (unat ?n) ?tip = Some bs" and wb: "walk_back ?blocks (unat ?n) ?tip = Some ?g"
    using t chain_down_mono[of "cdb_blocks ?db" ?blocks, OF mono] walk_back_mono[of "cdb_blocks ?db" ?blocks, OF mono]
    by (simp_all add: tip_chain_def)
  have walks: "walk_back ?blocks i ?tip = walk_back (cdb_blocks ?db) i ?tip" if i: "i \<le> unat ?n" for i
  proof -
    obtain g where "walk_back (cdb_blocks ?db) i ?tip = Some g"
      using chain_down_nth[of "cdb_blocks ?db" "unat ?n" ?tip bs i] t i by (auto simp: tip_chain_def)
    with walk_back_mono[of "cdb_blocks ?db" ?blocks, OF mono, of i ?tip] show ?thesis by simp
  qed
  have "block_hash X B c = h" if "?blocks h = Some c" for h c
  proof (cases "h = ?h")
    case True
    with that show ?thesis by simp
  next
    case False
    with that have "cdb_blocks ?db h = Some c" by simp
    then show ?thesis by (rule chain_ok_keyed[OF ok])
  qed
  then have keys: "\<forall>h c. ?blocks h = Some c \<longrightarrow> block_hash X B c = h" by blast
  have keyed: "keyed X B (?db\<lparr>cdb_blocks := ?blocks\<rparr>)" proof -
    have "cdb_blocks (?db\<lparr>cdb_blocks := ?blocks\<rparr>) = ?blocks" by simp
    then show ?thesis unfolding keyed_def by (simp only:) (rule keys)
  qed
  have cache: "?blocks h = Some c" if "chs_block_cache cs h = Some c" for h c
    using that ok mono unfolding chain_ok_def by blast
  show ?thesis
  proof (cases "?n < height_of b \<and> parent_of b = ?tip")
    case False
    then have "cs' = cs\<lparr>chs_db := store_block_raw X B b ?db\<rparr>"
      using st small by (auto simp: store_block_def Let_def split: if_splits)
    moreover have "describes (?db\<lparr>cdb_blocks := ?blocks\<rparr>) ?n ?tip bs" using d walks by (simp add: describes_def)
    ultimately show ?thesis using ok keyed cache cd wb
      by (auto simp: chain_ok_def store_block_raw_def tip_chain_def)
  next
    case True
    define m where "m = ?n + 1"
    have m: "height_of b = m" using succ True by (simp add: m_def)
    have "?n \<noteq> - 1" using ok True by auto
    then have um: "unat m = Suc (unat ?n)" unfolding m_def
      by (metis add.commute unatSuc add_eq_0_iff)
    define db' where "db' = set_height_index m ?h (put_tip m ?h
        (saturating_add_word (unwrap_or (cdb_cum_work ?db) 0) (block_work b))
        (saturating_add_word (unwrap_or (cdb_total_minted ?db) 0) (block_reward_of b)) (?db\<lparr>cdb_blocks := ?blocks\<rparr>))"
    have cs': "cs' = cs\<lparr>chs_best_height := m, chs_best_height_atomic := m, chs_best_hash := ?h, chs_db := db'\<rparr>"
      using st small True m by (auto simp: store_block_def store_block_raw_def Let_def db'_def)
    have f: "cdb_blocks db' = ?blocks" "cdb_best_height db' = Some m" "cdb_best_hash db' = Some ?h"
      "cdb_genesis_hash db' = cdb_genesis_hash ?db" "cdb_height_index db' = (cdb_height_index ?db)(m \<mapsto> ?h)"
      "cdb_cum_work db' = Some (sum_over block_work (b # bs) 0)"
      "cdb_total_minted db' = Some (sum_over block_reward_of (b # bs) 0)"
      using d by (simp_all add: db'_def set_height_index_def put_tip_def describes_def sum_over_Cons)
    have cd': "chain_down ?blocks (unat m) ?h = Some (b # bs)"
      using cd True by (simp add: um chain_down_Suc m)
    have wb': "walk_back ?blocks (unat m) ?h = Some ?g" using wb True by (simp add: um)
    have idx: "cdb_height_index db' (of_nat i) = walk_back ?blocks (unat m - i) ?h" if i: "i \<le> unat m" for i
    proof (cases "i = unat m")
      case False
      then have le: "i \<le> unat ?n" using i um by simp
      then have s: "unat m - i = Suc (unat ?n - i)" using um by simp
      have "of_nat i \<noteq> m" using i False by (metis le_unat_uoi)
      then have "cdb_height_index db' (of_nat i) = walk_back (cdb_blocks ?db) (unat ?n - i) ?tip"
        using d le by (simp add: f(5) describes_def)
      then show ?thesis using True by (simp add: s walks)
    qed (simp add: f(5))
    have t': "tip_chain db' ?g m ?h (b # bs)" by (simp only: tip_chain_def f(1) cd' wb' simp_thms)
    have d': "describes db' m ?h (b # bs)" unfolding describes_def using f(2,3,6,7) idx by (simp only: f(1)) blast
    have k': "keyed X B db'" unfolding keyed_def f(1) by (rule keys)
    have fields: "chs_db cs' = db'" "chs_best_height cs' = m" "chs_best_height_atomic cs' = m" "chs_best_hash cs' = ?h"
      "chs_genesis_hash cs' = ?g" "chs_block_cache cs' = chs_block_cache cs" by (simp_all add: cs')
    have g: "cdb_genesis_hash db' = Some ?g" "m \<le> MAX_REASONABLE_HEIGHT"
      using ok small m by (simp_all add: f(4) chain_ok_def)
    show ?thesis unfolding chain_ok_def fields f(1) using t' d' k' g cache by blast
  qed
qed

text \<open>Rebuilding the index writes the hashes of the walk.\<close>

lemma rebuild_index_chain:
  assumes "chain_down get n h = Some bs" and "n < 2 ^ 64"
  shows "\<exists>idx. rebuild_index get n h db = (Inr (), db\<lparr>cdb_height_index := idx\<rparr>) \<and>
    (\<forall>i\<le>n. idx (of_nat i) = walk_back get (n - i) h) \<and>
    (\<forall>k. n < unat k \<longrightarrow> idx k = cdb_height_index db k)"
  using assms
proof (induction n arbitrary: h bs db)
  case 0
  then show ?case
    by (intro exI[of _ "(cdb_height_index db)(0 \<mapsto> h)"] conjI)
       (simp add: set_height_index_def del: fun_upd_apply, auto)
next
  case (Suc n)
  then obtain b cs where b: "get h = Some b" "chain_down get n (parent_of b) = Some cs"
    by (auto simp: chain_down_Suc)
  let ?db = "set_height_index (of_nat (Suc n)) h db"
  have u: "unat (of_nat (Suc n) :: u64) = Suc n" using Suc.prems(2) by (simp only: unat_of_nat) simp
  from Suc.IH[OF b(2), of ?db] Suc.prems(2) obtain idx where
    r: "rebuild_index get n (parent_of b) ?db = (Inr (), ?db\<lparr>cdb_height_index := idx\<rparr>)" and
    lo: "\<forall>i\<le>n. idx (of_nat i) = walk_back get (n - i) (parent_of b)" and
    hi: "\<forall>k. n < unat k \<longrightarrow> idx k = cdb_height_index ?db k" by auto
  have "rebuild_index get (Suc n) h db = (Inr (), db\<lparr>cdb_height_index := idx\<rparr>)"
    using b(1) r by (simp add: Let_def set_height_index_def)
  moreover have "idx (of_nat i) = walk_back get (Suc n - i) h" if "i \<le> Suc n" for i
  proof (cases "i = Suc n")
    case True
    with hi u show ?thesis by (simp add: set_height_index_def)
  next
    case False
    then have "i \<le> n" using that by simp
    then show ?thesis using lo b(1) by (simp add: Suc_diff_le)
  qed
  moreover have "idx k = cdb_height_index db k" if "Suc n < unat k" for k
  proof -
    have "k \<noteq> of_nat (Suc n)" using that u by auto
    with hi that show ?thesis by (simp add: set_height_index_def)
  qed
  ultimately show ?case by blast
qed

text \<open>Moving the tip to another complete chain recomputes everything the store says about its tip.\<close>

lemma update_best_chain_ok:
  assumes ok: "chain_ok X B cs" and t: "tip_chain (chs_db cs) (chs_genesis_hash cs) n tip bs"
    and n: "n \<le> MAX_REASONABLE_HEIGHT"
  shows "\<exists>cs'. update_best_chain tip n cs = Some (Inr (), cs') \<and> chain_ok X B cs' \<and>
    chs_best_hash cs' = tip \<and> chs_best_height cs' = n \<and> cdb_blocks (chs_db cs') = cdb_blocks (chs_db cs)"
proof -
  let ?db = "chs_db cs"
  have cd: "chain_down (cdb_blocks ?db) (unat n) tip = Some bs" using t by (simp add: tip_chain_def)
  define db1 where "db1 = put_tip n tip (sum_over block_work bs 0) (sum_over block_reward_of bs 0) ?db"
  have "unat n < 2 ^ 64" using unat_lt_pow[of n] by simp
  from rebuild_index_chain[OF cd this, of db1] obtain idx where
    r: "rebuild_index (cdb_blocks ?db) (unat n) tip db1 = (Inr (), db1\<lparr>cdb_height_index := idx\<rparr>)" and
    idx: "\<forall>i\<le>unat n. idx (of_nat i) = walk_back (cdb_blocks ?db) (unat n - i) tip" by blast
  define db2 where "db2 = db1\<lparr>cdb_height_index := idx\<rparr>"
  define cs' where "cs' = (set_memory_tip n tip cs)\<lparr>chs_db := db2\<rparr>"
  have reads: "get_block_by_hash ((set_memory_tip n tip cs)\<lparr>chs_db := db1\<rparr>) = cdb_blocks ?db"
  proof -
    have "get_block_by_hash ((set_memory_tip n tip cs)\<lparr>chs_db := db1\<rparr>) = get_block_by_hash cs"
      by (simp add: get_block_by_hash_def set_memory_tip_def db1_def put_tip_def fun_eq_iff split: option.split)
    then show ?thesis by (simp only: chain_ok_reads[OF ok])
  qed
  have "update_best_chain tip n cs = Some (Inr (), cs')"
    by (simp add: update_best_chain_def compute_cumulative_work_tip_db_def compute_total_minted_tip_db_def
        sum_to_genesis_chain[OF cd] rebuild_height_index_from_canonical_tip_def db1_def[symmetric] reads r
        cs'_def db2_def)
  moreover have f: "cdb_blocks db2 = cdb_blocks ?db" "cdb_best_height db2 = Some n" "cdb_best_hash db2 = Some tip"
    "cdb_genesis_hash db2 = cdb_genesis_hash ?db" "cdb_cum_work db2 = Some (sum_over block_work bs 0)"
    "cdb_total_minted db2 = Some (sum_over block_reward_of bs 0)" "cdb_height_index db2 = idx"
    by (simp_all add: db2_def db1_def put_tip_def)
  moreover have "chain_ok X B cs'"
  proof -
    have fields: "chs_db cs' = db2" "chs_best_height cs' = n" "chs_best_height_atomic cs' = n" "chs_best_hash cs' = tip"
      "chs_genesis_hash cs' = chs_genesis_hash cs" "chs_block_cache cs' = chs_block_cache cs"
      by (simp_all add: cs'_def set_memory_tip_def)
    have "tip_chain db2 (chs_genesis_hash cs) n tip bs" using t by (simp add: tip_chain_def f)
    moreover have "describes db2 n tip bs" using idx by (simp add: describes_def f)
    moreover have "keyed X B db2" using ok by (simp add: chain_ok_def keyed_def f)
    moreover have "cdb_genesis_hash db2 = Some (chs_genesis_hash cs)"
      "\<forall>h b. chs_block_cache cs h = Some b \<longrightarrow> cdb_blocks db2 h = Some b" using ok by (simp_all add: chain_ok_def f)
    ultimately show ?thesis unfolding chain_ok_def fields using n by blast
  qed
  ultimately show ?thesis by (auto simp: cs'_def set_memory_tip_def)
qed

text \<open>When a block of the new chain is missing, as after pruning, the call fails after the tip in memory has
  moved: memory and metadata disagree from then on.\<close>

lemma sum_to_genesis_missing:
  assumes "walk_back blocks n tip = Some h" and "blocks h = None"
    and "\<And>i g b. i < n \<Longrightarrow> walk_back blocks i tip = Some g \<Longrightarrow> blocks g = Some b \<Longrightarrow> height_of b \<noteq> 0"
  shows "sum_to_genesis f blocks tip acc = Some (Inl BlockNotFound)"
  using assms
proof (induction n arbitrary: tip acc)
  case 0
  then show ?case by (subst sum_to_genesis.simps) simp
next
  case (Suc n)
  then obtain b where b: "blocks tip = Some b" "walk_back blocks n (parent_of b) = Some h"
    by (auto split: option.splits)
  have "height_of b \<noteq> 0" using Suc.prems(3)[of 0] b(1) by simp
  moreover have "sum_to_genesis f blocks (parent_of b) acc' = Some (Inl BlockNotFound)" for acc'
  proof (rule Suc.IH[OF b(2) Suc.prems(2)])
    fix i g c assume "i < n" "walk_back blocks i (parent_of b) = Some g" "blocks g = Some c"
    then show "height_of c \<noteq> 0" using Suc.prems(3)[of "Suc i" g c] b(1) by simp
  qed
  ultimately show ?case using b(1) by (subst sum_to_genesis.simps) (simp add: Let_def)
qed

lemma update_best_chain_missing:
  assumes "walk_back (cdb_blocks (chs_db cs)) k tip = Some h" and "cdb_blocks (chs_db cs) h = None"
    and "\<And>i g b. i < k \<Longrightarrow> walk_back (cdb_blocks (chs_db cs)) i tip = Some g \<Longrightarrow>
      cdb_blocks (chs_db cs) g = Some b \<Longrightarrow> height_of b \<noteq> 0"
  shows "update_best_chain tip n cs = Some (Inl BlockNotFound, set_memory_tip n tip cs)"
  using sum_to_genesis_missing[OF assms]
  by (simp add: update_best_chain_def compute_cumulative_work_tip_db_def)

text \<open>A block is stored under the hash of its header: another block with the same header takes its place,
  whatever it carries.\<close>

lemma store_block_replaces:
  assumes "height_of b \<le> MAX_REASONABLE_HEIGHT" and "blk_header b' = blk_header b"
    and "chs_block_cache cs (block_hash X B b) = None"
  shows "get_block_by_hash (snd (store_block X B b' cs)) (block_hash X B b) = Some b'"
  using assms
  by (auto simp: store_block_def get_block_by_hash_def block_hash_def store_block_raw_def put_tip_def
      set_height_index_def Let_def)

end
