(* ===== verification/Node_Chain_Spec.thy ===== *)
theory Node_Chain_Spec
  imports Node_Store CJ_Machine
begin

text \<open>
  The search for the common ancestor of the best chain and another one in \<open>node/src/chain.rs\<close>:
  when the other chain is complete in the store and the sync buffer, it returns the highest common
  block.
  Then the abstract store, a list of blocks, which the block store refines.
\<close>

section \<open>The two chains\<close>

text \<open>The hash of height \<open>m\<close> on our chain and on theirs, whose blocks may be in the buffer.\<close>

definition ours_at :: "chain_state \<Rightarrow> nat \<Rightarrow> hash option" where
  "ours_at cs m = walk_back (get_block_by_hash cs) (unat (chs_best_height cs) - m) (chs_best_hash cs)"

definition theirs_at ::
  "crypto_ext \<Rightarrow> block_codec \<Rightarrow> chain_state \<Rightarrow> block list \<Rightarrow> hash \<Rightarrow> u64 \<Rightarrow> nat \<Rightarrow> hash option" where
  "theirs_at X B cs alt target_hash target_height m =
     walk_back (block_by_hash_or_alt X B cs alt) (unat target_height - m) target_hash"

definition complete_branch ::
  "crypto_ext \<Rightarrow> block_codec \<Rightarrow> chain_state \<Rightarrow> block list \<Rightarrow> hash \<Rightarrow> u64 \<Rightarrow> bool" where
  "complete_branch X B cs alt target_hash target_height \<longleftrightarrow>
     (\<exists>bs. chain_down (block_by_hash_or_alt X B cs alt) (unat target_height) target_hash = Some bs) \<and>
     theirs_at X B cs alt target_hash target_height 0 = Some (chs_genesis_hash cs)"

lemma walk_back_step:
  assumes "walk_back get (n - Suc m) h = Some g" and "get g = Some b" and "Suc m \<le> n"
  shows "walk_back get (n - m) h = Some (parent_of b)"
proof -
  have "n - m = Suc (n - Suc m)" using assms(3) by simp
  then show ?thesis using assms(1,2) by (simp only: walk_back_Suc_end option.case)
qed

lemma chain_down_at:
  assumes "chain_down get n h = Some bs" and "m \<le> n"
  obtains g b where "walk_back get (n - m) h = Some g" and "get g = Some b" and "unat (height_of b) = m"
  using chain_down_nth[OF assms(1), of "n - m"] assms(2) that by auto

lemma ours_block:
  assumes ok: "chain_ok X B cs" and m: "m \<le> unat (chs_best_height cs)"
  obtains g b where "ours_at cs m = Some g" and "get_block_by_hash cs g = Some b" and "unat (height_of b) = m"
    and "block_hash X B b = g"
proof -
  obtain bs where "tip_chain (chs_db cs) (chs_genesis_hash cs) (chs_best_height cs) (chs_best_hash cs) bs"
    using ok by (rule chain_okE)
  then have "chain_down (get_block_by_hash cs) (unat (chs_best_height cs)) (chs_best_hash cs) = Some bs"
    by (simp add: tip_chain_def chain_ok_reads[OF ok])
  from chain_down_at[OF this m] obtain g b where
    "walk_back (get_block_by_hash cs) (unat (chs_best_height cs) - m) (chs_best_hash cs) = Some g"
    "get_block_by_hash cs g = Some b" "unat (height_of b) = m" by blast
  moreover from this(2) have "block_hash X B b = g" by (simp add: chain_ok_reads[OF ok] chain_ok_keyed[OF ok])
  ultimately show thesis using that by (simp add: ours_at_def)
qed

lemma ours_genesis:
  assumes "chain_ok X B cs"
  shows "ours_at cs 0 = Some (chs_genesis_hash cs)"
  using assms by (rule chain_okE) (simp add: ours_at_def tip_chain_def chain_ok_reads[OF assms])

lemma ours_step:
  assumes "ours_at cs (Suc m) = Some g" and "get_block_by_hash cs g = Some b" and "Suc m \<le> unat (chs_best_height cs)"
  shows "ours_at cs m = Some (parent_of b)"
  using assms unfolding ours_at_def by (rule walk_back_step)

lemma theirs_block:
  assumes "complete_branch X B cs alt th n" and "m \<le> unat n"
  obtains g b where "theirs_at X B cs alt th n m = Some g" and "block_by_hash_or_alt X B cs alt g = Some b"
    and "unat (height_of b) = m"
  using assms chain_down_at unfolding complete_branch_def theirs_at_def by metis

lemma theirs_step:
  assumes "theirs_at X B cs alt th n (Suc m) = Some g" and "block_by_hash_or_alt X B cs alt g = Some b"
    and "Suc m \<le> unat n"
  shows "theirs_at X B cs alt th n m = Some (parent_of b)"
  using assms unfolding theirs_at_def by (rule walk_back_step)

text \<open>The shortcut compares with our chain at the given height.\<close>

lemma parent_match_iff:
  assumes ok: "chain_ok X B cs"
  shows "parent_match X B cs b n =
    (if n \<le> chs_best_height cs \<and> ours_at cs (unat n) = Some (parent_of b) then Some (parent_of b, n) else None)"
proof (cases "n \<le> chs_best_height cs")
  case True
  from get_block_by_height_Some[OF ok True] obtain c where
    "get_block_by_height cs n = Some c" "ours_at cs (unat n) = Some (block_hash X B c)"
    by (auto simp: ours_at_def chain_ok_reads[OF ok])
  with True show ?thesis by (auto simp: parent_match_def)
next
  case False
  then show ?thesis by (simp add: parent_match_def get_block_by_height_walk[OF ok] not_le)
qed

section \<open>The search\<close>

lemma align_theirs_spec:
  assumes ok: "chain_ok X B cs" and br: "complete_branch X B cs alt th n"
    and "theirs_at X B cs alt th n (unat h) = Some g" and "unat h = unat (chs_best_height cs) + d" and "unat h \<le> unat n"
  shows "case align_theirs X B cs alt d g h of
      Inl r \<Rightarrow> \<exists>a. r = Some (a, chs_best_height cs) \<and> ours_at cs (unat (chs_best_height cs)) = Some a \<and>
        theirs_at X B cs alt th n (unat (chs_best_height cs)) = Some a
    | Inr a \<Rightarrow> theirs_at X B cs alt th n (unat (chs_best_height cs)) = Some a"
  using assms(3-)
proof (induction d arbitrary: g h)
  case 0
  then show ?case by simp
next
  case (Suc d)
  have pos: "0 < h" using Suc.prems(2) by (simp add: word_less_nat_alt)
  then have um: "unat (h - 1) = unat (chs_best_height cs) + d" using Suc.prems(2)
    by (metis add_Suc_right diff_Suc_1 unat_minus_one word_not_simps(1))
  obtain g' b where "theirs_at X B cs alt th n (unat h) = Some g'" and
    b: "block_by_hash_or_alt X B cs alt g' = Some b" by (rule theirs_block[OF br Suc.prems(3)])
  with Suc.prems(1) have b: "block_by_hash_or_alt X B cs alt g = Some b" by simp
  have hs: "unat h = Suc (unat (h - 1))" using um Suc.prems(2) by simp
  have step: "theirs_at X B cs alt th n (unat (h - 1)) = Some (parent_of b)"
    by (rule theirs_step[OF _ b]) (use Suc.prems hs in simp_all)
  show ?case
  proof (cases "parent_match X B cs b (h - 1)")
    case None
    then have "align_theirs X B cs alt (Suc d) g h = align_theirs X B cs alt d (parent_of b) (h - 1)"
      using pos by (simp add: b)
    with Suc.IH[OF step um] Suc.prems(3) hs show ?thesis by simp
  next
    case (Some r)
    then have r: "r = (parent_of b, h - 1)" "h - 1 \<le> chs_best_height cs" "ours_at cs (unat (h - 1)) = Some (parent_of b)"
      by (auto simp: parent_match_iff[OF ok] split: if_splits)
    then have "h - 1 = chs_best_height cs" using um by (simp add: word_unat_eq_iff word_le_nat_alt)
    with r step Some pos b show ?thesis by simp
  qed
qed

lemma common_loop_spec:
  assumes ok: "chain_ok X B cs" and br: "complete_branch X B cs alt th n"
    and "ours_at cs k = Some a" and "theirs_at X B cs alt th n k = Some c"
    and "k \<le> unat (chs_best_height cs)" and "k \<le> unat n"
  shows "\<exists>r j. common_loop X B cs alt t k a c = Some (r, j) \<and> unat j \<le> k \<and> ours_at cs (unat j) = Some r \<and>
    theirs_at X B cs alt th n (unat j) = Some r \<and>
    (\<forall>m. unat j < m \<longrightarrow> m \<le> k \<longrightarrow> ours_at cs m \<noteq> theirs_at X B cs alt th n m)"
  using assms(3-)
proof (induction k arbitrary: a c)
  case 0
  then have "a = c" using br ours_genesis[OF ok] by (simp add: complete_branch_def)
  with 0 show ?case by simp
next
  case (Suc k)
  show ?case
  proof (cases "a = c")
    case True
    have "Suc k < 2 ^ 64" using Suc.prems(4) unat_lt_pow[of n] by simp
    then have "unat (of_nat (Suc k) :: u64) = Suc k" by (simp only: unat_of_nat) simp
    with True Suc.prems show ?thesis by (intro exI[of _ a] exI[of _ "of_nat (Suc k)"]) simp
  next
    case ne: False
    obtain a' ob where "ours_at cs (Suc k) = Some a'" and ob: "get_block_by_hash cs a' = Some ob"
      by (rule ours_block[OF ok Suc.prems(3)])
    with Suc.prems(1) have ob: "get_block_by_hash cs a = Some ob" by simp
    obtain c' tb where "theirs_at X B cs alt th n (Suc k) = Some c'" and tb: "block_by_hash_or_alt X B cs alt c' = Some tb"
      by (rule theirs_block[OF br Suc.prems(4)])
    with Suc.prems(2) have tb: "block_by_hash_or_alt X B cs alt c = Some tb" by simp
    have so: "ours_at cs k = Some (parent_of ob)" by (rule ours_step[OF Suc.prems(1) ob Suc.prems(3)])
    have st: "theirs_at X B cs alt th n k = Some (parent_of tb)" by (rule theirs_step[OF Suc.prems(2) tb Suc.prems(4)])
    have neq: "ours_at cs (Suc k) \<noteq> theirs_at X B cs alt th n (Suc k)" using Suc.prems(1,2) ne by simp
    show ?thesis
    proof (cases "if 0 < t then parent_match X B cs tb (t - 1) else None")
      case None
      then have "common_loop X B cs alt t (Suc k) a c = common_loop X B cs alt t k (parent_of ob) (parent_of tb)"
        using ne by (simp add: ob tb)
      moreover obtain r j where "common_loop X B cs alt t k (parent_of ob) (parent_of tb) = Some (r, j)"
        "unat j \<le> k" "ours_at cs (unat j) = Some r" "theirs_at X B cs alt th n (unat j) = Some r"
        "\<forall>m. unat j < m \<longrightarrow> m \<le> k \<longrightarrow> ours_at cs m \<noteq> theirs_at X B cs alt th n m"
        using Suc.IH[OF so st] Suc.prems(3,4) by auto
      ultimately show ?thesis using neq by (intro exI[of _ r] exI[of _ j]) (auto simp: le_Suc_eq)
    next
      case (Some p)
      then have p: "p = (parent_of tb, t - 1)" "t - 1 \<le> chs_best_height cs"
        "ours_at cs (unat (t - 1)) = Some (parent_of tb)"
        by (auto simp: parent_match_iff[OF ok] split: if_splits)
      obtain g pb where "ours_at cs (unat (t - 1)) = Some g" "get_block_by_hash cs g = Some pb"
        and hp: "unat (height_of pb) = unat (t - 1)"
        by (rule ours_block[OF ok, of "unat (t - 1)"]) (use p(2) in \<open>simp_all add: word_le_nat_alt\<close>)
      with p(3) have gp: "get_block_by_hash cs (parent_of tb) = Some pb" by simp
      obtain g' pb' where "theirs_at X B cs alt th n k = Some g'" "block_by_hash_or_alt X B cs alt g' = Some pb'"
        and hk: "unat (height_of pb') = k"
        by (rule theirs_block[OF br, of k]) (use Suc.prems(4) in simp)
      with st gp have "pb' = pb" by (simp add: block_by_hash_or_alt_def)
      with hp hk have k: "unat (t - 1) = k" by simp
      have "common_loop X B cs alt t (Suc k) a c = Some p" using ne Some by (simp add: ob tb)
      then show ?thesis using p st neq k by (intro exI[of _ "parent_of tb"] exI[of _ "t - 1"]) (auto simp: le_Suc_eq)
    qed
  qed
qed

text \<open>The result is the highest block the two chains share.\<close>

lemma find_common_ancestor_highest:
  assumes ok: "chain_ok X B cs" and br: "complete_branch X B cs alt th n"
  shows "\<exists>a j. find_common_ancestor_with_alt_chain X B cs th n alt = Some (a, j) \<and>
    j \<le> min (chs_best_height cs) n \<and> ours_at cs (unat j) = Some a \<and> theirs_at X B cs alt th n (unat j) = Some a \<and>
    (\<forall>m. unat j < m \<longrightarrow> m \<le> unat (min (chs_best_height cs) n) \<longrightarrow> ours_at cs m \<noteq> theirs_at X B cs alt th n m)"
proof -
  let ?best = "chs_best_height cs"
  define k where "k = min (unat ?best) (unat n)"
  have k: "k \<le> unat ?best" "k \<le> unat n" "unat (min ?best n) = k" by (auto simp: k_def min_def word_le_nat_alt)
  have d: "unat ?best - unat n = unat ?best - k" by (simp add: k_def)
  obtain a where a: "ours_at cs k = Some a" by (rule ours_block[OF ok k(1)])
  then have wb: "walk_back (get_block_by_hash cs) (unat ?best - unat n) (chs_best_hash cs) = Some a"
    by (simp add: ours_at_def d)
  have tn: "theirs_at X B cs alt th n (unat n) = Some th" by (simp add: theirs_at_def)
  consider (same) "unat n \<le> unat ?best" "a = th" | (other) "\<not> (unat n \<le> unat ?best \<and> a = th)" by blast
  then show ?thesis
  proof cases
    case same
    then have "k = unat n" by (simp add: k_def)
    with same wb a tn k show ?thesis
      by (intro exI[of _ a] exI[of _ n]) (auto simp: find_common_ancestor_with_alt_chain_def Let_def word_le_nat_alt)
  next
    case other
    let ?al = "align_theirs X B cs alt (unat n - unat ?best) th n"
    have F: "find_common_ancestor_with_alt_chain X B cs th n alt = (case ?al of Inl r \<Rightarrow> r
        | Inr c \<Rightarrow> common_loop X B cs alt (min n ?best) k a c)"
      using other unfolding find_common_ancestor_with_alt_chain_def Let_def wb k_def
      by (simp only: option.case if_False)
    have loop: ?thesis if "?al = Inr c" "theirs_at X B cs alt th n k = Some c" for c
    proof -
      from common_loop_spec[OF ok br a that(2) k(1,2), of "min n ?best"] obtain r j where
        "common_loop X B cs alt (min n ?best) k a c = Some (r, j)" "unat j \<le> k" "ours_at cs (unat j) = Some r"
        "theirs_at X B cs alt th n (unat j) = Some r"
        "\<forall>m. unat j < m \<longrightarrow> m \<le> k \<longrightarrow> ours_at cs m \<noteq> theirs_at X B cs alt th n m" by blast
      moreover from this(2) have "j \<le> min ?best n" by (simp add: word_le_nat_alt k(3))
      ultimately show ?thesis using F that(1) k(3) by simp
    qed
    show ?thesis
    proof (cases "unat n \<le> unat ?best")
      case True
      then have "?al = Inr th" "k = unat n" by (simp_all add: k_def)
      with loop tn show ?thesis by blast
    next
      case False
      then have k': "k = unat ?best" "unat n = unat ?best + (unat n - unat ?best)" by (simp_all add: k_def)
      note sp = align_theirs_spec[OF ok br tn k'(2) order_refl]
      show ?thesis
      proof (cases ?al)
        case (Inr c)
        with sp k'(1) loop show ?thesis by simp
      next
        case (Inl r)
        with sp obtain b where "r = Some (b, ?best)" "ours_at cs (unat ?best) = Some b"
          "theirs_at X B cs alt th n (unat ?best) = Some b" by auto
        moreover have "?best \<le> min ?best n" using False by (simp add: word_le_nat_alt)
        ultimately show ?thesis using F Inl k(3) k'(1) by simp
      qed
    qed
  qed
qed

text \<open>
  What the block store of \<open>node/src/chain.rs\<close> promises, without its tables: the best chain is a list of blocks, genesis
  first; storing the successor of its last block appends it, storing any other block leaves the list alone; reads by
  height index the list; work and minted rewards are its (saturating) sums.
\<close>

definition best_chain :: "chain_state \<Rightarrow> block list" where
  "best_chain cs = rev (unwrap_or (chain_down (cdb_blocks (chs_db cs)) (unat (chs_best_height cs)) (chs_best_hash cs)) [])"

definition spec_store :: "crypto_ext \<Rightarrow> block_codec \<Rightarrow> block list \<Rightarrow> block \<Rightarrow> block list" where
  "spec_store X B c b =
     (if parent_of b = block_hash X B (last c) \<and> unat (height_of b) = length c then c @ [b] else c)"

definition spec_get :: "block list \<Rightarrow> nat \<Rightarrow> block option" where
  "spec_get c n = (if n < length c then Some (c ! n) else None)"

text \<open>What a caller of \<open>store_block\<close> has checked: the height is in range, no other block has this hash, and a block
  on the tip is the next one.\<close>

definition storable :: "crypto_ext \<Rightarrow> block_codec \<Rightarrow> chain_state \<Rightarrow> block \<Rightarrow> bool" where
  "storable X B cs b \<longleftrightarrow> height_of b \<le> MAX_REASONABLE_HEIGHT \<and> replaces_nothing X B (chs_db cs) b \<and>
     (parent_of b = chs_best_hash cs \<longrightarrow> chs_best_height cs < height_of b \<longrightarrow> height_of b = chs_best_height cs + 1)"

definition store_step :: "crypto_ext \<Rightarrow> block_codec \<Rightarrow> chain_state \<Rightarrow> block \<Rightarrow> chain_state" where
  "store_step X B cs b = snd (store_block X B b cs)"

lemma best_chainE:
  assumes "chain_ok X B cs"
  obtains bs where "tip_chain (chs_db cs) (chs_genesis_hash cs) (chs_best_height cs) (chs_best_hash cs) bs"
    and "describes (chs_db cs) (chs_best_height cs) (chs_best_hash cs) bs" and "best_chain cs = rev bs"
    and "length bs = Suc (unat (chs_best_height cs))"
proof -
  from assms obtain bs where t: "tip_chain (chs_db cs) (chs_genesis_hash cs) (chs_best_height cs) (chs_best_hash cs) bs"
    and d: "describes (chs_db cs) (chs_best_height cs) (chs_best_hash cs) bs" by (rule chain_okE)
  have "best_chain cs = rev bs" using t by (simp add: best_chain_def tip_chain_def)
  moreover have "length bs = Suc (unat (chs_best_height cs))" using t chain_down_length by (auto simp: tip_chain_def)
  ultimately show thesis using that t d by blast
qed

lemma length_best_chain: "chain_ok X B cs \<Longrightarrow> length (best_chain cs) = Suc (unat (chs_best_height cs))"
  by (erule best_chainE) simp

lemma last_best_chain:
  assumes ok: "chain_ok X B cs"
  shows "block_hash X B (last (best_chain cs)) = chs_best_hash cs"
proof -
  from ok obtain bs where t: "tip_chain (chs_db cs) (chs_genesis_hash cs) (chs_best_height cs) (chs_best_hash cs) bs"
    and c: "best_chain cs = rev bs" "length bs = Suc (unat (chs_best_height cs))" by (rule best_chainE)
  have "cdb_blocks (chs_db cs) (chs_best_hash cs) = Some (bs ! 0)"
    using t chain_down_nth[of "cdb_blocks (chs_db cs)" "unat (chs_best_height cs)" "chs_best_hash cs" bs 0]
    by (auto simp: tip_chain_def)
  then have "block_hash X B (bs ! 0) = chs_best_hash cs" by (rule chain_ok_keyed[OF ok])
  moreover have "last (best_chain cs) = bs ! 0" using c by (cases bs) auto
  ultimately show ?thesis by simp
qed

lemma get_block_by_height_spec:
  assumes ok: "chain_ok X B cs"
  shows "get_block_by_height cs n = spec_get (best_chain cs) (unat n)"
proof (cases "chs_best_height cs < n")
  case True
  then show ?thesis using length_best_chain[OF ok]
    by (simp add: get_block_by_height_index[OF ok] spec_get_def word_less_nat_alt)
next
  case False
  then have n: "unat n \<le> unat (chs_best_height cs)" by (simp add: word_le_nat_alt not_less)
  from ok obtain bs where t: "tip_chain (chs_db cs) (chs_genesis_hash cs) (chs_best_height cs) (chs_best_hash cs) bs"
    and c: "best_chain cs = rev bs" "length bs = Suc (unat (chs_best_height cs))" by (rule best_chainE)
  have cd: "chain_down (cdb_blocks (chs_db cs)) (unat (chs_best_height cs)) (chs_best_hash cs) = Some bs"
    using t by (simp add: tip_chain_def)
  obtain g where g: "walk_back (cdb_blocks (chs_db cs)) (unat (chs_best_height cs) - unat n) (chs_best_hash cs) = Some g"
    "cdb_blocks (chs_db cs) g = Some (bs ! (unat (chs_best_height cs) - unat n))"
    using chain_down_nth[OF cd diff_le_self] by blast
  have "rev bs ! unat n = bs ! (unat (chs_best_height cs) - unat n)" using c(2) n by (simp add: rev_nth)
  then show ?thesis using False g n c
    by (simp add: get_block_by_height_walk[OF ok] spec_get_def less_Suc_eq_le)
qed

text \<open>Storing refines appending.\<close>

lemma store_step_refines:
  assumes ok: "chain_ok X B cs" and pre: "storable X B cs b"
  shows "best_chain (store_step X B cs b) = spec_store X B (best_chain cs) b"
proof -
  let ?db = "chs_db cs" and ?h = "block_hash X B b" and ?n = "chs_best_height cs" and ?tip = "chs_best_hash cs"
  let ?blocks = "(cdb_blocks ?db)(?h \<mapsto> b)"
  have small: "\<not> MAX_REASONABLE_HEIGHT < height_of b" and fresh: "replaces_nothing X B ?db b"
    using pre by (simp_all add: storable_def not_less)
  from ok obtain bs where t: "tip_chain ?db (chs_genesis_hash cs) ?n ?tip bs"
    and c: "best_chain cs = rev bs" "length bs = Suc (unat ?n)" by (rule best_chainE)
  have cd: "chain_down ?blocks (unat ?n) ?tip = Some bs"
    using t chain_down_mono[of "cdb_blocks ?db" ?blocks, OF stored_blocks_mono[OF fresh]] by (simp add: tip_chain_def)
  have last: "block_hash X B (last (best_chain cs)) = ?tip" by (rule last_best_chain[OF ok])
  have max: "?n \<noteq> - 1" using ok by (auto simp: chain_ok_def MAX_REASONABLE_HEIGHT_def word_le_nat_alt unat_max_word)
  then have um: "unat (?n + 1) = Suc (unat ?n)" by (metis add.commute unatSuc add_eq_0_iff)
  show ?thesis
  proof (cases "?n < height_of b \<and> parent_of b = ?tip")
    case True
    then have h: "height_of b = ?n + 1" using pre by (simp add: storable_def)
    have s: "cdb_blocks (chs_db (store_step X B cs b)) = ?blocks" "chs_best_height (store_step X B cs b) = ?n + 1"
      "chs_best_hash (store_step X B cs b) = ?h"
      using True small h by (simp_all add: store_step_def store_block_def store_block_raw_def Let_def set_height_index_def put_tip_def)
    have "chain_down ?blocks (unat (?n + 1)) ?h = Some (b # bs)"
      using cd True h by (simp add: um chain_down_Suc)
    then show ?thesis using True h um last length_best_chain[OF ok] c
      by (simp add: best_chain_def[of "store_step X B cs b"] s spec_store_def)
  next
    case False
    have s: "cdb_blocks (chs_db (store_step X B cs b)) = ?blocks" "chs_best_height (store_step X B cs b) = ?n"
      "chs_best_hash (store_step X B cs b) = ?tip"
      using False small by (auto simp: store_step_def store_block_def store_block_raw_def Let_def)
    have "\<not> (parent_of b = ?tip \<and> unat (height_of b) = Suc (unat ?n))" using False by (auto simp: word_less_nat_alt)
    then show ?thesis using cd last length_best_chain[OF ok] c
      by (simp add: best_chain_def[of "store_step X B cs b"] s spec_store_def)
  qed
qed

lemma store_step_ok:
  assumes "chain_ok X B cs" and "storable X B cs b"
  shows "chain_ok X B (store_step X B cs b)"
proof (rule store_block_ok[OF assms(1)])
  show "store_block X B b cs = (fst (store_block X B b cs), store_step X B cs b)" by (simp add: store_step_def)
qed (use assms(2) in \<open>auto simp: storable_def\<close>)

interpretation chain_store: simulation "chain_ok X B" best_chain "storable X B" "store_step X B" "spec_store X B" for X B
  by unfold_locales (rule store_step_ok store_step_refines; assumption)+

lemma chain_new_blocks:
  assumes "cdb_genesis_hash db = None" and "chain_new X B genesis db = Some (Inr cs)"
  shows "cdb_blocks (chs_db cs) = (cdb_blocks db)(block_hash X B genesis \<mapsto> genesis)"
  using assms
  by (auto simp: chain_new_def open_genesis_def Let_def set_height_index_def store_block_raw_def put_tip_def
      ensure_cumulative_work_meta_def ensure_total_minted_meta_def MAX_REASONABLE_HEIGHT_def)

text \<open>The totals are the sums over the best chain.\<close>

lemma totals_spec:
  assumes ok: "chain_ok X B cs"
  shows "unat (unwrap_or (cdb_cum_work (chs_db cs)) 0) = min (\<Sum>b\<leftarrow>best_chain cs. unat (block_work b)) (2 ^ 128 - 1)"
    and "unat (unwrap_or (cdb_total_minted (chs_db cs)) 0) = min (\<Sum>b\<leftarrow>best_chain cs. unat (block_reward_of b)) (2 ^ 128 - 1)"
proof -
  from ok obtain bs where d: "describes (chs_db cs) (chs_best_height cs) (chs_best_hash cs) bs" and c: "best_chain cs = rev bs"
    by (rule best_chainE)
  have r: "(\<Sum>b\<leftarrow>rev bs. f b) = (\<Sum>b\<leftarrow>bs. f b)" for f :: "block \<Rightarrow> nat" by (simp only: rev_map[symmetric] sum_list_rev)
  show "unat (unwrap_or (cdb_cum_work (chs_db cs)) 0) = min (\<Sum>b\<leftarrow>best_chain cs. unat (block_work b)) (2 ^ 128 - 1)"
    "unat (unwrap_or (cdb_total_minted (chs_db cs)) 0) = min (\<Sum>b\<leftarrow>best_chain cs. unat (block_reward_of b)) (2 ^ 128 - 1)"
    using d by (simp_all add: describes_def c r unat_sum_over)
qed

end
