(* ===== verification/Node_Sync.thy ===== *)
theory Node_Sync
  imports Node_Store
begin

text \<open>
  \<open>node/src/sync_canonical.rs\<close>: which blocks to ask a peer for, and whether a block that extends our
  tip may be applied, both decided by membership of a hash in the chain below a tip.
\<close>

section \<open>Definitions\<close>

fun on_chain_below :: "(hash \<Rightarrow> block option) \<Rightarrow> nat \<Rightarrow> hash \<Rightarrow> hash \<Rightarrow> bool" where
  "on_chain_below get 0 h candidate = False"
| "on_chain_below get (Suc n) h candidate =
     (case get h of None \<Rightarrow> False
      | Some b \<Rightarrow> if parent_of b = candidate then True else on_chain_below get n (parent_of b) candidate)"

definition is_hash_on_chain_from_tip :: "chain_state \<Rightarrow> hash \<Rightarrow> u64 \<Rightarrow> hash \<Rightarrow> bool" where
  "is_hash_on_chain_from_tip cs tip_hash tip_height candidate =
     (if candidate = tip_hash then True
      else on_chain_below (get_block_by_hash cs) (unat tip_height) tip_hash candidate)"

definition SYNC_BATCH_BLOCKS :: u64 where "SYNC_BATCH_BLOCKS = 16"

record sync_batch_plan =
  sbp_from_height :: u64
  sbp_to_height :: u64

record local_sync_tip =
  lst_height :: u64
  lst_hash :: hash
  lst_cumulative_work :: u128

record peer_sync_tip =
  pst_height :: u64
  pst_hash :: hash
  pst_cumulative_work :: u128

definition sync_from_height_for_heavier_peer ::
  "chain_state \<Rightarrow> local_sync_tip \<Rightarrow> peer_sync_tip \<Rightarrow> bool \<Rightarrow> u64" where
  "sync_from_height_for_heavier_peer cs lo peer suspect_fork =
     (if pst_height peer \<le> lst_height lo \<and> \<not> suspect_fork then saturating_add_word (lst_height lo) 1
      else if lst_height lo < pst_height peer \<and>
          \<not> is_hash_on_chain_from_tip cs (pst_hash peer) (pst_height peer) (lst_hash lo) then lst_height lo
      else saturating_add_word (lst_height lo) 1)"

definition plan_sync_batch ::
  "chain_state \<Rightarrow> u64 \<Rightarrow> hash \<Rightarrow> peer_sync_tip \<Rightarrow> bool \<Rightarrow> u64 \<Rightarrow> sync_batch_plan" where
  "plan_sync_batch cs local_height local_hash peer suspect_fork max_batch =
     (let lo = \<lparr>lst_height = local_height, lst_hash = local_hash, lst_cumulative_work = best_cumulative_work cs\<rparr>;
          frm = sync_from_height_for_heavier_peer cs lo peer suspect_fork;
          batch = max max_batch 1;
          upto = (if frm \<le> pst_height peer then min (pst_height peer) (saturating_add_word frm (batch - 1)) else frm)
      in \<lparr>sbp_from_height = frm, sbp_to_height = max upto frm\<rparr>)"

definition should_apply_sync_extension ::
  "chain_state \<Rightarrow> hash \<Rightarrow> u64 \<Rightarrow> u64 \<Rightarrow> hash \<Rightarrow> u128 \<Rightarrow> bool" where
  "should_apply_sync_extension cs hash block_height peer_tip_height peer_tip_hash peer_cumulative_work =
     (if peer_tip_height \<le> block_height \<or> peer_cumulative_work = 0 then True
      else if peer_cumulative_work \<le> best_cumulative_work cs then True
      else is_hash_on_chain_from_tip cs peer_tip_hash peer_tip_height hash)"

definition missing_fork_point_parent_hash ::
  "crypto_ext \<Rightarrow> block_codec \<Rightarrow> u64 \<Rightarrow> hash \<Rightarrow> block option \<Rightarrow> block option \<Rightarrow> hash option" where
  "missing_fork_point_parent_hash X B tip_height tip_hash next_buffered fork_point_buffered =
     (case next_buffered of None \<Rightarrow> None
      | Some nxt \<Rightarrow>
          let parent = parent_of nxt in
          if parent = tip_hash then None
          else if (case fork_point_buffered of None \<Rightarrow> False | Some b \<Rightarrow> block_hash X B b = parent) then None
          else Some parent)"

section \<open>Facts\<close>

lemma on_chain_below_iff:
  "on_chain_below get n h c \<longleftrightarrow> (\<exists>k. 0 < k \<and> k \<le> n \<and> walk_back get k h = Some c)"
proof (induction n arbitrary: h)
  case (Suc n)
  show ?case
  proof (cases "get h")
    case None
    then have "walk_back get k h \<noteq> Some c" if "0 < k" for k using that by (cases k) simp_all
    with None show ?thesis by auto
  next
    case (Some b)
    have "(\<exists>k. 0 < k \<and> k \<le> Suc n \<and> walk_back get k h = Some c) \<longleftrightarrow> (\<exists>k\<le>n. walk_back get k (parent_of b) = Some c)"
    proof
      assume "\<exists>k. 0 < k \<and> k \<le> Suc n \<and> walk_back get k h = Some c"
      then obtain k where "0 < k" "k \<le> Suc n" "walk_back get k h = Some c" by blast
      with Some show "\<exists>k\<le>n. walk_back get k (parent_of b) = Some c" by (cases k) auto
    next
      assume "\<exists>k\<le>n. walk_back get k (parent_of b) = Some c"
      then obtain k where "k \<le> n" "walk_back get k (parent_of b) = Some c" by blast
      with Some show "\<exists>k. 0 < k \<and> k \<le> Suc n \<and> walk_back get k h = Some c" by (intro exI[of _ "Suc k"]) simp
    qed
    moreover have "(\<exists>k\<le>n. walk_back get k (parent_of b) = Some c) \<longleftrightarrow> parent_of b = c \<or> on_chain_below get n (parent_of b) c"
      unfolding Suc.IH by (metis bot_nat_0.not_eq_extremum option.inject walk_back.simps(1) zero_le)
    ultimately show ?thesis using Some by simp
  qed
qed simp

text \<open>Membership in the chain below a tip: reached from it in at most its height's number of steps.\<close>

lemma is_hash_on_chain_iff:
  "is_hash_on_chain_from_tip cs tip n c \<longleftrightarrow>
     (\<exists>k\<le>unat n. walk_back (get_block_by_hash cs) k tip = Some c)"
  unfolding is_hash_on_chain_from_tip_def on_chain_below_iff
  by (metis (full_types) bot_nat_0.not_eq_extremum le0 option.inject walk_back.simps(1))

lemma saturating_add_word_ge: "a \<le> saturating_add_word a (b :: 'w::len word)"
proof -
  have "unat a \<le> 2 ^ LENGTH('w) - 1" using unat_lt_pow[of a] by linarith
  then show ?thesis by (simp add: word_le_nat_alt unat_saturating_add)
qed

text \<open>A plan is a window of at most \<open>max_batch\<close> blocks (one, if that is 0) that starts at our tip or right
  after it and does not pass the peer's tip.\<close>

lemma plan_sync_batch_window:
  assumes "plan_sync_batch cs h tip peer fork m = p" and "h < - 1"
  shows "sbp_from_height p \<in> {h, h + 1}" and "sbp_from_height p \<le> sbp_to_height p"
    and "unat (sbp_to_height p) < unat (sbp_from_height p) + unat (max m 1)"
    and "sbp_from_height p \<le> pst_height peer \<Longrightarrow> sbp_to_height p \<le> pst_height peer"
proof -
  let ?lo = "\<lparr>lst_height = h, lst_hash = tip, lst_cumulative_work = best_cumulative_work cs\<rparr>"
  let ?f = "sync_from_height_for_heavier_peer cs ?lo peer fork"
  have "unat h + 1 < 2 ^ 64" using assms(2) by (simp add: word_less_nat_alt unat_max_word)
  then have s: "saturating_add_word h 1 = h + 1" by (simp add: saturating_add_word_def)
  have p: "sbp_from_height p = ?f" "sbp_to_height p = max (if ?f \<le> pst_height peer
      then min (pst_height peer) (saturating_add_word ?f (max m 1 - 1)) else ?f) ?f"
    using assms(1) by (auto simp: plan_sync_batch_def Let_def)
  show "sbp_from_height p \<in> {h, h + 1}" by (simp add: p(1) sync_from_height_for_heavier_peer_def s)
  show "sbp_from_height p \<le> sbp_to_height p" by (simp add: p)
  show "sbp_from_height p \<le> pst_height peer \<Longrightarrow> sbp_to_height p \<le> pst_height peer" by (simp add: p)
  have one: "1 \<le> max m 1" by simp
  have "unat (max m 1 - 1) = unat (max m 1) - 1" using unat_sub_le[OF one] by simp
  moreover have "0 < unat (max m 1)" using one by (simp add: word_le_nat_alt)
  ultimately have "unat (saturating_add_word ?f (max m 1 - 1)) < unat ?f + unat (max m 1)"
    by (simp add: unat_saturating_add)
  then show "unat (sbp_to_height p) < unat (sbp_from_height p) + unat (max m 1)"
    using \<open>0 < unat (max m 1)\<close> by (auto simp: p max_def min_def word_le_nat_alt)
qed

text \<open>When our tip is not on the chain of a taller peer, our own height is asked for again.\<close>

lemma sync_from_fork_point:
  assumes "lst_height lo < pst_height peer"
  shows "sync_from_height_for_heavier_peer cs lo peer fork = lst_height lo \<or>
    is_hash_on_chain_from_tip cs (pst_hash peer) (pst_height peer) (lst_hash lo)"
  using assms by (auto simp: sync_from_height_for_heavier_peer_def)

end
