(* ===== verification/Node_Peers.thy ===== *)
theory Node_Peers
  imports Core_Dimensional Core_Types
begin

text \<open>
  \<open>node/src/peer_consensus.rs\<close>, with the timeouts of \<open>network/src/cpp/config.rs\<close>: what the node knows of its
  peers' tips, and whether it may mine. The map of peers is the list of its entries in the order in
  which the hash map iterates. An instant is a number of nanoseconds, \<open>now\<close> the clock.
\<close>

section \<open>Definitions\<close>

definition NETWORK_PEER_TIMEOUT_SECS :: u64 where "NETWORK_PEER_TIMEOUT_SECS = 90"

definition CONSENSUS_PEER_TIMEOUT_SECS :: f64 where
  "CONSENSUS_PEER_TIMEOUT_SECS = f_div (f_of_word NETWORK_PEER_TIMEOUT_SECS) ETA"

definition CONSENSUS_STALE_THRESHOLD_SECS :: f64 where
  "CONSENSUS_STALE_THRESHOLD_SECS = f_mul (f_of_word NETWORK_PEER_TIMEOUT_SECS) (f_add f_one ETA)"

definition MAX_MISSED_ROUNDS_CONSENSUS :: u32 where "MAX_MISSED_ROUNDS_CONSENSUS = 4"

text \<open>\<open>Duration::from_secs_f64\<close> rounds to whole nanoseconds.\<close>

definition duration_from_secs_f64 :: "f64 \<Rightarrow> nat" where
  "duration_from_secs_f64 x = nat (round_half_even (f_val x * 10 ^ 9))"

definition consensus_peer_timeout :: nat where
  "consensus_peer_timeout = duration_from_secs_f64 CONSENSUS_PEER_TIMEOUT_SECS"

definition consensus_stale_threshold :: nat where
  "consensus_stale_threshold = duration_from_secs_f64 CONSENSUS_STALE_THRESHOLD_SECS"

definition INCOMPATIBLE_TIP_QUARANTINE_AFTER :: u32 where "INCOMPATIBLE_TIP_QUARANTINE_AFTER = 3"
definition INCOMPATIBLE_TIP_QUARANTINE_SECS :: nat where "INCOMPATIBLE_TIP_QUARANTINE_SECS = 120"

record peer_state =
  pe_best_height :: u64
  pe_best_hash :: hash
  pe_cumulative_work :: u128
  pe_last_seen :: nat
  pe_missed_rounds :: u32
  pe_is_filtered :: bool
  pe_incompatible_tip_reports :: u32
  pe_quarantine_until :: "nat option"

definition peer_state_new :: "nat \<Rightarrow> u64 \<Rightarrow> hash \<Rightarrow> peer_state" where
  "peer_state_new now height h =
     \<lparr>pe_best_height = height, pe_best_hash = h, pe_cumulative_work = 0, pe_last_seen = now,
      pe_missed_rounds = 0, pe_is_filtered = False, pe_incompatible_tip_reports = 0, pe_quarantine_until = None\<rparr>"

definition is_stale :: "nat \<Rightarrow> peer_state \<Rightarrow> bool" where
  "is_stale now p \<longleftrightarrow> consensus_stale_threshold < now - pe_last_seen p"

definition is_quarantined :: "nat \<Rightarrow> peer_state \<Rightarrow> bool" where
  "is_quarantined now p \<longleftrightarrow> (case pe_quarantine_until p of None \<Rightarrow> False | Some until \<Rightarrow> now < until)"

text \<open>The sliding window: the inner \<open>while\<close> stops at \<open>i = j\<close> at the latest, where the difference is 0.\<close>

function window_start :: "u64 list \<Rightarrow> nat \<Rightarrow> nat \<Rightarrow> nat" where
  "window_start heights j i =
     (if i < j \<and> 1 < saturating_sub_word (heights ! j) (heights ! i) then window_start heights j (Suc i) else i)"
  by auto
termination by (relation "measure (\<lambda>(_, j, i). j - i)") auto

declare window_start.simps [simp del]

fun cluster_loop :: "u64 list \<Rightarrow> nat list \<Rightarrow> nat \<Rightarrow> nat \<Rightarrow> u64 \<Rightarrow> nat \<times> u64" where
  "cluster_loop heights [] i best_len best_height = (best_len, best_height)"
| "cluster_loop heights (j # js) i best_len best_height =
     (let i' = window_start heights j i; len = j - i' + 1 in
      if best_len < len then cluster_loop heights js i' len (heights ! ((i' + j) div 2))
      else cluster_loop heights js i' best_len best_height)"

definition largest_height_cluster_within_one_block :: "u64 list \<Rightarrow> nat \<times> u64" where
  "largest_height_cluster_within_one_block heights =
     (if heights = [] then (0, 0) else cluster_loop heights [0..<length heights] 0 0 0)"

record consensus_config =
  cc_min_peers_for_mining :: nat
  cc_sync_threshold_blocks :: u64
  cc_max_ahead_of_peers_blocks :: u64
  cc_consensus_threshold :: f64
  cc_peer_stale_timeout :: nat
  cc_max_missed_rounds :: u32

definition consensus_config_default :: consensus_config where
  "consensus_config_default =
     \<lparr>cc_min_peers_for_mining = 1, cc_sync_threshold_blocks = 10, cc_max_ahead_of_peers_blocks = 96,
      cc_consensus_threshold = f_of_rat (4 / 5), cc_peer_stale_timeout = consensus_peer_timeout,
      cc_max_missed_rounds = MAX_MISSED_ROUNDS_CONSENSUS\<rparr>"

definition config_production :: consensus_config where
  "config_production = consensus_config_default\<lparr>cc_min_peers_for_mining := 5\<rparr>"

definition config_testnet :: consensus_config where
  "config_testnet = consensus_config_default\<lparr>cc_min_peers_for_mining := 2\<rparr>"

definition get_adaptive_threshold :: "consensus_config \<Rightarrow> nat \<Rightarrow> f64" where
  "get_adaptive_threshold c peer_count =
     (if peer_count = 0 then f_one
      else if peer_count \<le> 2 then f_of_rat (1 / 2)
      else if peer_count = 3 then f_of_rat (3 / 5)
      else cc_consensus_threshold c)"

record peer_consensus =
  pcs_peers :: "(string \<times> peer_state) list"
  pcs_config :: consensus_config

definition update_peer :: "nat \<Rightarrow> string \<Rightarrow> u64 \<Rightarrow> hash \<Rightarrow> u128 \<Rightarrow> peer_consensus \<Rightarrow> peer_consensus" where
  "update_peer now peer_id height h cumulative_work pc =
     (if map_of (pcs_peers pc) peer_id \<noteq> None
      then pc\<lparr>pcs_peers := map (\<lambda>(i, p). (i, if i = peer_id then p\<lparr>pe_best_height := height, pe_best_hash := h,
                pe_cumulative_work := cumulative_work, pe_last_seen := now, pe_missed_rounds := 0,
                pe_is_filtered := False\<rparr> else p)) (pcs_peers pc)\<rparr>
      else pc\<lparr>pcs_peers := pcs_peers pc @ [(peer_id, (peer_state_new now height h)\<lparr>pe_cumulative_work := cumulative_work\<rparr>)]\<rparr>)"

definition remove_peer :: "string \<Rightarrow> peer_consensus \<Rightarrow> peer_consensus" where
  "remove_peer peer_id pc = pc\<lparr>pcs_peers := filter (\<lambda>(i, _). i \<noteq> peer_id) (pcs_peers pc)\<rparr>"

definition mark_peer_disconnected :: "string \<Rightarrow> peer_consensus \<Rightarrow> peer_consensus" where
  "mark_peer_disconnected peer_id pc = pc\<lparr>pcs_peers := filter (\<lambda>(i, _). i \<noteq> peer_id) (pcs_peers pc)\<rparr>"

definition is_active :: "nat \<Rightarrow> peer_state \<Rightarrow> bool" where
  "is_active now p \<longleftrightarrow> \<not> pe_is_filtered p \<and> \<not> is_stale now p \<and> \<not> is_quarantined now p"

definition active_peers :: "nat \<Rightarrow> peer_consensus \<Rightarrow> (string \<times> peer_state) list" where
  "active_peers now pc = filter (\<lambda>(_, p). is_active now p) (pcs_peers pc)"

definition note_incompatible_tip :: "nat \<Rightarrow> string \<Rightarrow> peer_consensus \<Rightarrow> peer_consensus" where
  "note_incompatible_tip now peer_id pc =
     pc\<lparr>pcs_peers := map (\<lambda>(i, p). (i, if i \<noteq> peer_id then p
        else let reports = saturating_add_word (pe_incompatible_tip_reports p) 1 in
          if INCOMPATIBLE_TIP_QUARANTINE_AFTER \<le> reports
          then p\<lparr>pe_incompatible_tip_reports := 0,
                 pe_quarantine_until := Some (now + INCOMPATIBLE_TIP_QUARANTINE_SECS * 10 ^ 9)\<rparr>
          else p\<lparr>pe_incompatible_tip_reports := reports\<rparr>)) (pcs_peers pc)\<rparr>"

definition clear_incompatible_tip_penalty :: "string \<Rightarrow> peer_consensus \<Rightarrow> peer_consensus" where
  "clear_incompatible_tip_penalty peer_id pc =
     pc\<lparr>pcs_peers := map (\<lambda>(i, p). (i, if i = peer_id then p\<lparr>pe_incompatible_tip_reports := 0\<rparr> else p)) (pcs_peers pc)\<rparr>"

definition active_peer_count :: "nat \<Rightarrow> peer_consensus \<Rightarrow> nat" where
  "active_peer_count now pc = length (active_peers now pc)"

definition best_peer_height :: "nat \<Rightarrow> peer_consensus \<Rightarrow> u64" where
  "best_peer_height now pc =
     fold max (map (pe_best_height \<circ> snd)
       (filter (\<lambda>(_, p). \<not> pe_is_filtered p \<and> \<not> is_stale now p) (pcs_peers pc))) 0"

definition get_peer_height :: "peer_consensus \<Rightarrow> string \<Rightarrow> u64 option" where
  "get_peer_height pc peer_id = map_option pe_best_height (map_of (pcs_peers pc) peer_id)"

definition get_peer_tip :: "peer_consensus \<Rightarrow> string \<Rightarrow> (u64 \<times> hash \<times> u128) option" where
  "get_peer_tip pc peer_id =
     map_option (\<lambda>p. (pe_best_height p, pe_best_hash p, pe_cumulative_work p)) (map_of (pcs_peers pc) peer_id)"

text \<open>\<open>Iterator::max_by\<close> returns the last of several greatest elements.\<close>

definition heavier :: "peer_state \<Rightarrow> peer_state \<Rightarrow> bool" where
  "heavier a b \<longleftrightarrow> pe_cumulative_work b < pe_cumulative_work a \<or>
     pe_cumulative_work a = pe_cumulative_work b \<and> pe_best_height b < pe_best_height a"

definition heaviest :: "(string \<times> peer_state) list \<Rightarrow> (string \<times> peer_state) option" where
  "heaviest ps = fold (\<lambda>p best. case best of None \<Rightarrow> Some p
     | Some b \<Rightarrow> if heavier (snd b) (snd p) then Some b else Some p) ps None"

definition best_active_peer_by_cumulative_work :: "nat \<Rightarrow> peer_consensus \<Rightarrow> (string \<times> peer_state) option" where
  "best_active_peer_by_cumulative_work now pc = heaviest (active_peers now pc)"

definition best_peer_for_fork_recovery ::
  "nat \<Rightarrow> u128 \<Rightarrow> u64 \<Rightarrow> hash \<Rightarrow> peer_consensus \<Rightarrow> (string \<times> peer_state) option" where
  "best_peer_for_fork_recovery now local_work our_height our_hash pc =
     heaviest (filter (\<lambda>(_, s). local_work < pe_cumulative_work s \<or>
       pe_best_hash s \<noteq> our_hash \<and> our_height < pe_best_height s) (active_peers now pc))"

definition peer_heights :: "nat \<Rightarrow> peer_consensus \<Rightarrow> u64 list" where
  "peer_heights now pc = sort (map (pe_best_height \<circ> snd) (active_peers now pc))"

definition median_peer_height :: "nat \<Rightarrow> peer_consensus \<Rightarrow> u64" where
  "median_peer_height now pc =
     (if active_peers now pc = [] then 0
      else let heights = peer_heights now pc; mid = length heights div 2 in
        if even (length heights) then (heights ! (mid - 1) + heights ! mid) div 2 else heights ! mid)"

definition check_consensus :: "nat \<Rightarrow> peer_consensus \<Rightarrow> bool \<times> u64 \<times> f64" where
  "check_consensus now pc =
     (let peer_count = active_peer_count now pc in
      if peer_count < cc_min_peers_for_mining (pcs_config pc) then (False, 0, f_zero)
      else let threshold = get_adaptive_threshold (pcs_config pc) peer_count;
               (max_votes, consensus_height) = largest_height_cluster_within_one_block (peer_heights now pc);
               agreement = f_div (f_of_nat max_votes) (f_of_nat peer_count)
           in (f_le threshold agreement, consensus_height, agreement))"

datatype mining_reason =
    InsufficientPeers nat nat
  | BehindPeers u64
  | AheadOfPeers u64
  | NoPeerConsensus f64 u64
  | NoTipHashConsensus nat nat
  | TipHashDiverges nat
  | ConsensusOk nat f64

text \<open>The votes are a hash map: \<open>ord\<close> is the order in which it iterates, which decides between tips with
  equally many votes.\<close>

definition tip_votes :: "nat \<Rightarrow> u64 \<Rightarrow> peer_consensus \<Rightarrow> hash list" where
  "tip_votes now our_height pc =
     map (pe_best_hash \<circ> snd) (filter (\<lambda>(_, s). saturating_sub_word our_height 1 \<le> pe_best_height s \<and>
       pe_best_height s \<le> saturating_add_word our_height 1) (active_peers now pc))"

definition dominant :: "(hash \<times> nat) list \<Rightarrow> (hash \<times> nat) option" where
  "dominant votes = fold (\<lambda>v best. case best of None \<Rightarrow> Some v
     | Some b \<Rightarrow> if snd v < snd b then Some b else Some v) votes None"

definition tip_hash_fork_reason ::
  "((hash \<times> nat) list \<Rightarrow> (hash \<times> nat) list) \<Rightarrow> nat \<Rightarrow> u64 \<Rightarrow> hash \<Rightarrow> peer_consensus \<Rightarrow> mining_reason option" where
  "tip_hash_fork_reason ord now our_height our_hash pc =
     (let median_height = median_peer_height now pc; peer_count = active_peer_count now pc in
      if median_height = 0 \<or> our_height + cc_sync_threshold_blocks (pcs_config pc) < median_height then None
      else if active_peers now pc = [] then None
      else let votes = tip_votes now our_height pc in
        case dominant (ord (map (\<lambda>h. (h, count_list votes h)) (remdups votes))) of None \<Rightarrow> None
        | Some (dominant_hash, dominant_votes) \<Rightarrow>
            let required = unat (f_to_word (f_ceil (f_mul (f_of_nat peer_count)
                  (get_adaptive_threshold (pcs_config pc) peer_count))) :: u64)
            in if dominant_votes < max required 1 then Some (NoTipHashConsensus dominant_votes peer_count)
               else if our_hash \<noteq> dominant_hash then Some (TipHashDiverges dominant_votes)
               else None)"

definition heaviest_peer_when_local_forked ::
  "((hash \<times> nat) list \<Rightarrow> (hash \<times> nat) list) \<Rightarrow> nat \<Rightarrow> u64 \<Rightarrow> hash \<Rightarrow> peer_consensus \<Rightarrow> (string \<times> peer_state) option" where
  "heaviest_peer_when_local_forked ord now our_height our_hash pc =
     (case tip_hash_fork_reason ord now our_height our_hash pc of None \<Rightarrow> None
      | Some _ \<Rightarrow> (case best_active_peer_by_cumulative_work now pc of None \<Rightarrow> None
          | Some p \<Rightarrow> if pe_best_hash (snd p) \<noteq> our_hash then Some p else None))"

definition should_mine ::
  "((hash \<times> nat) list \<Rightarrow> (hash \<times> nat) list) \<Rightarrow> nat \<Rightarrow> u64 \<Rightarrow> hash \<Rightarrow> peer_consensus \<Rightarrow> bool \<times> mining_reason" where
  "should_mine ord now our_height our_hash pc =
     (let cfg = pcs_config pc; active_count = active_peer_count now pc; median_height = median_peer_height now pc in
      if active_count < cc_min_peers_for_mining cfg
        then (False, InsufficientPeers active_count (cc_min_peers_for_mining cfg))
      else if our_height + cc_sync_threshold_blocks cfg < median_height
        then (False, BehindPeers (median_height - our_height))
      else if 0 < median_height \<and> saturating_add_word median_height (cc_max_ahead_of_peers_blocks cfg) < our_height
        then (False, AheadOfPeers (our_height - median_height))
      else case check_consensus now pc of (has_consensus, consensus_height, agreement) \<Rightarrow>
        if \<not> has_consensus then (False, NoPeerConsensus agreement consensus_height)
        else (case tip_hash_fork_reason ord now our_height our_hash pc of
                Some reason \<Rightarrow> (False, reason)
              | None \<Rightarrow> (True, ConsensusOk active_count agreement)))"

definition tick_peer :: "nat \<Rightarrow> u32 \<Rightarrow> peer_state \<Rightarrow> peer_state" where
  "tick_peer now max_missed_rounds p =
     (if is_stale now p \<and> \<not> pe_is_filtered p
      then let missed = pe_missed_rounds p + 1; p' = p\<lparr>pe_missed_rounds := missed\<rparr> in
        if max_missed_rounds \<le> missed then p'\<lparr>pe_is_filtered := True\<rparr> else p'
      else p)"

definition maintenance_tick :: "nat \<Rightarrow> peer_consensus \<Rightarrow> peer_consensus" where
  "maintenance_tick now pc =
     pc\<lparr>pcs_peers := map (\<lambda>(i, p). (i, tick_peer now (cc_max_missed_rounds (pcs_config pc)) p)) (pcs_peers pc)\<rparr>"

text \<open>\<open>WorkScoreCalculator\<close>.\<close>

definition block_work_score :: "u64 \<Rightarrow> u64 \<Rightarrow> u64 \<Rightarrow> u64" where
  "block_work_score problem_size solve_time_us verify_time_us =
     (let asymmetry = (if verify_time_us = 0 then solve_time_us else solve_time_us div verify_time_us);
          quality = (if solve_time_us = 0 then problem_size else problem_size * 1000000 div solve_time_us)
      in (asymmetry + problem_size + quality) div 3)"

definition chain_work_score :: "u64 list \<Rightarrow> u64" where
  "chain_work_score block_scores = sum_list block_scores"

definition compare_chains :: "u64 \<Rightarrow> u64 \<Rightarrow> int" where
  "compare_chains our_work their_work =
     (let tolerance = our_work div 200 in
      if our_work + tolerance < their_work then 1
      else if their_work + tolerance < our_work then - 1
      else 0)"

section \<open>The largest cluster of heights\<close>

text \<open>A window of \<open>len\<close> heights, the last at most one above the first.\<close>

definition window :: "u64 list \<Rightarrow> nat \<Rightarrow> nat \<Rightarrow> bool" where
  "window hs i j \<longleftrightarrow> i \<le> j \<and> j < length hs \<and> unat (hs ! j) \<le> unat (hs ! i) + 1"

lemma window_start_all:
  "i \<le> j \<Longrightarrow> j < length hs \<Longrightarrow> i \<le> window_start hs j i \<and> window hs (window_start hs j i) j \<and>
     (\<forall>k. i \<le> k \<and> k < window_start hs j i \<longrightarrow> \<not> window hs k j)"
proof (induction hs j i rule: window_start.induct)
  case (1 hs j i)
  have gap: "1 < saturating_sub_word (hs ! j) (hs ! i) \<longleftrightarrow> unat (hs ! i) + 1 < unat (hs ! j)"
    by (auto simp: saturating_sub_word_def word_less_nat_alt word_le_nat_alt unat_sub_le)
  show ?case
  proof (cases "i < j \<and> 1 < saturating_sub_word (hs ! j) (hs ! i)")
    case True
    then have ws: "window_start hs j i = window_start hs j (Suc i)" by (subst window_start.simps) simp
    have "\<not> window hs i j" using True gap by (simp add: window_def)
    moreover have "i \<le> k \<longleftrightarrow> k = i \<or> Suc i \<le> k" for k by auto
    ultimately show ?thesis using "1.IH"[OF True] True "1.prems" unfolding ws by auto
  next
    case False
    have ws: "window_start hs j i = i" by (subst window_start.simps) (rule if_not_P[OF False])
    show ?thesis using False gap "1.prems" by (auto simp: ws window_def not_less)
  qed
qed

lemma window_start_spec:
  assumes "i \<le> j" and "j < length hs"
  shows "i \<le> window_start hs j i" and "window hs (window_start hs j i) j"
    and "\<And>k. i \<le> k \<Longrightarrow> k < window_start hs j i \<Longrightarrow> \<not> window hs k j"
  using window_start_all[OF assms] by blast+

lemma window_mono:
  assumes "sorted hs" and "window hs i j" and "i \<le> i'" and "i' \<le> j'" and "j' \<le> j"
  shows "window hs i' j'"
  using assms sorted_nth_mono[of hs i i'] sorted_nth_mono[of hs j' j]
  by (auto simp: window_def word_le_nat_alt)

lemma cluster_loop_spec:
  assumes "sorted hs" and "cluster_loop hs [j..<length hs] i bl bh = (len, h)"
    and "bl = 0 \<or> (\<exists>a. window hs a (a + bl - 1) \<and> bh \<in> set (take bl (drop a hs)))"
    and "\<And>a b. window hs a b \<Longrightarrow> b < j \<Longrightarrow> b - a + 1 \<le> bl"
    and "\<And>a b. a < i \<Longrightarrow> j \<le> b \<Longrightarrow> \<not> window hs a b" and "i \<le> j"
  shows "len = 0 \<or> (\<exists>a. window hs a (a + len - 1) \<and> h \<in> set (take len (drop a hs)))"
    and "\<And>a b. window hs a b \<Longrightarrow> b - a + 1 \<le> len"
proof -
  have "(len = 0 \<or> (\<exists>a. window hs a (a + len - 1) \<and> h \<in> set (take len (drop a hs)))) \<and>
      (\<forall>a b. window hs a b \<longrightarrow> b - a + 1 \<le> len)"
    using assms(2-)
  proof (induction "length hs - j" arbitrary: j i bl bh)
    case 0
    then have "[j..<length hs] = []" by simp
    with 0 show ?case by (auto simp: window_def)
  next
    case (Suc d)
    then have j: "j < length hs" by simp
    let ?i = "window_start hs j i"
    note ws = window_start_spec[OF Suc.prems(5) j]
    have le: "?i \<le> j" using ws(2) by (simp add: window_def)
    have no: "\<not> window hs a b" if "a < ?i" "Suc j \<le> b" for a b
    proof
      assume w: "window hs a b"
      have "window hs a j" by (rule window_mono[OF assms(1) w]) (use that le in auto)
      moreover have "\<not> window hs a j" using ws(3)[of a] Suc.prems(4)[of a j] that by (cases "a < i") auto
      ultimately show False by simp
    qed
    have step: "cluster_loop hs [j..<length hs] i bl bh = (let len = j - ?i + 1 in
        if bl < len then cluster_loop hs [Suc j..<length hs] ?i len (hs ! ((?i + j) div 2))
        else cluster_loop hs [Suc j..<length hs] ?i bl bh)"
      using j by (simp add: upt_conv_Cons Let_def)
    have new: "b - a + 1 \<le> max bl (j - ?i + 1)" if w: "window hs a b" and b: "b < Suc j" for a b
    proof (cases "b = j")
      case True
      then have "?i \<le> a" using w ws(3)[of a] Suc.prems(4)[of a j] by (meson le_less_linear order_refl)
      then show ?thesis using True by simp
    next
      case False
      then show ?thesis using Suc.prems(3)[OF w] b by simp
    qed
    have d: "d = length hs - Suc j" using Suc.hyps(2) by simp
    show ?case
    proof (cases "bl < j - ?i + 1")
      case True
      have mid: "hs ! ((?i + j) div 2) \<in> set (take (j - ?i + 1) (drop ?i hs))"
      proof -
        have "(?i + j) div 2 = ?i + (j - ?i) div 2" using le by (simp add: div_mult_self1[of 2] flip: div_add1_eq)
        moreover have "(take (j - ?i + 1) (drop ?i hs)) ! ((j - ?i) div 2) = hs ! (?i + (j - ?i) div 2)"
          using j le by simp
        moreover have "(j - ?i) div 2 < length (take (j - ?i + 1) (drop ?i hs))" using j le by simp
        ultimately show ?thesis by (metis nth_mem)
      qed
      show ?thesis
      proof (rule Suc.hyps(1)[OF d])
        show "cluster_loop hs [Suc j..<length hs] ?i (j - ?i + 1) (hs ! ((?i + j) div 2)) = (len, h)"
          using Suc.prems(1) True step by (simp add: Let_def)
        show "j - ?i + 1 = 0 \<or> (\<exists>a. window hs a (a + (j - ?i + 1) - 1) \<and>
            hs ! ((?i + j) div 2) \<in> set (take (j - ?i + 1) (drop a hs)))"
          using ws(2) le mid by (intro disjI2 exI[of _ ?i]) simp
      qed (use new True no le in \<open>auto simp: max_def\<close>)
    next
      case False
      show ?thesis
      proof (rule Suc.hyps(1)[OF d])
        show "cluster_loop hs [Suc j..<length hs] ?i bl bh = (len, h)" using Suc.prems(1) False step by (simp add: Let_def)
        show "b - a + 1 \<le> bl" if "window hs a b" "b < Suc j" for a b using new[OF that] False by simp
      qed (use Suc.prems(2) no le in auto)
    qed
  qed
  then show "len = 0 \<or> (\<exists>a. window hs a (a + len - 1) \<and> h \<in> set (take len (drop a hs)))"
    and "\<And>a b. window hs a b \<Longrightarrow> b - a + 1 \<le> len" by blast+
qed

text \<open>The result is the size of a largest window, and the height is one of its members.\<close>

lemma largest_cluster:
  assumes "sorted hs" and "hs \<noteq> []" and "largest_height_cluster_within_one_block hs = (len, h)"
  shows "\<exists>a. window hs a (a + len - 1) \<and> h \<in> set (take len (drop a hs))" and "1 \<le> len"
    and "\<And>a b. window hs a b \<Longrightarrow> b - a + 1 \<le> len"
proof -
  have c: "cluster_loop hs [0..<length hs] 0 0 0 = (len, h)"
    using assms(2,3) by (simp add: largest_height_cluster_within_one_block_def)
  note sp = cluster_loop_spec[OF assms(1) c, simplified]
  show all: "\<And>a b. window hs a b \<Longrightarrow> b - a + 1 \<le> len" using sp(2) by simp
  have "window hs 0 0" using assms(2) by (simp add: window_def)
  from all[OF this] show "1 \<le> len" by simp
  with sp(1) show "\<exists>a. window hs a (a + len - 1) \<and> h \<in> set (take len (drop a hs))" by auto
qed

section \<open>Mining and maintenance\<close>

text \<open>The gate opens only with enough peers, at a height near the median, and with peers that agree.\<close>

lemma should_mine_True:
  assumes "should_mine ord now our_height our_hash pc = (True, reason)"
  shows "cc_min_peers_for_mining (pcs_config pc) \<le> active_peer_count now pc"
    and "median_peer_height now pc \<le> our_height + cc_sync_threshold_blocks (pcs_config pc)"
    and "median_peer_height now pc = 0 \<or>
      our_height \<le> saturating_add_word (median_peer_height now pc) (cc_max_ahead_of_peers_blocks (pcs_config pc))"
    and "fst (check_consensus now pc)"
    and "tip_hash_fork_reason ord now our_height our_hash pc = None"
  using assms by (auto simp: should_mine_def Let_def not_less split: if_splits option.splits prod.splits)

text \<open>A peer that stays silent is filtered after \<open>max_missed_rounds\<close> ticks, and not before.\<close>

lemma tick_filtered [simp]: "pe_is_filtered p \<Longrightarrow> tick_peer now m p = p"
  by (simp add: tick_peer_def)

lemma ticks_filtered: "pe_is_filtered p \<Longrightarrow> fold (\<lambda>t. tick_peer t m) ts p = p"
  by (induction ts) simp_all

lemma silent_ticks:
  assumes "\<forall>t\<in>set ts. is_stale t p" and "\<not> pe_is_filtered p" and "pe_missed_rounds p < m"
  shows "pe_is_filtered (fold (\<lambda>t. tick_peer t m) ts p) \<longleftrightarrow> unat m - unat (pe_missed_rounds p) \<le> length ts"
  using assms
proof (induction ts arbitrary: p)
  case Nil
  then show ?case by (simp add: word_less_nat_alt)
next
  case (Cons t ts)
  let ?p = "p\<lparr>pe_missed_rounds := pe_missed_rounds p + 1\<rparr>"
  have u: "unat (pe_missed_rounds p + 1) = unat (pe_missed_rounds p) + 1"
  proof -
    have "unat (pe_missed_rounds p) + unat (1 :: u32) < 2 ^ 32"
      using Cons.prems(3) unat_lt_pow[of m] by (simp add: word_less_nat_alt)
    then show ?thesis using unat_add_small[of "pe_missed_rounds p" 1] by simp
  qed
  have st: "is_stale t p" using Cons.prems(1) by simp
  show ?case
  proof (cases "m \<le> pe_missed_rounds p + 1")
    case True
    then have "tick_peer t m p = ?p\<lparr>pe_is_filtered := True\<rparr>" using st Cons.prems(2) by (simp add: tick_peer_def Let_def)
    moreover have "unat m - unat (pe_missed_rounds p) \<le> 1" using True u by (simp add: word_le_nat_alt)
    ultimately show ?thesis by (simp add: ticks_filtered)
  next
    case False
    then have t: "tick_peer t m p = ?p" using st Cons.prems(2) by (simp add: tick_peer_def Let_def)
    have "pe_is_filtered (fold (\<lambda>t. tick_peer t m) ts ?p) \<longleftrightarrow> unat m - unat (pe_missed_rounds ?p) \<le> length ts"
      by (rule Cons.IH) (use Cons.prems False in \<open>auto simp: is_stale_def\<close>)
    with t u False show ?thesis by (auto simp: word_le_nat_alt)
  qed
qed

lemma maintenance_ticks:
  "pcs_peers (fold maintenance_tick ts pc) =
     map (\<lambda>(i, p). (i, fold (\<lambda>t. tick_peer t (cc_max_missed_rounds (pcs_config pc))) ts p)) (pcs_peers pc)"
proof (induction ts arbitrary: pc)
  case (Cons t ts)
  have "pcs_config (maintenance_tick t pc) = pcs_config pc" by (simp add: maintenance_tick_def)
  with Cons[of "maintenance_tick t pc"] show ?case
    by (auto simp: maintenance_tick_def)
qed simp

text \<open>Repeated reports of an incompatible tip take a peer out of every decision for two minutes.\<close>

lemma quarantine_inactive:
  assumes "map_of (pcs_peers (note_incompatible_tip now i pc)) i = Some p" and "map_of (pcs_peers pc) i = Some q"
    and "2 \<le> pe_incompatible_tip_reports q" and "t < now + 120 * 10 ^ 9"
  shows "\<not> is_active t p"
proof -
  have m: "map_of (map (\<lambda>(j, p). (j, f j p)) ps) k = map_option (f k) (map_of ps k)" for f ps and k :: string
    by (induction ps) auto
  have "3 \<le> saturating_add_word (pe_incompatible_tip_reports q) 1"
    using assms(3) by (simp add: word_le_nat_alt unat_saturating_add)
  then have "pe_quarantine_until p = Some (now + 120 * 10 ^ 9)"
    using assms(1,2)
    by (auto simp: note_incompatible_tip_def m INCOMPATIBLE_TIP_QUARANTINE_AFTER_def
        INCOMPATIBLE_TIP_QUARANTINE_SECS_def Let_def)
  then show ?thesis using assms(4) by (simp add: is_active_def is_quarantined_def)
qed

lemma compare_chains_better:
  assumes "compare_chains our their = 1" and "unat our + unat our div 200 < 2 ^ 64"
  shows "unat our + unat our div 200 < unat their"
proof -
  have "unat (our + our div 200) = unat our + unat our div 200"
    using assms(2) by (simp add: unat_add_small unat_div)
  then show ?thesis using assms(1) by (auto simp: compare_chains_def Let_def word_less_nat_alt split: if_splits)
qed

end
