(* ===== verification/Node_Fork.thy ===== *)
theory Node_Fork
  imports Node_Unwind Node_Validator Node_Chain_Spec Node_Sync Node_Peers
begin

text \<open>
  \<open>node/src/service/fork.rs\<close>: choosing between the best chain and a fork, and moving the ledger from one
  to the other. The state is the block store and the ledger; \<open>None\<close> is a panic or a walk that does not
  return. The buffer of blocks received during synchronisation is the list of its entries in the order in
  which the hash map iterates. Logging is left out, and so is sending: the block ranges that the code
  requests are values.
  Then the periodic scan that looks for a better chain.
\<close>

section \<open>Definitions\<close>

record fork_env =
  fe_node :: node_ext
  fe_codec :: block_codec
  fe_validator :: block_validator
  fe_now :: "nat \<Rightarrow> i64"
  fe_clock :: "nat \<Rightarrow> nat \<Rightarrow> i64"

abbreviation fe_crypto :: "fork_env \<Rightarrow> crypto_ext" where
  "fe_crypto E \<equiv> px_crypto (nx_privacy (fe_node E))"

abbreviation hash_of :: "fork_env \<Rightarrow> block \<Rightarrow> hash" where
  "hash_of E b \<equiv> block_hash (fe_crypto E) (fe_codec E) b"

record node_state =
  ns_chain :: chain_state
  ns_ledger :: ledger

type_synonym block_buffer = "(u64 \<times> block) list"

datatype fork_error =
    MissingOldBlock u64
  | MissingNewBlock u64
  | NewChainEmpty
  | AncestorWorkFailed chain_error
  | NotConnected u64
  | NewBlockInvalid u64 block_error
  | StoreFailed u64 chain_error
  | UpdateFailed chain_error
  | ChainEmpty
  | NotFromGenesis
  | CandidateHeightMismatch u64 u64
  | CandidateMissing u64
  | NotConnectedToGenesis
  | GenesisMissing
  | GenesisHeight
  | HeightGap u64
  | OurBlockMismatch u64
  | OurBlockMissing u64

definition TAU_C :: f64 where "TAU_C = f_of_rat (14142135623730950488016887242096980785 / 10 ^ 37)"

text \<open>The work of a list of blocks in fork choice: truncated scores summed as \<open>u64\<close>.\<close>

definition header_work :: "block \<Rightarrow> u64" where
  "header_work b = f_to_word (bh_work_score (blk_header b))"

definition work_sum :: "block list \<Rightarrow> u64" where
  "work_sum bs = sum_list (map header_work bs)"

definition block_from_chain_or_alt :: "fork_env \<Rightarrow> chain_state \<Rightarrow> block list \<Rightarrow> hash \<Rightarrow> block option" where
  "block_from_chain_or_alt E cs alt h =
     (case get_block_by_hash cs h of Some b \<Rightarrow> Some b | None \<Rightarrow> List.find (\<lambda>b. hash_of E b = h) alt)"

definition get_candidate_block_by_hash :: "fork_env \<Rightarrow> chain_state \<Rightarrow> block_buffer option \<Rightarrow> hash \<Rightarrow> block option" where
  "get_candidate_block_by_hash E cs buffer target_hash =
     (case get_block_by_hash cs target_hash of Some b \<Rightarrow> Some b
      | None \<Rightarrow> (case buffer of None \<Rightarrow> None
          | Some buf \<Rightarrow> List.find (\<lambda>b. hash_of E b = target_hash) (map snd buf)))"

text \<open>The checks of \<open>reorganize_chain\<close> on the new blocks, oldest first. A block of height 0 is not given the
  work of its parent, so its reward is not checked.\<close>

fun validate_new_blocks :: "fork_env \<Rightarrow> nat \<Rightarrow> block list \<Rightarrow> hash \<Rightarrow> u128 \<Rightarrow> fork_error + unit" where
  "validate_new_blocks E i [] prev_hash parent_work = Inr ()"
| "validate_new_blocks E i (b # bs) prev_hash parent_work =
     (if parent_of b \<noteq> prev_hash then Inl (NotConnected (height_of b))
      else case validate_block_with_options (fe_crypto E) (fe_codec E) (fe_validator E) (fe_now E i) b prev_hash
          (height_of b) True (if height_of b = 0 then None else Some parent_work) of
        Inl e \<Rightarrow> Inl (NewBlockInvalid (height_of b) e)
      | Inr _ \<Rightarrow> validate_new_blocks E (Suc i) bs (hash_of E b) (saturating_add_word parent_work (block_work b)))"

fun apply_new_blocks :: "fork_env \<Rightarrow> nat \<Rightarrow> block list \<Rightarrow> node_state \<Rightarrow> ((fork_error + unit) \<times> node_state) option" where
  "apply_new_blocks E i [] s = Some (Inr (), s)"
| "apply_new_blocks E i (b # bs) s =
     (case store_block (fe_crypto E) (fe_codec E) b (ns_chain s) of
        (Inl e, cs) \<Rightarrow> Some (Inl (StoreFailed (height_of b) e), s\<lparr>ns_chain := cs\<rparr>)
      | (Inr _, cs) \<Rightarrow> (case apply_block_transactions (fe_node E) (fe_clock E i) b (ns_ledger s) of
            None \<Rightarrow> None
          | Some (_, l) \<Rightarrow>
              let c = consensus_at_tau (nx_float (fe_node E)) (f_div (f_of_word (height_of b)) TAU_C);
                  l' = l\<lparr>lg_pools := save_consensus_state (height_of b) c (lg_pools l)\<rparr>
              in apply_new_blocks E (Suc i) bs (s\<lparr>ns_chain := cs, ns_ledger := l'\<rparr>)))"

text \<open>The tail shared by both reorganisations: apply the new blocks, then move the tip.\<close>

definition adopt_blocks :: "fork_env \<Rightarrow> block list \<Rightarrow> block \<Rightarrow> node_state \<Rightarrow> ((fork_error + unit) \<times> node_state) option" where
  "adopt_blocks E new_blocks last_block s =
     (case apply_new_blocks E 0 new_blocks s of None \<Rightarrow> None
      | Some (Inl e, s') \<Rightarrow> Some (Inl e, s')
      | Some (Inr _, s') \<Rightarrow>
          (case update_best_chain (hash_of E last_block) (height_of last_block) (ns_chain s') of None \<Rightarrow> None
           | Some (Inl e, cs) \<Rightarrow> Some (Inl (UpdateFailed e), s'\<lparr>ns_chain := cs\<rparr>)
           | Some (Inr _, cs) \<Rightarrow> Some (Inr (), s'\<lparr>ns_chain := cs\<rparr>)))"

definition unwind_blocks :: "fork_env \<Rightarrow> block list \<Rightarrow> ledger \<Rightarrow> ledger" where
  "unwind_blocks E bs l = fold (unwind_block_transactions (fe_node E)) bs l"

definition reorganize_chain ::
  "fork_env \<Rightarrow> block list \<Rightarrow> block list \<Rightarrow> node_state \<Rightarrow> ((fork_error + unit) \<times> node_state) option" where
  "reorganize_chain E old_chain_blocks new_chain_blocks s =
     (let s1 = s\<lparr>ns_ledger := unwind_blocks E (rev old_chain_blocks) (ns_ledger s)\<rparr> in
      case new_chain_blocks of [] \<Rightarrow> Some (Inl NewChainEmpty, s1)
      | first_block # _ \<Rightarrow>
          (case compute_cumulative_work_tip_db (chs_db (ns_chain s)) (parent_of first_block) of None \<Rightarrow> None
           | Some (Inl e) \<Rightarrow> Some (Inl (AncestorWorkFailed e), s1)
           | Some (Inr w) \<Rightarrow> (case validate_new_blocks E 0 new_chain_blocks (parent_of first_block) w of
                 Inl e \<Rightarrow> Some (Inl e, s1)
               | Inr _ \<Rightarrow> adopt_blocks E new_chain_blocks (last new_chain_blocks) s1)))"

text \<open>\<open>validate_chain_from_genesis\<close>: collect the candidate chain, newest first, then check it oldest first.\<close>

fun collect_candidate ::
  "fork_env \<Rightarrow> chain_state \<Rightarrow> block_buffer option \<Rightarrow> nat \<Rightarrow> hash \<Rightarrow> block list \<Rightarrow> u64 \<Rightarrow> fork_error + (hash \<times> block list \<times> u64)" where
  "collect_candidate E cs buffer 0 h blocks total_work = Inr (h, blocks, total_work)"
| "collect_candidate E cs buffer (Suc n) h blocks total_work =
     (case get_candidate_block_by_hash E cs buffer h of
        None \<Rightarrow> Inl (CandidateMissing (of_nat (Suc n)))
      | Some b \<Rightarrow> if height_of b \<noteq> of_nat (Suc n) then Inl (CandidateHeightMismatch (of_nat (Suc n)) (height_of b))
          else collect_candidate E cs buffer n (parent_of b) (blocks @ [b]) (total_work + header_work b))"

fun check_links :: "fork_env \<Rightarrow> block list \<Rightarrow> fork_error + unit" where
  "check_links E (a # b # bs) =
     (if parent_of b \<noteq> hash_of E a then Inl (NotConnected (height_of b))
      else if height_of b \<noteq> height_of a + 1 then Inl (HeightGap (height_of b))
      else check_links E (b # bs))"
| "check_links E bs = Inr ()"

fun check_candidate :: "fork_env \<Rightarrow> nat \<Rightarrow> block list \<Rightarrow> hash \<Rightarrow> u128 \<Rightarrow> fork_error + unit" where
  "check_candidate E i [] prev_hash w = Inr ()"
| "check_candidate E i (b # bs) prev_hash w =
     (case validate_block_with_options (fe_crypto E) (fe_codec E) (fe_validator E) (fe_now E i) b prev_hash
          (height_of b) True (if height_of b = 0 then None else Some w) of
        Inl e \<Rightarrow> Inl (NewBlockInvalid (height_of b) e)
      | Inr _ \<Rightarrow> check_candidate E (Suc i) bs (hash_of E b) (saturating_add_word w (block_work b)))"

definition validate_chain_from_genesis ::
  "fork_env \<Rightarrow> hash \<Rightarrow> u64 \<Rightarrow> chain_state \<Rightarrow> block_buffer option \<Rightarrow> fork_error + (block list \<times> u64)" where
  "validate_chain_from_genesis E end_hash end_height cs buffer =
     bind_res (collect_candidate E cs buffer (unat end_height) end_hash [] 0) (\<lambda>(h, blocks, total_work).
       if h \<noteq> chs_genesis_hash cs then Inl NotConnectedToGenesis
       else case get_block_by_hash cs (chs_genesis_hash cs) of None \<Rightarrow> Inl GenesisMissing
       | Some g \<Rightarrow> if height_of g \<noteq> 0 then Inl GenesisHeight
           else let chain_blocks = rev (blocks @ [g]) in
             bind_res (check_links E chain_blocks) (\<lambda>_.
             bind_res (check_candidate E 0 (tl chain_blocks) (hash_of E g) (saturating_add_word 0 (block_work g))) (\<lambda>_.
             Inr (chain_blocks, total_work + header_work g))))"

fun collect_ours :: "fork_env \<Rightarrow> chain_state \<Rightarrow> nat \<Rightarrow> hash \<Rightarrow> block list \<Rightarrow> u64 \<Rightarrow> fork_error + (block list \<times> u64)" where
  "collect_ours E cs 0 h blocks total_work = Inr (blocks, total_work)"
| "collect_ours E cs (Suc n) h blocks total_work =
     (case get_block_by_height cs (of_nat (Suc n)) of None \<Rightarrow> Inl (OurBlockMissing (of_nat (Suc n)))
      | Some b \<Rightarrow> if hash_of E b \<noteq> h then Inl (OurBlockMismatch (of_nat (Suc n)))
          else collect_ours E cs n (parent_of b) (blocks @ [b]) (total_work + header_work b))"

definition get_chain_from_genesis :: "fork_env \<Rightarrow> hash \<Rightarrow> u64 \<Rightarrow> chain_state \<Rightarrow> fork_error + (block list \<times> u64)" where
  "get_chain_from_genesis E best_hash best_height cs =
     bind_res (collect_ours E cs (unat best_height) best_hash [] 0) (\<lambda>(blocks, total_work).
       case get_block_by_height cs 0 of None \<Rightarrow> Inl GenesisMissing
       | Some g \<Rightarrow> if hash_of E g \<noteq> chs_genesis_hash cs then Inl NotFromGenesis
           else Inr (rev (blocks @ [g]), total_work + header_work g))"

definition reorganize_chain_from_genesis ::
  "fork_env \<Rightarrow> block list \<Rightarrow> block list \<Rightarrow> node_state \<Rightarrow> ((fork_error + unit) \<times> node_state) option" where
  "reorganize_chain_from_genesis E old_chain_blocks new_chain_blocks s =
     (case (old_chain_blocks, new_chain_blocks) of
        (og # old, ng # new) \<Rightarrow>
          if hash_of E og \<noteq> chs_genesis_hash (ns_chain s) \<or> hash_of E ng \<noteq> chs_genesis_hash (ns_chain s)
          then Some (Inl NotFromGenesis, s)
          else adopt_blocks E new (last new_chain_blocks)
                 (s\<lparr>ns_ledger := unwind_blocks E (rev old) (ns_ledger s)\<rparr>)
      | _ \<Rightarrow> Some (Inl ChainEmpty, s))"

text \<open>\<open>attempt_reorganization_if_longer_chain\<close>.\<close>

definition MIN_ANCHOR_DEPTH :: u64 where "MIN_ANCHOR_DEPTH = 6"

fun collect_old :: "chain_state \<Rightarrow> u64 list \<Rightarrow> fork_error + block list" where
  "collect_old cs [] = Inr []"
| "collect_old cs (h # hs) =
     (case get_block_by_height cs h of None \<Rightarrow> Inl (MissingOldBlock h)
      | Some b \<Rightarrow> bind_res (collect_old cs hs) (\<lambda>bs. Inr (b # bs)))"

fun collect_new :: "fork_env \<Rightarrow> chain_state \<Rightarrow> block list \<Rightarrow> nat \<Rightarrow> hash \<Rightarrow> u64 \<Rightarrow> fork_error + block list" where
  "collect_new E cs alt 0 h height = Inr []"
| "collect_new E cs alt (Suc n) h height =
     (case block_from_chain_or_alt E cs alt h of None \<Rightarrow> Inl (MissingNewBlock height)
      | Some b \<Rightarrow> bind_res (collect_new E cs alt n (parent_of b) (height - 1)) (\<lambda>bs. Inr (b # bs)))"

definition as_bool :: "((fork_error + unit) \<times> node_state) option \<Rightarrow> ((fork_error + bool) \<times> node_state) option" where
  "as_bool r = map_option (\<lambda>(x, s). (case x of Inl e \<Rightarrow> Inl e | Inr _ \<Rightarrow> Inr True, s)) r"

definition complete_fork ::
  "fork_env \<Rightarrow> hash \<Rightarrow> u64 \<Rightarrow> block_buffer option \<Rightarrow> node_state \<Rightarrow> ((fork_error + bool) \<times> node_state) option" where
  "complete_fork E new_hash new_height buffer s =
     (let cs = ns_chain s; best_height = chs_best_height cs in
      case validate_chain_from_genesis E new_hash new_height cs buffer of Inl _ \<Rightarrow> Some (Inr False, s)
      | Inr (new_blocks, new_work) \<Rightarrow>
          (case get_chain_from_genesis E (chs_best_hash cs) best_height cs of Inl _ \<Rightarrow> Some (Inr False, s)
           | Inr (our_blocks, our_work) \<Rightarrow>
               if compare_chains our_work new_work \<le> 0 \<and> new_height \<le> best_height then Some (Inr False, s)
               else as_bool (reorganize_chain_from_genesis E our_blocks new_blocks s)))"

definition anchored_fork ::
  "fork_env \<Rightarrow> hash \<Rightarrow> u64 \<Rightarrow> block list \<Rightarrow> u64 \<Rightarrow> node_state \<Rightarrow> ((fork_error + bool) \<times> node_state) option" where
  "anchored_fork E new_hash new_height alt common_height s =
     (let cs = ns_chain s; best_height = chs_best_height cs in
      case (if common_height < best_height
            then collect_old cs (map of_nat [unat common_height + 1..<unat best_height + 1]) else Inr []) of
        Inl e \<Rightarrow> Some (Inl e, s)
      | Inr old \<Rightarrow>
          (case collect_new E cs alt (unat new_height - unat common_height) new_hash new_height of
             Inl e \<Rightarrow> Some (Inl e, s)
           | Inr new \<Rightarrow>
               let old_chain_blocks = rev old; new_chain_blocks = rev new in
               if compare_chains (work_sum old_chain_blocks) (work_sum new_chain_blocks) \<le> 0 then Some (Inr False, s)
               else as_bool (reorganize_chain E old_chain_blocks new_chain_blocks s)))"

definition attempt_reorganization_if_longer_chain ::
  "fork_env \<Rightarrow> hash \<Rightarrow> u64 \<Rightarrow> block_buffer option \<Rightarrow> node_state \<Rightarrow> ((fork_error + bool) \<times> node_state) option" where
  "attempt_reorganization_if_longer_chain E new_hash new_height buffer s =
     (let cs = ns_chain s; alt = (case buffer of None \<Rightarrow> [] | Some buf \<Rightarrow> map snd buf) in
      if new_height < chs_best_height cs then Some (Inr False, s)
      else if new_height = chs_best_height cs \<and> new_hash = chs_best_hash cs then Some (Inr False, s)
      else case find_common_ancestor_with_alt_chain (fe_crypto E) (fe_codec E) cs new_hash new_height alt of
        None \<Rightarrow> complete_fork E new_hash new_height buffer s
      | Some (common_hash, common_height) \<Rightarrow>
          if common_height < MIN_ANCHOR_DEPTH then Some (Inr False, s)
          else case get_block_by_hash cs common_hash of None \<Rightarrow> Some (Inr False, s)
          | Some b \<Rightarrow> if chs_best_height cs < height_of b then Some (Inr False, s)
              else anchored_fork E new_hash new_height alt common_height s)"

section \<open>A refused fork\<close>

text \<open>The reward of a block that claims height 0 is not looked at.\<close>

lemma validate_block_no_reward:
  "validate_block_with_options X B V now (b\<lparr>blk_coinbase := c\<rparr>) prev h skip None =
     validate_block_with_options X B V now b prev h skip None"
  by (simp add: validate_block_with_options_def validate_difficulty_def Let_def)

lemma validate_new_blocks_height_zero:
  assumes "height_of b = 0"
  shows "validate_new_blocks E i (b\<lparr>blk_coinbase := c\<rparr> # bs) prev w = validate_new_blocks E i (b # bs) prev w"
  using assms by (simp add: validate_block_no_reward block_hash_def block_work_def split: sum.split)

lemma reorganize_invalid:
  assumes "new = b # bs" and "compute_cumulative_work_tip_db (chs_db (ns_chain s)) (parent_of b) = Some (Inr w)"
    and "validate_new_blocks E 0 new (parent_of b) w = Inl e"
  shows "reorganize_chain E old new s = Some (Inl e, s\<lparr>ns_ledger := unwind_blocks E (rev old) (ns_ledger s)\<rparr>)"
  using assms by (simp add: reorganize_chain_def Let_def)

section \<open>The path of a complete fork\<close>

lemma candidate_is_alt:
  "get_candidate_block_by_hash E cs buffer =
     block_by_hash_or_alt (fe_crypto E) (fe_codec E) cs (case buffer of None \<Rightarrow> [] | Some buf \<Rightarrow> map snd buf)"
  by (auto simp: get_candidate_block_by_hash_def block_by_hash_or_alt_def fun_eq_iff split: option.split)

lemma chain_or_alt_is_alt:
  "block_from_chain_or_alt E cs alt = block_by_hash_or_alt (fe_crypto E) (fe_codec E) cs alt"
  by (simp add: block_from_chain_or_alt_def block_by_hash_or_alt_def fun_eq_iff)

lemma collect_candidate_chain:
  assumes "collect_candidate E cs buffer n h blocks w = Inr (g, bs, w')" and "n < 2 ^ 64"
    and "get_candidate_block_by_hash E cs buffer g = Some gb" and "height_of gb = 0"
  shows "walk_back (get_candidate_block_by_hash E cs buffer) n h = Some g \<and>
    (\<exists>ds. chain_down (get_candidate_block_by_hash E cs buffer) n h = Some ds)"
  using assms
proof (induction n arbitrary: h blocks w)
  case 0
  then show ?case by (simp add: chain_down.simps)
next
  case (Suc n)
  then obtain b where b: "get_candidate_block_by_hash E cs buffer h = Some b" "height_of b = of_nat (Suc n)"
    "collect_candidate E cs buffer n (parent_of b) (blocks @ [b]) (w + header_work b) = Inr (g, bs, w')"
    by (auto split: option.splits if_splits)
  have "unat (height_of b) = Suc n" using Suc.prems(2) unfolding b(2) by (simp only: unat_of_nat) simp
  with Suc.IH[OF b(3)] Suc.prems b(1) show ?case by (auto simp: chain_down_Suc)
qed

lemma validated_candidate_is_complete:
  assumes "validate_chain_from_genesis E th n cs buffer = Inr r"
  shows "complete_branch (fe_crypto E) (fe_codec E) cs (case buffer of None \<Rightarrow> [] | Some buf \<Rightarrow> map snd buf) th n"
proof -
  from assms obtain blocks w g where
    c: "collect_candidate E cs buffer (unat n) th [] 0 = Inr (chs_genesis_hash cs, blocks, w)"
    and g: "get_block_by_hash cs (chs_genesis_hash cs) = Some g" "height_of g = 0"
    by (auto simp: validate_chain_from_genesis_def bind_res_Inr split: option.splits if_splits)
  have "get_candidate_block_by_hash E cs buffer (chs_genesis_hash cs) = Some g"
    by (simp add: get_candidate_block_by_hash_def g(1))
  moreover have "unat n < 2 ^ 64" using unat_lt_pow[of n] by simp
  ultimately show ?thesis
    using collect_candidate_chain[OF c, of g] g(2)
    by (simp add: complete_branch_def theirs_at_def candidate_is_alt)
qed

text \<open>When no common ancestor is found the candidate is not complete, so it is refused: nothing is ever
  reorganised from genesis.\<close>

lemma complete_fork_refused:
  assumes "chain_ok (fe_crypto E) (fe_codec E) (ns_chain s)"
    and "find_common_ancestor_with_alt_chain (fe_crypto E) (fe_codec E) (ns_chain s) th n
           (case buffer of None \<Rightarrow> [] | Some buf \<Rightarrow> map snd buf) = None"
  shows "complete_fork E th n buffer s = Some (Inr False, s)"
proof (cases "validate_chain_from_genesis E th n (ns_chain s) buffer")
  case (Inl e)
  then show ?thesis by (simp add: complete_fork_def Let_def)
next
  case (Inr r)
  from find_common_ancestor_highest[OF assms(1) validated_candidate_is_complete[OF Inr]] assms(2)
  show ?thesis by simp
qed

text \<open>Hence a fork is adopted only from an ancestor of height 6 or more, and with more work.\<close>

lemma attempt_adopts:
  assumes ok: "chain_ok (fe_crypto E) (fe_codec E) (ns_chain s)"
    and adopt: "attempt_reorganization_if_longer_chain E th n buffer s = Some (Inr True, s')"
  obtains a j old new where
    "find_common_ancestor_with_alt_chain (fe_crypto E) (fe_codec E) (ns_chain s) th n
       (case buffer of None \<Rightarrow> [] | Some buf \<Rightarrow> map snd buf) = Some (a, j)"
    and "6 \<le> j"
    and "collect_new E (ns_chain s) (case buffer of None \<Rightarrow> [] | Some buf \<Rightarrow> map snd buf) (unat n - unat j) th n = Inr new"
    and "(if j < chs_best_height (ns_chain s)
         then collect_old (ns_chain s) (map of_nat [unat j + 1..<unat (chs_best_height (ns_chain s)) + 1]) else Inr [])
       = Inr old"
    and "compare_chains (work_sum (rev old)) (work_sum (rev new)) = 1"
    and "reorganize_chain E (rev old) (rev new) s = Some (Inr (), s')"
proof -
  let ?alt = "case buffer of None \<Rightarrow> [] | Some buf \<Rightarrow> map snd buf"
  let ?f = "find_common_ancestor_with_alt_chain (fe_crypto E) (fe_codec E) (ns_chain s) th n ?alt"
  have "?f \<noteq> None"
  proof
    assume none: "?f = None"
    with adopt complete_fork_refused[OF ok none] show False
      by (auto simp: attempt_reorganization_if_longer_chain_def Let_def split: if_splits)
  qed
  then obtain a j where f: "?f = Some (a, j)" by auto
  with adopt have j: "6 \<le> j" and an: "anchored_fork E th n ?alt j s = Some (Inr True, s')"
    by (auto simp: attempt_reorganization_if_longer_chain_def MIN_ANCHOR_DEPTH_def Let_def not_less
        split: if_splits option.splits)
  have cmp: "compare_chains x y \<le> 0 \<or> compare_chains x y = 1" for x y
    by (simp add: compare_chains_def Let_def)
  from an obtain old new where "(if j < chs_best_height (ns_chain s)
         then collect_old (ns_chain s) (map of_nat [unat j + 1..<unat (chs_best_height (ns_chain s)) + 1]) else Inr [])
       = Inr old" "collect_new E (ns_chain s) ?alt (unat n - unat j) th n = Inr new"
    "\<not> compare_chains (work_sum (rev old)) (work_sum (rev new)) \<le> 0"
    "as_bool (reorganize_chain E (rev old) (rev new) s) = Some (Inr True, s')"
    unfolding anchored_fork_def Let_def by (auto split: sum.splits if_splits)
  moreover from this(4) have "reorganize_chain E (rev old) (rev new) s = Some (Inr (), s')"
  proof -
    from \<open>as_bool (reorganize_chain E (rev old) (rev new) s) = Some (Inr True, s')\<close> obtain x where
      x: "reorganize_chain E (rev old) (rev new) s = Some (x, s')" "(case x of Inl e \<Rightarrow> Inl e | Inr _ \<Rightarrow> Inr True) = Inr True"
      by (auto simp: as_bool_def)
    from x(2) have "x = Inr ()" by (cases x) simp_all
    with x(1) show ?thesis by simp
  qed
  ultimately show thesis using that f j cmp by blast
qed

section \<open>An adopted fork\<close>

text \<open>Blocks, oldest first, that grow on a hash of height \<open>n\<close>.\<close>

fun grows :: "fork_env \<Rightarrow> hash \<Rightarrow> nat \<Rightarrow> block list \<Rightarrow> bool" where
  "grows E h n [] = True"
| "grows E h n (b # bs) \<longleftrightarrow> parent_of b = h \<and> unat (height_of b) = Suc n \<and> grows E (hash_of E b) (Suc n) bs"

definition end_hash :: "fork_env \<Rightarrow> hash \<Rightarrow> block list \<Rightarrow> hash" where
  "end_hash E h bs = (if bs = [] then h else hash_of E (last bs))"

lemma end_hash_simps [simp]:
  "end_hash E h [] = h" "end_hash E h (b # bs) = end_hash E (hash_of E b) bs" "end_hash E h (bs @ [b]) = hash_of E b"
  by (simp_all add: end_hash_def)

lemma grows_append:
  "grows E h n (bs @ [b]) \<longleftrightarrow> grows E h n bs \<and> parent_of b = end_hash E h bs \<and> unat (height_of b) = Suc (n + length bs)"
  by (induction bs arbitrary: h n) auto

lemma chain_down_grows:
  assumes "chain_down get (j + k) h = Some bs" and "walk_back get k h = Some a"
    and "\<And>g b. get g = Some b \<Longrightarrow> hash_of E b = g"
  shows "grows E a j (rev (take k bs)) \<and> end_hash E a (rev (take k bs)) = h"
  using assms(1,2)
proof (induction k arbitrary: h bs)
  case (Suc k)
  then obtain b cs where b: "get h = Some b" "unat (height_of b) = Suc (j + k)"
    "chain_down get (j + k) (parent_of b) = Some cs" "bs = b # cs" by (auto simp: chain_down_Suc)
  have len: "length (take k cs) = k" using chain_down_length[OF b(3)] by simp
  from Suc.IH[OF b(3)] Suc.prems(2) b have
    "grows E a j (rev (take k cs))" "end_hash E a (rev (take k cs)) = parent_of b" by auto
  then show ?case using b(2,4) assms(3)[OF b(1)] len by (simp add: grows_append)
qed simp

lemma collect_new_chain:
  assumes "chain_down (block_from_chain_or_alt E cs alt) (j + k) h = Some bs"
  shows "collect_new E cs alt k h m = Inr (take k bs)"
  using assms
proof (induction k arbitrary: h m bs)
  case (Suc k)
  then obtain b ds where "block_from_chain_or_alt E cs alt h = Some b"
    "chain_down (block_from_chain_or_alt E cs alt) (j + k) (parent_of b) = Some ds" "bs = b # ds"
    by (auto simp: chain_down_Suc)
  with Suc.IH show ?case by simp
qed simp

lemma tip_chain_store:
  assumes "tip_chain db g n h bs" and "replaces_nothing X B db b"
  shows "tip_chain (store_block_raw X B b db) g n h bs"
  using assms(1) chain_down_mono[of "cdb_blocks db" "(cdb_blocks db)(block_hash X B b \<mapsto> b)" "unat n" h bs, OF stored_blocks_mono[OF assms(2)]]
    walk_back_mono[of "cdb_blocks db" "(cdb_blocks db)(block_hash X B b \<mapsto> b)" "unat n" h g, OF stored_blocks_mono[OF assms(2)]]
  by (simp add: tip_chain_def store_block_raw_def)

lemma store_block_blocks:
  "cdb_blocks (chs_db (snd (store_block X B b cs))) =
     (if MAX_REASONABLE_HEIGHT < height_of b then cdb_blocks (chs_db cs)
      else (cdb_blocks (chs_db cs))(block_hash X B b \<mapsto> b))"
  "chs_genesis_hash (snd (store_block X B b cs)) = chs_genesis_hash cs"
  by (simp_all add: store_block_def store_block_raw_def set_height_index_def put_tip_def Let_def)

lemma store_block_small: "store_block X B b cs = (Inr r, cs') \<Longrightarrow> height_of b \<le> MAX_REASONABLE_HEIGHT"
  by (cases "MAX_REASONABLE_HEIGHT < height_of b") (simp_all add: store_block_def not_less)

lemma unat_eq_Suc: "unat (m :: u64) = Suc (unat n) \<Longrightarrow> m = n + 1"
proof -
  assume a: "unat m = Suc (unat n)"
  then have "unat n + unat (1 :: u64) < 2 ^ 64" using unat_lt_pow[of m] by simp
  then show "m = n + 1" using a unat_add_small[of n 1] by (simp add: word_unat_eq_iff)
qed

text \<open>Storing and applying the blocks of a fork keeps the store a chain, and the fork a chain in it.\<close>

lemma apply_new_blocks_ok:
  assumes "apply_new_blocks E i bs s = Some (Inr (), s')"
    and "chain_ok (fe_crypto E) (fe_codec E) (ns_chain s)"
    and "tip_chain (chs_db (ns_chain s)) (chs_genesis_hash (ns_chain s)) n h ds"
    and "grows E h (unat n) bs"
    and "\<forall>b\<in>set bs. replaces_nothing (fe_crypto E) (fe_codec E) (chs_db (ns_chain s)) b"
    and "\<forall>b\<in>set bs. \<forall>c\<in>set bs. hash_of E b = hash_of E c \<longrightarrow> b = c"
  shows "chain_ok (fe_crypto E) (fe_codec E) (ns_chain s') \<and> chs_genesis_hash (ns_chain s') = chs_genesis_hash (ns_chain s) \<and>
    (bs \<noteq> [] \<longrightarrow> height_of (last bs) \<le> MAX_REASONABLE_HEIGHT \<and>
      tip_chain (chs_db (ns_chain s')) (chs_genesis_hash (ns_chain s)) (height_of (last bs)) (hash_of E (last bs)) (rev bs @ ds))"
  using assms
proof (induction bs arbitrary: i s n h ds)
  case (Cons b bs)
  let ?X = "fe_crypto E" and ?B = "fe_codec E"
  let ?cs = "ns_chain s"
  from Cons.prems(1) obtain r cs l l' where st: "store_block ?X ?B b ?cs = (Inr r, cs)"
    and ap: "apply_block_transactions (fe_node E) (fe_clock E i) b (ns_ledger s) = Some l"
    and rest: "apply_new_blocks E (Suc i) bs (s\<lparr>ns_chain := cs, ns_ledger := l'\<rparr>) = Some (Inr (), s')"
    by (auto simp: Let_def split: prod.splits sum.splits option.splits)
  have small: "height_of b \<le> MAX_REASONABLE_HEIGHT" using st by (rule store_block_small)
  have rn: "replaces_nothing ?X ?B (chs_db ?cs) b" using Cons.prems(5) by simp
  have par: "parent_of b = h" and ht: "unat (height_of b) = Suc (unat n)" and gr: "grows E (hash_of E b) (Suc (unat n)) bs"
    using Cons.prems(4) by simp_all
  have cd: "chain_down (cdb_blocks (chs_db ?cs)) (unat n) h = Some ds" using Cons.prems(3) by (simp add: tip_chain_def)
  have ok': "chain_ok ?X ?B cs"
  proof (rule store_block_ok[OF Cons.prems(2) rn _ st])
    assume "parent_of b = chs_best_hash ?cs"
    then have hb: "h = chs_best_hash ?cs" using par by simp
    obtain es where "tip_chain (chs_db ?cs) (chs_genesis_hash ?cs) (chs_best_height ?cs) (chs_best_hash ?cs) es"
      using Cons.prems(2) by (rule chain_okE)
    then have ce: "chain_down (cdb_blocks (chs_db ?cs)) (unat (chs_best_height ?cs)) h = Some es"
      by (simp add: tip_chain_def hb)
    from chain_down_nth[OF cd, of 0] chain_down_nth[OF ce, of 0] have "unat n = unat (chs_best_height ?cs)" by auto
    then show "height_of b = chs_best_height ?cs + 1" using ht unat_eq_Suc by simp
  qed
  have csdb: "cs = snd (store_block ?X ?B b ?cs)" by (simp add: st)
  have blk: "cdb_blocks (chs_db cs) = (cdb_blocks (chs_db ?cs))(hash_of E b \<mapsto> b)"
    and gen: "chs_genesis_hash cs = chs_genesis_hash ?cs"
    using small by (simp_all add: csdb store_block_blocks not_less[symmetric])
  have "tip_chain (store_block_raw ?X ?B b (chs_db ?cs)) (chs_genesis_hash ?cs) n h ds"
    by (rule tip_chain_store[OF Cons.prems(3) rn])
  then have t': "tip_chain (chs_db cs) (chs_genesis_hash cs) (height_of b) (hash_of E b) (b # ds)"
    using par ht by (simp add: tip_chain_def store_block_raw_def blk gen chain_down_Suc)
  have rn': "\<forall>c\<in>set bs. replaces_nothing ?X ?B (chs_db cs) c"
  proof
    fix c assume c: "c \<in> set bs"
    then have "hash_of E c = hash_of E b \<longrightarrow> c = b" using Cons.prems(6) by (auto dest: spec)
    moreover have "replaces_nothing ?X ?B (chs_db ?cs) c" using Cons.prems(5) c by simp
    ultimately show "replaces_nothing ?X ?B (chs_db cs) c" by (auto simp: replaces_nothing_def blk)
  qed
  have "chain_ok ?X ?B (ns_chain s') \<and> chs_genesis_hash (ns_chain s') = chs_genesis_hash cs \<and>
    (bs \<noteq> [] \<longrightarrow> height_of (last bs) \<le> MAX_REASONABLE_HEIGHT \<and>
      tip_chain (chs_db (ns_chain s')) (chs_genesis_hash cs) (height_of (last bs)) (hash_of E (last bs)) (rev bs @ b # ds))"
    using Cons.IH[OF rest, of "height_of b" "hash_of E b" "b # ds"] ok' t' gr ht rn' Cons.prems(6) by simp
  moreover have "bs = [] \<Longrightarrow> ns_chain s' = cs" using rest by auto
  ultimately show ?case using t' small gen by (cases "bs = []") auto
qed simp

text \<open>When the fork is complete (its blocks are in the store or the buffer, with heights that count down to
  the genesis block), an attempt that succeeds leaves a store that is a chain with the fork's tip as its
  best tip, and the fork had more work than what it replaced.\<close>

lemma reorganize_adopts:
  assumes ok: "chain_ok (fe_crypto E) (fe_codec E) (ns_chain s)"
    and ne: "new \<noteq> []" and gr: "grows E a (unat j) new"
    and t: "tip_chain (chs_db (ns_chain s)) (chs_genesis_hash (ns_chain s)) j a ds"
    and rn: "\<forall>b\<in>set new. replaces_nothing (fe_crypto E) (fe_codec E) (chs_db (ns_chain s)) b"
    and inj: "\<forall>b\<in>set new. \<forall>c\<in>set new. hash_of E b = hash_of E c \<longrightarrow> b = c"
    and run: "reorganize_chain E old new s = Some (Inr (), s')"
  shows "chain_ok (fe_crypto E) (fe_codec E) (ns_chain s') \<and>
    chs_best_hash (ns_chain s') = hash_of E (last new) \<and> chs_best_height (ns_chain s') = height_of (last new)"
proof -
  let ?s1 = "s\<lparr>ns_ledger := unwind_blocks E (rev old) (ns_ledger s)\<rparr>"
  have "adopt_blocks E new (last new) ?s1 = Some (Inr (), s')"
    using run ne by (auto simp: reorganize_chain_def Let_def split: list.splits option.splits sum.splits)
  then obtain s2 cs where ap: "apply_new_blocks E 0 new ?s1 = Some (Inr (), s2)"
    and up: "update_best_chain (hash_of E (last new)) (height_of (last new)) (ns_chain s2) = Some (Inr (), cs)"
    and s': "s' = s2\<lparr>ns_chain := cs\<rparr>"
    by (auto simp: adopt_blocks_def split: option.splits sum.splits prod.splits)
  have c: "chain_ok (fe_crypto E) (fe_codec E) (ns_chain s2)"
    "chs_genesis_hash (ns_chain s2) = chs_genesis_hash (ns_chain s)" "height_of (last new) \<le> MAX_REASONABLE_HEIGHT"
    "tip_chain (chs_db (ns_chain s2)) (chs_genesis_hash (ns_chain s)) (height_of (last new)) (hash_of E (last new)) (rev new @ ds)"
    using apply_new_blocks_ok[OF ap, of j a ds] ok t gr rn inj ne by auto
  from update_best_chain_ok[OF c(1) _ c(3), of "hash_of E (last new)" "rev new @ ds"] c(2,4) up
  show ?thesis by (auto simp: s')
qed

lemma attempt_keeps_chain:
  assumes ok: "chain_ok (fe_crypto E) (fe_codec E) (ns_chain s)"
    and br: "complete_branch (fe_crypto E) (fe_codec E) (ns_chain s)
      (case buffer of None \<Rightarrow> [] | Some buf \<Rightarrow> map snd buf) th n"
    and adopt: "attempt_reorganization_if_longer_chain E th n buffer s = Some (Inr True, s')"
  shows "chain_ok (fe_crypto E) (fe_codec E) (ns_chain s') \<and>
    chs_best_hash (ns_chain s') = th \<and> chs_best_height (ns_chain s') = n"
proof -
  let ?alt = "case buffer of None \<Rightarrow> [] | Some buf \<Rightarrow> map snd buf"
  let ?X = "fe_crypto E" and ?B = "fe_codec E" and ?cs = "ns_chain s"
  let ?Q = "block_by_hash_or_alt ?X ?B ?cs ?alt"
  obtain a j old new0 where f: "find_common_ancestor_with_alt_chain ?X ?B ?cs th n ?alt = Some (a, j)"
    and cn: "collect_new E ?cs ?alt (unat n - unat j) th n = Inr new0"
    and cmp: "compare_chains (work_sum (rev old)) (work_sum (rev new0)) = 1"
    and run: "reorganize_chain E (rev old) (rev new0) s = Some (Inr (), s')"
    using attempt_adopts[OF ok adopt] by metis
  from find_common_ancestor_highest[OF ok br] f have j: "j \<le> chs_best_height ?cs" "j \<le> n"
    and oa: "ours_at ?cs (unat j) = Some a" and ta: "theirs_at ?X ?B ?cs ?alt th n (unat j) = Some a" by auto
  have jn: "unat j + (unat n - unat j) = unat n" "unat j \<le> unat (chs_best_height ?cs)"
    using j by (simp_all add: word_le_nat_alt)
  obtain bs where bs: "chain_down ?Q (unat j + (unat n - unat j)) th = Some bs"
    using br unfolding complete_branch_def jn(1) by blast
  define new where "new = rev (take (unat n - unat j) bs)"
  have new: "rev new0 = new"
    using collect_new_chain[of E ?cs ?alt "unat j" "unat n - unat j" th bs n] bs cn
    by (simp add: chain_or_alt_is_alt new_def)
  have key: "hash_of E b = g" if "?Q g = Some b" for g b
    using that chain_ok_keyed[OF ok, of g b]
    by (auto simp: block_by_hash_or_alt_def chain_ok_reads[OF ok] find_Some_iff split: option.splits)
  have gr: "grows E a (unat j) new" and eh: "end_hash E a new = th"
    using chain_down_grows[OF bs ta[unfolded theirs_at_def] key] by (auto simp: new_def)
  have mem: "?Q (hash_of E b) = Some b" if "b \<in> set new" for b
  proof -
    from that obtain i where i: "i < length bs" "b = bs ! i" unfolding new_def
      by (metis in_set_conv_nth in_set_takeD set_rev)
    then have "i \<le> unat j + (unat n - unat j)" using chain_down_length[OF bs] by simp
    from chain_down_nth[OF bs this] i key show ?thesis by auto
  qed
  have rn: "\<forall>b\<in>set new. replaces_nothing ?X ?B (chs_db ?cs) b"
  proof
    fix b assume "b \<in> set new"
    from mem[OF this] show "replaces_nothing ?X ?B (chs_db ?cs) b"
      by (auto simp: replaces_nothing_def block_by_hash_or_alt_def chain_ok_reads[OF ok] split: option.splits)
  qed
  have inj: "\<forall>b\<in>set new. \<forall>c\<in>set new. hash_of E b = hash_of E c \<longrightarrow> b = c"
    using mem by (metis option.inject)
  have ne: "new \<noteq> []"
  proof
    assume "new = []"
    with run new show False by (simp add: reorganize_chain_def Let_def)
  qed
  obtain ds where "tip_chain (chs_db ?cs) (chs_genesis_hash ?cs) j a ds"
  proof -
    obtain es where es: "tip_chain (chs_db ?cs) (chs_genesis_hash ?cs) (chs_best_height ?cs) (chs_best_hash ?cs) es"
      using ok by (rule chain_okE)
    let ?m = "unat (chs_best_height ?cs) - unat j"
    have m: "unat (chs_best_height ?cs) - ?m = unat j" "?m \<le> unat (chs_best_height ?cs)" "?m + unat j = unat (chs_best_height ?cs)"
      using jn(2) by simp_all
    have wa: "walk_back (cdb_blocks (chs_db ?cs)) ?m (chs_best_hash ?cs) = Some a"
      using oa by (simp add: ours_at_def chain_ok_reads[OF ok])
    have "chain_down (cdb_blocks (chs_db ?cs)) (unat (chs_best_height ?cs)) (chs_best_hash ?cs) = Some es"
      using es by (simp add: tip_chain_def)
    from chain_down_walk[OF this m(2)] wa m(1) have "chain_down (cdb_blocks (chs_db ?cs)) (unat j) a = Some (drop ?m es)"
      by auto
    moreover have "walk_back (cdb_blocks (chs_db ?cs)) (unat j) a = Some (chs_genesis_hash ?cs)"
      using walk_back_add[of "cdb_blocks (chs_db ?cs)" ?m "unat j" "chs_best_hash ?cs"] es wa
      by (simp add: tip_chain_def m(3))
    ultimately show thesis using that by (simp add: tip_chain_def)
  qed
  from reorganize_adopts[OF ok ne gr this rn inj run[unfolded new]]
  have "chain_ok ?X ?B (ns_chain s')" "chs_best_hash (ns_chain s') = hash_of E (last new)"
    "chs_best_height (ns_chain s') = height_of (last new)" by simp_all
  moreover have "hash_of E (last new) = th" using eh ne by (simp add: end_hash_def)
  moreover have "height_of (last new) = n"
  proof -
    have "bs \<noteq> []" "unat n - unat j \<noteq> 0" using ne by (auto simp: new_def)
    then have "last new = bs ! 0" by (cases bs) (auto simp: new_def take_Cons' )
    with chain_down_nth[OF bs, of 0] jn(1) show ?thesis by (auto simp: word_unat_eq_iff)
  qed
  ultimately show ?thesis by simp
qed

section \<open>What goes wrong\<close>

text \<open>The caller lists the old blocks newest first, and \<open>reorganize_chain\<close> reverses the list again: the
  oldest block is unwound first. Money that the second block passed on is then credited twice.\<close>

definition transfer_block :: "transfer_tx \<Rightarrow> block" where
  "transfer_block tx = (block_genesis (Address 0))\<lparr>blk_transactions := [Transfer tx]\<rparr>"

lemma bal_unwind_transfer_block:
  assumes "tr_from tx \<noteq> tr_to tx"
  shows "bal (unwind_block_transactions N (transfer_block tx) l) c =
    (if c = tr_from tx then bal l c + tr_amount tx + tr_fee tx
     else if c = tr_to tx then saturating_sub_word (bal l c) (tr_amount tx) else bal l c)"
  using assms
  by (simp add: unwind_block_transactions_def transfer_block_def block_genesis_def coinbase_new_def Let_def
      unwind_transfer_def bal_debit_floor)

lemma reorganize_oldest_first:
  assumes "tr_to t1 = tr_from t2" and "tr_from t1 \<noteq> tr_to t1" and "tr_from t2 \<noteq> tr_to t2"
    and "compute_cumulative_work_tip_db (chs_db (ns_chain s)) (parent_of b) = Some (Inr w)"
    and "validate_new_blocks E 0 (b # bs) (parent_of b) w = Inl e"
  shows "\<exists>s'. reorganize_chain E [transfer_block t2, transfer_block t1] (b # bs) s = Some (Inl e, s') \<and>
    ns_chain s' = ns_chain s \<and>
    bal (ns_ledger s') (tr_from t2) =
      saturating_sub_word (bal (ns_ledger s) (tr_from t2)) (tr_amount t1) + tr_amount t2 + tr_fee t2 \<and>
    bal (unwind_blocks E [transfer_block t2, transfer_block t1] (ns_ledger s)) (tr_from t2) =
      saturating_sub_word (bal (ns_ledger s) (tr_from t2) + tr_amount t2 + tr_fee t2) (tr_amount t1)"
  using assms
  by (simp add: reorganize_invalid unwind_blocks_def bal_unwind_transfer_block)

text \<open>A tip that is only buffered is refused when the attempt is made without the buffer.\<close>

lemma attempt_without_buffer:
  assumes ok: "chain_ok (fe_crypto E) (fe_codec E) (ns_chain s)"
    and new: "get_block_by_hash (ns_chain s) th = None" and higher: "chs_best_height (ns_chain s) < n"
  shows "attempt_reorganization_if_longer_chain E th n None s = Some (Inr False, s)"
proof -
  have d: "unat n - unat (chs_best_height (ns_chain s)) = Suc (unat n - unat (chs_best_height (ns_chain s)) - 1)"
    "unat (chs_best_height (ns_chain s)) - unat n = 0" using higher by (simp_all add: word_less_nat_alt)
  have own: "own_match (fe_crypto E) (fe_codec E) (ns_chain s) th n = None"
    using higher by (simp add: own_match_def get_block_by_height_walk[OF ok])
  have alt: "block_by_hash_or_alt (fe_crypto E) (fe_codec E) (ns_chain s) [] th = None"
    by (simp add: block_by_hash_or_alt_def new)
  have "find_common_ancestor_with_alt_chain (fe_crypto E) (fe_codec E) (ns_chain s) th n [] = None"
    using higher
    by (simp add: find_common_ancestor_with_alt_chain_def Let_def d(2) word_less_nat_alt not_le[symmetric])
       (subst d(1), simp add: own alt)
  with complete_fork_refused[OF ok, of th n None] higher show ?thesis
    by (auto simp: attempt_reorganization_if_longer_chain_def Let_def)
qed

text \<open>
  \<open>check_and_reorganize_chain\<close> of \<open>node/src/service/fork.rs\<close>: the periodic scan of the sync buffer and the
  store for a better chain. Its result is the list of what it sets off, in the order of the code: attempts
  to reorganise (each a task of its own, with or without the buffer) and block requests to a peer or to all.
  \<open>valid_id\<close> says which peer names are the hex encoding of 32 bytes.
\<close>

section \<open>Definitions\<close>

datatype fork_action =
    Attempt hash u64 bool
  | RequestFromPeer string u64 u64
  | RequestFromAll u64 u64

definition max_height :: "block_buffer \<Rightarrow> u64" where
  "max_height buf = fold max (map fst buf) 0"

definition CHUNK_SIZE :: u64 where "CHUNK_SIZE = 16"
definition MAX_RECOVERY_WINDOWS_PER_CYCLE :: nat where "MAX_RECOVERY_WINDOWS_PER_CYCLE = 32"

text \<open>The recovery windows below a conflict: at most 32 of 16 heights, each with its fork point.\<close>

fun recovery_windows :: "nat \<Rightarrow> u64 \<Rightarrow> (u64 \<times> u64) list" where
  "recovery_windows 0 cursor = []"
| "recovery_windows (Suc n) cursor =
     (let probe_from = saturating_sub_word cursor CHUNK_SIZE; probe_to = saturating_sub_word cursor 1 in
      if probe_to < probe_from then []
      else (probe_from, probe_to) # (cursor, cursor) #
        (if probe_from = 0 then [] else recovery_windows n probe_from))"

definition earliest_conflicting_height :: "fork_env \<Rightarrow> chain_state \<Rightarrow> block_buffer \<Rightarrow> u64 option" where
  "earliest_conflicting_height E cs buf =
     (let conflicts = map fst (filter (\<lambda>(h, b). h \<le> chs_best_height cs \<and>
        (case get_block_by_height cs h of None \<Rightarrow> True | Some existing \<Rightarrow> hash_of E existing \<noteq> hash_of E b)) buf)
      in case conflicts of [] \<Rightarrow> None | h # hs \<Rightarrow> Some (fold min hs h))"

definition complete_fork_requests ::
  "fork_env \<Rightarrow> (string \<Rightarrow> bool) \<Rightarrow> nat \<Rightarrow> peer_consensus \<Rightarrow> chain_state \<Rightarrow> block_buffer \<Rightarrow> fork_action list" where
  "complete_fork_requests E valid_id now pc cs buf =
     (case heaviest (active_peers now pc) of None \<Rightarrow> []
      | Some (peer_id, _) \<Rightarrow> if \<not> valid_id peer_id then []
          else let best = chs_best_height cs;
                   cursor = unwrap_or (earliest_conflicting_height E cs buf) best
            in RequestFromPeer peer_id (saturating_sub_word best CHUNK_SIZE) (min (max_height buf) (best + CHUNK_SIZE))
               # map (\<lambda>(f, t). RequestFromPeer peer_id f t) (recovery_windows MAX_RECOVERY_WINDOWS_PER_CYCLE cursor))"

definition complete_fork_actions ::
  "fork_env \<Rightarrow> (string \<Rightarrow> bool) \<Rightarrow> bool \<Rightarrow> nat \<Rightarrow> peer_consensus \<Rightarrow> chain_state \<Rightarrow> block_buffer \<Rightarrow> fork_action list" where
  "complete_fork_actions E valid_id has_cpp now pc cs buf =
     (if chs_best_height cs < max_height buf then
        (case map_of buf (max_height buf) of None \<Rightarrow> []
         | Some highest \<Rightarrow>
             (case find_common_ancestor_with_alt_chain (fe_crypto E) (fe_codec E) cs (hash_of E highest)
                 (max_height buf) (map snd buf) of
                Some _ \<Rightarrow> []
              | None \<Rightarrow> Attempt (hash_of E highest) (max_height buf) True
                  # (if has_cpp then complete_fork_requests E valid_id now pc cs buf else [])))
      else [])"

text \<open>Following a chain through the buffer. The entry that is used is dropped: later keys are others.\<close>

function follow_buffer :: "fork_env \<Rightarrow> block_buffer \<Rightarrow> u64 \<Rightarrow> hash \<Rightarrow> u64 \<times> hash" where
  "follow_buffer E buf h hash =
     (case map_of buf (h + 1) of None \<Rightarrow> (h, hash)
      | Some next_block \<Rightarrow> if parent_of next_block \<noteq> hash then (h, hash)
          else follow_buffer E (filter (\<lambda>(k, _). k \<noteq> h + 1) buf) (h + 1) (hash_of E next_block))"
  by auto
termination
proof (relation "measure (\<lambda>(_, buf, _, _). length buf)", simp, clarsimp)
  fix buf :: block_buffer and h :: u64 and b
  assume "map_of buf (h + 1) = Some b"
  then have "(h + 1, b) \<in> set buf" by (rule map_of_SomeD)
  then show "length (filter (\<lambda>(k, _). k \<noteq> h + 1) buf) < length buf"
    by (intro length_filter_less[of "(h + 1, b)"]) simp_all
qed

declare follow_buffer.simps [simp del]

definition same_height_candidate :: "fork_env \<Rightarrow> chain_state \<Rightarrow> block_buffer \<Rightarrow> (u64 \<times> hash)" where
  "same_height_candidate E cs buf =
     (case map_of buf (chs_best_height cs) of None \<Rightarrow> (0, hash_ZERO)
      | Some fork_block \<Rightarrow> if hash_of E fork_block = chs_best_hash cs then (0, hash_ZERO)
          else follow_buffer E buf (chs_best_height cs) (hash_of E fork_block))"

definition same_height_actions ::
  "fork_env \<Rightarrow> (string \<Rightarrow> bool) \<Rightarrow> bool \<Rightarrow> nat \<Rightarrow> peer_consensus \<Rightarrow> chain_state \<Rightarrow> block_buffer \<Rightarrow> fork_action list" where
  "same_height_actions E valid_id has_cpp now pc cs buf =
     (case same_height_candidate E cs buf of (tip_height, tip_hash) \<Rightarrow>
        if 0 < tip_height \<and> tip_hash \<noteq> hash_ZERO then
          (let local_work = best_cumulative_work cs; best = chs_best_height cs in
           (case best_peer_for_fork_recovery now local_work best (chs_best_hash cs) pc of None \<Rightarrow> []
            | Some (peer_id, p) \<Rightarrow>
                if has_cpp \<and> (local_work < pe_cumulative_work p \<or> pe_best_hash p \<noteq> chs_best_hash cs) \<and> valid_id peer_id
                then [RequestFromPeer peer_id best (saturating_add_word best (SYNC_BATCH_BLOCKS - 1))] else [])
           @ [Attempt tip_hash tip_height True])
        else [])"

text \<open>The hashes of the last 1000 blocks of our chain.\<close>

fun recent_hashes :: "chain_state \<Rightarrow> nat \<Rightarrow> u64 \<Rightarrow> hash \<Rightarrow> hash list" where
  "recent_hashes cs 0 h hash = []"
| "recent_hashes cs (Suc n) h hash = hash #
     (if h = 0 then [] else case get_block_by_hash cs hash of None \<Rightarrow> []
      | Some b \<Rightarrow> recent_hashes cs n (h - 1) (parent_of b))"

definition next_on_chain :: "chain_state \<Rightarrow> block_buffer \<Rightarrow> u64 \<Rightarrow> hash \<Rightarrow> block option" where
  "next_on_chain cs buf h hash =
     (case map_of buf (h + 1) of
        Some b \<Rightarrow> if parent_of b = hash then Some b
          else (case get_block_by_height cs (h + 1) of None \<Rightarrow> None
                | Some c \<Rightarrow> if parent_of c = hash then Some c else None)
      | None \<Rightarrow> (case get_block_by_height cs (h + 1) of None \<Rightarrow> None
                | Some c \<Rightarrow> if parent_of c = hash then Some c else None))"

text \<open>At most 1001 steps: the loop leaves once it is more than 1000 above where it started.\<close>

fun extend_chain :: "fork_env \<Rightarrow> chain_state \<Rightarrow> block_buffer \<Rightarrow> nat \<Rightarrow> u64 \<Rightarrow> hash \<Rightarrow> u64 \<times> hash" where
  "extend_chain E cs buf 0 h hash = (h, hash)"
| "extend_chain E cs buf (Suc n) h hash =
     (case next_on_chain cs buf h hash of None \<Rightarrow> (h, hash)
      | Some b \<Rightarrow> extend_chain E cs buf n (h + 1) (hash_of E b))"

definition best_connected_candidate :: "fork_env \<Rightarrow> chain_state \<Rightarrow> block_buffer \<Rightarrow> u64 \<times> hash" where
  "best_connected_candidate E cs buf =
     (let best = chs_best_height cs; best_hash = chs_best_hash cs;
          heights = take 100 (rev (sort (filter (\<lambda>h. best < h) (map fst buf))));
          ours = set (recent_hashes cs 1000 best best_hash)
      in fold (\<lambda>h (ch, chash). case map_of buf h of None \<Rightarrow> (ch, chash)
           | Some b \<Rightarrow> if parent_of b \<in> ours then
               (case extend_chain E cs buf 1001 h (hash_of E b) of (eh, ehash) \<Rightarrow>
                  if ch < eh then (eh, ehash) else (ch, chash))
             else (ch, chash)) heights (best, best_hash))"

definition scan_stored :: "fork_env \<Rightarrow> chain_state \<Rightarrow> u64 \<times> hash \<Rightarrow> u64 \<times> hash" where
  "scan_stored E cs start =
     fold (\<lambda>n (mh, mhash). case get_block_by_height cs (of_nat n) of None \<Rightarrow> (mh, mhash)
       | Some b \<Rightarrow> (case get_block_by_hash cs (parent_of b) of None \<Rightarrow> (mh, mhash)
           | Some p \<Rightarrow> if height_of p = of_nat n - 1 \<and> mh < of_nat n then (of_nat n, hash_of E b) else (mh, mhash)))
       [unat (chs_best_height cs) + 1..<unat (chs_best_height cs + 1000) + 1] start"

definition stored_actions :: "fork_env \<Rightarrow> bool \<Rightarrow> chain_state \<Rightarrow> block_buffer \<Rightarrow> fork_action list" where
  "stored_actions E has_network cs buf =
     (let best = chs_best_height cs;
          start = (if best < max_height buf then best_connected_candidate E cs buf else (best, chs_best_hash cs))
      in case scan_stored E cs start of (max_stored, max_hash) \<Rightarrow>
           (if best + 1 < max_stored \<and> has_network then [RequestFromAll (best + 1) max_stored] else [])
           @ (if best < max_stored then [Attempt max_hash max_stored False] else []))"

definition check_and_reorganize_chain ::
  "fork_env \<Rightarrow> (string \<Rightarrow> bool) \<Rightarrow> bool \<Rightarrow> bool \<Rightarrow> nat \<Rightarrow> peer_consensus \<Rightarrow> chain_state \<Rightarrow> block_buffer \<Rightarrow> fork_action list" where
  "check_and_reorganize_chain E valid_id has_network has_cpp now pc cs buf =
     complete_fork_actions E valid_id has_cpp now pc cs buf
     @ same_height_actions E valid_id has_cpp now pc cs buf
     @ stored_actions E has_network cs buf"

section \<open>Facts\<close>

text \<open>Reads by height serve the best chain only: the scan of the store above the tip finds nothing.\<close>

lemma scan_stored_finds_nothing:
  assumes ok: "chain_ok X B cs"
  shows "scan_stored E cs start = start"
proof -
  have "get_block_by_height cs (of_nat n) = None"
    if n: "n \<in> set [unat (chs_best_height cs) + 1..<unat (chs_best_height cs + 1000) + 1]" for n
  proof -
    have "n < 2 ^ 64" using n unat_lt_pow[of "chs_best_height cs + 1000"] by auto
    then have "unat (of_nat n :: u64) = n" by (simp only: unat_of_nat) simp
    moreover have "unat (chs_best_height cs) < n" using n by simp linarith
    ultimately have "chs_best_height cs < of_nat n" by (simp only: word_less_nat_alt)
    then show ?thesis by (simp add: get_block_by_height_walk[OF ok])
  qed
  then show ?thesis unfolding scan_stored_def by (intro fold_invariant[where P = "\<lambda>x. x = start"
      and Q = "\<lambda>n. get_block_by_height cs (of_nat n) = None"]) auto
qed

text \<open>A candidate that is complete never takes the path of a complete fork.\<close>

lemma complete_branch_no_complete_fork:
  assumes ok: "chain_ok (fe_crypto E) (fe_codec E) cs" and m: "map_of buf (max_height buf) = Some b"
    and br: "complete_branch (fe_crypto E) (fe_codec E) cs (map snd buf) (hash_of E b) (max_height buf)"
  shows "complete_fork_actions E valid_id has_cpp now pc cs buf = []"
  using find_common_ancestor_highest[OF ok br] m by (auto simp: complete_fork_actions_def)

text \<open>The recovery windows are inside the chain below the conflict, and bounded in number.\<close>

lemma recovery_windows_bounds:
  "length (recovery_windows n c) \<le> 2 * n \<and> (\<forall>(f, t)\<in>set (recovery_windows n c). f \<le> t \<and> t \<le> c \<and> unat t < unat f + 16)"
proof (induction n arbitrary: c)
  case (Suc n)
  let ?f = "saturating_sub_word c CHUNK_SIZE" and ?t = "saturating_sub_word c 1"
  have f: "unat ?f = unat c - 16" and t: "unat ?t = unat c - 1"
    by (auto simp: saturating_sub_word_def CHUNK_SIZE_def unat_sub_le word_le_nat_alt)
  have ih: "length (recovery_windows n ?f) \<le> 2 * n"
    "\<forall>(g, u)\<in>set (recovery_windows n ?f). g \<le> u \<and> u \<le> ?f \<and> unat u < unat g + 16"
    using Suc[of ?f] by simp_all
  have "?f \<le> c" "?f \<le> ?t" "?t \<le> c" "unat ?t < unat ?f + 16" using f t by (auto simp: word_le_nat_alt)
  with ih show ?case by (auto simp: Let_def)
qed simp

end
