(* ===== verification/Mempool_Pool.thy ===== *)
theory Mempool_Pool
  imports Core_Transaction "HOL-Library.Product_Lexorder"
begin

text \<open>
  \<open>mempool/src/pool.rs\<close>: the transaction pool. The standard library's binary heap is the list of its
  elements: \<open>peek\<close> returns a greatest one, \<open>iter\<close> lists them in an order that callers may not rely
  on (here: the order of insertion), and which of two equal elements comes out first is not specified.
  The size of a transaction, \<open>size_of::<Transaction>()\<close>, is the argument \<open>tx_size\<close>.
\<close>

section \<open>Definitions\<close>

record pooled_transaction =
  pt_tx :: transaction
  pt_hash :: hash
  pt_fee :: balance
  pt_received_at :: i64

record pool_config =
  pc_max_transactions :: nat
  pc_max_size_bytes :: nat
  pc_min_fee :: balance

record pool_stats =
  pst_total_transactions :: nat
  pst_total_bytes :: nat
  pst_added :: u64
  pst_removed :: u64
  pst_rejected :: u64

datatype tx_pool_error = PoolDuplicate | PoolFeeTooLow | PoolIsFull | PoolInvalidSignature

record transaction_pool =
  tp_queue :: "pooled_transaction list"
  tp_by_hash :: "hash \<Rightarrow> transaction option"
  tp_seen :: "hash set"
  tp_config :: pool_config
  tp_stats :: pool_stats
  tp_current_size :: nat

definition pool_config_default :: pool_config where
  "pool_config_default = \<lparr>pc_max_transactions = 10000, pc_max_size_bytes = 20 * 1024 * 1024,
     pc_min_fee = MIN_FEE_BOUNTY_SUBMISSION\<rparr>"

definition pool_with_config :: "pool_config \<Rightarrow> transaction_pool" where
  "pool_with_config config =
     \<lparr>tp_queue = [], tp_by_hash = Map.empty, tp_seen = {}, tp_config = config,
      tp_stats = \<lparr>pst_total_transactions = 0, pst_total_bytes = 0, pst_added = 0, pst_removed = 0,
                   pst_rejected = 0\<rparr>, tp_current_size = 0\<rparr>"

text \<open>\<open>Ord\<close> of \<open>PooledTransaction\<close>: a higher fee is greater, then an earlier arrival. The key is
  negated: the stable sort in descending order is the stable sort by the key.\<close>

definition priority_key :: "pooled_transaction \<Rightarrow> int \<times> int" where
  "priority_key p = (- uint (pt_fee p), sint (pt_received_at p))"

definition by_priority :: "pooled_transaction list \<Rightarrow> pooled_transaction list" where
  "by_priority q = sort_key priority_key q"

definition heap_peek :: "pooled_transaction list \<Rightarrow> pooled_transaction option" where
  "heap_peek q = (case by_priority q of [] \<Rightarrow> None | p # _ \<Rightarrow> Some p)"

text \<open>\<open>evict_lowest\<close>: the heap is drained into a min-heap and its top is dropped.\<close>

definition evict_lowest :: "nat \<Rightarrow> transaction_pool \<Rightarrow> transaction_pool" where
  "evict_lowest tx_size pool =
     (if tp_queue pool = [] then pool\<lparr>tp_stats := (tp_stats pool)\<lparr>pst_total_transactions := 0\<rparr>\<rparr>
      else let lowest = last (by_priority (tp_queue pool)); q = remove1 lowest (tp_queue pool) in
        pool\<lparr>tp_queue := q, tp_by_hash := (tp_by_hash pool)(pt_hash lowest := None),
             tp_seen := tp_seen pool - {pt_hash lowest},
             tp_stats := (tp_stats pool)\<lparr>pst_removed := pst_removed (tp_stats pool) + 1,
               pst_total_transactions := length q\<rparr>,
             tp_current_size := tp_current_size pool - tx_size\<rparr>)"

definition count_rejected :: "transaction_pool \<Rightarrow> transaction_pool" where
  "count_rejected pool = pool\<lparr>tp_stats := (tp_stats pool)\<lparr>pst_rejected := pst_rejected (tp_stats pool) + 1\<rparr>\<rparr>"

definition admit :: "nat \<Rightarrow> i64 \<Rightarrow> transaction \<Rightarrow> hash \<Rightarrow> transaction_pool \<Rightarrow> transaction_pool" where
  "admit tx_size now tx h pool =
     (let q = tp_queue pool @ [\<lparr>pt_tx = tx, pt_hash = h, pt_fee = tx_fee tx, pt_received_at = now\<rparr>] in
      pool\<lparr>tp_queue := q, tp_by_hash := (tp_by_hash pool)(h \<mapsto> tx), tp_seen := insert h (tp_seen pool),
           tp_stats := (tp_stats pool)\<lparr>pst_total_transactions := length q,
             pst_total_bytes := pst_total_bytes (tp_stats pool) + tx_size,
             pst_added := pst_added (tp_stats pool) + 1\<rparr>,
           tp_current_size := tp_current_size pool + tx_size\<rparr>)"

definition pool_at_capacity :: "nat \<Rightarrow> transaction_pool \<Rightarrow> bool" where
  "pool_at_capacity tx_size pool \<longleftrightarrow>
     pc_max_transactions (tp_config pool) \<le> pst_total_transactions (tp_stats pool) \<or>
     pc_max_size_bytes (tp_config pool) < tp_current_size pool + tx_size"

definition pool_add ::
  "crypto_ext \<Rightarrow> tx_codec \<Rightarrow> nat \<Rightarrow> i64 \<Rightarrow> transaction \<Rightarrow> (transaction_pool, tx_pool_error, hash) step" where
  "pool_add X C tx_size now tx pool =
     (let h = tx_hash X C tx in
      if h \<in> tp_seen pool then (Inl PoolDuplicate, count_rejected pool)
      else if tx_fee tx < required_minimum_fee tx (pc_min_fee (tp_config pool))
        then (Inl PoolFeeTooLow, count_rejected pool)
      else if \<not> tx_verify_signature X C tx then (Inl PoolInvalidSignature, count_rejected pool)
      else if pool_at_capacity tx_size pool then
        (case heap_peek (tp_queue pool) of
           None \<Rightarrow> (Inl PoolIsFull, count_rejected pool)
         | Some lowest \<Rightarrow>
             if pt_fee lowest < tx_fee tx
             then (Inr h, admit tx_size now tx h (evict_lowest tx_size pool))
             else (Inl PoolIsFull, count_rejected pool))
      else (Inr h, admit tx_size now tx h pool))"

definition get_pending :: "transaction_pool \<Rightarrow> transaction list" where
  "get_pending pool = map pt_tx (by_priority (tp_queue pool))"

definition get_top_n :: "transaction_pool \<Rightarrow> nat \<Rightarrow> transaction list" where
  "get_top_n pool n = map pt_tx (take n (by_priority (tp_queue pool)))"

fun is_transfer :: "transaction \<Rightarrow> bool" where
  "is_transfer (Transfer _) = True"
| "is_transfer _ = False"

text \<open>\<open>get_block_template_transactions\<close>: the three passes. The code keeps the transactions chosen so
  far and the set of their hashes; here the pooled entries are kept.\<close>

definition template_entries ::
  "crypto_ext \<Rightarrow> tx_codec \<Rightarrow> transaction_pool \<Rightarrow> nat \<Rightarrow> nat \<Rightarrow> pooled_transaction list" where
  "template_entries X C pool max_total zero_fee_slots =
     (if max_total = 0 then []
      else let q = tp_queue pool;
               top = take (max_total - zero_fee_slots) (by_priority q);
               selected = set (map (\<lambda>p. tx_hash X C (pt_tx p)) top);
               zero_candidates = sort_key (\<lambda>p. sint (pt_received_at p))
                 (filter (\<lambda>p. is_transfer (pt_tx p) \<and> pt_fee p = 0 \<and> pt_hash p \<notin> selected) q);
               take_zero = min (min zero_fee_slots (max_total - length top)) (length zero_candidates);
               zeros = take take_zero zero_candidates;
               selected' = selected \<union> set (map pt_hash zeros);
               out = top @ zeros
           in if length out < max_total
              then out @ take (max_total - length out) (by_priority (filter (\<lambda>p. pt_hash p \<notin> selected') q))
              else out)"

definition get_block_template_transactions ::
  "crypto_ext \<Rightarrow> tx_codec \<Rightarrow> transaction_pool \<Rightarrow> nat \<Rightarrow> nat \<Rightarrow> transaction list" where
  "get_block_template_transactions X C pool max_total zero_fee_slots =
     map pt_tx (template_entries X C pool max_total zero_fee_slots)"

definition pool_get :: "transaction_pool \<Rightarrow> hash \<Rightarrow> transaction option" where
  "pool_get pool h = tp_by_hash pool h"

definition pool_contains :: "transaction_pool \<Rightarrow> hash \<Rightarrow> bool" where
  "pool_contains pool h \<longleftrightarrow> h \<in> tp_seen pool"

definition pool_remove :: "nat \<Rightarrow> hash \<Rightarrow> transaction_pool \<Rightarrow> transaction option \<times> transaction_pool" where
  "pool_remove tx_size h pool =
     (case tp_by_hash pool h of None \<Rightarrow> (None, pool)
      | Some tx \<Rightarrow>
          let q = filter (\<lambda>p. pt_hash p \<noteq> h) (tp_queue pool) in
          (Some tx, pool\<lparr>tp_queue := q, tp_by_hash := (tp_by_hash pool)(h := None),
             tp_seen := tp_seen pool - {h},
             tp_stats := (tp_stats pool)\<lparr>pst_total_transactions := length q,
               pst_total_bytes := pst_total_bytes (tp_stats pool) - tx_size,
               pst_removed := pst_removed (tp_stats pool) + 1\<rparr>,
             tp_current_size := tp_current_size pool - tx_size\<rparr>))"

definition pool_remove_batch :: "nat \<Rightarrow> hash list \<Rightarrow> transaction_pool \<Rightarrow> transaction_pool" where
  "pool_remove_batch tx_size hs pool = fold (\<lambda>h p. snd (pool_remove tx_size h p)) hs pool"

text \<open>The clock is read once per admitted transaction; \<open>now i\<close> is its value for the \<open>i\<close>-th of the sorted
  list.\<close>

fun pool_add_all ::
  "crypto_ext \<Rightarrow> tx_codec \<Rightarrow> nat \<Rightarrow> (i64 \<times> transaction) list \<Rightarrow> transaction_pool \<Rightarrow>
   (hash \<times> (tx_pool_error + unit)) list \<times> transaction_pool" where
  "pool_add_all X C tx_size [] pool = ([], pool)"
| "pool_add_all X C tx_size ((now, tx) # txs) pool =
     (case pool_add X C tx_size now tx pool of (r, pool') \<Rightarrow>
        (case pool_add_all X C tx_size txs pool' of (rs, pool'') \<Rightarrow>
           ((case r of Inl e \<Rightarrow> (tx_hash X C tx, Inl e) | Inr h \<Rightarrow> (h, Inr ())) # rs, pool'')))"

definition pool_add_batch ::
  "crypto_ext \<Rightarrow> tx_codec \<Rightarrow> nat \<Rightarrow> (nat \<Rightarrow> i64) \<Rightarrow> transaction list \<Rightarrow> transaction_pool \<Rightarrow>
   (hash \<times> (tx_pool_error + unit)) list \<times> transaction_pool" where
  "pool_add_batch X C tx_size now txs pool =
     pool_add_all X C tx_size (zip (map now [0..<length txs]) (sort_key (\<lambda>tx. - uint (tx_fee tx)) txs)) pool"

definition pool_clear :: "transaction_pool \<Rightarrow> transaction_pool" where
  "pool_clear pool = pool\<lparr>tp_queue := [], tp_by_hash := Map.empty, tp_seen := {},
     tp_stats := (tp_stats pool)\<lparr>pst_total_transactions := 0, pst_total_bytes := 0\<rparr>, tp_current_size := 0\<rparr>"

definition pool_len :: "transaction_pool \<Rightarrow> nat" where
  "pool_len pool = length (tp_queue pool)"

section \<open>Well-formed pools\<close>

text \<open>The queue, the map and the set of hashes agree, and the bounds of the configuration hold.\<close>

definition pool_ok :: "crypto_ext \<Rightarrow> tx_codec \<Rightarrow> nat \<Rightarrow> transaction_pool \<Rightarrow> bool" where
  "pool_ok X C tx_size pool \<longleftrightarrow> distinct (map pt_hash (tp_queue pool)) \<and>
     (\<forall>p\<in>set (tp_queue pool). pt_hash p = tx_hash X C (pt_tx p) \<and> pt_fee p = tx_fee (pt_tx p) \<and>
        tp_by_hash pool (pt_hash p) = Some (pt_tx p)) \<and>
     dom (tp_by_hash pool) = set (map pt_hash (tp_queue pool)) \<and>
     tp_seen pool = set (map pt_hash (tp_queue pool)) \<and>
     pst_total_transactions (tp_stats pool) = length (tp_queue pool) \<and>
     tp_current_size pool = length (tp_queue pool) * tx_size \<and>
     length (tp_queue pool) \<le> pc_max_transactions (tp_config pool) \<and>
     tp_current_size pool \<le> pc_max_size_bytes (tp_config pool)"

lemma by_priority_simps [simp]:
  "set (by_priority q) = set q" "length (by_priority q) = length q" "mset (by_priority q) = mset q"
  by (simp_all add: by_priority_def)

lemma by_priority_Nil [simp]: "by_priority q = [] \<longleftrightarrow> q = []"
  by (metis by_priority_simps(2) length_0_conv)

lemma heap_peek_None: "heap_peek q = None \<longleftrightarrow> q = []"
  using by_priority_Nil[of q] by (cases "by_priority q") (simp_all add: heap_peek_def del: by_priority_Nil)

lemma heap_peek_greatest:
  assumes "heap_peek q = Some p"
  shows "p \<in> set q" and "r \<in> set q \<Longrightarrow> pt_fee r \<le> pt_fee p"
proof -
  obtain rest where sp: "by_priority q = p # rest"
    using assms by (auto simp: heap_peek_def split: list.splits)
  then show "p \<in> set q" using by_priority_simps(1)[of q] by auto
  assume r: "r \<in> set q"
  have "sorted (map priority_key (p # rest))" unfolding sp[symmetric] by (simp add: by_priority_def)
  moreover have "r \<in> set (p # rest)" using r sp by (metis by_priority_simps(1))
  ultimately have "priority_key p \<le> priority_key r" by auto
  then show "pt_fee r \<le> pt_fee p" by (auto simp: priority_key_def less_eq_prod_def word_le_def)
qed

lemma pool_ok_new: "pool_ok X C tx_size (pool_with_config config)"
  by (simp add: pool_ok_def pool_with_config_def)

lemma pool_ok_count [simp]: "pool_ok X C s (count_rejected pool) = pool_ok X C s pool"
  by (simp add: pool_ok_def count_rejected_def)

lemma pool_ok_clear: "pool_ok X C s (pool_clear pool)"
  by (simp add: pool_ok_def pool_clear_def)

lemma pool_ok_admit:
  assumes ok: "pool_ok X C s pool" and new: "tx_hash X C tx \<notin> tp_seen pool"
    and room: "length (tp_queue pool) < pc_max_transactions (tp_config pool)"
      "tp_current_size pool + s \<le> pc_max_size_bytes (tp_config pool)"
  shows "pool_ok X C s (admit s now tx (tx_hash X C tx) pool)"
proof -
  have ne: "pt_hash p \<noteq> tx_hash X C tx" if "p \<in> set (tp_queue pool)" for p
  proof -
    have "pt_hash p \<in> tp_seen pool" using that ok unfolding pool_ok_def by simp
    with new show ?thesis by auto
  qed
  show ?thesis using assms ne by (simp add: pool_ok_def admit_def Let_def image_iff) force
qed

lemma pool_ok_evict:
  assumes ok: "pool_ok X C s pool" and ne: "tp_queue pool \<noteq> []"
  shows "pool_ok X C s (evict_lowest s pool)"
    and "length (tp_queue (evict_lowest s pool)) = length (tp_queue pool) - 1"
    and "tp_config (evict_lowest s pool) = tp_config pool"
    and "tp_seen (evict_lowest s pool) \<subseteq> tp_seen pool"
proof -
  let ?q = "tp_queue pool" and ?p = "last (by_priority (tp_queue pool))"
  have "?p \<in> set (by_priority ?q)" using ne by (intro last_in_set) simp
  then have p: "?p \<in> set ?q" by simp
  then obtain as bs where q: "?q = as @ ?p # bs" and as: "?p \<notin> set as"
    by (meson split_list_first)
  have r: "remove1 ?p ?q = as @ bs" by (subst q) (simp add: remove1_append as)
  have d: "distinct (map pt_hash (as @ ?p # bs))" using ok unfolding q[symmetric] by (simp add: pool_ok_def)
  have "length ?q = Suc (length (as @ bs))" by (subst q) simp
  then show "length (tp_queue (evict_lowest s pool)) = length ?q - 1"
    using ne by (simp add: evict_lowest_def Let_def r)
  have sz: "tp_current_size pool - s = length (as @ bs) * s"
    using ok \<open>length ?q = Suc (length (as @ bs))\<close> by (simp add: pool_ok_def)
  have st: "set ?q = insert ?p (set (as @ bs))" by (subst q) auto
  have h: "set (map pt_hash ?q) - {pt_hash ?p} = set (map pt_hash (as @ bs))"
    using d unfolding st set_map by (auto simp: image_iff)
  have e: "pt_hash p = tx_hash X C (pt_tx p) \<and> pt_fee p = tx_fee (pt_tx p) \<and>
      ((tp_by_hash pool)(pt_hash ?p := None)) (pt_hash p) = Some (pt_tx p)" if "p \<in> set (as @ bs)" for p
  proof -
    have ne: "pt_hash p \<noteq> pt_hash ?p" using d that by (auto simp: image_iff)
    have "p \<in> set ?q" using that st by simp
    then have "pt_hash p = tx_hash X C (pt_tx p) \<and> pt_fee p = tx_fee (pt_tx p) \<and>
        tp_by_hash pool (pt_hash p) = Some (pt_tx p)"
      using ok unfolding pool_ok_def by blast
    then show ?thesis using fun_upd_other[OF ne, of "tp_by_hash pool" None] by metis
  qed
  have dm: "dom ((tp_by_hash pool)(pt_hash ?p := None)) = set (map pt_hash (as @ bs))"
    "tp_seen pool - {pt_hash ?p} = set (map pt_hash (as @ bs))"
    using ok h by (simp_all add: pool_ok_def)
  have len: "length (as @ bs) \<le> pc_max_transactions (tp_config pool)"
    "length (as @ bs) * s \<le> pc_max_size_bytes (tp_config pool)"
    using ok \<open>length ?q = Suc (length (as @ bs))\<close> by (simp_all add: pool_ok_def)
  have dis: "distinct (map pt_hash (as @ bs))" using d by simp
  have fields: "tp_queue (evict_lowest s pool) = as @ bs"
    "tp_by_hash (evict_lowest s pool) = (tp_by_hash pool)(pt_hash ?p := None)"
    "tp_seen (evict_lowest s pool) = tp_seen pool - {pt_hash ?p}"
    "tp_config (evict_lowest s pool) = tp_config pool"
    "pst_total_transactions (tp_stats (evict_lowest s pool)) = length (as @ bs)"
    "tp_current_size (evict_lowest s pool) = length (as @ bs) * s"
    using ne sz by (simp_all add: evict_lowest_def Let_def r)
  show "pool_ok X C s (evict_lowest s pool)"
    unfolding pool_ok_def fields using dis e dm len by blast
qed (use ne in \<open>auto simp: evict_lowest_def Let_def\<close>)

section \<open>Operations keep the pool well formed\<close>

lemma pool_add_ok:
  assumes ok: "pool_ok X C s pool" and "pool_add X C s now tx pool = (r, pool')"
  shows "pool_ok X C s pool'"
proof (cases "tx_hash X C tx \<in> tp_seen pool \<or>
    tx_fee tx < required_minimum_fee tx (pc_min_fee (tp_config pool)) \<or> \<not> tx_verify_signature X C tx")
  case True
  with assms show ?thesis by (auto simp: pool_add_def Let_def split: if_splits)
next
  case False
  then have new: "tx_hash X C tx \<notin> tp_seen pool" by simp
  show ?thesis
  proof (cases "pool_at_capacity s pool")
    case cap: True
    show ?thesis
    proof (cases "heap_peek (tp_queue pool)")
      case None
      with assms False cap show ?thesis by (auto simp: pool_add_def Let_def)
    next
      case (Some p)
      then have ne: "tp_queue pool \<noteq> []" using heap_peek_None[of "tp_queue pool"] by auto
      note ev = pool_ok_evict[OF ok ne]
      have room: "length (tp_queue (evict_lowest s pool)) < pc_max_transactions (tp_config (evict_lowest s pool))"
        "tp_current_size (evict_lowest s pool) + s \<le> pc_max_size_bytes (tp_config (evict_lowest s pool))"
      proof -
        obtain n where n: "length (tp_queue pool) = Suc n" using ne by (cases "tp_queue pool") auto
        have "tp_current_size (evict_lowest s pool) = n * s" using ev(1,2) n by (simp add: pool_ok_def)
        then show "length (tp_queue (evict_lowest s pool)) < pc_max_transactions (tp_config (evict_lowest s pool))"
          "tp_current_size (evict_lowest s pool) + s \<le> pc_max_size_bytes (tp_config (evict_lowest s pool))"
          using ok ev(2,3) n by (simp_all add: pool_ok_def)
      qed
      have "pool_ok X C s (admit s now tx (tx_hash X C tx) (evict_lowest s pool))"
        by (rule pool_ok_admit[OF ev(1) _ room]) (use new ev(4) in blast)
      with assms False cap Some show ?thesis by (auto simp: pool_add_def Let_def split: if_splits)
    qed
  next
    case free: False
    then have "pool_ok X C s (admit s now tx (tx_hash X C tx) pool)"
      using ok by (intro pool_ok_admit[OF ok new]) (simp_all add: pool_at_capacity_def pool_ok_def not_le not_less)
    with assms False free show ?thesis by (auto simp: pool_add_def Let_def)
  qed
qed

lemma filter_key_singleton:
  assumes "distinct (map f xs)" and "x \<in> set xs"
  shows "filter (\<lambda>y. f y = f x) xs = [x]"
  using assms by (induction xs) (auto simp: filter_empty_conv image_iff)

lemma pool_remove_ok:
  assumes ok: "pool_ok X C s pool" and "pool_remove s h pool = (r, pool')"
  shows "pool_ok X C s pool'"
proof (cases "tp_by_hash pool h")
  case None
  with assms show ?thesis by (simp add: pool_remove_def)
next
  case (Some tx)
  let ?q = "tp_queue pool" and ?r = "filter (\<lambda>p. pt_hash p \<noteq> h) (tp_queue pool)"
  have "dom (tp_by_hash pool) = set (map pt_hash ?q)" using ok by (simp only: pool_ok_def)
  then have "h \<in> set (map pt_hash ?q)" using Some by blast
  then obtain p where p: "p \<in> set ?q" "pt_hash p = h" by auto
  have d: "distinct (map pt_hash ?q)" using ok by (simp add: pool_ok_def)
  have "filter (\<lambda>p. pt_hash p = h) ?q = [p]" using filter_key_singleton[OF d p(1)] p(2) by simp
  then have "length ?q = Suc (length ?r)"
    using sum_length_filter_compl[of "\<lambda>p. pt_hash p = h" ?q] by simp
  then have len: "length ?r \<le> length ?q" "length ?q * s - s = length ?r * s" by simp_all
  have fields: "tp_queue pool' = ?r" "tp_by_hash pool' = (tp_by_hash pool)(h := None)"
    "tp_seen pool' = tp_seen pool - {h}" "tp_config pool' = tp_config pool"
    "pst_total_transactions (tp_stats pool') = length ?r" "tp_current_size pool' = tp_current_size pool - s"
    using assms(2) Some by (auto simp: pool_remove_def Let_def)
  have e: "pt_hash p = tx_hash X C (pt_tx p) \<and> pt_fee p = tx_fee (pt_tx p) \<and>
      ((tp_by_hash pool)(h := None)) (pt_hash p) = Some (pt_tx p)" if "p \<in> set ?r" for p
  proof -
    have "pt_hash p \<noteq> h" "p \<in> set ?q" using that by simp_all
    moreover from this(2) have "pt_hash p = tx_hash X C (pt_tx p) \<and> pt_fee p = tx_fee (pt_tx p) \<and>
        tp_by_hash pool (pt_hash p) = Some (pt_tx p)"
      using ok unfolding pool_ok_def by blast
    ultimately show ?thesis using fun_upd_other[of "pt_hash p" h "tp_by_hash pool" None] by metis
  qed
  have h: "set (map pt_hash ?q) - {h} = set (map pt_hash ?r)" by auto
  then have dm: "dom ((tp_by_hash pool)(h := None)) = set (map pt_hash ?r)"
    "tp_seen pool - {h} = set (map pt_hash ?r)"
    using ok by (simp_all only: pool_ok_def dom_fun_upd refl if_True)
  have bnd: "tp_current_size pool = length ?q * s" "length ?q \<le> pc_max_transactions (tp_config pool)"
    "tp_current_size pool \<le> pc_max_size_bytes (tp_config pool)" using ok by (simp_all add: pool_ok_def)
  have sz: "tp_current_size pool - s = length ?r * s" "length ?r \<le> pc_max_transactions (tp_config pool)"
    "tp_current_size pool - s \<le> pc_max_size_bytes (tp_config pool)"
    by (simp only: bnd(1) len(2)) (use bnd len in linarith)+
  have dis: "distinct (map pt_hash ?r)" using d by (simp add: distinct_map_filter)
  show ?thesis unfolding pool_ok_def fields using dis e dm sz by blast
qed

lemma pool_remove_batch_ok: "pool_ok X C s pool \<Longrightarrow> pool_ok X C s (pool_remove_batch s hs pool)"
  unfolding pool_remove_batch_def
proof (induction hs arbitrary: pool)
  case (Cons h hs)
  then show ?case using pool_remove_ok[OF Cons.prems prod.collapse[symmetric]] by simp
qed simp

lemma pool_add_all_ok: "pool_ok X C s pool \<Longrightarrow> pool_ok X C s (snd (pool_add_all X C s txs pool))"
proof (induction txs arbitrary: pool)
  case (Cons t txs)
  obtain now tx where t: "t = (now, tx)" by (cases t)
  obtain r p where a: "pool_add X C s now tx pool = (r, p)" by (cases "pool_add X C s now tx pool")
  from Cons.IH[OF pool_add_ok[OF Cons.prems a]] show ?case by (simp add: t a case_prod_beta)
qed simp

section \<open>The block template\<close>

lemma distinct_by_priority: "distinct (map pt_hash (by_priority q)) = distinct (map pt_hash q)"
proof -
  have "mset (map pt_hash (by_priority q)) = mset (map pt_hash q)" by simp
  then show ?thesis by (rule mset_eq_imp_distinct_iff)
qed

text \<open>Choosing entries: the rest of a pool after some of its entries are taken out by hash.\<close>

lemma length_filter_not_in:
  assumes "distinct (map f q)" and "distinct (map f out)" and "set out \<subseteq> set q"
  shows "length (filter (\<lambda>p. f p \<notin> set (map f out)) q) = length q - length out"
proof -
  let ?r = "filter (\<lambda>p. f p \<notin> set (map f out)) q"
  have "length ?r = card (set (map f ?r))" using distinct_card[OF distinct_map_filter[OF assms(1), of "\<lambda>p. f p \<notin> set (map f out)"]]
    by (simp only: length_map)
  also have "set (map f ?r) = set (map f q) - set (map f out)" by auto
  also have "card \<dots> = card (set (map f q)) - card (set (map f out))"
    using assms(3) by (intro card_Diff_subset) auto
  also have "\<dots> = length q - length out" by (simp only: distinct_card[OF assms(1)] distinct_card[OF assms(2)] length_map)
  finally show ?thesis .
qed

lemma map_sets_disjoint:
  assumes "\<And>y. y \<in> set ys \<Longrightarrow> f y \<notin> set (map f xs)"
  shows "set (map f xs) \<inter> set (map f ys) = {}"
proof (rule equals0I)
  fix v assume "v \<in> set (map f xs) \<inter> set (map f ys)"
  then have v: "v \<in> set (map f xs)" "v \<in> f ` set ys" by simp_all
  from v(2) obtain y where y: "v = f y" "y \<in> set ys" by (rule imageE)
  from assms[OF y(2)] v(1) show False by (simp only: y(1))
qed

text \<open>The three passes choose entries of the pool, none twice, and as many as there are room and
  transactions for.\<close>

lemma template_entries_spec:
  assumes ok: "pool_ok X C s pool"
  shows "set (template_entries X C pool m z) \<subseteq> set (tp_queue pool)"
    and "distinct (map pt_hash (template_entries X C pool m z))"
    and "length (template_entries X C pool m z) = min m (length (tp_queue pool))"
proof -
  let ?q = "tp_queue pool"
  define top where "top = take (m - z) (by_priority ?q)"
  define zc where "zc = sort_key (\<lambda>p. sint (pt_received_at p))
    (filter (\<lambda>p. is_transfer (pt_tx p) \<and> pt_fee p = 0 \<and> pt_hash p \<notin> set (map pt_hash top)) ?q)"
  define zeros where "zeros = take (min (min z (m - length top)) (length zc)) zc"
  define out where "out = top @ zeros"
  define rest where "rest = by_priority (filter (\<lambda>p. pt_hash p \<notin> set (map pt_hash out)) ?q)"
  have dq: "distinct (map pt_hash ?q)" using ok by (simp add: pool_ok_def)
  have top: "set top \<subseteq> set ?q" "distinct (map pt_hash top)" "length top = min (m - z) (length ?q)"
    using dq distinct_by_priority[of ?q] set_take_subset[of "m - z" "by_priority ?q"]
    by (simp_all add: top_def take_map[symmetric])
  have zc: "set zc \<subseteq> {p \<in> set ?q. pt_hash p \<notin> set (map pt_hash top)}" by (auto simp: zc_def)
  have "mset (map pt_hash zc) = mset (map pt_hash (filter (\<lambda>p. is_transfer (pt_tx p) \<and> pt_fee p = 0 \<and>
      pt_hash p \<notin> set (map pt_hash top)) ?q))" by (simp add: zc_def)
  from mset_eq_imp_distinct_iff[OF this] have dzc: "distinct (map pt_hash zc)"
    by (simp only: distinct_map_filter[OF dq])
  have zs: "set zeros \<subseteq> set zc" "distinct (map pt_hash zeros)" "length zeros \<le> m - length top"
    using dzc set_take_subset[of _ zc] by (auto simp: zeros_def take_map[symmetric])
  have out: "set out \<subseteq> set ?q" "distinct (map pt_hash out)" "length out \<le> m"
  proof -
    have "pt_hash p \<notin> set (map pt_hash top)" if "p \<in> set zeros" for p using that zs(1) zc by blast
    from map_sets_disjoint[OF this] have "set (map pt_hash top) \<inter> set (map pt_hash zeros) = {}" .
    then show "distinct (map pt_hash out)" using top(2) zs(2) by (simp add: out_def)
  qed (use top zs zc in \<open>auto simp: out_def\<close>)
  have hashes: "set (map (\<lambda>p. tx_hash X C (pt_tx p)) top) = set (map pt_hash top)"
  proof -
    have "tx_hash X C (pt_tx p) = pt_hash p" if "p \<in> set top" for p
      using that ok top(1) unfolding pool_ok_def by (metis subsetD)
    then show ?thesis by (simp cong: map_cong)
  qed
  have rest: "set rest \<subseteq> {p \<in> set ?q. pt_hash p \<notin> set (map pt_hash out)}" "distinct (map pt_hash rest)"
    "length rest = length ?q - length out"
    using dq distinct_by_priority length_filter_not_in[OF dq out(2,1)]
    by (auto simp: rest_def distinct_map_filter)
  have sel: "set (map pt_hash top) \<union> set (map pt_hash zeros) = set (map pt_hash out)"
    by (simp add: out_def)
  have T: "template_entries X C pool m z =
      (if m = 0 then [] else if length out < m then out @ take (m - length out) rest else out)"
    unfolding template_entries_def Let_def hashes top_def[symmetric] zc_def[symmetric] zeros_def[symmetric]
      sel out_def[symmetric] rest_def[symmetric] by (rule refl)
  have le: "length out \<le> length ?q"
    using distinct_card[OF conjunct1[OF out(2)[unfolded distinct_map]]] card_mono[OF _ out(1)] card_length[of ?q] by simp
  show "set (template_entries X C pool m z) \<subseteq> set ?q"
  proof -
    have "set (take n rest) \<subseteq> set ?q" for n using rest(1) set_take_subset[of n rest] by blast
    then show ?thesis using out(1) by (simp add: T)
  qed
  show "distinct (map pt_hash (template_entries X C pool m z))"
  proof -
    have "distinct (map pt_hash (take (m - length out) rest))"
      using rest(2) by (simp only: take_map[symmetric] distinct_take)
    moreover have "set (map pt_hash out) \<inter> set (map pt_hash (take (m - length out) rest)) = {}"
    proof -
      have "pt_hash p \<notin> set (map pt_hash out)" if "p \<in> set (take (m - length out) rest)" for p
        using that rest(1) in_set_takeD by fast
      from map_sets_disjoint[OF this] show ?thesis .
    qed
    ultimately show ?thesis using out(2) by (simp only: T distinct_append map_append list.map distinct.simps split: if_split) blast
  qed
  show "length (template_entries X C pool m z) = min m (length ?q)"
    using out(3) rest(3) le by (auto simp: T)
qed

section \<open>Admission\<close>

text \<open>At capacity a transaction is admitted only when it pays more than every pooled one: \<open>peek\<close> of the
  heap is the entry of the highest fee.\<close>

lemma full_pool_admission:
  assumes cap: "pool_at_capacity s pool"
    and adm: "fst (pool_add X C s now tx pool) = Inr h" and p: "p \<in> set (tp_queue pool)"
  shows "pt_fee p < tx_fee tx"
proof -
  from cap adm obtain top where top: "heap_peek (tp_queue pool) = Some top" "pt_fee top < tx_fee tx"
    by (auto simp: pool_add_def Let_def split: if_splits option.splits)
  with heap_peek_greatest(2)[OF top(1) p] show ?thesis by simp
qed

text \<open>An admitted transaction is in the pool, under its hash.\<close>

lemma pool_add_admitted:
  assumes "pool_add X C s now tx pool = (Inr h, pool')"
  shows "h = tx_hash X C tx" and "pool_get pool' h = Some tx" and "pool_contains pool' h"
    and "tx_verify_signature X C tx" and "h \<notin> tp_seen pool"
  using assms
  by (auto simp: pool_add_def Let_def admit_def pool_get_def pool_contains_def split: if_splits option.splits)

lemma pool_add_rejected:
  assumes "pool_add X C s now tx pool = (Inl e, pool')"
  shows "pool' = count_rejected pool"
  using assms by (auto simp: pool_add_def Let_def split: if_splits option.splits)

lemma pool_remove_gone:
  assumes "pool_ok X C s pool" and "pool_remove s h pool = (r, pool')"
  shows "\<not> pool_contains pool' h"
proof (cases "tp_by_hash pool h")
  case None
  then have "h \<notin> tp_seen pool" using assms(1) by (metis domIff pool_ok_def)
  with None assms(2) show ?thesis by (auto simp: pool_remove_def pool_contains_def)
next
  case (Some tx)
  with assms(2) show ?thesis by (auto simp: pool_remove_def pool_contains_def Let_def)
qed

end
