(* ===== verification/Properties_State.thy ===== *)
theory Properties_State
  imports State_Accounts State_Escrows State_Channels State_Trustlines State_Pools State_Marketplace
begin

text \<open>
  The properties of the state managers of the \<open>state\<close> crate, each with a concrete instance where it
  has hypotheses.
\<close>

definition demo_keys :: crypto_ext where
  "demo_keys = \<lparr>blake3 = (\<lambda>bs. foldl (\<lambda>n b. n * 256 + ucast b) 0 bs), vk_from_bytes_ok = (\<lambda>_. True),
     vk_verify = (\<lambda>_ _ _. True), verifying_key = (\<lambda>sk. sk), sk_sign = (\<lambda>_ _. 0)\<rparr>"

section \<open>Accounts\<close>

text \<open>The atomic write of a block: the last change listed for an address is its balance, and
  its nonce grows by the number of its transactions.\<close>

theorem block_write_effects:
  "get_balance (apply_block_atomically changes senders st) a =
     (case map_of (rev changes) a of None \<Rightarrow> get_balance st a | Some b \<Rightarrow> b) \<and>
   get_nonce (apply_block_atomically changes senders st) a =
     get_nonce st a + of_nat (count_list senders a)"
  by (simp only: apply_block_atomically_balance apply_block_atomically_nonce simp_thms)

text \<open>A transfer between two addresses keeps the sum of all balances; a transfer of an address to
  itself adds the amount to it.\<close>

theorem transfer_total:
  assumes "account_ok st" and "account_transfer sender to amount st = (Inr (), st')"
    and "uint (get_balance st to) + uint amount < 2 ^ 128"
  shows "total_balance st' = total_balance st + (if sender = to then uint amount else 0)"
  using assms by (rule account_transfer_total)

definition one_account :: account_state where
  "one_account = set_balance (Address 1) 10 account_new"

theorem transfer_total_witness:
  "total_balance (snd (account_transfer (Address 1) (Address 1) 4 one_account)) =
     total_balance one_account + (if Address 1 = Address 1 then uint (4 :: u128) else 0)"
proof (rule transfer_total)
  show "account_ok one_account" by (simp add: one_account_def)
  show "account_transfer (Address 1) (Address 1) 4 one_account =
      (Inr (), snd (account_transfer (Address 1) (Address 1) 4 one_account))"
    by (simp add: account_transfer_conv one_account_def word_less_nat_alt)
qed (simp add: one_account_def)

section \<open>Escrows\<close>


text \<open>The signed message is 64 bytes long and determines escrow, action and time stamp: a release
  signature is no refund signature and none is valid for another escrow.\<close>

theorem auth_message_binds:
  "length (escrow_auth_message i a ts) = 64 \<and>
   (escrow_auth_message i a ts = escrow_auth_message i' a' ts' \<longleftrightarrow> i = i' \<and> a = a' \<and> ts = ts')"
  by (simp add: escrow_auth_message_inject)

text \<open>The freshness window: for a clock between 1970 and \<open>2 ^ 62\<close>, an accepted time stamp is at
  most 300 seconds away, or it is \<open>2 ^ 63\<close> seconds in the past, where \<open>i64::abs\<close> wraps around.\<close>

theorem freshness_window:
  assumes "0 \<le> sint now" and "sint now < 2 ^ 62"
  shows "verify_escrow_auth X now i pk sig ts a = Inr () \<longleftrightarrow>
    (\<bar>sint ts - sint now\<bar> \<le> 300 \<or> sint ts = sint now - 2 ^ 63) \<and> vk_from_bytes_ok X pk \<and>
    vk_verify X pk (escrow_auth_message i a ts) sig"
proof -
  have "\<not> 300 <s abs_word (ts - now) \<longleftrightarrow> \<bar>sint ts - sint now\<bar> \<le> 300 \<or> sint ts = sint now - 2 ^ 63"
    using assms by (rule fresh_iff)
  then show ?thesis by (simp add: verify_escrow_auth_Inr)
qed

theorem freshness_window_witness:
  "verify_escrow_auth demo_keys 1000 (Hash 1) 2 3 (1000 - 2 ^ 63) ACTION_RELEASE = Inr () \<longleftrightarrow>
    (\<bar>sint (1000 - 2 ^ 63 :: i64) - sint (1000 :: i64)\<bar> \<le> 300 \<or>
     sint (1000 - 2 ^ 63 :: i64) = sint (1000 :: i64) - 2 ^ 63) \<and> vk_from_bytes_ok demo_keys 2 \<and>
    vk_verify demo_keys 2 (escrow_auth_message (Hash 1) ACTION_RELEASE (1000 - 2 ^ 63)) 3"
  by (rule freshness_window) simp_all

text \<open>Once released or refunded, an escrow never changes again, whatever is done to the store.\<close>

theorem resolved_escrow_forever:
  assumes "(escrow_step X)\<^sup>*\<^sup>* st st'" and "get_escrow st i = Some e" and "esc_status e \<noteq> EscrowActive"
  shows "get_escrow st' i = Some e"
  using assms by (rule escrow_machine.final_forever)

definition demo_escrow :: escrow where
  "demo_escrow = \<lparr>esc_escrow_id = Hash 1, esc_sender = Address 1, esc_recipient = Address 2,
     esc_arbiter = None, esc_amount = 5, esc_timeout = 9, esc_conditions_hash = Hash 0,
     esc_status = EscrowReleased, esc_created_at_height = 1, esc_resolved_at_height = Some 2\<rparr>"

definition other_escrow :: escrow where
  "other_escrow = demo_escrow\<lparr>esc_escrow_id := Hash 3, esc_status := EscrowActive\<rparr>"

theorem resolved_escrow_forever_witness:
  "get_escrow (tbl_put (Hash 3) other_escrow (tbl_put (Hash 1) demo_escrow [])) (Hash 1) = Some demo_escrow"
proof (rule resolved_escrow_forever[of demo_keys "tbl_put (Hash 1) demo_escrow []"])
  have "create_escrow other_escrow (tbl_put (Hash 1) demo_escrow []) =
      (Inr (), tbl_put (Hash 3) other_escrow (tbl_put (Hash 1) demo_escrow []))"
    by (simp add: create_escrow_def get_escrow_def other_escrow_def)
  then show "(escrow_step demo_keys)\<^sup>*\<^sup>* (tbl_put (Hash 1) demo_escrow [])
      (tbl_put (Hash 3) other_escrow (tbl_put (Hash 1) demo_escrow []))"
    by (intro r_into_rtranclp step_create)
qed (simp_all add: get_escrow_def demo_escrow_def)

section \<open>Channels\<close>

text \<open>C28. Whatever sequence of channel operations is applied to an empty store, accepted or not, every
  channel in it is stored under its own id and its two balances add up to its two deposits.\<close>

theorem channel_balances_match_deposits:
  "channels_wf (fold (\<lambda>op st. snd (channel_apply op st)) ops [])"
proof -
  have "channels_wf st \<Longrightarrow> channels_wf (fold (\<lambda>op st. snd (channel_apply op st)) ops st)" for st
  proof (induction ops arbitrary: st)
    case (Cons op ops)
    from Cons.IH[OF channel_apply_wf[OF Cons.prems prod.collapse[symmetric]]] show ?case by simp
  qed simp
  moreover have "channels_wf []" by (simp add: channels_wf_def channel_ok_def get_channel_def)
  ultimately show ?thesis by blast
qed

text \<open>A closed channel, cooperatively or after a dispute, never changes again.\<close>

theorem closed_channel_forever:
  assumes "channel_step\<^sup>*\<^sup>* st st'" and "get_channel st k = Some c" and "channel_closed c"
  shows "get_channel st' k = Some c"
  using assms by (rule channel_machine.final_forever)

definition demo_channel :: "channel_status \<Rightarrow> channel" where
  "demo_channel s = \<lparr>chn_channel_id = Hash 1, chn_participant_a = Address 1, chn_participant_b = Address 2,
     chn_deposit_a = 10, chn_deposit_b = 20, chn_balance_a = 10, chn_balance_b = 20, chn_sequence = 5,
     chn_dispute_timeout = 60, chn_status = s, chn_opened_at_height = 1, chn_closed_at_height = None,
     chn_dispute_started_at = None\<rparr>"

theorem closed_channel_forever_witness:
  "get_channel (snd (channel_apply (OpDispute 0 (Hash 1) 6 15 15) (tbl_put (Hash 1) (demo_channel ClosedCooperative) []))) (Hash 1)
     = Some (demo_channel ClosedCooperative)"
proof (rule closed_channel_forever)
  have "channel_step (tbl_put (Hash 1) (demo_channel ClosedCooperative) [])
     (snd (channel_apply (OpDispute 0 (Hash 1) 6 15 15) (tbl_put (Hash 1) (demo_channel ClosedCooperative) [])))"
    unfolding channel_step_def
    by (intro conjI exI[of _ "OpDispute 0 (Hash 1) 6 15 15"])
       (simp_all add: channel_ok_def demo_channel_def tbl_ok_put)
  then show "channel_step\<^sup>*\<^sup>* (tbl_put (Hash 1) (demo_channel ClosedCooperative) [])
     (snd (channel_apply (OpDispute 0 (Hash 1) 6 15 15) (tbl_put (Hash 1) (demo_channel ClosedCooperative) [])))"
    by (rule r_into_rtranclp)
qed (simp_all add: get_channel_def demo_channel_def channel_closed_def)

text \<open>A dispute may be started with any sequence number, also one older than the last agreed
  state: the split it names becomes the channel's.\<close>

theorem dispute_accepts_stale_state:
  assumes "get_channel st i = Some c" and "chn_status c = ChannelOpen" and "a + b = capacity c"
  shows "start_dispute now i n a b st = (Inr (), save_channel (c\<lparr>chn_status := InDispute,
    chn_sequence := n, chn_balance_a := a, chn_balance_b := b, chn_dispute_started_at := Some now\<rparr>) st)"
  using assms by (simp add: start_dispute_def)

theorem dispute_accepts_stale_state_witness:
  "start_dispute 7 (Hash 1) 2 30 0 (tbl_put (Hash 1) (demo_channel ChannelOpen) []) =
    (Inr (), save_channel (demo_channel ChannelOpen\<lparr>chn_status := InDispute, chn_sequence := 2,
       chn_balance_a := 30, chn_balance_b := 0, chn_dispute_started_at := Some 7\<rparr>)
      (tbl_put (Hash 1) (demo_channel ChannelOpen) []))"
  by (rule dispute_accepts_stale_state) (simp_all add: get_channel_def demo_channel_def capacity_def)

section \<open>Trust lines\<close>

text \<open>A trust line within its limits stays within them, and keeps its parties, through any run of
  operations: what one party owes never exceeds the effective limit the other granted.\<close>

theorem trust_line_within_limits:
  assumes "(trust_step F)\<^sup>*\<^sup>* st st'" and "get_trustline st k = Some t" and "trust_is_balanced F t"
  shows "\<exists>u. get_trustline st' k = Some u \<and>
    - int (unat (effective_limit_b_to_a F u)) \<le> sint (tru_balance u) \<and>
    sint (tru_balance u) \<le> int (unat (effective_limit_a_to_b F u))"
  using trust_machine.kept_path[OF assms(1,2), of "trust_is_balanced F", OF assms(3)]
  by (auto simp: trust_moves_def trust_is_balanced_iff)

definition demo_float :: float_ext where
  "demo_float = \<lparr>fm_log2 = (\<lambda>x. x), fm_exp = (\<lambda>_. f_one), fm_sqrt = (\<lambda>x. x), fm_powi = (\<lambda>x _. x),
     fm_ln = (\<lambda>x. x), fm_powf = (\<lambda>x _. x)\<rparr>"

definition demo_trustline :: trustline where
  "demo_trustline = \<lparr>tru_trustline_id = Hash 1, tru_account_a = Address 1, tru_account_b = Address 2,
     tru_limit_ab = 100, tru_limit_ba = 50, tru_balance = 0, tru_quality_in = 10, tru_quality_out = 10,
     tru_ripple_enabled = False, tru_dimensional_scale = 1, tru_tau = f_zero, tru_viviani_delta = f_zero,
     tru_status = TrustActive, tru_created_at_height = 1, tru_modified_at_height = 1\<rparr>"

theorem trust_line_within_limits_witness:
  "\<exists>u. get_trustline (snd (trust_apply demo_float (OpBalance (Hash 1) 7 2) (tbl_put (Hash 1) demo_trustline []))) (Hash 1) = Some u \<and>
    - int (unat (effective_limit_b_to_a demo_float u)) \<le> sint (tru_balance u) \<and>
    sint (tru_balance u) \<le> int (unat (effective_limit_a_to_b demo_float u))"
proof (rule trust_line_within_limits)
  have "trust_step demo_float (tbl_put (Hash 1) demo_trustline [])
      (snd (trust_apply demo_float (OpBalance (Hash 1) 7 2) (tbl_put (Hash 1) demo_trustline [])))"
    unfolding trust_step_def
    by (intro conjI exI[of _ "OpBalance (Hash 1) 7 2"])
       (simp_all add: trust_ok_def demo_trustline_def tbl_ok_put)
  then show "(trust_step demo_float)\<^sup>*\<^sup>* (tbl_put (Hash 1) demo_trustline [])
      (snd (trust_apply demo_float (OpBalance (Hash 1) 7 2) (tbl_put (Hash 1) demo_trustline [])))"
    by (rule r_into_rtranclp)
  have "tru_balance demo_trustline = 0" by (simp add: demo_trustline_def)
  then show "trust_is_balanced demo_float demo_trustline" by (simp add: trust_is_balanced_def)
qed (simp add: get_trustline_def)

section \<open>Pools\<close>

text \<open>In every pool the locked and the unlocked part add up to the liquidity; block rewards, unlock
  schedules and yields keep it so.\<close>

theorem pool_split_kept:
  assumes "pools_split_ok st"
  shows "pools_split_ok (snd (distribute_block_reward F reward h st)) \<and>
    pools_split_ok (snd (execute_unlock_schedules F h st)) \<and>
    pools_split_ok (snd (distribute_yields F h st))"
proof (intro conjI)
  show "pools_split_ok (snd (distribute_block_reward F reward h st))"
    using assms by (auto simp: distribute_block_reward_def Let_def split: option.splits
        intro!: over_pools_keeps dest: reward_pool_split)
  have "pools_split_ok (snd (over_pools (unlock_pool fr h) st))" for fr
    by (rule over_pools_keeps[OF unlock_pool_split assms])
  then show "pools_split_ok (snd (execute_unlock_schedules F h st))"
    using assms by (simp add: execute_unlock_schedules_def case_prod_beta split: option.split)
  have "pools_split_ok (snd (over_pools (yield_pool r h) st))" for r
    by (rule over_pools_keeps[OF yield_pool_split assms])
  then show "pools_split_ok (snd (distribute_yields F h st))"
    using assms by (simp add: distribute_yields_def case_prod_beta split: option.split)
qed

theorem pool_split_kept_witness:
  "pools_split_ok (snd (distribute_block_reward demo_float 500 3 (initialize_pools 1000000 0 pool_state_new))) \<and>
    pools_split_ok (snd (execute_unlock_schedules demo_float 3 (initialize_pools 1000000 0 pool_state_new))) \<and>
    pools_split_ok (snd (distribute_yields demo_float 3 (initialize_pools 1000000 0 pool_state_new)))"
  by (rule pool_split_kept) (simp add: pools_split_ok_def initialize_pools_get initial_pools_split)

text \<open>A swap takes from both pools: afterwards the liquidity of the source and of the destination is
  below the sum of their locked and unlocked parts, by the amounts swapped in and out.\<close>

theorem swap_breaks_split:
  assumes "execute_swap p q a m h st = (Inr out, st')" and "p \<noteq> q" and "pools_ok st" and "pools_split_ok st"
  shows "\<exists>f t. get_pool_liquidity st' p = Some f \<and> get_pool_liquidity st' q = Some t \<and>
    pl_liquidity f = pl_locked f + pl_unlocked f - a \<and> pl_liquidity t = pl_locked t + pl_unlocked t - out \<and>
    m \<le> out"
  using execute_swap_Inr[OF assms(1-3)] assms(4) by (auto simp: pools_split_ok_def split_ok_def)

definition even_pool :: "dimensional_pool \<Rightarrow> pool_liquidity" where
  "even_pool p = \<lparr>pl_pool = p, pl_liquidity = 100, pl_locked = 100, pl_unlocked = 0,
     pl_last_unlock_fraction = f_zero, pl_dimensional_factor = f_one, pl_allocation_ratio = f_one,
     pl_tau = f_zero, pl_phase = f_zero, pl_last_update_height = 0\<rparr>"

definition even_pools :: pool_state where
  "even_pools = save_pool_liquidity (even_pool D2) (save_pool_liquidity (even_pool D1) pool_state_new)"

lemma pool_byte_eq: "pool_byte p = 0 \<longleftrightarrow> p = D1" "pool_byte p = 1 \<longleftrightarrow> p = D2"
  by (cases p; simp)+

lemma even_swap: "f_to_word (f_mul (f_of_word (1 :: u128)) (f_div f_one f_one)) = (1 :: u128)"
  by (simp add: f_one_def f_of_word_def f_of_rat_def f_round_one)

theorem swap_breaks_split_witness:
  "\<exists>f t. get_pool_liquidity (snd (execute_swap D1 D2 1 1 5 even_pools)) D1 = Some f \<and>
    get_pool_liquidity (snd (execute_swap D1 D2 1 1 5 even_pools)) D2 = Some t \<and>
    pl_liquidity f = pl_locked f + pl_unlocked f - 1 \<and> pl_liquidity t = pl_locked t + pl_unlocked t - 1 \<and>
    (1 :: u128) \<le> 1"
proof (rule swap_breaks_split[of D1 D2 1 1 5 even_pools 1])
  show "execute_swap D1 D2 1 1 5 even_pools = (Inr 1, snd (execute_swap D1 D2 1 1 5 even_pools))"
    by (simp add: execute_swap_def even_pools_def even_pool_def even_swap Let_def word_less_nat_alt)
  show "pools_ok even_pools"
    by (auto simp: pools_ok_def even_pools_def even_pool_def save_pool_liquidity_def pool_state_new_def
        tbl_ok_put get_pool_liquidity_def pool_byte_eq split: if_splits)
  show "pools_split_ok even_pools"
    by (auto simp: pools_split_ok_def split_ok_def even_pools_def even_pool_def get_pool_liquidity_def
        save_pool_liquidity_def pool_state_new_def split: if_splits)
qed simp

section \<open>Marketplace\<close>

definition demo_privacy :: privacy_ext where
  "demo_privacy = \<lparr>px_crypto = demo_keys, px_codec = \<lparr>bincode_problem = (\<lambda>_. Some [1]),
     bincode_solution = (\<lambda>_. Some [2]), json_problem = (\<lambda>_. Some [3]), json_solution = (\<lambda>_. Some [4])\<rparr>,
     sha256 = (\<lambda>bs. foldl (\<lambda>n b. n * 256 + ucast b) 0 bs), bincode_parameters = (\<lambda>_. Some [])\<rparr>"

text \<open>C29. In every reachable marketplace each open problem has its bounty in escrow, each solved one has a
  solver, and nothing is held in escrow for a cancelled or unknown problem.\<close>

theorem marketplace_escrow_accounts:
  assumes "(market_step P)\<^sup>*\<^sup>* marketplace_new st"
  shows "market_ok st"
  using assms by (induction rule: rtranclp_induct) (auto intro: market_step_ok)

theorem marketplace_escrow_accounts_witness: "market_ok (snd (claim_bounty (Hash 1) marketplace_new))"
proof (rule marketplace_escrow_accounts)
  have "market_step demo_privacy marketplace_new (snd (claim_bounty (Hash 1) marketplace_new))"
    by (rule ms_claim[OF market_ok_new prod.collapse[symmetric]])
  then show "(market_step demo_privacy)\<^sup>*\<^sup>* marketplace_new (snd (claim_bounty (Hash 1) marketplace_new))"
    by (rule r_into_rtranclp)
qed

text \<open>C6. A bounty is paid at most once: after a claim, whatever happens to the marketplace, no later claim
  or cancellation of that problem pays.\<close>

theorem bounty_paid_once:
  assumes "market_ok st" and "claim_bounty k st = (Inr (a, b), st1)" and "(market_step P)\<^sup>*\<^sup>* st1 st2"
  shows "\<not> is_ok (fst (claim_bounty k st2)) \<and> \<not> is_ok (fst (cancel_problem k requester st2))"
proof -
  have "bounty_entry st1 k = Some (ProblemSolved, None)"
    using claim_bounty_entry[OF assms(1,2)] .
  then have "bounty_entry st2 k = Some (ProblemSolved, None)"
    by (rule bounty_machine.final_forever[OF assms(3)]) (simp add: bounty_paid_def)
  then show ?thesis by (auto dest: bounty_entry_fails)
qed

definition solved_problem :: problem_submission where
  "solved_problem = \<lparr>sub_problem_id = Hash 1, sub_mode = Public (SubsetSum [] 0), sub_reveal = None,
     sub_submitter = Address 1, sub_bounty = 9, sub_min_work_score = f_zero, sub_submitted_at = 0,
     sub_expires_at = 100, sub_status = ProblemSolved, sub_solution = Some (SubsetSumSol []),
     sub_solver = Some (Address 2), sub_title = None, sub_briefing = None\<rparr>"

definition solved_market :: marketplace_state where
  "solved_market = \<lparr>ms_problems = tbl_put (Hash 1) solved_problem [], ms_index = [],
     ms_escrow = tbl_put (Hash 1) 9 []\<rparr>"

lemma solved_market_ok: "market_ok solved_market"
  by (simp add: market_ok_def solved_market_def get_problem_def tbl_ok_put entry_ok_def solved_problem_def)

theorem bounty_paid_once_witness:
  "\<not> is_ok (fst (claim_bounty (Hash 1) (snd (claim_bounty (Hash 1) solved_market)))) \<and>
   \<not> is_ok (fst (cancel_problem (Hash 1) (Address 1) (snd (claim_bounty (Hash 1) solved_market))))"
proof (rule bounty_paid_once[OF solved_market_ok])
  show "claim_bounty (Hash 1) solved_market = (Inr (Address 2, 9), snd (claim_bounty (Hash 1) solved_market))"
    by (simp add: claim_bounty_def solved_market_def get_problem_def solved_problem_def)
  show "(market_step demo_privacy)\<^sup>*\<^sup>* (snd (claim_bounty (Hash 1) solved_market)) (snd (claim_bounty (Hash 1) solved_market))"
    by simp
qed

text \<open>Once a problem is solved, expired or cancelled, nothing about it changes but a reveal.\<close>

theorem settled_problem_forever:
  assumes "(market_step P)\<^sup>*\<^sup>* st st'" and "settled st k = Some s" and "sub_status s \<noteq> ProblemOpen"
  shows "settled st' k = Some s"
  using assms by (rule market_machine.final_forever)

theorem settled_problem_forever_witness:
  "settled (snd (claim_bounty (Hash 1) solved_market)) (Hash 1) = Some solved_problem"
proof (rule settled_problem_forever)
  have "market_step demo_privacy solved_market (snd (claim_bounty (Hash 1) solved_market))"
    by (rule ms_claim[OF solved_market_ok prod.collapse[symmetric]])
  then show "(market_step demo_privacy)\<^sup>*\<^sup>* solved_market (snd (claim_bounty (Hash 1) solved_market))"
    by (rule r_into_rtranclp)
qed (simp_all add: settled_def solved_market_def get_problem_def solved_problem_def)

end
