(* ===== verification/Properties_Node.thy ===== *)
theory Properties_Node
  imports Node_Fork Mempool_Pool Properties_Core Properties_State
begin

text \<open>
  The properties of the block store, of fork choice, of peer consensus and of the transaction pool, each with a concrete
  instance where it has hypotheses.
\<close>

section \<open>The block store\<close>

definition no_blocks :: chain_db where
  "no_blocks = \<lparr>cdb_blocks = Map.empty, cdb_height_index = Map.empty, cdb_genesis_hash = None, cdb_best_height = None,
     cdb_best_hash = None, cdb_cum_work = None, cdb_total_minted = None\<rparr>"

text \<open>Headers written as their height and nonce, hashed to those bytes.\<close>

definition height_codec :: block_codec where
  "height_codec = demo_block_codec\<lparr>bincode_header := \<lambda>h. Some [ucast (bh_height h), ucast (bh_nonce h)]\<rparr>"

definition byte_crypto :: crypto_ext where
  "byte_crypto = demo_crypto\<lparr>blake3 := \<lambda>bs. if length bs = 2 then 256 * ucast (bs ! 0) + ucast (bs ! 1) else 0\<rparr>"

definition demo_genesis :: block where
  "demo_genesis = block_genesis (Address 1)"

definition demo_next :: "u64 \<Rightarrow> hash \<Rightarrow> u64 \<Rightarrow> block" where
  "demo_next h parent nonce = demo_genesis\<lparr>blk_header := (blk_header demo_genesis)\<lparr>bh_height := h,
     bh_prev_hash := parent, bh_nonce := nonce\<rparr>\<rparr>"

lemma demo_hash:
  "block_hash byte_crypto height_codec (demo_next h p n) = Hash (256 * ucast (ucast h :: u8) + ucast (ucast n :: u8))"
  by (simp add: block_hash_def header_hash_def hash_new_def byte_crypto_def height_codec_def demo_next_def)


definition demo_store :: chain_state where
  "demo_store = (case chain_new byte_crypto height_codec (demo_next 0 hash_ZERO 0) no_blocks of
     Some (Inr cs) \<Rightarrow> cs | _ \<Rightarrow> undefined)"

lemma demo_store: "chain_new byte_crypto height_codec (demo_next 0 hash_ZERO 0) no_blocks = Some (Inr demo_store)"
  and demo_store_tip: "chs_best_hash demo_store = Hash 0" "chs_best_height demo_store = 0"
proof -
  obtain cs where "chain_new byte_crypto height_codec (demo_next 0 hash_ZERO 0) no_blocks = Some (Inr cs)"
    "chs_best_hash cs = block_hash byte_crypto height_codec (demo_next 0 hash_ZERO 0)" "chs_best_height cs = 0"
    using chain_new_ok[of no_blocks "demo_next 0 hash_ZERO 0" byte_crypto height_codec]
    by (auto simp: no_blocks_def demo_next_def)
  then show "chain_new byte_crypto height_codec (demo_next 0 hash_ZERO 0) no_blocks = Some (Inr demo_store)"
    "chs_best_hash demo_store = Hash 0" "chs_best_height demo_store = 0"
    by (simp_all add: demo_store_def demo_hash)
qed

text \<open>Two blocks of height 1 compete; the one that came first is extended.\<close>

definition demo_arrivals :: "block list" where
  "demo_arrivals = [demo_next 1 (Hash 0) 1, demo_next 1 (Hash 0) 2, demo_next 2 (Hash 257) 3]"


text \<open>C8. The common ancestor of the node's chain and of a complete branch is the highest block both contain, so a
  reorganisation replaces no more blocks than it must.\<close>

theorem common_ancestor_is_highest:
  assumes "chain_ok X B cs" and "complete_branch X B cs alt th n"
  shows "\<exists>a j. find_common_ancestor_with_alt_chain X B cs th n alt = Some (a, j) \<and>
    j \<le> min (chs_best_height cs) n \<and> ours_at cs (unat j) = Some a \<and> theirs_at X B cs alt th n (unat j) = Some a \<and>
    (\<forall>m. unat j < m \<longrightarrow> m \<le> unat (min (chs_best_height cs) n) \<longrightarrow> ours_at cs m \<noteq> theirs_at X B cs alt th n m)"
  using assms by (rule find_common_ancestor_highest)

lemma demo_store_ok: "chain_ok byte_crypto height_codec demo_store"
  using chain_new_ok[of no_blocks "demo_next 0 hash_ZERO 0" byte_crypto height_codec] demo_store
  by (auto simp: no_blocks_def demo_next_def demo_genesis_def block_genesis_def)

lemma demo_store_blocks: "cdb_blocks (chs_db demo_store) = [Hash 0 \<mapsto> demo_next 0 hash_ZERO 0]"
  using chain_new_blocks[OF _ demo_store] by (simp add: no_blocks_def demo_hash)

lemma demo_store_genesis: "chs_genesis_hash demo_store = Hash 0"
  by (rule chain_okE[OF demo_store_ok]) (simp add: tip_chain_def demo_store_tip)

theorem common_ancestor_is_highest_witness:
  "\<exists>a j. find_common_ancestor_with_alt_chain byte_crypto height_codec demo_store (Hash 257) 1 [demo_next 1 (Hash 0) 1] =
      Some (a, j) \<and> j \<le> min (chs_best_height demo_store) 1 \<and> ours_at demo_store (unat j) = Some a \<and>
    theirs_at byte_crypto height_codec demo_store [demo_next 1 (Hash 0) 1] (Hash 257) 1 (unat j) = Some a"
proof -
  have h: "height_of (demo_next h p n) = h" "parent_of (demo_next h p n) = p" for h p n
    by (simp_all add: demo_next_def)
  have r: "get_block_by_hash demo_store = [Hash 0 \<mapsto> demo_next 0 hash_ZERO 0]"
    using chain_ok_reads[OF demo_store_ok] demo_store_blocks by simp
  let ?get = "block_by_hash_or_alt byte_crypto height_codec demo_store [demo_next 1 (Hash 0) 1]"
  have g: "?get (Hash 257) = Some (demo_next 1 (Hash 0) 1)" "?get (Hash 0) = Some (demo_next 0 hash_ZERO 0)"
    by (simp_all add: block_by_hash_or_alt_def r demo_hash)
  then have "chain_down ?get (Suc 0) (Hash 257) = Some [demo_next 1 (Hash 0) 1, demo_next 0 hash_ZERO 0]"
    "walk_back ?get (Suc 0) (Hash 257) = Some (Hash 0)"
    by (simp_all add: chain_down.simps h)
  then have "complete_branch byte_crypto height_codec demo_store [demo_next 1 (Hash 0) 1] (Hash 257) 1"
    by (simp add: complete_branch_def theirs_at_def demo_store_genesis)
  from common_ancestor_is_highest[OF demo_store_ok this] show ?thesis by blast
qed

section \<open>Fork choice\<close>

text \<open>C40. When the blocks of a longer fork turn out invalid, the reorganisation fails after it has unwound the node's own
  chain, and oldest block first: the best chain stays as it was, but the ledger no longer belongs to it. Where the
  recipient of the first block pays on in the second, it keeps money it never had.\<close>

theorem failed_reorganisation_corrupts_ledger:
  assumes "tr_to t1 = tr_from t2" and "tr_from t1 \<noteq> tr_to t1" and "tr_from t2 \<noteq> tr_to t2"
    and "compute_cumulative_work_tip_db (chs_db (ns_chain s)) (parent_of b) = Some (Inr w)"
    and "validate_new_blocks E 0 (b # bs) (parent_of b) w = Inl e"
  shows "\<exists>s'. reorganize_chain E [transfer_block t2, transfer_block t1] (b # bs) s = Some (Inl e, s') \<and>
    ns_chain s' = ns_chain s \<and>
    bal (ns_ledger s') (tr_from t2) =
      saturating_sub_word (bal (ns_ledger s) (tr_from t2)) (tr_amount t1) + tr_amount t2 + tr_fee t2"
  using reorganize_oldest_first[OF assms] by blast

definition demo_env :: fork_env where
  "demo_env = \<lparr>fe_node = \<lparr>nx_privacy = demo_privacy\<lparr>px_crypto := byte_crypto\<rparr>, nx_codec = demo_tx_codec,
       nx_float = demo_float\<rparr>,
     fe_codec = height_codec, fe_validator = validator_new 1, fe_now = (\<lambda>_. 0), fe_clock = (\<lambda>_ _. 0)\<rparr>"

definition demo_node_state :: node_state where
  "demo_node_state = \<lparr>ns_chain = demo_store,
     ns_ledger = \<lparr>lg_accounts = account_new, lg_timelocks = [], lg_escrows = [], lg_channels = [], lg_trustlines = [],
       lg_pools = pool_state_new, lg_market = marketplace_new\<rparr>\<rparr>"

definition demo_payment :: "address \<Rightarrow> address \<Rightarrow> transfer_tx" where
  "demo_payment a b = \<lparr>tr_from = a, tr_to = b, tr_amount = 5, tr_fee = 1, tr_nonce = 0,
     tr_public_key = PublicKey 3, tr_signature = null_signature\<rparr>"

text \<open>A block of height 1 from the year 2033, judged at time 0.\<close>

definition demo_future :: block where
  "demo_future = (demo_next 1 (Hash 0) 1)\<lparr>blk_header := (blk_header (demo_next 1 (Hash 0) 1))\<lparr>bh_timestamp := 2000000000\<rparr>\<rparr>"

theorem failed_reorganisation_corrupts_ledger_witness:
  "\<exists>s'. reorganize_chain demo_env
      [transfer_block (demo_payment (Address 4) (Address 5)), transfer_block (demo_payment (Address 3) (Address 4))]
      (demo_future # []) demo_node_state = Some (Inl (NewBlockInvalid 1 BlockFromFuture), s') \<and>
    ns_chain s' = ns_chain demo_node_state \<and>
    bal (ns_ledger s') (tr_from (demo_payment (Address 4) (Address 5))) =
      saturating_sub_word (bal (ns_ledger demo_node_state) (tr_from (demo_payment (Address 4) (Address 5))))
        (tr_amount (demo_payment (Address 3) (Address 4))) +
      tr_amount (demo_payment (Address 4) (Address 5)) + tr_fee (demo_payment (Address 4) (Address 5))"
proof (rule failed_reorganisation_corrupts_ledger)
  have p: "parent_of demo_future = Hash 0" "height_of demo_future = 1"
    by (simp_all add: demo_future_def demo_next_def)
  show "compute_cumulative_work_tip_db (chs_db (ns_chain demo_node_state)) (parent_of demo_future) =
      Some (Inr (saturating_add_word 0 (block_work (demo_next 0 hash_ZERO 0))))"
    by (subst compute_cumulative_work_tip_db_def, subst sum_to_genesis.simps)
       (simp add: demo_node_state_def demo_store_blocks p Let_def demo_next_def demo_genesis_def block_genesis_def)
  show "validate_new_blocks demo_env 0 (demo_future # []) (parent_of demo_future)
      (saturating_add_word 0 (block_work (demo_next 0 hash_ZERO 0))) = Inl (NewBlockInvalid 1 BlockFromFuture)"
    by (simp add: p validate_block_with_options_def Let_def validate_timestamp_def demo_env_def validator_new_def
        demo_future_def demo_next_def bind_res_def)
qed (simp_all add: demo_payment_def)

section \<open>Peers\<close>

text \<open>Peers agree on the height of the largest group of tips that lie within one block of each other: the window
  over the sorted heights that the node finds is as large as any such group.\<close>

theorem cluster_is_largest:
  assumes "sorted hs" and "hs \<noteq> []" and "largest_height_cluster_within_one_block hs = (len, h)"
  shows "(\<exists>a. window hs a (a + len - 1) \<and> h \<in> set (take len (drop a hs))) \<and>
    (\<forall>a b. window hs a b \<longrightarrow> b - a + 1 \<le> len)"
  using largest_cluster[OF assms] by blast

theorem cluster_is_largest_witness:
  "\<exists>a. window [3, 4, 9, 9, 10 :: u64] a (a + 3 - 1) \<and> 9 \<in> set (take 3 (drop a [3, 4, 9, 9, 10 :: u64]))"
proof -
  have "largest_height_cluster_within_one_block [3, 4, 9, 9, 10 :: u64] = (3, 9)"
    by (simp add: largest_height_cluster_within_one_block_def upt_rec window_start.simps saturating_sub_word_def Let_def)
  from cluster_is_largest[OF _ _ this] show ?thesis by simp
qed

text \<open>A peer that falls silent leaves the consensus: after as many maintenance ticks as the configuration allows
  missed rounds it is filtered, and not one tick earlier.\<close>

theorem silent_peer_is_filtered:
  assumes "\<forall>t\<in>set ts. is_stale t p" and "\<not> pe_is_filtered p" and "pe_missed_rounds p < m"
  shows "pe_is_filtered (fold (\<lambda>t. tick_peer t m) ts p) \<longleftrightarrow> unat m - unat (pe_missed_rounds p) \<le> length ts"
  using assms by (rule silent_ticks)

theorem silent_peer_is_filtered_witness:
  "pe_is_filtered (fold (\<lambda>t. tick_peer t 4) [consensus_stale_threshold + 1, consensus_stale_threshold + 9]
       ((peer_state_new 0 7 (Hash 1))\<lparr>pe_missed_rounds := 2\<rparr>)) \<longleftrightarrow>
     unat (4 :: u32) - unat (pe_missed_rounds ((peer_state_new 0 7 (Hash 1))\<lparr>pe_missed_rounds := 2\<rparr>)) \<le>
       length [consensus_stale_threshold + 1, consensus_stale_threshold + 9]"
  by (rule silent_peer_is_filtered) (simp_all add: is_stale_def peer_state_new_def)

section \<open>The transaction pool\<close>

text \<open>The calls that change a pool.\<close>

datatype pool_call = CallAdd i64 transaction | CallRemove hash | CallRemoveBatch "hash list" |
  CallAddBatch "nat \<Rightarrow> i64" "transaction list" | CallClear

fun make_call :: "crypto_ext \<Rightarrow> tx_codec \<Rightarrow> nat \<Rightarrow> transaction_pool \<Rightarrow> pool_call \<Rightarrow> transaction_pool" where
  "make_call X C s pool (CallAdd now tx) = snd (pool_add X C s now tx pool)"
| "make_call X C s pool (CallRemove h) = snd (pool_remove s h pool)"
| "make_call X C s pool (CallRemoveBatch hs) = pool_remove_batch s hs pool"
| "make_call X C s pool (CallAddBatch now txs) = snd (pool_add_batch X C s now txs pool)"
| "make_call X C s pool CallClear = pool_clear pool"

lemma make_call_ok: "pool_ok X C s pool \<Longrightarrow> pool_ok X C s (make_call X C s pool c)"
  by (cases c) (auto intro: pool_add_ok[OF _ prod.collapse[symmetric]] pool_remove_ok[OF _ prod.collapse[symmetric]]
      pool_remove_batch_ok pool_add_all_ok pool_ok_clear simp: pool_add_batch_def)

interpretation pool_run: simulation "pool_ok X C s" "\<lambda>_. ()" "\<lambda>_ _. True" "make_call X C s" "\<lambda>_ _. ()" for X C s
  by unfold_locales (simp_all add: make_call_ok)

lemma all_steps_True [simp]: "all_steps (\<lambda>_ _. True) step s xs"
  by (induction xs arbitrary: s) simp_all

text \<open>C25. After any calls on a new pool, its queue, its map and its set of seen hashes agree, no transaction is in it
  twice, and the configured bounds on the number and the bytes of transactions hold, evictions included; and a block
  template drawn from it takes as many different transactions as fit.\<close>

theorem pool_stays_well_formed:
  "pool_ok X C s (run_steps (make_call X C s) (pool_with_config config) cs) \<and>
   (let pool = run_steps (make_call X C s) (pool_with_config config) cs in
     set (template_entries X C pool m z) \<subseteq> set (tp_queue pool) \<and>
     distinct (map pt_hash (template_entries X C pool m z)) \<and>
     length (template_entries X C pool m z) = min m (length (tp_queue pool)))"
proof -
  have "pool_ok X C s (run_steps (make_call X C s) (pool_with_config config) cs)"
    by (rule pool_run.run_ok[OF pool_ok_new all_steps_True])
  then show ?thesis using template_entries_spec by (metis (no_types, lifting))
qed

text \<open>A full pool does not compare a new transaction with the one it would evict but with the one that pays most: what
  gets in outbids every transaction in the pool, and the cheapest ones stay safe from all others.\<close>

theorem full_pool_takes_highest_only:
  assumes "pool_at_capacity s pool" and "fst (pool_add X C s now tx pool) = Inr h" and "p \<in> set (tp_queue pool)"
  shows "pt_fee p < tx_fee tx"
  using assms by (rule full_pool_admission)

definition demo_pool :: transaction_pool where
  "demo_pool = snd (pool_add demo_crypto demo_tx_codec 100 0 demo_transaction
     (pool_with_config (pool_config_default\<lparr>pc_max_transactions := 1\<rparr>)))"

definition demo_bid :: "balance \<Rightarrow> transaction" where
  "demo_bid fee = new_transfer demo_crypto (Address 3) (Address 4) 5 fee 8 \<lparr>signing_key = 3\<rparr>"

lemma demo_signatures:
  "tx_verify_signature demo_crypto demo_tx_codec demo_transaction" "tx_verify_signature demo_crypto demo_tx_codec (demo_bid fee)"
  by (simp_all add: demo_bid_def demo_transaction_def new_transfer_def transfer_verify_signature_def
      pk_verify_def demo_crypto_def)

lemma demo_tx_hashes:
  "tx_hash demo_crypto demo_tx_codec demo_transaction \<noteq> tx_hash demo_crypto demo_tx_codec (demo_bid fee)"
  by (simp add: demo_bid_def demo_transaction_def new_transfer_def transfer_new_def tx_hash_def hash_new_def demo_crypto_def
      demo_tx_codec_def Let_def to_le_bytes_def upt_rec)

lemma demo_fees [simp]:
  "tx_fee demo_transaction = 6" "tx_fee (demo_bid fee) = fee"
  "required_minimum_fee demo_transaction m = 0" "required_minimum_fee (demo_bid fee) m = 0"
  by (simp_all add: demo_bid_def demo_transaction_def new_transfer_def transfer_new_def Let_def)

theorem full_pool_takes_highest_only_witness:
  "pt_fee (hd (tp_queue demo_pool)) < tx_fee (demo_bid 9)"
proof (rule full_pool_takes_highest_only[of 100 demo_pool demo_crypto demo_tx_codec 0])
  let ?h = "tx_hash demo_crypto demo_tx_codec demo_transaction"
  have seen: "tp_seen demo_pool = {?h}"
    and q: "tp_queue demo_pool = [\<lparr>pt_tx = demo_transaction, pt_hash = ?h, pt_fee = 6, pt_received_at = 0\<rparr>]"
    and st: "pst_total_transactions (tp_stats demo_pool) = 1" "pc_max_transactions (tp_config demo_pool) = 1"
    using demo_signatures(1)
    by (simp_all add: demo_pool_def pool_add_def pool_with_config_def pool_at_capacity_def pool_config_default_def
        admit_def Let_def)
  then show full: "pool_at_capacity 100 demo_pool" and "hd (tp_queue demo_pool) \<in> set (tp_queue demo_pool)"
    by (simp_all add: pool_at_capacity_def)
  show "fst (pool_add demo_crypto demo_tx_codec 100 0 (demo_bid 9) demo_pool) = Inr (tx_hash demo_crypto demo_tx_codec (demo_bid 9))"
    using demo_signatures(2) demo_tx_hashes[of 9] full
    by (simp add: pool_add_def Let_def seen q heap_peek_def by_priority_def)
qed

end
