(* ===== verification/Api_Order_Book.thy ===== *)
theory Api_Order_Book
  imports CJ_Prelude
begin

text \<open>
  \<open>api-server/src/matching/order_book.rs\<close> and \<open>types.rs\<close>: the order book of one pair, with price-time priority.
  \<open>rust_decimal::Decimal\<close> is another crate: prices and quantities are of a type \<open>'d\<close> of which only the laws of a linearly
  ordered group are used, its documented behaviour where the 28 digits of a \<open>Decimal\<close> suffice (the crate panics on overflow).
  A \<open>BTreeMap\<close> of price levels is the list of its entries in the order of its keys. The random ids and the
  times of the trades that one call makes are its argument \<open>stamp\<close>, read at the number of trades so far.
\<close>

section \<open>Definitions\<close>

type_synonym order_id = "128 word"

datatype side = Buy | Sell
datatype order_type = LimitOrder | MarketOrder
datatype time_in_force = GTC | IOC | FOK

record 'd internal_order =
  io_id :: order_id
  io_user_id :: string
  io_wallet :: string
  io_pair_id :: string
  io_side :: side
  io_type :: order_type
  io_price :: "'d option"
  io_quantity :: 'd
  io_filled :: 'd
  io_time_in_force :: time_in_force
  io_created_at :: int

definition remaining :: "'d::linordered_ab_group_add internal_order \<Rightarrow> 'd" where
  "remaining o1 = io_quantity o1 - io_filled o1"

definition is_filled :: "'d::linordered_ab_group_add internal_order \<Rightarrow> bool" where
  "is_filled o1 \<longleftrightarrow> io_quantity o1 \<le> io_filled o1"

record 'd matched_trade =
  mt_id :: "128 word"
  mt_pair_id :: string
  mt_buy_order_id :: order_id
  mt_sell_order_id :: order_id
  mt_buyer_wallet :: string
  mt_seller_wallet :: string
  mt_price :: 'd
  mt_quantity :: 'd
  mt_timestamp :: int

datatype match_status = Resting | PartiallyFilled | Filled | Cancelled

record 'd match_result =
  mr_order_id :: order_id
  mr_status :: match_status
  mr_trades :: "'d matched_trade list"
  mr_remaining :: 'd

type_synonym 'd levels = "('d \<times> 'd internal_order list) list"
type_synonym 'd order_index = "order_id \<Rightarrow> (side \<times> 'd) option"

record 'd order_book =
  ob_pair_id :: string
  ob_bids :: "'d levels"
  ob_asks :: "'d levels"
  ob_index :: "'d order_index"

definition book_new :: "string \<Rightarrow> 'd order_book" where
  "book_new pair_id = \<lparr>ob_pair_id = pair_id, ob_bids = [], ob_asks = [], ob_index = Map.empty\<rparr>"

text \<open>\<open>Ord\<close> of \<open>PriceLevel\<close>: bids descend, asks ascend.\<close>

fun level_before :: "side \<Rightarrow> 'd::linordered_ab_group_add \<Rightarrow> 'd \<Rightarrow> bool" where
  "level_before Buy p q \<longleftrightarrow> q < p"
| "level_before Sell p q \<longleftrightarrow> p < q"

fun other_side :: "side \<Rightarrow> side" where
  "other_side Buy = Sell"
| "other_side Sell = Buy"

fun levels_of :: "side \<Rightarrow> 'd order_book \<Rightarrow> 'd levels" where
  "levels_of Buy book = ob_bids book"
| "levels_of Sell book = ob_asks book"

fun set_levels :: "side \<Rightarrow> 'd levels \<Rightarrow> 'd order_book \<Rightarrow> 'd order_book" where
  "set_levels Buy ls book = book\<lparr>ob_bids := ls\<rparr>"
| "set_levels Sell ls book = book\<lparr>ob_asks := ls\<rparr>"

text \<open>\<open>match_against_book\<close>: the inner loop over the orders of a level, the outer one over the levels. Filled orders
  leave the level, and a level that is left empty is removed.\<close>

definition can_match :: "'d::linordered_ab_group_add internal_order \<Rightarrow> 'd \<Rightarrow> bool" where
  "can_match order price \<longleftrightarrow> (case io_price order of None \<Rightarrow> True
     | Some limit_price \<Rightarrow> (case io_side order of Buy \<Rightarrow> price \<le> limit_price | Sell \<Rightarrow> limit_price \<le> price))"

definition make_trade ::
  "(nat \<Rightarrow> 128 word \<times> int) \<Rightarrow> nat \<Rightarrow> 'd internal_order \<Rightarrow> 'd internal_order \<Rightarrow> 'd \<Rightarrow> 'd \<Rightarrow> 'd matched_trade" where
  "make_trade stamp n order resting price qty =
     (let (buyer, seller) = (case io_side order of Buy \<Rightarrow> (order, resting) | Sell \<Rightarrow> (resting, order)) in
      \<lparr>mt_id = fst (stamp n), mt_pair_id = io_pair_id order, mt_buy_order_id = io_id buyer,
       mt_sell_order_id = io_id seller, mt_buyer_wallet = io_wallet buyer, mt_seller_wallet = io_wallet seller,
       mt_price = price, mt_quantity = qty, mt_timestamp = snd (stamp n)\<rparr>)"

fun match_level ::
  "(nat \<Rightarrow> 128 word \<times> int) \<Rightarrow> 'd::linordered_ab_group_add \<Rightarrow> 'd internal_order \<Rightarrow> 'd matched_trade list \<Rightarrow> 'd order_index \<Rightarrow>
   'd internal_order list \<Rightarrow> 'd internal_order \<times> 'd matched_trade list \<times> 'd order_index \<times> 'd internal_order list" where
  "match_level stamp price order trades idx [] = (order, trades, idx, [])"
| "match_level stamp price order trades idx (resting # rs) =
     (if is_filled order then (order, trades, idx, resting # rs)
      else let fill_qty = min (remaining order) (remaining resting);
               order' = order\<lparr>io_filled := io_filled order + fill_qty\<rparr>;
               resting' = resting\<lparr>io_filled := io_filled resting + fill_qty\<rparr>;
               trades' = trades @ [make_trade stamp (length trades) order resting price fill_qty];
               idx' = (if is_filled resting' then idx(io_id resting := None) else idx)
           in (case match_level stamp price order' trades' idx' rs of (o1, ts, ix, rs') \<Rightarrow>
                (o1, ts, ix, if is_filled resting' then rs' else resting' # rs')))"

fun match_levels ::
  "(nat \<Rightarrow> 128 word \<times> int) \<Rightarrow> 'd::linordered_ab_group_add internal_order \<Rightarrow> 'd matched_trade list \<Rightarrow> 'd order_index \<Rightarrow> 'd levels \<Rightarrow>
   'd internal_order \<times> 'd matched_trade list \<times> 'd order_index \<times> 'd levels" where
  "match_levels stamp order trades idx [] = (order, trades, idx, [])"
| "match_levels stamp order trades idx ((price, rs) # ls) =
     (if is_filled order \<or> \<not> can_match order price then (order, trades, idx, (price, rs) # ls)
      else case match_level stamp price order trades idx rs of (o1, ts, ix, rs') \<Rightarrow>
        (case match_levels stamp o1 ts ix ls of (o2, ts2, ix2, ls') \<Rightarrow>
          (o2, ts2, ix2, if rs' = [] then ls' else (price, rs') # ls')))"

definition match_against_book ::
  "(nat \<Rightarrow> 128 word \<times> int) \<Rightarrow> 'd::linordered_ab_group_add internal_order \<Rightarrow> 'd order_book \<Rightarrow>
   'd internal_order \<times> 'd matched_trade list \<times> 'd order_book" where
  "match_against_book stamp order book =
     (let s = other_side (io_side order) in
      case match_levels stamp order [] (ob_index book) (levels_of s book) of (o1, ts, ix, ls) \<Rightarrow>
        (o1, ts, set_levels s ls (book\<lparr>ob_index := ix\<rparr>)))"

fun push_level ::
  "side \<Rightarrow> 'd::linordered_ab_group_add \<Rightarrow> 'd internal_order \<Rightarrow> 'd levels \<Rightarrow> 'd levels" where
  "push_level s price order [] = [(price, [order])]"
| "push_level s price order ((p, rs) # ls) =
     (if p = price then (p, rs @ [order]) # ls
      else if level_before s price p then (price, [order]) # (p, rs) # ls
      else (p, rs) # push_level s price order ls)"

text \<open>A resting order must have a price: \<open>expect\<close> panics otherwise.\<close>

definition insert_resting_order ::
  "'d::linordered_ab_group_add internal_order \<Rightarrow> 'd order_book \<Rightarrow> 'd order_book option" where
  "insert_resting_order order book =
     (case io_price order of None \<Rightarrow> None
      | Some price \<Rightarrow> let s = io_side order in
          Some (set_levels s (push_level s price order (levels_of s book))
            (book\<lparr>ob_index := (ob_index book)(io_id order \<mapsto> (s, price))\<rparr>)))"

definition submit_order ::
  "(nat \<Rightarrow> 128 word \<times> int) \<Rightarrow> 'd::linordered_ab_group_add internal_order \<Rightarrow> 'd order_book \<Rightarrow> ('d match_result \<times> 'd order_book) option" where
  "submit_order stamp order book =
     (case io_type order of
        MarketOrder \<Rightarrow> (case match_against_book stamp order book of (o1, ts, book') \<Rightarrow>
          Some (\<lparr>mr_order_id = io_id o1, mr_status = (if is_filled o1 then Filled else Cancelled),
            mr_trades = ts, mr_remaining = remaining o1\<rparr>, book'))
      | LimitOrder \<Rightarrow>
          (case (if io_price order \<noteq> None then match_against_book stamp order book else (order, [], book)) of
             (o1, ts, book') \<Rightarrow>
               if is_filled o1 then Some (\<lparr>mr_order_id = io_id o1, mr_status = Filled, mr_trades = ts, mr_remaining = 0\<rparr>, book')
               else (case io_time_in_force o1 of
                   FOK \<Rightarrow> Some (\<lparr>mr_order_id = io_id o1, mr_status = Cancelled, mr_trades = [], mr_remaining = io_quantity o1\<rparr>, book')
                 | IOC \<Rightarrow> Some (\<lparr>mr_order_id = io_id o1, mr_status = (if ts = [] then Cancelled else PartiallyFilled),
                     mr_trades = ts, mr_remaining = remaining o1\<rparr>, book')
                 | GTC \<Rightarrow> (case insert_resting_order o1 book' of None \<Rightarrow> None
                     | Some book2 \<Rightarrow> Some (\<lparr>mr_order_id = io_id o1, mr_status = (if ts = [] then Resting else PartiallyFilled),
                         mr_trades = ts, mr_remaining = remaining o1\<rparr>, book2)))))"

fun order_position :: "('a \<Rightarrow> bool) \<Rightarrow> 'a list \<Rightarrow> nat option" where
  "order_position P [] = None"
| "order_position P (x # xs) = (if P x then Some 0 else map_option Suc (order_position P xs))"

definition remove_at :: "nat \<Rightarrow> 'a list \<Rightarrow> 'a list" where
  "remove_at i xs = take i xs @ drop (Suc i) xs"

definition cancel_order ::
  "order_id \<Rightarrow> 'd::linordered_ab_group_add order_book \<Rightarrow> 'd internal_order option \<times> 'd order_book" where
  "cancel_order i book =
     (case ob_index book i of None \<Rightarrow> (None, book)
      | Some (s, price) \<Rightarrow>
          let book1 = book\<lparr>ob_index := (ob_index book)(i := None)\<rparr>; ls = levels_of s book in
          (case map_of ls price of None \<Rightarrow> (None, book1)
           | Some orders \<Rightarrow> (case order_position (\<lambda>o1. io_id o1 = i) orders of None \<Rightarrow> (None, book1)
               | Some pos \<Rightarrow> let orders' = remove_at pos orders in
                   (Some (orders ! pos), set_levels s (if orders' = [] then filter (\<lambda>l. fst l \<noteq> price) ls
                      else map (\<lambda>l. if fst l = price then (price, orders') else l) ls) book1))))"

definition best_bid :: "'d order_book \<Rightarrow> 'd option" where
  "best_bid book = (case ob_bids book of [] \<Rightarrow> None | l # _ \<Rightarrow> Some (fst l))"

definition best_ask :: "'d order_book \<Rightarrow> 'd option" where
  "best_ask book = (case ob_asks book of [] \<Rightarrow> None | l # _ \<Rightarrow> Some (fst l))"

definition spread :: "'d::linordered_ab_group_add order_book \<Rightarrow> 'd option" where
  "spread book = (case (best_ask book, best_bid book) of (Some ask, Some bid) \<Rightarrow> Some (ask - bid) | _ \<Rightarrow> None)"

record 'd depth_level =
  dl_price :: 'd
  dl_quantity :: 'd
  dl_order_count :: nat

record 'd book_depth =
  bd_pair_id :: string
  bd_bids :: "'d depth_level list"
  bd_asks :: "'d depth_level list"

definition depth_of_level :: "'d::linordered_ab_group_add \<times> 'd internal_order list \<Rightarrow> 'd depth_level" where
  "depth_of_level l = \<lparr>dl_price = fst l, dl_quantity = sum_list (map remaining (snd l)), dl_order_count = length (snd l)\<rparr>"

definition depth :: "nat \<Rightarrow> 'd::linordered_ab_group_add order_book \<Rightarrow> 'd book_depth" where
  "depth max_levels book = \<lparr>bd_pair_id = ob_pair_id book, bd_bids = map depth_of_level (take max_levels (ob_bids book)),
     bd_asks = map depth_of_level (take max_levels (ob_asks book))\<rparr>"

definition order_count :: "'d order_book \<Rightarrow> nat" where
  "order_count book = card (dom (ob_index book))"

section \<open>The flat queue\<close>

text \<open>What matching should do: the resting orders of a side are one queue, best price first and then oldest first; an
  incoming order takes from its head until it is filled or the next price is beyond its limit.\<close>

definition queue :: "'d levels \<Rightarrow> 'd internal_order list" where
  "queue ls = concat (map snd ls)"

definition fill_order :: "'d::linordered_ab_group_add \<Rightarrow> 'd internal_order \<Rightarrow> 'd internal_order" where
  "fill_order q o1 = o1\<lparr>io_filled := io_filled o1 + q\<rparr>"

type_synonym 'd fills = "('d internal_order \<times> 'd) list"

fun fill_queue ::
  "'d::linordered_ab_group_add internal_order \<Rightarrow> 'd internal_order list \<Rightarrow> 'd internal_order \<times> 'd fills \<times> 'd internal_order list" where
  "fill_queue order [] = (order, [], [])"
| "fill_queue order (r # rs) =
     (if is_filled order \<or> \<not> can_match order (the (io_price r)) then (order, [], r # rs)
      else let q = min (remaining order) (remaining r) in
        if is_filled (fill_order q r)
        then (case fill_queue (fill_order q order) rs of (o1, fs, rs') \<Rightarrow> (o1, (r, q) # fs, rs'))
        else (fill_order q order, [(r, q)], fill_order q r # rs))"

fun trades_of ::
  "(nat \<Rightarrow> 128 word \<times> int) \<Rightarrow> nat \<Rightarrow> 'd internal_order \<Rightarrow> 'd fills \<Rightarrow> 'd matched_trade list" where
  "trades_of stamp n order [] = []"
| "trades_of stamp n order ((r, q) # fs) = make_trade stamp n order r (the (io_price r)) q # trades_of stamp (Suc n) order fs"

fun drop_filled :: "'d::linordered_ab_group_add fills \<Rightarrow> 'd order_index \<Rightarrow> 'd order_index" where
  "drop_filled [] idx = idx"
| "drop_filled ((r, q) # fs) idx = drop_filled fs (if is_filled (fill_order q r) then idx(io_id r := None) else idx)"

lemma queue_simps [simp]:
  "queue [] = []" "queue (l # ls) = snd l @ queue ls" "queue (xs @ ys) = queue xs @ queue ys"
  by (simp_all add: queue_def)

lemma fill_order_fields [simp]:
  "io_id (fill_order q o1) = io_id o1" "io_side (fill_order q o1) = io_side o1" "io_price (fill_order q o1) = io_price o1"
  "io_quantity (fill_order q o1) = io_quantity o1" "io_filled (fill_order q o1) = io_filled o1 + q"
  "io_type (fill_order q o1) = io_type o1" "io_time_in_force (fill_order q o1) = io_time_in_force o1"
  "io_wallet (fill_order q o1) = io_wallet o1" "io_pair_id (fill_order q o1) = io_pair_id o1"
  "io_user_id (fill_order q o1) = io_user_id o1" "io_created_at (fill_order q o1) = io_created_at o1"
  by (simp_all add: fill_order_def)

lemma remaining_fill [simp]: "remaining (fill_order q o1) = remaining o1 - q"
  by (simp add: remaining_def algebra_simps)

lemma is_filled_remaining: "is_filled o1 \<longleftrightarrow> remaining o1 \<le> 0"
  by (simp add: is_filled_def remaining_def)

lemma can_match_fill [simp]: "can_match (fill_order q o1) p = can_match o1 p"
  by (simp add: can_match_def split: option.split)

lemma make_trade_fill [simp]: "make_trade stamp n (fill_order q o1) = make_trade stamp n o1"
  by (simp add: make_trade_def fun_eq_iff split: side.split)

lemma trades_of_fill [simp]: "trades_of stamp n (fill_order q o1) fs = trades_of stamp n o1 fs"
  by (induction fs arbitrary: n) auto

lemma trades_of_append [simp]:
  "trades_of stamp n o1 (fs @ gs) = trades_of stamp n o1 fs @ trades_of stamp (n + length fs) o1 gs"
  by (induction fs arbitrary: n) auto

lemma length_trades_of [simp]: "length (trades_of stamp n o1 fs) = length fs"
  by (induction fs arbitrary: n) auto

lemma drop_filled_append [simp]: "drop_filled (fs @ gs) idx = drop_filled gs (drop_filled fs idx)"
  by (induction fs arbitrary: idx) auto

text \<open>A resting order that is not filled by a trade means that the incoming order is.\<close>

lemma partial_fills_order:
  "\<not> is_filled (fill_order (min (remaining a) (remaining b)) b) \<Longrightarrow> is_filled (fill_order (min (remaining a) (remaining b)) a)"
  by (auto simp: is_filled_remaining min_def split: if_splits)

lemma fill_queue_stop: "is_filled order \<or> \<not> can_match order (the (io_price r)) \<Longrightarrow> fill_queue order (r # rs) = (order, [], r # rs)"
  by simp

lemma fill_queue_go:
  assumes "\<not> is_filled order" and "can_match order (the (io_price r))"
  defines "q \<equiv> min (remaining order) (remaining r)"
  shows "fill_queue order (r # rs) = (if is_filled (fill_order q r)
      then (case fill_queue (fill_order q order) rs of (o1, fs, rs') \<Rightarrow> (o1, (r, q) # fs, rs'))
      else (fill_order q order, [(r, q)], fill_order q r # rs))"
  using assms by (simp add: Let_def)

declare fill_queue.simps(2) [simp del]

text \<open>The three ways a call goes.\<close>

lemma fill_queue_induct [consumes 1, case_names stop fill part]:
  assumes "fill_queue order rs = (o1, fs, rs')"
    and "\<And>order rs. rs = [] \<or> is_filled order \<or> \<not> can_match order (the (io_price (hd rs))) \<Longrightarrow> P order rs order [] rs"
    and "\<And>order r rs q o1 fs rs'. \<not> is_filled order \<Longrightarrow> can_match order (the (io_price r)) \<Longrightarrow>
      q = min (remaining order) (remaining r) \<Longrightarrow> is_filled (fill_order q r) \<Longrightarrow> fill_queue (fill_order q order) rs = (o1, fs, rs') \<Longrightarrow>
      P (fill_order q order) rs o1 fs rs' \<Longrightarrow> P order (r # rs) o1 ((r, q) # fs) rs'"
    and "\<And>order r rs q. \<not> is_filled order \<Longrightarrow> can_match order (the (io_price r)) \<Longrightarrow>
      q = min (remaining order) (remaining r) \<Longrightarrow> \<not> is_filled (fill_order q r) \<Longrightarrow> is_filled (fill_order q order) \<Longrightarrow>
      P order (r # rs) (fill_order q order) [(r, q)] (fill_order q r # rs)"
  shows "P order rs o1 fs rs'"
  using assms(1)
proof (induction rs arbitrary: order o1 fs rs')
  case Nil
  then show ?case using assms(2)[of "[]" o1] by simp
next
  case (Cons r rs)
  let ?q = "min (remaining order) (remaining r)"
  show ?case
  proof (cases "is_filled order \<or> \<not> can_match order (the (io_price r))")
    case True
    then have "o1 = order" "fs = []" "rs' = r # rs" using Cons.prems by (simp_all add: fill_queue_stop)
    with True show ?thesis by (simp add: assms(2))
  next
    case False
    show ?thesis
    proof (cases "is_filled (fill_order ?q r)")
      case True
      obtain gs where g: "fill_queue (fill_order ?q order) rs = (o1, gs, rs')" "fs = (r, ?q) # gs"
        using Cons.prems False True by (auto simp: fill_queue_go split: prod.splits)
      show ?thesis unfolding g(2) by (rule assms(3)[OF _ _ refl True g(1) Cons.IH[OF g(1)]]) (use False in simp_all)
    next
      case part: False
      have e: "o1 = fill_order ?q order" "fs = [(r, ?q)]" "rs' = fill_order ?q r # rs"
        using Cons.prems False part by (simp_all add: fill_queue_go)
      show ?thesis unfolding e by (rule assms(4)[OF _ _ refl part partial_fills_order[OF part]]) (use False in simp_all)
    qed
  qed
qed

lemma fill_queue_fields:
  assumes "fill_queue order rs = (o1, fs, rs')"
  shows "io_side o1 = io_side order" and "io_price o1 = io_price order" and "can_match o1 p = can_match order p"
    and "trades_of stamp n o1 gs = trades_of stamp n order gs"
    and "io_id o1 = io_id order" and "io_quantity o1 = io_quantity order" and "io_time_in_force o1 = io_time_in_force order"
  using assms by (induction rule: fill_queue_induct) simp_all

lemma fill_queue_append:
  "fill_queue order (xs @ ys) = (case fill_queue order xs of (o1, fs, xs') \<Rightarrow>
     if xs' = [] then (case fill_queue o1 ys of (o2, gs, ys') \<Rightarrow> (o2, fs @ gs, ys')) else (o1, fs, xs' @ ys))"
proof (induction xs arbitrary: order)
  case (Cons x xs)
  show ?case
  proof (cases "is_filled order \<or> \<not> can_match order (the (io_price x))")
    case True
    then show ?thesis by (simp add: fill_queue_stop)
  next
    case False
    then show ?thesis using Cons.IH by (auto simp: fill_queue_go split: prod.split)
  qed
qed (auto split: prod.split)

lemma fill_queue_filled: "is_filled order \<Longrightarrow> fill_queue order rs = (order, [], rs)"
  by (cases rs) (simp_all add: fill_queue_stop)

lemma match_level_filled: "is_filled order \<Longrightarrow> match_level stamp price order trades idx rs = (order, trades, idx, rs)"
  by (cases rs) simp_all

text \<open>The inner loop walks on after the incoming order is filled, and changes nothing.\<close>

lemma match_level_fill:
  assumes "\<forall>r\<in>set rs. io_price r = Some price" and "can_match order price" and "fill_queue order rs = (o1, fs, rs')"
  shows "match_level stamp price order trades idx rs =
    (o1, trades @ trades_of stamp (length trades) order fs, drop_filled fs idx, rs')"
  using assms
proof (induction stamp price order trades idx rs arbitrary: fs rs' o1 rule: match_level.induct)
  case (2 stamp price order trades idx r rs)
  show ?case
  proof (cases "is_filled order")
    case True
    with "2.prems" show ?thesis by (auto simp: fill_queue_stop)
  next
    case False
    let ?q = "min (remaining order) (remaining r)"
    let ?t = "trades @ [make_trade stamp (length trades) order r price ?q]"
    have r: "io_price r = Some price" using "2.prems"(1) by simp
    show ?thesis
    proof (cases "is_filled (fill_order ?q r)")
      case filled: True
      obtain gs where g: "fill_queue (fill_order ?q order) rs = (o1, gs, rs')" "fs = (r, ?q) # gs"
        using "2.prems"(2,3) False filled r by (auto simp: fill_queue_go split: prod.splits)
      let ?ix = "if is_filled (fill_order ?q r) then idx(io_id r := None) else idx"
      have "match_level stamp price (fill_order ?q order) ?t ?ix rs =
          (o1, ?t @ trades_of stamp (length ?t) (fill_order ?q order) gs, drop_filled gs ?ix, rs')"
        by (rule "2.IH"[OF False refl refl refl refl refl, folded fill_order_def, OF _ _ g(1)])
           (use "2.prems"(1,2) in simp_all)
      with False filled g(2) r show ?thesis by (simp add: Let_def fill_order_def[symmetric])
    next
      case open1: False
      then have f: "is_filled (fill_order ?q order)" by (rule partial_fills_order)
      have "o1 = fill_order ?q order" "fs = [(r, ?q)]" "rs' = fill_order ?q r # rs"
        using "2.prems"(2,3) False open1 r by (simp_all add: fill_queue_go)
      with False open1 r show ?thesis
        by (simp add: Let_def fill_order_def[symmetric] match_level_filled[OF f])
    qed
  qed
qed simp

section \<open>Well-formed sides\<close>

text \<open>The levels of a side are sorted and not empty; their orders have the price of the level and are open.\<close>

definition open_order :: "side \<Rightarrow> 'd \<Rightarrow> 'd::linordered_ab_group_add internal_order \<Rightarrow> bool" where
  "open_order s p r \<longleftrightarrow> io_price r = Some p \<and> io_side r = s \<and> 0 < remaining r"

definition side_ok :: "side \<Rightarrow> 'd::linordered_ab_group_add levels \<Rightarrow> bool" where
  "side_ok s ls \<longleftrightarrow> sorted_wrt (\<lambda>a b. level_before s (fst a) (fst b)) ls \<and>
     (\<forall>(p, rs)\<in>set ls. rs \<noteq> [] \<and> (\<forall>r\<in>set rs. open_order s p r))"

lemma side_ok_simps [simp]:
  "side_ok s []"
  "side_ok s ((p, rs) # ls) \<longleftrightarrow> (\<forall>l\<in>set ls. level_before s p (fst l)) \<and> rs \<noteq> [] \<and> (\<forall>r\<in>set rs. open_order s p r) \<and> side_ok s ls"
  by (auto simp: side_ok_def)

lemma open_order_not_filled [simp]: "open_order s p r \<Longrightarrow> \<not> is_filled r"
  by (simp add: open_order_def is_filled_remaining not_le)

lemma open_order_fill: "open_order s p r \<Longrightarrow> \<not> is_filled (fill_order q r) \<Longrightarrow> open_order s p (fill_order q r)"
  by (simp only: open_order_def is_filled_remaining not_le fill_order_fields)

lemma fill_queue_open:
  assumes "fill_queue order rs = (o1, fs, rs')" and "\<forall>r\<in>set rs. open_order s p r"
  shows "\<forall>r\<in>set rs'. open_order s p r"
  using assms
proof (induction rule: fill_queue_induct)
  case (part order r rs q)
  then show ?case using open_order_fill[of s p r q] by simp
qed simp_all

lemma fill_queue_stops:
  assumes "fill_queue order rs = (o1, fs, rs')" and "rs' \<noteq> []"
  shows "is_filled o1 \<or> \<not> can_match order (the (io_price (hd rs')))"
  using assms by (induction rule: fill_queue_induct) auto

text \<open>Matching level by level is matching the queue.\<close>

lemma match_levels_fill:
  assumes "side_ok s ls" and "match_levels stamp order trades idx ls = (o1, ts, ix, ls')"
  shows "\<exists>fs. fill_queue order (queue ls) = (o1, fs, queue ls') \<and> ts = trades @ trades_of stamp (length trades) order fs \<and>
    ix = drop_filled fs idx \<and> side_ok s ls' \<and> set (map fst ls') \<subseteq> set (map fst ls)"
  using assms
proof (induction stamp order trades idx ls arbitrary: o1 ts ix ls' rule: match_levels.induct)
  case (2 stamp order trades idx price rs ls)
  have rs: "rs \<noteq> []" "\<forall>r\<in>set rs. open_order s price r" "\<forall>l\<in>set ls. level_before s price (fst l)" and ok: "side_ok s ls"
    using "2.prems"(1) by simp_all
  then have price: "\<forall>r\<in>set rs. io_price r = Some price" by (auto simp: open_order_def)
  show ?case
  proof (cases "is_filled order \<or> \<not> can_match order price")
    case True
    moreover have "fill_queue order (rs @ queue ls) = (order, [], rs @ queue ls)"
      using True rs(1) price by (cases rs) (auto simp: fill_queue_stop)
    ultimately show ?thesis using "2.prems" by (intro exI[of _ "[]"]) auto
  next
    case False
    obtain a fs rs' where f: "fill_queue order rs = (a, fs, rs')" using prod_cases3 by blast
    have m: "match_level stamp price order trades idx rs =
        (a, trades @ trades_of stamp (length trades) order fs, drop_filled fs idx, rs')"
      by (rule match_level_fill[OF price _ f]) (use False in simp)
    let ?t = "trades @ trades_of stamp (length trades) order fs"
    obtain ls2 where l2: "match_levels stamp a ?t (drop_filled fs idx) ls = (o1, ts, ix, ls2)"
      and ls': "ls' = (if rs' = [] then ls2 else (price, rs') # ls2)"
      using "2.prems"(2) False m by (auto split: prod.splits)
    have "\<exists>gs. fill_queue a (queue ls) = (o1, gs, queue ls2) \<and> ts = ?t @ trades_of stamp (length ?t) a gs \<and>
        ix = drop_filled gs (drop_filled fs idx) \<and> side_ok s ls2 \<and> set (map fst ls2) \<subseteq> set (map fst ls)"
      by (rule "2.IH"[OF False m[symmetric] refl refl ok l2])
    then obtain gs where g: "fill_queue a (queue ls) = (o1, gs, queue ls2)" "ts = ?t @ trades_of stamp (length ?t) a gs"
        "ix = drop_filled gs (drop_filled fs idx)" "side_ok s ls2" "set (map fst ls2) \<subseteq> set (map fst ls)"
      by blast
    show ?thesis
    proof (cases "rs' = []")
      case True
      then have "fill_queue order (rs @ queue ls) = (o1, fs @ gs, queue ls')"
        using f g(1) ls' by (simp add: fill_queue_append)
      then show ?thesis using g ls' True fill_queue_fields(4)[OF f] by (intro exI[of _ "fs @ gs"]) auto
    next
      case rest: False
      have "hd rs' \<in> set rs'" using rest by simp
      then have "io_price (hd rs') = Some price" using fill_queue_open[OF f rs(2)] by (auto simp: open_order_def)
      then have "is_filled a" using fill_queue_stops[OF f rest] False by auto
      then have e: "o1 = a" "gs = []" "queue ls2 = queue ls" using g(1) fill_queue_filled[of a "queue ls"] by auto
      have "fill_queue order (rs @ queue ls) = (o1, fs, queue ls')"
        using f ls' rest e by (simp add: fill_queue_append)
      moreover have "side_ok s ls'" using ls' rest g(4,5) rs(3) fill_queue_open[OF f rs(2)] by fastforce
      ultimately show ?thesis using g ls' rest e by (intro exI[of _ fs]) auto
    qed
  qed
qed auto

end
