(* ===== verification/Api_Engine.thy ===== *)
theory Api_Engine
  imports Api_Order_Book "HOL-Library.Multiset" "HOL-Library.AList"
begin

text \<open>
  What the order book guarantees: matching takes a prefix of the price-time queue and accounts for every unit; the book
  stays sorted, uncrossed and in agreement with its index.
  Then \<open>api-server/src/matching/engine.rs\<close>: the engine, which owns one book per pair.
\<close>

section \<open>What a match takes\<close>

lemma fill_queue_prefix:
  assumes "fill_queue order rs = (o1, fs, rs')"
  shows "map fst fs = take (length fs) rs"
    and "rs' = drop (length fs) rs \<or>
      (fs \<noteq> [] \<and> is_filled o1 \<and> rs' = fill_order (snd (last fs)) (fst (last fs)) # drop (length fs) rs)"
  using assms by (induction rule: fill_queue_induct) auto

lemma fill_queue_filled_quantity:
  assumes "fill_queue order rs = (o1, fs, rs')"
  shows "io_filled o1 = io_filled order + sum_list (map snd fs)"
  using assms by (induction rule: fill_queue_induct) (simp_all add: add.assoc)

lemma fill_queue_resting_quantity:
  assumes "fill_queue order rs = (o1, fs, rs')"
  shows "sum_list (map remaining rs) = sum_list (map remaining rs') + sum_list (map snd fs)"
  using assms
proof (induction rule: fill_queue_induct)
  case (fill order r rs q o1 fs rs')
  then have "q = remaining r" by (auto simp: is_filled_remaining min_def split: if_splits)
  with fill.IH show ?case by (simp add: algebra_simps)
qed (simp_all add: algebra_simps)

lemma fill_queue_bounds:
  assumes "fill_queue order rs = (o1, fs, rs')" and "\<forall>r\<in>set rs. 0 < remaining r"
  shows "\<forall>(r, q)\<in>set fs. 0 < q \<and> q \<le> remaining r \<and> can_match order (the (io_price r))"
  using assms by (induction rule: fill_queue_induct) (auto simp: is_filled_remaining not_le)

lemma fill_queue_not_overfilled:
  assumes "fill_queue order rs = (o1, fs, rs')" and "0 \<le> remaining order"
  shows "0 \<le> remaining o1"
  using assms by (induction rule: fill_queue_induct) simp_all

section \<open>Ids and index\<close>

definition filled_ids :: "'d::linordered_ab_group_add fills \<Rightarrow> order_id set" where
  "filled_ids fs = (\<lambda>(r, q). io_id r) ` {(r, q). (r, q) \<in> set fs \<and> is_filled (fill_order q r)}"

lemma filled_ids_simps [simp]:
  "filled_ids [] = {}"
  "filled_ids ((r, q) # fs) = (if is_filled (fill_order q r) then insert (io_id r) (filled_ids fs) else filled_ids fs)"
  by (auto simp: filled_ids_def)

lemma drop_filled_apply: "drop_filled fs idx i = (if i \<in> filled_ids fs then None else idx i)"
  by (induction fs idx rule: drop_filled.induct) auto

definition entry :: "'d internal_order \<Rightarrow> side \<times> 'd" where
  "entry r = (io_side r, the (io_price r))"

lemma entry_fill [simp]: "entry (fill_order q r) = entry r"
  by (simp add: entry_def)

definition index_ok :: "'d::linordered_ab_group_add order_index \<Rightarrow> 'd internal_order list \<Rightarrow> bool" where
  "index_ok idx rs \<longleftrightarrow> (\<forall>i v. idx i = Some v \<longleftrightarrow> (\<exists>r\<in>set rs. io_id r = i \<and> v = entry r))"

lemma not_image_iff: "x \<notin> f ` A \<longleftrightarrow> (\<forall>y\<in>A. f y \<noteq> x)"
  by auto

lemma filled_ids_subset: "fill_queue order rs = (o1, fs, rs') \<Longrightarrow> filled_ids fs \<subseteq> io_id ` set rs"
  by (induction rule: fill_queue_induct) auto

lemma fill_queue_ids:
  assumes "fill_queue order rs = (o1, fs, rs')"
  shows "distinct (map io_id rs) \<Longrightarrow> distinct (map io_id rs')"
    and "io_id ` set rs' \<subseteq> io_id ` set rs"
    and "distinct (map io_id rs) \<Longrightarrow> (\<exists>r\<in>set rs'. io_id r = i \<and> v = entry r) \<longleftrightarrow>
      i \<notin> filled_ids fs \<and> (\<exists>r\<in>set rs. io_id r = i \<and> v = entry r)"
proof -
  show "distinct (map io_id rs')" if "distinct (map io_id rs)"
    using assms that by (induction rule: fill_queue_induct) auto
  show "io_id ` set rs' \<subseteq> io_id ` set rs"
    using assms by (induction rule: fill_queue_induct) auto
  show "(\<exists>r\<in>set rs'. io_id r = i \<and> v = entry r) \<longleftrightarrow> i \<notin> filled_ids fs \<and> (\<exists>r\<in>set rs. io_id r = i \<and> v = entry r)"
    if "distinct (map io_id rs)"
    using assms that
  proof (induction rule: fill_queue_induct)
    case (fill order r rs q o1 fs rs')
    then have r: "\<forall>x\<in>set rs. io_id x \<noteq> io_id r" and d: "distinct (map io_id rs)"
      by (simp_all add: not_image_iff)
    show ?case unfolding fill.IH[OF d]
      using r \<open>is_filled (fill_order q r)\<close> by (cases "i = io_id r") auto
  qed auto
qed

section \<open>The invariant of a book\<close>

definition book_orders :: "'d order_book \<Rightarrow> 'd internal_order list" where
  "book_orders book = queue (ob_bids book) @ queue (ob_asks book)"

definition book_ok :: "'d::linordered_ab_group_add order_book \<Rightarrow> bool" where
  "book_ok book \<longleftrightarrow> side_ok Buy (ob_bids book) \<and> side_ok Sell (ob_asks book) \<and> distinct (map io_id (book_orders book)) \<and>
     index_ok (ob_index book) (book_orders book) \<and> (\<forall>b\<in>set (ob_bids book). \<forall>a\<in>set (ob_asks book). fst b < fst a)"

lemma book_ok_new: "book_ok (book_new pair)"
  by (simp add: book_ok_def book_new_def book_orders_def index_ok_def)

lemma book_ok_side: "book_ok book \<Longrightarrow> side_ok s (levels_of s book)"
  by (cases s) (simp_all add: book_ok_def)

lemma set_levels_simps [simp]:
  "levels_of s (set_levels s ls book) = ls" "ob_index (set_levels s ls book) = ob_index book"
  "levels_of (other_side s) (set_levels s ls book) = levels_of (other_side s) book"
  "levels_of s (book\<lparr>ob_index := ix\<rparr>) = levels_of s book" "ob_pair_id (set_levels s ls book) = ob_pair_id book"
  "levels_of s (set_levels (other_side s) ls book) = levels_of s book"
  by (cases s; simp)+

lemma other_side_other [simp]: "other_side (other_side s) = s"
  by (cases s) simp_all

text \<open>The invariant said of one side and its opposite.\<close>

definition uncrossed :: "side \<Rightarrow> 'd::linordered_ab_group_add levels \<Rightarrow> 'd levels \<Rightarrow> bool" where
  "uncrossed s ls ms \<longleftrightarrow> (\<forall>l\<in>set ls. \<forall>m\<in>set ms. level_before (other_side s) (fst l) (fst m))"

lemma book_ok_sides:
  "book_ok book \<longleftrightarrow> side_ok s (levels_of s book) \<and> side_ok (other_side s) (levels_of (other_side s) book) \<and>
     distinct (map io_id (queue (levels_of s book) @ queue (levels_of (other_side s) book))) \<and>
     index_ok (ob_index book) (queue (levels_of s book) @ queue (levels_of (other_side s) book)) \<and>
     uncrossed s (levels_of s book) (levels_of (other_side s) book)"
proof (cases s)
  case Buy
  then show ?thesis by (auto simp: book_ok_def book_orders_def uncrossed_def)
next
  case Sell
  have "index_ok ix (xs @ ys) = index_ok ix (ys @ xs)" for ix and xs ys :: "'a internal_order list"
    by (simp add: index_ok_def Un_commute)
  then show ?thesis using Sell by (auto simp: book_ok_def book_orders_def uncrossed_def)
qed

text \<open>Matching against a side.\<close>

lemma match_against_book_fill:
  assumes ok: "book_ok book" and m: "match_against_book stamp order book = (o1, ts, book')"
  defines "s \<equiv> other_side (io_side order)"
  obtains fs where "fill_queue order (queue (levels_of s book)) = (o1, fs, queue (levels_of s book'))"
    and "ts = trades_of stamp 0 order fs" and "book_ok book'"
    and "levels_of (io_side order) book' = levels_of (io_side order) book"
    and "ob_index book' = drop_filled fs (ob_index book)"
proof -
  obtain ix ls where ml: "match_levels stamp order [] (ob_index book) (levels_of s book) = (o1, ts, ix, ls)"
    and b': "book' = set_levels s ls (book\<lparr>ob_index := ix\<rparr>)"
    using m by (auto simp: match_against_book_def Let_def s_def split: prod.splits)
  have side: "side_ok s (levels_of s book)" using ok by (rule book_ok_side)
  from match_levels_fill[OF side ml] obtain fs where f: "fill_queue order (queue (levels_of s book)) = (o1, fs, queue ls)"
    "ts = trades_of stamp 0 order fs" "ix = drop_filled fs (ob_index book)" "side_ok s ls"
    "set (map fst ls) \<subseteq> set (map fst (levels_of s book))"
    by auto
  have lev: "levels_of s book' = ls" "levels_of (other_side s) book' = levels_of (other_side s) book" "ob_index book' = ix"
    by (simp_all add: b')
  note B = ok[unfolded book_ok_sides[of book s]]
  have d: "distinct (map io_id (queue (levels_of s book)))" using B by simp
  have "distinct (map io_id (queue ls @ queue (levels_of (other_side s) book)))"
    using B fill_queue_ids(1,2)[OF f(1)] by (auto simp: image_iff subset_iff)
  moreover have "index_ok ix (queue ls @ queue (levels_of (other_side s) book))"
  proof -
    have "filled_ids fs \<subseteq> io_id ` set (queue (levels_of s book))" by (rule filled_ids_subset[OF f(1)])
    then have o: "io_id r \<notin> filled_ids fs" if "r \<in> set (queue (levels_of (other_side s) book))" for r
      using B that by (auto simp: image_iff subset_iff)
    have i: "ob_index book i = Some v \<longleftrightarrow> (\<exists>r\<in>set (queue (levels_of s book)) \<union> set (queue (levels_of (other_side s) book)).
        io_id r = i \<and> v = entry r)" for i v
    proof -
      have "index_ok (ob_index book) (queue (levels_of s book) @ queue (levels_of (other_side s) book))"
        using B by blast
      then show ?thesis unfolding index_ok_def set_append by blast
    qed
    show ?thesis unfolding index_ok_def f(3) drop_filled_apply set_append bex_Un fill_queue_ids(3)[OF f(1) d]
      using i o by (auto split: if_splits)
  qed
  moreover have "uncrossed s ls (levels_of (other_side s) book)"
    unfolding uncrossed_def
  proof (intro ballI)
    fix l m assume l: "l \<in> set ls" and m: "m \<in> set (levels_of (other_side s) book)"
    from l f(5) obtain k where "k \<in> set (levels_of s book)" "fst k = fst l" by auto
    moreover have "uncrossed s (levels_of s book) (levels_of (other_side s) book)" using B by blast
    ultimately show "level_before (other_side s) (fst l) (fst m)" using m unfolding uncrossed_def by metis
  qed
  ultimately have "book_ok book'" using B f(4) lev by (simp add: book_ok_sides[of book' s])
  moreover have "fill_queue order (queue (levels_of s book)) = (o1, fs, queue (levels_of s book'))"
    using f(1) lev(1) by simp
  moreover have "levels_of (io_side order) book' = levels_of (io_side order) book" using lev(2) by (simp add: s_def)
  moreover have "ob_index book' = drop_filled fs (ob_index book)" using lev(3) f(3) by simp
  ultimately show thesis using f(2) that by blast
qed

text \<open>What is left after an incoming order that is not filled cannot be matched by it.\<close>

lemma level_before_trans: "level_before s p q \<Longrightarrow> level_before s q r \<Longrightarrow> level_before s p r"
  by (cases s) auto

lemma match_exhausts:
  assumes f: "fill_queue order (queue ls) = (o1, fs, queue ls')" and ok: "side_ok (other_side (io_side order)) ls'"
    and open1: "\<not> is_filled o1" and price: "io_price order = Some p" and l: "l \<in> set ls'"
  shows "level_before (io_side order) (fst l) p"
proof -
  obtain q rs ms where ls': "ls' = (q, rs) # ms" using l by (cases ls') auto
  then have rs: "rs \<noteq> []" "\<forall>r\<in>set rs. io_price r = Some q" "\<forall>m\<in>set ms. level_before (other_side (io_side order)) q (fst m)"
    using ok by (auto simp: open_order_def)
  then have "the (io_price (hd (queue ls'))) = q" by (cases rs) (simp_all add: ls')
  then have n: "\<not> can_match order q" using fill_queue_stops[OF f] open1 rs(1) by (simp add: ls')
  have "\<not> (case io_side order of Buy \<Rightarrow> q \<le> p | Sell \<Rightarrow> p \<le> q)" using n price by (simp add: can_match_def)
  then have "level_before (other_side (io_side order)) p q" by (cases "io_side order") (simp_all add: not_le)
  moreover have "l = (q, rs) \<or> level_before (other_side (io_side order)) q (fst l)" using l rs(3) ls' by auto
  ultimately have "level_before (other_side (io_side order)) p (fst l)" using level_before_trans by fastforce
  then show ?thesis by (cases "io_side order") simp_all
qed

section \<open>Resting orders\<close>

text \<open>A new resting order stands behind all orders of its price or a better one, and before all others.\<close>

lemma push_level_queue:
  assumes "side_ok s ls" and "open_order s p order"
  shows "\<exists>as bs. queue ls = as @ bs \<and> queue (push_level s p order ls) = as @ order # bs \<and>
    (\<forall>r\<in>set as. \<not> level_before s p (the (io_price r))) \<and> (\<forall>r\<in>set bs. level_before s p (the (io_price r)))"
  using assms
proof (induction ls)
  case (Cons l ls)
  obtain q rs where l: "l = (q, rs)" by (cases l)
  have prices: "\<forall>r\<in>set rs. the (io_price r) = q" using Cons.prems l by (auto simp: open_order_def)
  have later: "level_before s q (the (io_price r))" if "r \<in> set (queue ls)" for r
    using that Cons.prems(1) l by (force simp: queue_def side_ok_def open_order_def)
  consider "q = p" | "q \<noteq> p" "level_before s p q" | "q \<noteq> p" "\<not> level_before s p q" by blast
  then show ?case
  proof cases
    case 1
    have "\<not> level_before s p p" by (cases s) auto
    with 1 l prices later show ?thesis by (intro exI[of _ rs] exI[of _ "queue ls"]) auto
  next
    case 2
    have "level_before s p (the (io_price r))" if "r \<in> set (rs @ queue ls)" for r
      using that prices later 2 level_before_trans[of s p q] by auto
    with 2 l show ?thesis by (intro exI[of _ "[]"] exI[of _ "rs @ queue ls"]) auto
  next
    case 3
    obtain as bs where ab: "queue ls = as @ bs" "queue (push_level s p order ls) = as @ order # bs"
      "\<forall>r\<in>set as. \<not> level_before s p (the (io_price r))" "\<forall>r\<in>set bs. level_before s p (the (io_price r))"
      using Cons l by auto
    with 3 l prices show ?thesis by (intro exI[of _ "rs @ as"] exI[of _ bs]) auto
  qed
qed simp

lemma push_level_fst: "fst ` set (push_level s p order ls) = insert p (fst ` set ls)"
proof (induction ls)
  case (Cons l ls)
  then show ?case by (cases l) (simp add: insert_commute)
qed simp

lemma push_level_ok:
  assumes "side_ok s ls" and "open_order s p order"
  shows "side_ok s (push_level s p order ls)"
  using assms
proof (induction ls)
  case (Cons l ls)
  obtain q rs where l: "l = (q, rs)" by (cases l)
  have q: "\<forall>m\<in>set ls. level_before s q (fst m)" "rs \<noteq> []" "\<forall>r\<in>set rs. open_order s q r" "side_ok s ls"
    using Cons.prems(1) l by simp_all
  have IH: "side_ok s (push_level s p order ls)" using Cons.IH[OF q(4) Cons.prems(2)] .
  consider "q = p" | "q \<noteq> p" "level_before s p q" | "q \<noteq> p" "\<not> level_before s p q" by blast
  then show ?case
  proof cases
    case 1
    then show ?thesis using q Cons.prems(2) l by auto
  next
    case 2
    then have "\<forall>m\<in>set ls. level_before s p (fst m)" using q(1) level_before_trans[OF 2(2)] by blast
    then show ?thesis using q 2 Cons.prems(2) l by simp
  next
    case 3
    then have "level_before s q p" by (cases s) auto
    then have "\<forall>m\<in>set (push_level s p order ls). level_before s q (fst m)"
      using q(1) push_level_fst[of s p order ls] by (metis (no_types, lifting) image_iff insert_iff)
    then show ?thesis using IH q 3 l by simp
  qed
qed simp

lemma insert_resting_ok:
  assumes ok: "book_ok book" and o: "open_order (io_side order) p order" and fresh: "io_id order \<notin> io_id ` set (book_orders book)"
    and un: "\<And>l. l \<in> set (levels_of (other_side (io_side order)) book) \<Longrightarrow> level_before (io_side order) (fst l) p"
    and ins: "insert_resting_order order book = Some book'"
  shows "book_ok book'"
proof -
  define s where "s = io_side order"
  let ?ls = "levels_of s book" and ?ms = "levels_of (other_side s) book"
  have pr: "io_price order = Some p" using o by (simp add: open_order_def)
  have b': "levels_of s book' = push_level s p order ?ls" "levels_of (other_side s) book' = ?ms"
    "ob_index book' = (ob_index book)(io_id order \<mapsto> entry order)"
    using ins pr by (auto simp: insert_resting_order_def s_def Let_def entry_def)
  note B = ok[unfolded book_ok_sides[of book s]]
  have o': "open_order s p order" using o by (simp add: s_def)
  have side: "side_ok s (push_level s p order ?ls)" using B o' by (intro push_level_ok) simp_all
  obtain as bs where q: "queue ?ls = as @ bs" "queue (push_level s p order ?ls) = as @ order # bs"
    using push_level_queue[of s ?ls p order] B o' by auto
  have fr: "io_id order \<notin> io_id ` set (as @ bs @ queue ?ms)"
    using fresh q(1) by (cases s) (auto simp: book_orders_def s_def)
  then have "distinct (map io_id (queue (push_level s p order ?ls) @ queue ?ms))"
    using B q by auto
  moreover have "index_ok ((ob_index book)(io_id order \<mapsto> entry order)) (queue (push_level s p order ?ls) @ queue ?ms)"
  proof -
    have i: "index_ok (ob_index book) (queue ?ls @ queue ?ms)" using B by blast
    have fr': "\<forall>x\<in>set (as @ bs @ queue ?ms). io_id x \<noteq> io_id order" using fr unfolding not_image_iff .
    show ?thesis unfolding index_ok_def
    proof (intro allI)
      fix i v
      have "ob_index book i = Some v \<longleftrightarrow> (\<exists>r\<in>set (queue ?ls @ queue ?ms). io_id r = i \<and> v = entry r)"
        using i unfolding index_ok_def by blast
      then show "((ob_index book)(io_id order \<mapsto> entry order)) i = Some v \<longleftrightarrow>
          (\<exists>r\<in>set (queue (push_level s p order ?ls) @ queue ?ms). io_id r = i \<and> v = entry r)"
        using q fr' by (cases "i = io_id order") auto
    qed
  qed
  moreover have "uncrossed s (push_level s p order ?ls) ?ms"
    unfolding uncrossed_def
  proof (intro ballI)
    fix l m assume l: "l \<in> set (push_level s p order ?ls)" and m: "m \<in> set ?ms"
    have "fst l = p \<or> fst l \<in> fst ` set ?ls" using l push_level_fst[of s p order ?ls] by fast
    moreover have "level_before (other_side s) p (fst m)" using un[of m] m by (cases s) (simp_all add: s_def[symmetric])
    moreover have "level_before (other_side s) (fst l) (fst m)" if "fst l \<in> fst ` set ?ls"
      using B that m by (auto simp: uncrossed_def)
    ultimately show "level_before (other_side s) (fst l) (fst m)" by auto
  qed
  ultimately show ?thesis using B side b' by (simp add: book_ok_sides[of book' s])
qed

section \<open>Submitting\<close>

lemma order_not_in_queue:
  "fill_queue order rs = (o1, fs, rs') \<Longrightarrow> io_id o1 = io_id order"
  by (rule fill_queue_fields)

text \<open>A call of \<open>submit_order\<close> matches first, or not at all when a limit order has no price.\<close>

definition matches :: "'d internal_order \<Rightarrow> bool" where
  "matches order \<longleftrightarrow> io_type order = MarketOrder \<or> io_price order \<noteq> None"

definition matched :: "(nat \<Rightarrow> 128 word \<times> int) \<Rightarrow> 'd::linordered_ab_group_add internal_order \<Rightarrow> 'd order_book \<Rightarrow>
    'd internal_order \<times> 'd matched_trade list \<times> 'd order_book" where
  "matched stamp order book = (if matches order then match_against_book stamp order book else (order, [], book))"

lemma matchedE:
  assumes ok: "book_ok book" and m: "matched stamp order book = (o1, ts, book')"
  obtains fs where "matches order \<Longrightarrow> fill_queue order (queue (levels_of (other_side (io_side order)) book)) =
      (o1, fs, queue (levels_of (other_side (io_side order)) book'))"
    and "\<not> matches order \<Longrightarrow> o1 = order \<and> fs = [] \<and> book' = book"
    and "ts = trades_of stamp 0 order fs" and "book_ok book'"
    and "levels_of (io_side order) book' = levels_of (io_side order) book"
    and "ob_index book' = drop_filled fs (ob_index book)"
    and "io_side o1 = io_side order" and "io_price o1 = io_price order" and "io_id o1 = io_id order"
    and "io_quantity o1 = io_quantity order" and "io_time_in_force o1 = io_time_in_force order"
    and "io_filled o1 = io_filled order + sum_list (map snd fs)" and "0 \<le> remaining order \<Longrightarrow> 0 \<le> remaining o1"
proof (cases "matches order")
  case True
  then have "match_against_book stamp order book = (o1, ts, book')" using m by (simp add: matched_def)
  from match_against_book_fill[OF ok this] obtain fs where
    f: "fill_queue order (queue (levels_of (other_side (io_side order)) book)) =
      (o1, fs, queue (levels_of (other_side (io_side order)) book'))"
    and r: "ts = trades_of stamp 0 order fs" "book_ok book'"
    "levels_of (io_side order) book' = levels_of (io_side order) book" "ob_index book' = drop_filled fs (ob_index book)" .
  show thesis
    by (rule that[of fs])
       (use True f r fill_queue_fields[OF f] fill_queue_filled_quantity[OF f] fill_queue_not_overfilled[OF f] in simp_all)
next
  case False
  then have "o1 = order" "ts = []" "book' = book" using m by (simp_all add: matched_def)
  then show thesis by (intro that[of "[]"]) (use False ok in simp_all)
qed

lemma submit_order_matched:
  "submit_order stamp order book = (case matched stamp order book of (o1, ts, book') \<Rightarrow>
     if io_type order = MarketOrder then Some (\<lparr>mr_order_id = io_id o1, mr_status = (if is_filled o1 then Filled else Cancelled),
            mr_trades = ts, mr_remaining = remaining o1\<rparr>, book')
     else if is_filled o1 then Some (\<lparr>mr_order_id = io_id o1, mr_status = Filled, mr_trades = ts, mr_remaining = 0\<rparr>, book')
     else (case io_time_in_force o1 of
         FOK \<Rightarrow> Some (\<lparr>mr_order_id = io_id o1, mr_status = Cancelled, mr_trades = [], mr_remaining = io_quantity o1\<rparr>, book')
       | IOC \<Rightarrow> Some (\<lparr>mr_order_id = io_id o1, mr_status = (if ts = [] then Cancelled else PartiallyFilled),
           mr_trades = ts, mr_remaining = remaining o1\<rparr>, book')
       | GTC \<Rightarrow> map_option (\<lambda>book2. (\<lparr>mr_order_id = io_id o1, mr_status = (if ts = [] then Resting else PartiallyFilled),
               mr_trades = ts, mr_remaining = remaining o1\<rparr>, book2)) (insert_resting_order o1 book')))"
  by (cases "io_type order") (auto simp: submit_order_def matched_def matches_def split: prod.split time_in_force.split option.split)

lemma book_orders_index: "book_ok book \<Longrightarrow> i \<in> io_id ` set (book_orders book) \<longleftrightarrow> ob_index book i \<noteq> None"
proof -
  assume "book_ok book"
  then have ix: "index_ok (ob_index book) (book_orders book)" by (simp add: book_ok_def)
  show ?thesis
  proof
    assume "i \<in> io_id ` set (book_orders book)"
    then obtain r where "r \<in> set (book_orders book)" "io_id r = i" by auto
    then have "ob_index book i = Some (entry r)" using ix unfolding index_ok_def by blast
    then show "ob_index book i \<noteq> None" by simp
  next
    assume "ob_index book i \<noteq> None"
    then obtain v where "ob_index book i = Some v" by blast
    then show "i \<in> io_id ` set (book_orders book)" using ix unfolding index_ok_def by (metis image_eqI)
  qed
qed

lemma submit_order_ok:
  assumes ok: "book_ok book" and fresh: "ob_index book (io_id order) = None"
    and sub: "submit_order stamp order book = Some (res, book')"
  shows "book_ok book'"
proof -
  obtain o1 ts book1 where m: "matched stamp order book = (o1, ts, book1)" using prod_cases3 by blast
  from matchedE[OF ok m] obtain fs where
    fq: "matches order \<Longrightarrow> fill_queue order (queue (levels_of (other_side (io_side order)) book)) =
      (o1, fs, queue (levels_of (other_side (io_side order)) book1))"
    and ok1: "book_ok book1" and ix: "ob_index book1 = drop_filled fs (ob_index book)"
    and o1: "io_side o1 = io_side order" "io_price o1 = io_price order" "io_id o1 = io_id order" by metis
  show ?thesis
  proof (cases "io_type order \<noteq> MarketOrder \<and> \<not> is_filled o1 \<and> io_time_in_force o1 = GTC")
    case False
    then have "book' = book1" using sub by (auto simp: submit_order_matched m split: if_splits time_in_force.splits order_type.splits)
    with ok1 show ?thesis by simp
  next
    case True
    then have ins: "insert_resting_order o1 book1 = Some book'" using sub by (auto simp: submit_order_matched m)
    then obtain p where p: "io_price o1 = Some p" by (auto simp: insert_resting_order_def split: option.splits)
    then have "matches order" using o1(2) by (simp add: matches_def)
    note f = fq[OF this]
    have "io_id o1 \<notin> io_id ` set (book_orders book1)"
      using book_orders_index[OF ok1, of "io_id o1"] fresh by (simp add: ix drop_filled_apply o1(3))
    moreover have "open_order (io_side o1) p o1" using True p by (simp add: open_order_def is_filled_remaining not_le)
    moreover have "level_before (io_side o1) (fst l) p" if "l \<in> set (levels_of (other_side (io_side o1)) book1)" for l
      using match_exhausts[OF f book_ok_side[OF ok1] _ _ that[unfolded o1(1)], of p] True p by (simp add: o1)
    ultimately show ?thesis using insert_resting_ok[OF ok1 _ _ _ ins] by blast
  qed
qed

lemma match_level_price: "io_price (fst (match_level stamp p order ts ix rs)) = io_price order"
  by (induction rs arbitrary: order ts ix) (simp_all add: Let_def split_def)

lemma match_levels_price: "io_price (fst (match_levels stamp order ts ix ls)) = io_price order"
proof (induction ls arbitrary: order ts ix)
  case (Cons l ls)
  then show ?case by (cases l) (simp add: split_def match_level_price)
qed simp

lemma submit_order_panics:
  "submit_order stamp order book = None \<longleftrightarrow>
     io_type order = LimitOrder \<and> io_price order = None \<and> \<not> is_filled order \<and> io_time_in_force order = GTC"
proof -
  have p: "io_price o1 = io_price order" if "match_against_book stamp order book = (o1, ts, b)" for o1 ts b
    using that match_levels_price[of stamp order "[]" "ob_index book" "levels_of (other_side (io_side order)) book"]
    by (auto simp: match_against_book_def Let_def split: prod.splits)
  obtain o1 ts book1 where m: "match_against_book stamp order book = (o1, ts, book1)" using prod_cases3 by blast
  show ?thesis
    using p[OF m]
    by (cases "io_type order"; cases "io_price order")
       (auto simp: submit_order_def m insert_resting_order_def Let_def split: time_in_force.splits)
qed

text \<open>What is reported is what was taken from the book, but for a fill-or-kill order that cannot be filled.\<close>

definition killed :: "'d internal_order \<Rightarrow> 'd match_result \<Rightarrow> bool" where
  "killed order res \<longleftrightarrow> io_type order = LimitOrder \<and> io_time_in_force order = FOK \<and> mr_status res = Cancelled"

lemma quantities_of_trades [simp]: "map mt_quantity (trades_of stamp n order fs) = map snd fs"
  by (induction fs arbitrary: n) (auto simp: make_trade_def Let_def split: side.split prod.split)

lemma submit_order_accounts:
  assumes ok: "book_ok book" and q: "0 \<le> remaining order"
    and sub: "submit_order stamp order book = Some (res, book')" and k: "\<not> killed order res"
  shows "mr_remaining res + sum_list (map mt_quantity (mr_trades res)) = remaining order"
    and "sum_list (map remaining (queue (levels_of (other_side (io_side order)) book))) =
      sum_list (map remaining (queue (levels_of (other_side (io_side order)) book'))) + sum_list (map mt_quantity (mr_trades res))"
proof -
  obtain o1 ts book1 where m: "matched stamp order book = (o1, ts, book1)" using prod_cases3 by blast
  from matchedE[OF ok m] obtain fs where
    fq: "matches order \<Longrightarrow> fill_queue order (queue (levels_of (other_side (io_side order)) book)) =
      (o1, fs, queue (levels_of (other_side (io_side order)) book1))"
    and nf: "\<not> matches order \<Longrightarrow> o1 = order \<and> fs = [] \<and> book1 = book" and ts: "ts = trades_of stamp 0 order fs"
    and o1: "io_filled o1 = io_filled order + sum_list (map snd fs)" "io_quantity o1 = io_quantity order"
      "io_time_in_force o1 = io_time_in_force order" "io_side o1 = io_side order" and nn: "0 \<le> remaining o1" using q by metis
  have rem: "remaining o1 + sum_list (map snd fs) = remaining order" using o1 by (simp add: remaining_def algebra_simps)
  have opp: "sum_list (map remaining (queue (levels_of (other_side (io_side order)) book))) =
      sum_list (map remaining (queue (levels_of (other_side (io_side order)) book1))) + sum_list (map snd fs)"
    using fill_queue_resting_quantity[OF fq] nf by (cases "matches order") simp_all
  have lev: "levels_of (other_side (io_side order)) book' = levels_of (other_side (io_side order)) book1"
  proof (cases "io_type order \<noteq> MarketOrder \<and> \<not> is_filled o1 \<and> io_time_in_force o1 = GTC")
    case True
    then have "insert_resting_order o1 book1 = Some book'" using sub by (auto simp: submit_order_matched m)
    then show ?thesis using o1(4) by (auto simp: insert_resting_order_def Let_def split: option.splits)
  next
    case False
    then have "book' = book1" using sub by (auto simp: submit_order_matched m split: if_splits time_in_force.splits order_type.splits)
    then show ?thesis by simp
  qed
  have res: "mr_trades res = ts \<and> mr_remaining res = remaining o1"
    using sub k nn o1(3)
    by (cases "io_type order") (auto simp: submit_order_matched m killed_def is_filled_remaining
        split: if_splits time_in_force.splits)
  show "mr_remaining res + sum_list (map mt_quantity (mr_trades res)) = remaining order"
    using res rem by (simp add: ts)
  show "sum_list (map remaining (queue (levels_of (other_side (io_side order)) book))) =
      sum_list (map remaining (queue (levels_of (other_side (io_side order)) book'))) + sum_list (map mt_quantity (mr_trades res))"
    using res opp lev by (simp add: ts)
qed

lemma killed_takes_liquidity:
  assumes ok: "book_ok book" and fok: "io_type order = LimitOrder" "io_time_in_force order = FOK" "io_price order = Some p"
    and f: "fill_queue order (queue (levels_of (other_side (io_side order)) book)) = (o1, fs, rs)" and u: "\<not> is_filled o1"
  shows "\<exists>book'. submit_order stamp order book =
      Some (\<lparr>mr_order_id = io_id order, mr_status = Cancelled, mr_trades = [], mr_remaining = io_quantity order\<rparr>, book') \<and>
    queue (levels_of (other_side (io_side order)) book') = rs \<and>
    sum_list (map remaining (queue (levels_of (other_side (io_side order)) book))) = sum_list (map remaining rs) + sum_list (map snd fs)"
proof -
  obtain o2 ts book1 where m: "matched stamp order book = (o2, ts, book1)" using prod_cases3 by blast
  have mt: "matches order" using fok(3) by (simp add: matches_def)
  from matchedE[OF ok m] mt obtain gs where
    "fill_queue order (queue (levels_of (other_side (io_side order)) book)) =
      (o2, gs, queue (levels_of (other_side (io_side order)) book1))" by metis
  then have e: "o2 = o1" "gs = fs" "queue (levels_of (other_side (io_side order)) book1) = rs" using f by simp_all
  show ?thesis
    using fok u fill_queue_fields[OF f] fill_queue_resting_quantity[OF f] e
    by (auto simp: submit_order_matched m)
qed

section \<open>Cancelling\<close>

lemma order_position_Some: "order_position P xs = Some n \<Longrightarrow> n < length xs \<and> P (xs ! n)"
  by (induction P xs arbitrary: n rule: order_position.induct) (auto split: if_splits)

lemma order_position_None: "order_position P xs = None \<longleftrightarrow> (\<forall>x\<in>set xs. \<not> P x)"
  by (induction P xs rule: order_position.induct) auto

lemma level_before_irrefl [simp]: "\<not> level_before s p p"
  by (cases s) simp_all

lemma side_ok_distinct: "side_ok s ls \<Longrightarrow> distinct (map fst ls)"
proof (induction ls)
  case (Cons l ls)
  have "fst k \<noteq> fst l" if "k \<in> set ls" for k
    using Cons.prems that level_before_irrefl[of s "fst l"] by (cases l) auto
  then show ?case using Cons by (cases l) (auto simp: not_image_iff)
qed simp

text \<open>A level is where its price says.\<close>

lemma side_ok_split:
  assumes ok: "side_ok s ls" and m: "map_of ls p = Some rs"
  obtains as bs where "ls = as @ (p, rs) # bs" and "\<forall>l\<in>set (as @ bs). fst l \<noteq> p"
proof -
  obtain as bs where ls: "ls = as @ (p, rs) # bs" using map_of_SomeD[OF m] by (meson split_list)
  have "\<forall>l\<in>set (as @ bs). fst l \<noteq> p"
    using side_ok_distinct[OF ok] unfolding ls by (auto simp: not_image_iff)
  then show thesis using that ls by blast
qed

lemma cancel_order_ok:
  assumes ok: "book_ok book" and c: "cancel_order i book = (r, book')"
  shows "book_ok book'" and "ob_index book' = (ob_index book)(i := None)"
    and "\<exists>v. ob_index book i = Some v \<Longrightarrow> \<exists>o1. r = Some o1 \<and> io_id o1 = i \<and> o1 \<in> set (book_orders book)"
    and "ob_index book i = None \<Longrightarrow> r = None \<and> book' = book"
proof -
  have "book_ok book' \<and> ob_index book' = (ob_index book)(i := None) \<and>
      (\<exists>o1. r = Some o1 \<and> io_id o1 = i \<and> o1 \<in> set (book_orders book))" if v: "ob_index book i = Some v" for v
  proof -
    obtain s p where sp: "v = (s, p)" by (cases v)
    note B = ok[unfolded book_ok_sides[of book s]]
    let ?ls = "levels_of s book" and ?ms = "levels_of (other_side s) book"
    have ix: "index_ok (ob_index book) (queue ?ls @ queue ?ms)" and side: "side_ok s ?ls" "side_ok (other_side s) ?ms"
      using B by blast+
    from ix v obtain o1 where o1: "o1 \<in> set (queue ?ls @ queue ?ms)" "io_id o1 = i" "entry o1 = (s, p)"
      unfolding index_ok_def sp by metis
    have "o1 \<notin> set (queue ?ms)"
    proof
      assume "o1 \<in> set (queue ?ms)"
      then have "io_side o1 = other_side s" using side(2) by (fastforce simp: queue_def side_ok_def open_order_def)
      then show False using o1(3) by (cases s) (simp_all add: entry_def)
    qed
    then obtain q rs where l: "(q, rs) \<in> set ?ls" "o1 \<in> set rs" using o1(1) by (auto simp: queue_def)
    have "open_order s q o1" using l side(1) by (auto simp: side_ok_def)
    then have q: "q = p" using o1(3) by (simp add: entry_def open_order_def)
    have "distinct (map fst ?ls)" by (rule side_ok_distinct[OF side(1)])
    then have m: "map_of ?ls p = Some rs" using l(1) q by simp
    obtain as bs where ls: "?ls = as @ (p, rs) # bs" and other: "\<forall>l\<in>set (as @ bs). fst l \<noteq> p"
      using side_ok_split[OF side(1) m] by metis
    obtain n where n: "order_position (\<lambda>o1. io_id o1 = i) rs = Some n"
      using l(2) o1(2) order_position_None[of "\<lambda>o1. io_id o1 = i" rs] by (cases "order_position (\<lambda>o1. io_id o1 = i) rs") auto
    then have nth: "n < length rs" "io_id (rs ! n) = i" using order_position_Some by fast+
    define rs' where "rs' = remove_at n rs"
    define ls' where "ls' = (if rs' = [] then filter (\<lambda>l. fst l \<noteq> p) ?ls
        else map (\<lambda>l. if fst l = p then (p, rs') else l) ?ls)"
    have res: "r = Some (rs ! n)" "book' = set_levels s ls' (book\<lparr>ob_index := (ob_index book)(i := None)\<rparr>)"
      using c v sp m n rs'_def ls'_def by (auto simp: cancel_order_def Let_def)
    have ls'_eq: "ls' = as @ (if rs' = [] then [] else [(p, rs')]) @ bs"
      using other unfolding ls'_def ls by (auto simp: filter_id_conv map_idI)
    obtain xs ys where rs: "rs = xs @ rs ! n # ys" "rs' = xs @ ys"
      using id_take_nth_drop[OF nth(1)] by (simp add: rs'_def remove_at_def)
    have qs: "queue ?ls = (queue as @ xs) @ rs ! n # (ys @ queue bs)" using ls rs(1) by simp
    have qs': "queue ls' = (queue as @ xs) @ (ys @ queue bs)" using ls'_eq rs(2) by auto
    have lev: "levels_of s book' = ls'" "levels_of (other_side s) book' = ?ms" "ob_index book' = (ob_index book)(i := None)"
      using res(2) by simp_all
    have d: "distinct (map io_id (queue ?ls @ queue ?ms))" using B by blast
    have "side_ok s ls'"
    proof -
      have "set rs' \<subseteq> set rs" by (auto simp: rs'_def remove_at_def dest: in_set_takeD in_set_dropD)
      then show ?thesis using side(1) unfolding ls'_eq ls side_ok_def by (auto simp: sorted_wrt_append)
    qed
    moreover have "distinct (map io_id (queue ls' @ queue ?ms))" using d unfolding qs qs' by auto
    moreover have "index_ok ((ob_index book)(i := None)) (queue ls' @ queue ?ms)"
    proof -
      have gone: "\<forall>x\<in>set (queue ls' @ queue ?ms). io_id x \<noteq> i"
        using d nth(2) unfolding qs qs' by (auto simp: not_image_iff)
      show ?thesis unfolding index_ok_def
      proof (intro allI)
        fix j w
        have "ob_index book j = Some w \<longleftrightarrow> (\<exists>r\<in>set (queue ?ls @ queue ?ms). io_id r = j \<and> w = entry r)"
          using ix unfolding index_ok_def by blast
        then show "((ob_index book)(i := None)) j = Some w \<longleftrightarrow> (\<exists>r\<in>set (queue ls' @ queue ?ms). io_id r = j \<and> w = entry r)"
          using gone nth(2) unfolding qs qs' by (cases "j = i") auto
      qed
    qed
    moreover have "uncrossed s ls' ?ms"
    proof -
      have "uncrossed s ?ls ?ms" using B by blast
      then show ?thesis unfolding uncrossed_def ls'_eq ls by auto
    qed
    ultimately have "book_ok book'" using side(2) lev by (simp add: book_ok_sides[of book' s])
    moreover have "rs ! n \<in> set (book_orders book)" using qs by (cases s) (auto simp: book_orders_def)
    ultimately show ?thesis using res(1) nth(2) lev(3) by simp
  qed
  moreover have none: "r = None \<and> book' = book" if "ob_index book i = None" using c that by (simp add: cancel_order_def)
  ultimately show "book_ok book'" "ob_index book' = (ob_index book)(i := None)"
    "\<exists>v. ob_index book i = Some v \<Longrightarrow> \<exists>o1. r = Some o1 \<and> io_id o1 = i \<and> o1 \<in> set (book_orders book)"
    "ob_index book i = None \<Longrightarrow> r = None \<and> book' = book"
    using ok by (cases "ob_index book i"; fastforce)+
qed

lemma order_count_length: "book_ok book \<Longrightarrow> order_count book = length (book_orders book)"
proof -
  assume ok: "book_ok book"
  have "dom (ob_index book) = io_id ` set (book_orders book)"
    using book_orders_index[OF ok] by blast
  moreover have "distinct (map io_id (book_orders book))" using ok by (simp add: book_ok_def)
  ultimately show ?thesis unfolding order_count_def by (metis distinct_card length_map set_map)
qed

lemma spread_positive: "book_ok book \<Longrightarrow> spread book = Some d \<Longrightarrow> 0 < d"
  by (auto simp: book_ok_def spread_def best_bid_def best_ask_def split: option.splits list.splits)

text \<open>
  \<open>api-server/src/matching/engine.rs\<close>: one task owns the books of all pairs and takes its commands from a channel, one at a
  time. A turn of the loop is \<open>engine_step\<close>: the answer for the caller, the trades sent on for persistence, the new state;
  \<open>None\<close> is a panic of the task. The books are an association list in the order in which the hash map is walked.
\<close>

section \<open>Definitions\<close>

datatype 'd engine_command =
    SubmitOrder "'d internal_order"
  | CancelOrder order_id string
  | GetDepth string nat
  | GetStats

record engine_stats =
  en_instruments :: nat
  en_total_resting_orders :: nat
  en_total_trades_executed :: u64
  en_orders_per_instrument :: "(string \<times> nat) list"

datatype 'd engine_response =
    Submitted "'d match_result"
  | CancelledOrder "'d internal_order option"
  | DepthOf "'d book_depth option"
  | Stats engine_stats

record 'd matching_engine =
  me_books :: "(string \<times> 'd order_book) list"
  me_total_trades :: u64

definition engine_new :: "string list \<Rightarrow> 'd matching_engine" where
  "engine_new known_pairs = \<lparr>me_books = fold (\<lambda>p books. AList.update p (book_new p) books) known_pairs [], me_total_trades = 0\<rparr>"

definition engine_stats_of :: "'d matching_engine \<Rightarrow> engine_stats" where
  "engine_stats_of e = \<lparr>en_instruments = length (me_books e),
     en_total_resting_orders = sum_list (map (\<lambda>(k, b). order_count b) (me_books e)),
     en_total_trades_executed = me_total_trades e,
     en_orders_per_instrument = map (\<lambda>(k, b). (k, order_count b)) (me_books e)\<rparr>"

fun engine_step ::
  "(nat \<Rightarrow> 128 word \<times> int) \<Rightarrow> 'd::linordered_ab_group_add engine_command \<Rightarrow> 'd matching_engine \<Rightarrow>
   ('d engine_response \<times> 'd matched_trade list \<times> 'd matching_engine) option" where
  "engine_step stamp (SubmitOrder order) e =
     (let pair_id = io_pair_id order;
          book = (case map_of (me_books e) pair_id of Some b \<Rightarrow> b | None \<Rightarrow> book_new pair_id)
      in case submit_order stamp order book of None \<Rightarrow> None
         | Some (result, book') \<Rightarrow> Some (Submitted result, mr_trades result,
             e\<lparr>me_books := AList.update pair_id book' (me_books e),
               me_total_trades := me_total_trades e + of_nat (length (mr_trades result))\<rparr>))"
| "engine_step stamp (CancelOrder order_id pair_id) e =
     (case map_of (me_books e) pair_id of None \<Rightarrow> Some (CancelledOrder None, [], e)
      | Some book \<Rightarrow> (case cancel_order order_id book of (r, book') \<Rightarrow>
          Some (CancelledOrder r, [], e\<lparr>me_books := AList.update pair_id book' (me_books e)\<rparr>)))"
| "engine_step stamp (GetDepth pair_id max_levels) e =
     Some (DepthOf (map_option (depth max_levels) (map_of (me_books e) pair_id)), [], e)"
| "engine_step stamp GetStats e = Some (Stats (engine_stats_of e), [], e)"

section \<open>Every book stays well formed\<close>

definition engine_ok :: "'d::linordered_ab_group_add matching_engine \<Rightarrow> bool" where
  "engine_ok e \<longleftrightarrow> (\<forall>pair book. map_of (me_books e) pair = Some book \<longrightarrow> book_ok book)"

text \<open>The ids of orders are random; the engine does not compare them.\<close>

fun fresh_command :: "'d::linordered_ab_group_add matching_engine \<Rightarrow> 'd engine_command \<Rightarrow> bool" where
  "fresh_command e (SubmitOrder order) \<longleftrightarrow>
     (case map_of (me_books e) (io_pair_id order) of None \<Rightarrow> True | Some book \<Rightarrow> ob_index book (io_id order) = None)"
| "fresh_command e _ \<longleftrightarrow> True"

lemma engine_ok_update: "engine_ok e \<Longrightarrow> book_ok b \<Longrightarrow> me_books e' = AList.update k b (me_books e) \<Longrightarrow> engine_ok e'"
  by (simp add: engine_ok_def update_conv')

lemma engine_ok_new: "engine_ok (engine_new pairs)"
proof -
  have "\<forall>k b. map_of books k = Some b \<longrightarrow> book_ok (b :: 'a order_book) \<Longrightarrow>
      \<forall>k b. map_of (fold (\<lambda>p books. AList.update p (book_new p) books) pairs books) k = Some b \<longrightarrow> book_ok b" for books
  proof (induction pairs arbitrary: books)
    case (Cons p pairs)
    show ?case unfolding fold_Cons o_apply
      by (rule Cons.IH) (use Cons.prems in \<open>simp add: update_conv' book_ok_new\<close>)
  qed simp
  from this[of "[]"] show ?thesis by (simp add: engine_ok_def engine_new_def)
qed

lemma engine_step_ok:
  assumes ok: "engine_ok e" and fresh: "fresh_command e c" and step: "engine_step stamp c e = Some (r, ts, e')"
  shows "engine_ok e'"
proof (cases c)
  case (SubmitOrder order)
  define book where "book = (case map_of (me_books e) (io_pair_id order) of Some b \<Rightarrow> b | None \<Rightarrow> book_new (io_pair_id order))"
  have b: "book_ok book" using ok by (auto simp: book_def engine_ok_def book_ok_new split: option.split)
  have f: "ob_index book (io_id order) = None"
    using fresh SubmitOrder by (auto simp: book_def book_new_def split: option.splits)
  obtain res book' where s: "submit_order stamp order book = Some (res, book')"
    and e': "e' = e\<lparr>me_books := AList.update (io_pair_id order) book' (me_books e),
      me_total_trades := me_total_trades e + of_nat (length (mr_trades res))\<rparr>"
    using step SubmitOrder by (auto simp: Let_def book_def split: option.splits)
  show ?thesis by (rule engine_ok_update[OF ok submit_order_ok[OF b f s]]) (simp add: e')
next
  case (CancelOrder i pair)
  show ?thesis
  proof (cases "map_of (me_books e) pair")
    case None
    then show ?thesis using step CancelOrder ok by simp
  next
    case (Some book)
    obtain x book' where c': "cancel_order i book = (x, book')" by fastforce
    have "me_books e' = AList.update pair book' (me_books e)"
      using step CancelOrder Some c' by auto
    moreover have "book_ok book'" using cancel_order_ok(1)[OF _ c'] ok Some by (auto simp: engine_ok_def)
    ultimately show ?thesis using engine_ok_update[OF ok] by blast
  qed
qed (use step ok in auto)

text \<open>Runs of the engine, with everything it sends on.\<close>

inductive engine_run ::
  "'d::linordered_ab_group_add matching_engine \<Rightarrow> 'd matched_trade list \<Rightarrow> 'd matching_engine \<Rightarrow> bool" for e0 where
  engine_start: "engine_run e0 [] e0"
| engine_turn: "engine_run e0 sent e \<Longrightarrow> fresh_command e c \<Longrightarrow> engine_step stamp c e = Some (r, ts, e') \<Longrightarrow>
    engine_run e0 (sent @ ts) e'"

lemma engine_run_ok: "engine_run e0 sent e \<Longrightarrow> engine_ok e0 \<Longrightarrow> engine_ok e"
  by (induction rule: engine_run.induct) (auto intro: engine_step_ok)

lemma engine_step_count:
  "engine_step stamp c e = Some (r, ts, e') \<Longrightarrow> me_total_trades e' = me_total_trades e + of_nat (length ts)"
  by (cases c) (auto simp: Let_def split: option.splits prod.splits)

lemma engine_run_counts:
  "engine_run e0 sent e \<Longrightarrow> me_total_trades e = me_total_trades e0 + of_nat (length sent)"
  by (induction rule: engine_run.induct) (simp_all add: engine_step_count)

end
