(* ===== verification/Properties_Exchange.thy ===== *)
theory Properties_Exchange
  imports Api_Engine
begin

text \<open>
  The properties of the order book and of the matching engine, each with a concrete instance where it has hypotheses.
  Prices and quantities of the instances are integers.
\<close>

definition demo_stamp :: "nat \<Rightarrow> 128 word \<times> int" where
  "demo_stamp n = (of_nat n, 0)"

definition demo_order :: "order_id \<Rightarrow> side \<Rightarrow> time_in_force \<Rightarrow> int option \<Rightarrow> int \<Rightarrow> int internal_order" where
  "demo_order i s t p q = \<lparr>io_id = i, io_user_id = ''u'', io_wallet = ''w'', io_pair_id = ''BEANS'', io_side = s,
     io_type = LimitOrder, io_price = p, io_quantity = q, io_filled = 0, io_time_in_force = t, io_created_at = 0\<rparr>"

text \<open>Whatever orders are submitted and cancelled, on whatever pairs, every book stays sorted, uncrossed and in agreement
  with its index: the best bid is below the best ask, each resting order is open and stands at its price, and the index
  holds exactly the resting orders.\<close>

theorem books_stay_well_formed:
  assumes "engine_run (engine_new pairs) sent e" and "map_of (me_books e) pair = Some book"
  shows "book_ok book \<and> order_count book = length (book_orders book) \<and> (\<forall>d. spread book = Some d \<longrightarrow> 0 < d)"
proof -
  have "book_ok book" using engine_run_ok[OF assms(1) engine_ok_new] assms(2) by (simp add: engine_ok_def)
  then show ?thesis using order_count_length spread_positive by blast
qed

theorem books_stay_well_formed_witness:
  "book_ok (book_new ''BEANS'' :: int order_book) \<and>
   order_count (book_new ''BEANS'' :: int order_book) = length (book_orders (book_new ''BEANS'' :: int order_book))"
proof -
  have "map_of (me_books (engine_new [''BEANS'']) ) ''BEANS'' = Some (book_new ''BEANS'' :: int order_book)"
    by (simp add: engine_new_def)
  from books_stay_well_formed[OF engine_start this] show ?thesis by blast
qed

text \<open>C24. Matching is price-time priority: an order takes from the queue of the other side, best price first and
  oldest first, a prefix of which only the last order may be filled in part; every trade is at the price of the resting order,
  within the limit of the incoming one, and what the trades say was exchanged is what both sides lost.\<close>

theorem matching_is_price_time:
  assumes "book_ok book" and "matches order" and "0 \<le> remaining order"
    and "matched stamp order book = (o1, ts, book')"
  defines "q \<equiv> queue (levels_of (other_side (io_side order)) book)" and "q' \<equiv> queue (levels_of (other_side (io_side order)) book')"
  shows "\<exists>fs. ts = trades_of stamp 0 order fs \<and> map fst fs = take (length fs) q \<and>
    (q' = drop (length fs) q \<or>
      fs \<noteq> [] \<and> is_filled o1 \<and> q' = fill_order (snd (last fs)) (fst (last fs)) # drop (length fs) q) \<and>
    (\<forall>(r, n)\<in>set fs. 0 < n \<and> n \<le> remaining r \<and> can_match order (the (io_price r))) \<and>
    remaining order = remaining o1 + sum_list (map snd fs) \<and> 0 \<le> remaining o1 \<and>
    sum_list (map remaining q) = sum_list (map remaining q') + sum_list (map snd fs)"
proof -
  from matchedE[OF assms(1,4)] assms(2,3) obtain fs where
    f: "fill_queue order q = (o1, fs, q')" and ts: "ts = trades_of stamp 0 order fs" and nn: "0 \<le> remaining o1"
    unfolding q_def q'_def by metis
  have pos: "\<forall>r\<in>set q. 0 < remaining r"
    using book_ok_side[OF assms(1), of "other_side (io_side order)"]
    by (fastforce simp: q_def queue_def side_ok_def open_order_def)
  have "remaining order = remaining o1 + sum_list (map snd fs)"
    using fill_queue_filled_quantity[OF f] fill_queue_fields(6)[OF f] by (simp add: remaining_def algebra_simps)
  then show ?thesis
    using ts nn fill_queue_prefix[OF f] fill_queue_bounds[OF f pos] fill_queue_resting_quantity[OF f]
    by (intro exI[of _ fs]) auto
qed

definition demo_book :: "int order_book" where
  "demo_book = snd (the (submit_order demo_stamp (demo_order 1 Sell GTC (Some 15) 50) (book_new ''BEANS'')))"

lemma demo_book_eq:
  "demo_book = \<lparr>ob_pair_id = ''BEANS'', ob_bids = [], ob_asks = [(15, [demo_order 1 Sell GTC (Some 15) 50])],
     ob_index = [1 \<mapsto> (Sell, 15)]\<rparr>"
  by (simp add: demo_book_def submit_order_def demo_order_def book_new_def match_against_book_def is_filled_def
      insert_resting_order_def Let_def)

lemma demo_book_ok: "book_ok demo_book"
proof (rule submit_order_ok[OF book_ok_new])
  show "submit_order demo_stamp (demo_order 1 Sell GTC (Some 15) 50) (book_new ''BEANS'') =
      Some (fst (the (submit_order demo_stamp (demo_order 1 Sell GTC (Some 15) 50) (book_new ''BEANS''))), demo_book)"
    by (simp add: demo_book_def submit_order_def demo_order_def book_new_def match_against_book_def is_filled_def
      insert_resting_order_def Let_def)
qed (simp add: book_new_def)

definition demo_taker :: "int internal_order" where
  "demo_taker = demo_order 2 Buy IOC (Some 20) 30"

theorem matching_is_price_time_witness:
  "\<exists>fs. fst (snd (matched demo_stamp demo_taker demo_book)) = trades_of demo_stamp 0 demo_taker fs \<and>
    remaining demo_taker = remaining (fst (matched demo_stamp demo_taker demo_book)) + sum_list (map snd fs) \<and>
    0 \<le> remaining (fst (matched demo_stamp demo_taker demo_book))"
proof -
  have m: "matched demo_stamp demo_taker demo_book = (fst (matched demo_stamp demo_taker demo_book),
      fst (snd (matched demo_stamp demo_taker demo_book)), snd (snd (matched demo_stamp demo_taker demo_book)))"
    by simp
  have "matches demo_taker" "0 \<le> remaining demo_taker"
    by (simp_all add: demo_taker_def demo_order_def matches_def remaining_def)
  from matching_is_price_time[OF demo_book_ok this m] show ?thesis by blast
qed

text \<open>C34. A fill-or-kill order that cannot be filled is reported as cancelled, without trades, but it has matched by then:
  every resting order within its limit has been filled and is gone from the book, and nobody is told.\<close>

theorem killed_order_eats_the_book:
  assumes "book_ok book" and "io_type order = LimitOrder" and "io_time_in_force order = FOK" and "io_price order = Some p"
    and "fill_queue order (queue (levels_of (other_side (io_side order)) book)) = (o1, fs, rs)" and "\<not> is_filled o1"
  shows "\<exists>book'. submit_order stamp order book =
      Some (\<lparr>mr_order_id = io_id order, mr_status = Cancelled, mr_trades = [], mr_remaining = io_quantity order\<rparr>, book') \<and>
    queue (levels_of (other_side (io_side order)) book') = rs \<and>
    sum_list (map remaining (queue (levels_of (other_side (io_side order)) book))) = sum_list (map remaining rs) + sum_list (map snd fs)"
  using assms by (rule killed_takes_liquidity)

definition demo_killed :: "int internal_order" where
  "demo_killed = demo_order 2 Buy FOK (Some 15) 100"

theorem killed_order_eats_the_book_witness:
  "\<exists>book'. submit_order demo_stamp demo_killed demo_book =
      Some (\<lparr>mr_order_id = io_id demo_killed, mr_status = Cancelled, mr_trades = [], mr_remaining = io_quantity demo_killed\<rparr>, book') \<and>
    queue (levels_of (other_side (io_side demo_killed)) book') = [] \<and>
    sum_list (map remaining (queue (levels_of (other_side (io_side demo_killed)) demo_book))) =
      sum_list (map remaining ([] :: int internal_order list)) + sum_list (map snd [(demo_order 1 Sell GTC (Some 15) 50, 50 :: int)])"
proof (rule killed_order_eats_the_book[OF demo_book_ok])
  show "fill_queue demo_killed (queue (levels_of (other_side (io_side demo_killed)) demo_book)) =
      (fill_order 50 demo_killed, [(demo_order 1 Sell GTC (Some 15) 50, 50)], [])"
    by (simp add: demo_book_eq demo_killed_def demo_order_def fill_queue_go can_match_def is_filled_def remaining_def)
qed (simp_all add: demo_killed_def demo_order_def is_filled_def)

end
