(* ===== verification/Tokenomics_Pools.thy ===== *)
theory Tokenomics_Pools
  imports CJ_Float_Facts Core_Dimensional "HOL-Library.AList"
begin

text \<open>
  \<open>tokenomics/src/pools.rs\<close>: the eight token pools, their allocations and unlock curves. A hash map keyed by the pool type
  is the association list of its entries in the order in which it is walked.
\<close>

section \<open>Definitions\<close>

datatype pool_type = GenesisPool | NetworkCouplingPool | StakingPool | GovernancePool | BountiesPool | DevelopmentPool |
  EcosystemPool | ReservePool

fun pool_type_index :: "pool_type \<Rightarrow> u8" where
  "pool_type_index GenesisPool = 1"
| "pool_type_index NetworkCouplingPool = 2"
| "pool_type_index StakingPool = 3"
| "pool_type_index GovernancePool = 4"
| "pool_type_index BountiesPool = 5"
| "pool_type_index DevelopmentPool = 6"
| "pool_type_index EcosystemPool = 7"
| "pool_type_index ReservePool = 8"

fun pool_tau :: "pool_type \<Rightarrow> f64" where
  "pool_tau GenesisPool = f_of_rat 0"
| "pool_tau NetworkCouplingPool = f_of_rat (20 / 100)"
| "pool_tau StakingPool = f_of_rat (41 / 100)"
| "pool_tau GovernancePool = f_of_rat (68 / 100)"
| "pool_tau BountiesPool = f_of_rat (98 / 100)"
| "pool_tau DevelopmentPool = f_of_rat (136 / 100)"
| "pool_tau EcosystemPool = f_of_rat (196 / 100)"
| "pool_tau ReservePool = f_of_rat (272 / 100)"

definition pool_scale :: "float_ext \<Rightarrow> pool_type \<Rightarrow> f64" where
  "pool_scale F p = fm_exp F (f_mul (f_neg ETA) (pool_tau p))"

definition all_pool_types :: "pool_type list" where
  "all_pool_types = [GenesisPool, NetworkCouplingPool, StakingPool, GovernancePool, BountiesPool, DevelopmentPool,
     EcosystemPool, ReservePool]"

record token_pool =
  dp_type :: pool_type
  dp_scale :: f64
  dp_allocation_pct :: f64
  dp_total_allocation :: u128
  dp_balance :: u128
  dp_distributed :: u128
  dp_unlock_start_block :: u64
  dp_unlocked_pct :: f64

definition token_pool_new :: "float_ext \<Rightarrow> pool_type \<Rightarrow> u128 \<Rightarrow> f64 \<Rightarrow> token_pool" where
  "token_pool_new F p supply_amount sum_of_scales =
     (let scale = pool_scale F p;
          allocation_pct = f_mul (f_div scale sum_of_scales) (f_of_rat 100);
          total_allocation = f_to_word (f_mul (f_of_word supply_amount) (f_div allocation_pct (f_of_rat 100)))
      in \<lparr>dp_type = p, dp_scale = scale, dp_allocation_pct = allocation_pct, dp_total_allocation = total_allocation,
          dp_balance = total_allocation, dp_distributed = 0,
          dp_unlock_start_block = f_to_word (f_mul (pool_tau p) (f_of_rat 10000)), dp_unlocked_pct = f_zero\<rparr>)"

definition calculate_unlock :: "float_ext \<Rightarrow> token_pool \<Rightarrow> u64 \<Rightarrow> f64" where
  "calculate_unlock F p current_block =
     (if current_block < dp_unlock_start_block p then f_zero
      else let delta = f_div (f_of_word (current_block - dp_unlock_start_block p)) (f_of_rat 10000)
           in f_sub f_one (fm_exp F (f_mul (f_neg ETA) delta)))"

definition available_balance :: "float_ext \<Rightarrow> token_pool \<Rightarrow> u64 \<Rightarrow> u128" where
  "available_balance F p current_block =
     (let unlockable = f_to_word (f_mul (f_of_word (dp_total_allocation p)) (calculate_unlock F p current_block))
      in saturating_sub_word unlockable (dp_distributed p))"

definition distribute :: "float_ext \<Rightarrow> u128 \<Rightarrow> u64 \<Rightarrow> token_pool \<Rightarrow> u128 \<times> token_pool" where
  "distribute F amount current_block p =
     (let actual = min amount (available_balance F p current_block) in
      (actual, if 0 < actual then p\<lparr>dp_balance := saturating_sub_word (dp_balance p) actual,
          dp_distributed := dp_distributed p + actual, dp_unlocked_pct := calculate_unlock F p current_block\<rparr> else p))"

record pool_manager =
  pm_total_supply :: u128
  pm_sum_of_scales :: f64
  pm_pools :: "(pool_type \<times> token_pool) list"
  pm_current_block :: u64

definition pool_manager_new :: "float_ext \<Rightarrow> u128 \<Rightarrow> pool_manager" where
  "pool_manager_new F total_supply =
     (let s = f_sum (map (pool_scale F) all_pool_types) in
      \<lparr>pm_total_supply = total_supply, pm_sum_of_scales = s,
       pm_pools = map (\<lambda>p. (p, token_pool_new F p total_supply s)) all_pool_types, pm_current_block = 0\<rparr>)"

definition pm_set_block :: "u64 \<Rightarrow> pool_manager \<Rightarrow> pool_manager" where
  "pm_set_block block m = m\<lparr>pm_current_block := block\<rparr>"

definition get_pool :: "pool_manager \<Rightarrow> pool_type \<Rightarrow> token_pool option" where
  "get_pool m p = map_of (pm_pools m) p"

definition distribute_from :: "float_ext \<Rightarrow> pool_type \<Rightarrow> u128 \<Rightarrow> pool_manager \<Rightarrow> u128 \<times> pool_manager" where
  "distribute_from F p amount m =
     (case map_of (pm_pools m) p of None \<Rightarrow> (0, m)
      | Some pool \<Rightarrow> (case distribute F amount (pm_current_block m) pool of (actual, pool') \<Rightarrow>
          (actual, m\<lparr>pm_pools := AList.update p pool' (pm_pools m)\<rparr>)))"

definition total_available :: "float_ext \<Rightarrow> pool_manager \<Rightarrow> u128" where
  "total_available F m = sum_list (map (\<lambda>(_, p). available_balance F p (pm_current_block m)) (pm_pools m))"

record pool_status =
  pls_pool_type :: pool_type
  pls_scale :: f64
  pls_allocation_pct :: f64
  pls_total :: u128
  pls_balance :: u128
  pls_distributed :: u128
  pls_available :: u128
  pls_unlocked_pct :: f64

definition pools_status :: "float_ext \<Rightarrow> pool_manager \<Rightarrow> pool_status list" where
  "pools_status F m = map (\<lambda>(_, p). \<lparr>pls_pool_type = dp_type p, pls_scale = dp_scale p, pls_allocation_pct = dp_allocation_pct p,
     pls_total = dp_total_allocation p, pls_balance = dp_balance p, pls_distributed = dp_distributed p,
     pls_available = available_balance F p (pm_current_block m),
     pls_unlocked_pct = f_mul (calculate_unlock F p (pm_current_block m)) (f_of_rat 100)\<rparr>) (pm_pools m)"

section \<open>Sums over hash maps\<close>

text \<open>Replacing one entry of an association list changes a sum over it by that entry.\<close>

lemma sum_update:
  fixes w :: "'v \<Rightarrow> nat"
  assumes "distinct (map fst xs)"
  shows "(\<Sum>v\<leftarrow>map snd (AList.update k v xs). w v) + (case map_of xs k of None \<Rightarrow> 0 | Some u \<Rightarrow> w u) =
    (\<Sum>v\<leftarrow>map snd xs. w v) + w v"
  using assms by (induction xs) (auto split: option.splits if_splits)

lemma sum_delete:
  fixes w :: "'v \<Rightarrow> nat"
  assumes "distinct (map fst xs)"
  shows "(\<Sum>v\<leftarrow>map snd (AList.delete k xs). w v) + (case map_of xs k of None \<Rightarrow> 0 | Some u \<Rightarrow> w u) = (\<Sum>v\<leftarrow>map snd xs. w v)"
  using assms
proof (induction xs)
  case (Cons x xs)
  have "AList.delete k xs = xs" if "k \<notin> fst ` set xs" using that by (simp add: delete_id)
  then show ?case using Cons by (cases x) (auto split: option.splits)
qed simp

section \<open>The unlock curve\<close>

text \<open>What the pools need of \<open>exp\<close>: on a negative argument or zero it lies between 0 and 1.\<close>

definition exp_ok :: "float_ext \<Rightarrow> bool" where
  "exp_ok F \<longleftrightarrow> (\<forall>x. f_le x f_zero \<longrightarrow> unit_share (fm_exp F x))"

lemma ETA_positive: "\<exists>e. ETA = FFin False e \<and> 0 < e \<and> e \<le> 1"
proof -
  let ?r = "707106781186547524400844362104849039 / 10 ^ 36 :: rat"
  have E: "ETA = f_round False ?r" by (simp add: ETA_def f_of_rat_def)
  have "floor_log2 ?r = - 1" by (rule floor_log2_unique) (simp_all add: pow2_def)
  then have "pow2 (- 1) \<le> round_mag ?r"
    by (intro round_mag_above_pow2) (simp_all add: round_exp_def pow2_def)
  moreover obtain v where "f_round False ?r = FFin False v" "v \<le> 1"
    using f_round_between[of ?r 1] by auto
  ultimately show ?thesis unfolding E by (auto simp: f_round_alt pow2_def split: if_splits)
qed

lemma neg_eta_mul:
  assumes "d = FInf False \<or> (\<exists>m\<ge>0. d = FFin False m)"
  shows "f_le (f_mul (f_neg ETA) d) f_zero"
proof -
  obtain e where e: "ETA = FFin False e" "0 < e" using ETA_positive by blast
  show ?thesis
  proof (cases "d = FInf False")
    case True
    then show ?thesis unfolding e(1) using e(2) by (simp add: f_zero_def)
  next
    case False
    then obtain m where m: "0 \<le> m" "d = FFin False m" using assms by blast
    have "0 < e * m \<Longrightarrow> 0 \<le> round_mag (e * m)" by (rule round_mag_nonneg)
    moreover have "0 \<le> e * m" using e m by simp
    ultimately show ?thesis unfolding e(1) using e(2) m by (auto simp: f_round_alt f_zero_def order_less_le)
  qed
qed

lemma f_round_nonneg: "0 \<le> r \<Longrightarrow> f_round False r = FInf False \<or> (\<exists>m\<ge>0. f_round False r = FFin False m)"
  using round_mag_nonneg[of r] by (cases "r = 0") (auto simp: f_round_alt)

lemma f_of_word_nonneg: "f_of_word w = FInf False \<or> (\<exists>m\<ge>0. f_of_word w = FFin False m)"
  unfolding f_of_word_def by (rule f_round_nonneg, rule of_nat_0_le_iff)

lemma f_div_nonneg:
  assumes "x = FInf False \<or> (\<exists>m\<ge>0. x = FFin False m)" and "y = FFin False n" and "0 < n"
  shows "f_div x y = FInf False \<or> (\<exists>m\<ge>0. f_div x y = FFin False m)"
proof (cases "x = FInf False")
  case False
  then obtain m where m: "0 \<le> m" "x = FFin False m" using assms(1) by blast
  then have "0 \<le> m / n" using assms(3) by simp
  from f_round_nonneg[OF this] show ?thesis using m assms(2,3) by simp
qed (use assms in simp)

lemma f_of_rat_int: "0 \<le> k \<Longrightarrow> k < 2 ^ 53 \<Longrightarrow> f_of_rat (of_int k) = FFin False (of_int k)"
  by (simp add: f_of_rat_def)

lemma unlock_unit_share:
  assumes "exp_ok F"
  shows "unit_share (calculate_unlock F p b)"
proof -
  have t: "f_of_rat 10000 = FFin False 10000" using f_of_rat_int[of 10000] by simp
  have "f_le (f_mul (f_neg ETA) (f_div (f_of_word (b - dp_unlock_start_block p)) (f_of_rat 10000))) f_zero"
    by (rule neg_eta_mul, rule f_div_nonneg[OF f_of_word_nonneg t]) simp
  then have "unit_share (fm_exp F (f_mul (f_neg ETA) (f_div (f_of_word (b - dp_unlock_start_block p)) (f_of_rat 10000))))"
    using assms by (simp add: exp_ok_def)
  then show ?thesis by (simp add: calculate_unlock_def Let_def unit_share_complement)
qed

section \<open>Nothing is given out twice\<close>

text \<open>What is left and what was given out are the allocation of the pool.\<close>

definition token_pool_ok :: "token_pool \<Rightarrow> bool" where
  "token_pool_ok p \<longleftrightarrow> unat (dp_total_allocation p) < 2 ^ 53 \<and>
     unat (dp_balance p) + unat (dp_distributed p) = unat (dp_total_allocation p)"

lemma distribute_ok:
  assumes "exp_ok F" and ok: "token_pool_ok p" and d: "distribute F amount b p = (actual, p')"
  shows "token_pool_ok p'" and "unat (dp_balance p') + unat actual = unat (dp_balance p)"
    and "dp_total_allocation p' = dp_total_allocation p" and "actual \<le> amount"
proof -
  have w: "unat (dp_total_allocation p) < 2 ^ 53" using ok by (simp add: token_pool_ok_def)
  have "unat (f_to_word (f_mul (f_of_word (dp_total_allocation p)) (calculate_unlock F p b)) :: u128) \<le> unat (dp_total_allocation p)"
    by (rule share_le[OF w unlock_unit_share[OF assms(1)]]) simp
  then have "unat (available_balance F p b) \<le> unat (dp_total_allocation p) - unat (dp_distributed p)"
    by (simp add: available_balance_def Let_def unat_saturating_sub)
  moreover have a: "actual = min amount (available_balance F p b)" using d unfolding distribute_def Let_def by blast
  ultimately have "unat actual \<le> unat (dp_total_allocation p) - unat (dp_distributed p)"
    by (simp add: min_def word_le_nat_alt split: if_splits)
  then have le: "unat actual \<le> unat (dp_balance p)" "unat (dp_distributed p) + unat actual < 2 ^ 128"
  proof -
    have "unat (dp_balance p) + unat (dp_distributed p) = unat (dp_total_allocation p)" using ok by (simp add: token_pool_ok_def)
    then show "unat actual \<le> unat (dp_balance p)" using \<open>unat actual \<le> _\<close> by linarith
    then have "unat (dp_distributed p) + unat actual < 2 ^ 53" using w \<open>_ + _ = _\<close> by linarith
    then show "unat (dp_distributed p) + unat actual < 2 ^ 128" by (rule less_trans) simp
  qed
  have p': "p' = (if 0 < actual then p\<lparr>dp_balance := saturating_sub_word (dp_balance p) actual,
      dp_distributed := dp_distributed p + actual, dp_unlocked_pct := calculate_unlock F p b\<rparr> else p)"
    using d a unfolding distribute_def Let_def by blast
  have s: "unat (dp_distributed p + actual) = unat (dp_distributed p) + unat actual"
    using le(2) by (simp add: unat_add_small)
  show "dp_total_allocation p' = dp_total_allocation p" by (simp add: p')
  have z: "\<not> 0 < actual \<Longrightarrow> unat actual = 0" by (simp add: word_gt_0)
  show "unat (dp_balance p') + unat actual = unat (dp_balance p)"
    using le(1) z by (simp add: p' unat_saturating_sub)
  show "token_pool_ok p'"
    using ok le(1) s z by (auto simp: p' token_pool_ok_def unat_saturating_sub)
  show "actual \<le> amount" using a by simp
qed

lemma token_pool_new_ok:
  assumes "unat (dp_total_allocation (token_pool_new F p n s)) < 2 ^ 53"
  shows "token_pool_ok (token_pool_new F p n s)"
  using assms by (simp add: token_pool_ok_def token_pool_new_def Let_def)

lemma distribute_from_other:
  assumes "distribute_from F p amount m = (actual, m')" and "q \<noteq> p"
  shows "get_pool m' q = get_pool m q"
  using assms by (auto simp: distribute_from_def get_pool_def update_conv' split: option.splits prod.splits)

end
