(* ===== verification/Tokenomics_Governance.thy ===== *)
theory Tokenomics_Governance
  imports Tokenomics_Pools Core_Types CJ_Machine
begin

text \<open>
  \<open>tokenomics/src/governance.rs\<close>: proposals, votes weighted by staked holdings, and their execution; \<open>delta_critical\<close> is from
  \<open>staking.rs\<close>. Hash maps are association lists in the order in which they are walked.
\<close>

section \<open>Definitions\<close>

datatype emergency_action_type = PauseNetwork | ResumeNetwork | FreezeAccount | SlashValidator

datatype proposal_action =
    ChangeParameter string string string
  | ProtocolUpgrade u8 u64 string
  | TreasuryTransfer address u128 string
  | ConstitutionalAmendment string "f64 option" "f64 option" "u64 option"
  | EmergencyAction emergency_action_type string

record execution_receipt =
  er_proposal_id :: u64
  er_action :: proposal_action
  er_executed_at :: u64
  er_success :: bool
  er_message :: string

datatype execution_error = ExecNotPassed | ExecTimelockNotExpired | ExecNoAction | ExecActionFailed string | ExecAlreadyExecuted

definition delta_critical :: f64 where
  "delta_critical = f_mul ETA (f_sub f_one ETA)"

definition proposal_threshold_pct :: f64 where
  "proposal_threshold_pct = delta_critical"

definition GOV_QUORUM_THRESHOLD :: f64 where "GOV_QUORUM_THRESHOLD = f_of_rat (1 / 2)"
definition SUPERMAJORITY_THRESHOLD :: f64 where "SUPERMAJORITY_THRESHOLD = f_of_rat (8 / 10)"
definition VOTING_PERIOD_BLOCKS :: u64 where "VOTING_PERIOD_BLOCKS = 100000"

datatype proposal_type = ParameterProposal | TreasuryProposal | UpgradeProposal | ConstitutionalProposal | EmergencyProposal

fun approval_threshold :: "proposal_type \<Rightarrow> f64" where
  "approval_threshold ParameterProposal = GOV_QUORUM_THRESHOLD"
| "approval_threshold TreasuryProposal = GOV_QUORUM_THRESHOLD"
| "approval_threshold UpgradeProposal = SUPERMAJORITY_THRESHOLD"
| "approval_threshold ConstitutionalProposal = SUPERMAJORITY_THRESHOLD"
| "approval_threshold EmergencyProposal = f_of_rat (9 / 10)"

fun participation_threshold :: "proposal_type \<Rightarrow> f64" where
  "participation_threshold ParameterProposal = f_of_rat (10 / 100)"
| "participation_threshold TreasuryProposal = f_of_rat (15 / 100)"
| "participation_threshold UpgradeProposal = f_of_rat (20 / 100)"
| "participation_threshold ConstitutionalProposal = f_of_rat (30 / 100)"
| "participation_threshold EmergencyProposal = f_of_rat (5 / 100)"

fun timelock_blocks :: "proposal_type \<Rightarrow> u64" where
  "timelock_blocks ParameterProposal = 10000"
| "timelock_blocks TreasuryProposal = 20000"
| "timelock_blocks UpgradeProposal = 50000"
| "timelock_blocks ConstitutionalProposal = 100000"
| "timelock_blocks EmergencyProposal = 0"

datatype vote_option = VoteFor | VoteAgainst | VoteAbstain

record voter_position =
  vp_balances :: "(pool_type \<times> u128) list"
  vp_stake_starts :: "(pool_type \<times> u64) list"

definition unlock_factor :: "float_ext \<Rightarrow> voter_position \<Rightarrow> pool_type \<Rightarrow> u64 \<Rightarrow> f64" where
  "unlock_factor F v p current_block =
     (let start = unwrap_or (map_of (vp_stake_starts v) p) current_block;
          blocks_staked = saturating_sub_word current_block start;
          tau = f_div (f_of_word blocks_staked) (f_of_rat 100000)
      in f_sub f_one (fm_exp F (f_mul (f_neg ETA) tau)))"

definition calculate_voting_power :: "float_ext \<Rightarrow> voter_position \<Rightarrow> u64 \<Rightarrow> u128" where
  "calculate_voting_power F v current_block =
     f_to_word (f_sum (map (\<lambda>(p, balance). f_mul (f_mul (f_of_word balance) (pool_scale F p)) (unlock_factor F v p current_block))
       (vp_balances v)))"

datatype proposal_status = ProposalPending | ProposalActive | ProposalPassed | ProposalFailed | ProposalExecuted | ProposalCancelled

record gov_vote =
  vo_voter :: address
  vo_option :: vote_option
  vo_power :: u128
  vo_cast_at :: u64

record proposal =
  pr_id :: u64
  pr_type :: proposal_type
  pr_title :: string
  pr_description :: string
  pr_proposer :: address
  pr_created_at :: u64
  pr_voting_starts :: u64
  pr_voting_ends :: u64
  pr_execution_at :: u64
  pr_status :: proposal_status
  pr_votes_for :: u128
  pr_votes_against :: u128
  pr_votes_abstain :: u128
  pr_votes :: "(address \<times> gov_vote) list"
  pr_action :: "proposal_action option"
  pr_execution_receipt :: "execution_receipt option"

definition proposal_new_with_action ::
  "u64 \<Rightarrow> proposal_type \<Rightarrow> string \<Rightarrow> string \<Rightarrow> address \<Rightarrow> u64 \<Rightarrow> proposal_action option \<Rightarrow> proposal" where
  "proposal_new_with_action i t title description proposer current_block action =
     (let voting_starts = current_block + 1000;
          voting_ends = voting_starts + VOTING_PERIOD_BLOCKS;
          execution_at = voting_ends + timelock_blocks t
      in \<lparr>pr_id = i, pr_type = t, pr_title = title, pr_description = description, pr_proposer = proposer,
          pr_created_at = current_block, pr_voting_starts = voting_starts, pr_voting_ends = voting_ends,
          pr_execution_at = execution_at, pr_status = ProposalPending, pr_votes_for = 0, pr_votes_against = 0,
          pr_votes_abstain = 0, pr_votes = [], pr_action = action, pr_execution_receipt = None\<rparr>)"

definition proposal_new :: "u64 \<Rightarrow> proposal_type \<Rightarrow> string \<Rightarrow> string \<Rightarrow> address \<Rightarrow> u64 \<Rightarrow> proposal" where
  "proposal_new i t title description proposer current_block =
     proposal_new_with_action i t title description proposer current_block None"

definition proposal_execute ::
  "u64 \<Rightarrow> bool \<Rightarrow> string \<Rightarrow> (proposal, execution_error, execution_receipt) step" where
  "proposal_execute current_block success message p =
     (if pr_status p = ProposalExecuted then (Inl ExecAlreadyExecuted, p)
      else if pr_status p \<noteq> ProposalPassed then (Inl ExecNotPassed, p)
      else if current_block < pr_execution_at p then (Inl ExecTimelockNotExpired, p)
      else case pr_action p of None \<Rightarrow> (Inl ExecNoAction, p)
        | Some action \<Rightarrow>
            let receipt = \<lparr>er_proposal_id = pr_id p, er_action = action, er_executed_at = current_block,
                  er_success = success, er_message = message\<rparr>;
                p1 = p\<lparr>pr_execution_receipt := Some receipt\<rparr>
            in (Inr receipt, if success then p1\<lparr>pr_status := ProposalExecuted\<rparr> else p1))"

datatype governance_error = VotingNotStarted | VotingEnded | VoteNotActive | AlreadyVoted | InsufficientPower | ProposalNotFound

fun add_power :: "vote_option \<Rightarrow> u128 \<Rightarrow> proposal \<Rightarrow> proposal" where
  "add_power VoteFor weight p = p\<lparr>pr_votes_for := pr_votes_for p + weight\<rparr>"
| "add_power VoteAgainst weight p = p\<lparr>pr_votes_against := pr_votes_against p + weight\<rparr>"
| "add_power VoteAbstain weight p = p\<lparr>pr_votes_abstain := pr_votes_abstain p + weight\<rparr>"

definition cast_vote ::
  "address \<Rightarrow> vote_option \<Rightarrow> u128 \<Rightarrow> u64 \<Rightarrow> (proposal, governance_error, unit) step" where
  "cast_vote voter opt weight current_block p =
     (if current_block < pr_voting_starts p then (Inl VotingNotStarted, p)
      else if pr_voting_ends p < current_block then (Inl VotingEnded, p)
      else if pr_status p \<noteq> ProposalActive then (Inl VoteNotActive, p)
      else if map_of (pr_votes p) voter \<noteq> None then (Inl AlreadyVoted, p)
      else let p1 = add_power opt weight p in
        (Inr (), p1\<lparr>pr_votes := AList.update voter \<lparr>vo_voter = voter, vo_option = opt, vo_power = weight,
           vo_cast_at = current_block\<rparr> (pr_votes p1)\<rparr>))"

definition participation_of :: "u128 \<Rightarrow> proposal \<Rightarrow> f64" where
  "participation_of total_voting_power p =
     f_div (f_of_word (pr_votes_for p + pr_votes_against p + pr_votes_abstain p)) (f_of_word total_voting_power)"

definition approval_of :: "proposal \<Rightarrow> f64" where
  "approval_of p = (if 0 < pr_votes_for p + pr_votes_against p
     then f_div (f_of_word (pr_votes_for p)) (f_of_word (pr_votes_for p + pr_votes_against p)) else f_zero)"

definition vote_passes :: "u128 \<Rightarrow> proposal \<Rightarrow> bool" where
  "vote_passes total_voting_power p \<longleftrightarrow>
     f_le (participation_threshold (pr_type p)) (participation_of total_voting_power p) \<and>
     f_le (approval_threshold (pr_type p)) (approval_of p)"

definition update_proposal_status :: "u64 \<Rightarrow> u128 \<Rightarrow> proposal \<Rightarrow> proposal" where
  "update_proposal_status current_block total_voting_power p =
     (let p1 = (if pr_status p = ProposalPending \<and> pr_voting_starts p \<le> current_block
                then p\<lparr>pr_status := ProposalActive\<rparr> else p)
      in if pr_status p1 = ProposalActive \<and> pr_voting_ends p1 < current_block
         then p1\<lparr>pr_status := (if vote_passes total_voting_power p1 then ProposalPassed else ProposalFailed)\<rparr>
         else p1)"

record proposal_summary =
  psu_id :: u64
  psu_title :: string
  psu_status :: proposal_status
  psu_votes_for :: u128
  psu_votes_against :: u128
  psu_votes_abstain :: u128
  psu_participation_pct :: f64
  psu_approval_pct :: f64
  psu_required_participation :: f64
  psu_required_approval :: f64
  psu_num_voters :: nat

definition proposal_summary_of :: "u128 \<Rightarrow> proposal \<Rightarrow> proposal_summary" where
  "proposal_summary_of total_voting_power p =
     \<lparr>psu_id = pr_id p, psu_title = pr_title p, psu_status = pr_status p, psu_votes_for = pr_votes_for p,
      psu_votes_against = pr_votes_against p, psu_votes_abstain = pr_votes_abstain p,
      psu_participation_pct = f_mul (participation_of total_voting_power p) (f_of_rat 100),
      psu_approval_pct = f_mul (approval_of p) (f_of_rat 100),
      psu_required_participation = f_mul (participation_threshold (pr_type p)) (f_of_rat 100),
      psu_required_approval = f_mul (approval_threshold (pr_type p)) (f_of_rat 100),
      psu_num_voters = length (pr_votes p)\<rparr>"

record governance =
  gm_proposals :: "(u64 \<times> proposal) list"
  gm_next_id :: u64
  gm_total_voting_power :: u128
  gm_voter_positions :: "(address \<times> voter_position) list"

definition governance_new :: governance where
  "governance_new = \<lparr>gm_proposals = [], gm_next_id = 1, gm_total_voting_power = 0, gm_voter_positions = []\<rparr>"

definition proposal_threshold :: "governance \<Rightarrow> u128" where
  "proposal_threshold g = f_to_word (f_mul (f_of_word (gm_total_voting_power g)) proposal_threshold_pct)"

definition get_voting_power :: "float_ext \<Rightarrow> governance \<Rightarrow> address \<Rightarrow> u64 \<Rightarrow> u128" where
  "get_voting_power F g voter current_block =
     (case map_of (gm_voter_positions g) voter of None \<Rightarrow> 0 | Some v \<Rightarrow> calculate_voting_power F v current_block)"

definition create_proposal_with_action ::
  "float_ext \<Rightarrow> proposal_type \<Rightarrow> string \<Rightarrow> string \<Rightarrow> address \<Rightarrow> u64 \<Rightarrow> proposal_action option \<Rightarrow> (governance, governance_error, u64) step" where
  "create_proposal_with_action F t title description proposer current_block action g =
     (if get_voting_power F g proposer current_block < proposal_threshold g then (Inl InsufficientPower, g)
      else let i = gm_next_id g in
        (Inr i, g\<lparr>gm_next_id := gm_next_id g + 1,
           gm_proposals := AList.update i (proposal_new_with_action i t title description proposer current_block action) (gm_proposals g)\<rparr>))"

definition create_proposal ::
  "float_ext \<Rightarrow> proposal_type \<Rightarrow> string \<Rightarrow> string \<Rightarrow> address \<Rightarrow> u64 \<Rightarrow> (governance, governance_error, u64) step" where
  "create_proposal F t title description proposer current_block g =
     create_proposal_with_action F t title description proposer current_block None g"

text \<open>\<open>get_mut\<close> and a call on the entry.\<close>

definition with_proposal ::
  "u64 \<Rightarrow> 'e \<Rightarrow> (proposal \<Rightarrow> ('e + 'a) \<times> proposal) \<Rightarrow> governance \<Rightarrow> ('e + 'a) \<times> governance" where
  "with_proposal i e f g = (case map_of (gm_proposals g) i of None \<Rightarrow> (Inl e, g)
     | Some p \<Rightarrow> (case f p of (r, p') \<Rightarrow> (r, g\<lparr>gm_proposals := AList.update i p' (gm_proposals g)\<rparr>)))"

text \<open>The message of a receipt, with the numbers printed in decimal.\<close>

fun decimal_digits :: "nat \<Rightarrow> string" where
  "decimal_digits n = (if n < 10 then [char_of (48 + n)] else decimal_digits (n div 10) @ [char_of (48 + n mod 10)])"

declare decimal_digits.simps [simp del]

definition execute_message :: "u64 \<Rightarrow> u64 \<Rightarrow> string" where
  "execute_message i block = ''Proposal '' @ decimal_digits (unat i) @ '' executed at block '' @ decimal_digits (unat block) @ '' by governance''"

definition execute_proposal ::
  "u64 \<Rightarrow> u64 \<Rightarrow> (governance, execution_error, execution_receipt) step" where
  "execute_proposal i current_block =
     with_proposal i (ExecActionFailed ''proposal not found'') (\<lambda>p.
       case pr_action p of None \<Rightarrow> (Inl ExecNoAction, p)
       | Some (ProtocolUpgrade v activation_height d) \<Rightarrow>
           if current_block < activation_height then (Inl ExecTimelockNotExpired, p)
           else proposal_execute current_block True (execute_message i current_block) p
       | Some _ \<Rightarrow> proposal_execute current_block True (execute_message i current_block) p)"

definition executable_proposals :: "governance \<Rightarrow> u64 \<Rightarrow> proposal list" where
  "executable_proposals g current_block = filter (\<lambda>p. pr_status p = ProposalPassed \<and> pr_execution_at p \<le> current_block \<and>
     pr_action p \<noteq> None) (map snd (gm_proposals g))"

definition execution_history :: "governance \<Rightarrow> execution_receipt list" where
  "execution_history g = List.map_filter pr_execution_receipt (map snd (gm_proposals g))"

definition governance_vote ::
  "float_ext \<Rightarrow> u64 \<Rightarrow> address \<Rightarrow> vote_option \<Rightarrow> u64 \<Rightarrow> (governance, governance_error, unit) step" where
  "governance_vote F i voter opt current_block g =
     (let weight = get_voting_power F g voter current_block in
      if weight = 0 then (Inl InsufficientPower, g)
      else with_proposal i ProposalNotFound (cast_vote voter opt weight current_block) g)"

definition update_statuses :: "u64 \<Rightarrow> governance \<Rightarrow> governance" where
  "update_statuses current_block g =
     g\<lparr>gm_proposals := map (\<lambda>(i, p). (i, update_proposal_status current_block (gm_total_voting_power g) p)) (gm_proposals g)\<rparr>"

definition active_proposals :: "governance \<Rightarrow> proposal list" where
  "active_proposals g = filter (\<lambda>p. pr_status p = ProposalActive) (map snd (gm_proposals g))"

section \<open>Tallies\<close>

text \<open>The tallies are the sums of the votes cast, one per address.\<close>

definition votes_weight :: "vote_option \<Rightarrow> (address \<times> gov_vote) list \<Rightarrow> u128" where
  "votes_weight opt votes = sum_list (map (vo_power \<circ> snd) (filter (\<lambda>(_, v). vo_option v = opt) votes))"

definition proposal_ok :: "proposal \<Rightarrow> bool" where
  "proposal_ok p \<longleftrightarrow> distinct (map fst (pr_votes p)) \<and> (\<forall>(a, v)\<in>set (pr_votes p). vo_voter v = a) \<and>
     pr_votes_for p = votes_weight VoteFor (pr_votes p) \<and> pr_votes_against p = votes_weight VoteAgainst (pr_votes p) \<and>
     pr_votes_abstain p = votes_weight VoteAbstain (pr_votes p) \<and>
     (pr_status p = ProposalPending \<longrightarrow> pr_votes p = []) \<and>
     (pr_status p = ProposalExecuted \<longrightarrow> (\<exists>r. pr_execution_receipt p = Some r \<and> pr_execution_at p \<le> er_executed_at r \<and>
        pr_action p = Some (er_action r)))"

lemma proposal_ok_new: "proposal_ok (proposal_new_with_action i t title d a b act)"
  by (simp add: proposal_ok_def proposal_new_with_action_def Let_def votes_weight_def)

lemma add_power_fields [simp]:
  "pr_votes (add_power opt w p) = pr_votes p" "pr_status (add_power opt w p) = pr_status p"
  "pr_action (add_power opt w p) = pr_action p" "pr_execution_receipt (add_power opt w p) = pr_execution_receipt p"
  "pr_execution_at (add_power opt w p) = pr_execution_at p" "pr_voting_ends (add_power opt w p) = pr_voting_ends p"
  "pr_voting_starts (add_power opt w p) = pr_voting_starts p" "pr_type (add_power opt w p) = pr_type p"
  "pr_id (add_power opt w p) = pr_id p"
  by (cases opt; simp)+

lemma AList_update_new: "map_of xs k = None \<Longrightarrow> AList.update k v xs = xs @ [(k, v)]"
  by (induction xs) (auto split: if_splits)

lemma votes_weight_append:
  "votes_weight opt (xs @ [(a, v)]) = votes_weight opt xs + (if vo_option v = opt then vo_power v else 0)"
  by (simp add: votes_weight_def)

lemma cast_vote_ok:
  assumes ok: "proposal_ok p" and c: "cast_vote voter opt w b p = (r, p')"
  shows "proposal_ok p'"
proof (cases "r = Inr ()")
  case True
  have new: "map_of (pr_votes p) voter = None" and st: "pr_status p = ProposalActive"
    and p': "p' = (add_power opt w p)\<lparr>pr_votes := AList.update voter
      \<lparr>vo_voter = voter, vo_option = opt, vo_power = w, vo_cast_at = b\<rparr> (pr_votes p)\<rparr>"
    using c True by (auto simp: cast_vote_def Let_def split: if_splits)
  then show ?thesis using ok
    by (cases opt) (auto simp: proposal_ok_def AList_update_new votes_weight_append map_of_eq_None_iff)
next
  case False
  then have "p' = p" using c by (auto simp: cast_vote_def Let_def split: if_splits)
  with ok show ?thesis by simp
qed

lemma update_proposal_ok: "proposal_ok p \<Longrightarrow> proposal_ok (update_proposal_status b w p)"
  by (auto simp: update_proposal_status_def Let_def proposal_ok_def)

lemma proposal_execute_ok:
  assumes "proposal_ok p" and "proposal_execute b s m p = (r, p')"
  shows "proposal_ok p'"
  using assms by (auto simp: proposal_execute_def Let_def proposal_ok_def not_less split: if_splits option.splits)

text \<open>Voting happens once per address, in the window, while the proposal is active.\<close>

lemma cast_vote_Inr:
  "fst (cast_vote voter opt w b p) = Inr () \<longleftrightarrow>
     pr_voting_starts p \<le> b \<and> b \<le> pr_voting_ends p \<and> pr_status p = ProposalActive \<and> map_of (pr_votes p) voter = None"
  by (auto simp: cast_vote_def Let_def not_less)

lemma cast_vote_twice: "cast_vote voter opt w b p = (Inr (), p') \<Longrightarrow> fst (cast_vote voter opt' w' b' p') \<noteq> Inr ()"
  by (auto simp: cast_vote_Inr cast_vote_def Let_def update_conv' split: if_splits)

section \<open>The life of a proposal\<close>

text \<open>What a call may do with one proposal.\<close>

definition proposal_moves :: "proposal \<Rightarrow> proposal \<Rightarrow> bool" where
  "proposal_moves p p' \<longleftrightarrow>
     (pr_status p, pr_status p') \<in> {(ProposalPending, ProposalActive), (ProposalPending, ProposalPassed),
        (ProposalPending, ProposalFailed), (ProposalActive, ProposalActive), (ProposalActive, ProposalPassed),
        (ProposalActive, ProposalFailed), (ProposalPassed, ProposalExecuted)}"

definition proposal_final :: "proposal \<Rightarrow> bool" where
  "proposal_final p \<longleftrightarrow> pr_status p \<in> {ProposalFailed, ProposalExecuted, ProposalCancelled}"

inductive governance_step :: "float_ext \<Rightarrow> governance \<Rightarrow> governance \<Rightarrow> bool" for F where
  step_create: "gm_next_id g \<noteq> - 1 \<Longrightarrow>
    governance_step F g (snd (create_proposal_with_action F t title d a b act g))"
| step_vote: "governance_step F g (snd (governance_vote F i voter opt b g))"
| step_update: "governance_step F g (update_statuses b g)"
| step_execute: "governance_step F g (snd (execute_proposal i b g))"
| step_positions: "governance_step F g (g\<lparr>gm_total_voting_power := w, gm_voter_positions := vs\<rparr>)"

definition governance_ok :: "governance \<Rightarrow> bool" where
  "governance_ok g \<longleftrightarrow> (\<forall>i p. map_of (gm_proposals g) i = Some p \<longrightarrow> i < gm_next_id g \<and> proposal_ok p)"

definition proposal_of :: "governance \<Rightarrow> u64 \<Rightarrow> proposal option" where
  "proposal_of g i = (if governance_ok g then map_of (gm_proposals g) i else None)"

lemma governance_new_ok: "governance_ok governance_new"
  by (simp add: governance_ok_def governance_new_def)

lemma cast_vote_moves: "cast_vote voter opt w b p = (r, p') \<Longrightarrow> p' = p \<or> proposal_moves p p'"
  by (auto simp: cast_vote_def Let_def proposal_moves_def split: if_splits)

lemma update_proposal_moves: "update_proposal_status b w p = p \<or> proposal_moves p (update_proposal_status b w p)"
  by (auto simp: update_proposal_status_def Let_def proposal_moves_def)

lemma proposal_execute_moves: "proposal_execute b True m p = (r, p') \<Longrightarrow> p' = p \<or> proposal_moves p p'"
  by (auto simp: proposal_execute_def Let_def proposal_moves_def split: if_splits option.splits)

definition step_keeps :: "governance \<Rightarrow> governance \<Rightarrow> bool" where
  "step_keeps g g' \<longleftrightarrow> governance_ok g' \<and> (\<forall>j p. map_of (gm_proposals g) j = Some p \<longrightarrow>
     (\<exists>p'. map_of (gm_proposals g') j = Some p' \<and> (p' = p \<or> proposal_moves p p')))"

lemma with_proposal_keeps:
  assumes ok: "governance_ok g"
    and keep: "\<And>p r p'. f p = (r, p') \<Longrightarrow> (proposal_ok p \<longrightarrow> proposal_ok p') \<and> (p' = p \<or> proposal_moves p p')"
  shows "step_keeps g (snd (with_proposal i e f g))"
proof (cases "map_of (gm_proposals g) i")
  case None
  then show ?thesis using ok by (simp add: with_proposal_def step_keeps_def)
next
  case (Some q)
  obtain r q' where q': "f q = (r, q')" by fastforce
  have k: "proposal_ok q' \<and> i < gm_next_id g" "q' = q \<or> proposal_moves q q'"
    using keep[OF q'] ok Some by (auto simp: governance_ok_def)
  then show ?thesis using ok Some q'
    by (auto simp: with_proposal_def step_keeps_def governance_ok_def update_conv' split: if_splits)
qed

lemma execute_one_keeps:
  assumes "(case pr_action p of None \<Rightarrow> (Inl ExecNoAction, p)
       | Some (ProtocolUpgrade v activation_height d) \<Rightarrow>
           if b < activation_height then (Inl ExecTimelockNotExpired, p) else proposal_execute b True m p
       | Some _ \<Rightarrow> proposal_execute b True m p) = (r, p')"
  shows "proposal_ok p \<Longrightarrow> proposal_ok p'" and "p' = p \<or> proposal_moves p p'"
  using assms proposal_execute_ok[of p b True m r p'] proposal_execute_moves[of b m p r p']
  by (auto split: option.splits proposal_action.splits if_splits)

lemma create_keeps:
  assumes ok: "governance_ok g" and room: "gm_next_id g \<noteq> - 1"
  shows "step_keeps g (snd (create_proposal_with_action F t title d a b act g))"
proof (cases "get_voting_power F g a b < proposal_threshold g")
  case True
  then show ?thesis using ok by (simp add: create_proposal_with_action_def step_keeps_def)
next
  case False
  let ?n = "gm_next_id g"
  have "unat (?n + 1) = Suc (unat ?n)" using room by (metis add.commute unatSuc add_eq_0_iff)
  then have inc: "i < ?n + 1" if "i \<le> ?n" for i using that by (simp add: word_less_nat_alt word_le_nat_alt)
  have old: "i < ?n \<and> proposal_ok p" if "map_of (gm_proposals g) i = Some p" for i p
    using ok that by (auto simp: governance_ok_def)
  then have "map_of (gm_proposals g) ?n = None" by (cases "map_of (gm_proposals g) ?n") auto
  then show ?thesis using False old inc
    by (fastforce simp: create_proposal_with_action_def step_keeps_def governance_ok_def Let_def update_conv' proposal_ok_new
        intro: less_imp_le)
qed

lemma vote_keeps:
  assumes "governance_ok g"
  shows "step_keeps g (snd (governance_vote F i voter opt b g))"
proof (cases "get_voting_power F g voter b = 0")
  case True
  then show ?thesis using assms by (simp add: governance_vote_def step_keeps_def)
next
  case False
  then have e: "governance_vote F i voter opt b g =
      with_proposal i ProposalNotFound (cast_vote voter opt (get_voting_power F g voter b) b) g"
    by (simp add: governance_vote_def Let_def)
  show ?thesis unfolding e
    by (rule with_proposal_keeps[OF assms]) (use cast_vote_ok cast_vote_moves in blast)
qed

lemma execute_keeps: "governance_ok g \<Longrightarrow> step_keeps g (snd (execute_proposal i b g))"
  unfolding execute_proposal_def by (rule with_proposal_keeps) (use execute_one_keeps in blast)+

lemma update_keeps: "governance_ok g \<Longrightarrow> step_keeps g (update_statuses b g)"
proof -
  assume ok: "governance_ok g"
  have m: "map_of (gm_proposals (update_statuses b g)) j =
      map_option (update_proposal_status b (gm_total_voting_power g)) (map_of (gm_proposals g) j)" for j
    by (simp add: update_statuses_def map_of_map)
  show ?thesis using ok update_proposal_moves update_proposal_ok
    by (auto simp: step_keeps_def governance_ok_def m) (simp add: update_statuses_def)+
qed

lemma governance_step_keeps: "governance_step F g g' \<Longrightarrow> governance_ok g \<Longrightarrow> step_keeps g g'"
proof (induction rule: governance_step.induct)
  case (step_positions g w vs)
  then show ?case by (simp add: step_keeps_def governance_ok_def)
qed (auto intro: create_keeps vote_keeps update_keeps execute_keeps)

interpretation governance_machine: entry_machine "\<lambda>g g'. governance_ok g \<and> governance_step F g g'" proposal_of
    proposal_moves proposal_final for F
proof unfold_locales
  fix g g' j p assume "governance_ok g \<and> governance_step F g g'" and "proposal_of g j = Some p"
  then show "\<exists>p'. proposal_of g' j = Some p' \<and> (p' = p \<or> proposal_moves p p')"
    using governance_step_keeps by (auto simp: step_keeps_def proposal_of_def)
qed (auto simp: proposal_final_def proposal_moves_def)

lemma governance_run_ok:
  "(governance_step F)\<^sup>*\<^sup>* g g' \<Longrightarrow> governance_ok g \<Longrightarrow> governance_ok g' \<and> (\<lambda>g g'. governance_ok g \<and> governance_step F g g')\<^sup>*\<^sup>* g g'"
proof (induction rule: rtranclp_induct)
  case (step h h')
  then have "governance_ok h" "(\<lambda>g g'. governance_ok g \<and> governance_step F g g')\<^sup>*\<^sup>* g h" by simp_all
  moreover have "governance_ok h'" using governance_step_keeps[OF step(2)] \<open>governance_ok h\<close> by (simp add: step_keeps_def)
  ultimately show ?case using step(2) rtranclp.rtrancl_into_rtrancl[of "\<lambda>g g'. governance_ok g \<and> governance_step F g g'" g h h']
    by simp
qed simp

section \<open>A manager whose total voting power was never set\<close>

text \<open>The total is a field that no method writes, 0 in a new manager: then the required participation is met by any vote,
  since a positive number over zero is infinite, and anyone may propose.\<close>

lemma threshold_below_one: "\<exists>v. approval_threshold t = FFin False v \<and> v \<le> 1" "\<exists>v. participation_threshold t = FFin False v"
proof -
  have f: "\<exists>v. f_of_rat r = FFin False v \<and> 0 \<le> v \<and> v \<le> 1" if "0 \<le> r" "r \<le> 1" for r
    using f_round_between[of r 1] that by (auto simp: f_of_rat_def)
  show "\<exists>v. approval_threshold t = FFin False v \<and> v \<le> 1"
    using f[of "1 / 2"] f[of "8 / 10"] f[of "9 / 10"]
    by (cases t) (auto simp: GOV_QUORUM_THRESHOLD_def SUPERMAJORITY_THRESHOLD_def)
  show "\<exists>v. participation_threshold t = FFin False v"
    using f[of "10 / 100"] f[of "15 / 100"] f[of "20 / 100"] f[of "30 / 100"] f[of "5 / 100"] by (cases t) auto
qed

lemma unset_power_passes:
  assumes "0 < pr_votes_for p" and "unat (pr_votes_for p) < 2 ^ 53" and "pr_votes_against p = 0" and "pr_votes_abstain p = 0"
  shows "vote_passes 0 p"
proof -
  let ?n = "of_nat (unat (pr_votes_for p)) :: rat"
  have n: "f_of_word (pr_votes_for p) = FFin False ?n" by (rule f_of_word_exact[OF assms(2)])
  have pos: "?n \<noteq> 0" using assms(1) by (metis of_nat_eq_0_iff unat_eq_0 word_gt_0)
  have "f_of_word (0 :: u128) = FFin False 0" by (simp add: f_of_word_def f_round_alt)
  then have "participation_of 0 p = FInf False"
    using assms(3,4) pos by (simp only: participation_of_def n f_div.simps if_True if_False) (simp add: n)
  moreover have "approval_of p = FFin False 1"
    using assms(1,3) n pos f_round_int[of 1 False] by (simp add: approval_of_def)
  ultimately show ?thesis using threshold_below_one[of "pr_type p"] by (auto simp: vote_passes_def)
qed

lemma unset_power_threshold: "gm_total_voting_power g = 0 \<Longrightarrow> proposal_threshold g = 0"
proof -
  have u: "unit_share delta_critical"
    unfolding delta_critical_def
  proof (rule unit_share_mul)
    obtain e where "ETA = FFin False e" "0 < e" "e \<le> 1" using ETA_positive by blast
    then show "unit_share ETA" using unit_shareI[of e] by (metis less_imp_le)
    then show "unit_share (f_sub f_one ETA)" by (rule unit_share_complement)
  qed
  assume "gm_total_voting_power g = 0"
  then show ?thesis using share_le[of "0 :: u128" delta_critical, where 'b = 128] u
    by (simp add: proposal_threshold_def proposal_threshold_pct_def unat_eq_0)
qed

end
