(* ===== verification/Tokenomics_Staking.thy ===== *)
theory Tokenomics_Staking
  imports Tokenomics_Governance
begin

text \<open>
  \<open>tokenomics/src/staking.rs\<close>: portfolios of stakes in the dimensional pools, their diversification bonus and their
  rewards. Hash maps are association lists in the order in which they are walked.
\<close>

section \<open>Definitions\<close>

definition max_viviani_bonus :: f64 where
  "max_viviani_bonus = delta_critical"

record staking_metrics =
  sm_avg_dimensional_scale :: f64
  sm_median_portfolio_stake :: u128
  sm_current_block :: u64
  sm_blocks_per_year :: u64

definition staking_metrics_bootstrap :: "float_ext \<Rightarrow> u64 \<Rightarrow> staking_metrics" where
  "staking_metrics_bootstrap F blocks_per_year =
     (let avg_scale = f_div (f_sum (map (\<lambda>n. fm_exp F (f_mul (f_neg ETA) (f_of_nat n))) [1..<9])) (f_of_rat 8) in
      \<lparr>sm_avg_dimensional_scale = avg_scale, sm_median_portfolio_stake = 0, sm_current_block = 0,
       sm_blocks_per_year = blocks_per_year\<rparr>)"

definition staking_metrics_default :: "float_ext \<Rightarrow> staking_metrics" where
  "staking_metrics_default F = staking_metrics_bootstrap F 3650000"

definition staking_target_eta :: "staking_metrics \<Rightarrow> f64" where
  "staking_target_eta m = sm_avg_dimensional_scale m"

definition update_from_network :: "float_ext \<Rightarrow> (pool_type \<times> u128) list \<Rightarrow> u128 \<Rightarrow> u64 \<Rightarrow> staking_metrics \<Rightarrow> staking_metrics" where
  "update_from_network F pool_totals median_portfolio current_block m =
     (let m1 = m\<lparr>sm_median_portfolio_stake := median_portfolio, sm_current_block := current_block\<rparr>;
          sum_all = sum_list (map snd pool_totals)
      in if 0 < sum_all
         then m1\<lparr>sm_avg_dimensional_scale := f_sum (map (\<lambda>(p, amount).
           f_mul (pool_scale F p) (f_div (f_of_word amount) (f_of_word sum_all))) pool_totals)\<rparr>
         else m1)"

definition get_base_yield :: "float_ext \<Rightarrow> pool_type \<Rightarrow> f64" where
  "get_base_yield F p = f_mul ETA (pool_scale F p)"

record stake_position =
  sp_pool_type :: pool_type
  sp_amount :: u128
  sp_start_block :: u64
  sp_last_claim_block :: u64
  sp_pending_rewards :: u128

definition calculate_base_rewards :: "float_ext \<Rightarrow> u64 \<Rightarrow> u64 \<Rightarrow> stake_position \<Rightarrow> u128" where
  "calculate_base_rewards F current_block blocks_per_year s =
     (let blocks_elapsed = saturating_sub_word current_block (sp_last_claim_block s);
          base_yield = get_base_yield F (sp_pool_type s);
          yield_fraction = f_div (f_of_word blocks_elapsed) (f_of_word blocks_per_year)
      in f_to_word (f_mul (f_mul (f_of_word (sp_amount s)) base_yield) yield_fraction))"

record staking_portfolio =
  spf_owner :: address
  spf_positions :: "(pool_type \<times> stake_position) list"
  spf_viviani_delta :: f64
  spf_multiplier :: f64

definition portfolio_new :: "address \<Rightarrow> staking_portfolio" where
  "portfolio_new owner = \<lparr>spf_owner = owner, spf_positions = [], spf_viviani_delta = f_one, spf_multiplier = f_one\<rparr>"

definition portfolio_staked :: "staking_portfolio \<Rightarrow> u128" where
  "portfolio_staked f = sum_list (map (sp_amount \<circ> snd) (spf_positions f))"

definition calculate_eta_lambda :: "float_ext \<Rightarrow> staking_portfolio \<Rightarrow> f64 \<times> f64" where
  "calculate_eta_lambda F f =
     (if spf_positions f = [] then (f_zero, f_zero)
      else let total_staked = portfolio_staked f in
        if total_staked = 0 then (f_zero, f_zero)
        else let eta_user = f_sum (map (\<lambda>(p, s). f_mul (pool_scale F p) (f_div (f_of_word (sp_amount s)) (f_of_word total_staked)))
                   (spf_positions f));
                 hhi = f_sum (map (\<lambda>(p, s). let share = f_div (f_of_word (sp_amount s)) (f_of_word total_staked) in f_mul share share)
                   (spf_positions f))
             in (eta_user, f_sub f_one hhi))"

definition calculate_viviani_delta :: "float_ext \<Rightarrow> staking_metrics \<Rightarrow> staking_portfolio \<Rightarrow> f64" where
  "calculate_viviani_delta F m f =
     (case calculate_eta_lambda F f of (eta, lam) \<Rightarrow>
        if f_eq_zero eta \<or> f_eq_zero lam then f_one
        else f_add (f_abs (f_sub eta (staking_target_eta m))) (f_sub f_one lam))"

definition calculate_multiplier :: "float_ext \<Rightarrow> staking_portfolio \<Rightarrow> f64" where
  "calculate_multiplier F f =
     (case calculate_eta_lambda F f of (eta, lam) \<Rightarrow>
        if spf_positions f = [] then f_one
        else let pool_coverage = f_div (f_of_nat (length (spf_positions f))) (f_of_rat 8);
                 bonus = f_mul (f_mul lam pool_coverage) delta_critical
             in f_add f_one bonus)"

definition update_portfolio_metrics :: "float_ext \<Rightarrow> staking_metrics \<Rightarrow> staking_portfolio \<Rightarrow> staking_portfolio" where
  "update_portfolio_metrics F m f =
     (let f1 = f\<lparr>spf_viviani_delta := calculate_viviani_delta F m f\<rparr> in f1\<lparr>spf_multiplier := calculate_multiplier F f1\<rparr>)"

definition portfolio_stake ::
  "float_ext \<Rightarrow> pool_type \<Rightarrow> u128 \<Rightarrow> u64 \<Rightarrow> staking_metrics \<Rightarrow> staking_portfolio \<Rightarrow> staking_portfolio" where
  "portfolio_stake F p amount current_block m f =
     (let pos = (case map_of (spf_positions f) p of
            Some s \<Rightarrow> s\<lparr>sp_amount := sp_amount s + amount\<rparr>
          | None \<Rightarrow> \<lparr>sp_pool_type = p, sp_amount = amount, sp_start_block = current_block,
              sp_last_claim_block = current_block, sp_pending_rewards = 0\<rparr>)
      in update_portfolio_metrics F m (f\<lparr>spf_positions := AList.update p pos (spf_positions f)\<rparr>))"

definition portfolio_unstake ::
  "float_ext \<Rightarrow> pool_type \<Rightarrow> u128 \<Rightarrow> staking_metrics \<Rightarrow> staking_portfolio \<Rightarrow> u128 option \<times> staking_portfolio" where
  "portfolio_unstake F p amount m f =
     (case map_of (spf_positions f) p of None \<Rightarrow> (None, f)
      | Some s \<Rightarrow>
          let actual = min amount (sp_amount s); s' = s\<lparr>sp_amount := sp_amount s - actual\<rparr>;
              ps = (if sp_amount s' = 0 then AList.delete p (spf_positions f) else AList.update p s' (spf_positions f))
          in (Some actual, update_portfolio_metrics F m (f\<lparr>spf_positions := ps\<rparr>)))"

definition calculate_total_rewards :: "float_ext \<Rightarrow> staking_metrics \<Rightarrow> staking_portfolio \<Rightarrow> u128" where
  "calculate_total_rewards F m f =
     (let base_rewards = sum_list (map (\<lambda>(_, s). calculate_base_rewards F (sm_current_block m) (sm_blocks_per_year m) s)
            (spf_positions f))
      in f_to_word (f_mul (f_of_word base_rewards) (spf_multiplier f)))"

definition claim_rewards :: "float_ext \<Rightarrow> staking_metrics \<Rightarrow> staking_portfolio \<Rightarrow> u128 \<times> staking_portfolio" where
  "claim_rewards F m f =
     (calculate_total_rewards F m f,
      f\<lparr>spf_positions := map (\<lambda>(p, s). (p, s\<lparr>sp_last_claim_block := sm_current_block m, sp_pending_rewards := 0\<rparr>)) (spf_positions f)\<rparr>)"

record portfolio_summary =
  psm_owner :: address
  psm_total_staked :: u128
  psm_num_pools :: nat
  psm_eta_user :: f64
  psm_lambda_user :: f64
  psm_target_eta :: f64
  psm_viviani_delta :: f64
  psm_multiplier :: f64
  psm_bonus_pct :: f64
  psm_delta_critical :: f64

definition portfolio_summary_of :: "float_ext \<Rightarrow> staking_metrics \<Rightarrow> staking_portfolio \<Rightarrow> portfolio_summary" where
  "portfolio_summary_of F m f = (case calculate_eta_lambda F f of (eta, lam) \<Rightarrow>
     \<lparr>psm_owner = spf_owner f, psm_total_staked = portfolio_staked f, psm_num_pools = length (spf_positions f),
      psm_eta_user = eta, psm_lambda_user = lam, psm_target_eta = staking_target_eta m, psm_viviani_delta = spf_viviani_delta f,
      psm_multiplier = spf_multiplier f, psm_bonus_pct = f_mul (f_sub (spf_multiplier f) f_one) (f_of_rat 100),
      psm_delta_critical = delta_critical\<rparr>)"

record staking_manager =
  stm_portfolios :: "(address \<times> staking_portfolio) list"
  stm_total_staked :: u128
  stm_metrics :: staking_metrics

definition staking_manager_new :: "float_ext \<Rightarrow> u64 \<Rightarrow> staking_manager" where
  "staking_manager_new F blocks_per_year =
     \<lparr>stm_portfolios = [], stm_total_staked = 0, stm_metrics = staking_metrics_bootstrap F blocks_per_year\<rparr>"

definition stm_update_metrics :: "staking_metrics \<Rightarrow> staking_manager \<Rightarrow> staking_manager" where
  "stm_update_metrics m st = st\<lparr>stm_metrics := m\<rparr>"

definition stm_set_block :: "u64 \<Rightarrow> staking_manager \<Rightarrow> staking_manager" where
  "stm_set_block block st = st\<lparr>stm_metrics := (stm_metrics st)\<lparr>sm_current_block := block\<rparr>\<rparr>"

definition get_or_create_portfolio :: "address \<Rightarrow> staking_manager \<Rightarrow> staking_portfolio \<times> staking_manager" where
  "get_or_create_portfolio owner st = (case map_of (stm_portfolios st) owner of Some f \<Rightarrow> (f, st)
     | None \<Rightarrow> (portfolio_new owner, st\<lparr>stm_portfolios := AList.update owner (portfolio_new owner) (stm_portfolios st)\<rparr>))"

definition stm_stake :: "float_ext \<Rightarrow> address \<Rightarrow> pool_type \<Rightarrow> u128 \<Rightarrow> u64 \<Rightarrow> staking_manager \<Rightarrow> staking_manager" where
  "stm_stake F owner p amount current_block st =
     (case get_or_create_portfolio owner st of (f, st1) \<Rightarrow>
        st1\<lparr>stm_portfolios := AList.update owner (portfolio_stake F p amount current_block (stm_metrics st) f) (stm_portfolios st1),
            stm_total_staked := stm_total_staked st1 + amount\<rparr>)"

definition stm_unstake :: "float_ext \<Rightarrow> address \<Rightarrow> pool_type \<Rightarrow> u128 \<Rightarrow> staking_manager \<Rightarrow> u128 option \<times> staking_manager" where
  "stm_unstake F owner p amount st =
     (case map_of (stm_portfolios st) owner of None \<Rightarrow> (None, st)
      | Some f \<Rightarrow> (case portfolio_unstake F p amount (stm_metrics st) f of
            (None, f') \<Rightarrow> (None, st\<lparr>stm_portfolios := AList.update owner f' (stm_portfolios st)\<rparr>)
          | (Some actual, f') \<Rightarrow> (Some actual, st\<lparr>stm_portfolios := AList.update owner f' (stm_portfolios st),
              stm_total_staked := saturating_sub_word (stm_total_staked st) actual\<rparr>)))"

definition calculate_median_stake :: "staking_manager \<Rightarrow> u128" where
  "calculate_median_stake st =
     (let stakes = filter (\<lambda>s. 0 < s) (map (portfolio_staked \<circ> snd) (stm_portfolios st)) in
      if stakes = [] then 0 else sort stakes ! (length stakes div 2))"

record network_staking_stats =
  nss_total_staked :: u128
  nss_total_portfolios :: nat
  nss_active_portfolios :: nat
  nss_median_portfolio_stake :: u128
  nss_avg_multiplier :: f64
  nss_avg_pools_per_portfolio :: f64
  nss_target_eta :: f64
  nss_delta_critical :: f64

definition network_stats :: "staking_manager \<Rightarrow> network_staking_stats" where
  "network_stats st =
     (let active = filter (\<lambda>f. spf_positions f \<noteq> []) (map snd (stm_portfolios st)) in
      \<lparr>nss_total_staked = stm_total_staked st, nss_total_portfolios = length (stm_portfolios st),
       nss_active_portfolios = length active, nss_median_portfolio_stake = calculate_median_stake st,
       nss_avg_multiplier = (if active \<noteq> [] then f_div (f_sum (map spf_multiplier active)) (f_of_nat (length active)) else f_one),
       nss_avg_pools_per_portfolio = (if active \<noteq> [] then
         f_div (f_of_nat (sum_list (map (length \<circ> spf_positions) active))) (f_of_nat (length active)) else f_zero),
       nss_target_eta = staking_target_eta (stm_metrics st), nss_delta_critical = delta_critical\<rparr>)"

section \<open>The total is the sum of the stakes\<close>

definition stakes_sum :: "staking_manager \<Rightarrow> nat" where
  "stakes_sum st = (\<Sum>f\<leftarrow>map snd (stm_portfolios st). \<Sum>s\<leftarrow>map snd (spf_positions f). unat (sp_amount s))"

definition portfolio_ok :: "staking_portfolio \<Rightarrow> bool" where
  "portfolio_ok f \<longleftrightarrow> distinct (map fst (spf_positions f))"

definition staking_ok :: "staking_manager \<Rightarrow> bool" where
  "staking_ok st \<longleftrightarrow> distinct (map fst (stm_portfolios st)) \<and> (\<forall>(a, f)\<in>set (stm_portfolios st). portfolio_ok f) \<and>
     unat (stm_total_staked st) = stakes_sum st"

definition position_amount :: "pool_type \<Rightarrow> staking_portfolio \<Rightarrow> nat" where
  "position_amount p f = (case map_of (spf_positions f) p of None \<Rightarrow> 0 | Some s \<Rightarrow> unat (sp_amount s))"

definition portfolio_sum :: "staking_portfolio \<Rightarrow> nat" where
  "portfolio_sum f = (\<Sum>s\<leftarrow>map snd (spf_positions f). unat (sp_amount s))"

lemma stakes_sum_alt: "stakes_sum st = (\<Sum>f\<leftarrow>map snd (stm_portfolios st). portfolio_sum f)"
  by (simp add: stakes_sum_def portfolio_sum_def)

lemma positions_update_metrics [simp]: "spf_positions (update_portfolio_metrics F m f) = spf_positions f"
  by (simp add: update_portfolio_metrics_def Let_def)

lemma portfolio_new_ok [simp]: "portfolio_ok (portfolio_new a)" "portfolio_sum (portfolio_new a) = 0"
  by (simp_all add: portfolio_ok_def portfolio_new_def portfolio_sum_def)

lemma position_amount_le: "position_amount p f \<le> portfolio_sum f"
proof (cases "map_of (spf_positions f) p")
  case (Some s)
  then have "s \<in> set (map snd (spf_positions f))" by (force dest: map_of_SomeD)
  then have "unat (sp_amount s) \<in> set (map (unat \<circ> sp_amount) (map snd (spf_positions f)))" by auto
  then have "unat (sp_amount s) \<le> sum_list (map (unat \<circ> sp_amount) (map snd (spf_positions f)))" by (intro member_le_sum_list) simp_all
  then show ?thesis using Some by (simp add: position_amount_def portfolio_sum_def comp_def)
qed (simp add: position_amount_def)

lemma portfolio_stake_ok:
  assumes "portfolio_ok f" and "position_amount p f + unat amount < 2 ^ 128"
  shows "portfolio_ok (portfolio_stake F p amount b m f)"
    and "portfolio_sum (portfolio_stake F p amount b m f) = portfolio_sum f + unat amount"
proof -
  define pos where "pos = (case map_of (spf_positions f) p of
      Some s \<Rightarrow> s\<lparr>sp_amount := sp_amount s + amount\<rparr>
    | None \<Rightarrow> \<lparr>sp_pool_type = p, sp_amount = amount, sp_start_block = b, sp_last_claim_block = b, sp_pending_rewards = 0\<rparr>)"
  have e: "spf_positions (portfolio_stake F p amount b m f) = AList.update p pos (spf_positions f)"
    by (simp add: portfolio_stake_def pos_def)
  show "portfolio_ok (portfolio_stake F p amount b m f)"
    using assms(1) by (simp add: portfolio_ok_def e distinct_update)
  have a: "unat (sp_amount pos) = position_amount p f + unat amount"
    using assms(2) by (cases "map_of (spf_positions f) p") (auto simp: pos_def position_amount_def unat_add_small)
  show "portfolio_sum (portfolio_stake F p amount b m f) = portfolio_sum f + unat amount"
    using sum_update[where w = "unat \<circ> sp_amount" and k = p and v = pos and xs = "spf_positions f"] assms(1) a
    by (simp add: portfolio_ok_def portfolio_sum_def e position_amount_def comp_def split: option.splits)
qed

lemma portfolio_unstake_ok:
  assumes "portfolio_ok f" and "portfolio_unstake F p amount m f = (r, f')"
  shows "portfolio_ok f'" and "portfolio_sum f' + (case r of None \<Rightarrow> 0 | Some a \<Rightarrow> unat a) = portfolio_sum f"
    and "r = Some a \<Longrightarrow> unat a = min (unat amount) (position_amount p f)"
proof -
  have "portfolio_ok f' \<and> portfolio_sum f' + (case r of None \<Rightarrow> 0 | Some a \<Rightarrow> unat a) = portfolio_sum f \<and>
    (r = Some a \<longrightarrow> unat a = min (unat amount) (position_amount p f))"
  proof (cases "map_of (spf_positions f) p")
    case None
    then show ?thesis using assms by (auto simp: portfolio_unstake_def)
  next
    case (Some s)
    define act where "act = min amount (sp_amount s)"
    define s' where "s' = s\<lparr>sp_amount := sp_amount s - act\<rparr>"
    have u: "unat act = min (unat amount) (unat (sp_amount s))" by (simp add: act_def min_def word_le_nat_alt)
    have le: "act \<le> sp_amount s" by (simp add: act_def)
    have a: "unat (sp_amount s') + unat act = unat (sp_amount s)"
      using le by (simp add: s'_def unat_sub word_le_nat_alt)
    have d: "distinct (map fst (spf_positions f))" using assms(1) by (simp add: portfolio_ok_def)
    have r: "r = Some act" "spf_positions f' =
        (if sp_amount s' = 0 then AList.delete p (spf_positions f) else AList.update p s' (spf_positions f))"
      using assms(2) Some by (auto simp: portfolio_unstake_def Let_def act_def s'_def)
    have "portfolio_sum f' + unat act = portfolio_sum f"
    proof (cases "sp_amount s' = 0")
      case True
      then show ?thesis using sum_delete[OF d, where w = "unat \<circ> sp_amount" and k = p] a r Some
        by (simp add: portfolio_sum_def comp_def)
    next
      case False
      then show ?thesis using sum_update[OF d, where w = "unat \<circ> sp_amount" and k = p and v = s'] a r Some
        by (simp add: portfolio_sum_def comp_def)
    qed
    moreover have "portfolio_ok f'" using d r(2) by (simp add: portfolio_ok_def distinct_update distinct_delete)
    ultimately show ?thesis using r(1) u Some by (auto simp: position_amount_def)
  qed
  then show "portfolio_ok f'" "portfolio_sum f' + (case r of None \<Rightarrow> 0 | Some a \<Rightarrow> unat a) = portfolio_sum f"
    "r = Some a \<Longrightarrow> unat a = min (unat amount) (position_amount p f)" by blast+
qed

definition staked_in :: "address \<Rightarrow> staking_manager \<Rightarrow> nat" where
  "staked_in a st = (case map_of (stm_portfolios st) a of None \<Rightarrow> 0 | Some f \<Rightarrow> portfolio_sum f)"

lemma portfolio_sum_le: "staked_in a st \<le> stakes_sum st"
proof (cases "map_of (stm_portfolios st) a")
  case (Some f)
  then have "portfolio_sum f \<in> set (map portfolio_sum (map snd (stm_portfolios st)))" by (force dest: map_of_SomeD)
  then have "portfolio_sum f \<le> sum_list (map portfolio_sum (map snd (stm_portfolios st)))" by (intro member_le_sum_list) simp_all
  then show ?thesis using Some by (simp add: staked_in_def stakes_sum_alt comp_def)
qed (simp add: staked_in_def)

lemma stm_update_ok:
  assumes "staking_ok st" and "portfolio_ok f'" and "stm_portfolios st' = AList.update owner f' (stm_portfolios st)"
    and "unat (stm_total_staked st') + staked_in owner st = unat (stm_total_staked st) + portfolio_sum f'"
  shows "staking_ok st'"
proof -
  have "stakes_sum st' + staked_in owner st = stakes_sum st + portfolio_sum f'"
    using sum_update[where w = portfolio_sum and k = owner and v = f' and xs = "stm_portfolios st"] assms(1,3)
    by (simp add: staking_ok_def stakes_sum_alt staked_in_def)
  moreover have "\<forall>(a, f)\<in>set (stm_portfolios st'). portfolio_ok f"
  proof -
    have m: "v = f' \<or> (k, v) \<in> set (stm_portfolios st)" if "(k, v) \<in> set (stm_portfolios st')" for k v
      using that assms(1,3) map_of_is_SomeI[of "stm_portfolios st'" k v]
      by (auto simp: staking_ok_def distinct_update update_conv' dest: map_of_SomeD split: if_splits)
    show ?thesis
    proof (intro ballI, clarify)
      fix k v assume "(k, v) \<in> set (stm_portfolios st')"
      from m[OF this] show "portfolio_ok v" using assms(1,2) by (auto simp: staking_ok_def)
    qed
  qed
  ultimately show ?thesis using assms by (simp add: staking_ok_def distinct_update)
qed

lemma stm_stake_ok:
  assumes "staking_ok st" and "stakes_sum st + unat amount < 2 ^ 128"
  shows "staking_ok (stm_stake F owner p amount b st)"
proof -
  define f where "f = (case map_of (stm_portfolios st) owner of Some f \<Rightarrow> f | None \<Rightarrow> portfolio_new owner)"
  define f' where "f' = portfolio_stake F p amount b (stm_metrics st) f"
  have f: "portfolio_ok f" "portfolio_sum f = staked_in owner st"
    using assms(1) by (auto simp: f_def staked_in_def staking_ok_def dest!: map_of_SomeD split: option.split)
  have small: "position_amount p f + unat amount < 2 ^ 128"
    using position_amount_le[of p f] portfolio_sum_le[of owner st] f(2) assms(2) by linarith
  note f' = portfolio_stake_ok[OF f(1) small, of F b "stm_metrics st", folded f'_def]
  show ?thesis
  proof (rule stm_update_ok[OF assms(1) f'(1)])
    show "stm_portfolios (stm_stake F owner p amount b st) = AList.update owner f' (stm_portfolios st)"
      by (cases "map_of (stm_portfolios st) owner")
        (simp_all add: stm_stake_def get_or_create_portfolio_def f'_def f_def)
    have "stm_total_staked (stm_stake F owner p amount b st) = stm_total_staked st + amount"
      by (cases "map_of (stm_portfolios st) owner") (simp_all add: stm_stake_def get_or_create_portfolio_def)
    then show "unat (stm_total_staked (stm_stake F owner p amount b st)) + staked_in owner st =
        unat (stm_total_staked st) + portfolio_sum f'"
      using assms f(2) f'(2) by (simp add: unat_add_small staking_ok_def)
  qed
qed

lemma stm_unstake_ok:
  assumes "staking_ok st" and "stm_unstake F owner p amount st = (r, st')"
  shows "staking_ok st'"
proof (cases "map_of (stm_portfolios st) owner")
  case None
  then show ?thesis using assms by (simp add: stm_unstake_def)
next
  case (Some f)
  have f: "portfolio_ok f" using assms(1) Some by (auto simp: staking_ok_def dest: map_of_SomeD)
  obtain r0 f' where u: "portfolio_unstake F p amount (stm_metrics st) f = (r0, f')" by fastforce
  note f' = portfolio_unstake_ok(1,2)[OF f u]
  have "stm_portfolios st' = AList.update owner f' (stm_portfolios st)"
    and "stm_total_staked st' = (case r0 of None \<Rightarrow> stm_total_staked st | Some a \<Rightarrow> saturating_sub_word (stm_total_staked st) a)"
    using assms(2) Some u by (auto simp: stm_unstake_def split: option.splits)
  moreover have "unat (saturating_sub_word (stm_total_staked st) a) + unat a = unat (stm_total_staked st)" if "r0 = Some a" for a
    using f'(2) that portfolio_sum_le[of owner st] Some assms(1)
    by (simp add: unat_saturating_sub staking_ok_def staked_in_def)
  ultimately show ?thesis
    using f'(2) Some by (intro stm_update_ok[OF assms(1) f'(1)]) (auto simp: staked_in_def split: option.splits)
qed

lemma stm_stake_total:
  assumes "staking_ok st" and "stakes_sum st + unat amount < 2 ^ 128"
  shows "unat (stm_total_staked (stm_stake F owner p amount b st)) = unat (stm_total_staked st) + unat amount"
proof -
  have "stm_total_staked (stm_stake F owner p amount b st) = stm_total_staked st + amount"
    by (cases "map_of (stm_portfolios st) owner") (simp_all add: stm_stake_def get_or_create_portfolio_def)
  then show ?thesis using assms by (simp add: unat_add_small staking_ok_def)
qed

lemma stm_unstake_total:
  assumes "staking_ok st" and "stm_unstake F owner p amount st = (r, st')"
  shows "unat (stm_total_staked st') + (case r of None \<Rightarrow> 0 | Some a \<Rightarrow> unat a) = unat (stm_total_staked st)"
proof (cases "map_of (stm_portfolios st) owner")
  case None
  then show ?thesis using assms by (auto simp: stm_unstake_def)
next
  case (Some f)
  have f: "portfolio_ok f" using assms(1) Some by (auto simp: staking_ok_def dest: map_of_SomeD)
  obtain r0 f' where u: "portfolio_unstake F p amount (stm_metrics st) f = (r0, f')" by fastforce
  have le: "unat a \<le> unat (stm_total_staked st)" if "r0 = Some a" for a
    using portfolio_unstake_ok(2)[OF f u] that portfolio_sum_le[of owner st] Some assms(1)
    by (simp add: staking_ok_def staked_in_def)
  have "r = r0" "stm_total_staked st' = (case r0 of None \<Rightarrow> stm_total_staked st | Some a \<Rightarrow> saturating_sub_word (stm_total_staked st) a)"
    using assms(2) Some u by (auto simp: stm_unstake_def split: option.splits)
  then show ?thesis using le by (auto simp: unat_saturating_sub split: option.split)
qed

section \<open>Topping up a stake\<close>

text \<open>A stake that is topped up keeps the block of its last claim: it is paid as if all of it had been there since then.\<close>

lemma top_up_is_backdated:
  assumes "map_of (spf_positions f) p = None"
  shows "spf_positions (portfolio_stake F p b late m' (portfolio_stake F p a early m f)) =
    spf_positions (portfolio_stake F p (a + b) early m'' f)"
  using assms by (simp add: portfolio_stake_def update_conv' )

lemma claim_pays_backdated:
  "calculate_base_rewards F now y (s\<lparr>sp_amount := sp_amount s + b\<rparr>) =
   (let f = f_div (f_of_word (saturating_sub_word now (sp_last_claim_block s))) (f_of_word y)
    in f_to_word (f_mul (f_mul (f_of_word (sp_amount s + b)) (get_base_yield F (sp_pool_type s))) f))"
  by (simp add: calculate_base_rewards_def)

end
