(* ===== verification/Tokenomics_Amm.thy ===== *)
theory Tokenomics_Amm
  imports Tokenomics_Pools Core_Types
begin

text \<open>
  \<open>tokenomics/src/amm.rs\<close>: the market maker between two tokens, whose product constant decays with time. A token pool
  here is an \<open>amm_pool\<close>; the two hash maps are association lists.
\<close>

section \<open>Definitions\<close>

record amm_pool =
  amm_pool_id :: "256 word"
  amm_token_a :: u8
  amm_token_b :: u8
  amm_reserve_a :: u128
  amm_reserve_b :: u128
  amm_initial_k :: f64
  amm_created_at_block :: u64
  amm_total_lp_tokens :: u128
  amm_lp_balances :: "(256 word \<times> u128) list"
  amm_cumulative_fees :: u128

definition amm_pool_new ::
  "float_ext \<Rightarrow> 256 word \<Rightarrow> u8 \<Rightarrow> u8 \<Rightarrow> u128 \<Rightarrow> u128 \<Rightarrow> 256 word \<Rightarrow> u64 \<Rightarrow> amm_pool" where
  "amm_pool_new F pool_id token_a token_b amount_a amount_b provider current_block =
     (let initial_k = f_mul (f_of_word amount_a) (f_of_word amount_b);
          lp_tokens = f_to_word (fm_sqrt F (f_mul (f_of_word amount_a) (f_of_word amount_b)))
      in \<lparr>amm_pool_id = pool_id, amm_token_a = token_a, amm_token_b = token_b, amm_reserve_a = amount_a,
          amm_reserve_b = amount_b, amm_initial_k = initial_k, amm_created_at_block = current_block,
          amm_total_lp_tokens = lp_tokens, amm_lp_balances = [(provider, lp_tokens)], amm_cumulative_fees = 0\<rparr>)"

definition amm_tau :: "u64 \<Rightarrow> u64 \<Rightarrow> amm_pool \<Rightarrow> f64" where
  "amm_tau current_block blocks_per_year p =
     f_div (f_of_word (saturating_sub_word current_block (amm_created_at_block p))) (f_of_word blocks_per_year)"

definition current_k :: "float_ext \<Rightarrow> u64 \<Rightarrow> u64 \<Rightarrow> amm_pool \<Rightarrow> f64" where
  "current_k F current_block blocks_per_year p =
     f_mul (amm_initial_k p) (fm_exp F (f_mul (f_neg ETA) (amm_tau current_block blocks_per_year p)))"

definition price_a_in_b :: "amm_pool \<Rightarrow> f64" where
  "price_a_in_b p = (if amm_reserve_a p = 0 then f_zero else f_div (f_of_word (amm_reserve_b p)) (f_of_word (amm_reserve_a p)))"

definition price_b_in_a :: "amm_pool \<Rightarrow> f64" where
  "price_b_in_a p = (if amm_reserve_b p = 0 then f_zero else f_div (f_of_word (amm_reserve_a p)) (f_of_word (amm_reserve_b p)))"

record swap_result =
  swr_amount_in :: u128
  swr_amount_out :: u128
  swr_fee_paid :: u128
  swr_price_before :: f64
  swr_price_after :: f64
  swr_price_impact :: f64

definition price_impact :: "f64 \<Rightarrow> f64 \<Rightarrow> f64" where
  "price_impact old_price new_price = f_abs (f_div (f_sub new_price old_price) old_price)"

definition swap_a_for_b :: "float_ext \<Rightarrow> u128 \<Rightarrow> u64 \<Rightarrow> u64 \<Rightarrow> f64 \<Rightarrow> amm_pool \<Rightarrow> swap_result \<times> amm_pool" where
  "swap_a_for_b F amount_a_in current_block blocks_per_year fee_rate p =
     (let k = current_k F current_block blocks_per_year p;
          fee = f_to_word (f_mul (f_of_word amount_a_in) fee_rate);
          new_reserve_a = amm_reserve_a p + (amount_a_in - fee);
          new_reserve_b = f_to_word (f_div k (f_of_word new_reserve_a));
          amount_b_out = saturating_sub_word (amm_reserve_b p) new_reserve_b;
          p' = p\<lparr>amm_cumulative_fees := amm_cumulative_fees p + fee, amm_reserve_a := new_reserve_a, amm_reserve_b := new_reserve_b\<rparr>
      in (\<lparr>swr_amount_in = amount_a_in, swr_amount_out = amount_b_out, swr_fee_paid = fee, swr_price_before = price_a_in_b p,
           swr_price_after = price_a_in_b p', swr_price_impact = price_impact (price_a_in_b p) (price_a_in_b p')\<rparr>, p'))"

definition swap_b_for_a :: "float_ext \<Rightarrow> u128 \<Rightarrow> u64 \<Rightarrow> u64 \<Rightarrow> f64 \<Rightarrow> amm_pool \<Rightarrow> swap_result \<times> amm_pool" where
  "swap_b_for_a F amount_b_in current_block blocks_per_year fee_rate p =
     (let k = current_k F current_block blocks_per_year p;
          fee = f_to_word (f_mul (f_of_word amount_b_in) fee_rate);
          new_reserve_b = amm_reserve_b p + (amount_b_in - fee);
          new_reserve_a = f_to_word (f_div k (f_of_word new_reserve_b));
          amount_a_out = saturating_sub_word (amm_reserve_a p) new_reserve_a;
          p' = p\<lparr>amm_cumulative_fees := amm_cumulative_fees p + fee, amm_reserve_a := new_reserve_a, amm_reserve_b := new_reserve_b\<rparr>
      in (\<lparr>swr_amount_in = amount_b_in, swr_amount_out = amount_a_out, swr_fee_paid = fee, swr_price_before = price_b_in_a p,
           swr_price_after = price_b_in_a p', swr_price_impact = price_impact (price_b_in_a p) (price_b_in_a p')\<rparr>, p'))"

record liquidity_result =
  lqr_lp_tokens_received :: u128
  lqr_amount_a_deposited :: u128
  lqr_amount_b_deposited :: u128
  lqr_share_of_pool :: f64

definition add_liquidity :: "float_ext \<Rightarrow> u128 \<Rightarrow> u128 \<Rightarrow> 256 word \<Rightarrow> amm_pool \<Rightarrow> liquidity_result \<times> amm_pool" where
  "add_liquidity F amount_a amount_b provider p =
     (let lp_tokens =
            (if amm_total_lp_tokens p = 0 then f_to_word (fm_sqrt F (f_mul (f_of_word amount_a) (f_of_word amount_b)))
             else let ratio = f_min (f_div (f_of_word amount_a) (f_of_word (amm_reserve_a p)))
                         (f_div (f_of_word amount_b) (f_of_word (amm_reserve_b p)))
                  in f_to_word (f_mul (f_of_word (amm_total_lp_tokens p)) ratio));
          held = (case map_of (amm_lp_balances p) provider of None \<Rightarrow> 0 | Some b \<Rightarrow> b);
          p' = p\<lparr>amm_reserve_a := amm_reserve_a p + amount_a, amm_reserve_b := amm_reserve_b p + amount_b,
            amm_total_lp_tokens := amm_total_lp_tokens p + lp_tokens,
            amm_lp_balances := AList.update provider (held + lp_tokens) (amm_lp_balances p)\<rparr>
      in (\<lparr>lqr_lp_tokens_received = lp_tokens, lqr_amount_a_deposited = amount_a, lqr_amount_b_deposited = amount_b,
           lqr_share_of_pool = f_div (f_of_word lp_tokens) (f_of_word (amm_total_lp_tokens p'))\<rparr>, p'))"

definition remove_liquidity :: "u128 \<Rightarrow> 256 word \<Rightarrow> amm_pool \<Rightarrow> (u128 \<times> u128) option \<times> amm_pool" where
  "remove_liquidity lp_tokens provider p =
     (case map_of (amm_lp_balances p) provider of None \<Rightarrow> (None, p)
      | Some balance \<Rightarrow>
          if balance < lp_tokens then (None, p)
          else let share = f_div (f_of_word lp_tokens) (f_of_word (amm_total_lp_tokens p));
                   amount_a = f_to_word (f_mul (f_of_word (amm_reserve_a p)) share);
                   amount_b = f_to_word (f_mul (f_of_word (amm_reserve_b p)) share)
               in (Some (amount_a, amount_b),
                   p\<lparr>amm_reserve_a := amm_reserve_a p - amount_a, amm_reserve_b := amm_reserve_b p - amount_b,
                     amm_total_lp_tokens := amm_total_lp_tokens p - lp_tokens,
                     amm_lp_balances := AList.update provider (balance - lp_tokens) (amm_lp_balances p)\<rparr>))"

definition impermanent_loss_protection :: "float_ext \<Rightarrow> u64 \<Rightarrow> u64 \<Rightarrow> u64 \<Rightarrow> f64" where
  "impermanent_loss_protection F stake_start_block current_block blocks_per_year =
     (let time_staked = f_div (f_of_word (saturating_sub_word current_block stake_start_block)) (f_of_word blocks_per_year)
      in f_sub f_one (fm_exp F (f_mul (f_neg ETA) time_staked)))"

record amm_manager =
  amn_pools :: "(256 word \<times> amm_pool) list"
  amn_fee_rate :: f64
  amn_blocks_per_year :: u64

definition amm_manager_new :: "u64 \<Rightarrow> amm_manager" where
  "amm_manager_new blocks_per_year = \<lparr>amn_pools = [], amn_fee_rate = f_of_rat (3 / 1000), amn_blocks_per_year = blocks_per_year\<rparr>"

definition amm_pool_id_of :: "u8 \<Rightarrow> u8 \<Rightarrow> u64 \<Rightarrow> 256 word" where
  "amm_pool_id_of token_a token_b current_block =
     word_rcat ([token_a, token_b] @ to_le_bytes current_block @ replicate 22 (0 :: u8))"

definition amm_create_pool ::
  "float_ext \<Rightarrow> u8 \<Rightarrow> u8 \<Rightarrow> u128 \<Rightarrow> u128 \<Rightarrow> 256 word \<Rightarrow> u64 \<Rightarrow> amm_manager \<Rightarrow> 256 word \<times> amm_manager" where
  "amm_create_pool F token_a token_b amount_a amount_b provider current_block m =
     (let pool_id = amm_pool_id_of token_a token_b current_block;
          pool = amm_pool_new F pool_id token_a token_b amount_a amount_b provider current_block
      in (pool_id, m\<lparr>amn_pools := AList.update pool_id pool (amn_pools m)\<rparr>))"

definition amm_get_pool :: "256 word \<Rightarrow> amm_manager \<Rightarrow> amm_pool option" where
  "amm_get_pool pool_id m = map_of (amn_pools m) pool_id"

definition amm_swap :: "float_ext \<Rightarrow> 256 word \<Rightarrow> bool \<Rightarrow> u128 \<Rightarrow> u64 \<Rightarrow> amm_manager \<Rightarrow> swap_result option \<times> amm_manager" where
  "amm_swap F pool_id sell_a amount_in current_block m =
     (case map_of (amn_pools m) pool_id of None \<Rightarrow> (None, m)
      | Some pool \<Rightarrow>
          (case (if sell_a then swap_a_for_b F amount_in current_block (amn_blocks_per_year m) (amn_fee_rate m) pool
                 else swap_b_for_a F amount_in current_block (amn_blocks_per_year m) (amn_fee_rate m) pool) of
             (result, pool') \<Rightarrow> (Some result, m\<lparr>amn_pools := AList.update pool_id pool' (amn_pools m)\<rparr>)))"

section \<open>Shares of the liquidity\<close>

text \<open>The liquidity tokens of a pool are what its providers hold, and nobody removes more than the reserves.\<close>

definition lp_sum :: "amm_pool \<Rightarrow> nat" where
  "lp_sum p = (\<Sum>b\<leftarrow>map snd (amm_lp_balances p). unat b)"

definition amm_pool_ok :: "amm_pool \<Rightarrow> bool" where
  "amm_pool_ok p \<longleftrightarrow> distinct (map fst (amm_lp_balances p)) \<and> lp_sum p = unat (amm_total_lp_tokens p)"

lemma amm_pool_new_ok: "amm_pool_ok (amm_pool_new F i a b x y who t)"
  by (simp add: amm_pool_ok_def amm_pool_new_def Let_def lp_sum_def)

lemma lp_held_le: "map_of (amm_lp_balances p) who = Some b \<Longrightarrow> unat b \<le> lp_sum p"
proof -
  assume "map_of (amm_lp_balances p) who = Some b"
  then have "unat b \<in> set (map unat (map snd (amm_lp_balances p)))" by (force dest: map_of_SomeD)
  then show ?thesis unfolding lp_sum_def by (intro member_le_sum_list) simp_all
qed

lemma lp_sum_update:
  assumes "distinct (map fst (amm_lp_balances p))"
  shows "lp_sum (p\<lparr>amm_lp_balances := AList.update who b (amm_lp_balances p)\<rparr>) +
    (case map_of (amm_lp_balances p) who of None \<Rightarrow> 0 | Some u \<Rightarrow> unat u) = lp_sum p + unat b"
  unfolding lp_sum_def using sum_update[OF assms, where w = unat and k = who and v = b] by simp

lemma add_liquidity_ok:
  assumes "amm_pool_ok p" and "add_liquidity F x y who p = (r, p')"
    and "unat (amm_total_lp_tokens p) + unat (lqr_lp_tokens_received r) < 2 ^ 128"
  shows "amm_pool_ok p'"
proof -
  define held where "held = (case map_of (amm_lp_balances p) who of None \<Rightarrow> 0 | Some b \<Rightarrow> b)"
  have p': "amm_total_lp_tokens p' = amm_total_lp_tokens p + lqr_lp_tokens_received r"
    "amm_lp_balances p' = AList.update who (held + lqr_lp_tokens_received r) (amm_lp_balances p)"
    using assms(2) by (auto simp: add_liquidity_def Let_def held_def)
  have d: "distinct (map fst (amm_lp_balances p))" and s: "lp_sum p = unat (amm_total_lp_tokens p)"
    using assms(1) by (simp_all add: amm_pool_ok_def)
  have "unat held \<le> lp_sum p" using lp_held_le by (auto simp: held_def split: option.split)
  then have "unat (held + lqr_lp_tokens_received r) = unat held + unat (lqr_lp_tokens_received r)"
    using assms(3) s by (intro unat_add_small) simp
  moreover have "unat held = (case map_of (amm_lp_balances p) who of None \<Rightarrow> 0 | Some u \<Rightarrow> unat u)"
    by (simp add: held_def split: option.split)
  ultimately have "lp_sum p' = lp_sum p + unat (lqr_lp_tokens_received r)"
    using lp_sum_update[OF d, of who "held + lqr_lp_tokens_received r"] p'(2) by (simp add: lp_sum_def)
  then show ?thesis using assms(3) s d by (simp add: amm_pool_ok_def p' distinct_update unat_add_small)
qed

lemma remove_liquidity_ok:
  assumes "amm_pool_ok p" and "remove_liquidity n who p = (Some (x, y), p')"
  shows "amm_pool_ok p'" and "unat n \<le> lp_sum p"
proof -
  obtain b where b: "map_of (amm_lp_balances p) who = Some b" "n \<le> b"
    and p': "amm_total_lp_tokens p' = amm_total_lp_tokens p - n"
      "amm_lp_balances p' = AList.update who (b - n) (amm_lp_balances p)"
    using assms(2) by (auto simp: remove_liquidity_def Let_def not_less split: option.splits if_splits)
  have d: "distinct (map fst (amm_lp_balances p))" and s: "lp_sum p = unat (amm_total_lp_tokens p)"
    using assms(1) by (simp_all add: amm_pool_ok_def)
  have le: "unat n \<le> unat b" "unat b \<le> lp_sum p" using b lp_held_le by (simp_all add: word_le_nat_alt)
  have "unat (b - n) = unat b - unat n" "unat (amm_total_lp_tokens p - n) = unat (amm_total_lp_tokens p) - unat n"
    using le s by (simp_all add: unat_sub word_le_nat_alt)
  moreover have "lp_sum p' + unat b = lp_sum p + unat (b - n)"
    using lp_sum_update[OF d, of who "b - n"] b(1) p'(2) by (simp add: lp_sum_def)
  ultimately show "amm_pool_ok p'" using le s d by (simp add: amm_pool_ok_def p' distinct_update)
  show "unat n \<le> lp_sum p" using le by simp
qed

section \<open>The constant forgets liquidity\<close>

text \<open>A swap resets the other reserve to \<open>k\<close> over the new one, whatever is in it: the constant is the product of the
  first deposit and no later deposit or withdrawal changes it.\<close>

lemma liquidity_keeps_k:
  "amm_initial_k (snd (add_liquidity F x y who p)) = amm_initial_k p"
  "amm_initial_k (snd (remove_liquidity n who p)) = amm_initial_k p"
  by (auto simp: add_liquidity_def remove_liquidity_def Let_def split: option.split)

lemma swap_conserves:
  assumes "swap_a_for_b F x t y r p = (res, p')" and "amm_reserve_b p' \<le> amm_reserve_b p"
  shows "amm_reserve_b p' + swr_amount_out res = amm_reserve_b p"
  using assms by (auto simp: swap_a_for_b_def Let_def saturating_sub_word_def)

text \<open>In a pool of 100 against 100 into which a second provider puts 100 of each, selling nothing at all buys 150 of B.\<close>

lemma swap_of_nothing:
  assumes year: "year \<noteq> 0" and exp0: "\<And>s. fm_exp F (FFin s 0) = f_one"
    and lp: "fm_sqrt F (FFin False 10000) = FFin False 100"
  shows "swr_amount_out (fst (swap_a_for_b F 0 t year (f_of_rat (3 / 1000))
    (snd (add_liquidity F 100 100 2 (amm_pool_new F 7 1 2 100 100 1 t))))) = 150"
proof -
  have r: "f_round False 100 = FFin False 100" "f_round False 10000 = FFin False 10000" "f_round False 200 = FFin False 200"
    "f_round False 50 = FFin False 50" by simp_all
  define p where "p = snd (add_liquidity F 100 100 2 (amm_pool_new F 7 1 2 100 100 1 t))"
  have p: "amm_reserve_a p = 200" "amm_reserve_b p = 200" "amm_initial_k p = FFin False 10000" "amm_created_at_block p = t"
    by (simp_all add: p_def add_liquidity_def amm_pool_new_def Let_def f_of_word_def r)
  obtain e where e: "ETA = FFin False e" using ETA_positive by blast
  obtain y where y: "f_of_word year = FFin False y" "y \<noteq> 0" using f_of_word_pos[OF year] by force
  have "f_mul (f_neg ETA) (FFin False 0) = FFin True 0" unfolding e by simp
  then have "current_k F t year p = FFin False 10000"
    by (simp add: current_k_def amm_tau_def p saturating_sub_word_def y f_of_word_def[of 0] exp0 f_one_def r)
  moreover have "f_mul (f_of_word (0 :: u128)) (f_of_rat (3 / 1000)) = FFin False 0"
  proof -
    have "f_of_rat (3 / 1000) = f_round False (3 / 1000)" by (simp add: f_of_rat_def)
    moreover obtain v where "f_round False (3 / 1000) = FFin False v" using f_round_between[of "3 / 1000" 1] by auto
    ultimately show ?thesis by (simp add: f_of_word_def)
  qed
  ultimately show ?thesis
    by (simp add: swap_a_for_b_def Let_def p f_of_word_def[of 200] r saturating_sub_word_def flip: p_def)
qed

end
