(* ===== verification/Tokenomics_Emission.thy ===== *)
theory Tokenomics_Emission
  imports CJ_Float_Facts Core_Dimensional
begin

text \<open>
  \<open>tokenomics/src/emission.rs\<close>: the emission per block from the strength of the consensus, its halvings by the share of
  the target supply in circulation, and its distribution. \<open>sqrt\<close>, \<open>powi\<close> and \<open>exp\<close> are parameters.
  Then \<open>tokenomics/src/deflation.rs\<close>: fees and burning.
\<close>

section \<open>Definitions\<close>

definition EMISSION_PHI :: f64 where "EMISSION_PHI = f_of_rat (1618033988749895 / 10 ^ 15)"

record emission_metrics =
  em_median_hashrate :: f64
  em_current_hashrate :: f64
  em_consensus_agreement :: f64
  em_current_block :: u64
  em_circulating_supply :: u128
  em_target_supply :: u128

definition emission_bootstrap :: "u128 \<Rightarrow> emission_metrics" where
  "emission_bootstrap target_supply =
     \<lparr>em_median_hashrate = f_one, em_current_hashrate = f_one, em_consensus_agreement = f_one, em_current_block = 0,
      em_circulating_supply = 0, em_target_supply = target_supply\<rparr>"

definition normalized_hashrate :: "f64 \<Rightarrow> f64 \<Rightarrow> f64" where
  "normalized_hashrate hash_rate median = (if f_lt f_zero median then f_min (f_div hash_rate median) EMISSION_PHI else f_one)"

definition emission_psi_magnitude :: "float_ext \<Rightarrow> emission_metrics \<Rightarrow> f64" where
  "emission_psi_magnitude F m =
     (let raw = fm_sqrt F (f_add (fm_powi F (em_consensus_agreement m) 2)
        (fm_powi F (normalized_hashrate (em_current_hashrate m) (em_median_hashrate m)) 2))
      in f_div raw (fm_sqrt F (f_of_rat 2)))"

definition halving_of_ratio :: "f64 \<Rightarrow> nat" where
  "halving_of_ratio r =
     (if f_lt r (f_of_rat (1 / 2)) then 0
      else if f_lt r (f_of_rat (75 / 100)) then 1
      else if f_lt r (f_of_rat (875 / 1000)) then 2
      else if f_lt r (f_of_rat (9375 / 10000)) then 3
      else if f_lt r (f_of_rat (96875 / 100000)) then 4
      else if f_lt r (f_of_rat (984375 / 1000000)) then 5
      else 6)"

definition calculate_halving_epoch :: "emission_metrics \<Rightarrow> nat" where
  "calculate_halving_epoch m =
     (if em_target_supply m = 0 then 0
      else halving_of_ratio (f_div (f_of_word (em_circulating_supply m)) (f_of_word (em_target_supply m))))"

definition emission_update_from_network :: "f64 \<Rightarrow> f64 \<Rightarrow> f64 \<Rightarrow> u64 \<Rightarrow> u128 \<Rightarrow> emission_metrics \<Rightarrow> emission_metrics" where
  "emission_update_from_network median_hashrate current_hashrate agreement current_block circulating m =
     m\<lparr>em_median_hashrate := median_hashrate, em_current_hashrate := current_hashrate, em_consensus_agreement := agreement,
       em_current_block := current_block, em_circulating_supply := circulating\<rparr>"

record emission_consensus =
  ec_block_height :: u64
  ec_psi_magnitude :: f64
  ec_peer_count :: u32
  ec_agreement :: f64
  ec_hash_rate :: f64

definition calculate_psi_magnitude :: "float_ext \<Rightarrow> emission_metrics \<Rightarrow> emission_consensus \<Rightarrow> f64" where
  "calculate_psi_magnitude F m c =
     f_div (fm_sqrt F (f_add (fm_powi F (ec_agreement c) 2)
       (fm_powi F (normalized_hashrate (ec_hash_rate c) (em_median_hashrate m)) 2))) (fm_sqrt F (f_of_rat 2))"

record emission_calculator =
  ek_base_emission :: u128
  ek_metrics :: emission_metrics

definition emission_calculator_new :: "u128 \<Rightarrow> u128 \<Rightarrow> emission_calculator" where
  "emission_calculator_new base_emission target_supply =
     \<lparr>ek_base_emission = base_emission, ek_metrics = emission_bootstrap target_supply\<rparr>"

definition emission_default :: emission_calculator where
  "emission_default = emission_calculator_new 50000000 21000000000000"

definition calculate_emission :: "float_ext \<Rightarrow> emission_calculator \<Rightarrow> emission_consensus \<Rightarrow> u128" where
  "calculate_emission F k c =
     (let psi = calculate_psi_magnitude F (ek_metrics k) c;
          halvings = calculate_halving_epoch (ek_metrics k);
          raw_emission = f_to_word (f_mul (f_mul ETA psi) (f_of_word (ek_base_emission k)))
      in drop_bit halvings raw_emission)"

definition emission_calculator_bounds :: "float_ext \<Rightarrow> emission_calculator \<Rightarrow> u128 \<times> u128" where
  "emission_calculator_bounds F k =
     (let halvings = calculate_halving_epoch (ek_metrics k);
          halved_base = drop_bit halvings (ek_base_emission k);
          min_emission = f_to_word (f_mul (fm_powi F ETA 3) (f_of_word halved_base));
          max_psi = fm_sqrt F (f_div (f_add f_one (fm_powi F EMISSION_PHI 2)) (f_of_rat 2));
          max_emission = f_to_word (f_mul (f_mul ETA max_psi) (f_of_word halved_base))
      in (min_emission, max_emission))"

definition supply_ratio :: "emission_calculator \<Rightarrow> f64" where
  "supply_ratio k =
     (if em_target_supply (ek_metrics k) = 0 then f_zero
      else f_div (f_of_word (em_circulating_supply (ek_metrics k))) (f_of_word (em_target_supply (ek_metrics k))))"

fun next_threshold :: "nat \<Rightarrow> f64 option" where
  "next_threshold e =
     (if e = 0 then Some (f_of_rat (1 / 2)) else if e = 1 then Some (f_of_rat (75 / 100))
      else if e = 2 then Some (f_of_rat (875 / 1000)) else if e = 3 then Some (f_of_rat (9375 / 10000))
      else if e = 4 then Some (f_of_rat (96875 / 100000)) else if e = 5 then Some (f_of_rat (984375 / 1000000)) else None)"

definition blocks_to_next_halving :: "emission_calculator \<Rightarrow> u128 \<Rightarrow> u64 option" where
  "blocks_to_next_halving k current_emission =
     (case next_threshold (calculate_halving_epoch (ek_metrics k)) of None \<Rightarrow> None
      | Some t \<Rightarrow>
          let target = f_to_word (f_mul (f_of_word (em_target_supply (ek_metrics k))) t);
              rest = saturating_sub_word target (em_circulating_supply (ek_metrics k))
          in if current_emission = 0 then None else Some (ucast (rest div current_emission)))"

record emission_info =
  ei_current_emission :: u128
  ei_base_emission :: u128
  ei_psi_magnitude :: f64
  ei_eta_factor :: f64
  ei_halving_epoch :: nat
  ei_supply_ratio :: f64
  ei_min_bound :: u128
  ei_max_bound :: u128
  ei_circulating_supply :: u128
  ei_target_supply :: u128

definition emission_info_of :: "float_ext \<Rightarrow> emission_calculator \<Rightarrow> emission_consensus \<Rightarrow> emission_info" where
  "emission_info_of F k c = (case emission_calculator_bounds F k of (min_bound, max_bound) \<Rightarrow>
     \<lparr>ei_current_emission = calculate_emission F k c,
      ei_base_emission = drop_bit (calculate_halving_epoch (ek_metrics k)) (ek_base_emission k),
      ei_psi_magnitude = calculate_psi_magnitude F (ek_metrics k) c, ei_eta_factor = ETA,
      ei_halving_epoch = calculate_halving_epoch (ek_metrics k), ei_supply_ratio = supply_ratio k,
      ei_min_bound = min_bound, ei_max_bound = max_bound,
      ei_circulating_supply = em_circulating_supply (ek_metrics k), ei_target_supply = em_target_supply (ek_metrics k)\<rparr>)"

record emission_distribution =
  ed_mining :: u128
  ed_validators :: u128
  ed_staking :: u128
  ed_governance :: u128
  ed_bounties :: u128

definition emission_scale :: "float_ext \<Rightarrow> nat \<Rightarrow> f64" where
  "emission_scale F n = fm_exp F (f_mul (f_neg ETA) (f_of_nat n))"

definition emission_ratio :: "float_ext \<Rightarrow> nat \<Rightarrow> f64" where
  "emission_ratio F n =
     f_div (emission_scale F n)
       (f_add (f_add (f_add (f_add (emission_scale F 0) (emission_scale F 1)) (emission_scale F 2)) (emission_scale F 3)) (emission_scale F 4))"

definition emission_share :: "float_ext \<Rightarrow> u128 \<Rightarrow> nat \<Rightarrow> u128" where
  "emission_share F whole n = f_to_word (f_mul (f_of_word whole) (emission_ratio F n))"

definition emission_from_total :: "float_ext \<Rightarrow> u128 \<Rightarrow> emission_distribution" where
  "emission_from_total F whole =
     \<lparr>ed_mining = emission_share F whole 0, ed_validators = emission_share F whole 1, ed_staking = emission_share F whole 2,
      ed_governance = emission_share F whole 3, ed_bounties = emission_share F whole 4\<rparr>"

definition emission_ratios :: "float_ext \<Rightarrow> f64 list" where
  "emission_ratios F = map (emission_ratio F) [0, 1, 2, 3, 4]"

section \<open>Halvings\<close>

lemma halving_of_ratio_mono: "f_le x y \<Longrightarrow> halving_of_ratio x \<le> halving_of_ratio y"
  unfolding halving_of_ratio_def by (auto dest: f_le_lt_trans)

lemma halving_of_ratio_le: "halving_of_ratio x \<le> 6"
  by (simp add: halving_of_ratio_def)

text \<open>More supply in circulation never lowers the halving epoch, and there are at most six halvings.\<close>

lemma halving_epoch_mono:
  assumes "em_target_supply m' = em_target_supply m" and "em_circulating_supply m \<le> em_circulating_supply m'"
  shows "calculate_halving_epoch m \<le> calculate_halving_epoch m'" and "calculate_halving_epoch m' \<le> 6"
proof -
  obtain a b c where "f_of_word (em_circulating_supply m) = FFin False a" "0 \<le> a"
    and "f_of_word (em_circulating_supply m') = FFin False b"
    and "f_of_word (em_target_supply m) = FFin False c" "em_target_supply m \<noteq> 0 \<longrightarrow> 0 < c"
    using f_of_u128 by metis
  then show "calculate_halving_epoch m \<le> calculate_halving_epoch m'"
    using f_of_word_mono[OF assms(2)] f_div_mono[of a b c] assms(1)
    by (auto simp: calculate_halving_epoch_def intro: halving_of_ratio_mono)
  show "calculate_halving_epoch m' \<le> 6" by (simp add: calculate_halving_epoch_def halving_of_ratio_le)
qed

text \<open>Each share of an emission is at most the emission.\<close>

lemma emission_share_le:
  assumes "unat whole < 2 ^ 53" and "unit_share (emission_ratio F n)"
  shows "unat (emission_share F whole n) \<le> unat whole"
  unfolding emission_share_def by (rule share_le[OF assms]) simp

text \<open>
  \<open>tokenomics/src/deflation.rs\<close>: burning against the cumulative work, and the split of fees into a burned part and the
  validator's reward.
\<close>

section \<open>Definitions\<close>

record deflation_engine =
  df_cumulative_work :: f64
  df_total_burned :: u128
  df_circulating_supply :: u128
  df_initial_supply :: u128
  df_burn_rate_history :: "f64 list"

definition deflation_new :: "u128 \<Rightarrow> deflation_engine" where
  "deflation_new initial_supply =
     \<lparr>df_cumulative_work = f_zero, df_total_burned = 0, df_circulating_supply = initial_supply,
      df_initial_supply = initial_supply, df_burn_rate_history = []\<rparr>"

definition current_burn_rate :: "deflation_engine \<Rightarrow> f64" where
  "current_burn_rate e =
     (if df_circulating_supply e = 0 then f_zero
      else f_div (f_mul ETA (df_cumulative_work e)) (f_of_word (df_circulating_supply e)))"

definition smoothed_burn_rate :: "deflation_engine \<Rightarrow> f64" where
  "smoothed_burn_rate e =
     (if df_burn_rate_history e = [] then current_burn_rate e
      else let recent = take 100 (rev (df_burn_rate_history e)) in f_div (f_sum recent) (f_of_nat (length recent)))"

record burn_result =
  br_burn_rate :: f64
  br_burn_amount :: u128
  br_work_recorded :: f64

definition record_work :: "f64 \<Rightarrow> deflation_engine \<Rightarrow> burn_result \<times> deflation_engine" where
  "record_work work_score e =
     (let e1 = e\<lparr>df_cumulative_work := f_add (df_cumulative_work e) work_score\<rparr>;
          burn_rate = current_burn_rate e1;
          h = df_burn_rate_history e1 @ [burn_rate];
          e2 = e1\<lparr>df_burn_rate_history := (if 1000 < length h then drop 1 h else h)\<rparr>;
          burn_amount = min (f_to_word (f_mul (f_mul work_score burn_rate) (f_of_rat (1 / 10 ^ 6)))) (df_circulating_supply e2 div 1000)
      in (\<lparr>br_burn_rate = burn_rate, br_burn_amount = burn_amount, br_work_recorded = work_score\<rparr>, e2))"

definition execute_burn :: "u128 \<Rightarrow> deflation_engine \<Rightarrow> u128 \<times> deflation_engine" where
  "execute_burn amount e =
     (let actual_burn = min amount (df_circulating_supply e) in
      (actual_burn, e\<lparr>df_total_burned := df_total_burned e + actual_burn,
         df_circulating_supply := saturating_sub_word (df_circulating_supply e) actual_burn\<rparr>))"

record deflation_stats =
  dfs_cumulative_work :: f64
  dfs_total_burned :: u128
  dfs_circulating_supply :: u128
  dfs_initial_supply :: u128
  dfs_current_burn_rate :: f64
  dfs_smoothed_burn_rate :: f64
  dfs_deflation_pct :: f64

definition deflation_stats_of :: "deflation_engine \<Rightarrow> deflation_stats" where
  "deflation_stats_of e =
     \<lparr>dfs_cumulative_work = df_cumulative_work e, dfs_total_burned = df_total_burned e,
      dfs_circulating_supply = df_circulating_supply e, dfs_initial_supply = df_initial_supply e,
      dfs_current_burn_rate = current_burn_rate e, dfs_smoothed_burn_rate = smoothed_burn_rate e,
      dfs_deflation_pct = (if 0 < df_initial_supply e
        then f_mul (f_div (f_of_word (df_total_burned e)) (f_of_word (df_initial_supply e))) (f_of_rat 100) else f_zero)\<rparr>"

record fee_calculator =
  fc_base_fee :: u128
  fc_avg_block_complexity :: f64
  fc_burn_percentage :: f64

definition fee_calculator_new :: "u128 \<Rightarrow> fee_calculator" where
  "fee_calculator_new base_fee =
     \<lparr>fc_base_fee = base_fee, fc_avg_block_complexity = f_one, fc_burn_percentage = f_of_rat (1 / 2)\<rparr>"

record fee_result =
  fr_total_fee :: u128
  fr_burn_amount :: u128
  fr_validator_reward :: u128
  fr_complexity_ratio :: f64

definition calculate_fee :: "fee_calculator \<Rightarrow> f64 \<Rightarrow> fee_result" where
  "calculate_fee c tx_complexity =
     (let complexity_ratio = f_div tx_complexity (fc_avg_block_complexity c);
          total_fee = f_to_word (f_mul (f_of_word (fc_base_fee c)) complexity_ratio);
          burn_amount = f_to_word (f_mul (f_of_word total_fee) (fc_burn_percentage c))
      in \<lparr>fr_total_fee = total_fee, fr_burn_amount = burn_amount, fr_validator_reward = total_fee - burn_amount,
          fr_complexity_ratio = complexity_ratio\<rparr>)"

definition update_avg_complexity :: "f64 \<Rightarrow> fee_calculator \<Rightarrow> fee_calculator" where
  "update_avg_complexity block_complexity c =
     c\<lparr>fc_avg_block_complexity :=
       f_add (f_mul (fc_avg_block_complexity c) (f_sub f_one ETA)) (f_mul block_complexity ETA)\<rparr>"

section \<open>Nothing is burned twice\<close>

text \<open>What is burned and what circulates always add up to the initial amount, and the history is bounded.\<close>

definition deflation_ok :: "deflation_engine \<Rightarrow> bool" where
  "deflation_ok e \<longleftrightarrow>
     unat (df_total_burned e) + unat (df_circulating_supply e) = unat (df_initial_supply e) \<and>
     length (df_burn_rate_history e) \<le> 1000"

inductive deflation_step :: "deflation_engine \<Rightarrow> deflation_engine \<Rightarrow> bool" where
  step_work: "record_work w e = (r, e') \<Longrightarrow> deflation_step e e'"
| step_burn: "execute_burn a e = (b, e') \<Longrightarrow> deflation_step e e'"

lemma deflation_ok_new: "deflation_ok (deflation_new n)"
  by (simp add: deflation_ok_def deflation_new_def)

lemma record_work_ok: "deflation_ok e \<Longrightarrow> deflation_ok (snd (record_work w e))"
  by (auto simp: deflation_ok_def record_work_def Let_def)

lemma execute_burn_ok:
  assumes "deflation_ok e" and "execute_burn a e = (b, e')"
  shows "deflation_ok e'" and "unat b = min (unat a) (unat (df_circulating_supply e))"
    and "unat (df_circulating_supply e') + unat b = unat (df_circulating_supply e)"
proof -
  have b: "b = min a (df_circulating_supply e)" and e': "e' = e\<lparr>df_total_burned := df_total_burned e + b,
      df_circulating_supply := saturating_sub_word (df_circulating_supply e) b\<rparr>"
    using assms(2) by (auto simp: execute_burn_def Let_def)
  have "b \<le> df_circulating_supply e" by (simp add: b)
  then have le: "unat b \<le> unat (df_circulating_supply e)" by (simp add: word_le_nat_alt)
  have bound: "unat (df_total_burned e) + unat b < 2 ^ 128"
    using assms(1) le unat_lt_pow[of "df_initial_supply e"] by (simp add: deflation_ok_def)
  show "deflation_ok e'"
    using assms(1) le bound by (simp add: e' deflation_ok_def unat_saturating_sub unat_add_small)
  show "unat b = min (unat a) (unat (df_circulating_supply e))" by (simp add: b min_def word_le_nat_alt)
  show "unat (df_circulating_supply e') + unat b = unat (df_circulating_supply e)"
    using le by (simp add: e' unat_saturating_sub)
qed

lemma deflation_runs_ok: "deflation_step\<^sup>*\<^sup>* e e' \<Longrightarrow> deflation_ok e \<Longrightarrow> deflation_ok e' \<and> df_circulating_supply e' \<le> df_circulating_supply e"
proof (induction rule: rtranclp_induct)
  case (step y z)
  from step(2) show ?case
  proof cases
    case (step_work w r)
    then have "z = snd (record_work w y)" by simp
    moreover have "df_circulating_supply (snd (record_work w y)) = df_circulating_supply y"
      by (simp add: record_work_def Let_def)
    ultimately show ?thesis using step(3,4) record_work_ok by simp
  next
    case (step_burn a b)
    with step(3,4) execute_burn_ok[of y a b z] show ?thesis by (simp add: word_le_nat_alt)
  qed
qed simp

text \<open>A proposed burn is at most a thousandth of the circulating amount.\<close>

lemma proposed_burn_le: "br_burn_amount (fst (record_work w e)) \<le> df_circulating_supply e div 1000"
  by (simp add: record_work_def Let_def)

text \<open>A fee is the burned part and the reward together, when the share to burn is at most one.\<close>

lemma fee_split:
  assumes "unit_share (fc_burn_percentage c)" and "unat (fr_total_fee (calculate_fee c x)) < 2 ^ 53"
  shows "unat (fr_burn_amount (calculate_fee c x)) + unat (fr_validator_reward (calculate_fee c x)) =
    unat (fr_total_fee (calculate_fee c x))"
proof -
  define t where "t = fr_total_fee (calculate_fee c x)"
  define b where "b = (f_to_word (f_mul (f_of_word t) (fc_burn_percentage c)) :: u128)"
  have e: "fr_burn_amount (calculate_fee c x) = b" "fr_validator_reward (calculate_fee c x) = t - b"
    by (simp_all add: calculate_fee_def Let_def t_def b_def)
  have le: "unat b \<le> unat t" unfolding b_def by (rule share_le[OF assms(2)[folded t_def] assms(1)]) simp
  then show ?thesis by (simp add: e flip: t_def) (simp add: unat_sub word_le_nat_alt)
qed

text \<open>A calculator whose average complexity is zero charges the largest fee there is for any work.\<close>

lemma zero_average_maximal_fee:
  assumes "fc_avg_block_complexity c = f_zero" and "0 < x" and "fc_base_fee c \<noteq> 0"
  shows "fr_total_fee (calculate_fee c (FFin False x)) = - 1"
proof -
  obtain v where "f_of_word (fc_base_fee c) = FFin False v" "0 < v" using f_of_u128 assms(3) by blast
  then show ?thesis using assms by (simp add: calculate_fee_def Let_def f_zero_def)
qed

end
