(* ===== verification/Tokenomics_Distributor.thy ===== *)
theory Tokenomics_Distributor
  imports Tokenomics_Pools Core_Types
begin

text \<open>
  \<open>tokenomics/src/dimensions.rs\<close> and \<open>tokenomics/src/distributor.rs\<close>: the eight dimensions with their lock periods, the
  division of a reward among them, and vesting. An index out of range is a panic, \<open>None\<close>.
\<close>

section \<open>Definitions\<close>

record dimension =
  dm_index :: u8
  dm_scale :: f64
  dm_allocation :: f64
  dm_lock_days :: u64
  dm_function :: string

definition calculate_scale :: "float_ext \<Rightarrow> u8 \<Rightarrow> f64" where
  "calculate_scale F n = fm_exp F (f_mul (f_neg ETA) (f_of_word n))"

definition dimension_row :: "u8 \<Rightarrow> rat \<Rightarrow> rat \<Rightarrow> u64 \<Rightarrow> string \<Rightarrow> dimension" where
  "dimension_row i scale allocation lock_days f =
     \<lparr>dm_index = i, dm_scale = f_of_rat scale, dm_allocation = f_of_rat allocation, dm_lock_days = lock_days, dm_function = f\<rparr>"

definition all_dimensions :: "dimension list" where
  "all_dimensions =
     [dimension_row 1 1 (561 / 10) 0 ''Immediate liquidity (block rewards)'',
      dimension_row 2 (867 / 1000) (486 / 10) 7 ''Short-term staking'',
      dimension_row 3 (750 / 1000) (421 / 10) 14 ''Problem bounty pool'',
      dimension_row 4 (618 / 1000) (347 / 10) 24 ''Treasury reserve'',
      dimension_row 5 (500 / 1000) (281 / 10) 35 ''Development fund'',
      dimension_row 6 (382 / 1000) (214 / 10) 48 ''Long-term vesting'',
      dimension_row 7 (250 / 1000) 14 69 ''Strategic reserve'',
      dimension_row 8 (146 / 1000) (82 / 10) 96 ''Foundation endowment'']"

definition unlock_at_time :: "float_ext \<Rightarrow> dimension \<Rightarrow> u64 \<Rightarrow> f64" where
  "unlock_at_time F d elapsed_days =
     (if elapsed_days < dm_lock_days d then f_zero
      else f_sub f_one (fm_exp F (f_mul (f_neg ETA) (f_of_word (elapsed_days - dm_lock_days d)))))"

record dimensional_allocation =
  al_immediate :: u128
  al_short_term :: u128
  al_bounty_pool :: u128
  al_treasury :: u128
  al_development :: u128
  al_long_term :: u128
  al_strategic :: u128
  al_foundation :: u128

definition allocation_total :: "dimensional_allocation \<Rightarrow> u128" where
  "allocation_total a = al_immediate a + al_short_term a + al_bounty_pool a + al_treasury a + al_development a +
     al_long_term a + al_strategic a + al_foundation a"

definition get_dimension :: "dimensional_allocation \<Rightarrow> u8 \<Rightarrow> u128" where
  "get_dimension a i =
     (if i = 1 then al_immediate a else if i = 2 then al_short_term a else if i = 3 then al_bounty_pool a
      else if i = 4 then al_treasury a else if i = 5 then al_development a else if i = 6 then al_long_term a
      else if i = 7 then al_strategic a else if i = 8 then al_foundation a else 0)"

definition share_of_reward :: "dimension list \<Rightarrow> u128 \<Rightarrow> dimension \<Rightarrow> u128" where
  "share_of_reward dims total_reward d =
     f_to_word (f_mul (f_of_word total_reward) (f_div (dm_allocation d) (f_sum (map dm_allocation dims))))"

definition distribute_reward :: "u128 \<Rightarrow> dimensional_allocation" where
  "distribute_reward total_reward =
     (let allocations = map (share_of_reward all_dimensions total_reward) all_dimensions in
      \<lparr>al_immediate = allocations ! 0, al_short_term = allocations ! 1, al_bounty_pool = allocations ! 2,
       al_treasury = allocations ! 3, al_development = allocations ! 4, al_long_term = allocations ! 5,
       al_strategic = allocations ! 6, al_foundation = allocations ! 7\<rparr>)"

definition unlocked_after_days :: "float_ext \<Rightarrow> dimensional_allocation \<Rightarrow> u64 \<Rightarrow> u128" where
  "unlocked_after_days F a days =
     sum_list (map (\<lambda>(i, dim). f_to_word (f_mul (f_of_word (get_dimension a (of_nat (i + 1)))) (unlock_at_time F dim days)))
       (enumerate 0 all_dimensions))"

definition get_allocation_percentages :: "(string \<times> f64) list" where
  "get_allocation_percentages =
     map (\<lambda>d. (dm_function d, f_mul (f_div (dm_allocation d) (f_sum (map dm_allocation all_dimensions))) (f_of_rat 100))) all_dimensions"

record vesting_entry =
  ve_recipient :: address
  ve_dimension_index :: u8
  ve_total_amount :: u128
  ve_vested_at_height :: u64
  ve_vested_at_timestamp :: i64

text \<open>The index is computed in eight bits: dimension 0 wraps around to 255, and any index outside 1 to 8 panics.\<close>

definition unlocked_amount :: "float_ext \<Rightarrow> vesting_entry \<Rightarrow> i64 \<Rightarrow> u128 option" where
  "unlocked_amount F v current_timestamp =
     (let i = unat (ve_dimension_index v - 1) in
      if length all_dimensions \<le> i then None
      else let elapsed_seconds = (if sint (current_timestamp - ve_vested_at_timestamp v) < 0 then 0
                 else current_timestamp - ve_vested_at_timestamp v);
               elapsed_days = word_of_int (sint elapsed_seconds div 86400)
           in Some (f_to_word (f_mul (f_of_word (ve_total_amount v)) (unlock_at_time F (all_dimensions ! i) elapsed_days))))"

definition is_fully_unlocked :: "float_ext \<Rightarrow> vesting_entry \<Rightarrow> i64 \<Rightarrow> bool option" where
  "is_fully_unlocked F v current_timestamp =
     map_option (\<lambda>unlocked. ve_total_amount v \<le> unlocked) (unlocked_amount F v current_timestamp)"

section \<open>Bounds\<close>

lemma unlock_at_time_share: "exp_ok F \<Longrightarrow> unit_share (unlock_at_time F d n)"
proof -
  assume F: "exp_ok F"
  have "f_le (f_mul (f_neg ETA) (f_of_word (n - dm_lock_days d))) f_zero" by (rule neg_eta_mul) (rule f_of_word_nonneg)
  then have "unit_share (fm_exp F (f_mul (f_neg ETA) (f_of_word (n - dm_lock_days d))))" using F by (simp add: exp_ok_def)
  then show ?thesis by (simp add: unlock_at_time_def unit_share_complement)
qed

text \<open>Nothing vests before the lock ends, never more than was granted does, and the lookup panics exactly on an index
  that is no dimension.\<close>

lemma vesting_bounds:
  assumes "exp_ok F" and "unat (ve_total_amount v) < 2 ^ 53" and "unlocked_amount F v t = Some u"
  shows "unat u \<le> unat (ve_total_amount v)"
proof -
  obtain d n where "u = f_to_word (f_mul (f_of_word (ve_total_amount v)) (unlock_at_time F d n))"
    using assms(3) by (auto simp: unlocked_amount_def Let_def split: if_splits)
  then show ?thesis using share_le[OF assms(2) unlock_at_time_share[OF assms(1)], where 'b = 128] by simp
qed

lemma locked_until:
  assumes "n < dm_lock_days d"
  shows "f_to_word (f_mul (f_of_word (w :: u128)) (unlock_at_time F d n)) = (0 :: u128)"
proof -
  obtain v where "f_of_word w = FFin False v" "0 \<le> v" using f_of_u128 by blast
  then show ?thesis using assms by (simp add: unlock_at_time_def f_zero_def)
qed

lemma unlocked_amount_panics: "unlocked_amount F v t = None \<longleftrightarrow> ve_dimension_index v \<notin> {1..8}"
proof -
  have "8 \<le> unat (i - 1) \<longleftrightarrow> i \<notin> {1..8}" for i :: u8
  proof (cases "i = 0")
    case False
    then have "unat (i - 1) = unat i - 1" by (rule unat_minus_one)
    moreover have "0 < unat i" using False unat_gt_0 by blast
    ultimately show ?thesis by (auto simp: word_le_nat_alt)
  next
    case True
    then show ?thesis by (simp add: unsigned_minus_1_eq_mask mask_eq_exp_minus_1)
  qed
  moreover have "length all_dimensions = 8" by (simp add: all_dimensions_def)
  ultimately show ?thesis by (simp add: unlocked_amount_def Let_def)
qed

text \<open>The dimension of immediate liquidity, whose lock is zero days, releases nothing on the day of the reward.\<close>

lemma immediate_is_not_immediate:
  assumes "\<And>x. fm_exp F (FFin x 0) = f_one"
  shows "f_to_word (f_mul (f_of_word (w :: u128)) (unlock_at_time F (all_dimensions ! 0) 0)) = (0 :: u128)"
proof -
  obtain v where v: "f_of_word w = FFin False v" "0 \<le> v" using f_of_u128 by blast
  have "f_sub f_one f_one = f_zero" by (simp add: f_sub_def f_one_def f_zero_def)
  moreover obtain e where e: "ETA = FFin False e" using ETA_positive by blast
  have "f_mul (f_neg ETA) (f_of_word (0 :: u64)) = FFin True 0" unfolding e by (simp add: f_of_word_def)
  ultimately show ?thesis using v(1) assms[of True]
    by (simp add: unlock_at_time_def all_dimensions_def dimension_row_def) (simp add: f_zero_def)
qed

end
