(* ===== verification/Tokenomics_Bounty.thy ===== *)
theory Tokenomics_Bounty
  imports Tokenomics_Pools Core_Golden
begin

text \<open>
  \<open>tokenomics/src/bounty_pricing.rs\<close>: the price of a bounty from the asymmetry of solving and verifying, and the division
  of a bounty among solvers. The descriptions of the strategies are left out.
\<close>

section \<open>Definitions\<close>

definition EULER :: f64 where "EULER = f_of_rat (2718281828459045235360287471352662498 / 10 ^ 36)"

datatype aggregation_strategy = AggAny | AggBest | AggMultiple | AggStatistical

fun strategy_multiplier :: "aggregation_strategy \<Rightarrow> f64" where
  "strategy_multiplier AggAny = f_one"
| "strategy_multiplier AggBest = PHI"
| "strategy_multiplier AggMultiple = f_of_rat 2"
| "strategy_multiplier AggStatistical = EULER"

record problem_metrics =
  pmx_solve_time_us :: u64
  pmx_verify_time_us :: u64
  pmx_solve_memory_bytes :: u64
  pmx_verify_memory_bytes :: u64
  pmx_complexity_weight :: f64

definition time_asymmetry :: "problem_metrics \<Rightarrow> f64" where
  "time_asymmetry m =
     (if pmx_verify_time_us m = 0 then f_one else f_div (f_of_word (pmx_solve_time_us m)) (f_of_word (pmx_verify_time_us m)))"

definition space_asymmetry :: "float_ext \<Rightarrow> problem_metrics \<Rightarrow> f64" where
  "space_asymmetry F m =
     (if pmx_verify_memory_bytes m = 0 then f_one
      else fm_sqrt F (f_div (f_of_word (pmx_solve_memory_bytes m)) (f_of_word (pmx_verify_memory_bytes m))))"

definition asymmetry_score :: "float_ext \<Rightarrow> problem_metrics \<Rightarrow> f64" where
  "asymmetry_score F m = f_mul (time_asymmetry m) (space_asymmetry F m)"

record bounty_pricer =
  bp_base_reward :: u128
  bp_min_bounty :: u128
  bp_network_fee_pct :: f64

definition bounty_pricer_new :: "u128 \<Rightarrow> bounty_pricer" where
  "bounty_pricer_new base_reward =
     \<lparr>bp_base_reward = base_reward, bp_min_bounty = base_reward div 10, bp_network_fee_pct = f_of_rat (2 / 100)\<rparr>"

record price_breakdown =
  pb_base :: u128
  pb_asymmetry_factor :: f64
  pb_complexity_factor :: f64
  pb_strategy_factor :: f64

record bounty_price =
  bpr_suggested_bounty :: u128
  bpr_network_fee :: u128
  bpr_total_required :: u128
  bpr_time_asymmetry :: f64
  bpr_space_asymmetry :: f64
  bpr_strategy_multiplier :: f64
  bpr_breakdown :: price_breakdown

definition calculate_price :: "float_ext \<Rightarrow> bounty_pricer \<Rightarrow> problem_metrics \<Rightarrow> aggregation_strategy \<Rightarrow> bounty_price" where
  "calculate_price F b m strategy =
     (let asymmetry = asymmetry_score F m;
          strategy_mult = strategy_multiplier strategy;
          raw_price = f_mul (f_mul (f_mul (f_of_word (bp_base_reward b)) asymmetry) (pmx_complexity_weight m)) strategy_mult;
          suggested = max (f_to_word raw_price) (bp_min_bounty b);
          network_fee = f_to_word (f_mul (f_of_word suggested) (bp_network_fee_pct b))
      in \<lparr>bpr_suggested_bounty = suggested, bpr_network_fee = network_fee, bpr_total_required = suggested + network_fee,
          bpr_time_asymmetry = time_asymmetry m, bpr_space_asymmetry = space_asymmetry F m,
          bpr_strategy_multiplier = strategy_mult,
          bpr_breakdown = \<lparr>pb_base = bp_base_reward b, pb_asymmetry_factor = asymmetry,
            pb_complexity_factor = pmx_complexity_weight m, pb_strategy_factor = strategy_mult\<rparr>\<rparr>)"

definition distribute_multiple_rewards :: "u128 \<Rightarrow> u32 \<Rightarrow> f64 list \<Rightarrow> u128 list" where
  "distribute_multiple_rewards total_bounty num_solutions quality_scores =
     (if quality_scores = [] \<or> num_solutions = 0 then []
      else let total_quality = f_sum quality_scores in
        if f_eq_zero total_quality then replicate (unat num_solutions) (total_bounty div ucast num_solutions)
        else map (\<lambda>q. f_to_word (f_mul (f_of_word total_bounty) (f_div q total_quality))) quality_scores)"

definition calculate_best_reward :: "u128 \<Rightarrow> f64 \<Rightarrow> f64 \<Rightarrow> u128" where
  "calculate_best_reward base_bounty quality_score max_quality =
     (if f_eq_zero max_quality then base_bounty
      else let quality_ratio = f_div quality_score max_quality;
               bonus = f_to_word (f_mul (f_mul (f_of_word base_bounty) (f_max (f_sub quality_ratio f_one) f_zero)) ETA)
           in base_bounty + bonus)"

section \<open>Facts\<close>

lemma price_has_floor: "bp_min_bounty b \<le> bpr_suggested_bounty (calculate_price F b m s)"
  by (simp add: calculate_price_def Let_def)

text \<open>Without a difference in quality the shares are equal and add up to at most the bounty; with one, there are as many
  shares as scores, whatever number of solutions is given.\<close>

lemma equal_shares:
  assumes "f_eq_zero (f_sum qs)" and "qs \<noteq> []" and "n \<noteq> 0"
  shows "distribute_multiple_rewards w n qs = replicate (unat n) (w div ucast n)"
    and "(\<Sum>x\<leftarrow>distribute_multiple_rewards w n qs. unat x) \<le> unat w"
proof -
  show e: "distribute_multiple_rewards w n qs = replicate (unat n) (w div ucast n)"
    using assms by (simp add: distribute_multiple_rewards_def)
  have "unat (ucast n :: u128) = unat n" by (rule unat_ucast_up) simp
  then have "unat (w div ucast n) = unat w div unat n" by (simp add: unat_div_distrib)
  then show "(\<Sum>x\<leftarrow>distribute_multiple_rewards w n qs. unat x) \<le> unat w"
    by (simp add: e sum_list_replicate mult.commute)
qed

lemma weighted_shares_length:
  assumes "\<not> f_eq_zero (f_sum qs)" and "n \<noteq> 0"
  shows "length (distribute_multiple_rewards w n qs) = length qs"
  using assms by (auto simp: distribute_multiple_rewards_def Let_def)

text \<open>A score that is no better than the best earns no bonus; it is not the best solution that is paid for being better.\<close>

lemma no_bonus:
  assumes "f_div q m = FFin False r" and "r \<le> 1" and "0 \<le> r"
  shows "calculate_best_reward w q m = w"
proof (cases "f_eq_zero m")
  case False
  obtain v where v: "f_round True (1 - r) = FFin True v" "0 \<le> v"
  proof -
    obtain v where "f_round False (1 - r) = FFin False v" "0 \<le> v" using f_round_between[of "1 - r" 1] assms(2,3) by auto
    then show ?thesis using that[of v] by (auto simp: f_round_alt split: if_splits)
  qed
  have "f_sub (FFin False r) f_one = (if r = 1 then FFin False 0 else FFin True v)"
    using v(1) assms(2) by (simp add: f_sub_def f_one_def f_of_rat_def)
  then have "\<exists>s. f_max (f_sub (f_div q m) f_one) f_zero = FFin s 0"
    using v(2) by (auto simp: assms(1) f_max_def f_zero_def)
  then obtain s where s: "f_max (f_sub (f_div q m) f_one) f_zero = FFin s 0" by blast
  obtain e where e: "ETA = FFin False e" using ETA_positive by blast
  obtain x where "f_of_word w = FFin False x" using f_of_u128 by blast
  then show ?thesis using False s e unfolding calculate_best_reward_def Let_def by (simp only: s e) simp
qed (simp add: calculate_best_reward_def)

end
