(* ===== verification/Properties_Tokenomics.thy ===== *)
theory Properties_Tokenomics
  imports Tokenomics_Staking Tokenomics_Amm Tokenomics_Emission Tokenomics_Distributor Tokenomics_Bounty
begin

text \<open>
  The properties of the token rules: proposals, stakes and the market maker, each with a concrete instance.
\<close>

definition staking_demo_float :: float_ext where
  "staking_demo_float = \<lparr>fm_log2 = (\<lambda>x. x), fm_exp = (\<lambda>_. f_one), fm_sqrt = (\<lambda>_. FFin False 100), fm_powi = (\<lambda>x _. x),
     fm_ln = (\<lambda>x. x), fm_powf = (\<lambda>x _. x)\<rparr>"

section \<open>Proposals\<close>

text \<open>C19. Whatever is proposed, voted on, updated and executed, and however the voting power changes in between: no
  address votes twice on a proposal, the tallies are the sums of the votes by option, and a proposal is executed only after its
  time lock, with the action it was proposed with.\<close>

theorem proposals_are_counted:
  assumes "(governance_step F)\<^sup>*\<^sup>* governance_new g" and "map_of (gm_proposals g) i = Some p"
  shows "distinct (map fst (pr_votes p)) \<and> (\<forall>(a, v)\<in>set (pr_votes p). vo_voter v = a) \<and>
    pr_votes_for p = votes_weight VoteFor (pr_votes p) \<and> pr_votes_against p = votes_weight VoteAgainst (pr_votes p) \<and>
    pr_votes_abstain p = votes_weight VoteAbstain (pr_votes p) \<and>
    (pr_status p = ProposalExecuted \<longrightarrow> (\<exists>r. pr_execution_receipt p = Some r \<and> pr_execution_at p \<le> er_executed_at r \<and>
      pr_action p = Some (er_action r)))"
proof -
  have "governance_ok g" using governance_run_ok[OF assms(1) governance_new_ok] by blast
  then have "proposal_ok p" using assms(2) by (auto simp: governance_ok_def)
  then show ?thesis unfolding proposal_ok_def by blast
qed

definition demo_governance :: governance where
  "demo_governance = snd (create_proposal_with_action staking_demo_float TreasuryProposal ''t'' ''d'' (Address 1) 7 None governance_new)"

theorem proposals_are_counted_witness:
  "\<exists>p. map_of (gm_proposals demo_governance) 1 = Some p \<and> distinct (map fst (pr_votes p)) \<and>
    pr_votes_for p = votes_weight VoteFor (pr_votes p)"
proof -
  have "governance_step staking_demo_float governance_new demo_governance"
    unfolding demo_governance_def by (rule step_create) (simp add: governance_new_def)
  then have r: "(governance_step staking_demo_float)\<^sup>*\<^sup>* governance_new demo_governance" by (rule r_into_rtranclp)
  have "proposal_threshold governance_new = 0" by (rule unset_power_threshold) (simp add: governance_new_def)
  then have "map_of (gm_proposals demo_governance) 1 =
      Some (proposal_new_with_action 1 TreasuryProposal ''t'' ''d'' (Address 1) 7 None)"
    by (simp add: demo_governance_def create_proposal_with_action_def) (simp add: governance_new_def)
  with proposals_are_counted[OF r this] show ?thesis by blast
qed

section \<open>Stakes\<close>


definition demo_staking :: staking_manager where
  "demo_staking = staking_manager_new staking_demo_float 100"


section \<open>The market maker\<close>

text \<open>The product constant of a pool is that of its first deposit and is never updated: after a second provider doubles
  the liquidity of a pool of 100 against 100, selling nothing at all buys 150 of the other token.\<close>

theorem swap_of_nothing_pays:
  assumes "year \<noteq> 0" and "\<And>s. fm_exp F (FFin s 0) = f_one" and "fm_sqrt F (FFin False 10000) = FFin False 100"
  shows "swr_amount_out (fst (swap_a_for_b F 0 t year (f_of_rat (3 / 1000))
    (snd (add_liquidity F 100 100 2 (amm_pool_new F 7 1 2 100 100 1 t))))) = 150"
  using assms by (rule swap_of_nothing)

theorem swap_of_nothing_pays_witness:
  "swr_amount_out (fst (swap_a_for_b staking_demo_float 0 9 100 (f_of_rat (3 / 1000))
    (snd (add_liquidity staking_demo_float 100 100 2 (amm_pool_new staking_demo_float 7 1 2 100 100 1 9))))) = 150"
  by (rule swap_of_nothing_pays) (simp_all add: staking_demo_float_def)

end
