(* ===== verification/Node_Light_Sync.thy ===== *)
theory Node_Light_Sync
  imports Core_Block "HOL-Library.AList"
begin

text \<open>
  The Merkle mountain range of \<open>node/src/light_sync.rs\<close>: an append-only accumulator of header hashes. SHA-256 is the
  parameter \<open>S\<close>. \<open>None\<close> is a panic of \<open>pop().unwrap()\<close> or a golden stream that does not return. The mountain range is
  proved to be the forest of perfect trees of the binary representation of the number of leaves.
  Then the rest of the file: FlyClient proofs, their server and their verifier.
\<close>

section \<open>Definitions\<close>

type_synonym sha256 = "bytes \<Rightarrow> 256 word"

record mmr =
  mr_leaf_count :: u64
  mr_peaks :: "hash list"
  mr_mmr_size :: u64

definition ascii :: "string \<Rightarrow> bytes" where
  "ascii s = map (\<lambda>c. of_nat (of_char c)) s"

definition hash_mmr_node :: "sha256 \<Rightarrow> hash \<Rightarrow> hash \<Rightarrow> u32 \<Rightarrow> hash" where
  "hash_mmr_node S left right height =
     Hash (S (ascii ''MMR_NODE'' @ to_le_bytes height @ hash_as_bytes left @ hash_as_bytes right))"

definition hash_bag :: "sha256 \<Rightarrow> hash \<Rightarrow> hash \<Rightarrow> hash" where
  "hash_bag S left right = Hash (S (ascii ''MMR_BAG'' @ hash_as_bytes left @ hash_as_bytes right))"

definition hash_mmr_node_with_golden :: "sha256 \<Rightarrow> hash \<Rightarrow> hash \<Rightarrow> u32 \<Rightarrow> bytes \<Rightarrow> hash" where
  "hash_mmr_node_with_golden S left right height golden_key =
     Hash (S (ascii ''MMR_NODE'' @ to_le_bytes height @ golden_key @ hash_as_bytes left @ hash_as_bytes right))"

definition mmr_new :: mmr where
  "mmr_new = \<lparr>mr_leaf_count = 0, mr_peaks = [], mr_mmr_size = 0\<rparr>"

definition mmr_with_genesis :: "hash \<Rightarrow> mmr" where
  "mmr_with_genesis genesis_hash = \<lparr>mr_leaf_count = 1, mr_peaks = [genesis_hash], mr_mmr_size = 1\<rparr>"

definition has_peak_at_height :: "u64 \<Rightarrow> nat \<Rightarrow> bool" where
  "has_peak_at_height leaf_count height \<longleftrightarrow> leaf_count \<noteq> 0 \<and> bit (leaf_count - 1) height"

text \<open>Bagging, from the right.\<close>

fun bag_peaks :: "sha256 \<Rightarrow> hash list \<Rightarrow> hash" where
  "bag_peaks S [] = hash_ZERO"
| "bag_peaks S [p] = p"
| "bag_peaks S (p # q # ps) = hash_bag S p (bag_peaks S (q # ps))"

definition mmr_root :: "sha256 \<Rightarrow> mmr \<Rightarrow> hash" where
  "mmr_root S m = bag_peaks S (mr_peaks m)"

text \<open>The merging loop of \<open>append\<close>; the result is the peaks, the new peak last, and the size.\<close>

function merge_peaks :: "sha256 \<Rightarrow> u64 \<Rightarrow> nat \<Rightarrow> hash list \<Rightarrow> hash \<Rightarrow> u64 \<Rightarrow> (hash list \<times> u64) option" where
  "merge_peaks S leaf_count height peaks new_peak mmr_size =
     (if has_peak_at_height leaf_count height then
        (if peaks = [] then None
         else merge_peaks S leaf_count (height + 1) (butlast peaks)
           (hash_mmr_node S (last peaks) new_peak (of_nat height)) (mmr_size + 1))
      else Some (peaks @ [new_peak], mmr_size))"
  by pat_completeness auto
termination
  by (relation "measure (\<lambda>(S, c, h, ps, p, z). length ps)") (auto intro!: diff_less)

declare merge_peaks.simps [simp del]

definition mmr_append :: "sha256 \<Rightarrow> hash \<Rightarrow> mmr \<Rightarrow> (hash \<times> mmr) option" where
  "mmr_append S leaf_hash m =
     (let leaf_count = mr_leaf_count m + 1 in
      case merge_peaks S leaf_count 0 (mr_peaks m) leaf_hash (mr_mmr_size m + 1) of None \<Rightarrow> None
      | Some (peaks, mmr_size) \<Rightarrow> Some (bag_peaks S peaks, \<lparr>mr_leaf_count = leaf_count, mr_peaks = peaks, mr_mmr_size = mmr_size\<rparr>))"

function merge_peaks_with_golden ::
  "sha256 \<Rightarrow> crypto_ext \<Rightarrow> u64 \<Rightarrow> golden_generator \<Rightarrow> nat \<Rightarrow> hash list \<Rightarrow> hash \<Rightarrow> u64 \<Rightarrow> (hash list \<times> u64) option" where
  "merge_peaks_with_golden S X leaf_count g height peaks new_peak mmr_size =
     (if has_peak_at_height leaf_count height then
        (if peaks = [] then None
         else case next_bytes X g of None \<Rightarrow> None
         | Some (golden_key, g') \<Rightarrow> merge_peaks_with_golden S X leaf_count g' (height + 1) (butlast peaks)
             (hash_mmr_node_with_golden S (last peaks) new_peak (of_nat height) golden_key) (mmr_size + 1))
      else Some (peaks @ [new_peak], mmr_size))"
  by pat_completeness auto
termination
  by (relation "measure (\<lambda>(S, X, c, g, h, ps, p, z). length ps)") (auto intro!: diff_less)

declare merge_peaks_with_golden.simps [simp del]

definition mmr_append_with_golden :: "sha256 \<Rightarrow> crypto_ext \<Rightarrow> hash \<Rightarrow> hash \<Rightarrow> mmr \<Rightarrow> (hash \<times> mmr) option" where
  "mmr_append_with_golden S X leaf_hash genesis_hash m =
     (let leaf_count = mr_leaf_count m + 1; g = from_genesis_epoch X genesis_hash leaf_count in
      case merge_peaks_with_golden S X leaf_count g 0 (mr_peaks m) leaf_hash (mr_mmr_size m + 1) of None \<Rightarrow> None
      | Some (peaks, mmr_size) \<Rightarrow> Some (bag_peaks S peaks, \<lparr>mr_leaf_count = leaf_count, mr_peaks = peaks, mr_mmr_size = mmr_size\<rparr>))"

definition peak_count :: "mmr \<Rightarrow> nat" where
  "peak_count m = length (mr_peaks m)"

definition count_ones :: "u64 \<Rightarrow> nat" where
  "count_ones n = length (filter (bit n) [0..<64])"

definition mmr_peak_count :: "u64 \<Rightarrow> nat" where
  "mmr_peak_count n = count_ones n"

definition leaf_position :: "u64 \<Rightarrow> u64" where
  "leaf_position leaf_index = (if leaf_index = 0 then 1 else 2 * leaf_index - of_nat (count_ones (leaf_index - 1)))"

definition size_for_leaves :: "u64 \<Rightarrow> u64" where
  "size_for_leaves n = (if n = 0 then 0 else 2 * n - of_nat (count_ones n))"

record mmr_proof =
  mp_leaf_hash :: hash
  mp_leaf_index :: u64
  mp_mmr_size :: u64
  mp_auth_path :: "(hash \<times> bool) list"
  mp_peak_index :: nat
  mp_peaks :: "hash list"

fun climb :: "sha256 \<Rightarrow> nat \<Rightarrow> hash \<Rightarrow> (hash \<times> bool) list \<Rightarrow> hash" where
  "climb S height current [] = current"
| "climb S height current ((sibling, is_right) # path) =
     climb S (height + 1) (if is_right then hash_mmr_node S current sibling (of_nat height)
       else hash_mmr_node S sibling current (of_nat height)) path"

definition mmr_proof_verify :: "sha256 \<Rightarrow> mmr_proof \<Rightarrow> hash \<Rightarrow> bool" where
  "mmr_proof_verify S p expected_root =
     (let current = climb S 0 (mp_leaf_hash p) (mp_auth_path p) in
      if length (mp_peaks p) \<le> mp_peak_index p then False
      else if current \<noteq> mp_peaks p ! mp_peak_index p then False
      else bag_peaks S (mp_peaks p) = expected_root)"

definition mmr_proof_size_bytes :: "mmr_proof \<Rightarrow> nat" where
  "mmr_proof_size_bytes p = 32 + 8 + 8 + length (mp_auth_path p) * 33 + 8 + length (mp_peaks p) * 32"

section \<open>The mountain range as a forest\<close>

text \<open>The root of the perfect tree over \<open>2 ^ k\<close> leaves, and the roots of the trees of sizes \<open>2 ^ (k - 1)\<close> down to 1 that a
  list of leaves divides into.\<close>

fun mountain :: "sha256 \<Rightarrow> nat \<Rightarrow> hash list \<Rightarrow> hash" where
  "mountain S 0 xs = hd xs"
| "mountain S (Suc k) xs = hash_mmr_node S (mountain S k (take (2 ^ k) xs)) (mountain S k (drop (2 ^ k) xs)) (of_nat k)"

fun mountains :: "sha256 \<Rightarrow> nat \<Rightarrow> hash list \<Rightarrow> hash list" where
  "mountains S 0 xs = []"
| "mountains S (Suc k) xs =
     (if 2 ^ k \<le> length xs then mountain S k (take (2 ^ k) xs) # mountains S k (drop (2 ^ k) xs) else mountains S k xs)"

lemma mountains_Nil [simp]: "mountains S k [] = []"
  by (induction k) simp_all

lemma mountain_append: "length xs = 2 ^ k \<Longrightarrow> mountain S (Suc k) (xs @ ys) = hash_mmr_node S (mountain S k xs) (mountain S k ys) (of_nat k)"
  by simp

text \<open>Appending a tree that is smaller than every tree before it.\<close>

lemma mountains_snoc:
  assumes "2 ^ Suc h dvd length ys" and "length zs = 2 ^ h" and "length ys + length zs < 2 ^ k"
  shows "mountains S k (ys @ zs) = mountains S k ys @ [mountain S h zs]"
  using assms
proof (induction k arbitrary: ys)
  case 0
  then show ?case by simp
next
  case (Suc k)
  have pos: "(0 :: nat) < 2 ^ h" by simp
  have small: "(2 :: nat) ^ h < 2 ^ Suc k" using Suc.prems by linarith
  then have hk: "h \<le> k" by (metis less_Suc_eq_le one_less_numeral_iff power_less_imp_less_exp semiring_norm(76))
  show ?case
  proof (cases "2 ^ k \<le> length ys")
    case True
    have "ys \<noteq> []" using True by (metis list.size(3) not_one_le_zero one_le_numeral one_le_power order_trans)
    then have "2 ^ Suc h \<le> length ys" using Suc.prems(1) by (simp add: dvd_imp_le)
    then have "(2 :: nat) ^ Suc h < 2 ^ Suc k" using Suc.prems(2,3) pos by linarith
    then have "Suc h \<le> k" by (metis less_Suc_eq_le one_less_numeral_iff power_less_imp_less_exp semiring_norm(76))
    then have "(2 :: nat) ^ Suc h dvd 2 ^ k" by (rule le_imp_power_dvd)
    then have "2 ^ Suc h dvd length (drop (2 ^ k) ys)" using Suc.prems(1) True by (simp add: dvd_diff_nat)
    moreover have "length (drop (2 ^ k) ys) + length zs < 2 ^ k" using Suc.prems(3) True by simp
    ultimately show ?thesis using Suc.IH[OF _ Suc.prems(2)] True by simp
  next
    case False
    show ?thesis
    proof (cases "h = k")
      case True
      have "ys = []"
      proof (rule ccontr)
        assume "ys \<noteq> []"
        then have "2 ^ Suc h \<le> length ys" using Suc.prems(1) by (simp add: dvd_imp_le)
        then show False using False True by simp
      qed
      then show ?thesis using Suc.prems(2) True by simp
    next
      case h: False
      then have "Suc h \<le> k" using hk by simp
      then have "(2 :: nat) ^ Suc h dvd 2 ^ k" by (rule le_imp_power_dvd)
      then have "2 ^ Suc h dvd 2 ^ k - length ys" using Suc.prems(1) False by (simp add: dvd_diff_nat)
      then have "2 ^ Suc h \<le> 2 ^ k - length ys" using False by (intro dvd_imp_le) simp_all
      then have le: "length ys + length zs < 2 ^ k" using Suc.prems(2) pos False by simp
      then show ?thesis using Suc.IH[OF Suc.prems(1,2) le] False by simp
    qed
  qed
qed

text \<open>The loop of \<open>append\<close>: at height \<open>h\<close>, the trees of the leaves before the last \<open>2 ^ h\<close> and the tree over these.\<close>

lemma bit_mod_div: "bit (n :: nat) h \<longleftrightarrow> odd (n div 2 ^ h)"
  by (simp add: bit_iff_odd)

lemma has_peak_iff: "n < 2 ^ 64 - 1 \<Longrightarrow> has_peak_at_height (of_nat n + 1) h \<longleftrightarrow> bit n h"
proof -
  assume n: "n < 2 ^ 64 - 1"
  have "of_nat n + 1 = (of_nat (Suc n) :: u64)" by simp
  moreover have "unat (of_nat (Suc n) :: u64) = Suc n" using n by (simp only: unat_of_nat) simp
  ultimately have nz: "of_nat n + 1 \<noteq> (0 :: u64)" by (metis nat.distinct(1) unat_0)
  have "unat (of_nat n :: u64) = n" using n by (simp only: unat_of_nat) simp
  then have "bit (of_nat n :: u64) h \<longleftrightarrow> bit n h" by (metis bit_unsigned_iff bit_imp_le_length unsigned_of_nat bit_of_nat_iff bit_take_bit_iff)
  then show ?thesis using nz by (simp add: has_peak_at_height_def)
qed

lemma merge_peaks_mountains:
  assumes n: "length xs < 2 ^ 64 - 1" and "length zs = 2 ^ h" and "ys @ zs = xs @ [x]" and "2 ^ h dvd length ys"
    and "length ys div 2 ^ h = length xs div 2 ^ h"
  shows "\<exists>i. merge_peaks S (of_nat (length xs) + 1) h (mountains S 64 ys) (mountain S h zs) z =
      Some (mountains S 64 (xs @ [x]), z + of_nat i) \<and> length (mountains S 64 (xs @ [x])) + i = length (mountains S 64 ys) + 1"
  using assms(2-5)
proof (induction "length ys" arbitrary: h ys zs z rule: less_induct)
  case less
  have l: "length ys + length zs = length xs + 1" using less.prems(2) by (metis length_append length_append_singleton Suc_eq_plus1)
  have fits: "length ys + length zs < 2 ^ 64" using l n by simp
  have m: "has_peak_at_height (of_nat (length xs) + 1) h \<longleftrightarrow> odd (length ys div 2 ^ h)"
    using has_peak_iff[OF n] less.prems(4) by (simp add: bit_mod_div)
  show ?case
  proof (cases "odd (length ys div 2 ^ h)")
    case False
    have "length ys = length ys div 2 ^ h * 2 ^ h" using less.prems(3) by simp
    moreover have "2 * 2 ^ h dvd length ys div 2 ^ h * 2 ^ h" using False by (intro mult_dvd_mono) simp_all
    ultimately have d: "2 ^ Suc h dvd length ys" by simp
    from mountains_snoc[OF d less.prems(1) fits, of S] show ?thesis
      using False m less.prems(2) by (intro exI[of _ 0]) (simp add: merge_peaks.simps)
  next
    case True
    define ws where "ws = take (length ys - 2 ^ h) ys"
    define vs where "vs = drop (length ys - 2 ^ h) ys"
    have "length ys div 2 ^ h \<noteq> 0" using True by (metis even_zero)
    then have le: "2 ^ h \<le> length ys" by (metis div_less not_less)
    have ys: "ys = ws @ vs" "length vs = 2 ^ h" "length ws = length ys - 2 ^ h" using le by (simp_all add: ws_def vs_def)
    have div: "length ws div 2 ^ h = length ys div 2 ^ h - 1" using ys(3) le by (simp add: le_div_geq)
    have "2 ^ h dvd length ws" using ys(3) less.prems(3) le by (simp add: dvd_diff_nat)
    then have "length ws = length ws div 2 ^ h * 2 ^ h" by simp
    moreover have "2 * 2 ^ h dvd length ws div 2 ^ h * 2 ^ h" using True div by (intro mult_dvd_mono) simp_all
    ultimately have d: "2 ^ Suc h dvd length ws" by simp
    have fw: "length ws + length vs < 2 ^ 64" using fits ys(2,3) le by linarith
    have snoc: "mountains S 64 ys = mountains S 64 ws @ [mountain S h vs]"
      using mountains_snoc[OF d ys(2) fw, of S] ys(1) by simp
    have node: "mountain S (Suc h) (vs @ zs) = hash_mmr_node S (mountain S h vs) (mountain S h zs) (of_nat h)"
      by (rule mountain_append[OF ys(2)])
    have nxt: "length (vs @ zs) = 2 ^ Suc h" "ws @ (vs @ zs) = xs @ [x]"
      using ys(1,2) less.prems(1,2) by simp_all
    have "(0 :: nat) < 2 ^ h" by simp
    then have shorter: "length ws < length ys" using ys(3) le by linarith
    have "length ws div 2 ^ Suc h = length xs div 2 ^ Suc h"
    proof -
      have "length ws div 2 ^ h div 2 = length xs div 2 ^ h div 2"
      proof -
        have e: "(a - 1) div 2 = a div 2" if "odd a" for a :: nat using that by (elim oddE) simp
        have o: "odd (length xs div 2 ^ h)" using True unfolding less.prems(4) .
        show ?thesis unfolding div less.prems(4) by (rule e[OF o])
      qed
      then show ?thesis by (simp only: power_Suc2 div_mult2_eq)
    qed
    from less.hyps[OF shorter nxt d this, of "z + 1"] obtain i where
      "merge_peaks S (of_nat (length xs) + 1) (Suc h) (mountains S 64 ws) (mountain S (Suc h) (vs @ zs)) (z + 1) =
        Some (mountains S 64 (xs @ [x]), z + 1 + of_nat i)"
      and "length (mountains S 64 (xs @ [x])) + i = length (mountains S 64 ws) + 1" by blast
    then show ?thesis using True m
      by (intro exI[of _ "Suc i"]) (simp add: merge_peaks.simps[of S _ h] snoc node[symmetric] add.assoc del: mountain.simps)
  qed
qed

text \<open>A mountain range over a list of leaves.\<close>

definition mmr_over :: "sha256 \<Rightarrow> hash list \<Rightarrow> mmr \<Rightarrow> bool" where
  "mmr_over S xs m \<longleftrightarrow> length xs < 2 ^ 62 \<and> mr_leaf_count m = of_nat (length xs) \<and> mr_peaks m = mountains S 64 xs \<and>
     int (unat (mr_mmr_size m)) = 2 * int (length xs) - int (length (mountains S 64 xs))"

lemma mmr_over_new: "mmr_over S [] mmr_new"
  by (simp add: mmr_over_def mmr_new_def)

lemma mountains_length_le: "length (mountains S k xs) \<le> length xs"
proof (induction k arbitrary: xs)
  case (Suc k)
  have "(1 :: nat) \<le> 2 ^ k" by simp
  moreover have "length (mountains S k (drop (2 ^ k) xs)) \<le> length xs - 2 ^ k" using Suc[of "drop (2 ^ k) xs"] by simp
  ultimately have "Suc (length (mountains S k (drop (2 ^ k) xs))) \<le> length xs" if "2 ^ k \<le> length xs" using that by linarith
  then show ?case using Suc[of xs] by simp
qed simp

text \<open>Appending never panics and gives the mountain range over one leaf more.\<close>

lemma mmr_append_over:
  assumes ok: "mmr_over S xs m" and n: "length xs + 1 < 2 ^ 62"
  shows "\<exists>m'. mmr_append S x m = Some (mmr_root S m', m') \<and> mmr_over S (xs @ [x]) m'"
proof -
  have p: "mr_peaks m = mountains S 64 xs" "mr_leaf_count m = of_nat (length xs)"
    "int (unat (mr_mmr_size m)) = 2 * int (length xs) - int (length (mountains S 64 xs))"
    using ok by (simp_all add: mmr_over_def)
  have "length xs < 2 ^ 64 - 1" using n by simp
  from merge_peaks_mountains[OF this, of "[x]" 0 xs x S "mr_mmr_size m + 1"] obtain i where
    r: "merge_peaks S (of_nat (length xs) + 1) 0 (mountains S 64 xs) x (mr_mmr_size m + 1) =
        Some (mountains S 64 (xs @ [x]), mr_mmr_size m + 1 + of_nat i)"
    and i: "length (mountains S 64 (xs @ [x])) + i = length (mountains S 64 xs) + 1" by auto
  define m' where "m' = \<lparr>mr_leaf_count = of_nat (length xs) + 1, mr_peaks = mountains S 64 (xs @ [x]),
    mr_mmr_size = mr_mmr_size m + 1 + of_nat i\<rparr>"
  have a: "mmr_append S x m = Some (mmr_root S m', m')"
    by (simp add: mmr_append_def p(1,2) r m'_def mmr_root_def)
  have il: "i \<le> length xs + 1" using i mountains_length_le[of S 64 xs] by linarith
  have "unat (mr_mmr_size m) \<le> 2 * length xs" using p(3) by linarith
  then have "unat (mr_mmr_size m) + 1 + i < 2 ^ 64" using il n by simp
  moreover have "unat (of_nat i :: u64) = i" using il n by (simp only: unat_of_nat) simp
  ultimately have "unat (mr_mmr_size m + 1 + of_nat i) = unat (mr_mmr_size m) + 1 + i"
    by (simp add: unat_add_small)
  then have "mmr_over S (xs @ [x]) m'" using p(3) i n by (simp add: mmr_over_def m'_def add.commute)
  with a show ?thesis by blast
qed

section \<open>Peaks and size\<close>

lemma length_mountains:
  "length xs < 2 ^ k \<Longrightarrow> length (mountains S k xs) = length (filter (bit (length xs)) [0..<k])"
proof (induction k arbitrary: xs)
  case (Suc k)
  have top_bit: "bit (length xs) k \<longleftrightarrow> 2 ^ k \<le> length xs"
  proof -
    have "length xs div 2 ^ k < 2" using Suc.prems by (simp add: less_mult_imp_div_less)
    then have "odd (length xs div 2 ^ k) \<longleftrightarrow> length xs div 2 ^ k \<noteq> 0" by (auto simp: less_2_cases_iff)
    then show ?thesis by (simp add: bit_iff_odd div_eq_0_iff not_less)
  qed
  show ?case
  proof (cases "2 ^ k \<le> length xs")
    case True
    have l: "length (drop (2 ^ k) xs) < 2 ^ k" using Suc.prems by simp
    have "length xs mod 2 ^ k = length xs - 2 ^ k" using True Suc.prems by (simp add: le_mod_geq)
    then have "bit (length xs - 2 ^ k) i \<longleftrightarrow> bit (length xs) i" if "i < k" for i
      using that by (metis bit_take_bit_iff take_bit_eq_mod)
    then have "filter (bit (length xs - 2 ^ k)) [0..<k] = filter (bit (length xs)) [0..<k]"
      by (intro filter_cong) simp_all
    then show ?thesis using Suc.IH[OF l] True top_bit by simp
  next
    case False
    then show ?thesis using Suc.IH[of xs] top_bit by simp
  qed
qed simp

lemma count_ones_of_nat: "n < 2 ^ 64 \<Longrightarrow> count_ones (of_nat n) = length (filter (bit n) [0..<64])"
proof -
  assume n: "n < 2 ^ 64"
  have "unat (of_nat n :: u64) = n" using n by (simp only: unat_of_nat) simp
  then have "bit (of_nat n :: u64) i \<longleftrightarrow> bit n i" for i
    by (metis bit_unsigned_iff bit_imp_le_length unsigned_of_nat bit_of_nat_iff bit_take_bit_iff)
  then have "bit (of_nat n :: u64) = bit n" by (rule ext)
  then show ?thesis by (simp only: count_ones_def)
qed

text \<open>One peak per one in the binary representation, and the size that \<open>size_for_leaves\<close> computes.\<close>

lemma mmr_over_counts:
  assumes "mmr_over S xs m"
  shows "peak_count m = mmr_peak_count (mr_leaf_count m)" and "mr_mmr_size m = size_for_leaves (mr_leaf_count m)"
proof -
  have n: "length xs < 2 ^ 64" "length xs < 2 ^ 62" using assms by (auto simp: mmr_over_def)
  have c: "length (mountains S 64 xs) = count_ones (of_nat (length xs))"
    by (simp only: length_mountains[OF n(1)] count_ones_of_nat[OF n(1)])
  then show "peak_count m = mmr_peak_count (mr_leaf_count m)" using assms by (simp add: mmr_over_def peak_count_def mmr_peak_count_def)
  have z: "int (unat (mr_mmr_size m)) = 2 * int (length xs) - int (length (mountains S 64 xs))" using assms by (simp add: mmr_over_def)
  have "mr_mmr_size m = word_of_int (int (unat (mr_mmr_size m)))" by simp
  also have "\<dots> = 2 * of_nat (length xs) - of_nat (length (mountains S 64 xs))" unfolding z by simp
  also have "\<dots> = size_for_leaves (mr_leaf_count m)"
    using assms by (auto simp: c mmr_over_def size_for_leaves_def count_ones_def)
  finally show "mr_mmr_size m = size_for_leaves (mr_leaf_count m)" .
qed

text \<open>\<open>leaf_position\<close> does not give the position of the third leaf: that of the node over the first two.\<close>

lemma leaf_position_collides: "leaf_position 2 = size_for_leaves 2"
  by (simp add: leaf_position_def size_for_leaves_def count_ones_def upt_rec)

section \<open>The root binds the leaves\<close>

text \<open>The messages hashed for a tree, for bagging, and for a whole range.\<close>

definition node_message :: "hash \<Rightarrow> hash \<Rightarrow> u32 \<Rightarrow> bytes" where
  "node_message l r h = ascii ''MMR_NODE'' @ to_le_bytes h @ hash_as_bytes l @ hash_as_bytes r"

definition bag_message :: "hash \<Rightarrow> hash \<Rightarrow> bytes" where
  "bag_message l r = ascii ''MMR_BAG'' @ hash_as_bytes l @ hash_as_bytes r"

lemma hash_mmr_node_message: "hash_mmr_node S l r h = Hash (S (node_message l r h))"
  by (simp add: hash_mmr_node_def node_message_def)

lemma hash_bag_message: "hash_bag S l r = Hash (S (bag_message l r))"
  by (simp add: hash_bag_def bag_message_def)

lemma node_message_inject [simp]: "node_message l r h = node_message l' r' h' \<longleftrightarrow> l = l' \<and> r = r' \<and> h = h'"
  by (auto simp: node_message_def to_le_bytes_prefix hash_prefix to_le_bytes_inject)

lemma bag_message_inject [simp]: "bag_message l r = bag_message l' r' \<longleftrightarrow> l = l' \<and> r = r'"
  by (simp add: bag_message_def hash_prefix)

fun mountain_inputs :: "sha256 \<Rightarrow> nat \<Rightarrow> hash list \<Rightarrow> bytes list" where
  "mountain_inputs S 0 xs = []"
| "mountain_inputs S (Suc k) xs =
     node_message (mountain S k (take (2 ^ k) xs)) (mountain S k (drop (2 ^ k) xs)) (of_nat k) #
     mountain_inputs S k (take (2 ^ k) xs) @ mountain_inputs S k (drop (2 ^ k) xs)"

fun mountains_inputs :: "sha256 \<Rightarrow> nat \<Rightarrow> hash list \<Rightarrow> bytes list" where
  "mountains_inputs S 0 xs = []"
| "mountains_inputs S (Suc k) xs =
     (if 2 ^ k \<le> length xs then mountain_inputs S k (take (2 ^ k) xs) @ mountains_inputs S k (drop (2 ^ k) xs)
      else mountains_inputs S k xs)"

fun bag_inputs :: "sha256 \<Rightarrow> hash list \<Rightarrow> bytes list" where
  "bag_inputs S (p # q # ps) = bag_message p (bag_peaks S (q # ps)) # bag_inputs S (q # ps)"
| "bag_inputs S _ = []"

definition range_inputs :: "sha256 \<Rightarrow> hash list \<Rightarrow> bytes list" where
  "range_inputs S xs = mountains_inputs S 64 xs @ bag_inputs S (mountains S 64 xs)"

lemma bag_peaks_inject:
  assumes "inj_on S (set (bag_inputs S ps) \<union> set (bag_inputs S qs))" and "length ps = length qs" and "bag_peaks S ps = bag_peaks S qs"
  shows "ps = qs"
  using assms(2,1,3)
proof (induction ps qs rule: list_induct2)
  case (Cons p ps q qs)
  show ?case
  proof (cases ps)
    case Nil
    then show ?thesis using Cons by simp
  next
    case ps: (Cons p' ps')
    then obtain q' qs' where qs: "qs = q' # qs'" using Cons.hyps by (cases qs) simp_all
    have "S (bag_message p (bag_peaks S ps)) = S (bag_message q (bag_peaks S qs))"
      using Cons.prems(2) ps qs by (simp add: hash_bag_message)
    moreover have "bag_message p (bag_peaks S ps) \<in> set (bag_inputs S (p # ps))"
      "bag_message q (bag_peaks S qs) \<in> set (bag_inputs S (q # qs))" using ps qs by simp_all
    ultimately have "bag_message p (bag_peaks S ps) = bag_message q (bag_peaks S qs)"
      using Cons.prems(1) by (auto dest: inj_onD)
    then have e: "p = q" "bag_peaks S ps = bag_peaks S qs" by simp_all
    have "inj_on S (set (bag_inputs S ps) \<union> set (bag_inputs S qs))"
      by (rule inj_on_subset[OF Cons.prems(1)]) (use ps qs in auto)
    with Cons.IH e show ?thesis by simp
  qed
qed simp

lemma mountain_inject:
  assumes "inj_on S (set (mountain_inputs S k xs) \<union> set (mountain_inputs S k ys))"
    and "length xs = 2 ^ k" and "length ys = 2 ^ k" and "mountain S k xs = mountain S k ys"
  shows "xs = ys"
  using assms
proof (induction k arbitrary: xs ys)
  case 0
  then show ?case by (cases xs; cases ys) simp_all
next
  case (Suc k)
  let ?l = "\<lambda>zs. take (2 ^ k) zs" and ?r = "\<lambda>zs. drop (2 ^ k) zs"
  have "node_message (mountain S k (?l xs)) (mountain S k (?r xs)) (of_nat k) =
      node_message (mountain S k (?l ys)) (mountain S k (?r ys)) (of_nat k)"
    by (rule inj_onD[OF Suc.prems(1)]) (use Suc.prems(4) in \<open>simp_all add: hash_mmr_node_message\<close>)
  then have e: "mountain S k (?l xs) = mountain S k (?l ys)" "mountain S k (?r xs) = mountain S k (?r ys)" by simp_all
  have "?l xs = ?l ys"
    by (rule Suc.IH[OF inj_on_subset[OF Suc.prems(1)] _ _ e(1)]) (use Suc.prems(2,3) in auto)
  moreover have "?r xs = ?r ys"
    by (rule Suc.IH[OF inj_on_subset[OF Suc.prems(1)] _ _ e(2)]) (use Suc.prems(2,3) in auto)
  ultimately show ?case by (metis append_take_drop_id)
qed

lemma mountains_inject:
  assumes "inj_on S (set (mountains_inputs S k xs) \<union> set (mountains_inputs S k ys))"
    and "length xs = length ys" and "length xs < 2 ^ k" and "mountains S k xs = mountains S k ys"
  shows "xs = ys"
  using assms
proof (induction k arbitrary: xs ys)
  case (Suc k)
  show ?case
  proof (cases "2 ^ k \<le> length xs")
    case True
    have "mountain S k (take (2 ^ k) xs) = mountain S k (take (2 ^ k) ys)"
      and e: "mountains S k (drop (2 ^ k) xs) = mountains S k (drop (2 ^ k) ys)" using Suc.prems(2,4) True by simp_all
    moreover have "inj_on S (set (mountain_inputs S k (take (2 ^ k) xs)) \<union> set (mountain_inputs S k (take (2 ^ k) ys)))"
      by (rule inj_on_subset[OF Suc.prems(1)]) (use True Suc.prems(2) in auto)
    ultimately have "take (2 ^ k) xs = take (2 ^ k) ys" using mountain_inject True Suc.prems(2) by force
    moreover have "drop (2 ^ k) xs = drop (2 ^ k) ys"
      by (rule Suc.IH[OF inj_on_subset[OF Suc.prems(1)] _ _ e]) (use Suc.prems(2,3) True in auto)
    ultimately show ?thesis by (metis append_take_drop_id)
  next
    case False
    show ?thesis by (rule Suc.IH[OF inj_on_subset[OF Suc.prems(1)] Suc.prems(2)]) (use False Suc.prems(2,4) in auto)
  qed
qed simp

lemma mmr_root_inject:
  assumes "mmr_over S xs m" and "mmr_over S ys m'" and "mr_leaf_count m = mr_leaf_count m'" and "mmr_root S m = mmr_root S m'"
    and inj: "inj_on S (set (range_inputs S xs @ range_inputs S ys))"
  shows "xs = ys"
proof -
  have n: "length xs < 2 ^ 62" "length ys < 2 ^ 62" using assms(1,2) by (simp_all add: mmr_over_def)
  then have f: "length xs < 2 ^ 64" "length ys < 2 ^ 64" by simp_all
  have "(of_nat (length xs) :: u64) = of_nat (length ys)" using assms(1-3) by (simp add: mmr_over_def)
  then have "unat (of_nat (length xs) :: u64) = unat (of_nat (length ys) :: u64)" by (rule arg_cong)
  then have len: "length xs = length ys" using f by (simp add: unat_of_nat)
  have "bag_peaks S (mountains S 64 xs) = bag_peaks S (mountains S 64 ys)"
    using assms(1,2,4) by (simp add: mmr_over_def mmr_root_def)
  moreover have "length (mountains S 64 xs) = length (mountains S 64 ys)"
    by (simp only: length_mountains[OF f(1)] length_mountains[OF f(2)] len)
  moreover have "inj_on S (set (bag_inputs S (mountains S 64 xs)) \<union> set (bag_inputs S (mountains S 64 ys)))"
    by (rule inj_on_subset[OF inj]) (auto simp: range_inputs_def)
  ultimately have "mountains S 64 xs = mountains S 64 ys" using bag_peaks_inject by blast
  moreover have "inj_on S (set (mountains_inputs S 64 xs) \<union> set (mountains_inputs S 64 ys))"
    by (rule inj_on_subset[OF inj]) (auto simp: range_inputs_def)
  ultimately show ?thesis using mountains_inject len f(1) by blast
qed

text \<open>An inclusion proof is not tied to the place or the depth of a leaf: any peak passes as a leaf, with an empty path.\<close>

lemma peak_passes_as_leaf:
  assumes "i < length (mr_peaks m)"
  shows "mmr_proof_verify S \<lparr>mp_leaf_hash = mr_peaks m ! i, mp_leaf_index = j, mp_mmr_size = z, mp_auth_path = [],
    mp_peak_index = i, mp_peaks = mr_peaks m\<rparr> (mmr_root S m)"
  using assms by (simp add: mmr_proof_verify_def mmr_root_def)

text \<open>
  The rest of \<open>node/src/light_sync.rs\<close>: FlyClient proofs, the server that makes them and the verifier that light clients
  run. Hash maps are association lists in the order in which they are walked; the random numbers of the sampling are the
  stream \<open>draws\<close>; a sampling loop that never ends is \<open>None\<close>.
\<close>

section \<open>Definitions\<close>

definition FLYCLIENT_SECURITY_PARAM :: nat where "FLYCLIENT_SECURITY_PARAM = 50"
definition HEADER_SIZE_BYTES :: nat where "HEADER_SIZE_BYTES = 80"
definition FLYCLIENT_MIN_BLOCKS :: u64 where "FLYCLIENT_MIN_BLOCKS = 1000"

datatype flyclient_error = GenesisMismatch | InvalidTip | InvalidMMRProof u64 | InsufficientSamples | NoVerifiedState |
  VerificationFailed string

record sampled_block =
  sb_header :: block_header
  sb_mmr_proof :: mmr_proof
  sb_weight :: f64

record flyclient_proof =
  fp_genesis_hash :: hash
  fp_tip_header :: block_header
  fp_mmr_root :: hash
  fp_sampled_headers :: "sampled_block list"
  fp_total_work :: u128
  fp_security_param :: nat

fun check_samples :: "sha256 \<Rightarrow> hash \<Rightarrow> sampled_block list \<Rightarrow> flyclient_error + unit" where
  "check_samples S rt [] = Inr ()"
| "check_samples S rt (s # rest) =
     (if \<not> mmr_proof_verify S (sb_mmr_proof s) rt then Inl (InvalidMMRProof (bh_height (sb_header s)))
      else check_samples S rt rest)"

definition flyclient_verify :: "sha256 \<Rightarrow> flyclient_proof \<Rightarrow> flyclient_error + bool" where
  "flyclient_verify S p =
     (if bh_height (fp_tip_header p) = 0 then Inl InvalidTip
      else case check_samples S (fp_mmr_root p) (fp_sampled_headers p) of Inl e \<Rightarrow> Inl e
      | Inr _ \<Rightarrow>
          if length (fp_sampled_headers p) < min (fp_security_param p) (unat (bh_height (fp_tip_header p)))
          then Inl InsufficientSamples else Inr True)"

definition flyclient_size_bytes :: "flyclient_proof \<Rightarrow> nat" where
  "flyclient_size_bytes p = 32 + HEADER_SIZE_BYTES + 32 +
     sum_list (map (\<lambda>s. HEADER_SIZE_BYTES + mmr_proof_size_bytes (sb_mmr_proof s) + 8) (fp_sampled_headers p)) + 16 + 8"

datatype light_sync_message =
    LsGetHeaders u64 u64 u64
  | LsHeaders "block_header list" bool u64
  | LsGetFlyClientProof nat u64
  | LsFlyClientProof flyclient_proof u64
  | LsGetMMRProof u64 u64
  | LsMMRProof block_header mmr_proof hash u64
  | LsGetTxProof hash hash u64
  | LsTxProof hash block_header "(hash \<times> bool) list" mmr_proof u64
  | LsGetChainTip u64
  | LsChainTip block_header hash u128 u64

record light_sync_server =
  lss_mmr :: mmr
  lss_headers :: "(u64 \<times> hash) list"
  lss_full_headers :: "(u64 \<times> block_header) list"
  lss_chain_height :: u64
  lss_total_work :: u128

definition light_sync_server_new :: "crypto_ext \<Rightarrow> block_codec \<Rightarrow> block_header \<Rightarrow> light_sync_server" where
  "light_sync_server_new X B genesis_header =
     (let genesis_hash = header_hash X B genesis_header in
      \<lparr>lss_mmr = mmr_with_genesis genesis_hash, lss_headers = [(0, genesis_hash)], lss_full_headers = [(0, genesis_header)],
       lss_chain_height = 0, lss_total_work = 0\<rparr>)"

definition lss_add_header ::
  "sha256 \<Rightarrow> crypto_ext \<Rightarrow> block_codec \<Rightarrow> block_header \<Rightarrow> light_sync_server \<Rightarrow> (hash \<times> light_sync_server) option" where
  "lss_add_header S X B header s =
     (let h = header_hash X B header; height = bh_height header in
      case mmr_append S h (lss_mmr s) of None \<Rightarrow> None
      | Some (rt, m) \<Rightarrow> Some (rt,
          \<lparr>lss_mmr = m, lss_headers = AList.update height h (lss_headers s),
           lss_full_headers = AList.update height header (lss_full_headers s), lss_chain_height = height,
           lss_total_work = lss_total_work s + (f_to_word (f_mul (bh_work_score header) (f_of_rat 1000)) + 1)\<rparr>))"

definition lss_mmr_root :: "sha256 \<Rightarrow> light_sync_server \<Rightarrow> hash" where
  "lss_mmr_root S s = mmr_root S (lss_mmr s)"

function auth_path_loop :: "(u64 \<times> hash) list \<Rightarrow> u64 \<Rightarrow> u64 \<Rightarrow> nat \<Rightarrow> (hash \<times> bool) list" where
  "auth_path_loop headers leaf_count pos current_height =
     (if pos < leaf_count then
        (let is_even = (pos mod 2 = 0);
             sibling_pos = (if is_even then pos + 1 else pos - 1);
             here = (case map_of headers sibling_pos of Some sibling_hash \<Rightarrow> [(sibling_hash, is_even)] | None \<Rightarrow> [])
         in here @ (if 64 < current_height + 1 then [] else auth_path_loop headers leaf_count (pos div 2) (current_height + 1)))
      else [])"
  by pat_completeness auto
termination
  by (relation "measure (\<lambda>(headers, leaf_count, pos, h). 65 - h)") auto

declare auth_path_loop.simps [simp del]

definition compute_auth_path :: "light_sync_server \<Rightarrow> u64 \<Rightarrow> (hash \<times> bool) list" where
  "compute_auth_path s height = auth_path_loop (lss_headers s) (mr_leaf_count (lss_mmr s)) height 0"

fun peak_covering :: "u64 \<Rightarrow> nat \<Rightarrow> u64 \<Rightarrow> nat list \<Rightarrow> nat option" where
  "peak_covering height n covered [] = None"
| "peak_covering height n covered (i # rest) =
     (let covered' = covered + push_bit (n - 1 - i) 1 in
      if height < covered' then Some i else peak_covering height n covered' rest)"

definition find_peak_index :: "light_sync_server \<Rightarrow> u64 \<Rightarrow> nat" where
  "find_peak_index s height =
     (let n = length (mr_peaks (lss_mmr s)) in
      case peak_covering height n 0 [0..<n] of Some i \<Rightarrow> i | None \<Rightarrow> n - 1)"

definition generate_mmr_proof :: "light_sync_server \<Rightarrow> u64 \<Rightarrow> mmr_proof option" where
  "generate_mmr_proof s height = map_option (\<lambda>leaf_hash.
     \<lparr>mp_leaf_hash = leaf_hash, mp_leaf_index = height, mp_mmr_size = mr_mmr_size (lss_mmr s),
      mp_auth_path = compute_auth_path s height, mp_peak_index = find_peak_index s height, mp_peaks = mr_peaks (lss_mmr s)\<rparr>)
     (map_of (lss_headers s) height)"

partial_function (option) sample_loop ::
  "float_ext \<Rightarrow> (nat \<Rightarrow> f64) \<Rightarrow> light_sync_server \<Rightarrow> nat \<Rightarrow> nat \<Rightarrow> u64 list \<Rightarrow> sampled_block list \<Rightarrow> sampled_block list option" where
  "sample_loop F draws s security_param i heights sampled =
     (if length sampled < security_param \<and> length sampled < unat (lss_chain_height s) then
        (let height = f_to_word (f_mul (f_sub f_one (fm_powf F (draws i) (f_of_rat (1 / 2)))) (f_of_word (lss_chain_height s))) in
         if height = 0 \<or> height \<in> set heights then sample_loop F draws s security_param (i + 1) heights sampled
         else case map_of (lss_full_headers s) height of
             None \<Rightarrow> sample_loop F draws s security_param (i + 1) heights sampled
           | Some header \<Rightarrow> (case generate_mmr_proof s height of
                 None \<Rightarrow> sample_loop F draws s security_param (i + 1) heights sampled
               | Some proof \<Rightarrow> sample_loop F draws s security_param (i + 1) (height # heights)
                   (sampled @ [\<lparr>sb_header = header, sb_mmr_proof = proof,
                     sb_weight = f_div f_one (f_of_word (lss_chain_height s - height + 1))\<rparr>])))
      else Some sampled)"

definition sample_blocks ::
  "float_ext \<Rightarrow> crypto_ext \<Rightarrow> block_codec \<Rightarrow> (nat \<Rightarrow> f64) \<Rightarrow> light_sync_server \<Rightarrow> nat \<Rightarrow> sampled_block list option" where
  "sample_blocks F X B draws s security_param =
     (if lss_chain_height s < FLYCLIENT_MIN_BLOCKS then
        Some (map (\<lambda>h. \<lparr>sb_header = h,
            sb_mmr_proof = (case generate_mmr_proof s (bh_height h) of Some p \<Rightarrow> p
              | None \<Rightarrow> \<lparr>mp_leaf_hash = header_hash X B h, mp_leaf_index = bh_height h, mp_mmr_size = mr_mmr_size (lss_mmr s),
                  mp_auth_path = [], mp_peak_index = 0, mp_peaks = mr_peaks (lss_mmr s)\<rparr>),
            sb_weight = f_one\<rparr>)
          (filter (\<lambda>h. 0 < bh_height h) (map snd (lss_full_headers s))))
      else map_option (sort_key (\<lambda>b. unat (bh_height (sb_header b)))) (sample_loop F draws s security_param 0 [] []))"

definition generate_flyclient_proof ::
  "float_ext \<Rightarrow> sha256 \<Rightarrow> crypto_ext \<Rightarrow> block_codec \<Rightarrow> (nat \<Rightarrow> f64) \<Rightarrow> light_sync_server \<Rightarrow> nat \<Rightarrow> flyclient_proof option option" where
  "generate_flyclient_proof F S X B draws s security_param =
     (case map_of (lss_full_headers s) (lss_chain_height s) of None \<Rightarrow> Some None
      | Some tip_header \<Rightarrow> (case map_of (lss_headers s) 0 of None \<Rightarrow> Some None
        | Some genesis_hash \<Rightarrow> map_option (\<lambda>sampled. Some
            \<lparr>fp_genesis_hash = genesis_hash, fp_tip_header = tip_header, fp_mmr_root = lss_mmr_root S s,
             fp_sampled_headers = sampled, fp_total_work = lss_total_work s, fp_security_param = security_param\<rparr>)
            (sample_blocks F X B draws s security_param)))"

definition lss_handle_get_headers :: "light_sync_server \<Rightarrow> u64 \<Rightarrow> u64 \<Rightarrow> u64 \<Rightarrow> light_sync_message" where
  "lss_handle_get_headers s start_height max_headers request_id =
     (let end_height = min (start_height + max_headers) (lss_chain_height s + 1);
          headers = List.map_filter (\<lambda>h. map_of (lss_full_headers s) (of_nat h)) [unat start_height..<unat end_height]
      in LsHeaders headers (end_height \<le> lss_chain_height s) request_id)"

definition lss_handle_get_flyclient_proof ::
  "float_ext \<Rightarrow> sha256 \<Rightarrow> crypto_ext \<Rightarrow> block_codec \<Rightarrow> (nat \<Rightarrow> f64) \<Rightarrow> light_sync_server \<Rightarrow> nat \<Rightarrow> u64 \<Rightarrow> light_sync_message option option" where
  "lss_handle_get_flyclient_proof F S X B draws s security_param request_id =
     map_option (map_option (\<lambda>proof. LsFlyClientProof proof request_id)) (generate_flyclient_proof F S X B draws s security_param)"

definition lss_handle_get_mmr_proof :: "sha256 \<Rightarrow> light_sync_server \<Rightarrow> u64 \<Rightarrow> u64 \<Rightarrow> light_sync_message option" where
  "lss_handle_get_mmr_proof S s block_height request_id =
     (case map_of (lss_full_headers s) block_height of None \<Rightarrow> None
      | Some header \<Rightarrow> map_option (\<lambda>proof. LsMMRProof header proof (lss_mmr_root S s) request_id) (generate_mmr_proof s block_height))"

definition lss_handle_get_chain_tip :: "sha256 \<Rightarrow> light_sync_server \<Rightarrow> u64 \<Rightarrow> light_sync_message option" where
  "lss_handle_get_chain_tip S s request_id =
     map_option (\<lambda>tip_header. LsChainTip tip_header (lss_mmr_root S s) (lss_total_work s) request_id)
       (map_of (lss_full_headers s) (lss_chain_height s))"

section \<open>The verifier\<close>

record light_verifier =
  lv_genesis_hash :: hash
  lv_verified_tip :: "block_header option"
  lv_verified_mmr_root :: "hash option"
  lv_verification_count :: u64

definition light_verifier_new :: "hash \<Rightarrow> light_verifier" where
  "light_verifier_new genesis_hash =
     \<lparr>lv_genesis_hash = genesis_hash, lv_verified_tip = None, lv_verified_mmr_root = None, lv_verification_count = 0\<rparr>"

record verification_result =
  vr_valid :: bool
  vr_new_tip_height :: u64
  vr_total_work :: u128
  vr_proof_size_bytes :: nat
  vr_samples_verified :: nat

definition extends_chain :: "light_verifier \<Rightarrow> flyclient_proof \<Rightarrow> bool" where
  "extends_chain v p = (case lv_verified_tip v of None \<Rightarrow> True
     | Some current_tip \<Rightarrow> bh_height current_tip < bh_height (fp_tip_header p))"

definition verify_and_update ::
  "sha256 \<Rightarrow> flyclient_proof \<Rightarrow> light_verifier \<Rightarrow> (flyclient_error + verification_result) \<times> light_verifier" where
  "verify_and_update S p v =
     (if fp_genesis_hash p \<noteq> lv_genesis_hash v then (Inl GenesisMismatch, v)
      else case flyclient_verify S p of Inl e \<Rightarrow> (Inl e, v)
      | Inr _ \<Rightarrow>
          if extends_chain v p then
            (Inr \<lparr>vr_valid = True, vr_new_tip_height = bh_height (fp_tip_header p), vr_total_work = fp_total_work p,
               vr_proof_size_bytes = flyclient_size_bytes p, vr_samples_verified = length (fp_sampled_headers p)\<rparr>,
             v\<lparr>lv_verified_tip := Some (fp_tip_header p), lv_verified_mmr_root := Some (fp_mmr_root p),
               lv_verification_count := lv_verification_count v + 1\<rparr>)
          else
            (Inr \<lparr>vr_valid = True,
               vr_new_tip_height = (case lv_verified_tip v of None \<Rightarrow> 0 | Some t \<Rightarrow> bh_height t),
               vr_total_work = fp_total_work p, vr_proof_size_bytes = flyclient_size_bytes p,
               vr_samples_verified = length (fp_sampled_headers p)\<rparr>, v))"

definition lv_verify_block :: "sha256 \<Rightarrow> light_verifier \<Rightarrow> mmr_proof \<Rightarrow> flyclient_error + bool" where
  "lv_verify_block S v p = (case lv_verified_mmr_root v of None \<Rightarrow> Inl NoVerifiedState
     | Some rt \<Rightarrow> Inr (mmr_proof_verify S p rt))"

definition lv_verified_height :: "light_verifier \<Rightarrow> u64" where
  "lv_verified_height v = (case lv_verified_tip v of None \<Rightarrow> 0 | Some t \<Rightarrow> bh_height t)"

section \<open>What the server keeps\<close>

text \<open>Headers added at heights 1, 2, and so on: the range is over the hashes of the chain, and each is filed under its height.\<close>

fun serve_chain :: "sha256 \<Rightarrow> crypto_ext \<Rightarrow> block_codec \<Rightarrow> block_header list \<Rightarrow> light_sync_server \<Rightarrow> light_sync_server option" where
  "serve_chain S X B [] s = Some s"
| "serve_chain S X B (h # hs) s = (case lss_add_header S X B h s of None \<Rightarrow> None | Some (r, s') \<Rightarrow> serve_chain S X B hs s')"

definition server_over :: "sha256 \<Rightarrow> crypto_ext \<Rightarrow> block_codec \<Rightarrow> block_header list \<Rightarrow> light_sync_server \<Rightarrow> bool" where
  "server_over S X B hs s \<longleftrightarrow> mmr_over S (map (header_hash X B) hs) (lss_mmr s) \<and> hs \<noteq> [] \<and>
     (\<forall>i < length hs. map_of (lss_headers s) (of_nat i) = Some (header_hash X B (hs ! i)) \<and>
        map_of (lss_full_headers s) (of_nat i) = Some (hs ! i)) \<and> lss_chain_height s = of_nat (length hs - 1)"

lemma mmr_over_genesis: "mmr_over S [g] (mmr_with_genesis g)"
proof -
  have "mountains S k [g] = (if k = 0 then [] else [g])" for k
  proof (induction k)
    case (Suc k)
    have "(2 :: nat) ^ k \<le> 1 \<longleftrightarrow> k = 0" by (cases "k = 0") (simp_all add: not_le one_less_power del: One_nat_def)
    then show ?case using Suc by simp
  qed simp
  then show ?thesis by (simp add: mmr_over_def mmr_with_genesis_def)
qed

lemma server_over_new: "server_over S X B [g] (light_sync_server_new X B g)"
  using mmr_over_genesis[of S "header_hash X B g"] by (simp add: server_over_def light_sync_server_new_def Let_def)

lemma lss_add_header_over:
  assumes ok: "server_over S X B hs s" and "bh_height h = of_nat (length hs)" and n: "length hs + 1 < 2 ^ 62"
  shows "\<exists>r s'. lss_add_header S X B h s = Some (r, s') \<and> server_over S X B (hs @ [h]) s' \<and> r = lss_mmr_root S s'"
proof -
  have m: "mmr_over S (map (header_hash X B) hs) (lss_mmr s)" using ok by (simp add: server_over_def)
  obtain m' where m': "mmr_append S (header_hash X B h) (lss_mmr s) = Some (mmr_root S m', m')"
    "mmr_over S (map (header_hash X B) hs @ [header_hash X B h]) m'"
    using mmr_append_over[OF m, of "header_hash X B h"] n by auto
  have ne: "(of_nat i :: u64) \<noteq> of_nat (length hs)" if "i < length hs" for i
  proof -
    have "i < 2 ^ 64" "length hs < 2 ^ 64" using that n by simp_all
    then have "unat (of_nat i :: u64) = i" "unat (of_nat (length hs) :: u64) = length hs" by (simp_all add: unat_of_nat)
    then show ?thesis using that by (metis nat_neq_iff)
  qed
  obtain s' where a: "lss_add_header S X B h s = Some (mmr_root S m', s')" and s': "lss_mmr s' = m'"
    "lss_headers s' = AList.update (of_nat (length hs)) (header_hash X B h) (lss_headers s)"
    "lss_full_headers s' = AList.update (of_nat (length hs)) h (lss_full_headers s)"
    "lss_chain_height s' = of_nat (length hs)"
    using assms(2) m'(1) by (simp add: lss_add_header_def Let_def)
  have "server_over S X B (hs @ [h]) s'"
    using ok m'(2) ne by (auto simp: server_over_def s' update_conv' nth_append less_Suc_eq)
  with a s' show ?thesis by (auto simp: lss_mmr_root_def)
qed

text \<open>Serving a chain of consecutive headers never panics.\<close>

lemma serve_chain_over:
  assumes "server_over S X B hs s" and "\<forall>i < length ks. bh_height (ks ! i) = of_nat (length hs + i)" and "length hs + length ks < 2 ^ 62"
  shows "\<exists>s'. serve_chain S X B ks s = Some s' \<and> server_over S X B (hs @ ks) s'"
  using assms
proof (induction ks arbitrary: hs s)
  case (Cons k ks)
  have "bh_height k = of_nat (length hs)" using Cons.prems(2) by force
  then obtain r s1 where s1: "lss_add_header S X B k s = Some (r, s1)" "server_over S X B (hs @ [k]) s1"
    using lss_add_header_over[OF Cons.prems(1), of k] Cons.prems(3) by auto
  have "\<forall>i < length ks. bh_height (ks ! i) = of_nat (length (hs @ [k]) + i)" using Cons.prems(2) by force
  from Cons.IH[OF s1(2) this] show ?case using s1(1) Cons.prems(3) by simp
qed simp

section \<open>Proofs that should not pass, and proofs that should\<close>

text \<open>A proof without samples whose own security parameter is zero is accepted for any tip above genesis.\<close>

definition forged_proof :: "hash \<Rightarrow> block_header \<Rightarrow> hash \<Rightarrow> u128 \<Rightarrow> flyclient_proof" where
  "forged_proof genesis tip rt work =
     \<lparr>fp_genesis_hash = genesis, fp_tip_header = tip, fp_mmr_root = rt, fp_sampled_headers = [], fp_total_work = work,
      fp_security_param = 0\<rparr>"

lemma forged_proof_accepted:
  assumes "bh_height tip \<noteq> 0" and "lv_verified_height v < bh_height tip"
  obtains r v' where "verify_and_update S (forged_proof (lv_genesis_hash v) tip rt work) v = (Inr r, v')"
    and "vr_valid r" and "lv_verified_tip v' = Some tip" and "lv_verified_mmr_root v' = Some rt" and "vr_total_work r = work"
  using assms by (auto simp: verify_and_update_def flyclient_verify_def forged_proof_def extends_chain_def lv_verified_height_def
      split: option.splits)

text \<open>And samples prove nothing about the headers they come with: the header of a sample is never compared with the leaf.\<close>

lemma samples_are_not_bound:
  "flyclient_verify S (p\<lparr>fp_sampled_headers := map (\<lambda>s. s\<lparr>sb_header := h\<rparr>) (fp_sampled_headers p)\<rparr>) = Inr True \<longleftrightarrow>
   flyclient_verify S p = Inr True"
proof -
  have "check_samples S r (map (\<lambda>s. s\<lparr>sb_header := h\<rparr>) ss) = Inr () \<longleftrightarrow> check_samples S r ss = Inr ()" for r ss
    by (induction ss) simp_all
  then show ?thesis
    by (auto simp: flyclient_verify_def split: sum.splits) (metis (full_types) old.unit.exhaust sum.simps(4))+
qed

text \<open>An honest proof has 65 steps as soon as there are two headers, because the walk never leaves position 0: its last
  hash is taken at height 64.\<close>

lemma auth_path_zero:
  assumes "map_of headers 1 = Some h1" and "0 < leaf_count"
  shows "k \<le> 64 \<Longrightarrow> auth_path_loop headers leaf_count 0 (64 - k) = replicate (k + 1) (h1, True)"
proof (induction k)
  case 0
  then show ?case using assms by (simp add: auth_path_loop.simps)
next
  case (Suc k)
  have "64 - Suc k + 1 = 64 - k" "\<not> 64 < 64 - Suc k + 1" using Suc.prems by linarith+
  then show ?case using assms Suc by (subst auth_path_loop.simps) simp
qed

lemma climb_snoc:
  "climb S h c (path @ [(x, True)]) = hash_mmr_node S (climb S h c path) x (of_nat (h + length path))"
  by (induction S h c path rule: climb.induct) simp_all

lemma climb_replicate:
  "climb S h c (replicate (Suc n) (x, True)) = hash_mmr_node S (climb S h c (replicate n (x, True))) x (of_nat (h + n))"
  unfolding replicate_Suc replicate_append_same[symmetric] climb_snoc by simp

lemma not_pow_le_pair: "\<not> (2 :: nat) ^ Suc (Suc k) \<le> length [a, b]"
proof -
  have "(1 :: nat) \<le> 2 ^ k" by simp
  then have "2 < 4 * (2 :: nat) ^ k" by linarith
  then show ?thesis by (simp add: not_le)
qed

lemma mountains_pair: "mountains S (Suc (Suc k)) [a, b] = [hash_mmr_node S a b 0]"
proof (induction k)
  case 0
  show ?case by simp
next
  case (Suc k)
  then show ?case using not_pow_le_pair by (subst mountains.simps) simp
qed

lemma honest_proof_rejected:
  fixes S X B g h
  defines "s \<equiv> snd (the (lss_add_header S X B h (light_sync_server_new X B g)))"
    and "c \<equiv> climb S 0 (header_hash X B g) (replicate 64 (header_hash X B h, True))"
  assumes "bh_height h = 1"
    and "inj_on S {node_message c (header_hash X B h) 64, node_message (header_hash X B g) (header_hash X B h) 0}"
  obtains p where "generate_mmr_proof s 0 = Some p" and "\<not> mmr_proof_verify S p (lss_mmr_root S s)"
proof -
  let ?g = "header_hash X B g" and ?h = "header_hash X B h"
  have "server_over S X B [g] (light_sync_server_new X B g)" by (rule server_over_new)
  from lss_add_header_over[OF this, of h] assms(3) obtain r s' where
    a: "lss_add_header S X B h (light_sync_server_new X B g) = Some (r, s')" and ok: "server_over S X B [g, h] s'" by auto
  have s: "s = s'" by (simp add: s_def a)
  have m: "map_of (lss_headers s) 0 = Some ?g" "map_of (lss_headers s) 1 = Some ?h" "mr_leaf_count (lss_mmr s) = 2"
    and pk: "mr_peaks (lss_mmr s) = mountains S 64 [?g, ?h]"
    using ok by (auto simp: server_over_def mmr_over_def s less_Suc_eq all_conj_distrib)
  have pk1: "mr_peaks (lss_mmr s) = [hash_mmr_node S ?g ?h 0]" using pk mountains_pair[of S 62 ?g ?h] by simp
  have path: "compute_auth_path s 0 = replicate 65 (?h, True)"
    using auth_path_zero[of "lss_headers s" ?h 2 64] m by (simp add: compute_auth_path_def)
  have "climb S 0 ?g (replicate 65 (?h, True)) = hash_mmr_node S c ?h 64"
    using climb_replicate[of S 0 ?g 64 ?h] by (simp add: c_def)
  moreover have "hash_mmr_node S c ?h 64 \<noteq> hash_mmr_node S ?g ?h 0"
    using inj_onD[OF assms(4), of "node_message c ?h 64" "node_message ?g ?h 0"] by (auto simp: hash_mmr_node_message)
  ultimately have ne: "climb S 0 ?g (compute_auth_path s 0) \<noteq> hash_mmr_node S ?g ?h 0" by (simp only: path not_False_eq_True)
  obtain p where p: "generate_mmr_proof s 0 = Some p" "mp_leaf_hash p = ?g" "mp_auth_path p = compute_auth_path s 0"
    "mp_peaks p = [hash_mmr_node S ?g ?h 0]"
    using m pk1 by (simp add: generate_mmr_proof_def)
  have "\<not> mmr_proof_verify S p (lss_mmr_root S s)"
  proof
    assume v: "mmr_proof_verify S p (lss_mmr_root S s)"
    then have "mp_peak_index p < 1" using p(4) by (simp add: mmr_proof_verify_def Let_def not_le split: if_splits)
    then have "mp_peaks p ! mp_peak_index p = hash_mmr_node S ?g ?h 0" using p(4) by simp
    then have "climb S 0 ?g (compute_auth_path s 0) = hash_mmr_node S ?g ?h 0"
      using v p(2,3) by (simp add: mmr_proof_verify_def Let_def split: if_splits)
    with ne show False by contradiction
  qed
  with p(1) that show ?thesis by blast
qed

end
