(* ===== verification/Node_Light_Client.thy ===== *)
theory Node_Light_Client
  imports Node_Light_Sync
begin

text \<open>
  \<open>node/src/light_client.rs\<close>: the header store of a light node, its sync manager, and the server of headers and of SPV
  proofs that full nodes run. Hash maps are association lists; an instant is a number of milliseconds; every method takes
  its locks for the whole of its body, so each is one step of the state. The two functions a header server is made with
  are arguments.
\<close>

section \<open>The header store\<close>

definition LC_MAX_HEADERS_PER_REQUEST :: u64 where "LC_MAX_HEADERS_PER_REQUEST = 2000"
definition HEADER_REQUEST_TIMEOUT_SECS :: nat where "HEADER_REQUEST_TIMEOUT_SECS = 30"

datatype light_sync_mode = FullHeaders | FlyClientMode | Hybrid

datatype light_client_error = MissingParent hash | MissingHeader u64 | InvalidRange | ValidationFailed | InvalidProof |
  NetworkError string | HeadersTimeout

record light_client_state =
  lc_headers_by_hash :: "(hash \<times> block_header) list"
  lc_headers_by_height :: "(u64 \<times> hash) list"
  lc_best_header :: "block_header option"
  lc_genesis_hash :: hash
  lc_headers_synced :: u64
  lc_sync_progress :: f64
  lc_sync_mode :: light_sync_mode
  lc_flyclient_verifier :: "light_verifier option"
  lc_verified_mmr_root :: "hash option"

definition lc_with_mode :: "hash \<Rightarrow> block_header \<Rightarrow> light_sync_mode \<Rightarrow> light_client_state" where
  "lc_with_mode genesis_hash genesis_header sync_mode =
     \<lparr>lc_headers_by_hash = [(genesis_hash, genesis_header)], lc_headers_by_height = [(0, genesis_hash)],
      lc_best_header = Some genesis_header, lc_genesis_hash = genesis_hash, lc_headers_synced = 1,
      lc_sync_progress = f_zero, lc_sync_mode = sync_mode,
      lc_flyclient_verifier = (if sync_mode = FlyClientMode \<or> sync_mode = Hybrid then Some (light_verifier_new genesis_hash) else None),
      lc_verified_mmr_root = None\<rparr>"

definition lc_new :: "hash \<Rightarrow> block_header \<Rightarrow> light_client_state" where
  "lc_new genesis_hash genesis_header = lc_with_mode genesis_hash genesis_header Hybrid"

definition verify_flyclient_proof ::
  "sha256 \<Rightarrow> flyclient_proof \<Rightarrow> light_client_state \<Rightarrow> (flyclient_error + verification_result) \<times> light_client_state" where
  "verify_flyclient_proof S proof c =
     (case lc_flyclient_verifier c of None \<Rightarrow> (Inl (VerificationFailed ''FlyClient not enabled''), c)
      | Some verifier \<Rightarrow>
          let (r, verifier') = verify_and_update S proof verifier; c' = c\<lparr>lc_flyclient_verifier := Some verifier'\<rparr> in
          case r of Inl e \<Rightarrow> (Inl e, c')
          | Inr result \<Rightarrow>
              (Inr result,
               if vr_valid result then
                 c'\<lparr>lc_verified_mmr_root := Some (fp_mmr_root proof), lc_best_header := Some (fp_tip_header proof),
                    lc_sync_progress := f_one\<rparr>
               else c'))"

definition verify_block_mmr :: "sha256 \<Rightarrow> mmr_proof \<Rightarrow> light_client_state \<Rightarrow> light_client_error + bool" where
  "verify_block_mmr S proof c = (case lc_verified_mmr_root c of None \<Rightarrow> Inl ValidationFailed
     | Some rt \<Rightarrow> Inr (mmr_proof_verify S proof rt))"

definition is_flyclient_synced :: "light_client_state \<Rightarrow> bool" where
  "is_flyclient_synced c \<longleftrightarrow> lc_verified_mmr_root c \<noteq> None"

definition lc_best_height :: "light_client_state \<Rightarrow> u64" where
  "lc_best_height c = (case lc_best_header c of None \<Rightarrow> 0 | Some h \<Rightarrow> bh_height h)"

definition lc_best_hash :: "crypto_ext \<Rightarrow> block_codec \<Rightarrow> light_client_state \<Rightarrow> hash" where
  "lc_best_hash X B c = (case lc_best_header c of None \<Rightarrow> lc_genesis_hash c | Some h \<Rightarrow> header_hash X B h)"

definition get_header :: "light_client_state \<Rightarrow> hash \<Rightarrow> block_header option" where
  "get_header c h = map_of (lc_headers_by_hash c) h"

definition get_header_at_height :: "light_client_state \<Rightarrow> u64 \<Rightarrow> block_header option" where
  "get_header_at_height c height = (case map_of (lc_headers_by_height c) height of None \<Rightarrow> None | Some h \<Rightarrow> get_header c h)"

definition store_header ::
  "crypto_ext \<Rightarrow> block_codec \<Rightarrow> block_header \<Rightarrow> light_client_state \<Rightarrow> (light_client_error + bool) \<times> light_client_state" where
  "store_header X B header c =
     (let h = header_hash X B header in
      if 0 < bh_height header \<and> map_of (lc_headers_by_hash c) (bh_prev_hash header) = None
      then (Inl (MissingParent (bh_prev_hash header)), c)
      else if map_of (lc_headers_by_hash c) h \<noteq> None then (Inr False, c)
      else
        (Inr True,
         c\<lparr>lc_headers_by_hash := AList.update h header (lc_headers_by_hash c),
           lc_headers_by_height := AList.update (bh_height header) h (lc_headers_by_height c),
           lc_best_header := (case lc_best_header c of None \<Rightarrow> Some header
             | Some b \<Rightarrow> if bh_height b < bh_height header then Some header else Some b),
           lc_headers_synced := lc_headers_synced c + 1\<rparr>))"

fun store_headers ::
  "crypto_ext \<Rightarrow> block_codec \<Rightarrow> block_header list \<Rightarrow> u64 \<Rightarrow> light_client_state \<Rightarrow> (light_client_error + u64) \<times> light_client_state" where
  "store_headers X B [] stored c = (Inr stored, c)"
| "store_headers X B (h # hs) stored c =
     (case store_header X B h c of (Inl e, c') \<Rightarrow> (Inl e, c')
      | (Inr b, c') \<Rightarrow> store_headers X B hs (if b then stored + 1 else stored) c')"

fun validate_heights :: "light_client_state \<Rightarrow> u64 list \<Rightarrow> light_client_error + bool" where
  "validate_heights c [] = Inr True"
| "validate_heights c (height # rest) =
     (case map_of (lc_headers_by_height c) height of None \<Rightarrow> Inl (MissingHeader height)
      | Some h \<Rightarrow> (case map_of (lc_headers_by_hash c) h of None \<Rightarrow> Inl (MissingHeader height)
        | Some header \<Rightarrow>
            if 0 < height then
              (case map_of (lc_headers_by_height c) (height - 1) of None \<Rightarrow> Inl (MissingHeader (height - 1))
               | Some expected_parent \<Rightarrow>
                   if bh_prev_hash header \<noteq> expected_parent then Inr False else validate_heights c rest)
            else validate_heights c rest))"

definition validate_header_chain :: "light_client_state \<Rightarrow> u64 \<Rightarrow> u64 \<Rightarrow> light_client_error + bool" where
  "validate_header_chain c from_height to_height =
     (if to_height < from_height then Inl InvalidRange
      else validate_heights c (map of_nat [unat from_height..<unat to_height + 1]))"

definition update_sync_progress :: "u64 \<Rightarrow> light_client_state \<Rightarrow> light_client_state" where
  "update_sync_progress network_height c =
     (let progress = (if 0 < network_height then f_div (f_of_word (lc_best_height c)) (f_of_word network_height) else f_one)
      in c\<lparr>lc_sync_progress := f_min progress f_one\<rparr>)"

fun prune_heights :: "u64 list \<Rightarrow> u64 \<Rightarrow> light_client_state \<Rightarrow> u64 \<times> light_client_state" where
  "prune_heights [] pruned c = (pruned, c)"
| "prune_heights (height # rest) pruned c =
     (case map_of (lc_headers_by_height c) height of None \<Rightarrow> prune_heights rest pruned c
      | Some h \<Rightarrow> prune_heights rest (pruned + 1)
          (c\<lparr>lc_headers_by_height := AList.delete height (lc_headers_by_height c),
             lc_headers_by_hash := AList.delete h (lc_headers_by_hash c)\<rparr>))"

definition prune_old_headers :: "u64 \<Rightarrow> light_client_state \<Rightarrow> u64 \<times> light_client_state" where
  "prune_old_headers keep_recent c =
     (if lc_best_height c \<le> keep_recent then (0, c)
      else let prune_below = lc_best_height c - keep_recent
           in prune_heights (filter (\<lambda>h. h < prune_below \<and> h \<noteq> 0) (map fst (lc_headers_by_height c))) 0 c)"

record light_client_status =
  lst_best_height :: u64
  lst_best_hash :: hash
  lst_headers_synced :: u64
  lst_sync_progress :: f64
  lst_genesis_hash :: hash

definition lc_status :: "crypto_ext \<Rightarrow> block_codec \<Rightarrow> light_client_state \<Rightarrow> light_client_status" where
  "lc_status X B c = \<lparr>lst_best_height = lc_best_height c, lst_best_hash = lc_best_hash X B c,
     lst_headers_synced = lc_headers_synced c, lst_sync_progress = lc_sync_progress c, lst_genesis_hash = lc_genesis_hash c\<rparr>"

section \<open>The sync manager\<close>

record header_request =
  hr_from_height :: u64
  hr_count :: u64
  hr_requested_at :: nat
  hr_peer_id :: string

record light_client_sync =
  ls_state :: light_client_state
  ls_pending_requests :: "(u64 \<times> header_request) list"
  ls_next_request_id :: u64
  ls_full_node_peers :: "string list"

datatype light_client_message =
    LcGetHeaders u64 u64 u64
  | LcHeaders "block_header list" u64 bool
  | LcGetHeaderByHash hash u64
  | LcHeader "block_header option" u64
  | LcGetSPVProof hash hash u64
  | LcSPVProof "((hash \<times> bool) list \<times> hash \<times> block_header \<times> u32) option" u64
  | LcNewHeader block_header
  | LcGetTip u64
  | LcTip u64 hash u64

definition light_client_sync_new :: "light_client_state \<Rightarrow> light_client_sync" where
  "light_client_sync_new st = \<lparr>ls_state = st, ls_pending_requests = [], ls_next_request_id = 1, ls_full_node_peers = []\<rparr>"

definition add_full_node_peer :: "string \<Rightarrow> light_client_sync \<Rightarrow> light_client_sync" where
  "add_full_node_peer peer_id y = (if peer_id \<in> set (ls_full_node_peers y) then y
     else y\<lparr>ls_full_node_peers := ls_full_node_peers y @ [peer_id]\<rparr>)"

definition remove_full_node_peer :: "string \<Rightarrow> light_client_sync \<Rightarrow> light_client_sync" where
  "remove_full_node_peer peer_id y = y\<lparr>ls_full_node_peers := filter (\<lambda>p. p \<noteq> peer_id) (ls_full_node_peers y)\<rparr>"

definition create_header_request ::
  "nat \<Rightarrow> u64 \<Rightarrow> u64 \<Rightarrow> string \<Rightarrow> light_client_sync \<Rightarrow> light_client_message \<times> light_client_sync" where
  "create_header_request now from_height n peer_id y =
     (let request_id = ls_next_request_id y;
          request = \<lparr>hr_from_height = from_height, hr_count = min n LC_MAX_HEADERS_PER_REQUEST, hr_requested_at = now, hr_peer_id = peer_id\<rparr>
      in (LcGetHeaders from_height (min n LC_MAX_HEADERS_PER_REQUEST) request_id,
          y\<lparr>ls_next_request_id := request_id + 1, ls_pending_requests := AList.update request_id request (ls_pending_requests y)\<rparr>))"

definition handle_headers ::
  "crypto_ext \<Rightarrow> block_codec \<Rightarrow> block_header list \<Rightarrow> u64 \<Rightarrow> light_client_sync \<Rightarrow> (light_client_error + u64) \<times> light_client_sync" where
  "handle_headers X B headers request_id y =
     (let (r, st) = store_headers X B headers 0 (ls_state y)
      in (r, y\<lparr>ls_pending_requests := AList.delete request_id (ls_pending_requests y), ls_state := st\<rparr>))"

definition handle_new_header ::
  "crypto_ext \<Rightarrow> block_codec \<Rightarrow> block_header \<Rightarrow> light_client_sync \<Rightarrow> (light_client_error + bool) \<times> light_client_sync" where
  "handle_new_header X B header y = (let (r, st) = store_header X B header (ls_state y) in (r, y\<lparr>ls_state := st\<rparr>))"

definition get_sync_request :: "u64 \<Rightarrow> light_client_sync \<Rightarrow> (u64 \<times> u64) option" where
  "get_sync_request network_height y =
     (let local_height = lc_best_height (ls_state y) in
      if network_height \<le> local_height then None
      else Some (local_height + 1, min (network_height - local_height) LC_MAX_HEADERS_PER_REQUEST))"

definition cleanup_timed_out_requests :: "nat \<Rightarrow> light_client_sync \<Rightarrow> u64 list \<times> light_client_sync" where
  "cleanup_timed_out_requests now y =
     (let timed_out = map fst (filter (\<lambda>(i, req). HEADER_REQUEST_TIMEOUT_SECS * 1000 < now - hr_requested_at req) (ls_pending_requests y))
      in (timed_out, y\<lparr>ls_pending_requests := fold AList.delete timed_out (ls_pending_requests y)\<rparr>))"

section \<open>SPV proofs\<close>

record spv_proof =
  spv_tx_hash :: hash
  spv_path :: "(hash \<times> bool) list"
  spv_block_header :: block_header
  spv_tx_index :: u32

definition hash_pair :: "sha256 \<Rightarrow> hash \<Rightarrow> hash \<Rightarrow> hash" where
  "hash_pair S left right = Hash (S (hash_as_bytes left @ hash_as_bytes right))"

fun spv_climb :: "sha256 \<Rightarrow> hash \<Rightarrow> (hash \<times> bool) list \<Rightarrow> hash" where
  "spv_climb S current [] = current"
| "spv_climb S current ((sibling, is_left) # path) =
     spv_climb S (if is_left then hash_pair S sibling current else hash_pair S current sibling) path"

definition spv_verify :: "sha256 \<Rightarrow> spv_proof \<Rightarrow> hash \<Rightarrow> hash \<Rightarrow> bool" where
  "spv_verify S p tx rt \<longleftrightarrow> spv_climb S tx (spv_path p) = rt"

definition pad_even :: "hash list \<Rightarrow> hash list" where
  "pad_even hs = (if odd (length hs) then hs @ [last hs] else hs)"

fun pair_level :: "sha256 \<Rightarrow> hash list \<Rightarrow> hash list" where
  "pair_level S (a # b # rest) = hash_pair S a b # pair_level S rest"
| "pair_level S hs = []"

lemma length_pair_level: "length (pair_level S hs) = length hs div 2"
  by (induction S hs rule: pair_level.induct) simp_all

lemma length_pad_even: "length (pad_even hs) = 2 * ((length hs + 1) div 2)"
  by (auto simp: pad_even_def elim: oddE evenE)

function build_merkle_path :: "sha256 \<Rightarrow> hash list \<Rightarrow> nat \<Rightarrow> (hash \<times> bool) list" where
  "build_merkle_path S current_level current_index =
     (if 1 < length current_level then
        (let level = pad_even current_level;
             sibling_index = (if even current_index then current_index + 1 else current_index - 1)
         in (level ! sibling_index, odd current_index) # build_merkle_path S (pair_level S level) (current_index div 2))
      else [])"
  by pat_completeness auto
termination
  by (relation "measure (\<lambda>(S, level, i). length level)") (auto simp: length_pair_level length_pad_even)

declare build_merkle_path.simps [simp del]

definition tx_position :: "crypto_ext \<Rightarrow> block_codec \<Rightarrow> transaction list \<Rightarrow> hash \<Rightarrow> nat option" where
  "tx_position X B txs h = map_option fst (List.find (\<lambda>(i, tx). tx_hash X (tx_codec_of B) tx = h) (enumerate 0 txs))"

definition build_merkle_proof ::
  "sha256 \<Rightarrow> crypto_ext \<Rightarrow> block_codec \<Rightarrow> block \<Rightarrow> hash \<Rightarrow> spv_proof option" where
  "build_merkle_proof S X B b h =
     (case tx_position X B (blk_transactions b) h of None \<Rightarrow> None
      | Some tx_index \<Rightarrow>
          let tx_hashes = map (tx_hash X (tx_codec_of B)) (blk_transactions b) in
          if tx_hashes = [] then None
          else Some \<lparr>spv_tx_hash = h, spv_path = build_merkle_path S tx_hashes tx_index,
             spv_block_header = blk_header b, spv_tx_index = of_nat tx_index\<rparr>)"

section \<open>The header server\<close>

record header_server =
  hs_get_header :: "u64 \<Rightarrow> block_header option"
  hs_get_block :: "hash \<Rightarrow> block option"
  hs_best_height :: u64

definition header_server_new :: "(u64 \<Rightarrow> block_header option) \<Rightarrow> (hash \<Rightarrow> block option) \<Rightarrow> header_server" where
  "header_server_new gh gb = \<lparr>hs_get_header = gh, hs_get_block = gb, hs_best_height = 0\<rparr>"

definition update_best_height :: "u64 \<Rightarrow> header_server \<Rightarrow> header_server" where
  "update_best_height height v = v\<lparr>hs_best_height := height\<rparr>"

fun served_headers :: "header_server \<Rightarrow> u64 list \<Rightarrow> block_header list" where
  "served_headers v [] = []"
| "served_headers v (height # rest) =
     (if hs_best_height v < height then []
      else case hs_get_header v height of None \<Rightarrow> [] | Some header \<Rightarrow> header # served_headers v rest)"

definition handle_get_headers :: "u64 \<Rightarrow> u64 \<Rightarrow> u64 \<Rightarrow> header_server \<Rightarrow> light_client_message" where
  "handle_get_headers from_height n request_id v =
     (let n' = min n LC_MAX_HEADERS_PER_REQUEST
      in LcHeaders (served_headers v (map of_nat [unat from_height..<unat (from_height + n')])) request_id
           (from_height + n' \<le> hs_best_height v))"

definition handle_get_header_by_hash :: "hash \<Rightarrow> u64 \<Rightarrow> light_client_message" where
  "handle_get_header_by_hash h request_id = LcHeader None request_id"

definition handle_get_tip :: "crypto_ext \<Rightarrow> block_codec \<Rightarrow> u64 \<Rightarrow> header_server \<Rightarrow> light_client_message" where
  "handle_get_tip X B request_id v =
     LcTip (hs_best_height v) (case hs_get_header v (hs_best_height v) of None \<Rightarrow> hash_ZERO | Some h \<Rightarrow> header_hash X B h) request_id"

definition handle_get_spv_proof ::
  "sha256 \<Rightarrow> crypto_ext \<Rightarrow> block_codec \<Rightarrow> hash \<Rightarrow> hash \<Rightarrow> header_server \<Rightarrow> spv_proof option" where
  "handle_get_spv_proof S X B tx bh v = (case hs_get_block v bh of None \<Rightarrow> None | Some b \<Rightarrow> build_merkle_proof S X B b tx)"

section \<open>What the header store keeps\<close>

text \<open>Headers are filed under their hash, the best header is the highest of them, and every header above the genesis has
  its parent in the store.\<close>

definition store_ok :: "crypto_ext \<Rightarrow> block_codec \<Rightarrow> light_client_state \<Rightarrow> bool" where
  "store_ok X B c \<longleftrightarrow>
     (\<forall>k h. map_of (lc_headers_by_hash c) k = Some h \<longrightarrow> header_hash X B h = k \<and>
        (0 < bh_height h \<longrightarrow> map_of (lc_headers_by_hash c) (bh_prev_hash h) \<noteq> None)) \<and>
     (\<forall>n k. map_of (lc_headers_by_height c) n = Some k \<longrightarrow> (\<exists>h. map_of (lc_headers_by_hash c) k = Some h \<and> bh_height h = n)) \<and>
     (\<exists>b. lc_best_header c = Some b \<and> map_of (lc_headers_by_hash c) (header_hash X B b) = Some b \<and>
        (\<forall>k h. map_of (lc_headers_by_hash c) k = Some h \<longrightarrow> bh_height h \<le> bh_height b))"

lemma store_ok_new:
  assumes "header_hash X B g = gh" and "bh_height g = 0"
  shows "store_ok X B (lc_with_mode gh g m)"
  using assms by (auto simp: store_ok_def lc_with_mode_def split: if_splits)

lemma store_header_keeps:
  assumes "store_ok X B c"
  shows "store_ok X B (snd (store_header X B h c))"
proof (cases "fst (store_header X B h c) = Inr True")
  case True
  let ?k = "header_hash X B h"
  have new: "map_of (lc_headers_by_hash c) ?k = None"
    and par: "0 < bh_height h \<longrightarrow> map_of (lc_headers_by_hash c) (bh_prev_hash h) \<noteq> None"
    using True by (auto simp: store_header_def Let_def split: if_splits)
  define c' where "c' = snd (store_header X B h c)"
  have hash': "map_of (lc_headers_by_hash c') = (map_of (lc_headers_by_hash c))(?k \<mapsto> h)"
    and height': "map_of (lc_headers_by_height c') = (map_of (lc_headers_by_height c))(bh_height h \<mapsto> ?k)"
    and best': "lc_best_header c' = (case lc_best_header c of None \<Rightarrow> Some h
             | Some b \<Rightarrow> if bh_height b < bh_height h then Some h else Some b)"
    using True by (auto simp: c'_def store_header_def Let_def update_conv' split: if_splits)
  have 1: "\<forall>k a. map_of (lc_headers_by_hash c') k = Some a \<longrightarrow> header_hash X B a = k \<and>
        (0 < bh_height a \<longrightarrow> map_of (lc_headers_by_hash c') (bh_prev_hash a) \<noteq> None)"
    using assms par unfolding hash' store_ok_def by (auto split: if_splits)
  have 2: "\<forall>n k. map_of (lc_headers_by_height c') n = Some k \<longrightarrow>
      (\<exists>a. map_of (lc_headers_by_hash c') k = Some a \<and> bh_height a = n)"
    using assms new unfolding hash' height' store_ok_def by (auto split: if_splits) (metis option.distinct(1))
  obtain b where b: "lc_best_header c = Some b" "map_of (lc_headers_by_hash c) (header_hash X B b) = Some b"
    "\<forall>k a. map_of (lc_headers_by_hash c) k = Some a \<longrightarrow> bh_height a \<le> bh_height b"
    using assms unfolding store_ok_def by blast
  have 3: "\<exists>b. lc_best_header c' = Some b \<and> map_of (lc_headers_by_hash c') (header_hash X B b) = Some b \<and>
        (\<forall>k a. map_of (lc_headers_by_hash c') k = Some a \<longrightarrow> bh_height a \<le> bh_height b)"
  proof (cases "bh_height b < bh_height h")
    case True
    then show ?thesis using b unfolding best' hash' by (force split: if_splits)
  next
    case False
    then show ?thesis using b new unfolding best' hash' by (auto split: if_splits)
  qed
  show ?thesis using 1 2 3 unfolding c'_def[symmetric] store_ok_def by blast
next
  case False
  then have "snd (store_header X B h c) = c" by (auto simp: store_header_def Let_def split: if_splits)
  then show ?thesis using assms by simp
qed

lemma store_headers_keeps: "store_ok X B c \<Longrightarrow> store_ok X B (snd (store_headers X B hs n c))"
proof (induction hs arbitrary: n c)
  case (Cons h hs)
  obtain r c1 where r: "store_header X B h c = (r, c1)" by fastforce
  then have "store_ok X B c1" using store_header_keeps[OF Cons.prems, of h] by simp
  then show ?case using Cons.IH[of c1] r by (cases r) simp_all
qed simp

text \<open>The heights of a chain link are never compared: a header on top of the genesis may claim any height, and a node that
  stores it asks for nothing more.\<close>

lemma height_jump_ends_sync:
  assumes "map_of (lc_headers_by_hash (ls_state y)) (bh_prev_hash h) \<noteq> None"
    and "map_of (lc_headers_by_hash (ls_state y)) (header_hash X B h) = None"
    and "bh_height h = - 1" and "lc_best_height (ls_state y) < - 1"
  shows "fst (handle_new_header X B h y) = Inr True \<and> get_sync_request n (snd (handle_new_header X B h y)) = None"
  using assms by (auto simp: handle_new_header_def store_header_def Let_def get_sync_request_def lc_best_height_def
      split: option.splits)

text \<open>After a FlyClient proof the node asks for the headers above its new tip, and it refuses the first of them because the
  tip itself was never stored.\<close>

lemma flyclient_strands_sync:
  assumes "verify_flyclient_proof S p c = (Inr r, c')" and "vr_valid r"
    and "map_of (lc_headers_by_hash c) (header_hash X B (fp_tip_header p)) = None"
    and "bh_prev_hash h = header_hash X B (fp_tip_header p)" and "bh_height h = lc_best_height c' + 1"
    and "lc_best_height c' < - 1"
  shows "lc_best_header c' = Some (fp_tip_header p) \<and> fst (store_header X B h c') = Inl (MissingParent (bh_prev_hash h))"
proof -
  have same: "lc_headers_by_hash c' = lc_headers_by_hash c" and best: "lc_best_header c' = Some (fp_tip_header p)"
    using assms(1,2) by (auto simp: verify_flyclient_proof_def Let_def split: option.splits prod.splits sum.splits)
  have "0 < bh_height h"
    using assms(5,6) by (metis eq_neg_iff_add_eq_0 less_irrefl word_gt_0)
  then show ?thesis using assms(3,4) same best by (simp add: store_header_def)
qed

section \<open>SPV proofs and the roots they are checked against\<close>

text \<open>The root the paths lead to: pairs hashed with SHA-256, an odd level padded with its last hash.\<close>

function spv_root :: "sha256 \<Rightarrow> hash list \<Rightarrow> hash" where
  "spv_root S level = (if 1 < length level then spv_root S (pair_level S (pad_even level)) else hd level)"
  by pat_completeness auto
termination
  by (relation "measure (\<lambda>(S, level). length level)") (auto simp: length_pair_level length_pad_even)

declare spv_root.simps [simp del]

lemma pair_level_nth:
  "2 * i + 1 < length hs \<Longrightarrow> pair_level S hs ! i = hash_pair S (hs ! (2 * i)) (hs ! (2 * i + 1))"
proof (induction S hs arbitrary: i rule: pair_level.induct)
  case (1 S a b rest)
  then show ?case by (cases i) simp_all
qed simp_all

text \<open>Every path that is built leads from its leaf to that root.\<close>

lemma spv_path_verifies: "i < length hs \<Longrightarrow> spv_climb S (hs ! i) (build_merkle_path S hs i) = spv_root S hs"
proof (induction S hs i rule: build_merkle_path.induct)
  case (1 S hs i)
  show ?case
  proof (cases "1 < length hs")
    case True
    let ?l = "pad_even hs" and ?j = "if even i then i + 1 else i - 1"
    have len: "length ?l = 2 * ((length hs + 1) div 2)" by (rule length_pad_even)
    have at: "?l ! i = hs ! i" using "1.prems" by (simp add: pad_even_def nth_append)
    have i2: "i div 2 < length (pair_level S ?l)" using "1.prems" len by (simp add: length_pair_level)
    have "pair_level S ?l ! (i div 2) = hash_pair S (?l ! (2 * (i div 2))) (?l ! (2 * (i div 2) + 1))"
      by (rule pair_level_nth) (use i2 len in \<open>simp add: length_pair_level\<close>)
    also have "\<dots> = (if odd i then hash_pair S (?l ! ?j) (hs ! i) else hash_pair S (hs ! i) (?l ! ?j))"
      using at by (auto elim!: oddE evenE)
    finally have "spv_climb S (hs ! i) (build_merkle_path S hs i) =
        spv_climb S (pair_level S ?l ! (i div 2)) (build_merkle_path S (pair_level S ?l) (i div 2))"
      using True by (subst build_merkle_path.simps) (simp add: Let_def)
    also have "\<dots> = spv_root S (pair_level S ?l)" using "1.IH"[OF True refl refl i2] by simp
    also have "\<dots> = spv_root S hs" using True by (subst (2) spv_root.simps) simp
    finally show ?thesis .
  next
    case False
    then have "hs = [hs ! 0]" "i = 0" using "1.prems" by (cases hs; simp)+
    moreover have "hd hs = hs ! 0" using "1.prems" by (intro hd_conv_nth) auto
    ultimately show ?thesis using False by (subst build_merkle_path.simps, subst spv_root.simps) simp
  qed
qed

lemma tx_position_Some: "tx_position X B txs h = Some i \<Longrightarrow> i < length txs \<and> tx_hash X (tx_codec_of B) (txs ! i) = h"
  by (auto simp: tx_position_def find_Some_iff nth_enumerate_eq)

lemma tx_position_None: "tx_position X B txs h = None \<longleftrightarrow> h \<notin> tx_hash X (tx_codec_of B) ` set txs"
proof -
  have "set txs = snd ` set (enumerate 0 txs)" by (metis list.set_map map_snd_enumerate)
  then show ?thesis by (force simp: tx_position_def find_None_iff)
qed

lemma build_merkle_proof_Some:
  assumes "build_merkle_proof S X B b h = Some p"
  shows "spv_tx_hash p = h" and "spv_block_header p = blk_header b"
    and "spv_verify S p h (spv_root S (map (tx_hash X (tx_codec_of B)) (blk_transactions b)))"
proof -
  let ?hs = "map (tx_hash X (tx_codec_of B)) (blk_transactions b)"
  obtain i where i: "tx_position X B (blk_transactions b) h = Some i" and
    p: "spv_tx_hash p = h" "spv_block_header p = blk_header b" "spv_path p = build_merkle_path S ?hs i"
    using assms by (auto simp: build_merkle_proof_def Let_def split: option.splits if_splits)
  then have "i < length ?hs" "?hs ! i = h" using tx_position_Some[OF i] by simp_all
  then show "spv_verify S p h (spv_root S ?hs)" using spv_path_verifies[of i ?hs S] p(3) by (simp add: spv_verify_def)
  show "spv_tx_hash p = h" "spv_block_header p = blk_header b" using p by simp_all
qed

lemma build_merkle_proof_None: "build_merkle_proof S X B b h = None \<longleftrightarrow> tx_position X B (blk_transactions b) h = None"
  by (cases "tx_position X B (blk_transactions b) h") (auto simp: build_merkle_proof_def Let_def dest: tx_position_Some)

text \<open>But the root in a header is another tree's: leaves hashed once more, and BLAKE3 for SHA-256. In a block of one
  transaction the proof is the bare hash, so it verifies only for a fixed point of the hash function.\<close>

lemma single_transaction_proof_fails:
  assumes "blk_transactions b = [tx]" and "bh_transactions_root (blk_header b) = block_tx_root X B [tx]"
    and "hash_new X (hash_as_bytes (tx_hash X (tx_codec_of B) tx)) \<noteq> tx_hash X (tx_codec_of B) tx"
  obtains p where "build_merkle_proof S X B b (tx_hash X (tx_codec_of B) tx) = Some p"
    and "\<not> spv_verify S p (spv_tx_hash p) (bh_transactions_root (spv_block_header p))"
proof -
  obtain p where p: "build_merkle_proof S X B b (tx_hash X (tx_codec_of B) tx) = Some p" "spv_path p = []"
    "spv_tx_hash p = tx_hash X (tx_codec_of B) tx" "spv_block_header p = blk_header b"
    using assms(1) by (auto simp: build_merkle_proof_def tx_position_def Let_def build_merkle_path.simps)
  have "block_tx_root X B [tx] = hash_new X (hash_as_bytes (tx_hash X (tx_codec_of B) tx))"
    by (simp add: block_tx_root_def merkle_new_def calculate_root_def)
  then show ?thesis using that[OF p(1)] p assms(2,3) by (simp add: spv_verify_def)
qed

text \<open>A request near the end of the height range is answered with no headers and the promise of more.\<close>

lemma wrapped_request_is_empty:
  assumes "from_height + min n LC_MAX_HEADERS_PER_REQUEST < from_height"
    and "from_height + min n LC_MAX_HEADERS_PER_REQUEST \<le> hs_best_height v"
  shows "handle_get_headers from_height n i v = LcHeaders [] i True"
  using assms by (simp add: handle_get_headers_def Let_def word_less_nat_alt)

section \<open>What survives every operation\<close>

text \<open>Proofs and pruning break the links, but not the types: a header is found under its own hash only, and under its own
  height, and a height that is filed is never without its header.\<close>

definition store_typed :: "crypto_ext \<Rightarrow> block_codec \<Rightarrow> light_client_state \<Rightarrow> bool" where
  "store_typed X B c \<longleftrightarrow>
     (\<forall>k h. map_of (lc_headers_by_hash c) k = Some h \<longrightarrow> header_hash X B h = k) \<and>
     (\<forall>n k. map_of (lc_headers_by_height c) n = Some k \<longrightarrow> (\<exists>h. map_of (lc_headers_by_hash c) k = Some h \<and> bh_height h = n))"

inductive client_step :: "sha256 \<Rightarrow> crypto_ext \<Rightarrow> block_codec \<Rightarrow> light_client_state \<Rightarrow> light_client_state \<Rightarrow> bool"
  for S :: sha256 and X :: crypto_ext and B :: block_codec where
  client_stores: "client_step S X B c (snd (store_header X B h c))"
| client_proves: "client_step S X B c (snd (verify_flyclient_proof S p c))"
| client_progresses: "client_step S X B c (update_sync_progress n c)"
| client_prunes: "client_step S X B c (snd (prune_old_headers n c))"

inductive_cases client_stepE: "client_step S X B c c'"

lemma store_typed_new:
  "header_hash X B g = gh \<Longrightarrow> bh_height g = 0 \<Longrightarrow> store_typed X B (lc_with_mode gh g m)"
  by (auto simp: store_typed_def lc_with_mode_def split: if_splits)

lemma store_typed_store: "store_typed X B c \<Longrightarrow> store_typed X B (snd (store_header X B h c))"
  by (auto simp: store_typed_def store_header_def Let_def update_conv') (metis option.distinct(1))+

lemma store_typed_same:
  "lc_headers_by_hash c' = lc_headers_by_hash c \<Longrightarrow> lc_headers_by_height c' = lc_headers_by_height c \<Longrightarrow>
   store_typed X B c \<Longrightarrow> store_typed X B c'"
  by (simp add: store_typed_def)

lemma store_typed_prune: "store_typed X B c \<Longrightarrow> store_typed X B (snd (prune_heights hs n c))"
proof (induction hs arbitrary: n c)
  case (Cons height hs)
  show ?case
  proof (cases "map_of (lc_headers_by_height c) height")
    case None
    then show ?thesis using Cons by simp
  next
    case (Some k)
    let ?c = "c\<lparr>lc_headers_by_height := AList.delete height (lc_headers_by_height c),
       lc_headers_by_hash := AList.delete k (lc_headers_by_hash c)\<rparr>"
    have "store_typed X B ?c"
      using Cons.prems Some by (auto simp: store_typed_def delete_conv') (metis option.inject)
    then show ?thesis using Cons.IH Some by simp
  qed
qed simp

lemma store_typed_step: "client_step S X B c c' \<Longrightarrow> store_typed X B c \<Longrightarrow> store_typed X B c'"
proof (induction rule: client_step.induct)
  case (client_proves c p)
  then show ?case
    by (auto simp: verify_flyclient_proof_def Let_def split: option.splits prod.splits sum.splits elim!: store_typed_same[rotated 2])
next
  case (client_prunes c n)
  then show ?case by (simp add: prune_old_headers_def Let_def store_typed_prune)
next
  case (client_progresses c n)
  then show ?case by (rule store_typed_same[rotated 2]) (simp_all add: update_sync_progress_def Let_def)
qed (rule store_typed_store)

lemma store_typed_run: "(client_step S X B)\<^sup>*\<^sup>* c c' \<Longrightarrow> store_typed X B c \<Longrightarrow> store_typed X B c'"
  by (induction rule: rtranclp_induct) (blast intro: store_typed_step)+

lemma store_typed_lookup:
  assumes "store_typed X B c"
  shows "get_header c k = Some h \<Longrightarrow> header_hash X B h = k"
    and "get_header_at_height c n = Some h \<Longrightarrow> bh_height h = n"
    and "get_header_at_height c n = None \<longleftrightarrow> map_of (lc_headers_by_height c) n = None"
  using assms by (fastforce simp: store_typed_def get_header_def get_header_at_height_def split: option.splits)+

end
