(* ===== verification/Properties_Light.thy ===== *)
theory Properties_Light
  imports Node_Light_Client Properties_Core
begin

text \<open>
  The properties of the light client protocol, each with a concrete instance where it has hypotheses.
\<close>

section \<open>Instances\<close>

text \<open>Two headers whose hashes are their lengths in the serialisation, and a stand-in for SHA-256.\<close>

definition demo_sha :: sha256 where
  "demo_sha bs = foldl (\<lambda>n b. n * 256 + ucast b) 0 bs"

definition light_codec :: block_codec where
  "light_codec = \<lparr>tx_codec_of = demo_tx_codec, bincode_header = (\<lambda>h. Some [ucast (bh_height h)]), json_header = (\<lambda>_. Some [])\<rparr>"

definition header_at :: "u64 \<Rightarrow> block_header" where
  "header_at n = (blk_header (block_genesis (Address 9)))\<lparr>bh_height := n\<rparr>"

lemma bh_height_header_at [simp]: "bh_height (header_at n) = n"
  by (simp add: header_at_def)

lemma header_hash_light: "header_hash demo_crypto light_codec h = Hash (ucast (ucast (bh_height h) :: 8 word))"
  by (simp add: header_hash_def light_codec_def demo_crypto_def hash_new_def)

lemma range_inputs_pair: "range_inputs S [a, b] = [node_message a b 0]"
proof -
  have "mountains_inputs S (Suc (Suc k)) [a, b] = [node_message a b 0]" for k
  proof (induction k)
    case (Suc k)
    then show ?case using not_pow_le_pair by (subst mountains_inputs.simps) simp
  qed simp
  from this[of 62] show ?thesis using mountains_pair[of S 62 a b] by (simp add: range_inputs_def)
qed

section \<open>The mountain range\<close>

text \<open>C30. The root of the mountain range binds the chain: two servers that were given headers at heights 1, 2, and so on, and
  report the same height and the same root, hold the same header hashes, as long as SHA-256 does not collide on what they
  hashed.\<close>

theorem range_root_binds_chain:
  assumes "serve_chain S X B hs (light_sync_server_new X B g) = Some s"
    and "serve_chain S X B ks (light_sync_server_new X B g') = Some s'"
    and "\<forall>i < length hs. bh_height (hs ! i) = of_nat (i + 1)" and "\<forall>i < length ks. bh_height (ks ! i) = of_nat (i + 1)"
    and "length hs + 1 < 2 ^ 62" and "length ks + 1 < 2 ^ 62"
    and "lss_chain_height s = lss_chain_height s'" and "lss_mmr_root S s = lss_mmr_root S s'"
    and "inj_on S (set (range_inputs S (map (header_hash X B) (g # hs)) @ range_inputs S (map (header_hash X B) (g' # ks))))"
  shows "map (header_hash X B) (g # hs) = map (header_hash X B) (g' # ks)"
proof -
  have over: "server_over S X B (g # hs) s" "server_over S X B (g' # ks) s'"
    using serve_chain_over[OF server_over_new[of S X B g], of hs] serve_chain_over[OF server_over_new[of S X B g'], of ks]
      assms(1-6) by auto
  then have m: "mmr_over S (map (header_hash X B) (g # hs)) (lss_mmr s)" "mmr_over S (map (header_hash X B) (g' # ks)) (lss_mmr s')"
    by (simp_all add: server_over_def)
  have "(of_nat (length hs) :: u64) = of_nat (length ks)" using over assms(7) by (simp add: server_over_def)
  then have "mr_leaf_count (lss_mmr s) = mr_leaf_count (lss_mmr s')" using m by (simp add: mmr_over_def)
  then show ?thesis using mmr_root_inject[OF m _ _ assms(9)] assms(8) by (simp add: lss_mmr_root_def)
qed

lemma demo_serves:
  "\<exists>s. serve_chain demo_sha demo_crypto light_codec [header_at 1] (light_sync_server_new demo_crypto light_codec (header_at 0)) = Some s"
  using serve_chain_over[OF server_over_new[of demo_sha demo_crypto light_codec "header_at 0"], of "[header_at 1]"] by auto

theorem range_root_binds_chain_witness:
  "map (header_hash demo_crypto light_codec) [header_at 0, header_at 1] = map (header_hash demo_crypto light_codec) [header_at 0, header_at 1]"
proof -
  obtain s where s: "serve_chain demo_sha demo_crypto light_codec [header_at 1]
      (light_sync_server_new demo_crypto light_codec (header_at 0)) = Some s"
    using demo_serves by blast
  have "range_inputs demo_sha (map (header_hash demo_crypto light_codec) [header_at 0, header_at 1]) =
      [node_message (header_hash demo_crypto light_codec (header_at 0)) (header_hash demo_crypto light_codec (header_at 1)) 0]"
    using range_inputs_pair by simp
  then show ?thesis
    by (intro range_root_binds_chain[OF s s]) simp_all
qed

section \<open>Light clients\<close>

text \<open>C32. Whatever headers, proofs and prunings a light client sees, a lookup is typed: a header is found only under its own
  hash and under its own height, and a height that is filed has its header.\<close>

theorem light_lookups_are_typed:
  assumes "(client_step S X B)\<^sup>*\<^sup>* (lc_with_mode (header_hash X B g) g m) c" and "bh_height g = 0"
  shows "(\<forall>k h. get_header c k = Some h \<longrightarrow> header_hash X B h = k) \<and>
    (\<forall>n h. get_header_at_height c n = Some h \<longrightarrow> bh_height h = n) \<and>
    (\<forall>n. get_header_at_height c n = None \<longleftrightarrow> map_of (lc_headers_by_height c) n = None)"
  using store_typed_lookup[OF store_typed_run[OF assms(1) store_typed_new[OF refl assms(2)]]] by blast

definition demo_client :: light_client_state where
  "demo_client = lc_with_mode (header_hash demo_crypto light_codec (header_at 0)) (header_at 0) Hybrid"

definition demo_child :: block_header where
  "demo_child = (header_at 1)\<lparr>bh_prev_hash := header_hash demo_crypto light_codec (header_at 0)\<rparr>"

theorem light_lookups_are_typed_witness:
  "get_header_at_height (snd (store_header demo_crypto light_codec demo_child demo_client)) 1 = Some demo_child \<and>
   bh_height demo_child = 1"
proof -
  let ?c = "snd (store_header demo_crypto light_codec demo_child demo_client)"
  have g: "get_header_at_height ?c 1 = Some demo_child"
    by (simp add: store_header_def demo_client_def lc_with_mode_def demo_child_def header_hash_light get_header_at_height_def
        get_header_def Let_def)
  have "(client_step demo_sha demo_crypto light_codec)\<^sup>*\<^sup>* demo_client ?c" by (intro r_into_rtranclp client_stores)
  then have r: "(client_step demo_sha demo_crypto light_codec)\<^sup>*\<^sup>*
      (lc_with_mode (header_hash demo_crypto light_codec (header_at 0)) (header_at 0) Hybrid) ?c"
    by (simp add: demo_client_def)
  show ?thesis using light_lookups_are_typed[OF r] g by simp
qed

text \<open>The path of a built SPV proof leads from the hash of its transaction to the padded SHA-256 root of the block's
  transactions, and every transaction of the block has such a proof.\<close>

theorem spv_paths_lead_to_root:
  "case build_merkle_proof S X B b h of
     None \<Rightarrow> h \<notin> tx_hash X (tx_codec_of B) ` set (blk_transactions b)
   | Some p \<Rightarrow> h \<in> tx_hash X (tx_codec_of B) ` set (blk_transactions b) \<and> spv_tx_hash p = h \<and>
       spv_verify S p h (spv_root S (map (tx_hash X (tx_codec_of B)) (blk_transactions b)))"
  using build_merkle_proof_Some[of S X B b h] build_merkle_proof_None[of S X B b h] tx_position_None[of X B "blk_transactions b" h]
  by (auto split: option.split)

text \<open>C35. A forged FlyClient proof takes a light client over: without samples, and with a security parameter of its own choice, it
  is accepted with any tip above the verified one, any root and any work; nothing below the tip is stored, so the next
  header of the chain it names is refused.\<close>

theorem forged_proof_takes_over:
  assumes "lc_flyclient_verifier c = Some v" and "lv_verified_height v < bh_height tip" and "bh_height tip < - 1"
    and "get_header c (header_hash X B tip) = None"
    and "bh_prev_hash h = header_hash X B tip" and "bh_height h = bh_height tip + 1"
  shows "\<exists>r c'. verify_flyclient_proof S (forged_proof (lv_genesis_hash v) tip rt work) c = (Inr r, c') \<and> vr_total_work r = work \<and>
    lc_best_header c' = Some tip \<and> lc_verified_mmr_root c' = Some rt \<and> lc_sync_progress c' = f_one \<and>
    fst (store_header X B h c') = Inl (MissingParent (header_hash X B tip))"
proof -
  let ?p = "forged_proof (lv_genesis_hash v) tip rt work"
  have pos: "bh_height tip \<noteq> 0" using assms(2) by auto
  obtain r v' where v: "verify_and_update S ?p v = (Inr r, v')" "vr_valid r" "vr_total_work r = work"
    by (rule forged_proof_accepted[OF pos assms(2)])
  obtain c' where c': "verify_flyclient_proof S ?p c = (Inr r, c')" "lc_best_header c' = Some tip"
    "lc_verified_mmr_root c' = Some rt" "lc_sync_progress c' = f_one"
    using assms(1) v by (simp add: verify_flyclient_proof_def forged_proof_def)
  have h: "lc_best_height c' = bh_height tip" using c'(2) by (simp add: lc_best_height_def)
  have "fst (store_header X B h c') = Inl (MissingParent (header_hash X B tip))"
    using flyclient_strands_sync[OF c'(1) v(2), of X B h] assms(3-6) h by (simp add: forged_proof_def get_header_def)
  with c' v(3) show ?thesis by blast
qed

theorem forged_proof_takes_over_witness:
  "\<exists>r c'. verify_flyclient_proof demo_sha (forged_proof (header_hash demo_crypto light_codec (header_at 0)) (header_at 77) (Hash 5) 6) demo_client
      = (Inr r, c') \<and> vr_total_work r = 6 \<and> lc_best_header c' = Some (header_at 77) \<and>
    lc_verified_mmr_root c' = Some (Hash 5) \<and> lc_sync_progress c' = f_one \<and>
    fst (store_header demo_crypto light_codec ((header_at 78)\<lparr>bh_prev_hash := header_hash demo_crypto light_codec (header_at 77)\<rparr>) c') =
      Inl (MissingParent (header_hash demo_crypto light_codec (header_at 77)))"
  using forged_proof_takes_over[of demo_client "light_verifier_new (header_hash demo_crypto light_codec (header_at 0))" "header_at 77"
      demo_crypto light_codec "(header_at 78)\<lparr>bh_prev_hash := header_hash demo_crypto light_codec (header_at 77)\<rparr>" demo_sha "Hash 5" 6]
  by (simp add: demo_client_def lc_with_mode_def light_verifier_new_def lv_verified_height_def get_header_def header_hash_light)

text \<open>No light client can check a payment in a block of one transaction: the root in the header is the BLAKE3 hash of the
  transaction's hash, while the SPV proof is the hash itself.\<close>

theorem lone_payment_cannot_be_shown:
  assumes "blk_transactions b = [tx]" and "block_verify X B now b"
    and "hash_new X (hash_as_bytes (tx_hash X (tx_codec_of B) tx)) \<noteq> tx_hash X (tx_codec_of B) tx"
  shows "\<exists>p. build_merkle_proof S X B b (tx_hash X (tx_codec_of B) tx) = Some p \<and>
    \<not> spv_verify S p (spv_tx_hash p) (bh_transactions_root (spv_block_header p))"
proof -
  have "bh_transactions_root (blk_header b) = block_tx_root X B [tx]"
    using assms(1,2) by (auto simp: block_verify_iff)
  from single_transaction_proof_fails[OF assms(1) this assms(3)] show ?thesis by metis
qed

end
