(* ===== verification/Network_Admission.thy ===== *)
theory Network_Admission
  imports Core_Validation Consensus_Work_Score "HOL-Library.AList"
begin

text \<open>
  Who may connect: the connection limiter, the ban list and the subnet guard of \<open>network/src/security.rs\<close>. Limiter and
  guard share one contract, slots that are taken and given back under a cap per key (\<open>slots\<close>). Hash maps are
  association lists; instants and durations are numbers of nanoseconds, and the clock is the argument \<open>now\<close>.
\<close>

section \<open>Slots under a cap\<close>

locale slots =
  fixes slot :: "'a \<Rightarrow> 'k option" and held :: "'s \<Rightarrow> 'k \<Rightarrow> nat" and cap :: "'s \<Rightarrow> nat"
    and take_slot :: "'a \<Rightarrow> 's \<Rightarrow> 's option" and give_back :: "'a \<Rightarrow> 's \<Rightarrow> 's" and good :: "'s \<Rightarrow> bool"
  assumes take_good: "good s \<Longrightarrow> take_slot a s = Some s' \<Longrightarrow> good s' \<and> cap s' = cap s \<and>
      (case slot a of None \<Rightarrow> held s' = held s | Some k \<Rightarrow> held s k < cap s \<and> held s' = (held s)(k := held s k + 1))"
    and give_good: "good s \<Longrightarrow> good (give_back a s) \<and> cap (give_back a s) = cap s \<and>
      held (give_back a s) = (case slot a of None \<Rightarrow> held s | Some k \<Rightarrow> (held s)(k := held s k - 1))"
begin

definition slot_step :: "bool \<times> 'a \<Rightarrow> 's \<Rightarrow> 's" where
  "slot_step e s = (if fst e then (case take_slot (snd e) s of None \<Rightarrow> s | Some s' \<Rightarrow> s') else give_back (snd e) s)"

lemma step_within_cap:
  assumes "good s" and "\<forall>k. held s k \<le> cap s"
  shows "good (slot_step e s)" and "cap (slot_step e s) = cap s" and "\<forall>k. held (slot_step e s) k \<le> cap s"
  using take_good[OF assms(1), of "snd e"] give_good[OF assms(1), of "snd e"] assms
  by (auto simp: slot_step_def le_diff_conv le_SucI split: option.splits)

text \<open>However slots are taken and given back, no key ever holds more than the cap.\<close>

lemma run_within_cap:
  "good s \<Longrightarrow> \<forall>k. held s k \<le> cap s \<Longrightarrow> good (fold slot_step es s) \<and> cap (fold slot_step es s) = cap s \<and>
     (\<forall>k. held (fold slot_step es s) k \<le> cap s)"
  using step_within_cap by (induction es arbitrary: s) (simp_all, metis)

text \<open>Giving back what was just taken restores what every key holds.\<close>

lemma take_give: "good s \<Longrightarrow> take_slot a s = Some s' \<Longrightarrow> held (give_back a s') = held s"
  using take_good[of s a s'] give_good[of s' a] by (auto split: option.splits)

end

section \<open>The connection limiter\<close>

definition DEFAULT_MAX_CONNS_PER_IP :: nat where "DEFAULT_MAX_CONNS_PER_IP = 3"
definition DEFAULT_MAX_TOTAL_CONNECTIONS :: nat where "DEFAULT_MAX_TOTAL_CONNECTIONS = 128"
definition DEFAULT_MAX_PEERS_PER_SUBNET :: nat where "DEFAULT_MAX_PEERS_PER_SUBNET = 8"
definition DEFAULT_BAN_DURATION :: nat where "DEFAULT_BAN_DURATION = 3600 * 10 ^ 9"
definition SHORT_BAN_DURATION :: nat where "SHORT_BAN_DURATION = 300 * 10 ^ 9"

record connection_limiter =
  cl_per_ip :: "(ip_addr \<times> nat) list"
  cl_total :: nat
  cl_max_per_ip :: nat
  cl_max_total :: nat

datatype connection_denied = TooManyFromIp ip_addr nat nat | TotalCapacityReached nat nat

definition limiter_new :: "nat \<Rightarrow> nat \<Rightarrow> connection_limiter" where
  "limiter_new max_per_ip max_total = \<lparr>cl_per_ip = [], cl_total = 0, cl_max_per_ip = max_per_ip, cl_max_total = max_total\<rparr>"

definition limiter_default :: connection_limiter where
  "limiter_default = limiter_new DEFAULT_MAX_CONNS_PER_IP DEFAULT_MAX_TOTAL_CONNECTIONS"

definition count_for_ip :: "connection_limiter \<Rightarrow> ip_addr \<Rightarrow> nat" where
  "count_for_ip l ip = (case map_of (cl_per_ip l) ip of None \<Rightarrow> 0 | Some n \<Rightarrow> n)"

definition try_acquire :: "ip_addr \<Rightarrow> connection_limiter \<Rightarrow> (connection_denied + unit) \<times> connection_limiter" where
  "try_acquire ip l =
     (if cl_max_total l \<le> cl_total l then (Inl (TotalCapacityReached (cl_total l) (cl_max_total l)), l)
      else let l' = (if map_of (cl_per_ip l) ip = None then l\<lparr>cl_per_ip := AList.update ip 0 (cl_per_ip l)\<rparr> else l);
               n = count_for_ip l' ip
      in if cl_max_per_ip l' \<le> n then (Inl (TooManyFromIp ip n (cl_max_per_ip l')), l')
         else (Inr (), l'\<lparr>cl_per_ip := AList.update ip (n + 1) (cl_per_ip l'), cl_total := cl_total l' + 1\<rparr>))"

definition release_conn :: "ip_addr \<Rightarrow> connection_limiter \<Rightarrow> connection_limiter" where
  "release_conn ip l =
     (case map_of (cl_per_ip l) ip of None \<Rightarrow> l
      | Some n \<Rightarrow>
          let l' = (if 0 < n then l\<lparr>cl_per_ip := AList.update ip (n - 1) (cl_per_ip l), cl_total := cl_total l - 1\<rparr> else l)
          in if n - 1 = 0 then l'\<lparr>cl_per_ip := AList.delete ip (cl_per_ip l')\<rparr> else l')"

text \<open>The total is the sum of the counts, and both caps hold.\<close>

definition limiter_ok :: "connection_limiter \<Rightarrow> bool" where
  "limiter_ok l \<longleftrightarrow> distinct (map fst (cl_per_ip l)) \<and> cl_total l = sum_list (map snd (cl_per_ip l)) \<and>
     cl_total l \<le> cl_max_total l \<and> (\<forall>n\<in>set (map snd (cl_per_ip l)). n \<le> cl_max_per_ip l)"

lemma limiter_ok_new [simp]: "limiter_ok (limiter_new m n)"
  by (simp add: limiter_ok_def limiter_new_def)

lemma counts_update:
  assumes "distinct (map fst xs)"
  shows "sum_list (map snd (AList.update k v xs)) + (case map_of xs k of None \<Rightarrow> 0 | Some u \<Rightarrow> u) = sum_list (map snd xs) + (v :: nat)"
  using assms by (induction xs) (auto split: option.splits if_splits)

lemma counts_delete:
  assumes "distinct (map fst xs)"
  shows "sum_list (map snd (AList.delete k xs)) + (case map_of xs k of None \<Rightarrow> 0 | Some u \<Rightarrow> u) = (sum_list (map snd xs) :: nat)"
  using assms
proof (induction xs)
  case (Cons x xs)
  then show ?case by (cases x) (auto simp: delete_notin_dom dom_map_of_conv_image_fst[symmetric] split: option.splits if_splits)
qed simp

lemma set_update_values: "n \<in> set (map snd (AList.update k v xs)) \<Longrightarrow> n = v \<or> n \<in> set (map snd xs)"
  by (induction xs) (auto split: if_splits)

lemma set_delete_values: "set (map snd (AList.delete k xs)) \<subseteq> set (map snd xs)"
  by (induction xs) (auto split: if_splits)

lemma count_for_ip_le: "limiter_ok l \<Longrightarrow> count_for_ip l ip \<le> cl_max_per_ip l"
  by (auto simp: limiter_ok_def count_for_ip_def split: option.split dest!: map_of_SomeD)

lemma try_acquire_ok:
  assumes "limiter_ok l" and "try_acquire ip l = (r, l')"
  shows "limiter_ok l'" and "cl_max_per_ip l' = cl_max_per_ip l" and "cl_max_total l' = cl_max_total l"
    and "count_for_ip l' = (count_for_ip l)(ip := count_for_ip l ip + (if r = Inr () then 1 else 0))"
    and "r = Inr () \<longleftrightarrow> cl_total l < cl_max_total l \<and> count_for_ip l ip < cl_max_per_ip l"
proof -
  let ?l = "if map_of (cl_per_ip l) ip = None then l\<lparr>cl_per_ip := AList.update ip 0 (cl_per_ip l)\<rparr> else l"
  have l1: "distinct (map fst (cl_per_ip ?l))" "sum_list (map snd (cl_per_ip ?l)) = cl_total l" "cl_total ?l = cl_total l"
    "cl_max_total ?l = cl_max_total l" "cl_max_per_ip ?l = cl_max_per_ip l" "count_for_ip ?l = count_for_ip l"
    using assms(1) counts_update[of "cl_per_ip l" ip 0]
    by (auto simp: limiter_ok_def distinct_update count_for_ip_def update_conv' fun_eq_iff split: option.splits)
  have l2: "\<forall>n\<in>set (map snd (cl_per_ip ?l)). n \<le> cl_max_per_ip l"
  proof
    fix n assume "n \<in> set (map snd (cl_per_ip ?l))"
    then have "n = 0 \<or> n \<in> set (map snd (cl_per_ip l))" using set_update_values[of n ip 0] by (auto split: if_splits)
    then show "n \<le> cl_max_per_ip l" using assms(1) by (auto simp: limiter_ok_def)
  qed
  have tot: "cl_total l \<le> cl_max_total l" using assms(1) by (simp add: limiter_ok_def)
  consider (full) "cl_max_total l \<le> cl_total l" | (many) "cl_total l < cl_max_total l" "cl_max_per_ip l \<le> count_for_ip l ip"
    | (free) "cl_total l < cl_max_total l" "count_for_ip l ip < cl_max_per_ip l" by linarith
  then have "limiter_ok l' \<and> cl_max_per_ip l' = cl_max_per_ip l \<and> cl_max_total l' = cl_max_total l \<and>
    count_for_ip l' = (count_for_ip l)(ip := count_for_ip l ip + (if r = Inr () then 1 else 0)) \<and>
    (r = Inr () \<longleftrightarrow> cl_total l < cl_max_total l \<and> count_for_ip l ip < cl_max_per_ip l)"
  proof cases
    case full
    then have "l' = l" "r = Inl (TotalCapacityReached (cl_total l) (cl_max_total l))" using assms(2) full by (auto simp: try_acquire_def)
    then show ?thesis using assms(1) full by simp
  next
    case many
    then have "l' = ?l" "r = Inl (TooManyFromIp ip (count_for_ip l ip) (cl_max_per_ip l))"
      using assms(2) l1(5,6) by (simp_all add: try_acquire_def Let_def)
    then show ?thesis using l1 l2 many tot by (simp add: limiter_ok_def)
  next
    case free
    let ?l2 = "?l\<lparr>cl_per_ip := AList.update ip (count_for_ip l ip + 1) (cl_per_ip ?l), cl_total := cl_total l + 1\<rparr>"
    have p2: "map snd (cl_per_ip ?l2) = map snd (AList.update ip (count_for_ip l ip + 1) (cl_per_ip ?l))" by simp
    have "l' = ?l2" "r = Inr ()" using assms(2) l1(3,5,6) free by (simp_all add: try_acquire_def Let_def)
    moreover have "(case map_of (cl_per_ip ?l) ip of None \<Rightarrow> 0 | Some u \<Rightarrow> u) = count_for_ip l ip"
      using l1(6) by (simp add: count_for_ip_def fun_eq_iff)
    then have "sum_list (map snd (cl_per_ip ?l2)) = cl_total l + 1"
      using counts_update[OF l1(1), of ip "count_for_ip l ip + 1"] l1(2) by simp
    moreover have "\<forall>n\<in>set (map snd (cl_per_ip ?l2)). n \<le> cl_max_per_ip l"
    proof
      fix n assume "n \<in> set (map snd (cl_per_ip ?l2))"
      then have "n \<in> set (map snd (AList.update ip (count_for_ip l ip + 1) (cl_per_ip ?l)))" by (simp only: p2)
      from set_update_values[OF this] have "n = count_for_ip l ip + 1 \<or> n \<in> set (map snd (cl_per_ip ?l))" .
      then show "n \<le> cl_max_per_ip l" using l2 free by auto
    qed
    moreover have "count_for_ip ?l2 = (count_for_ip l)(ip := count_for_ip l ip + 1)"
      using l1(6) by (simp add: count_for_ip_def fun_eq_iff update_conv')
    ultimately show ?thesis using free l1(1,4,5) by (simp add: limiter_ok_def distinct_update)
  qed
  then show "limiter_ok l'" "cl_max_per_ip l' = cl_max_per_ip l" "cl_max_total l' = cl_max_total l"
    "count_for_ip l' = (count_for_ip l)(ip := count_for_ip l ip + (if r = Inr () then 1 else 0))"
    "r = Inr () \<longleftrightarrow> cl_total l < cl_max_total l \<and> count_for_ip l ip < cl_max_per_ip l" by blast+
qed

lemma release_conn_ok:
  assumes "limiter_ok l"
  shows "limiter_ok (release_conn ip l)" and "cl_max_per_ip (release_conn ip l) = cl_max_per_ip l"
    and "cl_max_total (release_conn ip l) = cl_max_total l"
    and "count_for_ip (release_conn ip l) = (count_for_ip l)(ip := count_for_ip l ip - 1)"
proof -
  have ok: "distinct (map fst (cl_per_ip l))" "cl_total l = sum_list (map snd (cl_per_ip l))" "cl_total l \<le> cl_max_total l"
    "\<forall>n\<in>set (map snd (cl_per_ip l)). n \<le> cl_max_per_ip l" using assms by (simp_all add: limiter_ok_def)
  have "limiter_ok (release_conn ip l) \<and> cl_max_per_ip (release_conn ip l) = cl_max_per_ip l \<and>
    cl_max_total (release_conn ip l) = cl_max_total l \<and>
    count_for_ip (release_conn ip l) = (count_for_ip l)(ip := count_for_ip l ip - 1)"
  proof (cases "map_of (cl_per_ip l) ip")
    case None
    then show ?thesis using assms by (simp add: release_conn_def count_for_ip_def fun_eq_iff)
  next
    case (Some n)
    let ?u = "AList.update ip (n - 1) (cl_per_ip l)"
    have u: "distinct (map fst ?u)" "sum_list (map snd ?u) + n = cl_total l + (n - 1)" "map_of ?u ip = Some (n - 1)"
      using counts_update[OF ok(1), of ip "n - 1"] ok(1,2) Some by (simp_all add: distinct_update update_conv')
    have le: "n \<le> cl_max_per_ip l" using ok(4) map_of_SomeD[OF Some] by force
    have vals: "\<forall>m\<in>set (map snd ?u). m \<le> cl_max_per_ip l" using set_update_values[of _ ip "n - 1"] ok(4) le by fastforce
    have du: "distinct (map fst (AList.delete ip xs))" if "distinct (map fst xs)" for xs :: "(ip_addr \<times> nat) list"
      using that by (rule distinct_delete)
    consider "n = 0" | "n = 1" | "1 < n" by linarith
    then show ?thesis
    proof cases
      case 1
      then have r: "release_conn ip l = l\<lparr>cl_per_ip := AList.delete ip (cl_per_ip l)\<rparr>" using Some by (simp add: release_conn_def)
      have "\<forall>m\<in>set (map snd (AList.delete ip (cl_per_ip l))). m \<le> cl_max_per_ip l" using set_delete_values[of ip "cl_per_ip l"] ok(4) by blast
      then show ?thesis using ok du[OF ok(1)] counts_delete[OF ok(1), of ip] Some 1
        by (simp add: r limiter_ok_def count_for_ip_def fun_eq_iff delete_conv')
    next
      case 2
      then have r: "release_conn ip l = l\<lparr>cl_per_ip := AList.delete ip ?u, cl_total := cl_total l - 1\<rparr>"
        using Some by (simp add: release_conn_def Let_def)
      have "\<forall>m\<in>set (map snd (AList.delete ip ?u)). m \<le> cl_max_per_ip l" using set_delete_values[of ip ?u] vals by blast
      moreover have "sum_list (map snd (AList.delete ip ?u)) = cl_total l - 1" using counts_delete[OF u(1), of ip] u(2,3) 2 by simp
      ultimately show ?thesis using ok(3) du[OF u(1)] Some 2
        by (simp add: r limiter_ok_def count_for_ip_def fun_eq_iff delete_conv' update_conv')
    next
      case 3
      then have r: "release_conn ip l = l\<lparr>cl_per_ip := ?u, cl_total := cl_total l - 1\<rparr>" using Some by (simp add: release_conn_def Let_def)
      then show ?thesis using ok(3) u vals Some 3
        by (auto simp: r limiter_ok_def count_for_ip_def fun_eq_iff update_conv')
    qed
  qed
  then show "limiter_ok (release_conn ip l)" "cl_max_per_ip (release_conn ip l) = cl_max_per_ip l"
    "cl_max_total (release_conn ip l) = cl_max_total l"
    "count_for_ip (release_conn ip l) = (count_for_ip l)(ip := count_for_ip l ip - 1)" by blast+
qed

definition acquired :: "ip_addr \<Rightarrow> connection_limiter \<Rightarrow> connection_limiter option" where
  "acquired ip l = (case try_acquire ip l of (Inr _, l') \<Rightarrow> Some l' | (Inl _, _) \<Rightarrow> None)"

interpretation limiter: slots Some count_for_ip cl_max_per_ip acquired release_conn limiter_ok
proof unfold_locales
  fix s s' :: connection_limiter and k assume ok: "limiter_ok s" and a: "acquired k s = Some s'"
  then have "try_acquire k s = (Inr (), s')" by (auto simp: acquired_def split: prod.splits sum.splits)
  from try_acquire_ok[OF ok this] show "limiter_ok s' \<and> cl_max_per_ip s' = cl_max_per_ip s \<and> (case Some k of None \<Rightarrow> count_for_ip s' = count_for_ip s
      | Some k \<Rightarrow> count_for_ip s k < cl_max_per_ip s \<and> count_for_ip s' = (count_for_ip s)(k := count_for_ip s k + 1))" by simp
qed (simp add: release_conn_ok)

section \<open>The ban list\<close>

record ban_entry =
  be_reason :: string
  be_expires_at :: nat
  be_banned_at :: nat

definition ban_entry_new :: "nat \<Rightarrow> string \<Rightarrow> nat \<Rightarrow> ban_entry" where
  "ban_entry_new now reason duration = \<lparr>be_reason = reason, be_expires_at = now + duration, be_banned_at = now\<rparr>"

definition ban_expired :: "nat \<Rightarrow> ban_entry \<Rightarrow> bool" where
  "ban_expired now e \<longleftrightarrow> be_expires_at e \<le> now"

record ban_list =
  bl_banned_ips :: "(ip_addr \<times> ban_entry) list"
  bl_banned_peers :: "(256 word \<times> ban_entry) list"
  bl_default_ban_duration :: nat
  bl_short_ban_duration :: nat

definition ban_list_new :: "nat \<Rightarrow> ban_list" where
  "ban_list_new duration = \<lparr>bl_banned_ips = [], bl_banned_peers = [], bl_default_ban_duration = duration,
     bl_short_ban_duration = SHORT_BAN_DURATION\<rparr>"

definition ban_ip :: "nat \<Rightarrow> ip_addr \<Rightarrow> string \<Rightarrow> ban_list \<Rightarrow> ban_list" where
  "ban_ip now ip reason l =
     l\<lparr>bl_banned_ips := AList.update ip (ban_entry_new now reason (bl_default_ban_duration l)) (bl_banned_ips l)\<rparr>"

definition ban_ip_short :: "nat \<Rightarrow> ip_addr \<Rightarrow> string \<Rightarrow> ban_list \<Rightarrow> ban_list" where
  "ban_ip_short now ip reason l =
     l\<lparr>bl_banned_ips := AList.update ip (ban_entry_new now reason (bl_short_ban_duration l)) (bl_banned_ips l)\<rparr>"

definition ban_peer :: "nat \<Rightarrow> 256 word \<Rightarrow> string \<Rightarrow> ban_list \<Rightarrow> ban_list" where
  "ban_peer now peer_id reason l =
     l\<lparr>bl_banned_peers := AList.update peer_id (ban_entry_new now reason (bl_default_ban_duration l)) (bl_banned_peers l)\<rparr>"

definition ban_peer_short :: "nat \<Rightarrow> 256 word \<Rightarrow> string \<Rightarrow> ban_list \<Rightarrow> ban_list" where
  "ban_peer_short now peer_id reason l =
     l\<lparr>bl_banned_peers := AList.update peer_id (ban_entry_new now reason (bl_short_ban_duration l)) (bl_banned_peers l)\<rparr>"

definition in_force :: "nat \<Rightarrow> ban_entry option \<Rightarrow> bool" where
  "in_force now e = (case e of None \<Rightarrow> False | Some b \<Rightarrow> \<not> ban_expired now b)"

definition is_ip_banned :: "nat \<Rightarrow> ban_list \<Rightarrow> ip_addr \<Rightarrow> bool" where
  "is_ip_banned now l ip = in_force now (map_of (bl_banned_ips l) ip)"

definition is_peer_banned :: "nat \<Rightarrow> ban_list \<Rightarrow> 256 word \<Rightarrow> bool" where
  "is_peer_banned now l peer_id = in_force now (map_of (bl_banned_peers l) peer_id)"

definition ip_ban_entry :: "nat \<Rightarrow> ban_list \<Rightarrow> ip_addr \<Rightarrow> ban_entry option" where
  "ip_ban_entry now l ip = (case map_of (bl_banned_ips l) ip of None \<Rightarrow> None
     | Some e \<Rightarrow> if ban_expired now e then None else Some e)"

definition cleanup_expired :: "nat \<Rightarrow> ban_list \<Rightarrow> ban_list" where
  "cleanup_expired now l = l\<lparr>bl_banned_ips := filter (\<lambda>(k, e). \<not> ban_expired now e) (bl_banned_ips l),
     bl_banned_peers := filter (\<lambda>(k, e). \<not> ban_expired now e) (bl_banned_peers l)\<rparr>"

definition banned_ip_count :: "nat \<Rightarrow> ban_list \<Rightarrow> nat" where
  "banned_ip_count now l = length (filter (\<lambda>(k, e). \<not> ban_expired now e) (bl_banned_ips l))"

definition banned_peer_count :: "nat \<Rightarrow> ban_list \<Rightarrow> nat" where
  "banned_peer_count now l = length (filter (\<lambda>(k, e). \<not> ban_expired now e) (bl_banned_peers l))"

lemma map_of_filter_values:
  "distinct (map fst xs) \<Longrightarrow> map_of (filter (\<lambda>(k, v). P v) xs) k = (case map_of xs k of None \<Rightarrow> None | Some v \<Rightarrow> if P v then Some v else None)"
  by (induction xs) (auto split: option.splits simp: map_of_eq_None_iff image_iff)

text \<open>A ban lasts exactly its duration, and dropping expired bans changes no answer from then on.\<close>

lemma banned_for_duration: "t \<ge> now \<Longrightarrow> is_ip_banned t (ban_ip now ip reason l) ip \<longleftrightarrow> t < now + bl_default_ban_duration l"
  by (auto simp: is_ip_banned_def ban_ip_def in_force_def ban_expired_def ban_entry_new_def update_conv')

lemma cleanup_keeps_bans:
  assumes "distinct (map fst (bl_banned_ips l))" and "distinct (map fst (bl_banned_peers l))" and "now \<le> t"
  shows "is_ip_banned t (cleanup_expired now l) ip = is_ip_banned t l ip"
    and "is_peer_banned t (cleanup_expired now l) p = is_peer_banned t l p"
  using assms by (auto simp: is_ip_banned_def is_peer_banned_def cleanup_expired_def in_force_def ban_expired_def
      map_of_filter_values split: option.split)

text \<open>But a short ban takes the place of a long one: one more minor offence sets a banned peer free early.\<close>

lemma short_ban_frees:
  assumes "now + bl_short_ban_duration l \<le> t" and "t < now + bl_default_ban_duration l"
  shows "is_ip_banned t (ban_ip now ip r l) ip" and "\<not> is_ip_banned t (ban_ip_short now ip r' (ban_ip now ip r l)) ip"
  using assms by (simp_all add: is_ip_banned_def ban_ip_def ban_ip_short_def in_force_def ban_expired_def ban_entry_new_def update_conv')

section \<open>The subnet guard\<close>

datatype subnet_key = SubV4 u8 u8 | SubV6 u8 u8 u8 u8 | SubLoopback

definition v4_local :: "u8 \<Rightarrow> u8 \<Rightarrow> bool" where
  "v4_local a b \<longleftrightarrow> a = 127 \<or> a = 10 \<or> a = 172 \<and> 16 \<le> b \<and> b \<le> 31 \<or> a = 192 \<and> b = 168"

definition hi_byte :: "u16 \<Rightarrow> u8" where "hi_byte w = ucast (drop_bit 8 w)"
definition lo_byte :: "u16 \<Rightarrow> u8" where "lo_byte w = ucast w"

fun subnet_of :: "ip_addr \<Rightarrow> subnet_key" where
  "subnet_of (V4 a b c d) = (if v4_local a b then SubLoopback else SubV4 a b)"
| "subnet_of (V6 segs) =
     (if segs = [0, 0, 0, 0, 0, 0, 0, 1] then SubLoopback
      else if take 5 segs = [0, 0, 0, 0, 0] \<and> (segs ! 5 = 0xFFFF \<or> segs ! 5 = 0) then
        (let a = hi_byte (segs ! 6); b = lo_byte (segs ! 6) in if v4_local a b then SubLoopback else SubV4 a b)
      else SubV6 (hi_byte (segs ! 0)) (lo_byte (segs ! 0)) (hi_byte (segs ! 1)) (lo_byte (segs ! 1)))"

record eclipse_guard =
  eg_subnet_counts :: "(subnet_key \<times> nat) list"
  eg_max_per_subnet :: nat

definition guard_new :: "nat \<Rightarrow> eclipse_guard" where
  "guard_new max_per_subnet = \<lparr>eg_subnet_counts = [], eg_max_per_subnet = max_per_subnet\<rparr>"

definition subnet_count :: "eclipse_guard \<Rightarrow> subnet_key \<Rightarrow> nat" where
  "subnet_count g k = (case map_of (eg_subnet_counts g) k of None \<Rightarrow> 0 | Some n \<Rightarrow> n)"

definition guard_add :: "ip_addr \<Rightarrow> eclipse_guard \<Rightarrow> bool \<times> eclipse_guard" where
  "guard_add ip g =
     (let k = subnet_of ip in
      if k = SubLoopback then (True, g)
      else let g' = (if map_of (eg_subnet_counts g) k = None then g\<lparr>eg_subnet_counts := AList.update k 0 (eg_subnet_counts g)\<rparr> else g);
               n = subnet_count g' k
      in if eg_max_per_subnet g' \<le> n then (False, g')
         else (True, g'\<lparr>eg_subnet_counts := AList.update k (n + 1) (eg_subnet_counts g')\<rparr>))"

definition guard_remove :: "ip_addr \<Rightarrow> eclipse_guard \<Rightarrow> eclipse_guard" where
  "guard_remove ip g =
     (let k = subnet_of ip in
      if k = SubLoopback then g
      else case map_of (eg_subnet_counts g) k of None \<Rightarrow> g
      | Some n \<Rightarrow>
          let g' = (if 0 < n then g\<lparr>eg_subnet_counts := AList.update k (n - 1) (eg_subnet_counts g)\<rparr> else g)
          in if n - 1 = 0 then g'\<lparr>eg_subnet_counts := AList.delete k (eg_subnet_counts g')\<rparr> else g')"

definition subnet_diversity :: "eclipse_guard \<Rightarrow> nat" where
  "subnet_diversity g = length (eg_subnet_counts g)"

lemma guard_add_count:
  assumes "guard_add ip g = (b, g')"
  shows "eg_max_per_subnet g' = eg_max_per_subnet g"
    and "subnet_count g' = (subnet_count g)(subnet_of ip := subnet_count g (subnet_of ip) + (if b \<and> subnet_of ip \<noteq> SubLoopback then 1 else 0))"
    and "b \<longleftrightarrow> subnet_of ip = SubLoopback \<or> subnet_count g (subnet_of ip) < eg_max_per_subnet g"
  using assms by (auto simp: guard_add_def Let_def subnet_count_def fun_eq_iff update_conv' split: if_splits option.splits)

lemma guard_remove_count:
  "eg_max_per_subnet (guard_remove ip g) = eg_max_per_subnet g"
  "subnet_of ip \<noteq> SubLoopback \<Longrightarrow> subnet_count (guard_remove ip g) = (subnet_count g)(subnet_of ip := subnet_count g (subnet_of ip) - 1)"
  by (auto simp: guard_remove_def Let_def subnet_count_def fun_eq_iff update_conv' delete_conv' split: option.splits)

definition guard_taken :: "ip_addr \<Rightarrow> eclipse_guard \<Rightarrow> eclipse_guard option" where
  "guard_taken ip g = (case guard_add ip g of (True, g') \<Rightarrow> Some g' | (False, _) \<Rightarrow> None)"

definition guard_slot :: "ip_addr \<Rightarrow> subnet_key option" where
  "guard_slot ip = (if subnet_of ip = SubLoopback then None else Some (subnet_of ip))"

interpretation guard: slots guard_slot subnet_count eg_max_per_subnet guard_taken guard_remove "\<lambda>_. True"
proof unfold_locales
  fix s s' :: eclipse_guard and a assume "guard_taken a s = Some s'"
  then have "guard_add a s = (True, s')" by (auto simp: guard_taken_def split: prod.splits bool.splits)
  from guard_add_count[OF this] show "True \<and> eg_max_per_subnet s' = eg_max_per_subnet s \<and> (case guard_slot a of None \<Rightarrow> subnet_count s' = subnet_count s
      | Some k \<Rightarrow> subnet_count s k < eg_max_per_subnet s \<and> subnet_count s' = (subnet_count s)(k := subnet_count s k + 1))"
    by (auto simp: guard_slot_def)
qed (simp add: guard_remove_count guard_slot_def, simp add: guard_remove_def)

end
