(* ===== verification/Network_Rate.thy ===== *)
theory Network_Rate
  imports Network_Admission Core_Dimensional
begin

text \<open>
  The rest of \<open>network/src/security.rs\<close>: size limits per message type, the token bucket, the counters, and the validation
  of addresses from DNS seeds. Hash maps are association lists; the order in which Rust walks one is unspecified, so
  where it matters it is the argument \<open>walk\<close>.
  Then \<open>network/src/cpp/flow_control.rs\<close>: the window of messages in flight.
\<close>

section \<open>Size limits\<close>

definition SIZE_TRANSACTION :: nat where "SIZE_TRANSACTION = 256 * 1024"
definition SIZE_BLOCK :: nat where "SIZE_BLOCK = 4 * 1024 * 1024"
definition SIZE_CONSENSUS :: nat where "SIZE_CONSENSUS = 64 * 1024"
definition SIZE_HANDSHAKE :: nat where "SIZE_HANDSHAKE = 4 * 1024"
definition SIZE_DEFAULT :: nat where "SIZE_DEFAULT = 1024 * 1024"

definition max_for_type :: "u8 \<Rightarrow> nat" where
  "max_for_type t =
     (if t = 0x01 \<or> t = 0x02 then SIZE_HANDSHAKE
      else if t = 0x10 \<or> t = 0x11 \<or> t = 0x13 \<or> t = 0x14 then SIZE_DEFAULT
      else if t = 0x12 then SIZE_BLOCK
      else if t = 0x20 then SIZE_BLOCK
      else if t = 0x21 then SIZE_TRANSACTION
      else if 0x30 \<le> t \<and> t \<le> 0x34 then SIZE_DEFAULT
      else if t = 0xF0 \<or> t = 0xF1 \<or> t = 0xFF then SIZE_HANDSHAKE
      else SIZE_DEFAULT)"

section \<open>The token bucket\<close>

record token_bucket =
  tb_tokens :: f64
  tb_capacity :: f64
  tb_refill_rate :: f64
  tb_last_refill :: nat
  tb_strikes :: u32

definition bucket_new :: "nat \<Rightarrow> f64 \<Rightarrow> f64 \<Rightarrow> token_bucket" where
  "bucket_new now capacity refill_rate = \<lparr>tb_tokens = capacity, tb_capacity = capacity, tb_refill_rate = refill_rate,
     tb_last_refill = now, tb_strikes = 0\<rparr>"

definition bucket_refill :: "nat \<Rightarrow> token_bucket \<Rightarrow> token_bucket" where
  "bucket_refill now b =
     (let elapsed = as_secs_f64 (now - tb_last_refill b)
      in b\<lparr>tb_tokens := f_min (f_add (tb_tokens b) (f_mul elapsed (tb_refill_rate b))) (tb_capacity b), tb_last_refill := now\<rparr>)"

definition try_consume :: "nat \<Rightarrow> token_bucket \<Rightarrow> bool \<times> token_bucket" where
  "try_consume now b =
     (let b' = bucket_refill now b in
      if f_le f_one (tb_tokens b') then (True, b'\<lparr>tb_tokens := f_sub (tb_tokens b') f_one\<rparr>)
      else (False, b'\<lparr>tb_strikes := tb_strikes b' + 1\<rparr>))"

definition reset_strikes :: "token_bucket \<Rightarrow> token_bucket" where
  "reset_strikes b = b\<lparr>tb_strikes := 0\<rparr>"

text \<open>A bucket of an integer capacity holds between none and all of its tokens, and what is there is a number.\<close>

definition bucket_ok :: "nat \<Rightarrow> token_bucket \<Rightarrow> bool" where
  "bucket_ok n b \<longleftrightarrow> n < 2 ^ 53 \<and> tb_capacity b = FFin False (of_nat n) \<and>
     (\<exists>r. tb_refill_rate b = FFin False r \<and> 0 \<le> r) \<and> (\<exists>m. tb_tokens b = FFin False m \<and> 0 \<le> m \<and> m \<le> of_nat n)"

lemma bucket_ok_new:
  "n < 2 ^ 53 \<Longrightarrow> 0 \<le> r \<Longrightarrow> bucket_ok n (bucket_new now (FFin False (of_nat n)) (FFin False r))"
  by (simp add: bucket_ok_def bucket_new_def)

definition f_nonneg :: "f64 \<Rightarrow> bool" where
  "f_nonneg x \<longleftrightarrow> x = FInf False \<or> (\<exists>m. x = FFin False m \<and> 0 \<le> m)"

lemma f_nonnegE:
  assumes "f_nonneg x"
  obtains "x = FInf False" | m where "x = FFin False m" and "0 \<le> m"
  using assms by (auto simp: f_nonneg_def)

lemma f_nonneg_round: "0 \<le> r \<Longrightarrow> f_nonneg (f_round False r)"
  using f_round_nonneg_or_inf unfolding f_nonneg_def by blast

lemma f_nonneg_add: "f_nonneg x \<Longrightarrow> f_nonneg y \<Longrightarrow> f_nonneg (f_add x y)"
  by (elim f_nonnegE; simp add: Let_def f_of_rat_def f_nonneg_round) (simp_all add: f_nonneg_def)

lemma f_nonneg_mul: "f_nonneg x \<Longrightarrow> 0 \<le> r \<Longrightarrow> f_mul x (FFin False r) = FNaN \<or> f_nonneg (f_mul x (FFin False r))"
  by (elim f_nonnegE; simp add: f_nonneg_round) (simp_all add: f_nonneg_def)

lemma f_nonneg_div: "f_nonneg x \<Longrightarrow> 0 < r \<Longrightarrow> f_nonneg (f_div x (FFin False r))"
  by (elim f_nonnegE; simp add: f_nonneg_round) (simp_all add: f_nonneg_def)

lemma as_secs_f64_nonneg: "f_nonneg (as_secs_f64 d)"
proof -
  have b: "f_of_nat (10 ^ 9) = FFin False (10 ^ 9)"
    using f_round_int[of "10 ^ 9" False] by (simp add: f_of_nat_def)
  have "f_nonneg (f_of_nat k)" for k by (simp add: f_of_nat_def f_nonneg_round)
  then show ?thesis unfolding as_secs_f64_def b by (intro f_nonneg_add f_nonneg_div) simp_all
qed

lemma refill_ok:
  assumes "bucket_ok n b"
  shows "bucket_ok n (bucket_refill now b)"
proof -
  obtain r m where b: "tb_capacity b = FFin False (of_nat n)" "tb_refill_rate b = FFin False r" "0 \<le> r"
    "tb_tokens b = FFin False m" "0 \<le> m" "m \<le> of_nat n" "n < 2 ^ 53" using assms by (auto simp: bucket_ok_def)
  let ?y = "f_mul (as_secs_f64 (now - tb_last_refill b)) (FFin False r)"
  have "f_add (FFin False m) ?y = FNaN \<or> f_nonneg (f_add (FFin False m) ?y)"
  proof (cases "?y = FNaN")
    case False
    then have "f_nonneg ?y" using f_nonneg_mul[OF as_secs_f64_nonneg b(3)] by blast
    then show ?thesis using f_nonneg_add[of "FFin False m" ?y] b(5) by (simp add: f_nonneg_def)
  qed simp
  then have "\<exists>k. f_min (f_add (FFin False m) ?y) (FFin False (of_nat n)) = FFin False k \<and> 0 \<le> k \<and> k \<le> of_nat n"
    by (auto simp: f_min_def f_nonneg_def)
  then show ?thesis using b by (simp add: bucket_ok_def bucket_refill_def Let_def)
qed

lemma consume_ok:
  assumes "bucket_ok n b"
  shows "bucket_ok n (snd (try_consume now b))"
proof -
  let ?b = "bucket_refill now b"
  have ok: "bucket_ok n ?b" using assms by (rule refill_ok)
  then obtain m where m: "tb_tokens ?b = FFin False m" "0 \<le> m" "m \<le> of_nat n" "n < 2 ^ 53" by (auto simp: bucket_ok_def)
  show ?thesis
  proof (cases "1 \<le> m")
    case True
    have "0 \<le> m - 1" "m - 1 \<le> of_nat n" using True m(3) by simp_all
    from f_round_between[OF this m(4)] obtain v where v: "f_round False (m - 1) = FFin False v" "0 \<le> v" "v \<le> of_nat n" by blast
    have "f_sub (FFin False m) f_one = FFin False v \<or> f_sub (FFin False m) f_one = FFin False 0"
      using True v by (auto simp: f_sub_def f_one_def Let_def f_of_rat_def)
    then have "bucket_ok n (?b\<lparr>tb_tokens := f_sub (tb_tokens ?b) f_one\<rparr>)" using ok v m by (auto simp: bucket_ok_def)
    then show ?thesis using True m(1) by (simp add: try_consume_def Let_def f_one_def)
  next
    case False
    then have "snd (try_consume now b) = ?b\<lparr>tb_strikes := tb_strikes ?b + 1\<rparr>" using m(1) by (simp add: try_consume_def Let_def f_one_def)
    then show ?thesis using ok by (simp add: bucket_ok_def)
  qed
qed

text \<open>A burst at one instant is served exactly to the number of tokens.\<close>

fun burst :: "nat \<Rightarrow> nat \<Rightarrow> token_bucket \<Rightarrow> nat \<times> token_bucket" where
  "burst now 0 b = (0, b)"
| "burst now (Suc j) b = (let (ok, b') = try_consume now b; (n, b'') = burst now j b' in ((if ok then n + 1 else n), b''))"

lemma consume_at_once:
  assumes "tb_tokens b = FFin False (of_nat k)" and "tb_capacity b = FFin False (of_nat n)" and "k \<le> n" and "n < 2 ^ 53"
    and "tb_refill_rate b = FFin False r" and "tb_last_refill b = now"
  shows "try_consume now b = (if 0 < k then (True, b\<lparr>tb_tokens := FFin False (of_nat (k - 1))\<rparr>) else (False, b\<lparr>tb_strikes := tb_strikes b + 1\<rparr>))"
proof -
  have ex: "f_round False (of_nat j) = FFin False (of_nat j)" if "j \<le> n" for j
    using f_round_int[of "int j" False] that assms(4) by simp
  have "as_secs_f64 0 = FFin False 0" using f_round_int[of "10 ^ 9" False] by (simp add: as_secs_f64_def f_of_nat_def)
  then have "f_add (tb_tokens b) (f_mul (as_secs_f64 (now - tb_last_refill b)) (tb_refill_rate b)) = FFin False (of_nat k)"
    using assms(1,3,5,6) ex[of k] by (auto simp: f_of_rat_def)
  then have re: "bucket_refill now b = b" using assms(1-3,6) by (simp add: bucket_refill_def Let_def f_min_def)
  have "f_sub (FFin False (of_nat k)) f_one = FFin False (of_nat (k - 1))" if "0 < k"
    using that ex[of "k - 1"] assms(3) by (auto simp: f_sub_def f_one_def Let_def f_of_rat_def of_nat_diff)
  then show ?thesis using assms(1) by (auto simp: try_consume_def Let_def re f_one_def)
qed

lemma burst_serves_tokens:
  assumes "tb_tokens b = FFin False (of_nat k)" and "tb_capacity b = FFin False (of_nat n)" and "k \<le> n" and "n < 2 ^ 53"
    and "tb_refill_rate b = FFin False r" and "tb_last_refill b = now"
  shows "fst (burst now j b) = min j k"
  using assms
proof (induction j arbitrary: k b)
  case (Suc j)
  show ?case
  proof (cases "0 < k")
    case True
    let ?b = "b\<lparr>tb_tokens := FFin False (of_nat (k - 1))\<rparr>"
    have "fst (burst now j ?b) = min j (k - 1)" by (rule Suc.IH) (use Suc.prems in simp_all)
    then show ?thesis using consume_at_once[OF Suc.prems] True by (auto split: prod.splits)
  next
    case False
    let ?b = "b\<lparr>tb_strikes := tb_strikes b + 1\<rparr>"
    have "fst (burst now j ?b) = min j 0" by (rule Suc.IH) (use Suc.prems False in simp_all)
    then show ?thesis using consume_at_once[OF Suc.prems] False by (auto split: prod.splits)
  qed
qed simp

section \<open>Counters\<close>

record security_metrics =
  sm_connected_peers :: u64
  sm_peak_connected_peers :: u64
  sm_messages_sent :: "u64 list"
  sm_messages_received :: "u64 list"
  sm_bytes_sent :: u64
  sm_bytes_received :: u64
  sm_connections_rejected_ban :: u64
  sm_connections_rejected_ip_limit :: u64
  sm_connections_rejected_eclipse :: u64
  sm_connections_rejected_total_limit :: u64
  sm_auth_failures :: u64
  sm_messages_dropped_rate_limit :: u64
  sm_messages_dropped_size_limit :: u64
  sm_messages_dropped_malformed :: u64
  sm_peers_banned :: u64
  sm_ips_banned :: u64
  sm_peer_connects :: u64
  sm_peer_disconnects :: u64

definition metrics_default :: security_metrics where
  "metrics_default = \<lparr>sm_connected_peers = 0, sm_peak_connected_peers = 0, sm_messages_sent = replicate 256 0,
     sm_messages_received = replicate 256 0, sm_bytes_sent = 0, sm_bytes_received = 0,
     sm_connections_rejected_ban = 0, sm_connections_rejected_ip_limit = 0, sm_connections_rejected_eclipse = 0,
     sm_connections_rejected_total_limit = 0, sm_auth_failures = 0, sm_messages_dropped_rate_limit = 0,
     sm_messages_dropped_size_limit = 0, sm_messages_dropped_malformed = 0, sm_peers_banned = 0, sm_ips_banned = 0,
     sm_peer_connects = 0, sm_peer_disconnects = 0\<rparr>"

definition on_peer_connect :: "security_metrics \<Rightarrow> security_metrics" where
  "on_peer_connect m =
     (let m' = m\<lparr>sm_peer_connects := sm_peer_connects m + 1, sm_connected_peers := sm_connected_peers m + 1\<rparr>
      in if sm_peak_connected_peers m' < sm_connected_peers m' then m'\<lparr>sm_peak_connected_peers := sm_connected_peers m'\<rparr> else m')"

definition on_peer_disconnect :: "security_metrics \<Rightarrow> security_metrics" where
  "on_peer_disconnect m = m\<lparr>sm_peer_disconnects := sm_peer_disconnects m + 1,
     sm_connected_peers := saturating_sub_word (sm_connected_peers m) 1\<rparr>"

definition on_message_sent :: "u8 \<Rightarrow> u64 \<Rightarrow> security_metrics \<Rightarrow> security_metrics" where
  "on_message_sent t bytes m = m\<lparr>sm_messages_sent := (sm_messages_sent m)[unat t := sm_messages_sent m ! unat t + 1],
     sm_bytes_sent := sm_bytes_sent m + bytes\<rparr>"

definition on_message_received :: "u8 \<Rightarrow> u64 \<Rightarrow> security_metrics \<Rightarrow> security_metrics" where
  "on_message_received t bytes m = m\<lparr>sm_messages_received := (sm_messages_received m)[unat t := sm_messages_received m ! unat t + 1],
     sm_bytes_received := sm_bytes_received m + bytes\<rparr>"

definition churn :: "security_metrics \<Rightarrow> u64" where
  "churn m = sm_peer_connects m + sm_peer_disconnects m"

definition total_messages_sent :: "security_metrics \<Rightarrow> u64" where
  "total_messages_sent m = sum_list (sm_messages_sent m)"

definition total_messages_received :: "security_metrics \<Rightarrow> u64" where
  "total_messages_received m = sum_list (sm_messages_received m)"

text \<open>The tables always have an entry for every type byte, and their sum counts the messages.\<close>

lemma sum_list_increment: "i < length xs \<Longrightarrow> sum_list (xs[i := xs ! i + 1]) = sum_list xs + (1 :: u64)"
  by (induction xs arbitrary: i) (auto split: nat.split simp: algebra_simps)

lemma message_counts:
  assumes "length (sm_messages_sent m) = 256"
  shows "length (sm_messages_sent (on_message_sent t bytes m)) = 256"
    and "total_messages_sent (on_message_sent t bytes m) = total_messages_sent m + 1"
  using assms unat_lt_pow[of t] by (simp_all add: on_message_sent_def total_messages_sent_def sum_list_increment)

section \<open>DNS seeds\<close>

definition count_seed :: "socket_addr list \<Rightarrow> (socket_addr \<times> nat) list \<Rightarrow> (socket_addr \<times> nat) list" where
  "count_seed results counts = fold (\<lambda>a cs. AList.update a ((case map_of cs a of None \<Rightarrow> 0 | Some n \<Rightarrow> n) + 1) cs) (rev (remdups (rev results))) counts"

definition admit_seed :: "socket_addr list \<Rightarrow> eclipse_guard \<Rightarrow> socket_addr list" where
  "admit_seed addrs guard = snd (fold (\<lambda>a (g, out). case guard_add (sa_ip a) g of (ok, g') \<Rightarrow> (g', if ok then out @ [a] else out)) addrs (guard, []))"

definition validate_seeds ::
  "((socket_addr \<times> nat) list \<Rightarrow> (socket_addr \<times> nat) list) \<Rightarrow> nat \<Rightarrow> eclipse_guard \<Rightarrow> socket_addr list list \<Rightarrow> socket_addr list" where
  "validate_seeds walk min_seed_agreement g seed_results =
     (let addr_counts = fold count_seed seed_results [];
          threshold = (if min_seed_agreement \<le> length seed_results then min_seed_agreement else 1);
          candidates = sort_key (\<lambda>c. - int (snd c)) (filter (\<lambda>c. threshold \<le> snd c) (walk addr_counts))
      in admit_seed (map fst candidates) (guard_new (eg_max_per_subnet g)))"

text \<open>An address is counted once per seed that returned it.\<close>

definition votes :: "socket_addr list list \<Rightarrow> socket_addr \<Rightarrow> nat" where
  "votes seeds a = length (filter (\<lambda>results. a \<in> set results) seeds)"

definition counted :: "(socket_addr \<times> nat) list \<Rightarrow> socket_addr \<Rightarrow> nat" where
  "counted cs a = (case map_of cs a of None \<Rightarrow> 0 | Some n \<Rightarrow> n)"

lemma count_distinct:
  "distinct as \<Longrightarrow> counted (fold (\<lambda>a cs. AList.update a ((case map_of cs a of None \<Rightarrow> 0 | Some n \<Rightarrow> n) + 1) cs) as counts) a =
     counted counts a + (if a \<in> set as then 1 else 0)"
  by (induction as arbitrary: counts) (auto simp: counted_def update_conv' split: option.splits)

lemma counted_seed: "counted (count_seed results counts) a = counted counts a + (if a \<in> set results then 1 else 0)"
  unfolding count_seed_def by (subst count_distinct) simp_all

lemma counted_seeds: "counted (fold count_seed seeds counts) a = counted counts a + votes seeds a"
  by (induction seeds arbitrary: counts) (auto simp: counted_seed votes_def)

lemma distinct_count_seed: "distinct (map fst counts) \<Longrightarrow> distinct (map fst (count_seed results counts))"
proof -
  have "distinct (map fst counts) \<Longrightarrow> distinct (map fst (fold (\<lambda>a cs. AList.update a ((case map_of cs a of None \<Rightarrow> 0 | Some n \<Rightarrow> n) + 1) cs) as counts))"
    for as by (induction as arbitrary: counts) (simp_all add: distinct_update)
  then show "distinct (map fst counts) \<Longrightarrow> distinct (map fst (count_seed results counts))" by (simp add: count_seed_def)
qed

lemma distinct_count_seeds: "distinct (map fst counts) \<Longrightarrow> distinct (map fst (fold count_seed seeds counts))"
  by (induction seeds arbitrary: counts) (simp_all add: distinct_count_seed)

definition subnet_load :: "socket_addr list \<Rightarrow> subnet_key \<Rightarrow> nat" where
  "subnet_load as k = length (filter (\<lambda>a. subnet_of (sa_ip a) = k) as)"

lemma admit_seed_inv:
  assumes "fold (\<lambda>a (g, out). case guard_add (sa_ip a) g of (ok, g') \<Rightarrow> (g', if ok then out @ [a] else out)) as (g, out) = (g', out')"
    and "\<forall>k. k \<noteq> SubLoopback \<longrightarrow> subnet_count g k = subnet_load out k \<and> subnet_load out k \<le> eg_max_per_subnet g"
  shows "set out' \<subseteq> set out \<union> set as \<and>
    (\<forall>k. k \<noteq> SubLoopback \<longrightarrow> subnet_count g' k = subnet_load out' k \<and> subnet_load out' k \<le> eg_max_per_subnet g)"
  using assms
proof (induction as arbitrary: g out)
  case (Cons a as)
  obtain ok g1 where ga: "guard_add (sa_ip a) g = (ok, g1)" by fastforce
  note c = guard_add_count[OF ga]
  let ?out = "if ok then out @ [a] else out"
  have load: "subnet_load ?out k = subnet_load out k + (if ok \<and> subnet_of (sa_ip a) = k then 1 else 0)" for k
    by (simp add: subnet_load_def)
  have f: "fold (\<lambda>a (g, out). case guard_add (sa_ip a) g of (ok, g') \<Rightarrow> (g', if ok then out @ [a] else out)) as (g1, ?out) = (g', out')"
    using Cons.prems(1) ga by simp
  have "\<forall>k. k \<noteq> SubLoopback \<longrightarrow> subnet_count g1 k = subnet_load ?out k \<and> subnet_load ?out k \<le> eg_max_per_subnet g1"
    unfolding load c(1,2) using Cons.prems(2) c(3) by auto
  from Cons.IH[OF f this] show ?case using c(1) by (auto split: if_splits)
qed simp

text \<open>What the validator returns was returned by enough seeds, and no subnet has more than its share of it.\<close>

lemma validated_addresses:
  assumes "\<And>xs. set (walk xs) \<subseteq> set xs" and "validate_seeds walk m g seeds = out" and "m \<le> length seeds"
  shows "a \<in> set out \<Longrightarrow> m \<le> votes seeds a" and "k \<noteq> SubLoopback \<Longrightarrow> subnet_load out k \<le> eg_max_per_subnet g"
proof -
  let ?c = "map fst (sort_key (\<lambda>c. - int (snd c)) (filter (\<lambda>c. m \<le> snd c) (walk (fold count_seed seeds []))))"
  obtain g' where f: "fold (\<lambda>a (g, out). case guard_add (sa_ip a) g of (ok, g') \<Rightarrow> (g', if ok then out @ [a] else out)) ?c
      (guard_new (eg_max_per_subnet g), []) = (g', out)"
    using assms(2,3) by (auto simp: validate_seeds_def admit_seed_def Let_def prod_eq_iff)
  have inv: "set out \<subseteq> set ?c \<and> (\<forall>k. k \<noteq> SubLoopback \<longrightarrow> subnet_load out k \<le> eg_max_per_subnet g)"
    using admit_seed_inv[OF f] by (auto simp: guard_new_def subnet_count_def subnet_load_def)
  then show "k \<noteq> SubLoopback \<Longrightarrow> subnet_load out k \<le> eg_max_per_subnet g" by blast
  assume "a \<in> set out"
  then obtain n where n: "(a, n) \<in> set (fold count_seed seeds [])" "m \<le> n" using inv assms(1) by fastforce
  have "map_of (fold count_seed seeds []) a = Some n" using n(1) distinct_count_seeds[of "[]" seeds] by simp
  then show "m \<le> votes seeds a" using counted_seeds[of seeds "[]" a] n(2) by (simp add: counted_def)
qed

text \<open>
  \<open>network/src/cpp/flow_control.rs\<close>: the window of messages in flight, which grows by \<open>\<eta>\<close> with every acknowledgement and
  shrinks by the factor \<open>1 - \<eta>\<close> with every timeout. Durations are numbers of nanoseconds.
\<close>

section \<open>Definitions\<close>

definition ms :: nat where "ms = 10 ^ 6"

record flow_control =
  fc_window :: f64
  fc_min_window :: f64
  fc_max_window :: f64
  fc_rtt :: nat
  fc_rtt_var :: nat
  fc_sent_count :: u64
  fc_ack_count :: u64
  fc_timeout_count :: u64
  fc_last_update :: nat
  fc_eta :: f64

definition flow_new :: "nat \<Rightarrow> flow_control" where
  "flow_new now = \<lparr>fc_window = f_of_rat 10, fc_min_window = f_one, fc_max_window = f_of_rat 100, fc_rtt = 100 * ms, fc_rtt_var = 50 * ms,
     fc_sent_count = 0, fc_ack_count = 0, fc_timeout_count = 0, fc_last_update = now, fc_eta = ETA\<rparr>"

definition flow_with_bounds :: "nat \<Rightarrow> f64 \<Rightarrow> f64 \<Rightarrow> flow_control" where
  "flow_with_bounds now min_window max_window =
     \<lparr>fc_window = f_max min_window f_one, fc_min_window = min_window, fc_max_window = max_window, fc_rtt = 100 * ms, fc_rtt_var = 50 * ms,
      fc_sent_count = 0, fc_ack_count = 0, fc_timeout_count = 0, fc_last_update = now, fc_eta = ETA\<rparr>"

definition can_send :: "flow_control \<Rightarrow> nat \<Rightarrow> bool" where
  "can_send c in_flight \<longleftrightarrow> f_lt (f_of_nat in_flight) (fc_window c)"

definition window_size :: "flow_control \<Rightarrow> u64" where
  "window_size c = f_to_word (f_ceil (fc_window c))"

definition flow_timeout :: "flow_control \<Rightarrow> nat" where
  "flow_timeout c = fc_rtt c + min (fc_rtt_var c) (10 * 10 ^ 9) * 4"

definition on_send :: "flow_control \<Rightarrow> flow_control" where
  "on_send c = c\<lparr>fc_sent_count := fc_sent_count c + 1\<rparr>"

definition clamp_window :: "f64 \<Rightarrow> flow_control \<Rightarrow> f64" where
  "clamp_window w c = f_min (f_max w (fc_min_window c)) (fc_max_window c)"

definition on_ack :: "nat \<Rightarrow> nat \<Rightarrow> flow_control \<Rightarrow> flow_control" where
  "on_ack now rtt c =
     (let alpha = f_of_rat (1 / 8); rtt_ms = f_of_nat (fc_rtt c div ms); measured_ms = f_of_nat (rtt div ms);
          new_rtt_ms = f_add (f_mul (f_sub f_one alpha) rtt_ms) (f_mul alpha measured_ms);
          beta = f_of_rat (1 / 4); rtt_var_ms = f_of_nat (fc_rtt_var c div ms); diff_ms = f_abs (f_sub rtt_ms measured_ms);
          new_rtt_var_ms = f_add (f_mul (f_sub f_one beta) rtt_var_ms) (f_mul beta diff_ms)
      in c\<lparr>fc_ack_count := fc_ack_count c + 1, fc_rtt := unat (f_to_word new_rtt_ms :: u64) * ms,
           fc_rtt_var := unat (f_to_word (f_min new_rtt_var_ms (f_of_rat 10000)) :: u64) * ms,
           fc_window := clamp_window (f_add (fc_window c) (fc_eta c)) c, fc_last_update := now\<rparr>)"

definition on_timeout :: "nat \<Rightarrow> flow_control \<Rightarrow> flow_control" where
  "on_timeout now c =
     c\<lparr>fc_timeout_count := fc_timeout_count c + 1, fc_window := clamp_window (f_mul (fc_window c) (f_sub f_one (fc_eta c))) c,
       fc_rtt := min (fc_rtt c * 2) (60 * 10 ^ 9), fc_last_update := now\<rparr>"

record flow_stats =
  fst_window :: f64
  fst_rtt :: nat
  fst_timeout :: nat
  fst_sent_count :: u64
  fst_ack_count :: u64
  fst_timeout_count :: u64
  fst_loss_rate :: f64

definition flow_stats_of :: "flow_control \<Rightarrow> flow_stats" where
  "flow_stats_of c = \<lparr>fst_window = fc_window c, fst_rtt = fc_rtt c, fst_timeout = flow_timeout c, fst_sent_count = fc_sent_count c,
     fst_ack_count = fc_ack_count c, fst_timeout_count = fc_timeout_count c,
     fst_loss_rate = (if 0 < fc_sent_count c then f_div (f_of_word (fc_timeout_count c)) (f_of_word (fc_sent_count c)) else f_zero)\<rparr>"

definition flow_reset :: "nat \<Rightarrow> flow_control \<Rightarrow> flow_control" where
  "flow_reset now c = c\<lparr>fc_window := f_max (fc_min_window c) f_one, fc_rtt := 100 * ms, fc_rtt_var := 50 * ms, fc_last_update := now\<rparr>"

section \<open>The window stays within its bounds\<close>

datatype flow_event = Sent | Acked nat nat | TimedOut nat | WasReset nat

fun flow_step :: "flow_event \<Rightarrow> flow_control \<Rightarrow> flow_control" where
  "flow_step Sent c = on_send c"
| "flow_step (Acked now rtt) c = on_ack now rtt c"
| "flow_step (TimedOut now) c = on_timeout now c"
| "flow_step (WasReset now) c = flow_reset now c"

definition flow_ok :: "flow_control \<Rightarrow> bool" where
  "flow_ok c \<longleftrightarrow> (\<exists>a b w. fc_min_window c = FFin False a \<and> fc_max_window c = FFin False b \<and> fc_window c = FFin False w \<and>
     1 \<le> a \<and> a \<le> w \<and> w \<le> b)"

lemma flow_ok_new: "flow_ok (flow_new now)"
  by (simp add: flow_ok_def flow_new_def f_one_def)

lemma flow_ok_bounds: "1 \<le> a \<Longrightarrow> a \<le> b \<Longrightarrow> flow_ok (flow_with_bounds now (FFin False a) (FFin False b))"
  by (simp add: flow_ok_def flow_with_bounds_def f_max_def f_one_def)

text \<open>Whatever the sum or product was, a clamped window is a number between the bounds.\<close>

definition f_mag :: "f64 \<Rightarrow> bool" where
  "f_mag x \<longleftrightarrow> (\<forall>s m. x = FFin s m \<longrightarrow> 0 \<le> m)"

lemma f_mag_round: "0 \<le> r \<Longrightarrow> f_mag (f_round s r)"
  using f_round_nonneg_or_inf[of r s] by (auto simp: f_mag_def)

lemma f_mag_add: "f_mag (f_add x y)"
proof -
  have "f_mag (f_of_rat v)" for v by (simp add: f_of_rat_def f_mag_round)
  then show ?thesis by (cases "(x, y)" rule: f_add.cases) (simp_all add: Let_def, simp_all add: f_mag_def)
qed

lemma f_mag_mul: "f_mag x \<Longrightarrow> f_mag y \<Longrightarrow> f_mag (f_mul x y)"
  by (cases "(x, y)" rule: f_mul.cases) (auto simp: f_mag_round f_mag_def[of "FFin _ _"], simp_all add: f_mag_def)

lemma clamp_window_bounds:
  assumes "fc_min_window c = FFin False a" and "fc_max_window c = FFin False b" and "0 < a" and "a \<le> b" and "f_mag w"
  shows "\<exists>w'. clamp_window w c = FFin False w' \<and> a \<le> w' \<and> w' \<le> b"
proof (cases w)
  case (FFin s m)
  then show ?thesis using assms by (cases s) (auto simp: clamp_window_def f_max_def f_min_def f_mag_def)
qed (use assms in \<open>auto simp: clamp_window_def f_max_def f_min_def\<close>)

lemma flow_step_ok: "flow_ok c \<Longrightarrow> flow_ok (flow_step e c)"
proof -
  assume "flow_ok c"
  then obtain a b w where c: "fc_min_window c = FFin False a" "fc_max_window c = FFin False b" "fc_window c = FFin False w"
    "1 \<le> a" "a \<le> w" "w \<le> b" by (auto simp: flow_ok_def)
  have clamp: "\<exists>w'. clamp_window v c = FFin False w' \<and> a \<le> w' \<and> w' \<le> b" if "f_mag v" for v
    using clamp_window_bounds[OF c(1,2) _ _ that] c(4-6) by simp
  have w: "f_mag (fc_window c)" using c(3-5) by (simp add: f_mag_def)
  show "flow_ok (flow_step e c)"
  proof (cases e)
    case (Acked now rtt)
    then show ?thesis using clamp[OF f_mag_add] c by (auto simp: flow_ok_def on_ack_def Let_def)
  next
    case (TimedOut now)
    have "f_mag (f_sub f_one (fc_eta c))" unfolding f_sub_def by (rule f_mag_add)
    then show ?thesis using clamp[OF f_mag_mul[OF w]] c TimedOut by (auto simp: flow_ok_def on_timeout_def)
  next
    case (WasReset now)
    then show ?thesis using c by (simp add: flow_ok_def flow_reset_def f_max_def f_one_def)
  qed (use c in \<open>simp add: flow_ok_def on_send_def\<close>)
qed

lemma flow_run_ok: "flow_ok c \<Longrightarrow> flow_ok (fold flow_step es c)"
  by (induction es arbitrary: c) (simp_all add: flow_step_ok)

text \<open>So a sender with nothing in flight may always send, and one with a full maximum in flight never may.\<close>

lemma never_stuck: "flow_ok c \<Longrightarrow> can_send c 0"
  by (auto simp: flow_ok_def can_send_def f_of_nat_def)

lemma never_above_maximum:
  assumes "flow_ok c" and "fc_max_window c = FFin False (of_nat b)" and "b \<le> n" and "n < 2 ^ 53"
  shows "\<not> can_send c n"
proof -
  have "f_of_nat n = FFin False (of_nat n)" using f_round_int[of "int n" False] assms(4) by (simp add: f_of_nat_def)
  then show ?thesis using assms(1-3) by (auto simp: flow_ok_def can_send_def not_less)
qed

text \<open>A timeout is at least the round trip and at most 40 seconds more; after a timeout the round trip is at most a minute.\<close>

lemma flow_timeout_bounds: "fc_rtt c \<le> flow_timeout c \<and> flow_timeout c \<le> fc_rtt c + 40 * 10 ^ 9"
  by (simp add: flow_timeout_def)

lemma rtt_after_timeout: "fc_rtt (on_timeout now c) \<le> 60 * 10 ^ 9"
  by (simp add: on_timeout_def)

end
