(* ===== verification/Network_Protocol.thy ===== *)
theory Network_Protocol
  imports Network_Rate Core_Block
begin

unbundle bit_operations_syntax

text \<open>
  The wire protocol: \<open>network/src/cpp/message.rs\<close>, \<open>version.rs\<close> and \<open>protocol.rs\<close>. A stream is the list of the bytes that
  are still to come; reading past its end is the error \<open>ProtoIo\<close>. The serialiser is an argument where a payload is made or
  read. The main result says exactly which byte strings decode, and to what.
\<close>

section \<open>Message types\<close>

datatype message_type = MtHello | MtHelloAck | MtStatus | MtGetBlocks | MtBlocks | MtGetHeaders | MtHeaders | MtNewBlock |
  MtNewTransaction | MtSubmitWork | MtWorkAccepted | MtWorkRejected | MtGetWork | MtWork | MtPexRequest | MtPexResponse |
  MtPing | MtPong | MtDisconnect

fun type_byte :: "message_type \<Rightarrow> u8" where
  "type_byte MtHello = 0x01" | "type_byte MtHelloAck = 0x02" | "type_byte MtStatus = 0x10" | "type_byte MtGetBlocks = 0x11"
| "type_byte MtBlocks = 0x12" | "type_byte MtGetHeaders = 0x13" | "type_byte MtHeaders = 0x14" | "type_byte MtNewBlock = 0x20"
| "type_byte MtNewTransaction = 0x21" | "type_byte MtSubmitWork = 0x30" | "type_byte MtWorkAccepted = 0x31"
| "type_byte MtWorkRejected = 0x32" | "type_byte MtGetWork = 0x33" | "type_byte MtWork = 0x34" | "type_byte MtPexRequest = 0xE0"
| "type_byte MtPexResponse = 0xE1" | "type_byte MtPing = 0xF0" | "type_byte MtPong = 0xF1" | "type_byte MtDisconnect = 0xFF"

definition message_type_from_u8 :: "u8 \<Rightarrow> message_type option" where
  "message_type_from_u8 v =
     (if v = 0x01 then Some MtHello else if v = 0x02 then Some MtHelloAck else if v = 0x10 then Some MtStatus
      else if v = 0x11 then Some MtGetBlocks else if v = 0x12 then Some MtBlocks else if v = 0x13 then Some MtGetHeaders
      else if v = 0x14 then Some MtHeaders else if v = 0x20 then Some MtNewBlock else if v = 0x21 then Some MtNewTransaction
      else if v = 0x30 then Some MtSubmitWork else if v = 0x31 then Some MtWorkAccepted else if v = 0x32 then Some MtWorkRejected
      else if v = 0x33 then Some MtGetWork else if v = 0x34 then Some MtWork else if v = 0xE0 then Some MtPexRequest
      else if v = 0xE1 then Some MtPexResponse else if v = 0xF0 then Some MtPing else if v = 0xF1 then Some MtPong
      else if v = 0xFF then Some MtDisconnect else None)"

datatype message_priority = D1_Critical | D2_High | D3_Normal | D4_Low | D5_Background | D6_Bulk | D7_Archive | D8_Historical

fun message_priority_of :: "message_type \<Rightarrow> message_priority" where
  "message_priority_of MtNewBlock = D1_Critical"
| "message_priority_of MtNewTransaction = D2_High"
| "message_priority_of MtStatus = D3_Normal"
| "message_priority_of MtHello = D3_Normal"
| "message_priority_of MtHelloAck = D3_Normal"
| "message_priority_of MtGetBlocks = D4_Low"
| "message_priority_of MtBlocks = D5_Background"
| "message_priority_of MtGetHeaders = D6_Bulk"
| "message_priority_of MtHeaders = D7_Archive"
| "message_priority_of MtSubmitWork = D2_High"
| "message_priority_of MtWorkAccepted = D2_High"
| "message_priority_of MtWorkRejected = D2_High"
| "message_priority_of MtGetWork = D3_Normal"
| "message_priority_of MtWork = D3_Normal"
| "message_priority_of MtPexRequest = D7_Archive"
| "message_priority_of MtPexResponse = D7_Archive"
| "message_priority_of MtPing = D8_Historical"
| "message_priority_of MtPong = D8_Historical"
| "message_priority_of MtDisconnect = D1_Critical"

fun priority_tau :: "message_priority \<Rightarrow> f64" where
  "priority_tau D1_Critical = f_zero"
| "priority_tau D2_High = f_of_rat (20 / 100)"
| "priority_tau D3_Normal = f_of_rat (41 / 100)"
| "priority_tau D4_Low = f_of_rat (68 / 100)"
| "priority_tau D5_Background = f_of_rat (98 / 100)"
| "priority_tau D6_Bulk = f_of_rat (136 / 100)"
| "priority_tau D7_Archive = f_of_rat (196 / 100)"
| "priority_tau D8_Historical = f_of_rat (272 / 100)"

definition priority_scale :: "float_ext \<Rightarrow> message_priority \<Rightarrow> f64" where
  "priority_scale F p = fm_exp F (f_mul (f_neg ETA) (priority_tau p))"

lemma type_byte_roundtrip [simp]: "message_type_from_u8 (type_byte t) = Some t"
  by (cases t) (simp_all add: message_type_from_u8_def)

lemma message_type_from_u8_Some: "message_type_from_u8 v = Some t \<longleftrightarrow> v = type_byte t"
proof
  assume "message_type_from_u8 v = Some t"
  then show "v = type_byte t" by (auto simp: message_type_from_u8_def split: if_splits)
qed simp

section \<open>Versions\<close>

definition CURRENT_PROTOCOL_VERSION :: u8 where "CURRENT_PROTOCOL_VERSION = 2"
definition MIN_SUPPORTED_VERSION :: u8 where "MIN_SUPPORTED_VERSION = 1"

datatype protocol_version = ProtoV1 | ProtoV2

definition version_from_u8 :: "u8 \<Rightarrow> protocol_version option" where
  "version_from_u8 v = (if v = 1 then Some ProtoV1 else if v = 2 then Some ProtoV2 else None)"

definition is_supported :: "u8 \<Rightarrow> bool" where
  "is_supported v \<longleftrightarrow> MIN_SUPPORTED_VERSION \<le> v \<and> v \<le> CURRENT_PROTOCOL_VERSION"

definition version_byte :: "protocol_version \<Rightarrow> u8" where
  "version_byte v = (case v of ProtoV1 \<Rightarrow> 1 | ProtoV2 \<Rightarrow> 2)"

definition is_deprecated :: "protocol_version \<Rightarrow> bool" where
  "is_deprecated v \<longleftrightarrow> version_byte v < CURRENT_PROTOCOL_VERSION"

record feature_flags =
  ff_connection_nonces :: bool
  ff_flock_state_in_status :: bool
  ff_version_negotiation :: bool
  ff_deprecation_warnings :: bool
  ff_murmuration_routing :: bool

definition features_for_version :: "u8 \<Rightarrow> feature_flags" where
  "features_for_version v =
     (let on = \<not> (v = 0 \<or> v = 1)
      in \<lparr>ff_connection_nonces = on, ff_flock_state_in_status = on, ff_version_negotiation = on, ff_deprecation_warnings = on,
          ff_murmuration_routing = on\<rparr>)"

record negotiated_version =
  nv_version :: u8
  nv_features :: feature_flags
  nv_remote_is_legacy :: bool

definition negotiate :: "u8 \<Rightarrow> u8 \<Rightarrow> negotiated_version option" where
  "negotiate local_v remote_v =
     (if \<not> is_supported remote_v then None
      else Some \<lparr>nv_version = min local_v remote_v, nv_features = features_for_version (min local_v remote_v),
        nv_remote_is_legacy = remote_v < local_v\<rparr>)"

datatype version_dispatch = V1Legacy | V2Current

definition dispatch_for_version :: "u8 \<Rightarrow> version_dispatch" where
  "dispatch_for_version v = (if v \<le> 1 then V1Legacy else V2Current)"

datatype connection_policy = AllowVersion | AllowWithWarning u8 | RejectVersion u8

definition policy_evaluate :: "u8 \<Rightarrow> connection_policy" where
  "policy_evaluate v =
     (if \<not> (MIN_SUPPORTED_VERSION \<le> v \<and> v \<le> CURRENT_PROTOCOL_VERSION) then RejectVersion v
      else if v < CURRENT_PROTOCOL_VERSION then AllowWithWarning v else AllowVersion)"

definition policy_is_allowed :: "connection_policy \<Rightarrow> bool" where
  "policy_is_allowed p = (case p of RejectVersion _ \<Rightarrow> False | _ \<Rightarrow> True)"

lemma supported_iff: "is_supported v \<longleftrightarrow> v = 1 \<or> v = 2"
proof -
  have "1 \<le> v \<and> v \<le> 2 \<longleftrightarrow> unat v = 1 \<or> unat v = 2" by (auto simp: word_le_nat_alt)
  also have "\<dots> \<longleftrightarrow> v = 1 \<or> v = 2" by (auto simp: word_unat_eq_iff)
  finally show ?thesis by (simp add: is_supported_def MIN_SUPPORTED_VERSION_def CURRENT_PROTOCOL_VERSION_def)
qed

lemma policy_allows_iff: "policy_is_allowed (policy_evaluate v) \<longleftrightarrow> is_supported v"
  by (simp add: policy_is_allowed_def policy_evaluate_def is_supported_def)

text \<open>Two supported versions agree on the same one from both sides.\<close>

lemma negotiate_symmetric:
  assumes "is_supported a" and "is_supported b"
  obtains m n where "negotiate a b = Some m" and "negotiate b a = Some n" and "nv_version m = nv_version n"
    and "nv_features m = nv_features n" and "is_supported (nv_version m)"
proof -
  from assms have "a = 1 \<or> a = 2" "b = 1 \<or> b = 2" by (simp_all add: supported_iff)
  then have "min a b = 1 \<or> min a b = 2" "min a b = min b a" by (auto simp: min_def)
  with assms that show thesis by (simp add: negotiate_def supported_iff)
qed

text \<open>A newer peer is refused like an outdated one.\<close>

lemma newer_version_refused: "negotiate 2 3 = None" "policy_evaluate 3 = RejectVersion 3"
  by (simp_all add: negotiate_def supported_iff policy_evaluate_def MIN_SUPPORTED_VERSION_def CURRENT_PROTOCOL_VERSION_def)

section \<open>Envelopes\<close>

definition MAGIC :: bytes where "MAGIC = [0x43, 0x4F, 0x49, 0x4E]"
definition VERSION :: u8 where "VERSION = 2"
definition MAX_MESSAGE_SIZE :: nat where "MAX_MESSAGE_SIZE = 4 * 1024 * 1024"

datatype protocol_error = ProtoIo | InvalidMagic bytes | InvalidVersion u8 | DeprecatedVersion u8 | InvalidMessageType u8 |
  InvalidChecksum | MessageTooLarge nat | SerializationError | DeserializationError | ProtoTimeout nat

record envelope =
  env_msg_type :: message_type
  env_payload :: bytes

definition type_limit :: "u8 \<Rightarrow> nat" where
  "type_limit t = min (max_for_type t) MAX_MESSAGE_SIZE"

definition envelope_new :: "('a \<Rightarrow> bytes option) \<Rightarrow> message_type \<Rightarrow> 'a \<Rightarrow> protocol_error + envelope" where
  "envelope_new serialize t payload =
     (case serialize payload of None \<Rightarrow> Inl SerializationError
      | Some bs \<Rightarrow> if type_limit (type_byte t) < length bs then Inl (MessageTooLarge (length bs))
          else Inr \<lparr>env_msg_type = t, env_payload = bs\<rparr>)"

definition be_u32 :: "bytes \<Rightarrow> u32" where
  "be_u32 bs = push_bit 24 (ucast (bs ! 0)) OR push_bit 16 (ucast (bs ! 1)) OR push_bit 8 (ucast (bs ! 2)) OR ucast (bs ! 3)"

definition wire :: "crypto_ext \<Rightarrow> u8 \<Rightarrow> envelope \<Rightarrow> bytes" where
  "wire X version e =
     MAGIC @ [version] @ [type_byte (env_msg_type e)] @ be_bytes (of_nat (length (env_payload e)) :: u32) @ env_payload e @
     be_bytes (blake3 X (env_payload e))"

definition encode_envelope :: "crypto_ext \<Rightarrow> envelope \<Rightarrow> bytes" where
  "encode_envelope X e = wire X VERSION e"

definition read_exact :: "nat \<Rightarrow> bytes \<Rightarrow> (protocol_error + bytes) \<times> bytes" where
  "read_exact n s = (if n \<le> length s then (Inr (take n s), drop n s) else (Inl ProtoIo, []))"

definition decode_body :: "crypto_ext \<Rightarrow> message_type \<Rightarrow> nat \<Rightarrow> bytes \<Rightarrow> (protocol_error + envelope) \<times> bytes" where
  "decode_body X t payload_len s =
     (case read_exact payload_len s of (Inl e, s) \<Rightarrow> (Inl e, s)
      | (Inr payload, s) \<Rightarrow>
          case read_exact 32 s of (Inl e, s) \<Rightarrow> (Inl e, s)
          | (Inr checksum, s) \<Rightarrow>
              if be_bytes (blake3 X payload) \<noteq> checksum then (Inl InvalidChecksum, s)
              else (Inr \<lparr>env_msg_type = t, env_payload = payload\<rparr>, s))"

definition decode_envelope :: "crypto_ext \<Rightarrow> bytes \<Rightarrow> (protocol_error + envelope) \<times> bytes" where
  "decode_envelope X s =
     (case read_exact 10 s of (Inl e, s) \<Rightarrow> (Inl e, s)
      | (Inr header, s) \<Rightarrow>
          if take 4 header \<noteq> MAGIC then (Inl (InvalidMagic (take 4 header)), s)
          else let version = header ! 4 in
          case policy_evaluate version of RejectVersion v \<Rightarrow> (Inl (InvalidVersion v), s)
          | _ \<Rightarrow>
              let msg_type_byte = header ! 5 in
              case message_type_from_u8 msg_type_byte of None \<Rightarrow> (Inl (InvalidMessageType msg_type_byte), s)
              | Some t \<Rightarrow>
                  let payload_len = unat (be_u32 (take 4 (drop 6 header))) in
                  if type_limit msg_type_byte < payload_len then (Inl (MessageTooLarge payload_len), s)
                  else decode_body X t payload_len s)"

text \<open>The reader of a split stream repeats the same steps.\<close>

definition receive_from_read_half :: "crypto_ext \<Rightarrow> bytes \<Rightarrow> (protocol_error + envelope) \<times> bytes" where
  "receive_from_read_half X s = decode_envelope X s"

definition envelope_deserialize :: "(bytes \<Rightarrow> 'a option) \<Rightarrow> envelope \<Rightarrow> protocol_error + 'a" where
  "envelope_deserialize deserialize e = (case deserialize (env_payload e) of None \<Rightarrow> Inl DeserializationError | Some a \<Rightarrow> Inr a)"

text \<open>Sending appends to the bytes the other side will read. A receive with a time limit that runs out is cancelled: what it has
  read by then, \<open>late\<close> bytes, is gone.\<close>

definition codec_send ::
  "crypto_ext \<Rightarrow> ('a \<Rightarrow> bytes option) \<Rightarrow> message_type \<Rightarrow> 'a \<Rightarrow> bytes \<Rightarrow> (protocol_error + unit) \<times> bytes" where
  "codec_send X serialize t payload out =
     (case envelope_new serialize t payload of Inl e \<Rightarrow> (Inl e, out) | Inr env \<Rightarrow> (Inr (), out @ encode_envelope X env))"

definition receive_with_timeout :: "crypto_ext \<Rightarrow> nat option \<Rightarrow> nat \<Rightarrow> bytes \<Rightarrow> (protocol_error + envelope) \<times> bytes" where
  "receive_with_timeout X late timeout_duration s =
     (case late of Some k \<Rightarrow> (Inl (ProtoTimeout timeout_duration), drop k s) | None \<Rightarrow> receive_from_read_half X s)"

section \<open>Exactly the well-formed messages decode\<close>

lemma be_bytes_u32: "be_bytes (w :: u32) = [ucast (drop_bit 24 w), ucast (drop_bit 16 w), ucast (drop_bit 8 w), ucast w]"
  by (simp add: be_bytes_def to_le_bytes_def upt_rec)

lemma be_u32_be_bytes [simp]: "be_u32 (be_bytes (w :: u32)) = w"
proof (rule bit_eqI)
  fix n :: nat
  have e: "16 + (n - 16) = n" if "16 \<le> n" using that by simp
  show "bit (be_u32 (be_bytes w)) n = bit w n"
    by (cases "n < 16"; cases "n < 24"; cases "n < 32")
       (auto simp: be_u32_def be_bytes_u32 bit_simps not_less not_le dest: bit_imp_le_length)
qed

lemma be_bytes_be_u32:
  assumes "length bs = 4"
  shows "be_bytes (be_u32 bs) = bs"
proof -
  obtain a b c d where bs: "bs = [a, b, c, d]" using assms by (auto simp: length_Suc_conv numeral_eq_Suc)
  have short: "\<not> bit x n" if "8 \<le> n" for x :: u8 and n using that bit_imp_le_length[of x n] by auto
  have "ucast (drop_bit 24 (be_u32 bs)) = a" "ucast (drop_bit 16 (be_u32 bs)) = b" "ucast (drop_bit 8 (be_u32 bs)) = c"
    "ucast (be_u32 bs) = d"
    by (auto simp: bs be_u32_def bit_simps short intro!: bit_eqI dest: bit_imp_le_length)
  then show ?thesis by (simp add: be_bytes_u32 bs)
qed

lemma type_limit_small: "type_limit t < 2 ^ 32"
  by (simp add: type_limit_def MAX_MESSAGE_SIZE_def min_def)

lemma read_exact_append [simp]: "length a = n \<Longrightarrow> read_exact n (a @ s) = (Inr a, s)"
  by (simp add: read_exact_def)

lemma read_exact_Inr: "read_exact n s = (Inr a, s') \<longleftrightarrow> s = a @ s' \<and> length a = n"
  by (auto simp: read_exact_def min_def)

lemma decode_body_Inr:
  "decode_body X t n s = (Inr e, s') \<longleftrightarrow>
     env_msg_type e = t \<and> length (env_payload e) = n \<and> s = env_payload e @ be_bytes (blake3 X (env_payload e)) @ s'"
proof
  assume "decode_body X t n s = (Inr e, s')"
  then show "env_msg_type e = t \<and> length (env_payload e) = n \<and> s = env_payload e @ be_bytes (blake3 X (env_payload e)) @ s'"
    by (auto simp: decode_body_def read_exact_Inr split: prod.splits sum.splits if_splits)
next
  assume "env_msg_type e = t \<and> length (env_payload e) = n \<and> s = env_payload e @ be_bytes (blake3 X (env_payload e)) @ s'"
  then show "decode_body X t n s = (Inr e, s')" by (auto simp: decode_body_def intro: envelope.equality)
qed

lemma decode_iff:
  "decode_envelope X s = (Inr e, s') \<longleftrightarrow>
     (\<exists>v. is_supported v \<and> s = wire X v e @ s' \<and> length (env_payload e) \<le> type_limit (type_byte (env_msg_type e)))"
proof
  assume d: "decode_envelope X s = (Inr e, s')"
  then obtain header s1 where h: "read_exact 10 s = (Inr header, s1)"
    by (auto simp: decode_envelope_def split: prod.splits sum.splits)
  then have s: "s = header @ s1" "length header = 10" by (simp_all add: read_exact_Inr)
  define v where "v = header ! 4"
  define lenbs where "lenbs = take 4 (drop 6 header)"
  have parts: "take 4 header = MAGIC" "is_supported v" "message_type_from_u8 (header ! 5) = Some (env_msg_type e)"
    "unat (be_u32 lenbs) \<le> type_limit (header ! 5)" "decode_body X (env_msg_type e) (unat (be_u32 lenbs)) s1 = (Inr e, s')"
    using d policy_allows_iff[of v]
    by (auto simp: decode_envelope_def h v_def[symmetric] lenbs_def[symmetric] Let_def policy_is_allowed_def decode_body_Inr
        split: connection_policy.splits option.splits if_splits)
  have "header = take 4 header @ [header ! 4] @ [header ! 5] @ lenbs"
    using s(2) by (simp add: lenbs_def list_eq_iff_nth_eq nth_append nth_Cons numeral_eq_Suc less_Suc_eq)
  then have hd: "header = MAGIC @ [v] @ [type_byte (env_msg_type e)] @ lenbs"
    using parts(1,3) by (simp add: v_def message_type_from_u8_Some)
  have pl: "length (env_payload e) = unat (be_u32 lenbs)" using parts(5) by (simp add: decode_body_Inr)
  have "length lenbs = 4" using s(2) by (simp add: lenbs_def)
  from be_bytes_be_u32[OF this] have "be_bytes (of_nat (length (env_payload e)) :: u32) = lenbs" by (simp add: pl)
  then have "s = wire X v e @ s'" using s(1) hd parts(5) by (simp add: wire_def decode_body_Inr)
  moreover have "length (env_payload e) \<le> type_limit (type_byte (env_msg_type e))"
    using parts(3,4) pl by (simp add: message_type_from_u8_Some)
  ultimately show "\<exists>v. is_supported v \<and> s = wire X v e @ s' \<and> length (env_payload e) \<le> type_limit (type_byte (env_msg_type e))"
    using parts(2) by blast
next
  assume "\<exists>v. is_supported v \<and> s = wire X v e @ s' \<and> length (env_payload e) \<le> type_limit (type_byte (env_msg_type e))"
  then obtain v where v: "is_supported v" and s: "s = wire X v e @ s'"
    and le: "length (env_payload e) \<le> type_limit (type_byte (env_msg_type e))" by blast
  let ?n = "length (env_payload e)"
  let ?h = "MAGIC @ [v] @ [type_byte (env_msg_type e)] @ be_bytes (of_nat ?n :: u32)"
  let ?b = "env_payload e @ be_bytes (blake3 X (env_payload e)) @ s'"
  have s2: "s = ?h @ ?b" by (simp add: s wire_def)
  have len: "length ?h = 10" by (simp add: MAGIC_def)
  have r: "read_exact 10 s = (Inr ?h, ?b)" unfolding s2 by (rule read_exact_append[OF len])
  have n: "unat (of_nat ?n :: u32) = ?n" using le type_limit_small[of "type_byte (env_msg_type e)"] by (simp add: unat_of_nat)
  have h: "take 4 ?h = MAGIC" "?h ! 4 = v" "?h ! 5 = type_byte (env_msg_type e)" "take 4 (drop 6 ?h) = be_bytes (of_nat ?n :: u32)"
    by (simp_all add: MAGIC_def)
  have "policy_is_allowed (policy_evaluate v)" using v by (simp add: policy_allows_iff)
  moreover have "decode_body X (env_msg_type e) ?n ?b = (Inr e, s')" by (simp add: decode_body_Inr)
  ultimately show "decode_envelope X s = (Inr e, s')"
    unfolding decode_envelope_def r using h n le
    by (auto simp: Let_def policy_is_allowed_def split: connection_policy.splits)
qed

text \<open>What one node sends, the other receives, and the stream goes on with the next message.\<close>

lemma send_receive:
  assumes "codec_send X serialize t a out = (Inr (), out')"
  obtains e bs where "serialize a = Some bs" and "e = \<lparr>env_msg_type = t, env_payload = bs\<rparr>" and "out' = out @ encode_envelope X e"
    and "\<And>rest. decode_envelope X (encode_envelope X e @ rest) = (Inr e, rest)"
proof -
  obtain bs where bs: "serialize a = Some bs" "length bs \<le> type_limit (type_byte t)"
    and out': "out' = out @ encode_envelope X \<lparr>env_msg_type = t, env_payload = bs\<rparr>"
    using assms by (auto simp: codec_send_def envelope_new_def split: option.splits sum.splits if_splits)
  have "is_supported VERSION" by (simp add: supported_iff VERSION_def)
  then have "decode_envelope X (encode_envelope X \<lparr>env_msg_type = t, env_payload = bs\<rparr> @ rest) =
      (Inr \<lparr>env_msg_type = t, env_payload = bs\<rparr>, rest)" for rest
    unfolding decode_iff encode_envelope_def using bs(2) by auto
  with bs(1) out' that show ?thesis by blast
qed

text \<open>A stream of messages is read back one by one.\<close>

fun receive_all :: "crypto_ext \<Rightarrow> nat \<Rightarrow> bytes \<Rightarrow> (protocol_error + envelope) list" where
  "receive_all X 0 s = []"
| "receive_all X (Suc n) s = (case decode_envelope X s of (r, s') \<Rightarrow> r # receive_all X n s')"

lemma stream_roundtrip:
  assumes "\<forall>e\<in>set es. length (env_payload e) \<le> type_limit (type_byte (env_msg_type e))"
  shows "receive_all X (length es) (concat (map (encode_envelope X) es)) = map Inr es"
  using assms
proof (induction es)
  case (Cons e es)
  have "is_supported VERSION" by (simp add: supported_iff VERSION_def)
  then have "decode_envelope X (encode_envelope X e @ concat (map (encode_envelope X) es)) = (Inr e, concat (map (encode_envelope X) es))"
    unfolding decode_iff encode_envelope_def using Cons.prems by auto
  then show ?case using Cons by simp
qed simp

text \<open>A limit that runs out in the middle of a message leaves the reader in the middle of it: what follows is not a message.\<close>

lemma timeout_loses_frame:
  assumes "take 4 (drop k s) \<noteq> MAGIC" and "k + 10 \<le> length s"
  shows "fst (decode_envelope X (snd (receive_with_timeout X (Some k) d s))) = Inl (InvalidMagic (take 4 (drop k s)))"
proof -
  have "read_exact 10 (drop k s) = (Inr (take 10 (drop k s)), drop 10 (drop k s))" using assms(2) by (simp add: read_exact_def)
  then show ?thesis using assms(1) by (simp add: receive_with_timeout_def decode_envelope_def take_take min_def)
qed

text \<open>The comment on the limits of mining messages asks for that of a block; the table gives the default.\<close>

lemma submitted_work_limit: "type_limit (type_byte MtSubmitWork) = SIZE_DEFAULT" "type_limit (type_byte MtNewBlock) = SIZE_BLOCK"
  by (simp_all add: type_limit_def max_for_type_def MAX_MESSAGE_SIZE_def SIZE_DEFAULT_def SIZE_BLOCK_def)

section \<open>Messages and their authentication\<close>

record hello_message =
  hm_version :: u8
  hm_peer_id :: "256 word"
  hm_best_height :: u64
  hm_best_hash :: hash
  hm_genesis_hash :: hash
  hm_node_type :: u8
  hm_timestamp :: u64
  hm_connection_nonce :: u64
  hm_ed25519_pubkey :: "256 word"
  hm_auth_signature :: "512 word"

text \<open>\<open>HelloAckMessage\<close> has the same fields.\<close>

type_synonym hello_ack_message = hello_message

datatype message_error = BadNodeType validation_error | ZeroPeerId | BadField validation_error | TooManyBlocks nat

definition hello_validate :: "hello_message \<Rightarrow> message_error + unit" where
  "hello_validate m =
     (case validate_node_type_byte (hm_node_type m) of Inl e \<Rightarrow> Inl (BadNodeType e)
      | Inr _ \<Rightarrow> if hm_peer_id m = 0 then Inl ZeroPeerId else Inr ())"

definition hello_challenge :: "hash \<Rightarrow> u64 \<Rightarrow> u64 \<Rightarrow> 256 word \<Rightarrow> bytes" where
  "hello_challenge genesis_hash time connection_nonce peer_id =
     hash_as_bytes genesis_hash @ to_le_bytes time @ to_le_bytes connection_nonce @ be_bytes peer_id"

definition sign_hello :: "crypto_ext \<Rightarrow> 256 word \<Rightarrow> hash \<Rightarrow> u64 \<Rightarrow> u64 \<Rightarrow> 256 word \<Rightarrow> 256 word \<times> 512 word" where
  "sign_hello X sk genesis_hash time connection_nonce peer_id =
     (verifying_key X sk, sk_sign X sk (hello_challenge genesis_hash time connection_nonce peer_id))"

datatype auth_error = Unauthenticated | InvalidPubkey | BadAuthSignature | PeerIdMismatch

definition verify_hello_auth ::
  "crypto_ext \<Rightarrow> 256 word \<Rightarrow> 512 word \<Rightarrow> hash \<Rightarrow> u64 \<Rightarrow> u64 \<Rightarrow> 256 word \<Rightarrow> auth_error + unit" where
  "verify_hello_auth X pubkey sig genesis_hash time connection_nonce peer_id =
     (if pubkey = 0 then Inl Unauthenticated
      else if \<not> vk_from_bytes_ok X pubkey then Inl InvalidPubkey
      else if \<not> vk_verify X pubkey (hello_challenge genesis_hash time connection_nonce peer_id) sig then Inl BadAuthSignature
      else if blake3 X (be_bytes pubkey) \<noteq> peer_id then Inl PeerIdMismatch
      else Inr ())"

record 'k status_message =
  st_best_height :: u64
  st_best_hash :: hash
  st_node_type :: u8
  st_timestamp :: u64
  st_flock_state :: "'k option"
  st_cumulative_work :: u128

definition status_decode_compat ::
  "(bytes \<Rightarrow> 'k status_message option) \<Rightarrow> (bytes \<Rightarrow> (u64 \<times> hash \<times> u8 \<times> u64 \<times> 'k option) option) \<Rightarrow> bytes \<Rightarrow>
     'k status_message option" where
  "status_decode_compat decode decode_legacy bs =
     (case decode bs of Some m \<Rightarrow> Some m
      | None \<Rightarrow> map_option (\<lambda>(h, bh, nt, t, fl). \<lparr>st_best_height = h, st_best_hash = bh, st_node_type = nt, st_timestamp = t,
          st_flock_state = fl, st_cumulative_work = 0\<rparr>) (decode_legacy bs))"

definition as_field :: "validation_error + unit \<Rightarrow> message_error + unit" where
  "as_field r = (case r of Inl e \<Rightarrow> Inl (BadField e) | Inr _ \<Rightarrow> Inr ())"

definition status_validate :: "'k status_message \<Rightarrow> message_error + unit" where
  "status_validate m = as_field (validate_node_type_byte (st_node_type m))"

definition get_blocks_validate :: "u64 \<Rightarrow> u64 \<Rightarrow> message_error + unit" where
  "get_blocks_validate from_height to_height = as_field (validate_get_blocks_range from_height to_height)"

definition blocks_validate :: "block list \<Rightarrow> message_error + unit" where
  "blocks_validate blocks = (if unat MAX_BLOCKS_PER_REQUEST < length blocks then Inl (TooManyBlocks (length blocks)) else Inr ())"

definition get_headers_validate :: "u32 \<Rightarrow> message_error + unit" where
  "get_headers_validate max_headers = as_field (validate_get_headers max_headers)"

definition reason_validate :: "rust_str \<Rightarrow> message_error + unit" where
  "reason_validate reason = as_field (validate_reason_string reason)"

text \<open>A node authenticates to whoever verifies, and the name it claims is bound to its key.\<close>

lemma honest_hello_authenticates:
  assumes "verifying_key X sk \<noteq> 0" and "vk_from_bytes_ok X (verifying_key X sk)"
    and "\<And>msg. vk_verify X (verifying_key X sk) msg (sk_sign X sk msg)"
    and "i = blake3 X (be_bytes (verifying_key X sk))"
  shows "(case sign_hello X sk g t n i of (pk, sig) \<Rightarrow> verify_hello_auth X pk sig g t n i) = Inr ()"
  using assms by (simp add: sign_hello_def verify_hello_auth_def)

lemma authenticated_peer_id: "verify_hello_auth X pk sig g t n i = Inr () \<Longrightarrow> i = blake3 X (be_bytes pk)"
  by (simp add: verify_hello_auth_def split: if_splits)

lemma hello_challenge_inject:
  "hello_challenge g t n i = hello_challenge g' t' n' i' \<longleftrightarrow> g = g' \<and> t = t' \<and> n = n' \<and> i = i'"
proof -
  have "length (hash_as_bytes x) = 32" for x by (simp add: hash_as_bytes_def)
  then show ?thesis by (auto simp: hello_challenge_def be_bytes_inject)
qed

end
