(* ===== verification/Network_Session.thy ===== *)
theory Network_Session
  imports Network_Protocol Consensus_Commit
begin

text \<open>
  The session handshake and the encrypted frames of \<open>network/src/cpp/encryption.rs\<close>. X25519, ChaCha20-Poly1305 and the keyed
  mode of BLAKE3 are the argument \<open>S\<close>; a stream is the list of the bytes still to come, and what a side writes is returned.
\<close>

record session_ext =
  x25519_public :: "256 word \<Rightarrow> 256 word"
  x25519_shared :: "256 word \<Rightarrow> 256 word \<Rightarrow> 256 word"
  derive_key :: "rust_str \<Rightarrow> bytes \<Rightarrow> 256 word"
  aead_encrypt :: "256 word \<Rightarrow> bytes \<Rightarrow> bytes \<Rightarrow> bytes option"
  aead_decrypt :: "256 word \<Rightarrow> bytes \<Rightarrow> bytes \<Rightarrow> bytes option"

datatype encryption_error = EncIo | InvalidEd25519Pubkey | SignatureFailed | FrameTooLarge nat | DecryptionFailed | EncTimeout

section \<open>The token\<close>

definition CPP_AUTH_DOMAIN :: bytes where
  "CPP_AUTH_DOMAIN = map (\<lambda>c. of_nat (of_char c)) ''CPP_AUTH_V1''"

record auth_token =
  at_ephemeral :: "256 word"
  at_ed25519 :: "256 word"
  at_signature :: "512 word"

definition token_message :: "256 word \<Rightarrow> 256 word \<Rightarrow> bytes" where
  "token_message ephemeral key = be_bytes ephemeral @ be_bytes key @ CPP_AUTH_DOMAIN"

definition auth_token_new :: "crypto_ext \<Rightarrow> 256 word \<Rightarrow> 256 word \<Rightarrow> auth_token" where
  "auth_token_new X ephemeral_pub sk =
     \<lparr>at_ephemeral = ephemeral_pub, at_ed25519 = verifying_key X sk,
      at_signature = sk_sign X sk (token_message ephemeral_pub (verifying_key X sk))\<rparr>"

definition token_to_bytes :: "auth_token \<Rightarrow> bytes" where
  "token_to_bytes t = be_bytes (at_ephemeral t) @ be_bytes (at_ed25519 t) @ be_bytes (at_signature t)"

definition token_from_bytes :: "bytes \<Rightarrow> auth_token" where
  "token_from_bytes bs =
     \<lparr>at_ephemeral = from_le_bytes (rev (take 32 bs)), at_ed25519 = from_le_bytes (rev (take 32 (drop 32 bs))),
      at_signature = from_le_bytes (rev (take 64 (drop 64 bs)))\<rparr>"

definition token_verify :: "crypto_ext \<Rightarrow> auth_token \<Rightarrow> encryption_error + unit" where
  "token_verify X t =
     (if \<not> vk_from_bytes_ok X (at_ed25519 t) then Inl InvalidEd25519Pubkey
      else if \<not> vk_verify X (at_ed25519 t) (token_message (at_ephemeral t) (at_ed25519 t)) (at_signature t) then Inl SignatureFailed
      else Inr ())"

section \<open>Session keys\<close>

text \<open>\<open>String::from_utf8_lossy\<close>: every longest invalid piece becomes one replacement character.\<close>

definition cont_byte :: "u8 \<Rightarrow> bool" where
  "cont_byte b \<longleftrightarrow> 0x80 \<le> unat b \<and> unat b \<le> 0xBF"

definition second_ok :: "u8 \<Rightarrow> u8 \<Rightarrow> bool" where
  "second_ok b c =
     (let n = unat b in
      if n = 0xE0 then 0xA0 \<le> unat c \<and> unat c \<le> 0xBF
      else if n = 0xED then 0x80 \<le> unat c \<and> unat c \<le> 0x9F
      else if n = 0xF0 then 0x90 \<le> unat c \<and> unat c \<le> 0xBF
      else if n = 0xF4 then 0x80 \<le> unat c \<and> unat c \<le> 0x8F
      else cont_byte c)"

definition char_width :: "u8 \<Rightarrow> nat" where
  "char_width b = (let n = unat b in if n < 0x80 then 1 else if 0xC2 \<le> n \<and> n \<le> 0xDF then 2 else if 0xE0 \<le> n \<and> n \<le> 0xEF then 3
     else if 0xF0 \<le> n \<and> n \<le> 0xF4 then 4 else 0)"

text \<open>The next character, or none when the piece is invalid, and how many bytes it takes.\<close>

definition next_char :: "u8 \<Rightarrow> bytes \<Rightarrow> nat option \<times> nat" where
  "next_char b rest =
     (case char_width b of
        0 \<Rightarrow> (None, 1)
      | Suc 0 \<Rightarrow> (Some (unat b), 1)
      | Suc (Suc 0) \<Rightarrow>
          (case rest of c # _ \<Rightarrow> if cont_byte c then (Some ((unat b - 0xC0) * 64 + (unat c - 0x80)), 2) else (None, 1) | [] \<Rightarrow> (None, 1))
      | Suc (Suc (Suc 0)) \<Rightarrow>
          (case rest of c # rest' \<Rightarrow>
             if \<not> second_ok b c then (None, 1)
             else (case rest' of d # _ \<Rightarrow>
               if cont_byte d then (Some ((unat b - 0xE0) * 4096 + (unat c - 0x80) * 64 + (unat d - 0x80)), 3) else (None, 2)
               | [] \<Rightarrow> (None, 2))
           | [] \<Rightarrow> (None, 1))
      | _ \<Rightarrow>
          (case rest of c # rest' \<Rightarrow>
             if \<not> second_ok b c then (None, 1)
             else (case rest' of d # rest'' \<Rightarrow>
               if \<not> cont_byte d then (None, 2)
               else (case rest'' of e # _ \<Rightarrow>
                 if cont_byte e then (Some ((unat b - 0xF0) * 262144 + (unat c - 0x80) * 4096 + (unat d - 0x80) * 64 + (unat e - 0x80)), 4)
                 else (None, 3)
                 | [] \<Rightarrow> (None, 3))
               | [] \<Rightarrow> (None, 2))
           | [] \<Rightarrow> (None, 1)))"

function from_utf8_lossy :: "bytes \<Rightarrow> rust_str" where
  "from_utf8_lossy [] = []"
| "from_utf8_lossy (b # rest) =
     (case next_char b rest of (c, n) \<Rightarrow> (case c of Some u \<Rightarrow> u | None \<Rightarrow> 0xFFFD) # from_utf8_lossy (drop (n - 1) rest))"
  by pat_completeness auto

termination
  by (relation "measure length") auto

definition key_context :: "string \<Rightarrow> 256 word \<Rightarrow> 256 word \<Rightarrow> rust_str" where
  "key_context label init_ephem_pub resp_ephem_pub =
     from_utf8_lossy (map (\<lambda>c. of_nat (of_char c)) label @ be_bytes init_ephem_pub @ be_bytes resp_ephem_pub)"

definition derive_session_keys :: "session_ext \<Rightarrow> 256 word \<Rightarrow> 256 word \<Rightarrow> 256 word \<Rightarrow> 256 word \<times> 256 word" where
  "derive_session_keys S dh_secret init_ephem_pub resp_ephem_pub =
     (derive_key S (key_context ''CPP_INIT_SEND'' init_ephem_pub resp_ephem_pub) (be_bytes dh_secret),
      derive_key S (key_context ''CPP_RESP_SEND'' init_ephem_pub resp_ephem_pub) (be_bytes dh_secret))"

section \<open>The handshake\<close>

record session_cipher =
  sc_key :: "256 word"
  sc_counter :: u64

definition cipher_new :: "256 word \<Rightarrow> session_cipher" where
  "cipher_new k = \<lparr>sc_key = k, sc_counter = 0\<rparr>"

record handshake_result =
  hr_send :: session_cipher
  hr_recv :: session_cipher
  hr_remote_pubkey :: "256 word"
  hr_peer_id :: "256 word"

definition perform_handshake_initiator ::
  "crypto_ext \<Rightarrow> session_ext \<Rightarrow> 256 word \<Rightarrow> 256 word \<Rightarrow> bytes \<Rightarrow> (encryption_error + handshake_result) \<times> bytes \<times> bytes" where
  "perform_handshake_initiator X S sk ephemeral s =
     (let ephemeral_pub = x25519_public S ephemeral; out = token_to_bytes (auth_token_new X ephemeral_pub sk) in
      case read_exact 128 s of (Inl _, s) \<Rightarrow> (Inl EncIo, s, out)
      | (Inr bs, s) \<Rightarrow>
          let t = token_from_bytes bs in
          case token_verify X t of Inl e \<Rightarrow> (Inl e, s, out)
          | Inr _ \<Rightarrow>
              let (init_key, resp_key) = derive_session_keys S (x25519_shared S ephemeral (at_ephemeral t)) ephemeral_pub (at_ephemeral t)
              in (Inr \<lparr>hr_send = cipher_new init_key, hr_recv = cipher_new resp_key, hr_remote_pubkey = at_ed25519 t,
                    hr_peer_id = blake3 X (be_bytes (at_ed25519 t))\<rparr>, s, out))"

definition perform_handshake_responder ::
  "crypto_ext \<Rightarrow> session_ext \<Rightarrow> 256 word \<Rightarrow> 256 word \<Rightarrow> bytes \<Rightarrow> (encryption_error + handshake_result) \<times> bytes \<times> bytes" where
  "perform_handshake_responder X S sk ephemeral s =
     (case read_exact 128 s of (Inl _, s) \<Rightarrow> (Inl EncIo, s, [])
      | (Inr bs, s) \<Rightarrow>
          let t = token_from_bytes bs in
          case token_verify X t of Inl e \<Rightarrow> (Inl e, s, [])
          | Inr _ \<Rightarrow>
              let ephemeral_pub = x25519_public S ephemeral; out = token_to_bytes (auth_token_new X ephemeral_pub sk);
                  (init_key, resp_key) = derive_session_keys S (x25519_shared S ephemeral (at_ephemeral t)) (at_ephemeral t) ephemeral_pub
              in (Inr \<lparr>hr_send = cipher_new resp_key, hr_recv = cipher_new init_key, hr_remote_pubkey = at_ed25519 t,
                    hr_peer_id = blake3 X (be_bytes (at_ed25519 t))\<rparr>, s, out))"

section \<open>Frames\<close>

definition make_nonce :: "u64 \<Rightarrow> bytes" where
  "make_nonce counter = to_le_bytes counter @ [0, 0, 0, 0]"

definition encrypt_frame :: "session_ext \<Rightarrow> session_cipher \<Rightarrow> bytes \<Rightarrow> (encryption_error + bytes) \<times> session_cipher" where
  "encrypt_frame S c plaintext =
     (let c' = c\<lparr>sc_counter := sc_counter c + 1\<rparr> in
      case aead_encrypt S (sc_key c) (make_nonce (sc_counter c)) plaintext of None \<Rightarrow> (Inl DecryptionFailed, c')
      | Some ciphertext \<Rightarrow> (Inr (to_le_bytes (sc_counter c) @ to_le_bytes (of_nat (length ciphertext) :: u32) @ ciphertext), c'))"

definition decrypt_frame :: "session_ext \<Rightarrow> session_cipher \<Rightarrow> u64 \<Rightarrow> bytes \<Rightarrow> (encryption_error + bytes) \<times> session_cipher" where
  "decrypt_frame S c counter ciphertext =
     ((case aead_decrypt S (sc_key c) (make_nonce counter) ciphertext of None \<Rightarrow> Inl DecryptionFailed | Some p \<Rightarrow> Inr p), c)"

definition MAX_ENCRYPTED_FRAME :: nat where "MAX_ENCRYPTED_FRAME = 4 * 1024 * 1024 + 64"

definition read_encrypted_frame :: "session_ext \<Rightarrow> session_cipher \<Rightarrow> bytes \<Rightarrow> (encryption_error + bytes) \<times> session_cipher \<times> bytes" where
  "read_encrypted_frame S c s =
     (case read_exact 12 s of (Inl _, s) \<Rightarrow> (Inl EncIo, c, s)
      | (Inr header, s) \<Rightarrow>
          let counter = from_le_bytes (take 8 header) :: u64; n = unat (from_le_bytes (drop 8 header) :: u32) in
          if MAX_ENCRYPTED_FRAME < n then (Inl (FrameTooLarge n), c, s)
          else case read_exact n s of (Inl _, s) \<Rightarrow> (Inl EncIo, c, s)
          | (Inr ciphertext, s) \<Rightarrow> case decrypt_frame S c counter ciphertext of (r, c) \<Rightarrow> (r, c, s))"

definition write_encrypted_frame :: "session_ext \<Rightarrow> session_cipher \<Rightarrow> bytes \<Rightarrow> bytes \<Rightarrow> (encryption_error + unit) \<times> session_cipher \<times> bytes" where
  "write_encrypted_frame S c plaintext out =
     (case encrypt_frame S c plaintext of (Inl e, c) \<Rightarrow> (Inl e, c, out) | (Inr frame, c) \<Rightarrow> (Inr (), c, out @ frame))"

section \<open>What the handshake gives\<close>

lemma from_be_be [simp]:
  "from_le_bytes (rev (be_bytes (w :: 256 word))) = w" "from_le_bytes (rev (be_bytes (v :: 512 word))) = v"
  by (simp_all add: be_bytes_def from_le_bytes_to_le_bytes)

lemma token_roundtrip [simp]: "token_from_bytes (token_to_bytes t) = t"
  by (simp add: token_from_bytes_def token_to_bytes_def)

lemma length_token [simp]: "length (token_to_bytes t) = 128"
  by (simp add: token_to_bytes_def)

text \<open>Two honest sides end with the same two keys, each the other's way round, and each knows the other by its signing key.\<close>

definition signs_well :: "crypto_ext \<Rightarrow> 256 word \<Rightarrow> bool" where
  "signs_well X sk \<longleftrightarrow> vk_from_bytes_ok X (verifying_key X sk) \<and> (\<forall>m. vk_verify X (verifying_key X sk) m (sk_sign X sk m))"

lemma honest_token_verifies: "signs_well X sk \<Longrightarrow> token_verify X (auth_token_new X e sk) = Inr ()"
  by (simp add: signs_well_def token_verify_def auth_token_new_def)

lemma handshake_agrees:
  assumes "signs_well X a" and "signs_well X b" and "x25519_shared S x (x25519_public S y) = x25519_shared S y (x25519_public S x)"
  defines "from_a \<equiv> token_to_bytes (auth_token_new X (x25519_public S x) a)"
    and "from_b \<equiv> token_to_bytes (auth_token_new X (x25519_public S y) b)"
  shows "\<exists>i r. perform_handshake_initiator X S a x (from_b @ s) = (Inr i, s, from_a) \<and>
    perform_handshake_responder X S b y (from_a @ t) = (Inr r, t, from_b) \<and>
    hr_send i = hr_recv r \<and> hr_recv i = hr_send r \<and>
    hr_peer_id i = blake3 X (be_bytes (verifying_key X b)) \<and> hr_peer_id r = blake3 X (be_bytes (verifying_key X a))"
  using assms(3) honest_token_verifies[OF assms(1), of "x25519_public S x"] honest_token_verifies[OF assms(2), of "x25519_public S y"]
  by (simp add: perform_handshake_initiator_def perform_handshake_responder_def from_a_def from_b_def Let_def
      derive_session_keys_def auth_token_new_def)

text \<open>But the token proves nothing about the moment: recorded once, it authenticates its owner to every responder ever after.\<close>

lemma token_replays:
  assumes "perform_handshake_responder X S sk e (tok @ s) = (Inr a, s, out)" and "length tok = 128"
  shows "\<exists>b s'' out'. perform_handshake_responder X S' sk' e' (tok @ s') = (Inr b, s'', out') \<and> hr_peer_id b = hr_peer_id a"
  using assms by (auto simp: perform_handshake_responder_def Let_def split: sum.splits prod.splits)

section \<open>What the frames give\<close>

text \<open>A frame is read back, and the frames of a session carry the counters 0, 1, 2, and so on, which do not repeat in
  \<open>2^64\<close> frames.\<close>

definition aead_sound :: "session_ext \<Rightarrow> bool" where
  "aead_sound S \<longleftrightarrow> (\<forall>k n p c. aead_encrypt S k n p = Some c \<longrightarrow> aead_decrypt S k n c = Some p)"

lemma from_le_to_le_64 [simp]: "from_le_bytes (to_le_bytes (w :: u64)) = w"
  by (rule from_le_bytes_to_le_bytes) simp

lemma from_le_to_le_32 [simp]: "from_le_bytes (to_le_bytes (w :: u32)) = w"
  by (rule from_le_bytes_to_le_bytes) simp

lemma read_frame_Inr:
  "read_encrypted_frame S d s = (Inr p, d', s') \<longleftrightarrow> d' = d \<and>
     (\<exists>h ct. s = h @ ct @ s' \<and> length h = 12 \<and> length ct = unat (from_le_bytes (drop 8 h) :: u32) \<and> length ct \<le> MAX_ENCRYPTED_FRAME \<and>
        aead_decrypt S (sc_key d) (make_nonce (from_le_bytes (take 8 h))) ct = Some p)"
  (is "?L \<longleftrightarrow> ?R")
proof
  assume l: ?L
  then obtain h s1 where h: "read_exact 12 s = (Inr h, s1)"
    by (auto simp: read_encrypted_frame_def split: sum.splits prod.splits)
  from l obtain ct where ct: "read_exact (unat (from_le_bytes (drop 8 h) :: u32)) s1 = (Inr ct, s')"
    "unat (from_le_bytes (drop 8 h) :: u32) \<le> MAX_ENCRYPTED_FRAME" "d' = d"
    "aead_decrypt S (sc_key d) (make_nonce (from_le_bytes (take 8 h))) ct = Some p"
    by (auto simp: read_encrypted_frame_def h Let_def decrypt_frame_def split: sum.splits prod.splits if_splits option.splits)
  from h ct(1) have "s = h @ ct @ s'" "length h = 12" "length ct = unat (from_le_bytes (drop 8 h) :: u32)"
    by (simp_all only: read_exact_Inr append.assoc)
  then show ?R using ct(2-4) by (intro conjI exI[where x = h] exI[where x = ct]) simp_all
next
  assume ?R
  then obtain h ct where d: "d' = d" and s: "s = h @ ct @ s'" and h: "length h = 12"
    and n: "length ct = unat (from_le_bytes (drop 8 h) :: u32)" and le: "length ct \<le> MAX_ENCRYPTED_FRAME"
    and p: "aead_decrypt S (sc_key d) (make_nonce (from_le_bytes (take 8 h))) ct = Some p" by blast
  show ?L using le by (simp add: read_encrypted_frame_def s read_exact_append[OF h] n[symmetric] p d decrypt_frame_def)
qed

lemma frame_roundtrip:
  assumes "aead_sound S" and "encrypt_frame S c p = (Inr frame, c')" and "sc_key d = sc_key c"
    and "length frame \<le> MAX_ENCRYPTED_FRAME + 12"
  shows "read_encrypted_frame S d (frame @ s) = (Inr p, d, s)" and "sc_counter c' = sc_counter c + 1"
proof -
  obtain ct where ct: "aead_encrypt S (sc_key c) (make_nonce (sc_counter c)) p = Some ct"
    and frame: "frame = to_le_bytes (sc_counter c) @ to_le_bytes (of_nat (length ct) :: u32) @ ct"
    and c': "c' = c\<lparr>sc_counter := sc_counter c + 1\<rparr>"
    using assms(2) by (auto simp: encrypt_frame_def Let_def split: option.splits)
  show "sc_counter c' = sc_counter c + 1" by (simp add: c')
  have len: "length ct \<le> MAX_ENCRYPTED_FRAME" using assms(4) by (simp add: frame)
  then have n: "unat (of_nat (length ct) :: u32) = length ct" by (simp add: unat_of_nat MAX_ENCRYPTED_FRAME_def)
  let ?h = "to_le_bytes (sc_counter c) @ to_le_bytes (of_nat (length ct) :: u32)"
  have d: "aead_decrypt S (sc_key d) (make_nonce (sc_counter c)) ct = Some p" using assms(1,3) ct by (simp add: aead_sound_def)
  have f: "frame @ s = ?h @ ct @ s" by (simp add: frame)
  have h: "take 8 ?h = to_le_bytes (sc_counter c)" "drop 8 ?h = to_le_bytes (of_nat (length ct) :: u32)" "length ?h = 12" by simp_all
  show "read_encrypted_frame S d (frame @ s) = (Inr p, d, s)"
    unfolding read_frame_Inr f
    by (intro conjI exI[where x = ?h] exI[where x = ct]) (simp_all only: h n from_le_to_le_64 from_le_to_le_32 d len)
qed

fun frame_counters :: "nat \<Rightarrow> session_cipher \<Rightarrow> u64 list" where
  "frame_counters 0 c = []"
| "frame_counters (Suc n) c = sc_counter c # frame_counters n (c\<lparr>sc_counter := sc_counter c + 1\<rparr>)"

lemma frame_counters_eq: "frame_counters n c = map (\<lambda>i. sc_counter c + of_nat i) [0..<n]"
proof (induction n arbitrary: c)
  case (Suc n)
  have "[0..<Suc n] = 0 # map Suc [0..<n]" by (simp add: upt_conv_Cons map_Suc_upt del: upt_Suc)
  then show ?case by (simp add: Suc algebra_simps comp_def del: upt_Suc)
qed simp

lemma counters_distinct:
  assumes "n \<le> 2 ^ 64"
  shows "distinct (frame_counters n c)"
proof -
  have "inj_on (\<lambda>i. sc_counter c + of_nat i) {0..<n}"
  proof (rule inj_onI)
    fix i j assume "i \<in> {0..<n}" "j \<in> {0..<n}" and e: "sc_counter c + of_nat i = sc_counter c + of_nat j"
    then have "i < 2 ^ 64" "j < 2 ^ 64" using assms by auto
    moreover have "(of_nat i :: u64) = of_nat j" using e by simp
    then have "unat (of_nat i :: u64) = unat (of_nat j :: u64)" by (rule arg_cong)
    ultimately show "i = j" by (simp add: unat_of_nat)
  qed
  then show ?thesis by (simp add: frame_counters_eq distinct_map)
qed

text \<open>The reader never looks at its own counter: a frame that was read once is read again.\<close>

lemma frame_replays:
  assumes "read_encrypted_frame S d (frame @ s) = (Inr p, d', s)"
  shows "d' = d" and "read_encrypted_frame S d' (frame @ s') = (Inr p, d', s')"
proof -
  from assms obtain h ct where d: "d' = d" and fr: "frame @ s = h @ ct @ s" and h: "length h = 12"
    "length ct = unat (from_le_bytes (drop 8 h) :: u32)" "length ct \<le> MAX_ENCRYPTED_FRAME"
    "aead_decrypt S (sc_key d) (make_nonce (from_le_bytes (take 8 h))) ct = Some p"
    unfolding read_frame_Inr by blast
  from fr have "frame = h @ ct" unfolding append.assoc[symmetric] by (simp only: append_same_eq)
  then have "frame @ s' = h @ ct @ s'" by simp
  with d h show "d' = d" "read_encrypted_frame S d' (frame @ s') = (Inr p, d', s')" unfolding read_frame_Inr by blast+
qed

text \<open>Different ephemeral keys can have one key context: what is not UTF-8 is replaced.\<close>

lemma lossy_contexts_collide: "from_utf8_lossy (0x80 # bs) = from_utf8_lossy (0x81 # bs)"
  by (simp add: next_char_def char_width_def)

end
