(* ===== verification/Network_Peer_Store.thy ===== *)
theory Network_Peer_Store
  imports Network_Rate "HOL-Library.Multiset"
begin

text \<open>
  What is known about peers: \<open>network/src/peer_store.rs\<close>, \<open>peer_scoring.rs\<close> and \<open>pex.rs\<close>. The store is an association
  list from addresses to records; its file is not modelled. Times of the store are seconds of the system clock, the rate
  limit of the peer exchange measures nanoseconds. Displaying and parsing of socket addresses are the arguments
  \<open>display\<close> and \<open>parse\<close>.
\<close>

section \<open>The store\<close>

definition MAX_VETTED :: nat where "MAX_VETTED = 64"
definition MAX_UNVETTED :: nat where "MAX_UNVETTED = 256"
definition MAX_PER_SUBNET :: nat where "MAX_PER_SUBNET = 8"
definition BAN_THRESHOLD :: i32 where "BAN_THRESHOLD = 100"
definition BAN_DURATION_SECS :: u64 where "BAN_DURATION_SECS = 86400"

datatype peer_bucket = Vetted | Unvetted

datatype peer_source = ManualPeer | PeerExchange | DnsSeed | HardcodedSeed | Inbound

datatype peer_store_error = StoreFull | SubnetFull

record stored_peer =
  sp_address :: string
  sp_public_key :: "256 word option"
  sp_peer_id :: "string option"
  sp_last_seen :: u64
  sp_last_connected :: "u64 option"
  sp_connection_attempts :: u32
  sp_successful_connections :: u32
  sp_bucket :: peer_bucket
  sp_ip_group :: string
  sp_ban_score :: i32
  sp_ban_expires :: "u64 option"
  sp_reputation_score :: f64
  sp_source :: peer_source

type_synonym peer_store = "(string \<times> stored_peer) list"

fun split_at :: "char \<Rightarrow> string \<Rightarrow> string list" where
  "split_at c [] = [[]]"
| "split_at c (x # xs) = (if x = c then [] # split_at c xs
     else case split_at c xs of [] \<Rightarrow> [[x]] | w # ws \<Rightarrow> (x # w) # ws)"

definition ip_group_from_addr :: "string \<Rightarrow> string" where
  "ip_group_from_addr addr =
     (case take 2 (split_at (CHR ''.'') (takeWhile (\<lambda>c. c \<noteq> CHR '':'') addr)) of
        [] \<Rightarrow> '''' | [a] \<Rightarrow> a | a # b # _ \<Rightarrow> a @ ''.'' @ b)"

fun evict_loop :: "(string \<times> stored_peer) list \<Rightarrow> nat \<Rightarrow> peer_store \<Rightarrow> peer_store" where
  "evict_loop [] to_remove ps = ps"
| "evict_loop ((addr, p) # rest) to_remove ps =
     (if to_remove = 0 then ps
      else if sp_source p \<noteq> ManualPeer then evict_loop rest (to_remove - 1) (AList.delete addr ps)
      else evict_loop rest to_remove ps)"

definition evict_bucket :: "peer_bucket \<Rightarrow> nat \<Rightarrow> peer_store \<Rightarrow> peer_store" where
  "evict_bucket bucket max_n ps =
     (let in_bucket = filter (\<lambda>(k, p). sp_bucket p = bucket) ps in
      if length in_bucket \<le> max_n then ps
      else evict_loop (sort_key (\<lambda>(k, p). unat (sp_last_seen p)) in_bucket) (length in_bucket - max_n) ps)"

definition enforce_limits :: "peer_store \<Rightarrow> peer_store" where
  "enforce_limits ps = evict_bucket Unvetted MAX_UNVETTED (evict_bucket Vetted MAX_VETTED ps)"

definition upsert_peer :: "stored_peer \<Rightarrow> peer_store \<Rightarrow> (peer_store_error + unit) \<times> peer_store" where
  "upsert_peer peer ps =
     (if map_of ps (sp_address peer) = None \<and> sp_bucket peer = Unvetted \<and>
         MAX_PER_SUBNET \<le> length (filter (\<lambda>(k, p). sp_ip_group p = sp_ip_group peer) ps)
      then (Inl SubnetFull, ps)
      else (Inr (), enforce_limits (AList.update (sp_address peer) peer ps)))"

definition is_banned_inner :: "stored_peer \<Rightarrow> u64 \<Rightarrow> bool" where
  "is_banned_inner p now = (case sp_ban_expires p of Some expires \<Rightarrow> now < expires | None \<Rightarrow> False)"

definition vetted_first :: "stored_peer \<Rightarrow> nat" where
  "vetted_first p = (case sp_bucket p of Vetted \<Rightarrow> 0 | Unvetted \<Rightarrow> 1)"

text \<open>A stable sort by bucket after one by time is the sort by bucket, then time, of the code.\<close>

definition get_peers_to_try :: "u64 \<Rightarrow> nat \<Rightarrow> peer_store \<Rightarrow> stored_peer list" where
  "get_peers_to_try now n ps =
     take n (sort_key vetted_first (sort_key (\<lambda>p. - int (unat (sp_last_seen p)))
       (filter (\<lambda>p. \<not> is_banned_inner p now) (map snd ps))))"

definition get_vetted_peers :: "u64 \<Rightarrow> nat \<Rightarrow> peer_store \<Rightarrow> stored_peer list" where
  "get_vetted_peers now n ps = take n (filter (\<lambda>p. sp_bucket p = Vetted \<and> \<not> is_banned_inner p now) (map snd ps))"

definition on_peer :: "string \<Rightarrow> (stored_peer \<Rightarrow> stored_peer) \<Rightarrow> peer_store \<Rightarrow> peer_store" where
  "on_peer addr f ps = map (\<lambda>(k, p). (k, if k = addr then f p else p)) ps"

definition mark_connected :: "u64 \<Rightarrow> string \<Rightarrow> peer_store \<Rightarrow> peer_store" where
  "mark_connected now addr = on_peer addr (\<lambda>p. p\<lparr>sp_last_connected := Some now, sp_last_seen := now,
     sp_successful_connections := sp_successful_connections p + 1\<rparr>)"

definition promote_to_vetted :: "string \<Rightarrow> peer_store \<Rightarrow> peer_store" where
  "promote_to_vetted addr = on_peer addr (\<lambda>p. p\<lparr>sp_bucket := Vetted\<rparr>)"

definition add_ban_score :: "u64 \<Rightarrow> i32 \<Rightarrow> stored_peer \<Rightarrow> stored_peer" where
  "add_ban_score now delta p =
     (let p' = p\<lparr>sp_ban_score := sp_ban_score p + delta\<rparr> in
      if sint BAN_THRESHOLD \<le> sint (sp_ban_score p') then p'\<lparr>sp_ban_expires := Some (now + BAN_DURATION_SECS)\<rparr> else p')"

definition apply_ban_score :: "u64 \<Rightarrow> string \<Rightarrow> i32 \<Rightarrow> peer_store \<Rightarrow> bool \<times> peer_store" where
  "apply_ban_score now addr delta ps =
     (case map_of ps addr of None \<Rightarrow> (False, ps)
      | Some p \<Rightarrow> (sint BAN_THRESHOLD \<le> sint (sp_ban_score p + delta), on_peer addr (add_ban_score now delta) ps))"

definition apply_reputation :: "string \<Rightarrow> f64 \<Rightarrow> peer_store \<Rightarrow> peer_store" where
  "apply_reputation addr delta = on_peer addr (\<lambda>p. p\<lparr>sp_reputation_score := f_add (sp_reputation_score p) delta\<rparr>)"

definition is_banned :: "u64 \<Rightarrow> string \<Rightarrow> peer_store \<Rightarrow> bool" where
  "is_banned now addr ps = (case map_of ps addr of None \<Rightarrow> False | Some p \<Rightarrow> is_banned_inner p now)"

definition ban_over :: "u64 \<Rightarrow> stored_peer \<Rightarrow> bool" where
  "ban_over now p = (case sp_ban_expires p of None \<Rightarrow> False | Some expires \<Rightarrow> expires \<le> now)"

definition cleanup_expired_bans :: "u64 \<Rightarrow> peer_store \<Rightarrow> nat \<times> peer_store" where
  "cleanup_expired_bans now ps =
     (length (filter (\<lambda>(k, p). ban_over now p) ps),
      map (\<lambda>(k, p). (k, if ban_over now p then p\<lparr>sp_ban_expires := None, sp_ban_score := 0\<rparr> else p)) ps)"

definition peer_counts :: "peer_store \<Rightarrow> nat \<times> nat" where
  "peer_counts ps = (let vetted = length (filter (\<lambda>(k, p). sp_bucket p = Vetted) ps) in (vetted, length ps - vetted))"

definition update_public_key :: "(256 word \<Rightarrow> string) \<Rightarrow> string \<Rightarrow> 256 word \<Rightarrow> peer_store \<Rightarrow> peer_store" where
  "update_public_key id_of addr pubkey = on_peer addr (\<lambda>p. p\<lparr>sp_public_key := Some pubkey, sp_peer_id := Some (id_of pubkey)\<rparr>)"

definition remove_stored :: "string \<Rightarrow> peer_store \<Rightarrow> peer_store" where
  "remove_stored addr ps = AList.delete addr ps"

definition new_stored_peer :: "u64 \<Rightarrow> string \<Rightarrow> peer_source \<Rightarrow> stored_peer" where
  "new_stored_peer now addr_str src =
     \<lparr>sp_address = addr_str, sp_public_key = None, sp_peer_id = None, sp_last_seen = now, sp_last_connected = None,
      sp_connection_attempts = 0, sp_successful_connections = 0, sp_bucket = Unvetted, sp_ip_group = ip_group_from_addr addr_str,
      sp_ban_score = 0, sp_ban_expires = None, sp_reputation_score = f_zero, sp_source = src\<rparr>"

section \<open>Scoring\<close>

definition report_bad :: "u64 \<Rightarrow> string \<Rightarrow> i32 \<Rightarrow> peer_store \<Rightarrow> bool \<times> peer_store" where
  "report_bad now addr penalty ps = apply_ban_score now addr penalty ps"

definition report_good :: "string \<Rightarrow> f64 \<Rightarrow> peer_store \<Rightarrow> peer_store" where
  "report_good addr reward ps =
     (let ps' = apply_reputation addr reward ps in
      case map_of ps' addr of None \<Rightarrow> ps'
      | Some p \<Rightarrow> if f_le (f_of_rat 5) (sp_reputation_score p) \<and> sp_bucket p = Unvetted then promote_to_vetted addr ps' else ps')"

definition connection_priority :: "u64 \<Rightarrow> stored_peer \<Rightarrow> f64" where
  "connection_priority now p =
     (let staleness_hours = f_div (f_of_word (saturating_sub_word now (sp_last_seen p))) (f_of_rat 3600);
          score = f_sub (sp_reputation_score p) (f_mul staleness_hours (f_of_rat (1 / 10)))
      in if 0 < sp_connection_attempts p
         then f_add score (f_mul (f_div (f_of_word (sp_successful_connections p)) (f_of_word (sp_connection_attempts p))) (f_of_rat 5))
         else score)"

section \<open>Peer exchange\<close>

record pex_config =
  px_request_interval :: nat
  px_max_peers_per_response :: nat
  px_min_interval :: nat
  px_target_outbound :: nat
  px_max_total :: nat

definition pex_config_default :: pex_config where
  "pex_config_default = \<lparr>px_request_interval = 30 * 10 ^ 9, px_max_peers_per_response = 25, px_min_interval = 30 * 10 ^ 9,
     px_target_outbound = 25, px_max_total = 100\<rparr>"

record pex_peer_info =
  pi_address :: string
  pi_public_key :: "256 word option"
  pi_last_seen :: u64

record pex_reactor =
  pr_peer_store :: peer_store
  pr_last_request :: "(string \<times> nat) list"
  pr_config :: pex_config

definition pex_reactor_new :: "peer_store \<Rightarrow> pex_config \<Rightarrow> pex_reactor" where
  "pex_reactor_new ps config = \<lparr>pr_peer_store = ps, pr_last_request = [], pr_config = config\<rparr>"

definition rate_limited :: "nat \<Rightarrow> string \<Rightarrow> pex_reactor \<Rightarrow> bool" where
  "rate_limited now key r = (case map_of (pr_last_request r) key of None \<Rightarrow> False
     | Some last_time \<Rightarrow> now - last_time < px_min_interval (pr_config r))"

definition handle_pex_request :: "nat \<Rightarrow> u64 \<Rightarrow> string \<Rightarrow> pex_reactor \<Rightarrow> pex_peer_info list option \<times> pex_reactor" where
  "handle_pex_request now secs key r =
     (if rate_limited now key r then (None, r)
      else let n = px_max_peers_per_response (pr_config r);
               peers = map (\<lambda>p. \<lparr>pi_address = sp_address p, pi_public_key = sp_public_key p, pi_last_seen = sp_last_seen p\<rparr>)
                 (take n (filter (\<lambda>p. sp_address p \<noteq> key) (get_vetted_peers secs (n * 2) (pr_peer_store r))))
      in (if peers = [] then None else Some peers, r\<lparr>pr_last_request := AList.update key now (pr_last_request r)\<rparr>))"

definition pex_stored :: "pex_peer_info \<Rightarrow> stored_peer" where
  "pex_stored i =
     \<lparr>sp_address = pi_address i, sp_public_key = pi_public_key i, sp_peer_id = None, sp_last_seen = pi_last_seen i,
      sp_last_connected = None, sp_connection_attempts = 0, sp_successful_connections = 0, sp_bucket = Unvetted,
      sp_ip_group = ip_group_from_addr (pi_address i), sp_ban_score = 0, sp_ban_expires = None, sp_reputation_score = f_zero,
      sp_source = PeerExchange\<rparr>"

definition learn_peer :: "(string \<Rightarrow> socket_addr option) \<Rightarrow> u64 \<Rightarrow> socket_addr \<Rightarrow> pex_peer_info \<Rightarrow> peer_store \<Rightarrow> peer_store" where
  "learn_peer parse secs sender i ps =
     (if parse (pi_address i) = Some sender then ps
      else if is_banned secs (pi_address i) ps then ps
      else if (case map_of ps (pi_address i) of None \<Rightarrow> False | Some existing \<Rightarrow> pi_last_seen i < sp_last_seen existing) then ps
      else snd (upsert_peer (pex_stored i) ps))"

definition handle_pex_response ::
  "(string \<Rightarrow> socket_addr option) \<Rightarrow> u64 \<Rightarrow> socket_addr \<Rightarrow> pex_peer_info list \<Rightarrow> pex_reactor \<Rightarrow> pex_reactor" where
  "handle_pex_response parse secs sender peers r = r\<lparr>pr_peer_store := fold (learn_peer parse secs sender) peers (pr_peer_store r)\<rparr>"

section \<open>Limits and eviction\<close>

definition in_bucket :: "peer_bucket \<Rightarrow> peer_store \<Rightarrow> nat" where
  "in_bucket b ps = length (filter (\<lambda>(k, p). sp_bucket p = b) ps)"

definition manual_in :: "peer_bucket \<Rightarrow> peer_store \<Rightarrow> nat" where
  "manual_in b ps = length (filter (\<lambda>(k, p). sp_bucket p = b \<and> sp_source p = ManualPeer) ps)"

text \<open>The records are filed under their addresses, each once.\<close>

definition peers_typed :: "peer_store \<Rightarrow> bool" where
  "peers_typed ps \<longleftrightarrow> distinct (map fst ps) \<and> (\<forall>(k, p)\<in>set ps. sp_address p = k)"

lemma delete_filter: "AList.delete k ps = filter (\<lambda>e. fst e \<noteq> k) ps"
  by (simp add: AList.delete_eq case_prod_unfold eq_commute[of k])

lemma length_delete:
  "distinct (map fst ps) \<Longrightarrow> (k, p) \<in> set ps \<Longrightarrow> P (k, p) \<Longrightarrow> length (filter P (AList.delete k ps)) + 1 = length (filter P ps)"
proof (induction ps)
  case (Cons e ps)
  show ?case
  proof (cases "e = (k, p)")
    case True
    then have "k \<notin> fst ` set ps" using Cons.prems(1) by auto
    then have "AList.delete k ps = ps" by (simp add: delete_notin_dom dom_map_of_conv_image_fst)
    then show ?thesis using True Cons.prems(3) by simp
  next
    case False
    then have "(k, p) \<in> set ps" using Cons.prems(2) by simp
    moreover from this have "fst e \<noteq> k" using Cons.prems(1) False by (cases e) (force dest: map_of_is_SomeI)
    ultimately show ?thesis using Cons by (cases e) auto
  qed
qed simp

lemma evict_loop_subset: "set (evict_loop xs n ps) \<subseteq> set ps"
  by (induction xs n ps rule: evict_loop.induct) (auto simp: delete_filter)

lemma evict_loop_distinct: "distinct (map fst ps) \<Longrightarrow> distinct (map fst (evict_loop xs n ps))"
  by (induction xs n ps rule: evict_loop.induct) (auto simp: distinct_delete)

text \<open>A manual peer is never evicted.\<close>

lemma evict_loop_manual:
  "distinct (map fst ps) \<Longrightarrow> set xs \<subseteq> set ps \<Longrightarrow> distinct (map fst xs) \<Longrightarrow> (k, p) \<in> set ps \<Longrightarrow> sp_source p = ManualPeer \<Longrightarrow>
   (k, p) \<in> set (evict_loop xs n ps)"
proof (induction xs n ps rule: evict_loop.induct)
  case (2 addr q rest n ps)
  show ?case
  proof (cases "n = 0 \<or> sp_source q = ManualPeer")
    case True
    then show ?thesis using 2 by auto
  next
    case False
    have "map_of ps k = Some p" using 2(3,6) by simp
    moreover have "map_of ps addr = Some q" using 2(3,4) by simp
    ultimately have "addr \<noteq> k" using 2(7) False by auto
    then have "(k, p) \<in> set (AList.delete addr ps)" using 2(6) by (auto simp: delete_filter)
    moreover have "set rest \<subseteq> set (AList.delete addr ps)" using 2(4,5) by (auto simp: delete_filter image_iff)
    ultimately show ?thesis using 2 False by (simp add: distinct_delete)
  qed
qed simp

text \<open>The loop removes as many records as it is asked to, if so many are not manual.\<close>

lemma evict_loop_count:
  assumes "distinct (map fst ps)" and "set xs \<subseteq> set ps" and "distinct (map fst xs)" and "\<forall>(k, p)\<in>set xs. sp_bucket p = b"
  shows "in_bucket b (evict_loop xs n ps) + min n (length (filter (\<lambda>(k, p). sp_source p \<noteq> ManualPeer) xs)) = in_bucket b ps"
  using assms
proof (induction xs n ps rule: evict_loop.induct)
  case (2 addr q rest n ps)
  show ?case
  proof (cases "n = 0 \<or> sp_source q = ManualPeer")
    case True
    then show ?thesis using 2 by auto
  next
    case False
    have "set rest \<subseteq> set (AList.delete addr ps)" using 2(4,5) by (auto simp: delete_filter image_iff)
    moreover have "in_bucket b (AList.delete addr ps) + 1 = in_bucket b ps"
      unfolding in_bucket_def by (rule length_delete[of ps addr q]) (use 2 in auto)
    ultimately show ?thesis using 2 False by (auto simp: distinct_delete)
  qed
qed simp

lemma evict_bucket_facts:
  assumes "distinct (map fst ps)"
  shows "set (evict_bucket b n ps) \<subseteq> set ps" and "distinct (map fst (evict_bucket b n ps))"
    and "in_bucket b (evict_bucket b n ps) \<le> n + manual_in b ps"
    and "(k, p) \<in> set ps \<Longrightarrow> sp_source p = ManualPeer \<Longrightarrow> (k, p) \<in> set (evict_bucket b n ps)"
proof -
  let ?f = "filter (\<lambda>(k, p). sp_bucket p = b) ps" and ?key = "\<lambda>(k :: string, p). unat (sp_last_seen p)"
  let ?s = "sort_key ?key ?f"
  have d: "distinct (map fst ?f)" using assms by (simp add: distinct_map_filter)
  have ms: "mset (map fst ?s) = mset (map fst ?f)" by (simp only: mset_map mset_sort)
  have ds: "distinct (map fst ?s)" using d mset_eq_imp_distinct_iff[OF ms] by blast
  have sub: "set ?s \<subseteq> set ps" and bs: "\<forall>(k, p)\<in>set ?s. sp_bucket p = b" by auto
  have lens: "length (filter (\<lambda>(k, p). sp_source p \<noteq> ManualPeer) ?s) = length (filter (\<lambda>(k, p). sp_source p \<noteq> ManualPeer) ?f)"
    (is "length (filter ?Q _) = _")
  proof -
    have "size (filter_mset ?Q (mset ?s)) = size (filter_mset ?Q (mset ?f))" by (simp only: mset_sort)
    then show ?thesis by (simp only: mset_filter[symmetric] size_mset)
  qed
  have "length ?f = length (filter (\<lambda>(k, p). sp_source p \<noteq> ManualPeer) ?f) + manual_in b ps"
    unfolding manual_in_def by (induction ps) auto
  then have nonman: "length (filter (\<lambda>(k, p). sp_source p \<noteq> ManualPeer) ?s) + manual_in b ps = in_bucket b ps"
    by (simp add: lens in_bucket_def)
  show "set (evict_bucket b n ps) \<subseteq> set ps"
    by (auto simp: evict_bucket_def Let_def dest: subsetD[OF evict_loop_subset])
  show "distinct (map fst (evict_bucket b n ps))"
    using assms evict_loop_distinct by (simp add: evict_bucket_def Let_def)
  show "(k, p) \<in> set ps \<Longrightarrow> sp_source p = ManualPeer \<Longrightarrow> (k, p) \<in> set (evict_bucket b n ps)"
    using evict_loop_manual[OF assms sub ds] by (simp add: evict_bucket_def Let_def)
  show "in_bucket b (evict_bucket b n ps) \<le> n + manual_in b ps"
    using evict_loop_count[OF assms sub ds bs, of "in_bucket b ps - n"] nonman
    by (auto simp: evict_bucket_def Let_def in_bucket_def)
qed

lemma manual_in_subset:
  assumes "distinct (map fst ps)" and "distinct (map fst qs)" and "set qs \<subseteq> set ps"
  shows "manual_in b qs \<le> manual_in b ps" and "in_bucket b qs \<le> in_bucket b ps"
proof -
  have d: "distinct qs" "distinct ps" using assms(1,2) by (simp_all add: distinct_map)
  have "length (filter P qs) \<le> length (filter P ps)" for P
  proof -
    have "card (set (filter P qs)) \<le> card (set (filter P ps))" using assms(3) by (intro card_mono) auto
    then show ?thesis using d by (simp only: distinct_card distinct_filter)
  qed
  then show "manual_in b qs \<le> manual_in b ps" "in_bucket b qs \<le> in_bucket b ps" by (simp_all add: manual_in_def in_bucket_def)
qed

lemma enforce_limits_facts:
  assumes "distinct (map fst ps)"
  shows "set (enforce_limits ps) \<subseteq> set ps" and "distinct (map fst (enforce_limits ps))"
    and "(k, p) \<in> set ps \<Longrightarrow> sp_source p = ManualPeer \<Longrightarrow> (k, p) \<in> set (enforce_limits ps)"
    and "in_bucket Vetted (enforce_limits ps) \<le> MAX_VETTED + manual_in Vetted ps"
    and "in_bucket Unvetted (enforce_limits ps) \<le> MAX_UNVETTED + manual_in Unvetted ps"
proof -
  note v = evict_bucket_facts[OF assms, where b = Vetted and n = MAX_VETTED]
  note u = evict_bucket_facts[OF v(2), where b = Unvetted and n = MAX_UNVETTED]
  show "set (enforce_limits ps) \<subseteq> set ps" using u(1) v(1) by (auto simp: enforce_limits_def)
  show "distinct (map fst (enforce_limits ps))" using u(2) by (simp add: enforce_limits_def)
  show "(k, p) \<in> set ps \<Longrightarrow> sp_source p = ManualPeer \<Longrightarrow> (k, p) \<in> set (enforce_limits ps)"
    using u(4) v(4) by (simp add: enforce_limits_def)
  show "in_bucket Vetted (enforce_limits ps) \<le> MAX_VETTED + manual_in Vetted ps"
    using manual_in_subset(2)[OF v(2) u(2) u(1), of Vetted] v(3) by (simp add: enforce_limits_def)
  show "in_bucket Unvetted (enforce_limits ps) \<le> MAX_UNVETTED + manual_in Unvetted ps"
    using manual_in_subset(1)[OF assms v(2) v(1), of Unvetted] u(3) by (simp add: enforce_limits_def)
qed

lemma upsert_typed:
  assumes "peers_typed ps"
  shows "peers_typed (snd (upsert_peer p ps))"
proof (cases "fst (upsert_peer p ps) = Inr ()")
  case True
  let ?ps = "AList.update (sp_address p) p ps"
  have d: "distinct (map fst ?ps)" using assms by (simp add: peers_typed_def distinct_update)
  have "\<forall>(k, q)\<in>set ?ps. sp_address q = k" using assms by (induction ps) (auto simp: peers_typed_def split: if_splits)
  then have "peers_typed (enforce_limits ?ps)"
    using enforce_limits_facts(1,2)[OF d] by (auto simp: peers_typed_def)
  then show ?thesis using True by (auto simp: upsert_peer_def split: if_splits)
qed (use assms in \<open>auto simp: upsert_peer_def split: if_splits\<close>)

section \<open>Bans\<close>

lemma map_of_on_peer: "map_of (on_peer addr f ps) k = (case map_of ps k of None \<Rightarrow> None | Some p \<Rightarrow> Some (if k = addr then f p else p))"
  by (induction ps) (auto simp: on_peer_def)

text \<open>A score of 100 bans for a day, and a banned peer is never offered for a connection.\<close>

lemma banned_for_a_day:
  assumes "apply_ban_score now addr delta ps = (True, ps')" and "now \<le> t" and "unat now + 86400 < 2 ^ 64"
  shows "is_banned t addr ps' \<longleftrightarrow> unat t < unat now + 86400"
proof -
  have "unat (now + BAN_DURATION_SECS) = unat now + 86400"
    using assms(3) by (subst unat_add_small) (simp_all add: BAN_DURATION_SECS_def)
  then show ?thesis using assms(1)
    by (auto simp: apply_ban_score_def is_banned_def map_of_on_peer add_ban_score_def Let_def is_banned_inner_def word_less_nat_alt
        split: option.splits)
qed

lemma peers_to_try_not_banned: "p \<in> set (get_peers_to_try now n ps) \<Longrightarrow> \<not> is_banned_inner p now \<and> p \<in> snd ` set ps"
  unfolding get_peers_to_try_def by (auto dest!: in_set_takeD)

text \<open>The score outlives the ban unless it is cleaned up: then any penalty, and any delta at all that leaves 100, bans again.\<close>

lemma expired_ban_leaves_score:
  assumes "map_of ps addr = Some p" and "100 \<le> sint (sp_ban_score p)"
  shows "fst (apply_ban_score now addr 0 ps)"
  using assms by (simp add: apply_ban_score_def BAN_THRESHOLD_def)

section \<open>Peer exchange\<close>

lemma learn_typed: "peers_typed ps \<Longrightarrow> peers_typed (learn_peer parse secs sender i ps)"
  by (simp add: learn_peer_def upsert_typed)

lemma response_typed: "peers_typed (pr_peer_store r) \<Longrightarrow> peers_typed (pr_peer_store (handle_pex_response parse secs sender is r))"
  unfolding handle_pex_response_def by (induction "is" arbitrary: r) (auto simp: learn_typed intro: fold_invariant)

text \<open>Two answered requests of one peer are at least the minimal interval apart.\<close>

lemma request_interval:
  assumes "handle_pex_request now secs key r = (Some out, r')" and "handle_pex_request now' secs' key r' = (Some out', r'')"
  shows "now + px_min_interval (pr_config r) \<le> now' \<or> px_min_interval (pr_config r) = 0"
  using assms by (auto simp: handle_pex_request_def rate_limited_def Let_def update_conv' split: if_splits)

text \<open>Any peer can overwrite what is known of another one: a record with a recent enough date replaces a vetted, manual,
  well reputed peer by an unvetted stranger with a key of the sender's choice.\<close>

lemma pex_overwrites:
  assumes "peers_typed ps" and "map_of ps a = Some p" and "\<not> is_banned_inner p secs" and "sp_last_seen p \<le> pi_last_seen i"
    and "pi_address i = a" and "parse a \<noteq> Some sender" and "map_of (learn_peer parse secs sender i ps) a = Some q"
  shows "q = pex_stored i"
proof -
  let ?ps = "AList.update a (pex_stored i) ps"
  have d: "distinct (map fst ?ps)" using assms(1) by (simp add: peers_typed_def distinct_update)
  have "learn_peer parse secs sender i ps = enforce_limits ?ps"
    using assms(2-6) by (auto simp: learn_peer_def is_banned_def upsert_peer_def pex_stored_def)
  then have "(a, q) \<in> set ?ps" using assms(7) enforce_limits_facts(1)[OF d] map_of_SomeD by fastforce
  then have "map_of ?ps a = Some q" using d by simp
  then show ?thesis by (simp add: update_conv')
qed

end
