(* ===== verification/Network_Router.thy ===== *)
theory Network_Router
  imports Network_Peer_Store Tokenomics_Metrics Tokenomics_Pools
begin

text \<open>
  Whom to talk to: \<open>network/src/cpp/router.rs\<close> and \<open>network/src/cpp/flock.rs\<close>. The map of peers is an association list in
  the order in which it is walked. Square root and exponential are fields of \<open>float_ext\<close>; the golden stream may not
  return, which is \<open>None\<close>.
\<close>

section \<open>Sorting\<close>

text \<open>A stable sort by a comparison, as an insertion sort: \<open>lt y x\<close> says that \<open>y\<close> goes before \<open>x\<close>.\<close>

fun insert_after :: "('a \<Rightarrow> 'a \<Rightarrow> bool) \<Rightarrow> 'a \<Rightarrow> 'a list \<Rightarrow> 'a list" where
  "insert_after lt x [] = [x]"
| "insert_after lt x (y # ys) = (if lt y x then y # insert_after lt x ys else x # y # ys)"

definition sort_stable :: "('a \<Rightarrow> 'a \<Rightarrow> bool) \<Rightarrow> 'a list \<Rightarrow> 'a list" where
  "sort_stable lt xs = foldr (insert_after lt) xs []"

text \<open>\<open>f64::total_cmp\<close>: the negative zero before the positive one, NaN last.\<close>

definition f_total_lt :: "f64 \<Rightarrow> f64 \<Rightarrow> bool" where
  "f_total_lt x y \<longleftrightarrow> x \<noteq> FNaN \<and> (y = FNaN \<or> f_lt x y \<or> x = FFin True 0 \<and> y = FFin False 0)"

lemma set_insert_after [simp]: "set (insert_after lt x ys) = insert x (set ys)"
  by (induction ys) auto

lemma set_sort_stable [simp]: "set (sort_stable lt xs) = set xs"
  by (induction xs) (simp_all add: sort_stable_def)

lemma distinct_insert_after: "x \<notin> set ys \<Longrightarrow> distinct ys \<Longrightarrow> distinct (insert_after lt x ys)"
  by (induction ys) auto

lemma distinct_sort_stable: "distinct xs \<Longrightarrow> distinct (sort_stable lt xs)"
proof (induction xs)
  case (Cons x xs)
  have "x \<notin> set (sort_stable lt xs)" using Cons.prems by simp
  then show ?case using Cons distinct_insert_after[of x "sort_stable lt xs" lt] by (simp add: sort_stable_def)
qed (simp add: sort_stable_def)

lemma length_insert_after [simp]: "length (insert_after lt x ys) = Suc (length ys)"
  by (induction ys) auto

lemma length_sort_stable [simp]: "length (sort_stable lt xs) = length xs"
  by (induction xs) (simp_all add: sort_stable_def)

text \<open>When the comparison is transitive and total up to ties, nothing in the sorted list goes before what precedes it.\<close>

lemma sorted_insert_after:
  assumes tr: "\<And>a b c. lt a b \<Longrightarrow> \<not> lt c b \<Longrightarrow> lt a c" and asym: "\<And>a b. lt a b \<Longrightarrow> \<not> lt b a"
    and neg: "\<And>a b c. \<not> lt b a \<Longrightarrow> \<not> lt c b \<Longrightarrow> \<not> lt c a"
    and "sorted_wrt (\<lambda>a b. \<not> lt b a) ys"
  shows "sorted_wrt (\<lambda>a b. \<not> lt b a) (insert_after lt x ys)"
  using assms(4)
proof (induction ys)
  case (Cons y ys)
  show ?case
  proof (cases "lt y x")
    case True
    then show ?thesis using Cons asym by auto
  next
    case False
    have "\<not> lt z x" if "z \<in> set ys" for z using neg[of y x z] False that Cons.prems by auto
    then show ?thesis using Cons.prems False by auto
  qed
qed simp

lemma sorted_sort_stable:
  assumes "\<And>a b c. lt a b \<Longrightarrow> \<not> lt c b \<Longrightarrow> lt a c" and "\<And>a b. lt a b \<Longrightarrow> \<not> lt b a"
    and "\<And>a b c. \<not> lt b a \<Longrightarrow> \<not> lt c b \<Longrightarrow> \<not> lt c a"
  shows "sorted_wrt (\<lambda>a b. \<not> lt b a) (sort_stable lt xs)"
  by (induction xs) (simp_all add: sort_stable_def sorted_insert_after[OF assms])

lemma f_total_lt_asym: "f_total_lt a b \<Longrightarrow> \<not> f_total_lt b a"
  by (cases a; cases b) (auto simp: f_total_lt_def)

lemma f_total_lt_neg: "\<not> f_total_lt b a \<Longrightarrow> \<not> f_total_lt c b \<Longrightarrow> \<not> f_total_lt c a"
  by (cases a; cases b; cases c) (auto simp: f_total_lt_def split: if_splits)

lemma f_total_lt_trans: "f_total_lt a b \<Longrightarrow> \<not> f_total_lt c b \<Longrightarrow> f_total_lt a c"
  using f_total_lt_neg[of a c b] f_total_lt_asym[of a b] f_total_lt_neg by blast

section \<open>The router\<close>

type_synonym cpp_peer_id = "256 word"

record router_peer =
  rp_id :: cpp_peer_id
  rp_best_height :: u64
  rp_node_type :: u8
  rp_quality :: f64
  rp_last_seen :: u64
  rp_flock_phase :: u8
  rp_flock_epoch :: u64
  rp_velocity :: f64

type_synonym router = "(cpp_peer_id \<times> router_peer) list"

definition router_add_peer :: "router_peer \<Rightarrow> router \<Rightarrow> router" where
  "router_add_peer p r = AList.update (rp_id p) p r"

definition router_remove_peer :: "cpp_peer_id \<Rightarrow> router \<Rightarrow> router" where
  "router_remove_peer i r = AList.delete i r"

definition router_get_peer :: "router \<Rightarrow> cpp_peer_id \<Rightarrow> router_peer option" where
  "router_get_peer r i = map_of r i"

definition f_to_usize :: "f64 \<Rightarrow> nat" where
  "f_to_usize x = unat (f_to_word x :: u64)"

definition equilibrium_fanout :: "float_ext \<Rightarrow> f64 \<Rightarrow> nat" where
  "equilibrium_fanout F n = f_to_usize (f_ceil (f_mul (fm_sqrt F n) ETA))"

definition select_broadcast_peers :: "float_ext \<Rightarrow> router \<Rightarrow> cpp_peer_id list" where
  "select_broadcast_peers F r =
     (if r = [] then []
      else map rp_id (take (equilibrium_fanout F (f_of_nat (length r)))
        (sort_stable (\<lambda>a b. f_total_lt (rp_quality b) (rp_quality a)) (map snd r))))"

definition sync_key :: "u64 \<Rightarrow> router_peer \<Rightarrow> u64" where
  "sync_key required_height p = f_to_word (f_mul (f_mul (f_of_word (rp_best_height p - required_height)) ETA) (f_of_rat 1000))"

definition select_sync_peer :: "u64 \<Rightarrow> router \<Rightarrow> cpp_peer_id option" where
  "select_sync_peer required_height r =
     (let candidates = filter (\<lambda>p. required_height \<le> rp_best_height p) (map snd r) in
      if candidates = [] then None
      else Some (rp_id (sort_key (\<lambda>p. unat (sync_key required_height p)) candidates ! 0)))"

definition sync_score :: "u64 \<Rightarrow> router_peer \<Rightarrow> f64" where
  "sync_score required_height p = f_sub (rp_quality p) (f_mul (f_of_word (rp_best_height p - required_height)) ETA)"

definition select_sync_peers :: "float_ext \<Rightarrow> u64 \<Rightarrow> nat \<Rightarrow> router \<Rightarrow> cpp_peer_id list" where
  "select_sync_peers F required_height max_peers r =
     (let candidates = filter (\<lambda>p. required_height \<le> rp_best_height p) (map snd r) in
      if candidates = [] then []
      else map rp_id (take (min (equilibrium_fanout F (f_of_nat (length candidates))) max_peers)
        (sort_stable (\<lambda>a b. f_total_lt (sync_score required_height b) (sync_score required_height a)) candidates)))"

definition select_peers_by_type :: "u8 \<Rightarrow> router \<Rightarrow> cpp_peer_id list" where
  "select_peers_by_type node_type r = map rp_id (filter (\<lambda>p. rp_node_type p = node_type) (map snd r))"

definition calculate_chunk_size :: "u64 \<Rightarrow> u64 \<Rightarrow> u64 \<Rightarrow> u64" where
  "calculate_chunk_size height_delta base_chunk max_chunk =
     (let adaptive = f_mul (f_of_word base_chunk) (f_add f_one (f_div (f_mul (f_of_word height_delta) ETA) (f_of_rat 10)))
      in f_to_word (f_ceil (f_min adaptive (f_of_word max_chunk))))"

definition on_router_peer :: "cpp_peer_id \<Rightarrow> (router_peer \<Rightarrow> router_peer) \<Rightarrow> router \<Rightarrow> router" where
  "on_router_peer i f r = map (\<lambda>(k, p). (k, if k = i then f p else p)) r"

definition new_quality :: "bool \<Rightarrow> f64 \<Rightarrow> f64" where
  "new_quality success q =
     (if success then f_min (f_add q (f_of_rat (1 / 10))) f_one
      else f_max (f_mul q (f_sub f_one ETA)) (f_of_rat (1 / 10)))"

definition update_peer_quality :: "cpp_peer_id \<Rightarrow> bool \<Rightarrow> router \<Rightarrow> router" where
  "update_peer_quality i success = on_router_peer i (\<lambda>p. p\<lparr>rp_quality := new_quality success (rp_quality p)\<rparr>)"

definition median_height :: "u64 list \<Rightarrow> u64" where
  "median_height heights = (if heights = [] then 0 else sort heights ! (length heights div 2))"

definition height_variance :: "float_ext \<Rightarrow> f64 \<Rightarrow> u64 list \<Rightarrow> f64" where
  "height_variance F mean heights =
     f_div (foldl f_add f_zero (map (\<lambda>h. fm_powi F (f_sub (f_of_word h) mean) 2) heights)) (f_of_nat (length heights))"

definition mean_height :: "u64 list \<Rightarrow> f64" where
  "mean_height heights = f_div (f_of_word (sum_list heights)) (f_of_nat (length heights))"

definition swarm_cohesion :: "float_ext \<Rightarrow> u64 list \<Rightarrow> f64" where
  "swarm_cohesion F heights =
     (let mean = mean_height heights;
          normalized_var = f_div (fm_sqrt F (height_variance F mean heights)) (f_mul (f_max mean f_one) ETA)
      in f_div f_one (f_add f_one normalized_var))"

definition calculate_cohesion :: "float_ext \<Rightarrow> u64 list \<Rightarrow> f64" where
  "calculate_cohesion F heights = (if heights = [] then f_one else swarm_cohesion F heights)"

definition router_separation_score :: "float_ext \<Rightarrow> u64 \<Rightarrow> u64 \<Rightarrow> u64 \<Rightarrow> f64" where
  "router_separation_score F peer_height our_height swarm_center =
     (let delta = f_of_sword (abs_word (peer_height - our_height)); threshold = f_mul (f_of_word swarm_center) ETA in
      if f_lt threshold delta
      then f_mul (f_neg (fm_exp F (f_div (f_sub delta threshold) (f_max threshold f_one)))) PHI_INV else f_zero)"

definition router_alignment_score :: "router_peer \<Rightarrow> u8 \<Rightarrow> f64" where
  "router_alignment_score p our_phase =
     (let phase_match = (if rp_flock_phase p = our_phase then f_of_rat (3 / 10) else f_zero);
          vel_factor = f_div f_one (f_add f_one (f_abs (rp_velocity p)))
      in f_mul ETA (f_add phase_match (f_mul vel_factor (f_of_rat (2 / 10)))))"

definition router_cohesion_score :: "u64 \<Rightarrow> u64 \<Rightarrow> f64 \<Rightarrow> f64" where
  "router_cohesion_score peer_height swarm_center cohesion =
     (let d = f_abs (f_sub (f_of_word peer_height) (f_of_word swarm_center))
      in f_div (f_mul (f_sub f_one PHI_INV) cohesion) (f_add f_one (f_mul d ETA)))"

definition flock_fanout :: "float_ext \<Rightarrow> nat \<Rightarrow> f64 \<Rightarrow> nat" where
  "flock_fanout F n cohesion =
     f_to_usize (f_ceil (f_mul (f_mul (fm_sqrt F (f_of_nat n)) ETA) (f_add f_one (f_mul (f_sub f_one cohesion) PHI_INV))))"

definition select_broadcast_peers_flock :: "float_ext \<Rightarrow> u64 \<Rightarrow> u8 \<Rightarrow> router \<Rightarrow> cpp_peer_id list" where
  "select_broadcast_peers_flock F our_height our_phase r =
     (if r = [] then []
      else let heights = map (rp_best_height \<circ> snd) r; swarm_center = median_height heights;
               cohesion = calculate_cohesion F heights;
               scored = map (\<lambda>(i, p). (p, f_add (f_add (f_add (router_separation_score F (rp_best_height p) our_height swarm_center)
                 (router_alignment_score p our_phase)) (router_cohesion_score (rp_best_height p) swarm_center cohesion))
                 (f_mul (rp_quality p) (f_of_rat (1 / 2))))) r
           in map (rp_id \<circ> fst) (take (flock_fanout F (length r) cohesion) (sort_stable (\<lambda>a b. f_lt (snd b) (snd a)) scored)))"

record flock_state =
  fl_seed :: "256 word"
  fl_epoch :: u64
  fl_phase :: u8
  fl_swarm_height :: u64
  fl_cohesion :: f64

record flock_compact =
  fk_seed_prefix :: bytes
  fk_epoch :: u64
  fk_phase :: u8
  fk_swarm_height :: u64

definition update_peer_flock :: "cpp_peer_id \<Rightarrow> flock_compact \<Rightarrow> u64 \<Rightarrow> router \<Rightarrow> router" where
  "update_peer_flock i flock new_height = on_router_peer i (\<lambda>p.
     let height_delta = f_sub (f_of_word new_height) (f_of_word (rp_best_height p)) in
     p\<lparr>rp_velocity := f_add (f_mul (rp_velocity p) (f_sub f_one ETA)) (f_mul height_delta ETA),
       rp_flock_phase := fk_phase flock, rp_flock_epoch := fk_epoch flock, rp_best_height := new_height\<rparr>)"

section \<open>The flock\<close>

definition FLOCK_PHASES :: u64 where "FLOCK_PHASES = 8"

definition compute_phase :: "crypto_ext \<Rightarrow> cpp_peer_id \<Rightarrow> 256 word \<Rightarrow> u8" where
  "compute_phase X peer_id flock_seed = (be_bytes (blake3 X (be_bytes peer_id @ be_bytes flock_seed)) ! 0) mod ucast FLOCK_PHASES"

definition flock_new :: "crypto_ext \<Rightarrow> hash \<Rightarrow> u64 \<Rightarrow> cpp_peer_id \<Rightarrow> flock_state" where
  "flock_new X genesis height peer_id =
     (let epoch = height div GOLDEN_EPOCH_BLOCKS; flock_seed = blake3 X (hash_as_bytes genesis @ to_le_bytes epoch)
      in \<lparr>fl_seed = flock_seed, fl_epoch = epoch, fl_phase = compute_phase X peer_id flock_seed, fl_swarm_height = height,
          fl_cohesion = f_one\<rparr>)"

definition is_broadcast_phase :: "flock_state \<Rightarrow> u8 \<Rightarrow> bool" where
  "is_broadcast_phase s current_phase \<longleftrightarrow> fl_phase s = current_phase"

definition broadcast_delay_ms :: "flock_state \<Rightarrow> u64" where
  "broadcast_delay_ms s = f_to_word (f_mul (f_of_rat 1000) (golden_fractional (ucast (fl_phase s))))"

definition update_from_peers :: "float_ext \<Rightarrow> u64 list \<Rightarrow> flock_state \<Rightarrow> flock_state" where
  "update_from_peers F peer_heights s =
     (if peer_heights = [] then s
      else let sorted_heights = sort peer_heights
           in s\<lparr>fl_swarm_height := sorted_heights ! (length sorted_heights div 2), fl_cohesion := swarm_cohesion F sorted_heights\<rparr>)"

record peer_observation =
  po_height :: u64
  po_quality :: f64
  po_flock_phase :: u8
  po_last_seen :: u64
  po_velocity :: f64

record murmuration =
  mu_generator :: golden_generator
  mu_state :: flock_state
  mu_peers :: "(cpp_peer_id \<times> peer_observation) list"
  mu_w_separation :: f64
  mu_w_alignment :: f64
  mu_w_cohesion :: f64

definition murmuration_new :: "crypto_ext \<Rightarrow> hash \<Rightarrow> u64 \<Rightarrow> cpp_peer_id \<Rightarrow> murmuration" where
  "murmuration_new X genesis height peer_id =
     \<lparr>mu_generator = from_flock_seed X genesis height, mu_state = flock_new X genesis height peer_id, mu_peers = [],
      mu_w_separation = PHI_INV, mu_w_alignment = ETA, mu_w_cohesion = f_sub f_one PHI_INV\<rparr>"

definition observe_peer :: "float_ext \<Rightarrow> cpp_peer_id \<Rightarrow> u64 \<Rightarrow> f64 \<Rightarrow> u8 \<Rightarrow> u64 \<Rightarrow> murmuration \<Rightarrow> murmuration" where
  "observe_peer F peer_id height quality phase time m =
     (let velocity = (case map_of (mu_peers m) peer_id of
            Some prev \<Rightarrow>
              let dt = f_of_word (max (time - po_last_seen prev) 1); dh = f_sub (f_of_word height) (f_of_word (po_height prev))
              in f_add (f_mul (po_velocity prev) (f_sub f_one ETA)) (f_mul (f_div dh dt) ETA)
          | None \<Rightarrow> f_zero);
          peers = AList.update peer_id \<lparr>po_height = height, po_quality = quality, po_flock_phase = phase, po_last_seen = time,
            po_velocity = velocity\<rparr> (mu_peers m)
      in m\<lparr>mu_peers := peers, mu_state := update_from_peers F (map (po_height \<circ> snd) peers) (mu_state m)\<rparr>)"

definition separation_score :: "float_ext \<Rightarrow> murmuration \<Rightarrow> u64 \<Rightarrow> u64 \<Rightarrow> f64" where
  "separation_score F m peer_height our_height =
     (let delta = f_of_sword (abs_word (peer_height - our_height)); threshold = f_mul (f_of_word (fl_swarm_height (mu_state m))) ETA in
      if f_lt threshold delta
      then f_mul (f_neg (fm_exp F (f_div (f_sub delta threshold) threshold))) (mu_w_separation m) else f_zero)"

definition alignment_score :: "murmuration \<Rightarrow> cpp_peer_id \<Rightarrow> f64 \<Rightarrow> f64" where
  "alignment_score m peer_id our_velocity = (case map_of (mu_peers m) peer_id of
       Some p \<Rightarrow> f_div (mu_w_alignment m) (f_add f_one (f_abs (f_sub (po_velocity p) our_velocity)))
     | None \<Rightarrow> f_zero)"

definition cohesion_score :: "murmuration \<Rightarrow> u64 \<Rightarrow> f64" where
  "cohesion_score m peer_height =
     (let d = f_abs (f_sub (f_of_word peer_height) (f_of_word (fl_swarm_height (mu_state m))))
      in f_div (f_mul (mu_w_cohesion m) (fl_cohesion (mu_state m))) (f_add f_one (f_mul d ETA)))"

definition flock_score :: "float_ext \<Rightarrow> murmuration \<Rightarrow> cpp_peer_id \<Rightarrow> u64 \<Rightarrow> u64 \<Rightarrow> f64 \<Rightarrow> f64" where
  "flock_score F m peer_id peer_height our_height our_velocity =
     f_add (f_add (separation_score F m peer_height our_height) (alignment_score m peer_id our_velocity)) (cohesion_score m peer_height)"

definition swap_at :: "nat \<Rightarrow> nat \<Rightarrow> 'a list \<Rightarrow> 'a list" where
  "swap_at i j xs = xs[i := xs ! j, j := xs ! i]"

definition flock_select :: "crypto_ext \<Rightarrow> float_ext \<Rightarrow> u64 \<Rightarrow> f64 \<Rightarrow> murmuration \<Rightarrow> (cpp_peer_id list \<times> murmuration) option" where
  "flock_select X F our_height our_velocity m =
     (if mu_peers m = [] then Some ([], m)
      else let fanout = flock_fanout F (length (mu_peers m)) (fl_cohesion (mu_state m));
               scored = sort_stable (\<lambda>a b. f_lt (snd b) (snd a))
                 (map (\<lambda>(i, obs). (i, f_add (flock_score F m i (po_height obs) our_height our_velocity)
                    (f_mul (po_quality obs) (mu_w_alignment m)))) (mu_peers m))
           in case next_u64 X (mu_generator m) of None \<Rightarrow> None
              | Some (jitter_seed, g) \<Rightarrow>
                  let swap_idx = f_to_usize (f_mul (golden_fractional jitter_seed) (f_of_nat (length scored)));
                      scored' = (if jitter_seed mod 3 = 0 \<and> fanout < length scored \<and> swap_idx < length scored \<and> 0 < fanout
                        then swap_at (fanout - 1) swap_idx scored else scored)
                  in Some (map fst (take fanout scored'), m\<lparr>mu_generator := g\<rparr>))"

definition should_broadcast_now :: "murmuration \<Rightarrow> u64 \<Rightarrow> bool" where
  "should_broadcast_now m current_time_ms =
     (let phase_duration = 10000 div FLOCK_PHASES; current_phase = ucast ((current_time_ms div phase_duration) mod FLOCK_PHASES)
      in is_broadcast_phase (mu_state m) current_phase)"

definition advance_epoch :: "crypto_ext \<Rightarrow> hash \<Rightarrow> u64 \<Rightarrow> cpp_peer_id \<Rightarrow> murmuration \<Rightarrow> murmuration" where
  "advance_epoch X genesis new_height peer_id m =
     (if fl_epoch (mu_state m) < new_height div GOLDEN_EPOCH_BLOCKS
      then m\<lparr>mu_state := flock_new X genesis new_height peer_id, mu_generator := from_flock_seed X genesis new_height\<rparr> else m)"

definition compact_of :: "flock_state \<Rightarrow> flock_compact" where
  "compact_of s = \<lparr>fk_seed_prefix = take 8 (be_bytes (fl_seed s)), fk_epoch = fl_epoch s, fk_phase = fl_phase s,
     fk_swarm_height = fl_swarm_height s\<rparr>"

definition is_same_flock :: "flock_compact \<Rightarrow> flock_compact \<Rightarrow> bool" where
  "is_same_flock a b \<longleftrightarrow> fk_epoch a = fk_epoch b \<and> fk_seed_prefix a = fk_seed_prefix b"

section \<open>What the selections are\<close>

definition router_ok :: "router \<Rightarrow> bool" where
  "router_ok r \<longleftrightarrow> distinct (map fst r) \<and> (\<forall>(i, p)\<in>set r. rp_id p = i)"

lemma router_ok_ids: "router_ok r \<Longrightarrow> map (rp_id \<circ> snd) r = map fst r"
  by (auto simp: router_ok_def)

lemma router_ok_new: "router_ok []"
  by (simp add: router_ok_def)

lemma router_ok_add: "router_ok r \<Longrightarrow> router_ok (router_add_peer p r)"
proof -
  assume ok: "router_ok r"
  have "\<forall>(i, q)\<in>set (AList.update (rp_id p) p r). rp_id q = i"
    using ok by (induction r) (auto simp: router_ok_def split: if_splits)
  then show ?thesis using ok by (simp add: router_ok_def router_add_peer_def distinct_update)
qed

lemma router_ok_remove: "router_ok r \<Longrightarrow> router_ok (router_remove_peer i r)"
proof -
  assume ok: "router_ok r"
  then have "distinct (map fst (AList.delete i r))" by (simp add: router_ok_def distinct_delete)
  moreover have "\<forall>(j, p)\<in>set (AList.delete i r). rp_id p = j" using ok by (auto simp: router_ok_def delete_filter)
  ultimately show ?thesis by (simp add: router_ok_def router_remove_peer_def)
qed

lemma router_ok_on_peer: "router_ok r \<Longrightarrow> (\<And>p. rp_id (f p) = rp_id p) \<Longrightarrow> router_ok (on_router_peer i f r)"
  by (auto simp: router_ok_def on_router_peer_def comp_def case_prod_unfold)

text \<open>A broadcast goes to distinct known peers, as many as the fanout or all of them, and to the best ones.\<close>

lemma broadcast_selects_best:
  fixes F r
  assumes "router_ok r" and "r \<noteq> []"
  defines "out \<equiv> select_broadcast_peers F r" and "k \<equiv> equilibrium_fanout F (f_of_nat (length r))"
  shows "distinct out" and "set out \<subseteq> fst ` set r" and "length out = min k (length r)"
    and "i \<in> set out \<Longrightarrow> j \<in> fst ` set r - set out \<Longrightarrow> map_of r i = Some p \<Longrightarrow> map_of r j = Some q \<Longrightarrow>
      \<not> f_total_lt (rp_quality p) (rp_quality q)"
proof -
  let ?lt = "\<lambda>a b. f_total_lt (rp_quality b) (rp_quality a)"
  let ?s = "sort_stable ?lt (map snd r)"
  have out: "out = map rp_id (take k ?s)" using assms(2) by (simp add: out_def k_def select_broadcast_peers_def)
  have ids: "map rp_id (map snd r) = map fst r" using router_ok_ids[OF assms(1)] by simp
  then have dm: "distinct (map rp_id (map snd r))" using assms(1) by (simp only: ids) (simp add: router_ok_def)
  then have "distinct (map snd r)" "inj_on rp_id (set (map snd r))" by (simp_all only: distinct_map)
  then have ds: "distinct ?s" "inj_on rp_id (set ?s)" using distinct_sort_stable[of "map snd r" ?lt] by (simp_all only: set_sort_stable)
  then have dis: "distinct (map rp_id ?s)" by (simp only: distinct_map)
  then show "distinct out" unfolding out take_map[symmetric] by (rule distinct_take)
  have sets: "rp_id ` set ?s = fst ` set r" using ids by (metis list.set_map set_sort_stable)
  then show "set out \<subseteq> fst ` set r" unfolding out using set_take_subset[of k ?s] by fastforce
  show "length out = min k (length r)" by (simp add: out)
  assume i: "i \<in> set out" and j: "j \<in> fst ` set r - set out" and p: "map_of r i = Some p" and q: "map_of r j = Some q"
  have idp: "rp_id p = i" "rp_id q = j" using assms(1) map_of_SomeD[OF p] map_of_SomeD[OF q] by (auto simp: router_ok_def)
  have mem: "p \<in> set ?s" "q \<in> set ?s" using map_of_SomeD[OF p] map_of_SomeD[OF q] by force+
  have "p \<in> set (take k ?s)"
  proof -
    obtain p' where "p' \<in> set (take k ?s)" "rp_id p' = i" using i by (auto simp: out)
    moreover from this have "p' \<in> set ?s" by (blast dest: in_set_takeD)
    ultimately have "p' = p" using mem(1) idp(1) by (intro inj_onD[OF ds(2)]) auto
    then show ?thesis using \<open>p' \<in> set (take k ?s)\<close> by simp
  qed
  moreover have "q \<in> set (drop k ?s)"
  proof -
    have "q \<notin> set (take k ?s)" using j idp(2) by (auto simp: out)
    then show ?thesis using mem(2) by (metis UnE append_take_drop_id set_append)
  qed
  moreover have "sorted_wrt (\<lambda>a b. \<not> ?lt b a) ?s"
    using f_total_lt_trans f_total_lt_asym f_total_lt_neg by (intro sorted_sort_stable) blast+
  then have "sorted_wrt (\<lambda>a b. \<not> ?lt b a) (take k ?s @ drop k ?s)" by simp
  ultimately show "\<not> f_total_lt (rp_quality p) (rp_quality q)" unfolding sorted_wrt_append by blast
qed

text \<open>The sync peer has the block, and no peer that has it is nearer by the key of the sort.\<close>

lemma sync_peer_nearest:
  assumes "select_sync_peer h r = Some i" and "router_ok r"
  obtains p where "map_of r i = Some p" and "h \<le> rp_best_height p"
    and "\<And>q. q \<in> snd ` set r \<Longrightarrow> h \<le> rp_best_height q \<Longrightarrow> sync_key h p \<le> sync_key h q"
proof -
  let ?c = "filter (\<lambda>p. h \<le> rp_best_height p) (map snd r)"
  let ?s = "sort_key (\<lambda>p. unat (sync_key h p)) ?c"
  have ne: "?c \<noteq> []" and i: "i = rp_id (?s ! 0)" using assms(1) by (auto simp: select_sync_peer_def Let_def split: if_splits)
  have pos: "0 < length ?s" using ne by (simp only: length_sort length_greater_0_conv not_False_eq_True)
  then have mem: "?s ! 0 \<in> set ?c" by (metis nth_mem set_sort)
  then obtain k where k: "(k, ?s ! 0) \<in> set r" by auto
  then have "map_of r i = Some (?s ! 0)" using assms(2) by (auto simp: router_ok_def i)
  moreover have "sync_key h (?s ! 0) \<le> sync_key h q" if "q \<in> snd ` set r" "h \<le> rp_best_height q" for q
  proof -
    have "q \<in> set ?s" using that by (simp add: image_iff)
    then obtain n where n: "n < length ?s" "?s ! n = q" by (metis in_set_conv_nth)
    have "sorted (map (\<lambda>p. unat (sync_key h p)) ?s)" by (rule sorted_sort_key)
    then have "map (\<lambda>p. unat (sync_key h p)) ?s ! 0 \<le> map (\<lambda>p. unat (sync_key h p)) ?s ! n"
      by (rule sorted_nth_mono) (use n in simp_all)
    then show ?thesis using n pos by (simp add: word_le_nat_alt)
  qed
  ultimately show ?thesis using that mem by auto
qed

text \<open>A quality stays between 0 and 1, and after a failure above none at all.\<close>

lemma quality_range:
  assumes "q = FFin False m" and "0 \<le> m" and "m \<le> 1"
  shows "\<exists>m'. new_quality s q = FFin False m' \<and> 0 \<le> m' \<and> m' \<le> 1"
proof (cases s)
  case True
  have "f_nonneg (f_of_rat (1 / 10))" by (simp add: f_of_rat_def f_nonneg_round)
  then have "f_nonneg (f_add q (f_of_rat (1 / 10)))" using assms by (intro f_nonneg_add) (simp_all add: f_nonneg_def)
  then show ?thesis using True by (auto simp: new_quality_def f_min_def f_one_def f_nonneg_def)
next
  case False
  obtain e where e: "ETA = FFin False e" "0 < e" "e \<le> 1" using ETA_positive by blast
  obtain v where v: "f_sub f_one ETA = FFin False v" "0 \<le> v" "v \<le> 1"
  proof (cases "e = 1")
    case True
    then have "f_sub f_one ETA = FFin False 0" unfolding f_sub_def f_one_def e(1) by simp
    then show ?thesis using that by simp
  next
    case False
    have "f_sub f_one ETA = f_round False (1 - e)" unfolding f_sub_def f_one_def e(1) using e(2,3) False by (simp add: Let_def f_of_rat_def)
    then show ?thesis using that f_round_between[of "1 - e" 1] e by auto
  qed
  have "0 \<le> m * v" "m * v \<le> 1" using assms v by (simp_all add: mult_le_one)
  then obtain w where w: "f_mul q (f_sub f_one ETA) = FFin False w" "0 \<le> w" "w \<le> 1"
    using f_round_between[of "m * v" 1] assms(1) v(1) by auto
  obtain t where t: "f_of_rat (1 / 10) = FFin False t" "0 \<le> t" "t \<le> 1"
    using f_round_between[of "1 / 10" 1] by (auto simp: f_of_rat_def)
  show ?thesis using False w t by (auto simp: new_quality_def f_max_def)
qed

text \<open>A chunk is never above its maximum.\<close>

lemma chunk_size_bounded:
  assumes "unat max_chunk < 2 ^ 53"
  shows "calculate_chunk_size d b max_chunk \<le> max_chunk"
proof -
  obtain n where n: "unat max_chunk = n" by simp
  have m: "f_of_word max_chunk = FFin False (of_nat n)" using f_of_word_exact[OF assms] by (simp only: n)
  have whole: "unat (f_to_word (f_ceil (FFin False v)) :: u64) \<le> n" if "0 \<le> v" "v \<le> of_nat n" for v
  proof -
    have "\<lceil>v\<rceil> \<le> int n" using that(2) by (simp add: ceiling_le_iff)
    then have "(of_int \<lceil>v\<rceil> :: rat) \<le> of_int (int n)" by (simp only: of_int_le_iff)
    then have "0 \<le> (of_int \<lceil>v\<rceil> :: rat)" "of_int \<lceil>v\<rceil> \<le> (of_nat n :: rat)" using that(1) by simp_all
    moreover have "n < 2 ^ LENGTH(64)" using unat_lt_pow[of max_chunk] by (simp only: n)
    ultimately show ?thesis unfolding f_ceil.simps if_False by (rule f_to_word_floor)
  qed
  have low: "unat (f_to_word (f_ceil (FFin True v)) :: u64) = 0" "unat (f_to_word (f_ceil (FInf True)) :: u64) = 0" for v by simp_all
  have "f_mag (f_mul (f_of_word b) (f_add f_one y))" for y
    unfolding f_of_word_def by (intro f_mag_mul f_mag_round f_mag_add of_nat_0_le_iff)
  then have mag: "f_mag (f_mul (f_of_word b) (f_add f_one (f_div (f_mul (f_of_word d) ETA) (f_of_rat 10))))" (is "f_mag ?x") .
  have "unat (f_to_word (f_ceil (f_min x (FFin False (of_nat n)))) :: u64) \<le> n" if "f_mag x" for x
  proof (cases x)
    case (FFin s v)
    then show ?thesis using that whole[of v] whole[of "of_nat n"] low(1)[of v]
      by (cases s) (auto simp: f_min_def f_mag_def simp del: f_ceil.simps f_to_word.simps)
  next
    case (FInf s)
    then show ?thesis using whole[of "of_nat n"] low(2)
      by (cases s) (auto simp: f_min_def simp del: f_ceil.simps f_to_word.simps)
  qed (use whole[of "of_nat n"] in \<open>auto simp: f_min_def simp del: f_ceil.simps f_to_word.simps\<close>)
  from this[OF mag] show ?thesis by (simp only: calculate_chunk_size_def Let_def word_le_nat_alt m n)
qed

text \<open>The heights that peers claim are added up in 64 bits: two peers at half the range make a mean of zero.\<close>

lemma claimed_heights_wrap: "f_eq_zero (mean_height [2 ^ 63, 2 ^ 63])"
  by (simp add: mean_height_def f_of_word_def f_of_nat_def f_eq_zero_def)

text \<open>The epoch of the flock never goes back, and nodes of one chain at one epoch are in one flock.\<close>

lemma epoch_monotone: "fl_epoch (mu_state m) \<le> fl_epoch (mu_state (advance_epoch X g h i m))"
  by (simp add: advance_epoch_def flock_new_def Let_def less_imp_le)

lemma same_flock:
  "h div GOLDEN_EPOCH_BLOCKS = h' div GOLDEN_EPOCH_BLOCKS \<Longrightarrow>
   is_same_flock (compact_of (flock_new X g h i)) (compact_of (flock_new X g h' j))"
  by (simp add: is_same_flock_def compact_of_def flock_new_def Let_def)

lemma phase_in_range: "fl_phase (flock_new X g h i) < 8"
proof -
  have "unat (compute_phase X i s) < 8" for s by (simp add: compute_phase_def FLOCK_PHASES_def unat_mod)
  then show ?thesis by (simp add: flock_new_def Let_def word_less_nat_alt)
qed

end
