(* ===== verification/Network_Peer.thy ===== *)
theory Network_Peer
  imports Network_Router Network_Protocol
begin

text \<open>
  A connected peer: \<open>network/src/cpp/peer.rs\<close>, with the node types of \<open>config.rs\<close>, the scores of \<open>node_integration.rs\<close> and
  the blocks a node serves (\<open>block_provider.rs\<close>). Instants are nanoseconds and \<open>now\<close> is the current one. The channel to the
  write task is the list \<open>pe_queue\<close>; what the task has written to the socket is \<open>pe_written\<close>.
\<close>

section \<open>Node types\<close>

datatype cpp_node_type = CFull | CArchive | CValidator | CLight | CBounty | COracle

definition node_type_as_u8 :: "cpp_node_type \<Rightarrow> u8" where
  "node_type_as_u8 t = (case t of CFull \<Rightarrow> 1 | CArchive \<Rightarrow> 2 | CValidator \<Rightarrow> 3 | CLight \<Rightarrow> 0 | CBounty \<Rightarrow> 4 | COracle \<Rightarrow> 5)"

definition node_type_from_u8 :: "u8 \<Rightarrow> cpp_node_type option" where
  "node_type_from_u8 v = (if v = 0 then Some CLight else if v = 1 then Some CFull else if v = 2 then Some CArchive
     else if v = 3 then Some CValidator else if v = 4 then Some CBounty else if v = 5 then Some COracle else None)"

text \<open>\<open>node_type as u8\<close> is the position of the variant in the declaration.\<close>

definition node_type_cast :: "cpp_node_type \<Rightarrow> u8" where
  "node_type_cast t = (case t of CFull \<Rightarrow> 0 | CArchive \<Rightarrow> 1 | CValidator \<Rightarrow> 2 | CLight \<Rightarrow> 3 | CBounty \<Rightarrow> 4 | COracle \<Rightarrow> 5)"

record node_metrics =
  nm_storage_ratio :: f64
  nm_validation_speed :: f64
  nm_solve_rate :: f64
  nm_uptime_ratio :: f64
  nm_avg_response_time :: f64
  nm_bandwidth_ratio :: f64
  nm_blocks_observed :: u64

definition node_metrics_new :: node_metrics where
  "node_metrics_new = \<lparr>nm_storage_ratio = f_zero, nm_validation_speed = f_zero, nm_solve_rate = f_zero, nm_uptime_ratio = f_one,
     nm_avg_response_time = f_of_rat (1 / 10), nm_bandwidth_ratio = f_zero, nm_blocks_observed = 0\<rparr>"

definition sufficient_for_classification :: "node_metrics \<Rightarrow> bool" where
  "sufficient_for_classification m \<longleftrightarrow> 1000 \<le> nm_blocks_observed m"

definition classify_node :: "node_metrics \<Rightarrow> cpp_node_type" where
  "classify_node m =
     (if f_le (f_of_rat 10) (nm_validation_speed m) then CValidator
      else if f_le (f_of_rat (99 / 100)) (nm_uptime_ratio m) then COracle
      else if f_le (f_of_rat 5) (nm_solve_rate m) then CBounty
      else if f_le (f_of_rat (95 / 100)) (nm_storage_ratio m) then CArchive
      else if f_le (f_of_rat (1 / 2)) (nm_storage_ratio m) then CFull
      else CLight)"

definition default_priority :: "cpp_node_type \<Rightarrow> message_priority" where
  "default_priority t = (case t of CValidator \<Rightarrow> D1_Critical | COracle \<Rightarrow> D2_High | CFull \<Rightarrow> D3_Normal | CBounty \<Rightarrow> D4_Low
     | CLight \<Rightarrow> D5_Background | CArchive \<Rightarrow> D7_Archive)"

definition reward_multiplier :: "cpp_node_type \<Rightarrow> f64" where
  "reward_multiplier t = (case t of CValidator \<Rightarrow> f_one | COracle \<Rightarrow> f_of_rat (750 / 1000) | CBounty \<Rightarrow> f_of_rat (618 / 1000)
     | CFull \<Rightarrow> f_of_rat (500 / 1000) | CArchive \<Rightarrow> f_of_rat (382 / 1000) | CLight \<Rightarrow> f_of_rat (146 / 1000))"

definition expected_bandwidth_ratio :: "cpp_node_type \<Rightarrow> f64" where
  "expected_bandwidth_ratio t = (case t of CValidator \<Rightarrow> f_of_rat (8 / 10) | COracle \<Rightarrow> f_of_rat (6 / 10) | CFull \<Rightarrow> f_of_rat (5 / 10)
     | CArchive \<Rightarrow> f_of_rat (7 / 10) | CBounty \<Rightarrow> f_of_rat (3 / 10) | CLight \<Rightarrow> f_of_rat (1 / 10))"

definition expected_storage_ratio :: "cpp_node_type \<Rightarrow> f64" where
  "expected_storage_ratio t = (case t of CArchive \<Rightarrow> f_of_rat (95 / 100) | CFull \<Rightarrow> f_of_rat (50 / 100) | CValidator \<Rightarrow> f_of_rat (50 / 100)
     | COracle \<Rightarrow> f_of_rat (30 / 100) | CBounty \<Rightarrow> f_of_rat (20 / 100) | CLight \<Rightarrow> f_of_rat (1 / 100))"

definition can_serve_sync :: "cpp_node_type \<Rightarrow> bool" where
  "can_serve_sync t \<longleftrightarrow> t = CFull \<or> t = CArchive \<or> t = CValidator"

definition can_validate :: "cpp_node_type \<Rightarrow> bool" where
  "can_validate t \<longleftrightarrow> t = CValidator"

definition can_solve_bounties :: "cpp_node_type \<Rightarrow> bool" where
  "can_solve_bounties t \<longleftrightarrow> t = CBounty \<or> t = CFull \<or> t = CValidator"

lemma node_type_roundtrip [simp]: "node_type_from_u8 (node_type_as_u8 t) = Some t"
  by (cases t) (simp_all add: node_type_from_u8_def node_type_as_u8_def)

lemma node_type_from_u8_Some: "node_type_from_u8 v = Some t \<longleftrightarrow> v = node_type_as_u8 t"
proof
  assume "node_type_from_u8 v = Some t"
  then show "v = node_type_as_u8 t" by (auto simp: node_type_from_u8_def node_type_as_u8_def split: if_splits)
qed simp

text \<open>The router files a peer under the position of its type, not under its number: asked for full nodes by number, it
  answers with archive nodes, and asked for archive nodes, with validators.\<close>

lemma router_type_is_shifted:
  "node_type_cast CArchive = node_type_as_u8 CFull" "node_type_cast CValidator = node_type_as_u8 CArchive"
  "node_type_cast t = node_type_as_u8 t \<longleftrightarrow> t = CBounty \<or> t = COracle"
  by (simp_all add: node_type_cast_def node_type_as_u8_def split: cpp_node_type.split)

section \<open>The peer\<close>

definition secs :: nat where "secs = 10 ^ 9"

definition KEEPALIVE_INTERVAL :: nat where "KEEPALIVE_INTERVAL = 30 * secs"
definition PEER_TIMEOUT :: nat where "PEER_TIMEOUT = 90 * secs"
definition MAX_CONSECUTIVE_TIMEOUTS :: u32 where "MAX_CONSECUTIVE_TIMEOUTS = 3"
definition PEER_QUALITY_THRESHOLD :: f64 where "PEER_QUALITY_THRESHOLD = f_of_rat (3 / 10)"

datatype cpp_peer_state = Connecting | Connected | Disconnecting | Disconnected

record peer =
  pe_id :: cpp_peer_id
  pe_addr :: socket_addr
  pe_queue :: "bytes list"
  pe_written :: bytes
  pe_write_task :: bool
  pe_state :: cpp_peer_state
  pe_node_type :: cpp_node_type
  pe_best_height :: u64
  pe_best_hash :: hash
  pe_cumulative_work :: u128
  pe_genesis_hash :: hash
  pe_flow :: flow_control
  pe_quality :: f64
  pe_last_seen :: nat
  pe_last_ping :: "nat option"
  pe_pending_ping_nonce :: "u64 option"
  pe_rtt_samples :: "nat list"
  pe_messages_sent :: u64
  pe_messages_received :: u64
  pe_bytes_sent :: u64
  pe_bytes_received :: u64
  pe_connected_at :: nat
  pe_consecutive_timeouts :: u32
  pe_last_successful_read :: nat
  pe_connection_nonce :: u64
  pe_is_outbound :: bool
  pe_write_task_cancel :: bool

definition peer_new :: "nat \<Rightarrow> cpp_peer_id \<Rightarrow> socket_addr \<Rightarrow> cpp_node_type \<Rightarrow> u64 \<Rightarrow> hash \<Rightarrow> hash \<Rightarrow> u64 \<Rightarrow> bool \<Rightarrow> peer" where
  "peer_new now i addr node_type best_height best_hash genesis_hash connection_nonce is_outbound =
     \<lparr>pe_id = i, pe_addr = addr, pe_queue = [], pe_written = [], pe_write_task = True, pe_state = Connecting, pe_node_type = node_type,
      pe_best_height = best_height, pe_best_hash = best_hash, pe_cumulative_work = 0, pe_genesis_hash = genesis_hash,
      pe_flow = flow_new now, pe_quality = f_one, pe_last_seen = now, pe_last_ping = None, pe_pending_ping_nonce = None,
      pe_rtt_samples = [], pe_messages_sent = 0, pe_messages_received = 0, pe_bytes_sent = 0, pe_bytes_received = 0,
      pe_connected_at = now, pe_consecutive_timeouts = 0, pe_last_successful_read = now, pe_connection_nonce = connection_nonce,
      pe_is_outbound = is_outbound, pe_write_task_cancel = False\<rparr>"

text \<open>One turn of the write task: it stops when it is told to or when the socket fails, and then nobody reads the channel.\<close>

definition write_task_turn :: "bool \<Rightarrow> peer \<Rightarrow> peer" where
  "write_task_turn socket_ok p =
     (if \<not> pe_write_task p then p
      else if pe_write_task_cancel p then p\<lparr>pe_write_task := False\<rparr>
      else case pe_queue p of [] \<Rightarrow> p
      | d # ds \<Rightarrow> if socket_ok then p\<lparr>pe_queue := ds, pe_written := pe_written p @ d\<rparr> else p\<lparr>pe_queue := ds, pe_write_task := False\<rparr>)"

definition send_message :: "bytes \<Rightarrow> peer \<Rightarrow> peer option" where
  "send_message d p = (if pe_write_task p then Some (p\<lparr>pe_queue := pe_queue p @ [d]\<rparr>) else None)"

definition is_connected :: "peer \<Rightarrow> bool" where
  "is_connected p \<longleftrightarrow> pe_state p = Connected"

definition is_timed_out :: "nat \<Rightarrow> peer \<Rightarrow> bool" where
  "is_timed_out now p \<longleftrightarrow> PEER_TIMEOUT < now - pe_last_seen p"

definition needs_ping :: "nat \<Rightarrow> peer \<Rightarrow> bool" where
  "needs_ping now p = (case pe_last_ping p of Some at_ns \<Rightarrow> KEEPALIVE_INTERVAL < now - at_ns | None \<Rightarrow> True)"

definition update_status :: "nat \<Rightarrow> u64 \<Rightarrow> hash \<Rightarrow> cpp_node_type \<Rightarrow> u128 \<Rightarrow> peer \<Rightarrow> peer" where
  "update_status now height h node_type cumulative_work p = p\<lparr>pe_best_height := height, pe_best_hash := h, pe_node_type := node_type,
     pe_cumulative_work := cumulative_work, pe_last_seen := now\<rparr>"

definition peer_sent :: "nat \<Rightarrow> peer \<Rightarrow> peer" where
  "peer_sent n p = p\<lparr>pe_messages_sent := pe_messages_sent p + 1, pe_bytes_sent := pe_bytes_sent p + of_nat n, pe_flow := on_send (pe_flow p)\<rparr>"

definition peer_received :: "nat \<Rightarrow> nat \<Rightarrow> peer \<Rightarrow> peer" where
  "peer_received now n p = p\<lparr>pe_messages_received := pe_messages_received p + 1, pe_bytes_received := pe_bytes_received p + of_nat n,
     pe_last_seen := now\<rparr>"

definition average_rtt :: "peer \<Rightarrow> nat" where
  "average_rtt p = (if pe_rtt_samples p = [] then 100 * ms else sum_list (pe_rtt_samples p) div length (pe_rtt_samples p))"

definition peer_ack :: "nat \<Rightarrow> nat \<Rightarrow> peer \<Rightarrow> peer" where
  "peer_ack now rtt p =
     (let samples = pe_rtt_samples p @ [rtt];
          p = p\<lparr>pe_flow := on_ack now rtt (pe_flow p), pe_rtt_samples := (if 10 < length samples then drop 1 samples else samples)\<rparr>;
          rtt_quality = f_sub f_one (f_min (f_div (as_secs_f64 (average_rtt p)) f_one) f_one)
      in p\<lparr>pe_quality := f_clamp (f_add (f_mul (f_of_rat (9 / 10)) (pe_quality p)) (f_mul (f_of_rat (1 / 10)) rtt_quality))
             (f_of_rat (1 / 10)) f_one\<rparr>)"

definition peer_timeout :: "nat \<Rightarrow> peer \<Rightarrow> peer" where
  "peer_timeout now p = p\<lparr>pe_flow := on_timeout now (pe_flow p),
     pe_quality := f_max (f_mul (pe_quality p) (f_sub f_one ETA)) (f_of_rat (1 / 10))\<rparr>"

definition on_read_timeout :: "nat \<Rightarrow> peer \<Rightarrow> bool \<times> peer" where
  "on_read_timeout now p =
     (let p = p\<lparr>pe_consecutive_timeouts := pe_consecutive_timeouts p + 1\<rparr>
      in (MAX_CONSECUTIVE_TIMEOUTS \<le> pe_consecutive_timeouts p, peer_timeout now p))"

definition on_successful_read :: "nat \<Rightarrow> nat \<Rightarrow> peer \<Rightarrow> peer" where
  "on_successful_read now n p = peer_received now n (p\<lparr>pe_consecutive_timeouts := 0, pe_last_successful_read := now\<rparr>)"

definition is_half_dead :: "nat \<Rightarrow> peer \<Rightarrow> bool" where
  "is_half_dead now p \<longleftrightarrow> 0 < pe_consecutive_timeouts p \<and> now - pe_last_seen p < PEER_TIMEOUT \<and>
     PEER_TIMEOUT div 2 < now - pe_last_successful_read p"

definition is_healthy :: "nat \<Rightarrow> peer \<Rightarrow> bool" where
  "is_healthy now p \<longleftrightarrow> pe_state p = Connected \<and> f_le PEER_QUALITY_THRESHOLD (pe_quality p) \<and> \<not> is_half_dead now p"

definition peer_shutdown :: "peer \<Rightarrow> peer" where
  "peer_shutdown p = p\<lparr>pe_write_task_cancel := True, pe_state := Disconnecting\<rparr>"

definition peer_uptime_ratio :: "nat \<Rightarrow> peer \<Rightarrow> f64" where
  "peer_uptime_ratio now p =
     (let total_time = now - pe_connected_at p; active_time = total_time - (now - pe_last_seen p) in
      if total_time div secs = 0 then f_one else f_div (as_secs_f64 active_time) (as_secs_f64 total_time))"

definition message_rate :: "nat \<Rightarrow> peer \<Rightarrow> f64" where
  "message_rate now p =
     (let elapsed = as_secs_f64 (now - pe_connected_at p) in
      if f_eq_zero elapsed then f_zero else f_div (f_of_word (pe_messages_sent p + pe_messages_received p)) elapsed)"

definition peer_bandwidth_ratio :: "nat \<Rightarrow> peer \<Rightarrow> f64" where
  "peer_bandwidth_ratio now p =
     (let elapsed = as_secs_f64 (now - pe_connected_at p) in
      if f_eq_zero elapsed then f_zero
      else f_min (f_div (f_div (f_of_word (pe_bytes_sent p + pe_bytes_received p)) elapsed) (f_of_rat 125000000)) f_one)"

definition peer_score :: "nat \<Rightarrow> peer \<Rightarrow> f64" where
  "peer_score now p =
     (let rate_score = f_min (f_div (message_rate now p) (f_of_rat 10)) f_one;
          score = f_add (f_add (f_add (f_mul (pe_quality p) (f_of_rat (4 / 10))) (f_mul (peer_uptime_ratio now p) (f_of_rat (3 / 10))))
            (f_mul rate_score (f_of_rat (2 / 10)))) (f_mul (peer_bandwidth_ratio now p) (f_of_rat (1 / 10)))
      in f_clamp score f_zero f_one)"

record ping_message =
  pg_timestamp :: u64
  pg_nonce :: u64

definition send_ping ::
  "crypto_ext \<Rightarrow> (ping_message \<Rightarrow> bytes option) \<Rightarrow> nat \<Rightarrow> u64 \<Rightarrow> u64 \<Rightarrow> peer \<Rightarrow> (bool \<times> peer)" where
  "send_ping X ser now unix nonce p =
     (case envelope_new ser MtPing \<lparr>pg_timestamp = unix, pg_nonce = nonce\<rparr> of Inl _ \<Rightarrow> (False, p)
      | Inr e \<Rightarrow> case send_message (encode_envelope X e) p of None \<Rightarrow> (False, p)
        | Some p' \<Rightarrow> (True, peer_sent (length (encode_envelope X e)) (p'\<lparr>pe_last_ping := Some now, pe_pending_ping_nonce := Some nonce\<rparr>)))"

definition on_pong :: "nat \<Rightarrow> u64 \<Rightarrow> peer \<Rightarrow> peer" where
  "on_pong now nonce p =
     (case pe_pending_ping_nonce p of None \<Rightarrow> p
      | Some pending \<Rightarrow>
          if pending = nonce then
            (case pe_last_ping p of Some t \<Rightarrow> peer_ack now (now - t) p | None \<Rightarrow> p)\<lparr>pe_pending_ping_nonce := None\<rparr>
          else p)"

record peer_stats =
  ps_id :: cpp_peer_id
  ps_addr :: socket_addr
  ps_node_type :: cpp_node_type
  ps_state :: cpp_peer_state
  ps_best_height :: u64
  ps_quality :: f64
  ps_peer_score :: f64
  ps_uptime_ratio :: f64
  ps_message_rate :: f64
  ps_bandwidth_ratio :: f64
  ps_average_rtt :: nat
  ps_messages_sent :: u64
  ps_messages_received :: u64
  ps_bytes_sent :: u64
  ps_bytes_received :: u64
  ps_connected_duration :: nat

definition peer_stats_of :: "nat \<Rightarrow> peer \<Rightarrow> peer_stats" where
  "peer_stats_of now p =
     \<lparr>ps_id = pe_id p, ps_addr = pe_addr p, ps_node_type = pe_node_type p, ps_state = pe_state p, ps_best_height = pe_best_height p,
      ps_quality = pe_quality p, ps_peer_score = peer_score now p, ps_uptime_ratio = peer_uptime_ratio now p,
      ps_message_rate = message_rate now p, ps_bandwidth_ratio = peer_bandwidth_ratio now p, ps_average_rtt = average_rtt p,
      ps_messages_sent = pe_messages_sent p, ps_messages_received = pe_messages_received p, ps_bytes_sent = pe_bytes_sent p,
      ps_bytes_received = pe_bytes_received p, ps_connected_duration = now - pe_connected_at p\<rparr>"

definition router_peer_of :: "nat \<Rightarrow> peer \<Rightarrow> router_peer" where
  "router_peer_of now p =
     \<lparr>rp_id = pe_id p, rp_best_height = pe_best_height p, rp_node_type = node_type_cast (pe_node_type p), rp_quality = pe_quality p,
      rp_last_seen = of_nat ((now - pe_last_seen p) div secs), rp_flock_phase = 0, rp_flock_epoch = 0, rp_velocity = f_zero\<rparr>"

section \<open>Selection by type\<close>

definition propagation_score :: "peer \<Rightarrow> f64" where
  "propagation_score p =
     (let type_score = (case pe_node_type p of CValidator \<Rightarrow> f_one | CFull \<Rightarrow> f_of_rat (8 / 10) | CArchive \<Rightarrow> f_of_rat (6 / 10)
        | COracle \<Rightarrow> f_of_rat (4 / 10) | CBounty \<Rightarrow> f_of_rat (3 / 10) | CLight \<Rightarrow> f_of_rat (1 / 10))
      in f_add (f_mul type_score (f_of_rat (1 / 2))) (f_mul (pe_quality p) (f_of_rat (1 / 2))))"

definition best_by :: "(peer \<Rightarrow> f64) \<Rightarrow> nat \<Rightarrow> peer list \<Rightarrow> cpp_peer_id list" where
  "best_by score n ps = map pe_id (take n (sort_stable (\<lambda>a b. f_total_lt (score b) (score a)) ps))"

definition select_for_propagation :: "peer list \<Rightarrow> nat \<Rightarrow> cpp_peer_id list" where
  "select_for_propagation peers n = best_by propagation_score n peers"

definition sync_type_score :: "peer \<Rightarrow> f64" where
  "sync_type_score p = f_mul (case pe_node_type p of CArchive \<Rightarrow> f_one | CFull \<Rightarrow> f_of_rat (8 / 10) | CValidator \<Rightarrow> f_of_rat (6 / 10)
     | _ \<Rightarrow> f_zero) (pe_quality p)"

definition select_for_sync :: "peer list \<Rightarrow> u64 \<Rightarrow> nat \<Rightarrow> cpp_peer_id list" where
  "select_for_sync peers required_height n =
     best_by sync_type_score n (filter (\<lambda>p. required_height \<le> pe_best_height p \<and> can_serve_sync (pe_node_type p)) peers)"

definition bounty_score :: "peer \<Rightarrow> f64" where
  "bounty_score p = f_add (f_mul (case pe_node_type p of CBounty \<Rightarrow> f_one | CValidator \<Rightarrow> f_of_rat (7 / 10) | CFull \<Rightarrow> f_of_rat (5 / 10)
     | _ \<Rightarrow> f_zero) (f_of_rat (6 / 10))) (f_mul (pe_quality p) (f_of_rat (4 / 10)))"

definition select_for_bounties :: "peer list \<Rightarrow> nat \<Rightarrow> cpp_peer_id list" where
  "select_for_bounties peers n = best_by bounty_score n (filter (\<lambda>p. can_solve_bounties (pe_node_type p)) peers)"

section \<open>Serving blocks\<close>

definition PROVIDER_MAX :: u64 where "PROVIDER_MAX = 500"

fun collect_blocks :: "(u64 \<Rightarrow> block option) \<Rightarrow> nat \<Rightarrow> u64 \<Rightarrow> block list" where
  "collect_blocks get 0 height = []"
| "collect_blocks get (Suc n) height = (case get height of None \<Rightarrow> [] | Some b \<Rightarrow> b # collect_blocks get n (height + 1))"

definition get_blocks_range :: "(u64 \<Rightarrow> block option) \<Rightarrow> u64 \<Rightarrow> u64 \<Rightarrow> u64 \<Rightarrow> block list" where
  "get_blocks_range get best from_height to_height =
     (if best < from_height \<or> to_height < from_height then []
      else let to_height = min to_height best; n = min (to_height - from_height + 1) PROVIDER_MAX
      in collect_blocks get (unat n) from_height)"

section \<open>Facts\<close>

text \<open>The samples are the last ten round trips.\<close>

lemma rtt_samples_bounded: "length (pe_rtt_samples p) \<le> 10 \<Longrightarrow> length (pe_rtt_samples (peer_ack now rtt p)) \<le> 10"
  by (simp add: peer_ack_def Let_def, linarith)

text \<open>Three reads in a row that time out disconnect, and fewer do not.\<close>

lemma three_timeouts_disconnect:
  assumes "pe_consecutive_timeouts p = 0"
  shows "fst (on_read_timeout a p) = False" and "fst (on_read_timeout b (snd (on_read_timeout a p))) = False"
    and "fst (on_read_timeout c (snd (on_read_timeout b (snd (on_read_timeout a p)))))"
  using assms by (simp_all add: on_read_timeout_def peer_timeout_def Let_def MAX_CONSECUTIVE_TIMEOUTS_def word_le_nat_alt)

text \<open>What is written is what was sent, in order, as long as the socket works.\<close>

definition peer_output :: "peer \<Rightarrow> bytes" where
  "peer_output p = pe_written p @ concat (pe_queue p)"

lemma write_turn_output: "pe_write_task_cancel p = False \<Longrightarrow> peer_output (write_task_turn True p) = peer_output p"
  by (auto simp: write_task_turn_def peer_output_def split: list.split)

lemma send_output: "send_message d p = Some q \<Longrightarrow> peer_output q = peer_output p @ d"
  by (auto simp: send_message_def peer_output_def split: if_splits)

text \<open>A selection is of distinct peers of the list, as many as asked for or all of them.\<close>

lemma best_by_facts:
  assumes "distinct (map pe_id ps)"
  shows "distinct (best_by score n ps)" and "set (best_by score n ps) \<subseteq> pe_id ` set ps" and "length (best_by score n ps) = min n (length ps)"
proof -
  let ?s = "sort_stable (\<lambda>a b. f_total_lt (score b) (score a)) ps"
  have "distinct ps" "inj_on pe_id (set ps)" using assms by (simp_all add: distinct_map)
  then have "distinct ?s" "inj_on pe_id (set ?s)" using distinct_sort_stable[of ps] by simp_all
  then have "distinct (map pe_id ?s)" by (simp only: distinct_map)
  then show "distinct (best_by score n ps)" unfolding best_by_def take_map[symmetric] by (rule distinct_take)
  show "set (best_by score n ps) \<subseteq> pe_id ` set ps" unfolding best_by_def by (auto dest: in_set_takeD)
  show "length (best_by score n ps) = min n (length ps)" by (simp add: best_by_def)
qed

text \<open>A range is served in order from its first height, without gaps, and at most 500 blocks of it.\<close>

lemma collect_blocks_get:
  "length (collect_blocks get n h) \<le> n \<and> (\<forall>i < length (collect_blocks get n h). get (h + of_nat i) = Some (collect_blocks get n h ! i))"
proof (induction n arbitrary: h)
  case (Suc n)
  show ?case
  proof (cases "get h")
    case (Some b)
    show ?thesis
    proof (intro conjI allI impI)
      fix i assume "i < length (collect_blocks get (Suc n) h)"
      then show "get (h + of_nat i) = Some (collect_blocks get (Suc n) h ! i)"
        using Suc[of "h + 1"] Some by (cases i) (auto simp: algebra_simps)
    qed (use Suc[of "h + 1"] Some in auto)
  qed simp
qed simp

lemma get_blocks_range_facts:
  fixes get best a b
  defines "bs \<equiv> get_blocks_range get best a b"
  shows "length bs \<le> 500" and "i < length bs \<Longrightarrow> get (a + of_nat i) = Some (bs ! i)"
proof -
  have "unat (min x PROVIDER_MAX) \<le> 500" for x :: u64
    using word_le_nat_alt[of "min x PROVIDER_MAX" PROVIDER_MAX] by (simp add: PROVIDER_MAX_def)
  then show "length bs \<le> 500"
    using collect_blocks_get[of get _ a] le_trans unfolding bs_def get_blocks_range_def Let_def by (auto intro: le_trans)
  show "i < length bs \<Longrightarrow> get (a + of_nat i) = Some (bs ! i)"
    using collect_blocks_get[of get _ a] unfolding bs_def get_blocks_range_def Let_def by (auto split: if_splits)
qed

end
