(* ===== verification/Network_Service.thy ===== *)
theory Network_Service
  imports Network_Session Network_Peer
begin

text \<open>
  The network service of \<open>network/src/cpp/network.rs\<close>: one record for what its tasks share, and one function per handler. The
  handlers take their locks one after the other; here each runs as one step. Hash maps are association lists. Instants are
  nanoseconds. The serialiser (\<open>wire_codec\<close>), the chain that answers block requests, random nonces and the clocks are
  arguments. The field \<open>nt_tasks\<close> lists the message loops that have been spawned, \<open>nt_handshakes\<close> the addresses of the
  accepted connections whose handshake is under way.
  The second half is the message loop of a peer and its handlers.
\<close>

section \<open>State\<close>

definition SECURITY_MALFORMED_STRIKE_THRESHOLD :: u32 where "SECURITY_MALFORMED_STRIKE_THRESHOLD = 5"
definition SECURITY_RATE_STRIKE_THRESHOLD :: u32 where "SECURITY_RATE_STRIKE_THRESHOLD = 50"
definition MESSAGE_READ_TIMEOUT :: nat where "MESSAGE_READ_TIMEOUT = 30 * secs"
definition MAX_BLOCKS_PER_RESPONSE :: u64 where "MAX_BLOCKS_PER_RESPONSE = 16"
definition MIN_HEALTHY_PEERS :: nat where "MIN_HEALTHY_PEERS = 1"

record cpp_config =
  cc_bootnodes :: "string list"
  cc_node_type :: cpp_node_type
  cc_max_connections_per_ip :: nat
  cc_max_total_connections :: nat
  cc_max_peers_per_subnet :: nat
  cc_ban_duration_secs :: u64
  cc_rate_bucket_capacity :: f64
  cc_rate_msgs_per_sec :: f64
  cc_require_encryption :: bool

definition cpp_config_default :: cpp_config where
  "cpp_config_default = \<lparr>cc_bootnodes = [], cc_node_type = CFull, cc_max_connections_per_ip = 12, cc_max_total_connections = 128,
     cc_max_peers_per_subnet = 8, cc_ban_duration_secs = 3600, cc_rate_bucket_capacity = f_of_rat 1000, cc_rate_msgs_per_sec = f_of_rat 250,
     cc_require_encryption = False\<rparr>"

record chain_view =
  cv_best_height :: u64
  cv_best_hash :: hash
  cv_genesis_hash :: hash
  cv_cumulative_work :: u128

datatype network_event =
    PeerConnected cpp_peer_id socket_addr cpp_node_type u64 hash
  | PeerDisconnected cpp_peer_id string
  | StatusUpdate cpp_peer_id u64 hash cpp_node_type u128
  | BlockReceived block cpp_peer_id
  | TransactionReceived transaction cpp_peer_id
  | BlocksReceived "block list" u64 cpp_peer_id

datatype network_command =
    ConnectBootnode socket_addr
  | BroadcastBlock block
  | BroadcastTransaction transaction
  | RequestBlocks cpp_peer_id u64 u64 u64
  | RequestHeaders cpp_peer_id u64 u64 u64
  | DisconnectPeer cpp_peer_id string
  | UpdateChainState u64 hash u128

datatype network_error = NetProtocol protocol_error | InvalidHandshake | PeerNotFound cpp_peer_id | NetTimeout | SendFailed

record message_task =
  tk_peer_id :: cpp_peer_id
  tk_ip :: ip_addr
  tk_outbound :: bool

record net =
  nt_config :: cpp_config
  nt_local_peer_id :: cpp_peer_id
  nt_peers :: "(cpp_peer_id \<times> peer) list"
  nt_router :: router
  nt_metrics :: node_metrics
  nt_chain :: chain_view
  nt_events :: "network_event list"
  nt_pending_requests :: "(u64 \<times> nat) list"
  nt_bootnode_backoff :: "(socket_addr \<times> nat) list"
  nt_last_bootnode_attempt :: "(socket_addr \<times> nat) list"
  nt_flock :: flock_state
  nt_seen_messages :: "(256 word \<times> nat) list"
  nt_signing_key :: "256 word option"
  nt_limiter :: connection_limiter
  nt_bans :: ban_list
  nt_guard :: eclipse_guard
  nt_buckets :: "(cpp_peer_id \<times> token_bucket) list"
  nt_malformed_strikes :: "(cpp_peer_id \<times> u32) list"
  nt_sm :: security_metrics
  nt_tasks :: "message_task list"
  nt_handshakes :: "ip_addr list"

record get_blocks_message =
  gb_from_height :: u64
  gb_to_height :: u64
  gb_request_id :: u64

record wire_codec =
  ser_hello :: "hello_message \<Rightarrow> bytes option"
  de_hello :: "bytes \<Rightarrow> hello_message option"
  ser_status :: "flock_compact status_message \<Rightarrow> bytes option"
  de_status :: "bytes \<Rightarrow> flock_compact status_message option"
  de_status_legacy :: "bytes \<Rightarrow> (u64 \<times> hash \<times> u8 \<times> u64 \<times> flock_compact option) option"
  ser_get_blocks :: "get_blocks_message \<Rightarrow> bytes option"
  de_get_blocks :: "bytes \<Rightarrow> get_blocks_message option"
  ser_blocks :: "block list \<times> u64 \<Rightarrow> bytes option"
  de_blocks :: "bytes \<Rightarrow> (block list \<times> u64) option"
  ser_new_block :: "block \<Rightarrow> bytes option"
  de_new_block :: "bytes \<Rightarrow> block option"
  ser_new_tx :: "transaction \<Rightarrow> bytes option"
  de_new_tx :: "bytes \<Rightarrow> transaction option"
  ser_ping :: "ping_message \<Rightarrow> bytes option"
  de_ping :: "bytes \<Rightarrow> ping_message option"

record net_env =
  ne_crypto :: crypto_ext
  ne_float :: float_ext
  ne_session :: session_ext
  ne_codec :: wire_codec
  ne_block :: "u64 \<Rightarrow> block option"
  ne_best :: u64

definition network_new ::
  "crypto_ext \<Rightarrow> cpp_config \<Rightarrow> cpp_peer_id \<Rightarrow> 256 word option \<Rightarrow> hash \<Rightarrow> u64 \<Rightarrow> hash \<Rightarrow> net" where
  "network_new X config local_peer_id key genesis_hash initial_height initial_hash =
     \<lparr>nt_config = config, nt_local_peer_id = local_peer_id, nt_peers = [], nt_router = [], nt_metrics = node_metrics_new,
      nt_chain = \<lparr>cv_best_height = initial_height, cv_best_hash = initial_hash, cv_genesis_hash = genesis_hash, cv_cumulative_work = 0\<rparr>,
      nt_events = [], nt_pending_requests = [], nt_bootnode_backoff = [], nt_last_bootnode_attempt = [],
      nt_flock = flock_new X genesis_hash initial_height local_peer_id, nt_seen_messages = [], nt_signing_key = key,
      nt_limiter = limiter_new (cc_max_connections_per_ip config) (cc_max_total_connections config),
      nt_bans = ban_list_new (unat (cc_ban_duration_secs config) * secs), nt_guard = guard_new (cc_max_peers_per_subnet config),
      nt_buckets = [], nt_malformed_strikes = [], nt_sm = metrics_default, nt_tasks = [], nt_handshakes = []\<rparr>"

definition emit :: "network_event \<Rightarrow> net \<Rightarrow> net" where
  "emit e n = n\<lparr>nt_events := nt_events n @ [e]\<rparr>"

definition on_sm :: "(security_metrics \<Rightarrow> security_metrics) \<Rightarrow> net \<Rightarrow> net" where
  "on_sm f n = n\<lparr>nt_sm := f (nt_sm n)\<rparr>"

definition on_net_peer :: "cpp_peer_id \<Rightarrow> (peer \<Rightarrow> peer) \<Rightarrow> net \<Rightarrow> net" where
  "on_net_peer i f n = n\<lparr>nt_peers := map (\<lambda>(k, p). (k, if k = i then f p else p)) (nt_peers n)\<rparr>"

definition release_slots :: "ip_addr \<Rightarrow> net \<Rightarrow> net" where
  "release_slots ip n = n\<lparr>nt_limiter := release_conn ip (nt_limiter n), nt_guard := guard_remove ip (nt_guard n)\<rparr>"

section \<open>Accepting a connection\<close>

definition accept_gate :: "nat \<Rightarrow> ip_addr \<Rightarrow> net \<Rightarrow> bool \<times> net" where
  "accept_gate now ip n =
     (if is_ip_banned now (nt_bans n) ip
      then (False, on_sm (\<lambda>m. m\<lparr>sm_connections_rejected_ban := sm_connections_rejected_ban m + 1\<rparr>) n)
      else case try_acquire ip (nt_limiter n) of
        (Inl (TooManyFromIp _ _ _), l) \<Rightarrow>
          (False, on_sm (\<lambda>m. m\<lparr>sm_connections_rejected_ip_limit := sm_connections_rejected_ip_limit m + 1\<rparr>) (n\<lparr>nt_limiter := l\<rparr>))
      | (Inl (TotalCapacityReached _ _), l) \<Rightarrow>
          (False, on_sm (\<lambda>m. m\<lparr>sm_connections_rejected_total_limit := sm_connections_rejected_total_limit m + 1\<rparr>) (n\<lparr>nt_limiter := l\<rparr>))
      | (Inr _, l) \<Rightarrow>
          case guard_add ip (nt_guard n) of
            (False, g) \<Rightarrow>
              (False, on_sm (\<lambda>m. m\<lparr>sm_connections_rejected_eclipse := sm_connections_rejected_eclipse m + 1\<rparr>)
                (n\<lparr>nt_limiter := release_conn ip l, nt_guard := g\<rparr>))
          | (True, g) \<Rightarrow> (True, n\<lparr>nt_limiter := l, nt_guard := g, nt_handshakes := ip # nt_handshakes n\<rparr>))"

text \<open>What arrives on a connection and what the task draws while it handles it: the bytes, which waits ran out, whether the
  answer could be sent, the ephemeral key, the two nonces and the clocks.\<close>

record arrival =
  ar_addr :: socket_addr
  ar_stream :: bytes
  ar_ephemeral :: "256 word"
  ar_auth_late :: bool
  ar_hello_late :: bool
  ar_send :: "(protocol_error + unit) option"
  ar_ack_nonce :: u64
  ar_nonce :: u64
  ar_unix :: u64
  ar_now :: nat

definition fail_incoming :: "network_error \<Rightarrow> ip_addr \<Rightarrow> net \<Rightarrow> (network_error + cpp_peer_id) \<times> net" where
  "fail_incoming e ip n = (Inl e, (release_slots ip n)\<lparr>nt_handshakes := remove1 ip (nt_handshakes n)\<rparr>)"

definition incoming_auth :: "net_env \<Rightarrow> arrival \<Rightarrow> net \<Rightarrow> ((network_error + cpp_peer_id option) \<times> bytes) \<times> net" where
  "incoming_auth E a n =
     (let failed = on_sm (\<lambda>m. m\<lparr>sm_auth_failures := sm_auth_failures m + 1\<rparr>) n in
      case nt_signing_key n of
        Some sk \<Rightarrow>
          (if ar_auth_late a then ((Inl NetTimeout, ar_stream a), failed)
           else case perform_handshake_responder (ne_crypto E) (ne_session E) sk (ar_ephemeral a) (ar_stream a) of
             (Inr r, s, _) \<Rightarrow> ((Inr (Some (hr_peer_id r)), s), on_sm on_peer_connect n)
           | (Inl _, s, _) \<Rightarrow> ((Inl InvalidHandshake, s), failed))
      | None \<Rightarrow>
          (if cc_require_encryption (nt_config n) then ((Inl InvalidHandshake, ar_stream a), n)
           else ((Inr None, ar_stream a), on_sm on_peer_connect n)))"

definition own_hello :: "net_env \<Rightarrow> cpp_node_type \<Rightarrow> u64 \<Rightarrow> u64 \<Rightarrow> net \<Rightarrow> hello_message" where
  "own_hello E node_type unix nonce n =
     (let c = nt_chain n;
          (key, sig) = (case nt_signing_key n of
             Some sk \<Rightarrow> sign_hello (ne_crypto E) sk (cv_genesis_hash c) unix nonce (nt_local_peer_id n) | None \<Rightarrow> (0, 0))
      in \<lparr>hm_version = VERSION, hm_peer_id = nt_local_peer_id n, hm_best_height = cv_best_height c, hm_best_hash = cv_best_hash c,
          hm_genesis_hash = cv_genesis_hash c, hm_node_type = node_type_as_u8 node_type, hm_timestamp = unix,
          hm_connection_nonce = nonce, hm_ed25519_pubkey = key, hm_auth_signature = sig\<rparr>)"

text \<open>What both sides check of a Hello: it is the same message type on the wire, and only the genesis and the type byte count.\<close>

definition check_hello :: "net_env \<Rightarrow> hash \<Rightarrow> bytes \<Rightarrow> network_error + (cpp_peer_id \<times> cpp_node_type \<times> u64 \<times> hash)" where
  "check_hello E genesis s =
     (case decode_envelope (ne_crypto E) s of (Inl e, _) \<Rightarrow> Inl (NetProtocol e)
      | (Inr env, _) \<Rightarrow>
          case envelope_deserialize (de_hello (ne_codec E)) env of Inl e \<Rightarrow> Inl (NetProtocol e)
          | Inr hello \<Rightarrow>
              if hm_genesis_hash hello \<noteq> genesis then Inl InvalidHandshake
              else case node_type_from_u8 (hm_node_type hello) of None \<Rightarrow> Inl InvalidHandshake
              | Some t \<Rightarrow> Inr (hm_peer_id hello, t, hm_best_height hello, hm_best_hash hello))"

definition handshake :: "net_env \<Rightarrow> arrival \<Rightarrow> bytes \<Rightarrow> net \<Rightarrow> network_error + (cpp_peer_id \<times> cpp_node_type \<times> u64 \<times> hash)" where
  "handshake E a s n =
     (if ar_hello_late a then Inl NetTimeout
      else case check_hello E (cv_genesis_hash (nt_chain n)) s of Inl e \<Rightarrow> Inl e
      | Inr r \<Rightarrow>
          case envelope_new (ser_hello (ne_codec E)) MtHelloAck (own_hello E CFull (ar_unix a) (ar_ack_nonce a) n) of
            Inl e \<Rightarrow> Inl (NetProtocol e)
          | Inr _ \<Rightarrow> case ar_send a of None \<Rightarrow> Inl NetTimeout | Some (Inl e) \<Rightarrow> Inl (NetProtocol e) | Some (Inr _) \<Rightarrow> Inr r)"

definition register_peer :: "nat \<Rightarrow> peer \<Rightarrow> net \<Rightarrow> net" where
  "register_peer now p n =
     (let p = p\<lparr>pe_state := Connected\<rparr> in
      emit (PeerConnected (pe_id p) (pe_addr p) (pe_node_type p) (pe_best_height p) (pe_best_hash p))
        (n\<lparr>nt_peers := AList.update (pe_id p) p (nt_peers n), nt_router := router_add_peer (router_peer_of now p) (nt_router n)\<rparr>))"

definition init_bucket :: "nat \<Rightarrow> cpp_peer_id \<Rightarrow> net \<Rightarrow> net" where
  "init_bucket now i n =
     (if map_of (nt_buckets n) i = None
      then n\<lparr>nt_buckets := AList.update i (bucket_new now (cc_rate_bucket_capacity (nt_config n)) (cc_rate_msgs_per_sec (nt_config n)))
        (nt_buckets n)\<rparr>
      else n)"

definition handle_incoming :: "net_env \<Rightarrow> arrival \<Rightarrow> net \<Rightarrow> (network_error + cpp_peer_id) \<times> net" where
  "handle_incoming E a n =
     (let ip = sa_ip (ar_addr a) in
      case incoming_auth E a n of ((Inl e, _), n) \<Rightarrow> fail_incoming e ip n
      | ((Inr auth, s), n) \<Rightarrow>
          case handshake E a s n of Inl e \<Rightarrow> fail_incoming e ip n
          | Inr (i, node_type, height, h) \<Rightarrow>
              if auth \<noteq> None \<and> auth \<noteq> Some i
              then fail_incoming InvalidHandshake ip (n\<lparr>nt_bans := ban_ip (ar_now a) ip ''peer_id/auth key mismatch'' (nt_bans n)\<rparr>)
              else if map_of (nt_peers n) i \<noteq> None then fail_incoming InvalidHandshake ip n
              else
                let p = peer_new (ar_now a) i (ar_addr a) node_type height h (cv_genesis_hash (nt_chain n)) (ar_nonce a) False;
                    n = init_bucket (ar_now a) i (register_peer (ar_now a) p n)
                in (Inr i, n\<lparr>nt_handshakes := remove1 ip (nt_handshakes n),
                      nt_tasks := nt_tasks n @ [\<lparr>tk_peer_id = i, tk_ip = ip, tk_outbound = False\<rparr>]\<rparr>))"

section \<open>Dialling\<close>

text \<open>\<open>dl_connected\<close> says whether TCP connected, and when it did not, whether it was late.\<close>

record dial =
  dl_addr :: socket_addr
  dl_connected :: "network_error + unit"
  dl_send :: "(protocol_error + unit) option"
  dl_ack_late :: bool
  dl_stream :: bytes
  dl_nonce :: u64
  dl_unix :: u64
  dl_now :: nat

definition connect_bootnode :: "net_env \<Rightarrow> dial \<Rightarrow> net \<Rightarrow> (network_error + cpp_peer_id) \<times> net" where
  "connect_bootnode E d n =
     (let addr = dl_addr d in
      if \<exists>p\<in>set (map snd (nt_peers n)). pe_addr p = addr then (Inl InvalidHandshake, n)
      else case dl_connected d of Inl e \<Rightarrow> (Inl e, n)
      | Inr _ \<Rightarrow>
          case envelope_new (ser_hello (ne_codec E)) MtHello (own_hello E (cc_node_type (nt_config n)) (dl_unix d) (dl_nonce d) n) of
            Inl e \<Rightarrow> (Inl (NetProtocol e), n)
          | Inr _ \<Rightarrow>
              case dl_send d of None \<Rightarrow> (Inl NetTimeout, n) | Some (Inl e) \<Rightarrow> (Inl (NetProtocol e), n)
              | Some (Inr _) \<Rightarrow>
                  if dl_ack_late d then (Inl NetTimeout, n)
                  else case check_hello E (cv_genesis_hash (nt_chain n)) (dl_stream d) of Inl e \<Rightarrow> (Inl e, n)
                  | Inr (i, node_type, height, h) \<Rightarrow>
                      if map_of (nt_peers n) i \<noteq> None then (Inl InvalidHandshake, n)
                      else
                        let p = peer_new (dl_now d) i addr node_type height h (cv_genesis_hash (nt_chain n)) (dl_nonce d) True;
                            n = register_peer (dl_now d) p n;
                            n = n\<lparr>nt_guard := snd (guard_add (sa_ip addr) (nt_guard n))\<rparr>;
                            n = init_bucket (dl_now d) i n
                        in (Inr i, n\<lparr>nt_tasks := nt_tasks n @ [\<lparr>tk_peer_id = i, tk_ip = sa_ip addr, tk_outbound = True\<rparr>]\<rparr>))"

definition dial_finished :: "net_env \<Rightarrow> dial \<Rightarrow> net \<Rightarrow> net" where
  "dial_finished E d n =
     (let initial_backoff = 1 * secs; max_backoff = 60 * secs in
      case connect_bootnode E d n of
        (Inr _, n) \<Rightarrow> n\<lparr>nt_bootnode_backoff := AList.update (dl_addr d) initial_backoff (nt_bootnode_backoff n)\<rparr>
      | (Inl _, n) \<Rightarrow>
          let current = (case map_of (nt_bootnode_backoff n) (dl_addr d) of Some b \<Rightarrow> b | None \<Rightarrow> initial_backoff)
          in n\<lparr>nt_bootnode_backoff := AList.update (dl_addr d) (min (current * 2) max_backoff) (nt_bootnode_backoff n)\<rparr>)"

text \<open>
  The handlers of the messages of a peer and the message loop around them: the middle of \<open>network/src/cpp/network.rs\<close>. An error
  of a handler is only logged by the loop.
\<close>

section \<open>Handlers\<close>

definition peer_at :: "net \<Rightarrow> cpp_peer_id \<Rightarrow> peer option" where
  "peer_at n i = map_of (nt_peers n) i"

text \<open>Sending to one peer: the counters change when the channel took the message.\<close>

definition send_to :: "cpp_peer_id \<Rightarrow> bytes \<Rightarrow> net \<Rightarrow> net option" where
  "send_to i d n = (case peer_at n i of None \<Rightarrow> None
     | Some p \<Rightarrow> if send_message d p = None then None
         else Some (on_net_peer i (\<lambda>p. peer_sent (length d) (case send_message d p of Some q \<Rightarrow> q | None \<Rightarrow> p)) n))"

definition handle_status :: "net_env \<Rightarrow> nat \<Rightarrow> cpp_peer_id \<Rightarrow> envelope \<Rightarrow> net \<Rightarrow> (network_error + unit) \<times> net" where
  "handle_status E now i env n =
     (case status_decode_compat (de_status (ne_codec E)) (de_status_legacy (ne_codec E)) (env_payload env) of
        None \<Rightarrow> (Inl (NetProtocol DeserializationError), n)
      | Some st \<Rightarrow>
          case node_type_from_u8 (st_node_type st) of None \<Rightarrow> (Inl InvalidHandshake, n)
          | Some t \<Rightarrow>
              let n = on_net_peer i (update_status now (st_best_height st) (st_best_hash st) t (st_cumulative_work st)) n;
                  n = (case st_flock_state st of Some fl \<Rightarrow> n\<lparr>nt_router := update_peer_flock i fl (st_best_height st) (nt_router n)\<rparr>
                       | None \<Rightarrow> n);
                  heights = map (pe_best_height \<circ> snd) (nt_peers n);
                  n = (if heights \<noteq> [] then n\<lparr>nt_flock := update_from_peers (ne_float E) heights (nt_flock n)\<rparr> else n)
              in (Inr (), emit (StatusUpdate i (st_best_height st) (st_best_hash st) t (st_cumulative_work st)) n))"

definition clamped_to :: "get_blocks_message \<Rightarrow> u64" where
  "clamped_to g =
     (let requested_count = saturating_sub_word (gb_to_height g) (gb_from_height g) + 1 in
      if MAX_BLOCKS_PER_RESPONSE < requested_count then gb_from_height g + MAX_BLOCKS_PER_RESPONSE - 1 else gb_to_height g)"

definition blocks_to_serve :: "net_env \<Rightarrow> get_blocks_message \<Rightarrow> block list" where
  "blocks_to_serve E g = get_blocks_range (ne_block E) (ne_best E) (gb_from_height g) (clamped_to g)"

definition handle_get_blocks :: "net_env \<Rightarrow> cpp_peer_id \<Rightarrow> envelope \<Rightarrow> net \<Rightarrow> (network_error + unit) \<times> net" where
  "handle_get_blocks E i env n =
     (case envelope_deserialize (de_get_blocks (ne_codec E)) env of Inl e \<Rightarrow> (Inl (NetProtocol e), n)
      | Inr g \<Rightarrow>
          case peer_at n i of None \<Rightarrow> (Inr (), n)
          | Some p \<Rightarrow>
              case envelope_new (ser_blocks (ne_codec E)) MtBlocks (blocks_to_serve E g, gb_request_id g) of
                Inl e \<Rightarrow> (Inl (NetProtocol e), n)
              | Inr out \<Rightarrow> case send_to i (encode_envelope (ne_crypto E) out) n of None \<Rightarrow> (Inl SendFailed, n) | Some n \<Rightarrow> (Inr (), n))"

definition handle_blocks :: "net_env \<Rightarrow> cpp_peer_id \<Rightarrow> envelope \<Rightarrow> net \<Rightarrow> (network_error + unit) \<times> net" where
  "handle_blocks E i env n =
     (case envelope_deserialize (de_blocks (ne_codec E)) env of Inl e \<Rightarrow> (Inl (NetProtocol e), n)
      | Inr (blocks, request_id) \<Rightarrow>
          (Inr (), emit (BlocksReceived blocks request_id i)
             (n\<lparr>nt_pending_requests := AList.delete request_id (nt_pending_requests n)\<rparr>)))"

definition SEEN_TTL :: nat where "SEEN_TTL = 60 * secs"
definition SEEN_CAP :: nat where "SEEN_CAP = 5000"

definition check_seen :: "crypto_ext \<Rightarrow> nat \<Rightarrow> bytes \<Rightarrow> (256 word \<times> nat) list \<Rightarrow> bool \<times> (256 word \<times> nat) list" where
  "check_seen X now payload seen =
     (let h = blake3 X payload; kept = dropWhile (\<lambda>(_, t). SEEN_TTL < now - t) seen in
      if \<exists>(h', _)\<in>set kept. h' = h then (True, kept)
      else (False, (if SEEN_CAP \<le> length kept then tl kept else kept) @ [(h, now)]))"

definition handle_new_block :: "net_env \<Rightarrow> nat \<Rightarrow> cpp_peer_id \<Rightarrow> envelope \<Rightarrow> net \<Rightarrow> (network_error + unit) \<times> net" where
  "handle_new_block E now i env n =
     (case check_seen (ne_crypto E) now (env_payload env) (nt_seen_messages n) of
        (True, seen) \<Rightarrow> (Inr (), n\<lparr>nt_seen_messages := seen\<rparr>)
      | (False, seen) \<Rightarrow>
          let n = n\<lparr>nt_seen_messages := seen\<rparr> in
          case envelope_deserialize (de_new_block (ne_codec E)) env of Inl e \<Rightarrow> (Inl (NetProtocol e), n)
          | Inr b \<Rightarrow> (Inr (), emit (BlockReceived b i) n))"

definition handle_new_transaction :: "net_env \<Rightarrow> nat \<Rightarrow> cpp_peer_id \<Rightarrow> envelope \<Rightarrow> net \<Rightarrow> (network_error + unit) \<times> net" where
  "handle_new_transaction E now i env n =
     (case check_seen (ne_crypto E) now (env_payload env) (nt_seen_messages n) of
        (True, seen) \<Rightarrow> (Inr (), n\<lparr>nt_seen_messages := seen\<rparr>)
      | (False, seen) \<Rightarrow>
          let n = n\<lparr>nt_seen_messages := seen\<rparr> in
          case envelope_deserialize (de_new_tx (ne_codec E)) env of Inl e \<Rightarrow> (Inl (NetProtocol e), n)
          | Inr tx \<Rightarrow> (Inr (), emit (TransactionReceived tx i) n))"

definition handle_ping :: "net_env \<Rightarrow> u64 \<Rightarrow> cpp_peer_id \<Rightarrow> envelope \<Rightarrow> net \<Rightarrow> (network_error + unit) \<times> net" where
  "handle_ping E unix i env n =
     (case envelope_deserialize (de_ping (ne_codec E)) env of Inl e \<Rightarrow> (Inl (NetProtocol e), n)
      | Inr ping \<Rightarrow>
          case peer_at n i of None \<Rightarrow> (Inr (), n)
          | Some p \<Rightarrow>
              case envelope_new (ser_ping (ne_codec E)) MtPong \<lparr>pg_timestamp = unix, pg_nonce = pg_nonce ping\<rparr> of
                Inl e \<Rightarrow> (Inl (NetProtocol e), n)
              | Inr out \<Rightarrow> case send_to i (encode_envelope (ne_crypto E) out) n of None \<Rightarrow> (Inl SendFailed, n) | Some n \<Rightarrow> (Inr (), n))"

definition pong_received :: "nat \<Rightarrow> peer \<Rightarrow> peer" where
  "pong_received now p = (case pe_last_ping p of None \<Rightarrow> p
     | Some t \<Rightarrow> (peer_ack now (now - t) p)\<lparr>pe_pending_ping_nonce := None\<rparr>)"

definition handle_pong :: "net_env \<Rightarrow> nat \<Rightarrow> cpp_peer_id \<Rightarrow> envelope \<Rightarrow> net \<Rightarrow> (network_error + unit) \<times> net" where
  "handle_pong E now i env n =
     (case envelope_deserialize (de_ping (ne_codec E)) env of Inl e \<Rightarrow> (Inl (NetProtocol e), n)
      | Inr _ \<Rightarrow> (Inr (), on_net_peer i (pong_received now) n))"

definition handle_peer_message ::
  "net_env \<Rightarrow> nat \<Rightarrow> u64 \<Rightarrow> cpp_peer_id \<Rightarrow> envelope \<Rightarrow> net \<Rightarrow> (network_error + unit) \<times> net" where
  "handle_peer_message E now unix i env n =
     (let n = on_net_peer i (peer_received now (length (env_payload env))) n in
      case env_msg_type env of
        MtStatus \<Rightarrow> handle_status E now i env n
      | MtGetBlocks \<Rightarrow> handle_get_blocks E i env n
      | MtBlocks \<Rightarrow> handle_blocks E i env n
      | MtNewBlock \<Rightarrow> handle_new_block E now i env n
      | MtNewTransaction \<Rightarrow> handle_new_transaction E now i env n
      | MtPing \<Rightarrow> handle_ping E unix i env n
      | MtPong \<Rightarrow> handle_pong E now i env n
      | MtDisconnect \<Rightarrow> (Inl InvalidHandshake, n)
      | _ \<Rightarrow> (Inr (), n))"

section \<open>The message loop\<close>

definition consume_token :: "nat \<Rightarrow> cpp_peer_id \<Rightarrow> net \<Rightarrow> bool \<times> net" where
  "consume_token now i n =
     (case map_of (nt_buckets n) i of None \<Rightarrow> (True, n)
      | Some b \<Rightarrow> case try_consume now b of (ok, b') \<Rightarrow> (ok, n\<lparr>nt_buckets := AList.update i b' (nt_buckets n)\<rparr>))"

definition ban_both_short :: "nat \<Rightarrow> cpp_peer_id \<Rightarrow> string \<Rightarrow> net \<Rightarrow> net" where
  "ban_both_short now i reason n =
     (case peer_at n i of None \<Rightarrow> n
      | Some p \<Rightarrow> n\<lparr>nt_bans := ban_peer_short now i reason (ban_ip_short now (sa_ip (pe_addr p)) reason (nt_bans n))\<rparr>)"

definition ban_both :: "nat \<Rightarrow> cpp_peer_id \<Rightarrow> string \<Rightarrow> net \<Rightarrow> net" where
  "ban_both now i reason n =
     (case peer_at n i of None \<Rightarrow> n
      | Some p \<Rightarrow> on_sm (\<lambda>m. m\<lparr>sm_peers_banned := sm_peers_banned m + 1\<rparr>)
          (n\<lparr>nt_bans := ban_peer now i reason (ban_ip now (sa_ip (pe_addr p)) reason (nt_bans n))\<rparr>))"

definition strikes_of :: "cpp_peer_id \<Rightarrow> net \<Rightarrow> u32" where
  "strikes_of i n = (case map_of (nt_buckets n) i of Some b \<Rightarrow> tb_strikes b | None \<Rightarrow> 0)"

definition on_frame :: "net_env \<Rightarrow> nat \<Rightarrow> u64 \<Rightarrow> cpp_peer_id \<Rightarrow> envelope \<Rightarrow> net \<Rightarrow> bool \<times> net" where
  "on_frame E now unix i env n =
     (let n = on_net_peer i (on_successful_read now (length (env_payload env))) n; (ok, n) = consume_token now i n in
      if \<not> ok then
        let n = on_sm (\<lambda>m. m\<lparr>sm_messages_dropped_rate_limit := sm_messages_dropped_rate_limit m + 1\<rparr>) n
        in if SECURITY_RATE_STRIKE_THRESHOLD \<le> strikes_of i n
           then (False, ban_both_short now i ''rate limit strikes exceeded'' n) else (True, n)
      else
        let n = on_sm (on_message_received (type_byte (env_msg_type env)) (of_nat (length (env_payload env)))) n
        in (True, snd (handle_peer_message E now unix i env n)))"

definition on_malformed :: "nat \<Rightarrow> cpp_peer_id \<Rightarrow> net \<Rightarrow> net" where
  "on_malformed now i n =
     (let strikes = (case map_of (nt_malformed_strikes n) i of Some c \<Rightarrow> c | None \<Rightarrow> 0) + 1;
          n = n\<lparr>nt_malformed_strikes := AList.update i strikes (nt_malformed_strikes n)\<rparr>;
          n = on_sm (\<lambda>m. m\<lparr>sm_messages_dropped_malformed := sm_messages_dropped_malformed m + 1\<rparr>) n
      in if SECURITY_MALFORMED_STRIKE_THRESHOLD \<le> strikes then ban_both now i ''malformed messages'' n else n)"

fun malformed :: "protocol_error \<Rightarrow> bool" where
  "malformed (InvalidMagic _) = True"
| "malformed (InvalidVersion _) = True"
| "malformed (InvalidMessageType _) = True"
| "malformed InvalidChecksum = True"
| "malformed _ = False"

definition on_read_error :: "nat \<Rightarrow> cpp_peer_id \<Rightarrow> protocol_error \<Rightarrow> net \<Rightarrow> bool \<times> net" where
  "on_read_error now i e n =
     (case e of
        ProtoTimeout _ \<Rightarrow>
          (case peer_at n i of None \<Rightarrow> (False, n)
           | Some p \<Rightarrow> (\<not> fst (on_read_timeout now p), on_net_peer i (\<lambda>p. snd (on_read_timeout now p)) n))
      | MessageTooLarge _ \<Rightarrow> (False, on_sm (\<lambda>m. m\<lparr>sm_messages_dropped_size_limit := sm_messages_dropped_size_limit m + 1\<rparr>) n)
      | _ \<Rightarrow> (False, if malformed e then on_malformed now i n else n))"

text \<open>A turn of the loop: whether it goes on, and the state.\<close>

definition loop_turn :: "net_env \<Rightarrow> nat \<Rightarrow> u64 \<Rightarrow> cpp_peer_id \<Rightarrow> protocol_error + envelope \<Rightarrow> net \<Rightarrow> bool \<times> net" where
  "loop_turn E now unix i received n =
     (if \<not> (case peer_at n i of Some p \<Rightarrow> pe_state p = Connected | None \<Rightarrow> False) then (False, n)
      else case received of Inr env \<Rightarrow> on_frame E now unix i env n | Inl e \<Rightarrow> on_read_error now i e n)"

definition drop_peer :: "cpp_peer_id \<Rightarrow> string \<Rightarrow> net \<Rightarrow> net" where
  "drop_peer i reason n = emit (PeerDisconnected i reason)
     (n\<lparr>nt_peers := AList.delete i (nt_peers n), nt_router := router_remove_peer i (nt_router n)\<rparr>)"

definition loop_exit :: "cpp_peer_id \<Rightarrow> net \<Rightarrow> net" where
  "loop_exit i n =
     (let n = (if peer_at n i = None then n else drop_peer i ''Connection closed'' n)
      in on_sm on_peer_disconnect
           (n\<lparr>nt_buckets := AList.delete i (nt_buckets n), nt_malformed_strikes := AList.delete i (nt_malformed_strikes n)\<rparr>))"

text \<open>When the loop has ended, its task gives its slots back: an inbound one both, an outbound one only the subnet's.\<close>

definition task_end :: "message_task \<Rightarrow> net \<Rightarrow> net" where
  "task_end t n =
     (let n = loop_exit (tk_peer_id t) n;
          n = (if tk_outbound t then n\<lparr>nt_guard := guard_remove (tk_ip t) (nt_guard n)\<rparr> else release_slots (tk_ip t) n)
      in n\<lparr>nt_tasks := remove1 t (nt_tasks n)\<rparr>)"

definition task_turn :: "net_env \<Rightarrow> nat \<Rightarrow> u64 \<Rightarrow> message_task \<Rightarrow> protocol_error + envelope \<Rightarrow> net \<Rightarrow> net" where
  "task_turn E now unix t received n =
     (case loop_turn E now unix (tk_peer_id t) received n of (True, n) \<Rightarrow> n | (False, n) \<Rightarrow> task_end t n)"

end
