(* ===== verification/Network_Run.thy ===== *)
theory Network_Run
  imports Network_Service
begin

text \<open>
  Broadcasts, requests, the periodic jobs and the commands of \<open>network/src/cpp/network.rs\<close>, and the whole service as a
  function of what happens to it.
\<close>

section \<open>Broadcasts and requests\<close>

definition broadcast_targets :: "float_ext \<Rightarrow> net \<Rightarrow> cpp_peer_id list" where
  "broadcast_targets F n =
     (if nt_router n = [] then map fst (nt_peers n)
      else select_broadcast_peers_flock F (cv_best_height (nt_chain n)) (fl_phase (nt_flock n)) (nt_router n))"

fun send_each :: "cpp_peer_id list \<Rightarrow> bytes \<Rightarrow> net \<Rightarrow> net" where
  "send_each [] d n = n"
| "send_each (i # is) d n = send_each is d (case send_to i d n of Some n' \<Rightarrow> n' | None \<Rightarrow> n)"

definition send_all :: "crypto_ext \<Rightarrow> ('a \<Rightarrow> bytes option) \<Rightarrow> message_type \<Rightarrow> 'a \<Rightarrow> cpp_peer_id list \<Rightarrow> net \<Rightarrow> (network_error + unit) \<times> net" where
  "send_all X ser t m is n =
     (if \<forall>i\<in>set is. peer_at n i = None then (Inr (), n)
      else case envelope_new ser t m of Inl e \<Rightarrow> (Inl (NetProtocol e), n) | Inr env \<Rightarrow> (Inr (), send_each is (encode_envelope X env) n))"

definition broadcast_block :: "net_env \<Rightarrow> block \<Rightarrow> net \<Rightarrow> (network_error + unit) \<times> net" where
  "broadcast_block E b n =
     (let router_peers = broadcast_targets (ne_float E) n; peer_refs = List.map_filter (peer_at n) router_peers;
          ids = (if peer_refs \<noteq> [] then select_for_propagation peer_refs (length router_peers) else router_peers)
      in send_all (ne_crypto E) (ser_new_block (ne_codec E)) MtNewBlock b ids n)"

definition broadcast_transaction :: "net_env \<Rightarrow> transaction \<Rightarrow> net \<Rightarrow> (network_error + unit) \<times> net" where
  "broadcast_transaction E tx n =
     send_all (ne_crypto E) (ser_new_tx (ne_codec E)) MtNewTransaction tx (broadcast_targets (ne_float E) n) n"

definition request_blocks :: "net_env \<Rightarrow> nat \<Rightarrow> cpp_peer_id \<Rightarrow> get_blocks_message \<Rightarrow> net \<Rightarrow> (network_error + unit) \<times> net" where
  "request_blocks E now i g n =
     (case peer_at n i of None \<Rightarrow> (Inl (PeerNotFound i), n)
      | Some p \<Rightarrow>
          case envelope_new (ser_get_blocks (ne_codec E)) MtGetBlocks g of Inl e \<Rightarrow> (Inl (NetProtocol e), n)
          | Inr env \<Rightarrow>
              case send_to i (encode_envelope (ne_crypto E) env) n of None \<Rightarrow> (Inl SendFailed, n)
              | Some n \<Rightarrow> (Inr (), n\<lparr>nt_pending_requests := AList.update (gb_request_id g) now (nt_pending_requests n)\<rparr>))"

definition request_headers :: "cpp_peer_id \<Rightarrow> net \<Rightarrow> network_error + unit" where
  "request_headers i n = (case peer_at n i of None \<Rightarrow> Inl (PeerNotFound i) | Some _ \<Rightarrow> Inr ())"

section \<open>Periodic jobs\<close>

definition send_pings :: "net_env \<Rightarrow> nat \<Rightarrow> u64 \<Rightarrow> (cpp_peer_id \<Rightarrow> u64) \<Rightarrow> net \<Rightarrow> net" where
  "send_pings E now unix draw n =
     n\<lparr>nt_peers := map (\<lambda>(i, p). (i, if needs_ping now p then snd (send_ping (ne_crypto E) (ser_ping (ne_codec E)) now unix (draw i) p) else p))
        (nt_peers n)\<rparr>"

definition remove_stale :: "cpp_peer_id \<times> ip_addr \<Rightarrow> net \<Rightarrow> net" where
  "remove_stale e n = (case peer_at n (fst e) of None \<Rightarrow> n | Some _ \<Rightarrow>
     emit (PeerDisconnected (fst e) ''Timeout'')
       (release_slots (snd e) (n\<lparr>nt_peers := AList.delete (fst e) (nt_peers n), nt_router := router_remove_peer (fst e) (nt_router n)\<rparr>)))"

definition stale_peers :: "nat \<Rightarrow> net \<Rightarrow> (cpp_peer_id \<times> ip_addr) list" where
  "stale_peers now n = map (\<lambda>(i, p). (i, sa_ip (pe_addr p))) (filter (\<lambda>(i, p). PEER_TIMEOUT < now - pe_last_seen p) (nt_peers n))"

definition cleanup_stale_peers :: "nat \<Rightarrow> net \<Rightarrow> net" where
  "cleanup_stale_peers now n =
     (let stale = stale_peers now n;
          n = (if stale = [] then n
               else let n = fold remove_stale stale n
                    in n\<lparr>nt_pending_requests := filter (\<lambda>(_, t). now - t < 30 * secs) (nt_pending_requests n),
                         nt_buckets := fold (\<lambda>(i, _). AList.delete i) stale (nt_buckets n),
                         nt_malformed_strikes := fold (\<lambda>(i, _). AList.delete i) stale (nt_malformed_strikes n)\<rparr>)
      in n\<lparr>nt_bans := cleanup_expired now (nt_bans n)\<rparr>)"

definition own_status :: "u64 \<Rightarrow> net \<Rightarrow> flock_compact status_message" where
  "own_status unix n =
     (let c = nt_chain n in
      \<lparr>st_best_height = cv_best_height c, st_best_hash = cv_best_hash c, st_node_type = node_type_as_u8 (cc_node_type (nt_config n)),
       st_timestamp = unix, st_flock_state = Some (compact_of (nt_flock n)), st_cumulative_work = cv_cumulative_work c\<rparr>)"

definition broadcast_status :: "net_env \<Rightarrow> u64 \<Rightarrow> net \<Rightarrow> net" where
  "broadcast_status E unix n =
     (if nt_peers n = [] then n
      else case envelope_new (ser_status (ne_codec E)) MtStatus (own_status unix n) of Inl _ \<Rightarrow> n
      | Inr env \<Rightarrow> n\<lparr>nt_peers := map (\<lambda>(i, p). (i, case send_message (encode_envelope (ne_crypto E) env) p of Some q \<Rightarrow> q | None \<Rightarrow> p))
          (nt_peers n)\<rparr>)"

definition sync_median :: "u64 list \<Rightarrow> u64" where
  "sync_median heights =
     (let hs = sort heights; mid = length hs div 2 in
      if even (length hs) then (hs ! (mid - 1) + hs ! mid) div 2 else hs ! mid)"

definition cmp_word :: "'w::len word \<Rightarrow> 'w word \<Rightarrow> ordering" where
  "cmp_word a b = (if a < b then Less else if b < a then Greater else Equal)"

definition sync_cmp :: "cpp_peer_id \<times> peer \<Rightarrow> cpp_peer_id \<times> peer \<Rightarrow> ordering" where
  "sync_cmp a b = then_with (cmp_word (pe_cumulative_work (snd a)) (pe_cumulative_work (snd b)))
     (cmp_word (pe_best_height (snd a)) (pe_best_height (snd b)))"

text \<open>Whom to ask for which blocks, or nothing.\<close>

definition sync_request :: "u64 \<Rightarrow> net \<Rightarrow> (cpp_peer_id \<times> get_blocks_message) option" where
  "sync_request request_id n =
     (let our_height = cv_best_height (nt_chain n); heights = map (pe_best_height \<circ> snd) (nt_peers n) in
      if nt_peers n = [] \<or> sync_median heights \<le> our_height \<or> \<not> 1 < sync_median heights - our_height then None
      else case max_by sync_cmp (nt_peers n) of None \<Rightarrow> None
      | Some (i, p) \<Rightarrow> Some (i, \<lparr>gb_from_height = our_height + 1, gb_to_height = min (pe_best_height p) (our_height + MAX_BLOCKS_PER_RESPONSE),
          gb_request_id = request_id\<rparr>))"

definition check_sync_status :: "net_env \<Rightarrow> nat \<Rightarrow> u64 \<Rightarrow> net \<Rightarrow> net" where
  "check_sync_status E now request_id n =
     (case sync_request request_id n of None \<Rightarrow> n | Some (i, g) \<Rightarrow> snd (request_blocks E now i g n))"

definition may_dial :: "nat \<Rightarrow> net \<Rightarrow> socket_addr \<Rightarrow> bool" where
  "may_dial now n addr = (case map_of (nt_last_bootnode_attempt n) addr of None \<Rightarrow> True
     | Some last_ns \<Rightarrow> (case map_of (nt_bootnode_backoff n) addr of Some b \<Rightarrow> b | None \<Rightarrow> 1 * secs) \<le> now - last_ns)"

fun first_dial :: "(string \<Rightarrow> socket_addr option) \<Rightarrow> nat \<Rightarrow> string list \<Rightarrow> net \<Rightarrow> socket_addr option" where
  "first_dial resolve now [] n = None"
| "first_dial resolve now (b # bs) n =
     (case resolve b of None \<Rightarrow> first_dial resolve now bs n
      | Some addr \<Rightarrow> if may_dial now n addr then Some addr else first_dial resolve now bs n)"

text \<open>The address that is dialled, if any; the dial itself ends with \<open>dial_finished\<close>.\<close>

definition check_bootnode_reconnection :: "(string \<Rightarrow> socket_addr option) \<Rightarrow> nat \<Rightarrow> net \<Rightarrow> socket_addr option \<times> net" where
  "check_bootnode_reconnection resolve now n =
     (if MIN_HEALTHY_PEERS \<le> length (filter (is_healthy now) (map snd (nt_peers n))) then (None, n)
      else case first_dial resolve now (cc_bootnodes (nt_config n)) n of None \<Rightarrow> (None, n)
      | Some addr \<Rightarrow> (Some addr, n\<lparr>nt_last_bootnode_attempt := AList.update addr now (nt_last_bootnode_attempt n)\<rparr>))"

definition net_update_metrics :: "net \<Rightarrow> net" where
  "net_update_metrics n =
     (let k = length (nt_peers n); avg_rtt = (if 0 < k then sum_list (map (average_rtt \<circ> snd) (nt_peers n)) div k else 0)
      in n\<lparr>nt_metrics := (nt_metrics n)\<lparr>nm_uptime_ratio := f_one, nm_avg_response_time := as_secs_f64 avg_rtt\<rparr>\<rparr>)"

section \<open>Commands\<close>

definition remove_peer_cmd :: "cpp_peer_id \<Rightarrow> string \<Rightarrow> net \<Rightarrow> net" where
  "remove_peer_cmd i reason n =
     (case peer_at n i of None \<Rightarrow> n
      | Some p \<Rightarrow> emit (PeerDisconnected i reason)
          (release_slots (sa_ip (pe_addr p)) (n\<lparr>nt_peers := AList.delete i (nt_peers n), nt_router := router_remove_peer i (nt_router n)\<rparr>)))"

definition update_chain_state :: "crypto_ext \<Rightarrow> u64 \<Rightarrow> hash \<Rightarrow> u128 \<Rightarrow> net \<Rightarrow> net" where
  "update_chain_state X height h work n =
     (let n = n\<lparr>nt_chain := (nt_chain n)\<lparr>cv_best_height := height, cv_best_hash := h, cv_cumulative_work := work\<rparr>\<rparr> in
      if fl_epoch (nt_flock n) < height div GOLDEN_EPOCH_BLOCKS
      then n\<lparr>nt_flock := flock_new X (cv_genesis_hash (nt_chain n)) height (nt_local_peer_id n)\<rparr> else n)"

text \<open>A dial that a command asks for runs in a task of its own and ends with \<open>connect_bootnode\<close>.\<close>

definition handle_net_command :: "net_env \<Rightarrow> nat \<Rightarrow> network_command \<Rightarrow> net \<Rightarrow> (network_error + unit) \<times> net" where
  "handle_net_command E now c n =
     (case c of
        ConnectBootnode _ \<Rightarrow> (Inr (), n)
      | BroadcastBlock b \<Rightarrow> broadcast_block E b n
      | BroadcastTransaction tx \<Rightarrow> broadcast_transaction E tx n
      | RequestBlocks i a b r \<Rightarrow> request_blocks E now i \<lparr>gb_from_height = a, gb_to_height = b, gb_request_id = r\<rparr> n
      | RequestHeaders i a b r \<Rightarrow> (request_headers i n, n)
      | DisconnectPeer i reason \<Rightarrow> (Inr (), remove_peer_cmd i reason n)
      | UpdateChainState height h work \<Rightarrow> (Inr (), update_chain_state (ne_crypto E) height h work n))"

section \<open>The service\<close>

text \<open>What can happen: a connection arrives, its handshake ends, a dial ends, a message loop takes a turn on what it received, a
  command comes in, a timer fires, or a write task takes a turn.\<close>

datatype net_event =
    NAccept nat ip_addr
  | NIncoming arrival
  | NDial dial
  | NRedial dial
  | NTurn nat u64 message_task "protocol_error + envelope"
  | NCommand nat network_command
  | NPings nat u64 "cpp_peer_id \<Rightarrow> u64"
  | NCleanup nat
  | NStatus u64
  | NSync nat u64
  | NBootnodes nat
  | NMetrics
  | NWrite cpp_peer_id bool

fun net_step :: "net_env \<Rightarrow> (string \<Rightarrow> socket_addr option) \<Rightarrow> net_event \<Rightarrow> net \<Rightarrow> net" where
  "net_step E resolve (NAccept now ip) n = snd (accept_gate now ip n)"
| "net_step E resolve (NIncoming a) n = (if sa_ip (ar_addr a) \<in> set (nt_handshakes n) then snd (handle_incoming E a n) else n)"
| "net_step E resolve (NDial d) n = snd (connect_bootnode E d n)"
| "net_step E resolve (NRedial d) n = dial_finished E d n"
| "net_step E resolve (NTurn now unix t received) n = (if t \<in> set (nt_tasks n) then task_turn E now unix t received n else n)"
| "net_step E resolve (NCommand now c) n = snd (handle_net_command E now c n)"
| "net_step E resolve (NPings now unix draw) n = send_pings E now unix draw n"
| "net_step E resolve (NCleanup now) n = cleanup_stale_peers now n"
| "net_step E resolve (NStatus unix) n = broadcast_status E unix n"
| "net_step E resolve (NSync now request_id) n = check_sync_status E now request_id n"
| "net_step E resolve (NBootnodes now) n = snd (check_bootnode_reconnection resolve now n)"
| "net_step E resolve NMetrics n = net_update_metrics n"
| "net_step E resolve (NWrite i socket_ok) n = on_net_peer i (write_task_turn socket_ok) n"

definition net_run :: "net_env \<Rightarrow> (string \<Rightarrow> socket_addr option) \<Rightarrow> net_event list \<Rightarrow> net \<Rightarrow> net" where
  "net_run E resolve = fold (net_step E resolve)"

end
