(* ===== verification/Network_Run_Facts.thy ===== *)
theory Network_Run_Facts
  imports Network_Run
begin

text \<open>
  What holds along every run of the network service: the tables stay well formed, the connection limiter counts the inbound
  connections as long as nobody is evicted, and no peer is ever banned for malformed messages.
\<close>

section \<open>What the handlers leave alone\<close>

text \<open>The part of the state that no message of a peer, no broadcast and no request changes.\<close>

definition net_view where
  "net_view n = (nt_config n, nt_limiter n, nt_tasks n, nt_handshakes n, nt_bans n, nt_malformed_strikes n, sm_peers_banned (nt_sm n),
     map fst (nt_peers n), map (pe_id \<circ> snd) (nt_peers n), map fst (nt_router n), map (rp_id \<circ> snd) (nt_router n))"

lemma view_fields:
  assumes "net_view m = net_view n"
  shows "nt_config m = nt_config n" "nt_limiter m = nt_limiter n" "nt_tasks m = nt_tasks n" "nt_handshakes m = nt_handshakes n"
    "nt_bans m = nt_bans n" "nt_malformed_strikes m = nt_malformed_strikes n" "sm_peers_banned (nt_sm m) = sm_peers_banned (nt_sm n)"
    "map fst (nt_peers m) = map fst (nt_peers n)" "map (pe_id \<circ> snd) (nt_peers m) = map (pe_id \<circ> snd) (nt_peers n)"
    "map fst (nt_router m) = map fst (nt_router n)" "map (rp_id \<circ> snd) (nt_router m) = map (rp_id \<circ> snd) (nt_router n)"
  using assms by (simp_all only: net_view_def prod.inject)

named_theorems quiet

lemma view_on_net_peer [quiet]: "(\<And>p. pe_id (f p) = pe_id p) \<Longrightarrow> net_view (on_net_peer i f n) = net_view n"
  by (simp add: net_view_def on_net_peer_def comp_def case_prod_unfold)

lemma view_emit [quiet]: "net_view (emit e n) = net_view n"
  by (simp add: net_view_def emit_def)

lemma view_on_sm [quiet]: "(\<And>m. sm_peers_banned (f m) = sm_peers_banned m) \<Longrightarrow> net_view (on_sm f n) = net_view n"
  by (simp add: net_view_def on_sm_def)

lemma view_updates [quiet]:
  "net_view (n\<lparr>nt_pending_requests := a\<rparr>) = net_view n" "net_view (n\<lparr>nt_seen_messages := b\<rparr>) = net_view n"
  "net_view (n\<lparr>nt_flock := c\<rparr>) = net_view n" "net_view (n\<lparr>nt_buckets := d\<rparr>) = net_view n"
  "net_view (n\<lparr>nt_chain := e\<rparr>) = net_view n" "net_view (n\<lparr>nt_metrics := f\<rparr>) = net_view n"
  "net_view (n\<lparr>nt_bootnode_backoff := g\<rparr>) = net_view n" "net_view (n\<lparr>nt_last_bootnode_attempt := h\<rparr>) = net_view n"
  "net_view (n\<lparr>nt_guard := j\<rparr>) = net_view n"
  by (simp_all add: net_view_def)

lemma pe_id_ops [simp]:
  "pe_id (peer_received a b p) = pe_id p" "pe_id (update_status a u h t w p) = pe_id p" "pe_id (peer_ack a b p) = pe_id p"
  "pe_id (pong_received a p) = pe_id p" "pe_id (on_successful_read a b p) = pe_id p" "pe_id (snd (on_read_timeout a p)) = pe_id p"
  "pe_id (peer_sent b p) = pe_id p" "pe_id (write_task_turn s p) = pe_id p"
  by (simp_all add: peer_received_def update_status_def peer_ack_def Let_def pong_received_def on_successful_read_def
      on_read_timeout_def peer_timeout_def peer_sent_def write_task_turn_def split: option.split list.split)

lemma pe_id_send: "send_message d p = Some q \<Longrightarrow> pe_id q = pe_id p"
  by (auto simp: send_message_def split: if_splits)

lemma pe_id_sent [simp]: "pe_id (case send_message d p of Some q \<Rightarrow> q | None \<Rightarrow> p) = pe_id p"
  by (simp add: pe_id_send split: option.split)

lemma view_flock [quiet]: "net_view (n\<lparr>nt_router := update_peer_flock i fl h (nt_router n)\<rparr>) = net_view n"
  by (simp add: net_view_def update_peer_flock_def on_router_peer_def comp_def case_prod_unfold Let_def)

lemma view_send_to: "send_to i d n = Some m \<Longrightarrow> net_view m = net_view n"
  by (auto simp: send_to_def quiet split: option.splits if_splits)

lemma view_send_option [quiet]: "net_view (case send_to i d n of Some m \<Rightarrow> m | None \<Rightarrow> n) = net_view n"
  by (simp add: view_send_to split: option.split)

lemma view_handlers [quiet]:
  "net_view (snd (handle_status E now i env n)) = net_view n" "net_view (snd (handle_get_blocks E i env n)) = net_view n"
  "net_view (snd (handle_blocks E i env n)) = net_view n" "net_view (snd (handle_new_block E now i env n)) = net_view n"
  "net_view (snd (handle_new_transaction E now i env n)) = net_view n" "net_view (snd (handle_ping E unix i env n)) = net_view n"
  "net_view (snd (handle_pong E now i env n)) = net_view n"
  by (auto simp: handle_status_def handle_get_blocks_def handle_blocks_def handle_new_block_def handle_new_transaction_def
      handle_ping_def handle_pong_def Let_def quiet view_send_to split: option.splits sum.splits prod.splits bool.splits)

lemma view_message [quiet]: "net_view (snd (handle_peer_message E now unix i env n)) = net_view n"
  by (simp add: handle_peer_message_def Let_def quiet split: message_type.split)

lemma view_send_each [quiet]: "net_view (send_each is d n) = net_view n"
  by (induction "is" arbitrary: n) (simp_all add: quiet)

lemma view_send_all [quiet]: "net_view (snd (send_all X ser t m is n)) = net_view n"
  by (simp add: send_all_def quiet split: sum.split)

lemma view_request_blocks [quiet]: "net_view (snd (request_blocks E now i g n)) = net_view n"
  by (auto simp: request_blocks_def quiet view_send_to split: option.split sum.split)

lemma pe_id_ping [simp]: "pe_id (snd (send_ping X ser now unix nonce p)) = pe_id p"
  by (auto simp: send_ping_def pe_id_send split: sum.split option.split)

lemma view_jobs [quiet]:
  "net_view (send_pings E now unix draw n) = net_view n" "net_view (broadcast_status E unix n) = net_view n"
  "net_view (check_sync_status E now r n) = net_view n" "net_view (snd (check_bootnode_reconnection resolve now n)) = net_view n"
  "net_view (net_update_metrics n) = net_view n" "net_view (update_chain_state X height h work n) = net_view n"
proof -
  show "net_view (send_pings E now unix draw n) = net_view n"
    by (simp add: send_pings_def net_view_def comp_def case_prod_unfold if_distrib cong: if_cong)
  show "net_view (broadcast_status E unix n) = net_view n"
    by (simp add: broadcast_status_def net_view_def comp_def case_prod_unfold split: sum.split)
  show "net_view (check_sync_status E now r n) = net_view n"
    by (simp add: check_sync_status_def quiet split: option.split)
  show "net_view (snd (check_bootnode_reconnection resolve now n)) = net_view n"
    by (simp add: check_bootnode_reconnection_def quiet split: option.split)
  show "net_view (net_update_metrics n) = net_view n" by (simp add: net_update_metrics_def quiet Let_def)
  show "net_view (update_chain_state X height h work n) = net_view n" by (simp add: update_chain_state_def Let_def quiet)
qed

lemma view_broadcasts [quiet]:
  "net_view (snd (broadcast_block E b n)) = net_view n" "net_view (snd (broadcast_transaction E tx n)) = net_view n"
  by (simp_all add: broadcast_block_def broadcast_transaction_def quiet Let_def)

section \<open>Well-formed tables\<close>

text \<open>A table that files every entry under its own identity, each once.\<close>

definition filed_own :: "('v \<Rightarrow> 'k) \<Rightarrow> ('k \<times> 'v) list \<Rightarrow> bool" where
  "filed_own f xs \<longleftrightarrow> distinct (map fst xs) \<and> map (f \<circ> snd) xs = map fst xs"

lemma filed_own_delete: "filed_own f xs \<Longrightarrow> filed_own f (AList.delete i xs)"
  by (auto simp: filed_own_def delete_filter distinct_map_filter)

lemma filed_own_update: "filed_own f xs \<Longrightarrow> f p = i \<Longrightarrow> filed_own f (AList.update i p xs)"
proof -
  assume k: "filed_own f xs" and p: "f p = i"
  then have "map (f \<circ> snd) (AList.update i p xs) = map fst (AList.update i p xs)" unfolding filed_own_def by (induction xs) auto
  then show ?thesis using k by (simp add: filed_own_def distinct_update)
qed

lemma keys_update: "fst ` set (AList.update i v xs) = insert i (fst ` set xs)"
  by (induction xs) auto

lemma keys_delete: "fst ` set (AList.delete i xs) = fst ` set xs - {i}"
  by (induction xs) auto

definition tables_ok :: "net \<Rightarrow> bool" where
  "tables_ok n \<longleftrightarrow> filed_own pe_id (nt_peers n) \<and> filed_own rp_id (nt_router n) \<and> fst ` set (nt_router n) = fst ` set (nt_peers n)"

lemma tables_view: "net_view m = net_view n \<Longrightarrow> tables_ok m = tables_ok n"
  using view_fields(8-11)[of m n] by (simp only: tables_ok_def filed_own_def list.set_map[symmetric])

lemma tables_delete:
  "tables_ok n \<Longrightarrow> tables_ok (n\<lparr>nt_peers := AList.delete i (nt_peers n), nt_router := router_remove_peer i (nt_router n)\<rparr>)"
  by (simp add: tables_ok_def router_remove_peer_def filed_own_delete keys_delete)

lemma tables_register: "tables_ok n \<Longrightarrow> tables_ok (register_peer now p n)"
  by (simp add: tables_ok_def register_peer_def Let_def emit_def router_add_peer_def router_peer_of_def filed_own_update keys_update)

section \<open>Slots\<close>

text \<open>The inbound connections of an address: those in the handshake and those with a message loop.\<close>

definition inbound :: "net \<Rightarrow> ip_addr \<Rightarrow> nat" where
  "inbound n ip = count_list (nt_handshakes n) ip + length (filter (\<lambda>t. \<not> tk_outbound t \<and> tk_ip t = ip) (nt_tasks n))"

definition inbound_total :: "net \<Rightarrow> nat" where
  "inbound_total n = length (nt_handshakes n) + length (filter (\<lambda>t. \<not> tk_outbound t) (nt_tasks n))"

definition slots_ok :: "net \<Rightarrow> bool" where
  "slots_ok n \<longleftrightarrow> limiter_ok (nt_limiter n) \<and> count_for_ip (nt_limiter n) = inbound n \<and> cl_total (nt_limiter n) = inbound_total n"

lemma slots_view: "net_view m = net_view n \<Longrightarrow> slots_ok m = slots_ok n"
  using view_fields(2-4)[of m n] by (simp add: slots_ok_def inbound_def inbound_total_def fun_eq_iff)

lemma acquire_total: "try_acquire ip l = (r, l') \<Longrightarrow> cl_total l' = cl_total l + (if r = Inr () then 1 else 0)"
  by (auto simp: try_acquire_def Let_def split: if_splits)

lemma release_total: "cl_total (release_conn ip l) = cl_total l - (if 0 < count_for_ip l ip then 1 else 0)"
  by (auto simp: release_conn_def count_for_ip_def Let_def split: option.split)

lemma count_remove1 [simp]: "x \<in> set xs \<Longrightarrow> count_list (remove1 x xs) y = count_list xs y - (if x = y then 1 else 0)"
  by (induction xs) (auto simp: count_list_0_iff)

lemma count_list_pos: "x \<in> set xs \<Longrightarrow> 0 < count_list xs x"
  by (induction xs) auto

lemma length_filter_remove1:
  "x \<in> set xs \<Longrightarrow> length (filter P (remove1 x xs)) = length (filter P xs) - (if P x then 1 else 0)"
proof (induction xs)
  case (Cons y xs)
  have "0 < length (filter P xs)" if "P x" "x \<in> set xs" using that by (auto simp: filter_empty_conv)
  then show ?case using Cons by (cases "x = y") auto
qed simp

lemma slots_acquire:
  assumes "slots_ok n" and "try_acquire ip (nt_limiter n) = (Inr (), l)"
    and "nt_limiter m = l" and "nt_handshakes m = ip # nt_handshakes n" and "nt_tasks m = nt_tasks n"
  shows "slots_ok m"
  using assms try_acquire_ok[OF _ assms(2)] acquire_total[OF assms(2)]
  by (auto simp: slots_ok_def inbound_def inbound_total_def fun_eq_iff)

lemma slots_refused:
  assumes "slots_ok n" and "try_acquire ip (nt_limiter n) = (r, l)" and "r \<noteq> Inr ()"
    and "nt_limiter m = l" and "nt_handshakes m = nt_handshakes n" and "nt_tasks m = nt_tasks n"
  shows "slots_ok m"
  using assms try_acquire_ok[OF _ assms(2)] acquire_total[OF assms(2)]
  by (auto simp: slots_ok_def inbound_def inbound_total_def fun_eq_iff)

lemma slots_acquire_release:
  assumes "slots_ok n" and "try_acquire ip (nt_limiter n) = (Inr (), l)"
    and "nt_limiter m = release_conn ip l" and "nt_handshakes m = nt_handshakes n" and "nt_tasks m = nt_tasks n"
  shows "slots_ok m"
proof -
  have ok: "limiter_ok (nt_limiter n)" using assms(1) by (simp add: slots_ok_def)
  note a = try_acquire_ok[OF ok assms(2)] and t = acquire_total[OF assms(2)]
  note r = release_conn_ok[OF a(1), of ip]
  show ?thesis using assms(1,3-5) a(4) t r release_total[of ip l] by (auto simp: slots_ok_def inbound_def inbound_total_def fun_eq_iff)
qed

lemma slots_accept: "slots_ok n \<Longrightarrow> slots_ok (snd (accept_gate now ip n))"
proof -
  assume n: "slots_ok n"
  show ?thesis
  proof (cases "is_ip_banned now (nt_bans n) ip")
    case True
    then show ?thesis using n by (simp add: accept_gate_def slots_ok_def inbound_def inbound_total_def on_sm_def fun_eq_iff)
  next
    case False
    obtain r l where a: "try_acquire ip (nt_limiter n) = (r, l)" by fastforce
    show ?thesis
    proof (cases r)
      case (Inl e)
      then show ?thesis using slots_refused[OF n a] False a
        by (cases e) (simp_all add: accept_gate_def on_sm_def)
    next
      case (Inr u)
      then have a: "try_acquire ip (nt_limiter n) = (Inr (), l)" using a by simp
      obtain b g where g: "guard_add ip (nt_guard n) = (b, g)" by fastforce
      show ?thesis using slots_acquire[OF n a] slots_acquire_release[OF n a] False a g
        by (cases b) (simp_all add: accept_gate_def on_sm_def)
    qed
  qed
qed

text \<open>A handshake that fails gives its slot back; one that succeeds passes it on to the message loop.\<close>

lemma slots_release:
  assumes "slots_ok n" and "nt_limiter m = release_conn ip (nt_limiter n)" and "0 < inbound n ip"
    and "inbound m = (inbound n)(ip := inbound n ip - 1)" and "inbound_total m = inbound_total n - 1"
  shows "slots_ok m"
  using assms release_conn_ok[of "nt_limiter n" ip] release_total[of ip "nt_limiter n"] by (auto simp: slots_ok_def)

lemma inbound_handshake: "ip \<in> set (nt_handshakes n) \<Longrightarrow> 0 < inbound n ip"
  by (simp add: inbound_def count_list_pos)

lemma slots_fail:
  assumes "slots_ok n" and "ip \<in> set (nt_handshakes n)"
  shows "slots_ok (snd (fail_incoming e ip n))"
proof (rule slots_release[OF assms(1) _ inbound_handshake[OF assms(2)]])
  have "0 < count_list (nt_handshakes n) ip" using assms(2) by (rule count_list_pos)
  then show "inbound (snd (fail_incoming e ip n)) = (inbound n)(ip := inbound n ip - 1)"
    using assms(2) by (auto simp: fail_incoming_def release_slots_def inbound_def fun_eq_iff)
  have "length (nt_handshakes n) = Suc (length (nt_handshakes n) - 1)" using assms(2) by (cases "nt_handshakes n") simp_all
  then show "inbound_total (snd (fail_incoming e ip n)) = inbound_total n - 1"
    using assms(2) by (simp add: fail_incoming_def release_slots_def inbound_total_def length_remove1)
qed (simp add: fail_incoming_def release_slots_def)

lemma slots_task_end:
  assumes "slots_ok n" and "t \<in> set (nt_tasks n)"
  shows "slots_ok (task_end t n)"
proof -
  have l: "nt_limiter (loop_exit i n) = nt_limiter n" "nt_tasks (loop_exit i n) = nt_tasks n" "nt_handshakes (loop_exit i n) = nt_handshakes n"
    for i by (simp_all add: loop_exit_def Let_def drop_peer_def on_sm_def emit_def)
  show ?thesis
  proof (cases "tk_outbound t")
    case True
    then have "inbound (task_end t n) = inbound n" "inbound_total (task_end t n) = inbound_total n" "nt_limiter (task_end t n) = nt_limiter n"
      using assms(2) by (simp_all add: task_end_def Let_def l inbound_def inbound_total_def fun_eq_iff length_filter_remove1)
    then show ?thesis using assms(1) by (simp add: slots_ok_def)
  next
    case False
    have pos: "0 < length (filter (\<lambda>t. \<not> tk_outbound t \<and> tk_ip t = tk_ip u) (nt_tasks n))" if "u = t" for u
      using assms(2) False that by (force simp: filter_empty_conv)
    have pos': "0 < length (filter (\<lambda>t. \<not> tk_outbound t) (nt_tasks n))" using assms(2) False by (force simp: filter_empty_conv)
    show ?thesis
    proof (rule slots_release[OF assms(1), of _ "tk_ip t"])
      show "0 < inbound n (tk_ip t)" using pos by (simp add: inbound_def)
      show "inbound (task_end t n) = (inbound n)(tk_ip t := inbound n (tk_ip t) - 1)"
        using assms(2) False pos[OF refl] by (auto simp: task_end_def Let_def l inbound_def release_slots_def fun_eq_iff length_filter_remove1 Suc_diff_Suc
            simp del: length_greater_0_conv)
      show "inbound_total (task_end t n) = inbound_total n - 1"
        using assms(2) False pos' by (simp add: task_end_def Let_def l inbound_total_def release_slots_def length_filter_remove1
            del: length_greater_0_conv)
    qed (use False in \<open>simp add: task_end_def Let_def l release_slots_def\<close>)
  qed
qed

section \<open>A turn of a message loop\<close>

text \<open>A ban of a peer, as long as only the rate limit bans.\<close>

definition bans_ok :: "net \<Rightarrow> bool" where
  "bans_ok n \<longleftrightarrow> sm_peers_banned (nt_sm n) = 0 \<and>
     (\<forall>e\<in>set (bl_banned_peers (nt_bans n)). be_reason (snd e) = ''rate limit strikes exceeded'')"

lemma bans_view: "net_view m = net_view n \<Longrightarrow> bans_ok m = bans_ok n"
  using view_fields(5,7)[of m n] by (simp add: bans_ok_def)

definition slot_part where "slot_part n = (nt_limiter n, nt_handshakes n, nt_tasks n)"

lemma slot_part_view: "net_view m = net_view n \<Longrightarrow> slot_part m = slot_part n"
  using view_fields(2-4)[of m n] by (simp add: slot_part_def)

lemma slots_part: "slot_part m = slot_part n \<Longrightarrow> slots_ok m = slots_ok n"
  by (simp add: slot_part_def slots_ok_def inbound_def inbound_total_def fun_eq_iff)

lemma tables_peers: "nt_peers m = nt_peers n \<Longrightarrow> nt_router m = nt_router n \<Longrightarrow> tables_ok m = tables_ok n"
  by (simp add: tables_ok_def)

lemma short_ban_parts:
  "slot_part (ban_both_short now i r n) = slot_part n" "tables_ok (ban_both_short now i r n) = tables_ok n"
  "nt_malformed_strikes (ban_both_short now i r n) = nt_malformed_strikes n"
  by (simp_all add: ban_both_short_def slot_part_def tables_ok_def split: option.split)

lemma update_entries: "e \<in> set (AList.update k v xs) \<Longrightarrow> e = (k, v) \<or> e \<in> set xs"
  by (induction xs) (auto split: if_splits)

lemma short_ban_ok: "bans_ok n \<Longrightarrow> bans_ok (ban_both_short now i ''rate limit strikes exceeded'' n)"
proof -
  assume ok: "bans_ok n"
  have "\<forall>e\<in>set (AList.update i (ban_entry_new now ''rate limit strikes exceeded'' d) (bl_banned_peers (nt_bans n))).
      be_reason (snd e) = ''rate limit strikes exceeded''" for d
    using ok update_entries unfolding bans_ok_def by (fastforce simp: ban_entry_new_def)
  then show ?thesis using ok by (simp add: bans_ok_def ban_both_short_def ban_peer_short_def ban_ip_short_def split: option.split)
qed

lemma view_token [quiet]: "net_view (snd (consume_token now i n)) = net_view n"
  by (simp add: consume_token_def quiet split: option.split prod.split)

lemma frame_cases:
  assumes "on_frame E now unix i env n = (b, m)"
  obtains "b" and "net_view m = net_view n"
    | k where "\<not> b" and "net_view k = net_view n" and "m = ban_both_short now i ''rate limit strikes exceeded'' k"
proof -
  let ?n1 = "on_net_peer i (on_successful_read now (length (env_payload env))) n"
  obtain ok n2 where c: "consume_token now i ?n1 = (ok, n2)" by fastforce
  have v: "net_view n2 = net_view n"
    using view_token[of now i ?n1] view_on_net_peer[of "on_successful_read now (length (env_payload env))" i n] c by simp
  show thesis
  proof (cases ok)
    case False
    let ?k = "on_sm (\<lambda>m. m\<lparr>sm_messages_dropped_rate_limit := sm_messages_dropped_rate_limit m + 1\<rparr>) n2"
    have "net_view ?k = net_view n" using v by (simp add: quiet)
    then show thesis using assms False c that by (auto simp: on_frame_def Let_def split: if_splits)
  next
    case True
    have "net_view (on_sm (on_message_received t k) n2) = net_view n" for t k
      using v by (simp add: quiet on_message_received_def)
    then have "b" "net_view m = net_view n"
      using assms True c by (auto simp: on_frame_def Let_def quiet)
    then show thesis using that(1) by blast
  qed
qed

lemma view_read_timeout [quiet]: "net_view (on_net_peer i (\<lambda>p. snd (on_read_timeout now p)) n) = net_view n"
  by (simp add: quiet)

lemma turn_parts:
  assumes "loop_turn E now unix i received n = (b, m)"
  shows "slot_part m = slot_part n" and "tables_ok m = tables_ok n"
proof -
  have "slot_part m = slot_part n \<and> tables_ok m = tables_ok n"
  proof (cases received)
    case (Inr env)
    show ?thesis
    proof (cases "on_frame E now unix i env n = (b, m)")
      case True
      then show ?thesis
      proof (rule frame_cases)
        assume "net_view m = net_view n"
        then show ?thesis by (simp add: slot_part_view[of m n] tables_view[of m n])
      next
        fix k assume "net_view k = net_view n" and "m = ban_both_short now i ''rate limit strikes exceeded'' k"
        then show ?thesis using slot_part_view[of k n] tables_view[of k n] by (simp add: short_ban_parts)
      qed
    next
      case False
      then have "m = n" using assms Inr by (auto simp: loop_turn_def split: if_splits)
      then show ?thesis by simp
    qed
  next
    case (Inl e)
    have "slot_part (on_malformed now i n) = slot_part n" "tables_ok (on_malformed now i n) = tables_ok n"
      by (simp_all add: on_malformed_def Let_def ban_both_def on_sm_def slot_part_def tables_ok_def split: option.split)
    moreover have v: "net_view (on_sm (\<lambda>m. m\<lparr>sm_messages_dropped_size_limit := sm_messages_dropped_size_limit m + 1\<rparr>) n) = net_view n"
      by (simp add: quiet)
    note slot_part_view[OF v] tables_view[OF v]
    moreover note slot_part_view[OF view_read_timeout, of i now n] tables_view[OF view_read_timeout, of i now n]
    ultimately show ?thesis using assms Inl
      by (cases e) (auto simp: loop_turn_def on_read_error_def split: if_splits option.splits)
  qed
  then show "slot_part m = slot_part n" "tables_ok m = tables_ok n" by blast+
qed

lemma turn_bans:
  assumes "bans_ok n" and "nt_malformed_strikes n = []" and "loop_turn E now unix i received n = (b, m)"
  shows "bans_ok m" and "b \<Longrightarrow> nt_malformed_strikes m = []" and "AList.delete i (nt_malformed_strikes m) = []"
proof -
  have view: "bans_ok k \<and> nt_malformed_strikes k = []" if "net_view k = net_view n" for k
    using bans_view[OF that] view_fields(6)[OF that] assms(1,2) by simp
  have "bans_ok m \<and> (b \<longrightarrow> nt_malformed_strikes m = []) \<and> AList.delete i (nt_malformed_strikes m) = []"
  proof (cases received)
    case (Inr env)
    show ?thesis
    proof (cases "on_frame E now unix i env n = (b, m)")
      case True
      then show ?thesis by (rule frame_cases) (use view in \<open>auto simp: short_ban_parts short_ban_ok\<close>)
    next
      case False
      then show ?thesis using assms Inr by (auto simp: loop_turn_def split: if_splits)
    qed
  next
    case (Inl e)
    have mal: "bans_ok (on_malformed now i n) \<and> AList.delete i (nt_malformed_strikes (on_malformed now i n)) = []"
      using assms(1,2) by (simp add: on_malformed_def Let_def on_sm_def bans_ok_def SECURITY_MALFORMED_STRIKE_THRESHOLD_def word_le_nat_alt)
    have big: "bans_ok (on_sm (\<lambda>m. m\<lparr>sm_messages_dropped_size_limit := sm_messages_dropped_size_limit m + 1\<rparr>) n) \<and>
        nt_malformed_strikes (on_sm (\<lambda>m. m\<lparr>sm_messages_dropped_size_limit := sm_messages_dropped_size_limit m + 1\<rparr>) n) = []"
      by (rule view) (simp add: quiet)
    show ?thesis using assms Inl mal big view[OF view_read_timeout[of i now n]]
      by (cases e) (auto simp: loop_turn_def on_read_error_def split: if_splits option.splits)
  qed
  then show "bans_ok m" "b \<Longrightarrow> nt_malformed_strikes m = []" "AList.delete i (nt_malformed_strikes m) = []" by blast+
qed

section \<open>Connecting\<close>

lemma view_auth: "net_view (snd (incoming_auth E a n)) = net_view n"
  by (simp add: incoming_auth_def Let_def quiet on_peer_connect_def split: option.split sum.split prod.split)

lemma incoming_cases:
  assumes "handle_incoming E a n = (r, m)"
  obtains (failed) e k bans where "net_view k = net_view n" and "m = snd (fail_incoming e (sa_ip (ar_addr a)) (k\<lparr>nt_bans := bans\<rparr>))"
      and "bl_banned_peers bans = bl_banned_peers (nt_bans n)"
    | (made) i p k where "net_view k = net_view n" and "peer_at k i = None" and "pe_id p = i" and "r = Inr i"
      and "m = (init_bucket (ar_now a) i (register_peer (ar_now a) p k))\<lparr>nt_handshakes := remove1 (sa_ip (ar_addr a)) (nt_handshakes n),
        nt_tasks := nt_tasks n @ [\<lparr>tk_peer_id = i, tk_ip = sa_ip (ar_addr a), tk_outbound = False\<rparr>]\<rparr>"
proof -
  obtain au s k where k: "incoming_auth E a n = ((au, s), k)" by (metis surj_pair)
  have v: "net_view k = net_view n" using view_auth[of E a n] k by simp
  note f = view_fields[OF v]
  have b: "bl_banned_peers (nt_bans k) = bl_banned_peers (nt_bans n)" using f(5) by simp
  have plain: thesis if "m = snd (fail_incoming e (sa_ip (ar_addr a)) k)" for e
    using failed[of k e "nt_bans k"] v b that by simp
  show thesis
  proof (cases au)
    case (Inl e)
    then show thesis using plain[of e] assms k by (simp add: handle_incoming_def Let_def)
  next
    case (Inr auth)
    show thesis
    proof (cases "handshake E a s k")
      case (Inl e)
      then show thesis using plain[of e] assms k \<open>au = Inr auth\<close> by (simp add: handle_incoming_def Let_def)
    next
      case hs: (Inr hello)
      obtain i t h hh where hello: "hello = (i, t, h, hh)" by (metis prod_cases4)
      let ?p = "peer_new (ar_now a) i (ar_addr a) t h hh (cv_genesis_hash (nt_chain k)) (ar_nonce a) False"
      consider "auth \<noteq> None \<and> auth \<noteq> Some i" | "\<not> (auth \<noteq> None \<and> auth \<noteq> Some i)" "map_of (nt_peers k) i \<noteq> None"
        | "\<not> (auth \<noteq> None \<and> auth \<noteq> Some i)" "map_of (nt_peers k) i = None" by blast
      then show thesis
      proof cases
        case 1
        then show thesis using failed[of k InvalidHandshake "ban_ip (ar_now a) (sa_ip (ar_addr a)) ''peer_id/auth key mismatch'' (nt_bans k)"]
            assms k v b hs hello Inr by (simp add: handle_incoming_def Let_def ban_ip_def)
      next
        case 2
        then show thesis using plain[of InvalidHandshake] assms k hs hello Inr
          by (cases auth) (simp_all add: handle_incoming_def Let_def split: if_splits)
      next
        case 3
        have e: "nt_handshakes (init_bucket now j (register_peer now p k)) = nt_handshakes n"
          "nt_tasks (init_bucket now j (register_peer now p k)) = nt_tasks n" for now j p
          using f(3,4) by (simp_all add: init_bucket_def register_peer_def Let_def emit_def)
        have hi: "handle_incoming E a n = (Inr i, (init_bucket (ar_now a) i (register_peer (ar_now a) ?p k))
            \<lparr>nt_handshakes := remove1 (sa_ip (ar_addr a)) (nt_handshakes n),
             nt_tasks := nt_tasks n @ [\<lparr>tk_peer_id = i, tk_ip = sa_ip (ar_addr a), tk_outbound = False\<rparr>]\<rparr>)"
          using 3 k hs hello Inr by (cases auth) (simp_all add: handle_incoming_def Let_def e)
        have "pe_id ?p = i" by (simp add: peer_new_def)
        then show thesis using made[of k i ?p] assms v 3 hi by (simp add: peer_at_def)
      qed
    qed
  qed
qed

lemma dial_cases:
  assumes "connect_bootnode E d n = (r, m)"
  obtains "m = n"
    | i p g where "peer_at n i = None" and "pe_id p = i"
      and "m = (init_bucket (dl_now d) i ((register_peer (dl_now d) p n)\<lparr>nt_guard := g\<rparr>))\<lparr>nt_tasks :=
        nt_tasks n @ [\<lparr>tk_peer_id = i, tk_ip = sa_ip (dl_addr d), tk_outbound = True\<rparr>]\<rparr>"
proof -
  have e: "nt_tasks (init_bucket now j ((register_peer now p n)\<lparr>nt_guard := g\<rparr>)) = nt_tasks n" for now j p g
    by (simp add: init_bucket_def register_peer_def Let_def emit_def)
  show thesis using assms that(1)
    by (auto simp: connect_bootnode_def Let_def e peer_at_def peer_new_def split: if_splits sum.splits option.splits prod.splits
        intro!: that(2))
qed

section \<open>Steps\<close>

definition limits_ok :: "cpp_config \<Rightarrow> net \<Rightarrow> bool" where
  "limits_ok cf n \<longleftrightarrow> limiter_ok (nt_limiter n) \<and> cl_max_per_ip (nt_limiter n) = cc_max_connections_per_ip cf \<and>
     cl_max_total (nt_limiter n) = cc_max_total_connections cf"

text \<open>Everything that holds along all runs.\<close>

definition net_ok :: "cpp_config \<Rightarrow> net \<Rightarrow> bool" where
  "net_ok cf n \<longleftrightarrow> tables_ok n \<and> bans_ok n \<and> nt_malformed_strikes n = [] \<and> limits_ok cf n"

lemma net_ok_view: "net_view m = net_view n \<Longrightarrow> net_ok cf m = net_ok cf n"
  using view_fields[of m n] tables_view[of m n] bans_view[of m n] by (simp add: net_ok_def limits_ok_def)

lemma net_ok_new: "net_ok config (network_new X config i key g h b)"
  by (simp add: net_ok_def network_new_def tables_ok_def filed_own_def bans_ok_def limits_ok_def ban_list_new_def metrics_default_def)
     (simp add: limiter_new_def)

lemma limits_release: "limits_ok cf n \<Longrightarrow> nt_limiter m = release_conn ip (nt_limiter n) \<Longrightarrow> limits_ok cf m"
  using release_conn_ok[of "nt_limiter n" ip] by (simp add: limits_ok_def)

lemma limits_acquire:
  "limits_ok cf n \<Longrightarrow> try_acquire ip (nt_limiter n) = (r, l) \<Longrightarrow> nt_limiter m = l \<or> nt_limiter m = release_conn ip l \<Longrightarrow> limits_ok cf m"
  using try_acquire_ok(1-3)[of "nt_limiter n" ip r l] release_conn_ok[of l ip] by (auto simp: limits_ok_def)

lemma net_ok_parts:
  assumes "net_ok cf n" and "limits_ok cf m" and "nt_peers m = nt_peers n" and "nt_router m = nt_router n"
    and "nt_malformed_strikes m = nt_malformed_strikes n" and "bl_banned_peers (nt_bans m) = bl_banned_peers (nt_bans n)"
    and "sm_peers_banned (nt_sm m) = sm_peers_banned (nt_sm n)"
  shows "net_ok cf m"
  using assms by (simp add: net_ok_def tables_ok_def bans_ok_def)

lemma net_ok_accept:
  assumes "net_ok cf n"
  shows "net_ok cf (snd (accept_gate now ip n))"
proof -
  obtain r l where a: "try_acquire ip (nt_limiter n) = (r, l)" by fastforce
  obtain b g where g: "guard_add ip (nt_guard n) = (b, g)" by fastforce
  have lim: "limits_ok cf n" using assms by (simp add: net_ok_def)
  show ?thesis
  proof (rule net_ok_parts[OF assms])
    show "limits_ok cf (snd (accept_gate now ip n))"
    proof (cases "is_ip_banned now (nt_bans n) ip")
      case True
      then show ?thesis using lim by (simp add: accept_gate_def on_sm_def limits_ok_def)
    next
      case False
      then show ?thesis using a g
        by (intro limits_acquire[OF lim a])
           (auto simp: accept_gate_def on_sm_def split: sum.split connection_denied.split bool.split)
    qed
  qed (use a g in \<open>auto simp: accept_gate_def on_sm_def split: sum.split connection_denied.split bool.split\<close>)
qed

lemma net_ok_fail:
  assumes "net_ok cf k" and "bl_banned_peers bans = bl_banned_peers (nt_bans k)"
  shows "net_ok cf (snd (fail_incoming e ip (k\<lparr>nt_bans := bans\<rparr>)))"
proof (rule net_ok_parts[OF assms(1)])
  show "limits_ok cf (snd (fail_incoming e ip (k\<lparr>nt_bans := bans\<rparr>)))"
    by (rule limits_release[of cf k _ ip]) (use assms(1) in \<open>simp_all add: net_ok_def fail_incoming_def release_slots_def\<close>)
qed (use assms(2) in \<open>simp_all add: fail_incoming_def release_slots_def\<close>)

lemma net_ok_register: "net_ok cf n \<Longrightarrow> net_ok cf (init_bucket now i ((register_peer now' p n)\<lparr>nt_guard := g\<rparr>))"
  "net_ok cf n \<Longrightarrow> net_ok cf (init_bucket now i (register_peer now' p n))"
proof -
  assume n: "net_ok cf n"
  have r: "net_ok cf (register_peer now' p n)"
    using tables_register[of n now' p] n by (simp add: net_ok_def bans_ok_def limits_ok_def register_peer_def Let_def emit_def)
  moreover have "net_view (init_bucket now i k) = net_view k" for k by (simp add: init_bucket_def quiet)
  moreover have "net_view ((register_peer now' p n)\<lparr>nt_guard := g\<rparr>) = net_view (register_peer now' p n)" by (simp add: quiet)
  ultimately show "net_ok cf (init_bucket now i ((register_peer now' p n)\<lparr>nt_guard := g\<rparr>))" "net_ok cf (init_bucket now i (register_peer now' p n))"
    by (metis net_ok_view)+
qed

lemma net_ok_tasks: "net_ok cf (n\<lparr>nt_handshakes := a\<rparr>) = net_ok cf n" "net_ok cf (n\<lparr>nt_tasks := b\<rparr>) = net_ok cf n"
  by (simp_all add: net_ok_def tables_ok_def bans_ok_def limits_ok_def)

lemma net_ok_incoming: "net_ok cf n \<Longrightarrow> net_ok cf (snd (handle_incoming E a n))"
proof -
  assume n: "net_ok cf n"
  obtain r m where rm: "handle_incoming E a n = (r, m)" by fastforce
  then have "net_ok cf m"
  proof (cases rule: incoming_cases)
    case (failed e k bans)
    then have "net_ok cf k" "bl_banned_peers bans = bl_banned_peers (nt_bans k)"
      using n net_ok_view[of k n] view_fields(5)[of k n] by simp_all
    then show ?thesis unfolding failed(2) by (rule net_ok_fail)
  next
    case (made i p k)
    then show ?thesis using n net_ok_view[of k n] net_ok_register(2)[of cf k] by (simp add: net_ok_tasks)
  qed
  then show ?thesis by (simp add: rm)
qed

lemma net_ok_dial: "net_ok cf n \<Longrightarrow> net_ok cf (snd (connect_bootnode E d n))"
proof -
  assume n: "net_ok cf n"
  obtain r m where rm: "connect_bootnode E d n = (r, m)" by fastforce
  then have "net_ok cf m" by (cases rule: dial_cases) (use n net_ok_register(1)[OF n] in \<open>simp_all add: net_ok_tasks\<close>)
  then show ?thesis by (simp add: rm)
qed

lemma net_ok_redial: "net_ok cf n \<Longrightarrow> net_ok cf (dial_finished E d n)"
proof -
  assume "net_ok cf n"
  then have n: "net_ok cf (snd (connect_bootnode E d n))" by (rule net_ok_dial)
  have "net_view (dial_finished E d n) = net_view (snd (connect_bootnode E d n))"
    by (simp add: dial_finished_def Let_def quiet split: prod.split sum.split)
  then show ?thesis using n net_ok_view by blast
qed

lemma net_ok_task_end:
  assumes "tables_ok n" and "bans_ok n" and "limits_ok cf n" and "AList.delete (tk_peer_id t) (nt_malformed_strikes n) = []"
  shows "net_ok cf (task_end t n)"
proof -
  have d: "tables_ok (drop_peer i r n)" for i r
    using tables_delete[OF assms(1), of i] by (simp add: drop_peer_def tables_ok_def emit_def)
  have x: "tables_ok (loop_exit i n)" for i
    using d[of i "''Connection closed''"] assms(1) by (simp add: loop_exit_def Let_def on_sm_def tables_ok_def)
  have "tables_ok (task_end t n)" using x[of "tk_peer_id t"] by (simp add: task_end_def Let_def tables_ok_def release_slots_def)
  moreover have "bans_ok (task_end t n)" "nt_malformed_strikes (task_end t n) = []"
    using assms(2,4) by (simp_all add: task_end_def loop_exit_def drop_peer_def release_slots_def Let_def bans_ok_def on_sm_def emit_def
        on_peer_disconnect_def)
  moreover have "limits_ok cf (task_end t n)"
  proof (cases "tk_outbound t")
    case True
    then show ?thesis using assms(3) by (simp add: task_end_def loop_exit_def drop_peer_def Let_def limits_ok_def on_sm_def emit_def)
  next
    case False
    then show ?thesis by (intro limits_release[OF assms(3), of _ "tk_ip t"])
        (simp_all add: task_end_def loop_exit_def drop_peer_def Let_def release_slots_def on_sm_def emit_def)
  qed
  ultimately show ?thesis by (simp add: net_ok_def)
qed

lemma limits_slot_part: "slot_part m = slot_part n \<Longrightarrow> limits_ok cf m = limits_ok cf n"
  by (simp add: slot_part_def limits_ok_def)

lemma net_ok_turn: "net_ok cf n \<Longrightarrow> net_ok cf (task_turn E now unix t received n)"
proof -
  assume n: "net_ok cf n"
  obtain b m where l: "loop_turn E now unix (tk_peer_id t) received n = (b, m)" by fastforce
  have p: "tables_ok m" "limits_ok cf m" "bans_ok m" "b \<Longrightarrow> nt_malformed_strikes m = []"
    "AList.delete (tk_peer_id t) (nt_malformed_strikes m) = []"
    using turn_parts[OF l] turn_bans[OF _ _ l] limits_slot_part[OF turn_parts(1)[OF l]] n by (simp_all add: net_ok_def)
  show ?thesis
  proof (cases b)
    case True
    then show ?thesis using l p by (simp add: task_turn_def net_ok_def)
  next
    case False
    then show ?thesis using l net_ok_task_end[of m cf t] p by (simp add: task_turn_def)
  qed
qed

lemma net_ok_evict:
  assumes "net_ok cf n"
  shows "net_ok cf (release_slots ip (n\<lparr>nt_peers := AList.delete i (nt_peers n), nt_router := router_remove_peer i (nt_router n)\<rparr>))"
    (is "net_ok cf ?m")
proof -
  have "tables_ok ?m" using assms tables_delete[of n i] by (simp add: net_ok_def tables_ok_def release_slots_def)
  moreover have "limits_ok cf ?m" using limits_release[of cf n ?m ip] assms by (simp add: net_ok_def release_slots_def)
  ultimately show ?thesis using assms by (simp add: net_ok_def bans_ok_def release_slots_def)
qed

lemma net_ok_emit: "net_ok cf (emit e n) = net_ok cf n"
  by (rule net_ok_view) (rule view_emit)

lemma net_ok_remove_cmd: "net_ok cf n \<Longrightarrow> net_ok cf (remove_peer_cmd i reason n)"
  by (simp add: remove_peer_cmd_def net_ok_emit net_ok_evict split: option.split)

lemma net_ok_cleanup: "net_ok cf n \<Longrightarrow> net_ok cf (cleanup_stale_peers now n)"
proof -
  assume n: "net_ok cf n"
  have one: "net_ok cf k \<Longrightarrow> net_ok cf (remove_stale e k)" for e k
    by (simp add: remove_stale_def net_ok_emit net_ok_evict split: option.split)
  have "net_ok cf k \<Longrightarrow> net_ok cf (fold remove_stale es k)" for es k
    by (induction es arbitrary: k) (simp_all add: one)
  then have f: "net_ok cf (fold remove_stale (stale_peers now n) n)" using n by blast
  have del: "fold (\<lambda>(i, _). AList.delete i) es [] = []" for es :: "(cpp_peer_id \<times> ip_addr) list"
    by (induction es) auto
  have bans: "net_ok cf (k\<lparr>nt_bans := cleanup_expired now (nt_bans k)\<rparr>)" if "net_ok cf k" for k
    using that by (auto simp: net_ok_def tables_ok_def bans_ok_def limits_ok_def cleanup_expired_def)
  have upd: "net_ok cf (k\<lparr>nt_pending_requests := a, nt_buckets := b, nt_malformed_strikes := []\<rparr>)" if "net_ok cf k" for k a b
    using that by (simp add: net_ok_def tables_ok_def bans_ok_def limits_ok_def)
  let ?k = "fold remove_stale (stale_peers now n) n"
  have "nt_malformed_strikes ?k = []" using f by (simp add: net_ok_def)
  then have "fold (\<lambda>(i, _). AList.delete i) (stale_peers now n) (nt_malformed_strikes ?k) = []" using del by simp
  then have "cleanup_stale_peers now n = (let m = (if stale_peers now n = [] then n else
      ?k\<lparr>nt_pending_requests := filter (\<lambda>(_, t). now - t < 30 * secs) (nt_pending_requests ?k),
        nt_buckets := fold (\<lambda>(i, _). AList.delete i) (stale_peers now n) (nt_buckets ?k), nt_malformed_strikes := []\<rparr>)
      in m\<lparr>nt_bans := cleanup_expired now (nt_bans m)\<rparr>)"
    by (simp only: cleanup_stale_peers_def Let_def)
  then show ?thesis using bans upd[OF f] n by (simp add: Let_def del: fold_simps)
qed

lemma net_ok_step: "net_ok cf n \<Longrightarrow> net_ok cf (net_step E resolve e n)"
proof (cases e)
  case (NCommand now c)
  assume n: "net_ok cf n"
  have v: "net_ok cf m" if "net_view m = net_view n" for m using n net_ok_view[OF that] by simp
  show ?thesis using n NCommand by (cases c) (simp_all add: handle_net_command_def net_ok_remove_cmd v quiet)
next
  case (NWrite i ok)
  assume n: "net_ok cf n"
  have "net_view (on_net_peer i (write_task_turn ok) n) = net_view n" by (simp add: quiet)
  then show ?thesis using n NWrite net_ok_view[of "on_net_peer i (write_task_turn ok) n" n] by simp
qed (auto simp: net_ok_accept net_ok_incoming net_ok_dial net_ok_redial net_ok_turn net_ok_cleanup net_ok_view[OF view_jobs(1)]
      net_ok_view[OF view_jobs(2)] net_ok_view[OF view_jobs(3)] net_ok_view[OF view_jobs(4)] net_ok_view[OF view_jobs(5)])

lemma net_ok_run: "net_ok cf n \<Longrightarrow> net_ok cf (net_run E resolve es n)"
  unfolding net_run_def by (induction es arbitrary: n) (simp_all add: net_ok_step)

section \<open>Counting connections\<close>

text \<open>Events that may close a peer's connection from this side.\<close>

fun evicts :: "net_event \<Rightarrow> bool" where
  "evicts (NCommand now (DisconnectPeer i r)) = True"
| "evicts (NCleanup now) = True"
| "evicts _ = False"

lemma slots_incoming:
  assumes "slots_ok n" and "sa_ip (ar_addr a) \<in> set (nt_handshakes n)"
  shows "slots_ok (snd (handle_incoming E a n))"
proof -
  obtain r m where rm: "handle_incoming E a n = (r, m)" by fastforce
  then have "slots_ok m"
  proof (cases rule: incoming_cases)
    case (failed e k bans)
    note f = view_fields[OF failed(1)]
    have "slots_ok (k\<lparr>nt_bans := bans\<rparr>)"
      using slots_view[OF failed(1)] assms(1) by (simp add: slots_ok_def inbound_def inbound_total_def fun_eq_iff)
    then show ?thesis unfolding failed(2) using slots_fail[of "k\<lparr>nt_bans := bans\<rparr>"] assms(2) f(4) by simp
  next
    case (made i p k)
    let ?ip = "sa_ip (ar_addr a)"
    have "0 < count_list (nt_handshakes n) ?ip" "0 < length (nt_handshakes n)"
      using assms(2) count_list_pos by (auto simp: count_list_0_iff)
    then have "inbound m = inbound n" "inbound_total m = inbound_total n"
      using assms(2) made(5) by (auto simp: inbound_def inbound_total_def fun_eq_iff length_remove1)
    moreover have "nt_limiter m = nt_limiter n"
      using made(5) view_fields(2)[OF made(1)] by (simp add: init_bucket_def register_peer_def Let_def emit_def)
    ultimately show ?thesis using assms(1) by (simp add: slots_ok_def)
  qed
  then show ?thesis by (simp add: rm)
qed

lemma slots_dial: "slots_ok n \<Longrightarrow> slots_ok (snd (connect_bootnode E d n))"
proof -
  assume n: "slots_ok n"
  obtain r m where rm: "connect_bootnode E d n = (r, m)" by fastforce
  then have "slots_ok m"
    by (cases rule: dial_cases)
       (use n in \<open>simp_all add: slots_ok_def inbound_def inbound_total_def fun_eq_iff init_bucket_def register_peer_def Let_def emit_def\<close>)
  then show ?thesis by (simp add: rm)
qed

lemma slots_turn: "slots_ok n \<Longrightarrow> t \<in> set (nt_tasks n) \<Longrightarrow> slots_ok (task_turn E now unix t received n)"
proof -
  assume n: "slots_ok n" and t: "t \<in> set (nt_tasks n)"
  obtain b m where l: "loop_turn E now unix (tk_peer_id t) received n = (b, m)" by fastforce
  have p: "slot_part m = slot_part n" using turn_parts(1)[OF l] .
  then have "slots_ok m" "t \<in> set (nt_tasks m)" using n t slots_part[OF p] by (simp_all add: slot_part_def)
  then show ?thesis using slots_task_end[of m t] by (simp add: task_turn_def l split: bool.split)
qed

lemma slots_step: "slots_ok n \<Longrightarrow> \<not> evicts e \<Longrightarrow> slots_ok (net_step E resolve e n)"
proof -
  assume n: "slots_ok n" and e: "\<not> evicts e"
  have v: "slots_ok m" if "net_view m = net_view n" for m using n slots_view[OF that] by simp
  show ?thesis
  proof (cases e)
    case (NRedial d)
    have "net_view (dial_finished E d n) = net_view (snd (connect_bootnode E d n))"
      by (simp add: dial_finished_def Let_def quiet split: prod.split sum.split)
    from slots_view[OF this] show ?thesis using slots_dial[OF n] NRedial by simp
  next
    case (NCommand now c)
    then show ?thesis using n e by (cases c) (simp_all add: handle_net_command_def v quiet)
  qed (use n e slots_accept slots_incoming slots_dial slots_turn in \<open>simp_all add: v quiet\<close>)
qed

lemma slots_run: "slots_ok n \<Longrightarrow> \<forall>e\<in>set es. \<not> evicts e \<Longrightarrow> slots_ok (net_run E resolve es n)"
  unfolding net_run_def by (induction es arbitrary: n) (simp_all add: slots_step)

lemma slots_new: "slots_ok (network_new X config i key g h b)"
  by (simp add: slots_ok_def network_new_def inbound_def inbound_total_def fun_eq_iff count_for_ip_def) (simp add: limiter_new_def)

section \<open>The cache of seen messages\<close>

fun check_all :: "crypto_ext \<Rightarrow> (nat \<times> bytes) list \<Rightarrow> (256 word \<times> nat) list \<Rightarrow> (256 word \<times> nat) list" where
  "check_all X [] seen = seen"
| "check_all X ((now, payload) # cs) seen = check_all X cs (snd (check_seen X now payload seen))"

definition seen_ok :: "(256 word \<times> nat) list \<Rightarrow> bool" where
  "seen_ok seen \<longleftrightarrow> distinct (map fst seen) \<and> length seen \<le> SEEN_CAP"

lemma distinct_fst_dropWhile: "distinct (map fst xs) \<Longrightarrow> distinct (map fst (dropWhile P xs))"
  by (induction xs) auto

lemma check_seen_ok: "seen_ok seen \<Longrightarrow> seen_ok (snd (check_seen X now payload seen))"
proof -
  assume ok: "seen_ok seen"
  obtain k where k: "k = dropWhile (\<lambda>(_, t). SEEN_TTL < now - t) seen" by simp
  have d: "distinct (map fst k)" "length k \<le> SEEN_CAP"
    using ok distinct_fst_dropWhile[of seen] length_dropWhile_le[of "\<lambda>(_, t). SEEN_TTL < now - t" seen] by (simp_all add: seen_ok_def k)
  have t: "distinct (map fst (tl k))" "set (tl k) \<subseteq> set k" using d(1) by (cases k; auto)+
  have "0 < SEEN_CAP" by (simp add: SEEN_CAP_def)
  then have t': "length (tl k) + 1 \<le> SEEN_CAP" using d(2) by (cases k) simp_all
  have "check_seen X now payload seen = (if \<exists>(h', _)\<in>set k. h' = blake3 X payload then (True, k)
      else (False, (if SEEN_CAP \<le> length k then tl k else k) @ [(blake3 X payload, now)]))"
    by (simp add: check_seen_def Let_def k)
  then show ?thesis using d t t' by (auto simp: seen_ok_def)
qed

text \<open>What was recorded is still there a minute later, unless 4999 other payloads came in between.\<close>

lemma record_stays:
  assumes "seen = xs @ (h, t) # ys" and "length ys + length cs < SEEN_CAP" and "\<forall>(now, _)\<in>set cs. now \<le> t + SEEN_TTL"
  shows "\<exists>xs' ys'. check_all X cs seen = xs' @ (h, t) # ys'"
  using assms
proof (induction cs arbitrary: seen xs ys)
  case (Cons c cs)
  obtain now payload where c: "c = (now, payload)" by fastforce
  let ?P = "\<lambda>(_ :: 256 word, t). SEEN_TTL < now - t"
  have np: "\<not> ?P (h, t)" using Cons.prems(3) by (simp add: c) linarith
  then have kept: "dropWhile ?P seen = dropWhile ?P xs @ (h, t) # ys" using Cons.prems(1) by (induction xs arbitrary: seen) auto
  let ?xs = "dropWhile ?P xs"
  obtain xs' ys' where s: "snd (check_seen X now payload seen) = xs' @ (h, t) # ys'" and l: "length ys' \<le> length ys + 1"
  proof (cases "fst (check_seen X now payload seen)")
    case True
    then have "snd (check_seen X now payload seen) = ?xs @ (h, t) # ys"
      using kept by (auto simp: check_seen_def Let_def split: if_splits)
    then show ?thesis using that[of ?xs ys] by simp
  next
    case False
    have e: "snd (check_seen X now payload seen) =
        (if SEEN_CAP \<le> length (?xs @ (h, t) # ys) then tl (?xs @ (h, t) # ys) else ?xs @ (h, t) # ys) @ [(blake3 X payload, now)]"
      using False kept by (auto simp: check_seen_def Let_def split: if_splits)
    show ?thesis
    proof (cases "SEEN_CAP \<le> length (?xs @ (h, t) # ys)")
      case True
      have "?xs \<noteq> []"
      proof
        assume "?xs = []"
        with True have "SEEN_CAP \<le> length ([] @ (h, t) # ys)" by (simp only: \<open>?xs = []\<close>)
        then have "SEEN_CAP \<le> Suc (length ys)" by simp
        then show False using Cons.prems(2) by simp
      qed
      then have "snd (check_seen X now payload seen) = tl ?xs @ (h, t) # (ys @ [(blake3 X payload, now)])" using e True by simp
      then show ?thesis using that[of "tl ?xs"] by simp
    next
      case False
      then show ?thesis using that[of ?xs "ys @ [(blake3 X payload, now)]"] e by simp
    qed
  qed
  have "\<exists>xs'' ys''. check_all X cs (snd (check_seen X now payload seen)) = xs'' @ (h, t) # ys''"
    by (rule Cons.IH[OF s]) (use l Cons.prems(2,3) in auto)
  then show ?case by (simp add: c)
qed auto

lemma seen_once:
  assumes "check_seen X t payload seen = (False, seen')" and "length cs < SEEN_CAP - 1"
    and "\<forall>(now, _)\<in>set cs. now \<le> t + SEEN_TTL" and "now \<le> t + SEEN_TTL"
  shows "fst (check_seen X now payload (check_all X cs seen'))"
proof -
  obtain xs where s: "seen' = xs @ (blake3 X payload, t) # []" using assms(1) by (auto simp: check_seen_def Let_def split: if_splits)
  obtain xs' ys' where c: "check_all X cs seen' = xs' @ (blake3 X payload, t) # ys'"
  proof -
    have "length ([] :: (256 word \<times> nat) list) + length cs < SEEN_CAP" using assms(2) by simp
    from record_stays[OF s this assms(3), of X] show ?thesis using that by blast
  qed
  let ?P = "\<lambda>(_ :: 256 word, t). SEEN_TTL < now - t"
  have "dropWhile ?P (xs' @ (blake3 X payload, t) # ys') = dropWhile ?P xs' @ (blake3 X payload, t) # ys'"
    using assms(4) by (induction xs') auto
  then show ?thesis using c by (auto simp: check_seen_def Let_def)
qed

section \<open>Who gets in\<close>

text \<open>A Hello passes whatever its key and its signature are.\<close>

lemma check_hello_frame:
  assumes "length payload \<le> SIZE_HANDSHAKE" and "de_hello (ne_codec E) payload = Some h" and "hm_genesis_hash h = genesis"
    and "node_type_from_u8 (hm_node_type h) = Some t"
  shows "check_hello E genesis (encode_envelope (ne_crypto E) \<lparr>env_msg_type = MtHello, env_payload = payload\<rparr>) =
    Inr (hm_peer_id h, t, hm_best_height h, hm_best_hash h)"
proof -
  let ?e = "\<lparr>env_msg_type = MtHello, env_payload = payload\<rparr>"
  have "type_limit (type_byte MtHello) = SIZE_HANDSHAKE"
    by (simp add: type_limit_def max_for_type_def SIZE_HANDSHAKE_def MAX_MESSAGE_SIZE_def)
  then have "decode_envelope (ne_crypto E) (encode_envelope (ne_crypto E) ?e @ []) = (Inr ?e, [])"
    unfolding decode_iff encode_envelope_def using assms(1) by (intro exI[where x = VERSION]) (simp add: supported_iff VERSION_def)
  then show ?thesis using assms(2-4) by (simp add: check_hello_def envelope_deserialize_def)
qed

text \<open>The node's own answer fits on the wire.\<close>

definition hello_fits :: "net_env \<Rightarrow> bool" where
  "hello_fits E \<longleftrightarrow> (\<forall>m. \<exists>bs. ser_hello (ne_codec E) m = Some bs \<and> length bs \<le> SIZE_HANDSHAKE)"

lemma hello_ack_made: "hello_fits E \<Longrightarrow> \<exists>e. envelope_new (ser_hello (ne_codec E)) MtHelloAck m = Inr e"
proof -
  assume "hello_fits E"
  then obtain bs where bs: "ser_hello (ne_codec E) m = Some bs" "length bs \<le> SIZE_HANDSHAKE" by (auto simp: hello_fits_def)
  have "type_limit (type_byte MtHelloAck) = SIZE_HANDSHAKE"
    by (simp add: type_limit_def max_for_type_def SIZE_HANDSHAKE_def MAX_MESSAGE_SIZE_def)
  with bs show ?thesis by (simp add: envelope_new_def)
qed

lemma incoming_registers:
  assumes "incoming_auth E a n = ((Inr auth, s), k)" and "auth = None \<or> auth = Some i"
    and "\<not> ar_hello_late a" and "ar_send a = Some (Inr ())" and "hello_fits E"
    and "check_hello E (cv_genesis_hash (nt_chain k)) s = Inr (i, t, height, h)" and "peer_at k i = None"
  shows "fst (handle_incoming E a n) = Inr i" and "\<exists>p. peer_at (snd (handle_incoming E a n)) i = Some p \<and> pe_state p = Connected"
proof -
  obtain e where e: "envelope_new (ser_hello (ne_codec E)) MtHelloAck (own_hello E CFull (ar_unix a) (ar_ack_nonce a) k) = Inr e"
    using hello_ack_made[OF assms(5)] by blast
  have hs: "handshake E a s k = Inr (i, t, height, h)" using assms(3,4,6) e by (simp add: handshake_def)
  have na: "\<not> (auth \<noteq> None \<and> auth \<noteq> Some i)" using assms(2) by blast
  have none: "\<not> map_of (nt_peers k) i \<noteq> None" using assms(7) by (simp add: peer_at_def)
  show "fst (handle_incoming E a n) = Inr i"
    unfolding handle_incoming_def Let_def assms(1) by (simp only: prod.case sum.case hs if_not_P[OF na] if_not_P[OF none] fst_conv)
  have "peer_at ((init_bucket now i (register_peer now' p k))\<lparr>nt_handshakes := x, nt_tasks := y\<rparr>) i = Some (p\<lparr>pe_state := Connected\<rparr>)"
    if "pe_id p = i" for now now' p x y
    using that by (simp add: peer_at_def init_bucket_def register_peer_def Let_def emit_def update_conv')
  then show "\<exists>p. peer_at (snd (handle_incoming E a n)) i = Some p \<and> pe_state p = Connected"
    unfolding handle_incoming_def Let_def assms(1)
    by (simp only: prod.case sum.case hs if_not_P[OF na] if_not_P[OF none] snd_conv) (simp add: peer_new_def)
qed

section \<open>Choosing whom to ask\<close>

lemma foldl_max:
  assumes "\<forall>y\<in>set (a # xs). y \<noteq> x \<longrightarrow> cmp x y = Greater \<and> cmp y x \<noteq> Greater" and "x \<in> set (a # xs)" and "cmp x x \<noteq> Greater"
  shows "foldl (\<lambda>a b. if cmp a b = Greater then a else b) a xs = x"
  using assms
proof (induction xs arbitrary: a)
  case (Cons b xs)
  have "foldl (\<lambda>a b. if cmp a b = Greater then a else b) (if cmp a b = Greater then a else b) xs = x"
    by (rule Cons.IH) (use Cons.prems in \<open>auto split: if_splits\<close>)
  then show ?case by simp
qed simp

lemma max_by_unique:
  assumes "\<forall>y\<in>set xs. y \<noteq> x \<longrightarrow> cmp x y = Greater \<and> cmp y x \<noteq> Greater" and "x \<in> set xs" and "cmp x x \<noteq> Greater"
  shows "max_by cmp xs = Some x"
  using assms foldl_max[of _ _ x cmp] by (cases xs) simp_all

section \<open>Ranges of blocks\<close>

lemma unat_plus_one: "unat (x + 1 :: u64) \<le> unat x + 1"
  by (simp add: unat_word_ariths(1) mod_less_eq_dividend)

lemma get_blocks_range_span:
  assumes "a \<le> c" and "unat (c - a) \<le> k"
  shows "length (get_blocks_range get best a c) \<le> k + 1"
proof (cases "best < a")
  case False
  let ?m = "min c best"
  have m: "a \<le> ?m" "?m \<le> c" using False assms(1) by (simp_all add: not_less)
  then have "unat (?m - a) \<le> unat (c - a)" using assms(1) by (simp add: unat_sub word_le_nat_alt diff_le_mono)
  then have "unat (?m - a + 1) \<le> k + 1" using unat_plus_one[of "?m - a"] assms(2) by linarith
  moreover have "unat (min x PROVIDER_MAX) \<le> unat x" for x :: u64 by (simp add: word_le_nat_alt[symmetric])
  ultimately have "unat (min (?m - a + 1) PROVIDER_MAX) \<le> k + 1" using le_trans by blast
  then show ?thesis using collect_blocks_get[of get "unat (min (?m - a + 1) PROVIDER_MAX)" a] False assms(1)
    by (auto simp: get_blocks_range_def Let_def)
qed (simp add: get_blocks_range_def)

lemma clamped_span:
  assumes "\<not> (gb_from_height g = 0 \<and> gb_to_height g = - 1)" and "gb_from_height g \<le> clamped_to g"
  shows "unat (clamped_to g - gb_from_height g) \<le> 15"
proof -
  let ?a = "gb_from_height g" and ?b = "gb_to_height g"
  let ?r = "saturating_sub_word ?b ?a + 1"
  show ?thesis
  proof (cases "16 < ?r")
    case True
    then have "clamped_to g - ?a = 15" by (simp add: clamped_to_def Let_def MAX_BLOCKS_PER_RESPONSE_def)
    then show ?thesis by simp
  next
    case False
    then have c: "clamped_to g = ?b" by (simp add: clamped_to_def Let_def MAX_BLOCKS_PER_RESPONSE_def)
    then have s: "saturating_sub_word ?b ?a = ?b - ?a" using assms(2) by (simp add: saturating_sub_word_def)
    have "?r \<noteq> 0"
    proof
      assume "?r = 0"
      then have "?b - ?a = - 1" by (simp add: s eq_neg_iff_add_eq_0)
      then have "?b = ?a - 1" by (simp add: diff_eq_eq)
      then have le: "unat ?a \<le> unat (?a - 1)" using assms(2) c by (simp add: word_le_nat_alt)
      have "?a = 0"
      proof (rule ccontr)
        assume "?a \<noteq> 0"
        then have "unat (?a - 1) = unat ?a - 1" "0 < unat ?a" by (simp_all add: unat_minus_one unat_gt_0)
        with le show False by simp
      qed
      then show False using \<open>?b = ?a - 1\<close> assms(1) by simp
    qed
    then have "unat ?r = unat (?b - ?a) + 1" unfolding s by (metis unatSuc add.commute Suc_eq_plus1)
    moreover have "unat ?r \<le> 16" using False by (simp add: not_less word_le_nat_alt)
    ultimately show ?thesis by (simp add: c)
  qed
qed

end
