(* ===== verification/Properties_Network.thy ===== *)
theory Properties_Network
  imports Network_Run_Facts Properties_Core
begin

text \<open>
  The properties of the peer-to-peer network, each with a concrete instance where it has hypotheses.
\<close>

section \<open>The wire\<close>

text \<open>C21. What the reader of a stream takes for a message is exactly what the writer of a supported version makes of one: the same
  type, the same payload within the limit of its type, its length and its checksum, and the rest of the stream is untouched.\<close>

theorem frames_decode_exactly:
  "decode_envelope X s = (Inr e, rest) \<longleftrightarrow>
     (\<exists>v. is_supported v \<and> s = wire X v e @ rest \<and> length (env_payload e) \<le> type_limit (type_byte (env_msg_type e)))"
  by (rule decode_iff)

section \<open>Sessions\<close>

text \<open>C27. Two honest nodes end the session handshake with the same two keys, each the other's way round, and each knows the other by
  the hash of its signing key.\<close>

theorem session_keys_agree:
  assumes "signs_well X a" and "signs_well X b" and "x25519_shared S x (x25519_public S y) = x25519_shared S y (x25519_public S x)"
    and "from_a = token_to_bytes (auth_token_new X (x25519_public S x) a)"
    and "from_b = token_to_bytes (auth_token_new X (x25519_public S y) b)"
  shows "\<exists>i r. perform_handshake_initiator X S a x (from_b @ s) = (Inr i, s, from_a) \<and>
    perform_handshake_responder X S b y (from_a @ t) = (Inr r, t, from_b) \<and>
    hr_send i = hr_recv r \<and> hr_recv i = hr_send r \<and>
    hr_peer_id i = blake3 X (be_bytes (verifying_key X b)) \<and> hr_peer_id r = blake3 X (be_bytes (verifying_key X a))"
  using handshake_agrees[OF assms(1-3)] unfolding assms(4,5) .

text \<open>A stand-in for Diffie-Hellman, in which every secret is its own public key, and for the key derivation.\<close>

definition demo_session :: session_ext where
  "demo_session = \<lparr>x25519_public = (\<lambda>x. x), x25519_shared = (\<lambda>x y. x + y), derive_key = (\<lambda>c m. of_nat (sum_list c)),
     aead_encrypt = (\<lambda>k n p. Some p), aead_decrypt = (\<lambda>k n c. Some c)\<rparr>"

lemma demo_signs_well: "signs_well demo_crypto k"
  by (simp add: signs_well_def demo_crypto_def)

theorem session_keys_agree_witness:
  "\<exists>i r. perform_handshake_initiator demo_crypto demo_session 1 5 (token_to_bytes (auth_token_new demo_crypto 7 2) @ [9]) =
      (Inr i, [9], token_to_bytes (auth_token_new demo_crypto 5 1)) \<and>
    perform_handshake_responder demo_crypto demo_session 2 7 (token_to_bytes (auth_token_new demo_crypto 5 1) @ [8]) =
      (Inr r, [8], token_to_bytes (auth_token_new demo_crypto 7 2)) \<and>
    hr_send i = hr_recv r \<and> hr_recv i = hr_send r \<and>
    hr_peer_id i = blake3 demo_crypto (be_bytes (verifying_key demo_crypto 2)) \<and>
    hr_peer_id r = blake3 demo_crypto (be_bytes (verifying_key demo_crypto 1))"
  using session_keys_agree[OF demo_signs_well demo_signs_well, of demo_session 5 7 _ 1 _ 2 "[9]" "[8]"] by (simp add: demo_session_def)

section \<open>Instances\<close>

definition demo_hello :: "256 word \<Rightarrow> hello_message" where
  "demo_hello i = \<lparr>hm_version = 2, hm_peer_id = i, hm_best_height = 3, hm_best_hash = Hash 4, hm_genesis_hash = Hash 0, hm_node_type = 1,
     hm_timestamp = 0, hm_connection_nonce = 0, hm_ed25519_pubkey = 0, hm_auth_signature = 0\<rparr>"

definition demo_victim :: "256 word" where
  "demo_victim = blake3 demo_crypto (be_bytes (7 :: 256 word))"

text \<open>A serialiser that reads every Hello as the one of a certain peer and writes it, like a request for blocks, as nothing.\<close>

definition demo_wire :: wire_codec where
  "demo_wire = \<lparr>ser_hello = (\<lambda>_. Some []), de_hello = (\<lambda>_. Some (demo_hello demo_victim)), ser_status = (\<lambda>_. None),
     de_status = (\<lambda>_. None), de_status_legacy = (\<lambda>_. None), ser_get_blocks = (\<lambda>_. Some []), de_get_blocks = (\<lambda>_. None),
     ser_blocks = (\<lambda>_. None), de_blocks = (\<lambda>_. None), ser_new_block = (\<lambda>_. None), de_new_block = (\<lambda>_. None),
     ser_new_tx = (\<lambda>_. None), de_new_tx = (\<lambda>_. None), ser_ping = (\<lambda>_. None), de_ping = (\<lambda>_. None)\<rparr>"

definition net_float :: float_ext where
  "net_float = \<lparr>fm_log2 = (\<lambda>x. x), fm_exp = (\<lambda>x. x), fm_sqrt = (\<lambda>x. x), fm_powi = (\<lambda>x _. x), fm_ln = (\<lambda>x. x), fm_powf = (\<lambda>x _. x)\<rparr>"

definition demo_net_env :: net_env where
  "demo_net_env = \<lparr>ne_crypto = demo_crypto, ne_float = net_float, ne_session = demo_session, ne_codec = demo_wire, ne_block = (\<lambda>_. None),
     ne_best = 0\<rparr>"

definition demo_net :: "256 word option \<Rightarrow> net" where
  "demo_net key = network_new demo_crypto cpp_config_default 99 key (Hash 0) 5 (Hash 6)"

definition demo_addr :: socket_addr where
  "demo_addr = \<lparr>sa_ip = V4 8 8 8 8, sa_port = 707\<rparr>"

definition demo_arrival :: "bytes \<Rightarrow> arrival" where
  "demo_arrival s = \<lparr>ar_addr = demo_addr, ar_stream = s, ar_ephemeral = 0, ar_auth_late = False, ar_hello_late = False,
     ar_send = Some (Inr ()), ar_ack_nonce = 0, ar_nonce = 0, ar_unix = 0, ar_now = 0\<rparr>"

lemma demo_hello_fits: "hello_fits demo_net_env"
  by (simp add: hello_fits_def demo_net_env_def demo_wire_def)

section \<open>Connections\<close>




definition demo_task :: "256 word \<Rightarrow> message_task" where
  "demo_task i = \<lparr>tk_peer_id = i, tk_ip = V4 8 8 8 8, tk_outbound = False\<rparr>"

definition demo_peer :: "256 word \<Rightarrow> peer" where
  "demo_peer i = peer_new 0 i demo_addr CFull 3 (Hash 4) (Hash 0) 0 False"

definition demo_pair :: net where
  "demo_pair = (demo_net None)\<lparr>nt_limiter := \<lparr>cl_per_ip = [(V4 8 8 8 8, 2)], cl_total = 2, cl_max_per_ip = 12, cl_max_total = 128\<rparr>,
     nt_peers := [(1, demo_peer 1), (2, demo_peer 2)], nt_tasks := [demo_task 1, demo_task 2]\<rparr>"

lemma demo_pair_slots: "slots_ok demo_pair" "inbound demo_pair (V4 8 8 8 8) = 2"
  by (auto simp: slots_ok_def demo_pair_def limiter_ok_def inbound_def inbound_total_def demo_net_def network_new_def demo_task_def
      count_for_ip_def fun_eq_iff)


section \<open>Identities\<close>

text \<open>C36. A session token that was recorded once lets anyone in under its owner's name: followed by a Hello in the clear that names the
  owner, it registers whoever replays it as that peer, and neither the key nor the signature of the Hello is looked at.\<close>

theorem recorded_token_impersonates:
  assumes "nt_signing_key n = Some sk" and "token_verify (ne_crypto E) (token_from_bytes tok) = Inr ()" and "length tok = 128"
    and "i = blake3 (ne_crypto E) (be_bytes (at_ed25519 (token_from_bytes tok)))"
    and "de_hello (ne_codec E) payload = Some h" and "hm_peer_id h = i" and "hm_genesis_hash h = cv_genesis_hash (nt_chain n)"
    and "node_type_from_u8 (hm_node_type h) = Some t" and "length payload \<le> SIZE_HANDSHAKE"
    and "ar_stream a = tok @ encode_envelope (ne_crypto E) \<lparr>env_msg_type = MtHello, env_payload = payload\<rparr>"
    and "\<not> ar_auth_late a" and "\<not> ar_hello_late a" and "ar_send a = Some (Inr ())" and "hello_fits E" and "peer_at n i = None"
  shows "fst (handle_incoming E a n) = Inr i \<and> (\<exists>p. peer_at (snd (handle_incoming E a n)) i = Some p \<and> pe_state p = Connected)"
proof -
  let ?s = "encode_envelope (ne_crypto E) \<lparr>env_msg_type = MtHello, env_payload = payload\<rparr>"
  have r: "read_exact 128 (ar_stream a) = (Inr tok, ?s)" unfolding assms(10) by (rule read_exact_append[OF assms(3)])
  obtain x out where "perform_handshake_responder (ne_crypto E) (ne_session E) sk (ar_ephemeral a) (ar_stream a) = (Inr x, ?s, out)"
    and "hr_peer_id x = i"
    unfolding perform_handshake_responder_def r by (simp add: assms(2,4) Let_def derive_session_keys_def)
  then have auth: "incoming_auth E a n = ((Inr (Some i), ?s), on_sm on_peer_connect n)"
    using assms(1,11) by (simp add: incoming_auth_def Let_def)
  have "check_hello E (cv_genesis_hash (nt_chain (on_sm on_peer_connect n))) ?s = Inr (i, t, hm_best_height h, hm_best_hash h)"
    using check_hello_frame[OF assms(9,5) _ assms(8), of "cv_genesis_hash (nt_chain n)"] assms(6,7) by (simp add: on_sm_def)
  from incoming_registers[OF auth _ assms(12,13,14) this] show ?thesis using assms(15) by (simp add: peer_at_def on_sm_def)
qed

definition demo_token :: bytes where
  "demo_token = token_to_bytes (auth_token_new demo_crypto 5 7)"

theorem recorded_token_impersonates_witness:
  "fst (handle_incoming demo_net_env (demo_arrival (demo_token @ encode_envelope demo_crypto \<lparr>env_msg_type = MtHello, env_payload = [7]\<rparr>)) (demo_net (Some 1)))
     = Inr demo_victim"
proof -
  let ?s = "demo_token @ encode_envelope demo_crypto \<lparr>env_msg_type = MtHello, env_payload = [7]\<rparr>"
  have tok: "token_from_bytes demo_token = auth_token_new demo_crypto 5 7" "length demo_token = 128" by (simp_all add: demo_token_def)
  have v: "token_verify (ne_crypto demo_net_env) (token_from_bytes demo_token) = Inr ()"
    using honest_token_verifies[OF demo_signs_well] by (simp add: tok demo_net_env_def)
  have i: "demo_victim = blake3 (ne_crypto demo_net_env) (be_bytes (at_ed25519 (token_from_bytes demo_token)))"
    by (simp add: demo_victim_def tok auth_token_new_def demo_net_env_def) (simp add: demo_crypto_def)
  have h: "de_hello (ne_codec demo_net_env) [7] = Some (demo_hello demo_victim)" by (simp add: demo_net_env_def demo_wire_def)
  have n: "nt_signing_key (demo_net (Some 1)) = Some 1" "cv_genesis_hash (nt_chain (demo_net (Some 1))) = Hash 0" "peer_at (demo_net (Some 1)) demo_victim = None"
    by (simp_all add: demo_net_def network_new_def peer_at_def)
  show ?thesis
    using recorded_token_impersonates[OF n(1) v tok(2) i h _ _ _ _ _ _ _ _ demo_hello_fits n(3), of CFull "demo_arrival ?s"] n(2)
    by (simp add: demo_hello_def demo_arrival_def node_type_from_u8_def SIZE_HANDSHAKE_def demo_net_env_def)
qed

text \<open>Without a signing key, which is how nodes are started, any name will do: the first connection that says it is a peer is that
  peer.\<close>

theorem any_identity_is_accepted:
  assumes "nt_signing_key n = None" and "\<not> cc_require_encryption (nt_config n)"
    and "de_hello (ne_codec E) payload = Some h" and "hm_genesis_hash h = cv_genesis_hash (nt_chain n)"
    and "node_type_from_u8 (hm_node_type h) = Some t" and "length payload \<le> SIZE_HANDSHAKE"
    and "ar_stream a = encode_envelope (ne_crypto E) \<lparr>env_msg_type = MtHello, env_payload = payload\<rparr>"
    and "\<not> ar_hello_late a" and "ar_send a = Some (Inr ())" and "hello_fits E" and "peer_at n (hm_peer_id h) = None"
  shows "fst (handle_incoming E a n) = Inr (hm_peer_id h) \<and>
    (\<exists>p. peer_at (snd (handle_incoming E a n)) (hm_peer_id h) = Some p \<and> pe_state p = Connected)"
proof -
  have auth: "incoming_auth E a n = ((Inr None, ar_stream a), on_sm on_peer_connect n)"
    using assms(1,2) by (simp add: incoming_auth_def Let_def)
  have "check_hello E (cv_genesis_hash (nt_chain (on_sm on_peer_connect n))) (ar_stream a) = Inr (hm_peer_id h, t, hm_best_height h, hm_best_hash h)"
    using check_hello_frame[OF assms(6,3) _ assms(5), of "cv_genesis_hash (nt_chain n)"] assms(4,7) by (simp add: on_sm_def)
  from incoming_registers[OF auth _ assms(8,9,10) this] show ?thesis using assms(11) by (simp add: peer_at_def on_sm_def)
qed

section \<open>Messages\<close>

text \<open>No peer is ever banned for malformed messages, and the counter of banned peers stays zero: the first malformed message ends
  the message loop, which forgets its strikes, and a ban takes five.\<close>

theorem malformed_peers_never_banned:
  "sm_peers_banned (nt_sm (net_run E resolve es (network_new X config i key g h b))) = 0 \<and>
   (be_reason \<circ> snd) ` set (bl_banned_peers (nt_bans (net_run E resolve es (network_new X config i key g h b))))
     \<subseteq> {''rate limit strikes exceeded''}"
proof -
  have "net_ok config (net_run E resolve es (network_new X config i key g h b))" using net_ok_run[OF net_ok_new] .
  then show ?thesis by (auto simp: net_ok_def bans_ok_def)
qed

text \<open>A peer that says goodbye stays: the message is answered by an error that the loop logs, and the loop goes on.\<close>

theorem goodbye_is_ignored:
  assumes "peer_at n i = Some p" and "pe_state p = Connected" and "fst (consume_token now i n)"
  shows "fst (loop_turn E now unix i (Inr \<lparr>env_msg_type = MtDisconnect, env_payload = payload\<rparr>) n) \<and>
    (\<exists>q. peer_at (snd (loop_turn E now unix i (Inr \<lparr>env_msg_type = MtDisconnect, env_payload = payload\<rparr>) n)) i = Some q \<and>
      pe_state q = Connected)"
proof -
  have at: "peer_at (on_net_peer i f m) i = map_option f (peer_at m i)" for f m
  proof -
    have "map_of (map (\<lambda>(k, p). (k, if k = i then f p else p)) xs) i = map_option f (map_of xs i)" for xs
      by (induction xs) auto
    then show ?thesis by (simp add: peer_at_def on_net_peer_def)
  qed
  let ?n = "on_net_peer i (on_successful_read now (length payload)) n"
  obtain m where c: "consume_token now i ?n = (True, m)"
    using assms(3) by (auto simp: consume_token_def on_net_peer_def split: option.splits prod.splits)
  then have "peer_at m i = Some (on_successful_read now (length payload) p)"
    using at[of "on_successful_read now (length payload)" n] assms(1)
    by (auto simp: consume_token_def peer_at_def split: option.splits prod.splits)
  then have "peer_at (on_sm f m) i = Some (on_successful_read now (length payload) p)" for f by (simp add: peer_at_def on_sm_def)
  then show ?thesis using assms(1,2) c at
    by (simp add: loop_turn_def on_frame_def Let_def handle_peer_message_def peer_received_def on_successful_read_def)
qed

text \<open>A request for blocks is served with at most sixteen, each the block of the next height, unless it asks for all heights
  there are: that count wraps to zero, and the sixteen become five hundred.\<close>

theorem served_blocks_bounded:
  "length (blocks_to_serve E g) \<le> (if gb_from_height g = 0 \<and> gb_to_height g = - 1 then 500 else 16) \<and>
   map (\<lambda>i. ne_block E (gb_from_height g + of_nat i)) [0..<length (blocks_to_serve E g)] = map Some (blocks_to_serve E g)"
proof (rule conjI)
  show "map (\<lambda>i. ne_block E (gb_from_height g + of_nat i)) [0..<length (blocks_to_serve E g)] = map Some (blocks_to_serve E g)"
    using get_blocks_range_facts(2)[of _ "ne_block E" "ne_best E" "gb_from_height g" "clamped_to g"]
    by (intro nth_equalityI) (simp_all add: blocks_to_serve_def)
  show "length (blocks_to_serve E g) \<le> (if gb_from_height g = 0 \<and> gb_to_height g = - 1 then 500 else 16)"
  proof (cases "clamped_to g < gb_from_height g")
    case True
    then show ?thesis by (simp add: blocks_to_serve_def get_blocks_range_def)
  next
    case False
    then have le: "gb_from_height g \<le> clamped_to g" by simp
    show ?thesis
    proof (cases "gb_from_height g = 0 \<and> gb_to_height g = - 1")
      case True
      then show ?thesis unfolding blocks_to_serve_def using get_blocks_range_facts(1) by simp
    next
      case False
      from get_blocks_range_span[OF le clamped_span[OF this le]] show ?thesis unfolding blocks_to_serve_def if_not_P[OF False] by simp
    qed
  qed
qed

text \<open>C37. A node that is behind asks the peer that claims the most work, whatever height that peer claims: with a height not above ours
  the range it asks for is empty and nothing is served for it, at this check and at every later one, while the claim stands.\<close>

theorem claimed_work_stalls_sync:
  assumes "distinct (map fst (nt_peers n))" and "peer_at n i = Some p"
    and "\<forall>j q. peer_at n j = Some q \<and> j \<noteq> i \<longrightarrow> pe_cumulative_work q < pe_cumulative_work p"
    and "pe_best_height p \<le> cv_best_height (nt_chain n)"
    and "cv_best_height (nt_chain n) + 1 < sync_median (map (pe_best_height \<circ> snd) (nt_peers n))"
    and "cv_best_height (nt_chain n) < - 2"
  shows "\<exists>g. sync_request r n = Some (i, g) \<and> gb_to_height g < gb_from_height g \<and> blocks_to_serve E g = []"
proof -
  let ?h = "cv_best_height (nt_chain n)" and ?m = "sync_median (map (pe_best_height \<circ> snd) (nt_peers n))"
  have mem: "(i, p) \<in> set (nt_peers n)" using assms(2) map_of_SomeD by (simp add: peer_at_def)
  have others: "sync_cmp (i, p) y = Greater \<and> sync_cmp y (i, p) \<noteq> Greater" if y: "y \<in> set (nt_peers n)" "y \<noteq> (i, p)" for y
  proof -
    obtain j q where yq: "y = (j, q)" by fastforce
    have "peer_at n j = Some q" using y(1) assms(1) by (simp add: yq peer_at_def)
    moreover from this have "j \<noteq> i" using y(2) assms(2) by (auto simp: yq)
    ultimately have "pe_cumulative_work q < pe_cumulative_work p" using assms(3) by blast
    then show ?thesis by (auto simp: yq sync_cmp_def cmp_word_def then_with_def not_less)
  qed
  have best: "max_by sync_cmp (nt_peers n) = Some (i, p)"
    by (rule max_by_unique) (use others mem in \<open>auto simp: sync_cmp_def cmp_word_def then_with_def\<close>)
  have bounds: "unat ?h < unat (- 2 :: u64)" using assms(6) by (simp add: word_less_nat_alt)
  then have h1: "unat (?h + 1) = unat ?h + 1" by (subst unat_add_small) simp_all
  have m: "unat ?h + 1 < unat ?m" using assms(5) h1 by (simp add: word_less_nat_alt)
  then have far: "\<not> ?m \<le> ?h" "1 < ?m - ?h" by (simp_all add: word_less_nat_alt word_le_nat_alt unat_sub)
  let ?g = "\<lparr>gb_from_height = ?h + 1, gb_to_height = min (pe_best_height p) (?h + MAX_BLOCKS_PER_RESPONSE), gb_request_id = r\<rparr>"
  have req: "sync_request r n = Some (i, ?g)" using best far mem by (auto simp: sync_request_def Let_def)
  have below: "gb_to_height ?g < gb_from_height ?g"
  proof -
    have "gb_to_height ?g \<le> ?h" using assms(4) by (simp add: min.coboundedI1)
    moreover have "?h < ?h + 1" using h1 by (simp add: word_less_nat_alt)
    ultimately show ?thesis by simp
  qed
  then have nle: "\<not> gb_from_height ?g \<le> gb_to_height ?g" by (simp only: not_le)
  have "clamped_to ?g = gb_to_height ?g"
    unfolding clamped_to_def saturating_sub_word_def if_not_P[OF nle] by (simp add: MAX_BLOCKS_PER_RESPONSE_def)
  with below have "blocks_to_serve E ?g = []" by (simp add: blocks_to_serve_def get_blocks_range_def)
  with req below show ?thesis by blast
qed

definition demo_far :: "256 word \<Rightarrow> u64 \<Rightarrow> u128 \<Rightarrow> peer" where
  "demo_far i height work = (demo_peer i)\<lparr>pe_best_height := height, pe_cumulative_work := work\<rparr>"

definition demo_behind :: net where
  "demo_behind = (demo_net None)\<lparr>nt_peers := [(1, demo_far 1 100 50), (2, demo_far 2 100 50), (3, demo_far 3 4 51)]\<rparr>"

theorem claimed_work_stalls_sync_witness:
  "\<exists>g. sync_request 0 demo_behind = Some (3, g) \<and> gb_to_height g < gb_from_height g \<and> blocks_to_serve demo_net_env g = []"
proof (rule claimed_work_stalls_sync)
  show "cv_best_height (nt_chain demo_behind) + 1 < sync_median (map (pe_best_height \<circ> snd) (nt_peers demo_behind))"
    by (simp add: demo_behind_def demo_net_def network_new_def demo_far_def sync_median_def)
qed (auto simp: demo_behind_def demo_net_def network_new_def demo_far_def peer_at_def split: if_splits)

end
