(* ===== verification/Mempool_Fees.thy ===== *)
theory Mempool_Fees
  imports CJ_Prelude "HOL-Library.Signed_Division"
begin

text \<open>
  \<open>mempool/src/fee_market.rs\<close>: the base fee that follows the fullness of blocks. The update computes in \<open>i64\<close>, which
  wraps around; a division by zero or the one overflowing division is a panic, \<open>None\<close>. \<open>usize\<close> is 64 bits wide.
\<close>

section \<open>Definitions\<close>

record fee_market_config =
  fmc_target_transactions :: u64
  fmc_max_transactions :: u64
  fmc_initial_base_fee :: u128
  fmc_max_change_denominator :: u64
  fmc_min_base_fee :: u128

definition fee_market_config_default :: fee_market_config where
  "fee_market_config_default =
     \<lparr>fmc_target_transactions = 100, fmc_max_transactions = 200, fmc_initial_base_fee = 1000,
      fmc_max_change_denominator = 8, fmc_min_base_fee = 100\<rparr>"

record fee_market =
  fmk_base_fee :: u128
  fmk_target_transactions :: u64
  fmk_max_transactions :: u64
  fmk_config :: fee_market_config

definition fee_market_new :: "fee_market_config \<Rightarrow> fee_market" where
  "fee_market_new c =
     \<lparr>fmk_base_fee = fmc_initial_base_fee c, fmk_target_transactions = fmc_target_transactions c,
      fmk_max_transactions = fmc_max_transactions c, fmk_config = c\<rparr>"

text \<open>\<open>i64::div\<close>: towards zero, with its two panics.\<close>

definition i64_div :: "i64 \<Rightarrow> i64 \<Rightarrow> i64 option" where
  "i64_div a b =
     (if b = 0 \<or> (sint a = - (2 ^ 63) \<and> sint b = - 1) then None else Some (word_of_int (sint a sdiv sint b)))"

definition i64_max :: "i64 \<Rightarrow> i64 \<Rightarrow> i64" where
  "i64_max a b = (if sint a \<le> sint b then b else a)"

definition update_base_fee :: "u64 \<Rightarrow> fee_market \<Rightarrow> fee_market option" where
  "update_base_fee transactions_in_block m =
     (let target = fmk_target_transactions m; actual = transactions_in_block; delta = actual - target in
      if delta = 0 then Some m
      else let base = ucast (fmk_base_fee m); denominator = fmc_max_change_denominator (fmk_config m); numerator = base * delta
        in case i64_div numerator target of None \<Rightarrow> None
        | Some q \<Rightarrow> (case i64_div q denominator of None \<Rightarrow> None
          | Some change \<Rightarrow>
              let new_base_fee = i64_max (base + change) (ucast (fmc_min_base_fee (fmk_config m)))
              in Some (m\<lparr>fmk_base_fee := scast new_base_fee\<rparr>)))"

definition calculate_total_fee :: "fee_market \<Rightarrow> u128 \<Rightarrow> u128" where
  "calculate_total_fee m priority_fee = fmk_base_fee m + priority_fee"

definition market_validate_fee :: "fee_market \<Rightarrow> u128 \<Rightarrow> u128 \<Rightarrow> bool" where
  "market_validate_fee m total_fee priority_fee \<longleftrightarrow>
     fmk_base_fee m + priority_fee \<le> total_fee \<and> fmc_min_base_fee (fmk_config m) \<le> total_fee"

definition get_miner_reward :: "u128 \<Rightarrow> u128 \<Rightarrow> u128" where
  "get_miner_reward total_fee priority_fee = min priority_fee total_fee"

definition get_burn_amount :: "u128 \<Rightarrow> u128 \<Rightarrow> u128" where
  "get_burn_amount total_fee priority_fee =
     (let miner = get_miner_reward total_fee priority_fee in saturating_sub_word total_fee miner)"

definition simulate_next_base_fee :: "u64 \<Rightarrow> fee_market \<Rightarrow> u128 option" where
  "simulate_next_base_fee expected_transactions m = map_option fmk_base_fee (update_base_fee expected_transactions m)"

record fee_breakdown =
  fb_total_fee :: u128
  fb_base_fee :: u128
  fb_priority_fee :: u128
  fb_burn_amount :: u128
  fb_miner_reward :: u128

definition fee_breakdown_new :: "fee_market \<Rightarrow> u128 \<Rightarrow> u128 \<Rightarrow> fee_breakdown" where
  "fee_breakdown_new m total_fee priority_fee =
     \<lparr>fb_total_fee = total_fee, fb_base_fee = fmk_base_fee m, fb_priority_fee = priority_fee,
      fb_burn_amount = get_burn_amount total_fee priority_fee, fb_miner_reward = get_miner_reward total_fee priority_fee\<rparr>"

section \<open>The split of a fee\<close>

text \<open>What is burned and what the miner gets are the fee, whatever tip is claimed; a valid fee burns at least the base.\<close>

lemma burn_plus_reward:
  "unat (fb_burn_amount (fee_breakdown_new m w p)) + unat (fb_miner_reward (fee_breakdown_new m w p)) = unat w"
  by (auto simp: fee_breakdown_new_def get_burn_amount_def get_miner_reward_def unat_saturating_sub min_def word_le_nat_alt)

lemma valid_fee_burns_base:
  assumes "market_validate_fee m w p" and "unat (fmk_base_fee m) + unat p < 2 ^ 128"
  shows "fmk_base_fee m \<le> get_burn_amount w p" and "get_miner_reward w p = p"
proof -
  have le: "unat (fmk_base_fee m) + unat p \<le> unat w"
    using assms by (simp add: market_validate_fee_def word_le_nat_alt unat_add_small)
  then have "p \<le> w" by (simp add: word_le_nat_alt)
  then show r: "get_miner_reward w p = p" by (simp add: get_miner_reward_def)
  show "fmk_base_fee m \<le> get_burn_amount w p"
    using le by (simp add: get_burn_amount_def r word_le_nat_alt unat_saturating_sub)
qed

section \<open>The base fee\<close>

text \<open>The update over the integers: what the source means.\<close>

definition next_base_fee :: "int \<Rightarrow> int \<Rightarrow> int \<Rightarrow> int \<Rightarrow> int \<Rightarrow> int" where
  "next_base_fee target denominator floor actual base = max (base + base * (actual - target) sdiv target sdiv denominator) floor"

text \<open>A market whose numbers fit: the products of the update stay below \<open>2 ^ 62\<close>.\<close>

definition fee_market_fits :: "u64 \<Rightarrow> fee_market \<Rightarrow> bool" where
  "fee_market_fits n m \<longleftrightarrow> 0 < uint (fmk_target_transactions m) \<and> uint (fmk_target_transactions m) < 2 ^ 62 \<and>
     0 < uint (fmc_max_change_denominator (fmk_config m)) \<and> uint (fmc_max_change_denominator (fmk_config m)) < 2 ^ 62 \<and>
     uint (fmc_min_base_fee (fmk_config m)) < 2 ^ 62 \<and> uint n < 2 ^ 62 \<and> uint (fmk_base_fee m) < 2 ^ 62 \<and>
     uint (fmk_base_fee m) * \<bar>uint n - uint (fmk_target_transactions m)\<bar> < 2 ^ 62"

lemma sdiv_towards_zero: "0 < (b :: int) \<Longrightarrow> \<bar>a sdiv b\<bar> = \<bar>a\<bar> div b"
  by (cases "a = 0") (simp_all add: signed_divide_int_def abs_mult pos_imp_zdiv_nonneg_iff)

lemma sdiv_mono: "0 < (c :: int) \<Longrightarrow> a \<le> b \<Longrightarrow> a sdiv c \<le> b sdiv c"
proof -
  assume c: "0 < c" and le: "a \<le> b"
  have p: "x sdiv c = (if 0 \<le> x then x div c else - (- x div c))" for x
    using c by (auto simp: signed_divide_int_def sgn_if)
  have 1: "0 \<le> x div c" if "0 \<le> x" for x using that c by (simp add: pos_imp_zdiv_nonneg_iff)
  show ?thesis
  proof (cases "0 \<le> a")
    case True
    then show ?thesis using le c by (simp add: p zdiv_mono1)
  next
    case False
    then have a: "0 \<le> - a div c" "a sdiv c = - (- a div c)" using 1[of "- a"] p[of a] by simp_all
    show ?thesis
    proof (cases "0 \<le> b")
      case True
      then have "b sdiv c = b div c" "0 \<le> b div c" using 1[of b] p[of b] by simp_all
      then show ?thesis using a by linarith
    next
      case b: False
      have "- b div c \<le> - a div c" using le c by (intro zdiv_mono1) simp_all
      moreover have "b sdiv c = - (- b div c)" using b p[of b] by simp
      ultimately show ?thesis using a(2) by linarith
    qed
  qed
qed

lemma zdiv_le: "0 \<le> x \<Longrightarrow> 0 < c \<Longrightarrow> x div c \<le> (x :: int)"
  using zdiv_mono2[of x 1 c] by simp

lemma sint_small: "- (2 ^ 63) \<le> k \<Longrightarrow> k < 2 ^ 63 \<Longrightarrow> sint (word_of_int k :: i64) = k"
  by (simp add: sint_sbintrunc' signed_take_bit_int_eq_self)

lemma i64_div_small:
  assumes "0 < b" and "b < 2 ^ 63" and "- (2 ^ 63) \<le> a" and "a < 2 ^ 63"
  shows "i64_div (word_of_int a) (word_of_int b) = Some (word_of_int (a sdiv b))"
proof -
  have "sint (word_of_int a :: i64) = a" "sint (word_of_int b :: i64) = b" using assms by (simp_all add: sint_small)
  moreover then have "(word_of_int b :: i64) \<noteq> 0" using assms(1) by auto
  ultimately show ?thesis using assms(1) by (simp add: i64_div_def)
qed

lemma update_base_fee_exact:
  assumes "fee_market_fits n m"
  shows "\<exists>m'. update_base_fee n m = Some m' \<and> m' = m\<lparr>fmk_base_fee := fmk_base_fee m'\<rparr> \<and>
    (n \<noteq> fmk_target_transactions m \<longrightarrow> uint (fmk_base_fee m') =
      next_base_fee (uint (fmk_target_transactions m)) (uint (fmc_max_change_denominator (fmk_config m)))
        (uint (fmc_min_base_fee (fmk_config m))) (uint n) (uint (fmk_base_fee m)))"
proof (cases "n = fmk_target_transactions m")
  case True
  then show ?thesis by (simp add: update_base_fee_def)
next
  case False
  define t d mn a b where "t = uint (fmk_target_transactions m)"
    and "d = uint (fmc_max_change_denominator (fmk_config m))"
    and "mn = uint (fmc_min_base_fee (fmk_config m))" and "a = uint n" and "b = uint (fmk_base_fee m)"
  note defs = t_def d_def mn_def a_def b_def
  have f: "0 < t" "t < 2 ^ 62" "0 < d" "d < 2 ^ 62" "0 \<le> mn" "mn < 2 ^ 62" "0 \<le> a" "a < 2 ^ 62" "0 \<le> b" "b < 2 ^ 62"
    "b * \<bar>a - t\<bar> < 2 ^ 62"
    using assms by (simp_all add: fee_market_fits_def defs)
  have w: "fmk_target_transactions m = word_of_int t" "fmc_max_change_denominator (fmk_config m) = word_of_int d"
    "n = word_of_int a" "(ucast (fmk_base_fee m) :: i64) = word_of_int b"
    "(ucast (fmc_min_base_fee (fmk_config m)) :: i64) = word_of_int mn"
    by (simp_all only: defs ucast_eq word_of_int_uint)
  have "\<bar>b * (a - t)\<bar> = b * \<bar>a - t\<bar>" using f(9) by (simp only: abs_mult abs_of_nonneg)
  then have n: "- (2 ^ 62) < b * (a - t)" "b * (a - t) < 2 ^ 62" using f(11) by linarith+
  have pw: "(2 :: int) ^ 63 = 2 * 2 ^ 62" by simp
  define q where "q = b * (a - t) sdiv t"
  define c where "c = q sdiv d"
  have "\<bar>q\<bar> \<le> \<bar>b * (a - t)\<bar>" unfolding q_def sdiv_towards_zero[OF f(1)] using f(1) by (simp add: zdiv_le)
  moreover have "\<bar>c\<bar> \<le> \<bar>q\<bar>" unfolding c_def sdiv_towards_zero[OF f(3)] using f(3) by (simp add: zdiv_le)
  ultimately have qc: "\<bar>q\<bar> < 2 ^ 62" "\<bar>c\<bar> < 2 ^ 62" using n by linarith+
  have "i64_div (word_of_int b * (word_of_int a - word_of_int t)) (word_of_int t) = Some (word_of_int q)"
  proof -
    have e: "(word_of_int b :: i64) * (word_of_int a - word_of_int t) = word_of_int (b * (a - t))" by simp
    have "- (2 ^ 63) \<le> b * (a - t)" "b * (a - t) < 2 ^ 63" "t < 2 ^ 63" using n f(2) pw by linarith+
    then show ?thesis unfolding e q_def using f(1) by (intro i64_div_small)
  qed
  moreover have "i64_div (word_of_int q) (word_of_int d) = Some (word_of_int c)"
  proof -
    have "- (2 ^ 63) \<le> q" "q < 2 ^ 63" "d < 2 ^ 63" using qc f(4) pw by linarith+
    then show ?thesis unfolding c_def using f(3) by (intro i64_div_small)
  qed
  moreover have "i64_max (word_of_int b + word_of_int c) (word_of_int mn) = word_of_int (max (b + c) mn)"
  proof -
    have e: "(word_of_int b :: i64) + word_of_int c = word_of_int (b + c)" by simp
    have "- (2 ^ 63) \<le> b + c" "b + c < 2 ^ 63" "- (2 ^ 63) \<le> mn" "mn < 2 ^ 63" using qc f pw by linarith+
    then show ?thesis unfolding e i64_max_def by (simp only: sint_small) (simp add: max_def)
  qed
  ultimately have u: "update_base_fee n m = Some (m\<lparr>fmk_base_fee := scast (word_of_int (max (b + c) mn) :: i64)\<rparr>)"
    using False by (simp add: update_base_fee_def Let_def w)
  have mx: "0 \<le> max (b + c) mn" "max (b + c) mn < 2 ^ 63" using f qc by auto
  have "(scast (word_of_int (max (b + c) mn) :: i64) :: u128) = word_of_int (max (b + c) mn)"
    using sint_small[of "max (b + c) mn"] mx by (simp add: scast_eq)
  moreover have "uint (word_of_int (max (b + c) mn) :: u128) = max (b + c) mn"
    using mx by (simp add: uint_word_of_int take_bit_int_eq_self)
  ultimately show ?thesis using u by (simp add: next_base_fee_def q_def c_def flip: defs)
qed

lemma next_base_fee_bounds:
  assumes "0 < t" and "0 < d" and "0 \<le> b" and "0 \<le> a" and "a \<le> 2 * t" and "mn \<le> b"
  shows "mn \<le> next_base_fee t d mn a b" and "\<bar>next_base_fee t d mn a b - b\<bar> \<le> b div d"
proof -
  have "\<bar>b * (a - t)\<bar> \<le> b * t" using assms by (auto simp: abs_mult intro!: mult_left_mono)
  then have "\<bar>b * (a - t)\<bar> div t \<le> b" using assms(1) zdiv_mono1[of "\<bar>b * (a - t)\<bar>" "b * t" t] by simp
  then have "\<bar>b * (a - t) sdiv t\<bar> \<le> b" by (simp add: sdiv_towards_zero[OF assms(1)])
  then have "\<bar>b * (a - t) sdiv t\<bar> div d \<le> b div d" using assms(2) by (intro zdiv_mono1)
  then have "\<bar>b * (a - t) sdiv t sdiv d\<bar> \<le> b div d" by (simp add: sdiv_towards_zero[OF assms(2)])
  moreover have "0 \<le> b div d" using assms by (simp add: pos_imp_zdiv_nonneg_iff)
  ultimately show "\<bar>next_base_fee t d mn a b - b\<bar> \<le> b div d" using assms(6) unfolding next_base_fee_def by linarith
  show "mn \<le> next_base_fee t d mn a b" by (simp add: next_base_fee_def)
qed

text \<open>A fuller block never leads to a lower fee.\<close>

lemma next_base_fee_mono:
  assumes "0 < t" and "0 < d" and "0 \<le> b" and "a \<le> a'"
  shows "next_base_fee t d mn a b \<le> next_base_fee t d mn a' b"
proof -
  have "b * (a - t) \<le> b * (a' - t)" using assms by (intro mult_left_mono) simp_all
  then have "b * (a - t) sdiv t sdiv d \<le> b * (a' - t) sdiv t sdiv d" using assms by (intro sdiv_mono)
  then show ?thesis unfolding next_base_fee_def by linarith
qed

text \<open>Beyond the range of \<open>i64\<close> it does: a full block at a base fee of \<open>2 ^ 57\<close> wraps the product to a negative number.\<close>

lemma base_fee_wraps:
  fixes m :: fee_market
  defines "m \<equiv> fee_market_new (fee_market_config_default\<lparr>fmc_initial_base_fee := 144115188075855872\<rparr>)"
  shows "update_base_fee 200 m = Some (m\<lparr>fmk_base_fee := 139071156493200917\<rparr>)" and "139071156493200917 < fmk_base_fee m"
  by (simp_all add: m_def update_base_fee_def fee_market_new_def fee_market_config_default_def Let_def i64_div_def
      signed_divide_int_def i64_max_def)

end
