(* ===== verification/Mempool_Marketplace.thy ===== *)
theory Mempool_Marketplace
  imports State_Marketplace Tokenomics_Distributor
begin

text \<open>
  \<open>mempool/src/marketplace.rs\<close>, the bounty market in memory, and \<open>mempool/src/mining_incentives.rs\<close>, which pays miners from
  it. The market differs from the one of the state crate in its checks, its index and in expiry with refunds. Hash maps are
  association lists in the order in which they are walked; the status \<open>PendingVerification\<close>, which nothing sets, is left out.
\<close>

section \<open>The market\<close>

record pool_market =
  pmk_problems :: "(hash \<times> problem_submission) list"
  pmk_submitter_index :: "(address \<times> hash list) list"
  pmk_escrow :: "(hash \<times> balance) list"

datatype pool_market_error = InvalidBounty | InvalidWorkScore | PoolMarketError marketplace_error

definition pool_market_new :: pool_market where
  "pool_market_new = \<lparr>pmk_problems = [], pmk_submitter_index = [], pmk_escrow = []\<rparr>"

definition pm_submit_problem ::
  "privacy_ext \<Rightarrow> i64 \<Rightarrow> submission_mode \<Rightarrow> address \<Rightarrow> balance \<Rightarrow> f64 \<Rightarrow> u64 \<Rightarrow> rust_str option \<Rightarrow>
   rust_str option \<Rightarrow> (pool_market, pool_market_error, hash) step" where
  "pm_submit_problem P now mode submitter bounty min_work_score expiration_days title briefing st =
     (if bounty = 0 then (Inl InvalidBounty, st)
      else if f_le min_work_score f_zero then (Inl InvalidWorkScore, st)
      else case bind_res (mode_check P mode min_work_score) (\<lambda>_. mode_problem_id P mode) of
        Inl e \<Rightarrow> (Inl (PoolMarketError e), st)
      | Inr problem_id \<Rightarrow>
          if map_of (pmk_problems st) problem_id \<noteq> None then (Inl (PoolMarketError DuplicateProblem), st)
          else let submission =
              \<lparr>sub_problem_id = problem_id, sub_mode = mode, sub_reveal = None,
               sub_submitter = submitter, sub_bounty = bounty, sub_min_work_score = min_work_score,
               sub_submitted_at = now, sub_expires_at = now + expiration_days * 86400,
               sub_status = ProblemOpen, sub_solution = None, sub_solver = None,
               sub_title = title, sub_briefing = briefing\<rparr>;
              ids = (case map_of (pmk_submitter_index st) submitter of None \<Rightarrow> [] | Some ids \<Rightarrow> ids)
            in (Inr problem_id,
                \<lparr>pmk_problems = AList.update problem_id submission (pmk_problems st),
                 pmk_submitter_index = AList.update submitter (ids @ [problem_id]) (pmk_submitter_index st),
                 pmk_escrow = AList.update problem_id bounty (pmk_escrow st)\<rparr>))"

definition pm_submit_public_problem ::
  "privacy_ext \<Rightarrow> i64 \<Rightarrow> problem_type \<Rightarrow> address \<Rightarrow> balance \<Rightarrow> f64 \<Rightarrow> u64 \<Rightarrow> rust_str option \<Rightarrow>
   rust_str option \<Rightarrow> (pool_market, pool_market_error, hash) step" where
  "pm_submit_public_problem P now problem submitter bounty min_work_score expiration_days title briefing =
     pm_submit_problem P now (Public problem) submitter bounty min_work_score expiration_days title briefing"

definition pm_set :: "hash \<Rightarrow> problem_submission \<Rightarrow> pool_market \<Rightarrow> pool_market" where
  "pm_set i s st = st\<lparr>pmk_problems := AList.update i s (pmk_problems st)\<rparr>"

definition pm_submit_solution ::
  "i64 \<Rightarrow> hash \<Rightarrow> address \<Rightarrow> solution \<Rightarrow> pool_market \<Rightarrow> ((marketplace_error + unit) \<times> pool_market) option" where
  "pm_submit_solution now problem_id solver sol st =
     (case map_of (pmk_problems st) problem_id of None \<Rightarrow> Some (Inl ProblemNotFound, st)
      | Some s \<Rightarrow>
          if sub_status s \<noteq> ProblemOpen then Some (Inl ProblemNotOpen, st)
          else if sint (sub_expires_at s) < sint now
            then Some (Inl ProblemIsExpired, pm_set problem_id (s\<lparr>sub_status := ProblemExpired\<rparr>) st)
          else case visible_problem s of None \<Rightarrow> Some (Inl ProblemNotRevealed, st)
          | Some problem \<Rightarrow>
              if \<not> solution_verify sol problem then Some (Inl InvalidSolution, st)
              else case solution_quality sol problem of None \<Rightarrow> None
              | Some quality \<Rightarrow>
                  if f_lt (f_mul quality (f_of_nat 100)) (sub_min_work_score s)
                    then Some (Inl InsufficientWorkScore, st)
                  else Some (Inr (), pm_set problem_id
                    (s\<lparr>sub_solution := Some sol, sub_solver := Some solver, sub_status := ProblemSolved\<rparr>) st))"

definition pm_reveal_problem ::
  "privacy_ext \<Rightarrow> hash \<Rightarrow> problem_reveal \<Rightarrow> (pool_market, marketplace_error, unit) step" where
  "pm_reveal_problem P problem_id reveal st =
     (case map_of (pmk_problems st) problem_id of None \<Rightarrow> (Inl ProblemNotFound, st)
      | Some s \<Rightarrow> (case sub_mode s of Public _ \<Rightarrow> (Inl NotPrivateSubmission, st)
          | Private commitment _ _ \<Rightarrow>
              if \<not> problem_reveal_verify P reveal commitment then (Inl RevealMismatch, st)
              else (Inr (), pm_set problem_id (s\<lparr>sub_reveal := Some reveal\<rparr>) st)))"

definition pm_claim_bounty :: "hash \<Rightarrow> (pool_market, marketplace_error, address \<times> balance) step" where
  "pm_claim_bounty problem_id st =
     (case map_of (pmk_problems st) problem_id of None \<Rightarrow> (Inl ProblemNotFound, st)
      | Some s \<Rightarrow>
          if sub_status s \<noteq> ProblemSolved then (Inl ProblemNotSolved, st)
          else case sub_solver s of None \<Rightarrow> (Inl NoSolver, st)
          | Some solver \<Rightarrow> (case map_of (pmk_escrow st) problem_id of None \<Rightarrow> (Inl BountyNotFound, st)
              | Some bounty \<Rightarrow> (Inr (solver, bounty), st\<lparr>pmk_escrow := AList.delete problem_id (pmk_escrow st)\<rparr>)))"

definition pm_cancel_problem :: "hash \<Rightarrow> address \<Rightarrow> (pool_market, marketplace_error, balance) step" where
  "pm_cancel_problem problem_id requester st =
     (case map_of (pmk_problems st) problem_id of None \<Rightarrow> (Inl ProblemNotFound, st)
      | Some s \<Rightarrow>
          if sub_submitter s \<noteq> requester then (Inl Unauthorized, st)
          else if sub_status s \<noteq> ProblemOpen then (Inl CannotCancel, st)
          else case map_of (pmk_escrow st) problem_id of None \<Rightarrow> (Inl BountyNotFound, st)
          | Some bounty \<Rightarrow> (Inr bounty, pm_set problem_id (s\<lparr>sub_status := ProblemCancelled\<rparr>)
                (st\<lparr>pmk_escrow := AList.delete problem_id (pmk_escrow st)\<rparr>)))"

definition pm_open_problems :: "pool_market \<Rightarrow> problem_submission list" where
  "pm_open_problems st = filter (\<lambda>s. sub_status s = ProblemOpen) (map snd (pmk_problems st))"

definition pm_problems_by_submitter :: "pool_market \<Rightarrow> address \<Rightarrow> problem_submission list" where
  "pm_problems_by_submitter st submitter = (case map_of (pmk_submitter_index st) submitter of None \<Rightarrow> []
     | Some ids \<Rightarrow> List.map_filter (map_of (pmk_problems st)) ids)"

text \<open>One turn of the loop of \<open>expire_old_problems\<close>, over the entries of the map.\<close>

fun expire_loop ::
  "i64 \<Rightarrow> (hash \<times> problem_submission) list \<Rightarrow> (hash \<times> balance) list \<Rightarrow>
   (address \<times> balance) list \<times> (hash \<times> problem_submission) list \<times> (hash \<times> balance) list" where
  "expire_loop now [] escrow = ([], [], escrow)"
| "expire_loop now ((i, s) # rest) escrow =
     (if sub_status s = ProblemOpen \<and> sint (sub_expires_at s) < sint now then
        (case map_of escrow i of
           Some bounty \<Rightarrow> (case expire_loop now rest (AList.delete i escrow) of (rs, ps, e) \<Rightarrow>
             ((sub_submitter s, bounty) # rs, (i, s\<lparr>sub_status := ProblemExpired\<rparr>) # ps, e))
         | None \<Rightarrow> (case expire_loop now rest escrow of (rs, ps, e) \<Rightarrow> (rs, (i, s) # ps, e)))
      else (case expire_loop now rest escrow of (rs, ps, e) \<Rightarrow> (rs, (i, s) # ps, e)))"

definition expire_old_problems :: "i64 \<Rightarrow> pool_market \<Rightarrow> (address \<times> balance) list \<times> pool_market" where
  "expire_old_problems now st = (case expire_loop now (pmk_problems st) (pmk_escrow st) of
     (refunds, ps, e) \<Rightarrow> (refunds, st\<lparr>pmk_problems := ps, pmk_escrow := e\<rparr>))"

definition pm_count :: "problem_status \<Rightarrow> pool_market \<Rightarrow> nat" where
  "pm_count x st = length (filter (\<lambda>s. sub_status s = x) (map snd (pmk_problems st)))"

definition pm_get_stats :: "pool_market \<Rightarrow> marketplace_stats" where
  "pm_get_stats st =
     \<lparr>total_problems = length (pmk_problems st), open_problems = pm_count ProblemOpen st,
      solved_problems = pm_count ProblemSolved st, expired_problems = pm_count ProblemExpired st,
      cancelled_problems = pm_count ProblemCancelled st, total_bounty_pool = sum_list (map snd (pmk_escrow st))\<rparr>"

section \<open>Mining incentives\<close>

datatype reward_source = RandomGenerated | MarketplaceProblem hash

record enhanced_reward =
  er_base_reward :: u128
  er_marketplace_bounty :: u128
  er_d3_bonus :: u128
  er_total_reward :: u128
  er_source :: reward_source

record mining_incentives =
  mi_marketplace :: pool_market
  mi_d3_pool :: u128

definition mining_incentives_new :: "pool_market \<Rightarrow> mining_incentives" where
  "mining_incentives_new market = \<lparr>mi_marketplace = market, mi_d3_pool = 0\<rparr>"

definition contribute_to_d3_pool :: "u128 \<Rightarrow> mining_incentives \<Rightarrow> mining_incentives" where
  "contribute_to_d3_pool block_reward m =
     m\<lparr>mi_d3_pool := mi_d3_pool m + al_bounty_pool (distribute_reward block_reward)\<rparr>"

definition calculate_time_factor :: "i64 \<Rightarrow> i64 \<Rightarrow> i64 \<Rightarrow> f64" where
  "calculate_time_factor now submitted_at expires_at =
     (let total_time = expires_at - submitted_at; elapsed = now - submitted_at; rest = expires_at - now in
      if sint rest \<le> 0 then f_zero
      else f_min (f_add f_one (f_div (f_of_sword elapsed) (f_of_sword total_time))) (f_of_rat 2))"

definition better_problem ::
  "i64 \<Rightarrow> (hash \<times> problem_type \<times> balance) option \<times> f64 \<Rightarrow> problem_submission \<Rightarrow> (hash \<times> problem_type \<times> balance) option \<times> f64" where
  "better_problem now acc s = (case visible_problem s of None \<Rightarrow> acc
     | Some p \<Rightarrow>
         let value = f_mul (f_of_word (sub_bounty s)) (calculate_time_factor now (sub_submitted_at s) (sub_expires_at s)) in
         if f_lt (snd acc) value then (Some (sub_problem_id s, p, sub_bounty s), value) else acc)"

definition select_best_marketplace_problem :: "i64 \<Rightarrow> mining_incentives \<Rightarrow> (hash \<times> problem_type \<times> balance) option" where
  "select_best_marketplace_problem now m = fst (foldl (better_problem now) (None, f_zero) (pm_open_problems (mi_marketplace m)))"

definition calculate_d3_bonus :: "f64 \<Rightarrow> u128 \<Rightarrow> mining_incentives \<Rightarrow> u128" where
  "calculate_d3_bonus work_score marketplace_bounty m =
     (if mi_d3_pool m = 0 then 0
      else let work_factor = f_min (f_div work_score (f_of_rat 100)) f_one;
               max_bonus_from_bounty = f_to_word (f_mul (f_of_word marketplace_bounty) (f_of_rat (1 / 2)));
               max_bonus_from_pool = f_to_word (f_mul (f_of_word (mi_d3_pool m)) (f_of_rat (1 / 10)));
               bonus = f_to_word (f_mul (f_of_word marketplace_bounty) work_factor)
           in min (min bonus max_bonus_from_bounty) max_bonus_from_pool)"

definition calculate_enhanced_reward :: "u128 \<Rightarrow> reward_source \<Rightarrow> f64 \<Rightarrow> mining_incentives \<Rightarrow> enhanced_reward" where
  "calculate_enhanced_reward base_reward source work_score m = (case source of
     RandomGenerated \<Rightarrow> \<lparr>er_base_reward = base_reward, er_marketplace_bounty = 0, er_d3_bonus = 0,
       er_total_reward = base_reward, er_source = source\<rparr>
   | MarketplaceProblem problem_id \<Rightarrow>
       let marketplace_bounty = (case map_of (pmk_problems (mi_marketplace m)) problem_id of None \<Rightarrow> 0 | Some s \<Rightarrow> sub_bounty s);
           d3_bonus = calculate_d3_bonus work_score marketplace_bounty m
       in \<lparr>er_base_reward = base_reward, er_marketplace_bounty = marketplace_bounty, er_d3_bonus = d3_bonus,
           er_total_reward = base_reward + marketplace_bounty + d3_bonus, er_source = source\<rparr>)"

definition deduct_d3_bonus :: "u128 \<Rightarrow> mining_incentives \<Rightarrow> mining_incentives" where
  "deduct_d3_bonus bonus m = m\<lparr>mi_d3_pool := saturating_sub_word (mi_d3_pool m) bonus\<rparr>"

text \<open>The errors become messages that name the step.\<close>

datatype incentive_error = FailedToSubmit marketplace_error | FailedToClaim marketplace_error

definition submit_mining_solution ::
  "i64 \<Rightarrow> hash \<Rightarrow> address \<Rightarrow> solution \<Rightarrow> mining_incentives \<Rightarrow> ((incentive_error + balance) \<times> mining_incentives) option" where
  "submit_mining_solution now problem_id miner sol m =
     (case pm_submit_solution now problem_id miner sol (mi_marketplace m) of None \<Rightarrow> None
      | Some (Inl e, st) \<Rightarrow> Some (Inl (FailedToSubmit e), m\<lparr>mi_marketplace := st\<rparr>)
      | Some (Inr _, st) \<Rightarrow> (case pm_claim_bounty problem_id st of
            (Inl e, st') \<Rightarrow> Some (Inl (FailedToClaim e), m\<lparr>mi_marketplace := st'\<rparr>)
          | (Inr (_, bounty), st') \<Rightarrow> Some (Inr bounty, m\<lparr>mi_marketplace := st'\<rparr>)))"

record incentive_stats =
  is_d3_pool_balance :: u128
  is_open_bounties :: nat
  is_total_bounty_value :: u128
  is_solved_problems :: nat

definition incentive_stats_of :: "mining_incentives \<Rightarrow> incentive_stats" where
  "incentive_stats_of m = (let s = pm_get_stats (mi_marketplace m) in
     \<lparr>is_d3_pool_balance = mi_d3_pool m, is_open_bounties = open_problems s,
      is_total_bounty_value = total_bounty_pool s, is_solved_problems = solved_problems s\<rparr>)"

section \<open>The escrow\<close>

text \<open>The escrow holds the bounty of every open problem, and the bounty once at most of a solved one. A problem whose
  expiry is noticed by a late solution keeps its entry.\<close>

definition pm_entry_ok :: "pool_market \<Rightarrow> hash \<Rightarrow> problem_submission \<Rightarrow> bool" where
  "pm_entry_ok st i s \<longleftrightarrow> sub_problem_id s = i \<and>
     (let b = map_of (pmk_escrow st) i in
      (sub_status s = ProblemOpen \<longrightarrow> b = Some (sub_bounty s)) \<and>
      (sub_status s = ProblemSolved \<longrightarrow> sub_solver s \<noteq> None \<and> (b = Some (sub_bounty s) \<or> b = None)) \<and>
      (sub_status s = ProblemExpired \<longrightarrow> b = Some (sub_bounty s) \<or> b = None) \<and>
      (sub_status s = ProblemCancelled \<longrightarrow> b = None))"

definition pool_market_ok :: "pool_market \<Rightarrow> bool" where
  "pool_market_ok st \<longleftrightarrow> distinct (map fst (pmk_problems st)) \<and> distinct (map fst (pmk_escrow st)) \<and>
     (\<forall>i s. map_of (pmk_problems st) i = Some s \<longrightarrow> pm_entry_ok st i s) \<and>
     (\<forall>i. map_of (pmk_problems st) i = None \<longrightarrow> map_of (pmk_escrow st) i = None)"

lemma pool_market_ok_new [simp]: "pool_market_ok pool_market_new"
  by (simp add: pool_market_ok_def pool_market_new_def)

lemma pool_market_ok_change:
  assumes ok: "pool_market_ok st" and "map_of (pmk_problems st) i = Some s"
    and "pmk_problems st' = AList.update i s' (pmk_problems st)"
    and e: "pmk_escrow st' = pmk_escrow st \<or> pmk_escrow st' = AList.delete i (pmk_escrow st)"
    and "pm_entry_ok st' i s'"
  shows "pool_market_ok st'"
proof -
  have other: "map_of (pmk_escrow st') j = map_of (pmk_escrow st) j" if "j \<noteq> i" for j
    using e that by (auto simp: delete_conv')
  have "pm_entry_ok st' j t" if "map_of (pmk_problems st') j = Some t" for j t
  proof (cases "j = i")
    case True
    then show ?thesis using that assms(3,5) by (simp add: update_conv')
  next
    case False
    then have "pm_entry_ok st j t" using that assms(3) ok by (simp add: update_conv' pool_market_ok_def)
    then show ?thesis by (simp add: pm_entry_ok_def other[OF False])
  qed
  moreover have "map_of (pmk_escrow st') j = None" if "map_of (pmk_problems st') j = None" for j
  proof -
    have j: "j \<noteq> i" "map_of (pmk_problems st) j = None" using that assms(3) by (auto simp: update_conv' split: if_splits)
    then show ?thesis using other[OF j(1)] ok by (simp add: pool_market_ok_def)
  qed
  ultimately show ?thesis using ok e assms(3) by (auto simp: pool_market_ok_def distinct_update distinct_delete)
qed

lemma pm_entry: "pool_market_ok st \<Longrightarrow> map_of (pmk_problems st) i = Some s \<Longrightarrow> pm_entry_ok st i s"
  by (simp add: pool_market_ok_def)

lemma pm_submit_problem_ok:
  assumes ok: "pool_market_ok st" and "pm_submit_problem P now mode a b w d t br st = (r, st')"
  shows "pool_market_ok st'"
proof (cases r)
  case (Inl e)
  then have "st' = st" using assms(2) by (auto simp: pm_submit_problem_def Let_def split: if_splits sum.splits)
  then show ?thesis using ok by simp
next
  case (Inr i)
  have new: "map_of (pmk_problems st) i = None" using assms(2) Inr
    by (auto simp: pm_submit_problem_def Let_def split: if_splits sum.splits)
  define s where "s = \<lparr>sub_problem_id = i, sub_mode = mode, sub_reveal = None,
    sub_submitter = a, sub_bounty = b, sub_min_work_score = w, sub_submitted_at = now, sub_expires_at = now + d * 86400,
    sub_status = ProblemOpen, sub_solution = None, sub_solver = None, sub_title = t, sub_briefing = br\<rparr>"
  have s: "sub_problem_id s = i" "sub_status s = ProblemOpen" "sub_bounty s = b" by (simp_all add: s_def)
  have ps: "pmk_problems st' = AList.update i s (pmk_problems st)" and es: "pmk_escrow st' = AList.update i b (pmk_escrow st)"
    using assms(2) Inr by (auto simp: pm_submit_problem_def Let_def s_def split: if_splits sum.splits)
  have "pm_entry_ok st' j u" if "map_of (pmk_problems st') j = Some u" for j u
    using that ok s by (auto simp: ps es update_conv' pool_market_ok_def pm_entry_ok_def Let_def split: if_splits)
  moreover have "map_of (pmk_escrow st') j = None" if "map_of (pmk_problems st') j = None" for j
    using that ok by (auto simp: ps es update_conv' pool_market_ok_def split: if_splits)
  ultimately show ?thesis using ok by (simp add: pool_market_ok_def ps es distinct_update)
qed

lemma pm_submit_solution_ok:
  assumes ok: "pool_market_ok st" and "pm_submit_solution now i a sol st = Some (r, st')"
  shows "pool_market_ok st'"
proof (cases "st' = st")
  case False
  then obtain s s' where s: "map_of (pmk_problems st) i = Some s" "sub_status s = ProblemOpen"
    and st': "st' = pm_set i s' st" and s': "sub_bounty s' = sub_bounty s" "sub_problem_id s' = sub_problem_id s"
      "sub_status s' = ProblemExpired \<or> (sub_status s' = ProblemSolved \<and> sub_solver s' = Some a)"
    using assms(2) unfolding pm_submit_solution_def by (auto split: option.splits if_splits)
  show ?thesis
    by (rule pool_market_ok_change[OF ok s(1), where s' = s']) (use st' s s' pm_entry[OF ok s(1)] in \<open>auto simp: pm_set_def pm_entry_ok_def Let_def\<close>)
qed (use ok in simp)

lemma pm_reveal_ok:
  assumes ok: "pool_market_ok st" and "pm_reveal_problem P i rv st = (r, st')"
  shows "pool_market_ok st'"
proof (cases "st' = st")
  case False
  then obtain s where s: "map_of (pmk_problems st) i = Some s" and st': "st' = pm_set i (s\<lparr>sub_reveal := Some rv\<rparr>) st"
    using assms(2) unfolding pm_reveal_problem_def by (auto split: option.splits if_splits submission_mode.splits)
  show ?thesis
    by (rule pool_market_ok_change[OF ok s, where s' = "s\<lparr>sub_reveal := Some rv\<rparr>"]) (use st' pm_entry[OF ok s] in \<open>auto simp: pm_set_def pm_entry_ok_def Let_def\<close>)
qed (use ok in simp)

lemma pm_claim_ok:
  assumes ok: "pool_market_ok st" and "pm_claim_bounty i st = (r, st')"
  shows "pool_market_ok st'"
proof (cases "st' = st")
  case False
  then obtain s where s: "map_of (pmk_problems st) i = Some s" "sub_status s = ProblemSolved"
    and st': "st' = st\<lparr>pmk_escrow := AList.delete i (pmk_escrow st)\<rparr>"
    using assms(2) unfolding pm_claim_bounty_def by (auto split: option.splits if_splits)
  have "pmk_problems st' = AList.update i s (pmk_problems st)" using s(1) st' by (simp add: update_triv)
  then show ?thesis
    by (rule pool_market_ok_change[OF ok s(1), where s' = s])
      (use st' s pm_entry[OF ok s(1)] in \<open>auto simp: pm_entry_ok_def Let_def delete_conv'\<close>)
qed (use ok in simp)

lemma pm_cancel_ok:
  assumes ok: "pool_market_ok st" and "pm_cancel_problem i a st = (r, st')"
  shows "pool_market_ok st'"
proof (cases "st' = st")
  case False
  then obtain s where s: "map_of (pmk_problems st) i = Some s"
    and st': "st' = pm_set i (s\<lparr>sub_status := ProblemCancelled\<rparr>) (st\<lparr>pmk_escrow := AList.delete i (pmk_escrow st)\<rparr>)"
    using assms(2) unfolding pm_cancel_problem_def by (auto split: option.splits if_splits)
  show ?thesis
    by (rule pool_market_ok_change[OF ok s, where s' = "s\<lparr>sub_status := ProblemCancelled\<rparr>"])
      (use st' pm_entry[OF ok s] in \<open>auto simp: pm_set_def pm_entry_ok_def Let_def delete_conv'\<close>)
qed (use ok in simp)

text \<open>A second claim of the same bounty is refused.\<close>

lemma pm_claim_once:
  assumes "pool_market_ok st" and "pm_claim_bounty i st = (Inr (a, b), st')"
  shows "fst (pm_claim_bounty i st') = Inl BountyNotFound" and "map_of (pmk_problems st) i \<noteq> None"
    and "\<exists>s. map_of (pmk_problems st) i = Some s \<and> b = sub_bounty s \<and> sub_solver s = Some a"
proof -
  obtain s where s: "map_of (pmk_problems st) i = Some s" "sub_status s = ProblemSolved" "sub_solver s = Some a"
    "map_of (pmk_escrow st) i = Some b" "st' = st\<lparr>pmk_escrow := AList.delete i (pmk_escrow st)\<rparr>"
    using assms(2) unfolding pm_claim_bounty_def by (auto split: option.splits if_splits)
  then show "fst (pm_claim_bounty i st') = Inl BountyNotFound" "map_of (pmk_problems st) i \<noteq> None"
    by (simp_all add: pm_claim_bounty_def delete_conv')
  show "\<exists>s. map_of (pmk_problems st) i = Some s \<and> b = sub_bounty s \<and> sub_solver s = Some a"
    using s pm_entry[OF assms(1) s(1)] by (auto simp: pm_entry_ok_def Let_def)
qed

section \<open>Expiry\<close>

text \<open>Expiring refunds each expired open problem once; the escrow loses what the refunds hand out.\<close>

lemma expire_loop_sum:
  assumes "distinct (map fst escrow)" and "expire_loop now ps escrow = (rs, ps', e)"
  shows "(\<Sum>b\<leftarrow>map snd e. unat b) + (\<Sum>b\<leftarrow>map snd rs. unat b) = (\<Sum>b\<leftarrow>map snd escrow. unat b)" and "distinct (map fst e)"
proof -
  have "(\<Sum>b\<leftarrow>map snd e. unat b) + (\<Sum>b\<leftarrow>map snd rs. unat b) = (\<Sum>b\<leftarrow>map snd escrow. unat b) \<and> distinct (map fst e)"
    using assms
  proof (induction now ps escrow arbitrary: rs ps' e rule: expire_loop.induct)
    case (2 now i s rest escrow)
    show ?case
    proof (cases "sub_status s = ProblemOpen \<and> sint (sub_expires_at s) < sint now \<and> map_of escrow i \<noteq> None")
      case True
      then obtain b where b: "map_of escrow i = Some b" by blast
      obtain rs0 ps0 where r: "expire_loop now rest (AList.delete i escrow) = (rs0, ps0, e)" "rs = (sub_submitter s, b) # rs0"
        using 2(5) True b by (auto split: prod.splits)
      have "distinct (map fst (AList.delete i escrow))" using 2(4) by (simp add: distinct_delete)
      from 2(2)[OF _ b this r(1)] True sum_delete[OF 2(4), where w = unat and k = i] b r(2) show ?thesis by simp
    next
      case False
      obtain ps0 where r: "expire_loop now rest escrow = (rs, ps0, e)"
        using 2(5) False by (auto split: prod.splits if_splits option.splits)
      show ?thesis
      proof (cases "sub_status s = ProblemOpen \<and> sint (sub_expires_at s) < sint now")
        case True
        with False have "map_of escrow i = None" by blast
        from 2(1)[OF True this 2(4) r] show ?thesis .
      next
        case False
        from 2(3)[OF False 2(4) r] show ?thesis .
      qed
    qed
  qed simp
  then show "(\<Sum>b\<leftarrow>map snd e. unat b) + (\<Sum>b\<leftarrow>map snd rs. unat b) = (\<Sum>b\<leftarrow>map snd escrow. unat b)" "distinct (map fst e)"
    by blast+
qed

text \<open>A late solution marks the problem as expired and leaves the bounty where it is: from then on no operation returns it.\<close>

lemma late_solution_locks_bounty:
  assumes "map_of (pmk_problems st) i = Some s" and "sub_status s = ProblemOpen" and "sint (sub_expires_at s) < sint now"
  obtains st' where "pm_submit_solution now i a sol st = Some (Inl ProblemIsExpired, st')"
    and "map_of (pmk_escrow st') i = map_of (pmk_escrow st) i"
    and "fst (pm_claim_bounty i st') = Inl ProblemNotSolved" and "fst (pm_cancel_problem i (sub_submitter s) st') = Inl CannotCancel"
proof
  show "pm_submit_solution now i a sol st =
      Some (Inl ProblemIsExpired, pm_set i (s\<lparr>sub_status := ProblemExpired\<rparr>) st)"
    using assms by (simp add: pm_submit_solution_def)
qed (simp_all add: pm_set_def pm_claim_bounty_def pm_cancel_problem_def update_conv')

section \<open>The bonus\<close>

lemma d3_bonus_le_pool:
  assumes "unat (mi_d3_pool m) < 2 ^ 53"
  shows "unat (calculate_d3_bonus w b m) \<le> unat (mi_d3_pool m)"
proof -
  obtain v where "f_of_rat (1 / 10) = FFin False v" "0 \<le> v" "v \<le> 1"
    using f_round_between[of "1 / 10" 1] by (auto simp: f_of_rat_def)
  then have "unit_share (f_of_rat (1 / 10))" by (simp add: unit_shareI)
  from share_le[OF assms this, where 'b = 128] show ?thesis
    unfolding calculate_d3_bonus_def Let_def by (auto simp: min_def word_le_nat_alt split: if_splits)
qed

end
