(* ===== verification/Mempool_Pricing.thy ===== *)
theory Mempool_Pricing
  imports CJ_Float_Facts Core_Dimensional "HOL-Library.AList"
begin

text \<open>
  \<open>mempool/src/data_pricing.rs\<close>: the prices of the ten categories of problems from hardness, supply and demand. \<open>exp\<close>,
  \<open>ln\<close>, \<open>sqrt\<close> and \<open>powi\<close> are parameters; its own \<open>ETA\<close> is the number of the core crate. Maps keyed by the category are
  association lists in the order in which they are walked.
\<close>

section \<open>Definitions\<close>

datatype data_category = Sat3 | CatTsp | GraphColoring | CatSubsetSum | Knapsack | MaxIndependentSet | HamiltonianPath |
  VertexCover | SetCover | CatCustom

definition category_from_u8 :: "u8 \<Rightarrow> data_category" where
  "category_from_u8 v =
     (if v = 0 then Sat3 else if v = 1 then CatTsp else if v = 2 then GraphColoring else if v = 3 then CatSubsetSum
      else if v = 4 then Knapsack else if v = 5 then MaxIndependentSet else if v = 6 then HamiltonianPath
      else if v = 7 then VertexCover else if v = 8 then SetCover else CatCustom)"

record pricing_metrics =
  prm_solve_times :: "(data_category \<times> f64) list"
  prm_baseline_solve_time :: f64
  prm_median_fee :: u128
  prm_network_age_blocks :: u64

text \<open>The literal 0.001, the least baseline.\<close>

definition min_baseline :: f64 where "min_baseline = f_of_rat (1 / 1000)"

definition pricing_bootstrap :: "float_ext \<Rightarrow> u64 \<Rightarrow> pricing_metrics" where
  "pricing_bootstrap F network_age =
     \<lparr>prm_solve_times = fold (\<lambda>cat. AList.update (category_from_u8 (of_nat cat)) (fm_exp F (f_mul ETA (f_of_nat cat)))) [0..<10] [],
      prm_baseline_solve_time = f_one, prm_median_fee = 0, prm_network_age_blocks = network_age\<rparr>"

definition pricing_update_from_network ::
  "u128 \<Rightarrow> (data_category \<times> f64) list \<Rightarrow> u64 \<Rightarrow> pricing_metrics \<Rightarrow> pricing_metrics" where
  "pricing_update_from_network median_fee solve_time_ratios network_age m =
     (let times = fold (\<lambda>(cat, ratio). AList.update cat ratio) solve_time_ratios (prm_solve_times m);
          m1 = m\<lparr>prm_median_fee := median_fee, prm_network_age_blocks := network_age, prm_solve_times := times\<rparr>
      in case map_of times Sat3 of None \<Rightarrow> m1
         | Some baseline \<Rightarrow> m1\<lparr>prm_baseline_solve_time := f_max baseline min_baseline\<rparr>)"

definition category_hardness :: "pricing_metrics \<Rightarrow> data_category \<Rightarrow> f64" where
  "category_hardness m category =
     (let cat_time = (case map_of (prm_solve_times m) category of None \<Rightarrow> f_one | Some t \<Rightarrow> t)
      in f_div cat_time (f_max (prm_baseline_solve_time m) min_baseline))"

definition base_cost :: "float_ext \<Rightarrow> pricing_metrics \<Rightarrow> u128" where
  "base_cost F m =
     (if 0 < prm_median_fee m then prm_median_fee m
      else let age_factor = fm_ln F (f_add f_one (f_of_word (prm_network_age_blocks m)))
           in f_to_word (f_mul (f_mul ETA age_factor) (f_of_rat 1000)))"

definition size_adjusted_hardness :: "float_ext \<Rightarrow> pricing_metrics \<Rightarrow> data_category \<Rightarrow> u64 \<Rightarrow> f64" where
  "size_adjusted_hardness F m category problem_size =
     f_mul (category_hardness m category) (f_add f_one (f_mul (fm_ln F (f_of_word problem_size)) ETA))"

record price_point =
  ppt_block :: u64
  ppt_price :: u128
  ppt_demand :: u64
  ppt_supply :: u64

record category_market =
  cm_category :: data_category
  cm_demand_active :: u64
  cm_supply_available :: u64
  cm_current_price :: u128
  cm_price_ema :: f64
  cm_total_volume :: u128
  cm_trade_count :: u64
  cm_last_update_block :: u64
  cm_price_history :: "price_point list"

definition calculate_base_price :: "float_ext \<Rightarrow> data_category \<Rightarrow> u64 \<Rightarrow> pricing_metrics \<Rightarrow> u128" where
  "calculate_base_price F category problem_size m =
     f_to_word (f_mul (f_of_word (base_cost F m)) (size_adjusted_hardness F m category problem_size))"

definition category_market_new :: "float_ext \<Rightarrow> data_category \<Rightarrow> pricing_metrics \<Rightarrow> category_market" where
  "category_market_new F category m =
     (let initial_price = calculate_base_price F category 50 m in
      \<lparr>cm_category = category, cm_demand_active = 0, cm_supply_available = 0, cm_current_price = initial_price,
       cm_price_ema = f_of_word initial_price, cm_total_volume = 0, cm_trade_count = 0, cm_last_update_block = 0,
       cm_price_history = []\<rparr>)"

definition demand_ratio :: "category_market \<Rightarrow> f64" where
  "demand_ratio c =
     (if 0 < cm_supply_available c then f_div (f_of_word (cm_demand_active c)) (f_of_word (cm_supply_available c))
      else if 0 < cm_demand_active c
        then let phi = f_of_rat (1618033988749895 / 10 ^ 15) in f_mul phi phi
      else f_one)"

definition category_price :: "float_ext \<Rightarrow> u64 \<Rightarrow> pricing_metrics \<Rightarrow> category_market \<Rightarrow> u128" where
  "category_price F problem_size m c =
     (let base_price = calculate_base_price F (cm_category c) problem_size m;
          multiplier = f_add f_one (f_mul ETA (demand_ratio c))
      in f_to_word (f_mul (f_of_word base_price) multiplier))"

definition add_demand :: "u64 \<Rightarrow> category_market \<Rightarrow> category_market" where
  "add_demand n c = c\<lparr>cm_demand_active := cm_demand_active c + n\<rparr>"

definition remove_demand :: "u64 \<Rightarrow> category_market \<Rightarrow> category_market" where
  "remove_demand n c = c\<lparr>cm_demand_active := saturating_sub_word (cm_demand_active c) n\<rparr>"

definition add_supply :: "u64 \<Rightarrow> category_market \<Rightarrow> category_market" where
  "add_supply n c = c\<lparr>cm_supply_available := cm_supply_available c + n\<rparr>"

definition remove_supply :: "u64 \<Rightarrow> category_market \<Rightarrow> category_market" where
  "remove_supply n c = c\<lparr>cm_supply_available := saturating_sub_word (cm_supply_available c) n\<rparr>"

definition record_trade :: "u128 \<Rightarrow> u64 \<Rightarrow> category_market \<Rightarrow> category_market" where
  "record_trade price block c =
     c\<lparr>cm_total_volume := cm_total_volume c + price, cm_trade_count := cm_trade_count c + 1, cm_last_update_block := block,
       cm_price_ema := f_add (f_mul ETA (f_of_word price)) (f_mul (f_sub f_one ETA) (cm_price_ema c))\<rparr>"

definition update_price :: "float_ext \<Rightarrow> u64 \<Rightarrow> u64 \<Rightarrow> pricing_metrics \<Rightarrow> category_market \<Rightarrow> category_market" where
  "update_price F problem_size block m c =
     (let new_price = category_price F problem_size m c;
          h = cm_price_history c @ [\<lparr>ppt_block = block, ppt_price = new_price, ppt_demand = cm_demand_active c,
            ppt_supply = cm_supply_available c\<rparr>]
      in c\<lparr>cm_current_price := new_price, cm_price_history := (if 100 < length h then drop 1 h else h),
           cm_last_update_block := block\<rparr>)"

definition calculate_volatility :: "float_ext \<Rightarrow> category_market \<Rightarrow> f64" where
  "calculate_volatility F c =
     (if length (cm_price_history c) < 2 then f_zero
      else let prices = map (f_of_word \<circ> ppt_price) (cm_price_history c);
               mean = f_div (f_sum prices) (f_of_nat (length prices));
               variance = f_div (f_sum (map (\<lambda>p. fm_powi F (f_sub p mean) 2) prices)) (f_of_nat (length prices));
               std_dev = fm_sqrt F variance
           in if f_lt f_zero mean then f_div std_dev mean else f_zero)"

record market_stats =
  mst_category :: data_category
  mst_current_price :: u128
  mst_price_ema :: f64
  mst_avg_price_24h :: u128
  mst_demand_active :: u64
  mst_supply_available :: u64
  mst_demand_supply_ratio :: f64
  mst_total_volume :: u128
  mst_trade_count :: u64
  mst_volatility :: f64

definition market_stats_of :: "float_ext \<Rightarrow> category_market \<Rightarrow> market_stats" where
  "market_stats_of F c =
     \<lparr>mst_category = cm_category c, mst_current_price = cm_current_price c, mst_price_ema = cm_price_ema c,
      mst_avg_price_24h = (if cm_price_history c \<noteq> []
        then sum_list (map ppt_price (cm_price_history c)) div of_nat (length (cm_price_history c)) else cm_current_price c),
      mst_demand_active = cm_demand_active c, mst_supply_available = cm_supply_available c,
      mst_demand_supply_ratio = (if 0 < cm_supply_available c
        then f_div (f_of_word (cm_demand_active c)) (f_of_word (cm_supply_available c)) else FInf False),
      mst_total_volume = cm_total_volume c, mst_trade_count = cm_trade_count c, mst_volatility = calculate_volatility F c\<rparr>"

record pricing_engine =
  pe_markets :: "(data_category \<times> category_market) list"
  pe_current_block :: u64
  pe_metrics :: pricing_metrics

definition pricing_engine_new :: "float_ext \<Rightarrow> u64 \<Rightarrow> pricing_engine" where
  "pricing_engine_new F network_age =
     (let m = pricing_bootstrap F network_age in
      \<lparr>pe_markets = fold (\<lambda>cat. AList.update (category_from_u8 (of_nat cat)) (category_market_new F (category_from_u8 (of_nat cat)) m))
         [0..<10] [], pe_current_block = network_age, pe_metrics = m\<rparr>)"

definition pe_update_metrics :: "pricing_metrics \<Rightarrow> pricing_engine \<Rightarrow> pricing_engine" where
  "pe_update_metrics m e = e\<lparr>pe_metrics := m\<rparr>"

definition pe_record_solve_time :: "data_category \<Rightarrow> f64 \<Rightarrow> pricing_engine \<Rightarrow> pricing_engine" where
  "pe_record_solve_time category solve_time e =
     (let m = (pe_metrics e)\<lparr>prm_solve_times := AList.update category solve_time (prm_solve_times (pe_metrics e))\<rparr>
      in e\<lparr>pe_metrics := (if category = Sat3 then m\<lparr>prm_baseline_solve_time := f_max solve_time min_baseline\<rparr> else m)\<rparr>)"

definition pe_update_median_fee :: "u128 \<Rightarrow> pricing_engine \<Rightarrow> pricing_engine" where
  "pe_update_median_fee fee e = e\<lparr>pe_metrics := (pe_metrics e)\<lparr>prm_median_fee := fee\<rparr>\<rparr>"

definition pe_set_block :: "u64 \<Rightarrow> pricing_engine \<Rightarrow> pricing_engine" where
  "pe_set_block block e = e\<lparr>pe_current_block := block, pe_metrics := (pe_metrics e)\<lparr>prm_network_age_blocks := block\<rparr>\<rparr>"

definition pe_get_market :: "pricing_engine \<Rightarrow> data_category \<Rightarrow> category_market option" where
  "pe_get_market e category = map_of (pe_markets e) category"

definition pe_get_price :: "float_ext \<Rightarrow> pricing_engine \<Rightarrow> data_category \<Rightarrow> u64 \<Rightarrow> u128" where
  "pe_get_price F e category problem_size = (case map_of (pe_markets e) category of
     None \<Rightarrow> base_cost F (pe_metrics e) | Some c \<Rightarrow> category_price F problem_size (pe_metrics e) c)"

text \<open>\<open>get_mut\<close> and a change of the entry.\<close>

definition on_market :: "data_category \<Rightarrow> (category_market \<Rightarrow> category_market) \<Rightarrow> pricing_engine \<Rightarrow> pricing_engine" where
  "on_market category f e = (case map_of (pe_markets e) category of None \<Rightarrow> e
     | Some c \<Rightarrow> e\<lparr>pe_markets := AList.update category (f c) (pe_markets e)\<rparr>)"

record buy_order =
  bo_category :: data_category
  bo_problem_size :: u64
  bo_price :: u128
  bo_block :: u64
  bo_timestamp :: i64

definition submit_buy_order :: "float_ext \<Rightarrow> i64 \<Rightarrow> data_category \<Rightarrow> u64 \<Rightarrow> pricing_engine \<Rightarrow> buy_order \<times> pricing_engine" where
  "submit_buy_order F now category problem_size e =
     (\<lparr>bo_category = category, bo_problem_size = problem_size, bo_price = pe_get_price F e category problem_size,
       bo_block = pe_current_block e, bo_timestamp = now\<rparr>,
      on_market category (\<lambda>c. update_price F problem_size (pe_current_block e) (pe_metrics e) (add_demand 1 c)) e)"

definition pe_submit_solution :: "float_ext \<Rightarrow> data_category \<Rightarrow> u64 \<Rightarrow> pricing_engine \<Rightarrow> pricing_engine" where
  "pe_submit_solution F category problem_size e =
     on_market category (\<lambda>c. update_price F problem_size (pe_current_block e) (pe_metrics e) (add_supply 1 c)) e"

record trade_result =
  trr_category :: data_category
  trr_market_price :: u128
  trr_agreed_price :: u128
  trr_block :: u64
  trr_slippage :: f64

definition execute_trade :: "float_ext \<Rightarrow> data_category \<Rightarrow> u64 \<Rightarrow> u128 \<Rightarrow> pricing_engine \<Rightarrow> trade_result \<times> pricing_engine" where
  "execute_trade F category problem_size agreed_price e =
     (let market_price = pe_get_price F e category problem_size in
      (\<lparr>trr_category = category, trr_market_price = market_price, trr_agreed_price = agreed_price, trr_block = pe_current_block e,
        trr_slippage = (if 0 < market_price
          then f_div (f_abs (f_sub (f_of_word agreed_price) (f_of_word market_price))) (f_of_word market_price) else f_zero)\<rparr>,
       on_market category (\<lambda>c. update_price F problem_size (pe_current_block e) (pe_metrics e)
         (record_trade agreed_price (pe_current_block e) (remove_supply 1 (remove_demand 1 c)))) e))"

definition update_all_markets :: "float_ext \<Rightarrow> u64 \<Rightarrow> pricing_engine \<Rightarrow> pricing_engine" where
  "update_all_markets F avg_problem_size e =
     e\<lparr>pe_markets := map (\<lambda>(k, c). (k, update_price F avg_problem_size (pe_current_block e) (pe_metrics e) c)) (pe_markets e)\<rparr>"

definition pe_all_stats :: "float_ext \<Rightarrow> pricing_engine \<Rightarrow> market_stats list" where
  "pe_all_stats F e = map (market_stats_of F \<circ> snd) (pe_markets e)"

record global_pricing_stats =
  gps_total_demand :: u64
  gps_total_supply :: u64
  gps_global_ratio :: f64
  gps_avg_price :: u128
  gps_total_volume :: u128
  gps_total_trades :: u64
  gps_active_markets :: nat
  gps_base_cost :: u128
  gps_network_age :: u64

definition pe_global_stats :: "float_ext \<Rightarrow> pricing_engine \<Rightarrow> global_pricing_stats" where
  "pe_global_stats F e =
     (let cs = map snd (pe_markets e); total_demand = sum_list (map cm_demand_active cs);
          all_supply = sum_list (map cm_supply_available cs)
      in \<lparr>gps_total_demand = total_demand, gps_total_supply = all_supply,
          gps_global_ratio = (if 0 < all_supply then f_div (f_of_word total_demand) (f_of_word all_supply) else f_zero),
          gps_avg_price = (if cs \<noteq> [] then sum_list (map cm_current_price cs) div of_nat (length cs) else 0),
          gps_total_volume = sum_list (map cm_total_volume cs), gps_total_trades = sum_list (map cm_trade_count cs),
          gps_active_markets = length cs, gps_base_cost = base_cost F (pe_metrics e),
          gps_network_age = prm_network_age_blocks (pe_metrics e)\<rparr>)"

section \<open>Every category keeps its market\<close>

text \<open>Each category has one market, filed under its own name, with at most a hundred prices of history.\<close>

definition pricing_ok :: "pricing_engine \<Rightarrow> bool" where
  "pricing_ok e \<longleftrightarrow> (\<forall>k. \<exists>c. map_of (pe_markets e) k = Some c \<and> cm_category c = k \<and> length (cm_price_history c) \<le> 100)"

inductive pricing_step :: "float_ext \<Rightarrow> pricing_engine \<Rightarrow> pricing_engine \<Rightarrow> bool" for F where
  "pricing_step F e (pe_update_metrics m e)"
| "pricing_step F e (pe_record_solve_time k t e)"
| "pricing_step F e (pe_update_median_fee fee e)"
| "pricing_step F e (pe_set_block b e)"
| "pricing_step F e (snd (submit_buy_order F now k n e))"
| "pricing_step F e (pe_submit_solution F k n e)"
| "pricing_step F e (snd (execute_trade F k n price e))"
| "pricing_step F e (update_all_markets F n e)"

lemma pricing_ok_new: "pricing_ok (pricing_engine_new F n)"
proof -
  have "\<exists>c. map_of (pe_markets (pricing_engine_new F n)) k = Some c \<and> cm_category c = k \<and> length (cm_price_history c) \<le> 100" for k
    by (cases k) (simp_all add: pricing_engine_new_def Let_def upt_rec category_from_u8_def update_conv' category_market_new_def)
  then show ?thesis by (simp add: pricing_ok_def)
qed

lemma market_fields [simp]:
  "cm_category (update_price F n b m c) = cm_category c"
  "cm_category (add_demand i c) = cm_category c" "cm_category (add_supply i c) = cm_category c"
  "cm_category (remove_demand i c) = cm_category c" "cm_category (remove_supply i c) = cm_category c"
  "cm_category (record_trade p b c) = cm_category c"
  "cm_price_history (add_demand i c) = cm_price_history c" "cm_price_history (add_supply i c) = cm_price_history c"
  "cm_price_history (remove_demand i c) = cm_price_history c" "cm_price_history (remove_supply i c) = cm_price_history c"
  "cm_price_history (record_trade p b c) = cm_price_history c"
  by (simp_all add: update_price_def Let_def add_demand_def add_supply_def remove_demand_def remove_supply_def record_trade_def)

lemma update_price_history: "length (cm_price_history c) \<le> 100 \<Longrightarrow> length (cm_price_history (update_price F n b m c)) \<le> 100"
  by (auto simp: update_price_def Let_def)

lemma on_market_ok:
  assumes "pricing_ok e" and "\<And>c. cm_category (f c) = cm_category c"
    and "\<And>c. length (cm_price_history c) \<le> 100 \<Longrightarrow> length (cm_price_history (f c)) \<le> 100"
  shows "pricing_ok (on_market k f e)"
proof -
  have "\<exists>c. map_of (pe_markets (on_market k f e)) j = Some c \<and> cm_category c = j \<and> length (cm_price_history c) \<le> 100" for j
  proof -
    obtain c c' where "map_of (pe_markets e) j = Some c" "cm_category c = j" "length (cm_price_history c) \<le> 100"
      and "map_of (pe_markets e) k = Some c'" using assms(1) unfolding pricing_ok_def by metis
    then show ?thesis using assms(2,3) by (cases "j = k") (auto simp: on_market_def update_conv')
  qed
  then show ?thesis by (simp add: pricing_ok_def)
qed

lemma pricing_ok_same [simp]:
  "pricing_ok (e\<lparr>pe_metrics := m\<rparr>) = pricing_ok e" "pricing_ok (e\<lparr>pe_current_block := b\<rparr>) = pricing_ok e"
  by (simp_all add: pricing_ok_def)

lemma pricing_step_ok: "pricing_step F e e' \<Longrightarrow> pricing_ok e \<Longrightarrow> pricing_ok e'"
proof (induction rule: pricing_step.induct)
  case (8 e n)
  have "map_of (pe_markets (update_all_markets F n e)) j =
      map_option (update_price F n (pe_current_block e) (pe_metrics e)) (map_of (pe_markets e) j)" for j
    by (simp add: update_all_markets_def map_of_map)
  then show ?case using 8 update_price_history unfolding pricing_ok_def by (metis (no_types) market_fields(1) option.map(2))
qed (auto simp: submit_buy_order_def pe_submit_solution_def execute_trade_def Let_def update_price_history
      pe_update_metrics_def pe_record_solve_time_def pe_update_median_fee_def pe_set_block_def intro!: on_market_ok)

lemma pricing_runs_ok: "(pricing_step F)\<^sup>*\<^sup>* (pricing_engine_new F n) e \<Longrightarrow> pricing_ok e"
  by (induction rule: rtranclp_induct) (auto intro: pricing_step_ok pricing_ok_new)

text \<open>So a price is always that of the market of its category, and demand and supply never go below zero.\<close>

lemma price_of_category:
  assumes "pricing_ok e"
  obtains c where "map_of (pe_markets e) k = Some c" and "pe_get_price F e k n = category_price F n (pe_metrics e) c"
  using assms unfolding pricing_ok_def pe_get_price_def by (metis option.simps(5))

lemma trade_takes_one:
  assumes "map_of (pe_markets e) k = Some c" and "map_of (pe_markets (snd (execute_trade F k n p e))) k = Some c'"
  shows "unat (cm_demand_active c') = unat (cm_demand_active c) - 1" and "unat (cm_supply_available c') = unat (cm_supply_available c) - 1"
    and "cm_total_volume c' = cm_total_volume c + p"
  using assms by (auto simp: execute_trade_def Let_def on_market_def update_conv' update_price_def record_trade_def
      remove_supply_def remove_demand_def unat_saturating_sub)

text \<open>A trade is recorded at any agreed price, also without demand or supply.\<close>

lemma trade_without_offer:
  assumes "map_of (pe_markets e) k = Some c" and "cm_demand_active c = 0" and "cm_supply_available c = 0"
  shows "\<exists>c'. map_of (pe_markets (snd (execute_trade F k n p e))) k = Some c' \<and> cm_trade_count c' = cm_trade_count c + 1"
  using assms by (simp add: execute_trade_def Let_def on_market_def update_conv' update_price_def record_trade_def
      remove_supply_def remove_demand_def)

end
