(* ===== verification/Spec2Isabelle.thy ===== *)
theory Spec2Isabelle
  imports Node_Chain Properties_Consensus Properties_Node Properties_Exchange Properties_Tokenomics
    Properties_Light Properties_Network Mempool_Fees Mempool_Marketplace Mempool_Pricing
begin

text \<open>
  A verification development for COINjecture, a proof-of-useful-work blockchain written in Rust. It
  models the node's own logic as HOL functions over explicit state and proves what makes it correct,
  and where it is not.

  \<^bold>\<open>The program.\<close> The \<open>core\<close> crate holds the data of the chain (addresses, transactions, blocks), the
  stateless checks, the problems that miners solve, the commitments they bind their solutions with,
  the Merkle trees, and the deterministic arithmetic. The \<open>state\<close> crate holds one manager per
  kind of state (accounts, time locks, escrows, channels, trust lines, dimensional pools, marketplace), each
  over tables of redb, an embedded database. \<open>node/src/service/block_processing.rs\<close> is the transition
  function of the ledger: it applies the transactions of a block to the seven managers and unwinds them
  in a reorganisation.

  \<^bold>\<open>The theories.\<close>
  \<^item> \<open>CJ_Prelude\<close>: machine integers, \<open>Result\<close>, shared lemmas. \<open>CJ_Table\<close>: the contract of redb's ordered tables
    as a locale (\<open>ordered_table\<close>), interpreted for sorted association lists. \<open>CJ_Machine\<close>: two contracts
    shared by clients, a store whose entries only make certain moves (\<open>entry_machine\<close>) and runs under a budget
    (\<open>budgeted\<close>). \<open>CJ_Float64\<close>: IEEE binary64 over the rationals, with rounding to even.
  \<^item> \<open>Core_Types\<close>, \<open>Core_Validation\<close>, \<open>Core_Problem\<close>, \<open>Core_Fixed_Point\<close>, \<open>Core_Golden\<close>,
    \<open>Core_Crypto\<close>, \<open>Core_Commitment\<close>, \<open>Core_Privacy\<close>, \<open>Core_Transaction\<close>, \<open>Core_Block\<close>, \<open>Core_Dimensional\<close>: the
    files of \<open>core/src\<close> of these names (\<open>types.rs\<close> and the keys of \<open>crypto.rs\<close> in \<open>Core_Types\<close>). A struct is a record with a field prefix (\<open>tr_\<close> for
    \<open>TransferTransaction\<close>), an enum a datatype, a method \<open>T::f\<close> a definition \<open>t_f\<close>.
  \<^item> \<open>State_Accounts\<close>, \<open>State_Timelocks\<close>, \<open>State_Escrows\<close>, \<open>State_Channels\<close>, \<open>State_Trustlines\<close>, \<open>State_Pools\<close>,
    \<open>State_Marketplace\<close>: the managers of \<open>state/src\<close>. A manager's tables are its state; an operation takes the
    state and returns its \<open>Result\<close> and the state it leaves, so that the writes before an error are kept. The
    escrow, channel, trust line and marketplace stores interpret \<open>entry_machine\<close>.
  \<^item> \<open>Node_Ledger\<close>: \<open>apply_single_transaction\<close>, one definition per match arm, and \<open>apply_block_transactions\<close>.
    \<open>Node_Unwind\<close>: \<open>unwind_single_transaction\<close> and \<open>unwind_block_transactions\<close>. \<open>Node_Supply\<close> defines the money of
    the ledger and says what each branch does to it; \<open>Node_Chain\<close> lifts that to blocks and chains of blocks
    (\<open>budgeted\<close>), and the escrow and channel machines to the ledger.
  \<^item> \<open>Node_Validator\<close> (\<open>node/src/validator.rs\<close>): what a block must pass before it is applied; \<open>Tokenomics_Rewards\<close>: the block
    reward. \<open>Node_Store\<close> (\<open>node/src/chain.rs\<close>): the block store, its metadata, height index and cache, and the moves of the
    best tip. \<open>Node_Sync\<close> (\<open>sync_canonical.rs\<close>): the ranges
    of blocks to ask for. \<open>Node_Chain_Spec\<close>: the common ancestor the store computes is the highest, and the store refines an
    abstract one, a list of blocks (\<open>refines\<close> of \<open>CJ_Machine\<close>). \<open>Node_Peers\<close> (\<open>peer_consensus.rs\<close>): the peers' tips, agreement, when to mine. \<open>Node_Fork\<close>
    (\<open>service/fork.rs\<close>): choosing and adopting a fork, and the periodic scan that looks for one. \<open>Node_Light_Sync\<close>
    (\<open>light_sync.rs\<close>): the Merkle mountain range, FlyClient proofs, their server and verifier;
    \<open>Node_Light_Client\<close> (\<open>light_client.rs\<close>): the header store of a light node, its sync manager, SPV proofs.
  \<^item> \<open>Mempool_Pool\<close> (\<open>mempool/src/pool.rs\<close>): the transaction pool and its block template. \<open>Mempool_Fees\<close>
    (\<open>fee_market.rs\<close>), \<open>Mempool_Marketplace\<close> (\<open>marketplace.rs\<close>, \<open>mining_incentives.rs\<close>) and \<open>Mempool_Pricing\<close>
    (\<open>data_pricing.rs\<close>): the base fee, the bounty market in memory and the prices of problem categories.
  \<^item> \<open>Consensus_Difficulty\<close> (with \<open>problem_registry.rs\<close>), \<open>Consensus_Work_Score\<close>: the files of \<open>consensus/src\<close> of these names.
    \<open>Consensus_Solvers\<close> and \<open>Consensus_Miner\<close> (\<open>miner.rs\<close>): the solvers, and the generation of problems, the nonce search and
    the building of blocks. \<open>Consensus_Commit\<close> and \<open>Consensus_Coordinator\<close> (\<open>coordinator/\<close>): leaders, epochs, the collector
    of commits, and the coordinator as a relation over commands and timers. The theories named \<open>_Facts\<close> hold their lemmas.
    \<open>Tokenomics_Metrics\<close>: the metrics of the network. \<open>CJ_Float_Facts\<close>: monotonicity and exactness of rounding,
    and why a share between 0 and 1 of an integer is at most that integer.
  \<^item> \<open>Tokenomics_Pools\<close>, \<open>Tokenomics_Governance\<close>, \<open>Tokenomics_Staking\<close>, \<open>Tokenomics_Emission\<close> (with \<open>deflation.rs\<close>),
    \<open>Tokenomics_Distributor\<close> (with \<open>dimensions.rs\<close>), \<open>Tokenomics_Amm\<close>, \<open>Tokenomics_Bounty\<close> (\<open>bounty_pricing.rs\<close>): the files of
    \<open>tokenomics/src\<close> of these names.
  \<^item> \<open>Api_Order_Book\<close> and \<open>Api_Engine\<close> (\<open>api-server/src/matching\<close>): the order book; its lemmas and the engine that owns one per pair.
  \<^item> The peer-to-peer network, \<open>network/src\<close>: \<open>Network_Admission\<close> (\<open>security.rs\<close>: connection limits, bans, the subnet guard),
    \<open>Network_Rate\<close> (the same file: token buckets, metrics, seed validation; and \<open>cpp/flow_control.rs\<close>),
    \<open>Network_Peer_Store\<close> (\<open>peer_store.rs\<close>, \<open>peer_scoring.rs\<close>, \<open>pex.rs\<close>), \<open>Network_Router\<close> (\<open>cpp/router.rs\<close>, \<open>cpp/flock.rs\<close>),
    \<open>Network_Protocol\<close> (\<open>cpp/protocol.rs\<close>, \<open>cpp/message.rs\<close>, \<open>cpp/version.rs\<close>: frames on a byte stream), \<open>Network_Session\<close>
    (\<open>cpp/encryption.rs\<close>), \<open>Network_Peer\<close> (\<open>cpp/peer.rs\<close>, \<open>cpp/node_integration.rs\<close>, \<open>cpp/block_provider.rs\<close>), and the service of
    \<open>cpp/network.rs\<close>: \<open>Network_Service\<close> its state, accepting and dialling, the message loop and its handlers,
    \<open>Network_Run\<close> broadcasts, timers and commands, and \<open>net_step\<close>, one turn of the event loop or of a task. A run is a list of
    such turns in any order; \<open>Network_Run_Facts\<close> proves what every run keeps.
  \<^item> \<open>Properties_Core\<close>, \<open>Properties_State\<close>, \<open>Properties_Consensus\<close>, \<open>Properties_Node\<close>, \<open>Properties_Exchange\<close>,
    \<open>Properties_Tokenomics\<close>, \<open>Properties_Light\<close>, \<open>Properties_Network\<close> and this theory: the properties C1 to C40, each with an
    instance where it has hypotheses.

  \<^bold>\<open>Conventions.\<close> \<open>u8\<close> to \<open>u128\<close> and \<open>i32\<close> to \<open>i128\<close> are words of their width, and \<open>+\<close>, \<open>-\<close>, \<open>*\<close> wrap around, as
  in the release profile of the workspace, which leaves overflow checks off. \<open>[u8; 32]\<close> is a 256-bit word
  read big-endian. \<open>f64\<close> values are computed exactly and rounded; \<open>exp\<close>, \<open>sqrt\<close>, \<open>powi\<close>, \<open>log2\<close>, whose precision
  Rust leaves open, are the fields of \<open>float_ext\<close>. A panic is \<open>None\<close>. The clock is an argument: \<open>now\<close>, or
  \<open>clock i\<close> for the \<open>i\<close>-th transaction of a block.

  \<^bold>\<open>Parameters.\<close> BLAKE3, Ed25519, SHA-256, bincode and \<open>serde_json\<close> are other crates: \<open>crypto_ext\<close>, \<open>codec_ext\<close>, \<open>tx_codec\<close>,
  \<open>block_codec\<close>, \<open>privacy_ext\<close>. Where a property relies on them it says so: \<open>no_collision\<close> names the strings whose hashes
  must differ, \<open>signing_correct\<close> says that a signature made with a key verifies under it. The network takes its
  serialisers as \<open>wire_codec\<close>, X25519, the AEAD and the key derivation as \<open>session_ext\<close>; \<open>net_env\<close> collects them. \<open>Decimal\<close>, the type of prices and quantities of the exchange, is any
  linearly ordered group; \<open>exp_ok\<close> says that \<open>exp\<close> maps non-positive numbers into the unit interval.

  \<^bold>\<open>Bounds.\<close> There is no fuel. Loops are recursive functions with a termination proof, but for four:
  the golden stream hashes until enough bits pass a test, 2-opt stops with the clock, and two walks of the block store end
  only where the parents do. They are partial functions: C31 says exactly when the stream returns, \<open>generated_tour_is_found\<close>
  that the tour search does, and \<open>chain_ok\<close> makes the walks end.
  The money theorems assume a total below \<open>2 ^ 128\<close>, the range of a balance, and show that then nothing wraps.

  \<^bold>\<open>What the lemmas show.\<close> For each manager: the \<open>_Inr\<close> lemmas characterise the accepted calls, the \<open>_Inl\<close> lemmas say that
  a rejected one changes nothing, the \<open>_ok\<close> lemmas keep the invariant of the store, and the machine gives the facts
  about runs. For the ledger: the \<open>_money\<close> lemmas account for every atom of a branch, failed ones included, the
  \<open>_ok\<close> lemmas keep \<open>ledger_ok\<close>. C1 to C32 are what the code guarantees; C33 to C40 are defects, each proved on the
  model of the code as it is.

  \<^bold>\<open>Not modelled.\<close> Failing disks and undecodable bytes in the tables; base58 and \<open>Debug\<close> output; key generation; the
  measurement functions of the pools (\<open>measure_eta_from_work_scores\<close> and its neighbours) and their two tables. Of the
  node: backups and compaction of the store, the event loop and the block buffer. Of the network: the mesh transport, noise
  and discovery, none of which \<open>cpp/network.rs\<close> uses, and interleavings inside a turn: a turn holds its locks to its end.
  The crates \<open>adzdb\<close>, \<open>rpc\<close>, \<open>wallet\<close> and the tools around them, which are storage, front ends and clients of the modelled parts.
\<close>

section \<open>Instances\<close>

text \<open>Concrete data for the instances of the properties below: the external functions, a ledger in
  which address 3 owns 100 atoms, and a chain of one block that carries a transfer of 5 with a fee of 6.\<close>

definition demo_node :: node_ext where
  "demo_node = \<lparr>nx_privacy = demo_privacy, nx_codec = demo_tx_codec, nx_float = demo_float\<rparr>"

definition empty_ledger :: ledger where
  "empty_ledger = \<lparr>lg_accounts = account_new, lg_timelocks = [], lg_escrows = [], lg_channels = [],
     lg_trustlines = [], lg_pools = pool_state_new, lg_market = marketplace_new\<rparr>"

definition demo_ledger :: ledger where
  "demo_ledger = put_balance (Address 3) 100 empty_ledger"

lemma empty_ledger_ok: "ledger_ok empty_ledger"
  by (simp add: ledger_ok_def empty_ledger_def escrow_ok_def channels_wf_def channel_ok_def get_channel_def)

lemma demo_ledger_ok: "ledger_ok demo_ledger"
  by (simp add: demo_ledger_def empty_ledger_ok)

lemma bal_empty: "bal empty_ledger a = 0"
  by (simp add: bal_def empty_ledger_def account_new_def get_balance_def)

lemma bal_demo: "bal demo_ledger a = (if a = Address 3 then 100 else 0)"
  by (simp add: demo_ledger_def bal_empty)

lemma nonce_demo: "get_nonce (lg_accounts demo_ledger) a = 0"
  by (simp add: demo_ledger_def) (simp add: empty_ledger_def account_new_def get_nonce_def)

lemma timelocks_demo: "lg_timelocks demo_ledger = []"
  by (simp add: demo_ledger_def) (simp add: empty_ledger_def)

lemma money_empty: "money empty_ledger = 0"
  by (simp add: money_def empty_ledger_def total_balance_def account_new_def total_timelocked_def
      total_escrowed_def total_bounties_def marketplace_new_def)

lemma money_demo: "money demo_ledger = 100"
  using ledger_ok_parts(1)[OF empty_ledger_ok]
  by (simp add: demo_ledger_def money_put_balance bal_empty money_empty)

definition demo_chain :: "((nat \<Rightarrow> i64) \<times> block) list" where
  "demo_chain = [((\<lambda>_. 0), demo_block 0)]"

lemma demo_chain_runs: "\<exists>l'. run_list (run_block demo_node) demo_chain l = Some l'"
  by (simp add: demo_chain_def run_block_def apply_block_transactions_def demo_block_def demo_transaction_def
      new_transfer_def clocked_def Let_def split: sum.split prod.split)

lemma demo_chain_Some:
  "run_list (run_block demo_node) demo_chain l = Some (the (run_list (run_block demo_node) demo_chain l))"
  using demo_chain_runs[of l] by auto

section \<open>Money\<close>

text \<open>C1. Over any chain of verified blocks without channel transactions, applied to a well-formed ledger,
  the money in balances, time locks, active escrows and bounties never grows by more than the coinbase
  rewards of the blocks, failed transactions and their partial writes included.\<close>

theorem chain_creates_only_rewards:
  assumes "run_list (run_block N) bs l = Some l'" and "ledger_ok l"
    and "\<forall>p\<in>set bs. \<exists>now. block_verify X B now (snd p)"
    and "\<forall>p\<in>set bs. \<forall>tx\<in>set (blk_transactions (snd p)). \<not> is_channel tx"
    and "money l + (\<Sum>p\<leftarrow>bs. block_reward (snd p)) < 2 ^ 128"
  shows "money l' \<le> money l + (\<Sum>p\<leftarrow>bs. block_reward (snd p))"
proof (rule block_run.run_list_bound[OF assms(1,2) _ assms(5)])
  show "\<forall>p\<in>set bs. block_covered (snd p)"
    using assms(3,4) by (meson block_covered_def covered_def block_verify_iff tx_is_valid_fits)
qed

theorem chain_creates_only_rewards_witness:
  "money (the (run_list (run_block demo_node) demo_chain demo_ledger))
     \<le> money demo_ledger + (\<Sum>p\<leftarrow>demo_chain. block_reward (snd p))"
proof (rule chain_creates_only_rewards[OF demo_chain_Some demo_ledger_ok])
  have "block_verify demo_crypto demo_block_codec 0 (demo_block 0)"
    by (rule demo_block_verifies) code_simp+
  then show "\<forall>p\<in>set demo_chain. \<exists>now. block_verify demo_crypto demo_block_codec now (snd p)"
    by (auto simp: demo_chain_def)
qed (simp_all add: demo_chain_def demo_block_def demo_transaction_def new_transfer_def Let_def
    block_reward_def block_genesis_def coinbase_new_def money_demo)


lemma demo_transaction_applies:
  "apply_single_transaction demo_node 0 1 demo_transaction demo_ledger =
     Some (Inr (), snd (the (apply_single_transaction demo_node 0 1 demo_transaction demo_ledger)))"
  by (simp add: demo_transaction_def new_transfer_def transfer_new_def apply_transfer_def bal_demo Let_def
      word_less_nat_alt)


text \<open>C7. Every chain of blocks keeps the ledger well formed: the tables keyed by their entries' ids, channel
  balances equal to deposits, bounties in escrow exactly for the problems that are owed one.\<close>

theorem chain_keeps_ledger_ok:
  assumes "run_list (run_block N) bs l = Some l'" and "ledger_ok l"
  shows "ledger_ok l'"
  using assms by (rule block_run.run_list_good)

theorem chain_keeps_ledger_ok_witness:
  "ledger_ok (the (run_list (run_block demo_node) demo_chain demo_ledger))"
  by (rule chain_keeps_ledger_ok[OF demo_chain_Some demo_ledger_ok])

section \<open>Escrows and channels over a chain\<close>

text \<open>C5. An escrow is paid out at most once over the life of the chain: once it is released or refunded, its
  record survives every later chain of blocks, and every further release or refund fails and changes
  nothing.\<close>

theorem escrow_paid_once:
  assumes "run_list (run_block N) bs l = Some l'" and "ledger_ok l"
    and "get_escrow (lg_escrows l) i = Some e" and "esc_status e \<noteq> EscrowActive"
  shows "get_escrow (lg_escrows l') i = Some e \<and>
    apply_escrow_release h (tx\<lparr>es_escrow_id := i\<rparr>) l' = (Inl NotAuthorizedReleaseEscrow, l') \<and>
    apply_escrow_refund now h (tx\<lparr>es_escrow_id := i\<rparr>) l' = (Inl NotAuthorizedRefundEscrow, l')"
proof -
  have "escrow_of l' i = Some e"
    by (rule ledger_escrow.final_forever[OF run_blocks_steps[OF assms(1,2)]])
       (use assms(3,4) in \<open>simp_all add: escrow_of_def\<close>)
  with assms(4) show ?thesis
    by (simp add: escrow_of_def apply_escrow_release_def apply_escrow_refund_def can_release_iff can_refund_iff)
qed

definition escrow_ledger :: ledger where
  "escrow_ledger = demo_ledger\<lparr>lg_escrows := tbl_put (Hash 1) demo_escrow []\<rparr>"

definition demo_escrow_tx :: escrow_tx where
  "demo_escrow_tx = \<lparr>es_type = EscrowRelease, es_escrow_id = Hash 1, es_from = Address 2, es_fee = 1,
     es_nonce = 0, es_public_key = PublicKey 2, es_signature = null_signature,
     es_additional_signatures = []\<rparr>"

lemma escrow_ledger_ok: "ledger_ok escrow_ledger"
  using demo_ledger_ok
  by (simp add: ledger_ok_def escrow_ledger_def escrow_ok_def tbl_ok_put demo_escrow_def)

theorem escrow_paid_once_witness:
  "get_escrow (lg_escrows (the (run_list (run_block demo_node) demo_chain escrow_ledger))) (Hash 1) = Some demo_escrow \<and>
   apply_escrow_release 7 (demo_escrow_tx\<lparr>es_escrow_id := Hash 1\<rparr>) (the (run_list (run_block demo_node) demo_chain escrow_ledger))
     = (Inl NotAuthorizedReleaseEscrow, the (run_list (run_block demo_node) demo_chain escrow_ledger)) \<and>
   apply_escrow_refund 9 7 (demo_escrow_tx\<lparr>es_escrow_id := Hash 1\<rparr>) (the (run_list (run_block demo_node) demo_chain escrow_ledger))
     = (Inl NotAuthorizedRefundEscrow, the (run_list (run_block demo_node) demo_chain escrow_ledger))"
  by (rule escrow_paid_once[OF demo_chain_Some escrow_ledger_ok])
     (simp_all add: escrow_ledger_def get_escrow_def, simp add: demo_escrow_def)

text \<open>C33. A cooperative close of a channel that is no longer open fails, but both parties have been credited by
  then: the failed transaction creates the two final balances it names, which nobody checks.\<close>

theorem failed_close_creates_money:
  assumes "get_channel (lg_channels l) (ch_channel_id tx) = Some c" and "chn_status c \<noteq> ChannelOpen"
    and "ch_type tx = ChCooperativeClose a b" and "ledger_ok l" and "money l + uint a + uint b < 2 ^ 128"
  shows "\<exists>l'. apply_single_transaction N now h (Channel tx) l = Some (Inl (ChannelFailure ChannelNotOpen), l') \<and>
    money l' = money l + uint a + uint b"
proof -
  let ?l1 = "put_balance (chn_participant_a c) (bal l (chn_participant_a c) + a) l"
  let ?l2 = "put_balance (chn_participant_b c) (bal ?l1 (chn_participant_b c) + b) ?l1"
  have ok: "account_ok (lg_accounts l)" using assms(4) by (rule ledger_ok_parts)
  have "uint (bal l (chn_participant_a c)) + uint a < 2 ^ 128"
    using bal_le_money[of l "chn_participant_a c"] assms(5) uint_ge_0[of b] by linarith
  from money_credit[OF ok this] have m1: "money ?l1 = money l + uint a" .
  have "uint (bal ?l1 (chn_participant_b c)) + uint b < 2 ^ 128"
    using bal_le_money[of ?l1 "chn_participant_b c"] m1 assms(5) by linarith
  from money_credit[OF account_ok_put(1)[OF ok] this] m1 have "money ?l2 = money l + uint a + uint b" by simp
  moreover have "apply_single_transaction N now h (Channel tx) l =
      Some (Inl (ChannelFailure ChannelNotOpen), ?l2\<lparr>lg_channels := lg_channels l\<rparr>)"
    using assms(1-3) by (simp add: apply_channel_def apply_channel_close_def on_channels_def
        close_cooperative_def Let_def)
  ultimately show ?thesis by simp
qed

definition channel_ledger :: ledger where
  "channel_ledger = demo_ledger\<lparr>lg_channels := tbl_put (Hash 1) (demo_channel ClosedCooperative) []\<rparr>"

definition demo_close_tx :: channel_tx where
  "demo_close_tx = \<lparr>ch_type = ChCooperativeClose 1000 2000, ch_channel_id = Hash 1, ch_from = Address 9,
     ch_fee = 1, ch_nonce = 0, ch_public_key = PublicKey 9, ch_signature = null_signature,
     ch_additional_signatures = []\<rparr>"

theorem failed_close_creates_money_witness:
  "\<exists>l'. apply_single_transaction demo_node 0 7 (Channel demo_close_tx) channel_ledger =
      Some (Inl (ChannelFailure ChannelNotOpen), l') \<and>
    money l' = money channel_ledger + uint (1000 :: u128) + uint (2000 :: u128)"
proof (rule failed_close_creates_money)
  show "get_channel (lg_channels channel_ledger) (ch_channel_id demo_close_tx) = Some (demo_channel ClosedCooperative)"
    by (simp add: channel_ledger_def get_channel_def demo_close_tx_def)
  show "ledger_ok channel_ledger"
    using demo_ledger_ok
    by (simp add: ledger_ok_def channel_ledger_def channels_wf_def channel_ok_def tbl_ok_put get_channel_def
        demo_channel_def is_balanced_def capacity_def)
qed (simp_all add: demo_channel_def demo_close_tx_def channel_ledger_def money_demo)

text \<open>Creating an escrow under an id that is taken fails after the sender has been debited: amount and fee
  are destroyed.\<close>

theorem failed_escrow_destroys_money:
  assumes "es_type tx = EscrowCreate recipient arbiter amount timeout conditions"
    and "get_escrow (lg_escrows l) (es_escrow_id tx) \<noteq> None" and "ledger_ok l"
    and "uint amount + uint (es_fee tx) \<le> uint (bal l (es_from tx))"
  shows "\<exists>l'. apply_single_transaction N now h (Escrow tx) l = Some (Inl (EscrowFailure EscrowAlreadyExists), l') \<and>
    money l' = money l - uint amount - uint (es_fee tx)"
proof -
  let ?a = "es_from tx"
  let ?l2 = "put_nonce ?a (es_nonce tx + 1) (put_balance ?a (bal l ?a - amount - es_fee tx) l)"
  have fit: "uint amount + uint (es_fee tx) < 2 ^ 128"
    using assms(4) uint_lt2p[of "bal l ?a"] by simp
  then have "uint (amount + es_fee tx) = uint amount + uint (es_fee tx)" by (intro uint_add_fits) simp
  then have enough: "\<not> bal l ?a < amount + es_fee tx" using assms(4) by (simp add: word_less_def)
  have "money ?l2 = money l - uint amount - uint (es_fee tx)"
    using money_debit[OF ledger_ok_parts(1)[OF assms(3)] enough fit] by simp
  moreover have "apply_single_transaction N now h (Escrow tx) l =
      Some (Inl (EscrowFailure EscrowAlreadyExists), ?l2\<lparr>lg_escrows := lg_escrows l\<rparr>)"
    using assms(1,2) enough
    by (simp add: apply_escrow_def apply_escrow_create_def on_escrows_def create_escrow_def Let_def)
  ultimately show ?thesis by (simp add: money_escrows)
qed

theorem failed_escrow_destroys_money_witness:
  "\<exists>l'. apply_single_transaction demo_node 0 7 (Escrow (demo_escrow_tx\<lparr>es_from := Address 3,
        es_type := EscrowCreate (Address 4) None 40 9 (Hash 0)\<rparr>)) escrow_ledger =
      Some (Inl (EscrowFailure EscrowAlreadyExists), l') \<and>
    money l' = money escrow_ledger - uint (40 :: u128) -
      uint (es_fee (demo_escrow_tx\<lparr>es_from := Address 3, es_type := EscrowCreate (Address 4) None 40 9 (Hash 0)\<rparr>))"
  by (rule failed_escrow_destroys_money[OF _ _ escrow_ledger_ok])
     (simp_all add: demo_escrow_tx_def escrow_ledger_def bal_demo get_escrow_def)

section \<open>Unwinding\<close>

text \<open>C9. Unwinding an applied transfer restores every balance and every nonce, when it carried the sender's
  current nonce; nothing else of the ledger is touched.\<close>

theorem unwind_undoes_transfer:
  assumes "apply_single_transaction N now h (Transfer tx) l = Some (Inr (), l')"
    and "tr_nonce tx = get_nonce (lg_accounts l) (tr_from tx)" and "tr_nonce tx \<noteq> - 1"
    and "uint (bal l (tr_to tx)) + uint (tr_amount tx) < 2 ^ 128"
  shows "same_reads (snd (unwind_single_transaction N (Transfer tx) l')) l"
  using unwind_apply_transfer[OF _ assms(2-4)] assms(1) by simp

definition demo_transfer :: transfer_tx where
  "demo_transfer = transfer_new demo_crypto (Address 3) (Address 4) 5 6 0 \<lparr>signing_key = 3\<rparr>"

lemma demo_transfer_fields:
  "tr_from demo_transfer = Address 3" "tr_to demo_transfer = Address 4" "tr_amount demo_transfer = 5"
  "tr_fee demo_transfer = 6" "tr_nonce demo_transfer = 0"
  by (simp_all add: demo_transfer_def transfer_new_def Let_def)

theorem unwind_undoes_transfer_witness:
  "same_reads (snd (unwind_single_transaction demo_node (Transfer demo_transfer)
     (snd (the (apply_single_transaction demo_node 0 1 (Transfer demo_transfer) demo_ledger))))) demo_ledger"
proof (rule unwind_undoes_transfer)
  show "apply_single_transaction demo_node 0 1 (Transfer demo_transfer) demo_ledger =
      Some (Inr (), snd (the (apply_single_transaction demo_node 0 1 (Transfer demo_transfer) demo_ledger)))"
    by (simp add: apply_transfer_def demo_transfer_fields bal_demo Let_def word_less_nat_alt)
  show "tr_nonce demo_transfer = get_nonce (lg_accounts demo_ledger) (tr_from demo_transfer)"
    by (simp add: demo_transfer_fields nonce_demo)
qed (simp_all add: demo_transfer_fields bal_demo)

text \<open>Unwinding an applied time lock, whose hash was not in use, removes the lock and restores every balance
  and nonce.\<close>

theorem unwind_undoes_timelock:
  assumes "apply_single_transaction N now h (TimeLock tx) l = Some (Inr (), l')" and "ledger_ok l"
    and "tl_nonce tx = get_nonce (lg_accounts l) (tl_from tx)" and "tl_nonce tx \<noteq> - 1"
    and "get_timelock (lg_timelocks l) (node_hash N (TimeLock tx)) = None"
  shows "same_reads (snd (unwind_single_transaction N (TimeLock tx) l')) l"
proof -
  have "apply_timelock N h tx l = (Inr (), l')" using assms(1) by simp
  from unwind_apply_timelock[OF this assms(3,4) ledger_ok_parts(2)[OF assms(2)] assms(5)]
  show ?thesis by simp
qed

definition demo_timelock :: timelock_tx where
  "demo_timelock = \<lparr>tl_from = Address 3, tl_recipient = Address 4, tl_amount = 50, tl_unlock_time = 99,
     tl_fee = 2, tl_nonce = 0, tl_public_key = PublicKey 3, tl_signature = null_signature\<rparr>"

theorem unwind_undoes_timelock_witness:
  "same_reads (snd (unwind_single_transaction demo_node (TimeLock demo_timelock)
     (snd (the (apply_single_transaction demo_node 0 1 (TimeLock demo_timelock) demo_ledger))))) demo_ledger"
proof (rule unwind_undoes_timelock[OF _ demo_ledger_ok])
  show "apply_single_transaction demo_node 0 1 (TimeLock demo_timelock) demo_ledger =
      Some (Inr (), snd (the (apply_single_transaction demo_node 0 1 (TimeLock demo_timelock) demo_ledger)))"
    by (simp add: apply_timelock_def demo_timelock_def bal_demo Let_def word_less_nat_alt)
qed (simp_all add: demo_timelock_def nonce_demo timelocks_demo get_timelock_def)

text \<open>Unwinding a block does not know which transactions were skipped: a transfer that failed for lack of
  funds is credited back to its sender all the same.\<close>

theorem unwind_credits_skipped_transfer:
  assumes "apply_single_transaction N now h (Transfer tx) l = Some (Inl e, l')" and "tr_from tx \<noteq> tr_to tx"
  shows "l' = l \<and> bal (snd (unwind_single_transaction N (Transfer tx) l')) (tr_from tx) =
    bal l (tr_from tx) + tr_amount tx + tr_fee tx"
  using unwind_skipped_transfer[OF _ assms(2)] assms(1) by simp

theorem unwind_credits_skipped_transfer_witness:
  "empty_ledger = empty_ledger \<and>
   bal (snd (unwind_single_transaction demo_node (Transfer demo_transfer) empty_ledger)) (tr_from demo_transfer) =
    bal empty_ledger (tr_from demo_transfer) + tr_amount demo_transfer + tr_fee demo_transfer"
  by (rule unwind_credits_skipped_transfer[where now = 0 and h = 1 and e = "InsufficientFunds 0 11"])
     (simp_all add: apply_transfer_def demo_transfer_fields bal_empty Let_def word_less_nat_alt)

section \<open>Panics\<close>

text \<open>C10. Applying a transaction panics in one case only, and then always: a solution, paid for and in time, to
  an open problem that it verifies for but whose quality cannot be computed.\<close>

theorem transaction_panics_iff:
  "apply_single_transaction N now h tx l = None \<longleftrightarrow>
     (\<exists>t i sol s p. tx = Marketplace t \<and> mk_operation t = SubmitSolution i sol \<and>
        \<not> bal l (mk_from t) < mk_fee t \<and> get_problem (lg_market l) i = Some s \<and>
        sub_status s = ProblemOpen \<and> sint now \<le> sint (sub_expires_at s) \<and> visible_problem s = Some p \<and>
        solution_verify sol p \<and> solution_quality sol p = None)"
proof
  assume None: "apply_single_transaction N now h tx l = None"
  then obtain t i sol where tx: "tx = Marketplace t" and op: "mk_operation t = SubmitSolution i sol"
    using apply_single_panics by blast
  with None show "\<exists>t i sol s p. tx = Marketplace t \<and> mk_operation t = SubmitSolution i sol \<and>
        \<not> bal l (mk_from t) < mk_fee t \<and> get_problem (lg_market l) i = Some s \<and>
        sub_status s = ProblemOpen \<and> sint now \<le> sint (sub_expires_at s) \<and> visible_problem s = Some p \<and>
        solution_verify sol p \<and> solution_quality sol p = None"
    by (auto simp: apply_marketplace_def apply_submit_solution_def submit_solution_def Let_def
        split: if_splits option.splits sum.splits prod.splits)
next
  assume "\<exists>t i sol s p. tx = Marketplace t \<and> mk_operation t = SubmitSolution i sol \<and>
        \<not> bal l (mk_from t) < mk_fee t \<and> get_problem (lg_market l) i = Some s \<and>
        sub_status s = ProblemOpen \<and> sint now \<le> sint (sub_expires_at s) \<and> visible_problem s = Some p \<and>
        solution_verify sol p \<and> solution_quality sol p = None"
  then show "apply_single_transaction N now h tx l = None"
    by (auto simp: apply_marketplace_def apply_submit_solution_def submit_solution_def put_balance_def Let_def)
qed

text \<open>The marketplace accepts a travelling-salesman problem with no city, and submitting the empty
  tour to it panics: the tour passes the check, and the
  nearest-neighbour baseline marks city 0 in an empty list.\<close>

theorem empty_tour_panics:
  assumes "get_problem (lg_market l) i = Some s" and "sub_mode s = Public (TSP 0 d)"
    and "sub_status s = ProblemOpen" and "sint now \<le> sint (sub_expires_at s)"
    and "mk_operation t = SubmitSolution i (TSPSol [])" and "\<not> bal l (mk_from t) < mk_fee t"
  shows "apply_single_transaction N now h (Marketplace t) l = None"
  using assms quality_TSP_no_cities[of d]
  by (simp add: apply_marketplace_def apply_submit_solution_def submit_solution_def visible_problem_def
      put_balance_def Let_def)

definition crash_tx :: marketplace_tx where
  "crash_tx = \<lparr>mk_operation = SubmitSolution (Hash 1) (TSPSol []), mk_from = Address 3, mk_fee = 0,
     mk_nonce = 0, mk_public_key = PublicKey 3, mk_signature = null_signature\<rparr>"

definition crash_ledger :: ledger where
  "crash_ledger = demo_ledger\<lparr>lg_market := snd (submit_public_problem demo_privacy 0 (TSP 0 []) (Address 3) 5
     f_one 1 None None marketplace_new)\<rparr>"

lemma crash_problem:
  "get_problem (lg_market crash_ledger) (hash_new demo_keys [1]) = Some
     \<lparr>sub_problem_id = hash_new demo_keys [1], sub_mode = Public (TSP 0 []), sub_reveal = None,
      sub_submitter = Address 3, sub_bounty = 5, sub_min_work_score = f_one, sub_submitted_at = 0,
      sub_expires_at = 86400, sub_status = ProblemOpen, sub_solution = None, sub_solver = None,
      sub_title = None, sub_briefing = None\<rparr>"
  by (simp add: crash_ledger_def submit_public_problem_def submit_problem_def mode_check_def
      mode_problem_id_def demo_privacy_def problem_exists_def marketplace_new_def get_problem_def)

theorem empty_tour_panics_witness:
  "apply_single_transaction demo_node 10 7 (Marketplace crash_tx) crash_ledger = None"
proof (rule empty_tour_panics)
  have "hash_new demo_keys [1] = Hash 1" by (simp add: hash_new_def demo_keys_def)
  with crash_problem show "get_problem (lg_market crash_ledger) (Hash 1) = Some
     \<lparr>sub_problem_id = Hash 1, sub_mode = Public (TSP 0 []), sub_reveal = None,
      sub_submitter = Address 3, sub_bounty = 5, sub_min_work_score = f_one, sub_submitted_at = 0,
      sub_expires_at = 86400, sub_status = ProblemOpen, sub_solution = None, sub_solver = None,
      sub_title = None, sub_briefing = None\<rparr>" by simp
qed (simp_all add: crash_tx_def)

end
